(* ===== verification/Prelude.thy ===== *)
theory Prelude
  imports Main "HOL-Library.Word" "HOL-Library.Monad_Syntax"
begin

text \<open>
  Shared vocabulary of the development: the C integer types as machine words, conversions
  between them, and the generic facts on words and lists that the component theories use.
  Signed 32-bit values (\<open>s32\<close>, \<open>int\<close>) of the C code are HOL \<open>int\<close>s; a C conversion from an
  unsigned value to \<open>s32\<close> is \<open>to_s32\<close>.
\<close>

unbundle bit_operations_syntax

section \<open>C integer types\<close>

type_synonym u8 = "8 word"
type_synonym u16 = "16 word"
type_synonym u32 = "32 word"
type_synonym u64 = "64 word"

definition to_s32 :: "u32 \<Rightarrow> int" where
  "to_s32 w = sint w"

definition of_s32 :: "int \<Rightarrow> u32" where
  "of_s32 i = word_of_int i"

abbreviation CLUSTER_EOF :: u32 where
  "CLUSTER_EOF \<equiv> 0xFFFFFFFF"

named_theorems frame_simps \<open>which fields an operation leaves alone\<close>

section \<open>Words\<close>

lemma unat_drop_bit: "unat (drop_bit n w) = unat w div 2 ^ n"
  by (simp add: unat_drop_bit_eq flip: drop_bit_eq_div)

lemma unat_take_bit: "unat (take_bit n w) = unat w mod 2 ^ n"
  for w :: "'a::len word"
  by (simp add: unsigned_take_bit_eq flip: take_bit_eq_mod)

lemma and_mask_word: "w AND mask n = take_bit n w"
  for w :: "'a::len word"
  by (simp add: take_bit_eq_mask)

lemma unat_and_mask: "unat (w AND mask n) = unat w mod 2 ^ n"
  for w :: "'a::len word"
  by (simp add: and_mask_word unat_take_bit)

lemma word_eq_iff_bits: "(\<And>n. n < LENGTH('a) \<Longrightarrow> bit a n = bit b n) \<Longrightarrow> a = b"
  for a b :: "'a::len word"
  by (rule bit_word_eqI) simp

section \<open>Lists\<close>

lemma nth_list_update2 [simp]:
  "i < length xs \<Longrightarrow> j \<noteq> i \<Longrightarrow> xs[i := a, j := b] ! i = a"
  by simp

definition splice_at :: "'a list \<Rightarrow> nat \<Rightarrow> 'a list \<Rightarrow> 'a list" where
  "splice_at xs i ys = take i xs @ ys @ drop (i + length ys) xs"

definition slice_at :: "'a list \<Rightarrow> nat \<Rightarrow> nat \<Rightarrow> 'a list" where
  "slice_at xs i n = take n (drop i xs)"

lemma length_splice_at [simp]:
  "i + length ys \<le> length xs \<Longrightarrow> length (splice_at xs i ys) = length xs"
  by (simp add: splice_at_def)

lemma length_slice_at [simp]: "i + n \<le> length xs \<Longrightarrow> length (slice_at xs i n) = n"
  by (simp add: slice_at_def)

lemma nth_slice_at: "j < n \<Longrightarrow> i + n \<le> length xs \<Longrightarrow> slice_at xs i n ! j = xs ! (i + j)"
  by (simp add: slice_at_def)

lemma slice_splice_same [simp]:
  "i + length ys \<le> length xs \<Longrightarrow> slice_at (splice_at xs i ys) i (length ys) = ys"
  by (simp add: splice_at_def slice_at_def)

lemma nth_splice_at:
  "i + length ys \<le> length xs \<Longrightarrow> j < length xs \<Longrightarrow>
   splice_at xs i ys ! j = (if i \<le> j \<and> j < i + length ys then ys ! (j - i) else xs ! j)"
  by (auto simp: splice_at_def nth_append)

lemma slice_splice_disjoint:
  assumes "i + length ys \<le> length xs" "j + n \<le> length xs" "j + n \<le> i \<or> i + length ys \<le> j"
  shows "slice_at (splice_at xs i ys) j n = slice_at xs j n"
proof (rule nth_equalityI)
  show "length (slice_at (splice_at xs i ys) j n) = length (slice_at xs j n)"
    using assms by simp
next
  fix k assume "k < length (slice_at (splice_at xs i ys) j n)"
  then have "k < n" using assms by simp
  then show "slice_at (splice_at xs i ys) j n ! k = slice_at xs j n ! k"
    using assms by (auto simp: nth_slice_at nth_splice_at)
qed

lemma splice_slice_same: "i + n \<le> length xs \<Longrightarrow> splice_at xs i (slice_at xs i n) = xs"
  by (simp add: splice_at_def slice_at_def add.commute [of i n] flip: drop_drop)

end
