(* ===== verification/Bytes.thy ===== *)
theory Bytes
  imports Prelude
begin

text \<open>
  The little-endian access macros \<open>GET16\<close> .. \<open>SET64\<close> of \<open>exfat_core.h\<close>, on byte buffers
  (\<open>u8 list\<close>) with the byte offset made explicit.  On a little-endian host the \<open>_A\<close> variants
  are the direct loads and stores of the same bytes; on a big-endian host the source defines
  them as the byte-wise macros, so one definition models both.
\<close>

section \<open>The access macros\<close>

definition GET16 :: "u8 list \<Rightarrow> nat \<Rightarrow> u16" where
  "GET16 p i = (ucast (p ! i) OR push_bit 8 (ucast (p ! (i + 1))))"

definition GET32 :: "u8 list \<Rightarrow> nat \<Rightarrow> u32" where
  "GET32 p i = (ucast (p ! i) OR push_bit 8 (ucast (p ! (i + 1)))
     OR push_bit 16 (ucast (p ! (i + 2))) OR push_bit 24 (ucast (p ! (i + 3))))"

definition GET64 :: "u8 list \<Rightarrow> nat \<Rightarrow> u64" where
  "GET64 p i = (ucast (p ! i) OR push_bit 8 (ucast (p ! (i + 1)))
     OR push_bit 16 (ucast (p ! (i + 2))) OR push_bit 24 (ucast (p ! (i + 3)))
     OR push_bit 32 (ucast (p ! (i + 4))) OR push_bit 40 (ucast (p ! (i + 5)))
     OR push_bit 48 (ucast (p ! (i + 6))) OR push_bit 56 (ucast (p ! (i + 7))))"

definition SET16 :: "u8 list \<Rightarrow> nat \<Rightarrow> u16 \<Rightarrow> u8 list" where
  "SET16 p i src = p[i := ucast src, i + 1 := ucast (drop_bit 8 src)]"

definition SET32 :: "u8 list \<Rightarrow> nat \<Rightarrow> u32 \<Rightarrow> u8 list" where
  "SET32 p i src = p[i := ucast src, i + 1 := ucast (drop_bit 8 src),
     i + 2 := ucast (drop_bit 16 src), i + 3 := ucast (drop_bit 24 src)]"

definition SET64 :: "u8 list \<Rightarrow> nat \<Rightarrow> u64 \<Rightarrow> u8 list" where
  "SET64 p i src = p[i := ucast src, i + 1 := ucast (drop_bit 8 src),
     i + 2 := ucast (drop_bit 16 src), i + 3 := ucast (drop_bit 24 src),
     i + 4 := ucast (drop_bit 32 src), i + 5 := ucast (drop_bit 40 src),
     i + 6 := ucast (drop_bit 48 src), i + 7 := ucast (drop_bit 56 src)]"

section \<open>The codec interface\<close>

text \<open>
  What the rest of the driver relies on: a field of \<open>width\<close> bytes is read back as it was
  written, nothing outside the field moves, and a read depends on the field's bytes only.
\<close>

locale byte_codec =
  fixes width :: nat
    and get :: "u8 list \<Rightarrow> nat \<Rightarrow> 'v"
    and put :: "u8 list \<Rightarrow> nat \<Rightarrow> 'v \<Rightarrow> u8 list"
  assumes length_put: "length (put p i v) = length p"
    and get_put: "i + width \<le> length p \<Longrightarrow> get (put p i v) i = v"
    and put_frame: "j < i \<or> i + width \<le> j \<Longrightarrow> put p i v ! j = p ! j"
    and get_cong: "(\<And>k. k < width \<Longrightarrow> p ! (i + k) = q ! (i' + k)) \<Longrightarrow> get p i = get q i'"
begin

lemma get_put_other:
  assumes "j + width \<le> i \<or> i + width \<le> j"
  shows "get (put p i v) j = get p j"
proof (rule get_cong)
  fix k assume "k < width"
  then show "put p i v ! (j + k) = p ! (j + k)"
    using assms by (intro put_frame) auto
qed

lemma get_slice:
  assumes "i + width \<le> n" "off + n \<le> length p"
  shows "get (slice_at p off n) i = get p (off + i)"
proof (rule get_cong)
  fix k assume "k < width"
  then show "slice_at p off n ! (i + k) = p ! (off + i + k)"
    using assms by (simp add: nth_slice_at add.assoc)
qed

lemma get_splice_disjoint:
  assumes "off + length q \<le> length p" "j + width \<le> off \<or> off + length q \<le> j" "j + width \<le> length p"
  shows "get (splice_at p off q) j = get p j"
proof (rule get_cong)
  fix k assume "k < width"
  then show "splice_at p off q ! (j + k) = p ! (j + k)"
    using assms by (subst nth_splice_at) auto
qed

end

section \<open>The macros implement it\<close>

lemma ucast_byte: "ucast (ucast v :: u8) = take_bit 8 v"
  for v :: "'a::len word"
  by (rule bit_word_eqI) (auto simp: bit_ucast_iff bit_take_bit_iff)

lemma or_next_byte: "take_bit n v OR push_bit n (ucast (ucast (drop_bit n v) :: u8)) = take_bit (n + 8) v"
  for v :: "'a::len word"
  unfolding ucast_byte
  by (rule bit_word_eqI) (auto simp: bit_or_iff bit_push_bit_iff bit_drop_bit_eq bit_take_bit_iff)

lemmas or_bytes = or_next_byte [of 8] or_next_byte [of 16] or_next_byte [of 24] or_next_byte [of 32]
  or_next_byte [of 40] or_next_byte [of 48] or_next_byte [of 56]

lemma take_bit_full: "LENGTH('a) \<le> n \<Longrightarrow> take_bit n v = v"
  for v :: "'a::len word"
  by (rule bit_word_eqI) (auto simp: bit_take_bit_iff)

lemma decompose16: "(ucast (ucast v :: u8) OR push_bit 8 (ucast (ucast (drop_bit 8 v) :: u8)) :: u16) = v"
  by (simp add: ucast_byte or_bytes [unfolded ucast_byte] take_bit_full flip: or.assoc)

lemma decompose32:
  "(ucast (ucast v :: u8) OR push_bit 8 (ucast (ucast (drop_bit 8 v) :: u8))
    OR push_bit 16 (ucast (ucast (drop_bit 16 v) :: u8))
    OR push_bit 24 (ucast (ucast (drop_bit 24 v) :: u8)) :: u32) = v"
  by (simp add: ucast_byte or_bytes [unfolded ucast_byte] take_bit_full flip: or.assoc)

lemma decompose64:
  "(ucast (ucast v :: u8) OR push_bit 8 (ucast (ucast (drop_bit 8 v) :: u8))
    OR push_bit 16 (ucast (ucast (drop_bit 16 v) :: u8))
    OR push_bit 24 (ucast (ucast (drop_bit 24 v) :: u8))
    OR push_bit 32 (ucast (ucast (drop_bit 32 v) :: u8))
    OR push_bit 40 (ucast (ucast (drop_bit 40 v) :: u8))
    OR push_bit 48 (ucast (ucast (drop_bit 48 v) :: u8))
    OR push_bit 56 (ucast (ucast (drop_bit 56 v) :: u8)) :: u64) = v"
  by (simp add: ucast_byte or_bytes [unfolded ucast_byte] take_bit_full flip: or.assoc)

interpretation le16: byte_codec 2 GET16 SET16
proof
  show "GET16 p i = GET16 q i'" if "\<And>k. k < 2 \<Longrightarrow> p ! (i + k) = q ! (i' + k)" for p q i i'
    using that[of 0] that[of 1] by (simp add: GET16_def)
qed (auto simp: GET16_def SET16_def decompose16)

interpretation le32: byte_codec 4 GET32 SET32
proof
  show "GET32 p i = GET32 q i'" if "\<And>k. k < 4 \<Longrightarrow> p ! (i + k) = q ! (i' + k)" for p q i i'
    using that[of 0] that[of 1] that[of 2] that[of 3] by (simp add: GET32_def)
qed (auto simp: GET32_def SET32_def decompose32)

interpretation le64: byte_codec 8 GET64 SET64
proof
  show "GET64 p i = GET64 q i'" if "\<And>k. k < 8 \<Longrightarrow> p ! (i + k) = q ! (i' + k)" for p q i i'
    using that[of 0] that[of 1] that[of 2] that[of 3] that[of 4] that[of 5] that[of 6] that[of 7]
    by (simp add: GET64_def)
qed (auto simp: GET64_def SET64_def decompose64)

lemmas length_SET [simp] = le16.length_put le32.length_put le64.length_put

lemmas get_set_same [simp] = le16.get_put le32.get_put le64.get_put

lemmas get_set_other = le16.get_put_other le32.get_put_other le64.get_put_other

end
