(* ===== verification/Checksum.thy ===== *)
theory Checksum
  imports Bytes
begin

text \<open>
  The three checksum routines of \<open>exfat_core.c\<close>: rotate right by one bit, then add the next
  byte, at widths 8 (short-name checksum of VFAT long entries), 16 (exFAT entry sets and name
  hashes) and 32 (boot sector, up-case table).  The \<open>CS_DIR_ENTRY\<close> and \<open>CS_PBR_SECTOR\<close>
  variants skip the bytes where the checksum itself or volatile flags are stored.  The lemmas
  show that the mask-and-shift expressions are rotations, that checksums compose over
  concatenation, that skipped bytes do not matter, and that changing any other single byte
  always changes the checksum.
\<close>

section \<open>The routines\<close>

abbreviation (input) CS_DIR_ENTRY :: int where "CS_DIR_ENTRY \<equiv> 0"
abbreviation (input) CS_PBR_SECTOR :: int where "CS_PBR_SECTOR \<equiv> 1"
abbreviation (input) CS_DEFAULT :: int where "CS_DEFAULT \<equiv> 2"

definition calc_checksum_1byte :: "u8 list \<Rightarrow> nat \<Rightarrow> u8 \<Rightarrow> u8" where
  "calc_checksum_1byte data len chksum =
     fold (\<lambda>i chksum. (push_bit 7 (chksum AND 1) OR drop_bit 1 (chksum AND 0xFE)) + data ! i)
       [0..<len] chksum"

definition calc_checksum_2byte :: "u8 list \<Rightarrow> nat \<Rightarrow> u16 \<Rightarrow> int \<Rightarrow> u16" where
  "calc_checksum_2byte data len chksum type =
     (if type = CS_DIR_ENTRY then
        fold (\<lambda>i chksum. if i = 2 \<or> i = 3 then chksum
            else (push_bit 15 (chksum AND 1) OR drop_bit 1 (chksum AND 0xFFFE)) + ucast (data ! i))
          [0..<len] chksum
      else
        fold (\<lambda>i chksum. (push_bit 15 (chksum AND 1) OR drop_bit 1 (chksum AND 0xFFFE)) + ucast (data ! i))
          [0..<len] chksum)"

definition calc_checksum_4byte :: "u8 list \<Rightarrow> nat \<Rightarrow> u32 \<Rightarrow> int \<Rightarrow> u32" where
  "calc_checksum_4byte data len chksum type =
     (if type = CS_PBR_SECTOR then
        fold (\<lambda>i chksum. if i = 106 \<or> i = 107 \<or> i = 112 then chksum
            else (push_bit 31 (chksum AND 1) OR drop_bit 1 (chksum AND 0xFFFFFFFE)) + ucast (data ! i))
          [0..<len] chksum
      else
        fold (\<lambda>i chksum. (push_bit 31 (chksum AND 1) OR drop_bit 1 (chksum AND 0xFFFFFFFE)) + ucast (data ! i))
          [0..<len] chksum)"

section \<open>Rotate and add\<close>

definition rot_add :: "'w::len word \<Rightarrow> u8 \<Rightarrow> 'w word" where
  "rot_add c b = word_rotr 1 c + ucast b"

lemma rotr_one: "word_rotr 1 c = push_bit (LENGTH('w) - 1) (c AND 1) OR drop_bit 1 c"
  for c :: "'w::len word"
proof (rule bit_word_eqI)
  fix n assume n: "n < LENGTH('w)"
  show "bit (word_rotr 1 c) n = bit (push_bit (LENGTH('w) - 1) (c AND 1) OR drop_bit 1 c) n"
  proof (cases "Suc n = LENGTH('w)")
    case True
    then have "LENGTH('w) - 1 = n" by simp
    with True show ?thesis
      by (simp add: bit_word_rotr_iff bit_or_iff bit_push_bit_iff bit_drop_bit_eq bit_and_iff bit_1_iff
          del: push_bit_and and_one_eq)
  next
    case False
    with n have n': "Suc n < LENGTH('w)" "\<not> LENGTH('w) - 1 \<le> n" by auto
    then show ?thesis
      by (simp add: bit_word_rotr_iff bit_or_iff bit_push_bit_iff bit_drop_bit_eq bit_and_iff bit_1_iff
          del: push_bit_and and_one_eq)
  qed
qed

lemma drop_low: "drop_bit 1 (c AND NOT 1) = drop_bit 1 c" for c :: "'w::len word"
  by (rule bit_word_eqI) (auto simp: bit_drop_bit_eq bit_and_iff bit_not_iff bit_1_iff dest: bit_imp_le_length simp del: drop_bit_and not_one_eq)

lemma rot_add_8: "(push_bit 7 (c AND 1) OR drop_bit 1 (c AND 0xFE)) + b = rot_add c b" for c :: u8
proof -
  have "(0xFE :: u8) = NOT 1" by simp
  then show ?thesis by (simp only: drop_low rot_add_def rotr_one) simp
qed

lemma rot_add_16:
  "(push_bit 15 (c AND 1) OR drop_bit 1 (c AND 0xFFFE)) + ucast b = rot_add c b" for c :: u16
proof -
  have "(0xFFFE :: u16) = NOT 1" by simp
  then show ?thesis by (simp only: drop_low rot_add_def rotr_one) simp
qed

lemma rot_add_32:
  "(push_bit 31 (c AND 1) OR drop_bit 1 (c AND 0xFFFFFFFE)) + ucast b = rot_add c b" for c :: u32
proof -
  have "(0xFFFFFFFE :: u32) = NOT 1" by simp
  then show ?thesis by (simp only: drop_low rot_add_def rotr_one) simp
qed

lemma rotr_inj: "word_rotr n a = word_rotr n b \<longleftrightarrow> a = b"
  for a b :: "'w::len word"
  by (metis word_rot_rl)

lemma rot_add_inj_left [simp]: "rot_add a x = rot_add b x \<longleftrightarrow> a = b"
  by (simp add: rot_add_def rotr_inj)

lemma ucast8_inj: "8 \<le> LENGTH('w) \<Longrightarrow> (ucast x :: 'w::len word) = ucast y \<longleftrightarrow> x = y" for x y :: u8
  by (auto intro!: bit_word_eqI simp: bit_ucast_iff dest: arg_cong [where f = "\<lambda>w. bit w n" for n])

lemma rot_add_inj_right: "8 \<le> LENGTH('w) \<Longrightarrow> rot_add (a :: 'w::len word) x = rot_add a y \<longleftrightarrow> x = y"
  by (simp add: rot_add_def ucast8_inj)

definition checksum_skip :: "(nat \<Rightarrow> bool) \<Rightarrow> u8 list \<Rightarrow> nat list \<Rightarrow> 'w::len word \<Rightarrow> 'w word" where
  "checksum_skip skip data is c = fold (\<lambda>i c. if skip i then c else rot_add c (data ! i)) is c"

lemma checksum_skip_append:
  "checksum_skip skip data (is @ js) c = checksum_skip skip data js (checksum_skip skip data is c)"
  by (simp add: checksum_skip_def)

lemma checksum_skip_inj [simp]:
  "checksum_skip skip data is c = checksum_skip skip data is d \<longleftrightarrow> c = d"
  by (induction "is" arbitrary: c d) (auto simp: checksum_skip_def)

lemma checksum_skip_cong:
  "(\<And>i. i \<in> set is \<Longrightarrow> \<not> skip i \<Longrightarrow> data ! i = data' ! i) \<Longrightarrow>
   checksum_skip skip data is c = checksum_skip skip data' is c"
  unfolding checksum_skip_def by (rule fold_cong) auto

lemma checksum_1byte_eq: "calc_checksum_1byte data len c = checksum_skip (\<lambda>_. False) data [0..<len] c"
  unfolding calc_checksum_1byte_def checksum_skip_def rot_add_8 if_False ..

lemma checksum_2byte_eq:
  "calc_checksum_2byte data len c type =
   checksum_skip (\<lambda>i. type = CS_DIR_ENTRY \<and> (i = 2 \<or> i = 3)) data [0..<len] c"
  unfolding calc_checksum_2byte_def checksum_skip_def rot_add_16 by (cases "type = CS_DIR_ENTRY") simp_all

lemma checksum_4byte_eq:
  "calc_checksum_4byte data len c type =
   checksum_skip (\<lambda>i. type = CS_PBR_SECTOR \<and> (i = 106 \<or> i = 107 \<or> i = 112)) data [0..<len] c"
  unfolding calc_checksum_4byte_def checksum_skip_def rot_add_32 by (cases "type = CS_PBR_SECTOR") simp_all

lemmas checksum_eqs = checksum_1byte_eq checksum_2byte_eq checksum_4byte_eq

section \<open>Error detection\<close>

lemma checksum_skip_detects:
  fixes c :: "'w::len word"
  assumes "8 \<le> LENGTH('w)" "k < len" "\<not> skip k" "data ! k \<noteq> data' ! k"
    and "\<And>i. i < len \<Longrightarrow> i \<noteq> k \<Longrightarrow> \<not> skip i \<Longrightarrow> data ! i = data' ! i"
  shows "checksum_skip skip data [0..<len] c \<noteq> checksum_skip skip data' [0..<len] c"
proof -
  have split: "[0..<len] = [0..<k] @ k # [Suc k..<len]"
    using assms(2) upt_add_eq_append [of 0 k "len - k"] by (simp add: upt_conv_Cons)
  have pre: "checksum_skip skip data [0..<k] c = checksum_skip skip data' [0..<k] c"
    and post: "checksum_skip skip data [Suc k..<len] d = checksum_skip skip data' [Suc k..<len] d" for d :: "'w word"
    using assms by (auto intro!: checksum_skip_cong)
  show ?thesis
    unfolding split checksum_skip_append pre
    using assms(1,3,4) post
    by (simp add: checksum_skip_def [of _ _ "_ # _"] checksum_skip_def [of _ _ "[]"]
        rot_add_inj_right flip: checksum_skip_def)
qed

text \<open>
  C39: A single corrupted byte never goes unnoticed: if two 32-byte entries differ in exactly one byte outside
  the checksum field (bytes 2 and 3 of the first entry), the 16-bit entry-set checksums differ.
\<close>

theorem dir_checksum_detects_byte_error:
  assumes "k < len" "k \<noteq> 2" "k \<noteq> 3" "k < length data" "b \<noteq> data ! k"
  shows "calc_checksum_2byte (data[k := b]) len c CS_DIR_ENTRY \<noteq> calc_checksum_2byte data len c CS_DIR_ENTRY"
  unfolding checksum_2byte_eq
  by (rule checksum_skip_detects [where k = k]) (use assms in auto)

theorem dir_checksum_detects_byte_error_witness:
  "calc_checksum_2byte ((replicate 32 0)[5 := 1]) 32 0 CS_DIR_ENTRY
     \<noteq> calc_checksum_2byte (replicate 32 0) 32 0 CS_DIR_ENTRY"
  by (rule dir_checksum_detects_byte_error) auto

lemma dir_checksum_ignores_field:
  "length data \<ge> 4 \<Longrightarrow> calc_checksum_2byte (SET16 data 2 v) len c CS_DIR_ENTRY = calc_checksum_2byte data len c CS_DIR_ENTRY"
  unfolding checksum_2byte_eq by (rule checksum_skip_cong) (auto simp: SET16_def nth_list_update)

lemma checksum_2byte_append:
  assumes "type \<noteq> CS_DIR_ENTRY"
  shows "calc_checksum_2byte (xs @ ys) (length xs + length ys) c type =
         calc_checksum_2byte ys (length ys) (calc_checksum_2byte xs (length xs) c type) type"
proof -
  have "checksum_skip (\<lambda>_. False) (xs @ ys) [length xs..<length xs + n] d =
      checksum_skip (\<lambda>_. False) ys [0..<n] d" for n and d :: u16
    by (induction n) (simp_all add: checksum_skip_def nth_append)
  moreover have "checksum_skip (\<lambda>_. False) (xs @ ys) [0..<length xs] c =
      checksum_skip (\<lambda>_. False) xs [0..<length xs] c"
    by (rule checksum_skip_cong) (simp add: nth_append)
  ultimately show ?thesis
    using assms upt_add_eq_append [of 0 "length xs" "length ys"]
    by (simp add: checksum_2byte_eq checksum_skip_append)
qed

end
