(* ===== verification/Clock.thy ===== *)
theory Clock
  imports Prelude
begin

text \<open>
  Time stamps: \<open>tm_current\<close> of \<open>exfat_oal.c\<close> and its counterparts \<open>exfat_time_unix2fat\<close> and
  \<open>exfat_time_fat2unix\<close> of \<open>exfat_super.c\<close>.  The kernel's clock (\<open>CURRENT_TIME_SEC\<close>) and time
  zone (\<open>sys_tz.tz_minuteswest\<close>) are arguments; \<open>time_t\<close> is the 64-bit \<open>long\<close> of a 64-bit build
  and is modelled by \<open>int\<close>.  The lemmas compare the code's closed-form leap-year arithmetic with
  a calendar that adds up the lengths of years and months.
\<close>

section \<open>The code\<close>

record TIMESTAMP_T =
  tm_sec :: u16
  tm_min :: u16
  tm_hour :: u16
  tm_day :: u16
  tm_mon :: u16
  tm_year :: u16

record DATE_TIME_T =
  Year :: u16
  Month :: u16
  Day :: u16
  Hour :: u16
  Minute :: u16
  Second :: u16
  MilliSecond :: u16

abbreviation (input) UNIX_SECS_1980 :: int where "UNIX_SECS_1980 \<equiv> 315532800"
abbreviation (input) UNIX_SECS_2108 :: int where "UNIX_SECS_2108 \<equiv> 4354819200"
abbreviation (input) DAYS_DELTA_DECADE :: int where "DAYS_DELTA_DECADE \<equiv> 365 * 10 + 2"
abbreviation (input) NO_LEAP_YEAR_2100 :: int where "NO_LEAP_YEAR_2100 \<equiv> 120"
abbreviation (input) SECS_PER_MIN :: int where "SECS_PER_MIN \<equiv> 60"
abbreviation (input) SECS_PER_HOUR :: int where "SECS_PER_HOUR \<equiv> 60 * 60"
abbreviation (input) SECS_PER_DAY :: int where "SECS_PER_DAY \<equiv> 24 * (60 * 60)"

definition IS_LEAP_YEAR :: "int \<Rightarrow> bool" where
  "IS_LEAP_YEAR y \<longleftrightarrow> y AND 3 = 0 \<and> y \<noteq> NO_LEAP_YEAR_2100"

definition MAKE_LEAP_YEAR :: "int \<Rightarrow> int" where
  "MAKE_LEAP_YEAR year = (if year > NO_LEAP_YEAR_2100 then (year + 3) div 4 - 1 else (year + 3) div 4)"

definition accum_days_in_year :: "int list" where
  "accum_days_in_year = [0, 0, 31, 59, 90, 120, 151, 181, 212, 243, 273, 304, 334, 0, 0, 0]"

function month_loop :: "int \<Rightarrow> nat \<Rightarrow> nat" where
  "month_loop day month =
     (if month < 12 then
        if accum_days_in_year ! (month + 1) > day then month else month_loop day (month + 1)
      else month)"
  by pat_completeness auto
termination by (relation "measure (\<lambda>(day, month). 12 - month)") auto

declare month_loop.simps [simp del]

definition tm_current :: "int \<Rightarrow> int \<Rightarrow> TIMESTAMP_T" where
  "tm_current tv_sec tz_minuteswest =
     (let second = tv_sec - tz_minuteswest * SECS_PER_MIN in
      if second < UNIX_SECS_1980 then
        \<lparr>tm_sec = 0, tm_min = 0, tm_hour = 0, tm_day = 1, tm_mon = 1, tm_year = 0\<rparr>
      else if second \<ge> UNIX_SECS_2108 then
        \<lparr>tm_sec = 59, tm_min = 59, tm_hour = 23, tm_day = 31, tm_mon = 12, tm_year = 127\<rparr>
      else
        let day = second div SECS_PER_DAY - (DAYS_DELTA_DECADE);
            year = day div 365;
            leap_day = MAKE_LEAP_YEAR year;
            year = (if year * 365 + leap_day > day then year - 1 else year);
            leap_day = MAKE_LEAP_YEAR year;
            day = day - (year * 365 + leap_day);
            (month, day) =
              (if IS_LEAP_YEAR year \<and> day = accum_days_in_year ! 3 then (2, day)
               else let day = (if IS_LEAP_YEAR year \<and> day > accum_days_in_year ! 3 then day - 1 else day)
                    in (month_loop day 1, day));
            day = day - accum_days_in_year ! month
        in \<lparr>tm_sec = word_of_int (second mod SECS_PER_MIN),
            tm_min = word_of_int ((second div SECS_PER_MIN) mod 60),
            tm_hour = word_of_int ((second div SECS_PER_HOUR) mod 24),
            tm_day = word_of_int (day + 1),
            tm_mon = word_of_int (int month),
            tm_year = word_of_int year\<rparr>)"

definition exfat_time_unix2fat :: "int \<Rightarrow> int \<Rightarrow> u16 \<Rightarrow> DATE_TIME_T" where
  "exfat_time_unix2fat tv_sec tz_minuteswest ms =
     (let second = tv_sec - tz_minuteswest * SECS_PER_MIN in
      if second < UNIX_SECS_1980 then
        \<lparr>Year = 0, Month = 1, Day = 1, Hour = 0, Minute = 0, Second = 0, MilliSecond = ms\<rparr>
      else if second \<ge> UNIX_SECS_2108 then
        \<lparr>Year = 127, Month = 12, Day = 31, Hour = 23, Minute = 59, Second = 59, MilliSecond = ms\<rparr>
      else
        let day = second div SECS_PER_DAY - (DAYS_DELTA_DECADE);
            year = day div 365;
            ld = MAKE_LEAP_YEAR year;
            year = (if year * 365 + ld > day then year - 1 else year);
            ld = MAKE_LEAP_YEAR year;
            day = day - (year * 365 + ld);
            (month, day) =
              (if IS_LEAP_YEAR year \<and> day = accum_days_in_year ! 3 then (2, day)
               else let day = (if IS_LEAP_YEAR year \<and> day > accum_days_in_year ! 3 then day - 1 else day)
                    in (month_loop day 1, day));
            day = day - accum_days_in_year ! month
        in \<lparr>Year = word_of_int year, Month = word_of_int (int month), Day = word_of_int (day + 1),
            Hour = word_of_int ((second div SECS_PER_HOUR) mod 24),
            Minute = word_of_int ((second div SECS_PER_MIN) mod 60),
            Second = word_of_int (second mod SECS_PER_MIN), MilliSecond = ms\<rparr>)"

definition exfat_time_fat2unix :: "DATE_TIME_T \<Rightarrow> int \<Rightarrow> int" where
  "exfat_time_fat2unix tp tz_minuteswest =
     (let year = uint (Year tp);
          ld = MAKE_LEAP_YEAR year;
          ld = (if IS_LEAP_YEAR year \<and> Month tp > 2 then ld + 1 else ld)
      in uint (Second tp) + uint (Minute tp) * SECS_PER_MIN + uint (Hour tp) * SECS_PER_HOUR
         + (year * 365 + ld + accum_days_in_year ! unat (Month tp) + (uint (Day tp) - 1) + (DAYS_DELTA_DECADE))
           * SECS_PER_DAY
         + tz_minuteswest * SECS_PER_MIN)"

section \<open>A reference calendar\<close>

definition year_len :: "nat \<Rightarrow> int" where
  "year_len y = (if IS_LEAP_YEAR (int y) then 366 else 365)"

definition month_len :: "nat \<Rightarrow> nat \<Rightarrow> int" where
  "month_len y m = (if m = 2 then (if IS_LEAP_YEAR (int y) then 29 else 28)
     else if m = 4 \<or> m = 6 \<or> m = 9 \<or> m = 11 then 30 else 31)"

text \<open>Days from 1980-01-01 to day \<open>d\<close> of month \<open>m\<close> of year \<open>1980 + y\<close>.\<close>

definition civil_day :: "nat \<Rightarrow> nat \<Rightarrow> int \<Rightarrow> int" where
  "civil_day y m d = (\<Sum>i<y. year_len i) + (\<Sum>i=1..<m. month_len y i) + (d - 1)"

definition civil_valid :: "nat \<Rightarrow> nat \<Rightarrow> int \<Rightarrow> bool" where
  "civil_valid y m d \<longleftrightarrow> y < 128 \<and> 1 \<le> m \<and> m \<le> 12 \<and> 1 \<le> d \<and> d \<le> month_len y m"

lemma and_3: "(y :: int) AND 3 = y mod 4"
  using take_bit_eq_mask [of 2 y] by (simp add: take_bit_eq_mod mask_eq_exp_minus_1)

lemma leap_iff: "IS_LEAP_YEAR y \<longleftrightarrow> y mod 4 = 0 \<and> y \<noteq> 120"
  by (simp add: IS_LEAP_YEAR_def and_3)

lemma years_sum: "y \<le> 128 \<Longrightarrow> (\<Sum>i<y. year_len i) = int y * 365 + MAKE_LEAP_YEAR (int y)"
proof (induction y)
  case (Suc y)
  have "MAKE_LEAP_YEAR (int (Suc y)) = MAKE_LEAP_YEAR (int y) + (if IS_LEAP_YEAR (int y) then 1 else 0)"
    using Suc.prems unfolding MAKE_LEAP_YEAR_def leap_iff by auto presburger+
  with Suc show ?case by (simp add: year_len_def)
qed (simp add: MAKE_LEAP_YEAR_def)

lemma months_sum:
  assumes "1 \<le> m" "m \<le> 12"
  shows "(\<Sum>i=1..<m. month_len y i) = accum_days_in_year ! m + (if m > 2 \<and> IS_LEAP_YEAR (int y) then 1 else 0)"
proof -
  have "m = 1 \<or> m = 2 \<or> m = 3 \<or> m = 4 \<or> m = 5 \<or> m = 6 \<or> m = 7 \<or> m = 8 \<or> m = 9 \<or> m = 10 \<or> m = 11 \<or> m = 12"
    using assms by arith
  then show ?thesis
    by (elim disjE) (simp_all add: month_len_def accum_days_in_year_def sum.atLeastLessThan_Suc eval_nat_numeral)
qed

lemma civil_day_closed:
  assumes "civil_valid y m d"
  shows "civil_day y m d = int y * 365 + MAKE_LEAP_YEAR (int y) + accum_days_in_year ! m
     + (if m > 2 \<and> IS_LEAP_YEAR (int y) then 1 else 0) + (d - 1)"
  using assms months_sum [of m y] by (simp add: civil_day_def civil_valid_def years_sum)

section \<open>The closed form is the calendar\<close>

text \<open>
  The date computation that \<open>tm_current\<close> and \<open>exfat_time_unix2fat\<close> share, split into the year
  and the day within the year.
\<close>

definition year_of_day :: "int \<Rightarrow> int" where
  "year_of_day day =
     (let year = day div 365 in if year * 365 + MAKE_LEAP_YEAR year > day then year - 1 else year)"

definition date_in_year :: "bool \<Rightarrow> int \<Rightarrow> nat \<times> int" where
  "date_in_year leap day =
     (if leap \<and> day = accum_days_in_year ! 3 then (2, day)
      else let day = (if leap \<and> day > accum_days_in_year ! 3 then day - 1 else day)
           in (month_loop day 1, day))"

definition day_to_date :: "int \<Rightarrow> int \<times> nat \<times> int" where
  "day_to_date day =
     (let y = year_of_day day;
          p = date_in_year (IS_LEAP_YEAR y) (day - (y * 365 + MAKE_LEAP_YEAR y))
      in (y, fst p, snd p - accum_days_in_year ! fst p + 1))"

lemma secs_day_consts: "24 * (60 * 60) = (86400 :: int)" "24 * 3600 = (86400 :: int)" "3650 + 2 = (3652 :: int)" "365 * 10 + 2 = (3652 :: int)" "60 * 60 = (3600 :: int)"
  by simp_all

lemma tm_current_eq:
  assumes s: "s = tv_sec - tz * 60" and r: "UNIX_SECS_1980 \<le> s" "s < UNIX_SECS_2108"
    and d: "day_to_date (s div 86400 - 3652) = (y, m, d)"
  shows "tm_current tv_sec tz =
    \<lparr>tm_sec = word_of_int (s mod 60), tm_min = word_of_int (s div 60 mod 60),
     tm_hour = word_of_int (s div 3600 mod 24), tm_day = word_of_int d,
     tm_mon = word_of_int (int m), tm_year = word_of_int y\<rparr>"
proof -
  have range: "\<not> s < UNIX_SECS_1980" "\<not> UNIX_SECS_2108 \<le> s" using r by linarith+
  from d show ?thesis
    unfolding tm_current_def day_to_date_def year_of_day_def date_in_year_def Let_def s [symmetric]
      secs_day_consts split_beta prod.inject
    by (simp only: range if_False) (elim conjE, hypsubst, rule refl)
qed

lemma unix2fat_eq:
  assumes s: "s = tv_sec - tz * 60" and r: "UNIX_SECS_1980 \<le> s" "s < UNIX_SECS_2108"
    and d: "day_to_date (s div 86400 - 3652) = (y, m, d)"
  shows "exfat_time_unix2fat tv_sec tz ms =
    \<lparr>Year = word_of_int y, Month = word_of_int (int m), Day = word_of_int d,
     Hour = word_of_int (s div 3600 mod 24), Minute = word_of_int (s div 60 mod 60),
     Second = word_of_int (s mod 60), MilliSecond = ms\<rparr>"
proof -
  have range: "\<not> s < UNIX_SECS_1980" "\<not> UNIX_SECS_2108 \<le> s" using r by linarith+
  from d show ?thesis
    unfolding exfat_time_unix2fat_def day_to_date_def year_of_day_def date_in_year_def Let_def s [symmetric]
      secs_day_consts split_beta prod.inject
    by (simp only: range if_False) (elim conjE, hypsubst, rule refl)
qed

lemma leap_days_bound: "0 \<le> y \<Longrightarrow> y \<le> 128 \<Longrightarrow> 0 \<le> MAKE_LEAP_YEAR y \<and> MAKE_LEAP_YEAR y \<le> 32"
  by (simp add: MAKE_LEAP_YEAR_def) linarith

lemma leap_days_Suc: "MAKE_LEAP_YEAR (y + 1) = MAKE_LEAP_YEAR y + (if IS_LEAP_YEAR y then 1 else 0)"
  unfolding MAKE_LEAP_YEAR_def leap_iff by auto presburger+

lemma year_split:
  assumes "0 \<le> day" "day < 46751" and Y: "y = year_of_day day"
  shows "0 \<le> y \<and> y < 128 \<and> y * 365 + MAKE_LEAP_YEAR y \<le> day
    \<and> day < y * 365 + MAKE_LEAP_YEAR y + (if IS_LEAP_YEAR y then 366 else 365)"
proof -
  define y0 where "y0 = day div 365"
  have y0: "0 \<le> y0" "y0 \<le> 128" "y0 * 365 \<le> day" "day < y0 * 365 + 365"
    using assms(1,2) unfolding y0_def by linarith+
  note b0 = leap_days_bound [OF y0(1,2)]
  show ?thesis
  proof (cases "y0 * 365 + MAKE_LEAP_YEAR y0 > day")
    case True
    then have y: "y = y0 - 1" by (simp add: Y year_of_day_def y0_def Let_def)
    have "y0 \<noteq> 0" using True assms(1) by (auto simp: MAKE_LEAP_YEAR_def)
    then have p: "0 \<le> y0 - 1" "y0 - 1 < 128" "y0 - 1 \<le> 128" using y0 by linarith+
    have "MAKE_LEAP_YEAR y0 = MAKE_LEAP_YEAR (y0 - 1) + (if IS_LEAP_YEAR (y0 - 1) then 1 else 0)"
      using leap_days_Suc [of "y0 - 1"] by simp
    then show ?thesis
      using True y0 p leap_days_bound [OF p(1,3)] unfolding y by (simp split: if_splits)
  next
    case False
    then have y: "y = y0" by (simp add: Y year_of_day_def y0_def Let_def)
    have "MAKE_LEAP_YEAR 128 = 31" by (simp add: MAKE_LEAP_YEAR_def)
    with False assms(2) y0(2) have "y0 < 128" by (cases "y0 = 128") auto
    with False y0 b0 show ?thesis unfolding y by simp
  qed
qed

lemma month_loop_unfold:
  "month_loop r 1 = (if r < 31 then 1 else if r < 59 then 2 else if r < 90 then 3 else if r < 120 then 4
     else if r < 151 then 5 else if r < 181 then 6 else if r < 212 then 7 else if r < 243 then 8
     else if r < 273 then 9 else if r < 304 then 10 else if r < 334 then 11 else 12)"
  by (simp add: month_loop.simps [of r 1] month_loop.simps [of r "Suc 0"] month_loop.simps [of r 2] month_loop.simps [of r 3]
      month_loop.simps [of r 4] month_loop.simps [of r 5] month_loop.simps [of r 6]
      month_loop.simps [of r 7] month_loop.simps [of r 8] month_loop.simps [of r 9]
      month_loop.simps [of r 10] month_loop.simps [of r 11] month_loop.simps [of r 12]
      accum_days_in_year_def numeral_2_eq_2 [symmetric])

lemma month_split:
  assumes "0 \<le> r" "r < 365" "m = month_loop r 1"
  shows "1 \<le> m \<and> m \<le> 12 \<and> accum_days_in_year ! m \<le> r \<and> (m > 2 \<longleftrightarrow> r \<ge> 59)
     \<and> r < accum_days_in_year ! m + (if m = 2 then 28 else if m = 4 \<or> m = 6 \<or> m = 9 \<or> m = 11 then 30 else 31)"
  using assms(1,2) unfolding assms(3) month_loop_unfold by (simp add: accum_days_in_year_def)

lemma day_to_date_civil:
  assumes "0 \<le> day" "day < 46751"
  shows "\<exists>y m d. day_to_date day = (int y, m, d) \<and> civil_valid y m d \<and> civil_day y m d = day"
proof -
  define y where "y = year_of_day day"
  define r where "r = day - (y * 365 + MAKE_LEAP_YEAR y)"
  have y: "0 \<le> y" "y < 128" "0 \<le> r" "r < (if IS_LEAP_YEAR y then 366 else 365)"
    using year_split [OF assms y_def] unfolding r_def by auto
  obtain k where k: "y = int k" using y(1) zero_le_imp_eq_int by blast
  then have k128: "k < 128" using y(2) by simp
  show ?thesis
  proof (cases "IS_LEAP_YEAR y \<and> r = 59")
    case True
    then have "date_in_year (IS_LEAP_YEAR y) r = (2, 59)" by (simp add: date_in_year_def accum_days_in_year_def)
    then have "day_to_date day = (int k, 2, 29)"
      unfolding day_to_date_def Let_def y_def [symmetric] r_def [symmetric]
      by (simp add: k accum_days_in_year_def)
    moreover have v: "civil_valid k 2 29"
      using True k k128 by (simp add: civil_valid_def month_len_def)
    moreover have "civil_day k 2 29 = day"
      using True k by (simp add: civil_day_closed [OF v] accum_days_in_year_def r_def)
    ultimately show ?thesis by blast
  next
    case False
    define q where "q = (if IS_LEAP_YEAR y \<and> r > 59 then r - 1 else r)"
    define m where "m = month_loop q 1"
    have "0 \<le> q" "q < 365" using y False by (auto simp: q_def split: if_splits)
    note m = month_split [OF this m_def]
    have late: "m > 2 \<and> IS_LEAP_YEAR y \<longleftrightarrow> IS_LEAP_YEAR y \<and> r > 59"
      using m False by (auto simp: q_def split: if_splits)
    have "date_in_year (IS_LEAP_YEAR y) r = (m, q)"
      using False unfolding m_def q_def by (auto simp: date_in_year_def accum_days_in_year_def Let_def)
    then have "day_to_date day = (int k, m, q - accum_days_in_year ! m + 1)"
      unfolding day_to_date_def Let_def y_def [symmetric] r_def [symmetric] by (simp add: k)
    moreover have v: "civil_valid k m (q - accum_days_in_year ! m + 1)"
      using m k128 by (auto simp: civil_valid_def month_len_def split: if_splits)
    moreover have "civil_day k m (q - accum_days_in_year ! m + 1) = day"
      unfolding civil_day_closed [OF v] using late by (auto simp: q_def r_def k)
    ultimately show ?thesis by blast
  qed
qed

section \<open>Properties\<close>

definition in_fat_range :: "int \<Rightarrow> bool" where
  "in_fat_range s \<longleftrightarrow> UNIX_SECS_1980 \<le> s \<and> s < UNIX_SECS_2108"

lemma day_range: "in_fat_range s \<Longrightarrow> 0 \<le> s div 86400 - 3652 \<and> s div 86400 - 3652 < 46751"
  unfolding in_fat_range_def by linarith

lemma secs_split: "s = ((s div 86400) * 86400 + (s div 3600 mod 24) * 3600 + (s div 60 mod 60) * 60 + s mod 60)"
  for s :: int
proof -
  have "s div 3600 = s div 60 div 60" "s div 86400 = s div 3600 div 24"
    using zdiv_zmult2_eq [of 60 s 60] zdiv_zmult2_eq [of 24 s 3600] by simp_all
  then show ?thesis
    using div_mult_mod_eq [of s 60] div_mult_mod_eq [of "s div 60" 60] div_mult_mod_eq [of "s div 3600" 24]
    by linarith
qed

lemma civil_words:
  assumes "civil_valid y m d"
  shows "unat (word_of_int (int y) :: u16) = y" "unat (word_of_int (int m) :: u16) = m"
    "uint (word_of_int d :: u16) = d" "unat (word_of_nat y :: u16) = y" "unat (word_of_nat m :: u16) = m"
proof -
  have "y < 128" "m \<le> 12" "0 \<le> d" "d \<le> 31"
    using assms by (auto simp: civil_valid_def month_len_def split: if_splits)
  then show "unat (word_of_int (int y) :: u16) = y" "unat (word_of_int (int m) :: u16) = m"
    "uint (word_of_int d :: u16) = d" "unat (word_of_nat y :: u16) = y" "unat (word_of_nat m :: u16) = m"
    by (simp_all add: unat_of_nat uint_word_of_int)
qed

lemma small_field: "0 < k \<Longrightarrow> k \<le> 60 \<Longrightarrow> uint (word_of_int (x mod k) :: u16) = x mod k" for x k :: int
proof -
  assume "0 < k" "k \<le> 60"
  then have "0 \<le> x mod k" "x mod k < 65536"
    using pos_mod_bound [of k x] pos_mod_sign [of k x] by linarith+
  then show ?thesis by (simp add: uint_word_of_int mod_pos_pos_trivial)
qed

text \<open>
  Between 1980 and 2107 the time stamp the driver takes from the clock is a valid calendar date and names exactly
  the clock's second: adding up year and month lengths to its date, and its time of day, gives the second back.
\<close>

lemma tm_current_calendar:
  assumes "in_fat_range (tv_sec - tz * 60)"
  shows "let t = tm_current tv_sec tz;
             y = unat (tm_year t); m = unat (tm_mon t); d = uint (tm_day t)
         in civil_valid y m d \<and> tm_hour t < 24 \<and> tm_min t < 60 \<and> tm_sec t < 60
          \<and> tv_sec = (civil_day y m d + 3652) * 86400 + uint (tm_hour t) * 3600
               + uint (tm_min t) * 60 + uint (tm_sec t) + tz * 60"
proof -
  define s where "s = tv_sec - tz * 60"
  obtain y m d where ymd: "day_to_date (s div 86400 - 3652) = (int y, m, d)"
    "civil_valid y m d" "civil_day y m d = s div 86400 - 3652"
    using day_to_date_civil day_range assms unfolding s_def by meson
  note conv = civil_words [OF ymd(2)]
  have tm: "tm_current tv_sec tz = \<lparr>tm_sec = word_of_int (s mod 60), tm_min = word_of_int (s div 60 mod 60),
     tm_hour = word_of_int (s div 3600 mod 24), tm_day = word_of_int d,
     tm_mon = word_of_int (int m), tm_year = word_of_int (int y)\<rparr>"
    using assms unfolding in_fat_range_def s_def [symmetric]
    by (intro tm_current_eq [OF s_def _ _ ymd(1)]) auto
  have "tv_sec = s + tz * 60" by (simp add: s_def)
  then have eq: "tv_sec = (civil_day y m d + 3652) * 86400 + (s div 3600 mod 24) * 3600
      + (s div 60 mod 60) * 60 + s mod 60 + tz * 60"
    using ymd(3) secs_split [of s] by simp
  have "tm_hour t < 24 \<and> tm_min t < 60 \<and> tm_sec t < 60"
    if "t = tm_current tv_sec tz" for t
    unfolding that tm by (simp add: small_field word_less_def)
  moreover have "civil_valid (unat (tm_year t)) (unat (tm_mon t)) (uint (tm_day t))"
    if "t = tm_current tv_sec tz" for t
    unfolding that tm by (simp add: conv ymd(2))
  moreover have "tv_sec = (civil_day (unat (tm_year t)) (unat (tm_mon t)) (uint (tm_day t)) + 3652) * 86400
      + uint (tm_hour t) * 3600 + uint (tm_min t) * 60 + uint (tm_sec t) + tz * 60"
    if "t = tm_current tv_sec tz" for t
    unfolding that by (rule trans [OF eq]) (simp add: tm conv small_field)
  ultimately show ?thesis unfolding Let_def by blast
qed

lemma fat2unix_civil:
  assumes "civil_valid (unat (Year tp)) (unat (Month tp)) (uint (Day tp))"
  shows "exfat_time_fat2unix tp tz =
     (civil_day (unat (Year tp)) (unat (Month tp)) (uint (Day tp)) + 3652) * 86400
       + uint (Hour tp) * 3600 + uint (Minute tp) * 60 + uint (Second tp) + tz * 60"
  using assms
  by (simp add: exfat_time_fat2unix_def Let_def civil_day_closed word_less_nat_alt algebra_simps)

text \<open>
  C40: Converting a Unix time of the representable years to FAT fields and back loses nothing: \<open>exfat_time_fat2unix\<close>
  inverts \<open>exfat_time_unix2fat\<close>, in every time zone.
\<close>

theorem time_roundtrip:
  assumes "in_fat_range (tv_sec - tz * 60)"
  shows "exfat_time_fat2unix (exfat_time_unix2fat tv_sec tz ms) tz = tv_sec"
proof -
  define s where "s = tv_sec - tz * 60"
  obtain y m d where ymd: "day_to_date (s div 86400 - 3652) = (int y, m, d)"
    "civil_valid y m d" "civil_day y m d = s div 86400 - 3652"
    using day_to_date_civil day_range assms unfolding s_def by meson
  note conv = civil_words [OF ymd(2)]
  have u: "exfat_time_unix2fat tv_sec tz ms = \<lparr>Year = word_of_int (int y), Month = word_of_int (int m), Day = word_of_int d,
     Hour = word_of_int (s div 3600 mod 24), Minute = word_of_int (s div 60 mod 60),
     Second = word_of_int (s mod 60), MilliSecond = ms\<rparr>"
    using assms unfolding in_fat_range_def s_def [symmetric]
    by (intro unix2fat_eq [OF s_def _ _ ymd(1)]) auto
  have "exfat_time_fat2unix (exfat_time_unix2fat tv_sec tz ms) tz =
     (civil_day y m d + 3652) * 86400 + (s div 3600 mod 24) * 3600 + (s div 60 mod 60) * 60 + s mod 60 + tz * 60"
    unfolding u using ymd(2) by (subst fat2unix_civil) (simp_all add: conv small_field)
  also have "\<dots> = s + tz * 60" using ymd(3) secs_split [of s] by simp
  finally show ?thesis by (simp add: s_def)
qed

theorem time_roundtrip_witness:
  "exfat_time_fat2unix (exfat_time_unix2fat 4107542399 60 0) 60 = 4107542399"
  by (rule time_roundtrip) (simp add: in_fat_range_def)

end
