(* ===== verification/Bitmap.thy ===== *)
theory Bitmap
  imports Prelude
begin

text \<open>
  \<open>exfat_bitmap.c\<close> (bit test, set and clear on a byte array) and the two lookup tables of
  \<open>exfat_core.c\<close> that scan such arrays a byte at a time: \<open>free_bit\<close> (lowest clear bit of a
  byte that is not full) and \<open>used_bit\<close> (number of set bits).  The lemmas read a byte array
  as the set of its set bits, \<open>bits_of\<close>, and show that the operations are insertion, removal
  and membership on that set and that the tables are what their names say.
\<close>

section \<open>Operations\<close>

definition BITMAP_LOC :: "nat \<Rightarrow> nat" where
  "BITMAP_LOC v = drop_bit 3 v"

definition BITMAP_SHIFT :: "nat \<Rightarrow> nat" where
  "BITMAP_SHIFT v = v AND 7"

definition exfat_bitmap_test :: "u8 list \<Rightarrow> nat \<Rightarrow> int" where
  "exfat_bitmap_test bitmap i =
     (let data = bitmap ! BITMAP_LOC i
      in if drop_bit (BITMAP_SHIFT i) data AND 1 \<noteq> 0 then 1 else 0)"

definition exfat_bitmap_set :: "u8 list \<Rightarrow> nat \<Rightarrow> u8 list" where
  "exfat_bitmap_set bitmap i =
     bitmap[BITMAP_LOC i := (bitmap ! BITMAP_LOC i) OR push_bit (BITMAP_SHIFT i) 1]"

definition exfat_bitmap_clear :: "u8 list \<Rightarrow> nat \<Rightarrow> u8 list" where
  "exfat_bitmap_clear bitmap i =
     bitmap[BITMAP_LOC i := (bitmap ! BITMAP_LOC i) AND NOT (push_bit (BITMAP_SHIFT i) 1)]"

section \<open>The scan tables\<close>

definition free_bit :: "u8 list" where
  "free_bit = [
     0, 1, 0, 2, 0, 1, 0, 3, 0, 1, 0, 2, 0, 1, 0, 4, 0, 1, 0, 2,
     0, 1, 0, 3, 0, 1, 0, 2, 0, 1, 0, 5, 0, 1, 0, 2, 0, 1, 0, 3,
     0, 1, 0, 2, 0, 1, 0, 4, 0, 1, 0, 2, 0, 1, 0, 3, 0, 1, 0, 2,
     0, 1, 0, 6, 0, 1, 0, 2, 0, 1, 0, 3, 0, 1, 0, 2, 0, 1, 0, 4,
     0, 1, 0, 2, 0, 1, 0, 3, 0, 1, 0, 2, 0, 1, 0, 5, 0, 1, 0, 2,
     0, 1, 0, 3, 0, 1, 0, 2, 0, 1, 0, 4, 0, 1, 0, 2, 0, 1, 0, 3,
     0, 1, 0, 2, 0, 1, 0, 7, 0, 1, 0, 2, 0, 1, 0, 3, 0, 1, 0, 2,
     0, 1, 0, 4, 0, 1, 0, 2, 0, 1, 0, 3, 0, 1, 0, 2, 0, 1, 0, 5,
     0, 1, 0, 2, 0, 1, 0, 3, 0, 1, 0, 2, 0, 1, 0, 4, 0, 1, 0, 2,
     0, 1, 0, 3, 0, 1, 0, 2, 0, 1, 0, 6, 0, 1, 0, 2, 0, 1, 0, 3,
     0, 1, 0, 2, 0, 1, 0, 4, 0, 1, 0, 2, 0, 1, 0, 3, 0, 1, 0, 2,
     0, 1, 0, 5, 0, 1, 0, 2, 0, 1, 0, 3, 0, 1, 0, 2, 0, 1, 0, 4,
     0, 1, 0, 2, 0, 1, 0, 3, 0, 1, 0, 2, 0, 1, 0]"

definition used_bit :: "u8 list" where
  "used_bit = [
     0, 1, 1, 2, 1, 2, 2, 3, 1, 2, 2, 3, 2, 3, 3, 4, 1, 2, 2, 3,
     2, 3, 3, 4, 2, 3, 3, 4, 3, 4, 4, 5, 1, 2, 2, 3, 2, 3, 3, 4,
     2, 3, 3, 4, 3, 4, 4, 5, 2, 3, 3, 4, 3, 4, 4, 5, 3, 4, 4, 5,
     4, 5, 5, 6, 1, 2, 2, 3, 2, 3, 3, 4, 2, 3, 3, 4, 3, 4, 4, 5,
     2, 3, 3, 4, 3, 4, 4, 5, 3, 4, 4, 5, 4, 5, 5, 6, 2, 3, 3, 4,
     3, 4, 4, 5, 3, 4, 4, 5, 4, 5, 5, 6, 3, 4, 4, 5, 4, 5, 5, 6,
     4, 5, 5, 6, 5, 6, 6, 7, 1, 2, 2, 3, 2, 3, 3, 4, 2, 3, 3, 4,
     3, 4, 4, 5, 2, 3, 3, 4, 3, 4, 4, 5, 3, 4, 4, 5, 4, 5, 5, 6,
     2, 3, 3, 4, 3, 4, 4, 5, 3, 4, 4, 5, 4, 5, 5, 6, 3, 4, 4, 5,
     4, 5, 5, 6, 4, 5, 5, 6, 5, 6, 6, 7, 2, 3, 3, 4, 3, 4, 4, 5,
     3, 4, 4, 5, 4, 5, 5, 6, 3, 4, 4, 5, 4, 5, 5, 6, 4, 5, 5, 6,
     5, 6, 6, 7, 3, 4, 4, 5, 4, 5, 5, 6, 4, 5, 5, 6, 5, 6, 6, 7,
     4, 5, 5, 6, 5, 6, 6, 7, 5, 6, 6, 7, 6, 7, 7, 8]"

section \<open>The abstract set of bits\<close>

definition bits_of :: "u8 list \<Rightarrow> nat set" where
  "bits_of bitmap = {i. i < 8 * length bitmap \<and> bit (bitmap ! (i div 8)) (i mod 8)}"

lemma BITMAP_LOC_div [simp]: "BITMAP_LOC i = i div 8"
  by (simp add: BITMAP_LOC_def drop_bit_eq_div)

lemma BITMAP_SHIFT_mod [simp]: "BITMAP_SHIFT i = i mod 8"
  using take_bit_eq_mask [of 3 i] by (simp add: BITMAP_SHIFT_def take_bit_eq_mod mask_eq_exp_minus_1)

lemma length_bitmap_ops [simp]:
  "length (exfat_bitmap_set bm i) = length bm" "length (exfat_bitmap_clear bm i) = length bm"
  by (simp_all add: exfat_bitmap_set_def exfat_bitmap_clear_def)

lemma and_one_nonzero: "drop_bit n w AND 1 \<noteq> 0 \<longleftrightarrow> bit w n"
  for w :: "'a::len word"
  by (auto simp: bit_iff_odd_drop_bit and_one_eq odd_iff_mod_2_eq_one)

lemma bitmap_test_iff:
  "exfat_bitmap_test bm i = (if bit (bm ! (i div 8)) (i mod 8) then 1 else 0)"
  by (simp add: exfat_bitmap_test_def and_one_nonzero)

lemma bitmap_test_bits:
  "i < 8 * length bm \<Longrightarrow> exfat_bitmap_test bm i = 1 \<longleftrightarrow> i \<in> bits_of bm"
  by (simp add: bitmap_test_iff bits_of_def)

lemma div_mod_8_eq: "i div 8 = j div 8 \<Longrightarrow> i mod 8 = j mod 8 \<Longrightarrow> i = j" for i j :: nat
  by (metis div_mult_mod_eq)

lemma bits_of_set: "i < 8 * length bm \<Longrightarrow> bits_of (exfat_bitmap_set bm i) = insert i (bits_of bm)"
  by (auto simp: bits_of_def exfat_bitmap_set_def nth_list_update bit_or_iff bit_push_bit_iff
      bit_exp_iff less_mult_imp_div_less mult.commute intro: div_mod_8_eq split: if_splits)

lemma bits_of_clear: "i < 8 * length bm \<Longrightarrow> bits_of (exfat_bitmap_clear bm i) = bits_of bm - {i}"
  by (auto simp: bits_of_def exfat_bitmap_clear_def nth_list_update bit_and_iff bit_not_iff bit_push_bit_iff
      bit_exp_iff less_mult_imp_div_less mult.commute intro: div_mod_8_eq split: if_splits)

section \<open>The bit-set interface\<close>

text \<open>What the allocator relies on, as an interface: a finite set of marks with its three operations.\<close>

locale mark_set =
  fixes marks :: "'m \<Rightarrow> nat set"
    and cap :: "'m \<Rightarrow> nat"
    and tst :: "'m \<Rightarrow> nat \<Rightarrow> int"
    and ins :: "'m \<Rightarrow> nat \<Rightarrow> 'm"
    and del :: "'m \<Rightarrow> nat \<Rightarrow> 'm"
  assumes tst: "i < cap m \<Longrightarrow> tst m i = (if i \<in> marks m then 1 else 0)"
    and ins: "i < cap m \<Longrightarrow> marks (ins m i) = insert i (marks m)"
    and del: "i < cap m \<Longrightarrow> marks (del m i) = marks m - {i}"
    and cap_ins: "cap (ins m i) = cap m"
    and cap_del: "cap (del m i) = cap m"
    and bounded: "marks m \<subseteq> {..<cap m}"
begin

lemma finite_marks: "finite (marks m)"
  using bounded finite_subset by blast

lemma tst_ins: "i < cap m \<Longrightarrow> j < cap m \<Longrightarrow> tst (ins m i) j = (if j = i then 1 else tst m j)"
  by (simp add: tst ins cap_ins)

lemma tst_del: "i < cap m \<Longrightarrow> j < cap m \<Longrightarrow> tst (del m i) j = (if j = i then 0 else tst m j)"
  by (simp add: tst del cap_del)

lemma del_ins: "i < cap m \<Longrightarrow> tst m i = 0 \<Longrightarrow> marks (del (ins m i) i) = marks m"
  by (auto simp: tst ins del cap_ins split: if_splits)

lemma card_ins: "i < cap m \<Longrightarrow> tst m i = 0 \<Longrightarrow> card (marks (ins m i)) = card (marks m) + 1"
  by (auto simp: tst ins finite_marks split: if_splits)

lemma card_del: "i < cap m \<Longrightarrow> tst m i = 1 \<Longrightarrow> card (marks (del m i)) + 1 = card (marks m)"
  using card_Suc_Diff1 [OF finite_marks, of i m] by (auto simp: tst del split: if_splits)

end

interpretation bmap: mark_set bits_of "\<lambda>bm. 8 * length bm"
  exfat_bitmap_test exfat_bitmap_set exfat_bitmap_clear
  by unfold_locales (auto simp: bitmap_test_iff bits_of_set bits_of_clear, auto simp: bits_of_def)

section \<open>The tables\<close>

lemma length_tables [simp]: "length free_bit = 255" "length used_bit = 256"
  by (simp_all add: free_bit_def used_bit_def)

text \<open>Reference functions for the two tables, by recursion on the binary digits.\<close>

fun low_clear :: "nat \<Rightarrow> nat" where
  "low_clear k = (if k = 0 \<or> even k then 0 else Suc (low_clear (k div 2)))"

fun pop_count :: "nat \<Rightarrow> nat" where
  "pop_count k = (if k = 0 then 0 else k mod 2 + pop_count (k div 2))"

declare low_clear.simps [simp del] pop_count.simps [simp del]

fun tabulates :: "(nat \<Rightarrow> nat) \<Rightarrow> nat \<Rightarrow> u8 list \<Rightarrow> bool" where
  "tabulates f k [] = True"
| "tabulates f k (b # bs) = (unat b = f k \<and> tabulates f (Suc k) bs)"

lemma tabulates_nth: "tabulates f k bs \<Longrightarrow> i < length bs \<Longrightarrow> unat (bs ! i) = f (k + i)"
  by (induction f k bs arbitrary: i rule: tabulates.induct) (auto simp: nth_Cons split: nat.splits)

lemma free_bit_table: "tabulates low_clear 0 free_bit"
  unfolding free_bit_def by (simp add: low_clear.simps)

lemma used_bit_table: "tabulates pop_count 0 used_bit"
  unfolding used_bit_def by (simp add: pop_count.simps)

lemma low_clear_bits:
  "\<not> bit k (low_clear k)" "j < low_clear k \<Longrightarrow> bit k j"
proof (induction k arbitrary: j rule: low_clear.induct)
  case (1 k)
  { case 1 then show ?case using "1.IH" by (subst low_clear.simps) (auto simp: bit_0 bit_Suc) }
  { case 2 then show ?case using "1.IH" by (cases j) (auto simp: low_clear.simps [of k] bit_0 bit_Suc split: if_splits) }
qed

lemma low_clear_less: "k < 2 ^ n - 1 \<Longrightarrow> low_clear k < n"
proof (induction n arbitrary: k)
  case (Suc n)
  then show ?case
    by (subst low_clear.simps) (auto elim!: oddE simp: less_diff_conv)
qed simp

lemma pop_count_card: "k < 2 ^ n \<Longrightarrow> pop_count k = card {j. j < n \<and> bit k j}"
proof (induction n arbitrary: k)
  case 0
  then show ?case by (simp add: pop_count.simps)
next
  case (Suc n)
  have split: "{j. j < Suc n \<and> bit k j} = (if odd k then {0} else {}) \<union> Suc ` {j. j < n \<and> bit (k div 2) j}"
    by (auto simp: bit_0 less_Suc_eq_0_disj image_iff simp flip: bit_Suc)
  have "pop_count (k div 2) = card {j. j < n \<and> bit (k div 2) j}"
    using Suc.prems by (intro Suc.IH) auto
  then show ?case
    unfolding split
    by (subst pop_count.simps) (auto simp: card_image odd_iff_mod_2_eq_one card_insert_if)
qed

lemma bit_unat: "bit (unat w) n = bit w n" for w :: "'a::len word"
  by (simp add: bit_unsigned_iff bit_imp_le_length)

lemma unat_byte: "unat k < 256" for k :: u8
  by (rule order.strict_trans2 [OF unsigned_less]) simp

lemma free_bit_lowest:
  assumes "k < (0xFF :: u8)"
  shows "unat (free_bit ! unat k) < 8" "\<not> bit k (unat (free_bit ! unat k))"
    and "j < unat (free_bit ! unat k) \<Longrightarrow> bit k j"
proof -
  have k: "unat k < 255" using assms by (simp add: word_less_nat_alt)
  then have eq: "unat (free_bit ! unat k) = low_clear (unat k)"
    using tabulates_nth [OF free_bit_table, of "unat k"] by simp
  show "unat (free_bit ! unat k) < 8"
    using low_clear_less [of "unat k" 8] k eq by simp
  show "\<not> bit k (unat (free_bit ! unat k))"
    using low_clear_bits(1) [of "unat k"] eq by (simp add: bit_unat)
  show "bit k j" if "j < unat (free_bit ! unat k)"
    using low_clear_bits(2) [of j "unat k"] that eq by (simp add: bit_unat)
qed

lemma used_bit_popcount: "unat (used_bit ! unat k) = card {j. j < 8 \<and> bit k j}" for k :: u8
  using tabulates_nth [OF used_bit_table, of "unat k"] pop_count_card [of "unat k" 8] unat_byte [of k]
  by (simp add: bit_unat)

end
