(* ===== verification/State.thy ===== *)
theory State
  imports Bytes Bitmap
begin

text \<open>
  The state of a mounted volume: the constants of \<open>exfat_api.h\<close>, \<open>exfat_core.h\<close>, \<open>exfat_cache.h\<close> and \<open>exfat_data.h\<close>
  and the structures \<open>BUF_CACHE_T\<close>, \<open>BD_INFO_T\<close>, \<open>FS_INFO_T\<close>, \<open>CHAIN_T\<close>, \<open>FILE_ID_T\<close> as records.

  \<open>struct super_block\<close> with the \<open>exfat_sb_info\<close> behind it is the flat record \<open>sb\<close>.  The kernel's buffer layer is the
  explicit store \<open>blk\<close>: a \<open>struct buffer_head *\<close> is the number of its block (\<open>None\<close> is \<open>NULL\<close>), \<open>b_data\<close> is
  \<open>blk sb n\<close>, \<open>dirty sb n\<close> is the buffer's dirty flag and \<open>disk sb n\<close> is what the device holds.  Two buffer heads of one block share their data, as in the
  kernel's page cache; reference counts are not modelled.  Whether a request to the device succeeds is decided by the
  oracle \<open>io_ok\<close> at the tick \<open>io_clock\<close> of the request, so that a theorem about all states covers every pattern of
  device failures.  In the same way \<open>mem_ok\<close> decides whether \<open>kmalloc\<close> finds memory and \<open>wall_clock\<close> is the kernel's
  clock (seconds since 1970); \<open>sys_tz\<close> is its time zone.
\<close>

section \<open>Return values and constants\<close>

datatype ffs = FFS_SUCCESS | FFS_MEDIAERR | FFS_FORMATERR | FFS_MOUNTED | FFS_NOTMOUNTED | FFS_ALIGNMENTERR
  | FFS_SEMAPHOREERR | FFS_INVALIDPATH | FFS_INVALIDFID | FFS_NOTFOUND | FFS_FILEEXIST | FFS_PERMISSIONERR
  | FFS_NOTOPENED | FFS_MAXOPENED | FFS_FULL | FFS_EOF | FFS_DIRBUSY | FFS_MEMORYERR | FFS_NAMETOOLONG | FFS_ERROR

datatype vol_kind = FAT12 | FAT16 | FAT32 | EXFAT

datatype errors_opt = ERRORS_CONT | ERRORS_PANIC | ERRORS_RO

abbreviation (input) FAT_CACHE_SIZE :: nat where "FAT_CACHE_SIZE \<equiv> 128"
abbreviation (input) FAT_CACHE_HASH_SIZE :: nat where "FAT_CACHE_HASH_SIZE \<equiv> 64"
abbreviation (input) BUF_CACHE_SIZE :: nat where "BUF_CACHE_SIZE \<equiv> 256"
abbreviation (input) BUF_CACHE_HASH_SIZE :: nat where "BUF_CACHE_HASH_SIZE \<equiv> 64"
abbreviation (input) LOCKBIT :: u32 where "LOCKBIT \<equiv> 1"
abbreviation (input) DIRTYBIT :: u32 where "DIRTYBIT \<equiv> 2"

abbreviation (input) VOL_CLEAN :: u32 where "VOL_CLEAN \<equiv> 0"
abbreviation (input) VOL_DIRTY :: u32 where "VOL_DIRTY \<equiv> 2"
abbreviation (input) PBR_SIGNATURE :: u16 where "PBR_SIGNATURE \<equiv> 0xAA55"
abbreviation (input) FAT12_THRESHOLD :: u32 where "FAT12_THRESHOLD \<equiv> 4087"
abbreviation (input) FAT16_THRESHOLD :: u32 where "FAT16_THRESHOLD \<equiv> 65527"
abbreviation (input) EXFAT_DEBUGFLAGS_ERROR_RW :: u32 where "EXFAT_DEBUGFLAGS_ERROR_RW \<equiv> 2"
abbreviation (input) DENTRY_SIZE :: nat where "DENTRY_SIZE \<equiv> 32"
abbreviation (input) DENTRY_SIZE_BITS :: nat where "DENTRY_SIZE_BITS \<equiv> 5"

section \<open>The caches\<close>

text \<open>
  The nodes of a cache: the entries of \<open>*_cache_array\<close>, the head \<open>*_cache_lru_list\<close> and the heads of
  \<open>*_cache_hash_list\<close>.  All of them are \<open>BUF_CACHE_T\<close> structures in the code, linked by pointers; here each field is a
  function on the nodes.  The field \<open>drv\<close> is kept as the \<open>u32\<close> it is converted to wherever the code compares it.
\<close>

datatype cnode = Slot nat | LruHead | HashHead nat

record BUF_CACHE_T =
  bnext :: "cnode \<Rightarrow> cnode"
  bprev :: "cnode \<Rightarrow> cnode"
  hash_next :: "cnode \<Rightarrow> cnode"
  hash_prev :: "cnode \<Rightarrow> cnode"
  bdrv :: "cnode \<Rightarrow> u32"
  bsec :: "cnode \<Rightarrow> u32"
  bflag :: "cnode \<Rightarrow> u32"
  buf_bh :: "cnode \<Rightarrow> u32 option"

section \<open>Chains, hints and file identifiers\<close>

record CHAIN_T =
  ch_dir :: u32
  ch_size :: int
  ch_flags :: u8

record UENTRY_T =
  ue_dir :: u32
  ue_entry :: int
  ue_clu :: CHAIN_T

record FILE_ID_T =
  fid_dir :: CHAIN_T
  fid_entry :: int
  fid_type :: u32
  fid_attr :: u32
  start_clu :: u32
  fid_size :: u64
  fid_flags :: u8
  rwoffset :: int
  hint_last_off :: int
  hint_last_clu :: u32

section \<open>The super block\<close>

record sb =
  blk :: "u32 \<Rightarrow> u8 list"
  dirty :: "u32 \<Rightarrow> bool"
  disk :: "u32 \<Rightarrow> u8 list"
  io_clock :: nat
  io_ok :: "nat \<Rightarrow> bool"
  mem_ok :: "nat \<Rightarrow> bool"
  wall_clock :: "nat \<Rightarrow> int"
  sys_tz :: int
  s_blocksize :: int
  s_rdonly :: bool
  s_dirt :: bool
  panicked :: bool
  logical_block_size :: int
  dev_bytes :: int
  opt_errors :: errors_opt
  casesensitive :: bool
  debug_flags :: u32
  sector_size :: int
  sector_size_bits :: nat
  sector_size_mask :: int
  bd_num_sectors :: int
  opened :: bool
  drv :: u32
  vol_type :: vol_kind
  vol_id :: u32
  num_sectors :: u32
  num_clusters :: u32
  cluster_size :: u32
  cluster_size_bits :: u32
  sectors_per_clu :: u32
  sectors_per_clu_bits :: u32
  PBR_sector :: u32
  FAT1_start_sector :: u32
  FAT2_start_sector :: u32
  root_start_sector :: u32
  data_start_sector :: u32
  num_FAT_sectors :: u32
  root_dir :: u32
  dentries_in_root :: u32
  dentries_per_clu :: u32
  vol_flag :: u32
  pbr_bh :: "u32 option"
  map_clu :: u32
  map_sectors :: u32
  vol_amap :: "u32 option list"
  vol_utbl :: "u16 list option list"
  clu_srch_ptr :: u32
  used_clusters :: u32
  hint_uentry :: UENTRY_T
  dev_ejected :: bool
  FAT_cache :: BUF_CACHE_T
  the_buf_cache :: BUF_CACHE_T

section \<open>Macros of \<open>exfat_core.h\<close>\<close>

definition START_SECTOR :: "sb \<Rightarrow> u32 \<Rightarrow> u32" where
  "START_SECTOR s x = push_bit (unat (sectors_per_clu_bits s)) (x - 2) + data_start_sector s"

definition IS_LAST_SECTOR_IN_CLUSTER :: "sb \<Rightarrow> u32 \<Rightarrow> bool" where
  "IS_LAST_SECTOR_IN_CLUSTER s sec \<longleftrightarrow>
     (sec - data_start_sector s + 1) AND (push_bit (unat (sectors_per_clu_bits s)) 1 - 1) = 0"

definition GET_CLUSTER_FROM_SECTOR :: "sb \<Rightarrow> u32 \<Rightarrow> u32" where
  "GET_CLUSTER_FROM_SECTOR s sec = drop_bit (unat (sectors_per_clu_bits s)) (sec - data_start_sector s) + 2"

text \<open>Writing through a pointer into \<open>b_data\<close> of block \<open>n\<close> at offset \<open>off\<close>.\<close>

definition poke :: "u32 \<Rightarrow> nat \<Rightarrow> u8 list \<Rightarrow> sb \<Rightarrow> sb" where
  "poke n off bs s = s\<lparr>blk := (blk s)(n := splice_at (blk s n) off bs)\<rparr>"

definition set_sb_dirty :: "sb \<Rightarrow> sb" where
  "set_sb_dirty s = s\<lparr>s_dirt := True\<rparr>"

end
