(* ===== verification/BlockDev.thy ===== *)
theory BlockDev
  imports State
begin

text \<open>
  The block device layer, \<open>exfat_blkdev.c\<close>, the sector operations and the error handling at the end of
  \<open>exfat_core.c\<close> (\<open>sector_read\<close>, \<open>sector_write\<close>, their multi-sector variants, \<open>fs_error\<close>, \<open>fs_sync\<close>) and
  \<open>fs_set_vol_flags\<close>.  A \<open>struct buffer_head **\<close> argument is passed in as the pointer's value and returned updated.
  Of the kernel's buffer functions the code relies on: \<open>__bread\<close> and \<open>__getblk\<close> return the buffer of the block or
  \<open>NULL\<close>; \<open>mark_buffer_dirty\<close> sets the dirty flag; \<open>sync_dirty_buffer\<close> clears it, writes the data to the device and
  reports failure; \<open>sync_blockdev\<close> does this for all dirty buffers.
\<close>

section \<open>Requests to the kernel\<close>

definition io_now :: "sb \<Rightarrow> bool" where
  "io_now s = io_ok s (io_clock s)"

definition tick :: "sb \<Rightarrow> sb" where
  "tick s = s\<lparr>io_clock := Suc (io_clock s)\<rparr>"

definition kernel_getblk :: "sb \<Rightarrow> u32 \<Rightarrow> sb \<times> u32 option" where
  "kernel_getblk s n = (tick s, if io_now s then Some n else None)"

definition sync_dirty_buffer :: "sb \<Rightarrow> u32 \<Rightarrow> sb \<times> bool" where
  "sync_dirty_buffer s n =
     (if \<not> dirty s n then (s, True)
      else let s1 = (tick s)\<lparr>dirty := (dirty s)(n := False)\<rparr>
           in if io_now s then (s1\<lparr>disk := (disk s)(n := blk s n)\<rparr>, True) else (s1, False))"

definition sync_blockdev :: "sb \<Rightarrow> sb \<times> int" where
  "sync_blockdev s =
     (let s1 = (tick s)\<lparr>dirty := (\<lambda>_. False)\<rparr>
      in if io_now s then (s1\<lparr>disk := (\<lambda>n. if dirty s n then blk s n else disk s n)\<rparr>, 0) else (s1, -5))"

definition mark_buffer_dirty :: "sb \<Rightarrow> u32 \<Rightarrow> sb" where
  "mark_buffer_dirty s n = s\<lparr>dirty := (dirty s)(n := True)\<rparr>"

section \<open>\<open>exfat_blkdev.c\<close>\<close>

fun ilog2 :: "nat \<Rightarrow> nat" where
  "ilog2 n = (if n < 2 then 0 else Suc (ilog2 (n div 2)))"

declare ilog2.simps [simp del]

definition bdev_open :: "sb \<Rightarrow> sb \<times> ffs" where
  "bdev_open s =
     (if opened s then (s, FFS_SUCCESS)
      else (let bits = ilog2 (nat (logical_block_size s))
            in s\<lparr>sector_size := logical_block_size s, sector_size_bits := bits,
                 sector_size_mask := logical_block_size s - 1,
                 bd_num_sectors := drop_bit bits (dev_bytes s), opened := True\<rparr>, FFS_SUCCESS))"

definition bdev_close :: "sb \<Rightarrow> sb \<times> ffs" where
  "bdev_close s = (if \<not> opened s then (s, FFS_SUCCESS) else (s\<lparr>opened := False\<rparr>, FFS_SUCCESS))"

definition debug_error_rw :: "sb \<Rightarrow> bool" where
  "debug_error_rw s \<longleftrightarrow> debug_flags s AND EXFAT_DEBUGFLAGS_ERROR_RW \<noteq> 0"

definition bdev_read :: "sb \<Rightarrow> u32 \<Rightarrow> u32 option \<Rightarrow> u32 \<Rightarrow> bool \<Rightarrow> sb \<times> u32 option \<times> ffs" where
  "bdev_read s secno bh num_secs read =
     (if debug_error_rw s then (s, bh, FFS_MEDIAERR)
      else if \<not> opened s then (s, bh, FFS_MEDIAERR)
      else case kernel_getblk s secno of
             (s1, Some n) \<Rightarrow> (s1, Some n, FFS_SUCCESS)
           | (s1, None) \<Rightarrow> (s1, None, FFS_MEDIAERR))"

definition bdev_write :: "sb \<Rightarrow> u32 \<Rightarrow> u32 \<Rightarrow> u32 \<Rightarrow> bool \<Rightarrow> sb \<times> ffs" where
  "bdev_write s secno bh num_secs sync =
     (if debug_error_rw s then (s, FFS_MEDIAERR)
      else if \<not> opened s then (s, FFS_MEDIAERR)
      else if secno = bh then
        (let s1 = mark_buffer_dirty s bh
         in if sync then (case sync_dirty_buffer s1 bh of (s2, ok) \<Rightarrow> (s2, if ok then FFS_SUCCESS else FFS_MEDIAERR))
            else (s1, FFS_SUCCESS))
      else
        (let count = unat (push_bit (sector_size_bits s) num_secs)
         in case kernel_getblk s secno of
              (s1, None) \<Rightarrow> (s1, FFS_MEDIAERR)
            | (s1, Some bh2) \<Rightarrow>
                let s2 = mark_buffer_dirty (poke bh2 0 (take count (blk s1 bh)) s1) bh2
                in if sync then (case sync_dirty_buffer s2 bh2 of (s3, ok) \<Rightarrow> (s3, if ok then FFS_SUCCESS else FFS_MEDIAERR))
                   else (s2, FFS_SUCCESS)))"

definition bdev_sync :: "sb \<Rightarrow> sb \<times> int" where
  "bdev_sync s =
     (if debug_error_rw s then (s, 1)
      else if \<not> opened s then (s, 1)
      else sync_blockdev s)"

section \<open>Errors and sectors\<close>

definition fs_error :: "sb \<Rightarrow> sb" where
  "fs_error s =
     (if opt_errors s = ERRORS_PANIC then s\<lparr>panicked := True\<rparr>
      else if opt_errors s = ERRORS_RO \<and> \<not> s_rdonly s then s\<lparr>s_rdonly := True\<rparr>
      else s)"

definition fs_sync :: "sb \<Rightarrow> bool \<Rightarrow> sb" where
  "fs_sync s do_sync = (if do_sync then fst (bdev_sync s) else s)"

definition out_of_range :: "sb \<Rightarrow> u32 \<Rightarrow> bool" where
  "out_of_range s sec \<longleftrightarrow> sec \<ge> PBR_sector s + num_sectors s \<and> num_sectors s > 0"

definition sector_read :: "sb \<Rightarrow> u32 \<Rightarrow> u32 option \<Rightarrow> bool \<Rightarrow> sb \<times> u32 option \<times> ffs" where
  "sector_read s sec bh read =
     (if out_of_range s sec then (fs_error s, bh, FFS_MEDIAERR)
      else if \<not> dev_ejected s then
        (case bdev_read s sec bh 1 read of
           (s1, bh1, ret) \<Rightarrow> (if ret \<noteq> FFS_SUCCESS then s1\<lparr>dev_ejected := True\<rparr> else s1, bh1, ret))
      else (s, bh, FFS_MEDIAERR))"

definition sector_write :: "sb \<Rightarrow> u32 \<Rightarrow> u32 option \<Rightarrow> bool \<Rightarrow> sb \<times> ffs" where
  "sector_write s sec bh sync =
     (if out_of_range s sec then (fs_error s, FFS_MEDIAERR)
      else case bh of
        None \<Rightarrow> (fs_error s, FFS_MEDIAERR)
      | Some b \<Rightarrow>
          if \<not> dev_ejected s then
            (case bdev_write s sec b 1 sync of
               (s1, ret) \<Rightarrow> (if ret \<noteq> FFS_SUCCESS then s1\<lparr>dev_ejected := True\<rparr> else s1, ret))
          else (s, FFS_MEDIAERR))"

definition multi_out_of_range :: "sb \<Rightarrow> u32 \<Rightarrow> u32 \<Rightarrow> bool" where
  "multi_out_of_range s sec num_secs \<longleftrightarrow> sec + num_secs > PBR_sector s + num_sectors s \<and> num_sectors s > 0"

definition multi_sector_read :: "sb \<Rightarrow> u32 \<Rightarrow> u32 option \<Rightarrow> int \<Rightarrow> bool \<Rightarrow> sb \<times> u32 option \<times> ffs" where
  "multi_sector_read s sec bh num_secs read =
     (if multi_out_of_range s sec (of_s32 num_secs) then (fs_error s, bh, FFS_MEDIAERR)
      else if \<not> dev_ejected s then
        (case bdev_read s sec bh (of_s32 num_secs) read of
           (s1, bh1, ret) \<Rightarrow> (if ret \<noteq> FFS_SUCCESS then s1\<lparr>dev_ejected := True\<rparr> else s1, bh1, ret))
      else (s, bh, FFS_MEDIAERR))"

definition multi_sector_write :: "sb \<Rightarrow> u32 \<Rightarrow> u32 option \<Rightarrow> int \<Rightarrow> bool \<Rightarrow> sb \<times> ffs" where
  "multi_sector_write s sec bh num_secs sync =
     (if multi_out_of_range s sec (of_s32 num_secs) then (fs_error s, FFS_MEDIAERR)
      else case bh of
        None \<Rightarrow> (fs_error s, FFS_MEDIAERR)
      | Some b \<Rightarrow>
          if \<not> dev_ejected s then
            (case bdev_write s sec b (of_s32 num_secs) sync of
               (s1, ret) \<Rightarrow> (if ret \<noteq> FFS_SUCCESS then s1\<lparr>dev_ejected := True\<rparr> else s1, ret))
          else (s, FFS_MEDIAERR))"

text \<open>Offset of \<open>vol_flags\<close> in the boot sector: \<open>bpb\<close> starts at byte 11, \<open>vol_flags\<close> is byte 95 of \<open>BPBEX_T\<close>.\<close>

abbreviation (input) VOL_FLAGS_OFF :: nat where "VOL_FLAGS_OFF \<equiv> 106"

definition fs_set_vol_flags :: "sb \<Rightarrow> u32 \<Rightarrow> sb" where
  "fs_set_vol_flags s new_flag =
     (if vol_flag s = new_flag then s
      else let s0 = s\<lparr>vol_flag := new_flag\<rparr>
           in if vol_type s0 \<noteq> EXFAT then s0
              else let (s1, bh, ret) =
                         (if pbr_bh s0 = None
                          then (case sector_read s0 (PBR_sector s0) (pbr_bh s0) True of
                                  (t, bh, ret) \<Rightarrow> (t\<lparr>pbr_bh := bh\<rparr>, bh, ret))
                          else (s0, pbr_bh s0, FFS_SUCCESS))
                   in case bh of
                        None \<Rightarrow> s1
                      | Some b \<Rightarrow>
                          if ret \<noteq> FFS_SUCCESS then s1
                          else let s2 = s1\<lparr>blk := (blk s1)(b := SET16 (blk s1 b) VOL_FLAGS_OFF (ucast new_flag))\<rparr>
                               in if new_flag = VOL_DIRTY \<and> \<not> dirty s2 b
                                  then fst (sector_write s2 (PBR_sector s2) (Some b) True)
                                  else fst (sector_write s2 (PBR_sector s2) (Some b) False))"

end
