(* ===== verification/Cache.thy ===== *)
theory Cache
  imports BlockDev
begin

text \<open>
  \<open>exfat_cache.c\<close>: the FAT cache and the buffer cache, each an array of entries threaded on an LRU ring and on the
  rings of a hash table.  The pointer fields are updated exactly in the code's order.  The two walks that follow
  pointers (a hash chain, the LRU ring) carry fuel, one more than the number of entries; \<open>CacheInv\<close> proves that a
  walk on a well-formed cache stops before the fuel does.  \<open>FAT_getblk\<close> and \<open>buf_getblk\<close> return the block number
  that stands for the pointer to \<open>b_data\<close>, or \<open>None\<close>.
\<close>

section \<open>Ring operations\<close>

definition push_to_mru :: "BUF_CACHE_T \<Rightarrow> cnode \<Rightarrow> cnode \<Rightarrow> BUF_CACHE_T" where
  "push_to_mru c bp list =
     (let c1 = c\<lparr>bnext := (bnext c)(bp := bnext c list)\<rparr>;
          c2 = c1\<lparr>bprev := (bprev c1)(bp := list)\<rparr>;
          c3 = c2\<lparr>bprev := (bprev c2)(bnext c2 list := bp)\<rparr>
      in c3\<lparr>bnext := (bnext c3)(list := bp)\<rparr>)"

definition push_to_lru :: "BUF_CACHE_T \<Rightarrow> cnode \<Rightarrow> cnode \<Rightarrow> BUF_CACHE_T" where
  "push_to_lru c bp list =
     (let c1 = c\<lparr>bprev := (bprev c)(bp := bprev c list)\<rparr>;
          c2 = c1\<lparr>bnext := (bnext c1)(bp := list)\<rparr>;
          c3 = c2\<lparr>bnext := (bnext c2)(bprev c2 list := bp)\<rparr>
      in c3\<lparr>bprev := (bprev c3)(list := bp)\<rparr>)"

definition unlink_lru :: "BUF_CACHE_T \<Rightarrow> cnode \<Rightarrow> BUF_CACHE_T" where
  "unlink_lru c bp =
     (let c1 = c\<lparr>bnext := (bnext c)(bprev c bp := bnext c bp)\<rparr>
      in c1\<lparr>bprev := (bprev c1)(bnext c1 bp := bprev c1 bp)\<rparr>)"

definition move_to_mru :: "BUF_CACHE_T \<Rightarrow> cnode \<Rightarrow> cnode \<Rightarrow> BUF_CACHE_T" where
  "move_to_mru c bp list = push_to_mru (unlink_lru c bp) bp list"

definition move_to_lru :: "BUF_CACHE_T \<Rightarrow> cnode \<Rightarrow> cnode \<Rightarrow> BUF_CACHE_T" where
  "move_to_lru c bp list = push_to_lru (unlink_lru c bp) bp list"

definition insert_hash :: "BUF_CACHE_T \<Rightarrow> cnode \<Rightarrow> cnode \<Rightarrow> BUF_CACHE_T" where
  "insert_hash c hp bp =
     (let c1 = c\<lparr>hash_next := (hash_next c)(bp := hash_next c hp)\<rparr>;
          c2 = c1\<lparr>hash_prev := (hash_prev c1)(bp := hp)\<rparr>;
          c3 = c2\<lparr>hash_prev := (hash_prev c2)(hash_next c2 hp := bp)\<rparr>
      in c3\<lparr>hash_next := (hash_next c3)(hp := bp)\<rparr>)"

definition remove_hash :: "BUF_CACHE_T \<Rightarrow> cnode \<Rightarrow> BUF_CACHE_T" where
  "remove_hash c bp =
     (let c1 = c\<lparr>hash_next := (hash_next c)(hash_prev c bp := hash_next c bp)\<rparr>
      in c1\<lparr>hash_prev := (hash_prev c1)(hash_next c1 bp := hash_prev c1 bp)\<rparr>)"

fun hash_walk :: "nat \<Rightarrow> BUF_CACHE_T \<Rightarrow> (cnode \<Rightarrow> bool) \<Rightarrow> cnode \<Rightarrow> cnode \<Rightarrow> cnode option" where
  "hash_walk 0 c hit hp bp = None"
| "hash_walk (Suc fuel) c hit hp bp =
     (if bp = hp then None else if hit bp then Some bp else hash_walk fuel c hit hp (hash_next c bp))"

fun lru_walk :: "nat \<Rightarrow> cnode \<Rightarrow> (BUF_CACHE_T \<Rightarrow> cnode \<Rightarrow> BUF_CACHE_T) \<Rightarrow> BUF_CACHE_T \<Rightarrow> cnode \<Rightarrow> BUF_CACHE_T" where
  "lru_walk 0 list body c bp = c"
| "lru_walk (Suc fuel) list body c bp =
     (if bp = list then c else let c1 = body c bp in lru_walk fuel list body c1 (bnext c1 bp))"

definition invalidate :: "BUF_CACHE_T \<Rightarrow> cnode \<Rightarrow> BUF_CACHE_T" where
  "invalidate c bp = c\<lparr>bdrv := (bdrv c)(bp := -1), bsec := (bsec c)(bp := -1), bflag := (bflag c)(bp := 0),
     buf_bh := (buf_bh c)(bp := None)\<rparr>"

definition claim_entry :: "u32 \<Rightarrow> u32 \<Rightarrow> BUF_CACHE_T \<Rightarrow> cnode \<Rightarrow> BUF_CACHE_T" where
  "claim_entry d sec c bp = c\<lparr>bdrv := (bdrv c)(bp := d), bsec := (bsec c)(bp := sec), bflag := (bflag c)(bp := 0)\<rparr>"

section \<open>Initialisation\<close>

definition init_entry :: "BUF_CACHE_T \<Rightarrow> nat \<Rightarrow> BUF_CACHE_T" where
  "init_entry c i = push_to_mru (invalidate c (Slot i)) (Slot i) LruHead"

definition init_hash_head :: "BUF_CACHE_T \<Rightarrow> nat \<Rightarrow> BUF_CACHE_T" where
  "init_hash_head c i = c\<lparr>bdrv := (bdrv c)(HashHead i := -1), bsec := (bsec c)(HashHead i := -1),
     hash_next := (hash_next c)(HashHead i := HashHead i), hash_prev := (hash_prev c)(HashHead i := HashHead i)\<rparr>"

definition init_lru_head :: "BUF_CACHE_T \<Rightarrow> BUF_CACHE_T" where
  "init_lru_head c = c\<lparr>bnext := (bnext c)(LruHead := LruHead), bprev := (bprev c)(LruHead := LruHead)\<rparr>"

definition FAT_hash :: "sb \<Rightarrow> u32 \<Rightarrow> nat" where
  "FAT_hash s sec = unat ((sec + drop_bit (unat (sectors_per_clu_bits s)) sec) AND of_nat (FAT_CACHE_HASH_SIZE - 1))"

definition buf_hash :: "sb \<Rightarrow> u32 \<Rightarrow> nat" where
  "buf_hash s sec = unat ((sec + drop_bit (unat (sectors_per_clu_bits s)) sec) AND of_nat (BUF_CACHE_HASH_SIZE - 1))"

definition FAT_cache_insert_hash :: "sb \<Rightarrow> BUF_CACHE_T \<Rightarrow> cnode \<Rightarrow> BUF_CACHE_T" where
  "FAT_cache_insert_hash s c bp = insert_hash c (HashHead (FAT_hash s (bsec c bp))) bp"

definition FAT_cache_remove_hash :: "BUF_CACHE_T \<Rightarrow> cnode \<Rightarrow> BUF_CACHE_T" where
  "FAT_cache_remove_hash c bp = remove_hash c bp"

definition buf_cache_insert_hash :: "sb \<Rightarrow> BUF_CACHE_T \<Rightarrow> cnode \<Rightarrow> BUF_CACHE_T" where
  "buf_cache_insert_hash s c bp = insert_hash c (HashHead (buf_hash s (bsec c bp))) bp"

definition buf_cache_remove_hash :: "BUF_CACHE_T \<Rightarrow> cnode \<Rightarrow> BUF_CACHE_T" where
  "buf_cache_remove_hash c bp = remove_hash c bp"

definition buf_init :: "sb \<Rightarrow> sb \<times> ffs" where
  "buf_init s =
     (let fc1 = fold (\<lambda>i c. init_entry c i) [0..<FAT_CACHE_SIZE] (init_lru_head (FAT_cache s));
          bc1 = fold (\<lambda>i c. init_entry c i) [0..<BUF_CACHE_SIZE] (init_lru_head (the_buf_cache s));
          fc2 = fold (\<lambda>i c. init_hash_head c i) [0..<FAT_CACHE_HASH_SIZE] fc1;
          fc3 = fold (\<lambda>i c. FAT_cache_insert_hash s c (Slot i)) [0..<FAT_CACHE_SIZE] fc2;
          bc2 = fold (\<lambda>i c. init_hash_head c i) [0..<BUF_CACHE_HASH_SIZE] bc1;
          bc3 = fold (\<lambda>i c. buf_cache_insert_hash s c (Slot i)) [0..<BUF_CACHE_SIZE] bc2
      in (s\<lparr>FAT_cache := fc3, the_buf_cache := bc3\<rparr>, FFS_SUCCESS))"

definition buf_shutdown :: "sb \<Rightarrow> sb \<times> ffs" where
  "buf_shutdown s = (s, FFS_SUCCESS)"

section \<open>The FAT cache\<close>

definition FAT_cache_find :: "sb \<Rightarrow> u32 \<Rightarrow> cnode option" where
  "FAT_cache_find s sec =
     (let c = FAT_cache s; hp = HashHead (FAT_hash s sec)
      in hash_walk (Suc FAT_CACHE_SIZE) c (\<lambda>bp. bdrv c bp = drv s \<and> bsec c bp = sec) hp (hash_next c hp))"

definition FAT_cache_get :: "sb \<Rightarrow> sb \<times> cnode" where
  "FAT_cache_get s =
     (let c = FAT_cache s; bp = bprev c LruHead
      in (s\<lparr>FAT_cache := move_to_mru c bp LruHead\<rparr>, bp))"

definition FAT_getblk :: "sb \<Rightarrow> u32 \<Rightarrow> sb \<times> u32 option" where
  "FAT_getblk s sec =
     (case FAT_cache_find s sec of
        Some bp \<Rightarrow> (s\<lparr>FAT_cache := move_to_mru (FAT_cache s) bp LruHead\<rparr>, buf_bh (FAT_cache s) bp)
      | None \<Rightarrow>
          (case FAT_cache_get s of
             (s1, bp) \<Rightarrow>
               let c1 = FAT_cache_remove_hash (FAT_cache s1) bp;
                   c2 = claim_entry (drv s1) sec c1 bp;
                   c3 = FAT_cache_insert_hash s1 c2 bp
               in case sector_read s1 sec (buf_bh c3 bp) True of
                    (s2, bh, ret) \<Rightarrow>
                      let c4 = c3\<lparr>buf_bh := (buf_bh c3)(bp := bh)\<rparr>
                      in if ret \<noteq> FFS_SUCCESS
                         then (s2\<lparr>FAT_cache := move_to_lru (invalidate (FAT_cache_remove_hash c4 bp) bp) bp LruHead\<rparr>, None)
                         else (s2\<lparr>FAT_cache := c4\<rparr>, bh)))"

definition FAT_modify :: "sb \<Rightarrow> u32 \<Rightarrow> sb" where
  "FAT_modify s sec =
     (case FAT_cache_find s sec of
        None \<Rightarrow> s
      | Some bp \<Rightarrow> fst (sector_write s sec (buf_bh (FAT_cache s) bp) False))"

definition release_entry :: "u32 \<Rightarrow> BUF_CACHE_T \<Rightarrow> cnode \<Rightarrow> BUF_CACHE_T" where
  "release_entry d c bp = (if bdrv c bp = d then invalidate c bp else c)"

definition FAT_release_all :: "sb \<Rightarrow> sb" where
  "FAT_release_all s =
     s\<lparr>FAT_cache := lru_walk (Suc FAT_CACHE_SIZE) LruHead (release_entry (drv s)) (FAT_cache s) (bnext (FAT_cache s) LruHead)\<rparr>"

fun sync_walk :: "nat \<Rightarrow> sb \<Rightarrow> BUF_CACHE_T \<Rightarrow> cnode \<Rightarrow> sb \<times> BUF_CACHE_T" where
  "sync_walk 0 s c bp = (s, c)"
| "sync_walk (Suc fuel) s c bp =
     (if bp = LruHead then (s, c)
      else if bdrv c bp = drv s \<and> bflag c bp AND DIRTYBIT \<noteq> 0
      then let s1 = (case buf_bh c bp of None \<Rightarrow> s | Some n \<Rightarrow> fst (sync_dirty_buffer s n));
               c1 = c\<lparr>bflag := (bflag c)(bp := bflag c bp AND NOT DIRTYBIT)\<rparr>
           in sync_walk fuel s1 c1 (bnext c1 bp)
      else sync_walk fuel s c (bnext c bp))"

definition FAT_sync :: "sb \<Rightarrow> sb" where
  "FAT_sync s = (case sync_walk (Suc FAT_CACHE_SIZE) s (FAT_cache s) (bnext (FAT_cache s) LruHead) of
                   (s1, c) \<Rightarrow> s1\<lparr>FAT_cache := c\<rparr>)"

section \<open>The buffer cache\<close>

definition buf_cache_find :: "sb \<Rightarrow> u32 \<Rightarrow> cnode option" where
  "buf_cache_find s sec =
     (let c = the_buf_cache s; hp = HashHead (buf_hash s sec)
      in hash_walk (Suc BUF_CACHE_SIZE) c (\<lambda>bp. bdrv c bp = drv s \<and> bsec c bp = sec) hp (hash_next c hp))"

fun unlocked_walk :: "nat \<Rightarrow> BUF_CACHE_T \<Rightarrow> cnode \<Rightarrow> cnode" where
  "unlocked_walk 0 c bp = bp"
| "unlocked_walk (Suc fuel) c bp =
     (if bflag c bp AND LOCKBIT \<noteq> 0 then unlocked_walk fuel c (bprev c bp) else bp)"

definition buf_cache_get :: "sb \<Rightarrow> sb \<times> cnode" where
  "buf_cache_get s =
     (let c = the_buf_cache s; bp = unlocked_walk (Suc BUF_CACHE_SIZE) c (bprev c LruHead)
      in (s\<lparr>the_buf_cache := move_to_mru c bp LruHead\<rparr>, bp))"

definition buf_getblk :: "sb \<Rightarrow> u32 \<Rightarrow> sb \<times> u32 option" where
  "buf_getblk s sec =
     (case buf_cache_find s sec of
        Some bp \<Rightarrow> (s\<lparr>the_buf_cache := move_to_mru (the_buf_cache s) bp LruHead\<rparr>, buf_bh (the_buf_cache s) bp)
      | None \<Rightarrow>
          (case buf_cache_get s of
             (s1, bp) \<Rightarrow>
               let c1 = buf_cache_remove_hash (the_buf_cache s1) bp;
                   c2 = claim_entry (drv s1) sec c1 bp;
                   c3 = buf_cache_insert_hash s1 c2 bp
               in case sector_read s1 sec (buf_bh c3 bp) True of
                    (s2, bh, ret) \<Rightarrow>
                      let c4 = c3\<lparr>buf_bh := (buf_bh c3)(bp := bh)\<rparr>
                      in if ret \<noteq> FFS_SUCCESS
                         then (s2\<lparr>the_buf_cache := move_to_lru (invalidate (buf_cache_remove_hash c4 bp) bp) bp LruHead\<rparr>, None)
                         else (s2\<lparr>the_buf_cache := c4\<rparr>, bh)))"

definition buf_modify :: "sb \<Rightarrow> u32 \<Rightarrow> sb" where
  "buf_modify s sec =
     (case buf_cache_find s sec of
        None \<Rightarrow> s
      | Some bp \<Rightarrow> fst (sector_write s sec (buf_bh (the_buf_cache s) bp) False))"

definition buf_lock :: "sb \<Rightarrow> u32 \<Rightarrow> sb" where
  "buf_lock s sec =
     (case buf_cache_find s sec of
        None \<Rightarrow> s
      | Some bp \<Rightarrow> let c = the_buf_cache s in s\<lparr>the_buf_cache := c\<lparr>bflag := (bflag c)(bp := bflag c bp OR LOCKBIT)\<rparr>\<rparr>)"

definition buf_unlock :: "sb \<Rightarrow> u32 \<Rightarrow> sb" where
  "buf_unlock s sec =
     (case buf_cache_find s sec of
        None \<Rightarrow> s
      | Some bp \<Rightarrow> let c = the_buf_cache s in s\<lparr>the_buf_cache := c\<lparr>bflag := (bflag c)(bp := bflag c bp AND NOT LOCKBIT)\<rparr>\<rparr>)"

definition buf_release :: "sb \<Rightarrow> u32 \<Rightarrow> sb" where
  "buf_release s sec =
     (case buf_cache_find s sec of
        None \<Rightarrow> s
      | Some bp \<Rightarrow> s\<lparr>the_buf_cache := move_to_lru (invalidate (the_buf_cache s) bp) bp LruHead\<rparr>)"

definition buf_release_all :: "sb \<Rightarrow> sb" where
  "buf_release_all s =
     s\<lparr>the_buf_cache := lru_walk (Suc BUF_CACHE_SIZE) LruHead (release_entry (drv s)) (the_buf_cache s)
        (bnext (the_buf_cache s) LruHead)\<rparr>"

definition buf_sync :: "sb \<Rightarrow> sb" where
  "buf_sync s = (case sync_walk (Suc BUF_CACHE_SIZE) s (the_buf_cache s) (bnext (the_buf_cache s) LruHead) of
                   (s1, c) \<Rightarrow> s1\<lparr>the_buf_cache := c\<rparr>)"

end
