(* ===== verification/Ring.thy ===== *)
theory Ring
  imports Prelude
begin

text \<open>
  Doubly linked rings given by two pointer functions: \<open>path\<close> is a linked segment, \<open>ring\<close> a segment from a list head
  back to itself.  The lemmas say what the pointer updates of unlinking a node and of pushing a node at either end do
  to the sequence of nodes, and that updates elsewhere leave a ring alone.
\<close>

fun path :: "('n \<Rightarrow> 'n) \<Rightarrow> ('n \<Rightarrow> 'n) \<Rightarrow> 'n \<Rightarrow> 'n list \<Rightarrow> 'n \<Rightarrow> bool" where
  "path nx pv a [] b \<longleftrightarrow> nx a = b \<and> pv b = a"
| "path nx pv a (x # xs) b \<longleftrightarrow> nx a = x \<and> pv x = a \<and> path nx pv x xs b"

definition ring :: "('n \<Rightarrow> 'n) \<Rightarrow> ('n \<Rightarrow> 'n) \<Rightarrow> 'n \<Rightarrow> 'n list \<Rightarrow> bool" where
  "ring nx pv h xs \<longleftrightarrow> distinct (h # xs) \<and> path nx pv h xs h"

lemma path_append:
  "path nx pv a (xs @ y # ys) b \<longleftrightarrow> path nx pv a xs y \<and> path nx pv y ys b"
  by (induction xs arbitrary: a) auto

lemma path_cong:
  "\<lbrakk>\<And>n. n \<in> set (a # xs) \<Longrightarrow> nx' n = nx n; \<And>n. n \<in> set (b # xs) \<Longrightarrow> pv' n = pv n\<rbrakk>
   \<Longrightarrow> path nx' pv' a xs b = path nx pv a xs b"
  by (induction xs arbitrary: a) auto

lemma ring_cong:
  "\<lbrakk>\<And>n. n \<in> set (h # xs) \<Longrightarrow> nx' n = nx n; \<And>n. n \<in> set (h # xs) \<Longrightarrow> pv' n = pv n\<rbrakk>
   \<Longrightarrow> ring nx' pv' h xs = ring nx pv h xs"
  using path_cong [of h xs nx' nx h pv' pv] by (simp add: ring_def)

lemma path_next_in: "path nx pv a xs b \<Longrightarrow> nx a \<in> set (b # xs)"
  by (cases xs) auto

lemma path_prev_in: "path nx pv a xs b \<Longrightarrow> pv b \<in> set (a # xs)"
  by (cases xs rule: rev_cases) (auto simp: path_append)

lemma path_relink_start:
  assumes "path nx pv a ys b" "a' \<notin> set ys" "b \<notin> set ys" "distinct ys"
  shows "path (nx(a' := nx a)) (pv(nx a := a')) a' ys b"
proof (cases ys)
  case Nil
  then show ?thesis using assms(1) by simp
next
  case (Cons y zs)
  with assms have *: "nx a = y" "path nx pv y zs b" "a' \<notin> set (y # zs)" "y \<notin> set (b # zs)" by auto
  have "path (nx(a' := y)) (pv(y := a')) y zs b"
    using * by (subst path_cong [where nx = nx and pv = pv]) auto
  then show ?thesis using * Cons by simp
qed

lemma path_relink_end:
  assumes "path nx pv a ys b" "b' \<notin> set ys" "a \<notin> set ys" "distinct ys"
  shows "path (nx(pv b := b')) (pv(b' := pv b)) a ys b'"
proof (cases ys rule: rev_cases)
  case Nil
  then show ?thesis using assms(1) by simp
next
  case (snoc us z)
  with assms have *: "path nx pv a us z" "nx z = b" "pv b = z" "b' \<notin> set us" "b' \<noteq> z" "z \<notin> set (a # us)"
    by (auto simp: path_append)
  have "path (nx(z := b')) (pv(b' := z)) a us z"
    using * by (subst path_cong [where nx = nx and pv = pv]) auto
  then show ?thesis using * snoc by (simp add: path_append)
qed

lemma ring_empty: "ring nx pv h [] \<longleftrightarrow> nx h = h \<and> pv h = h"
  by (auto simp: ring_def)

lemma ring_next: "ring nx pv h xs \<Longrightarrow> nx h = hd (xs @ [h])"
  by (cases xs) (auto simp: ring_def)

lemma ring_prev: "ring nx pv h xs \<Longrightarrow> pv h = last (h # xs)"
  by (cases xs rule: rev_cases) (auto simp: ring_def path_append)

lemma ring_prev_snoc: "ring nx pv h (xs @ [x]) \<Longrightarrow> pv x = last (h # xs)"
  by (cases xs rule: rev_cases) (auto simp: ring_def path_append)

lemma ring_next_in: "ring nx pv h xs \<Longrightarrow> nx h \<in> set (h # xs)"
  unfolding ring_def using path_next_in by fastforce

lemma ring_prev_in: "ring nx pv h xs \<Longrightarrow> pv h \<in> set (h # xs)"
  unfolding ring_def using path_prev_in by fastforce

lemma ring_node_links:
  assumes "ring nx pv h xs" "y \<in> set xs"
  shows "nx y \<in> set (h # xs)" "pv y \<in> set (h # xs)" "nx (pv y) = y" "pv (nx y) = y"
proof -
  obtain us vs where xs: "xs = us @ y # vs" using assms(2) by (meson split_list)
  then have p: "path nx pv h us y" "path nx pv y vs h" using assms(1) by (auto simp: ring_def path_append)
  show "nx y \<in> set (h # xs)" using path_next_in [OF p(2)] xs by auto
  show "pv y \<in> set (h # xs)" using path_prev_in [OF p(1)] xs by auto
  show "nx (pv y) = y" using p(1) by (cases us rule: rev_cases) (auto simp: path_append)
  show "pv (nx y) = y" using p(2) by (cases vs) auto
qed

lemma ring_unlink:
  assumes "ring nx pv h (xs @ y # ys)"
  shows "ring (nx(pv y := nx y)) (pv(nx y := pv y)) h (xs @ ys)"
proof -
  have d: "distinct (h # xs @ y # ys)" and p: "path nx pv h xs y" "path nx pv y ys h"
    using assms by (auto simp: ring_def path_append)
  note n = path_next_in [OF p(2)]
  show ?thesis
  proof (cases xs rule: rev_cases)
    case Nil
    then have "pv y = h" using p by simp
    then show ?thesis
      using Nil d path_relink_start [OF p(2), of h] by (simp add: ring_def)
  next
    case (snoc us z)
    then have *: "pv y = z" "path nx pv h us z" using p by (auto simp: path_append)
    have "path (nx(z := nx y)) (pv(nx y := z)) z ys h"
      using d snoc by (intro path_relink_start [OF p(2)]) auto
    moreover have "path (nx(z := nx y)) (pv(nx y := z)) h us z"
      using d snoc * n by (subst path_cong [where nx = nx and pv = pv]) auto
    ultimately show ?thesis using d snoc * by (simp add: ring_def path_append)
  qed
qed

lemma ring_push_front:
  assumes "ring nx pv h xs" "b \<notin> set (h # xs)"
  shows "ring (nx(b := nx h, h := b)) (pv(b := h, nx h := b)) h (b # xs)"
proof -
  have d: "distinct (h # xs)" and p: "path nx pv h xs h" using assms(1) by (auto simp: ring_def)
  have "nx h \<noteq> b" using path_next_in [OF p] assms(2) by auto
  have "path (nx(b := nx h)) (pv(nx h := b)) b xs h"
    using d assms(2) by (intro path_relink_start [OF p]) auto
  then have "path (nx(b := nx h, h := b)) (pv(b := h, nx h := b)) b xs h"
    using d assms(2) by (subst path_cong [where nx = "nx(b := nx h)" and pv = "pv(nx h := b)"]) auto
  then show ?thesis using d assms(2) \<open>nx h \<noteq> b\<close> by (auto simp: ring_def)
qed

lemma ring_push_back:
  assumes "ring nx pv h xs" "b \<notin> set (h # xs)"
  shows "ring (nx(b := h, pv h := b)) (pv(b := pv h, h := b)) h (xs @ [b])"
proof -
  have d: "distinct (h # xs)" and p: "path nx pv h xs h" using assms(1) by (auto simp: ring_def)
  have "pv h \<noteq> b" using path_prev_in [OF p] assms(2) by auto
  have "path (nx(pv h := b)) (pv(b := pv h)) h xs b"
    using d assms(2) by (intro path_relink_end [OF p]) auto
  then have "path (nx(b := h, pv h := b)) (pv(b := pv h, h := b)) h xs b"
    using d assms(2) by (subst path_cong [where nx = "nx(pv h := b)" and pv = "pv(b := pv h)"]) auto
  then show ?thesis using d assms(2) \<open>pv h \<noteq> b\<close> by (auto simp: ring_def path_append)
qed

end
