(* ===== verification/CacheInv.thy ===== *)
theory CacheInv
  imports Cache Ring
begin

text \<open>
  The invariant of the two caches and what it gives: a hash walk finds a sector exactly when an entry holds it, a hit
  returns the buffer of that sector, and every operation keeps the invariant.  The proofs are about a cache with \<open>N\<close>
  entries, \<open>H\<close> buckets, hash function \<open>hf\<close> and drive \<open>d\<close>; \<open>FAT_cache\<close> and \<open>the_buf_cache\<close> are its instances.

  After a failed read the code leaves the entry out of every bucket while its hash pointers still name its former
  neighbours, and unlinks it a second time when it is used again.  This is harmless only as long as those neighbours
  have not been given other links: the invariant calls such an entry the ghost, requires it to be the least recently
  used and unlocked one, so that it is the next to be used, and its second unlinking to change nothing.
\<close>

section \<open>Which fields the ring operations touch\<close>

lemma lru_fields [simp]:
  "hash_next (push_to_mru c b l) = hash_next c" "hash_prev (push_to_mru c b l) = hash_prev c"
  "bdrv (push_to_mru c b l) = bdrv c" "bsec (push_to_mru c b l) = bsec c" "bflag (push_to_mru c b l) = bflag c"
  "buf_bh (push_to_mru c b l) = buf_bh c"
  "hash_next (push_to_lru c b l) = hash_next c" "hash_prev (push_to_lru c b l) = hash_prev c"
  "bdrv (push_to_lru c b l) = bdrv c" "bsec (push_to_lru c b l) = bsec c" "bflag (push_to_lru c b l) = bflag c"
  "buf_bh (push_to_lru c b l) = buf_bh c"
  "hash_next (unlink_lru c b) = hash_next c" "hash_prev (unlink_lru c b) = hash_prev c"
  "bdrv (unlink_lru c b) = bdrv c" "bsec (unlink_lru c b) = bsec c" "bflag (unlink_lru c b) = bflag c"
  "buf_bh (unlink_lru c b) = buf_bh c"
  by (simp_all add: push_to_mru_def push_to_lru_def unlink_lru_def Let_def)

lemma move_fields [simp]:
  "hash_next (move_to_mru c b l) = hash_next c" "hash_prev (move_to_mru c b l) = hash_prev c"
  "bdrv (move_to_mru c b l) = bdrv c" "bsec (move_to_mru c b l) = bsec c" "bflag (move_to_mru c b l) = bflag c"
  "buf_bh (move_to_mru c b l) = buf_bh c"
  "hash_next (move_to_lru c b l) = hash_next c" "hash_prev (move_to_lru c b l) = hash_prev c"
  "bdrv (move_to_lru c b l) = bdrv c" "bsec (move_to_lru c b l) = bsec c" "bflag (move_to_lru c b l) = bflag c"
  "buf_bh (move_to_lru c b l) = buf_bh c"
  by (simp_all add: move_to_mru_def move_to_lru_def)

lemma hash_fields [simp]:
  "bnext (insert_hash c h b) = bnext c" "bprev (insert_hash c h b) = bprev c"
  "bdrv (insert_hash c h b) = bdrv c" "bsec (insert_hash c h b) = bsec c" "bflag (insert_hash c h b) = bflag c"
  "buf_bh (insert_hash c h b) = buf_bh c"
  "bnext (remove_hash c b) = bnext c" "bprev (remove_hash c b) = bprev c"
  "bdrv (remove_hash c b) = bdrv c" "bsec (remove_hash c b) = bsec c" "bflag (remove_hash c b) = bflag c"
  "buf_bh (remove_hash c b) = buf_bh c"
  by (simp_all add: insert_hash_def remove_hash_def Let_def)

lemma entry_fields [simp]:
  "bnext (invalidate c b) = bnext c" "bprev (invalidate c b) = bprev c" "hash_next (invalidate c b) = hash_next c"
  "hash_prev (invalidate c b) = hash_prev c" "bdrv (invalidate c b) = (bdrv c)(b := -1)"
  "bsec (invalidate c b) = (bsec c)(b := -1)" "bflag (invalidate c b) = (bflag c)(b := 0)"
  "buf_bh (invalidate c b) = (buf_bh c)(b := None)"
  "bnext (claim_entry d n c b) = bnext c" "bprev (claim_entry d n c b) = bprev c"
  "hash_next (claim_entry d n c b) = hash_next c" "hash_prev (claim_entry d n c b) = hash_prev c"
  "bdrv (claim_entry d n c b) = (bdrv c)(b := d)" "bsec (claim_entry d n c b) = (bsec c)(b := n)"
  "bflag (claim_entry d n c b) = (bflag c)(b := 0)" "buf_bh (claim_entry d n c b) = buf_bh c"
  by (simp_all add: invalidate_def claim_entry_def)

section \<open>The ring operations on node sequences\<close>

abbreviation lru_ring :: "BUF_CACHE_T \<Rightarrow> nat list \<Rightarrow> bool" where
  "lru_ring c xs \<equiv> ring (bnext c) (bprev c) LruHead (map Slot xs)"

abbreviation bucket :: "BUF_CACHE_T \<Rightarrow> nat \<Rightarrow> nat list \<Rightarrow> bool" where
  "bucket c k xs \<equiv> ring (hash_next c) (hash_prev c) (HashHead k) (map Slot xs)"

lemma ring_slots_distinct: "ring nx pv h (map Slot xs) \<Longrightarrow> distinct xs"
  by (auto simp: ring_def distinct_map)

lemma ring_unlink_slot:
  assumes "ring nx pv h (map Slot xs)" "i \<in> set xs"
  shows "ring (nx(pv (Slot i) := nx (Slot i))) (pv(nx (Slot i) := pv (Slot i))) h (map Slot (remove1 i xs))"
proof -
  obtain us vs where xs: "xs = us @ i # vs" "i \<notin> set us" using assms(2) by (meson split_list_first)
  then show ?thesis using ring_unlink [of nx pv h "map Slot us" "Slot i" "map Slot vs"] assms(1)
    by (simp add: remove1_append)
qed

lemma ring_self_links:
  assumes "ring nx pv h xs" "y \<in> set xs"
  shows "nx y \<noteq> y" "pv y \<noteq> y"
proof -
  have d: "distinct (h # xs)" using assms(1) by (simp add: ring_def)
  obtain us vs where xs: "xs = us @ y # vs" using assms(2) by (meson split_list)
  then have p: "path nx pv h us y" "path nx pv y vs h" using assms(1) by (auto simp: ring_def path_append)
  show "nx y \<noteq> y" using path_next_in [OF p(2)] d xs by auto
  show "pv y \<noteq> y" using path_prev_in [OF p(1)] d xs by auto
qed

lemma unlink_lru_ring:
  assumes "lru_ring c xs" "i \<in> set xs"
  shows "lru_ring (unlink_lru c (Slot i)) (remove1 i xs)"
  using ring_unlink_slot [OF assms] ring_self_links [OF assms(1), of "Slot i"] assms(2)
  by (simp add: unlink_lru_def Let_def)

lemma push_to_mru_ring:
  assumes "lru_ring c xs" "i \<notin> set xs"
  shows "lru_ring (push_to_mru c (Slot i) LruHead) (i # xs)"
proof -
  have "bnext c LruHead \<noteq> Slot i" using ring_next_in [OF assms(1)] assms(2) by auto
  then show ?thesis
    using ring_push_front [OF assms(1), of "Slot i"] assms(2) by (auto simp: push_to_mru_def Let_def)
qed

lemma push_to_lru_ring:
  assumes "lru_ring c xs" "i \<notin> set xs"
  shows "lru_ring (push_to_lru c (Slot i) LruHead) (xs @ [i])"
proof -
  have "bprev c LruHead \<noteq> Slot i" using ring_prev_in [OF assms(1)] assms(2) by auto
  then show ?thesis
    using ring_push_back [OF assms(1), of "Slot i"] assms(2) by (auto simp: push_to_lru_def Let_def)
qed

lemma move_to_mru_ring:
  assumes "lru_ring c xs" "i \<in> set xs"
  shows "lru_ring (move_to_mru c (Slot i) LruHead) (i # remove1 i xs)"
  using push_to_mru_ring [OF unlink_lru_ring [OF assms]] ring_slots_distinct [OF assms(1)]
  by (simp add: move_to_mru_def)

lemma move_to_lru_ring:
  assumes "lru_ring c xs" "i \<in> set xs"
  shows "lru_ring (move_to_lru c (Slot i) LruHead) (remove1 i xs @ [i])"
  using push_to_lru_ring [OF unlink_lru_ring [OF assms]] ring_slots_distinct [OF assms(1)]
  by (simp add: move_to_lru_def)

lemma insert_hash_bucket:
  assumes "bucket c k xs" "i \<notin> set xs"
  shows "bucket (insert_hash c (HashHead k) (Slot i)) k (i # xs)"
proof -
  have "hash_next c (HashHead k) \<noteq> Slot i" using ring_next_in [OF assms(1)] assms(2) by auto
  then show ?thesis
    using ring_push_front [OF assms(1), of "Slot i"] assms(2) by (auto simp: insert_hash_def Let_def)
qed

lemma insert_hash_other:
  assumes "bucket c k xs" "bucket c k' ys" "k \<noteq> k'" "set xs \<inter> set ys = {}" "i \<notin> set ys"
  shows "bucket (insert_hash c (HashHead k) (Slot i)) k' ys"
proof -
  have "hash_next c (HashHead k) \<in> set (HashHead k # map Slot xs)" using ring_next_in [OF assms(1)] .
  moreover have "hash_next c (HashHead k) \<noteq> Slot i \<or> hash_next c (HashHead k) = Slot i" by simp
  ultimately show ?thesis
    using assms(3-5)
    by (subst ring_cong [where nx = "hash_next c" and pv = "hash_prev c"])
       (auto simp: insert_hash_def Let_def assms(2))
qed

lemma remove_hash_bucket:
  assumes "bucket c k xs" "i \<in> set xs"
  shows "bucket (remove_hash c (Slot i)) k (remove1 i xs)"
  using ring_unlink_slot [OF assms] ring_self_links [OF assms(1), of "Slot i"] assms(2)
  by (simp add: remove_hash_def Let_def)

lemma remove_hash_other:
  assumes "bucket c k xs" "i \<in> set xs" "bucket c k' ys" "k \<noteq> k'" "set xs \<inter> set ys = {}"
  shows "bucket (remove_hash c (Slot i)) k' ys"
proof -
  have "Slot i \<in> set (map Slot xs)" using assms(2) by simp
  note l = ring_node_links(1,2) [OF assms(1) this] ring_self_links [OF assms(1) this]
  show ?thesis
    using assms(4,5) l
    by (subst ring_cong [where nx = "hash_next c" and pv = "hash_prev c"])
       (auto simp: remove_hash_def Let_def assms(3))
qed

definition detached :: "BUF_CACHE_T \<Rightarrow> cnode \<Rightarrow> bool" where
  "detached c b \<longleftrightarrow> hash_next c (hash_prev c b) = hash_next c b \<and> hash_prev c (hash_next c b) = hash_prev c b"

lemma remove_hash_detached: "detached c b \<Longrightarrow> remove_hash c b = c"
  by (cases c) (auto simp: detached_def remove_hash_def Let_def fun_upd_idem_iff)

lemma remove_insert_hash:
  assumes "bucket c k xs" "i \<notin> set xs"
  defines "c1 \<equiv> remove_hash (insert_hash c (HashHead k) (Slot i)) (Slot i)"
  shows "bucket c1 k xs" "detached c1 (Slot i)"
    "\<And>n. n \<noteq> Slot i \<Longrightarrow> hash_next c1 n = hash_next c n \<and> hash_prev c1 n = hash_prev c n"
proof -
  have l: "hash_next c (HashHead k) \<noteq> Slot i" using ring_next_in [OF assms(1)] assms(2) by auto
  have p: "hash_prev c (hash_next c (HashHead k)) = HashHead k"
    using assms(1) by (cases xs) (auto simp: ring_def)
  show *: "\<And>n. n \<noteq> Slot i \<Longrightarrow> hash_next c1 n = hash_next c n \<and> hash_prev c1 n = hash_prev c n"
    using l p by (auto simp: c1_def remove_hash_def insert_hash_def Let_def)
  have "\<forall>x\<in>set xs. Slot x \<noteq> Slot i" using assms(2) by auto
  then show "bucket c1 k xs"
    by (subst ring_cong [where nx = "hash_next c" and pv = "hash_prev c"]) (auto simp: * assms(1))
  show "detached c1 (Slot i)"
    using l p by (auto simp: c1_def detached_def remove_hash_def insert_hash_def Let_def)
qed

section \<open>The invariant\<close>

text \<open>
  \<open>xs\<close> is the LRU order, \<open>bk k\<close> the entries of bucket \<open>k\<close>, \<open>bof i\<close> the bucket of entry \<open>i\<close>, \<open>g\<close> the ghost.
\<close>

definition shape :: "nat \<Rightarrow> nat \<Rightarrow> BUF_CACHE_T \<Rightarrow> nat list \<Rightarrow> (nat \<Rightarrow> nat list) \<Rightarrow> (nat \<Rightarrow> nat) \<Rightarrow> nat option \<Rightarrow> bool" where
  "shape N H c xs bk bof g \<longleftrightarrow>
     lru_ring c xs \<and> set xs = {..<N} \<and> (\<forall>k<H. bucket c k (bk k)) \<and>
     (\<forall>k<H. \<forall>i. i \<in> set (bk k) \<longleftrightarrow> i < N \<and> bof i = k \<and> g \<noteq> Some i) \<and> (\<forall>i<N. bof i < H)"

definition entries_ok :: "nat \<Rightarrow> (u32 \<Rightarrow> nat) \<Rightarrow> u32 \<Rightarrow> BUF_CACHE_T \<Rightarrow> (nat \<Rightarrow> nat) \<Rightarrow> bool" where
  "entries_ok N hf d c bof \<longleftrightarrow>
     (\<forall>i<N. bdrv c (Slot i) = d \<longrightarrow> bof i = hf (bsec c (Slot i)) \<and> buf_bh c (Slot i) = Some (bsec c (Slot i))) \<and>
     (\<forall>i<N. \<forall>j<N. bdrv c (Slot i) = d \<longrightarrow> bdrv c (Slot j) = d \<longrightarrow> bsec c (Slot i) = bsec c (Slot j) \<longrightarrow> i = j)"

definition ghost_ok :: "u32 \<Rightarrow> BUF_CACHE_T \<Rightarrow> nat list \<Rightarrow> nat option \<Rightarrow> bool" where
  "ghost_ok d c xs g \<longleftrightarrow>
     (\<forall>i. g = Some i \<longrightarrow> detached c (Slot i) \<and> bflag c (Slot i) = 0 \<and> bdrv c (Slot i) \<noteq> d \<and>
        (\<exists>us. xs = us @ [i]))"

definition cache_inv :: "nat \<Rightarrow> nat \<Rightarrow> (u32 \<Rightarrow> nat) \<Rightarrow> u32 \<Rightarrow> BUF_CACHE_T \<Rightarrow> bool" where
  "cache_inv N H hf d c \<longleftrightarrow>
     (\<exists>xs bk bof g. shape N H c xs bk bof g \<and> entries_ok N hf d c bof \<and> ghost_ok d c xs g)"

definition lru_order :: "nat \<Rightarrow> nat \<Rightarrow> (u32 \<Rightarrow> nat) \<Rightarrow> u32 \<Rightarrow> BUF_CACHE_T \<Rightarrow> nat list \<Rightarrow> bool" where
  "lru_order N H hf d c xs \<longleftrightarrow> (\<exists>bk bof g. shape N H c xs bk bof g \<and> entries_ok N hf d c bof \<and> ghost_ok d c xs g)"

lemma cache_inv_order: "cache_inv N H hf d c \<longleftrightarrow> (\<exists>xs. lru_order N H hf d c xs)"
  by (auto simp: cache_inv_def lru_order_def)

text \<open>The same without a ghost.\<close>

definition cache_clean :: "nat \<Rightarrow> nat \<Rightarrow> (u32 \<Rightarrow> nat) \<Rightarrow> u32 \<Rightarrow> BUF_CACHE_T \<Rightarrow> bool" where
  "cache_clean N H hf d c \<longleftrightarrow> (\<exists>xs bk bof. shape N H c xs bk bof None \<and> entries_ok N hf d c bof)"

definition cached :: "nat \<Rightarrow> u32 \<Rightarrow> BUF_CACHE_T \<Rightarrow> u32 set" where
  "cached N d c = {bsec c (Slot i) |i. i < N \<and> bdrv c (Slot i) = d}"

lemma cache_clean_inv: "cache_clean N H hf d c \<Longrightarrow> cache_inv N H hf d c"
  unfolding cache_clean_def cache_inv_def ghost_ok_def by blast

section \<open>Lookup\<close>

lemma hash_walk_path:
  "\<lbrakk>path (hash_next c) pv a xs hp; hp \<notin> set xs; length xs < fuel\<rbrakk>
   \<Longrightarrow> hash_walk fuel c hit hp (hash_next c a) = find hit xs"
proof (induction xs arbitrary: a fuel)
  case Nil
  then show ?case by (cases fuel) auto
next
  case (Cons x xs)
  then show ?case by (cases fuel) auto
qed

lemma hash_walk_bucket:
  assumes "bucket c k ys" "length ys \<le> N"
  shows "hash_walk (Suc N) c hit (HashHead k) (hash_next c (HashHead k)) = find hit (map Slot ys)"
  using assms by (intro hash_walk_path [where pv = "hash_prev c"]) (auto simp: ring_def)

lemma bucket_length:
  assumes "shape N H c xs bk bof g" "k < H"
  shows "length (bk k) \<le> N"
proof -
  have "distinct (bk k)" "set (bk k) \<subseteq> {..<N}"
    using assms ring_slots_distinct unfolding shape_def by blast+
  then show ?thesis using card_mono [of "{..<N}" "set (bk k)"] by (simp add: distinct_card)
qed

definition cache_find :: "nat \<Rightarrow> (u32 \<Rightarrow> nat) \<Rightarrow> u32 \<Rightarrow> BUF_CACHE_T \<Rightarrow> u32 \<Rightarrow> cnode option" where
  "cache_find N hf d c sec =
     hash_walk (Suc N) c (\<lambda>bp. bdrv c bp = d \<and> bsec c bp = sec) (HashHead (hf sec)) (hash_next c (HashHead (hf sec)))"

lemma cache_find_cases:
  assumes s: "shape N H c xs bk bof g" and e: "entries_ok N hf d c bof" and h: "hf sec < H"
    and g: "ghost_ok d c xs g"
  obtains (hit) i where "cache_find N hf d c sec = Some (Slot i)" "i < N" "bdrv c (Slot i) = d"
      "bsec c (Slot i) = sec" "buf_bh c (Slot i) = Some sec" "g \<noteq> Some i"
  | (miss) "cache_find N hf d c sec = None" "sec \<notin> cached N d c"
proof -
  let ?hit = "\<lambda>bp. bdrv c bp = d \<and> bsec c bp = sec"
  have b: "bucket c (hf sec) (bk (hf sec))" using s h by (simp add: shape_def)
  have f: "cache_find N hf d c sec = find ?hit (map Slot (bk (hf sec)))"
    unfolding cache_find_def by (rule hash_walk_bucket [OF b bucket_length [OF s h]])
  have mem: "i \<in> set (bk (hf sec)) \<longleftrightarrow> i < N \<and> bof i = hf sec \<and> g \<noteq> Some i" for i
    using s h by (simp add: shape_def)
  show thesis
  proof (cases "find ?hit (map Slot (bk (hf sec)))")
    case None
    have "sec \<notin> cached N d c"
    proof
      assume "sec \<in> cached N d c"
      then obtain i where i: "i < N" "bdrv c (Slot i) = d" "bsec c (Slot i) = sec" by (auto simp: cached_def)
      then have "i \<in> set (bk (hf sec))" using e g by (auto simp: mem entries_ok_def ghost_ok_def)
      then show False using None i by (auto simp: find_None_iff)
    qed
    then show thesis using None f miss by simp
  next
    case (Some bp)
    then obtain i where "bp = Slot i" "i \<in> set (bk (hf sec))" "?hit bp"
      using nth_mem by (auto simp: find_Some_iff)
    then show thesis using Some f hit e mem by (auto simp: entries_ok_def)
  qed
qed

section \<open>Steps on the structure\<close>

lemma shape_cong:
  "\<lbrakk>bnext c' = bnext c; bprev c' = bprev c; hash_next c' = hash_next c; hash_prev c' = hash_prev c\<rbrakk>
   \<Longrightarrow> shape N H c' xs bk bof g = shape N H c xs bk bof g"
  by (simp add: shape_def)

lemma shape_touch:
  assumes "shape N H c xs bk bof g" "i < N"
  shows "shape N H (move_to_mru c (Slot i) LruHead) (i # remove1 i xs) bk bof g"
    "shape N H (move_to_lru c (Slot i) LruHead) (remove1 i xs @ [i]) bk bof g"
proof -
  have *: "lru_ring c xs" "i \<in> set xs" "set xs = {..<N}" using assms by (auto simp: shape_def)
  have "insert i ({..<N} - {i}) = {..<N}" using assms(2) by auto
  then show "shape N H (move_to_mru c (Slot i) LruHead) (i # remove1 i xs) bk bof g"
    "shape N H (move_to_lru c (Slot i) LruHead) (remove1 i xs @ [i]) bk bof g"
    using assms move_to_mru_ring [OF *(1,2)] move_to_lru_ring [OF *(1,2)] *(3) ring_slots_distinct [OF *(1)]
    by (simp_all add: shape_def set_remove1_eq)
qed

lemma ghost_touch:
  assumes "ghost_ok d c xs g" "g \<noteq> Some i"
  shows "ghost_ok d (move_to_mru c (Slot i) LruHead) (i # remove1 i xs) g"
  unfolding ghost_ok_def
proof (intro allI impI)
  fix j assume j: "g = Some j"
  with assms obtain us where us: "xs = us @ [j]" "j \<noteq> i" by (auto simp: ghost_ok_def)
  then have "i # remove1 i xs = (i # remove1 i us) @ [j]" by (simp add: remove1_append remove1_idem)
  then have "\<exists>us. i # remove1 i xs = us @ [j]" by blast
  then show "detached (move_to_mru c (Slot i) LruHead) (Slot j) \<and> bflag (move_to_mru c (Slot i) LruHead) (Slot j) = 0 \<and>
      bdrv (move_to_mru c (Slot i) LruHead) (Slot j) \<noteq> d \<and> (\<exists>us. i # remove1 i xs = us @ [j])"
    using assms(1) j by (simp add: ghost_ok_def detached_def)
qed

lemma shape_remove:
  assumes s: "shape N H c xs bk bof g" and i: "i < N" and g: "g = None \<or> g = Some i \<and> detached c (Slot i)"
  shows "\<exists>bk'. shape N H (remove_hash c (Slot i)) xs bk' bof (Some i)"
proof (cases "g = None")
  case False
  then show ?thesis using s g by (auto simp: remove_hash_detached)
next
  case True
  define bk' where "bk' = bk(bof i := remove1 i (bk (bof i)))"
  have b: "bof i < H" "bucket c (bof i) (bk (bof i))" "i \<in> set (bk (bof i))"
    and mem: "\<And>k j. k < H \<Longrightarrow> j \<in> set (bk k) \<longleftrightarrow> j < N \<and> bof j = k"
    and bs: "\<And>k. k < H \<Longrightarrow> bucket c k (bk k)"
    using s i True by (auto simp: shape_def)
  have "bucket (remove_hash c (Slot i)) k (bk' k)" if "k < H" for k
  proof (cases "k = bof i")
    case True
    then show ?thesis using remove_hash_bucket [OF b(2,3)] by (simp add: bk'_def)
  next
    case False
    then have "set (bk (bof i)) \<inter> set (bk k) = {}" using mem [OF that] mem [OF b(1)] by (intro equals0I) simp
    then show ?thesis
      using remove_hash_other [OF b(2,3) bs [OF that]] False by (simp add: bk'_def)
  qed
  moreover have "j \<in> set (bk' k) \<longleftrightarrow> j < N \<and> bof j = k \<and> Some i \<noteq> Some j" if "k < H" for k j
  proof (cases "k = bof i")
    case True
    then show ?thesis
      using mem [OF that, of j] ring_slots_distinct [OF b(2)] by (auto simp: bk'_def)
  next
    case False
    then show ?thesis using mem [OF that, of j] by (auto simp: bk'_def)
  qed
  ultimately show ?thesis using s unfolding shape_def by (intro exI [of _ bk']) simp
qed

lemma shape_insert:
  assumes s: "shape N H c xs bk bof (Some i)" and i: "i < N" and k: "k < H"
  shows "shape N H (insert_hash c (HashHead k) (Slot i)) xs (bk(k := i # bk k)) (bof(i := k)) None"
proof -
  have mem: "\<And>k j. k < H \<Longrightarrow> j \<in> set (bk k) \<longleftrightarrow> j < N \<and> bof j = k \<and> j \<noteq> i"
    and bs: "\<And>k. k < H \<Longrightarrow> bucket c k (bk k)"
    using s by (auto simp: shape_def)
  have nk: "i \<notin> set (bk k')" if "k' < H" for k' using mem [OF that] by simp
  have "bucket (insert_hash c (HashHead k) (Slot i)) k' ((bk(k := i # bk k)) k')" if k': "k' < H" for k'
  proof (cases "k' = k")
    case True
    then show ?thesis using insert_hash_bucket [OF bs [OF k] nk [OF k]] by simp
  next
    case False
    then have "set (bk k) \<inter> set (bk k') = {}" using mem [OF k] mem [OF k'] by (intro equals0I) simp
    then show ?thesis
      using insert_hash_other [OF bs [OF k] bs [OF k'], of i] nk [OF k'] False by simp
  qed
  moreover have "j \<in> set ((bk(k := i # bk k)) k') \<longleftrightarrow> j < N \<and> (bof(i := k)) j = k' \<and> None \<noteq> Some j" if "k' < H" for k' j
    using mem [OF that, of j] i by (cases "j = i"; cases "k' = k") simp_all
  ultimately show ?thesis using s k unfolding shape_def by simp
qed

lemma shape_insert_remove:
  assumes s: "shape N H c xs bk bof (Some i)" and k: "k < H"
  defines "c1 \<equiv> remove_hash (insert_hash c (HashHead k) (Slot i)) (Slot i)"
  shows "shape N H c1 xs bk bof (Some i)" "detached c1 (Slot i)"
proof -
  have mem: "\<And>k j. k < H \<Longrightarrow> j \<in> set (bk k) \<longleftrightarrow> j < N \<and> bof j = k \<and> j \<noteq> i"
    and bs: "\<And>k. k < H \<Longrightarrow> bucket c k (bk k)"
    using s by (auto simp: shape_def)
  have nk: "i \<notin> set (bk k')" if "k' < H" for k' using mem [OF that] by simp
  note r = remove_insert_hash [OF bs [OF k] nk [OF k], folded c1_def]
  show "detached c1 (Slot i)" by (rule r(2))
  have "bucket c1 k' (bk k')" if "k' < H" for k'
  proof -
    have "\<forall>x\<in>set (bk k'). Slot x \<noteq> Slot i" using nk [OF that] by auto
    then show ?thesis
      by (subst ring_cong [where nx = "hash_next c" and pv = "hash_prev c"]) (auto simp: r(3) bs that)
  qed
  then show "shape N H c1 xs bk bof (Some i)"
    using s by (simp add: shape_def c1_def)
qed

section \<open>Replacing an entry\<close>

definition victim_ok :: "nat \<Rightarrow> nat option \<Rightarrow> nat \<Rightarrow> bool" where
  "victim_ok N g i \<longleftrightarrow> i < N \<and> (g = None \<or> g = Some i)"

text \<open>The new entry is linked in, its buffer not yet read.\<close>

definition cache_fill :: "(u32 \<Rightarrow> nat) \<Rightarrow> u32 \<Rightarrow> u32 \<Rightarrow> BUF_CACHE_T \<Rightarrow> cnode \<Rightarrow> BUF_CACHE_T" where
  "cache_fill hf d sec c bp =
     insert_hash (claim_entry d sec (remove_hash (move_to_mru c bp LruHead) bp) bp) (HashHead (hf sec)) bp"

lemma fill_shape:
  assumes s: "shape N H c xs bk bof g" and v: "victim_ok N g i" and g: "ghost_ok d c xs g" and h: "hf sec < H"
  obtains bk' where
    "shape N H (claim_entry d sec (remove_hash (move_to_mru c (Slot i) LruHead) (Slot i)) (Slot i)) (i # remove1 i xs) bk' bof (Some i)"
    "shape N H (cache_fill hf d sec c (Slot i)) (i # remove1 i xs) (bk'(hf sec := i # bk' (hf sec))) (bof(i := hf sec)) None"
proof -
  have i: "i < N" using v by (simp add: victim_ok_def)
  have "g = None \<or> g = Some i \<and> detached (move_to_mru c (Slot i) LruHead) (Slot i)"
    using v g by (auto simp: victim_ok_def ghost_ok_def detached_def)
  from shape_remove [OF shape_touch(1) [OF s i] i this] obtain bk' where
    "shape N H (remove_hash (move_to_mru c (Slot i) LruHead) (Slot i)) (i # remove1 i xs) bk' bof (Some i)" by blast
  then have *: "shape N H (claim_entry d sec (remove_hash (move_to_mru c (Slot i) LruHead) (Slot i)) (Slot i)) (i # remove1 i xs) bk' bof (Some i)"
    by (subst shape_cong [OF entry_fields(9-12)])
  show thesis using that [OF * shape_insert [OF * i h, folded cache_fill_def]] .
qed

lemma fill_success:
  assumes "shape N H c xs bk bof g" "entries_ok N hf d c bof" "ghost_ok d c xs g" "victim_ok N g i" "hf sec < H"
    and new: "sec \<notin> cached N d c"
  defines "c' \<equiv> (cache_fill hf d sec c (Slot i))\<lparr>buf_bh := (buf_bh (cache_fill hf d sec c (Slot i)))(Slot i := Some sec)\<rparr>"
  shows "cache_clean N H hf d c'" "sec \<in> cached N d c'" "lru_order N H hf d c' (i # remove1 i xs)"
proof -
  obtain bk' where "shape N H (cache_fill hf d sec c (Slot i)) (i # remove1 i xs) bk' (bof(i := hf sec)) None"
    using fill_shape [OF assms(1,4,3), of hf sec] assms(5) by metis
  then have "shape N H c' (i # remove1 i xs) bk' (bof(i := hf sec)) None"
    unfolding c'_def by (subst shape_cong [of _ "cache_fill hf d sec c (Slot i)"]) simp_all
  moreover have f: "bdrv c' = (bdrv c)(Slot i := d)" "bsec c' = (bsec c)(Slot i := sec)" "buf_bh c' = (buf_bh c)(Slot i := Some sec)"
    by (simp_all add: c'_def cache_fill_def)
  have "entries_ok N hf d c' (bof(i := hf sec))"
    using assms(2) new by (auto simp: entries_ok_def f cached_def)
  moreover have "ghost_ok d c' (i # remove1 i xs) None" by (simp add: ghost_ok_def)
  ultimately show "cache_clean N H hf d c'" "lru_order N H hf d c' (i # remove1 i xs)"
    unfolding cache_clean_def lru_order_def by blast+
  show "sec \<in> cached N d c'" using assms(4) by (auto simp: cached_def f victim_ok_def)
qed

lemma fill_failure:
  fixes b :: "cnode \<Rightarrow> u32 option"
  assumes "shape N H c xs bk bof g" "entries_ok N hf d c bof" "ghost_ok d c xs g" "victim_ok N g i" "hf sec < H"
    and d: "d \<noteq> -1"
  defines "c1 \<equiv> (cache_fill hf d sec c (Slot i))\<lparr>buf_bh := b\<rparr>"
  assumes b: "\<And>j. j \<noteq> i \<Longrightarrow> b (Slot j) = buf_bh c (Slot j)"
  shows "lru_order N H hf d (move_to_lru (invalidate (remove_hash c1 (Slot i)) (Slot i)) (Slot i) LruHead) (remove1 i xs @ [i])"
    (is "lru_order N H hf d ?c' _")
proof -
  define c0 where "c0 = claim_entry d sec (remove_hash (move_to_mru c (Slot i) LruHead) (Slot i)) (Slot i)"
  obtain bk' where s0: "shape N H c0 (i # remove1 i xs) bk' bof (Some i)"
    using fill_shape [OF assms(1,4,3), of hf sec] assms(5) unfolding c0_def by metis
  have i: "i < N" using assms(4) by (simp add: victim_ok_def)
  note r = shape_insert_remove [OF s0 assms(5)]
  have e: "hash_next (remove_hash c1 (Slot i)) = hash_next (remove_hash (insert_hash c0 (HashHead (hf sec)) (Slot i)) (Slot i))"
     "hash_prev (remove_hash c1 (Slot i)) = hash_prev (remove_hash (insert_hash c0 (HashHead (hf sec)) (Slot i)) (Slot i))"
     "bnext c1 = bnext c0" "bprev c1 = bprev c0"
    by (simp_all add: c1_def c0_def cache_fill_def remove_hash_def Let_def)
  then have "shape N H (invalidate (remove_hash c1 (Slot i)) (Slot i)) (i # remove1 i xs) bk' bof (Some i)"
    using r(1) by (subst shape_cong [of _ "remove_hash (insert_hash c0 (HashHead (hf sec)) (Slot i)) (Slot i)"]) simp_all
  from shape_touch(2) [OF this i]
  have "shape N H ?c' (remove1 i xs @ [i]) bk' bof (Some i)" by simp
  moreover have f: "bdrv ?c' = (bdrv c)(Slot i := -1)" "bsec ?c' = (bsec c)(Slot i := -1)"
    "buf_bh ?c' = b(Slot i := None)" "bflag ?c' (Slot i) = 0"
    by (simp_all add: c1_def cache_fill_def)
  have "entries_ok N hf d ?c' bof"
    using assms(2) d b by (auto simp: entries_ok_def c1_def cache_fill_def)
  moreover have "ghost_ok d ?c' (remove1 i xs @ [i]) (Some i)"
    using r(2) d e by (simp add: ghost_ok_def detached_def)
  ultimately show ?thesis unfolding lru_order_def by blast
qed

lemma lru_victim:
  assumes "shape N H c xs bk bof g" "ghost_ok d c xs g" "0 < N"
  obtains i where "bprev c LruHead = Slot i" "victim_ok N g i" "i = last xs"
proof -
  have st: "set xs = {..<N}" and r: "lru_ring c xs" using assms(1) by (auto simp: shape_def)
  have "xs \<noteq> []" using st assms(3) by (cases xs) auto
  then obtain us i where xs: "xs = us @ [i]" by (cases xs rule: rev_cases) auto
  have "bprev c LruHead = Slot i" using ring_prev [OF r] xs by simp
  moreover have "victim_ok N g i"
    using assms(2) xs st by (cases g) (auto simp: victim_ok_def ghost_ok_def)
  ultimately show thesis using that xs by simp
qed

lemma touch_inv:
  assumes "shape N H c xs bk bof g" "entries_ok N hf d c bof" "ghost_ok d c xs g" "i < N" "g \<noteq> Some i"
  shows "lru_order N H hf d (move_to_mru c (Slot i) LruHead) (i # remove1 i xs)"
proof -
  have "entries_ok N hf d (move_to_mru c (Slot i) LruHead) bof" using assms(2) by (simp add: entries_ok_def)
  then show ?thesis
    using shape_touch(1) [OF assms(1,4)] ghost_touch [OF assms(3,5)] unfolding lru_order_def by blast
qed

lemma cached_touch: "cached N d (move_to_mru c b l) = cached N d c"
  by (simp add: cached_def)

section \<open>Releasing and marking entries\<close>

lemma entries_ok_invalidate:
  "\<lbrakk>entries_ok N hf d c bof; d \<noteq> -1\<rbrakk> \<Longrightarrow> entries_ok N hf d (invalidate c b) bof"
  by (auto simp: entries_ok_def)

lemma shape_invalidate: "shape N H (invalidate c b) xs bk bof g = shape N H c xs bk bof g"
  by (rule shape_cong) simp_all

lemma release_clean:
  assumes "cache_clean N H hf d c" "i < N" "d \<noteq> -1"
  shows "cache_clean N H hf d (move_to_lru (invalidate c (Slot i)) (Slot i) LruHead)"
proof -
  obtain xs bk bof where *: "shape N H c xs bk bof None" "entries_ok N hf d c bof"
    using assms(1) by (auto simp: cache_clean_def)
  have "shape N H (move_to_lru (invalidate c (Slot i)) (Slot i) LruHead) (remove1 i xs @ [i]) bk bof None"
    using shape_touch(2) [OF _ assms(2)] *(1) by (simp add: shape_invalidate)
  moreover have "entries_ok N hf d (move_to_lru (invalidate c (Slot i)) (Slot i) LruHead) bof"
    using entries_ok_invalidate [OF *(2) assms(3), of "Slot i"] by (simp add: entries_ok_def)
  ultimately show ?thesis unfolding cache_clean_def by blast
qed

lemma cache_inv_flags:
  assumes "cache_inv N H hf d c" "\<And>j. bdrv c (Slot j) \<noteq> d \<Longrightarrow> f (Slot j) = bflag c (Slot j)"
  shows "cache_inv N H hf d (c\<lparr>bflag := f\<rparr>)"
proof -
  obtain xs bk bof g where *: "shape N H c xs bk bof g" "entries_ok N hf d c bof" "ghost_ok d c xs g"
    using assms(1) by (auto simp: cache_inv_def)
  have "shape N H (c\<lparr>bflag := f\<rparr>) xs bk bof g" "entries_ok N hf d (c\<lparr>bflag := f\<rparr>) bof"
    using *(1,2) by (simp_all add: shape_def entries_ok_def)
  moreover have "ghost_ok d (c\<lparr>bflag := f\<rparr>) xs g"
    using *(3) assms(2) by (simp add: ghost_ok_def detached_def)
  ultimately show ?thesis unfolding cache_inv_def by blast
qed

lemma cache_clean_flags: "cache_clean N H hf d (c\<lparr>bflag := f\<rparr>) = cache_clean N H hf d c"
  by (simp add: cache_clean_def shape_def entries_ok_def)

lemma release_entry_inv:
  assumes "cache_inv N H hf d c" "d \<noteq> -1"
  shows "cache_inv N H hf d (release_entry d c (Slot i))"
proof (cases "bdrv c (Slot i) = d")
  case True
  obtain xs bk bof g where *: "shape N H c xs bk bof g" "entries_ok N hf d c bof" "ghost_ok d c xs g"
    using assms(1) by (auto simp: cache_inv_def)
  have "ghost_ok d (invalidate c (Slot i)) xs g"
    using *(3) True assms(2) by (auto simp: ghost_ok_def detached_def)
  then show ?thesis
    using *(1) entries_ok_invalidate [OF *(2) assms(2), of "Slot i"] True
    unfolding cache_inv_def release_entry_def by (auto simp: shape_invalidate)
qed (simp add: release_entry_def assms(1))

end
