(* ===== verification/CacheApi.thy ===== *)
theory CacheApi
  imports CacheInv
begin

text \<open>
  The two caches as the rest of the driver uses them.  A call returns the buffer of the sector that was asked for or
  \<open>NULL\<close>, whatever the device does; it never changes the volume, only the caches and the error state; and it succeeds
  when the device works and the sector is on the volume.  The locale \<open>block_cache\<close> is this contract; the FAT cache and
  the buffer cache are its instances.
\<close>

section \<open>Frames\<close>

text \<open>\<open>vol_eq\<close>: only the caches and the clock differ.  \<open>same_volume\<close>: in addition the error state may differ.\<close>

definition vol_eq :: "sb \<Rightarrow> sb \<Rightarrow> bool" where
  "vol_eq s s' \<longleftrightarrow> s' = s\<lparr>FAT_cache := FAT_cache s', the_buf_cache := the_buf_cache s', io_clock := io_clock s'\<rparr>"

definition same_volume :: "sb \<Rightarrow> sb \<Rightarrow> bool" where
  "same_volume s s' \<longleftrightarrow> s' = s\<lparr>FAT_cache := FAT_cache s', the_buf_cache := the_buf_cache s', io_clock := io_clock s',
     dev_ejected := dev_ejected s', s_rdonly := s_rdonly s', panicked := panicked s'\<rparr>"

lemma vol_eq_refl [simp, intro]: "vol_eq s s"
  by (simp add: vol_eq_def)

lemma vol_eq_trans [trans]: "vol_eq s t \<Longrightarrow> vol_eq t u \<Longrightarrow> vol_eq s u"
  unfolding vol_eq_def by (cases s; cases t; cases u) simp

lemma same_volume_refl [simp, intro]: "same_volume s s"
  by (simp add: same_volume_def)

lemma same_volume_trans [trans]: "same_volume s t \<Longrightarrow> same_volume t u \<Longrightarrow> same_volume s u"
  unfolding same_volume_def by (cases s; cases t; cases u) simp

lemma vol_eq_same: "vol_eq s s' \<Longrightarrow> same_volume s s'"
  unfolding vol_eq_def same_volume_def by (cases s; cases s') simp

lemma vol_eqI: "s' = s\<lparr>FAT_cache := f, the_buf_cache := b, io_clock := t\<rparr> \<Longrightarrow> vol_eq s s'"
  by (simp add: vol_eq_def)

lemma vol_eq_updates [simp]:
  "vol_eq s (s\<lparr>FAT_cache := f\<rparr>)" "vol_eq s (s\<lparr>the_buf_cache := f\<rparr>)" "vol_eq s (tick s)"
  by (simp_all add: vol_eq_def tick_def)

lemma same_volume_fields:
  assumes "same_volume s s'"
  shows "blk s' = blk s" "dirty s' = dirty s" "disk s' = disk s" "vol_type s' = vol_type s" "drv s' = drv s"
    "sector_size s' = sector_size s" "sector_size_bits s' = sector_size_bits s" "sector_size_mask s' = sector_size_mask s"
    "FAT1_start_sector s' = FAT1_start_sector s" "sectors_per_clu_bits s' = sectors_per_clu_bits s"
    "sectors_per_clu s' = sectors_per_clu s" "data_start_sector s' = data_start_sector s"
    "num_clusters s' = num_clusters s" "num_sectors s' = num_sectors s" "PBR_sector s' = PBR_sector s"
    "io_ok s' = io_ok s" "opened s' = opened s" "debug_flags s' = debug_flags s" "vol_amap s' = vol_amap s"
    "map_clu s' = map_clu s" "map_sectors s' = map_sectors s" "root_dir s' = root_dir s"
    "root_start_sector s' = root_start_sector s" "dentries_in_root s' = dentries_in_root s"
    "dentries_per_clu s' = dentries_per_clu s" "cluster_size s' = cluster_size s"
    "cluster_size_bits s' = cluster_size_bits s" "used_clusters s' = used_clusters s" "clu_srch_ptr s' = clu_srch_ptr s"
    "vol_utbl s' = vol_utbl s" "vol_flag s' = vol_flag s" "hint_uentry s' = hint_uentry s" "s_dirt s' = s_dirt s"
    "opt_errors s' = opt_errors s" "casesensitive s' = casesensitive s" "pbr_bh s' = pbr_bh s"
    "mem_ok s' = mem_ok s" "wall_clock s' = wall_clock s" "sys_tz s' = sys_tz s"
  by (subst assms [unfolded same_volume_def], simp)+

lemma vol_eq_fields:
  assumes "vol_eq s s'"
  shows "dev_ejected s' = dev_ejected s" "s_rdonly s' = s_rdonly s" "panicked s' = panicked s"
  by (subst assms [unfolded vol_eq_def], simp)+

lemma same_volume_derived:
  assumes "same_volume s s'"
  shows "out_of_range s' = out_of_range s" "FAT_hash s' = FAT_hash s" "buf_hash s' = buf_hash s"
    "START_SECTOR s' = START_SECTOR s" "debug_error_rw s' = debug_error_rw s"
  using same_volume_fields [OF assms]
  by (simp_all add: fun_eq_iff out_of_range_def FAT_hash_def buf_hash_def START_SECTOR_def debug_error_rw_def)

text \<open>The device works: it is open, not ejected, and no request fails.\<close>

definition io_ready :: "sb \<Rightarrow> bool" where
  "io_ready s \<longleftrightarrow> opened s \<and> \<not> dev_ejected s \<and> \<not> debug_error_rw s \<and> (\<forall>t. io_ok s t)"

lemma io_ready_vol_eq: "vol_eq s s' \<Longrightarrow> io_ready s' = io_ready s"
  using same_volume_fields [OF vol_eq_same] vol_eq_fields same_volume_derived [OF vol_eq_same] by (simp add: io_ready_def)

section \<open>Sectors\<close>

lemma same_volume_updates [simp]:
  "same_volume s (s\<lparr>dev_ejected := b\<rparr>)" "same_volume s (tick s)" "same_volume s ((tick s)\<lparr>dev_ejected := b\<rparr>)"
  "same_volume s (s\<lparr>panicked := b\<rparr>)" "same_volume s (s\<lparr>s_rdonly := b\<rparr>)"
  by (simp_all add: same_volume_def tick_def)

lemma fs_error_frame [simp]:
  "same_volume s (fs_error s)" "FAT_cache (fs_error s) = FAT_cache s" "the_buf_cache (fs_error s) = the_buf_cache s"
  by (simp_all add: fs_error_def split: if_split)

lemma sector_read_frame':
  "case sector_read s sec bh rd of (s', bh', r) \<Rightarrow>
     same_volume s s' \<and> FAT_cache s' = FAT_cache s \<and> the_buf_cache s' = the_buf_cache s \<and>
     (r = FFS_SUCCESS \<longrightarrow> bh' = Some sec \<and> vol_eq s s')"
  unfolding sector_read_def bdev_read_def kernel_getblk_def
  by (simp split: if_split) (simp add: tick_def)

lemma sector_read_frame:
  assumes "sector_read s sec bh rd = (s', bh', r)"
  shows "same_volume s s'" "FAT_cache s' = FAT_cache s" "the_buf_cache s' = the_buf_cache s"
    "r = FFS_SUCCESS \<Longrightarrow> bh' = Some sec" "r = FFS_SUCCESS \<Longrightarrow> vol_eq s s'"
  using sector_read_frame' [of s sec bh rd] unfolding assms by simp_all

lemma sector_read_ok:
  "io_ready s \<Longrightarrow> \<not> out_of_range s sec \<Longrightarrow> sector_read s sec bh rd = (tick s, Some sec, FFS_SUCCESS)"
  by (simp add: sector_read_def bdev_read_def kernel_getblk_def io_ready_def io_now_def)

lemma sector_write_ok:
  "io_ready s \<Longrightarrow> \<not> out_of_range s sec \<Longrightarrow> sector_write s sec (Some sec) False = (mark_buffer_dirty s sec, FFS_SUCCESS)"
  by (simp add: sector_write_def bdev_write_def io_ready_def)

lemma hash_bounds: "FAT_hash s sec < 64" "buf_hash s sec < 64"
proof -
  have "unat (w AND 63) < 64" for w :: u32
    using unat_and_mask [of w 6] by (simp add: mask_numeral)
  then show "FAT_hash s sec < 64" "buf_hash s sec < 64" by (simp_all add: FAT_hash_def buf_hash_def)
qed

section \<open>The contract of a cache\<close>

text \<open>
  The interface: a field of the super block holding a cache, the hash function, the choice of the entry to replace and
  the call itself, which looks the sector up and otherwise fills the chosen entry.  \<open>room\<close> says that an entry can be
  replaced.
\<close>

locale block_cache =
  fixes getc :: "sb \<Rightarrow> BUF_CACHE_T" and setc :: "BUF_CACHE_T \<Rightarrow> sb \<Rightarrow> sb" and N :: nat
    and hash :: "sb \<Rightarrow> u32 \<Rightarrow> nat" and victim :: "BUF_CACHE_T \<Rightarrow> cnode" and room :: "BUF_CACHE_T \<Rightarrow> bool"
    and getblk :: "sb \<Rightarrow> u32 \<Rightarrow> sb \<times> u32 option"
  assumes hash_bound: "hash s sec < 64"
    and hash_cong: "same_volume s s' \<Longrightarrow> hash s' = hash s"
    and get_set: "getc (setc c s) = c"
    and set_vol: "vol_eq s (setc c s)"
    and victim: "\<lbrakk>shape N 64 c xs bk bof g; ghost_ok d c xs g; room c\<rbrakk> \<Longrightarrow> \<exists>i. victim c = Slot i \<and> victim_ok N g i"
    and getblk_eq: "getblk s sec =
      (case cache_find N (hash s) (drv s) (getc s) sec of
         Some bp \<Rightarrow> (setc (move_to_mru (getc s) bp LruHead) s, buf_bh (getc s) bp)
       | None \<Rightarrow>
           (let bp = victim (getc s); c3 = cache_fill (hash s) (drv s) sec (getc s) bp
            in case sector_read (setc (move_to_mru (getc s) bp LruHead) s) sec (buf_bh (getc s) bp) True of
                 (s2, bh, ret) \<Rightarrow>
                   let c4 = c3\<lparr>buf_bh := (buf_bh c3)(bp := bh)\<rparr>
                   in if ret \<noteq> FFS_SUCCESS
                      then (setc (move_to_lru (invalidate (remove_hash c4 bp) bp) bp LruHead) s2, None)
                      else (setc c4 s2, bh)))"
begin

definition inv :: "sb \<Rightarrow> bool" where
  "inv s \<longleftrightarrow> drv s \<noteq> -1 \<and> cache_inv N 64 (hash s) (drv s) (getc s)"

definition holds :: "sb \<Rightarrow> u32 \<Rightarrow> bool" where
  "holds s sec \<longleftrightarrow> sec \<in> cached N (drv s) (getc s)"

lemma inv_setc:
  "same_volume s s' \<Longrightarrow> drv s \<noteq> -1 \<Longrightarrow> cache_inv N 64 (hash s) (drv s) c \<Longrightarrow> getc s' = c \<Longrightarrow> inv s'"
  using same_volume_fields(5) hash_cong by (auto simp: inv_def)

lemma same_setc: "same_volume s s' \<Longrightarrow> same_volume s (setc c s')"
  using same_volume_trans vol_eq_same [OF set_vol] by blast

lemma hit_step:
  assumes "inv s" "cache_find N (hash s) (drv s) (getc s) sec = Some bp" "getblk s sec = (s', r)"
  shows "inv s' \<and> vol_eq s s' \<and> r = Some sec \<and> holds s' sec"
proof -
  have d: "drv s \<noteq> -1" using assms(1) by (simp add: inv_def)
  obtain xs bk bof g where *: "shape N 64 (getc s) xs bk bof g" "entries_ok N (hash s) (drv s) (getc s) bof"
    "ghost_ok (drv s) (getc s) xs g"
    using assms(1) by (auto simp: inv_def cache_inv_def)
  show ?thesis
    using *(1,2) hash_bound [of s sec] *(3)
  proof (cases rule: cache_find_cases [where sec = sec])
    case (hit i)
    then have e: "s' = setc (move_to_mru (getc s) (Slot i) LruHead) s" "r = Some sec"
      using assms(2,3) by (simp_all add: getblk_eq)
    have ve: "vol_eq s s'" using set_vol by (simp add: e)
    have "inv s'"
      using inv_setc [OF vol_eq_same [OF ve] d] touch_inv [OF * hit(2,6)] unfolding cache_inv_order e get_set by blast
    moreover have "holds s' sec"
      using hit same_volume_fields(5) [OF vol_eq_same [OF ve]] by (auto simp: e holds_def get_set cached_def)
    ultimately show ?thesis using ve e by simp
  next
    case miss
    then show ?thesis using assms(2) by simp
  qed
qed

lemma miss_step:
  assumes "inv s" "room (getc s)" "cache_find N (hash s) (drv s) (getc s) sec = None" "getblk s sec = (s', r)"
  shows "inv s' \<and> same_volume s s' \<and> (r = None \<or> r = Some sec \<and> vol_eq s s' \<and> holds s' sec) \<and>
    (io_ready s \<longrightarrow> \<not> out_of_range s sec \<longrightarrow> r = Some sec)"
proof -
  have d: "drv s \<noteq> -1" using assms(1) by (simp add: inv_def)
  obtain xs bk bof g where *: "shape N 64 (getc s) xs bk bof g" "entries_ok N (hash s) (drv s) (getc s) bof"
    "ghost_ok (drv s) (getc s) xs g"
    using assms(1) by (auto simp: inv_def cache_inv_def)
  have new: "sec \<notin> cached N (drv s) (getc s)"
    using *(1,2) hash_bound [of s sec] *(3) assms(3) by (cases rule: cache_find_cases [where sec = sec]) auto
  obtain i where i: "victim (getc s) = Slot i" "victim_ok N g i"
    using victim [OF *(1,3) assms(2)] by blast
  define c3 where "c3 = cache_fill (hash s) (drv s) sec (getc s) (Slot i)"
  define s1 where "s1 = setc (move_to_mru (getc s) (Slot i) LruHead) s"
  have v1: "vol_eq s s1" unfolding s1_def by (rule set_vol)
  obtain s2 bh ret where rd: "sector_read s1 sec (buf_bh (getc s) (Slot i)) True = (s2, bh, ret)"
    by (metis prod_cases3)
  note fr = sector_read_frame [OF rd]
  have sv: "same_volume s s2" using fr(1) vol_eq_same [OF v1] same_volume_trans by blast
  define c4 where "c4 = c3\<lparr>buf_bh := (buf_bh c3)(Slot i := bh)\<rparr>"
  have g: "(s', r) = (if ret \<noteq> FFS_SUCCESS
       then (setc (move_to_lru (invalidate (remove_hash c4 (Slot i)) (Slot i)) (Slot i) LruHead) s2, None)
       else (setc c4 s2, bh))"
    unfolding assms(4) [symmetric] getblk_eq using assms(3) rd by (simp add: Let_def i c3_def c4_def s1_def)
  show ?thesis
  proof (cases "ret = FFS_SUCCESS")
    case True
    have bh: "bh = Some sec" and e: "s' = setc c4 s2" "r = Some sec" using g True fr(4) by auto
    have ve: "vol_eq s s'"
      using vol_eq_trans [OF vol_eq_trans [OF v1 fr(5) [OF True]] set_vol] by (simp add: e)
    note fill = fill_success [OF * i(2) hash_bound new, folded c3_def, folded bh, folded c4_def]
    have "inv s'" using inv_setc [OF vol_eq_same [OF ve] d cache_clean_inv [OF fill(1)]] by (simp add: e get_set)
    moreover have "holds s' sec"
      using fill(2) same_volume_fields(5) [OF vol_eq_same [OF ve]] by (simp add: e holds_def get_set)
    ultimately show ?thesis using ve vol_eq_same [OF ve] e by simp
  next
    case False
    have e: "s' = setc (move_to_lru (invalidate (remove_hash c4 (Slot i)) (Slot i)) (Slot i) LruHead) s2" "r = None"
      using g False by auto
    have sv': "same_volume s s'" using same_setc [OF sv] by (simp add: e)
    have "cache_inv N 64 (hash s) (drv s) (move_to_lru (invalidate (remove_hash c4 (Slot i)) (Slot i)) (Slot i) LruHead)"
      unfolding c4_def c3_def cache_inv_order by (rule exI, rule fill_failure [OF * i(2) hash_bound d]) (simp add: cache_fill_def)
    then have "inv s'" using inv_setc [OF sv' d] by (simp add: e get_set)
    moreover have "\<not> (io_ready s \<and> \<not> out_of_range s sec)"
      using sector_read_ok [of s1 sec "buf_bh (getc s) (Slot i)" True] rd False io_ready_vol_eq [OF v1] same_volume_derived(1) [OF vol_eq_same [OF v1]]
      by auto
    ultimately show ?thesis using sv' e by simp
  qed
qed

text \<open>The order of use after a call: the sector's entry comes first, or a failed entry last.\<close>

lemma getblk_order:
  assumes o: "lru_order N 64 (hash s) (drv s) (getc s) xs" and d: "drv s \<noteq> -1" and r: "room (getc s)"
    and call: "getblk s sec = (s', r)"
  shows "(\<exists>m<N. bsec (getc s') (Slot m) = sec \<and> bdrv (getc s') (Slot m) = drv s \<and> r = Some sec \<and>
      lru_order N 64 (hash s) (drv s) (getc s') (m # remove1 m xs)) \<or>
    (\<exists>i. victim (getc s) = Slot i \<and> r = None \<and> lru_order N 64 (hash s) (drv s) (getc s') (remove1 i xs @ [i]))"
proof -
  obtain bk bof g where *: "shape N 64 (getc s) xs bk bof g" "entries_ok N (hash s) (drv s) (getc s) bof"
    "ghost_ok (drv s) (getc s) xs g"
    using o by (auto simp: lru_order_def)
  obtain i where i: "victim (getc s) = Slot i" "victim_ok N g i"
    using victim [OF *(1,3) r] by blast
  show ?thesis
    using *(1,2) hash_bound [of s sec] *(3)
  proof (cases rule: cache_find_cases [where sec = sec])
    case (hit m)
    then have "getc s' = move_to_mru (getc s) (Slot m) LruHead" "r = Some sec"
      using call by (auto simp: getblk_eq get_set)
    then show ?thesis using touch_inv [OF * hit(2,6)] hit(2-4) by auto
  next
    case miss
    obtain s2 bh ret where rd: "sector_read (setc (move_to_mru (getc s) (Slot i) LruHead) s) sec (buf_bh (getc s) (Slot i)) True
        = (s2, bh, ret)"
      by (metis prod_cases3)
    note ok = fill_success(3) [OF * i(2) hash_bound miss(2)]
    have bad: "lru_order N 64 (hash s) (drv s) (move_to_lru (invalidate (remove_hash ((cache_fill (hash s) (drv s) sec (getc s) (Slot i))
         \<lparr>buf_bh := (buf_bh (cache_fill (hash s) (drv s) sec (getc s) (Slot i)))(Slot i := bh)\<rparr>) (Slot i)) (Slot i)) (Slot i) LruHead)
         (remove1 i xs @ [i])"
      by (rule fill_failure [OF * i(2) hash_bound d]) (simp add: cache_fill_def)
    show ?thesis
    proof (cases "ret = FFS_SUCCESS")
      case True
      then have "bh = Some sec" using sector_read_frame(4) [OF rd] by simp
      then have e: "getc s' = (cache_fill (hash s) (drv s) sec (getc s) (Slot i))
          \<lparr>buf_bh := (buf_bh (cache_fill (hash s) (drv s) sec (getc s) (Slot i)))(Slot i := Some sec)\<rparr>" "r = Some sec"
        using True call i(1) rd miss(1) by (auto simp: getblk_eq get_set Let_def)
      then have "bsec (getc s') (Slot i) = sec" "bdrv (getc s') (Slot i) = drv s" by (simp_all add: cache_fill_def)
      then show ?thesis using e ok i(2) by (auto simp: victim_ok_def)
    next
      case False
      then show ?thesis using call bad i(1) rd miss(1) by (auto simp: getblk_eq get_set Let_def)
    qed
  qed
qed

text \<open>As long as every read succeeds there is no ghost.\<close>

definition clean :: "sb \<Rightarrow> bool" where
  "clean s \<longleftrightarrow> drv s \<noteq> -1 \<and> cache_clean N 64 (hash s) (drv s) (getc s)"

lemma clean_inv: "clean s \<Longrightarrow> inv s"
  by (simp add: clean_def inv_def cache_clean_inv)

lemma clean_cong: "vol_eq s s' \<Longrightarrow> getc s' = getc s \<Longrightarrow> clean s' = clean s"
  using hash_cong [OF vol_eq_same, of s s'] same_volume_fields(5) [OF vol_eq_same, of s s'] by (simp add: clean_def)

lemma getblk_clean:
  assumes "clean s" "room (getc s)" "getblk s sec = (s', Some n)"
  shows "clean s'"
proof -
  obtain xs bk bof where sh: "shape N 64 (getc s) xs bk bof None" and en: "entries_ok N (hash s) (drv s) (getc s) bof"
    and d: "drv s \<noteq> -1"
    using assms(1) by (auto simp: clean_def cache_clean_def)
  have gh: "ghost_ok (drv s) (getc s) xs None" by (simp add: ghost_ok_def)
  obtain i where i: "victim (getc s) = Slot i" "victim_ok N None i"
    using victim [OF sh gh assms(2)] by blast
  have "n = sec \<and> vol_eq s s'"
    using hit_step [OF clean_inv [OF assms(1)] _ assms(3)] miss_step [OF clean_inv [OF assms(1)] assms(2) _ assms(3)]
    by (cases "cache_find N (hash s) (drv s) (getc s) sec") blast+
  then have "n = sec" "vol_eq s s'" by simp_all
  note ve = vol_eq_same [OF \<open>vol_eq s s'\<close>]
  have "cache_clean N 64 (hash s) (drv s) (getc s')"
    using sh en hash_bound [of s sec] gh
  proof (cases rule: cache_find_cases [where sec = sec])
    case (hit j)
    have "entries_ok N (hash s) (drv s) (move_to_mru (getc s) (Slot j) LruHead) bof"
      using en by (simp add: entries_ok_def)
    moreover have "getc s' = move_to_mru (getc s) (Slot j) LruHead"
      using assms(3) hit by (auto simp: getblk_eq get_set)
    ultimately show ?thesis using shape_touch(1) [OF sh hit(2)] unfolding cache_clean_def by metis
  next
    case miss
    note f = fill_success(1) [OF sh en gh i(2) hash_bound miss(2)]
    have "getc s' = (cache_fill (hash s) (drv s) sec (getc s) (Slot i))
        \<lparr>buf_bh := (buf_bh (cache_fill (hash s) (drv s) sec (getc s) (Slot i)))(Slot i := Some sec)\<rparr>"
      using assms(3) by (auto simp: getblk_eq miss(1) i(1) \<open>n = sec\<close> get_set Let_def split: prod.splits if_splits)
    then show ?thesis using f by simp
  qed
  then show ?thesis using d same_volume_fields(5) [OF ve] hash_cong [OF ve] by (simp add: clean_def)
qed

text \<open>The contract: whatever the device does, and when it works.\<close>

lemma getblk_any:
  assumes "inv s" "room (getc s)" "getblk s sec = (s', r)"
  shows "inv s'" "same_volume s s'" "r = None \<or> r = Some sec" "r = Some sec \<Longrightarrow> vol_eq s s' \<and> holds s' sec"
    "io_ready s \<Longrightarrow> \<not> out_of_range s sec \<Longrightarrow> r = Some sec"
  using hit_step [OF assms(1) _ assms(3)] miss_step [OF assms(1,2) _ assms(3)] vol_eq_same
  by (cases "cache_find N (hash s) (drv s) (getc s) sec"; blast)+

lemma getblk_works:
  assumes "inv s" "room (getc s)" "io_ready s" "\<not> out_of_range s sec"
  obtains s' where "getblk s sec = (s', Some sec)" "inv s'" "vol_eq s s'" "holds s' sec" "io_ready s'"
proof -
  obtain s' r where c: "getblk s sec = (s', r)" by (cases "getblk s sec")
  note a = getblk_any [OF assms(1,2) c]
  have "r = Some sec" using a(5) assms(3,4) by blast
  with a c show thesis using that io_ready_vol_eq assms(3) by simp
qed

lemma getblk_entries:
  assumes "getblk s sec = (s', r)" "b \<noteq> victim (getc s)"
  shows "bdrv (getc s') b = bdrv (getc s) b" "bsec (getc s') b = bsec (getc s) b" "bflag (getc s') b = bflag (getc s) b"
  using assms by (auto simp: getblk_eq Let_def cache_fill_def get_set split: option.splits prod.splits if_splits)

lemma getblk_flags:
  assumes "getblk s sec = (s', r)"
  shows "bflag (getc s') b = bflag (getc s) b \<or> bflag (getc s') b = 0"
  using assms by (auto simp: getblk_eq Let_def cache_fill_def get_set split: option.splits prod.splits if_splits)

lemma find_holds:
  assumes "inv s" "holds s sec"
  obtains i where "cache_find N (hash s) (drv s) (getc s) sec = Some (Slot i)" "buf_bh (getc s) (Slot i) = Some sec"
    "i < N" "bdrv (getc s) (Slot i) = drv s"
proof -
  obtain xs bk bof g where *: "shape N 64 (getc s) xs bk bof g" "entries_ok N (hash s) (drv s) (getc s) bof"
    "ghost_ok (drv s) (getc s) xs g"
    using assms(1) by (auto simp: inv_def cache_inv_def)
  show thesis
    using *(1,2) hash_bound [of s sec] *(3)
  proof (cases rule: cache_find_cases [where sec = sec])
    case (hit i)
    then show ?thesis using that by blast
  next
    case miss
    then show ?thesis using assms(2) by (simp add: holds_def)
  qed
qed

end

section \<open>The FAT cache\<close>

lemma same_volume_hash:
  assumes "same_volume s s'"
  shows "FAT_hash s' = FAT_hash s" "buf_hash s' = buf_hash s"
  using same_volume_derived [OF assms] by simp_all

lemma FAT_getblk_eq:
  "FAT_getblk s sec =
      (case cache_find FAT_CACHE_SIZE (FAT_hash s) (drv s) (FAT_cache s) sec of
         Some bp \<Rightarrow> (s\<lparr>FAT_cache := move_to_mru (FAT_cache s) bp LruHead\<rparr>, buf_bh (FAT_cache s) bp)
       | None \<Rightarrow>
           (let bp = bprev (FAT_cache s) LruHead; c3 = cache_fill (FAT_hash s) (drv s) sec (FAT_cache s) bp
            in case sector_read (s\<lparr>FAT_cache := move_to_mru (FAT_cache s) bp LruHead\<rparr>) sec (buf_bh (FAT_cache s) bp) True of
                 (s2, bh, ret) \<Rightarrow>
                   let c4 = c3\<lparr>buf_bh := (buf_bh c3)(bp := bh)\<rparr>
                   in if ret \<noteq> FFS_SUCCESS
                      then (s2\<lparr>FAT_cache := move_to_lru (invalidate (remove_hash c4 bp) bp) bp LruHead\<rparr>, None)
                      else (s2\<lparr>FAT_cache := c4\<rparr>, bh)))"
proof -
  have "FAT_cache_find s sec = cache_find FAT_CACHE_SIZE (FAT_hash s) (drv s) (FAT_cache s) sec"
    by (simp add: FAT_cache_find_def cache_find_def Let_def)
  moreover have "FAT_hash (s\<lparr>FAT_cache := c\<rparr>) = FAT_hash s" for c
    by (simp add: fun_eq_iff FAT_hash_def)
  ultimately show ?thesis
    by (simp add: FAT_getblk_def FAT_cache_get_def cache_fill_def Let_def FAT_cache_remove_hash_def
        FAT_cache_insert_hash_def split: option.split prod.split)
qed

interpretation FATc: block_cache FAT_cache "\<lambda>c s. s\<lparr>FAT_cache := c\<rparr>" FAT_CACHE_SIZE FAT_hash
  "\<lambda>c. bprev c LruHead" "\<lambda>_. True" FAT_getblk
proof unfold_locales
  fix s sec show "FAT_hash s sec < 64" by (rule hash_bounds)
next
  fix c xs bk bof g d assume "shape 128 64 c xs bk bof g" "ghost_ok d c xs g"
  then show "\<exists>i. bprev c LruHead = Slot i \<and> victim_ok 128 g i" using lru_victim [of 128 64 c xs bk bof g d] by auto
qed (simp_all add: same_volume_hash FAT_getblk_eq)

section \<open>The buffer cache\<close>

definition unlocked :: "BUF_CACHE_T \<Rightarrow> cnode \<Rightarrow> bool" where
  "unlocked c b \<longleftrightarrow> bflag c b AND LOCKBIT = 0"

lemma unlocked_walk_ring:
  "\<lbrakk>path (bnext c) (bprev c) h (map Slot xs) b; \<exists>i\<in>set xs. unlocked c (Slot i); length xs \<le> fuel\<rbrakk>
   \<Longrightarrow> \<exists>i\<in>set xs. unlocked_walk fuel c (bprev c b) = Slot i \<and> unlocked c (Slot i) \<and>
        (unlocked c (Slot (last xs)) \<longrightarrow> i = last xs)"
proof (induction xs arbitrary: b fuel rule: rev_induct)
  case (snoc x xs)
  then obtain f where f: "fuel = Suc f" by (cases fuel) auto
  have p: "path (bnext c) (bprev c) h (map Slot xs) (Slot x)" "bprev c b = Slot x"
    using snoc.prems(1) by (auto simp: path_append)
  show ?case
  proof (cases "unlocked c (Slot x)")
    case True
    then show ?thesis using p f by (simp add: unlocked_def)
  next
    case False
    with snoc.prems have "\<exists>i\<in>set xs. unlocked c (Slot i)" "length xs \<le> f" using f by auto
    from snoc.IH [OF p(1) this] show ?thesis using False p f by (auto simp: unlocked_def)
  qed
qed simp

definition buf_room :: "BUF_CACHE_T \<Rightarrow> bool" where
  "buf_room c \<longleftrightarrow> (\<exists>i<BUF_CACHE_SIZE. unlocked c (Slot i))"

lemma unlocked_victim:
  assumes "shape 256 64 c xs bk bof g" "ghost_ok d c xs g" "buf_room c"
  shows "\<exists>i. unlocked_walk 257 c (bprev c LruHead) = Slot i \<and> victim_ok 256 g i"
proof -
  have st: "set xs = {..<256}" and r: "path (bnext c) (bprev c) LruHead (map Slot xs) LruHead" and d: "distinct xs"
    using assms(1) ring_slots_distinct by (auto simp: shape_def ring_def)
  have "\<exists>i\<in>set xs. unlocked c (Slot i)" using assms(3) st by (auto simp: buf_room_def)
  moreover have "length xs \<le> 257" using distinct_card [OF d] st by simp
  ultimately obtain i where i: "i \<in> set xs" "unlocked_walk 257 c (bprev c LruHead) = Slot i"
    "unlocked c (Slot (last xs)) \<longrightarrow> i = last xs"
    using unlocked_walk_ring [OF r] by blast
  have "i < 256" using i(1) unfolding st by simp
  moreover have "g = Some i" if "g = Some j" for j
    using that assms(2) i(3) by (auto simp: ghost_ok_def unlocked_def)
  ultimately have "victim_ok 256 g i" by (cases g) (auto simp: victim_ok_def)
  then show ?thesis using i(2) by blast
qed

lemma buf_getblk_eq:
  "buf_getblk s sec =
      (case cache_find BUF_CACHE_SIZE (buf_hash s) (drv s) (the_buf_cache s) sec of
         Some bp \<Rightarrow> (s\<lparr>the_buf_cache := move_to_mru (the_buf_cache s) bp LruHead\<rparr>, buf_bh (the_buf_cache s) bp)
       | None \<Rightarrow>
           (let bp = unlocked_walk (Suc BUF_CACHE_SIZE) (the_buf_cache s) (bprev (the_buf_cache s) LruHead);
                c3 = cache_fill (buf_hash s) (drv s) sec (the_buf_cache s) bp
            in case sector_read (s\<lparr>the_buf_cache := move_to_mru (the_buf_cache s) bp LruHead\<rparr>) sec (buf_bh (the_buf_cache s) bp) True of
                 (s2, bh, ret) \<Rightarrow>
                   let c4 = c3\<lparr>buf_bh := (buf_bh c3)(bp := bh)\<rparr>
                   in if ret \<noteq> FFS_SUCCESS
                      then (s2\<lparr>the_buf_cache := move_to_lru (invalidate (remove_hash c4 bp) bp) bp LruHead\<rparr>, None)
                      else (s2\<lparr>the_buf_cache := c4\<rparr>, bh)))"
proof -
  have "buf_cache_find s sec = cache_find BUF_CACHE_SIZE (buf_hash s) (drv s) (the_buf_cache s) sec"
    by (simp add: buf_cache_find_def cache_find_def Let_def)
  moreover have "buf_hash (s\<lparr>the_buf_cache := c\<rparr>) = buf_hash s" for c
    by (simp add: fun_eq_iff buf_hash_def)
  ultimately show ?thesis
    by (simp add: buf_getblk_def buf_cache_get_def cache_fill_def Let_def buf_cache_remove_hash_def
        buf_cache_insert_hash_def split: option.split prod.split)
qed

interpretation bufc: block_cache the_buf_cache "\<lambda>c s. s\<lparr>the_buf_cache := c\<rparr>" BUF_CACHE_SIZE buf_hash
  "\<lambda>c. unlocked_walk (Suc BUF_CACHE_SIZE) c (bprev c LruHead)" buf_room buf_getblk
proof unfold_locales
  fix s sec show "buf_hash s sec < 64" by (rule hash_bounds)
next
  fix c xs bk bof g d assume "shape 256 64 c xs bk bof g" "ghost_ok d c xs g" "buf_room c"
  then show "\<exists>i. unlocked_walk (Suc 256) c (bprev c LruHead) = Slot i \<and> victim_ok 256 g i"
    using unlocked_victim [of c xs bk bof g d] by simp
qed (simp_all add: same_volume_hash buf_getblk_eq)

end
