(* ===== verification/CacheOps.thy ===== *)
theory CacheOps
  imports CacheApi
begin

text \<open>
  What the remaining cache operations do, and the properties of the caches: initialisation, marking a sector dirty,
  locking, releasing, and that a locked sector is never replaced.
\<close>

section \<open>Marking dirty\<close>

lemma FAT_modify_ok:
  assumes "FATc.inv s" "FATc.holds s sec" "io_ready s" "\<not> out_of_range s sec"
  shows "FAT_modify s sec = mark_buffer_dirty s sec"
proof -
  obtain i where "cache_find 128 (FAT_hash s) (drv s) (FAT_cache s) sec = Some (Slot i)" "buf_bh (FAT_cache s) (Slot i) = Some sec"
    using FATc.find_holds [OF assms(1,2)] by blast
  then show ?thesis
    using sector_write_ok [OF assms(3,4)] by (simp add: FAT_modify_def FAT_cache_find_def cache_find_def Let_def)
qed

lemma buf_cache_find_eq: "buf_cache_find s sec = cache_find 256 (buf_hash s) (drv s) (the_buf_cache s) sec"
  by (simp add: buf_cache_find_def cache_find_def Let_def)

lemma buf_find_holds:
  assumes "bufc.inv s" "bufc.holds s sec"
  obtains i where "buf_cache_find s sec = Some (Slot i)" "buf_bh (the_buf_cache s) (Slot i) = Some sec"
    "i < 256" "bdrv (the_buf_cache s) (Slot i) = drv s"
  using bufc.find_holds [OF assms] that unfolding buf_cache_find_eq by blast

lemma buf_modify_ok:
  assumes "bufc.inv s" "bufc.holds s sec" "io_ready s" "\<not> out_of_range s sec"
  shows "buf_modify s sec = mark_buffer_dirty s sec"
proof -
  obtain i where "buf_cache_find s sec = Some (Slot i)" "buf_bh (the_buf_cache s) (Slot i) = Some sec"
    using buf_find_holds [OF assms(1,2)] by blast
  then show ?thesis
    using sector_write_ok [OF assms(3,4)] by (simp add: buf_modify_def)
qed

section \<open>Locking and releasing\<close>

text \<open>The number of entries that can be replaced.\<close>

definition free_entries :: "sb \<Rightarrow> nat" where
  "free_entries s = card {i. i < BUF_CACHE_SIZE \<and> unlocked (the_buf_cache s) (Slot i)}"

lemma buf_room_iff: "buf_room (the_buf_cache s) \<longleftrightarrow> 0 < free_entries s"
  unfolding buf_room_def free_entries_def by (subst card_gt_0_iff) auto

lemma free_entries_mono:
  assumes "\<And>i. i < 256 \<Longrightarrow> unlocked (the_buf_cache s) (Slot i) \<Longrightarrow> unlocked (the_buf_cache s') (Slot i)"
  shows "free_entries s \<le> free_entries s'"
  unfolding free_entries_def using assms by (intro card_mono) auto

lemma getblk_free_entries:
  assumes "buf_getblk s sec = (s', r)"
  shows "free_entries s \<le> free_entries s'"
proof (rule free_entries_mono)
  fix i assume "unlocked (the_buf_cache s) (Slot i)"
  then show "unlocked (the_buf_cache s') (Slot i)"
    using bufc.getblk_flags [OF assms, of "Slot i"] by (auto simp: unlocked_def)
qed

lemma buf_lock_frame: "vol_eq s (buf_lock s sec)" "FAT_cache (buf_lock s sec) = FAT_cache s"
  by (simp_all add: buf_lock_def Let_def split: option.split)

lemma buf_unlock_frame: "vol_eq s (buf_unlock s sec)" "FAT_cache (buf_unlock s sec) = FAT_cache s"
  by (simp_all add: buf_unlock_def Let_def split: option.split)

lemma buf_release_frame: "vol_eq s (buf_release s sec)" "FAT_cache (buf_release s sec) = FAT_cache s"
  by (simp_all add: buf_release_def Let_def split: option.split)

lemma buf_find_cases:
  assumes "bufc.inv s"
  obtains (hit) i where "buf_cache_find s sec = Some (Slot i)" "i < 256" "bdrv (the_buf_cache s) (Slot i) = drv s"
      "bsec (the_buf_cache s) (Slot i) = sec"
  | (miss) "buf_cache_find s sec = None" "\<not> bufc.holds s sec"
proof -
  obtain xs bk bof g where *: "shape 256 64 (the_buf_cache s) xs bk bof g" "entries_ok 256 (buf_hash s) (drv s) (the_buf_cache s) bof"
    "ghost_ok (drv s) (the_buf_cache s) xs g"
    using assms by (auto simp: bufc.inv_def cache_inv_def)
  note h = hash_bounds(2) [of s sec]
  show thesis
    using *(1,2) h *(3)
  proof (cases rule: cache_find_cases [where sec = sec])
    case (hit i)
    then show ?thesis using that(1) by (simp add: buf_cache_find_eq)
  next
    case miss
    then show ?thesis using that(2) by (simp add: buf_cache_find_eq bufc.holds_def)
  qed
qed

lemma vol_eq_buf_inv:
  assumes "bufc.inv s" "vol_eq s s'" "cache_inv 256 64 (buf_hash s) (drv s) (the_buf_cache s')"
  shows "bufc.inv s'"
  using bufc.inv_setc [OF vol_eq_same [OF assms(2)] _ assms(3)] assms(1) by (simp add: bufc.inv_def)

lemma holds_cong:
  assumes "vol_eq s s'" "bdrv (the_buf_cache s') = bdrv (the_buf_cache s)" "bsec (the_buf_cache s') = bsec (the_buf_cache s)"
  shows "bufc.holds s' sec = bufc.holds s sec"
  using same_volume_fields(5) [OF vol_eq_same [OF assms(1)]] assms(2,3) by (simp add: bufc.holds_def cached_def)

lemma buf_lock_inv:
  assumes "bufc.inv s"
  shows "bufc.inv (buf_lock s sec)" "bufc.holds (buf_lock s sec) = bufc.holds s"
    "free_entries s \<le> Suc (free_entries (buf_lock s sec))"
proof -
  have i: "cache_inv 256 64 (buf_hash s) (drv s) (the_buf_cache s)" using assms by (simp add: bufc.inv_def)
  have "cache_inv 256 64 (buf_hash s) (drv s) (the_buf_cache (buf_lock s sec)) \<and>
     free_entries s \<le> Suc (free_entries (buf_lock s sec))"
    using assms
  proof (cases rule: buf_find_cases [where sec = sec])
    case (hit i)
    define c where "c = the_buf_cache s"
    have e: "buf_lock s sec = s\<lparr>the_buf_cache := c\<lparr>bflag := (bflag c)(Slot i := bflag c (Slot i) OR 1)\<rparr>\<rparr>"
      using hit by (simp add: buf_lock_def Let_def c_def)
    define A B where "A = {j. j < (256::nat) \<and> unlocked c (Slot j)}"
      and "B = {j. j < (256::nat) \<and> unlocked (the_buf_cache (buf_lock s sec)) (Slot j)}"
    have "unlocked (the_buf_cache (buf_lock s sec)) (Slot j) = unlocked c (Slot j)" if "j \<noteq> i" for j
      using that by (simp add: e unlocked_def)
    then have "A \<subseteq> insert i B" unfolding A_def B_def by blast
    moreover have "finite B" by (simp add: B_def)
    ultimately have "card A \<le> card (insert i B)" by (intro card_mono) simp_all
    also have "\<dots> \<le> Suc (card B)" using \<open>finite B\<close> by (simp add: card_insert_if)
    finally have "free_entries s \<le> Suc (free_entries (buf_lock s sec))"
      by (simp add: free_entries_def A_def B_def c_def)
    moreover have "cache_inv 256 64 (buf_hash s) (drv s) (c\<lparr>bflag := (bflag c)(Slot i := bflag c (Slot i) OR 1)\<rparr>)"
    proof (rule cache_inv_flags)
      show "cache_inv 256 64 (buf_hash s) (drv s) c" using i by (simp add: c_def)
      show "\<And>j. bdrv c (Slot j) \<noteq> drv s \<Longrightarrow>
          ((bflag c)(Slot i := bflag c (Slot i) OR 1)) (Slot j) = bflag c (Slot j)"
        using hit(3) by (auto simp: c_def)
    qed
    ultimately show ?thesis by (simp add: e)
  next
    case miss
    then show ?thesis using i by (simp add: buf_lock_def)
  qed
  then show "bufc.inv (buf_lock s sec)" "free_entries s \<le> Suc (free_entries (buf_lock s sec))"
    using vol_eq_buf_inv [OF assms buf_lock_frame(1)] by auto
  have "bdrv (the_buf_cache (buf_lock s sec)) = bdrv (the_buf_cache s)" "bsec (the_buf_cache (buf_lock s sec)) = bsec (the_buf_cache s)"
    by (simp_all add: buf_lock_def Let_def split: option.split)
  then show "bufc.holds (buf_lock s sec) = bufc.holds s"
    using holds_cong [OF buf_lock_frame(1)] by blast
qed

lemma buf_unlock_inv:
  assumes "bufc.inv s"
  shows "bufc.inv (buf_unlock s sec)" "bufc.holds (buf_unlock s sec) = bufc.holds s"
    "free_entries s \<le> free_entries (buf_unlock s sec)"
proof -
  have i: "cache_inv 256 64 (buf_hash s) (drv s) (the_buf_cache s)" using assms by (simp add: bufc.inv_def)
  have "cache_inv 256 64 (buf_hash s) (drv s) (the_buf_cache (buf_unlock s sec))"
    using assms
  proof (cases rule: buf_find_cases [where sec = sec])
    case (hit j)
    define c where "c = the_buf_cache s"
    have "cache_inv 256 64 (buf_hash s) (drv s) (c\<lparr>bflag := (bflag c)(Slot j := bflag c (Slot j) AND NOT 1)\<rparr>)"
    proof (rule cache_inv_flags)
      show "cache_inv 256 64 (buf_hash s) (drv s) c" using i by (simp add: c_def)
      show "\<And>k. bdrv c (Slot k) \<noteq> drv s \<Longrightarrow>
          ((bflag c)(Slot j := bflag c (Slot j) AND NOT 1)) (Slot k) = bflag c (Slot k)"
        using hit(3) by (auto simp: c_def)
    qed
    then show ?thesis using hit by (simp add: buf_unlock_def Let_def c_def)
  next
    case miss
    then show ?thesis using i by (simp add: buf_unlock_def)
  qed
  then show "bufc.inv (buf_unlock s sec)" by (rule vol_eq_buf_inv [OF assms buf_unlock_frame(1)])
  have "bdrv (the_buf_cache (buf_unlock s sec)) = bdrv (the_buf_cache s)" "bsec (the_buf_cache (buf_unlock s sec)) = bsec (the_buf_cache s)"
    by (simp_all add: buf_unlock_def Let_def split: option.split)
  then show "bufc.holds (buf_unlock s sec) = bufc.holds s"
    using holds_cong [OF buf_unlock_frame(1)] by blast
  show "free_entries s \<le> free_entries (buf_unlock s sec)"
    by (rule free_entries_mono) (auto simp: buf_unlock_def unlocked_def Let_def and.assoc split: option.split)
qed

lemma buf_release_clean:
  assumes "bufc.clean s"
  shows "bufc.clean (buf_release s sec)" "bufc.holds (buf_release s sec) n \<longleftrightarrow> bufc.holds s n \<and> n \<noteq> sec"
    "free_entries s \<le> free_entries (buf_release s sec)"
proof -
  note inv = bufc.clean_inv [OF assms]
  have d: "drv s \<noteq> -1" and cl: "cache_clean 256 64 (buf_hash s) (drv s) (the_buf_cache s)"
    using assms by (simp_all add: bufc.clean_def)
  note ve = vol_eq_same [OF buf_release_frame(1)]
  have "cache_clean 256 64 (buf_hash s) (drv s) (the_buf_cache (buf_release s sec)) \<and>
     (bufc.holds (buf_release s sec) n \<longleftrightarrow> bufc.holds s n \<and> n \<noteq> sec)"
    using inv
  proof (cases rule: buf_find_cases [where sec = sec])
    case (hit i)
    have e: "the_buf_cache (buf_release s sec) = move_to_lru (invalidate (the_buf_cache s) (Slot i)) (Slot i) LruHead"
      using hit by (simp add: buf_release_def)
    obtain bof where eo: "entries_ok 256 (buf_hash s) (drv s) (the_buf_cache s) bof"
      using cl by (auto simp: cache_clean_def)
    have u: "j = i" if "j < 256" "bdrv (the_buf_cache s) (Slot j) = drv s" "bsec (the_buf_cache s) (Slot j) = sec" for j
      using eo that hit unfolding entries_ok_def by metis
    have "bufc.holds (buf_release s sec) n \<longleftrightarrow>
        (\<exists>j<256. j \<noteq> i \<and> bdrv (the_buf_cache s) (Slot j) = drv s \<and> bsec (the_buf_cache s) (Slot j) = n)"
      using d same_volume_fields(5) [OF ve] by (auto simp: bufc.holds_def cached_def e)
    also have "\<dots> \<longleftrightarrow> bufc.holds s n \<and> n \<noteq> sec"
    proof
      assume "\<exists>j<256. j \<noteq> i \<and> bdrv (the_buf_cache s) (Slot j) = drv s \<and> bsec (the_buf_cache s) (Slot j) = n"
      then obtain j where j: "j < 256" "j \<noteq> i" "bdrv (the_buf_cache s) (Slot j) = drv s" "bsec (the_buf_cache s) (Slot j) = n"
        by blast
      moreover have "n \<noteq> sec" using u j by metis
      ultimately show "bufc.holds s n \<and> n \<noteq> sec" unfolding bufc.holds_def cached_def by blast
    next
      assume "bufc.holds s n \<and> n \<noteq> sec"
      then obtain j where j: "j < 256" "bdrv (the_buf_cache s) (Slot j) = drv s" "bsec (the_buf_cache s) (Slot j) = n" "n \<noteq> sec"
        unfolding bufc.holds_def cached_def by blast
      then have "j \<noteq> i" using hit(4) by blast
      with j show "\<exists>j<256. j \<noteq> i \<and> bdrv (the_buf_cache s) (Slot j) = drv s \<and> bsec (the_buf_cache s) (Slot j) = n"
        by blast
    qed
    finally show ?thesis using release_clean [OF cl hit(2) d] by (simp add: e)
  next
    case miss
    then show ?thesis using cl by (auto simp: buf_release_def)
  qed
  then show "bufc.clean (buf_release s sec)" "bufc.holds (buf_release s sec) n \<longleftrightarrow> bufc.holds s n \<and> n \<noteq> sec"
    using d same_volume_fields(5) [OF ve] same_volume_hash(2) [OF ve] by (auto simp: bufc.clean_def)
  show "free_entries s \<le> free_entries (buf_release s sec)"
    by (rule free_entries_mono) (auto simp: buf_release_def unlocked_def split: option.split)
qed

section \<open>Initialisation\<close>

lemma init_entries:
  assumes "lru_ring c []"
  shows "lru_ring (fold (\<lambda>i c. init_entry c i) [0..<n] c) (rev [0..<n])"
proof (induction n)
  case (Suc n)
  then show ?case
    using push_to_mru_ring [of "invalidate (fold (\<lambda>i c. init_entry c i) [0..<n] c) (Slot n)" "rev [0..<n]" n]
    by (simp add: init_entry_def)
qed (use assms in simp)

lemma init_entries_fields:
  "i < n \<Longrightarrow> bdrv (fold (\<lambda>i c. init_entry c i) [0..<n] c) (Slot i) = -1"
  "i < n \<Longrightarrow> bsec (fold (\<lambda>i c. init_entry c i) [0..<n] c) (Slot i) = -1"
  "i < n \<Longrightarrow> bflag (fold (\<lambda>i c. init_entry c i) [0..<n] c) (Slot i) = 0"
  by (induction n) (auto simp: init_entry_def less_Suc_eq)

lemma init_heads:
  "k < n \<Longrightarrow> bucket (fold (\<lambda>i c. init_hash_head c i) [0..<n] c) k []"
  by (induction n) (auto simp: init_hash_head_def ring_empty less_Suc_eq)

lemma init_heads_fields:
  "bnext (fold (\<lambda>i c. init_hash_head c i) ks c) = bnext c" "bprev (fold (\<lambda>i c. init_hash_head c i) ks c) = bprev c"
  "bflag (fold (\<lambda>i c. init_hash_head c i) ks c) = bflag c"
  "bdrv (fold (\<lambda>i c. init_hash_head c i) ks c) (Slot i) = bdrv c (Slot i)"
  "bsec (fold (\<lambda>i c. init_hash_head c i) ks c) (Slot i) = bsec c (Slot i)"
  by (induction ks arbitrary: c) (auto simp: init_hash_head_def)

lemma init_hash:
  assumes "\<forall>k<H. bucket c k []" "h < H"
  defines "f \<equiv> \<lambda>n. fold (\<lambda>i c. insert_hash c (HashHead h) (Slot i)) [0..<n] c"
  shows "\<forall>k<H. bucket (f n) k (if k = h then rev [0..<n] else [])" "bnext (f n) = bnext c" "bprev (f n) = bprev c"
    "bdrv (f n) = bdrv c" "bsec (f n) = bsec c" "bflag (f n) = bflag c"
proof -
  show "\<forall>k<H. bucket (f n) k (if k = h then rev [0..<n] else [])"
  proof (induction n)
    case 0
    then show ?case using assms(1) by (simp add: f_def)
  next
    case (Suc n)
    have b: "bucket (f n) h (rev [0..<n])" and o: "\<And>k. k < H \<Longrightarrow> k \<noteq> h \<Longrightarrow> bucket (f n) k []"
      using Suc assms(2) by auto
    have e: "f (Suc n) = insert_hash (f n) (HashHead h) (Slot n)" by (simp add: f_def)
    show ?case
      using insert_hash_bucket [OF b, of n] insert_hash_other [OF b o, of _ n] by (auto simp: e)
  qed
  show "bnext (f n) = bnext c" "bprev (f n) = bprev c" "bdrv (f n) = bdrv c" "bsec (f n) = bsec c" "bflag (f n) = bflag c"
    by (induction n) (simp_all add: f_def)
qed

lemma init_clean:
  fixes c0 :: BUF_CACHE_T
  assumes "0 < N" "d \<noteq> -1" "hf (-1) < H"
  defines "c2 \<equiv> fold (\<lambda>i c. init_hash_head c i) [0..<H] (fold (\<lambda>i c. init_entry c i) [0..<N] (init_lru_head c0))"
  defines "c3 \<equiv> fold (\<lambda>i c. insert_hash c (HashHead (hf (bsec c (Slot i)))) (Slot i)) [0..<N] c2"
  shows "cache_clean N H hf d c3" "\<forall>i<N. bflag c3 (Slot i) = 0" "\<forall>i<N. bdrv c3 (Slot i) = -1"
proof -
  define h where "h = hf (-1)"
  have l: "lru_ring (init_lru_head c0) []" by (simp add: init_lru_head_def ring_empty)
  have f2: "bsec c2 (Slot i) = -1" "bdrv c2 (Slot i) = -1" "bflag c2 (Slot i) = 0" if "i < N" for i
    using init_entries_fields that by (simp_all add: c2_def init_heads_fields)
  have "fold (\<lambda>i c. insert_hash c (HashHead (hf (bsec c (Slot i)))) (Slot i)) [0..<n] c2 =
     fold (\<lambda>i c. insert_hash c (HashHead h) (Slot i)) [0..<n] c2 \<and>
     bsec (fold (\<lambda>i c. insert_hash c (HashHead h) (Slot i)) [0..<n] c2) = bsec c2" if "n \<le> N" for n
    using that by (induction n) (simp_all add: f2 h_def)
  then have e: "c3 = fold (\<lambda>i c. insert_hash c (HashHead h) (Slot i)) [0..<N] c2" by (simp add: c3_def)
  have "\<forall>k<H. bucket c2 k []" using init_heads by (simp add: c2_def)
  note i = init_hash [OF this assms(3) [folded h_def], of N, folded e]
  have "lru_ring c3 (rev [0..<N])" using init_entries [OF l] by (simp add: i c2_def init_heads_fields)
  then have "shape N H c3 (rev [0..<N]) (\<lambda>k. if k = h then rev [0..<N] else []) (\<lambda>_. h) None"
    unfolding shape_def using i(1) assms(3) h_def by (auto simp: lessThan_atLeast0)
  moreover have "\<forall>i<N. bdrv c3 (Slot i) \<noteq> d" using f2(2) assms(2) by (simp add: i)
  ultimately show "cache_clean N H hf d c3" unfolding cache_clean_def entries_ok_def by blast
  show "\<forall>i<N. bflag c3 (Slot i) = 0" "\<forall>i<N. bdrv c3 (Slot i) = -1" using f2 by (simp_all add: i)
qed

lemma buf_init_clean:
  assumes "drv s \<noteq> -1"
  shows "FATc.clean (fst (buf_init s))" "bufc.clean (fst (buf_init s))" "free_entries (fst (buf_init s)) = 256"
    "vol_eq s (fst (buf_init s))"
proof -
  show ve: "vol_eq s (fst (buf_init s))" by (rule vol_eqI [where t = "io_clock s"]) (simp add: buf_init_def Let_def)
  have h: "FAT_hash (fst (buf_init s)) = FAT_hash s" "buf_hash (fst (buf_init s)) = buf_hash s" "drv (fst (buf_init s)) = drv s"
    using same_volume_hash [OF vol_eq_same [OF ve]] same_volume_fields(5) [OF vol_eq_same [OF ve]] by simp_all
  note F = init_clean [of 128 "drv s" "FAT_hash s" 64 "FAT_cache s"]
  note B = init_clean [of 256 "drv s" "buf_hash s" 64 "the_buf_cache s"]
  show "FATc.clean (fst (buf_init s))"
    using F(1) assms hash_bounds by (simp add: FATc.clean_def h) (simp add: buf_init_def Let_def FAT_cache_insert_hash_def)
  show "bufc.clean (fst (buf_init s))"
    using B(1) assms hash_bounds by (simp add: bufc.clean_def h) (simp add: buf_init_def Let_def buf_cache_insert_hash_def)
  have "\<forall>i<256. bflag (the_buf_cache (fst (buf_init s))) (Slot i) = 0"
    using B(2) assms hash_bounds by (simp add: buf_init_def Let_def buf_cache_insert_hash_def)
  then have "{i. i < 256 \<and> unlocked (the_buf_cache (fst (buf_init s))) (Slot i)} = {..<256}"
    by (auto simp: unlocked_def)
  then show "free_entries (fst (buf_init s)) = 256" by (simp add: free_entries_def)
qed

section \<open>A concrete volume\<close>

text \<open>
  A small volume with 512-byte sectors and two sectors per cluster, its blocks zeroed, the device working; the
  examples start from it, with the caches as \<open>buf_init\<close> leaves them.
\<close>

definition blank_cache :: BUF_CACHE_T where
  "blank_cache = \<lparr>bnext = id, bprev = id, hash_next = id, hash_prev = id, bdrv = (\<lambda>_. 0), bsec = (\<lambda>_. 0),
     bflag = (\<lambda>_. 0), buf_bh = (\<lambda>_. None)\<rparr>"

definition blank_sb :: "vol_kind \<Rightarrow> sb" where
  "blank_sb k = \<lparr>blk = (\<lambda>_. replicate 512 0), dirty = (\<lambda>_. False), disk = (\<lambda>_. replicate 512 0), io_clock = 0,
     io_ok = (\<lambda>_. True), mem_ok = (\<lambda>_. True), wall_clock = (\<lambda>_. 1000000000), sys_tz = 0, s_blocksize = 512, s_rdonly = False, s_dirt = False, panicked = False,
     logical_block_size = 512, dev_bytes = 524288, opt_errors = ERRORS_CONT, casesensitive = False, debug_flags = 0,
     sector_size = 512, sector_size_bits = 9, sector_size_mask = 511, bd_num_sectors = 1024, opened = True,
     drv = 0, vol_type = k, vol_id = 0, num_sectors = 1024, num_clusters = 66, cluster_size = 1024,
     cluster_size_bits = 10, sectors_per_clu = 2, sectors_per_clu_bits = 1, PBR_sector = 0, FAT1_start_sector = 1,
     FAT2_start_sector = 2, root_start_sector = 3, data_start_sector = 8, num_FAT_sectors = 1, root_dir = 2,
     dentries_in_root = 64, dentries_per_clu = 32, vol_flag = 0, pbr_bh = None, map_clu = 2, map_sectors = 1,
     vol_amap = [Some 8], vol_utbl = [], clu_srch_ptr = 2, used_clusters = -1,
     hint_uentry = \<lparr>ue_dir = -1, ue_entry = -1, ue_clu = \<lparr>ch_dir = 0, ch_size = 0, ch_flags = 0\<rparr>\<rparr>,
     dev_ejected = False, FAT_cache = blank_cache, the_buf_cache = blank_cache\<rparr>"

definition sample_sb :: "vol_kind \<Rightarrow> sb" where
  "sample_sb k = fst (buf_init (blank_sb k))"

lemma sample_frame: "vol_eq (blank_sb k) (sample_sb k)"
  unfolding sample_sb_def by (rule buf_init_clean) (simp add: blank_sb_def)

lemmas sample_fields = same_volume_fields [OF vol_eq_same [OF sample_frame]] vol_eq_fields [OF sample_frame]

lemma sample_caches: "FATc.clean (sample_sb k)" "bufc.clean (sample_sb k)" "free_entries (sample_sb k) = 256"
  unfolding sample_sb_def by (rule buf_init_clean; simp add: blank_sb_def)+

lemmas sample_inv = FATc.clean_inv [OF sample_caches(1)] bufc.clean_inv [OF sample_caches(2)]

lemma sample_io: "io_ready (sample_sb k)" "out_of_range (sample_sb k) sec \<longleftrightarrow> 1024 \<le> sec"
  using io_ready_vol_eq [OF sample_frame] same_volume_derived(1) [OF vol_eq_same [OF sample_frame]]
  by (simp_all add: io_ready_def debug_error_rw_def out_of_range_def blank_sb_def)

section \<open>Properties of the caches\<close>

text \<open>
  C35: The FAT cache is transparent.  Whatever requests the device fails, a call of \<open>FAT_getblk\<close> keeps the cache
  well-formed, changes nothing of the volume's data or layout, and returns the buffer of the sector asked for or \<open>NULL\<close>;
  when the device works and the sector is in range it is not \<open>NULL\<close>.
\<close>

theorem FAT_getblk_transparent:
  assumes "FATc.inv s" "FAT_getblk s sec = (s', r)"
  shows "FATc.inv s' \<and> same_volume s s' \<and> (r = None \<or> r = Some sec \<and> vol_eq s s' \<and> FATc.holds s' sec)
    \<and> (io_ready s \<longrightarrow> \<not> out_of_range s sec \<longrightarrow> r = Some sec)"
  using FATc.getblk_any [OF assms(1) _ assms(2)] by blast

theorem FAT_getblk_transparent_witness:
  "let s = sample_sb FAT16; (s', r) = FAT_getblk s 1
   in FATc.inv s' \<and> same_volume s s' \<and> (r = None \<or> r = Some 1 \<and> vol_eq s s' \<and> FATc.holds s' 1)
    \<and> (io_ready s \<longrightarrow> \<not> out_of_range s 1 \<longrightarrow> r = Some 1)"
  unfolding Let_def using FAT_getblk_transparent [OF sample_inv(1)] by (simp split: prod.split)

definition FAT_getblks :: "u32 list \<Rightarrow> sb \<Rightarrow> sb" where
  "FAT_getblks secs s = fold (\<lambda>n s. fst (FAT_getblk s n)) secs s"

definition recent :: "sb \<Rightarrow> u32 \<Rightarrow> nat \<Rightarrow> bool" where
  "recent s sec k \<longleftrightarrow> drv s \<noteq> -1 \<and> (\<exists>us i vs. lru_order 128 64 (FAT_hash s) (drv s) (FAT_cache s) (us @ i # vs) \<and>
     length us \<le> k \<and> bdrv (FAT_cache s) (Slot i) = drv s \<and> bsec (FAT_cache s) (Slot i) = sec)"

lemma lru_order_list: "lru_order N H hf d c xs \<Longrightarrow> distinct xs \<and> set xs = {..<N} \<and> length xs = N"
proof -
  assume "lru_order N H hf d c xs"
  then have r: "lru_ring c xs" and st: "set xs = {..<N}" by (auto simp: lru_order_def shape_def)
  then show ?thesis using ring_slots_distinct [OF r] distinct_card [of xs] by simp
qed

lemma recent_holds: "recent s sec k \<Longrightarrow> FATc.holds s sec"
  unfolding recent_def FATc.holds_def cached_def using lru_order_list by fastforce

lemma remove1_before: "i \<noteq> m \<Longrightarrow> \<exists>us' vs'. remove1 m (us @ i # vs) = us' @ i # vs' \<and> length us' \<le> length us"
  by (cases "m \<in> set us") (auto simp: remove1_append length_remove1 intro!: exI)

lemma recent_step:
  assumes "recent s sec k" "Suc k < 128" "FAT_getblk s n = (s', r)"
  shows "recent s' sec (Suc k)"
proof -
  obtain us i vs where o: "lru_order 128 64 (FAT_hash s) (drv s) (FAT_cache s) (us @ i # vs)" and l: "length us \<le> k"
    and i: "bdrv (FAT_cache s) (Slot i) = drv s" "bsec (FAT_cache s) (Slot i) = sec" and d: "drv s \<noteq> -1"
    using assms(1) by (auto simp: recent_def)
  have inv: "FATc.inv s" using o d by (auto simp: FATc.inv_def cache_inv_order)
  note any = FATc.getblk_any [OF inv _ assms(3)]
  have same: "FAT_hash s' = FAT_hash s" "drv s' = drv s"
    using same_volume_hash [OF any(2)] same_volume_fields(5) [OF any(2)] by simp_all
  obtain bk bof g where "shape 128 64 (FAT_cache s) (us @ i # vs) bk bof g" "ghost_ok (drv s) (FAT_cache s) (us @ i # vs) g"
    using o by (auto simp: lru_order_def)
  then have v: "bprev (FAT_cache s) LruHead = Slot (last (us @ i # vs))"
    using lru_victim by (metis zero_less_numeral)
  have "vs \<noteq> []" using lru_order_list [OF o] l assms(2) by auto
  then have "last (us @ i # vs) \<noteq> i" using lru_order_list [OF o] by auto
  with v have ne: "Slot i \<noteq> bprev (FAT_cache s) LruHead" by simp
  note keep = FATc.getblk_entries [OF assms(3) ne]
  from FATc.getblk_order [OF o d _ assms(3)]
  consider (front) m where "lru_order 128 64 (FAT_hash s) (drv s) (FAT_cache s') (m # remove1 m (us @ i # vs))"
    | (failed) j where "bprev (FAT_cache s) LruHead = Slot j" "lru_order 128 64 (FAT_hash s) (drv s) (FAT_cache s') (remove1 j (us @ i # vs) @ [j])"
    by blast
  then show ?thesis
  proof cases
    case front
    show ?thesis
    proof (cases "m = i")
      case True
      then show ?thesis using front keep i d same unfolding recent_def by (metis append_Nil le0 list.size(3))
    next
      case False
      then obtain us' vs' where "remove1 m (us @ i # vs) = us' @ i # vs'" "length us' \<le> length us"
        using remove1_before by metis
      then have "m # remove1 m (us @ i # vs) = (m # us') @ i # vs'" "length (m # us') \<le> Suc k" using l by simp_all
      then show ?thesis using front keep i d same unfolding recent_def by metis
    qed
  next
    case failed
    then have "i \<noteq> j" using ne by auto
    then obtain us' vs' where "remove1 j (us @ i # vs) = us' @ i # vs'" "length us' \<le> length us"
      using remove1_before by metis
    then have "remove1 j (us @ i # vs) @ [j] = us' @ i # (vs' @ [j])" "length us' \<le> Suc k" using l by simp_all
    then show ?thesis using failed keep i d same unfolding recent_def by metis
  qed
qed

text \<open>
  C36: The FAT cache really is least-recently-used: a sector just returned by \<open>FAT_getblk\<close> is still cached after up to
  127 further calls on any sectors, successful or not.
\<close>

theorem FAT_cache_keeps_recent:
  assumes "FATc.inv s" "FAT_getblk s sec = (s1, Some sec)" "length secs < FAT_CACHE_SIZE"
  shows "FATc.holds (FAT_getblks secs s1) sec"
proof -
  obtain xs where o: "lru_order 128 64 (FAT_hash s) (drv s) (FAT_cache s) xs" and d: "drv s \<noteq> -1"
    using assms(1) by (auto simp: FATc.inv_def cache_inv_order)
  note any = FATc.getblk_any [OF assms(1) _ assms(2)]
  have same: "FAT_hash s1 = FAT_hash s" "drv s1 = drv s"
    using same_volume_hash [OF any(2)] same_volume_fields(5) [OF any(2)] by simp_all
  have r0: "recent s1 sec 0"
  proof -
    obtain m where "bsec (FAT_cache s1) (Slot m) = sec" "bdrv (FAT_cache s1) (Slot m) = drv s"
      "lru_order 128 64 (FAT_hash s) (drv s) (FAT_cache s1) ([] @ m # remove1 m xs)"
      using FATc.getblk_order [OF o d _ assms(2)] by auto
    then show ?thesis using d unfolding recent_def same by (metis le0 list.size(3))
  qed
  have "k + length secs < 128 \<Longrightarrow> recent s1 sec k \<Longrightarrow> recent (FAT_getblks secs s1) sec (k + length secs)" for k
  proof (induction secs arbitrary: s1 k)
    case (Cons n secs)
    obtain s2 r where c: "FAT_getblk s1 n = (s2, r)" by (cases "FAT_getblk s1 n")
    have "recent s2 sec (Suc k)" using recent_step [OF Cons.prems(2) _ c] Cons.prems(1) by simp
    then show ?case using Cons.IH [of "Suc k" s2] Cons.prems(1) c by (simp add: FAT_getblks_def)
  qed (simp add: FAT_getblks_def)
  then show ?thesis using r0 assms(3) recent_holds by (metis add_0)
qed

theorem FAT_cache_keeps_recent_witness:
  "FATc.holds (FAT_getblks [1, 7, 2000, 9] (fst (FAT_getblk (sample_sb FAT16) 3))) 3"
proof -
  have "\<not> out_of_range (sample_sb FAT16) 3" by (simp add: sample_io)
  from FATc.getblk_works [OF sample_inv(1) TrueI sample_io(1) this] obtain s1 where
    "FAT_getblk (sample_sb FAT16) 3 = (s1, Some 3)" by blast
  then show ?thesis using FAT_cache_keeps_recent [OF sample_inv(1), of FAT16 3 s1 "[1, 7, 2000, 9]"] by simp
qed

lemma buf_holdsI:
  "i < 256 \<Longrightarrow> bdrv (the_buf_cache t) (Slot i) = drv t \<Longrightarrow> bsec (the_buf_cache t) (Slot i) = sec \<Longrightarrow> bufc.holds t sec"
  by (auto simp: bufc.holds_def cached_def)

lemma unlocked_victim_unlocked:
  assumes "bufc.inv t" "buf_room (the_buf_cache t)"
  shows "unlocked (the_buf_cache t) (unlocked_walk (Suc 256) (the_buf_cache t) (bprev (the_buf_cache t) LruHead))"
proof -
  obtain xs bk bof g where sh: "shape 256 64 (the_buf_cache t) xs bk bof g"
    using assms(1) by (auto simp: bufc.inv_def cache_inv_def)
  have st: "set xs = {..<256}" and r: "path (bnext (the_buf_cache t)) (bprev (the_buf_cache t)) LruHead (map Slot xs) LruHead"
    and d: "distinct xs"
    using sh ring_slots_distinct by (auto simp: shape_def ring_def)
  have "\<exists>i\<in>set xs. unlocked (the_buf_cache t) (Slot i)" using assms(2) st by (auto simp: buf_room_def)
  moreover have "length xs \<le> Suc 256" using distinct_card [OF d] st by simp
  ultimately show ?thesis using unlocked_walk_ring [OF r] by metis
qed

definition buf_getblks :: "u32 list \<Rightarrow> sb \<Rightarrow> sb" where
  "buf_getblks secs s = fold (\<lambda>n s. fst (buf_getblk s n)) secs s"

text \<open>
  C38: A locked sector is never evicted: after \<open>buf_lock\<close>, no number of \<open>buf_getblk\<close> calls, successful or failing,
  replaces the sector's entry, as long as some other entry was unlocked.
\<close>

theorem locked_sector_stays:
  assumes "bufc.inv s" "bufc.holds s sec" "1 < free_entries s"
  shows "bufc.inv (buf_getblks secs (buf_lock s sec)) \<and> bufc.holds (buf_getblks secs (buf_lock s sec)) sec"
proof -
  let ?P = "\<lambda>t. bufc.inv t \<and> 0 < free_entries t \<and>
    (\<exists>i<256. bdrv (the_buf_cache t) (Slot i) = drv t \<and> bsec (the_buf_cache t) (Slot i) = sec \<and> \<not> unlocked (the_buf_cache t) (Slot i))"
  have step: "?P t'" if P: "?P t" and c: "buf_getblk t n = (t', r)" for t t' n r
  proof -
    obtain i where i: "i < 256" "bdrv (the_buf_cache t) (Slot i) = drv t" "bsec (the_buf_cache t) (Slot i) = sec"
      "\<not> unlocked (the_buf_cache t) (Slot i)" using P by blast
    have room: "buf_room (the_buf_cache t)" using P by (simp add: buf_room_iff)
    note any = bufc.getblk_any [OF conjunct1 [OF P] room c]
    have "Slot i \<noteq> unlocked_walk (Suc 256) (the_buf_cache t) (bprev (the_buf_cache t) LruHead)"
      using unlocked_victim_unlocked [OF conjunct1 [OF P] room] i(4) by metis
    from bufc.getblk_entries [OF c this] show ?thesis
      using any(1,2) same_volume_fields(5) [OF any(2)] i getblk_free_entries [OF c] P by (auto simp: unlocked_def)
  qed
  have run: "?P t \<Longrightarrow> ?P (buf_getblks secs t)" for t
  proof (induction secs arbitrary: t)
    case (Cons n secs)
    obtain t' r where c: "buf_getblk t n = (t', r)" by (cases "buf_getblk t n")
    show ?case using Cons.IH [OF step [OF Cons.prems c]] c by (simp add: buf_getblks_def)
  qed (simp add: buf_getblks_def)
  obtain i where i: "buf_cache_find s sec = Some (Slot i)" "i < 256" "bdrv (the_buf_cache s) (Slot i) = drv s"
      "bsec (the_buf_cache s) (Slot i) = sec"
    using assms(1,2) by (cases rule: buf_find_cases [where sec = sec]) auto
  have "?P (buf_lock s sec)"
    using i buf_lock_inv [OF assms(1), of sec] assms(3) same_volume_fields(5) [OF vol_eq_same [OF buf_lock_frame(1)]]
    by (auto simp: buf_lock_def Let_def unlocked_def intro!: exI [of _ i])
  from run [OF this] have P: "?P (buf_getblks secs (buf_lock s sec))" .
  then show ?thesis using buf_holdsI by blast
qed

theorem locked_sector_stays_witness:
  "let s = fst (buf_getblk (sample_sb EXFAT) 9)
   in bufc.inv (buf_getblks [1, 2000, 5] (buf_lock s 9)) \<and> bufc.holds (buf_getblks [1, 2000, 5] (buf_lock s 9)) 9"
proof -
  have "\<not> out_of_range (sample_sb EXFAT) 9" "buf_room (the_buf_cache (sample_sb EXFAT))"
    by (simp_all add: sample_io buf_room_iff sample_caches)
  from bufc.getblk_works [OF sample_inv(2) this(2) sample_io(1) this(1)] obtain s1 where
    s1: "buf_getblk (sample_sb EXFAT) 9 = (s1, Some 9)" "bufc.inv s1" "bufc.holds s1 9" by blast
  moreover have "1 < free_entries s1" using getblk_free_entries [OF s1(1)] by (simp add: sample_caches)
  ultimately show ?thesis using locked_sector_stays [of s1 9] by (simp add: Let_def)
qed

end
