(* ===== verification/FatTable.thy ===== *)
theory FatTable
  imports CacheOps
begin

text \<open>
  The file allocation table: \<open>__FAT_read\<close> and \<open>__FAT_write\<close> of \<open>exfat_cache.c\<close> for the four table formats, and their
  specification.  The specification sees the table as a memory of bytes \<open>fat_mem s\<close>, entry by entry: \<open>rd12\<close>, \<open>wr12\<close>
  and so on read and write one entry of it.  The locale \<open>entry_format\<close> states what a format promises (a written entry
  reads back, no other entry changes); the refinement lemmas say that \<open>FAT_read\<close> and \<open>FAT_write\<close>, with their cache
  lookups and sector arithmetic, implement these functions.

  \<open>FAT_read\<close> returns \<open>None\<close> for the code's \<open>-1\<close> and \<open>Some\<close> the entry for its \<open>0\<close>; \<open>FAT_write\<close> returns the code's result.
\<close>

section \<open>\<open>__FAT_read\<close> and \<open>__FAT_write\<close>\<close>

definition fat12_off :: "sb \<Rightarrow> u32 \<Rightarrow> nat" where
  "fat12_off s loc = unat ((loc + drop_bit 1 loc) AND of_s32 (sector_size_mask s))"

definition FAT_read :: "sb \<Rightarrow> u32 \<Rightarrow> sb \<times> u32 option" where
  "FAT_read s loc =
     (case vol_type s of
        FAT12 \<Rightarrow>
          (let sec = FAT1_start_sector s + drop_bit (sector_size_bits s) (loc + drop_bit 1 loc);
               off = fat12_off s loc;
               finish = (\<lambda>s content.
                 let c1 = (if loc AND 1 \<noteq> 0 then drop_bit 4 content else content);
                     c2 = c1 AND 0xFFF
                 in (s, Some (if c2 \<ge> 0xFF8 then CLUSTER_EOF else c2)))
           in if int off = sector_size s - 1
              then (case FAT_getblk s sec of
                      (s1, None) \<Rightarrow> (s1, None)
                    | (s1, Some b) \<Rightarrow>
                        let content = ucast (blk s1 b ! off) :: u32
                        in case FAT_getblk s1 (sec + 1) of
                             (s2, None) \<Rightarrow> (s2, None)
                           | (s2, Some b2) \<Rightarrow> finish s2 (content OR push_bit 8 (ucast (blk s2 b2 ! 0))))
              else (case FAT_getblk s sec of
                      (s1, None) \<Rightarrow> (s1, None)
                    | (s1, Some b) \<Rightarrow> finish s1 (ucast (GET16 (blk s1 b) off))))
      | FAT16 \<Rightarrow>
          (let sec = FAT1_start_sector s + drop_bit (sector_size_bits s - 1) loc;
               off = unat (push_bit 1 loc AND of_s32 (sector_size_mask s))
           in case FAT_getblk s sec of
                (s1, None) \<Rightarrow> (s1, None)
              | (s1, Some b) \<Rightarrow>
                  let content = ucast (GET16 (blk s1 b) off) AND 0xFFFF :: u32
                  in (s1, Some (if content \<ge> 0xFFF8 then CLUSTER_EOF else content)))
      | FAT32 \<Rightarrow>
          (let sec = FAT1_start_sector s + drop_bit (sector_size_bits s - 2) loc;
               off = unat (push_bit 2 loc AND of_s32 (sector_size_mask s))
           in case FAT_getblk s sec of
                (s1, None) \<Rightarrow> (s1, None)
              | (s1, Some b) \<Rightarrow>
                  let content = GET32 (blk s1 b) off AND 0x0FFFFFFF
                  in (s1, Some (if content \<ge> 0x0FFFFFF8 then CLUSTER_EOF else content)))
      | EXFAT \<Rightarrow>
          (let sec = FAT1_start_sector s + drop_bit (sector_size_bits s - 2) loc;
               off = unat (push_bit 2 loc AND of_s32 (sector_size_mask s))
           in case FAT_getblk s sec of
                (s1, None) \<Rightarrow> (s1, None)
              | (s1, Some b) \<Rightarrow>
                  let content = GET32 (blk s1 b) off
                  in (s1, Some (if content \<ge> 0xFFFFFFF8 then CLUSTER_EOF else content))))"

text \<open>
  The pointer the code writes through is the block \<open>b\<close> that \<open>FAT_getblk\<close> returned.  In the even case of FAT12 the code
  does not test the second \<open>FAT_getblk\<close> for \<open>NULL\<close>; the \<open>NULL\<close> access stops the kernel, which is \<open>panicked\<close> here.
\<close>

definition put_block :: "sb \<Rightarrow> u32 \<Rightarrow> u8 list \<Rightarrow> sb" where
  "put_block s b d = s\<lparr>blk := (blk s)(b := d)\<rparr>"

definition FAT_write :: "sb \<Rightarrow> u32 \<Rightarrow> u32 \<Rightarrow> sb \<times> int" where
  "FAT_write s loc content =
     (case vol_type s of
        FAT12 \<Rightarrow>
          (let c = content AND 0xFFF;
               sec = FAT1_start_sector s + drop_bit (sector_size_bits s) (loc + drop_bit 1 loc);
               off = fat12_off s loc
           in case FAT_getblk s sec of
                (s1, None) \<Rightarrow> (s1, -1)
              | (s1, Some b) \<Rightarrow>
                  if loc AND 1 \<noteq> 0 then
                    (let c4 = push_bit 4 c
                     in if int off = sector_size s - 1 then
                          (let s2 = put_block s1 b ((blk s1 b)[off := ucast (c4 OR (ucast (blk s1 b ! off) AND 0x0F))]);
                               s3 = FAT_modify s2 sec
                           in case FAT_getblk s3 (sec + 1) of
                                (s4, None) \<Rightarrow> (s4, -1)
                              | (s4, Some b2) \<Rightarrow>
                                  (FAT_modify (put_block s4 b2 ((blk s4 b2)[0 := ucast (drop_bit 8 c4)])) (sec + 1), 0))
                        else
                          (let c5 = c4 OR (ucast (GET16 (blk s1 b) off) AND 0x000F)
                           in (FAT_modify (put_block s1 b (SET16 (blk s1 b) off (ucast c5))) sec, 0)))
                  else
                    (let s2 = put_block s1 b ((blk s1 b)[off := ucast c])
                     in if int off = sector_size s - 1 then
                          (let s3 = FAT_modify (put_block s2 b ((blk s2 b)[off := ucast c])) sec
                           in case FAT_getblk s3 (sec + 1) of
                                (s4, None) \<Rightarrow> (s4\<lparr>panicked := True\<rparr>, -1)
                              | (s4, Some b2) \<Rightarrow>
                                  (FAT_modify (put_block s4 b2
                                     ((blk s4 b2)[0 := ucast ((ucast (blk s4 b2 ! 0) AND 0xF0) OR drop_bit 8 c)])) (sec + 1), 0))
                        else
                          (let c5 = c OR (ucast (GET16 (blk s2 b) off) AND 0xF000)
                           in (FAT_modify (put_block s2 b (SET16 (blk s2 b) off (ucast c5))) sec, 0))))
      | FAT16 \<Rightarrow>
          (let c = content AND 0xFFFF;
               sec = FAT1_start_sector s + drop_bit (sector_size_bits s - 1) loc;
               off = unat (push_bit 1 loc AND of_s32 (sector_size_mask s))
           in case FAT_getblk s sec of
                (s1, None) \<Rightarrow> (s1, -1)
              | (s1, Some b) \<Rightarrow> (FAT_modify (put_block s1 b (SET16 (blk s1 b) off (ucast c))) sec, 0))
      | FAT32 \<Rightarrow>
          (let c = content AND 0x0FFFFFFF;
               sec = FAT1_start_sector s + drop_bit (sector_size_bits s - 2) loc;
               off = unat (push_bit 2 loc AND of_s32 (sector_size_mask s))
           in case FAT_getblk s sec of
                (s1, None) \<Rightarrow> (s1, -1)
              | (s1, Some b) \<Rightarrow>
                  let c1 = c OR (GET32 (blk s1 b) off AND 0xF0000000)
                  in (FAT_modify (put_block s1 b (SET32 (blk s1 b) off c1)) sec, 0))
      | EXFAT \<Rightarrow>
          (let sec = FAT1_start_sector s + drop_bit (sector_size_bits s - 2) loc;
               off = unat (push_bit 2 loc AND of_s32 (sector_size_mask s))
           in case FAT_getblk s sec of
                (s1, None) \<Rightarrow> (s1, -1)
              | (s1, Some b) \<Rightarrow> (FAT_modify (put_block s1 b (SET32 (blk s1 b) off content)) sec, 0)))"

section \<open>The table as bytes\<close>

definition mem16 :: "(nat \<Rightarrow> u8) \<Rightarrow> nat \<Rightarrow> u16" where
  "mem16 m p = GET16 [m p, m (p + 1)] 0"

definition mem32 :: "(nat \<Rightarrow> u8) \<Rightarrow> nat \<Rightarrow> u32" where
  "mem32 m p = GET32 [m p, m (p + 1), m (p + 2), m (p + 3)] 0"

definition upd16 :: "(nat \<Rightarrow> u8) \<Rightarrow> nat \<Rightarrow> u16 \<Rightarrow> nat \<Rightarrow> u8" where
  "upd16 m p v = m(p := ucast v, p + 1 := ucast (drop_bit 8 v))"

definition upd32 :: "(nat \<Rightarrow> u8) \<Rightarrow> nat \<Rightarrow> u32 \<Rightarrow> nat \<Rightarrow> u8" where
  "upd32 m p v = m(p := ucast v, p + 1 := ucast (drop_bit 8 v), p + 2 := ucast (drop_bit 16 v), p + 3 := ucast (drop_bit 24 v))"

lemma mem16_upd16 [simp]: "mem16 (upd16 m p v) p = v"
  by (simp add: mem16_def upd16_def GET16_def decompose16)

lemma mem32_upd32 [simp]: "mem32 (upd32 m p v) p = v"
  by (simp add: mem32_def upd32_def GET32_def decompose32)

lemma mem16_cong: "m p = m' p \<Longrightarrow> m (p + 1) = m' (p + 1) \<Longrightarrow> mem16 m p = mem16 m' p"
  by (simp add: mem16_def)

lemma mem32_cong:
  assumes "\<And>k. k < 4 \<Longrightarrow> m (p + k) = m' (p + k)"
  shows "mem32 m p = mem32 m' p"
  using assms [of 0] assms [of 1] assms [of 2] assms [of 3] by (simp add: mem32_def)

lemma upd16_other: "q \<noteq> p \<Longrightarrow> q \<noteq> p + 1 \<Longrightarrow> upd16 m p v q = m q"
  by (simp add: upd16_def)

lemma upd32_other: "q < p \<or> p + 4 \<le> q \<Longrightarrow> upd32 m p v q = m q"
  by (auto simp: upd32_def)

lemma bit_mem16: "bit (mem16 m p) n \<longleftrightarrow> (if n < 8 then bit (m p) n else n < 16 \<and> bit (m (p + 1)) (n - 8))"
  by (auto simp: mem16_def GET16_def bit_or_iff bit_push_bit_iff bit_ucast_iff dest: bit_imp_le_length)

lemma bit_upd16_lo: "bit (upd16 m p v p) n \<longleftrightarrow> n < 8 \<and> bit v n"
  by (auto simp: upd16_def bit_ucast_iff)

lemma bit_upd16_hi: "bit (upd16 m p v (p + 1)) n \<longleftrightarrow> n < 8 \<and> bit v (n + 8)"
  by (auto simp: upd16_def bit_ucast_iff bit_drop_bit_eq ac_simps)

section \<open>The entry formats\<close>

text \<open>
  \<open>raw m l\<close> reads entry \<open>l\<close> from the bytes \<open>m\<close>, \<open>store m l v\<close> writes it, \<open>msk\<close> are the bits an entry has, \<open>span l\<close>
  the bytes it touches.
\<close>

locale entry_format =
  fixes raw :: "(nat \<Rightarrow> u8) \<Rightarrow> nat \<Rightarrow> u32" and store :: "(nat \<Rightarrow> u8) \<Rightarrow> nat \<Rightarrow> u32 \<Rightarrow> nat \<Rightarrow> u8"
    and msk :: u32 and span :: "nat \<Rightarrow> nat set"
  assumes raw_store: "raw (store m l v) l = v AND msk"
    and raw_other: "l \<noteq> l' \<Longrightarrow> raw (store m l v) l' = raw m l'"
    and store_frame: "p \<notin> span l \<Longrightarrow> store m l v p = m p"
    and raw_cong: "(\<And>p. p \<in> span l \<Longrightarrow> m p = m' p) \<Longrightarrow> raw m l = raw m' l"
begin

lemma raw_store_if: "raw (store m l v) l' = (if l' = l then v AND msk else raw m l')"
  by (simp add: raw_store raw_other)

lemma store_last: "raw (store (store m l v) l w) l' = raw (store m l w) l'"
  by (simp add: raw_store_if)

lemma store_commute: "l \<noteq> k \<Longrightarrow> raw (store (store m l v) k w) l' = raw (store (store m k w) l v) l'"
  by (simp add: raw_store_if)

lemma raw_fold_stores:
  "distinct (map fst us) \<Longrightarrow> (l, v) \<in> set us \<Longrightarrow> raw (fold (\<lambda>(l, v) m. store m l v) us m) l = v AND msk"
proof (induction us arbitrary: m)
  case (Cons u us)
  have skip: "l \<notin> fst ` set us \<Longrightarrow> raw (fold (\<lambda>(l, v) m. store m l v) us m) l = raw m l" for m
    by (induction us arbitrary: m) (auto simp: raw_store_if)
  show ?case
  proof (cases "u = (l, v)")
    case True
    then have "l \<notin> fst ` set us" using Cons.prems by auto
    then show ?thesis using True by (simp add: skip raw_store)
  next
    case False
    then show ?thesis using Cons by (cases u) auto
  qed
qed simp

end

definition raw12 :: "(nat \<Rightarrow> u8) \<Rightarrow> nat \<Rightarrow> u32" where
  "raw12 m l = (if odd l then drop_bit 4 (ucast (mem16 m (l + l div 2))) else ucast (mem16 m (l + l div 2))) AND 0xFFF"

definition store12 :: "(nat \<Rightarrow> u8) \<Rightarrow> nat \<Rightarrow> u32 \<Rightarrow> nat \<Rightarrow> u8" where
  "store12 m l v =
     (let p = l + l div 2; w = ucast (v AND 0xFFF)
      in upd16 m p (if odd l then push_bit 4 w OR (mem16 m p AND 0xF) else w OR (mem16 m p AND 0xF000)))"

definition raw16 :: "(nat \<Rightarrow> u8) \<Rightarrow> nat \<Rightarrow> u32" where
  "raw16 m l = ucast (mem16 m (2 * l))"

definition store16 :: "(nat \<Rightarrow> u8) \<Rightarrow> nat \<Rightarrow> u32 \<Rightarrow> nat \<Rightarrow> u8" where
  "store16 m l v = upd16 m (2 * l) (ucast v)"

definition raw32 :: "(nat \<Rightarrow> u8) \<Rightarrow> nat \<Rightarrow> u32" where
  "raw32 m l = mem32 m (4 * l) AND 0x0FFFFFFF"

definition store32 :: "(nat \<Rightarrow> u8) \<Rightarrow> nat \<Rightarrow> u32 \<Rightarrow> nat \<Rightarrow> u8" where
  "store32 m l v = upd32 m (4 * l) ((v AND 0x0FFFFFFF) OR (mem32 m (4 * l) AND 0xF0000000))"

definition rawex :: "(nat \<Rightarrow> u8) \<Rightarrow> nat \<Rightarrow> u32" where
  "rawex m l = mem32 m (4 * l)"

definition storeex :: "(nat \<Rightarrow> u8) \<Rightarrow> nat \<Rightarrow> u32 \<Rightarrow> nat \<Rightarrow> u8" where
  "storeex m l v = upd32 m (4 * l) v"

lemma mask12: "(0xFFF :: 'a::len word) = mask 12" and mask28: "(0x0FFFFFFF :: u32) = mask 28" and mask4: "(0xF :: 'a::len word) = mask 4"
  by (simp_all add: mask_numeral)

lemma bit_F000: "bit (0xF000 :: u16) n \<longleftrightarrow> 12 \<le> n \<and> n < 16"
proof -
  have "(0xF000 :: u16) = push_bit 12 (mask 4)" by (simp add: mask_numeral)
  then have "bit (0xF000 :: u16) n \<longleftrightarrow> bit (push_bit 12 (mask 4) :: u16) n" by metis
  also have "\<dots> \<longleftrightarrow> 12 \<le> n \<and> n < 16" unfolding bit_push_bit_iff bit_mask_iff by auto
  finally show ?thesis .
qed

lemma bit_F0000000: "bit (0xF0000000 :: u32) n \<longleftrightarrow> 28 \<le> n \<and> n < 32"
proof -
  have "(0xF0000000 :: u32) = push_bit 28 (mask 4)" by (simp add: mask_numeral)
  then have "bit (0xF0000000 :: u32) n \<longleftrightarrow> bit (push_bit 28 (mask 4) :: u32) n" by metis
  also have "\<dots> \<longleftrightarrow> 28 \<le> n \<and> n < 32" unfolding bit_push_bit_iff bit_mask_iff by auto
  finally show ?thesis .
qed

lemma bit_raw12: "bit (raw12 m l) n \<longleftrightarrow> n < 12 \<and> bit (mem16 m (l + l div 2)) (if odd l then n + 4 else n)"
  unfolding raw12_def mask12 by (auto simp: bit_and_iff bit_mask_iff bit_drop_bit_eq bit_ucast_iff ac_simps)

lemma bit_odd12:
  "bit (push_bit 4 (ucast (v AND 0xFFF :: u32)) OR (w AND 0xF) :: u16) n \<longleftrightarrow> n < 16 \<and> (if n < 4 then bit w n else bit v (n - 4))"
  unfolding mask12 mask4 bit_or_iff bit_and_iff bit_push_bit_iff bit_mask_iff bit_ucast_iff
  by (auto dest: bit_imp_le_length)

lemma bit_even12:
  "bit (ucast (v AND 0xFFF :: u32) OR (w AND 0xF000) :: u16) n \<longleftrightarrow> n < 16 \<and> (if n < 12 then bit v n else bit w n)"
  unfolding mask12 bit_or_iff bit_and_iff bit_mask_iff bit_ucast_iff bit_F000
  by (auto dest: bit_imp_le_length)

lemma store12_bits:
  "\<exists>w. store12 m l v = upd16 m (l + l div 2) w \<and>
    (\<forall>n. odd l \<longrightarrow> bit w n = (n < 16 \<and> (if n < 4 then bit (mem16 m (l + l div 2)) n else bit v (n - 4)))) \<and>
    (\<forall>n. even l \<longrightarrow> bit w n = (n < 16 \<and> (if n < 12 then bit v n else bit (mem16 m (l + l div 2)) n)))"
proof -
  let ?o = "push_bit 4 (ucast (v AND 0xFFF)) OR (mem16 m (l + l div 2) AND 0xF)"
  let ?e = "ucast (v AND 0xFFF) OR (mem16 m (l + l div 2) AND 0xF000)"
  have "store12 m l v = upd16 m (l + l div 2) (if odd l then ?o else ?e)" by (simp add: store12_def Let_def)
  moreover have "bit (if odd l then ?o else ?e) n \<longleftrightarrow> n < 16 \<and> (if n < 4 then bit (mem16 m (l + l div 2)) n else bit v (n - 4))"
    if "odd l" for n
    unfolding if_P [OF that] by (rule bit_odd12)
  moreover have "bit (if odd l then ?o else ?e) n \<longleftrightarrow> n < 16 \<and> (if n < 12 then bit v n else bit (mem16 m (l + l div 2)) n)"
    if "even l" for n
  proof -
    have e: "(if odd l then ?o else ?e) = ?e" using that by simp
    show ?thesis unfolding e by (rule bit_even12)
  qed
  ultimately show ?thesis by blast
qed

lemma raw12_store12: "raw12 (store12 m l v) l = v AND 0xFFF"
proof (rule bit_word_eqI)
  fix n assume n: "n < LENGTH(32)"
  obtain w where w: "store12 m l v = upd16 m (l + l div 2) w"
    "\<And>n. odd l \<Longrightarrow> bit w n \<longleftrightarrow> n < 16 \<and> (if n < 4 then bit (mem16 m (l + l div 2)) n else bit v (n - 4))"
    "\<And>n. even l \<Longrightarrow> bit w n \<longleftrightarrow> n < 16 \<and> (if n < 12 then bit v n else bit (mem16 m (l + l div 2)) n)"
    using store12_bits [of m l v] by blast
  have "bit (v AND 0xFFF) n \<longleftrightarrow> n < 12 \<and> bit v n"
    unfolding mask12 bit_and_iff bit_mask_iff by auto
  then show "bit (raw12 (store12 m l v) l) n = bit (v AND 0xFFF) n"
    unfolding bit_raw12 w(1) mem16_upd16 by (cases "odd l") (simp_all add: w(2,3))
qed

lemma spans12:
  fixes l l' :: nat
  assumes "l \<noteq> l'"
  shows "(l' + l' div 2 + 1 < l + l div 2 \<or> l + l div 2 + 1 < l' + l' div 2) \<or>
    (l' + l' div 2 + 1 = l + l div 2 \<and> even l' \<and> odd l) \<or> (l + l div 2 + 1 = l' + l' div 2 \<and> odd l' \<and> even l)"
proof -
  have v: "\<exists>a. x + x div 2 = 3 * a \<and> x = 2 * a" if "even x" for x :: nat
    using that by (auto elim!: evenE)
  have o: "\<exists>a. x + x div 2 = 3 * a + 1 \<and> x = 2 * a + 1" if "odd x" for x :: nat
    using that by (auto elim!: oddE)
  obtain a where a: "even l \<and> l + l div 2 = 3 * a \<and> l = 2 * a \<or> odd l \<and> l + l div 2 = 3 * a + 1 \<and> l = 2 * a + 1"
    using v [of l] o [of l] by blast
  obtain b where b: "even l' \<and> l' + l' div 2 = 3 * b \<and> l' = 2 * b \<or> odd l' \<and> l' + l' div 2 = 3 * b + 1 \<and> l' = 2 * b + 1"
    using v [of l'] o [of l'] by blast
  consider "a < b" | "b < a" | "a = b" by linarith
  then show ?thesis
  proof cases
    case 3
    then show ?thesis using a b assms by (elim disjE conjE) linarith+
  qed (use a b in linarith)+
qed

lemma raw12_other:
  assumes "l \<noteq> l'"
  shows "raw12 (store12 m l v) l' = raw12 m l'"
proof (rule bit_word_eqI)
  fix n assume n: "n < LENGTH(32)"
  define p where "p = l + l div 2"
  define q where "q = l' + l' div 2"
  obtain w where w: "store12 m l v = upd16 m p w"
    "\<And>n. odd l \<Longrightarrow> bit w n \<longleftrightarrow> n < 16 \<and> (if n < 4 then bit (mem16 m p) n else bit v (n - 4))"
    "\<And>n. even l \<Longrightarrow> bit w n \<longleftrightarrow> n < 16 \<and> (if n < 12 then bit v n else bit (mem16 m p) n)"
    using store12_bits [of m l v] unfolding p_def by blast
  have far: "mem16 (upd16 m p w) q = mem16 m q" if "q + 1 < p \<or> p + 1 < q"
    using that by (intro mem16_cong) (auto simp: upd16_other)
  have lo: "bit (mem16 (upd16 m p w) q) n = bit (mem16 m q) n" if "q + 1 = p" "odd l" "n < 12" for n
  proof -
    have "upd16 m p w q = m q" using that by (intro upd16_other) auto
    moreover have "bit (upd16 m p w (q + 1)) (n - 8) = (n - 8 < 8 \<and> bit w (n - 8))"
      using bit_upd16_lo [of m p w] that(1) by simp
    moreover have "n - 8 < 4" using that(3) by arith
    ultimately show ?thesis
      using that by (cases "n < 8") (simp_all add: bit_mem16 w(2))
  qed
  have hi: "bit (mem16 (upd16 m p w) q) n = bit (mem16 m q) n" if "p + 1 = q" "even l" "4 \<le> n" "n < 16" for n
  proof -
    have "upd16 m p w (q + 1) = m (q + 1)" using that by (intro upd16_other) auto
    moreover have "bit (upd16 m p w q) n = (n < 8 \<and> bit w (n + 8))"
      using bit_upd16_hi [of m p w] that(1) by simp
    ultimately show ?thesis
      using that by (cases "n < 8") (simp_all add: bit_mem16 w(3))
  qed
  consider "q + 1 < p \<or> p + 1 < q" | "q + 1 = p" "even l'" "odd l" | "p + 1 = q" "odd l'" "even l"
    using spans12 [OF assms] unfolding p_def q_def by blast
  then have "bit (mem16 (upd16 m p w) q) (if odd l' then n + 4 else n) = bit (mem16 m q) (if odd l' then n + 4 else n)"
    if "n < 12"
  proof cases
    case 1
    then show ?thesis by (simp add: far)
  next
    case 2
    then show ?thesis using lo [of n] that by simp
  next
    case 3
    then show ?thesis using hi [of "n + 4"] that by simp
  qed
  then show "bit (raw12 (store12 m l v) l') n = bit (raw12 m l') n"
    unfolding bit_raw12 w(1) q_def by blast
qed

lemma bytes_disjoint2: "l \<noteq> l' \<Longrightarrow> 2 * l' + k \<noteq> 2 * l + j" if "k < 2" "j < 2" for l l' k j :: nat
  using that by presburger

lemma bytes_disjoint4: "l \<noteq> l' \<Longrightarrow> 4 * l' + k < 4 * l \<or> 4 * l + 4 \<le> 4 * l' + k" if "k < 4" for l l' k :: nat
  using that by presburger

interpretation f12: entry_format raw12 store12 "0xFFF" "\<lambda>l. {l + l div 2, l + l div 2 + 1}"
proof unfold_locales
  fix m l v l' p and m' :: "nat \<Rightarrow> u8"
  show "raw12 (store12 m l v) l = v AND 0xFFF" by (rule raw12_store12)
  show "l \<noteq> l' \<Longrightarrow> raw12 (store12 m l v) l' = raw12 m l'" by (rule raw12_other)
  show "p \<notin> {l + l div 2, l + l div 2 + 1} \<Longrightarrow> store12 m l v p = m p" by (simp add: store12_def Let_def upd16_other)
  assume "\<And>p. p \<in> {l + l div 2, l + l div 2 + 1} \<Longrightarrow> m p = m' p"
  then have "mem16 m (l + l div 2) = mem16 m' (l + l div 2)" by (intro mem16_cong) auto
  then show "raw12 m l = raw12 m' l" by (simp add: raw12_def)
qed

interpretation f16: entry_format raw16 store16 "0xFFFF" "\<lambda>l. {2 * l, 2 * l + 1}"
proof unfold_locales
  fix m l v l' p and m' :: "nat \<Rightarrow> u8"
  have "ucast (ucast v :: u16) = v AND mask 16" for v :: u32
    by (rule bit_word_eqI) (auto simp: bit_ucast_iff bit_and_iff bit_mask_iff)
  then show "raw16 (store16 m l v) l = v AND 0xFFFF"
    unfolding raw16_def store16_def mem16_upd16 by (simp add: mask_numeral)
  show "raw16 (store16 m l v) l' = raw16 m l'" if "l \<noteq> l'"
  proof -
    have "mem16 (upd16 m (2 * l) (ucast v)) (2 * l') = mem16 m (2 * l')"
      using bytes_disjoint2 [of 0 0 l l'] bytes_disjoint2 [of 0 1 l l'] bytes_disjoint2 [of 1 0 l l'] bytes_disjoint2 [of 1 1 l l'] that
      by (intro mem16_cong upd16_other) auto
    then show ?thesis by (simp add: raw16_def store16_def)
  qed
  show "p \<notin> {2 * l, 2 * l + 1} \<Longrightarrow> store16 m l v p = m p" by (simp add: store16_def upd16_other)
  assume "\<And>p. p \<in> {2 * l, 2 * l + 1} \<Longrightarrow> m p = m' p"
  then have "mem16 m (2 * l) = mem16 m' (2 * l)" by (intro mem16_cong) auto
  then show "raw16 m l = raw16 m' l" by (simp add: raw16_def)
qed

lemma mem32_other: "l \<noteq> l' \<Longrightarrow> mem32 (upd32 m (4 * l) v) (4 * l') = mem32 m (4 * l')"
  using bytes_disjoint4 by (intro mem32_cong upd32_other) blast

lemma mem32_span: "(\<And>p. p \<in> {4 * l..<4 * l + 4} \<Longrightarrow> m p = m' p) \<Longrightarrow> mem32 m (4 * l) = mem32 m' (4 * l)"
  by (intro mem32_cong) auto

interpretation f32: entry_format raw32 store32 "0x0FFFFFFF" "\<lambda>l. {4 * l..<4 * l + 4}"
proof unfold_locales
  fix m l v l' p and m' :: "nat \<Rightarrow> u8"
  show "raw32 (store32 m l v) l = v AND 0x0FFFFFFF"
  proof (rule bit_word_eqI)
    fix n assume "n < LENGTH(32)"
    show "bit (raw32 (store32 m l v) l) n = bit (v AND 0x0FFFFFFF) n"
      unfolding raw32_def store32_def mem32_upd32 mask28 bit_and_iff bit_or_iff bit_mask_iff bit_F0000000 by auto
  qed
  show "l \<noteq> l' \<Longrightarrow> raw32 (store32 m l v) l' = raw32 m l'" by (simp add: raw32_def store32_def mem32_other)
  show "p \<notin> {4 * l..<4 * l + 4} \<Longrightarrow> store32 m l v p = m p" by (auto simp: store32_def upd32_other)
  assume "\<And>p. p \<in> {4 * l..<4 * l + 4} \<Longrightarrow> m p = m' p"
  then show "raw32 m l = raw32 m' l" using mem32_span [of l m m'] by (simp add: raw32_def)
qed

interpretation fex: entry_format rawex storeex "-1" "\<lambda>l. {4 * l..<4 * l + 4}"
proof unfold_locales
  fix m l v l' p and m' :: "nat \<Rightarrow> u8"
  show "rawex (storeex m l v) l = v AND -1" by (simp add: rawex_def storeex_def)
  show "l \<noteq> l' \<Longrightarrow> rawex (storeex m l v) l' = rawex m l'" by (simp add: rawex_def storeex_def mem32_other)
  show "p \<notin> {4 * l..<4 * l + 4} \<Longrightarrow> storeex m l v p = m p" by (auto simp: storeex_def upd32_other)
  assume "\<And>p. p \<in> {4 * l..<4 * l + 4} \<Longrightarrow> m p = m' p"
  then show "rawex m l = rawex m' l" using mem32_span [of l m m'] by (simp add: rawex_def)
qed

end
