(* ===== verification/FatImpl.thy ===== *)
theory FatImpl
  imports FatTable
begin

text \<open>
  \<open>FAT_read\<close> and \<open>FAT_write\<close> implement the entry formats: on a volume whose device works and whose table lies on the
  device, a read returns the entry of the byte memory \<open>fat_mem\<close> and a write changes that memory by the format's
  \<open>store\<close>, and nothing but the blocks of the entry.
\<close>

section \<open>The formats by volume type\<close>

definition fat_raw :: "vol_kind \<Rightarrow> (nat \<Rightarrow> u8) \<Rightarrow> nat \<Rightarrow> u32" where
  "fat_raw k = (case k of FAT12 \<Rightarrow> raw12 | FAT16 \<Rightarrow> raw16 | FAT32 \<Rightarrow> raw32 | EXFAT \<Rightarrow> rawex)"

definition fat_store :: "vol_kind \<Rightarrow> (nat \<Rightarrow> u8) \<Rightarrow> nat \<Rightarrow> u32 \<Rightarrow> nat \<Rightarrow> u8" where
  "fat_store k = (case k of FAT12 \<Rightarrow> store12 | FAT16 \<Rightarrow> store16 | FAT32 \<Rightarrow> store32 | EXFAT \<Rightarrow> storeex)"

definition fat_mask :: "vol_kind \<Rightarrow> u32" where
  "fat_mask k = (case k of FAT12 \<Rightarrow> 0xFFF | FAT16 \<Rightarrow> 0xFFFF | FAT32 \<Rightarrow> 0x0FFFFFFF | EXFAT \<Rightarrow> -1)"

definition fat_limit :: "vol_kind \<Rightarrow> u32" where
  "fat_limit k = (case k of FAT12 \<Rightarrow> 0xFF8 | FAT16 \<Rightarrow> 0xFFF8 | FAT32 \<Rightarrow> 0x0FFFFFF8 | EXFAT \<Rightarrow> 0xFFFFFFF8)"

definition fat_span :: "vol_kind \<Rightarrow> nat \<Rightarrow> nat set" where
  "fat_span k l = (case k of FAT12 \<Rightarrow> {l + l div 2, l + l div 2 + 1} | FAT16 \<Rightarrow> {2 * l, 2 * l + 1}
     | FAT32 \<Rightarrow> {4 * l..<4 * l + 4} | EXFAT \<Rightarrow> {4 * l..<4 * l + 4})"

definition fat_val :: "vol_kind \<Rightarrow> u32 \<Rightarrow> u32" where
  "fat_val k x = (if x \<ge> fat_limit k then CLUSTER_EOF else x)"

interpretation fat: entry_format "fat_raw k" "fat_store k" "fat_mask k" "fat_span k" for k
proof -
  show "entry_format (fat_raw k) (fat_store k) (fat_mask k) (fat_span k)"
    using f12.entry_format_axioms f16.entry_format_axioms f32.entry_format_axioms fex.entry_format_axioms
    by (cases k) (simp_all add: fat_raw_def fat_store_def fat_mask_def fat_span_def [abs_def])
qed

section \<open>Geometry\<close>

definition geom :: "sb \<Rightarrow> bool" where
  "geom s \<longleftrightarrow> 9 \<le> sector_size_bits s \<and> sector_size_bits s \<le> 12 \<and> sector_size s = 2 ^ sector_size_bits s \<and>
     sector_size_mask s = 2 ^ sector_size_bits s - 1 \<and> (\<forall>b. length (blk s b) = 2 ^ sector_size_bits s)"

definition fat_sector :: "sb \<Rightarrow> nat \<Rightarrow> u32" where
  "fat_sector s p = FAT1_start_sector s + of_nat (p div 2 ^ sector_size_bits s)"

definition fat_mem :: "sb \<Rightarrow> nat \<Rightarrow> u8" where
  "fat_mem s p = (if p < 2 ^ 36 then blk s (fat_sector s p) ! (p mod 2 ^ sector_size_bits s) else 0)"

definition fat_get :: "sb \<Rightarrow> u32 \<Rightarrow> u32" where
  "fat_get s loc = fat_val (vol_type s) (fat_raw (vol_type s) (fat_mem s) (unat loc))"

definition fat_ready :: "sb \<Rightarrow> bool" where
  "fat_ready s \<longleftrightarrow> FATc.inv s \<and> io_ready s \<and> geom s"

definition fat_ok :: "sb \<Rightarrow> bool" where
  "fat_ok s \<longleftrightarrow> fat_ready s \<and> unat (num_clusters s) \<le> 2 ^ 30 \<and>
     (\<forall>l < unat (num_clusters s). \<forall>p \<in> fat_span (vol_type s) l. \<not> out_of_range s (fat_sector s p))"

definition fat_frame :: "sb \<Rightarrow> sb \<Rightarrow> bool" where
  "fat_frame s s' \<longleftrightarrow> s' = s\<lparr>blk := blk s', dirty := dirty s', FAT_cache := FAT_cache s', io_clock := io_clock s'\<rparr>"

lemma fat_frame_refl [simp]: "fat_frame s s"
  by (simp add: fat_frame_def)

lemma fat_frame_trans [trans]: "fat_frame s t \<Longrightarrow> fat_frame t u \<Longrightarrow> fat_frame s u"
  unfolding fat_frame_def by (cases s; cases t; cases u) simp

lemma fat_frame_fields:
  assumes "fat_frame s s'"
  shows "disk s' = disk s" "vol_type s' = vol_type s" "drv s' = drv s" "the_buf_cache s' = the_buf_cache s"
    "sector_size s' = sector_size s" "sector_size_bits s' = sector_size_bits s" "sector_size_mask s' = sector_size_mask s"
    "FAT1_start_sector s' = FAT1_start_sector s" "sectors_per_clu_bits s' = sectors_per_clu_bits s"
    "sectors_per_clu s' = sectors_per_clu s" "data_start_sector s' = data_start_sector s"
    "num_clusters s' = num_clusters s" "num_sectors s' = num_sectors s" "PBR_sector s' = PBR_sector s"
    "io_ok s' = io_ok s" "opened s' = opened s" "debug_flags s' = debug_flags s" "vol_amap s' = vol_amap s"
    "map_clu s' = map_clu s" "map_sectors s' = map_sectors s" "dev_ejected s' = dev_ejected s"
    "used_clusters s' = used_clusters s" "clu_srch_ptr s' = clu_srch_ptr s" "s_dirt s' = s_dirt s"
    "root_dir s' = root_dir s"
  by (subst assms [unfolded fat_frame_def], simp)+

lemma fat_frame_derived:
  assumes "fat_frame s s'"
  shows "out_of_range s' = out_of_range s" "FAT_hash s' = FAT_hash s" "buf_hash s' = buf_hash s"
    "START_SECTOR s' = START_SECTOR s" "debug_error_rw s' = debug_error_rw s" "fat_sector s' = fat_sector s"
    "io_ready s' = io_ready s" "bufc.inv s' = bufc.inv s" "bufc.clean s' = bufc.clean s"
    "free_entries s' = free_entries s" "bufc.holds s' = bufc.holds s"
proof -
  note f = fat_frame_fields [OF assms]
  show "out_of_range s' = out_of_range s" "FAT_hash s' = FAT_hash s" and h: "buf_hash s' = buf_hash s"
    and "START_SECTOR s' = START_SECTOR s" "debug_error_rw s' = debug_error_rw s" "fat_sector s' = fat_sector s"
    by (simp_all add: fun_eq_iff out_of_range_def FAT_hash_def buf_hash_def START_SECTOR_def debug_error_rw_def fat_sector_def f)
  show "io_ready s' = io_ready s" "bufc.inv s' = bufc.inv s" "bufc.clean s' = bufc.clean s"
    "free_entries s' = free_entries s" "bufc.holds s' = bufc.holds s"
    by (simp_all add: fun_eq_iff io_ready_def bufc.inv_def bufc.clean_def free_entries_def bufc.holds_def debug_error_rw_def f h)
qed

lemma fat_frame_put: "fat_frame s (put_block s b d)" "fat_frame s (mark_buffer_dirty s b)"
  by (simp_all add: fat_frame_def put_block_def mark_buffer_dirty_def)

lemma FAT_getblk_buf: "the_buf_cache (fst (FAT_getblk s n)) = the_buf_cache s"
  using sector_read_frame(3)
  by (auto simp: FAT_getblk_eq Let_def split: option.split prod.split) (metis+)?

lemma getblk_ready:
  assumes "fat_ready s" "\<not> out_of_range s sec"
  obtains s1 where "FAT_getblk s sec = (s1, Some sec)" "fat_ready s1" "FATc.holds s1 sec" "fat_frame s s1"
    "blk s1 = blk s" "dirty s1 = dirty s" "vol_eq s s1"
proof -
  have r: "FATc.inv s" "io_ready s" "geom s" using assms(1) by (simp_all add: fat_ready_def)
  obtain s1 where s1: "FAT_getblk s sec = (s1, Some sec)" "FATc.inv s1" "vol_eq s s1" "FATc.holds s1 sec" "io_ready s1"
    using FATc.getblk_works [OF r(1) TrueI r(2) assms(2)] by blast
  have b: "the_buf_cache s1 = the_buf_cache s" using FAT_getblk_buf [of s sec] s1(1) by simp
  note f = same_volume_fields [OF vol_eq_same [OF s1(3)]]
  have "geom s1" using r(3) by (simp add: geom_def f)
  moreover have "fat_frame s s1"
    using s1(3) b f(1,2) unfolding vol_eq_def fat_frame_def by (cases s; cases s1) simp
  ultimately show thesis using that s1 f by (simp add: fat_ready_def)
qed

lemma holds_cong_FAT:
  "\<lbrakk>drv s' = drv s; FAT_cache s' = FAT_cache s; sectors_per_clu_bits s' = sectors_per_clu_bits s\<rbrakk>
   \<Longrightarrow> FATc.inv s' = FATc.inv s \<and> FATc.holds s' = FATc.holds s"
proof -
  assume a: "drv s' = drv s" "FAT_cache s' = FAT_cache s" "sectors_per_clu_bits s' = sectors_per_clu_bits s"
  then have "FAT_hash s' = FAT_hash s" by (simp add: fun_eq_iff FAT_hash_def)
  then show ?thesis using a by (auto simp: FATc.inv_def FATc.holds_def)
qed

lemma write_ready:
  assumes "fat_ready s" "\<not> out_of_range s sec" "FATc.holds s sec" "length d = 2 ^ sector_size_bits s"
  defines "s' \<equiv> FAT_modify (put_block s sec d) sec"
  shows "fat_ready s'" "FATc.holds s' sec" "fat_frame s s'" "blk s' = (blk s)(sec := d)" "dirty s' = (dirty s)(sec := True)"
proof -
  let ?t = "put_block s sec d"
  have t: "FATc.inv ?t" "FATc.holds ?t = FATc.holds s"
    using holds_cong_FAT [of ?t s] assms(1) by (simp_all add: put_block_def fat_ready_def)
  have "io_ready ?t" "\<not> out_of_range ?t sec"
    using fat_frame_derived [OF fat_frame_put(1)] assms(1,2) by (simp_all add: fat_ready_def)
  then have e: "s' = mark_buffer_dirty ?t sec"
    unfolding s'_def using t assms(3) by (intro FAT_modify_ok) auto
  show ff: "fat_frame s s'" unfolding e using fat_frame_put fat_frame_trans by blast
  show "blk s' = (blk s)(sec := d)" "dirty s' = (dirty s)(sec := True)"
    by (simp_all add: e mark_buffer_dirty_def put_block_def)
  have "FATc.inv s' \<and> FATc.holds s' = FATc.holds s"
    using holds_cong_FAT [of s' s] assms(1) by (simp add: e mark_buffer_dirty_def put_block_def fat_ready_def)
  then show "FATc.holds s' sec" "fat_ready s'"
    using assms(1,3,4) fat_frame_derived [OF ff] fat_frame_fields [OF ff]
    by (auto simp: fat_ready_def geom_def e mark_buffer_dirty_def put_block_def)
qed

section \<open>Positions\<close>

lemma of_s32_mask: "of_s32 (2 ^ n - 1) = mask n"
  by (simp add: of_s32_def mask_eq_exp_minus_1)

lemma fat_sector_inj:
  assumes "geom s" "p < 2 ^ 36" "q < 2 ^ 36"
  shows "fat_sector s p = fat_sector s q \<longleftrightarrow> p div 2 ^ sector_size_bits s = q div 2 ^ sector_size_bits s"
proof -
  have "(2::nat) ^ 9 \<le> 2 ^ sector_size_bits s" using assms(1) by (intro power_increasing) (auto simp: geom_def)
  then have "x div 2 ^ sector_size_bits s < 2 ^ 32" if "x < 2 ^ 36" for x :: nat
    using that div_le_mono2 [of "2 ^ 9" "2 ^ sector_size_bits s" x] by simp
  then have "p div 2 ^ sector_size_bits s < 2 ^ 32" "q div 2 ^ sector_size_bits s < 2 ^ 32" using assms by blast+
  then show ?thesis by (simp add: fat_sector_def word_of_nat_eq_iff take_bit_nat_eq_self)
qed

lemma same_sector:
  fixes p k n :: nat
  assumes "p mod 2 ^ n + k < 2 ^ n"
  shows "(p + k) div 2 ^ n = p div 2 ^ n" "(p + k) mod 2 ^ n = p mod 2 ^ n + k"
proof -
  have e: "p + k = (p mod 2 ^ n + k) + (p div 2 ^ n) * 2 ^ n"
    using div_mult_mod_eq [of p "2 ^ n"] by linarith
  show "(p + k) div 2 ^ n = p div 2 ^ n" unfolding e using assms by simp
  show "(p + k) mod 2 ^ n = p mod 2 ^ n + k" unfolding e using assms by simp
qed

lemma fat_mem_poke:
  assumes "geom s" "p < 2 ^ 36" "b = fat_sector s p"
  shows "fat_mem (put_block s b ((blk s b)[p mod 2 ^ sector_size_bits s := v])) = (fat_mem s)(p := v)"
proof
  fix q
  let ?n = "sector_size_bits s"
  have l: "p mod 2 ^ ?n < length (blk s (fat_sector s p))" using assms(1) by (simp add: geom_def)
  show "fat_mem (put_block s b ((blk s b)[p mod 2 ^ ?n := v])) q = ((fat_mem s)(p := v)) q"
  proof (cases "q < 2 ^ 36")
    case True
    have "q = p \<longleftrightarrow> q div 2 ^ ?n = p div 2 ^ ?n \<and> q mod 2 ^ ?n = p mod 2 ^ ?n"
      by (metis div_mod_decomp)
    then show ?thesis
      using True l assms(2) fat_sector_inj [OF assms(1) True assms(2)]
      by (auto simp: fat_mem_def put_block_def fat_sector_def assms(3))
  next
    case False
    then show ?thesis using assms(2) by (auto simp: fat_mem_def)
  qed
qed

lemma fat_mem_get16:
  assumes "p + 1 < 2 ^ 36" "p mod 2 ^ sector_size_bits s + 1 < 2 ^ sector_size_bits s"
  shows "GET16 (blk s (fat_sector s p)) (p mod 2 ^ sector_size_bits s) = mem16 (fat_mem s) p"
  using assms same_sector [OF assms(2)] by (simp add: mem16_def GET16_def fat_mem_def fat_sector_def)

lemma fat_mem_get32:
  assumes "p + 3 < 2 ^ 36" "p mod 2 ^ sector_size_bits s + 3 < 2 ^ sector_size_bits s"
  shows "GET32 (blk s (fat_sector s p)) (p mod 2 ^ sector_size_bits s) = mem32 (fat_mem s) p"
  using assms same_sector [of p "sector_size_bits s" 1] same_sector [of p "sector_size_bits s" 2]
    same_sector [of p "sector_size_bits s" 3]
  by (simp add: mem32_def GET32_def fat_mem_def fat_sector_def)

lemma put_block_twice: "put_block (put_block s b d) b d' = put_block s b d'" "blk (put_block s b d) b = d"
  by (simp_all add: put_block_def)

lemma geom_put: "geom s \<Longrightarrow> geom (put_block s b ((blk s b)[i := v]))"
  by (simp add: geom_def put_block_def)

lemma put_block_fields [simp]:
  "sector_size_bits (put_block s b d) = sector_size_bits s" "fat_sector (put_block s b d) = fat_sector s"
  by (simp_all add: put_block_def fun_eq_iff fat_sector_def)

lemma fat_mem_poke2:
  assumes "geom s" "p < 2 ^ 36" "q < 2 ^ 36" "b = fat_sector s p" "fat_sector s q = fat_sector s p"
  shows "fat_mem (put_block s b ((blk s b)[p mod 2 ^ sector_size_bits s := v, q mod 2 ^ sector_size_bits s := w]))
    = (fat_mem s)(p := v, q := w)"
  using fat_mem_poke [OF geom_put [OF assms(1)], of q b b "p mod 2 ^ sector_size_bits s" v w]
    fat_mem_poke [OF assms(1,2,4), of v] assms(3-5)
  by (simp add: put_block_twice)

lemma fat_mem_set16:
  assumes "geom s" "p + 1 < 2 ^ 36" "p mod 2 ^ sector_size_bits s + 1 < 2 ^ sector_size_bits s" "b = fat_sector s p"
  shows "fat_mem (put_block s b (SET16 (blk s b) (p mod 2 ^ sector_size_bits s) v)) = upd16 (fat_mem s) p v"
proof -
  have "fat_sector s (p + 1) = fat_sector s p" using same_sector(1) [OF assms(3)] by (simp add: fat_sector_def)
  from fat_mem_poke2 [OF assms(1) _ assms(2,4) this, of "ucast v" "ucast (drop_bit 8 v)"] show ?thesis
    using assms(2) same_sector(2) [OF assms(3)] by (simp add: SET16_def upd16_def)
qed

lemma fat_mem_set32:
  assumes "geom s" "p + 3 < 2 ^ 36" "p mod 2 ^ sector_size_bits s + 3 < 2 ^ sector_size_bits s" "b = fat_sector s p"
  shows "fat_mem (put_block s b (SET32 (blk s b) (p mod 2 ^ sector_size_bits s) v)) = upd32 (fat_mem s) p v"
proof -
  let ?n = "sector_size_bits s"
  have k: "fat_sector s (p + k) = fat_sector s p" "(p + k) mod 2 ^ ?n = p mod 2 ^ ?n + k" if "k \<le> 3" for k
    using same_sector [of p ?n k] assms(3) that by (simp_all add: fat_sector_def)
  define d where "d = (blk s b)[p mod 2 ^ ?n := ucast v, (p + 1) mod 2 ^ ?n := ucast (drop_bit 8 v)]"
  have "geom (put_block s b d)" using assms(1) by (simp add: geom_def put_block_def d_def)
  from fat_mem_poke2 [OF this, of "p + 2" "p + 3" b "ucast (drop_bit 16 v)" "ucast (drop_bit 24 v)"]
    fat_mem_poke2 [OF assms(1), of p "p + 1" b "ucast v" "ucast (drop_bit 8 v)", folded d_def]
  show ?thesis
    using assms(2,4) k [of 1] k [of 2] k [of 3]
    by (simp add: put_block_twice SET32_def upd32_def d_def)
qed

section \<open>Reading\<close>

lemma unat_word: "unat w = k \<Longrightarrow> w = of_nat k"
  by auto

lemma odd_word: "w AND 1 \<noteq> 0 \<longleftrightarrow> odd (unat w)" for w :: "'a::len word"
proof -
  have "odd (unat w) \<longleftrightarrow> bit (unat w) 0" by (simp add: bit_0)
  also have "\<dots> \<longleftrightarrow> bit w 0" by (simp add: bit_unsigned_iff)
  also have "\<dots> \<longleftrightarrow> w AND 1 \<noteq> 0" by (simp add: and_one_eq bit_0 odd_iff_mod_2_eq_one)
  finally show ?thesis by simp
qed

lemma pos16:
  assumes "geom s" "unat loc < 2 ^ 30"
  shows "FAT1_start_sector s + drop_bit (sector_size_bits s - 1) loc = fat_sector s (2 * unat loc)"
    "unat (push_bit 1 loc AND of_s32 (sector_size_mask s)) = (2 * unat loc) mod 2 ^ sector_size_bits s"
    "(2 * unat loc) mod 2 ^ sector_size_bits s + 1 < 2 ^ sector_size_bits s"
proof -
  obtain n where n: "sector_size_bits s = Suc n" using assms(1) by (cases "sector_size_bits s") (auto simp: geom_def)
  have "unat (drop_bit n loc) = (2 * unat loc) div 2 ^ Suc n" by (simp add: unat_drop_bit)
  then have "drop_bit n loc = of_nat ((2 * unat loc) div 2 ^ Suc n)" by (rule unat_word)
  then show "FAT1_start_sector s + drop_bit (sector_size_bits s - 1) loc = fat_sector s (2 * unat loc)"
    by (simp add: fat_sector_def n)
  have "unat (push_bit 1 loc) = 2 * unat loc"
    using assms(2) by (simp add: push_bit_eq_mult unat_word_ariths)
  then show "unat (push_bit 1 loc AND of_s32 (sector_size_mask s)) = (2 * unat loc) mod 2 ^ sector_size_bits s"
    using assms(1) by (simp add: geom_def of_s32_mask unat_and_mask)
  have "even ((2 * unat loc) mod 2 ^ Suc n)" by (simp add: dvd_mod_iff)
  moreover have "(2 * unat loc) mod 2 ^ Suc n < 2 ^ Suc n" by simp
  moreover have "even ((2::nat) ^ Suc n)" by simp
  ultimately show "(2 * unat loc) mod 2 ^ sector_size_bits s + 1 < 2 ^ sector_size_bits s"
    unfolding n by (metis Suc_eq_plus1 Suc_lessI even_Suc)
qed

lemma pos32:
  assumes "geom s" "unat loc < 2 ^ 30"
  shows "FAT1_start_sector s + drop_bit (sector_size_bits s - 2) loc = fat_sector s (4 * unat loc)"
    "unat (push_bit 2 loc AND of_s32 (sector_size_mask s)) = (4 * unat loc) mod 2 ^ sector_size_bits s"
    "(4 * unat loc) mod 2 ^ sector_size_bits s + 3 < 2 ^ sector_size_bits s"
proof -
  have "2 \<le> sector_size_bits s" using assms(1) by (simp add: geom_def)
  then obtain n where n: "sector_size_bits s = n + 2" by (metis le_add_diff_inverse2)
  have p: "(2::nat) ^ (n + 2) = 4 * 2 ^ n" by simp
  have "unat (drop_bit n loc) = (4 * unat loc) div 2 ^ (n + 2)" by (simp add: unat_drop_bit p)
  then have "drop_bit n loc = of_nat ((4 * unat loc) div 2 ^ (n + 2))" by (rule unat_word)
  then show "FAT1_start_sector s + drop_bit (sector_size_bits s - 2) loc = fat_sector s (4 * unat loc)"
    by (simp add: fat_sector_def n)
  have "unat (push_bit 2 loc) = 4 * unat loc"
    using assms(2) by (simp add: push_bit_eq_mult unat_word_ariths)
  then show "unat (push_bit 2 loc AND of_s32 (sector_size_mask s)) = (4 * unat loc) mod 2 ^ sector_size_bits s"
    using assms(1) by (simp add: geom_def of_s32_mask unat_and_mask)
  have "(4 * unat loc) mod 2 ^ (n + 2) = 4 * (unat loc mod 2 ^ n)" by (simp add: p)
  moreover have "unat loc mod 2 ^ n < 2 ^ n" by simp
  ultimately show "(4 * unat loc) mod 2 ^ sector_size_bits s + 3 < 2 ^ sector_size_bits s"
    unfolding n p by linarith
qed

lemma pos12:
  assumes "geom s" "unat loc < 2 ^ 30"
  defines "p \<equiv> unat loc + unat loc div 2"
  shows "FAT1_start_sector s + drop_bit (sector_size_bits s) (loc + drop_bit 1 loc) = fat_sector s p"
    "fat12_off s loc = p mod 2 ^ sector_size_bits s"
    "int (fat12_off s loc) = sector_size s - 1 \<longleftrightarrow> \<not> p mod 2 ^ sector_size_bits s + 1 < 2 ^ sector_size_bits s"
    "p + 1 < 2 ^ 36"
proof -
  have u: "unat (loc + drop_bit 1 loc) = p"
    using assms(2) by (simp add: p_def unat_word_ariths unat_drop_bit)
  have "unat (drop_bit (sector_size_bits s) (loc + drop_bit 1 loc)) = p div 2 ^ sector_size_bits s"
    by (simp only: unat_drop_bit u)
  then have "drop_bit (sector_size_bits s) (loc + drop_bit 1 loc) = of_nat (p div 2 ^ sector_size_bits s)"
    by (rule unat_word)
  then show "FAT1_start_sector s + drop_bit (sector_size_bits s) (loc + drop_bit 1 loc) = fat_sector s p"
    by (simp add: fat_sector_def)
  show o: "fat12_off s loc = p mod 2 ^ sector_size_bits s"
    using assms(1) unfolding fat12_off_def by (simp only: geom_def of_s32_mask unat_and_mask u)
  have "p mod 2 ^ sector_size_bits s < 2 ^ sector_size_bits s" by simp
  moreover have "sector_size s = int (2 ^ sector_size_bits s)" using assms(1) by (simp add: geom_def)
  ultimately show "int (fat12_off s loc) = sector_size s - 1 \<longleftrightarrow> \<not> p mod 2 ^ sector_size_bits s + 1 < 2 ^ sector_size_bits s"
    unfolding o by linarith
  show "p + 1 < 2 ^ 36" using assms(2) by (simp add: p_def)
qed

text \<open>An entry of FAT12 that crosses a sector boundary.\<close>

lemma cross12:
  assumes "geom s" "p mod 2 ^ sector_size_bits s = 2 ^ sector_size_bits s - 1" "p + 1 < 2 ^ 36"
  shows "fat_sector s p + 1 = fat_sector s (p + 1)" "(p + 1) mod 2 ^ sector_size_bits s = 0"
    "fat_sector s (p + 1) \<noteq> fat_sector s p"
proof -
  let ?k = "2 ^ sector_size_bits s :: nat"
  have "0 < ?k" by simp
  then have "p + 1 = (p div ?k) * ?k + ?k" using div_mult_mod_eq [of p ?k] assms(2) by linarith
  then have e: "p + 1 = (p div ?k + 1) * ?k" by simp
  then have d: "(p + 1) div ?k = p div ?k + 1" by simp
  show "fat_sector s p + 1 = fat_sector s (p + 1)" unfolding fat_sector_def d by simp
  show "(p + 1) mod ?k = 0" unfolding e by simp
  show "fat_sector s (p + 1) \<noteq> fat_sector s p"
    using fat_sector_inj [OF assms(1), of "p + 1" p] assms(3) d by simp
qed

lemma fat_mem_cong:
  "\<lbrakk>blk s' = blk s; fat_frame s s'\<rbrakk> \<Longrightarrow> fat_mem s' = fat_mem s"
  using fat_frame_derived(6) [of s s'] fat_frame_fields(6) [of s s'] by (simp add: fun_eq_iff fat_mem_def)

lemma ucast_mem16: "(ucast (mem16 m p) :: u32) = ucast (m p) OR push_bit 8 (ucast (m (p + 1)))"
  by (rule bit_word_eqI)
     (auto simp: mem16_def GET16_def bit_ucast_iff bit_or_iff bit_push_bit_iff dest: bit_imp_le_length)

lemma ucast_and_FFFF: "(ucast (w :: u16) AND 0xFFFF :: u32) = ucast w"
proof -
  have m: "(0xFFFF :: u32) = mask 16" by (simp add: mask_numeral)
  show ?thesis unfolding m
    by (rule bit_word_eqI) (auto simp: bit_and_iff bit_ucast_iff bit_mask_iff dest: bit_imp_le_length)
qed

lemma FAT_read_get:
  assumes r: "fat_ready s" and l: "unat loc < 2 ^ 30" and rng: "\<And>p. p \<in> fat_span (vol_type s) (unat loc) \<Longrightarrow> \<not> out_of_range s (fat_sector s p)"
  obtains s' where "FAT_read s loc = (s', Some (fat_get s loc))" "fat_ready s'" "fat_frame s s'" "blk s' = blk s" "dirty s' = dirty s"
    "vol_eq s s'"
proof -
  have g: "geom s" using r by (simp add: fat_ready_def)
  show thesis
  proof (cases "vol_type s")
    case FAT12
    define p where "p = unat loc + unat loc div 2"
    note pos = pos12 [OF g l, folded p_def]
    have rp: "\<not> out_of_range s (fat_sector s p)" "\<not> out_of_range s (fat_sector s (p + 1))"
      using rng FAT12 by (simp_all add: fat_span_def p_def)
    note odd = odd_word [of loc]
    obtain s1 where s1: "FAT_getblk s (fat_sector s p) = (s1, Some (fat_sector s p))" "fat_ready s1" "fat_frame s s1"
      "blk s1 = blk s" "dirty s1 = dirty s" "vol_eq s s1"
      using getblk_ready [OF r rp(1)] by blast
    have val: "fat_get s loc = (let w = ucast (mem16 (fat_mem s) p) :: u32; c = (if loc AND 1 \<noteq> 0 then drop_bit 4 w else w) AND 0xFFF
         in if 0xFF8 \<le> c then CLUSTER_EOF else c)"
      by (simp add: fat_get_def fat_val_def fat_limit_def fat_raw_def FAT12 raw12_def odd p_def Let_def)
    show thesis
    proof (cases "p mod 2 ^ sector_size_bits s + 1 < 2 ^ sector_size_bits s")
      case True
      then have "FAT_read s loc = (s1, Some (fat_get s loc))"
        using FAT12 pos s1 fat_mem_get16 [OF pos(4) True]
        by (simp add: FAT_read_def Let_def val)
      then show thesis using that s1 by blast
    next
      case False
      have b: "p mod 2 ^ sector_size_bits s = 2 ^ sector_size_bits s - 1" 
      proof -
        have "p mod 2 ^ sector_size_bits s < 2 ^ sector_size_bits s" by simp
        with False show ?thesis by linarith
      qed
      note x = cross12 [OF g b pos(4)]
      have "\<not> out_of_range s1 (fat_sector s (p + 1))" using rp(2) fat_frame_derived(1) [OF s1(3)] by simp
      then obtain s2 where s2: "FAT_getblk s1 (fat_sector s (p + 1)) = (s2, Some (fat_sector s (p + 1)))" "fat_ready s2"
        "fat_frame s1 s2" "blk s2 = blk s1" "dirty s2 = dirty s1" "vol_eq s1 s2"
        using getblk_ready [OF s1(2)] by blast
      have vals: "blk s1 (fat_sector s p) ! fat12_off s loc = fat_mem s p" "blk s2 (fat_sector s (p + 1)) ! 0 = fat_mem s (p + 1)"
        using pos(2,4) x(2) by (simp_all add: fat_mem_def s1(4) s2(4))
      have last: "int (fat12_off s loc) = sector_size s - 1" using pos(3) False by blast
      have "FAT_read s loc = (s2, Some (fat_get s loc))"
        unfolding FAT_read_def FAT12 vol_kind.case Let_def pos(1) if_P [OF last] s1(1) prod.case option.case x(1) s2(1) vals
          val ucast_mem16 ..
      then show thesis
        using that [OF _ s2(2) fat_frame_trans [OF s1(3) s2(3)] _ _ vol_eq_trans [OF s1(6) s2(6)]] s1(4,5) s2(4,5) by simp
    qed
  next
    case FAT16
    note pos = pos16 [OF g l]
    have "\<not> out_of_range s (fat_sector s (2 * unat loc))" using rng FAT16 by (simp add: fat_span_def)
    then obtain s1 where s1: "FAT_getblk s (fat_sector s (2 * unat loc)) = (s1, Some (fat_sector s (2 * unat loc)))" "fat_ready s1" "fat_frame s s1"
      "blk s1 = blk s" "dirty s1 = dirty s" "vol_eq s s1"
      using getblk_ready [OF r] by blast
    note ucast_and_FFFF
    then have "FAT_read s loc = (s1, Some (fat_get s loc))"
      using FAT16 pos s1 l fat_mem_get16 [of "2 * unat loc" s, OF _ pos(3)]
      by (simp add: FAT_read_def Let_def fat_get_def fat_val_def fat_limit_def fat_raw_def raw16_def)
    then show thesis using that s1 by blast
  next
    case FAT32
    note pos = pos32 [OF g l]
    have "\<not> out_of_range s (fat_sector s (4 * unat loc))" using rng FAT32 by (simp add: fat_span_def)
    then obtain s1 where s1: "FAT_getblk s (fat_sector s (4 * unat loc)) = (s1, Some (fat_sector s (4 * unat loc)))" "fat_ready s1" "fat_frame s s1"
      "blk s1 = blk s" "dirty s1 = dirty s" "vol_eq s s1"
      using getblk_ready [OF r] by blast
    then have "FAT_read s loc = (s1, Some (fat_get s loc))"
      using FAT32 pos l fat_mem_get32 [of "4 * unat loc" s, OF _ pos(3)]
      by (simp add: FAT_read_def Let_def fat_get_def fat_val_def fat_limit_def fat_raw_def raw32_def)
    then show thesis using that s1 by blast
  next
    case EXFAT
    note pos = pos32 [OF g l]
    have "\<not> out_of_range s (fat_sector s (4 * unat loc))" using rng EXFAT by (simp add: fat_span_def)
    then obtain s1 where s1: "FAT_getblk s (fat_sector s (4 * unat loc)) = (s1, Some (fat_sector s (4 * unat loc)))" "fat_ready s1" "fat_frame s s1"
      "blk s1 = blk s" "dirty s1 = dirty s" "vol_eq s s1"
      using getblk_ready [OF r] by blast
    then have "FAT_read s loc = (s1, Some (fat_get s loc))"
      using EXFAT pos l fat_mem_get32 [of "4 * unat loc" s, OF _ pos(3)]
      by (simp add: FAT_read_def Let_def fat_get_def fat_val_def fat_limit_def fat_raw_def rawex_def)
    then show thesis using that s1 by blast
  qed
qed

section \<open>Writing\<close>

lemma fat_mem_blk: "\<lbrakk>fat_frame s s'; blk s' = blk t; fat_sector t = fat_sector s; sector_size_bits t = sector_size_bits s\<rbrakk> \<Longrightarrow> fat_mem s' = fat_mem t"
  using fat_frame_derived(6) [of s s'] fat_frame_fields(6) [of s s'] by (simp add: fun_eq_iff fat_mem_def)

text \<open>One sector fetched, changed and marked dirty.\<close>

lemma rewrite_sector:
  assumes "fat_ready s" "\<not> out_of_range s sec"
  obtains s1 where "FAT_getblk s sec = (s1, Some sec)" "fat_ready s1" "fat_frame s s1" "blk s1 = blk s" "fat_mem s1 = fat_mem s"
    "\<And>d. length d = 2 ^ sector_size_bits s \<Longrightarrow>
       fat_ready (FAT_modify (put_block s1 sec d) sec) \<and> fat_frame s (FAT_modify (put_block s1 sec d) sec) \<and>
       blk (FAT_modify (put_block s1 sec d) sec) = (blk s)(sec := d) \<and>
       dirty (FAT_modify (put_block s1 sec d) sec) = (dirty s)(sec := True) \<and>
       fat_mem (FAT_modify (put_block s1 sec d) sec) = fat_mem (put_block s sec d)"
proof -
  obtain s1 where s1: "FAT_getblk s sec = (s1, Some sec)" "fat_ready s1" "FATc.holds s1 sec" "fat_frame s s1"
    "blk s1 = blk s" "dirty s1 = dirty s"
    using getblk_ready [OF assms] by blast
  have "\<not> out_of_range s1 sec" using assms(2) fat_frame_derived(1) [OF s1(4)] by simp
  note w = write_ready [OF s1(2) this s1(3)]
  show thesis
  proof (rule that)
    show "FAT_getblk s sec = (s1, Some sec)" "fat_ready s1" "fat_frame s s1" "blk s1 = blk s" by fact+
    show "fat_mem s1 = fat_mem s" by (rule fat_mem_cong) fact+
    fix d :: "u8 list" assume "length d = 2 ^ sector_size_bits s"
    then have l: "length d = 2 ^ sector_size_bits s1" using fat_frame_fields(6) [OF s1(4)] by simp
    have "fat_mem (FAT_modify (put_block s1 sec d) sec) = fat_mem (put_block s sec d)"
      using fat_mem_blk [OF fat_frame_trans [OF s1(4) w(3) [OF l]], of "put_block s sec d"] w(4) [OF l] s1(5)
      by (simp add: put_block_def) (simp add: fun_eq_iff fat_sector_def)
    then show "fat_ready (FAT_modify (put_block s1 sec d) sec) \<and> fat_frame s (FAT_modify (put_block s1 sec d) sec) \<and>
       blk (FAT_modify (put_block s1 sec d) sec) = (blk s)(sec := d) \<and>
       dirty (FAT_modify (put_block s1 sec d) sec) = (dirty s)(sec := True) \<and>
       fat_mem (FAT_modify (put_block s1 sec d) sec) = fat_mem (put_block s sec d)"
      using w [OF l] fat_frame_trans [OF s1(4)] s1(5,6) by simp
  qed
qed

definition fat_written :: "sb \<Rightarrow> u32 \<Rightarrow> u32 \<Rightarrow> sb \<Rightarrow> bool" where
  "fat_written s loc v s' \<longleftrightarrow> fat_ready s' \<and> fat_frame s s' \<and>
     fat_mem s' = fat_store (vol_type s) (fat_mem s) (unat loc) v \<and>
     (\<forall>b. if b \<in> fat_sector s ` fat_span (vol_type s) (unat loc) then dirty s' b
          else blk s' b = blk s b \<and> dirty s' b = dirty s b)"

lemma single_sector:
  assumes "fat_ready s'" "fat_frame s s'" "fat_mem s' = fat_store (vol_type s) (fat_mem s) (unat loc) v"
    "blk s' = (blk s)(sec := d)" "dirty s' = (dirty s)(sec := True)" "sec = fat_sector s p" "p \<in> fat_span (vol_type s) (unat loc)"
    "\<And>q. q \<in> fat_span (vol_type s) (unat loc) \<Longrightarrow> q div 2 ^ sector_size_bits s = p div 2 ^ sector_size_bits s"
  shows "fat_written s loc v s'"
proof -
  have "fat_sector s ` fat_span (vol_type s) (unat loc) = {sec}"
  proof -
    have "\<forall>q\<in>fat_span (vol_type s) (unat loc). fat_sector s q = sec"
      using assms(8) unfolding assms(6) fat_sector_def by metis
    with assms(7) show ?thesis by (auto simp: image_iff intro!: bexI)
  qed
  then show ?thesis using assms by (simp add: fat_written_def)
qed

lemma FAT_write_32:
  assumes r: "fat_ready s" and l: "unat loc < 2 ^ 30" and k: "vol_type s = FAT32 \<or> vol_type s = EXFAT"
    and rng: "\<And>p. p \<in> fat_span (vol_type s) (unat loc) \<Longrightarrow> \<not> out_of_range s (fat_sector s p)"
  obtains s' where "FAT_write s loc v = (s', 0)" "fat_written s loc v s'"
proof -
  have g: "geom s" using r by (simp add: fat_ready_def)
  define p where "p = 4 * unat loc"
  note pos = pos32 [OF g l, folded p_def]
  have sp: "fat_span (vol_type s) (unat loc) = {p..<p + 4}" using k by (auto simp: fat_span_def p_def)
  have same: "q div 2 ^ sector_size_bits s = p div 2 ^ sector_size_bits s" if "q \<in> fat_span (vol_type s) (unat loc)" for q
  proof -
    have "p \<le> q" "q - p \<le> 3" using that by (auto simp: sp)
    then show ?thesis using same_sector(1) [of p "sector_size_bits s" "q - p"] pos(3) by simp
  qed
  have b: "p + 3 < 2 ^ 36" using l by (simp add: p_def)
  have "\<not> out_of_range s (fat_sector s p)" using rng sp by simp
  from rewrite_sector [OF r this] obtain s1 where s1: "FAT_getblk s (fat_sector s p) = (s1, Some (fat_sector s p))"
      "blk s1 = blk s" and W: "\<And>d. length d = 2 ^ sector_size_bits s \<Longrightarrow>
       fat_ready (FAT_modify (put_block s1 (fat_sector s p) d) (fat_sector s p)) \<and> fat_frame s (FAT_modify (put_block s1 (fat_sector s p) d) (fat_sector s p)) \<and>
       blk (FAT_modify (put_block s1 (fat_sector s p) d) (fat_sector s p)) = (blk s)(fat_sector s p := d) \<and>
       dirty (FAT_modify (put_block s1 (fat_sector s p) d) (fat_sector s p)) = (dirty s)(fat_sector s p := True) \<and>
       fat_mem (FAT_modify (put_block s1 (fat_sector s p) d) (fat_sector s p)) = fat_mem (put_block s (fat_sector s p) d)"
    by blast
  define x where "x = (if vol_type s = FAT32 then (v AND 0x0FFFFFFF) OR (mem32 (fat_mem s) p AND 0xF0000000) else v)"
  define d where "d = SET32 (blk s (fat_sector s p)) (p mod 2 ^ sector_size_bits s) x"
  have e: "FAT_write s loc v = (FAT_modify (put_block s1 (fat_sector s p) d) (fat_sector s p), 0)"
    using k pos s1 fat_mem_get32 [OF b pos(3)] by (auto simp: FAT_write_def Let_def d_def x_def)
  have "length d = 2 ^ sector_size_bits s" using g by (simp add: d_def geom_def)
  note w = W [OF this]
  have m: "fat_mem (put_block s (fat_sector s p) d) = upd32 (fat_mem s) p x"
    unfolding d_def using g b pos(3) by (intro fat_mem_set32) auto
  have "upd32 (fat_mem s) p x = fat_store (vol_type s) (fat_mem s) (unat loc) v"
    using k by (auto simp: fat_store_def store32_def storeex_def x_def p_def)
  then have "fat_written s loc v (FAT_modify (put_block s1 (fat_sector s p) d) (fat_sector s p))"
    using w m by (intro single_sector [where p = p and d = d and sec = "fat_sector s p", OF _ _ _ _ _ refl _ same])
      (simp_all add: sp)
  then show thesis using that e by blast
qed

lemma FAT_write_16:
  assumes r: "fat_ready s" and l: "unat loc < 2 ^ 30" and k: "vol_type s = FAT16"
    and rng: "\<And>p. p \<in> fat_span (vol_type s) (unat loc) \<Longrightarrow> \<not> out_of_range s (fat_sector s p)"
  obtains s' where "FAT_write s loc v = (s', 0)" "fat_written s loc v s'"
proof -
  have g: "geom s" using r by (simp add: fat_ready_def)
  define p where "p = 2 * unat loc"
  note pos = pos16 [OF g l, folded p_def]
  have sp: "fat_span (vol_type s) (unat loc) = {p, p + 1}" using k by (auto simp: fat_span_def p_def)
  have same: "q div 2 ^ sector_size_bits s = p div 2 ^ sector_size_bits s" if "q \<in> fat_span (vol_type s) (unat loc)" for q
    using same_sector(1) [OF pos(3)] that by (auto simp: sp)
  have b: "p + 1 < 2 ^ 36" using l by (simp add: p_def)
  have "\<not> out_of_range s (fat_sector s p)" using rng sp by simp
  from rewrite_sector [OF r this] obtain s1 where s1: "FAT_getblk s (fat_sector s p) = (s1, Some (fat_sector s p))"
      "blk s1 = blk s" and W: "\<And>d. length d = 2 ^ sector_size_bits s \<Longrightarrow>
       fat_ready (FAT_modify (put_block s1 (fat_sector s p) d) (fat_sector s p)) \<and> fat_frame s (FAT_modify (put_block s1 (fat_sector s p) d) (fat_sector s p)) \<and>
       blk (FAT_modify (put_block s1 (fat_sector s p) d) (fat_sector s p)) = (blk s)(fat_sector s p := d) \<and>
       dirty (FAT_modify (put_block s1 (fat_sector s p) d) (fat_sector s p)) = (dirty s)(fat_sector s p := True) \<and>
       fat_mem (FAT_modify (put_block s1 (fat_sector s p) d) (fat_sector s p)) = fat_mem (put_block s (fat_sector s p) d)"
    by blast
  define d where "d = SET16 (blk s (fat_sector s p)) (p mod 2 ^ sector_size_bits s) (ucast v)"
  have "(ucast (v AND 0xFFFF) :: u16) = ucast v"
  proof -
    have m: "(0xFFFF :: u32) = mask 16" by (simp add: mask_numeral)
    show ?thesis unfolding m
      by (rule bit_word_eqI) (auto simp: bit_and_iff bit_ucast_iff bit_mask_iff dest: bit_imp_le_length)
  qed
  then have e: "FAT_write s loc v = (FAT_modify (put_block s1 (fat_sector s p) d) (fat_sector s p), 0)"
    using k pos s1 by (auto simp: FAT_write_def Let_def d_def)
  have "length d = 2 ^ sector_size_bits s" using g by (simp add: d_def geom_def)
  note w = W [OF this]
  have m: "fat_mem (put_block s (fat_sector s p) d) = upd16 (fat_mem s) p (ucast v)"
    unfolding d_def using g b pos(3) by (intro fat_mem_set16) auto
  have "upd16 (fat_mem s) p (ucast v) = fat_store (vol_type s) (fat_mem s) (unat loc) v"
    using k by (simp add: fat_store_def store16_def p_def)
  then have "fat_written s loc v (FAT_modify (put_block s1 (fat_sector s p) d) (fat_sector s p))"
    using w m by (intro single_sector [where p = p and d = d and sec = "fat_sector s p", OF _ _ _ _ _ refl _ same])
      (simp_all add: sp)
  then show thesis using that e by blast
qed

text \<open>The value FAT12 stores, and its two bytes.\<close>

definition new12 :: "(nat \<Rightarrow> u8) \<Rightarrow> u32 \<Rightarrow> nat \<Rightarrow> u32 \<Rightarrow> u16" where
  "new12 m loc p v = (if loc AND 1 \<noteq> 0 then push_bit 4 (ucast (v AND 0xFFF)) OR (mem16 m p AND 0xF)
     else ucast (v AND 0xFFF) OR (mem16 m p AND 0xF000))"

lemma new12_store:
  "store12 m (unat loc) v = upd16 m (unat loc + unat loc div 2) (new12 m loc (unat loc + unat loc div 2) v)"
  by (simp add: store12_def new12_def Let_def odd_word)

lemma bit_F000_32: "bit (0xF000 :: u32) n \<longleftrightarrow> 12 \<le> n \<and> n < 16"
proof -
  have "(0xF000 :: u32) = push_bit 12 (mask 4)" by (simp add: mask_numeral)
  then have "bit (0xF000 :: u32) n \<longleftrightarrow> bit (push_bit 12 (mask 4) :: u32) n" by metis
  also have "\<dots> \<longleftrightarrow> 12 \<le> n \<and> n < 16" unfolding bit_push_bit_iff bit_mask_iff by auto
  finally show ?thesis .
qed

lemma bit_GET16: "bit (GET16 d i) n \<longleftrightarrow> (if n < 8 then bit (d ! i) n else n < 16 \<and> bit (d ! (i + 1)) (n - 8))"
  by (auto simp: GET16_def bit_or_iff bit_push_bit_iff bit_ucast_iff dest: bit_imp_le_length)

lemma GET16_hi:
  assumes "d ! (i + 1) = m (p + 1)"
  shows "ucast (GET16 d i) AND 0xF000 = (ucast (mem16 m p) AND 0xF000 :: u32)"
proof (rule bit_word_eqI)
  fix n assume "n < LENGTH(32)"
  show "bit (ucast (GET16 d i) AND 0xF000 :: u32) n = bit (ucast (mem16 m p) AND 0xF000 :: u32) n"
    unfolding bit_and_iff bit_F000_32 bit_ucast_iff bit_GET16 bit_mem16 assms by auto
qed

lemma ucast_new12:
  "loc AND 1 \<noteq> 0 \<Longrightarrow> ucast (push_bit 4 (v AND 0xFFF) OR (ucast (mem16 m p) AND 0xF) :: u32) = new12 m loc p v"
  "loc AND 1 = 0 \<Longrightarrow> ucast ((v AND 0xFFF) OR (ucast (mem16 m p) AND 0xF000) :: u32) = new12 m loc p v"
proof -
  note F = bit_F000_32
  show "ucast (push_bit 4 (v AND 0xFFF) OR (ucast (mem16 m p) AND 0xF) :: u32) = new12 m loc p v" if "loc AND 1 \<noteq> 0"
    unfolding new12_def if_P [OF that]
    by (rule bit_word_eqI, unfold mask12 mask4 bit_or_iff bit_and_iff bit_push_bit_iff bit_mask_iff bit_ucast_iff) auto
  show "ucast ((v AND 0xFFF) OR (ucast (mem16 m p) AND 0xF000) :: u32) = new12 m loc p v" if "loc AND 1 = 0"
  proof -
    have n: "\<not> loc AND 1 \<noteq> 0" using that by simp
    show ?thesis
      unfolding new12_def if_not_P [OF n]
      by (rule bit_word_eqI, unfold mask12 bit_or_iff bit_and_iff bit_mask_iff bit_ucast_iff F bit_F000)
         (auto dest: bit_imp_le_length)
  qed
qed

lemma lo_new12:
  "loc AND 1 \<noteq> 0 \<Longrightarrow> ucast (push_bit 4 (v AND 0xFFF) OR (ucast (m p) AND 0x0F) :: u32) = (ucast (new12 m loc p v) :: u8)"
  "loc AND 1 = 0 \<Longrightarrow> ucast (v AND 0xFFF) = (ucast (new12 m loc p v) :: u8)"
proof -
  have *: "bit (m p) k \<longleftrightarrow> bit (mem16 m p) k" if "k < 8" for k using that by (simp add: bit_mem16)
  show "ucast (push_bit 4 (v AND 0xFFF) OR (ucast (m p) AND 0x0F) :: u32) = (ucast (new12 m loc p v) :: u8)" if "loc AND 1 \<noteq> 0"
    unfolding new12_def if_P [OF that]
    by (rule bit_word_eqI, unfold mask12 mask4 bit_or_iff bit_and_iff bit_push_bit_iff bit_mask_iff bit_ucast_iff)
       (auto simp: *)
  show "ucast (v AND 0xFFF) = (ucast (new12 m loc p v) :: u8)" if "loc AND 1 = 0"
  proof -
    have n: "\<not> loc AND 1 \<noteq> 0" using that by simp
    show ?thesis
      unfolding new12_def if_not_P [OF n]
      by (rule bit_word_eqI, unfold mask12 bit_or_iff bit_and_iff bit_mask_iff bit_ucast_iff bit_F000) auto
  qed
qed

lemma hi_new12:
  "loc AND 1 \<noteq> 0 \<Longrightarrow> ucast (drop_bit 8 (push_bit 4 (v AND 0xFFF)) :: u32) = (ucast (drop_bit 8 (new12 m loc p v)) :: u8)"
  "loc AND 1 = 0 \<Longrightarrow> ucast ((ucast (m (p + 1)) AND 0xF0) OR drop_bit 8 (v AND 0xFFF) :: u32) = (ucast (drop_bit 8 (new12 m loc p v)) :: u8)"
proof -
  have F: "bit (0xF0 :: u32) n \<longleftrightarrow> 4 \<le> n \<and> n < 8" for n
  proof -
    have "(0xF0 :: u32) = push_bit 4 (mask 4)" by (simp add: mask_numeral)
    then have "bit (0xF0 :: u32) n \<longleftrightarrow> bit (push_bit 4 (mask 4) :: u32) n" by metis
    also have "\<dots> \<longleftrightarrow> 4 \<le> n \<and> n < 8" unfolding bit_push_bit_iff bit_mask_iff by auto
    finally show ?thesis .
  qed
  have *: "bit (m (Suc p)) k \<longleftrightarrow> bit (mem16 m p) (8 + k)" for k
    by (auto simp: bit_mem16 dest: bit_imp_le_length)
  show "ucast (drop_bit 8 (push_bit 4 (v AND 0xFFF)) :: u32) = (ucast (drop_bit 8 (new12 m loc p v)) :: u8)" if "loc AND 1 \<noteq> 0"
    unfolding new12_def if_P [OF that]
    by (rule bit_word_eqI, unfold mask12 mask4 bit_drop_bit_eq o_def bit_or_iff bit_and_iff bit_push_bit_iff bit_mask_iff bit_ucast_iff) auto
  show "ucast ((ucast (m (p + 1)) AND 0xF0) OR drop_bit 8 (v AND 0xFFF) :: u32) = (ucast (drop_bit 8 (new12 m loc p v)) :: u8)" if "loc AND 1 = 0"
  proof -
    have n: "\<not> loc AND 1 \<noteq> 0" using that by simp
    show ?thesis
      unfolding new12_def if_not_P [OF n]
      by (rule bit_word_eqI, unfold mask12 bit_drop_bit_eq o_def bit_or_iff bit_and_iff bit_mask_iff bit_ucast_iff F bit_F000)
         (auto simp: *)
  qed
qed

lemma FAT_write_12_inside:
  assumes r: "fat_ready s" and l: "unat loc < 2 ^ 30" and k: "vol_type s = FAT12"
    and rng: "\<And>p. p \<in> fat_span (vol_type s) (unat loc) \<Longrightarrow> \<not> out_of_range s (fat_sector s p)"
    and inside: "(unat loc + unat loc div 2) mod 2 ^ sector_size_bits s + 1 < 2 ^ sector_size_bits s"
  obtains s' where "FAT_write s loc v = (s', 0)" "fat_written s loc v s'"
proof -
  have g: "geom s" using r by (simp add: fat_ready_def)
  define p where "p = unat loc + unat loc div 2"
  note pos = pos12 [OF g l, folded p_def]
  note ins = inside [folded p_def]
  have sp: "fat_span (vol_type s) (unat loc) = {p, p + 1}" using k by (auto simp: fat_span_def p_def)
  have same: "q div 2 ^ sector_size_bits s = p div 2 ^ sector_size_bits s" if "q \<in> fat_span (vol_type s) (unat loc)" for q
    using same_sector(1) [OF ins] that by (auto simp: sp)
  let ?b = "fat_sector s p" and ?o = "p mod 2 ^ sector_size_bits s"
  have "\<not> out_of_range s ?b" using rng sp by simp
  from rewrite_sector [OF r this] obtain s1 where s1: "FAT_getblk s ?b = (s1, Some ?b)" "blk s1 = blk s"
      and W: "\<And>d. length d = 2 ^ sector_size_bits s \<Longrightarrow>
       fat_ready (FAT_modify (put_block s1 ?b d) ?b) \<and> fat_frame s (FAT_modify (put_block s1 ?b d) ?b) \<and>
       blk (FAT_modify (put_block s1 ?b d) ?b) = (blk s)(?b := d) \<and>
       dirty (FAT_modify (put_block s1 ?b d) ?b) = (dirty s)(?b := True) \<and>
       fat_mem (FAT_modify (put_block s1 ?b d) ?b) = fat_mem (put_block s ?b d)"
    by blast
  define d where "d = SET16 (blk s ?b) ?o (new12 (fat_mem s) loc p v)"
  have ncross: "int ?o \<noteq> sector_size s - 1" using pos(3) ins unfolding pos(2) by blast
  have get: "GET16 (blk s ?b) ?o = mem16 (fat_mem s) p" by (rule fat_mem_get16 [OF pos(4) ins])
  have olt: "?o < length (blk s ?b)" "?o + 1 < length (blk s ?b)" using g ins by (simp_all add: geom_def)
  have e: "FAT_write s loc v = (FAT_modify (put_block s1 ?b d) ?b, 0)"
  proof (cases "loc AND 1 = 0")
    case False
    show ?thesis
      unfolding FAT_write_def k vol_kind.case Let_def pos(1) s1(1) prod.case option.case if_P [OF False] if_not_P [OF ncross]
        s1(2) pos(2) get ucast_new12(1) [OF False] d_def ..
  next
    case True
    then have n: "\<not> loc AND 1 \<noteq> 0" by simp
    define x :: u8 where "x = ucast (v AND 0xFFF)"
    define d0 where "d0 = (blk s ?b)[?o := x]"
    have "d0 ! (?o + 1) = fat_mem s (p + 1)"
      using same_sector [OF ins] pos(4) olt by (simp add: d0_def fat_mem_def fat_sector_def)
    note hi = GET16_hi [where m = "fat_mem s" and p = p, OF this]
    have st: "SET16 d0 ?o w = SET16 (blk s ?b) ?o w" for w by (simp add: SET16_def d0_def)
    have "FAT_write s loc v = (FAT_modify (put_block (put_block s1 ?b d0) ?b (SET16 d0 ?o
        (ucast ((v AND 0xFFF) OR (ucast (GET16 d0 ?o) AND 0xF000))))) ?b, 0)"
      unfolding FAT_write_def k vol_kind.case Let_def pos(1) s1(1) prod.case option.case if_not_P [OF n] if_not_P [OF ncross]
        s1(2) pos(2) x_def [symmetric] d0_def [symmetric] put_block_twice(2) ..
    then show ?thesis unfolding hi ucast_new12(2) [OF True] st put_block_twice(1) d_def .
  qed
  have "length d = 2 ^ sector_size_bits s" using g by (simp add: d_def geom_def)
  note w = W [OF this]
  have m: "fat_mem (put_block s ?b d) = upd16 (fat_mem s) p (new12 (fat_mem s) loc p v)"
    unfolding d_def using g pos(4) ins by (intro fat_mem_set16) auto
  have "upd16 (fat_mem s) p (new12 (fat_mem s) loc p v) = fat_store (vol_type s) (fat_mem s) (unat loc) v"
    using k by (simp add: fat_store_def new12_store p_def)
  then have "fat_written s loc v (FAT_modify (put_block s1 ?b d) ?b)"
    using w m by (intro single_sector [where p = p and d = d and sec = ?b, OF _ _ _ _ _ refl _ same])
      (simp_all add: sp)
  then show thesis using that e by blast
qed

lemma FAT_write_12_cross:
  assumes r: "fat_ready s" and l: "unat loc < 2 ^ 30" and k: "vol_type s = FAT12"
    and rng: "\<And>p. p \<in> fat_span (vol_type s) (unat loc) \<Longrightarrow> \<not> out_of_range s (fat_sector s p)"
    and across: "\<not> (unat loc + unat loc div 2) mod 2 ^ sector_size_bits s + 1 < 2 ^ sector_size_bits s"
  obtains s' where "FAT_write s loc v = (s', 0)" "fat_written s loc v s'"
proof -
  have g: "geom s" using r by (simp add: fat_ready_def)
  define p where "p = unat loc + unat loc div 2"
  note pos = pos12 [OF g l, folded p_def]
  have sp: "fat_span (vol_type s) (unat loc) = {p, p + 1}" using k by (auto simp: fat_span_def p_def)
  let ?b = "fat_sector s p" and ?c = "fat_sector s (p + 1)" and ?o = "p mod 2 ^ sector_size_bits s"
  let ?w = "new12 (fat_mem s) loc p v"
  have o: "?o = 2 ^ sector_size_bits s - 1"
  proof -
    have "?o < 2 ^ sector_size_bits s" by simp
    with across [folded p_def] show ?thesis by linarith
  qed
  note x = cross12 [OF g o pos(4)]
  have last: "int ?o = sector_size s - 1" using pos(3) across [folded p_def] unfolding pos(2) by blast
  have rb: "\<not> out_of_range s ?b" and rc: "\<not> out_of_range s ?c" using rng sp by simp_all
  have lens: "length (blk s b) = 2 ^ sector_size_bits s" for b using g by (simp add: geom_def)
  have byte: "blk s ?b ! ?o = fat_mem s p" "blk s ?c ! 0 = fat_mem s (p + 1)"
    using pos(4) x(2) by (simp_all add: fat_mem_def)
  define d where "d = (blk s ?b)[?o := ucast ?w]"
  define d' where "d' = (blk s ?c)[0 := ucast (drop_bit 8 ?w)]"
  obtain s1 where s1: "FAT_getblk s ?b = (s1, Some ?b)" "blk s1 = blk s"
      and W: "\<And>d. length d = 2 ^ sector_size_bits s \<Longrightarrow>
       fat_ready (FAT_modify (put_block s1 ?b d) ?b) \<and> fat_frame s (FAT_modify (put_block s1 ?b d) ?b) \<and>
       blk (FAT_modify (put_block s1 ?b d) ?b) = (blk s)(?b := d) \<and>
       dirty (FAT_modify (put_block s1 ?b d) ?b) = (dirty s)(?b := True) \<and>
       fat_mem (FAT_modify (put_block s1 ?b d) ?b) = fat_mem (put_block s ?b d)"
    using rewrite_sector [OF r rb] by blast
  define t where "t = FAT_modify (put_block s1 ?b d) ?b"
  have t: "fat_ready t" "fat_frame s t" "blk t = (blk s)(?b := d)" "dirty t = (dirty s)(?b := True)" "fat_mem t = fat_mem (put_block s ?b d)"
    using W [of d] lens unfolding t_def by (simp_all add: d_def)
  have "\<not> out_of_range t ?c" using rc fat_frame_derived(1) [OF t(2)] by simp
  then obtain s2 where s2: "FAT_getblk t ?c = (s2, Some ?c)" "blk s2 = blk t"
      and V: "\<And>d. length d = 2 ^ sector_size_bits t \<Longrightarrow>
       fat_ready (FAT_modify (put_block s2 ?c d) ?c) \<and> fat_frame t (FAT_modify (put_block s2 ?c d) ?c) \<and>
       blk (FAT_modify (put_block s2 ?c d) ?c) = (blk t)(?c := d) \<and>
       dirty (FAT_modify (put_block s2 ?c d) ?c) = (dirty t)(?c := True) \<and>
       fat_mem (FAT_modify (put_block s2 ?c d) ?c) = fat_mem (put_block t ?c d)"
    using rewrite_sector [OF t(1)] by blast
  have tc: "blk t ?c = blk s ?c" using x(3) by (simp add: t(3))
  define u where "u = FAT_modify (put_block s2 ?c d') ?c"
  have u: "fat_ready u" "fat_frame t u" "blk u = (blk t)(?c := d')" "dirty u = (dirty t)(?c := True)" "fat_mem u = fat_mem (put_block t ?c d')"
    using V [of d'] lens fat_frame_fields(6) [OF t(2)] unfolding u_def by (simp_all add: d'_def)
  have e: "FAT_write s loc v = (u, 0)"
  proof (cases "loc AND 1 = 0")
    case False
    show ?thesis
      unfolding FAT_write_def k vol_kind.case Let_def pos(1) s1(1) prod.case option.case if_P [OF False] pos(2) if_P [OF last]
        s1(2) byte(1) lo_new12(1) [OF False, of v "fat_mem s" p] d_def [symmetric] t_def [symmetric] x(1) s2(1) s2(2) tc
        hi_new12(1) [OF False, of v "fat_mem s" p] d'_def [symmetric] u_def [symmetric] ..
  next
    case True
    then have n: "\<not> loc AND 1 \<noteq> 0" by simp
    have dd: "d[?o := ucast ?w] = d" by (simp add: d_def)
    show ?thesis
      unfolding FAT_write_def k vol_kind.case Let_def pos(1) s1(1) prod.case option.case if_not_P [OF n] pos(2) if_P [OF last]
        s1(2) lo_new12(2) [OF True, of v "fat_mem s" p] d_def [symmetric] put_block_twice dd t_def [symmetric] x(1) s2(1) s2(2) tc
        byte(2) hi_new12(2) [OF True, of "fat_mem s" p v] d'_def [symmetric] u_def [symmetric] ..
  qed
  have "fat_mem t = (fat_mem s)(p := ucast ?w)"
    unfolding t(5) d_def using g pos(4) by (intro fat_mem_poke) auto
  moreover have "fat_mem u = (fat_mem t)(p + 1 := ucast (drop_bit 8 ?w))"
  proof -
    have "geom t" using t(1) by (simp add: fat_ready_def)
    moreover have "?c = fat_sector t (p + 1)" using fat_frame_derived(6) [OF t(2)] by simp
    ultimately show ?thesis
      using fat_mem_poke [of t "p + 1" ?c "ucast (drop_bit 8 ?w)"] pos(4)
      unfolding u(5) d'_def tc [symmetric] fat_frame_fields(6) [OF t(2)] x(2) by blast
  qed
  ultimately have "fat_mem u = upd16 (fat_mem s) p ?w" by (simp add: upd16_def)
  also have "\<dots> = fat_store (vol_type s) (fat_mem s) (unat loc) v"
    using k by (simp add: fat_store_def new12_store p_def)
  finally have "fat_written s loc v u"
    using u t fat_frame_trans [OF t(2) u(2)] by (auto simp: fat_written_def sp)
  then show thesis using that e by blast
qed

text \<open>The four formats together.\<close>

lemma FAT_write_store:
  assumes "fat_ready s" "unat loc < 2 ^ 30" "\<And>p. p \<in> fat_span (vol_type s) (unat loc) \<Longrightarrow> \<not> out_of_range s (fat_sector s p)"
  obtains s' where "FAT_write s loc v = (s', 0)" "fat_written s loc v s'"
proof (cases "vol_type s")
  case FAT12
  then show thesis
    using FAT_write_12_inside [OF assms(1,2) _ assms(3)] FAT_write_12_cross [OF assms(1,2) _ assms(3)] that by metis
next
  case FAT16
  then show thesis using FAT_write_16 [OF assms(1,2) _ assms(3)] that by metis
qed (use FAT_write_32 [OF assms(1,2) _ assms(3)] that in metis)+

end
