(* ===== verification/FatApi.thy ===== *)
theory FatApi
  imports FatImpl
begin

text \<open>
  The table as the cluster functions use it: \<open>fat_get s c\<close> is the value of entry \<open>c\<close> with every end-of-chain code read as
  \<open>~0\<close>, a read returns it and a write changes it, on any volume that is \<open>fat_ok\<close>.
\<close>

definition fat_area :: "sb \<Rightarrow> u32 set" where
  "fat_area s = (\<Union>l < unat (num_clusters s). fat_sector s ` fat_span (vol_type s) l)"

lemma fat_ok_loc:
  assumes "fat_ok s" "loc < num_clusters s"
  shows "unat loc < 2 ^ 30" "\<And>p. p \<in> fat_span (vol_type s) (unat loc) \<Longrightarrow> \<not> out_of_range s (fat_sector s p)" "fat_ready s"
  using assms by (auto simp: fat_ok_def word_less_nat_alt)

lemma fat_ok_frame:
  assumes "fat_ok s" "fat_frame s s'" "fat_ready s'"
  shows "fat_ok s'"
  using assms fat_frame_fields [OF assms(2)] fat_frame_derived [OF assms(2)] by (simp add: fat_ok_def)

lemma fat_area_frame: "fat_frame s s' \<Longrightarrow> fat_area s' = fat_area s"
  using fat_frame_fields fat_frame_derived by (simp add: fat_area_def)

lemma FAT_read_ok:
  assumes "fat_ok s" "loc < num_clusters s"
  obtains s' where "FAT_read s loc = (s', Some (fat_get s loc))" "fat_ok s'" "fat_frame s s'" "blk s' = blk s" "dirty s' = dirty s"
    "fat_get s' = fat_get s" "vol_eq s s'"
proof -
  obtain s' where *: "FAT_read s loc = (s', Some (fat_get s loc))" "fat_ready s'" "fat_frame s s'" "blk s' = blk s" "dirty s' = dirty s"
    "vol_eq s s'"
    using FAT_read_get [OF fat_ok_loc(3,1,2) [OF assms]] by blast
  moreover have "fat_get s' = fat_get s"
    using fat_mem_cong [OF *(4,3)] fat_frame_fields(2) [OF *(3)] by (intro ext) (simp add: fat_get_def)
  ultimately show thesis using that fat_ok_frame [OF assms(1)] by blast
qed

lemma FAT_write_ok:
  assumes "fat_ok s" "loc < num_clusters s"
  obtains s' where "FAT_write s loc v = (s', 0)" "fat_ok s'" "fat_frame s s'"
    "\<And>c. fat_get s' c = (if c = loc then fat_val (vol_type s) (v AND fat_mask (vol_type s)) else fat_get s c)"
    "\<And>b. b \<notin> fat_area s \<Longrightarrow> blk s' b = blk s b \<and> dirty s' b = dirty s b"
    "\<And>b. dirty s b \<Longrightarrow> dirty s' b"
    "\<And>b. blk s' b \<noteq> blk s b \<Longrightarrow> dirty s' b"
proof -
  note l = fat_ok_loc [OF assms]
  obtain s' where s': "FAT_write s loc v = (s', 0)" and w: "fat_written s loc v s'"
    using FAT_write_store [OF l(3,1,2)] by blast
  have ff: "fat_frame s s'" and m: "fat_mem s' = fat_store (vol_type s) (fat_mem s) (unat loc) v"
    and r: "fat_ready s'" using w by (simp_all add: fat_written_def)
  have b: "if b \<in> fat_sector s ` fat_span (vol_type s) (unat loc) then dirty s' b
      else blk s' b = blk s b \<and> dirty s' b = dirty s b" for b
    using w by (simp add: fat_written_def)
  show thesis
  proof (rule that [OF s' fat_ok_frame [OF assms(1) ff r] ff])
    fix c
    show "fat_get s' c = (if c = loc then fat_val (vol_type s) (v AND fat_mask (vol_type s)) else fat_get s c)"
      using fat_frame_fields(2) [OF ff] by (simp add: fat_get_def m fat.raw_store_if word_unat_eq_iff)
  next
    fix b assume "b \<notin> fat_area s"
    then have "b \<notin> fat_sector s ` fat_span (vol_type s) (unat loc)"
      using assms(2) by (auto simp: fat_area_def word_less_nat_alt)
    then show "blk s' b = blk s b \<and> dirty s' b = dirty s b" using b [of b] by simp
  next
    fix b assume "dirty s b" then show "dirty s' b" using b [of b] by (auto split: if_splits)
  next
    fix b assume "blk s' b \<noteq> blk s b" then show "dirty s' b" using b [of b] by (auto split: if_splits)
  qed
qed

lemma sample_fat_ok: "fat_ok (sample_sb k)"
proof -
  have f: "blk (sample_sb k) = (\<lambda>_. replicate 512 0)" "sector_size (sample_sb k) = 512" "sector_size_bits (sample_sb k) = 9"
     "sector_size_mask (sample_sb k) = 511" "vol_type (sample_sb k) = k" "num_clusters (sample_sb k) = 66"
     "FAT1_start_sector (sample_sb k) = 1"
    by (simp_all add: sample_fields blank_sb_def)
  have "fat_ready (sample_sb k)"
    using sample_inv(1) sample_io by (simp add: fat_ready_def geom_def f)
  moreover have "\<not> out_of_range (sample_sb k) (fat_sector (sample_sb k) p)" if "l < 66" "p \<in> fat_span k l" for l p
  proof -
    have "p < 264" using that by (cases k) (auto simp: fat_span_def)
    then have "p div 512 = 0" by simp
    then show ?thesis by (simp add: sample_io fat_sector_def f word_le_nat_alt)
  qed
  ultimately show ?thesis by (simp add: fat_ok_def f)
qed

text \<open>
  C4: Read after write, for FAT12, FAT16, FAT32 and exFAT: on a working volume \<open>FAT_write\<close> succeeds; afterwards
  \<open>FAT_read\<close> of the written entry returns the value cut to the format's width (an end-of-chain code as \<open>~0\<close>) and of
  every other entry what it returned before, even where two FAT12 entries share a byte or an entry crosses sectors.
\<close>

theorem FAT_read_after_write:
  assumes "fat_ok s" "a < num_clusters s" "b < num_clusters s"
  shows "\<exists>s1 s2 s3. FAT_write s a v = (s1, 0) \<and> FAT_read s b = (s3, Some (fat_get s b)) \<and>
     FAT_read s1 b = (s2, Some (if b = a then fat_val (vol_type s) (v AND fat_mask (vol_type s)) else fat_get s b)) \<and>
     (\<forall>n. n \<notin> fat_area s \<longrightarrow> blk s2 n = blk s n) \<and> (\<forall>n. blk s2 n \<noteq> blk s n \<longrightarrow> dirty s2 n)"
proof -
  obtain s1 where s1: "FAT_write s a v = (s1, 0)" "fat_ok s1" "fat_frame s s1"
    "\<And>c. fat_get s1 c = (if c = a then fat_val (vol_type s) (v AND fat_mask (vol_type s)) else fat_get s c)"
    "\<And>n. n \<notin> fat_area s \<Longrightarrow> blk s1 n = blk s n \<and> dirty s1 n = dirty s n"
    "\<And>n. blk s1 n \<noteq> blk s n \<Longrightarrow> dirty s1 n"
    using FAT_write_ok [OF assms(1,2), of v] by metis
  have "b < num_clusters s1" using assms(3) fat_frame_fields [OF s1(3)] by simp
  then obtain s2 where s2: "FAT_read s1 b = (s2, Some (fat_get s1 b))" "blk s2 = blk s1" "dirty s2 = dirty s1"
    using FAT_read_ok [OF s1(2)] by blast
  obtain s3 where "FAT_read s b = (s3, Some (fat_get s b))" using FAT_read_ok [OF assms(1,3)] by blast
  then show ?thesis using s1 s2 by auto
qed

theorem FAT_read_after_write_witness:
  "\<exists>s1 s2 s3. FAT_write (sample_sb FAT12) 5 0x123 = (s1, 0) \<and> FAT_read (sample_sb FAT12) 5 = (s3, Some (fat_get (sample_sb FAT12) 5)) \<and>
     FAT_read s1 5 = (s2, Some 0x123) \<and>
     (\<forall>n. n \<notin> fat_area (sample_sb FAT12) \<longrightarrow> blk s2 n = blk (sample_sb FAT12) n) \<and>
     (\<forall>n. blk s2 n \<noteq> blk (sample_sb FAT12) n \<longrightarrow> dirty s2 n)"
proof -
  have "num_clusters (sample_sb FAT12) = 66" "vol_type (sample_sb FAT12) = FAT12"
    by (simp_all add: sample_fields blank_sb_def)
  then show ?thesis
    using FAT_read_after_write [OF sample_fat_ok [of FAT12], of 5 5 "0x123"]
    by (simp add: fat_mask_def fat_val_def fat_limit_def)
qed

end
