(* ===== verification/AllocBitmap.thy ===== *)
theory AllocBitmap
  imports FatApi
begin

text \<open>
  The exFAT allocation bitmap of \<open>exfat_core.c\<close>: \<open>set_alloc_bitmap\<close>, \<open>clr_alloc_bitmap\<close>, \<open>test_alloc_bitmap\<close>,
  \<open>exfat_count_used_clusters\<close>, \<open>sync_alloc_bitmap\<close>, \<open>free_alloc_bitmap\<close>.  The array \<open>vol_amap\<close> of buffer heads is a list; an
  access outside it or through \<open>NULL\<close> stops the kernel (\<open>panicked\<close>).
\<close>

definition amap_bh :: "sb \<Rightarrow> nat \<Rightarrow> u32 option" where
  "amap_bh s i = (if i < length (vol_amap s) then vol_amap s ! i else None)"

definition kernel_oops :: "sb \<Rightarrow> sb" where
  "kernel_oops s = s\<lparr>panicked := True\<rparr>"

definition amap_index :: "sb \<Rightarrow> u32 \<Rightarrow> nat" where
  "amap_index s clu = unat (drop_bit (sector_size_bits s + 3) clu)"

definition amap_bit :: "sb \<Rightarrow> u32 \<Rightarrow> nat" where
  "amap_bit s clu = unat (clu AND of_s32 (push_bit 3 (sector_size s) - 1))"

definition set_alloc_bitmap :: "sb \<Rightarrow> u32 \<Rightarrow> sb \<times> ffs" where
  "set_alloc_bitmap s clu =
     (let i = amap_index s clu; b = amap_bit s clu; sector = START_SECTOR s (map_clu s) + of_nat i
      in case amap_bh s i of
           None \<Rightarrow> (kernel_oops s, FFS_MEDIAERR)
         | Some bh \<Rightarrow> sector_write (put_block s bh (exfat_bitmap_set (blk s bh) b)) sector (Some bh) False)"

definition clr_alloc_bitmap :: "sb \<Rightarrow> u32 \<Rightarrow> sb \<times> ffs" where
  "clr_alloc_bitmap s clu =
     (let i = amap_index s clu; b = amap_bit s clu; sector = START_SECTOR s (map_clu s) + of_nat i
      in case amap_bh s i of
           None \<Rightarrow> (kernel_oops s, FFS_MEDIAERR)
         | Some bh \<Rightarrow> sector_write (put_block s bh (exfat_bitmap_clear (blk s bh) b)) sector (Some bh) False)"

text \<open>
  The loop of \<open>test_alloc_bitmap\<close>: \<open>n\<close> iterations remain.  Reading outside the map reads an unknown byte in C; here it
  ends the search with the invalid cluster, like an oops.
\<close>

fun test_loop :: "nat \<Rightarrow> sb \<Rightarrow> nat \<Rightarrow> nat \<Rightarrow> u32 \<Rightarrow> u8 \<Rightarrow> u32" where
  "test_loop 0 s map_i map_b clu_base clu_mask = CLUSTER_EOF"
| "test_loop (Suc n) s map_i map_b clu_base clu_mask =
     (case amap_bh s map_i of
        None \<Rightarrow> CLUSTER_EOF
      | Some bh \<Rightarrow>
          let k = blk s bh ! map_b;
              k = (if clu_mask > 0 then k OR clu_mask else k);
              clu_free = clu_base + ucast (free_bit ! unat k)
          in if k < 0xFF \<and> clu_free < num_clusters s then clu_free
             else let clu_base = clu_base + 8
                  in if int (map_b + 1) \<ge> sector_size s \<or> clu_base \<ge> num_clusters s
                     then if map_i + 1 \<ge> unat (map_sectors s)
                          then test_loop n s 0 0 2 0
                          else test_loop n s (map_i + 1) 0 clu_base 0
                     else test_loop n s map_i (map_b + 1) clu_base 0)"

definition loop8 :: "sb \<Rightarrow> nat" where
  "loop8 s = (unat (num_clusters s) - 2 + 7) div 8"

definition test_alloc_bitmap :: "sb \<Rightarrow> u32 \<Rightarrow> u32" where
  "test_alloc_bitmap s clu =
     (let clu_base = (clu AND NOT 7) + 2;
          clu_mask = push_bit (unat (clu - clu_base + 2)) 1 - 1
      in test_loop (loop8 s) s (amap_index s clu) (unat (drop_bit 3 clu AND of_s32 (sector_size_mask s))) clu_base clu_mask)"

fun count_loop :: "nat \<Rightarrow> sb \<Rightarrow> nat \<Rightarrow> nat \<Rightarrow> int \<Rightarrow> int" where
  "count_loop 0 s map_i map_b count = count"
| "count_loop (Suc n) s map_i map_b count =
     (case amap_bh s map_i of
        None \<Rightarrow> count
      | Some bh \<Rightarrow>
          let k = blk s bh ! map_b;
              count = count + int (unat (used_bit ! unat k))
          in if int (map_b + 1) \<ge> sector_size s then count_loop n s (map_i + 1) 0 count
             else count_loop n s map_i (map_b + 1) count)"

definition exfat_count_used_clusters :: "sb \<Rightarrow> sb \<times> int" where
  "exfat_count_used_clusters s = (s, count_loop (loop8 s) s 0 0 0)"

definition sync_alloc_bitmap :: "sb \<Rightarrow> sb" where
  "sync_alloc_bitmap s =
     (if vol_amap s = [] then s
      else fold (\<lambda>i s. case amap_bh s i of None \<Rightarrow> s | Some b \<Rightarrow> fst (sync_dirty_buffer s b)) [0..<unat (map_sectors s)] s)"

definition free_alloc_bitmap :: "sb \<Rightarrow> sb" where
  "free_alloc_bitmap s = s\<lparr>vol_amap := []\<rparr>"

section \<open>The bitmap as a set of clusters\<close>

text \<open>
  The map is in place: one loaded buffer per map sector, on the volume, enough of them for all clusters and no more.
  Bit \<open>n\<close> of the map stands for cluster \<open>n + 2\<close>; \<open>allocated s n\<close> is its value.
\<close>

definition amap_sector :: "sb \<Rightarrow> nat \<Rightarrow> u32" where
  "amap_sector s i = START_SECTOR s (map_clu s) + of_nat i"

definition amap_ok :: "sb \<Rightarrow> bool" where
  "amap_ok s \<longleftrightarrow> io_ready s \<and> geom s \<and> 2 < num_clusters s \<and> num_clusters s < 0xFFFFFFF0 \<and>
     length (vol_amap s) = unat (map_sectors s) \<and>
     (\<forall>i < unat (map_sectors s). vol_amap s ! i = Some (amap_sector s i) \<and> \<not> out_of_range s (amap_sector s i)) \<and>
     unat (num_clusters s) - 2 \<le> unat (map_sectors s) * 2 ^ (sector_size_bits s + 3) \<and>
     (unat (map_sectors s) - 1) * 2 ^ (sector_size_bits s + 3) < unat (num_clusters s) - 2"

definition amap_cap :: "sb \<Rightarrow> nat" where
  "amap_cap s = unat (map_sectors s) * 2 ^ (sector_size_bits s + 3)"

definition amap_byte :: "sb \<Rightarrow> nat \<Rightarrow> u8" where
  "amap_byte s j = blk s (amap_sector s (j div 2 ^ sector_size_bits s)) ! (j mod 2 ^ sector_size_bits s)"

definition allocated :: "sb \<Rightarrow> nat \<Rightarrow> bool" where
  "allocated s n \<longleftrightarrow> n < amap_cap s \<and> bit (amap_byte s (n div 8)) (n mod 8)"

definition amap_area :: "sb \<Rightarrow> u32 set" where
  "amap_area s = amap_sector s ` {..<unat (map_sectors s)}"

lemma split_position:
  fixes n q :: nat
  shows "n div (q * 8) = n div 8 div q" "n mod (q * 8) div 8 = n div 8 mod q" "n mod (q * 8) mod 8 = n mod 8"
  by (simp_all add: mult.commute [of q] div_mult2_eq mod_mult2_eq)

lemma mod_bound8: "0 < k \<Longrightarrow> n mod (k * 8) < 8 * k" for n k :: nat
  by (simp add: mult.commute [of 8])

lemma allocated_bits:
  assumes "geom s" "n < amap_cap s"
  defines "q \<equiv> 2 ^ (sector_size_bits s + 3)"
  shows "allocated s n \<longleftrightarrow> n mod q \<in> bits_of (blk s (amap_sector s (n div q)))"
proof -
  have q: "q = 2 ^ sector_size_bits s * 8" by (simp add: q_def power_add)
  have "n mod q < 8 * 2 ^ sector_size_bits s" by (simp add: q mod_bound8)
  moreover have "length (blk s b) = 2 ^ sector_size_bits s" for b using assms(1) by (simp add: geom_def)
  ultimately show ?thesis
    using assms(2) unfolding q allocated_def amap_byte_def bits_of_def mem_Collect_eq split_position by simp
qed

lemma amap_sector_inj: "i < 2 ^ 32 \<Longrightarrow> j < 2 ^ 32 \<Longrightarrow> amap_sector s i = amap_sector s j \<longleftrightarrow> i = j"
  using of_nat_inverse [where 'a=32, of i "of_nat j"] of_nat_inverse [where 'a=32, of j "of_nat j"]
  by (auto simp: amap_sector_def simp del: of_nat_eq_iff)

lemma amap_sectors_bound: "unat (map_sectors s) < 2 ^ 32"
  using unsigned_less [of "map_sectors s"] by simp

lemma amap_frame:
  assumes "fat_frame s s'"
  shows "amap_sector s' = amap_sector s" "amap_cap s' = amap_cap s" "amap_area s' = amap_area s"
  using fat_frame_fields [OF assms] fat_frame_derived [OF assms]
  by (simp_all add: fun_eq_iff amap_sector_def amap_cap_def amap_area_def)

lemma amap_ok_frame:
  assumes "amap_ok s" "fat_frame s s'" "geom s'"
  shows "amap_ok s'"
  using assms(1,3) fat_frame_fields [OF assms(2)] fat_frame_derived [OF assms(2)] amap_frame [OF assms(2)]
  by (simp add: amap_ok_def)

lemma allocated_frame:
  assumes "fat_frame s s'" "\<And>b. b \<in> amap_area s \<Longrightarrow> blk s' b = blk s b"
  shows "allocated s' = allocated s"
proof
  fix n
  have "amap_byte s' (n div 8) = amap_byte s (n div 8)" if "n < amap_cap s"
  proof -
    have "n div 8 div 2 ^ sector_size_bits s < unat (map_sectors s)"
      using that less_mult_imp_div_less [of n "unat (map_sectors s)" "2 ^ (sector_size_bits s + 3)"]
      by (simp add: amap_cap_def power_add split_position(1))
    then show ?thesis
      using assms(2) fat_frame_fields(6) [OF assms(1)] amap_frame(1) [OF assms(1)] by (simp add: amap_byte_def amap_area_def)
  qed
  then show "allocated s' n = allocated s n" using amap_frame(2) [OF assms(1)] by (auto simp: allocated_def)
qed

section \<open>Setting and clearing\<close>

lemma amap_position:
  assumes "amap_ok s" "unat clu < amap_cap s"
  defines "q \<equiv> 2 ^ (sector_size_bits s + 3)"
  shows "amap_index s clu = unat clu div q" "amap_bit s clu = unat clu mod q" "amap_index s clu < unat (map_sectors s)"
    "amap_bh s (amap_index s clu) = Some (amap_sector s (amap_index s clu))" "amap_bit s clu < 8 * 2 ^ sector_size_bits s"
    "\<not> out_of_range s (amap_sector s (amap_index s clu))" "amap_sector s (amap_index s clu) \<in> amap_area s"
proof -
  have g: "geom s" using assms(1) by (simp add: amap_ok_def)
  show i: "amap_index s clu = unat clu div q" by (simp add: amap_index_def unat_drop_bit q_def)
  have "push_bit 3 (sector_size s) - 1 = 2 ^ (sector_size_bits s + 3) - 1"
    using g by (simp add: geom_def push_bit_eq_mult power_add)
  then show b: "amap_bit s clu = unat clu mod q" by (simp add: amap_bit_def of_s32_mask unat_and_mask q_def)
  show i': "amap_index s clu < unat (map_sectors s)"
    unfolding i q_def by (rule less_mult_imp_div_less) (use assms(2) in \<open>simp add: amap_cap_def\<close>)
  show "amap_bit s clu < 8 * 2 ^ sector_size_bits s" by (simp add: b q_def power_add mod_bound8)
  show "amap_bh s (amap_index s clu) = Some (amap_sector s (amap_index s clu))"
    "\<not> out_of_range s (amap_sector s (amap_index s clu))" "amap_sector s (amap_index s clu) \<in> amap_area s"
    using assms(1) i' by (simp_all add: amap_ok_def amap_bh_def amap_area_def)
qed

lemma amap_update:
  assumes "amap_ok s" "unat clu < amap_cap s" "length d = 2 ^ sector_size_bits s"
  defines "sec \<equiv> amap_sector s (amap_index s clu)"
  defines "s' \<equiv> mark_buffer_dirty (put_block s sec d) sec"
  shows "sector_write (put_block s sec d) sec (Some sec) False = (s', FFS_SUCCESS)" "fat_frame s s'" "geom s'" "amap_ok s'"
    "blk s' = (blk s)(sec := d)" "dirty s' = (dirty s)(sec := True)"
    "allocated s' n \<longleftrightarrow> (if n div 2 ^ (sector_size_bits s + 3) = amap_index s clu
       then n < amap_cap s \<and> n mod 2 ^ (sector_size_bits s + 3) \<in> bits_of d else allocated s n)"
proof -
  let ?t = "put_block s sec d"
  have g: "geom s" using assms(1) by (simp add: amap_ok_def)
  show ff: "fat_frame s s'" unfolding s'_def using fat_frame_put fat_frame_trans by blast
  show b: "blk s' = (blk s)(sec := d)" and "dirty s' = (dirty s)(sec := True)"
    by (simp_all add: s'_def mark_buffer_dirty_def put_block_def)
  show g': "geom s'" using g b assms(3) fat_frame_fields [OF ff] by (simp add: geom_def)
  show "amap_ok s'" by (rule amap_ok_frame [OF assms(1) ff g'])
  have "io_ready ?t" "\<not> out_of_range ?t sec"
    using fat_frame_derived [OF fat_frame_put(1)] amap_position(6) [OF assms(1,2)] assms(1) by (simp_all add: amap_ok_def sec_def)
  then show "sector_write ?t sec (Some sec) False = (s', FFS_SUCCESS)" unfolding s'_def by (rule sector_write_ok)
  show "allocated s' n \<longleftrightarrow> (if n div 2 ^ (sector_size_bits s + 3) = amap_index s clu
       then n < amap_cap s \<and> n mod 2 ^ (sector_size_bits s + 3) \<in> bits_of d else allocated s n)"
  proof (cases "n < amap_cap s")
    case True
    let ?q = "2 ^ (sector_size_bits s + 3) :: nat"
    have "n div ?q < 2 ^ 32"
      using less_mult_imp_div_less [of n "unat (map_sectors s)" ?q] True amap_sectors_bound [of s] by (simp add: amap_cap_def)
    moreover have "amap_index s clu < 2 ^ 32"
      using amap_position(3) [OF assms(1,2)] amap_sectors_bound [of s] by simp
    ultimately have e: "amap_sector s (n div ?q) = sec \<longleftrightarrow> n div ?q = amap_index s clu"
      unfolding sec_def by (rule amap_sector_inj)
    show ?thesis
      using True allocated_bits [OF g True] allocated_bits [of s' n] g' amap_frame [OF ff] fat_frame_fields(6) [OF ff] e
      by (auto simp: b)
  next
    case False
    then show ?thesis using amap_frame(2) [OF ff] by (simp add: allocated_def)
  qed
qed

lemma same_position: "n div q = m div q \<Longrightarrow> n mod q = m mod q \<longleftrightarrow> n = m" for n m q :: nat
  by (metis div_mult_mod_eq)

lemma set_alloc_bitmap_ok:
  assumes "amap_ok s" "unat clu < amap_cap s"
  obtains s' where "set_alloc_bitmap s clu = (s', FFS_SUCCESS)" "amap_ok s'" "fat_frame s s'"
    "\<And>n. allocated s' n \<longleftrightarrow> n = unat clu \<or> allocated s n"
    "\<And>b. b \<notin> amap_area s \<Longrightarrow> blk s' b = blk s b \<and> dirty s' b = dirty s b"
    "\<And>b. blk s' b \<noteq> blk s b \<Longrightarrow> dirty s' b" "FATc.inv s' = FATc.inv s"
proof -
  note p = amap_position [OF assms]
  let ?sec = "amap_sector s (amap_index s clu)"
  let ?d = "exfat_bitmap_set (blk s ?sec) (amap_bit s clu)"
  have g: "geom s" using assms(1) by (simp add: amap_ok_def)
  then have l: "length ?d = 2 ^ sector_size_bits s" by (simp add: geom_def)
  note u = amap_update [OF assms l]
  let ?s' = "mark_buffer_dirty (put_block s ?sec ?d) ?sec"
  show thesis
  proof (rule that [of ?s'])
    show "set_alloc_bitmap s clu = (?s', FFS_SUCCESS)"
      using u(1) p(4) by (simp add: set_alloc_bitmap_def Let_def amap_sector_def)
    show "amap_ok ?s'" "fat_frame s ?s'" by (rule u)+
    show "allocated ?s' n \<longleftrightarrow> n = unat clu \<or> allocated s n" for n
      unfolding u(7) using allocated_bits [OF g, of n] p(5) assms(2) g
      by (cases "n < amap_cap s")
        (auto simp: bits_of_set geom_def p(1,2) same_position, auto simp: allocated_def)
    show "b \<notin> amap_area s \<Longrightarrow> blk ?s' b = blk s b \<and> dirty ?s' b = dirty s b" for b
      unfolding u(5,6) using p(7) by auto
    show "blk ?s' b \<noteq> blk s b \<Longrightarrow> dirty ?s' b" for b unfolding u(5,6) by (simp split: if_splits)
    show "FATc.inv ?s' = FATc.inv s"
      using holds_cong_FAT [of ?s' s] by (simp add: mark_buffer_dirty_def put_block_def)
  qed
qed

lemma clr_alloc_bitmap_ok:
  assumes "amap_ok s" "unat clu < amap_cap s"
  obtains s' where "clr_alloc_bitmap s clu = (s', FFS_SUCCESS)" "amap_ok s'" "fat_frame s s'"
    "\<And>n. allocated s' n \<longleftrightarrow> n \<noteq> unat clu \<and> allocated s n"
    "\<And>b. b \<notin> amap_area s \<Longrightarrow> blk s' b = blk s b \<and> dirty s' b = dirty s b"
    "\<And>b. blk s' b \<noteq> blk s b \<Longrightarrow> dirty s' b" "FATc.inv s' = FATc.inv s"
proof -
  note p = amap_position [OF assms]
  let ?sec = "amap_sector s (amap_index s clu)"
  let ?d = "exfat_bitmap_clear (blk s ?sec) (amap_bit s clu)"
  have g: "geom s" using assms(1) by (simp add: amap_ok_def)
  then have l: "length ?d = 2 ^ sector_size_bits s" by (simp add: geom_def)
  note u = amap_update [OF assms l]
  let ?s' = "mark_buffer_dirty (put_block s ?sec ?d) ?sec"
  show thesis
  proof (rule that [of ?s'])
    show "clr_alloc_bitmap s clu = (?s', FFS_SUCCESS)"
      using u(1) p(4) by (simp add: clr_alloc_bitmap_def Let_def amap_sector_def)
    show "amap_ok ?s'" "fat_frame s ?s'" by (rule u)+
    show "allocated ?s' n \<longleftrightarrow> n \<noteq> unat clu \<and> allocated s n" for n
      unfolding u(7) using allocated_bits [OF g, of n] p(5) assms(2) g
      by (cases "n < amap_cap s")
        (auto simp: bits_of_clear geom_def p(1,2) same_position, auto simp: allocated_def)
    show "b \<notin> amap_area s \<Longrightarrow> blk ?s' b = blk s b \<and> dirty ?s' b = dirty s b" for b
      unfolding u(5,6) using p(7) by auto
    show "blk ?s' b \<noteq> blk s b \<Longrightarrow> dirty ?s' b" for b unfolding u(5,6) by (simp split: if_splits)
    show "FATc.inv ?s' = FATc.inv s"
      using holds_cong_FAT [of ?s' s] by (simp add: mark_buffer_dirty_def put_block_def)
  qed
qed

end
