(* ===== verification/AllocSearch.thy ===== *)
theory AllocSearch
  imports AllocBitmap
begin

text \<open>
  What the scan loops of the allocation bitmap compute.  \<open>test_alloc_bitmap\<close> is the first free cluster of an explicit
  search order, and \<open>exfat_count_used_clusters\<close> is the number of bits set in the bytes that hold the clusters.
\<close>

section \<open>One byte of the map\<close>

definition byte_range :: "nat \<Rightarrow> nat \<Rightarrow> nat \<Rightarrow> nat list" where
  "byte_range N j lo = [8 * j + lo..<min (8 * j + 8) N]"

lemma find_first:
  assumes "P k" "a \<le> k" "k < b" "\<And>j. a \<le> j \<Longrightarrow> j < k \<Longrightarrow> \<not> P j"
  shows "find P [a..<b] = Some k"
proof -
  have "[a..<b] = [a..<k] @ k # [Suc k..<b]" using assms(2,3) upt_add_eq_append [of a k "b - k"] by (simp add: upt_conv_Cons)
  moreover have "find P [a..<k] = None" using assms(4) by (auto simp: find_None_iff)
  moreover have "find P (xs @ y # ys) = Some y" if "find P xs = None" "P y" for xs y ys
    using that by (induction xs) (auto split: if_splits)
  ultimately show ?thesis using assms(1) by simp
qed

lemma find_append: "find P (xs @ ys) = (case find P xs of Some x \<Rightarrow> Some x | None \<Rightarrow> find P ys)"
  by (induction xs) auto

definition free_in :: "sb \<Rightarrow> nat \<Rightarrow> bool" where
  "free_in s n \<longleftrightarrow> \<not> allocated s n"

text \<open>The byte with its \<open>lo\<close> low bits masked out: the table entry names the first free bit of the byte at or above \<open>lo\<close>.\<close>

lemma scan_byte:
  fixes j :: nat
  assumes "\<And>n. n < N \<Longrightarrow> free_in s n \<longleftrightarrow> \<not> bit (amap_byte s (n div 8)) (n mod 8)" "lo < 8"
  defines "k \<equiv> amap_byte s j OR mask lo"
  shows "find (free_in s) (byte_range N j lo) =
    (if k < 0xFF \<and> 8 * j + unat (free_bit ! unat k) < N then Some (8 * j + unat (free_bit ! unat k)) else None)"
proof -
  let ?f = "unat (free_bit ! unat k)"
  have bitk: "bit k i \<longleftrightarrow> bit (amap_byte s j) i \<or> i < lo" if "i < 8" for i
    using that assms(2) by (auto simp: k_def bit_or_iff bit_mask_iff)
  have free: "free_in s (8 * j + i) \<longleftrightarrow> \<not> bit (amap_byte s j) i" if "i < 8" "8 * j + i < N" for i
    using assms(1) [OF that(2)] that(1) by simp
  show ?thesis
  proof (cases "k < 0xFF")
    case True
    note f = free_bit_lowest [OF True]
    have lo: "lo \<le> ?f" using bitk [OF f(1)] f(2) by auto
    have below: "\<not> free_in s n" if n: "8 * j + lo \<le> n" "n < 8 * j + ?f" "n < N" for n
    proof -
      obtain i where i: "n = 8 * j + i" using n(1) le_iff_add [of "8 * j" n] by auto
      then have "i < 8" "bit k i" "lo \<le> i" using n f(1) f(3) [of i] by auto
      then show ?thesis using free [of i] bitk [of i] i n(3) by auto
    qed
    show ?thesis
    proof (cases "8 * j + ?f < N")
      case inside: True
      have "find (free_in s) [8 * j + lo..<min (8 * j + 8) N] = Some (8 * j + ?f)"
      proof (rule find_first)
        show "free_in s (8 * j + ?f)" using free [OF f(1) inside] bitk [OF f(1)] f(2) by simp
      qed (use lo f(1) inside below in auto)
      then show ?thesis using True inside by (simp add: byte_range_def)
    next
      case False
      then show ?thesis using below by (auto simp: byte_range_def find_None_iff)
    qed
  next
    case False
    have "k = 0xFF"
      using False unat_byte [of k] by (simp add: word_less_nat_alt word_unat_eq_iff)
    then have ff: "k = mask 8" by (simp add: mask_numeral)
    have "\<not> free_in s n" if n: "8 * j + lo \<le> n" "n < 8 * j + 8" "n < N" for n
    proof -
      obtain i where i: "n = 8 * j + i" using n(1) le_iff_add [of "8 * j" n] by auto
      then have "i < 8" "lo \<le> i" using n by auto
      moreover have "bit k i" using \<open>i < 8\<close> by (simp add: ff bit_mask_iff)
      ultimately show ?thesis using free [of i] bitk [of i] i n(3) by auto
    qed
    then show ?thesis using False by (auto simp: byte_range_def find_None_iff)
  qed
qed

section \<open>The scan\<close>

text \<open>The bytes the loop visits after byte \<open>j\<close> when the map has \<open>L\<close> of them.\<close>

fun byte_walk :: "nat \<Rightarrow> nat \<Rightarrow> nat \<Rightarrow> nat list" where
  "byte_walk L 0 j = []"
| "byte_walk L (Suc n) j = j # byte_walk L n (if Suc j \<ge> L then 0 else Suc j)"

definition found :: "nat option \<Rightarrow> u32" where
  "found r = (case r of None \<Rightarrow> CLUSTER_EOF | Some n \<Rightarrow> of_nat (n + 2))"

definition data_clusters :: "sb \<Rightarrow> nat" where
  "data_clusters s = unat (num_clusters s) - 2"

lemma amap_ok_bounds:
  assumes "amap_ok s"
  shows "unat (num_clusters s) = data_clusters s + 2" "0 < data_clusters s" "data_clusters s < 2 ^ 32 - 18"
    "data_clusters s \<le> amap_cap s" "loop8 s = (data_clusters s + 7) div 8"
    "(unat (map_sectors s) - 1) * (8 * 2 ^ sector_size_bits s) < data_clusters s"
  using assms by (auto simp: amap_ok_def data_clusters_def amap_cap_def loop8_def word_less_nat_alt power_add mult_ac)

lemma loop8_less: "amap_ok s \<Longrightarrow> j < loop8 s \<Longrightarrow> 8 * j < data_clusters s"
  and loop8_geq: "amap_ok s \<Longrightarrow> loop8 s \<le> j \<Longrightarrow> data_clusters s \<le> 8 * j"
  using amap_ok_bounds(5) [of s] by auto

lemma amap_bh_byte:
  assumes "amap_ok s" "j < loop8 s"
  shows "amap_bh s (j div 2 ^ sector_size_bits s) = Some (amap_sector s (j div 2 ^ sector_size_bits s))"
proof -
  note b = amap_ok_bounds [OF assms(1)]
  have "8 * j < amap_cap s" using loop8_less [OF assms] b(4) by simp
  then have "j < unat (map_sectors s) * 2 ^ sector_size_bits s" by (simp add: amap_cap_def power_add)
  then have "j div 2 ^ sector_size_bits s < unat (map_sectors s)" by (rule less_mult_imp_div_less)
  then show ?thesis using assms(1) by (simp add: amap_ok_def amap_bh_def)
qed

lemma next_position:
  assumes "amap_ok s" "j < loop8 s"
  defines "i \<equiv> j div 2 ^ sector_size_bits s" and "b \<equiv> j mod 2 ^ sector_size_bits s"
  shows "Suc j < loop8 s \<Longrightarrow> int (b + 1) \<ge> sector_size s \<Longrightarrow>
      i + 1 < unat (map_sectors s) \<and> Suc j div 2 ^ sector_size_bits s = i + 1 \<and> Suc j mod 2 ^ sector_size_bits s = 0"
    and "Suc j < loop8 s \<Longrightarrow> \<not> int (b + 1) \<ge> sector_size s \<Longrightarrow>
      Suc j div 2 ^ sector_size_bits s = i \<and> Suc j mod 2 ^ sector_size_bits s = b + 1"
    and "Suc j \<ge> loop8 s \<Longrightarrow> i + 1 \<ge> unat (map_sectors s)"
proof -
  let ?q = "2 ^ sector_size_bits s :: nat"
  note d = amap_ok_bounds [OF assms(1)]
  have ss: "int (b + 1) \<ge> sector_size s \<longleftrightarrow> b + 1 \<ge> ?q"
    using assms(1) by (simp add: amap_ok_def geom_def flip: of_nat_power of_nat_Suc) linarith?
  have j: "j = i * ?q + b" and b: "b < ?q"
    unfolding i_def b_def by (rule div_mult_mod_eq [symmetric], simp)
  show "i + 1 < unat (map_sectors s) \<and> Suc j div ?q = i + 1 \<and> Suc j mod ?q = 0"
    if "Suc j < loop8 s" "int (b + 1) \<ge> sector_size s"
  proof -
    have e: "Suc j = (i + 1) * ?q" using that(2) b j ss by (simp add: algebra_simps)
    have "8 * Suc j < amap_cap s" using loop8_less [OF assms(1) that(1)] d(4) by simp
    then have "(i + 1) * ?q < unat (map_sectors s) * ?q" unfolding e by (simp add: amap_cap_def power_add)
    then have "i + 1 < unat (map_sectors s)" using mult_less_cancel2 by blast
    then show ?thesis unfolding e by simp
  qed
  show "Suc j div ?q = i \<and> Suc j mod ?q = b + 1" if "Suc j < loop8 s" "\<not> int (b + 1) \<ge> sector_size s"
  proof -
    have e: "Suc j = i * ?q + (b + 1)" and l: "b + 1 < ?q" using that(2) j ss by auto
    have "(i * ?q + c) div ?q = i \<and> (i * ?q + c) mod ?q = c" if "c < ?q" for c using that by simp
    from this [OF l] show ?thesis by (simp only: e)
  qed
  show "i + 1 \<ge> unat (map_sectors s)" if "Suc j \<ge> loop8 s"
  proof (rule ccontr)
    assume "\<not> ?thesis"
    then have "(i + 1) * (8 * ?q) \<le> (unat (map_sectors s) - 1) * (8 * ?q)" by (intro mult_right_mono) auto
    also have "\<dots> < data_clusters s" by (rule d(6))
    also have "\<dots> \<le> 8 * Suc j" by (rule loop8_geq [OF assms(1) that])
    finally show False using j b by (simp add: algebra_simps)
  qed
qed

lemma scan_hit:
  fixes f :: u8
  assumes "amap_ok s" "8 * j + unat f < 2 ^ 32 - 2"
  shows "of_nat (8 * j + 2) + ucast f < num_clusters s \<longleftrightarrow> 8 * j + unat f < data_clusters s"
    and "of_nat (8 * j + 2) + ucast f = found (Some (8 * j + unat f))"
proof -
  have e: "of_nat (8 * j + 2) + ucast f = (of_nat (8 * j + unat f + 2) :: u32)"
  proof -
    have "(ucast f :: u32) = of_nat (unat f)" by simp
    then show ?thesis by (simp only: of_nat_add ac_simps)
  qed
  show "of_nat (8 * j + 2) + ucast f = found (Some (8 * j + unat f))" using e by (simp add: found_def)
  have "unat (of_nat (8 * j + unat f + 2) :: u32) = 8 * j + unat f + 2"
    using assms(2) by (intro of_nat_inverse [OF refl]) simp
  then show "of_nat (8 * j + 2) + ucast f < num_clusters s \<longleftrightarrow> 8 * j + unat f < data_clusters s"
    unfolding e word_less_nat_alt using amap_ok_bounds(1) [OF assms(1)] by simp
qed

text \<open>One iteration, and then the whole loop, against the explicit list of candidates.\<close>

lemma free_in_byte:
  assumes "amap_ok s" "n < data_clusters s"
  shows "free_in s n \<longleftrightarrow> \<not> bit (amap_byte s (n div 8)) (n mod 8)"
  using assms amap_ok_bounds(4) [OF assms(1)] by (simp add: free_in_def allocated_def)

lemma or_mask_case: "(if mask lo > (0 :: u8) then k OR mask lo else k) = k OR mask lo" for k :: u8
proof (cases "mask lo = (0 :: u8)")
  case True
  show ?thesis unfolding True by simp
next
  case False
  then have "(0 :: u8) < mask lo" by (metis word_neq_0_conv)
  then show ?thesis by (rule if_P)
qed

lemma test_loop_walk:
  assumes "amap_ok s" "j < loop8 s" "lo < 8"
  shows "test_loop n s (j div 2 ^ sector_size_bits s) (j mod 2 ^ sector_size_bits s) (of_nat (8 * j + 2)) (mask lo) =
    found (case byte_walk (loop8 s) n j of [] \<Rightarrow> None
      | k # ks \<Rightarrow> find (free_in s) (byte_range (data_clusters s) k lo @ concat (map (\<lambda>k. byte_range (data_clusters s) k 0) ks)))"
  using assms(2,3)
proof (induction n arbitrary: j lo)
  case 0
  then show ?case by (simp add: found_def)
next
  case (Suc n)
  let ?q = "2 ^ sector_size_bits s :: nat" and ?N = "data_clusters s"
  let ?k = "amap_byte s j OR mask lo"
  let ?f = "free_bit ! unat ?k"
  let ?rest = "concat (map (\<lambda>k. byte_range ?N k 0) (byte_walk (loop8 s) n (if loop8 s \<le> Suc j then 0 else Suc j)))"
  note b = amap_ok_bounds [OF assms(1)]
  have j8: "8 * j < ?N" by (rule loop8_less [OF assms(1) Suc.prems(1)])
  have scan: "find (free_in s) (byte_range ?N j lo) =
    (if ?k < 0xFF \<and> 8 * j + unat ?f < ?N then Some (8 * j + unat ?f) else None)"
    by (rule scan_byte [OF free_in_byte [OF assms(1)] Suc.prems(2)])
  have hit: "?k < 0xFF \<and> of_nat (8 * j + 2) + ucast ?f < num_clusters s \<longleftrightarrow> ?k < 0xFF \<and> 8 * j + unat ?f < ?N"
    using scan_hit(1) [OF assms(1), of j ?f] free_bit_lowest(1) [of ?k] j8 b(3) by auto
  have nxt: "test_loop n s i' b' (of_nat (8 * j' + 2)) 0 = found (find (free_in s) ?rest)"
    if "j' = (if loop8 s \<le> Suc j then 0 else Suc j)" "i' = j' div ?q" "b' = j' mod ?q" for i' b' j'
  proof -
    have "j' < loop8 s" using that(1) Suc.prems(1) by auto
    from Suc.IH [OF this, of 0] show ?thesis
      using that by (auto split: list.split)
  qed
  have wrap: "of_nat (8 * j + 2) + 8 \<ge> num_clusters s \<longleftrightarrow> loop8 s \<le> Suc j"
  proof -
    have e: "(of_nat (8 * j + 2) + 8 :: u32) = of_nat (8 * j + 10)" by simp
    have u: "unat (of_nat (8 * j + 10) :: u32) = 8 * j + 10"
      using j8 b(3) by (intro of_nat_inverse [OF refl]) simp
    show ?thesis
      using loop8_less [OF assms(1), of "Suc j"] loop8_geq [OF assms(1), of "Suc j"] b(1)
      unfolding e word_le_nat_alt u by (cases "loop8 s \<le> Suc j") auto
  qed
  have byte: "blk s (amap_sector s (j div ?q)) ! (j mod ?q) = amap_byte s j" by (simp add: amap_byte_def)
  have tl: "test_loop (Suc n) s (j div ?q) (j mod ?q) (of_nat (8 * j + 2)) (mask lo) =
      (if ?k < 0xFF \<and> 8 * j + unat ?f < ?N then found (Some (8 * j + unat ?f)) else found (find (free_in s) ?rest))"
  proof (cases "?k < 0xFF \<and> 8 * j + unat ?f < ?N")
    case True
    then have "of_nat (8 * j + 2) + ucast ?f = found (Some (8 * j + unat ?f))"
      using scan_hit(2) [OF assms(1), of j ?f] b(3) by auto
    then show ?thesis
      using True hit unfolding test_loop.simps amap_bh_byte [OF assms(1) Suc.prems(1)] option.case Let_def byte or_mask_case by simp
  next
    case False
    have base: "of_nat (8 * j + 2) + 8 = (of_nat (8 * Suc j + 2) :: u32)" by simp
    note np = next_position [OF assms(1) Suc.prems(1)]
    show ?thesis
      using False hit
      unfolding test_loop.simps amap_bh_byte [OF assms(1) Suc.prems(1)] option.case Let_def byte or_mask_case wrap
    proof (simp only: if_False, cases "loop8 s \<le> Suc j")
      case True
      then show "(if sector_size s \<le> int (j mod ?q + 1) \<or> loop8 s \<le> Suc j
        then if unat (map_sectors s) \<le> j div ?q + 1 then test_loop n s 0 0 2 0
             else test_loop n s (j div ?q + 1) 0 (of_nat (8 * j + 2) + 8) 0
        else test_loop n s (j div ?q) (j mod ?q + 1) (of_nat (8 * j + 2) + 8) 0) = found (find (free_in s) ?rest)"
        using np(3) [OF True] nxt [of 0 0 0] by simp
    next
      case False
      then show "(if sector_size s \<le> int (j mod ?q + 1) \<or> loop8 s \<le> Suc j
        then if unat (map_sectors s) \<le> j div ?q + 1 then test_loop n s 0 0 2 0
             else test_loop n s (j div ?q + 1) 0 (of_nat (8 * j + 2) + 8) 0
        else test_loop n s (j div ?q) (j mod ?q + 1) (of_nat (8 * j + 2) + 8) 0) = found (find (free_in s) ?rest)"
        using np(1,2) nxt [of "Suc j"] unfolding base by (cases "sector_size s \<le> int (j mod ?q + 1)") auto
    qed
  qed
  show ?case
    unfolding tl byte_walk.simps list.case find_append scan by simp
qed

lemma walk_up:
  "j + n \<le> L \<Longrightarrow> 0 < n \<Longrightarrow> byte_walk L (n + m) j = [j..<j + n] @ byte_walk L m (if L \<le> j + n then 0 else j + n)"
proof (induction n arbitrary: j)
  case 0
  then show ?case by simp
next
  case (Suc n)
  show ?case
  proof (cases n)
    case 0
    then show ?thesis by simp
  next
    case (Suc n')
    then have "byte_walk L (n + m) (Suc j) = [Suc j..<Suc j + n] @ byte_walk L m (if L \<le> Suc j + n then 0 else Suc j + n)"
      using Suc.prems by (intro Suc.IH) auto
    moreover have "[j..<j + Suc n] = j # [Suc j..<Suc j + n]" by (simp add: upt_conv_Cons)
    ultimately show ?thesis using Suc.prems Suc by simp
  qed
qed

lemma walk_all:
  assumes "j < L"
  shows "byte_walk L L j = j # [Suc j..<L] @ [0..<j]"
proof -
  have 1: "byte_walk L ((L - j) + j) j = [j..<L] @ byte_walk L j 0"
    using assms by (subst walk_up) auto
  have 2: "byte_walk L j 0 = [0..<j]"
    using walk_up [of 0 j L 0] assms by (cases "j = 0") auto
  show ?thesis using 1 2 assms by (simp add: upt_conv_Cons)
qed

lemma concat_ranges:
  "a \<le> b \<Longrightarrow> concat (map (\<lambda>k. byte_range N k 0) [a..<b]) = [min (8 * a) N..<min (8 * b) N]"
proof (induction b)
  case 0
  then show ?case by simp
next
  case (Suc b)
  show ?case
  proof (cases "a \<le> b")
    case True
    have "[min (8 * a) N..<min (8 * Suc b) N] = [min (8 * a) N..<min (8 * b) N] @ [min (8 * b) N..<min (8 * Suc b) N]"
      using True upt_add_eq_append [of "min (8 * a) N" "min (8 * b) N" "min (8 * Suc b) N - min (8 * b) N"] by auto
    moreover have "byte_range N b 0 = [min (8 * b) N..<min (8 * Suc b) N]" by (cases "8 * b \<le> N") (auto simp: byte_range_def add.commute)
    ultimately show ?thesis using Suc.IH True by simp
  next
    case False
    then have "a = Suc b" using Suc.prems by simp
    then show ?thesis by simp
  qed
qed

definition search_order :: "nat \<Rightarrow> nat \<Rightarrow> nat list" where
  "search_order N c = [c..<N] @ [0..<8 * (c div 8)]"

lemma walk_order:
  assumes "c < N" "L = (N + 7) div 8"
  shows "(case byte_walk L L (c div 8) of [] \<Rightarrow> []
    | k # ks \<Rightarrow> byte_range N k (c mod 8) @ concat (map (\<lambda>k. byte_range N k 0) ks)) = search_order N c"
proof -
  let ?j = "c div 8"
  have j: "?j < L" using assms by auto
  have up: "concat (map (\<lambda>k. byte_range N k 0) [Suc ?j..<L]) = [min (8 * Suc ?j) N..<N]"
    using concat_ranges [of "Suc ?j" L N] j assms(2) by auto
  have down: "concat (map (\<lambda>k. byte_range N k 0) [0..<?j]) = [0..<8 * ?j]"
    using concat_ranges [of 0 ?j N] assms(1) by simp
  have "8 * ?j + c mod 8 = c" by simp
  then have first: "byte_range N ?j (c mod 8) = [c..<min (8 * Suc ?j) N]" by (simp add: byte_range_def add.commute)
  have "c \<le> min (8 * Suc ?j) N" using assms(1) by auto
  then have "[c..<N] = [c..<min (8 * Suc ?j) N] @ [min (8 * Suc ?j) N..<N]"
    using upt_add_eq_append [of c "min (8 * Suc ?j) N" "N - min (8 * Suc ?j) N"] by simp
  then show ?thesis by (simp add: walk_all [OF j] up down first search_order_def)
qed

lemma start_of_scan:
  fixes clu :: u32
  defines "p \<equiv> clu AND NOT 7" and "c \<equiv> unat clu"
  shows "p + 2 = of_nat (8 * (c div 8) + 2)" "push_bit (unat (clu - (p + 2) + 2)) 1 - 1 = (mask (c mod 8) :: u8)"
proof -
  have seven: "(7 :: u32) = mask 3" by (simp add: mask_eq_exp_minus_1)
  have p: "p = push_bit 3 (drop_bit 3 clu)"
    unfolding p_def seven by (rule bit_word_eqI) (auto simp: bit_simps)
  have "drop_bit 3 clu = of_nat (c div 8)"
    by (rule unat_word) (simp add: c_def unat_drop_bit)
  then have "p = of_nat (8 * (c div 8))" by (simp add: p push_bit_eq_mult)
  then show "p + 2 = of_nat (8 * (c div 8) + 2)" by simp
  have "clu - p = take_bit 3 clu" using bits_ident [of 3 clu] by (simp add: p algebra_simps)
  then have "unat (clu - (p + 2) + 2) = c mod 8" by (simp add: unat_take_bit c_def)
  then show "push_bit (unat (clu - (p + 2) + 2)) 1 - 1 = (mask (c mod 8) :: u8)"
    by (simp add: mask_eq_exp_minus_1 push_bit_eq_mult)
qed

text \<open>
  C32: The exact result of \<open>test_alloc_bitmap\<close> on a loaded map: it returns the first free cluster from the starting
  cluster up to the end of the volume and then from cluster 2 up to the byte of the map that holds the starting cluster,
  and \<open>~0\<close> when these are all allocated.  So it only returns free clusters of the volume; but it never looks again at the
  clusters that share the starting byte and precede the start, and misses a free cluster there.
\<close>

theorem test_alloc_bitmap_search:
  assumes "amap_ok s" "unat clu < data_clusters s"
  shows "test_alloc_bitmap s clu = found (find (free_in s) (search_order (data_clusters s) (unat clu)))"
proof -
  let ?c = "unat clu" and ?q = "2 ^ sector_size_bits s :: nat" and ?j = "unat clu div 8"
  note b = amap_ok_bounds [OF assms(1)]
  have g: "geom s" using assms(1) by (simp add: amap_ok_def)
  have j: "?j < loop8 s" using assms(2) b(5) by auto
  have i: "amap_index s clu = ?j div ?q" by (simp add: amap_index_def unat_drop_bit power_add split_position)
  have bb: "unat (drop_bit 3 clu AND of_s32 (sector_size_mask s)) = ?j mod ?q"
    using g by (simp add: geom_def of_s32_mask unat_and_mask unat_drop_bit)
  have "test_alloc_bitmap s clu = test_loop (loop8 s) s (?j div ?q) (?j mod ?q) (of_nat (8 * ?j + 2)) (mask (?c mod 8))"
    unfolding test_alloc_bitmap_def Let_def start_of_scan(2) i bb unfolding start_of_scan(1) ..
  also have "\<dots> = found (find (free_in s) (case byte_walk (loop8 s) (loop8 s) ?j of [] \<Rightarrow> []
      | k # ks \<Rightarrow> byte_range (data_clusters s) k (?c mod 8) @ concat (map (\<lambda>k. byte_range (data_clusters s) k 0) ks)))"
    by (subst test_loop_walk [OF assms(1) j]) (auto split: list.split)
  finally show ?thesis unfolding walk_order [OF assms(2) b(5)] .
qed

lemma blank_amap_ok: "geom (blank_sb k)" "amap_ok (blank_sb k)"
proof -
  show "geom (blank_sb k)" by (simp add: blank_sb_def geom_def)
  moreover have "io_ready (blank_sb k)" by (simp add: io_ready_def debug_error_rw_def blank_sb_def)
  moreover have "amap_sector (blank_sb k) 0 = 8" by (simp add: amap_sector_def START_SECTOR_def blank_sb_def)
  ultimately show "amap_ok (blank_sb k)"
    by (simp add: amap_ok_def out_of_range_def) (simp add: blank_sb_def)
qed

lemma sample_amap_ok: "amap_ok (sample_sb k)" "data_clusters (sample_sb k) = 64" "map_sectors (sample_sb k) = 1"
proof -
  have b: "geom (sample_sb k)" using blank_amap_ok(1) [of k] by (simp add: geom_def sample_fields)
  have "START_SECTOR (sample_sb k) = START_SECTOR (blank_sb k)" "out_of_range (sample_sb k) = out_of_range (blank_sb k)"
    using same_volume_derived [OF vol_eq_same [OF sample_frame]] by blast+
  then show "amap_ok (sample_sb k)"
    using blank_amap_ok(2) [of k] b sample_io by (simp add: amap_ok_def amap_sector_def sample_fields)
  show "data_clusters (sample_sb k) = 64" "map_sectors (sample_sb k) = 1"
    by (simp_all add: data_clusters_def sample_fields) (simp_all add: blank_sb_def)
qed

text \<open>A sample volume whose map sector holds the bytes \<open>d\<close>.\<close>

definition mapped_sb :: "u8 list \<Rightarrow> sb" where
  "mapped_sb d = put_block (sample_sb EXFAT) 8 d"

lemma mapped_amap:
  assumes "length d = 512"
  shows "amap_ok (mapped_sb d)" "data_clusters (mapped_sb d) = 64"
    "n < 4096 \<Longrightarrow> free_in (mapped_sb d) n \<longleftrightarrow> \<not> bit (d ! (n div 8)) (n mod 8)"
proof -
  have ff: "fat_frame (sample_sb EXFAT) (mapped_sb d)" unfolding mapped_sb_def by (rule fat_frame_put)
  note f = fat_frame_fields [OF ff]
  have g: "geom (sample_sb EXFAT)" "sector_size_bits (sample_sb EXFAT) = 9"
    using sample_amap_ok(1) by (simp add: amap_ok_def, simp add: sample_fields blank_sb_def)
  then have "geom (mapped_sb d)" using f assms by (simp add: geom_def mapped_sb_def put_block_def)
  then show ok: "amap_ok (mapped_sb d)" by (rule amap_ok_frame [OF sample_amap_ok(1) ff])
  show "data_clusters (mapped_sb d) = 64" using sample_amap_ok(2) f by (simp add: data_clusters_def)
  have "map_sectors (mapped_sb d) = 1" using sample_amap_ok(3) f by simp
  moreover have "START_SECTOR (mapped_sb d) (map_clu (mapped_sb d)) = 8"
    using fat_frame_derived(4) [OF ff] f same_volume_derived(4) [OF vol_eq_same [OF sample_frame], of EXFAT]
    by (simp add: sample_fields) (simp add: START_SECTOR_def blank_sb_def)
  ultimately show "free_in (mapped_sb d) n \<longleftrightarrow> \<not> bit (d ! (n div 8)) (n mod 8)" if "n < 4096"
    using that f(6) g(2) by (simp add: free_in_def allocated_def amap_cap_def amap_byte_def amap_sector_def)
      (simp add: mapped_sb_def put_block_def)
qed

lemma bit_FF: "n < 8 \<Longrightarrow> bit (0xFF :: u8) n"
  using bit_mask_iff [where 'a="8 word", of 8 n] by (simp add: mask_numeral)

lemma bit_FE: "n < 8 \<Longrightarrow> bit (0xFE :: u8) n \<longleftrightarrow> n \<noteq> 0"
  by (auto simp: less_Suc_eq numeral_eq_Suc)

theorem test_alloc_bitmap_search_witness:
  "test_alloc_bitmap (mapped_sb (0xFF # replicate 511 0)) 3 = 10"
proof -
  let ?s = "mapped_sb (0xFF # replicate 511 0)"
  have l: "length ((0xFF :: u8) # replicate 511 0) = 512" by simp
  note m = mapped_amap [OF l]
  have "find (free_in ?s) [3..<64] = Some 8"
    by (rule find_first) (use bit_FF in \<open>simp_all add: m(3)\<close>)
  then have "find (free_in ?s) (search_order 64 3) = Some 8" by (simp add: search_order_def find_append)
  then show ?thesis using test_alloc_bitmap_search [OF m(1), of 3] m(2) by (simp add: found_def)
qed

text \<open>
  C33: The consequence for the allocator: when the only free cluster shares its byte of the map with the starting cluster
  and precedes it, \<open>test_alloc_bitmap\<close> reports a full volume.
\<close>

theorem test_alloc_bitmap_misses:
  assumes "amap_ok s" "unat clu < data_clusters s" "f < unat clu" "f div 8 = unat clu div 8"
    and "\<forall>n < data_clusters s. free_in s n \<longleftrightarrow> n = f"
  shows "test_alloc_bitmap s clu = CLUSTER_EOF"
proof -
  have "\<not> free_in s n" if "n \<in> set (search_order (data_clusters s) (unat clu))" for n
  proof -
    have "n < data_clusters s" using that assms(2) by (auto simp: search_order_def)
    moreover have "n \<noteq> f" using that assms(3,4) by (auto simp: search_order_def)
    ultimately show ?thesis using assms(5) by blast
  qed
  then have "find (free_in s) (search_order (data_clusters s) (unat clu)) = None" by (auto simp: find_None_iff)
  then show ?thesis using test_alloc_bitmap_search [OF assms(1,2)] by (simp add: found_def)
qed

theorem test_alloc_bitmap_misses_witness:
  "free_in (mapped_sb (0xFE # replicate 511 0xFF)) 0 \<and> test_alloc_bitmap (mapped_sb (0xFE # replicate 511 0xFF)) 3 = CLUSTER_EOF"
proof -
  let ?d = "(0xFE :: u8) # replicate 511 0xFF"
  have l: "length ?d = 512" by simp
  note m = mapped_amap [OF l]
  have b: "\<not> bit (?d ! (n div 8)) (n mod 8) \<longleftrightarrow> n = 0" if "n < 64" for n
  proof -
    have "?d ! (n div 8) = (if n < 8 then 0xFE else 0xFF)" using that by (cases "n < 8") (auto simp: nth_Cons' div_eq_0_iff)
    then show ?thesis using bit_FE [of n] bit_FF [of "n mod 8"] that by (cases "n < 8") (auto simp only: if_True if_False mod_less)
  qed
  have "\<forall>n < 64. free_in (mapped_sb ?d) n \<longleftrightarrow> n = 0" using m(3) b by simp
  then show ?thesis using test_alloc_bitmap_misses [OF m(1), of 3 0] m(2) by simp
qed

section \<open>Counting\<close>

lemma multiple_of_8: "8 * j < m * 8 \<Longrightarrow> 8 * j + 8 \<le> m * 8" for j m :: nat
  by simp

lemma count_loop_card:
  assumes "amap_ok s" "j + n \<le> loop8 s"
  shows "count_loop n s (j div 2 ^ sector_size_bits s) (j mod 2 ^ sector_size_bits s) c =
    c + int (card {m. 8 * j \<le> m \<and> m < 8 * (j + n) \<and> allocated s m})"
  using assms(2)
proof (induction n arbitrary: j c)
  case 0
  have "{m. 8 * j \<le> m \<and> m < 8 * (j + 0) \<and> allocated s m} = {}" by auto
  then show ?case by simp
next
  case (Suc n)
  let ?q = "2 ^ sector_size_bits s :: nat"
  have j: "j < loop8 s" using Suc.prems by simp
  have cap: "8 * (j + 1) \<le> amap_cap s"
    using amap_ok_bounds(4) [OF assms(1)] loop8_less [OF assms(1) j] multiple_of_8 [of j "unat (map_sectors s) * 2 ^ sector_size_bits s"]
    by (simp add: amap_cap_def power_add)
  have byte: "blk s (amap_sector s (j div ?q)) ! (j mod ?q) = amap_byte s j" by (simp add: amap_byte_def)
  have "bij_betw (\<lambda>i. 8 * j + i) {i. i < 8 \<and> bit (amap_byte s j) i} {m. 8 * j \<le> m \<and> m < 8 * (j + 1) \<and> allocated s m}"
  proof (rule bij_betw_imageI)
    show "(\<lambda>i. 8 * j + i) ` {i. i < 8 \<and> bit (amap_byte s j) i} = {m. 8 * j \<le> m \<and> m < 8 * (j + 1) \<and> allocated s m}"
    proof (intro equalityI subsetI)
      fix m assume "m \<in> {m. 8 * j \<le> m \<and> m < 8 * (j + 1) \<and> allocated s m}"
      then have m: "8 * j \<le> m" "m < 8 * j + 8" "bit (amap_byte s (m div 8)) (m mod 8)" by (auto simp: allocated_def)
      then have d: "m div 8 = j" by auto
      then have "m = 8 * j + m mod 8" using mult_div_mod_eq [of 8 m] by simp
      then show "m \<in> (\<lambda>i. 8 * j + i) ` {i. i < 8 \<and> bit (amap_byte s j) i}"
        using m(3) d by (intro image_eqI [of _ _ "m mod 8"]) auto
    qed (use cap in \<open>auto simp: allocated_def\<close>)
  qed (simp add: inj_on_def)
  then have here: "unat (used_bit ! unat (amap_byte s j)) = card {m. 8 * j \<le> m \<and> m < 8 * (j + 1) \<and> allocated s m}"
    unfolding used_bit_popcount by (rule bij_betw_same_card)
  have step: "{m. 8 * j \<le> m \<and> m < 8 * (j + Suc n) \<and> allocated s m} =
    {m. 8 * j \<le> m \<and> m < 8 * (j + 1) \<and> allocated s m} \<union> {m. 8 * Suc j \<le> m \<and> m < 8 * (Suc j + n) \<and> allocated s m}"
    by auto
  have split: "card {m. 8 * j \<le> m \<and> m < 8 * (j + Suc n) \<and> allocated s m} =
    unat (used_bit ! unat (amap_byte s j)) + card {m. 8 * Suc j \<le> m \<and> m < 8 * (Suc j + n) \<and> allocated s m}"
    unfolding step here by (rule card_Un_disjoint) auto
  have rest: "count_loop n s (Suc j div ?q) (Suc j mod ?q) c' =
    c' + int (card {m. 8 * Suc j \<le> m \<and> m < 8 * (Suc j + n) \<and> allocated s m})" for c'
    using Suc.prems by (intro Suc.IH) simp
  show ?case
  proof (cases n)
    case 0
    then show ?thesis using split
      unfolding count_loop.simps amap_bh_byte [OF assms(1) j] option.case Let_def byte by auto
  next
    case (Suc n')
    then have "Suc j < loop8 s" using Suc.prems by simp
    note np = next_position(1,2) [OF assms(1) j this]
    show ?thesis
      unfolding count_loop.simps amap_bh_byte [OF assms(1) j] option.case Let_def byte split
      using np rest by (cases "sector_size s \<le> int (j mod ?q + 1)") auto
  qed
qed

text \<open>
  \<open>exfat_count_used_clusters\<close> counts the bits set in the bytes of the map that hold clusters: every allocated
  cluster, and also the padding bits of the last byte when they are set.
\<close>

lemma exfat_count_used_clusters_card:
  assumes "amap_ok s"
  shows "exfat_count_used_clusters s = (s, int (card {n. n < 8 * ((data_clusters s + 7) div 8) \<and> allocated s n}))"
  using count_loop_card [OF assms, of 0 "loop8 s" 0] amap_ok_bounds(5) [OF assms] by (simp add: exfat_count_used_clusters_def)

end
