(* ===== verification/Cluster.thy ===== *)
theory Cluster
  imports AllocSearch
begin

text \<open>
  The cluster functions of \<open>exfat_core.c\<close>, from \<open>clear_cluster\<close> to \<open>exfat_chain_cont_cluster\<close>.  A \<open>CHAIN_T *\<close> the code
  writes through is returned updated.  The bounded loops recurse on their number of remaining iterations; the loops that
  follow a chain of the table and may not end are partial functions whose value \<open>None\<close> means that they run forever.
\<close>

definition use_clusters :: "sb \<Rightarrow> int \<Rightarrow> sb" where
  "use_clusters s n = (if used_clusters s \<noteq> CLUSTER_EOF then s\<lparr>used_clusters := used_clusters s + of_s32 n\<rparr> else s)"

definition next_cluster :: "sb \<Rightarrow> u32 \<Rightarrow> u32" where
  "next_cluster s c = (if c + 1 \<ge> num_clusters s then 2 else c + 1)"

section \<open>Clearing a cluster\<close>

fun clear_loop :: "nat \<Rightarrow> sb \<Rightarrow> u32 \<Rightarrow> u32 option \<Rightarrow> ffs \<Rightarrow> sb \<times> ffs" where
  "clear_loop 0 s sec tmp_bh ret = (s, ret)"
| "clear_loop (Suc k) s sec tmp_bh ret =
     (case sector_read s sec tmp_bh False of
        (s1, tmp_bh, ret) \<Rightarrow>
          if ret \<noteq> FFS_SUCCESS then (s1, ret)
          else case tmp_bh of
                 None \<Rightarrow> (kernel_oops s1, ret)
               | Some b \<Rightarrow>
                   (case sector_write (poke b 0 (replicate (nat (sector_size s1)) 0) s1) sec (Some b) False of
                      (s2, ret) \<Rightarrow>
                        if ret \<noteq> FFS_SUCCESS then (s2, ret) else clear_loop k s2 (sec + 1) (Some b) ret))"

definition clear_cluster :: "sb \<Rightarrow> u32 \<Rightarrow> sb \<times> ffs" where
  "clear_cluster s clu =
     (let (from, upto) = (if clu = 0 then (root_start_sector s, data_start_sector s)
                          else (START_SECTOR s clu, START_SECTOR s clu + sectors_per_clu s))
      in clear_loop (unat upto - unat from) s from None FFS_SUCCESS)"

section \<open>The allocators\<close>

fun fat_alloc_loop :: "nat \<Rightarrow> sb \<Rightarrow> u32 \<Rightarrow> u32 \<Rightarrow> int \<Rightarrow> int \<Rightarrow> CHAIN_T \<Rightarrow> sb \<times> CHAIN_T \<times> int" where
  "fat_alloc_loop 0 s new_clu last_clu num_alloc num p_chain =
     (use_clusters (s\<lparr>clu_srch_ptr := new_clu\<rparr>) num, p_chain, num)"
| "fat_alloc_loop (Suc n) s new_clu last_clu num_alloc num p_chain =
     (case FAT_read s new_clu of
        (s1, None) \<Rightarrow> (s1, p_chain, -1)
      | (s1, Some read_clu) \<Rightarrow>
          if read_clu = 0 then
            (case FAT_write s1 new_clu CLUSTER_EOF of
               (s2, r) \<Rightarrow>
                 if r < 0 then (s2, p_chain, -1)
                 else let num = num + 1
                      in case (if ch_dir p_chain = CLUSTER_EOF then (s2, p_chain\<lparr>ch_dir := new_clu\<rparr>, 0)
                               else (case FAT_write s2 last_clu new_clu of (s3, r) \<Rightarrow> (s3, p_chain, r))) of
                           (s3, p_chain, r) \<Rightarrow>
                             if r < 0 then (s3, p_chain, -1)
                             else if num_alloc - 1 = 0
                             then (use_clusters (s3\<lparr>clu_srch_ptr := new_clu\<rparr>) num, p_chain, num)
                             else fat_alloc_loop n s3 (next_cluster s3 new_clu) new_clu (num_alloc - 1) num p_chain)
          else fat_alloc_loop n s1 (next_cluster s1 new_clu) last_clu num_alloc num p_chain)"

definition fat_alloc_cluster :: "sb \<Rightarrow> int \<Rightarrow> CHAIN_T \<Rightarrow> sb \<times> CHAIN_T \<times> int" where
  "fat_alloc_cluster s num_alloc p_chain =
     (let new_clu = (if ch_dir p_chain = CLUSTER_EOF then clu_srch_ptr s
                     else if ch_dir p_chain \<ge> num_clusters s then 2 else ch_dir p_chain)
      in fat_alloc_loop (unat (num_clusters s) - 2) (set_sb_dirty s) new_clu CLUSTER_EOF num_alloc 0
           (p_chain\<lparr>ch_dir := CLUSTER_EOF\<rparr>))"

fun cont_loop :: "nat \<Rightarrow> sb \<Rightarrow> u32 \<Rightarrow> sb" where
  "cont_loop 0 s chain = fst (FAT_write s chain CLUSTER_EOF)"
| "cont_loop (Suc n) s chain =
     (case FAT_write s chain (chain + 1) of
        (s1, r) \<Rightarrow> if r < 0 then fst (FAT_write s1 chain CLUSTER_EOF) else cont_loop n s1 (chain + 1))"

definition exfat_chain_cont_cluster :: "sb \<Rightarrow> u32 \<Rightarrow> int \<Rightarrow> sb" where
  "exfat_chain_cont_cluster s chain len = (if len = 0 then s else cont_loop (nat (len - 1)) s chain)"

text \<open>The switch from a contiguous file (\<open>flags\<close> 3) to a linked one (\<open>flags\<close> 1), twice in \<open>exfat_alloc_cluster\<close>.\<close>

definition unfold_chain :: "sb \<Rightarrow> CHAIN_T \<Rightarrow> int \<Rightarrow> sb \<times> CHAIN_T" where
  "unfold_chain s p_chain num =
     (if ch_flags p_chain = 3
      then (exfat_chain_cont_cluster s (ch_dir p_chain) num, p_chain\<lparr>ch_flags := 1\<rparr>)
      else (s, p_chain))"

partial_function (option) exfat_alloc_loop ::
  "sb \<Rightarrow> u32 \<Rightarrow> u32 \<Rightarrow> int \<Rightarrow> int \<Rightarrow> CHAIN_T \<Rightarrow> (sb \<times> CHAIN_T \<times> int) option" where
  "exfat_alloc_loop s hint_clu last_clu num_alloc num p_chain =
     (let new_clu = test_alloc_bitmap s (hint_clu - 2)
      in if new_clu = CLUSTER_EOF
         then Some (use_clusters (s\<lparr>clu_srch_ptr := hint_clu\<rparr>) num, p_chain\<lparr>ch_size := ch_size p_chain + num\<rparr>, num)
         else let (s1, p_chain) = (if new_clu \<noteq> hint_clu then unfold_chain s p_chain num else (s, p_chain));
                  (s2, r) = set_alloc_bitmap s1 (new_clu - 2)
              in if r \<noteq> FFS_SUCCESS then Some (s2, p_chain, -1)
                 else let num = num + 1;
                          (s3, w) = (if ch_flags p_chain = 1 then FAT_write s2 new_clu CLUSTER_EOF else (s2, 0))
                      in if w < 0 then Some (s3, p_chain, -1)
                         else let (s4, p_chain, w) =
                                (if ch_dir p_chain = CLUSTER_EOF then (s3, p_chain\<lparr>ch_dir := new_clu\<rparr>, 0)
                                 else if ch_flags p_chain = 1
                                 then (let (s4, w) = FAT_write s3 last_clu new_clu in (s4, p_chain, w))
                                 else (s3, p_chain, 0))
                              in if w < 0 then Some (s4, p_chain, -1)
                                 else if num_alloc - 1 = 0
                                 then Some (use_clusters (s4\<lparr>clu_srch_ptr := hint_clu\<rparr>) num,
                                            p_chain\<lparr>ch_size := ch_size p_chain + num\<rparr>, num)
                                 else if new_clu + 1 \<ge> num_clusters s4
                                 then let (s5, p_chain) = unfold_chain s4 p_chain num
                                      in exfat_alloc_loop s5 2 new_clu (num_alloc - 1) num p_chain
                                 else exfat_alloc_loop s4 (new_clu + 1) new_clu (num_alloc - 1) num p_chain)"

definition exfat_alloc_cluster :: "sb \<Rightarrow> int \<Rightarrow> CHAIN_T \<Rightarrow> (sb \<times> CHAIN_T \<times> int) option" where
  "exfat_alloc_cluster s num_alloc p_chain =
     (let (hint_clu, p_chain) =
        (if ch_dir p_chain = CLUSTER_EOF then (test_alloc_bitmap s (clu_srch_ptr s - 2), p_chain)
         else if ch_dir p_chain \<ge> num_clusters s then (2, p_chain\<lparr>ch_flags := 1\<rparr>)
         else (ch_dir p_chain, p_chain))
      in if ch_dir p_chain = CLUSTER_EOF \<and> hint_clu = CLUSTER_EOF then Some (s, p_chain, 0)
         else exfat_alloc_loop (set_sb_dirty s) hint_clu CLUSTER_EOF num_alloc 0 (p_chain\<lparr>ch_dir := CLUSTER_EOF\<rparr>))"

section \<open>Freeing\<close>

definition release_cluster :: "sb \<Rightarrow> u32 \<Rightarrow> sb" where
  "release_cluster s clu =
     fold (\<lambda>i s. buf_release s (START_SECTOR s clu + of_nat i)) [0..<unat (sectors_per_clu s)] s"

partial_function (option) fat_free_loop :: "sb \<Rightarrow> u32 \<Rightarrow> bool \<Rightarrow> int \<Rightarrow> (sb \<times> int) option" where
  "fat_free_loop s clu do_relse num =
     (if dev_ejected s then Some (s, num)
      else let s1 = (if do_relse then release_cluster s clu else s)
           in case FAT_read s1 clu of
                (s2, None) \<Rightarrow> Some (s2, num)
              | (s2, Some clu') \<Rightarrow>
                  (case FAT_write s2 clu 0 of
                     (s3, r) \<Rightarrow>
                       if r < 0 then Some (s3, num)
                       else if clu' \<noteq> CLUSTER_EOF then fat_free_loop s3 clu' do_relse (num + 1)
                       else Some (s3, num + 1)))"

definition fat_free_cluster :: "sb \<Rightarrow> CHAIN_T \<Rightarrow> bool \<Rightarrow> sb option" where
  "fat_free_cluster s p_chain do_relse =
     (if ch_dir p_chain = 0 \<or> ch_dir p_chain = CLUSTER_EOF then Some s
      else if ch_size p_chain \<le> 0 then Some (set_sb_dirty s)
      else do { (s1, num) \<leftarrow> fat_free_loop (set_sb_dirty s) (ch_dir p_chain) do_relse 0;
                Some (use_clusters s1 (- num)) })"

fun exfat_free_run :: "nat \<Rightarrow> sb \<Rightarrow> u32 \<Rightarrow> bool \<Rightarrow> int \<Rightarrow> sb \<times> int" where
  "exfat_free_run 0 s clu do_relse num = (s, num)"
| "exfat_free_run (Suc n) s clu do_relse num =
     (let s1 = (if do_relse then release_cluster s clu else s)
      in case clr_alloc_bitmap s1 (clu - 2) of
           (s2, r) \<Rightarrow> if r \<noteq> FFS_SUCCESS then (s2, num) else exfat_free_run n s2 (clu + 1) do_relse (num + 1))"

partial_function (option) exfat_free_loop :: "sb \<Rightarrow> u32 \<Rightarrow> bool \<Rightarrow> int \<Rightarrow> (sb \<times> int) option" where
  "exfat_free_loop s clu do_relse num =
     (if dev_ejected s then Some (s, num)
      else let s1 = (if do_relse then release_cluster s clu else s)
           in case clr_alloc_bitmap s1 (clu - 2) of
                (s2, r) \<Rightarrow>
                  if r \<noteq> FFS_SUCCESS then Some (s2, num)
                  else case FAT_read s2 clu of
                         (s3, None) \<Rightarrow> Some (s3, num)
                       | (s3, Some clu') \<Rightarrow>
                           if clu' \<noteq> 0 \<and> clu' \<noteq> CLUSTER_EOF then exfat_free_loop s3 clu' do_relse (num + 1)
                           else Some (s3, num + 1))"

definition exfat_free_cluster :: "sb \<Rightarrow> CHAIN_T \<Rightarrow> bool \<Rightarrow> sb option" where
  "exfat_free_cluster s p_chain do_relse =
     (if ch_dir p_chain = 0 \<or> ch_dir p_chain = CLUSTER_EOF then Some s
      else if ch_size p_chain \<le> 0 then Some s
      else do { (s1, num) \<leftarrow>
                  (if ch_flags p_chain = 3
                   then Some (exfat_free_run (nat (ch_size p_chain)) (set_sb_dirty s) (ch_dir p_chain) do_relse 0)
                   else exfat_free_loop (set_sb_dirty s) (ch_dir p_chain) do_relse 0);
                Some (use_clusters s1 (- num)) })"

section \<open>Following and counting\<close>

partial_function (option) last_loop :: "sb \<Rightarrow> u32 \<Rightarrow> (sb \<times> u32) option" where
  "last_loop s clu =
     (case FAT_read s clu of
        (s1, None) \<Rightarrow> Some (s1, clu)
      | (s1, Some next) \<Rightarrow>
          if next = CLUSTER_EOF then Some (s1, clu)
          else if dev_ejected s1 then Some (s1, clu)
          else last_loop s1 next)"

definition find_last_cluster :: "sb \<Rightarrow> CHAIN_T \<Rightarrow> (sb \<times> u32) option" where
  "find_last_cluster s p_chain =
     (if ch_flags p_chain = 3 then Some (s, ch_dir p_chain + of_s32 (ch_size p_chain - 1))
      else last_loop s (ch_dir p_chain))"

fun count_chain :: "nat \<Rightarrow> sb \<Rightarrow> u32 \<Rightarrow> int \<Rightarrow> sb \<times> int" where
  "count_chain 0 s clu count = (s, count)"
| "count_chain (Suc n) s clu count =
     (case FAT_read s clu of
        (s1, None) \<Rightarrow> (s1, 0)
      | (s1, Some clu') \<Rightarrow> if clu' = CLUSTER_EOF then (s1, count + 1) else count_chain n s1 clu' (count + 1))"

definition count_num_clusters :: "sb \<Rightarrow> CHAIN_T \<Rightarrow> sb \<times> int" where
  "count_num_clusters s p_chain =
     (if ch_dir p_chain = 0 \<or> ch_dir p_chain = CLUSTER_EOF then (s, 0)
      else if ch_flags p_chain = 3 then (s, ch_size p_chain)
      else count_chain (unat (num_clusters s) - 2) s (ch_dir p_chain) 0)"

fun count_used :: "nat \<Rightarrow> sb \<Rightarrow> u32 \<Rightarrow> int \<Rightarrow> sb \<times> int" where
  "count_used 0 s i count = (s, count)"
| "count_used (Suc n) s i count =
     (case FAT_read s i of
        (s1, None) \<Rightarrow> (s1, count)
      | (s1, Some clu) \<Rightarrow> count_used n s1 (i + 1) (if clu \<noteq> 0 then count + 1 else count))"

definition fat_count_used_clusters :: "sb \<Rightarrow> sb \<times> int" where
  "fat_count_used_clusters s = count_used (unat (num_clusters s) - 2) s 2 0"

end
