(* ===== verification/Chain.thy ===== *)
theory Chain
  imports Prelude
begin

text \<open>
  Chains of clusters, as the file allocation table links them: \<open>is_chain t c cs\<close> says that following the table \<open>t\<close> from
  \<open>c\<close> visits exactly the clusters \<open>cs\<close> and then ends, and \<open>link_all t cs\<close> is the table with the clusters \<open>cs\<close> linked
  into a chain.
\<close>

fun is_chain :: "(u32 \<Rightarrow> u32) \<Rightarrow> u32 \<Rightarrow> u32 list \<Rightarrow> bool" where
  "is_chain t c [] \<longleftrightarrow> c = CLUSTER_EOF"
| "is_chain t c (x # xs) \<longleftrightarrow> c = x \<and> c \<noteq> CLUSTER_EOF \<and> is_chain t (t c) xs"

lemma is_chain_det: "is_chain t c xs \<Longrightarrow> is_chain t c ys \<Longrightarrow> xs = ys"
proof (induction xs arbitrary: c ys)
  case Nil
  then show ?case by (cases ys) auto
next
  case (Cons x xs)
  then show ?case by (cases ys) auto
qed

lemma is_chain_append: "is_chain t c (xs @ y # ys) \<Longrightarrow> is_chain t y (y # ys)"
  by (induction xs arbitrary: c) auto

lemma is_chain_distinct: "is_chain t c xs \<Longrightarrow> distinct xs"
proof (induction xs arbitrary: c)
  case (Cons x xs)
  have "x \<notin> set xs"
  proof
    assume "x \<in> set xs"
    then obtain us vs where xs: "xs = us @ x # vs" by (auto simp: in_set_conv_decomp)
    have "is_chain t c (c # us @ x # vs)" using Cons.prems xs by auto
    then have "is_chain t x (x # vs)" using is_chain_append [of t c "c # us" x vs] by (simp only: append_Cons)
    moreover have "is_chain t x (x # xs)" using Cons.prems by auto
    ultimately have "x # vs = x # xs" by (rule is_chain_det)
    then have "length vs = length xs" by simp
    then show False using xs by simp
  qed
  then show ?case using Cons by auto
qed simp

lemma is_chain_EOF: "is_chain t c xs \<Longrightarrow> CLUSTER_EOF \<notin> set xs"
  by (induction xs arbitrary: c) auto

lemma is_chain_cong: "(\<And>x. x \<in> set xs \<Longrightarrow> t' x = t x) \<Longrightarrow> is_chain t' c xs \<longleftrightarrow> is_chain t c xs"
  by (induction xs arbitrary: c) auto

lemma is_chain_upd [simp]: "x \<notin> set xs \<Longrightarrow> is_chain (t(x := v)) c xs \<longleftrightarrow> is_chain t c xs"
  by (rule is_chain_cong) auto

lemma is_chain_last: "is_chain t c xs \<Longrightarrow> xs \<noteq> [] \<Longrightarrow> t (last xs) = CLUSTER_EOF"
proof (induction xs arbitrary: c)
  case (Cons x xs)
  then show ?case by (cases xs) auto
qed simp

lemma is_chain_step: "is_chain t c (us @ x # y # vs) \<Longrightarrow> t x = y"
  by (induction us arbitrary: c) auto

fun link_all :: "(u32 \<Rightarrow> u32) \<Rightarrow> u32 list \<Rightarrow> u32 \<Rightarrow> u32" where
  "link_all t [] = t"
| "link_all t [c] = t(c := CLUSTER_EOF)"
| "link_all t (c # d # cs) = (link_all t (d # cs))(c := d)"

lemma link_all_outside: "x \<notin> set cs \<Longrightarrow> link_all t cs x = t x"
  by (induction t cs rule: link_all.induct) auto

lemma link_all_upd: "x \<notin> set cs \<Longrightarrow> link_all (t(x := v)) cs = (link_all t cs)(x := v)"
proof (induction t cs rule: link_all.induct)
  case (2 t c)
  then show ?case by (auto simp: fun_eq_iff)
next
  case (3 t c d cs)
  then show ?case by (auto simp: fun_upd_twist)
qed simp

lemma link_all_head: "link_all (t(c := v)) (c # cs) = link_all t (c # cs)" if "c \<notin> set cs"
  using that by (cases cs) (auto simp: link_all_upd)

lemma link_all_chain:
  "distinct cs \<Longrightarrow> CLUSTER_EOF \<notin> set cs \<Longrightarrow> cs \<noteq> [] \<Longrightarrow> is_chain (link_all t cs) (hd cs) cs"
proof (induction t cs rule: link_all.induct)
  case (3 t c d cs)
  then have "is_chain (link_all t (d # cs)) d (d # cs)" by auto
  then have "is_chain ((link_all t (d # cs))(c := d)) d (d # cs)" using 3(2) by (subst is_chain_upd) auto
  then show ?case using 3(3) unfolding link_all.simps list.sel is_chain.simps(2) [of _ c] fun_upd_same by auto
qed auto

lemma link_all_nonzero: "x \<in> set cs \<Longrightarrow> 0 \<notin> set cs \<Longrightarrow> link_all t cs x \<noteq> 0"
  by (induction t cs rule: link_all.induct) (auto split: if_splits)

text \<open>Appending a chain behind the last cluster of another one.\<close>

lemma is_chain_splice:
  assumes "is_chain t c xs" "xs \<noteq> []" "is_chain t d ys" "ys \<noteq> []" "last xs \<notin> set ys"
  shows "is_chain (t(last xs := d)) c (xs @ ys)"
  using assms
proof (induction xs arbitrary: c)
  case (Cons x xs)
  have d: "distinct (x # xs)" by (rule is_chain_distinct) fact
  show ?case
  proof (cases "xs = []")
    case True
    then have "is_chain (t(x := d)) d ys" using Cons.prems by simp
    then show ?thesis using Cons.prems True unfolding is_chain.simps(2) [of _ c x] append_Cons by auto
  next
    case False
    then have "last xs \<noteq> x" using d by auto
    then show ?thesis using Cons False by auto
  qed
qed simp

definition clear_all :: "(u32 \<Rightarrow> u32) \<Rightarrow> u32 set \<Rightarrow> u32 \<Rightarrow> u32" where
  "clear_all t A x = (if x \<in> A then 0 else t x)"

lemma clear_link:
  assumes "\<And>x. x \<in> set cs \<Longrightarrow> t x = 0"
  shows "clear_all (link_all t cs) (set cs) = t"
  using assms by (auto simp: clear_all_def fun_eq_iff link_all_outside)

end
