(* ===== verification/ClusterApi.thy ===== *)
theory ClusterApi
  imports Cluster Chain
begin

text \<open>
  The file allocation table as a function from clusters to clusters, the frame of the cluster functions, and the table
  operations in this vocabulary: \<open>tbl_ok\<close> volumes read and write any entry without failure.
\<close>

section \<open>The frame of the cluster functions\<close>

definition clu_frame :: "sb \<Rightarrow> sb \<Rightarrow> bool" where
  "clu_frame s s' \<longleftrightarrow> s' = s\<lparr>blk := blk s', dirty := dirty s', FAT_cache := FAT_cache s', the_buf_cache := the_buf_cache s',
     io_clock := io_clock s', s_dirt := s_dirt s', used_clusters := used_clusters s', clu_srch_ptr := clu_srch_ptr s'\<rparr>"

lemma clu_frame_refl [simp]: "clu_frame s s"
  by (simp add: clu_frame_def)

lemma clu_frame_trans [trans]: "clu_frame s t \<Longrightarrow> clu_frame t u \<Longrightarrow> clu_frame s u"
  unfolding clu_frame_def by (cases s; cases t; cases u) simp

lemma fat_clu_frame: "fat_frame s t \<Longrightarrow> clu_frame s t"
  unfolding fat_frame_def clu_frame_def by (cases s; cases t) simp

lemma vol_clu_frame: "vol_eq s t \<Longrightarrow> clu_frame s t"
  unfolding vol_eq_def clu_frame_def by (cases s; cases t) simp

lemma clu_frame_updates [simp]:
  "clu_frame s (s\<lparr>clu_srch_ptr := c\<rparr>)" "clu_frame s (set_sb_dirty s)" "clu_frame s (use_clusters s n)"
  by (simp_all add: clu_frame_def set_sb_dirty_def use_clusters_def)

lemma clu_frame_fields:
  assumes "clu_frame s s'"
  shows "disk s' = disk s" "vol_type s' = vol_type s" "drv s' = drv s"
    "sector_size s' = sector_size s" "sector_size_bits s' = sector_size_bits s" "sector_size_mask s' = sector_size_mask s"
    "FAT1_start_sector s' = FAT1_start_sector s" "sectors_per_clu_bits s' = sectors_per_clu_bits s"
    "sectors_per_clu s' = sectors_per_clu s" "data_start_sector s' = data_start_sector s"
    "num_clusters s' = num_clusters s" "num_sectors s' = num_sectors s" "PBR_sector s' = PBR_sector s"
    "io_ok s' = io_ok s" "opened s' = opened s" "debug_flags s' = debug_flags s" "vol_amap s' = vol_amap s"
    "map_clu s' = map_clu s" "map_sectors s' = map_sectors s" "dev_ejected s' = dev_ejected s" "root_dir s' = root_dir s"
    "root_start_sector s' = root_start_sector s" "dentries_in_root s' = dentries_in_root s"
  by (subst assms [unfolded clu_frame_def], simp)+

lemma clu_frame_derived:
  assumes "clu_frame s s'"
  shows "out_of_range s' = out_of_range s" "FAT_hash s' = FAT_hash s" "START_SECTOR s' = START_SECTOR s"
    "io_ready s' = io_ready s" "fat_sector s' = fat_sector s" "fat_area s' = fat_area s"
    "next_cluster s' = next_cluster s" "amap_sector s' = amap_sector s" "amap_area s' = amap_area s" "amap_cap s' = amap_cap s"
    "data_clusters s' = data_clusters s"
proof -
  note f = clu_frame_fields [OF assms]
  show s: "out_of_range s' = out_of_range s" "FAT_hash s' = FAT_hash s" "START_SECTOR s' = START_SECTOR s"
    "io_ready s' = io_ready s" "fat_sector s' = fat_sector s" "next_cluster s' = next_cluster s" "amap_cap s' = amap_cap s"
    "data_clusters s' = data_clusters s"
    by (simp_all add: fun_eq_iff out_of_range_def FAT_hash_def START_SECTOR_def io_ready_def debug_error_rw_def
        fat_sector_def next_cluster_def amap_cap_def data_clusters_def f)
  show "fat_area s' = fat_area s" "amap_sector s' = amap_sector s" "amap_area s' = amap_area s"
    by (simp_all add: fat_area_def fun_eq_iff amap_sector_def amap_area_def f s)
qed

section \<open>The table\<close>

definition tbl_ok :: "sb \<Rightarrow> bool" where
  "tbl_ok s \<longleftrightarrow> fat_ok s \<and> 2 < num_clusters s \<and> num_clusters s \<le> fat_limit (vol_type s)"

lemma table_view:
  assumes "clu_frame s s'" "blk s' = blk s" "FAT_cache s' = FAT_cache s"
  shows "fat_ok s' = fat_ok s" "fat_get s' = fat_get s" "tbl_ok s' = tbl_ok s"
proof -
  note f = clu_frame_fields [OF assms(1)] clu_frame_derived [OF assms(1)]
  have "FATc.inv s' = FATc.inv s" using holds_cong_FAT [of s' s] f assms(3) by simp
  then have "fat_ready s' = fat_ready s" using f assms(2) by (simp add: fat_ready_def geom_def)
  then show "fat_ok s' = fat_ok s" using f by (simp add: fat_ok_def)
  then show "tbl_ok s' = tbl_ok s" using f by (simp add: tbl_ok_def)
  have m: "fat_mem s' = fat_mem s" using f assms(2) by (simp add: fun_eq_iff fat_mem_def)
  show "fat_get s' = fat_get s" unfolding fun_eq_iff fat_get_def m f by simp
qed

lemma table_updates [simp]:
  "fat_get (s\<lparr>clu_srch_ptr := c\<rparr>) = fat_get s" "tbl_ok (s\<lparr>clu_srch_ptr := c\<rparr>) = tbl_ok s"
  "fat_get (set_sb_dirty s) = fat_get s" "tbl_ok (set_sb_dirty s) = tbl_ok s"
  "fat_get (use_clusters s n) = fat_get s" "tbl_ok (use_clusters s n) = tbl_ok s"
  by (rule table_view [OF clu_frame_updates(1)] table_view [OF clu_frame_updates(2)] table_view [OF clu_frame_updates(3)];
      simp add: set_sb_dirty_def use_clusters_def)+

lemma kept_fields [simp]:
  "blk (use_clusters s n) = blk s" "dirty (use_clusters s n) = dirty s" "clu_srch_ptr (use_clusters s n) = clu_srch_ptr s"
  "blk (set_sb_dirty s) = blk s" "dirty (set_sb_dirty s) = dirty s" "used_clusters (set_sb_dirty s) = used_clusters s"
  "num_clusters (set_sb_dirty s) = num_clusters s" "clu_srch_ptr (set_sb_dirty s) = clu_srch_ptr s"
  by (simp_all add: use_clusters_def set_sb_dirty_def)

lemma fits_mask: "v < fat_limit k \<Longrightarrow> v AND fat_mask k = v" "fat_limit k \<le> fat_mask k"
proof -
  have m: "0xFFF = (mask 12 :: u32)" "0xFFFF = (mask 16 :: u32)" "0x0FFFFFFF = (mask 28 :: u32)"
    by (simp_all add: mask_eq_exp_minus_1)
  have "unat (v AND mask n) = unat v" if "unat v < 2 ^ n" for n using that by (simp add: unat_and_mask)
  then have "v AND mask n = v" if "unat v < 2 ^ n" for n using that by (simp add: word_unat_eq_iff)
  then show "v < fat_limit k \<Longrightarrow> v AND fat_mask k = v"
    unfolding fat_limit_def fat_mask_def m by (cases k) (auto simp: word_less_nat_alt)
  show "fat_limit k \<le> fat_mask k" by (cases k) (simp_all add: fat_limit_def fat_mask_def)
qed

lemma fat_val_fits:
  "v < fat_limit k \<Longrightarrow> fat_val k (v AND fat_mask k) = v" "fat_val k (CLUSTER_EOF AND fat_mask k) = CLUSTER_EOF"
proof -
  show "v < fat_limit k \<Longrightarrow> fat_val k (v AND fat_mask k) = v" by (simp add: fits_mask(1) fat_val_def not_le [symmetric])
  have "CLUSTER_EOF AND fat_mask k = fat_mask k" by (cases k) (simp_all add: fat_mask_def)
  then show "fat_val k (CLUSTER_EOF AND fat_mask k) = CLUSTER_EOF" by (simp add: fat_val_def fits_mask(2))
qed

text \<open>What a call may change: the table's own blocks, and every changed block is marked dirty.\<close>

definition only_in :: "u32 set \<Rightarrow> sb \<Rightarrow> sb \<Rightarrow> bool" where
  "only_in A s s' \<longleftrightarrow> (\<forall>b. b \<notin> A \<longrightarrow> blk s' b = blk s b \<and> dirty s' b = dirty s b) \<and>
     (\<forall>b. dirty s b \<longrightarrow> dirty s' b) \<and> (\<forall>b. blk s' b \<noteq> blk s b \<longrightarrow> dirty s' b)"

lemma only_in_same: "blk s' = blk s \<Longrightarrow> dirty s' = dirty s \<Longrightarrow> only_in A s s'"
  by (simp add: only_in_def)

lemma only_in_trans: "only_in A s t \<Longrightarrow> only_in A t u \<Longrightarrow> only_in A s u"
  unfolding only_in_def by (intro conjI allI impI) metis+

lemma only_in_mono: "only_in A s t \<Longrightarrow> A \<subseteq> B \<Longrightarrow> only_in B s t"
  by (auto simp: only_in_def)

lemma table_read:
  assumes "tbl_ok s" "loc < num_clusters s"
  obtains s' where "FAT_read s loc = (s', Some (fat_get s loc))" "tbl_ok s'" "fat_frame s s'" "blk s' = blk s" "dirty s' = dirty s"
    "fat_get s' = fat_get s" "vol_eq s s'"
proof -
  have "fat_ok s" using assms(1) by (simp add: tbl_ok_def)
  from FAT_read_ok [OF this assms(2)] obtain s' where *: "FAT_read s loc = (s', Some (fat_get s loc))" "fat_ok s'" "fat_frame s s'"
    "blk s' = blk s" "dirty s' = dirty s" "fat_get s' = fat_get s" "vol_eq s s'" by blast
  have "tbl_ok s'" using *(2) fat_frame_fields [OF *(3)] assms(1) by (simp add: tbl_ok_def)
  with * show thesis using that by blast
qed

lemma table_write:
  assumes "tbl_ok s" "loc < num_clusters s" "v < num_clusters s \<or> v = CLUSTER_EOF"
  obtains s' where "FAT_write s loc v = (s', 0)" "tbl_ok s'" "fat_frame s s'" "fat_get s' = (fat_get s)(loc := v)"
    "only_in (fat_area s) s s'"
proof -
  have o: "fat_ok s" "num_clusters s \<le> fat_limit (vol_type s)" using assms(1) by (simp_all add: tbl_ok_def)
  have v: "fat_val (vol_type s) (v AND fat_mask (vol_type s)) = v"
    using assms(3)
  proof
    assume "v < num_clusters s"
    then have "v < fat_limit (vol_type s)" using o(2) by (rule order.strict_trans2)
    then show ?thesis by (rule fat_val_fits(1))
  qed (simp only: fat_val_fits(2))
  show thesis
  proof (rule FAT_write_ok [OF o(1) assms(2), of v])
    fix s'
    assume *: "FAT_write s loc v = (s', 0)" "fat_ok s'" "fat_frame s s'"
      and get: "\<And>c. fat_get s' c = (if c = loc then fat_val (vol_type s) (v AND fat_mask (vol_type s)) else fat_get s c)"
      and out: "\<And>b. b \<notin> fat_area s \<Longrightarrow> blk s' b = blk s b \<and> dirty s' b = dirty s b"
        "\<And>b. dirty s b \<Longrightarrow> dirty s' b" "\<And>b. blk s' b \<noteq> blk s b \<Longrightarrow> dirty s' b"
    have "tbl_ok s'" using *(2) fat_frame_fields [OF *(3)] assms(1) by (simp add: tbl_ok_def)
    moreover have "fat_get s' = (fat_get s)(loc := v)" unfolding fun_eq_iff get v by simp
    moreover have "only_in (fat_area s) s s'" unfolding only_in_def using out by simp
    ultimately show thesis by (rule that [OF *(1) _ *(3)])
  qed
qed

lemma fat_val_nonlimit: "fat_get s c = CLUSTER_EOF \<or> fat_get s c < fat_limit (vol_type s)"
  by (auto simp: fat_get_def fat_val_def)

end
