(* ===== verification/FatAlloc.thy ===== *)
theory FatAlloc
  imports ClusterApi
begin

text \<open>
  What the FAT cluster functions do to the table: \<open>fat_alloc_cluster\<close> takes the first free clusters of the search ring
  and links them into a chain, \<open>fat_free_cluster\<close> clears a chain, \<open>find_last_cluster\<close>, \<open>count_num_clusters\<close> and
  \<open>fat_count_used_clusters\<close> read it.
\<close>

section \<open>The search ring\<close>

fun ring_walk :: "sb \<Rightarrow> nat \<Rightarrow> u32 \<Rightarrow> u32 list" where
  "ring_walk s 0 c = []"
| "ring_walk s (Suc n) c = c # ring_walk s n (next_cluster s c)"

definition walk_end :: "sb \<Rightarrow> nat \<Rightarrow> u32 \<Rightarrow> u32" where
  "walk_end s n c = (next_cluster s ^^ n) c"

lemma unat_next:
  assumes "c < num_clusters s"
  shows "unat (next_cluster s c) = (if unat (num_clusters s) \<le> Suc (unat c) then 2 else Suc (unat c))"
proof -
  have "Suc (unat c) \<le> unat (num_clusters s)" using assms by (simp add: word_less_nat_alt)
  also have "\<dots> < 2 ^ 32" using unsigned_less [of "num_clusters s"] by simp
  finally have "unat (c + 1) = Suc (unat c)" by (simp add: unat_word_ariths)
  then show ?thesis by (auto simp: next_cluster_def word_le_nat_alt)
qed

lemma next_range: "2 < num_clusters s \<Longrightarrow> c < num_clusters s \<Longrightarrow> 2 \<le> c \<Longrightarrow> 2 \<le> next_cluster s c \<and> next_cluster s c < num_clusters s"
  by (auto simp: word_le_nat_alt word_less_nat_alt unat_next)

lemma ring_walk_up:
  assumes "2 < num_clusters s" "2 \<le> c" "unat c + n \<le> unat (num_clusters s)" "0 < n"
  shows "map unat (ring_walk s (n + m) c) = [unat c..<unat c + n] @
    map unat (ring_walk s m (if unat (num_clusters s) \<le> unat c + n then 2 else c + of_nat n))"
  using assms(2-4)
proof (induction n arbitrary: c)
  case 0
  then show ?case by simp
next
  case (Suc n)
  have c: "c < num_clusters s" using Suc.prems(2) by (simp add: word_less_nat_alt)
  have b: "unat (num_clusters s) < 2 ^ 32" using unsigned_less [of "num_clusters s"] by simp
  show ?case
  proof (cases n)
    case 0
    then show ?thesis using Suc.prems
      by (simp add: next_cluster_def word_le_nat_alt unat_next [OF c] upt_conv_Cons)
        (use Suc.prems b in \<open>auto simp: unat_word_ariths\<close>)
  next
    case (Suc n')
    then have "\<not> unat (num_clusters s) \<le> Suc (unat c)" using Suc.prems by simp
    then have u: "unat (next_cluster s c) = Suc (unat c)" and nx: "next_cluster s c = c + 1"
      using unat_next [OF c] Suc.prems b by (auto simp: next_cluster_def word_le_nat_alt unat_word_ariths)
    have "2 \<le> next_cluster s c" using next_range [OF assms(1) c Suc.prems(1)] by blast
    then have "map unat (ring_walk s (n + m) (next_cluster s c)) = [Suc (unat c)..<Suc (unat c) + n] @
      map unat (ring_walk s m (if unat (num_clusters s) \<le> Suc (unat c) + n then 2 else next_cluster s c + of_nat n))"
      using Suc.IH [of "next_cluster s c"] Suc Suc.prems by (simp add: u)
    moreover have "[unat c..<unat c + Suc n] = unat c # [Suc (unat c)..<Suc (unat c) + n]" by (simp add: upt_conv_Cons)
    moreover have "next_cluster s c + of_nat n = c + of_nat (Suc n)" by (simp add: nx)
    ultimately show ?thesis by (simp only: add_Suc ring_walk.simps list.map append_Cons add_Suc_right)
  qed
qed

text \<open>A full turn of the ring visits every data cluster once.\<close>

lemma ring_full:
  assumes "2 < num_clusters s" "2 \<le> c" "c < num_clusters s"
  shows "map unat (ring_walk s (data_clusters s) c) = [unat c..<unat (num_clusters s)] @ [2..<unat c]"
proof -
  let ?N = "unat (num_clusters s)"
  have c: "2 \<le> unat c" "unat c < ?N" using assms by (simp_all add: word_le_nat_alt word_less_nat_alt)
  then have d: "data_clusters s = (?N - unat c) + (unat c - 2)" by (simp add: data_clusters_def)
  have 1: "map unat (ring_walk s (data_clusters s) c) = [unat c..<?N] @ map unat (ring_walk s (unat c - 2) 2)"
    unfolding d using ring_walk_up [OF assms(1,2), of "?N - unat c" "unat c - 2"] c by simp
  have 2: "map unat (ring_walk s (unat c - 2) 2) = [2..<unat c]"
  proof (cases "unat c = 2")
    case False
    have "Suc (Suc (unat c - 2)) = unat c" using c by simp
    then show ?thesis using ring_walk_up [OF assms(1), of 2 "unat c - 2" 0] c False by (simp del: upt_Suc)
  qed simp
  show ?thesis using 1 2 by simp
qed

lemma inj_unat: "inj (unat :: u32 \<Rightarrow> nat)"
  by (rule injI) (rule word_unat_eq_iff [THEN iffD2])

lemma ring_props:
  assumes "2 < num_clusters s" "2 \<le> c" "c < num_clusters s"
  shows "distinct (ring_walk s (data_clusters s) c)"
    and "set (ring_walk s (data_clusters s) c) = {x. 2 \<le> x \<and> x < num_clusters s}"
proof -
  let ?r = "ring_walk s (data_clusters s) c"
  note f = ring_full [OF assms]
  have c: "2 \<le> unat c" "unat c < unat (num_clusters s)" using assms by (simp_all add: word_le_nat_alt word_less_nat_alt)
  have "distinct (map unat ?r)" unfolding f using c by auto
  then show "distinct ?r" by (simp add: distinct_map)
  have mem: "x \<in> set ?r \<longleftrightarrow> unat x \<in> set (map unat ?r)" for x
    by (simp only: set_map inj_image_mem_iff [OF inj_unat])
  have all: "set (map unat ?r) = {2..<unat (num_clusters s)}" unfolding f using c by auto
  show "set ?r = {x. 2 \<le> x \<and> x < num_clusters s}"
    by (rule set_eqI) (unfold mem all, simp add: word_le_nat_alt word_less_nat_alt)
qed

lemma ring_walk_cong: "next_cluster s' = next_cluster s \<Longrightarrow> ring_walk s' n c = ring_walk s n c"
  by (induction n arbitrary: c) simp_all

lemma ring_walk_less: "2 < num_clusters s \<Longrightarrow> 2 \<le> c \<Longrightarrow> c < num_clusters s \<Longrightarrow> x \<in> set (ring_walk s n c) \<Longrightarrow> 2 \<le> x \<and> x < num_clusters s"
proof (induction n arbitrary: c)
  case (Suc n)
  then show ?case using next_range [of s c] by auto
qed simp

lemma below_EOF: "c < n \<Longrightarrow> c \<noteq> CLUSTER_EOF"
proof -
  have "unat n < 2 ^ 32" using unsigned_less [of n] by simp
  then show "c < n \<Longrightarrow> c \<noteq> CLUSTER_EOF" by (auto simp: word_less_nat_alt)
qed

section \<open>Allocation\<close>

definition free_clusters :: "(u32 \<Rightarrow> u32) \<Rightarrow> u32 list \<Rightarrow> u32 list" where
  "free_clusters t ps = filter (\<lambda>c. t c = 0) ps"

definition add_used :: "u32 \<Rightarrow> int \<Rightarrow> u32" where
  "add_used u n = (if u \<noteq> CLUSTER_EOF then u + of_s32 n else u)"

lemma used_use [simp]: "used_clusters (use_clusters s n) = add_used (used_clusters s) n"
  by (simp add: use_clusters_def add_used_def)

definition alloc_done :: "sb \<Rightarrow> u32 list \<Rightarrow> u32 list \<Rightarrow> int \<Rightarrow> u32 \<Rightarrow> sb \<Rightarrow> bool" where
  "alloc_done s pre taken num ptr s' \<longleftrightarrow> tbl_ok s' \<and> clu_frame s s' \<and> fat_get s' = link_all (fat_get s) (pre @ taken) \<and>
     only_in (fat_area s) s s' \<and> the_buf_cache s' = the_buf_cache s \<and> clu_srch_ptr s' = ptr \<and> used_clusters s' = add_used (used_clusters s) (num + int (length taken))"

definition with_first :: "CHAIN_T \<Rightarrow> u32 list \<Rightarrow> CHAIN_T" where
  "with_first p taken = (if ch_dir p = CLUSTER_EOF \<and> taken \<noteq> [] then p\<lparr>ch_dir := hd taken\<rparr> else p)"

lemma alloc_finish:
  assumes "tbl_ok s" "\<And>l. pre = [l] \<Longrightarrow> fat_get s l = CLUSTER_EOF" "length pre \<le> 1"
  shows "alloc_done s pre [] num c (use_clusters (s\<lparr>clu_srch_ptr := c\<rparr>) num)"
proof -
  have "link_all (fat_get s) pre = fat_get s"
    using assms(2,3) by (cases pre) (auto simp: fun_eq_iff)
  moreover have "clu_frame s (use_clusters (s\<lparr>clu_srch_ptr := c\<rparr>) num)"
    using clu_frame_trans [OF clu_frame_updates(1) clu_frame_updates(3)] .
  moreover have "only_in (fat_area s) s (use_clusters (s\<lparr>clu_srch_ptr := c\<rparr>) num)" by (rule only_in_same) simp_all
  moreover have "the_buf_cache (use_clusters (s\<lparr>clu_srch_ptr := c\<rparr>) num) = the_buf_cache s" by (simp add: use_clusters_def)
  ultimately show ?thesis using assms(1) by (simp add: alloc_done_def)
qed

lemma alloc_done_step:
  assumes "clu_frame s t" "only_in (fat_area s) s t" "used_clusters t = used_clusters s" "the_buf_cache t = the_buf_cache s"
    and "link_all (fat_get t) (pre' @ taken') = link_all (fat_get s) (pre @ taken)"
    and "num' + int (length taken') = num + int (length taken)" "alloc_done t pre' taken' num' ptr s'"
  shows "alloc_done s pre taken num ptr s'"
  using assms clu_frame_trans [OF assms(1)] only_in_trans [OF assms(2)] clu_frame_derived(6) [OF assms(1)]
  by (auto simp: alloc_done_def)

text \<open>The cluster \<open>c\<close> is taken: it ends the chain, and the cluster taken before it points to it.\<close>

lemma take_one:
  assumes "tbl_ok s" "c < num_clusters s" "\<And>l. pre = [l] \<Longrightarrow> l < num_clusters s \<and> l \<noteq> c" "length pre \<le> 1"
    and "ch_dir p = CLUSTER_EOF \<longleftrightarrow> pre = []" "\<And>l. pre = [l] \<Longrightarrow> last_clu = l"
  obtains s1 s2 where "FAT_write s c CLUSTER_EOF = (s1, 0)"
    "(if ch_dir p = CLUSTER_EOF then (s1, p\<lparr>ch_dir := c\<rparr>, 0) else (case FAT_write s1 last_clu c of (s3, r) \<Rightarrow> (s3, p, r))) =
       (s2, with_first p [c], 0)"
    "tbl_ok s2" "fat_frame s s2" "only_in (fat_area s) s s2"
    "fat_get s2 = (case pre of [] \<Rightarrow> (fat_get s)(c := CLUSTER_EOF) | l # _ \<Rightarrow> (fat_get s)(c := CLUSTER_EOF, l := c))"
proof -
  from table_write [OF assms(1,2) disjI2 [OF refl]] obtain s1 where s1: "FAT_write s c CLUSTER_EOF = (s1, 0)" "tbl_ok s1"
    "fat_frame s s1" "fat_get s1 = (fat_get s)(c := CLUSTER_EOF)" "only_in (fat_area s) s s1" .
  note f = fat_frame_fields [OF s1(3)]
  show thesis
  proof (cases pre)
    case Nil
    then show thesis using that [OF s1(1), of s1] s1 assms(5) by (simp add: with_first_def)
  next
    case (Cons l ls)
    then have pre: "pre = [l]" using assms(4) by simp
    have l: "l < num_clusters s1" "c < num_clusters s1" using assms(2,3) pre f by auto
    from table_write [OF s1(2) l(1) disjI1 [OF l(2)]] obtain s2 where s2: "FAT_write s1 l c = (s2, 0)" "tbl_ok s2"
      "fat_frame s1 s2" "fat_get s2 = (fat_get s1)(l := c)" "only_in (fat_area s1) s1 s2" .
    have "only_in (fat_area s) s s2"
      using s2(5) clu_frame_derived(6) [OF fat_clu_frame [OF s1(3)]] only_in_trans [OF s1(5)] by simp
    then show thesis
      using that [OF s1(1), of s2] s2 s1(4) assms(5,6) pre fat_frame_trans [OF s1(3) s2(3)]
      by (simp add: with_first_def)
  qed
qed

lemma fat_alloc_loop_ok:
  assumes "tbl_ok s" "2 \<le> c" "c < num_clusters s" "distinct (ring_walk s n c)" "1 \<le> k"
    and "\<And>l. pre = [l] \<Longrightarrow> l < num_clusters s \<and> fat_get s l = CLUSTER_EOF \<and> l \<notin> set (ring_walk s n c)" "length pre \<le> 1"
    and "ch_dir p = CLUSTER_EOF \<longleftrightarrow> pre = []" "\<And>l. pre = [l] \<Longrightarrow> last_clu = l"
  defines "taken \<equiv> take k (free_clusters (fat_get s) (ring_walk s n c))"
  shows "\<exists>s'. fat_alloc_loop n s c last_clu (int k) num p = (s', with_first p taken, num + int (length taken)) \<and>
     alloc_done s pre taken num (if length taken = k then last taken else walk_end s n c) s'"
  using assms(1-9) unfolding taken_def
proof (induction n arbitrary: s c k pre p last_clu num)
  case 0
  then show ?case using alloc_finish [OF 0(1), of pre num c] by (simp add: free_clusters_def walk_end_def with_first_def)
next
  case (Suc n)
  have big: "2 < num_clusters s" using Suc.prems(1) by (simp add: tbl_ok_def)
  let ?c' = "next_cluster s c"
  have c': "2 \<le> ?c'" "?c' < num_clusters s" using next_range [OF big Suc.prems(3,2)] by auto
  have we: "walk_end s (Suc n) c = walk_end s n ?c'" by (simp add: walk_end_def funpow_swap1)
  have d: "distinct (ring_walk s n ?c')" "c \<notin> set (ring_walk s n ?c')" using Suc.prems(4) by auto
  from table_read [OF Suc.prems(1,3)] obtain s1 where s1: "FAT_read s c = (s1, Some (fat_get s c))" "tbl_ok s1" "fat_frame s s1"
    "blk s1 = blk s" "dirty s1 = dirty s" "fat_get s1 = fat_get s" "vol_eq s s1" .
  note f1 = fat_frame_fields [OF s1(3)] and cf1 = fat_clu_frame [OF s1(3)]
  have o1: "only_in (fat_area s) s s1" by (rule only_in_same) fact+
  have nx: "next_cluster t = next_cluster s" "num_clusters t = num_clusters s" if "fat_frame s t" for t
    using clu_frame_derived(7) [OF fat_clu_frame [OF that]] fat_frame_fields [OF that] by simp_all
  show ?case
  proof (cases "fat_get s c = 0")
    case False
    have rw: "ring_walk s1 m e = ring_walk s m e" for m e by (rule ring_walk_cong) (rule nx [OF s1(3)])
    have we1: "walk_end s1 m e = walk_end s m e" for m e by (simp add: walk_end_def nx [OF s1(3)])
    have pre1: "\<And>l. pre = [l] \<Longrightarrow> l < num_clusters s1 \<and> fat_get s1 l = CLUSTER_EOF \<and> l \<notin> set (ring_walk s1 n ?c')"
      using Suc.prems(6) by (simp add: rw s1(6) f1)
    have d1: "distinct (ring_walk s1 n ?c')" and c1: "?c' < num_clusters s1" using d c' by (simp_all add: rw f1)
    from Suc.IH [OF s1(2) c'(1) c1 d1 Suc.prems(5) pre1 Suc.prems(7-9), of num]
    obtain s' where s': "fat_alloc_loop n s1 ?c' last_clu (int k) num p =
        (s', with_first p (take k (free_clusters (fat_get s) (ring_walk s n ?c'))),
         num + int (length (take k (free_clusters (fat_get s) (ring_walk s n ?c')))))"
      "alloc_done s1 pre (take k (free_clusters (fat_get s) (ring_walk s n ?c'))) num
        (if length (take k (free_clusters (fat_get s) (ring_walk s n ?c'))) = k
         then last (take k (free_clusters (fat_get s) (ring_walk s n ?c'))) else walk_end s n ?c') s'"
      unfolding rw s1(6) we1 by blast
    have fc: "free_clusters (fat_get s) (ring_walk s (Suc n) c) = free_clusters (fat_get s) (ring_walk s n ?c')"
      using False by (simp add: free_clusters_def)
    have "fat_alloc_loop (Suc n) s c last_clu (int k) num p = fat_alloc_loop n s1 ?c' last_clu (int k) num p"
      using False by (simp add: s1(1) nx [OF s1(3)])
    then show ?thesis
      unfolding fc we using s'(1) alloc_done_step [OF cf1 o1 f1(22,4) _ _ s'(2)] s1(6) by auto
  next
    case True
    have pc: "\<And>l. pre = [l] \<Longrightarrow> l < num_clusters s1 \<and> l \<noteq> c" using Suc.prems(6) f1 by auto
    have c1: "c < num_clusters s1" using Suc.prems(3) f1 by simp
    from take_one [OF s1(2) c1 pc Suc.prems(7-9)] obtain s2 s3 where
      s2: "FAT_write s1 c CLUSTER_EOF = (s2, 0)" and
      br: "(if ch_dir p = CLUSTER_EOF then (s2, p\<lparr>ch_dir := c\<rparr>, 0) else (case FAT_write s2 last_clu c of (s3, r) \<Rightarrow> (s3, p, r))) =
       (s3, with_first p [c], 0)" and
      s3: "tbl_ok s3" "fat_frame s1 s3" "only_in (fat_area s1) s1 s3"
      "fat_get s3 = (case pre of [] \<Rightarrow> (fat_get s1)(c := CLUSTER_EOF) | l # _ \<Rightarrow> (fat_get s1)(c := CLUSTER_EOF, l := c))" .
    have ff: "fat_frame s s3" by (rule fat_frame_trans [OF s1(3) s3(2)])
    note f3 = fat_frame_fields [OF ff] and cf3 = fat_clu_frame [OF ff]
    have o3: "only_in (fat_area s) s s3"
      using s3(3) clu_frame_derived(6) [OF cf1] only_in_trans [OF o1] by simp
    let ?r = "ring_walk s n ?c'"
    have g3: "fat_get s3 x = fat_get s x" if "x \<in> set ?r" for x
      using that Suc.prems(6,7) d(2) by (cases pre) (auto simp: s3(4) s1(6))
    have eqc: "fat_get s3 c = CLUSTER_EOF" using Suc.prems(6,7) by (cases pre) (auto simp: s3(4) s1(6))
    have rw: "ring_walk s3 m e = ring_walk s m e" for m e by (rule ring_walk_cong) (rule nx [OF ff])
    have we3: "walk_end s3 m e = walk_end s m e" for m e by (simp add: walk_end_def nx [OF ff])
    have fr: "free_clusters (fat_get s3) ?r = free_clusters (fat_get s) ?r"
      unfolding free_clusters_def by (rule filter_cong) (use g3 in auto)
    have fc: "free_clusters (fat_get s) (ring_walk s (Suc n) c) = c # free_clusters (fat_get s) ?r"
      using True by (simp add: free_clusters_def)
    have link: "link_all (fat_get s3) ([c] @ xs) = link_all (fat_get s) (pre @ c # xs)" if "c \<notin> set xs" "set xs \<subseteq> set ?r" for xs
    proof (cases pre)
      case Nil
      then show ?thesis using link_all_head [OF that(1)] by (simp add: s3(4) s1(6))
    next
      case (Cons l ls)
      then have l: "ls = []" "l \<noteq> c" "l \<notin> set xs" using Suc.prems(6,7) that(2) by auto
      then have "link_all ((fat_get s)(c := CLUSTER_EOF, l := c)) (c # xs) = (link_all ((fat_get s)(c := CLUSTER_EOF)) (c # xs))(l := c)"
        by (intro link_all_upd) auto
      then show ?thesis using link_all_head [OF that(1)] Cons l(1) by (simp add: s3(4) s1(6))
    qed
    have ne: "c \<noteq> CLUSTER_EOF" using Suc.prems(3) by (rule below_EOF)
    have wf: "with_first (with_first p [c]) xs = with_first p (c # xs)" for xs
      using ne by (auto simp: with_first_def)
    have pd: "ch_dir (with_first p [c]) \<noteq> CLUSTER_EOF" using ne by (auto simp: with_first_def)
    have loop: "fat_alloc_loop (Suc n) s c last_clu (int k) num p =
      (if int k - 1 = 0 then (use_clusters (s3\<lparr>clu_srch_ptr := c\<rparr>) (num + 1), with_first p [c], num + 1)
       else fat_alloc_loop n s3 ?c' c (int k - 1) (num + 1) (with_first p [c]))"
      unfolding fat_alloc_loop.simps s1(1) prod.case option.case if_P [OF True] s2 Let_def br using nx [OF ff] by simp
    show ?thesis
    proof (cases "k = 1")
      case True
      have "alloc_done s3 [c] [] (num + 1) c (use_clusters (s3\<lparr>clu_srch_ptr := c\<rparr>) (num + 1))"
        by (rule alloc_finish [OF s3(1)]) (use eqc in auto)
      then have "alloc_done s pre [c] num c (use_clusters (s3\<lparr>clu_srch_ptr := c\<rparr>) (num + 1))"
        by (rule alloc_done_step [OF cf3 o3 f3(22,4), rotated 2]) (use link [of "[]"] in auto)
      then show ?thesis unfolding loop fc using True by simp
    next
      case False
      then have k1: "1 \<le> k - 1" "int k - 1 = int (k - 1)" "k - 1 \<noteq> 0" using Suc.prems(5) by auto
      have c3: "?c' < num_clusters s3" using c' f3 by simp
      have d3: "distinct (ring_walk s3 n ?c')" using d by (simp add: rw)
      have pre3: "\<And>l. [c] = [l] \<Longrightarrow> l < num_clusters s3 \<and> fat_get s3 l = CLUSTER_EOF \<and> l \<notin> set (ring_walk s3 n ?c')"
        using Suc.prems(3) d(2) eqc f3 by (simp add: rw)
      have lc: "\<And>l. [c] = [l] \<Longrightarrow> c = l" "length [c] \<le> 1" "ch_dir (with_first p [c]) = CLUSTER_EOF \<longleftrightarrow> [c] = []"
        using pd by simp_all
      from Suc.IH [OF s3(1) c'(1) c3 d3 k1(1) pre3 lc(2,3,1), of "num + 1"]
      obtain s' where s': "fat_alloc_loop n s3 ?c' c (int (k - 1)) (num + 1) (with_first p [c]) =
         (s', with_first (with_first p [c]) (take (k - 1) (free_clusters (fat_get s) ?r)),
          num + 1 + int (length (take (k - 1) (free_clusters (fat_get s) ?r))))"
        "alloc_done s3 [c] (take (k - 1) (free_clusters (fat_get s) ?r)) (num + 1)
          (if length (take (k - 1) (free_clusters (fat_get s) ?r)) = k - 1
           then last (take (k - 1) (free_clusters (fat_get s) ?r)) else walk_end s n ?c') s'"
        unfolding rw fr we3 by blast
      let ?t = "take (k - 1) (free_clusters (fat_get s) ?r)"
      have tk: "take k (free_clusters (fat_get s) (ring_walk s (Suc n) c)) = c # ?t"
        unfolding fc using Suc.prems(5) by (cases k) auto
      have sub: "set ?t \<subseteq> set ?r" by (auto simp: free_clusters_def dest: in_set_takeD)
      have ptr: "(if length ?t = k - 1 then last ?t else walk_end s n ?c') =
        (if length (c # ?t) = k then last (c # ?t) else walk_end s (Suc n) c)"
        unfolding we using k1 by auto
      have "alloc_done s pre (c # ?t) num (if length ?t = k - 1 then last ?t else walk_end s n ?c') s'"
        by (rule alloc_done_step [OF cf3 o3 f3(22,4) link _ s'(2)]) (use sub d(2) in auto)
      then show ?thesis
        unfolding loop tk ptr using k1 s'(1) by (simp add: wf)
    qed
  qed
qed

definition alloc_start :: "sb \<Rightarrow> CHAIN_T \<Rightarrow> u32" where
  "alloc_start s p = (if ch_dir p = CLUSTER_EOF then clu_srch_ptr s else if ch_dir p \<ge> num_clusters s then 2 else ch_dir p)"

definition ptr_ok :: "sb \<Rightarrow> CHAIN_T \<Rightarrow> bool" where
  "ptr_ok s p \<longleftrightarrow> (if ch_dir p = CLUSTER_EOF then 2 \<le> clu_srch_ptr s \<and> clu_srch_ptr s < num_clusters s else 2 \<le> ch_dir p)"

definition fat_taken :: "sb \<Rightarrow> nat \<Rightarrow> CHAIN_T \<Rightarrow> u32 list" where
  "fat_taken s k p = take k (free_clusters (fat_get s) (ring_walk s (data_clusters s) (alloc_start s p)))"

lemma alloc_start_ok: "tbl_ok s \<Longrightarrow> ptr_ok s p \<Longrightarrow> 2 \<le> alloc_start s p \<and> alloc_start s p < num_clusters s"
  by (auto simp: alloc_start_def ptr_ok_def tbl_ok_def split: if_splits)

lemma fat_taken_props:
  assumes "tbl_ok s" "ptr_ok s p"
  shows "distinct (fat_taken s k p)" "\<And>c. c \<in> set (fat_taken s k p) \<Longrightarrow> 2 \<le> c \<and> c < num_clusters s \<and> fat_get s c = 0"
    "length (fat_taken s k p) = min k (card {c. 2 \<le> c \<and> c < num_clusters s \<and> fat_get s c = 0})"
proof -
  let ?r = "ring_walk s (data_clusters s) (alloc_start s p)"
  have st: "2 \<le> alloc_start s p" "alloc_start s p < num_clusters s" using alloc_start_ok [OF assms] by auto
  have "2 < num_clusters s" using assms(1) by (simp add: tbl_ok_def)
  note r = ring_props [OF this st]
  show "distinct (fat_taken s k p)" using r(1) by (simp add: fat_taken_def free_clusters_def)
  show "2 \<le> c \<and> c < num_clusters s \<and> fat_get s c = 0" if "c \<in> set (fat_taken s k p)" for c
  proof -
    have "c \<in> set ?r" "fat_get s c = 0"
      using in_set_takeD [OF that [unfolded fat_taken_def]] by (simp_all add: free_clusters_def)
    then show ?thesis unfolding r(2) by simp
  qed
  have "length (free_clusters (fat_get s) ?r) = card (set (free_clusters (fat_get s) ?r))"
    by (rule distinct_card [symmetric]) (simp add: free_clusters_def r(1))
  also have "set (free_clusters (fat_get s) ?r) = {c. 2 \<le> c \<and> c < num_clusters s \<and> fat_get s c = 0}"
    unfolding free_clusters_def set_filter r(2) by (simp add: conj_assoc)
  finally show "length (fat_taken s k p) = min k (card {c. 2 \<le> c \<and> c < num_clusters s \<and> fat_get s c = 0})"
    by (simp add: fat_taken_def min.commute)
qed

lemma fat_alloc_cluster_ok:
  assumes "tbl_ok s" "ptr_ok s p" "1 \<le> k"
  obtains s' where "fat_alloc_cluster s (int k) p = (s', with_first (p\<lparr>ch_dir := CLUSTER_EOF\<rparr>) (fat_taken s k p), int (length (fat_taken s k p)))"
    "tbl_ok s'" "clu_frame s s'" "fat_get s' = link_all (fat_get s) (fat_taken s k p)" "only_in (fat_area s) s s'"
    "used_clusters s' = add_used (used_clusters s) (int (length (fat_taken s k p)))"
    "2 \<le> clu_srch_ptr s' \<and> clu_srch_ptr s' < num_clusters s" "the_buf_cache s' = the_buf_cache s"
proof -
  let ?c = "alloc_start s p" and ?t = "set_sb_dirty s" and ?n = "data_clusters s"
  have st: "2 \<le> ?c" "?c < num_clusters s" using alloc_start_ok [OF assms(1,2)] by auto
  have big: "2 < num_clusters s" using assms(1) by (simp add: tbl_ok_def)
  have rw: "ring_walk ?t m e = ring_walk s m e" for m e
    by (rule ring_walk_cong) (simp add: fun_eq_iff next_cluster_def)
  have t: "tbl_ok ?t" "?c < num_clusters ?t" "distinct (ring_walk ?t ?n ?c)" using assms(1) st ring_props(1) [OF big st] by (simp_all add: rw)
  have e: "\<And>l. [] = [l] \<Longrightarrow> P" for P by simp
  have "ch_dir (p\<lparr>ch_dir := CLUSTER_EOF\<rparr>) = CLUSTER_EOF \<longleftrightarrow> [] = ([] :: u32 list)" "length ([] :: u32 list) \<le> 1" by simp_all
  from fat_alloc_loop_ok [OF t(1) st(1) t(2,3) assms(3) e this(2,1) e, where last_clu = CLUSTER_EOF and num = 0] obtain s' where
    s': "fat_alloc_loop ?n ?t ?c CLUSTER_EOF (int k) 0 (p\<lparr>ch_dir := CLUSTER_EOF\<rparr>) =
      (s', with_first (p\<lparr>ch_dir := CLUSTER_EOF\<rparr>) (fat_taken s k p), int (length (fat_taken s k p)))"
    and dn: "alloc_done ?t [] (fat_taken s k p) 0 (if length (fat_taken s k p) = k then last (fat_taken s k p) else walk_end ?t ?n ?c) s'"
    unfolding rw fat_taken_def table_updates(3) add_0 append_Nil by blast
  have "2 \<le> walk_end ?t m e \<and> walk_end ?t m e < num_clusters s" if "2 \<le> e" "e < num_clusters s" for m e
    using that
  proof (induction m)
    case (Suc m)
    then show ?case using next_range [of ?t "walk_end ?t m e"] big by (simp add: walk_end_def)
  qed (simp add: walk_end_def)
  moreover have "last (fat_taken s k p) \<in> set (fat_taken s k p)" if "length (fat_taken s k p) = k" using that assms(3) by (intro last_in_set) auto
  ultimately have ptr: "2 \<le> clu_srch_ptr s' \<and> clu_srch_ptr s' < num_clusters s"
    using dn st fat_taken_props(2) [OF assms(1,2)] by (auto simp: alloc_done_def)
  have bc: "the_buf_cache ?t = the_buf_cache s" by (simp add: set_sb_dirty_def)
  have fr: "clu_frame s s'" using clu_frame_trans [OF clu_frame_updates(2)] dn by (auto simp: alloc_done_def)
  show thesis
  proof (rule that [of s'])
    show "fat_alloc_cluster s (int k) p = (s', with_first (p\<lparr>ch_dir := CLUSTER_EOF\<rparr>) (fat_taken s k p), int (length (fat_taken s k p)))"
      using s' by (simp add: fat_alloc_cluster_def Let_def alloc_start_def data_clusters_def)
    have "fat_area ?t = fat_area s" by (rule clu_frame_derived) simp
    then show "only_in (fat_area s) s s'" using dn by (simp add: alloc_done_def only_in_def)
  qed (use dn fr ptr bc in \<open>auto simp: alloc_done_def\<close>)
qed

section \<open>Freeing\<close>

lemma release_frame: "vol_eq s (release_cluster s c) \<and> FAT_cache (release_cluster s c) = FAT_cache s"
proof -
  have "vol_eq s (fold (\<lambda>i s. buf_release s (a + of_nat i)) is t) \<and> FAT_cache (fold (\<lambda>i s. buf_release s (a + of_nat i)) is t) = FAT_cache s"
    if "vol_eq s t \<and> FAT_cache t = FAT_cache s" for "is" a t
    using that
  proof (induction "is" arbitrary: t)
    case (Cons i "is")
    have "vol_eq s (buf_release t (a + of_nat i)) \<and> FAT_cache (buf_release t (a + of_nat i)) = FAT_cache s"
      using buf_release_frame [of t "a + of_nat i"] vol_eq_trans [of s t "buf_release t (a + of_nat i)"] Cons.prems by simp
    from Cons.IH [OF this] show ?case by simp
  qed simp
  moreover have "START_SECTOR (buf_release t x) = START_SECTOR t" for t x
    using same_volume_derived(4) [OF vol_eq_same [OF buf_release_frame(1)]] .
  then have "fold (\<lambda>i s. buf_release s (START_SECTOR s c + of_nat i)) is t = fold (\<lambda>i s. buf_release s (START_SECTOR t c + of_nat i)) is t" for "is" t
    by (induction "is" arbitrary: t) simp_all
  ultimately show ?thesis unfolding release_cluster_def by simp
qed

lemma release_if:
  "vol_eq s (if rel then release_cluster s c else s)" "FAT_cache (if rel then release_cluster s c else s) = FAT_cache s"
  using release_frame by simp_all

text \<open>One round of the loop, and then a whole chain.\<close>

lemma free_steps:
  assumes "tbl_ok s" "c < num_clusters s"
  obtains s1 s2 where "\<not> dev_ejected s" "FAT_read (if rel then release_cluster s c else s) c = (s1, Some (fat_get s c))"
    "FAT_write s1 c 0 = (s2, 0)"
    "tbl_ok s2" "clu_frame s s2" "fat_get s2 = (fat_get s)(c := 0)" "only_in (fat_area s) s s2" "used_clusters s2 = used_clusters s"
    "clu_srch_ptr s2 = clu_srch_ptr s"
proof -
  let ?t = "if rel then release_cluster s c else s"
  note rl = release_if [where s = s and rel = rel and c = c]
  note vf = same_volume_fields [OF vol_eq_same [OF rl(1)]]
  have tv: "tbl_ok ?t" "fat_get ?t = fat_get s" and cf: "clu_frame s ?t"
    using table_view [OF vol_clu_frame [OF rl(1)] vf(1) rl(2)] assms(1) vol_clu_frame [OF rl(1)] by simp_all
  have c: "c < num_clusters ?t" using assms(2) vf by simp
  from table_read [OF tv(1) c] obtain s1 where s1: "FAT_read ?t c = (s1, Some (fat_get ?t c))" "tbl_ok s1" "fat_frame ?t s1"
    "blk s1 = blk ?t" "dirty s1 = dirty ?t" "fat_get s1 = fat_get ?t" "vol_eq ?t s1" .
  note f1 = fat_frame_fields [OF s1(3)]
  have "c < num_clusters s1" using c f1 by simp
  moreover have "0 < num_clusters s1" using s1(2) by (auto simp: tbl_ok_def word_less_nat_alt)
  ultimately have c1: "c < num_clusters s1" "0 < num_clusters s1" .
  from table_write [OF s1(2) c1(1) disjI1 [OF c1(2)]] obtain s2 where s2: "FAT_write s1 c 0 = (s2, 0)" "tbl_ok s2"
    "fat_frame s1 s2" "fat_get s2 = (fat_get s1)(c := 0)" "only_in (fat_area s1) s1 s2" .
  have ff: "clu_frame s s2" using clu_frame_trans [OF cf fat_clu_frame [OF fat_frame_trans [OF s1(3) s2(3)]]] .
  have ar: "fat_area s1 = fat_area s" using clu_frame_derived(6) [OF clu_frame_trans [OF cf fat_clu_frame [OF s1(3)]]] .
  have ej: "\<not> dev_ejected s" using assms(1) by (simp add: tbl_ok_def fat_ok_def fat_ready_def io_ready_def)
  show thesis
  proof (rule that [of s1 s2])
    show "FAT_read ?t c = (s1, Some (fat_get s c))" using s1(1) tv(2) by simp
    show "only_in (fat_area s) s s2"
      using only_in_trans [OF only_in_same, of s1 s "fat_area s" s2] s2(5) ar s1(4,5) vf by simp
    show "fat_get s2 = (fat_get s)(c := 0)" by (simp add: s2(4) s1(6) tv(2))
    show "used_clusters s2 = used_clusters s" "clu_srch_ptr s2 = clu_srch_ptr s"
      unfolding fat_frame_fields(22,23) [OF s2(3)] f1(22,23) vf(28,29) by (rule refl)+
  qed (fact ej s2(1,2) ff)+
qed

lemma free_round:
  assumes "tbl_ok s" "c < num_clusters s"
  obtains s2 where "\<forall>num. fat_free_loop s c rel num =
      (if fat_get s c \<noteq> CLUSTER_EOF then fat_free_loop s2 (fat_get s c) rel (num + 1) else Some (s2, num + 1))"
    "tbl_ok s2" "clu_frame s s2" "fat_get s2 = (fat_get s)(c := 0)" "only_in (fat_area s) s s2" "used_clusters s2 = used_clusters s"
    "clu_srch_ptr s2 = clu_srch_ptr s"
proof -
  from free_steps [OF assms, of rel] obtain s1 s2 where st: "\<not> dev_ejected s"
    "FAT_read (if rel then release_cluster s c else s) c = (s1, Some (fat_get s c))" "FAT_write s1 c 0 = (s2, 0)"
    "tbl_ok s2" "clu_frame s s2" "fat_get s2 = (fat_get s)(c := 0)" "only_in (fat_area s) s s2" "used_clusters s2 = used_clusters s"
    "clu_srch_ptr s2 = clu_srch_ptr s" .
  show thesis
    by (rule that [OF _ st(4-)], rule allI, unfold fat_free_loop.simps [of s] Let_def if_not_P [OF st(1)] st(2,3) prod.case option.case) simp
qed

lemma free_chain:
  assumes "tbl_ok s" "is_chain (fat_get s) c cs" "cs \<noteq> []" "\<And>x. x \<in> set cs \<Longrightarrow> x < num_clusters s"
  shows "\<exists>s'. fat_free_loop s c rel num = Some (s', num + int (length cs)) \<and> tbl_ok s' \<and> clu_frame s s' \<and>
    fat_get s' = clear_all (fat_get s) (set cs) \<and> only_in (fat_area s) s s' \<and> used_clusters s' = used_clusters s \<and>
    clu_srch_ptr s' = clu_srch_ptr s"
  using assms
proof (induction cs arbitrary: s c num)
  case (Cons x xs)
  then have c: "c = x" "c < num_clusters s" and ch: "is_chain (fat_get s) (fat_get s x) xs" by auto
  from free_round [OF Cons.prems(1) c(2), of rel] obtain s2 where s2: "\<forall>num. fat_free_loop s c rel num =
      (if fat_get s c \<noteq> CLUSTER_EOF then fat_free_loop s2 (fat_get s c) rel (num + 1) else Some (s2, num + 1))"
    "tbl_ok s2" "clu_frame s s2" "fat_get s2 = (fat_get s)(c := 0)" "only_in (fat_area s) s s2" "used_clusters s2 = used_clusters s"
    "clu_srch_ptr s2 = clu_srch_ptr s" .
  have x: "x \<notin> set xs" using is_chain_distinct [OF Cons.prems(2)] by simp
  show ?case
  proof (cases xs)
    case Nil
    then show ?thesis using s2 ch c by (auto simp: clear_all_def fun_eq_iff)
  next
    case (Cons y ys)
    then have ne: "fat_get s c \<noteq> CLUSTER_EOF" "xs \<noteq> []" using ch c by auto
    have ch2: "is_chain (fat_get s2) (fat_get s c) xs" using ch x c by (simp add: s2(4))
    have b: "\<And>z. z \<in> set xs \<Longrightarrow> z < num_clusters s2" using Cons.prems(4) clu_frame_fields [OF s2(3)] by simp
    from Cons.IH [OF s2(2) ch2 ne(2) b, of "num + 1"] obtain s' where
      s': "fat_free_loop s2 (fat_get s c) rel (num + 1) = Some (s', num + 1 + int (length xs))" "tbl_ok s'" "clu_frame s2 s'"
      "fat_get s' = clear_all (fat_get s2) (set xs)" "only_in (fat_area s2) s2 s'" "used_clusters s' = used_clusters s2"
      "clu_srch_ptr s' = clu_srch_ptr s2" by blast
    have "fat_get s' = clear_all (fat_get s) (set (x # xs))"
      by (auto simp: s'(4) s2(4) c clear_all_def fun_eq_iff)
    moreover have "only_in (fat_area s) s s'"
      using only_in_trans [OF s2(5)] s'(5) clu_frame_derived(6) [OF s2(3)] by simp
    ultimately show ?thesis
      using s2(1) [rule_format, of num] ne s' s2(6,7) clu_frame_trans [OF s2(3) s'(3)] by simp
  qed
qed simp

lemma fat_free_cluster_ok:
  assumes "tbl_ok s" "is_chain (fat_get s) (ch_dir p) cs" "\<And>x. x \<in> set cs \<Longrightarrow> x < num_clusters s" "ch_dir p \<noteq> 0" "cs \<noteq> []" "0 < ch_size p"
  obtains s' where "fat_free_cluster s p rel = Some s'" "tbl_ok s'" "clu_frame s s'" "fat_get s' = clear_all (fat_get s) (set cs)"
    "only_in (fat_area s) s s'" "used_clusters s' = add_used (used_clusters s) (- int (length cs))" "clu_srch_ptr s' = clu_srch_ptr s"
proof -
  let ?t = "set_sb_dirty s"
  have t: "tbl_ok ?t" "is_chain (fat_get ?t) (ch_dir p) cs" "\<And>x. x \<in> set cs \<Longrightarrow> x < num_clusters ?t" using assms by simp_all
  have ne: "ch_dir p \<noteq> CLUSTER_EOF" using assms(2,5) by (cases cs) auto
  from free_chain [OF t(1,2) assms(5) t(3), of rel 0] obtain s1 where s1: "fat_free_loop ?t (ch_dir p) rel 0 = Some (s1, int (length cs))"
    "tbl_ok s1" "clu_frame ?t s1" "fat_get s1 = clear_all (fat_get s) (set cs)" "only_in (fat_area ?t) ?t s1" "used_clusters s1 = used_clusters s"
    "clu_srch_ptr s1 = clu_srch_ptr s" by auto
  have ar: "fat_area ?t = fat_area s" by (rule clu_frame_derived) simp
  show thesis
  proof (rule that [of "use_clusters s1 (- int (length cs))"])
    show "fat_free_cluster s p rel = Some (use_clusters s1 (- int (length cs)))"
      using assms(4,6) ne s1(1) by (simp add: fat_free_cluster_def)
    show "clu_frame s (use_clusters s1 (- int (length cs)))"
      using clu_frame_trans [OF clu_frame_trans [OF clu_frame_updates(2) s1(3)] clu_frame_updates(3)] .
    show "only_in (fat_area s) s (use_clusters s1 (- int (length cs)))"
      using s1(5) ar by (simp add: only_in_def)
  qed (use s1 in simp_all)
qed

end
