(* ===== verification/FatProps.thy ===== *)
theory FatProps
  imports FatAlloc
begin

text \<open>
  The properties of the FAT cluster functions: what an allocation and a deallocation do to the table, that they undo each
  other, that following and counting a chain is exact, and where freeing a chain never ends.
\<close>

section \<open>Sample volumes\<close>

lemma sample_tbl_ok: "tbl_ok (sample_sb k)" "num_clusters (sample_sb k) = 66" "data_clusters (sample_sb k) = 64"
  "clu_srch_ptr (sample_sb k) = 2" "used_clusters (sample_sb k) = CLUSTER_EOF"
proof -
  show n: "num_clusters (sample_sb k) = 66" and "clu_srch_ptr (sample_sb k) = 2" "used_clusters (sample_sb k) = CLUSTER_EOF"
    by (simp_all add: sample_fields) (simp_all add: blank_sb_def)
  then show "data_clusters (sample_sb k) = 64" by (simp add: data_clusters_def)
  have "66 \<le> fat_limit j" for j by (cases j) (simp_all add: fat_limit_def)
  then show "tbl_ok (sample_sb k)" using sample_fat_ok [of k] n by (simp add: tbl_ok_def)
qed

lemma sample_fat_get:
  assumes "k \<noteq> FAT12"
  shows "fat_get (sample_sb k) c = 0"
proof -
  have "fat_mem (sample_sb k) p = 0" for p
    by (simp add: fat_mem_def sample_fields) (simp add: blank_sb_def)
  moreover have "vol_type (sample_sb k) = k" by (simp add: sample_fields blank_sb_def)
  ultimately show ?thesis
    using assms by (cases k) (simp_all add: fat_get_def fat_raw_def raw16_def raw32_def rawex_def mem16_def mem32_def fat_val_def
        fat_limit_def GET16_def GET32_def)
qed

definition chain_at :: "u32 \<Rightarrow> CHAIN_T" where
  "chain_at c = \<lparr>ch_dir = c, ch_size = 1, ch_flags = 1\<rparr>"

lemma chain_at_fields [simp]: "ch_dir (chain_at c) = c" "ch_size (chain_at c) = 1" "ch_flags (chain_at c) = 1"
  by (simp_all add: chain_at_def)

section \<open>Allocation and deallocation\<close>

lemma few_clusters:
  assumes "distinct cs" "set cs \<subseteq> {x. 2 \<le> x \<and> x < num_clusters s}"
  shows "length cs \<le> data_clusters s"
proof -
  have "distinct (map unat cs)" using assms(1) by (simp add: distinct_map inj_on_subset [OF inj_unat])
  moreover have "set (map unat cs) \<subseteq> {2..<unat (num_clusters s)}"
    using assms(2) by (auto simp: word_le_nat_alt word_less_nat_alt)
  ultimately have "length (map unat cs) \<le> card {2..<unat (num_clusters s)}"
    by (metis card_mono distinct_card finite_atLeastLessThan)
  then show ?thesis by (simp add: data_clusters_def)
qed

lemma add_used_back:
  assumes "u = CLUSTER_EOF \<or> unat u + n < 2 ^ 32 - 1"
  shows "add_used (add_used u (int n)) (- int n) = u"
proof (cases "u = CLUSTER_EOF")
  case False
  then have b: "unat u + n < 2 ^ 32 - 1" using assms by simp
  have "of_s32 (int n) = of_nat n" "of_s32 (- int n) = - of_nat n" by (simp_all add: of_s32_def)
  moreover have "unat (u + of_nat n) = unat u + n" using b by (simp add: unat_word_ariths unat_of_nat)
  then have "u + of_nat n \<noteq> CLUSTER_EOF" using b by auto
  ultimately show ?thesis using False by (simp add: add_used_def)
qed (simp add: add_used_def)

text \<open>
  C18: \<open>fat_alloc_cluster\<close> on a working volume: asked for \<open>k\<close> clusters it takes the first \<open>k\<close> free ones of a full turn
  around the volume (all of them when there are fewer), returns their number, links them into a chain that starts at the
  returned \<open>dir\<close>, leaves every other entry of the table alone, writes nothing but the table, and counts the clusters as
  used.
\<close>

theorem fat_alloc_cluster_links:
  assumes "tbl_ok s" "ptr_ok s p" "1 \<le> k"
  defines "taken \<equiv> fat_taken s k p"
  shows "\<exists>s' p'. fat_alloc_cluster s (int k) p = (s', p', int (length taken)) \<and> tbl_ok s' \<and>
     length taken = min k (card {c. 2 \<le> c \<and> c < num_clusters s \<and> fat_get s c = 0}) \<and> distinct taken \<and>
     (\<forall>c \<in> set taken. fat_get s c = 0 \<and> fat_get s' c \<noteq> 0) \<and> (\<forall>c. c \<notin> set taken \<longrightarrow> fat_get s' c = fat_get s c) \<and>
     is_chain (fat_get s') (ch_dir p') taken \<and> only_in (fat_area s) s s' \<and>
     used_clusters s' = add_used (used_clusters s) (int (length taken))"
proof -
  note t = fat_taken_props(1,3) [OF assms(1,2), of k, folded taken_def]
  from fat_alloc_cluster_ok [OF assms(1-3)] obtain s' where
    s': "fat_alloc_cluster s (int k) p = (s', with_first (p\<lparr>ch_dir := CLUSTER_EOF\<rparr>) taken, int (length taken))"
    "tbl_ok s'" "clu_frame s s'" "fat_get s' = link_all (fat_get s) taken" "only_in (fat_area s) s s'"
    "used_clusters s' = add_used (used_clusters s) (int (length taken))"
    unfolding taken_def by blast
  have mem: "\<And>c. c \<in> set taken \<Longrightarrow> 2 \<le> c \<and> c < num_clusters s \<and> fat_get s c = 0"
    unfolding taken_def by (rule fat_taken_props(2) [OF assms(1,2)])
  have z: "0 \<notin> set taken" using mem [of 0] by (auto simp: word_le_nat_alt)
  have e: "CLUSTER_EOF \<notin> set taken" using mem below_EOF by blast
  have ch: "is_chain (fat_get s') (ch_dir (with_first (p\<lparr>ch_dir := CLUSTER_EOF\<rparr>) taken)) taken"
  proof (cases taken)
    case Nil
    then show ?thesis by (simp add: with_first_def)
  next
    case (Cons x xs)
    then show ?thesis using link_all_chain [OF t(1) e, of "fat_get s"] s'(4) by (simp add: with_first_def)
  qed
  show ?thesis
    using s' ch t mem link_all_nonzero [OF _ z, of _ "fat_get s"] link_all_outside [of _ taken "fat_get s"]
    by (intro exI [of _ s'] exI [of _ "with_first (p\<lparr>ch_dir := CLUSTER_EOF\<rparr>) taken"]) auto
qed

theorem fat_alloc_cluster_links_witness:
  "\<exists>s' p'. fat_alloc_cluster (sample_sb FAT16) 3 (chain_at 64) = (s', p', 3) \<and> is_chain (fat_get s') (ch_dir p') [64, 65, 2]"
proof -
  let ?s = "sample_sb FAT16"
  have pt: "ptr_ok ?s (chain_at 64)" by (simp add: ptr_ok_def)
  have nc: "next_cluster ?s 64 = 65" "next_cluster ?s 65 = 2" by (simp_all add: next_cluster_def sample_tbl_ok(2))
  have "data_clusters ?s = Suc (Suc (Suc 61))" by (simp add: sample_tbl_ok(3))
  moreover have "alloc_start ?s (chain_at 64) = 64" by (simp add: alloc_start_def sample_tbl_ok(2))
  ultimately have tk: "fat_taken ?s 3 (chain_at 64) = [64, 65, 2]"
    by (simp add: fat_taken_def nc free_clusters_def sample_fat_get numeral_eq_Suc)
  show ?thesis using fat_alloc_cluster_links [OF sample_tbl_ok(1) pt, of 3] unfolding tk by auto
qed

text \<open>
  C19: \<open>fat_free_cluster\<close> on a working volume: given a file whose clusters the table links into a terminated chain, it
  terminates, marks exactly these clusters free, writes nothing but the table, and takes their number off the used count.
\<close>

theorem fat_free_cluster_clears:
  assumes "tbl_ok s" "is_chain (fat_get s) (ch_dir p) cs" "cs \<noteq> []" "\<forall>c \<in> set cs. 2 \<le> c \<and> c < num_clusters s" "0 < ch_size p"
  shows "\<exists>s'. fat_free_cluster s p rel = Some s' \<and> tbl_ok s' \<and> (\<forall>c. fat_get s' c = (if c \<in> set cs then 0 else fat_get s c)) \<and>
    only_in (fat_area s) s s' \<and> used_clusters s' = add_used (used_clusters s) (- int (length cs))"
proof -
  have "ch_dir p \<in> set cs" using assms(2,3) by (cases cs) auto
  then have nz: "ch_dir p \<noteq> 0" using assms(4) by (auto simp: word_le_nat_alt)
  have b: "\<And>c. c \<in> set cs \<Longrightarrow> c < num_clusters s" using assms(4) by blast
  show ?thesis
    by (rule fat_free_cluster_ok [OF assms(1,2) b nz assms(3,5), of rel]) (auto simp: clear_all_def)
qed

text \<open>
  Allocation and deallocation undo each other: freeing the chain just returned by \<open>fat_alloc_cluster\<close> gives back the
  table and the used count from before.
\<close>

lemma fat_alloc_free_roundtrip:
  assumes "tbl_ok s" "ptr_ok s p" "1 \<le> k" "fat_taken s k p \<noteq> []" "0 < ch_size p" "used_clusters s < num_clusters s \<or> used_clusters s = CLUSTER_EOF"
  shows "\<exists>s1 p1 n s2. fat_alloc_cluster s (int k) p = (s1, p1, n) \<and> fat_free_cluster s1 p1 rel = Some s2 \<and>
    fat_get s2 = fat_get s \<and> used_clusters s2 = used_clusters s \<and> only_in (fat_area s) s s2"
proof -
  let ?t = "fat_taken s k p"
  from fat_alloc_cluster_ok [OF assms(1-3)] obtain s1 where
    s1: "fat_alloc_cluster s (int k) p = (s1, with_first (p\<lparr>ch_dir := CLUSTER_EOF\<rparr>) ?t, int (length ?t))"
    "tbl_ok s1" "clu_frame s s1" "fat_get s1 = link_all (fat_get s) ?t" "only_in (fat_area s) s s1"
    "used_clusters s1 = add_used (used_clusters s) (int (length ?t))" by blast
  let ?p = "with_first (p\<lparr>ch_dir := CLUSTER_EOF\<rparr>) ?t"
  note mem = fat_taken_props(2) [OF assms(1,2)]
  have e: "CLUSTER_EOF \<notin> set ?t" using mem below_EOF by blast
  have p: "ch_dir ?p = hd ?t" "ch_size ?p = ch_size p" using assms(4) by (simp_all add: with_first_def)
  have ch: "is_chain (fat_get s1) (ch_dir ?p) ?t"
    using link_all_chain [OF fat_taken_props(1) [OF assms(1,2)] e assms(4)] by (simp add: s1(4) p(1))
  have "hd ?t \<in> set ?t" using assms(4) by simp
  then have nz: "ch_dir ?p \<noteq> 0" using mem [of "hd ?t" k] p(1) by (auto simp: word_le_nat_alt)
  have b: "\<And>x. x \<in> set ?t \<Longrightarrow> x < num_clusters s1" using mem clu_frame_fields [OF s1(3)] by simp
  from fat_free_cluster_ok [OF s1(2) ch b nz assms(4)] obtain s2 where
    s2: "fat_free_cluster s1 ?p rel = Some s2" "clu_frame s1 s2" "fat_get s2 = clear_all (fat_get s1) (set ?t)"
    "only_in (fat_area s1) s1 s2" "used_clusters s2 = add_used (used_clusters s1) (- int (length ?t))"
    using p(2) assms(5) by auto
  have "fat_get s2 = fat_get s" unfolding s2(3) s1(4) by (rule clear_link) (use mem in blast)
  moreover have "only_in (fat_area s) s s2"
    using only_in_trans [OF s1(5)] s2(4) clu_frame_derived(6) [OF s1(3)] by simp
  moreover have "used_clusters s2 = used_clusters s"
  proof -
    have "set ?t \<subseteq> {x. 2 \<le> x \<and> x < num_clusters s}" using mem by blast
    then have "length ?t \<le> data_clusters s" using few_clusters fat_taken_props(1) [OF assms(1,2)] by blast
    moreover have "unat (num_clusters s) \<le> 2 ^ 30" using assms(1) by (simp add: tbl_ok_def fat_ok_def)
    moreover have "unat (used_clusters s) < unat (num_clusters s) \<or> used_clusters s = CLUSTER_EOF" using assms(6) by (simp add: word_less_nat_alt)
    ultimately have "used_clusters s = CLUSTER_EOF \<or> unat (used_clusters s) + length ?t < 2 ^ 32 - 1"
      by (auto simp: data_clusters_def)
    then show ?thesis unfolding s2(5) s1(6) by (rule add_used_back)
  qed
  ultimately show ?thesis using s1(1) s2(1) by blast
qed

text \<open>A sample volume with a chain: cluster 2 is allocated on the empty volume.\<close>

lemma sample_alloc:
  obtains s1 where "fat_alloc_cluster (sample_sb FAT16) 1 (chain_at 2) = (s1, chain_at 2, 1)" "tbl_ok s1" "num_clusters s1 = 66"
    "is_chain (fat_get s1) 2 [2]" "fat_get s1 0 = 0"
proof -
  let ?s = "sample_sb FAT16"
  have pt: "ptr_ok ?s (chain_at 2)" by (simp add: ptr_ok_def)
  have "data_clusters ?s = Suc 63" by (simp add: sample_tbl_ok(3))
  moreover have "alloc_start ?s (chain_at 2) = 2" by (simp add: alloc_start_def sample_tbl_ok(2))
  ultimately have tk: "fat_taken ?s 1 (chain_at 2) = [2]"
    by (simp add: fat_taken_def free_clusters_def sample_fat_get numeral_eq_Suc)
  from fat_alloc_cluster_ok [OF sample_tbl_ok(1) pt, of 1, unfolded tk] obtain s1 where
    s1: "fat_alloc_cluster ?s (int 1) (chain_at 2) = (s1, with_first (chain_at 2\<lparr>ch_dir := CLUSTER_EOF\<rparr>) [2], int (length [2::u32]))"
    "tbl_ok s1" "clu_frame ?s s1" "fat_get s1 = link_all (fat_get ?s) [2]" by auto
  have "with_first (chain_at 2\<lparr>ch_dir := CLUSTER_EOF\<rparr>) [2] = chain_at 2" by (simp add: with_first_def chain_at_def)
  then show thesis
    using that s1 sample_tbl_ok(2) [of FAT16] clu_frame_fields(11) [OF s1(3)] by (simp add: sample_fat_get)
qed

theorem fat_free_cluster_clears_witness:
  "\<exists>s1 s2. fat_alloc_cluster (sample_sb FAT16) 1 (chain_at 2) = (s1, chain_at 2, 1) \<and> fat_get s1 2 \<noteq> 0 \<and>
     fat_free_cluster s1 (chain_at 2) True = Some s2 \<and> fat_get s2 2 = 0"
proof -
  from sample_alloc obtain s1 where s1: "fat_alloc_cluster (sample_sb FAT16) 1 (chain_at 2) = (s1, chain_at 2, 1)" "tbl_ok s1"
    "num_clusters s1 = 66" "is_chain (fat_get s1) 2 [2]" .
  have "is_chain (fat_get s1) (ch_dir (chain_at 2)) [2]" using s1(4) by simp
  then show ?thesis
    using fat_free_cluster_clears [OF s1(2), of "chain_at 2" "[2]" True] s1 by auto
qed

section \<open>Where freeing does not end\<close>

text \<open>A table whose entry 0 reads as free is a trap: the loop that reaches it reads and clears entry 0 forever.\<close>

lemma free_diverges: "fat_free_loop s c rel num = Some r \<Longrightarrow> \<not> (tbl_ok s \<and> c = 0 \<and> fat_get s 0 = 0)"
proof (induction s c rel num r rule: fat_free_loop.raw_induct [rotated, consumes 1, case_names round])
  case (round loop s c rel num r)
  show ?case
  proof
    assume a: "tbl_ok s \<and> c = 0 \<and> fat_get s 0 = 0"
    then have a: "tbl_ok s" "c = 0" "fat_get s 0 = 0" by auto
    then have "0 < num_clusters s" by (auto simp: tbl_ok_def word_less_nat_alt)
    with a obtain s1 s2 where st: "\<not> dev_ejected s"
      "FAT_read (if rel then release_cluster s 0 else s) 0 = (s1, Some (fat_get s 0))" "FAT_write s1 0 0 = (s2, 0)"
      "tbl_ok s2" "fat_get s2 = (fat_get s)(0 := 0)"
      using free_steps [of s 0 rel] by metis
    have "loop s2 0 rel (num + 1) = Some r"
      using round(2) unfolding Let_def a(2) if_not_P [OF st(1)] st(2) prod.case option.case st(3) a(3) by simp
    then show False using round(1) [of s2 0 rel "num + 1" r] st(4,5) by simp
  qed
qed

text \<open>
  \<open>fat_free_cluster\<close> only stops at an end-of-chain entry, not at a free one (\<open>exfat_free_cluster\<close> stops at both): on a
  volume whose entry 0 reads 0, freeing a file whose chain runs into a cluster that is marked free never returns.
\<close>

fun runs_free :: "(u32 \<Rightarrow> u32) \<Rightarrow> u32 \<Rightarrow> u32 list \<Rightarrow> bool" where
  "runs_free t c [] = (c = 0)"
| "runs_free t c (x # xs) = (c = x \<and> runs_free t (t x) xs)"

lemma runs_free_cong: "(\<And>x. x \<in> set cs \<Longrightarrow> t x = t' x) \<Longrightarrow> runs_free t c cs = runs_free t' c cs"
  by (induction cs arbitrary: c) auto

lemma free_loop_hangs:
  assumes "tbl_ok s" "runs_free (fat_get s) c cs" "distinct cs" "\<forall>x \<in> set cs. 2 \<le> x \<and> x < num_clusters s" "fat_get s 0 = 0"
  shows "fat_free_loop s c rel num = None"
  using assms
proof (induction cs arbitrary: s c num)
  case Nil
  then have "fat_free_loop s c rel num \<noteq> Some r" for r using free_diverges [of s 0 rel num r] by auto
  then show ?case by (cases "fat_free_loop s c rel num") blast+
next
  case (Cons x xs)
  then have c: "c = x" "c < num_clusters s" "2 \<le> c" and r: "runs_free (fat_get s) (fat_get s c) xs" by auto
  from free_round [OF Cons.prems(1) c(2), of rel] obtain s2 where s2: "\<forall>num. fat_free_loop s c rel num =
      (if fat_get s c \<noteq> CLUSTER_EOF then fat_free_loop s2 (fat_get s c) rel (num + 1) else Some (s2, num + 1))"
    "tbl_ok s2" "fat_get s2 = (fat_get s)(c := 0)" "clu_frame s s2" by blast
  have "fat_get s c \<noteq> CLUSTER_EOF"
  proof (cases xs)
    case (Cons y ys)
    then have "fat_get s c < num_clusters s" using r Cons.prems(4) by simp
    then show ?thesis by (rule below_EOF)
  qed (use r in simp)
  moreover have "fat_free_loop s2 (fat_get s c) rel (num + 1) = None"
  proof (rule Cons.IH [OF s2(2)])
    show "runs_free (fat_get s2) (fat_get s c) xs"
    proof -
      have "x \<notin> set xs" using Cons.prems(3) by simp
      then have "runs_free (fat_get s) (fat_get s c) xs = runs_free (fat_get s2) (fat_get s c) xs"
        by (intro runs_free_cong) (auto simp: s2(3) c(1))
      then show ?thesis using r by simp
    qed
  qed (use Cons.prems c s2(2,3) clu_frame_fields [OF s2(4)] in auto)
  ultimately show ?case using s2(1) by simp
qed

lemma fat_free_cluster_hangs:
  assumes "tbl_ok s" "runs_free (fat_get s) (ch_dir p) cs" "cs \<noteq> []" "distinct cs" "\<forall>x \<in> set cs. 2 \<le> x \<and> x < num_clusters s"
    "0 < ch_size p" "fat_get s 0 = 0"
  shows "fat_free_cluster s p rel = None"
proof -
  have "fat_free_loop (set_sb_dirty s) (ch_dir p) rel 0 = None"
    using assms by (intro free_loop_hangs [of _ _ cs]) simp_all
  moreover have "2 \<le> ch_dir p" "ch_dir p < num_clusters s" using assms(2,3,5) by (cases cs; auto)+
  then have "ch_dir p \<noteq> 0" "ch_dir p \<noteq> CLUSTER_EOF" using below_EOF [of "ch_dir p"] by (auto simp: word_le_nat_alt)
  ultimately show ?thesis using assms(6) by (simp add: fat_free_cluster_def)
qed

lemma fat_free_cluster_hangs_example: "fat_free_cluster (sample_sb FAT16) (chain_at 2) False = None"
  by (rule fat_free_cluster_hangs [OF sample_tbl_ok(1), where cs = "[2]"]) (simp_all add: sample_tbl_ok sample_fat_get)

section \<open>Following and counting\<close>

lemma last_loop_chain:
  assumes "tbl_ok s" "is_chain (fat_get s) c cs" "cs \<noteq> []" "\<And>x. x \<in> set cs \<Longrightarrow> x < num_clusters s"
  shows "\<exists>s'. last_loop s c = Some (s', last cs) \<and> tbl_ok s' \<and> vol_eq s s'"
  using assms
proof (induction cs arbitrary: s c)
  case (Cons x xs)
  then have c: "c = x" "c < num_clusters s" and ch: "is_chain (fat_get s) (fat_get s x) xs" by auto
  from table_read [OF Cons.prems(1) c(2)] obtain s1 where s1: "FAT_read s c = (s1, Some (fat_get s c))" "tbl_ok s1" "fat_frame s s1"
    "blk s1 = blk s" "dirty s1 = dirty s" "fat_get s1 = fat_get s" "vol_eq s s1" .
  have ej: "\<not> dev_ejected s1" using s1(2) by (simp add: tbl_ok_def fat_ok_def fat_ready_def io_ready_def)
  show ?case
  proof (cases xs)
    case Nil
    then show ?thesis using s1 ch c by (simp add: last_loop.simps [of s])
  next
    case (Cons y ys)
    have b: "\<And>z. z \<in> set xs \<Longrightarrow> z < num_clusters s1" using Cons.prems(4) fat_frame_fields [OF s1(3)] by simp
    have ch1: "is_chain (fat_get s1) (fat_get s c) xs" using ch c(1) s1(6) by simp
    from Cons.IH [OF s1(2) ch1 _ b] Cons obtain s' where s': "last_loop s1 (fat_get s c) = Some (s', last xs)" "tbl_ok s'" "vol_eq s1 s'" by auto
    have "fat_get s c \<noteq> CLUSTER_EOF" using ch c(1) Cons by auto
    then have "last_loop s c = last_loop s1 (fat_get s c)" using s1(1) ej by (simp add: last_loop.simps [of s])
    then show ?thesis using s' Cons vol_eq_trans [OF s1(7)] by auto
  qed
qed simp

lemma count_chain_len:
  assumes "tbl_ok s" "is_chain (fat_get s) c cs" "cs \<noteq> []" "\<And>x. x \<in> set cs \<Longrightarrow> x < num_clusters s" "length cs \<le> n"
  shows "\<exists>s'. count_chain n s c num = (s', num + int (length cs)) \<and> vol_eq s s'"
  using assms
proof (induction cs arbitrary: s c n num)
  case (Cons x xs)
  then have c: "c = x" "c < num_clusters s" and ch: "is_chain (fat_get s) (fat_get s x) xs" by auto
  from table_read [OF Cons.prems(1) c(2)] obtain s1 where s1: "FAT_read s c = (s1, Some (fat_get s c))" "tbl_ok s1" "fat_frame s s1"
    "blk s1 = blk s" "dirty s1 = dirty s" "fat_get s1 = fat_get s" "vol_eq s s1" .
  obtain m where n: "n = Suc m" using Cons.prems(5) by (cases n) auto
  show ?case
  proof (cases xs)
    case Nil
    then show ?thesis using s1 ch c n by simp
  next
    case (Cons y ys)
    have b: "\<And>z. z \<in> set xs \<Longrightarrow> z < num_clusters s1" using Cons.prems(4) fat_frame_fields [OF s1(3)] by simp
    have ch1: "is_chain (fat_get s1) (fat_get s c) xs" using ch c(1) s1(6) by simp
    from Cons.IH [OF s1(2) ch1 _ b, of m "num + 1"] Cons Cons.prems(5) n obtain s' where
      s': "count_chain m s1 (fat_get s c) (num + 1) = (s', num + 1 + int (length xs))" "vol_eq s1 s'" by auto
    have "fat_get s c \<noteq> CLUSTER_EOF" using ch c(1) Cons by auto
    then show ?thesis using s' s1(1) n vol_eq_trans [OF s1(7)] by auto
  qed
qed simp

text \<open>
  Following a chain: for a linked file whose clusters form a terminated chain, \<open>find_last_cluster\<close> terminates with the
  last cluster and \<open>count_num_clusters\<close>, which gives up after as many steps as the volume has clusters, counts all of them.
\<close>

lemma chain_is_followed:
  assumes "tbl_ok s" "is_chain (fat_get s) (ch_dir p) cs" "cs \<noteq> []" "\<forall>c \<in> set cs. 2 \<le> c \<and> c < num_clusters s" "ch_flags p \<noteq> 3"
  shows "\<exists>s1 s2. find_last_cluster s p = Some (s1, last cs) \<and> count_num_clusters s p = (s2, int (length cs)) \<and> vol_eq s s1 \<and> vol_eq s s2"
proof -
  have "ch_dir p \<in> set cs" using assms(2,3) by (cases cs) auto
  then have nz: "ch_dir p \<noteq> 0" "ch_dir p \<noteq> CLUSTER_EOF" using assms(4) below_EOF by (auto simp: word_le_nat_alt)
  have b: "\<And>c. c \<in> set cs \<Longrightarrow> c < num_clusters s" using assms(4) by blast
  have "set cs \<subseteq> {x. 2 \<le> x \<and> x < num_clusters s}" using assms(4) by blast
  then have "length cs \<le> unat (num_clusters s) - 2"
    using few_clusters [OF is_chain_distinct [OF assms(2)]] by (simp add: data_clusters_def)
  then show ?thesis
    using last_loop_chain [OF assms(1-3) b] count_chain_len [OF assms(1-3) b, of "unat (num_clusters s) - 2" 0] nz assms(5)
    by (auto simp: find_last_cluster_def count_num_clusters_def)
qed

lemma unat_Suc_below: "i < n \<Longrightarrow> unat (i + 1) = Suc (unat i)" for i n :: u32
proof -
  assume "i < n"
  then have "Suc (unat i) \<le> unat n" by (simp add: word_less_nat_alt)
  also have "unat n < 2 ^ 32" using unsigned_less [of n] by simp
  finally show ?thesis by (simp add: unat_word_ariths)
qed

lemma count_used_card:
  assumes "tbl_ok s" "unat i + n \<le> unat (num_clusters s)"
  shows "\<exists>s'. count_used n s i num = (s', num + int (card {c. i \<le> c \<and> unat c < unat i + n \<and> fat_get s c \<noteq> 0})) \<and> vol_eq s s'"
  using assms
proof (induction n arbitrary: s i num)
  case 0
  have "{c. i \<le> c \<and> unat c < unat i + 0 \<and> fat_get s c \<noteq> 0} = {}" by (auto simp: word_le_nat_alt)
  then show ?case by simp
next
  case (Suc n)
  have i: "i < num_clusters s" using Suc.prems(2) by (simp add: word_less_nat_alt)
  from table_read [OF Suc.prems(1) i] obtain s1 where s1: "FAT_read s i = (s1, Some (fat_get s i))" "tbl_ok s1" "fat_frame s s1"
    "blk s1 = blk s" "dirty s1 = dirty s" "fat_get s1 = fat_get s" "vol_eq s s1" .
  have u: "unat (i + 1) = Suc (unat i)" by (rule unat_Suc_below [OF i])
  have b: "unat (i + 1) + n \<le> unat (num_clusters s1)" using Suc.prems(2) fat_frame_fields [OF s1(3)] u by simp
  let ?A = "{c. i + 1 \<le> c \<and> unat c < unat (i + 1) + n \<and> fat_get s c \<noteq> 0}"
  let ?B = "{c. i \<le> c \<and> unat c < unat i + Suc n \<and> fat_get s c \<noteq> 0}"
  from Suc.IH [OF s1(2) b, unfolded s1(6)] obtain s' where
    s': "count_used n s1 (i + 1) (if fat_get s i \<noteq> 0 then num + 1 else num) =
      (s', (if fat_get s i \<noteq> 0 then num + 1 else num) + int (card ?A))" "vol_eq s1 s'" by blast
  have split: "?B = (if fat_get s i \<noteq> 0 then insert i ?A else ?A)"
  proof (rule set_eqI)
    fix c
    have "i \<le> c \<longleftrightarrow> c = i \<or> i + 1 \<le> c" unfolding word_le_nat_alt u word_unat_eq_iff by auto
    moreover have "unat i < unat (i + 1) + n" using u by simp
    ultimately have "c \<in> ?B \<longleftrightarrow> (c = i \<and> fat_get s i \<noteq> 0) \<or> c \<in> ?A" using u by auto
    then show "c \<in> ?B \<longleftrightarrow> c \<in> (if fat_get s i \<noteq> 0 then insert i ?A else ?A)" by auto
  qed
  have "card (insert i ?A) = Suc (card ?A)"
    by (rule card_insert_disjoint) (use u in \<open>auto simp: word_le_nat_alt\<close>)
  then have "int (card ?B) = (if fat_get s i \<noteq> 0 then 1 else 0) + int (card ?A)"
    unfolding split by (simp del: insert_iff)
  then show ?case
    using s' s1(1) vol_eq_trans [OF s1(7)] by (auto simp del: of_nat_Suc)
qed

text \<open>
  \<open>fat_count_used_clusters\<close> is the number of data clusters with a non-zero table entry, and reads the table only.
\<close>

lemma fat_count_used_clusters_card:
  assumes "tbl_ok s"
  shows "\<exists>s'. fat_count_used_clusters s = (s', int (card {c. 2 \<le> c \<and> c < num_clusters s \<and> fat_get s c \<noteq> 0})) \<and> vol_eq s s'"
proof -
  have big: "2 < unat (num_clusters s)" using assms by (simp add: tbl_ok_def word_less_nat_alt)
  then have "{c. 2 \<le> c \<and> unat c < unat (2 :: u32) + (unat (num_clusters s) - 2) \<and> fat_get s c \<noteq> 0} =
      {c. 2 \<le> c \<and> c < num_clusters s \<and> fat_get s c \<noteq> 0}"
    by (auto simp: word_less_nat_alt)
  then show ?thesis
    using count_used_card [OF assms, of 2 "unat (num_clusters s) - 2" 0] big by (simp add: fat_count_used_clusters_def)
qed

end
