(* ===== verification/Layout.thy ===== *)
theory Layout
  imports State
begin

text \<open>
  The on-disk structures of \<open>exfat_core.h\<close>.  Every one of them is a sequence of byte arrays without padding, so a
  structure type is the list of its fields with their sizes, \<open>offsetof\<close> is the sum of the sizes before a field, and a
  pointer to a structure is a byte buffer: \<open>ep->name[k]\<close> is \<open>ep ! (offsetof DOS_DENTRY_T ''name'' + k)\<close> and
  \<open>GET16_A(ep->attr)\<close> is \<open>GET16 ep (offsetof FILE_DENTRY_T ''attr'')\<close>.  The cast of a \<open>DENTRY_T *\<close> to one of the entry
  types keeps the buffer.
\<close>

type_synonym layout = "(string \<times> nat) list"

type_synonym dentry = "u8 list"

fun offsetof :: "layout \<Rightarrow> string \<Rightarrow> nat" where
  "offsetof [] f = 0"
| "offsetof ((g, n) # l) f = (if g = f then 0 else n + offsetof l f)"

definition layout_size :: "layout \<Rightarrow> nat" where
  "layout_size l = sum_list (map snd l)"

section \<open>The structures\<close>

definition PBR_SECTOR_T :: layout where
  "PBR_SECTOR_T = [
     (''jmp_boot'', 3), (''oem_name'', 8), (''bpb'', 109), (''boot_code'', 390), (''signature'', 2)]"

definition BPB16_T :: layout where
  "BPB16_T = [
     (''sector_size'', 2), (''sectors_per_clu'', 1), (''num_reserved'', 2), (''num_fats'', 1),
     (''num_root_entries'', 2), (''num_sectors'', 2), (''media_type'', 1), (''num_fat_sectors'', 2),
     (''sectors_in_track'', 2), (''num_heads'', 2), (''num_hid_sectors'', 4), (''num_huge_sectors'', 4),
     (''phy_drv_no'', 1), (''reserved'', 1), (''ext_signature'', 1), (''vol_serial'', 4), (''vol_label'', 11),
     (''vol_type'', 8)]"

definition BPB32_T :: layout where
  "BPB32_T = [
     (''sector_size'', 2), (''sectors_per_clu'', 1), (''num_reserved'', 2), (''num_fats'', 1),
     (''num_root_entries'', 2), (''num_sectors'', 2), (''media_type'', 1), (''num_fat_sectors'', 2),
     (''sectors_in_track'', 2), (''num_heads'', 2), (''num_hid_sectors'', 4), (''num_huge_sectors'', 4),
     (''num_fat32_sectors'', 4), (''ext_flags'', 2), (''fs_version'', 2), (''root_cluster'', 4),
     (''fsinfo_sector'', 2), (''backup_sector'', 2), (''reserved'', 12), (''phy_drv_no'', 1),
     (''ext_reserved'', 1), (''ext_signature'', 1), (''vol_serial'', 4), (''vol_label'', 11), (''vol_type'', 8)]"

definition BPBEX_T :: layout where
  "BPBEX_T = [
     (''reserved1'', 53), (''vol_offset'', 8), (''vol_length'', 8), (''fat_offset'', 4), (''fat_length'', 4),
     (''clu_offset'', 4), (''clu_count'', 4), (''root_cluster'', 4), (''vol_serial'', 4), (''fs_version'', 2),
     (''vol_flags'', 2), (''sector_size_bits'', 1), (''sectors_per_clu_bits'', 1), (''num_fats'', 1),
     (''phy_drv_no'', 1), (''perc_in_use'', 1), (''reserved2'', 7)]"

definition FSI_SECTOR_T :: layout where
  "FSI_SECTOR_T = [
     (''signature1'', 4), (''reserved1'', 480), (''signature2'', 4), (''free_cluster'', 4),
     (''next_cluster'', 4), (''reserved2'', 14), (''signature3'', 2)]"

definition DOS_DENTRY_T :: layout where
  "DOS_DENTRY_T = [
     (''name'', 11), (''attr'', 1), (''lcase'', 1), (''create_time_ms'', 1), (''create_time'', 2),
     (''create_date'', 2), (''access_date'', 2), (''start_clu_hi'', 2), (''modify_time'', 2),
     (''modify_date'', 2), (''start_clu_lo'', 2), (''size'', 4)]"

definition EXT_DENTRY_T :: layout where
  "EXT_DENTRY_T = [
     (''order'', 1), (''unicode_0_4'', 10), (''attr'', 1), (''sysid'', 1), (''checksum'', 1),
     (''unicode_5_10'', 12), (''start_clu'', 2), (''unicode_11_12'', 4)]"

definition FILE_DENTRY_T :: layout where
  "FILE_DENTRY_T = [
     (''type'', 1), (''num_ext'', 1), (''checksum'', 2), (''attr'', 2), (''reserved1'', 2),
     (''create_time'', 2), (''create_date'', 2), (''modify_time'', 2), (''modify_date'', 2),
     (''access_time'', 2), (''access_date'', 2), (''create_time_ms'', 1), (''modify_time_ms'', 1),
     (''access_time_ms'', 1), (''reserved2'', 9)]"

definition STRM_DENTRY_T :: layout where
  "STRM_DENTRY_T = [
     (''type'', 1), (''flags'', 1), (''reserved1'', 1), (''name_len'', 1), (''name_hash'', 2),
     (''reserved2'', 2), (''valid_size'', 8), (''reserved3'', 4), (''start_clu'', 4), (''size'', 8)]"

definition NAME_DENTRY_T :: layout where
  "NAME_DENTRY_T = [
     (''type'', 1), (''flags'', 1), (''unicode_0_14'', 30)]"

definition BMAP_DENTRY_T :: layout where
  "BMAP_DENTRY_T = [
     (''type'', 1), (''flags'', 1), (''reserved'', 18), (''start_clu'', 4), (''size'', 8)]"

definition CASE_DENTRY_T :: layout where
  "CASE_DENTRY_T = [
     (''type'', 1), (''reserved1'', 3), (''checksum'', 4), (''reserved2'', 12), (''start_clu'', 4),
     (''size'', 8)]"

definition VOLM_DENTRY_T :: layout where
  "VOLM_DENTRY_T = [
     (''type'', 1), (''label_len'', 1), (''unicode_0_10'', 22), (''reserved'', 8)]"

section \<open>Their offsets\<close>

named_theorems offsets \<open>the offsets of the fields\<close>

lemma PBR_SECTOR_T_offsets [offsets]:
  "offsetof PBR_SECTOR_T ''jmp_boot'' = 0"  "offsetof PBR_SECTOR_T ''oem_name'' = 3" 
  "offsetof PBR_SECTOR_T ''bpb'' = 11"  "offsetof PBR_SECTOR_T ''boot_code'' = 120" 
  "offsetof PBR_SECTOR_T ''signature'' = 510"
  by (simp_all add: PBR_SECTOR_T_def)

lemma BPB16_T_offsets [offsets]:
  "offsetof BPB16_T ''sector_size'' = 0"  "offsetof BPB16_T ''sectors_per_clu'' = 2" 
  "offsetof BPB16_T ''num_reserved'' = 3"  "offsetof BPB16_T ''num_fats'' = 5" 
  "offsetof BPB16_T ''num_root_entries'' = 6"  "offsetof BPB16_T ''num_sectors'' = 8" 
  "offsetof BPB16_T ''media_type'' = 10"  "offsetof BPB16_T ''num_fat_sectors'' = 11" 
  "offsetof BPB16_T ''sectors_in_track'' = 13"  "offsetof BPB16_T ''num_heads'' = 15" 
  "offsetof BPB16_T ''num_hid_sectors'' = 17"  "offsetof BPB16_T ''num_huge_sectors'' = 21" 
  "offsetof BPB16_T ''phy_drv_no'' = 25"  "offsetof BPB16_T ''reserved'' = 26" 
  "offsetof BPB16_T ''ext_signature'' = 27"  "offsetof BPB16_T ''vol_serial'' = 28" 
  "offsetof BPB16_T ''vol_label'' = 32"  "offsetof BPB16_T ''vol_type'' = 43"
  by (simp_all add: BPB16_T_def)

lemma BPB32_T_offsets [offsets]:
  "offsetof BPB32_T ''sector_size'' = 0"  "offsetof BPB32_T ''sectors_per_clu'' = 2" 
  "offsetof BPB32_T ''num_reserved'' = 3"  "offsetof BPB32_T ''num_fats'' = 5" 
  "offsetof BPB32_T ''num_root_entries'' = 6"  "offsetof BPB32_T ''num_sectors'' = 8" 
  "offsetof BPB32_T ''media_type'' = 10"  "offsetof BPB32_T ''num_fat_sectors'' = 11" 
  "offsetof BPB32_T ''sectors_in_track'' = 13"  "offsetof BPB32_T ''num_heads'' = 15" 
  "offsetof BPB32_T ''num_hid_sectors'' = 17"  "offsetof BPB32_T ''num_huge_sectors'' = 21" 
  "offsetof BPB32_T ''num_fat32_sectors'' = 25"  "offsetof BPB32_T ''ext_flags'' = 29" 
  "offsetof BPB32_T ''fs_version'' = 31"  "offsetof BPB32_T ''root_cluster'' = 33" 
  "offsetof BPB32_T ''fsinfo_sector'' = 37"  "offsetof BPB32_T ''backup_sector'' = 39" 
  "offsetof BPB32_T ''reserved'' = 41"  "offsetof BPB32_T ''phy_drv_no'' = 53" 
  "offsetof BPB32_T ''ext_reserved'' = 54"  "offsetof BPB32_T ''ext_signature'' = 55" 
  "offsetof BPB32_T ''vol_serial'' = 56"  "offsetof BPB32_T ''vol_label'' = 60" 
  "offsetof BPB32_T ''vol_type'' = 71"
  by (simp_all add: BPB32_T_def)

lemma BPBEX_T_offsets [offsets]:
  "offsetof BPBEX_T ''reserved1'' = 0"  "offsetof BPBEX_T ''vol_offset'' = 53" 
  "offsetof BPBEX_T ''vol_length'' = 61"  "offsetof BPBEX_T ''fat_offset'' = 69" 
  "offsetof BPBEX_T ''fat_length'' = 73"  "offsetof BPBEX_T ''clu_offset'' = 77" 
  "offsetof BPBEX_T ''clu_count'' = 81"  "offsetof BPBEX_T ''root_cluster'' = 85" 
  "offsetof BPBEX_T ''vol_serial'' = 89"  "offsetof BPBEX_T ''fs_version'' = 93" 
  "offsetof BPBEX_T ''vol_flags'' = 95"  "offsetof BPBEX_T ''sector_size_bits'' = 97" 
  "offsetof BPBEX_T ''sectors_per_clu_bits'' = 98"  "offsetof BPBEX_T ''num_fats'' = 99" 
  "offsetof BPBEX_T ''phy_drv_no'' = 100"  "offsetof BPBEX_T ''perc_in_use'' = 101" 
  "offsetof BPBEX_T ''reserved2'' = 102"
  by (simp_all add: BPBEX_T_def)

lemma FSI_SECTOR_T_offsets [offsets]:
  "offsetof FSI_SECTOR_T ''signature1'' = 0"  "offsetof FSI_SECTOR_T ''reserved1'' = 4" 
  "offsetof FSI_SECTOR_T ''signature2'' = 484"  "offsetof FSI_SECTOR_T ''free_cluster'' = 488" 
  "offsetof FSI_SECTOR_T ''next_cluster'' = 492"  "offsetof FSI_SECTOR_T ''reserved2'' = 496" 
  "offsetof FSI_SECTOR_T ''signature3'' = 510"
  by (simp_all add: FSI_SECTOR_T_def)

lemma DOS_DENTRY_T_offsets [offsets]:
  "offsetof DOS_DENTRY_T ''name'' = 0"  "offsetof DOS_DENTRY_T ''attr'' = 11" 
  "offsetof DOS_DENTRY_T ''lcase'' = 12"  "offsetof DOS_DENTRY_T ''create_time_ms'' = 13" 
  "offsetof DOS_DENTRY_T ''create_time'' = 14"  "offsetof DOS_DENTRY_T ''create_date'' = 16" 
  "offsetof DOS_DENTRY_T ''access_date'' = 18"  "offsetof DOS_DENTRY_T ''start_clu_hi'' = 20" 
  "offsetof DOS_DENTRY_T ''modify_time'' = 22"  "offsetof DOS_DENTRY_T ''modify_date'' = 24" 
  "offsetof DOS_DENTRY_T ''start_clu_lo'' = 26"  "offsetof DOS_DENTRY_T ''size'' = 28"
  by (simp_all add: DOS_DENTRY_T_def)

lemma EXT_DENTRY_T_offsets [offsets]:
  "offsetof EXT_DENTRY_T ''order'' = 0"  "offsetof EXT_DENTRY_T ''unicode_0_4'' = 1" 
  "offsetof EXT_DENTRY_T ''attr'' = 11"  "offsetof EXT_DENTRY_T ''sysid'' = 12" 
  "offsetof EXT_DENTRY_T ''checksum'' = 13"  "offsetof EXT_DENTRY_T ''unicode_5_10'' = 14" 
  "offsetof EXT_DENTRY_T ''start_clu'' = 26"  "offsetof EXT_DENTRY_T ''unicode_11_12'' = 28"
  by (simp_all add: EXT_DENTRY_T_def)

lemma FILE_DENTRY_T_offsets [offsets]:
  "offsetof FILE_DENTRY_T ''type'' = 0"  "offsetof FILE_DENTRY_T ''num_ext'' = 1" 
  "offsetof FILE_DENTRY_T ''checksum'' = 2"  "offsetof FILE_DENTRY_T ''attr'' = 4" 
  "offsetof FILE_DENTRY_T ''reserved1'' = 6"  "offsetof FILE_DENTRY_T ''create_time'' = 8" 
  "offsetof FILE_DENTRY_T ''create_date'' = 10"  "offsetof FILE_DENTRY_T ''modify_time'' = 12" 
  "offsetof FILE_DENTRY_T ''modify_date'' = 14"  "offsetof FILE_DENTRY_T ''access_time'' = 16" 
  "offsetof FILE_DENTRY_T ''access_date'' = 18"  "offsetof FILE_DENTRY_T ''create_time_ms'' = 20" 
  "offsetof FILE_DENTRY_T ''modify_time_ms'' = 21"  "offsetof FILE_DENTRY_T ''access_time_ms'' = 22" 
  "offsetof FILE_DENTRY_T ''reserved2'' = 23"
  by (simp_all add: FILE_DENTRY_T_def)

lemma STRM_DENTRY_T_offsets [offsets]:
  "offsetof STRM_DENTRY_T ''type'' = 0"  "offsetof STRM_DENTRY_T ''flags'' = 1" 
  "offsetof STRM_DENTRY_T ''reserved1'' = 2"  "offsetof STRM_DENTRY_T ''name_len'' = 3" 
  "offsetof STRM_DENTRY_T ''name_hash'' = 4"  "offsetof STRM_DENTRY_T ''reserved2'' = 6" 
  "offsetof STRM_DENTRY_T ''valid_size'' = 8"  "offsetof STRM_DENTRY_T ''reserved3'' = 16" 
  "offsetof STRM_DENTRY_T ''start_clu'' = 20"  "offsetof STRM_DENTRY_T ''size'' = 24"
  by (simp_all add: STRM_DENTRY_T_def)

lemma NAME_DENTRY_T_offsets [offsets]:
  "offsetof NAME_DENTRY_T ''type'' = 0"  "offsetof NAME_DENTRY_T ''flags'' = 1" 
  "offsetof NAME_DENTRY_T ''unicode_0_14'' = 2"
  by (simp_all add: NAME_DENTRY_T_def)

lemma BMAP_DENTRY_T_offsets [offsets]:
  "offsetof BMAP_DENTRY_T ''type'' = 0"  "offsetof BMAP_DENTRY_T ''flags'' = 1" 
  "offsetof BMAP_DENTRY_T ''reserved'' = 2"  "offsetof BMAP_DENTRY_T ''start_clu'' = 20" 
  "offsetof BMAP_DENTRY_T ''size'' = 24"
  by (simp_all add: BMAP_DENTRY_T_def)

lemma CASE_DENTRY_T_offsets [offsets]:
  "offsetof CASE_DENTRY_T ''type'' = 0"  "offsetof CASE_DENTRY_T ''reserved1'' = 1" 
  "offsetof CASE_DENTRY_T ''checksum'' = 4"  "offsetof CASE_DENTRY_T ''reserved2'' = 8" 
  "offsetof CASE_DENTRY_T ''start_clu'' = 20"  "offsetof CASE_DENTRY_T ''size'' = 24"
  by (simp_all add: CASE_DENTRY_T_def)

lemma VOLM_DENTRY_T_offsets [offsets]:
  "offsetof VOLM_DENTRY_T ''type'' = 0"  "offsetof VOLM_DENTRY_T ''label_len'' = 1" 
  "offsetof VOLM_DENTRY_T ''unicode_0_10'' = 2"  "offsetof VOLM_DENTRY_T ''reserved'' = 24"
  by (simp_all add: VOLM_DENTRY_T_def)

section \<open>Their sizes\<close>

text \<open>Every directory entry type has the size of \<open>DENTRY_T\<close>, and the boot records that of a sector.\<close>

lemma dentry_sizes:
  "\<forall>l \<in> {DOS_DENTRY_T, EXT_DENTRY_T, FILE_DENTRY_T, STRM_DENTRY_T, NAME_DENTRY_T, BMAP_DENTRY_T, CASE_DENTRY_T, VOLM_DENTRY_T}.
     layout_size l = DENTRY_SIZE"
  by (simp add: layout_size_def DOS_DENTRY_T_def EXT_DENTRY_T_def FILE_DENTRY_T_def STRM_DENTRY_T_def NAME_DENTRY_T_def
      BMAP_DENTRY_T_def CASE_DENTRY_T_def VOLM_DENTRY_T_def)

lemma sector_sizes: "layout_size PBR_SECTOR_T = 512" "layout_size FSI_SECTOR_T = 512"
  by (simp_all add: layout_size_def PBR_SECTOR_T_def FSI_SECTOR_T_def)

lemma bpb_sizes: "layout_size BPB16_T = 51" "layout_size BPB32_T = 79" "layout_size BPBEX_T = 109"
  by (simp_all add: layout_size_def BPB16_T_def BPB32_T_def BPBEX_T_def)

end
