(* ===== verification/Dentry.thy ===== *)
theory Dentry
  imports Layout Checksum Clock
begin

text \<open>
  The directory entry functions of \<open>exfat_core.c\<close>: the accessors in their FAT and exFAT versions, the routines that
  initialise the entries of a file, the extraction of the characters of a name, and the part of \<open>FS_FUNC_T\<close> that
  selects the accessors of the mounted volume.  An entry is the byte buffer it is stored in.
\<close>

section \<open>Entry types, attributes and time modes\<close>

abbreviation (input) TYPE_UNUSED :: u32 where "TYPE_UNUSED \<equiv> 0x0000"
abbreviation (input) TYPE_DELETED :: u32 where "TYPE_DELETED \<equiv> 0x0001"
abbreviation (input) TYPE_INVALID :: u32 where "TYPE_INVALID \<equiv> 0x0002"
abbreviation (input) TYPE_CRITICAL_PRI :: u32 where "TYPE_CRITICAL_PRI \<equiv> 0x0100"
abbreviation (input) TYPE_BITMAP :: u32 where "TYPE_BITMAP \<equiv> 0x0101"
abbreviation (input) TYPE_UPCASE :: u32 where "TYPE_UPCASE \<equiv> 0x0102"
abbreviation (input) TYPE_VOLUME :: u32 where "TYPE_VOLUME \<equiv> 0x0103"
abbreviation (input) TYPE_DIR :: u32 where "TYPE_DIR \<equiv> 0x0104"
abbreviation (input) TYPE_FILE :: u32 where "TYPE_FILE \<equiv> 0x011F"
abbreviation (input) TYPE_SYMLINK :: u32 where "TYPE_SYMLINK \<equiv> 0x015F"
abbreviation (input) TYPE_CRITICAL_SEC :: u32 where "TYPE_CRITICAL_SEC \<equiv> 0x0200"
abbreviation (input) TYPE_STREAM :: u32 where "TYPE_STREAM \<equiv> 0x0201"
abbreviation (input) TYPE_EXTEND :: u32 where "TYPE_EXTEND \<equiv> 0x0202"
abbreviation (input) TYPE_ACL :: u32 where "TYPE_ACL \<equiv> 0x0203"
abbreviation (input) TYPE_BENIGN_PRI :: u32 where "TYPE_BENIGN_PRI \<equiv> 0x0400"
abbreviation (input) TYPE_GUID :: u32 where "TYPE_GUID \<equiv> 0x0401"
abbreviation (input) TYPE_PADDING :: u32 where "TYPE_PADDING \<equiv> 0x0402"
abbreviation (input) TYPE_ACLTAB :: u32 where "TYPE_ACLTAB \<equiv> 0x0403"
abbreviation (input) TYPE_BENIGN_SEC :: u32 where "TYPE_BENIGN_SEC \<equiv> 0x0800"
abbreviation (input) TYPE_ALL :: u32 where "TYPE_ALL \<equiv> 0x0FFF"

abbreviation (input) ATTR_READONLY :: "'a::len word" where "ATTR_READONLY \<equiv> 0x0001"
abbreviation (input) ATTR_VOLUME :: "'a::len word" where "ATTR_VOLUME \<equiv> 0x0008"
abbreviation (input) ATTR_SUBDIR :: "'a::len word" where "ATTR_SUBDIR \<equiv> 0x0010"
abbreviation (input) ATTR_ARCHIVE :: "'a::len word" where "ATTR_ARCHIVE \<equiv> 0x0020"
abbreviation (input) ATTR_SYMLINK :: "'a::len word" where "ATTR_SYMLINK \<equiv> 0x0040"
abbreviation (input) ATTR_EXTEND :: "'a::len word" where "ATTR_EXTEND \<equiv> 0x000F"

abbreviation (input) TM_CREATE :: u8 where "TM_CREATE \<equiv> 0"
abbreviation (input) TM_MODIFY :: u8 where "TM_MODIFY \<equiv> 1"
abbreviation (input) TM_ACCESS :: u8 where "TM_ACCESS \<equiv> 2"

section \<open>Entry types\<close>

definition fat_get_entry_type :: "dentry \<Rightarrow> u32" where
  "fat_get_entry_type ep =
     (let name = ep ! offsetof DOS_DENTRY_T ''name''; attr = ep ! offsetof DOS_DENTRY_T ''attr''
      in if name = 0x0 then TYPE_UNUSED
         else if name = 0xE5 then TYPE_DELETED
         else if attr = ATTR_EXTEND then TYPE_EXTEND
         else if attr AND (ATTR_SUBDIR OR ATTR_VOLUME) = ATTR_VOLUME then TYPE_VOLUME
         else if attr AND (ATTR_SUBDIR OR ATTR_VOLUME) = ATTR_SUBDIR then TYPE_DIR
         else TYPE_FILE)"

definition exfat_get_entry_type :: "dentry \<Rightarrow> u32" where
  "exfat_get_entry_type ep =
     (let type = ep ! offsetof FILE_DENTRY_T ''type''
      in if type = 0x0 then TYPE_UNUSED
         else if type < 0x80 then TYPE_DELETED
         else if type = 0x80 then TYPE_INVALID
         else if type < 0xA0 then
           (if type = 0x81 then TYPE_BITMAP
            else if type = 0x82 then TYPE_UPCASE
            else if type = 0x83 then TYPE_VOLUME
            else if type = 0x85 then
              (if GET16 ep (offsetof FILE_DENTRY_T ''attr'') AND ATTR_SUBDIR \<noteq> 0 then TYPE_DIR else TYPE_FILE)
            else TYPE_CRITICAL_PRI)
         else if type < 0xC0 then
           (if type = 0xA0 then TYPE_GUID
            else if type = 0xA1 then TYPE_PADDING
            else if type = 0xA2 then TYPE_ACLTAB
            else TYPE_BENIGN_PRI)
         else if type < 0xE0 then
           (if type = 0xC0 then TYPE_STREAM
            else if type = 0xC1 then TYPE_EXTEND
            else if type = 0xC2 then TYPE_ACL
            else TYPE_CRITICAL_SEC)
         else TYPE_BENIGN_SEC)"

definition fat_set_entry_type :: "dentry \<Rightarrow> u32 \<Rightarrow> dentry" where
  "fat_set_entry_type ep type =
     (let name = offsetof DOS_DENTRY_T ''name''; attr = offsetof DOS_DENTRY_T ''attr''
      in if type = TYPE_UNUSED then ep[name := 0x0]
         else if type = TYPE_DELETED then ep[name := 0xE5]
         else if type = TYPE_EXTEND then ep[attr := ATTR_EXTEND]
         else if type = TYPE_DIR then ep[attr := ATTR_SUBDIR]
         else if type = TYPE_FILE then ep[attr := ATTR_ARCHIVE]
         else if type = TYPE_SYMLINK then ep[attr := ATTR_ARCHIVE OR ATTR_SYMLINK]
         else ep)"

definition exfat_set_entry_type :: "dentry \<Rightarrow> u32 \<Rightarrow> dentry" where
  "exfat_set_entry_type ep type =
     (let t = offsetof FILE_DENTRY_T ''type''; attr = offsetof FILE_DENTRY_T ''attr''
      in if type = TYPE_UNUSED then ep[t := 0x0]
         else if type = TYPE_DELETED then ep[t := ep ! t AND NOT 0x80]
         else if type = TYPE_STREAM then ep[t := 0xC0]
         else if type = TYPE_EXTEND then ep[t := 0xC1]
         else if type = TYPE_BITMAP then ep[t := 0x81]
         else if type = TYPE_UPCASE then ep[t := 0x82]
         else if type = TYPE_VOLUME then ep[t := 0x83]
         else if type = TYPE_DIR then SET16 (ep[t := 0x85]) attr ATTR_SUBDIR
         else if type = TYPE_FILE then SET16 (ep[t := 0x85]) attr ATTR_ARCHIVE
         else if type = TYPE_SYMLINK then SET16 (ep[t := 0x85]) attr (ATTR_ARCHIVE OR ATTR_SYMLINK)
         else ep)"

section \<open>Attributes, flags, first cluster and size\<close>

definition fat_get_entry_attr :: "dentry \<Rightarrow> u32" where
  "fat_get_entry_attr ep = ucast (ep ! offsetof DOS_DENTRY_T ''attr'')"

definition exfat_get_entry_attr :: "dentry \<Rightarrow> u32" where
  "exfat_get_entry_attr ep = ucast (GET16 ep (offsetof FILE_DENTRY_T ''attr''))"

definition fat_set_entry_attr :: "dentry \<Rightarrow> u32 \<Rightarrow> dentry" where
  "fat_set_entry_attr ep attr = ep[offsetof DOS_DENTRY_T ''attr'' := ucast attr]"

definition exfat_set_entry_attr :: "dentry \<Rightarrow> u32 \<Rightarrow> dentry" where
  "exfat_set_entry_attr ep attr = SET16 ep (offsetof FILE_DENTRY_T ''attr'') (ucast attr)"

definition fat_get_entry_flag :: "dentry \<Rightarrow> u8" where
  "fat_get_entry_flag ep = 0x01"

definition exfat_get_entry_flag :: "dentry \<Rightarrow> u8" where
  "exfat_get_entry_flag ep = ep ! offsetof STRM_DENTRY_T ''flags''"

definition fat_set_entry_flag :: "dentry \<Rightarrow> u8 \<Rightarrow> dentry" where
  "fat_set_entry_flag ep flags = ep"

definition exfat_set_entry_flag :: "dentry \<Rightarrow> u8 \<Rightarrow> dentry" where
  "exfat_set_entry_flag ep flags = ep[offsetof STRM_DENTRY_T ''flags'' := flags]"

definition fat_get_entry_clu0 :: "dentry \<Rightarrow> u32" where
  "fat_get_entry_clu0 ep =
     push_bit 16 (ucast (GET16 ep (offsetof DOS_DENTRY_T ''start_clu_hi'')))
     OR ucast (GET16 ep (offsetof DOS_DENTRY_T ''start_clu_lo''))"

definition exfat_get_entry_clu0 :: "dentry \<Rightarrow> u32" where
  "exfat_get_entry_clu0 ep = GET32 ep (offsetof STRM_DENTRY_T ''start_clu'')"

definition fat_set_entry_clu0 :: "dentry \<Rightarrow> u32 \<Rightarrow> dentry" where
  "fat_set_entry_clu0 ep clu =
     SET16 (SET16 ep (offsetof DOS_DENTRY_T ''start_clu_lo'') (ucast clu))
       (offsetof DOS_DENTRY_T ''start_clu_hi'') (ucast (drop_bit 16 clu))"

definition exfat_set_entry_clu0 :: "dentry \<Rightarrow> u32 \<Rightarrow> dentry" where
  "exfat_set_entry_clu0 ep clu = SET32 ep (offsetof STRM_DENTRY_T ''start_clu'') clu"

definition fat_get_entry_size :: "dentry \<Rightarrow> u64" where
  "fat_get_entry_size ep = ucast (GET32 ep (offsetof DOS_DENTRY_T ''size''))"

definition exfat_get_entry_size :: "dentry \<Rightarrow> u64" where
  "exfat_get_entry_size ep = GET64 ep (offsetof STRM_DENTRY_T ''valid_size'')"

definition fat_set_entry_size :: "dentry \<Rightarrow> u64 \<Rightarrow> dentry" where
  "fat_set_entry_size ep n = SET32 ep (offsetof DOS_DENTRY_T ''size'') (ucast n)"

definition exfat_set_entry_size :: "dentry \<Rightarrow> u64 \<Rightarrow> dentry" where
  "exfat_set_entry_size ep n =
     SET64 (SET64 ep (offsetof STRM_DENTRY_T ''valid_size'') n) (offsetof STRM_DENTRY_T ''size'') n"

section \<open>Time stamps\<close>

text \<open>The expressions with which both versions split and join the two 16-bit fields.\<close>

definition split_time :: "u16 \<Rightarrow> u16 \<Rightarrow> TIMESTAMP_T" where
  "split_time t d =
     \<lparr>tm_sec = push_bit 1 (t AND 0x001F), tm_min = drop_bit 5 t AND 0x003F, tm_hour = drop_bit 11 t,
      tm_day = d AND 0x001F, tm_mon = drop_bit 5 d AND 0x000F, tm_year = drop_bit 9 d\<rparr>"

definition join_time :: "TIMESTAMP_T \<Rightarrow> u16" where
  "join_time tp = (push_bit 11 (tm_hour tp) OR push_bit 5 (tm_min tp) OR drop_bit 1 (tm_sec tp))"

definition join_date :: "TIMESTAMP_T \<Rightarrow> u16" where
  "join_date tp = (push_bit 9 (tm_year tp) OR push_bit 5 (tm_mon tp) OR tm_day tp)"

definition fat_get_entry_time :: "dentry \<Rightarrow> u8 \<Rightarrow> TIMESTAMP_T" where
  "fat_get_entry_time ep mode =
     (if mode = TM_CREATE then split_time (GET16 ep (offsetof DOS_DENTRY_T ''create_time'')) (GET16 ep (offsetof DOS_DENTRY_T ''create_date''))
      else if mode = TM_MODIFY then split_time (GET16 ep (offsetof DOS_DENTRY_T ''modify_time'')) (GET16 ep (offsetof DOS_DENTRY_T ''modify_date''))
      else split_time 0x00 0x21)"

definition exfat_get_entry_time :: "dentry \<Rightarrow> u8 \<Rightarrow> TIMESTAMP_T" where
  "exfat_get_entry_time ep mode =
     (if mode = TM_CREATE then split_time (GET16 ep (offsetof FILE_DENTRY_T ''create_time'')) (GET16 ep (offsetof FILE_DENTRY_T ''create_date''))
      else if mode = TM_MODIFY then split_time (GET16 ep (offsetof FILE_DENTRY_T ''modify_time'')) (GET16 ep (offsetof FILE_DENTRY_T ''modify_date''))
      else if mode = TM_ACCESS then split_time (GET16 ep (offsetof FILE_DENTRY_T ''access_time'')) (GET16 ep (offsetof FILE_DENTRY_T ''access_date''))
      else split_time 0x00 0x21)"

definition fat_set_entry_time :: "dentry \<Rightarrow> TIMESTAMP_T \<Rightarrow> u8 \<Rightarrow> dentry" where
  "fat_set_entry_time ep tp mode =
     (let t = join_time tp; d = join_date tp
      in if mode = TM_CREATE then SET16 (SET16 ep (offsetof DOS_DENTRY_T ''create_time'') t) (offsetof DOS_DENTRY_T ''create_date'') d
         else if mode = TM_MODIFY then SET16 (SET16 ep (offsetof DOS_DENTRY_T ''modify_time'') t) (offsetof DOS_DENTRY_T ''modify_date'') d
         else ep)"

definition exfat_set_entry_time :: "dentry \<Rightarrow> TIMESTAMP_T \<Rightarrow> u8 \<Rightarrow> dentry" where
  "exfat_set_entry_time ep tp mode =
     (let t = join_time tp; d = join_date tp
      in if mode = TM_CREATE then SET16 (SET16 ep (offsetof FILE_DENTRY_T ''create_time'') t) (offsetof FILE_DENTRY_T ''create_date'') d
         else if mode = TM_MODIFY then SET16 (SET16 ep (offsetof FILE_DENTRY_T ''modify_time'') t) (offsetof FILE_DENTRY_T ''modify_date'') d
         else if mode = TM_ACCESS then SET16 (SET16 ep (offsetof FILE_DENTRY_T ''access_time'') t) (offsetof FILE_DENTRY_T ''access_date'') d
         else ep)"

section \<open>Initialising entries\<close>

text \<open>The time stamp \<open>tp\<close> of \<open>tm_current\<close> is an argument.\<close>

definition init_dos_entry :: "TIMESTAMP_T \<Rightarrow> dentry \<Rightarrow> u32 \<Rightarrow> u32 \<Rightarrow> dentry" where
  "init_dos_entry tp ep type clu =
     (let ep = fat_set_entry_type ep type;
          ep = SET16 ep (offsetof DOS_DENTRY_T ''start_clu_lo'') (ucast clu);
          ep = SET16 ep (offsetof DOS_DENTRY_T ''start_clu_hi'') (ucast (drop_bit 16 clu));
          ep = SET32 ep (offsetof DOS_DENTRY_T ''size'') 0;
          ep = fat_set_entry_time ep tp TM_CREATE;
          ep = fat_set_entry_time ep tp TM_MODIFY;
          ep = SET16 ep (offsetof DOS_DENTRY_T ''access_date'') 0
      in ep[offsetof DOS_DENTRY_T ''create_time_ms'' := 0])"

text \<open>
  One of the three loops of \<open>init_ext_entry\<close>: \<open>n\<close> characters at offset \<open>off\<close>; the state is the pointer \<open>uniname\<close> (the
  rest of the name) and the flag \<open>end\<close>.
\<close>

fun init_units :: "nat \<Rightarrow> nat \<Rightarrow> dentry \<times> u16 list \<times> bool \<Rightarrow> dentry \<times> u16 list \<times> bool" where
  "init_units 0 off st = st"
| "init_units (Suc n) off (ep, uniname, at_end) =
     init_units n (off + 2)
       (if \<not> at_end then
          (let ep = SET16 ep off (hd uniname)
           in if hd uniname = 0x0 then (ep, uniname, True) else (ep, tl uniname, False))
        else (SET16 ep off 0xFFFF, uniname, True))"

definition init_ext_entry :: "dentry \<Rightarrow> int \<Rightarrow> u8 \<Rightarrow> u16 list \<Rightarrow> dentry" where
  "init_ext_entry ep order chksum uniname =
     (let ep = fat_set_entry_type ep TYPE_EXTEND;
          ep = ep[offsetof EXT_DENTRY_T ''order'' := word_of_int order];
          ep = ep[offsetof EXT_DENTRY_T ''sysid'' := 0];
          ep = ep[offsetof EXT_DENTRY_T ''checksum'' := chksum];
          ep = SET16 ep (offsetof EXT_DENTRY_T ''start_clu'') 0
      in fst (init_units 2 (offsetof EXT_DENTRY_T ''unicode_11_12'')
              (init_units 6 (offsetof EXT_DENTRY_T ''unicode_5_10'')
               (init_units 5 (offsetof EXT_DENTRY_T ''unicode_0_4'') (ep, uniname, False)))))"

definition init_file_entry :: "TIMESTAMP_T \<Rightarrow> dentry \<Rightarrow> u32 \<Rightarrow> dentry" where
  "init_file_entry tp ep type =
     (let ep = exfat_set_entry_type ep type;
          ep = exfat_set_entry_time ep tp TM_CREATE;
          ep = exfat_set_entry_time ep tp TM_MODIFY;
          ep = exfat_set_entry_time ep tp TM_ACCESS;
          ep = ep[offsetof FILE_DENTRY_T ''create_time_ms'' := 0];
          ep = ep[offsetof FILE_DENTRY_T ''modify_time_ms'' := 0]
      in ep[offsetof FILE_DENTRY_T ''access_time_ms'' := 0])"

definition init_strm_entry :: "dentry \<Rightarrow> u8 \<Rightarrow> u32 \<Rightarrow> u64 \<Rightarrow> dentry" where
  "init_strm_entry ep flags clu n =
     (let ep = exfat_set_entry_type ep TYPE_STREAM;
          ep = ep[offsetof STRM_DENTRY_T ''flags'' := flags];
          ep = SET32 ep (offsetof STRM_DENTRY_T ''start_clu'') clu;
          ep = SET64 ep (offsetof STRM_DENTRY_T ''valid_size'') n
      in SET64 ep (offsetof STRM_DENTRY_T ''size'') n)"

fun name_units :: "nat \<Rightarrow> nat \<Rightarrow> dentry \<Rightarrow> u16 list \<Rightarrow> dentry" where
  "name_units 0 off ep uniname = ep"
| "name_units (Suc n) off ep uniname =
     (let ep = SET16 ep off (hd uniname)
      in if hd uniname = 0x0 then ep else name_units n (off + 2) ep (tl uniname))"

definition init_name_entry :: "dentry \<Rightarrow> u16 list \<Rightarrow> dentry" where
  "init_name_entry ep uniname =
     (let ep = exfat_set_entry_type ep TYPE_EXTEND;
          ep = ep[offsetof NAME_DENTRY_T ''flags'' := 0x0]
      in name_units 15 (offsetof NAME_DENTRY_T ''unicode_0_14'') ep uniname)"

section \<open>The characters of a name\<close>

text \<open>
  The extraction routines write at most the characters up to and including the terminator through \<open>uniname\<close>, and return
  the number of characters before it.  \<open>read_units\<close> is one of their loops: the characters read so far, and whether the
  terminator was among them.  The first component of the results is what is written.
\<close>

fun read_units :: "nat \<Rightarrow> nat \<Rightarrow> dentry \<Rightarrow> u16 list \<times> bool" where
  "read_units 0 off ep = ([], False)"
| "read_units (Suc n) off ep =
     (let u = GET16 ep off
      in if u = 0x0 then ([u], True)
         else (case read_units n (off + 2) ep of (us, stop) \<Rightarrow> (u # us, stop)))"

definition extract_uni_name_from_ext_entry :: "dentry \<Rightarrow> int \<Rightarrow> u16 list \<times> int" where
  "extract_uni_name_from_ext_entry ep order =
     (let (us0, stop) = read_units 5 (offsetof EXT_DENTRY_T ''unicode_0_4'') ep
      in if stop then (us0, int (length us0) - 1)
         else if order < 20 then
           (let (us1, stop) = read_units 6 (offsetof EXT_DENTRY_T ''unicode_5_10'') ep
            in if stop then (us0 @ us1, int (length (us0 @ us1)) - 1)
               else let (us2, stop) = read_units 2 (offsetof EXT_DENTRY_T ''unicode_11_12'') ep
                    in if stop then (us0 @ us1 @ us2, int (length (us0 @ us1 @ us2)) - 1)
                       else (us0 @ us1 @ us2 @ [0x0], int (length (us0 @ us1 @ us2))))
         else
           (let (us1, stop) = read_units 4 (offsetof EXT_DENTRY_T ''unicode_5_10'') ep
            in if stop then (us0 @ us1, int (length (us0 @ us1)) - 1)
               else (us0 @ us1 @ [0x0], int (length (us0 @ us1)))))"

definition extract_uni_name_from_name_entry :: "dentry \<Rightarrow> u16 list \<times> int" where
  "extract_uni_name_from_name_entry ep =
     (let (us, stop) = read_units 15 (offsetof NAME_DENTRY_T ''unicode_0_14'') ep
      in if stop then (us, int (length us) - 1) else (us @ [0x0], int (length us)))"

section \<open>The number of entries of a name\<close>

definition fat_calc_num_entries :: "u8 \<Rightarrow> int" where
  "fat_calc_num_entries name_len = (if name_len = 0 then 0 else (uint name_len - 1) div 13 + 2)"

definition exfat_calc_num_entries :: "u8 \<Rightarrow> int" where
  "exfat_calc_num_entries name_len = (if name_len = 0 then 0 else (uint name_len - 1) div 15 + 3)"

section \<open>The accessors of the mounted volume\<close>

record DENTRY_FUNC_T =
  calc_num_entries :: "u8 \<Rightarrow> int"
  get_entry_type :: "dentry \<Rightarrow> u32"
  set_entry_type :: "dentry \<Rightarrow> u32 \<Rightarrow> dentry"
  get_entry_attr :: "dentry \<Rightarrow> u32"
  set_entry_attr :: "dentry \<Rightarrow> u32 \<Rightarrow> dentry"
  get_entry_flag :: "dentry \<Rightarrow> u8"
  set_entry_flag :: "dentry \<Rightarrow> u8 \<Rightarrow> dentry"
  get_entry_clu0 :: "dentry \<Rightarrow> u32"
  set_entry_clu0 :: "dentry \<Rightarrow> u32 \<Rightarrow> dentry"
  get_entry_size :: "dentry \<Rightarrow> u64"
  set_entry_size :: "dentry \<Rightarrow> u64 \<Rightarrow> dentry"
  get_entry_time :: "dentry \<Rightarrow> u8 \<Rightarrow> TIMESTAMP_T"
  set_entry_time :: "dentry \<Rightarrow> TIMESTAMP_T \<Rightarrow> u8 \<Rightarrow> dentry"

definition fat_dentry_func :: DENTRY_FUNC_T where
  "fat_dentry_func = \<lparr>calc_num_entries = fat_calc_num_entries,
     get_entry_type = fat_get_entry_type, set_entry_type = fat_set_entry_type,
     get_entry_attr = fat_get_entry_attr, set_entry_attr = fat_set_entry_attr,
     get_entry_flag = fat_get_entry_flag, set_entry_flag = fat_set_entry_flag,
     get_entry_clu0 = fat_get_entry_clu0, set_entry_clu0 = fat_set_entry_clu0,
     get_entry_size = fat_get_entry_size, set_entry_size = fat_set_entry_size,
     get_entry_time = fat_get_entry_time, set_entry_time = fat_set_entry_time\<rparr>"

definition exfat_dentry_func :: DENTRY_FUNC_T where
  "exfat_dentry_func = \<lparr>calc_num_entries = exfat_calc_num_entries,
     get_entry_type = exfat_get_entry_type, set_entry_type = exfat_set_entry_type,
     get_entry_attr = exfat_get_entry_attr, set_entry_attr = exfat_set_entry_attr,
     get_entry_flag = exfat_get_entry_flag, set_entry_flag = exfat_set_entry_flag,
     get_entry_clu0 = exfat_get_entry_clu0, set_entry_clu0 = exfat_set_entry_clu0,
     get_entry_size = exfat_get_entry_size, set_entry_size = exfat_set_entry_size,
     get_entry_time = exfat_get_entry_time, set_entry_time = exfat_set_entry_time\<rparr>"

text \<open>\<open>p_fs->fs_func\<close>, which the mount functions set according to the volume type.\<close>

definition dentry_func :: "sb \<Rightarrow> DENTRY_FUNC_T" where
  "dentry_func s = (if vol_type s = EXFAT then exfat_dentry_func else fat_dentry_func)"

end
