(* ===== verification/DentryProps.thy ===== *)
theory DentryProps
  imports Dentry
begin

text \<open>
  What the rest of the driver relies on when it reads and writes directory entries.  The locale \<open>entry_codec\<close> is the
  contract of the accessors in \<open>FS_FUNC_T\<close>; both volume types implement it.  The name entries carry a name without loss:
  what \<open>init_ext_entry\<close> and \<open>init_name_entry\<close> write is read back by the extraction routines.
\<close>

section \<open>Reading fields of updated entries\<close>

named_theorems entry_simps \<open>reading a field after writing another\<close>

lemma nth_put16 [entry_simps]: "j < i \<or> i + 2 \<le> j \<Longrightarrow> SET16 p i v ! j = p ! j" by (rule le16.put_frame)
lemma nth_put32 [entry_simps]: "j < i \<or> i + 4 \<le> j \<Longrightarrow> SET32 p i v ! j = p ! j" by (rule le32.put_frame)
lemma nth_put64 [entry_simps]: "j < i \<or> i + 8 \<le> j \<Longrightarrow> SET64 p i v ! j = p ! j" by (rule le64.put_frame)

lemma get16_put [entry_simps]:
  "i + 2 \<le> length p \<Longrightarrow> GET16 (SET16 p i v) i = v"
  "j + 2 \<le> i \<or> i + 2 \<le> j \<Longrightarrow> GET16 (SET16 p i v) j = GET16 p j"
  "j + 2 \<le> i \<or> i + 4 \<le> j \<Longrightarrow> GET16 (SET32 p i v') j = GET16 p j"
  "j + 2 \<le> i \<or> i + 8 \<le> j \<Longrightarrow> GET16 (SET64 p i v'') j = GET16 p j"
  "j \<noteq> i \<Longrightarrow> i \<noteq> Suc j \<Longrightarrow> GET16 (p[i := b]) j = GET16 p j"
  by (auto simp: GET16_def SET16_def SET32_def SET64_def decompose16)

lemma get32_put [entry_simps]:
  "i + 4 \<le> length p \<Longrightarrow> GET32 (SET32 p i v') i = v'"
  "j + 4 \<le> i \<or> i + 2 \<le> j \<Longrightarrow> GET32 (SET16 p i v) j = GET32 p j"
  "j + 4 \<le> i \<or> i + 4 \<le> j \<Longrightarrow> GET32 (SET32 p i v') j = GET32 p j"
  "j + 4 \<le> i \<or> i + 8 \<le> j \<Longrightarrow> GET32 (SET64 p i v'') j = GET32 p j"
  "i < j \<or> j + 4 \<le> i \<Longrightarrow> GET32 (p[i := b]) j = GET32 p j"
  by (auto simp: GET32_def SET16_def SET32_def SET64_def decompose32)

lemma get64_put [entry_simps]:
  "i + 8 \<le> length p \<Longrightarrow> GET64 (SET64 p i v'') i = v''"
  "j + 8 \<le> i \<or> i + 2 \<le> j \<Longrightarrow> GET64 (SET16 p i v) j = GET64 p j"
  "j + 8 \<le> i \<or> i + 4 \<le> j \<Longrightarrow> GET64 (SET32 p i v') j = GET64 p j"
  "j + 8 \<le> i \<or> i + 8 \<le> j \<Longrightarrow> GET64 (SET64 p i v'') j = GET64 p j"
  "i < j \<or> j + 8 \<le> i \<Longrightarrow> GET64 (p[i := b]) j = GET64 p j"
  by (auto simp: GET64_def SET16_def SET32_def SET64_def decompose64)

section \<open>Time stamps\<close>

text \<open>The stamps the two 16-bit fields can hold, and what is kept of them: the seconds lose their last bit.\<close>

definition time_fits :: "TIMESTAMP_T \<Rightarrow> bool" where
  "time_fits tp \<longleftrightarrow> tm_sec tp < 64 \<and> tm_min tp < 64 \<and> tm_hour tp < 32 \<and> tm_day tp < 32 \<and> tm_mon tp < 16 \<and> tm_year tp < 128"

definition even_secs :: "TIMESTAMP_T \<Rightarrow> TIMESTAMP_T" where
  "even_secs tp = tp\<lparr>tm_sec := tm_sec tp AND NOT 1\<rparr>"

lemma bit_small: "unat w < 2 ^ k \<Longrightarrow> k \<le> n \<Longrightarrow> \<not> bit w n" for w :: "'a::len word"
proof
  assume a: "unat w < 2 ^ k" "k \<le> n" "bit w n"
  have "take_bit k w = w" using a(1) by (simp add: word_unat_eq_iff unat_take_bit)
  then show False using a(2,3) by (metis bit_take_bit_iff leD)
qed

lemma split_join_time:
  assumes "time_fits tp"
  shows "split_time (join_time tp) (join_date tp) = even_secs tp"
proof -
  have lims: "unat (tm_sec tp) < 2 ^ 6" "unat (tm_min tp) < 2 ^ 6" "unat (tm_hour tp) < 2 ^ 5" "unat (tm_day tp) < 2 ^ 5"
    "unat (tm_mon tp) < 2 ^ 4" "unat (tm_year tp) < 2 ^ 7"
    using assms by (simp_all add: time_fits_def word_less_nat_alt)
  have masks: "(0x1F :: u16) = mask 5" "(0x3F :: u16) = mask 6" "(0xF :: u16) = mask 4" by (simp_all add: mask_numeral)
  have no: "6 \<le> n \<Longrightarrow> \<not> bit (tm_sec tp) n" "6 \<le> n \<Longrightarrow> \<not> bit (tm_min tp) n" "5 \<le> n \<Longrightarrow> \<not> bit (tm_hour tp) n"
    "5 \<le> n \<Longrightarrow> \<not> bit (tm_day tp) n" "4 \<le> n \<Longrightarrow> \<not> bit (tm_mon tp) n" "7 \<le> n \<Longrightarrow> \<not> bit (tm_year tp) n" for n
    using bit_small [OF lims(1)] bit_small [OF lims(2)] bit_small [OF lims(3)] bit_small [OF lims(4)]
      bit_small [OF lims(5)] bit_small [OF lims(6)] by auto
  have last: "bit (tm_sec tp) n \<Longrightarrow> n - 1 < 5" "bit (tm_min tp) n \<Longrightarrow> n < 6" "bit (tm_hour tp) n \<Longrightarrow> n < 5"
    "bit (tm_day tp) n \<Longrightarrow> n < 5" "bit (tm_mon tp) n \<Longrightarrow> n < 4" "bit (tm_year tp) n \<Longrightarrow> n < 7" for n
    using no(1) [of n] by (cases "6 \<le> n"; simp) (use no [of n] in \<open>simp add: not_le [symmetric], blast\<close>)+
  note bits = bit_and_iff bit_or_iff bit_push_bit_iff bit_drop_bit_eq bit_mask_iff bit_not_iff bit_1_iff
    join_time_def join_date_def o_def
  have "push_bit 1 (join_time tp AND mask 5) = tm_sec tp AND NOT 1"
    by (rule bit_word_eqI) (use no last in \<open>simp only: bits, auto\<close>)
  moreover have "drop_bit 5 (join_time tp) AND mask 6 = tm_min tp"
    by (rule bit_word_eqI) (use no last in \<open>simp only: bits, auto\<close>)
  moreover have "drop_bit 11 (join_time tp) = tm_hour tp"
    by (rule bit_word_eqI) (use no last in \<open>simp only: bits, auto\<close>)
  moreover have "join_date tp AND mask 5 = tm_day tp"
    by (rule bit_word_eqI) (use no last in \<open>simp only: bits, auto\<close>)
  moreover have "drop_bit 5 (join_date tp) AND mask 4 = tm_mon tp"
    by (rule bit_word_eqI) (use no last in \<open>simp only: bits, auto\<close>)
  moreover have "drop_bit 9 (join_date tp) = tm_year tp"
    by (rule bit_word_eqI) (use no last in \<open>simp only: bits, auto\<close>)
  ultimately show ?thesis
    unfolding split_time_def even_secs_def masks by (cases tp) simp
qed

section \<open>The contract of the accessors\<close>

text \<open>
  \<open>size_bits\<close> and \<open>attr_bits\<close> are the widths of the fields on disk, \<open>timed\<close> the time modes the format stores and
  \<open>in_use\<close> the entries that deletion applies to.
\<close>

locale entry_codec =
  fixes ops :: DENTRY_FUNC_T and size_bits attr_bits :: nat and timed :: "u8 \<Rightarrow> bool" and in_use :: "dentry \<Rightarrow> bool"
  assumes lengths: "length (set_entry_type ops e t) = length e" "length (set_entry_attr ops e a) = length e"
      "length (set_entry_flag ops e f) = length e" "length (set_entry_clu0 ops e c) = length e"
      "length (set_entry_size ops e n) = length e" "length (set_entry_time ops e tp mode) = length e"
    and attr_same: "length e = 32 \<Longrightarrow> get_entry_attr ops (set_entry_attr ops e a) = take_bit attr_bits a"
    and clu0_same: "length e = 32 \<Longrightarrow> get_entry_clu0 ops (set_entry_clu0 ops e c) = c"
    and size_same: "length e = 32 \<Longrightarrow> get_entry_size ops (set_entry_size ops e n) = take_bit size_bits n"
    and time_same: "length e = 32 \<Longrightarrow> timed mode \<Longrightarrow> time_fits tp \<Longrightarrow>
      get_entry_time ops (set_entry_time ops e tp mode) mode = even_secs tp"
    and attr_other: "get_entry_attr ops (set_entry_flag ops e f) = get_entry_attr ops e"
      "get_entry_attr ops (set_entry_clu0 ops e c) = get_entry_attr ops e"
      "get_entry_attr ops (set_entry_size ops e n) = get_entry_attr ops e"
      "get_entry_attr ops (set_entry_time ops e tp mode) = get_entry_attr ops e"
    and clu0_other: "get_entry_clu0 ops (set_entry_flag ops e f) = get_entry_clu0 ops e"
      "get_entry_clu0 ops (set_entry_size ops e n) = get_entry_clu0 ops e"
    and size_other: "get_entry_size ops (set_entry_flag ops e f) = get_entry_size ops e"
      "get_entry_size ops (set_entry_clu0 ops e c) = get_entry_size ops e"
    and time_other: "get_entry_time ops (set_entry_attr ops e a) mode = get_entry_time ops e mode"
    and delete: "length e = 32 \<Longrightarrow> in_use e \<Longrightarrow> get_entry_type ops (set_entry_type ops e TYPE_DELETED) = TYPE_DELETED"
begin

text \<open>
  The update of an entry when a file is written or truncated: time and attributes of the first entry, flags, size and
  first cluster of the second (the same entry on a FAT volume), in the order of the code.
\<close>

lemma stream_update:
  assumes "length e = 32"
  shows "let e' = set_entry_clu0 ops (set_entry_size ops (set_entry_flag ops e f) n) c
         in get_entry_size ops e' = take_bit size_bits n \<and> get_entry_clu0 ops e' = c \<and> get_entry_attr ops e' = get_entry_attr ops e"
  using assms by (simp add: lengths clu0_same size_other size_same attr_other Let_def)

lemma file_update:
  assumes "length e = 32" "timed mode" "time_fits tp"
  shows "let e' = set_entry_attr ops (set_entry_time ops e tp mode) a
         in get_entry_attr ops e' = take_bit attr_bits a \<and> get_entry_time ops e' mode = even_secs tp"
  using assms by (simp add: lengths attr_same time_other time_same Let_def)

end

section \<open>Both volume types implement it\<close>

lemma join_words: "push_bit 16 (take_bit 16 (drop_bit 16 c)) OR take_bit 16 c = c" for c :: u32
  by (rule bit_word_eqI) (auto simp: bit_simps)

lemma ucast_small: "ucast (ucast v :: 'b::len word) = take_bit LENGTH('b) v" for v :: "'a::len word"
  by (rule bit_word_eqI) (auto simp: bit_simps)

lemmas fat_codec_defs = fat_dentry_func_def fat_get_entry_type_def fat_set_entry_type_def fat_get_entry_attr_def
  fat_set_entry_attr_def fat_get_entry_flag_def fat_set_entry_flag_def fat_get_entry_clu0_def fat_set_entry_clu0_def
  fat_get_entry_size_def fat_set_entry_size_def fat_get_entry_time_def fat_set_entry_time_def

lemmas exfat_codec_defs = exfat_dentry_func_def exfat_get_entry_type_def exfat_set_entry_type_def exfat_get_entry_attr_def
  exfat_set_entry_attr_def exfat_get_entry_flag_def exfat_set_entry_flag_def exfat_get_entry_clu0_def exfat_set_entry_clu0_def
  exfat_get_entry_size_def exfat_set_entry_size_def exfat_get_entry_time_def exfat_set_entry_time_def

interpretation fat_codec: entry_codec fat_dentry_func 32 8 "\<lambda>mode. mode = TM_CREATE \<or> mode = TM_MODIFY" "\<lambda>e. True"
  by unfold_locales (auto simp: fat_codec_defs offsets entry_simps Let_def join_words ucast_small split_join_time)

lemma deleted_type: "0x80 < b \<Longrightarrow> b AND NOT 0x80 \<noteq> 0 \<and> b AND NOT 0x80 < 0x80" for b :: u8
proof -
  assume b: "0x80 < b"
  have "(NOT 0x80 :: u8) = mask 7" by (simp add: mask_numeral)
  then have "b AND NOT 0x80 = take_bit 7 b" by (simp only: and_mask_word)
  then have "unat (b AND NOT 0x80) = unat b mod 128" by (simp add: unat_take_bit)
  moreover have "128 < unat b" "unat b < 256"
    using b unsigned_less [of b] by (simp_all add: word_less_nat_alt)
  ultimately have "unat (b AND NOT 0x80) = unat b - 128" by (simp add: mod_if)
  then show ?thesis using \<open>128 < unat b\<close> \<open>unat b < 256\<close> by (auto simp: word_less_nat_alt word_unat_eq_iff)
qed

lemma exfat_delete:
  assumes "length e = 32" "0x80 < e ! 0"
  shows "exfat_get_entry_type (exfat_set_entry_type e TYPE_DELETED) = TYPE_DELETED"
proof -
  have "exfat_set_entry_type e TYPE_DELETED = e[0 := e ! 0 AND NOT 0x80]"
    by (simp add: exfat_set_entry_type_def offsets)
  moreover have "exfat_get_entry_type (e[0 := b]) = TYPE_DELETED" if "b \<noteq> 0 \<and> b < 0x80" for b
    using that assms(1) by (simp add: exfat_get_entry_type_def offsets)
  ultimately show ?thesis using deleted_type [OF assms(2)] by metis
qed

interpretation exfat_codec: entry_codec exfat_dentry_func 64 16
  "\<lambda>mode. mode = TM_CREATE \<or> mode = TM_MODIFY \<or> mode = TM_ACCESS" "\<lambda>e. 0x80 < e ! 0"
proof
  show "get_entry_type exfat_dentry_func (set_entry_type exfat_dentry_func e TYPE_DELETED) = TYPE_DELETED"
    if "length e = 32" "0x80 < e ! 0" for e
    using exfat_delete [OF that] by (simp add: exfat_dentry_func_def)
qed (auto simp: exfat_codec_defs offsets entry_simps Let_def ucast_small split_join_time take_bit_full)

section \<open>Properties\<close>

text \<open>
  The fields of an entry.  An exFAT file has the first group in its file entry and the second in its stream entry; a FAT entry has both.
\<close>

record file_fields =
  ff_attr :: u32
  ff_time :: "u8 \<Rightarrow> TIMESTAMP_T"

record stream_fields =
  sf_flag :: u8
  sf_clu0 :: u32
  sf_size :: u64

definition file_of :: "DENTRY_FUNC_T \<Rightarrow> dentry \<Rightarrow> file_fields" where
  "file_of ops e = \<lparr>ff_attr = get_entry_attr ops e, ff_time = get_entry_time ops e\<rparr>"

definition stream_of :: "DENTRY_FUNC_T \<Rightarrow> dentry \<Rightarrow> stream_fields" where
  "stream_of ops e = \<lparr>sf_flag = get_entry_flag ops e, sf_clu0 = get_entry_clu0 ops e, sf_size = get_entry_size ops e\<rparr>"

lemmas view_defs = file_of_def stream_of_def

lemma fat_fields:
  assumes "length e = 32"
  defines "ops \<equiv> fat_dentry_func"
  shows "file_of ops (set_entry_attr ops e a) = (file_of ops e)\<lparr>ff_attr := take_bit 8 a\<rparr>"
    "time_fits tp \<Longrightarrow> mode = TM_CREATE \<or> mode = TM_MODIFY \<Longrightarrow>
      file_of ops (set_entry_time ops e tp mode) = (file_of ops e)\<lparr>ff_time := (ff_time (file_of ops e))(mode := even_secs tp)\<rparr>"
    "set_entry_time ops e tp TM_ACCESS = e" "get_entry_time ops e TM_ACCESS = split_time 0 0x21"
    "stream_of ops (set_entry_flag ops e f) = (stream_of ops e)\<lparr>sf_flag := 0x01\<rparr>"
    "stream_of ops (set_entry_clu0 ops e c) = (stream_of ops e)\<lparr>sf_clu0 := c\<rparr>"
    "stream_of ops (set_entry_size ops e n) = (stream_of ops e)\<lparr>sf_size := take_bit 32 n\<rparr>"
    "stream_of ops (set_entry_attr ops e a) = stream_of ops e" "stream_of ops (set_entry_time ops e tp mode) = stream_of ops e"
    "file_of ops (set_entry_flag ops e f) = file_of ops e" "file_of ops (set_entry_clu0 ops e c) = file_of ops e"
    "file_of ops (set_entry_size ops e n) = file_of ops e"
    "stream_of ops (set_entry_type ops e t) = stream_of ops e" "ff_time (file_of ops (set_entry_type ops e t)) = ff_time (file_of ops e)"
  using assms(1) unfolding ops_def view_defs
  by (simp_all add: fat_codec_defs offsets entry_simps Let_def join_words ucast_small split_join_time)
    (auto simp: fun_eq_iff fat_get_entry_time_def offsets entry_simps split_join_time)

lemma exfat_fields:
  assumes "length e = 32"
  defines "ops \<equiv> exfat_dentry_func"
  shows "file_of ops (set_entry_attr ops e a) = (file_of ops e)\<lparr>ff_attr := take_bit 16 a\<rparr>"
    "time_fits tp \<Longrightarrow> mode = TM_CREATE \<or> mode = TM_MODIFY \<or> mode = TM_ACCESS \<Longrightarrow>
      file_of ops (set_entry_time ops e tp mode) = (file_of ops e)\<lparr>ff_time := (ff_time (file_of ops e))(mode := even_secs tp)\<rparr>"
    "stream_of ops (set_entry_flag ops e f) = (stream_of ops e)\<lparr>sf_flag := f\<rparr>"
    "stream_of ops (set_entry_clu0 ops e c) = (stream_of ops e)\<lparr>sf_clu0 := c\<rparr>"
    "stream_of ops (set_entry_size ops e n) = (stream_of ops e)\<lparr>sf_size := n\<rparr>"
    "stream_of ops (set_entry_type ops e t) = stream_of ops e" "ff_time (file_of ops (set_entry_type ops e t)) = ff_time (file_of ops e)"
  using assms(1) unfolding ops_def view_defs
  by (simp_all add: exfat_codec_defs offsets entry_simps Let_def ucast_small split_join_time take_bit_full)
    (auto simp: fun_eq_iff exfat_get_entry_time_def offsets entry_simps split_join_time)

text \<open>The entry types that read back: on FAT the type is decoded from the first byte of the name and the attributes.\<close>

definition type_stored :: "bool \<Rightarrow> dentry \<Rightarrow> u32 \<Rightarrow> bool" where
  "type_stored x e t \<longleftrightarrow>
     t = TYPE_UNUSED \<or> t = TYPE_DELETED \<and> (x \<longrightarrow> 0x80 < e ! 0) \<or>
     t \<in> {TYPE_EXTEND, TYPE_DIR, TYPE_FILE} \<and> (x \<or> e ! 0 \<noteq> 0 \<and> e ! 0 \<noteq> 0xE5) \<or>
     x \<and> t \<in> {TYPE_STREAM, TYPE_BITMAP, TYPE_UPCASE, TYPE_VOLUME}"

lemma type_reads_back:
  assumes "length e = 32" "type_stored (vol_type s = EXFAT) e t"
  shows "get_entry_type (dentry_func s) (set_entry_type (dentry_func s) e t) = t"
proof (cases "vol_type s = EXFAT")
  case True
  show ?thesis
  proof (cases "t = TYPE_DELETED")
    case t: True
    then show ?thesis using assms True exfat_delete [OF assms(1)] by (simp add: type_stored_def dentry_func_def exfat_dentry_func_def)
  next
    case False
    then show ?thesis using assms True by (auto simp: type_stored_def dentry_func_def exfat_codec_defs offsets entry_simps)
  qed
next
  case False
  then show ?thesis using assms by (auto simp: type_stored_def dentry_func_def fat_codec_defs offsets)
qed

lemma type_from:
  "e' ! 0 = e ! 0 \<Longrightarrow> GET16 e' 4 = GET16 e 4 \<Longrightarrow> exfat_get_entry_type e' = exfat_get_entry_type e"
  "e' ! 0 = e ! 0 \<Longrightarrow> e' ! 11 = e ! 11 \<Longrightarrow> fat_get_entry_type e' = fat_get_entry_type e"
  by (simp_all only: exfat_get_entry_type_def fat_get_entry_type_def offsets)

lemma type_untouched:
  assumes "length e = 32"
  shows "get_entry_type (dentry_func s) (set_entry_time (dentry_func s) e tp mode) = get_entry_type (dentry_func s) e"
    "get_entry_type (dentry_func s) (set_entry_flag (dentry_func s) e f) = get_entry_type (dentry_func s) e"
    "get_entry_type (dentry_func s) (set_entry_clu0 (dentry_func s) e c) = get_entry_type (dentry_func s) e"
    "get_entry_type (dentry_func s) (set_entry_size (dentry_func s) e n) = get_entry_type (dentry_func s) e"
proof -
  have "exfat_get_entry_type (exfat_set_entry_time e tp mode) = exfat_get_entry_type e"
    "exfat_get_entry_type (exfat_set_entry_flag e f) = exfat_get_entry_type e"
    "exfat_get_entry_type (exfat_set_entry_clu0 e c) = exfat_get_entry_type e"
    "exfat_get_entry_type (exfat_set_entry_size e n) = exfat_get_entry_type e"
    using assms by (intro type_from; simp add: exfat_set_entry_time_def exfat_set_entry_flag_def exfat_set_entry_clu0_def
      exfat_set_entry_size_def offsets entry_simps Let_def)+
  moreover have "fat_get_entry_type (fat_set_entry_time e tp mode) = fat_get_entry_type e"
    "fat_get_entry_type (fat_set_entry_flag e f) = fat_get_entry_type e"
    "fat_get_entry_type (fat_set_entry_clu0 e c) = fat_get_entry_type e"
    "fat_get_entry_type (fat_set_entry_size e n) = fat_get_entry_type e"
    using assms by (intro type_from; simp add: fat_set_entry_time_def fat_set_entry_flag_def fat_set_entry_clu0_def
      fat_set_entry_size_def offsets entry_simps Let_def)+
  ultimately show "get_entry_type (dentry_func s) (set_entry_time (dentry_func s) e tp mode) = get_entry_type (dentry_func s) e"
    "get_entry_type (dentry_func s) (set_entry_flag (dentry_func s) e f) = get_entry_type (dentry_func s) e"
    "get_entry_type (dentry_func s) (set_entry_clu0 (dentry_func s) e c) = get_entry_type (dentry_func s) e"
    "get_entry_type (dentry_func s) (set_entry_size (dentry_func s) e n) = get_entry_type (dentry_func s) e"
    by (simp_all add: dentry_func_def fat_dentry_func_def exfat_dentry_func_def)
qed

text \<open>
  C10: The accessors of the mounted volume read back what they write and leave the other fields alone, on every volume type.
  In the entry that holds the attributes and times, a new attribute (at the width on disk) or time stamp (up to its last second; FAT
  does not store the time of access) changes this field only; in the entry that holds flag, first cluster and size, a new
  value changes this field only (FAT stores no flag and 32 bits of the size).  On FAT, where both are one entry, neither group
  touches the other.  The type reads back, setting it leaves flag, cluster, size and times, and no setter but that of the attributes
  changes it.
\<close>

theorem entry_fields_independent:
  assumes "length e = 32" "time_fits tp" "mode = TM_CREATE \<or> mode = TM_MODIFY \<or> mode = TM_ACCESS"
  shows "let ops = dentry_func s; x = vol_type s = EXFAT; file = file_of ops; stream = stream_of ops
    in file (set_entry_attr ops e a) = (file e)\<lparr>ff_attr := take_bit (if x then 16 else 8) a\<rparr> \<and>
       file (set_entry_time ops e tp mode) = (file e)\<lparr>ff_time := (ff_time (file e))
         (mode := if x \<or> mode \<noteq> TM_ACCESS then even_secs tp else split_time 0 0x21)\<rparr> \<and>
       stream (set_entry_flag ops e f) = (stream e)\<lparr>sf_flag := if x then f else 0x01\<rparr> \<and>
       stream (set_entry_clu0 ops e c) = (stream e)\<lparr>sf_clu0 := c\<rparr> \<and>
       stream (set_entry_size ops e n) = (stream e)\<lparr>sf_size := take_bit (if x then 64 else 32) n\<rparr> \<and>
       (\<not> x \<longrightarrow> stream (set_entry_attr ops e a) = stream e \<and> stream (set_entry_time ops e tp mode) = stream e \<and>
         file (set_entry_flag ops e f) = file e \<and> file (set_entry_clu0 ops e c) = file e \<and> file (set_entry_size ops e n) = file e) \<and>
       (type_stored x e t \<longrightarrow> get_entry_type ops (set_entry_type ops e t) = t) \<and>
       stream (set_entry_type ops e t) = stream e \<and> ff_time (file (set_entry_type ops e t)) = ff_time (file e) \<and>
       get_entry_type ops (set_entry_time ops e tp mode) = get_entry_type ops e \<and>
       get_entry_type ops (set_entry_flag ops e f) = get_entry_type ops e \<and>
       get_entry_type ops (set_entry_clu0 ops e c) = get_entry_type ops e \<and>
       get_entry_type ops (set_entry_size ops e n) = get_entry_type ops e"
proof (cases "vol_type s = EXFAT")
  case True
  then have d: "dentry_func s = exfat_dentry_func" by (simp add: dentry_func_def)
  show ?thesis
    using type_reads_back [OF assms(1), of s t] type_untouched [OF assms(1), of s] exfat_fields [OF assms(1)] assms(2,3) True
    by (simp add: Let_def d take_bit_full)
next
  case False
  then have d: "dentry_func s = fat_dentry_func" by (simp add: dentry_func_def)
  have "(ff_time (file_of fat_dentry_func e))(TM_ACCESS := split_time 0 0x21) = ff_time (file_of fat_dentry_func e)"
    using fat_fields(4) [OF assms(1)] by (auto simp: file_of_def)
  then show ?thesis
    using type_reads_back [OF assms(1), of s t] type_untouched [OF assms(1), of s] fat_fields [OF assms(1)] assms(2,3) False
    by (auto simp: Let_def d)
qed

text \<open>A flag, a large size and a time of access on an exFAT entry, and the same on a FAT entry.\<close>

theorem entry_fields_independent_witness:
  "let tp = tm_current 1000000001 0; e = replicate 32 0xAA; x = exfat_dentry_func; f = fat_dentry_func
   in get_entry_flag x (set_entry_flag x e 3) = 3 \<and> get_entry_size x (set_entry_size x e 0x100000005) = 0x100000005 \<and>
      get_entry_time x (set_entry_time x e tp TM_ACCESS) TM_ACCESS = even_secs tp \<and>
      get_entry_size f (set_entry_size f e 0x100000005) = 5 \<and> get_entry_clu0 f (set_entry_time f e tp TM_MODIFY) = 0xAAAAAAAA"
proof -
  have t: "time_fits (tm_current 1000000001 0)" by code_simp
  have g: "get_entry_clu0 fat_dentry_func (replicate 32 0xAA) = 0xAAAAAAAA" by code_simp
  define s :: "vol_kind \<Rightarrow> sb" where "s k = undefined\<lparr>vol_type := k\<rparr>" for k
  have v: "vol_type (s k) = k" for k by (simp add: s_def)
  have d: "dentry_func (s EXFAT) = exfat_dentry_func" "dentry_func (s FAT32) = fat_dentry_func" by (simp_all add: dentry_func_def v)
  show ?thesis
    using entry_fields_independent [of "replicate 32 0xAA" _ TM_ACCESS "s EXFAT" _ 3 _ "0x100000005", OF _ t]
      entry_fields_independent [of "replicate 32 0xAA" _ TM_MODIFY "s FAT32" _ _ _ "0x100000005", OF _ t]
    unfolding Let_def d v by (simp add: file_of_def stream_of_def g)
qed

text \<open>
  The entry types that the driver writes read back on every volume type, a symbolic link as the file it is stored as.
  On a FAT volume this needs an entry whose first byte is a name, because the type is decoded from it.
\<close>

lemma entry_type_reads_back:
  assumes "length e = 32" "type \<in> {TYPE_EXTEND, TYPE_DIR, TYPE_FILE, TYPE_SYMLINK}"
    "vol_type s = EXFAT \<or> e ! 0 \<noteq> 0 \<and> e ! 0 \<noteq> 0xE5"
  shows "get_entry_type (dentry_func s) (set_entry_type (dentry_func s) e type) = (if type = TYPE_SYMLINK then TYPE_FILE else type)"
proof (cases "vol_type s = EXFAT")
  case True
  then show ?thesis
    using assms(1,2) by (auto simp: dentry_func_def exfat_codec_defs offsets entry_simps)
next
  case False
  then show ?thesis
    using assms by (auto simp: dentry_func_def fat_codec_defs offsets)
qed

text \<open>
  \<open>exfat_get_entry_type\<close> implements the type byte of the exFAT format, in which bit 7 says that the entry is in use,
  bit 6 that it is a secondary entry and bit 5 that it is benign: an entry that is not in use is unused or deleted, and the
  type of every other entry belongs to the group of \<open>TYPE_*\<close> constants of its two bits.
\<close>

lemma exfat_entry_type_groups:
  "let b = e ! 0; t = exfat_get_entry_type e
   in (t = TYPE_UNUSED \<longleftrightarrow> b = 0) \<and> (t = TYPE_DELETED \<longleftrightarrow> b \<noteq> 0 \<and> \<not> bit b 7) \<and> (t = TYPE_INVALID \<longleftrightarrow> b = 0x80) \<and>
      (bit b 7 \<and> b \<noteq> 0x80 \<longrightarrow> t AND 0xFF00 =
        (if bit b 6 then if bit b 5 then TYPE_BENIGN_SEC else TYPE_CRITICAL_SEC
         else if bit b 5 then TYPE_BENIGN_PRI else TYPE_CRITICAL_PRI))"
proof -
  define n where "n = unat (e ! 0)"
  have n: "n < 256" using unsigned_less [of "e ! 0"] by (simp add: n_def)
  have c: "e ! 0 = k \<longleftrightarrow> n = unat k" "e ! 0 < k \<longleftrightarrow> n < unat k" for k
    by (simp_all add: n_def word_unat_eq_iff word_less_nat_alt)
  have b: "bit (e ! 0) k \<longleftrightarrow> odd (n div 2 ^ k)" for k
    by (simp add: n_def bit_unsigned_iff flip: bit_iff_odd)
  consider "n < 128" | "128 \<le> n" "n < 160" | "160 \<le> n" "n < 192" | "192 \<le> n" "n < 224" | "224 \<le> n" using n by linarith
  then show ?thesis
  proof cases
    case 1
    then have "n div 128 = 0" by simp
    then show ?thesis using 1 by (auto simp: Let_def exfat_get_entry_type_def offsets c b)
  next
    case 2
    then have "n div 128 = 1" "n div 64 = 2" "n div 32 = 4" by simp_all
    then show ?thesis using 2 by (auto simp: Let_def exfat_get_entry_type_def offsets c b)
  next
    case 3
    then have "n div 128 = 1" "n div 64 = 2" "n div 32 = 5" by simp_all
    then show ?thesis using 3 by (auto simp: Let_def exfat_get_entry_type_def offsets c b)
  next
    case 4
    then have "n div 128 = 1" "n div 64 = 3" "n div 32 = 6" by simp_all
    then show ?thesis using 4 by (auto simp: Let_def exfat_get_entry_type_def offsets c b)
  next
    case 5
    then have "n div 128 = 1" "n div 64 = 3" "n div 32 = 7" using n by simp_all
    then show ?thesis using 5 by (auto simp: Let_def exfat_get_entry_type_def offsets c b)
  qed
qed

end
