(* ===== verification/NameEntries.thy ===== *)
theory NameEntries
  imports DentryProps
begin

text \<open>
  The entries that carry the characters of a long name: what the loops of \<open>init_ext_entry\<close> and \<open>init_name_entry\<close> put
  into an entry and what the extraction routines read from it, as lists of characters.
\<close>

section \<open>Characters in an entry\<close>

fun put_units :: "nat \<Rightarrow> dentry \<Rightarrow> u16 list \<Rightarrow> dentry" where
  "put_units off ep [] = ep"
| "put_units off ep (u # us) = put_units (off + 2) (SET16 ep off u) us"

definition units_at :: "nat \<Rightarrow> nat \<Rightarrow> dentry \<Rightarrow> u16 list" where
  "units_at n off ep = map (\<lambda>k. GET16 ep (off + 2 * k)) [0..<n]"

lemma units_at_0 [simp]: "units_at 0 off ep = []"
  by (simp add: units_at_def)

lemma length_units_at [simp]: "length (units_at n off ep) = n"
  by (simp add: units_at_def)

lemma units_at_Suc: "units_at (Suc n) off ep = GET16 ep off # units_at n (off + 2) ep"
  by (simp add: units_at_def upt_conv_Cons flip: map_Suc_upt del: upt_Suc)

lemma units_at_add: "units_at (m + n) off ep = units_at m off ep @ units_at n (off + 2 * m) ep"
  by (induction m arbitrary: off) (simp_all add: units_at_Suc add.commute)

lemma length_put_units [simp]: "length (put_units off ep us) = length ep"
  by (induction us arbitrary: off ep) auto

lemma nth_put_units: "j < off \<or> off + 2 * length us \<le> j \<Longrightarrow> put_units off ep us ! j = ep ! j"
  by (induction us arbitrary: off ep) (auto simp: entry_simps)

lemma get_put_units: "j + 2 \<le> off \<or> off + 2 * length us \<le> j \<Longrightarrow> GET16 (put_units off ep us) j = GET16 ep j"
  by (induction us arbitrary: off ep) (auto simp: entry_simps)

lemma units_put_units:
  "off + 2 * length us \<le> length ep \<Longrightarrow> n = length us \<Longrightarrow> units_at n off (put_units off ep us) = us"
  by (induction us arbitrary: off ep n) (auto simp: units_at_Suc get_put_units entry_simps)

lemma units_put_other:
  "off' + 2 * n \<le> off \<or> off + 2 * length us \<le> off' \<Longrightarrow> units_at n off' (put_units off ep us) = units_at n off' ep"
  by (auto simp: units_at_def get_put_units intro!: map_cong)

section \<open>What the initialisation writes\<close>

fun take_units :: "nat \<Rightarrow> u16 list \<times> bool \<Rightarrow> u16 list" where
  "take_units 0 st = []"
| "take_units (Suc n) (u, e) =
     (if e then 0xFFFF # take_units n (u, True)
      else hd u # take_units n (if hd u = 0 then (u, True) else (tl u, False)))"

fun rest_units :: "nat \<Rightarrow> u16 list \<times> bool \<Rightarrow> u16 list \<times> bool" where
  "rest_units 0 st = st"
| "rest_units (Suc n) (u, e) =
     rest_units n (if e then (u, True) else if hd u = 0 then (u, True) else (tl u, False))"

lemma length_take_units [simp]: "length (take_units n st) = n"
  by (induction n st rule: take_units.induct) auto

lemma init_units_eq: "init_units n off (ep, st) = (put_units off ep (take_units n st), rest_units n st)"
  by (induction n arbitrary: off ep st) (auto simp: Let_def split: prod.splits)

lemma take_units_add: "take_units (m + n) st = take_units m st @ take_units n (rest_units m st)"
  by (induction m st rule: take_units.induct) auto

lemma take_units_end: "take_units n (u, True) = replicate n 0xFFFF"
  by (induction n) auto

lemma take_units_padded:
  "0 \<in> set u \<or> n \<le> length u \<Longrightarrow> take_units n (u, False) = take n (takeWhile (\<lambda>c. c \<noteq> 0) u @ 0 # replicate n 0xFFFF)"
proof (induction n arbitrary: u)
  case (Suc n)
  then obtain c v where u: "u = c # v" by (cases u) auto
  show ?case
  proof (cases "c = 0")
    case False
    then have "take_units n (v, False) = take n (takeWhile (\<lambda>c. c \<noteq> 0) v @ 0 # replicate n 0xFFFF)"
      using Suc by (simp add: u)
    then show ?thesis
      using False by (auto simp: u take_Cons' Suc_diff_Suc simp flip: replicate_Suc)
  qed (simp add: u take_units_end take_Cons' flip: replicate_Suc)
qed simp

definition entry_units :: "dentry \<Rightarrow> u16 list" where
  "entry_units ep = units_at 5 1 ep @ units_at 6 14 ep @ units_at 2 28 ep"

lemma entry_units_init:
  assumes "length ep = 32"
  shows "entry_units (init_ext_entry ep ord chksum u) = take_units 13 (u, False)"
proof -
  define st1 where "st1 = rest_units 5 (u, False)"
  define st2 where "st2 = rest_units 6 st1"
  obtain ep0 where ep0: "length ep0 = 32"
    "init_ext_entry ep ord chksum u =
       put_units 28 (put_units 14 (put_units 1 ep0 (take_units 5 (u, False))) (take_units 6 st1)) (take_units 2 st2)"
  proof
    let ?ep0 = "SET16 ((fat_set_entry_type ep TYPE_EXTEND)[offsetof EXT_DENTRY_T ''order'' := word_of_int ord,
       offsetof EXT_DENTRY_T ''sysid'' := 0, offsetof EXT_DENTRY_T ''checksum'' := chksum]) (offsetof EXT_DENTRY_T ''start_clu'') 0"
    show "length ?ep0 = 32" using assms by (simp add: fat_set_entry_type_def Let_def)
    show "init_ext_entry ep ord chksum u =
       put_units 28 (put_units 14 (put_units 1 ?ep0 (take_units 5 (u, False))) (take_units 6 st1)) (take_units 2 st2)"
      by (simp add: init_ext_entry_def Let_def init_units_eq offsets st1_def st2_def)
  qed
  have "take_units 13 (u, False) = take_units 5 (u, False) @ take_units 6 st1 @ take_units 2 st2"
    using take_units_add [of 5 8 "(u, False)"] take_units_add [of 6 2 st1] by (simp add: st1_def st2_def)
  then show ?thesis
    by (simp add: ep0 entry_units_def units_put_units units_put_other)
qed

section \<open>What the extraction reads\<close>

lemma read_units_eq:
  "read_units n off ep =
     (let us = units_at n off ep
      in if 0 \<in> set us then (takeWhile (\<lambda>c. c \<noteq> 0) us @ [0], True) else (us, False))"
  by (induction n arbitrary: off) (auto simp: units_at_Suc Let_def)

lemma extract_eq:
  "extract_uni_name_from_ext_entry ep order =
     (let us = takeWhile (\<lambda>c. c \<noteq> 0) (take (if order < 20 then 13 else 9) (entry_units ep)) in (us @ [0], int (length us)))"
proof -
  have t: "take 4 (units_at 6 14 ep) = units_at 4 14 ep"
    by (simp add: units_at_def upt_rec)
  have n: "takeWhile (\<lambda>c. c \<noteq> 0) (us @ vs) = (if 0 \<in> set us then takeWhile (\<lambda>c. c \<noteq> 0) us else us @ takeWhile (\<lambda>c. c \<noteq> 0) vs)"
    for us vs :: "u16 list"
    by (auto simp: takeWhile_append)
  have m: "0 \<notin> set us \<Longrightarrow> takeWhile (\<lambda>c. c \<noteq> 0) us = us" for us :: "u16 list"
    by (auto simp: takeWhile_eq_all_conv)
  show ?thesis
    unfolding extract_uni_name_from_ext_entry_def offsets read_units_eq entry_units_def
    by (simp add: Let_def t n m)
qed

lemma takeWhile_take_padded:
  "takeWhile P (take n (takeWhile P u @ c # v)) = take n (takeWhile P u)" if "\<not> P c"
proof (induction u arbitrary: n)
  case Nil
  then show ?case using that by (cases n) auto
next
  case (Cons x u)
  then show ?case using that by (cases n) auto
qed

text \<open>An extended entry returns the characters it was initialised with.\<close>

lemma extract_init:
  assumes "length ep = 32" "0 \<in> set u \<or> 13 \<le> length u"
  shows "extract_uni_name_from_ext_entry (init_ext_entry ep ord chksum u) order =
    (let w = take (if order < 20 then 13 else 9) (takeWhile (\<lambda>c. c \<noteq> 0) u) in (w @ [0], int (length w)))"
  unfolding extract_eq entry_units_init [OF assms(1)] take_units_padded [OF assms(2)] take_take
  by (simp add: takeWhile_take_padded del: take_append)

lemma name_units_eq:
  "name_units n off ep u = put_units off ep (if 0 \<in> set (take n u) then takeWhile (\<lambda>c. c \<noteq> 0) u @ [0] else take n u)"
  if "0 \<in> set u \<or> n \<le> length u"
  using that
proof (induction n arbitrary: off ep u)
  case (Suc n)
  then show ?case by (cases u) (auto simp: Let_def)
qed simp

lemma extract_init_name:
  assumes "length ep = 32" "0 \<in> set u \<or> 15 \<le> length u"
  shows "extract_uni_name_from_name_entry (init_name_entry ep u) =
    (let w = take 15 (takeWhile (\<lambda>c. c \<noteq> 0) u) in (w @ [0], int (length w)))"
proof -
  define ep0 where "ep0 = ep[0 := 0xC1, 1 := 0]"
  have ep0: "length ep0 = 32" "init_name_entry ep u = name_units 15 2 ep0 u"
    using assms(1) by (simp_all add: init_name_entry_def exfat_set_entry_type_def offsets Let_def ep0_def)
  define us where "us = (if 0 \<in> set (take 15 u) then takeWhile (\<lambda>c. c \<noteq> 0) u @ [0] else take 15 u)"
  have len: "length us \<le> 15"
  proof (cases "0 \<in> set (take 15 u)")
    case True
    then obtain k where k: "k < 15" "k < length u" "u ! k = 0" by (auto simp: in_set_conv_nth)
    have "length (takeWhile (\<lambda>c. c \<noteq> 0) u) \<le> k"
      using k(2,3) nth_length_takeWhile set_takeWhileD by (metis (mono_tags) leI nth_mem takeWhile_nth)
    then show ?thesis using k(1) by (simp add: us_def True)
  qed (simp add: us_def)
  have e: "init_name_entry ep u = put_units 2 ep0 us"
    unfolding ep0(2) us_def by (rule name_units_eq [OF assms(2)])
  have "units_at (length us + (15 - length us)) 2 (put_units 2 ep0 us) =
      us @ units_at (15 - length us) (2 + 2 * length us) (put_units 2 ep0 us)"
    unfolding units_at_add using len ep0(1) by (simp add: units_put_units)
  then obtain rest where rest: "units_at 15 2 (put_units 2 ep0 us) = us @ rest" using len by simp
  show ?thesis
  proof (cases "0 \<in> set (take 15 u)")
    case True
    then have u: "us = takeWhile (\<lambda>c. c \<noteq> 0) u @ [0]" by (simp add: us_def)
    have w: "takeWhile (\<lambda>c. c \<noteq> 0) (takeWhile (\<lambda>c. c \<noteq> 0) u @ 0 # rest) = takeWhile (\<lambda>c. c \<noteq> 0) u"
      by (simp add: takeWhile_tail)
    show ?thesis
      using len unfolding extract_uni_name_from_name_entry_def e read_units_eq offsets rest
      by (simp add: u w Let_def)
  next
    case False
    then have u: "us = take 15 u" by (simp add: us_def)
    then have "length us = 15" using assms(2) False by (cases "15 \<le> length u") auto
    moreover have "rest = []" using arg_cong [OF rest, of length] \<open>length us = 15\<close> by simp
    moreover have "take 15 (takeWhile (\<lambda>c. c \<noteq> 0) u) = take 15 u"
    proof -
      have "takeWhile (\<lambda>c. c \<noteq> 0) (take 15 u @ drop 15 u) = take 15 u @ takeWhile (\<lambda>c. c \<noteq> 0) (drop 15 u)"
        using False by (intro takeWhile_append2) auto
      then show ?thesis using \<open>length us = 15\<close> u by simp
    qed
    ultimately show ?thesis
      using False unfolding extract_uni_name_from_name_entry_def e read_units_eq offsets rest
      by (simp add: u Let_def)
  qed
qed

section \<open>Whole names\<close>

lemma concat_chunks: "length w \<le> k * n \<Longrightarrow> concat (map (\<lambda>i. take k (drop (k * i) w)) [0..<n]) = w"
proof -
  have "concat (map (\<lambda>i. take k (drop (k * i) w)) [0..<n]) = take (k * n) w" for n
    by (induction n) (simp_all add: take_add [of "k * _"] add.commute [of k])
  then show "length w \<le> k * n \<Longrightarrow> ?thesis" by simp
qed

lemma takeWhile_drop_name:
  "0 \<notin> set w \<Longrightarrow> m \<le> length w \<Longrightarrow> takeWhile (\<lambda>c. c \<noteq> 0) (drop m (w @ 0 # junk)) = drop m w" for w :: "u16 list"
  using set_drop_subset [of m w] by (auto simp: takeWhile_tail takeWhile_append2)

lemma calc_num_entries_eq:
  assumes "0 < n" "n < 256"
  shows "fat_calc_num_entries (of_nat n) = int ((n - 1) div 13) + 2" "exfat_calc_num_entries (of_nat n) = int ((n - 1) div 15) + 3"
proof -
  have u: "uint (of_nat n :: u8) = int n" using assms(2) by (simp add: uint_nat unat_of_nat)
  then have z: "(of_nat n :: u8) \<noteq> 0" using assms(1) by (metis of_nat_0_less_iff order_less_irrefl uint_0_iff)
  have d: "(int n - 1) div k = int ((n - 1) div nat k)" if "0 \<le> k" for k
    using assms(1) that by (simp add: zdiv_int of_nat_diff)
  show "fat_calc_num_entries (of_nat n) = int ((n - 1) div 13) + 2" "exfat_calc_num_entries (of_nat n) = int ((n - 1) div 15) + 3"
    using z by (simp_all add: fat_calc_num_entries_def exfat_calc_num_entries_def u d)
qed

lemma concat_pieces:
  assumes "\<And>i. i < n \<Longrightarrow> f i = take k (drop (k * i) w)" "length w \<le> k * n"
  shows "concat (map f [0..<n]) = w"
proof -
  have "map f [0..<n] = map (\<lambda>i. take k (drop (k * i) w)) [0..<n]" using assms(1) by simp
  then show ?thesis using concat_chunks [OF assms(2)] by (simp only:)
qed

lemma last_chunk: "0 < n \<Longrightarrow> i \<le> (n - 1) div k \<Longrightarrow> k * i \<le> n" "0 < n \<Longrightarrow> 0 < k \<Longrightarrow> n \<le> k * Suc ((n - 1) div k)" for n k :: nat
proof -
  assume "0 < n" "i \<le> (n - 1) div k"
  then have "k * i \<le> k * ((n - 1) div k)" by simp
  also have "\<dots> \<le> n - 1" by simp
  finally show "k * i \<le> n" by simp
next
  assume "0 < n" "0 < k"
  then show "n \<le> k * Suc ((n - 1) div k)"
    using dividend_less_times_div [of k "n - 1"] by simp
qed

text \<open>
  C11: The entries of a VFAT name carry it without loss.  For every name of 1 to 255 characters, \<open>fat_calc_num_entries\<close>
  reserves exactly as many entries as its characters need, and initialising the extended entries with consecutive pieces
  of 13 characters (as \<open>fat_init_ext_entry\<close> does) and extracting them again in order (as
  \<open>fat_get_uni_name_from_ext_entry\<close> does) gives the name back, whatever the entries held before and whatever follows the
  terminator; the early end of the 20th entry cuts nothing off.
\<close>

theorem vfat_name_roundtrip:
  assumes "\<forall>i. length (eps i) = 32" "w \<noteq> []" "length w < 256" "0 \<notin> set w"
  shows "concat (map (\<lambda>i. case extract_uni_name_from_ext_entry
        (init_ext_entry (eps i) (orders i) chksum (drop (13 * i) (w @ 0 # junk))) (int i + 1) of (us, len) \<Rightarrow> take (nat len) us)
      [0..<nat (fat_calc_num_entries (of_nat (length w))) - 1]) = w"
proof -
  define n where "n = Suc ((length w - 1) div 13)"
  have n: "nat (fat_calc_num_entries (of_nat (length w))) - 1 = n"
    using assms(2,3) by (simp add: calc_num_entries_eq n_def nat_add_distrib)
  have piece: "(case extract_uni_name_from_ext_entry
        (init_ext_entry (eps i) (orders i) chksum (drop (13 * i) (w @ 0 # junk))) (int i + 1) of (us, len) \<Rightarrow> take (nat len) us) =
      take 13 (drop (13 * i) w)" if i: "i < n" for i
  proof -
    have le: "13 * i \<le> length w" using i assms(2) last_chunk(1) [of "length w" i 13] by (simp add: n_def)
    then have "0 \<in> set (drop (13 * i) (w @ 0 # junk))" by simp
    moreover have "take (if int i + 1 < 20 then 13 else 9) (drop (13 * i) w) = take 13 (drop (13 * i) w)"
      using assms(3) by (cases "int i + 1 < 20") auto
    ultimately show ?thesis
      using assms(1) by (simp add: extract_init min_def Let_def takeWhile_drop_name [OF assms(4) le] del: drop_append)
  qed
  show ?thesis
    unfolding n by (rule concat_pieces [OF piece]) (use assms(2) last_chunk(2) [of "length w" 13] in \<open>simp_all add: n_def\<close>)
qed

theorem vfat_name_roundtrip_witness:
  "concat (map (\<lambda>i. case extract_uni_name_from_ext_entry
        (init_ext_entry (replicate 32 0xAA) (int i + 1) 7 (drop (13 * i) (replicate 255 0x41 @ 0 # [1, 2, 3]))) (int i + 1)
      of (us, len) \<Rightarrow> take (nat len) us) [0..<nat (fat_calc_num_entries (of_nat (length (replicate 255 (0x41 :: u16))))) - 1])
   = replicate 255 0x41"
  by (rule vfat_name_roundtrip [where orders = "\<lambda>i. int i + 1" and eps = "\<lambda>_. replicate 32 0xAA"]) auto

text \<open>
  C12: The name entries of an exFAT file carry its name without loss: the same with pieces of 15 characters, the entries
  after the file and the stream entry, \<open>init_name_entry\<close> and \<open>extract_uni_name_from_name_entry\<close>.
\<close>

theorem exfat_name_roundtrip:
  assumes "\<forall>i. length (eps i) = 32" "w \<noteq> []" "length w < 256" "0 \<notin> set w"
  shows "concat (map (\<lambda>i. case extract_uni_name_from_name_entry (init_name_entry (eps i) (drop (15 * i) (w @ 0 # junk)))
        of (us, len) \<Rightarrow> take (nat len) us)
      [0..<nat (exfat_calc_num_entries (of_nat (length w))) - 2]) = w"
proof -
  define n where "n = Suc ((length w - 1) div 15)"
  have n: "nat (exfat_calc_num_entries (of_nat (length w))) - 2 = n"
    using assms(2,3) by (simp add: calc_num_entries_eq n_def nat_add_distrib)
  have piece: "(case extract_uni_name_from_name_entry (init_name_entry (eps i) (drop (15 * i) (w @ 0 # junk)))
        of (us, len) \<Rightarrow> take (nat len) us) = take 15 (drop (15 * i) w)" if i: "i < n" for i
  proof -
    have le: "15 * i \<le> length w" using i assms(2) last_chunk(1) [of "length w" i 15] by (simp add: n_def)
    then have "0 \<in> set (drop (15 * i) (w @ 0 # junk))" by simp
    then show ?thesis
      using assms(1) by (simp add: extract_init_name min_def Let_def takeWhile_drop_name [OF assms(4) le] del: drop_append)
  qed
  show ?thesis
    unfolding n by (rule concat_pieces [OF piece]) (use assms(2) last_chunk(2) [of "length w" 15] in \<open>simp_all add: n_def\<close>)
qed

theorem exfat_name_roundtrip_witness:
  "concat (map (\<lambda>i. case extract_uni_name_from_name_entry
        (init_name_entry (replicate 32 0xAA) (drop (15 * i) (replicate 31 0x41 @ 0 # []))) of (us, len) \<Rightarrow> take (nat len) us)
      [0..<nat (exfat_calc_num_entries (of_nat (length (replicate 31 (0x41 :: u16))))) - 2])
   = replicate 31 0x41"
  by (rule exfat_name_roundtrip [where eps = "\<lambda>_. replicate 32 0xAA"]) auto

end
