(* ===== verification/Upcase.thy ===== *)
theory Upcase
  imports Dentry AllocBitmap
begin

text \<open>
  The up-case table of a volume: its two-level array \<open>vol_utbl\<close> (\<open>[]\<close> is \<open>NULL\<close>), \<open>nls_upper\<close>, and the two
  routines that decompress a table from the volume or from the driver's default.  The default table \<open>uni_upcase\<close> is an
  argument.
\<close>

section \<open>Memory\<close>

text \<open>\<open>kmalloc\<close> succeeds as the oracle decides.\<close>

definition kmalloc :: "sb \<Rightarrow> sb \<times> bool" where
  "kmalloc s = (tick s, mem_ok s (io_clock s))"

section \<open>The table\<close>

abbreviation (input) UTBL_ROW_COUNT :: nat where "UTBL_ROW_COUNT \<equiv> 256"
abbreviation (input) UTBL_COL_COUNT :: nat where "UTBL_COL_COUNT \<equiv> 256"

definition get_col_index :: "u16 \<Rightarrow> nat" where
  "get_col_index i = unat (drop_bit 8 i)"

definition get_row_index :: "u16 \<Rightarrow> nat" where
  "get_row_index i = unat (i AND NOT 0xFF00)"

definition nls_upper :: "sb \<Rightarrow> u16 \<Rightarrow> u16" where
  "nls_upper s a =
     (if casesensitive s then a
      else if vol_utbl s \<noteq> []
      then (case vol_utbl s ! get_col_index a of None \<Rightarrow> a | Some row \<Rightarrow> row ! get_row_index a)
      else a)"

definition free_upcase_table :: "sb \<Rightarrow> sb" where
  "free_upcase_table s = (if vol_utbl s = [] then kernel_oops s else s\<lparr>vol_utbl := []\<rparr>)"

section \<open>Decompression\<close>

text \<open>The allocation of a row, filled with the identity, and the store of an entry.\<close>

definition upcase_row :: "nat \<Rightarrow> u16 list" where
  "upcase_row col = map (\<lambda>j. push_bit 8 (of_nat col) OR of_nat j) [0..<UTBL_ROW_COUNT]"

definition put_upcase :: "sb \<Rightarrow> u16 \<Rightarrow> u16 \<Rightarrow> sb \<times> ffs" where
  "put_upcase s index uni =
     (let col = get_col_index index;
          (s, ret) =
            (if vol_utbl s ! col = None then
               (case kmalloc s of
                  (s, False) \<Rightarrow> (s, FFS_MEMORYERR)
                | (s, True) \<Rightarrow> (s\<lparr>vol_utbl := (vol_utbl s)[col := Some (upcase_row col)]\<rparr>, FFS_SUCCESS))
             else (s, FFS_SUCCESS))
      in if ret \<noteq> FFS_SUCCESS then (s, ret)
         else (s\<lparr>vol_utbl := (vol_utbl s)[col := map_option (\<lambda>row. row[get_row_index index := uni]) (vol_utbl s ! col)]\<rparr>,
               FFS_SUCCESS))"

text \<open>One unit of the compressed table: the state is \<open>index\<close> and \<open>skip\<close>.\<close>

definition upcase_unit :: "u16 \<Rightarrow> sb \<Rightarrow> u32 \<Rightarrow> bool \<Rightarrow> sb \<times> u32 \<times> bool \<times> ffs" where
  "upcase_unit uni s index skip =
     (if skip then (s, index + ucast uni, False, FFS_SUCCESS)
      else if ucast uni = index then (s, index + 1, False, FFS_SUCCESS)
      else if uni = 0xFFFF then (s, index, True, FFS_SUCCESS)
      else case put_upcase s (ucast index) uni of
             (s1, ret) \<Rightarrow> if ret \<noteq> FFS_SUCCESS then (s1, index, False, ret) else (s1, index + 1, False, FFS_SUCCESS))"

definition checksum_byte :: "u32 \<Rightarrow> u8 \<Rightarrow> u32" where
  "checksum_byte checksum b = (if checksum AND 1 \<noteq> 0 then 0x80000000 else 0) + drop_bit 1 checksum + ucast b"

text \<open>The loop over the units of a sector, \<open>n\<close> of which remain.\<close>

fun upcase_sector :: "nat \<Rightarrow> nat \<Rightarrow> u8 list \<Rightarrow> sb \<Rightarrow> u32 \<Rightarrow> bool \<Rightarrow> u32 \<Rightarrow> sb \<times> u32 \<times> bool \<times> u32 \<times> ffs" where
  "upcase_sector 0 i b s index skip checksum = (s, index, skip, checksum, FFS_SUCCESS)"
| "upcase_sector (Suc n) i b s index skip checksum =
     (if \<not> index \<le> 0xFFFF then (s, index, skip, checksum, FFS_SUCCESS)
      else let uni = GET16 b i;
               checksum = checksum_byte (checksum_byte checksum (b ! i)) (b ! (i + 1))
           in case upcase_unit uni s index skip of
                (s1, index, skip, ret) \<Rightarrow>
                  if ret \<noteq> FFS_SUCCESS then (s1, index, skip, checksum, ret)
                  else upcase_sector n (i + 2) b s1 index skip checksum)"

fun upcase_sectors :: "nat \<Rightarrow> u32 \<Rightarrow> sb \<Rightarrow> u32 option \<Rightarrow> u32 \<Rightarrow> bool \<Rightarrow> u32 \<Rightarrow> sb \<times> u32 \<times> u32 \<times> ffs" where
  "upcase_sectors 0 sector s tmp_bh index skip checksum = (s, index, checksum, FFS_SUCCESS)"
| "upcase_sectors (Suc n) sector s tmp_bh index skip checksum =
     (case sector_read s sector tmp_bh True of
        (s1, tmp_bh, ret) \<Rightarrow>
          if ret \<noteq> FFS_SUCCESS then (s1, index, checksum, ret)
          else case tmp_bh of
                 None \<Rightarrow> (kernel_oops s1, index, checksum, FFS_ERROR)
               | Some bh \<Rightarrow>
                   (case upcase_sector (nat ((sector_size s1 + 1) div 2)) 0 (blk s1 bh) s1 index skip checksum of
                      (s2, index, skip, checksum, ret) \<Rightarrow>
                        if ret \<noteq> FFS_SUCCESS then (s2, index, checksum, ret)
                        else upcase_sectors n (sector + 1) s2 tmp_bh index skip checksum))"

definition load_upcase_sectors :: "sb \<Rightarrow> u32 \<Rightarrow> u32 \<Rightarrow> u32 \<Rightarrow> sb \<times> ffs" where
  "load_upcase_sectors s sector nsec utbl_checksum =
     (case kmalloc s of
        (s1, False) \<Rightarrow> (s1\<lparr>vol_utbl := []\<rparr>, FFS_MEMORYERR)
      | (s1, True) \<Rightarrow>
          (case upcase_sectors (unat (nsec + sector) - unat sector) sector
                  (s1\<lparr>vol_utbl := replicate UTBL_COL_COUNT None\<rparr>) None 0 False 0 of
             (s2, index, checksum, ret) \<Rightarrow>
               if ret \<noteq> FFS_SUCCESS then (free_upcase_table s2, ret)
               else if index \<ge> 0xFFFF \<and> utbl_checksum = checksum then (s2, FFS_SUCCESS)
               else (free_upcase_table s2, FFS_ERROR)))"

fun default_upcase_loop :: "nat \<Rightarrow> nat \<Rightarrow> u8 list \<Rightarrow> sb \<Rightarrow> u32 \<Rightarrow> bool \<Rightarrow> sb \<times> u32 \<times> ffs" where
  "default_upcase_loop 0 i uni_upcase s index skip = (s, index, FFS_ERROR)"
| "default_upcase_loop (Suc n) i uni_upcase s index skip =
     (if \<not> index \<le> 0xFFFF then (s, index, FFS_ERROR)
      else case upcase_unit (GET16 uni_upcase i) s index skip of
             (s1, index, skip, ret) \<Rightarrow>
               if ret \<noteq> FFS_SUCCESS then (s1, index, ret)
               else default_upcase_loop n (i + 2) uni_upcase s1 index skip)"

abbreviation (input) NUM_UPCASE :: nat where "NUM_UPCASE \<equiv> 2918"

definition load_default_upcase_table :: "u8 list \<Rightarrow> sb \<Rightarrow> sb \<times> ffs" where
  "load_default_upcase_table uni_upcase s =
     (case kmalloc s of
        (s1, False) \<Rightarrow> (s1\<lparr>vol_utbl := []\<rparr>, FFS_MEMORYERR)
      | (s1, True) \<Rightarrow>
          (case default_upcase_loop NUM_UPCASE 0 uni_upcase (s1\<lparr>vol_utbl := replicate UTBL_COL_COUNT None\<rparr>) 0 False of
             (s2, index, ret) \<Rightarrow>
               if ret \<noteq> FFS_MEMORYERR \<and> index \<ge> 0xFFFF then (s2, FFS_SUCCESS)
               else (free_upcase_table s2, ret)))"

end
