(* ===== verification/Names.thy ===== *)
theory Names
  imports Upcase
begin

text \<open>
  Name conversion, \<open>exfat_nls.c\<close>.  The kernel's character set tables and its UTF-8 conversion are not part of the
  driver: a table \<open>struct nls_table *\<close> is the record \<open>nls_table\<close> of its two functions (\<open>char2uni\<close> takes the bytes from
  \<open>ch\<close> on; both return their length, negative on failure), and \<open>nls_io\<close> is \<open>None\<close> where the code has \<open>NULL\<close>.

  A character array is a list; \<open>char_at\<close> reads it, and reads the terminator outside.  The routines only reach the end of
  an array without a terminator in the cases the text names.
\<close>

record nls_table =
  char2uni :: "u8 list \<Rightarrow> int \<times> u16"
  uni2char :: "u16 \<Rightarrow> int \<times> u8 list"
  charset_utf8 :: bool

abbreviation (input) MAX_NAME_LENGTH :: nat where "MAX_NAME_LENGTH \<equiv> 256"
abbreviation (input) DOS_NAME_LENGTH :: nat where "DOS_NAME_LENGTH \<equiv> 11"

record DOS_NAME_T =
  dos_name :: "u8 list"
  name_case :: u8

record UNI_NAME_T =
  uni_name :: "u16 list"
  name_hash :: u16
  name_len :: u8

definition char_at :: "'a::zero list \<Rightarrow> nat \<Rightarrow> 'a" where
  "char_at xs i = (if i < length xs then xs ! i else 0)"

abbreviation (input) SPACE :: "'a::len word" where "SPACE \<equiv> 0x20"
abbreviation (input) PERIOD :: "'a::len word" where "PERIOD \<equiv> 0x2E"

text \<open>
  \<open>UNI_CUR_DIR_NAME\<close> and \<open>UNI_PAR_DIR_NAME\<close>.  The string literals of the code end one byte short of the 16-bit
  terminator, which is read past their end; here it is present.
\<close>

definition UNI_CUR_DIR_NAME :: "u16 list" where "UNI_CUR_DIR_NAME = [PERIOD, 0]"
definition UNI_PAR_DIR_NAME :: "u16 list" where "UNI_PAR_DIR_NAME = [PERIOD, PERIOD, 0]"

definition bad_dos_chars :: "u16 list" where
  "bad_dos_chars = [0x002B, 0x002C, 0x003B, 0x003D, 0x005B, 0x005D, 0xFF0B, 0xFF0C, 0xFF1B, 0xFF1D, 0xFF3B, 0xFF3D, 0]"

definition bad_uni_chars :: "u16 list" where
  "bad_uni_chars = [0x0022, 0x002A, 0x002F, 0x003A, 0x003C, 0x003E, 0x003F, 0x005C, 0x007C, 0]"

section \<open>Searching and comparing\<close>

text \<open>The result \<open>Some k\<close> is the pointer \<open>k\<close> characters further, \<open>None\<close> is \<open>0\<close>.\<close>

fun nls_wstrchr :: "u16 list \<Rightarrow> u16 \<Rightarrow> nat option" where
  "nls_wstrchr [] wchar = None"
| "nls_wstrchr (c # str) wchar =
     (if c = 0 then None else if c = wchar then Some 1 else map_option Suc (nls_wstrchr str wchar))"

text \<open>The kernel's \<open>strncmp\<close> on byte arrays, as far as its callers use it: whether the result is 0.\<close>

fun strneq :: "nat \<Rightarrow> u8 list \<Rightarrow> u8 list \<Rightarrow> bool" where
  "strneq 0 a b = True"
| "strneq (Suc n) a b =
     (char_at a 0 = char_at b 0 \<and> (char_at a 0 = 0 \<or> strneq n (tl a) (tl b)))"

definition nls_dosname_cmp :: "u8 list \<Rightarrow> u8 list \<Rightarrow> bool" where
  "nls_dosname_cmp a b \<longleftrightarrow> \<not> strneq DOS_NAME_LENGTH a b"

fun uniname_cmp_loop :: "nat \<Rightarrow> sb \<Rightarrow> u16 list \<Rightarrow> u16 list \<Rightarrow> bool" where
  "uniname_cmp_loop 0 s a b = False"
| "uniname_cmp_loop (Suc n) s a b =
     (if nls_upper s (char_at a 0) \<noteq> nls_upper s (char_at b 0) then True
      else if char_at a 0 = 0 then False
      else uniname_cmp_loop n s (tl a) (tl b))"

definition nls_uniname_cmp :: "sb \<Rightarrow> u16 list \<Rightarrow> u16 list \<Rightarrow> bool" where
  "nls_uniname_cmp s a b = uniname_cmp_loop MAX_NAME_LENGTH s a b"

section \<open>Single characters\<close>

text \<open>The result: the character, the number of bytes it takes, and whether the conversion failed (\<open>*lossy = TRUE\<close>).\<close>

definition convert_ch_to_uni :: "nls_table \<Rightarrow> u8 list \<Rightarrow> u16 \<times> int \<times> bool" where
  "convert_ch_to_uni nls ch =
     (if char_at ch 0 < 0x80 then (ucast (char_at ch 0), 1, False)
      else case char2uni nls ch of
             (len, uni) \<Rightarrow> if len < 0 then (0x5F, if charset_utf8 nls then 1 else 2, True) else (uni, len, False))"

definition convert_uni_to_ch :: "nls_table \<Rightarrow> u16 \<Rightarrow> u8 list \<times> int \<times> bool" where
  "convert_uni_to_ch nls uni =
     (if uni < 0x80 then ([ucast uni], 1, False)
      else case uni2char nls uni of
             (len, ch) \<Rightarrow> if len < 0 then ([0x5F], 1, True) else (ch, len, False))"

section \<open>Long name to short name\<close>

text \<open>The last embedded period: the loop over \<open>p\<close> up to the terminator.\<close>

fun last_period_loop :: "u16 list \<Rightarrow> nat \<Rightarrow> nat option \<Rightarrow> nat option" where
  "last_period_loop [] p lp = lp"
| "last_period_loop (c # cs) p lp =
     (if c = 0 then lp else last_period_loop cs (Suc p) (if c = PERIOD then Some p else lp))"

text \<open>
  The main loop: \<open>u\<close> is the index of \<open>uniname\<close>, \<open>i\<close> that of the byte in \<open>dosname\<close>.  The result is the short name, the
  final \<open>u\<close>, \<open>lower\<close>, \<open>upper\<close> and \<open>lossy\<close>.
\<close>

definition skip_extension :: "nat option \<Rightarrow> nat \<Rightarrow> nat \<Rightarrow> bool \<Rightarrow> nat \<times> bool" where
  "skip_extension last_period i u lossy =
     (case last_period of
        Some p \<Rightarrow> if i = 8 \<and> u \<le> p then (p + 1, lossy \<or> u < p) else (u, lossy)
      | None \<Rightarrow> (u, lossy))"

definition put_bytes :: "u8 list \<Rightarrow> nat \<Rightarrow> u8 list \<Rightarrow> u8 list" where
  "put_bytes dst i bs = fold (\<lambda>j d. d[i + j := bs ! j]) [0..<length bs] dst"

function dosname_loop :: "nls_table \<Rightarrow> u16 list \<Rightarrow> nat option \<Rightarrow> nat \<Rightarrow> nat \<Rightarrow> u8 list \<Rightarrow> u8 \<Rightarrow> u8 \<Rightarrow> bool
    \<Rightarrow> u8 list \<times> nat \<times> u8 \<times> u8 \<times> bool" where
  "dosname_loop nls name last_period i u0 dosname lower upper lossy0 =
     (if \<not> i < DOS_NAME_LENGTH then (dosname, u0, lower, upper, lossy0)
      else if i = 8 \<and> last_period = None then (dosname, u0, lower, upper, lossy0)
      else let (u, lossy) = skip_extension last_period i u0 lossy0; c = char_at name u
           in if c = 0 then (dosname, u, lower, upper, lossy)
              else if c = SPACE then dosname_loop nls name last_period i (u + 1) dosname lower upper True
              else if c = PERIOD then
                (if (case last_period of Some p \<Rightarrow> u < p | None \<Rightarrow> False)
                 then dosname_loop nls name last_period i (u + 1) dosname lower upper True
                 else dosname_loop nls name last_period 8 (u + 1) dosname lower upper lossy)
              else if nls_wstrchr bad_dos_chars c \<noteq> None
              then dosname_loop nls name last_period (i + 1) (u + 1) (dosname[i := 0x5F]) lower upper True
              else let (buf, len, l) = convert_uni_to_ch nls c; lossy = (lossy \<or> l)
                   in if len > 1 then
                        (if i \<ge> 8 \<and> i + nat len > DOS_NAME_LENGTH then (dosname, u, lower, upper, lossy)
                         else if i < 8 \<and> i + nat len > 8
                         then dosname_loop nls name last_period 8 u dosname lower upper lossy
                         else dosname_loop nls name last_period (i + nat len) (u + 1)
                                (put_bytes dosname i (take (nat len) buf)) 0xFF upper lossy)
                      else let b = char_at buf 0; bit = (if i < 8 then 0x08 else 0x10)
                           in if 0x61 \<le> b \<and> b \<le> 0x7A
                              then dosname_loop nls name last_period (i + 1) (u + 1) (dosname[i := b - 0x20]) (lower OR bit) upper lossy
                              else if 0x41 \<le> b \<and> b \<le> 0x5A
                              then dosname_loop nls name last_period (i + 1) (u + 1) (dosname[i := b]) lower (upper OR bit) lossy
                              else dosname_loop nls name last_period (i + 1) (u + 1) (dosname[i := b]) lower upper lossy)"
  by pat_completeness auto

lemma skip_extension_ge: "skip_extension lp i u lossy = (u', lossy') \<Longrightarrow> u \<le> u'"
  by (auto simp: skip_extension_def split: option.splits if_splits)

lemma char_at_bound: "char_at xs i \<noteq> 0 \<Longrightarrow> i < length xs"
  by (auto simp: char_at_def split: if_splits)

lemma char_at_sep: "char_at xs i = SPACE \<Longrightarrow> i < length xs" "char_at xs i = PERIOD \<Longrightarrow> i < length xs" for xs :: "u16 list"
  by (auto simp: char_at_def split: if_splits)

termination dosname_loop
  by (relation "measure (\<lambda>(nls, name, last_period, i, u, dosname, lower, upper, lossy).
        (length name - u) + (if i < 8 then 1 else 0))")
    (auto dest!: skip_extension_ge [OF sym] char_at_bound dest: char_at_sep split: if_splits)

declare dosname_loop.simps [simp del]

definition nls_uniname_to_dosname :: "nls_table \<Rightarrow> sb \<Rightarrow> UNI_NAME_T \<Rightarrow> DOS_NAME_T \<times> bool" where
  "nls_uniname_to_dosname nls s p_uniname =
     (let blank = replicate DOS_NAME_LENGTH SPACE; name = uni_name p_uniname
      in if \<not> nls_uniname_cmp s name UNI_CUR_DIR_NAME
         then (\<lparr>dos_name = blank[0 := PERIOD], name_case = 0x0\<rparr>, False)
         else if \<not> nls_uniname_cmp s name UNI_PAR_DIR_NAME
         then (\<lparr>dos_name = blank[0 := PERIOD, 1 := PERIOD], name_case = 0x0\<rparr>, False)
         else case dosname_loop nls name (last_period_loop name 0 None) 0 0 blank 0 0 False of
                (dosname, u, lower, upper, lossy) \<Rightarrow>
                  let dosname = (if dosname ! 0 = 0xE5 then dosname[0 := 0x05] else dosname);
                      lossy = (lossy \<or> char_at name u \<noteq> 0)
                  in (\<lparr>dos_name = dosname, name_case = (if upper AND lower \<noteq> 0 then 0xFF else lower)\<rparr>, lossy))"

section \<open>Short name to long name\<close>

text \<open>One of the two loops over the parts of a short name: the bytes before the first space, in lower case if the flag says so.\<close>

definition lower_byte :: "bool \<Rightarrow> u8 \<Rightarrow> u8" where
  "lower_byte flag b = (if 0x41 \<le> b \<and> b \<le> 0x5A \<and> flag then b + 0x20 else b)"

definition dos_part :: "u8 list \<Rightarrow> bool \<Rightarrow> u8 list" where
  "dos_part bs flag = map (lower_byte flag) (takeWhile (\<lambda>b. b \<noteq> SPACE) bs)"

definition dosname_buf :: "DOS_NAME_T \<Rightarrow> u8 list" where
  "dosname_buf p_dosname =
     (let name = dos_name p_dosname; c = name_case p_dosname;
          e5 = (if name ! 0 = 0x05 then 1 else 0 :: nat)
      in (if name ! 0 = 0x05 then [0xE5] else [])
         @ dos_part (drop e5 (take 8 name)) (c AND 0x08 \<noteq> 0)
         @ (if name ! 8 \<noteq> SPACE then [0x2E] else [])
         @ dos_part (drop 8 (take DOS_NAME_LENGTH name)) (c AND 0x10 \<noteq> 0)
         @ [0])"

text \<open>
  The loops that convert a byte string: at most \<open>n\<close> more characters, \<open>i\<close> is the index in the bytes.  The result is the
  list of characters, the final \<open>i\<close>, and whether a conversion failed.  When a conversion fails at the last byte of the
  string and the character set is not UTF-8, the code steps over the terminator and goes on in what follows it; here
  this reads as the terminator.
\<close>

fun chars_loop :: "nat \<Rightarrow> nls_table \<Rightarrow> u8 list \<Rightarrow> nat \<Rightarrow> u16 list \<times> nat \<times> bool" where
  "chars_loop 0 nls b i = ([], i, False)"
| "chars_loop (Suc n) nls b i =
     (if char_at b i = 0 then ([], i, False)
      else case convert_ch_to_uni nls (drop i b) of
             (uni, len, l) \<Rightarrow>
               (case chars_loop n nls b (i + nat len) of (us, i', l') \<Rightarrow> (uni # us, i', l \<or> l')))"

definition store_name :: "u16 list \<Rightarrow> u16 list \<Rightarrow> u16 list" where
  "store_name name us = splice_at name 0 (us @ [0])"

definition nls_dosname_to_uniname :: "nls_table \<Rightarrow> UNI_NAME_T \<Rightarrow> DOS_NAME_T \<Rightarrow> UNI_NAME_T" where
  "nls_dosname_to_uniname nls p_uniname p_dosname =
     (case chars_loop (MAX_NAME_LENGTH - 1) nls (dosname_buf p_dosname) 0 of
        (us, _) \<Rightarrow> p_uniname\<lparr>uni_name := store_name (uni_name p_uniname) us\<rparr>)"

section \<open>Long name and C string\<close>

text \<open>
  \<open>utf16s_to_utf8s\<close> and \<open>utf8s_to_utf16s\<close> of the kernel are the arguments \<open>to_utf8\<close> and \<open>to_utf16\<close>.  The second gives the
  units that it writes and its result, the number of units or a negative error when the bytes are not UTF-8.
\<close>

fun cstring_loop :: "nat \<Rightarrow> nls_table \<Rightarrow> u16 list \<Rightarrow> u8 list" where
  "cstring_loop 0 nls us = [0]"
| "cstring_loop (Suc n) nls us =
     (if char_at us 0 = 0 then [0]
      else case convert_uni_to_ch nls (char_at us 0) of
             (buf, len, _) \<Rightarrow> (if len > 1 then take (nat len) buf else [char_at buf 0]) @ cstring_loop n nls (tl us))"

definition nls_uniname_to_cstring :: "(u16 list \<Rightarrow> u8 list) \<Rightarrow> nls_table option \<Rightarrow> UNI_NAME_T \<Rightarrow> u8 list" where
  "nls_uniname_to_cstring to_utf8 nls_io p_uniname =
     (case nls_io of
        None \<Rightarrow> to_utf8 (uni_name p_uniname) @ [0]
      | Some nls \<Rightarrow> cstring_loop (MAX_NAME_LENGTH - 1) nls (uni_name p_uniname))"

text \<open>
  The two loops that strip trailing characters.  On a string without other characters the code also reads the byte
  before the string; the result does not depend on it.
\<close>

definition strip_trailing :: "u8 \<Rightarrow> u8 list \<Rightarrow> u8 list" where
  "strip_trailing c str = rev (dropWhile (\<lambda>b. b = c) (rev str))"

definition strip_name :: "u8 list \<Rightarrow> u8 list" where
  "strip_name str =
     (let str = strip_trailing SPACE str
      in if str \<noteq> [PERIOD] \<and> str \<noteq> [PERIOD, PERIOD] then strip_trailing PERIOD str else str)"

definition upname_bytes :: "sb \<Rightarrow> u16 list \<Rightarrow> u8 list" where
  "upname_bytes s us = concat (map (\<lambda>u. [ucast (nls_upper s u), ucast (drop_bit 8 (nls_upper s u))]) us)"

definition bad_unit :: "u16 \<Rightarrow> bool" where
  "bad_unit u \<longleftrightarrow> u < 0x20 \<or> nls_wstrchr bad_uni_chars u \<noteq> None"

text \<open>
  After an error of \<open>utf8s_to_utf16s\<close> the name has the units written so far, the length zero and the hash of no units; the terminator
  is then written in front of the name, outside of the buffer that is modelled.
\<close>

definition nls_cstring_to_uniname ::
    "(u8 list \<Rightarrow> u16 list \<times> int) \<Rightarrow> nls_table option \<Rightarrow> sb \<Rightarrow> UNI_NAME_T \<Rightarrow> u8 list \<Rightarrow> UNI_NAME_T \<times> bool" where
  "nls_cstring_to_uniname to_utf16 nls_io s p_uniname p_cstring =
     (let str = strip_name (takeWhile (\<lambda>b. b \<noteq> 0) p_cstring);
          lossy = (str = []);
          (us, name, lossy) =
            (case nls_io of
               None \<Rightarrow>
                 (case to_utf16 str of
                    (out, i) \<Rightarrow>
                      if i < 0 then ([], splice_at (uni_name p_uniname) 0 out, lossy)
                      else (take (nat i) out, (splice_at (uni_name p_uniname) 0 out)[nat i := 0], lossy))
             | Some nls \<Rightarrow>
                 (case chars_loop (MAX_NAME_LENGTH - 1) nls (str @ [0]) 0 of
                    (us, i, l) \<Rightarrow>
                      (us, store_name (uni_name p_uniname) us, lossy \<or> l \<or> list_ex bad_unit us \<or> char_at str i \<noteq> 0)))
      in (p_uniname\<lparr>uni_name := name, name_len := of_nat (length us),
            name_hash := calc_checksum_2byte (upname_bytes s us) (2 * length us) 0 CS_DEFAULT\<rparr>, lossy))"

end
