(* ===== verification/UpcaseProps.thy ===== *)
theory UpcaseProps
  imports Upcase NameEntries CacheOps
begin

text \<open>
  Decompression of the up-case table.  A compressed table is a sequence of 16-bit units; \<open>expand\<close> says which function on
  characters it denotes, without the two-level array, the sectors or the memory the code deals with.  Both loaders
  implement it.
\<close>

section \<open>What a compressed table denotes\<close>

text \<open>The state: the next character, whether a run length follows, and the function so far.\<close>

type_synonym expansion = "u32 \<times> bool \<times> (u16 \<Rightarrow> u16)"

definition expand_unit :: "u16 \<Rightarrow> expansion \<Rightarrow> expansion" where
  "expand_unit u st =
     (case st of (idx, skip, f) \<Rightarrow>
        if skip then (idx + ucast u, False, f)
        else if ucast u = idx then (idx + 1, False, f)
        else if u = 0xFFFF then (idx, True, f)
        else (idx + 1, False, f(ucast idx := u)))"

fun expand :: "u16 list \<Rightarrow> expansion \<Rightarrow> expansion" where
  "expand [] st = st"
| "expand (u # us) st = (if fst st \<le> 0xFFFF then expand us (expand_unit u st) else st)"

fun units_used :: "u16 list \<Rightarrow> expansion \<Rightarrow> nat" where
  "units_used [] st = 0"
| "units_used (u # us) st = (if fst st \<le> 0xFFFF then Suc (units_used us (expand_unit u st)) else 0)"

lemma expand_done: "\<not> fst st \<le> 0xFFFF \<Longrightarrow> expand us st = st \<and> units_used us st = 0"
  by (cases us) auto

lemma expand_append: "expand (us @ vs) st = expand vs (expand us st)"
  by (induction us st rule: expand.induct) (auto simp: expand_done)

lemma units_used_append:
  "units_used (us @ vs) st = (if fst (expand us st) \<le> 0xFFFF then length us else units_used us st) + units_used vs (expand us st)"
  by (induction us st rule: units_used.induct) (auto simp: expand_done)

lemma units_used_le: "units_used us st \<le> length us"
  by (induction us st rule: units_used.induct) auto

lemma units_used_all: "fst (expand us st) \<le> 0xFFFF \<Longrightarrow> units_used us st = length us"
  by (induction us st rule: units_used.induct) (auto split: if_splits)

section \<open>The two-level table\<close>

definition utbl_ok :: "sb \<Rightarrow> bool" where
  "utbl_ok s \<longleftrightarrow> length (vol_utbl s) = 256 \<and> (\<forall>row. Some row \<in> set (vol_utbl s) \<longrightarrow> length row = 256)"

definition utbl_fun :: "sb \<Rightarrow> u16 \<Rightarrow> u16" where
  "utbl_fun s a = (case vol_utbl s ! get_col_index a of None \<Rightarrow> a | Some row \<Rightarrow> row ! get_row_index a)"

lemma nls_upper_utbl: "utbl_ok s \<Longrightarrow> \<not> casesensitive s \<Longrightarrow> nls_upper s = utbl_fun s"
  by (auto simp: nls_upper_def utbl_fun_def utbl_ok_def fun_eq_iff)

lemma nls_upper_null: "vol_utbl s = [] \<Longrightarrow> nls_upper s = (\<lambda>c. c)"
  by (simp add: nls_upper_def fun_eq_iff)

lemma row_mask: "(NOT 0xFF00 :: u16) = mask 8"
  by (simp add: mask_numeral)

lemma row_index: "get_row_index a = unat (a AND mask 8)"
  unfolding get_row_index_def row_mask ..

lemma index_bounds: "get_col_index a < 256" "get_row_index a < 256"
proof -
  have "unat a < 2 ^ 16" using unsigned_less [of a] by simp
  then show "get_col_index a < 256" by (simp add: get_col_index_def unat_drop_bit less_mult_imp_div_less)
  show "get_row_index a < 256" unfolding row_index unat_and_mask by simp
qed

lemma index_inj: "get_col_index a = get_col_index b \<Longrightarrow> get_row_index a = get_row_index b \<Longrightarrow> a = b"
proof -
  assume "get_col_index a = get_col_index b" "get_row_index a = get_row_index b"
  then have "unat a div 256 = unat b div 256" "unat a mod 256 = unat b mod 256"
    unfolding get_col_index_def row_index unat_and_mask by (simp_all add: unat_drop_bit)
  then have "unat a = unat b" by (metis div_mult_mod_eq)
  then show "a = b" by (simp add: word_unat_eq_iff)
qed

lemma upcase_row_id: "upcase_row (get_col_index a) ! get_row_index a = a"
proof -
  have "upcase_row (get_col_index a) ! get_row_index a = push_bit 8 (drop_bit 8 a) OR (a AND mask 8)"
    using index_bounds(2) [of a] by (simp add: upcase_row_def get_col_index_def row_index del: push_bit_of_nat)
  also have "\<dots> = a" by (rule bit_word_eqI) (auto simp: bit_simps)
  finally show ?thesis .
qed

lemma length_upcase_row [simp]: "length (upcase_row col) = 256"
  by (simp add: upcase_row_def)

text \<open>Memory is available.\<close>

definition mem_ready :: "sb \<Rightarrow> bool" where
  "mem_ready s \<longleftrightarrow> (\<forall>t. mem_ok s t)"

definition tbl_step :: "sb \<Rightarrow> sb \<Rightarrow> bool" where
  "tbl_step s s' \<longleftrightarrow> s' = s\<lparr>io_clock := io_clock s', vol_utbl := vol_utbl s'\<rparr>"

lemma tbl_step_refl [simp]: "tbl_step s s"
  by (simp add: tbl_step_def)

lemma tbl_step_trans: "tbl_step s t \<Longrightarrow> tbl_step t u \<Longrightarrow> tbl_step s u"
  unfolding tbl_step_def by (cases s; cases t; cases u) simp

lemma tbl_step_fields:
  assumes "tbl_step s s'"
  shows "mem_ready s' = mem_ready s" "blk s' = blk s" "sector_size s' = sector_size s" "io_ready s' = io_ready s"
    "out_of_range s' = out_of_range s" "casesensitive s' = casesensitive s"
  by (subst assms [unfolded tbl_step_def], simp add: mem_ready_def io_ready_def debug_error_rw_def out_of_range_def fun_eq_iff)+

lemma put_upcase_ok:
  assumes "utbl_ok s" "mem_ready s" "put_upcase s a u = (s', ret)"
  shows "ret = FFS_SUCCESS \<and> utbl_ok s' \<and> utbl_fun s' = (utbl_fun s)(a := u) \<and> tbl_step s s'"
proof -
  define col where "col = get_col_index a"
  have col: "col < length (vol_utbl s)" using index_bounds(1) assms(1) by (simp add: col_def utbl_ok_def)
  define old where "old = (case vol_utbl s ! col of None \<Rightarrow> upcase_row col | Some row \<Rightarrow> row)"
  define t where "t = (if vol_utbl s ! col = None then tick s else s)"
  have "ret = FFS_SUCCESS \<and> s' = t\<lparr>vol_utbl := (vol_utbl s)[col := Some (old[get_row_index a := u])]\<rparr>"
    using assms(2,3) col
    by (cases "vol_utbl s ! col") (auto simp: put_upcase_def kmalloc_def mem_ready_def old_def t_def tick_def col_def Let_def)
  then have ret: "ret = FFS_SUCCESS" and s': "s' = t\<lparr>vol_utbl := (vol_utbl s)[col := Some (old[get_row_index a := u])]\<rparr>"
    by simp_all
  have len: "length old = 256"
  proof (cases "vol_utbl s ! col")
    case (Some row)
    then have "Some row \<in> set (vol_utbl s)" using nth_mem [OF col] by simp
    then show ?thesis using assms(1) Some by (simp add: old_def utbl_ok_def)
  qed (simp add: old_def)
  have ok: "utbl_ok s'"
    using assms(1) len by (auto simp: s' utbl_ok_def dest!: subsetD [OF set_update_subset_insert])
  have "utbl_fun s' b = ((utbl_fun s)(a := u)) b" for b
  proof (cases "get_col_index b = col")
    case True
    then have "utbl_fun s b = old ! get_row_index b"
      using upcase_row_id [of b] by (auto simp: utbl_fun_def old_def split: option.split)
    moreover have "utbl_fun s' b = old[get_row_index a := u] ! get_row_index b"
      using col True by (simp add: s' utbl_fun_def)
    moreover have "get_row_index a = get_row_index b \<longleftrightarrow> a = b" using index_inj [of a b] True by (auto simp: col_def)
    ultimately show ?thesis using index_bounds(2) [of b] len by (cases "a = b") auto
  next
    case False
    then show ?thesis by (auto simp: s' utbl_fun_def col_def)
  qed
  moreover have "tbl_step s s'" by (simp add: s' t_def tbl_step_def tick_def)
  ultimately show ?thesis using ret ok by blast
qed

section \<open>The loops implement \<open>expand\<close>\<close>

lemma upcase_unit_ok:
  assumes "utbl_ok s" "mem_ready s" "upcase_unit u s idx skip = (s', idx', skip', ret)"
  shows "ret = FFS_SUCCESS \<and> utbl_ok s' \<and> tbl_step s s' \<and> (idx', skip', utbl_fun s') = expand_unit u (idx, skip, utbl_fun s)"
proof -
  obtain s1 r1 where p: "put_upcase s (ucast idx) u = (s1, r1)" by fastforce
  show ?thesis
    using assms(3) put_upcase_ok [OF assms(1,2) p] assms(1) p
    by (auto simp: upcase_unit_def expand_unit_def split: if_splits)
qed

lemma checksum_byte_eq: "checksum_byte c b = rot_add c b"
proof -
  have "(if c AND 1 \<noteq> 0 then 0x80000000 else 0) + drop_bit 1 c = word_rotr 1 c"
  proof -
    have "(if c AND 1 \<noteq> 0 then 0x80000000 else 0 :: u32) = push_bit 31 (c AND 1)"
      by (cases "bit c 0") (simp_all add: and_one_eq bit_0 odd_iff_mod_2_eq_one even_iff_mod_2_eq_zero)
    moreover have "push_bit 31 (c AND 1) AND drop_bit 1 c = 0"
      by (rule bit_word_eqI) (auto simp: bit_simps dest: bit_imp_le_length)
    ultimately show ?thesis unfolding rotr_one by (simp add: disjunctive_add_eq_or del: push_bit_and)
  qed
  then show ?thesis by (simp add: checksum_byte_def rot_add_def)
qed

definition sum_bytes :: "u8 list \<Rightarrow> u32 \<Rightarrow> u32" where
  "sum_bytes bs c = fold (\<lambda>b c. rot_add c b) bs c"

lemma sum_bytes_append [simp]: "sum_bytes (xs @ ys) c = sum_bytes ys (sum_bytes xs c)"
  by (simp add: sum_bytes_def)

lemma sum_bytes_checksum: "sum_bytes bs c = calc_checksum_4byte bs (length bs) c CS_DEFAULT"
proof -
  have "fold (\<lambda>b c. rot_add c b) bs c = fold (\<lambda>i c. rot_add c (bs ! i)) [0..<length bs] c" for c :: u32
  proof (induction bs rule: rev_induct)
    case (snoc x xs)
    have "fold (\<lambda>i c. rot_add c ((xs @ [x]) ! i)) [0..<length xs] c = fold (\<lambda>i c. rot_add c (xs ! i)) [0..<length xs] c"
      by (rule fold_cong) (auto simp: nth_append)
    then show ?case using snoc by simp
  qed simp
  then show ?thesis by (simp add: sum_bytes_def checksum_4byte_eq checksum_skip_def)
qed

lemma upcase_sector_ok:
  assumes "utbl_ok s" "mem_ready s" "upcase_sector n i b s idx skip c = (s', idx', skip', c', ret)" "i + 2 * n \<le> length b"
  shows "ret = FFS_SUCCESS \<and> utbl_ok s' \<and> tbl_step s s' \<and>
    (idx', skip', utbl_fun s') = expand (units_at n i b) (idx, skip, utbl_fun s) \<and>
    c' = sum_bytes (take (2 * units_used (units_at n i b) (idx, skip, utbl_fun s)) (drop i b)) c"
  using assms
proof (induction n arbitrary: i s idx skip c)
  case 0
  then show ?case by (simp add: sum_bytes_def)
next
  case (Suc n)
  show ?case
  proof (cases "idx \<le> 0xFFFF")
    case False
    then show ?thesis using Suc.prems by (simp add: units_at_Suc sum_bytes_def)
  next
    case True
    obtain s1 idx1 skip1 r1 where u: "upcase_unit (GET16 b i) s idx skip = (s1, idx1, skip1, r1)" by (metis prod_cases4)
    note ok = upcase_unit_ok [OF Suc.prems(1,2) u]
    have m: "mem_ready s1" using ok Suc.prems(2) tbl_step_fields(1) by blast
    have bytes: "drop i b = b ! i # b ! Suc i # drop (i + 2) b"
      using Suc.prems(4) by (simp add: Cons_nth_drop_Suc)
    have rest: "upcase_sector n (i + 2) b s1 idx1 skip1 (checksum_byte (checksum_byte c (b ! i)) (b ! (i + 1))) = (s', idx', skip', c', ret)"
      using Suc.prems(3) True u ok by (simp add: Let_def)
    have "ret = FFS_SUCCESS \<and> utbl_ok s' \<and> tbl_step s1 s' \<and>
      (idx', skip', utbl_fun s') = expand (units_at n (i + 2) b) (idx1, skip1, utbl_fun s1) \<and>
      c' = sum_bytes (take (2 * units_used (units_at n (i + 2) b) (idx1, skip1, utbl_fun s1)) (drop (i + 2) b))
        (checksum_byte (checksum_byte c (b ! i)) (b ! (i + 1)))"
      using Suc.prems(4) ok m by (intro Suc.IH [OF _ _ rest]) auto
    moreover have "expand_unit (GET16 b i) (idx, skip, utbl_fun s) = (idx1, skip1, utbl_fun s1)" using ok by simp
    moreover have "tbl_step s1 s' \<Longrightarrow> tbl_step s s'" using ok tbl_step_trans by blast
    ultimately show ?thesis
      using True by (simp add: units_at_Suc bytes checksum_byte_eq sum_bytes_def)
  qed
qed

lemma units_at_append:
  "length b = 2 * m \<Longrightarrow> units_at (m + k) 0 (b @ b') = units_at m 0 b @ units_at k 0 b'"
  by (auto simp: units_at_add) (auto simp: units_at_def GET16_def nth_append intro!: map_cong)

text \<open>The bytes of \<open>n\<close> sectors, which are on the volume and have the size of a sector.\<close>

fun sector_bytes :: "sb \<Rightarrow> u32 \<Rightarrow> nat \<Rightarrow> u8 list" where
  "sector_bytes s sec 0 = []"
| "sector_bytes s sec (Suc n) = blk s sec @ sector_bytes s (sec + 1) n"

definition sectors_fine :: "sb \<Rightarrow> u32 \<Rightarrow> nat \<Rightarrow> bool" where
  "sectors_fine s sec n \<longleftrightarrow> (\<exists>m. sector_size s = 2 * int m \<and>
     (\<forall>k<n. \<not> out_of_range s (sec + of_nat k) \<and> length (blk s (sec + of_nat k)) = 2 * m))"

definition table_units :: "u8 list \<Rightarrow> u16 list" where
  "table_units b = units_at (length b div 2) 0 b"

lemma table_units_append: "even (length b) \<Longrightarrow> table_units (b @ b') = table_units b @ table_units b'"
proof -
  assume "even (length b)"
  then obtain m where m: "length b = 2 * m" by auto
  then show ?thesis using units_at_append [OF m, of "length b' div 2"] by (simp add: table_units_def)
qed

lemma length_table_units [simp]: "length (table_units b) = length b div 2"
  by (simp add: table_units_def)

lemma sector_bytes_cong: "blk s' = blk s \<Longrightarrow> sector_bytes s' sec n = sector_bytes s sec n"
  by (induction n arbitrary: sec) auto

lemma sectors_fine_Suc:
  assumes "sectors_fine s sec (Suc n)"
  shows "\<not> out_of_range s sec" "sectors_fine s (sec + 1) n" "\<exists>m. sector_size s = 2 * int m \<and> length (blk s sec) = 2 * m"
proof -
  obtain m where m: "sector_size s = 2 * int m"
    "\<forall>k<Suc n. \<not> out_of_range s (sec + of_nat k) \<and> length (blk s (sec + of_nat k)) = 2 * m"
    using assms by (auto simp: sectors_fine_def)
  have "\<not> out_of_range s (sec + 1 + of_nat k) \<and> length (blk s (sec + 1 + of_nat k)) = 2 * m" if "k < n" for k
    using m(2) that by (auto simp: add.assoc dest!: spec [of _ "Suc k"])
  then show "sectors_fine s (sec + 1) n" using m(1) unfolding sectors_fine_def by blast
  show "\<not> out_of_range s sec" "\<exists>m. sector_size s = 2 * int m \<and> length (blk s sec) = 2 * m"
    using m spec [OF m(2), of 0] by auto
qed

lemma upcase_sectors_ok:
  assumes "utbl_ok s" "mem_ready s" "io_ready s" "sectors_fine s sec n"
    "upcase_sectors n sec s bh idx skip c = (s', idx', c', ret)"
  shows "ret = FFS_SUCCESS \<and> utbl_ok s' \<and> tbl_step s s' \<and>
    (\<exists>skip'. (idx', skip', utbl_fun s') = expand (table_units (sector_bytes s sec n)) (idx, skip, utbl_fun s)) \<and>
    c' = sum_bytes (take (2 * units_used (table_units (sector_bytes s sec n)) (idx, skip, utbl_fun s)) (sector_bytes s sec n)) c"
  using assms
proof (induction n arbitrary: sec s bh idx skip c)
  case 0
  then show ?case by (auto simp: sum_bytes_def table_units_def)
next
  case (Suc n)
  obtain m where m: "sector_size s = 2 * int m" "length (blk s sec) = 2 * m" using sectors_fine_Suc(3) [OF Suc.prems(4)] by blast
  have r: "sector_read s sec bh True = (tick s, Some sec, FFS_SUCCESS)"
    using sector_read_ok sectors_fine_Suc(1) Suc.prems(3,4) by blast
  have t: "tbl_step s (tick s)" by (simp add: tbl_step_def tick_def)
  note tf = tbl_step_fields [OF t]
  have tu: "utbl_ok (tick s)" "utbl_fun (tick s) = utbl_fun s" "mem_ready (tick s)" "blk (tick s) = blk s" "sector_size (tick s) = sector_size s"
    using Suc.prems(1,2) by (simp_all add: utbl_ok_def utbl_fun_def tick_def mem_ready_def fun_eq_iff)
  obtain s1 idx1 skip1 c1 r1 where u: "upcase_sector m 0 (blk s sec) (tick s) idx skip c = (s1, idx1, skip1, c1, r1)"
    by (metis prod_cases5)
  have ok: "r1 = FFS_SUCCESS" "utbl_ok s1" "tbl_step (tick s) s1"
      "(idx1, skip1, utbl_fun s1) = expand (units_at m 0 (blk s sec)) (idx, skip, utbl_fun s)"
      "c1 = sum_bytes (take (2 * units_used (units_at m 0 (blk s sec)) (idx, skip, utbl_fun s)) (blk s sec)) c"
    using upcase_sector_ok [OF tu(1,3) u] m(2) by (simp_all add: tu)
  have st: "tbl_step s s1" using t ok(3) tbl_step_trans by blast
  note f = tbl_step_fields [OF st]
  have rest: "upcase_sectors n (sec + 1) s1 (Some sec) idx1 skip1 c1 = (s', idx', c', ret)"
    using Suc.prems(5) ok(1) u m(1) by (simp add: r tu)
  have fine: "sectors_fine s1 (sec + 1) n"
    using sectors_fine_Suc(2) [OF Suc.prems(4)] f by (simp add: sectors_fine_def)
  have IH: "ret = FFS_SUCCESS \<and> utbl_ok s' \<and> tbl_step s1 s' \<and>
    (\<exists>skip'. (idx', skip', utbl_fun s') = expand (table_units (sector_bytes s (sec + 1) n)) (idx1, skip1, utbl_fun s1)) \<and>
    c' = sum_bytes (take (2 * units_used (table_units (sector_bytes s (sec + 1) n)) (idx1, skip1, utbl_fun s1)) (sector_bytes s (sec + 1) n)) c1"
    using Suc.IH [OF ok(2) _ _ fine rest] f Suc.prems(2,3) by (simp add: sector_bytes_cong [OF f(2)])
  have units: "table_units (sector_bytes s sec (Suc n)) = units_at m 0 (blk s sec) @ table_units (sector_bytes s (sec + 1) n)"
    using m(2) by (simp add: table_units_append) (simp add: table_units_def)
  define st1 where "st1 = (idx, skip, utbl_fun s)"
  define ub where "ub = units_at m 0 (blk s sec)"
  define vb where "vb = table_units (sector_bytes s (sec + 1) n)"
  have e: "expand ub st1 = (idx1, skip1, utbl_fun s1)" using ok(4) by (simp add: ub_def st1_def)
  have le: "2 * units_used ub st1 \<le> length (blk s sec)" using units_used_le [of ub st1] m(2) by (simp add: ub_def)
  have "take (2 * units_used (ub @ vb) st1) (sector_bytes s sec (Suc n)) =
      take (2 * units_used ub st1) (blk s sec) @ take (2 * units_used vb (idx1, skip1, utbl_fun s1)) (sector_bytes s (sec + 1) n)"
  proof (cases "idx1 \<le> 0xFFFF")
    case True
    then have "units_used ub st1 = m" using units_used_all [of ub st1] e by (simp add: ub_def)
    then show ?thesis using True e m(2) by (simp add: units_used_append) (simp add: ub_def)
  next
    case False
    then have "units_used vb (idx1, skip1, utbl_fun s1) = 0" using expand_done by simp
    then show ?thesis using False e le by (simp add: units_used_append)
  qed
  moreover have "expand (ub @ vb) st1 = expand vb (idx1, skip1, utbl_fun s1)" by (simp add: expand_append e)
  moreover have "tbl_step s1 s' \<Longrightarrow> tbl_step s s'" using st tbl_step_trans by blast
  ultimately show ?case
    using IH ok(5) unfolding units by (simp add: ub_def vb_def st1_def)
qed

section \<open>The loaders\<close>

lemma utbl_start: "utbl_ok (s\<lparr>vol_utbl := replicate 256 None\<rparr>)" "utbl_fun (s\<lparr>vol_utbl := replicate 256 None\<rparr>) = (\<lambda>c. c)"
  using index_bounds(1) by (auto simp: utbl_ok_def utbl_fun_def fun_eq_iff)

text \<open>
  C9: Loading the up-case table of a volume is decompression plus a checksum.  On a volume whose table sectors can be
  read, \<open>__load_upcase_table\<close> succeeds exactly if the table reaches the last character and the stored checksum is that of
  the bytes it consumed, computed by the checksum routine of the driver; then \<open>nls_upper\<close> is the function the compressed
  table denotes, and otherwise the table is freed and \<open>nls_upper\<close> is the identity.  All memory requests succeed here.
\<close>

theorem load_upcase_sectors_expands:
  fixes sec num chk :: u32
  defines "n \<equiv> unat (num + sec) - unat sec"
  assumes "mem_ready s" "io_ready s" "sectors_fine s sec n" "\<not> casesensitive s"
    "load_upcase_sectors s sec num chk = (s', ret)"
    "expand (table_units (sector_bytes s sec n)) (0, False, \<lambda>c. c) = (idx, skip, f)"
    "bytes = take (2 * units_used (table_units (sector_bytes s sec n)) (0, False, \<lambda>c. c)) (sector_bytes s sec n)"
  shows "if idx \<ge> 0xFFFF \<and> chk = calc_checksum_4byte bytes (length bytes) 0 CS_DEFAULT
    then ret = FFS_SUCCESS \<and> nls_upper s' = f
    else ret = FFS_ERROR \<and> vol_utbl s' = [] \<and> nls_upper s' = (\<lambda>c. c)"
proof -
  define s1 where "s1 = (tick s)\<lparr>vol_utbl := replicate 256 None\<rparr>"
  have t: "tbl_step s s1" by (simp add: s1_def tbl_step_def tick_def)
  note tf = tbl_step_fields [OF t]
  obtain s2 idx2 c2 r2 where u: "upcase_sectors n sec s1 None 0 False 0 = (s2, idx2, c2, r2)" by (metis prod_cases4)
  have fine: "sectors_fine s1 sec n" using assms(4) tf by (simp add: sectors_fine_def)
  have ok: "r2 = FFS_SUCCESS" "utbl_ok s2" "tbl_step s1 s2" "idx2 = idx" "utbl_fun s2 = f" "c2 = sum_bytes bytes 0"
    using upcase_sectors_ok [OF _ _ _ fine u] utbl_start [of "tick s"] assms(2,3,7,8) tf
    by (auto simp: s1_def [symmetric] sector_bytes_cong [OF tf(2)])
  have e: "load_upcase_sectors s sec num chk =
     (if idx2 \<ge> 0xFFFF \<and> chk = c2 then (s2, FFS_SUCCESS) else (free_upcase_table s2, FFS_ERROR))"
    using assms(2) u ok(1) by (simp add: load_upcase_sectors_def kmalloc_def mem_ready_def s1_def n_def)
  have free: "vol_utbl (free_upcase_table s2) = []" using ok(2) by (auto simp: free_upcase_table_def utbl_ok_def)
  have "\<not> casesensitive s2" using tbl_step_fields(6) [OF ok(3)] tf(6) assms(5) by simp
  then have up: "nls_upper s2 = f" using ok(2,5) nls_upper_utbl by simp
  show ?thesis
  proof (cases "idx \<ge> 0xFFFF \<and> chk = calc_checksum_4byte bytes (length bytes) 0 CS_DEFAULT")
    case True
    then have "s' = s2" "ret = FFS_SUCCESS" using assms(6) ok(4,6) unfolding e by (simp_all add: sum_bytes_checksum)
    then show ?thesis using True up by simp
  next
    case False
    then have "s' = free_upcase_table s2" "ret = FFS_ERROR"
      using assms(6) ok(4,6) unfolding e by (auto simp: sum_bytes_checksum split: if_splits)
    then show ?thesis using False free nls_upper_null by simp
  qed
qed

text \<open>A volume whose sector 100 holds the table of two units that is the identity up to the last character.\<close>

lemma load_upcase_sectors_witness_table:
  "expand (table_units ([0xFF, 0xFF, 0xFF, 0xFF, 0, 0] @ replicate 506 0)) (0, False, \<lambda>c. c) = (0x10000, False, (\<lambda>c. c)(0xFFFF := 0))"
  "units_used (table_units ([0xFF, 0xFF, 0xFF, 0xFF, 0, 0] @ replicate 506 0)) (0, False, \<lambda>c. c) = 3"
proof -
  have "table_units [0xFF, 0xFF, 0xFF, 0xFF, 0, 0] = [0xFFFF, 0xFFFF, 0]"
    by (simp add: table_units_def units_at_def GET16_def upt_rec)
  then have u: "table_units ([0xFF, 0xFF, 0xFF, 0xFF, 0, 0] @ replicate 506 0) = [0xFFFF, 0xFFFF, 0] @ table_units (replicate 506 0)"
    by (subst table_units_append) simp_all
  have e: "expand [0xFFFF, 0xFFFF, 0] (0, False, \<lambda>c. c) = (0x10000, False, (\<lambda>c. c)(0xFFFF := 0))"
    "units_used [0xFFFF, 0xFFFF, 0] (0, False, \<lambda>c. c) = 3"
    by (simp_all add: expand_unit_def)
  show "expand (table_units ([0xFF, 0xFF, 0xFF, 0xFF, 0, 0] @ replicate 506 0)) (0, False, \<lambda>c. c) = (0x10000, False, (\<lambda>c. c)(0xFFFF := 0))"
    unfolding u expand_append e by (simp add: expand_done)
  show "units_used (table_units ([0xFF, 0xFF, 0xFF, 0xFF, 0, 0] @ replicate 506 0)) (0, False, \<lambda>c. c) = 3"
    unfolding u units_used_append e by (simp add: expand_done)
qed

theorem load_upcase_sectors_expands_witness:
  "let s = (blank_sb EXFAT)\<lparr>blk := (\<lambda>_. [0xFF, 0xFF, 0xFF, 0xFF, 0, 0] @ replicate 506 0)\<rparr>;
       (s', ret) = load_upcase_sectors s 100 1 (calc_checksum_4byte [0xFF, 0xFF, 0xFF, 0xFF, 0, 0] 6 0 CS_DEFAULT)
   in ret = FFS_SUCCESS \<and> nls_upper s' 0xFFFF = 0 \<and> nls_upper s' 0x61 = 0x61"
proof -
  define s where "s = (blank_sb EXFAT)\<lparr>blk := (\<lambda>_. [0xFF, 0xFF, 0xFF, 0xFF, 0, 0] @ replicate 506 0)\<rparr>"
  define chk where "chk = calc_checksum_4byte [0xFF, 0xFF, 0xFF, 0xFF, 0, 0] 6 0 CS_DEFAULT"
  obtain s' ret where r: "load_upcase_sectors s 100 1 chk = (s', ret)" by fastforce
  have h: "mem_ready s" "io_ready s" "\<not> casesensitive s"
    by (simp_all add: s_def mem_ready_def io_ready_def debug_error_rw_def blank_sb_def)
  have fine: "sectors_fine s 100 (unat (1 + 100 :: u32) - unat (100 :: u32))"
    unfolding sectors_fine_def by (rule exI [of _ 256]) (simp add: s_def out_of_range_def blank_sb_def)
  have b: "sector_bytes s 100 (unat (1 + 100 :: u32) - unat (100 :: u32)) = [0xFF, 0xFF, 0xFF, 0xFF, 0, 0] @ replicate 506 0"
    by (simp add: s_def)
  note t = load_upcase_sectors_witness_table
  have len: "length [0xFF, 0xFF, 0xFF, 0xFF, 0, 0 :: u8] = 6" by simp
  have "ret = FFS_SUCCESS \<and> nls_upper s' = (\<lambda>c. c)(0xFFFF := 0)"
    using load_upcase_sectors_expands [OF h(1,2) fine h(3) r, unfolded b, OF t(1), of "[0xFF, 0xFF, 0xFF, 0xFF, 0, 0]"]
    unfolding t(2) len chk_def by simp
  then show ?thesis unfolding s_def [symmetric] chk_def [symmetric] by (simp add: r)
qed

lemma default_loop_ok:
  assumes "utbl_ok s" "mem_ready s" "default_upcase_loop n i b s idx skip = (s', idx', ret)"
  shows "ret = FFS_ERROR \<and> utbl_ok s' \<and> tbl_step s s' \<and>
    (\<exists>skip'. (idx', skip', utbl_fun s') = expand (units_at n i b) (idx, skip, utbl_fun s))"
  using assms
proof (induction n arbitrary: i s idx skip)
  case 0
  then show ?case by auto
next
  case (Suc n)
  show ?case
  proof (cases "idx \<le> 0xFFFF")
    case False
    then show ?thesis using Suc.prems by (auto simp: units_at_Suc)
  next
    case True
    obtain s1 idx1 skip1 r1 where u: "upcase_unit (GET16 b i) s idx skip = (s1, idx1, skip1, r1)" by (metis prod_cases4)
    note ok = upcase_unit_ok [OF Suc.prems(1,2) u]
    have m: "mem_ready s1" using ok Suc.prems(2) tbl_step_fields(1) by blast
    have rest: "default_upcase_loop n (i + 2) b s1 idx1 skip1 = (s', idx', ret)"
      using Suc.prems(3) True u ok by simp
    have "ret = FFS_ERROR \<and> utbl_ok s' \<and> tbl_step s1 s' \<and>
      (\<exists>skip'. (idx', skip', utbl_fun s') = expand (units_at n (i + 2) b) (idx1, skip1, utbl_fun s1))"
      using ok m by (intro Suc.IH [OF _ _ rest]) auto
    moreover have "expand_unit (GET16 b i) (idx, skip, utbl_fun s) = (idx1, skip1, utbl_fun s1)" using ok by simp
    moreover have "tbl_step s1 s' \<Longrightarrow> tbl_step s s'" using ok tbl_step_trans by blast
    ultimately show ?thesis using True by (simp add: units_at_Suc)
  qed
qed

lemma load_default_upcase:
  assumes "mem_ready s" "\<not> casesensitive s" "load_default_upcase_table b s = (s', ret)" "length b = 2 * NUM_UPCASE"
    "expand (table_units b) (0, False, \<lambda>c. c) = (idx, skip, f)"
  shows "if idx \<ge> 0xFFFF then ret = FFS_SUCCESS \<and> nls_upper s' = f else ret = FFS_ERROR \<and> vol_utbl s' = []"
proof -
  define s1 where "s1 = (tick s)\<lparr>vol_utbl := replicate 256 None\<rparr>"
  have t: "tbl_step s s1" by (simp add: s1_def tbl_step_def tick_def)
  note tf = tbl_step_fields [OF t]
  obtain s2 idx2 r2 where u: "default_upcase_loop NUM_UPCASE 0 b s1 0 False = (s2, idx2, r2)" by (metis prod_cases3)
  have "r2 = FFS_ERROR \<and> utbl_ok s2 \<and> tbl_step s1 s2 \<and>
      (\<exists>skip'. (idx2, skip', utbl_fun s2) = expand (units_at NUM_UPCASE 0 b) (0, False, utbl_fun s1))"
    using utbl_start(1) [of "tick s"] assms(1) tf by (intro default_loop_ok [OF _ _ u]) (simp_all add: s1_def)
  moreover have "units_at NUM_UPCASE 0 b = table_units b" using assms(4) by (simp add: table_units_def)
  moreover have "utbl_fun s1 = (\<lambda>c. c)" using utbl_start(2) [of "tick s"] by (simp add: s1_def)
  ultimately have ok: "r2 = FFS_ERROR" "utbl_ok s2" "tbl_step s1 s2" "idx2 = idx" "utbl_fun s2 = f" using assms(5) by auto
  have e: "load_default_upcase_table b s = (if idx2 \<ge> 0xFFFF then (s2, FFS_SUCCESS) else (free_upcase_table s2, FFS_ERROR))"
    using assms(1) u ok(1) by (simp add: load_default_upcase_table_def kmalloc_def mem_ready_def s1_def)
  have free: "vol_utbl (free_upcase_table s2) = []" using ok(2) by (auto simp: free_upcase_table_def utbl_ok_def)
  have "\<not> casesensitive s2" using tbl_step_fields(6) [OF ok(3)] tf(6) assms(2) by simp
  then show ?thesis using assms(3) free ok unfolding e by (auto simp: nls_upper_utbl)
qed

end
