(* ===== verification/NamesProps.thy ===== *)
theory NamesProps
  imports Names UpcaseProps
begin

text \<open>
  Names: the comparison and the hash of long names agree, and a short name survives the way to a long name and back.
\<close>

section \<open>Comparing and hashing\<close>

lemma char_at_Cons [simp]: "char_at (x # xs) 0 = x" "char_at [] i = 0" "char_at (x # xs) (Suc i) = char_at xs i"
  by (simp_all add: char_at_def)

lemma cmp_loop_equal:
  assumes "\<not> uniname_cmp_loop n s (us @ 0 # x) (vs @ 0 # y)" "0 \<notin> set us" "0 \<notin> set vs" "length us < n"
    "\<forall>c. nls_upper s c = nls_upper s 0 \<longrightarrow> c = 0"
  shows "map (nls_upper s) us = map (nls_upper s) vs"
  using assms(1-4)
proof (induction us arbitrary: n vs)
  case Nil
  then obtain m where "n = Suc m" by (cases n) auto
  then have "char_at (vs @ 0 # y) 0 = 0" using Nil.prems(1) assms(5) by (auto split: if_splits)
  then show ?case using Nil.prems(3) by (cases vs) auto
next
  case (Cons u us)
  then obtain m where n: "n = Suc m" by (cases n) auto
  show ?case
  proof (cases vs)
    case Nil
    then show ?thesis using Cons.prems(1,2) assms(5) by (auto simp: n split: if_splits)
  next
    case (Cons v vs')
    then show ?thesis using Cons.IH [of m vs'] Cons.prems by (auto simp: n split: if_splits)
  qed
qed

lemma cmp_loop_complete:
  assumes "map (nls_upper s) us = map (nls_upper s) vs"
  shows "\<not> uniname_cmp_loop n s (us @ 0 # x) (vs @ 0 # y)"
  using assms
proof (induction us arbitrary: n vs)
  case Nil
  then show ?case by (cases n) auto
next
  case (Cons u us)
  then show ?case by (cases n; cases vs) auto
qed

lemma upname_cong: "map (nls_upper s) us = map (nls_upper s) vs \<Longrightarrow> upname_bytes s us = upname_bytes s vs"
proof -
  have u: "upname_bytes s us = concat (map (\<lambda>c. [ucast c, ucast (drop_bit 8 c)]) (map (nls_upper s) us))" for us
    by (simp add: upname_bytes_def o_def)
  show "map (nls_upper s) us = map (nls_upper s) vs \<Longrightarrow> ?thesis" by (simp only: u)
qed

lemma length_chars_loop: "chars_loop n nls b i = (us, i', l) \<Longrightarrow> length us \<le> n"
  by (induction n arbitrary: i us i' l) (auto split: if_splits prod.splits)

text \<open>The bytes that are converted.\<close>

definition converted :: "u8 list \<Rightarrow> u8 list" where
  "converted c = strip_name (takeWhile (\<lambda>b. b \<noteq> 0) c)"

text \<open>The characters of a name that \<open>nls_cstring_to_uniname\<close> produces.\<close>

lemma cstring_name:
  assumes "nls_cstring_to_uniname f io s p c = (n, l)" "length (uni_name p) = 256"
    "io = None \<Longrightarrow> f (converted c) = (out, int (length out)) \<and> length out < 256"
  obtains us x where "uni_name n = us @ 0 # x" "name_len n = of_nat (length us)" "length us < 256"
    "name_hash n = calc_checksum_2byte (upname_bytes s us) (2 * length us) 0 CS_DEFAULT" "io = None \<Longrightarrow> us = out"
proof -
  have store: "store_name (uni_name p) us = us @ 0 # drop (Suc (length us)) (uni_name p)" for us
    by (simp add: store_name_def splice_at_def)
  show thesis
  proof (cases io)
    case None
    have "drop (length out) (uni_name p) = (uni_name p ! length out) # drop (Suc (length out)) (uni_name p)"
      using assms(2,3) None by (simp add: Cons_nth_drop_Suc)
    then have "(splice_at (uni_name p) 0 out)[length out := 0] = out @ 0 # drop (Suc (length out)) (uni_name p)"
      by (simp add: splice_at_def)
    then show thesis
      using assms None by (intro that [of out "drop (Suc (length out)) (uni_name p)"]) (auto simp: nls_cstring_to_uniname_def Let_def converted_def)
  next
    case (Some nls)
    define str where "str = strip_name (takeWhile (\<lambda>b. b \<noteq> 0) c)"
    obtain us i l' where r: "chars_loop 255 nls (str @ [0]) 0 = (us, i, l')" by (metis prod_cases3)
    show thesis
      using assms(1) store [of us] Some r length_chars_loop [OF r]
      by (intro that [of us "drop (Suc (length us)) (uni_name p)"])
        (auto simp: nls_cstring_to_uniname_def Let_def str_def)
  qed
qed

text \<open>
  What \<open>utf8s_to_utf16s\<close> promises: when it does not fail, its result is the number of units that it has written, and each of them
  comes from at least one byte.
\<close>

definition utf16_ok :: "(u8 list \<Rightarrow> u16 list \<times> int) \<Rightarrow> bool" where
  "utf16_ok f \<longleftrightarrow> (\<forall>str. 0 \<le> snd (f str) \<longrightarrow> snd (f str) = int (length (fst (f str))) \<and> length (fst (f str)) \<le> length str)"

lemma length_converted: "length (converted c) \<le> length (takeWhile (\<lambda>b. b \<noteq> 0) c)"
proof -
  have t: "length (strip_trailing b str) \<le> length str" for b str
    using length_dropWhile_le [of "\<lambda>c. c = b" "rev str"] by (simp add: strip_trailing_def)
  show ?thesis using t order_trans [OF t t] by (auto simp: converted_def strip_name_def Let_def)
qed

lemma converted_units:
  assumes "utf16_ok f" "0 \<le> snd (f (converted c))" "length (takeWhile (\<lambda>b. b \<noteq> 0) c) < 256"
  shows "f (converted c) = (fst (f (converted c)), int (length (fst (f (converted c))))) \<and> length (fst (f (converted c))) < 256"
proof -
  have "snd (f (converted c)) = int (length (fst (f (converted c))))" "length (fst (f (converted c))) \<le> length (converted c)"
    using assms(1,2) by (simp_all add: utf16_ok_def)
  then show ?thesis using length_converted [of c] assms(3) by (simp add: prod_eq_iff)
qed

text \<open>
  C13: The name hash respects the comparison of names.  If two names that \<open>nls_cstring_to_uniname\<close> produced compare equal
  under \<open>nls_uniname_cmp\<close>, they have the same length and the same hash, so that a lookup that compares length and hash
  first never misses a name.  The up-case table must not map another character to the terminator, the names have no
  embedded terminator, and without a table of characters the strings are UTF-8 of at most 255 bytes.
\<close>

theorem equal_names_equal_hash:
  assumes "nls_cstring_to_uniname f io s p c = (n, l)" "nls_cstring_to_uniname f io s p' c' = (n', l')"
    "length (uni_name p) = 256" "length (uni_name p') = 256"
    "io = None \<longrightarrow> utf16_ok f \<and> (\<forall>str \<in> {c, c'}. 0 \<le> snd (f (converted str)) \<and> length (takeWhile (\<lambda>b. b \<noteq> 0) str) < 256)"
    "0 \<notin> set (take (unat (name_len n)) (uni_name n))" "0 \<notin> set (take (unat (name_len n')) (uni_name n'))"
    "\<forall>c. nls_upper s c = nls_upper s 0 \<longrightarrow> c = 0"
    "\<not> nls_uniname_cmp s (uni_name n) (uni_name n')"
  shows "name_len n = name_len n' \<and> name_hash n = name_hash n'"
proof -
  have u: "io = None \<Longrightarrow> f (converted str) = (fst (f (converted str)), int (length (fst (f (converted str))))) \<and>
      length (fst (f (converted str))) < 256" if "str \<in> {c, c'}" for str
    using converted_units [of f str] assms(5) that by blast
  obtain us x where us: "uni_name n = us @ 0 # x" "name_len n = of_nat (length us)" "length us < 256"
    "name_hash n = calc_checksum_2byte (upname_bytes s us) (2 * length us) 0 CS_DEFAULT"
    by (rule cstring_name [OF assms(1,3) u [of c]]) simp_all
  obtain vs y where vs: "uni_name n' = vs @ 0 # y" "name_len n' = of_nat (length vs)" "length vs < 256"
    "name_hash n' = calc_checksum_2byte (upname_bytes s vs) (2 * length vs) 0 CS_DEFAULT"
    by (rule cstring_name [OF assms(2,4) u [of c']]) simp_all
  have "unat (name_len n) = length us" "unat (name_len n') = length vs"
    using us(2,3) vs(2,3) by (simp_all add: unat_of_nat)
  then have "map (nls_upper s) us = map (nls_upper s) vs"
    using assms(6,7,9) us(3) by (intro cmp_loop_equal [OF _ _ _ _ assms(8)]) (simp_all add: us(1) vs(1) nls_uniname_cmp_def)
  then have "upname_bytes s us = upname_bytes s vs" "length us = length vs"
    by (auto intro: upname_cong dest: map_eq_imp_length_eq)
  then show ?thesis by (simp add: us vs)
qed

definition ascii_nls :: nls_table where
  "ascii_nls = \<lparr>char2uni = (\<lambda>_. (-1, 0)), uni2char = (\<lambda>_. (-1, [])), charset_utf8 = False\<rparr>"

definition empty_name :: UNI_NAME_T where
  "empty_name = \<lparr>uni_name = replicate 256 0, name_hash = 0, name_len = 0\<rparr>"

text \<open>\<open>utf8s_to_utf16s\<close> on ASCII; other bytes are an error here.\<close>

definition ascii_to_utf16 :: "u8 list \<Rightarrow> u16 list \<times> int" where
  "ascii_to_utf16 str = (if list_all (\<lambda>b. b < 0x80) str then (map ucast str, int (length str)) else ([], - 22))"

lemma ascii_utf16_ok: "utf16_ok ascii_to_utf16"
  by (simp add: utf16_ok_def ascii_to_utf16_def)

theorem equal_names_equal_hash_witness:
  "name_hash (fst (nls_cstring_to_uniname ascii_to_utf16 None (blank_sb FAT32) empty_name [0x41, 0x2E, 0x20, 0]))
   = name_hash (fst (nls_cstring_to_uniname ascii_to_utf16 None (blank_sb FAT32) empty_name [0x41]))"
proof -
  let ?conv = "nls_cstring_to_uniname ascii_to_utf16 None (blank_sb FAT32) empty_name"
  have up: "nls_upper (blank_sb FAT32) c = c" for c by (simp add: nls_upper_def blank_sb_def)
  have strip: "strip_name [0x41, 0x2E, 0x20] = [0x41]" "strip_name [0x41] = [0x41]"
    by (simp_all add: strip_name_def strip_trailing_def)
  have store: "(splice_at (replicate 256 0) 0 [0x41])[Suc 0 := 0] = (0x41 :: u16) # 0 # replicate 254 0"
    using replicate_Suc [of 254 "0 :: u16"] by (simp add: splice_at_def)
  have n: "?conv [0x41, 0x2E, 0x20, 0] = (empty_name\<lparr>uni_name := 0x41 # 0 # replicate 254 0, name_len := 1,
      name_hash := calc_checksum_2byte [0x41, 0] 2 0 CS_DEFAULT\<rparr>, False)"
    by (simp add: nls_cstring_to_uniname_def ascii_to_utf16_def strip store up upname_bytes_def empty_name_def)
  have m: "?conv [0x41] = (empty_name\<lparr>uni_name := 0x41 # 0 # replicate 254 0, name_len := 1,
      name_hash := calc_checksum_2byte [0x41, 0] 2 0 CS_DEFAULT\<rparr>, False)"
    by (simp add: nls_cstring_to_uniname_def ascii_to_utf16_def strip store up upname_bytes_def empty_name_def)
  have cmp: "\<not> nls_uniname_cmp (blank_sb FAT32) (0x41 # 0 # replicate 254 0) (0x41 # 0 # replicate 254 0)"
    using cmp_loop_complete [of "blank_sb FAT32" "[0x41]" "[0x41]"] by (simp add: nls_uniname_cmp_def)
  show ?thesis
    unfolding n m fst_conv
    by (rule conjunct2 [OF equal_names_equal_hash [OF n m]])
      (simp_all add: up empty_name_def cmp ascii_utf16_ok converted_def strip ascii_to_utf16_def)
qed

section \<open>Short names\<close>

text \<open>The bytes of a short name that need no conversion: printable ASCII without small letters, period and the characters \<open>+,;=[]\<close>.\<close>

definition short_char :: "u8 \<Rightarrow> bool" where
  "short_char b \<longleftrightarrow> 0x20 < b \<and> b < 0x7F \<and> \<not> (0x61 \<le> b \<and> b \<le> 0x7A) \<and> b \<notin> {0x2B, 0x2C, 0x2E, 0x3B, 0x3D, 0x5B, 0x5D}"

lemma unat_ucast_u8: "unat (ucast b :: u16) = unat b" for b :: u8
proof -
  have "unat b < 2 ^ 8" using unsigned_less [of b] by simp
  then show ?thesis by (simp add: unsigned_ucast_eq take_bit_nat_eq_self)
qed

lemma short_char_unit:
  assumes "short_char b"
  shows "(ucast b :: u16) \<noteq> 0" "(ucast b :: u16) \<noteq> SPACE" "(ucast b :: u16) \<noteq> PERIOD" "nls_wstrchr bad_dos_chars (ucast b) = None"
    "convert_uni_to_ch nls (ucast b) = ([b], 1, False)" "\<not> (0x61 \<le> b \<and> b \<le> 0x7A)" "b < 0x80" "b \<noteq> 0" "b \<noteq> SPACE" "b \<noteq> 0x05" "b \<noteq> 0xE5"
proof -
  have n: "32 < unat b" "unat b < 127" "\<not> (0x61 \<le> b \<and> b \<le> 0x7A)" "unat b \<notin> {43, 44, 46, 59, 61, 91, 93}"
    using assms by (auto simp: short_char_def word_less_nat_alt word_unat_eq_iff)
  show "(ucast b :: u16) \<noteq> 0" "(ucast b :: u16) \<noteq> SPACE" "(ucast b :: u16) \<noteq> PERIOD"
    using n by (auto simp: word_unat_eq_iff unat_ucast_u8)
  show "nls_wstrchr bad_dos_chars (ucast b) = None"
    using n by (auto simp: bad_dos_chars_def word_unat_eq_iff unat_ucast_u8)
  have "(ucast b :: u16) < 0x80" using n by (simp add: word_less_nat_alt unat_ucast_u8)
  moreover have "(ucast (ucast b :: u16) :: u8) = b" by (rule bit_word_eqI) (simp add: bit_simps)
  ultimately show "convert_uni_to_ch nls (ucast b) = ([b], 1, False)" by (simp add: convert_uni_to_ch_def)
  show "\<not> (0x61 \<le> b \<and> b \<le> 0x7A)" by (rule n(3))
  show "b < 0x80" "b \<noteq> 0" "b \<noteq> SPACE" "b \<noteq> 0x05" "b \<noteq> 0xE5" using n by (auto simp: word_less_nat_alt word_unat_eq_iff)
qed

lemma loop_step:
  assumes "short_char b" "char_at name u = ucast b" "i < 8 \<or> (\<exists>p. lp = Some p \<and> p < u \<and> i < 11)"
  shows "\<exists>upper'. dosname_loop nls name lp i u dos 0 upper lossy = dosname_loop nls name lp (i + 1) (u + 1) (dos[i := b]) 0 upper' lossy"
proof -
  have sk: "skip_extension lp i u lossy = (u, lossy)" "i < 11" "\<not> (i = 8 \<and> lp = None)"
    using assms(3) by (auto simp: skip_extension_def split: option.split)
  show ?thesis
    using short_char_unit [OF assms(1)] sk
    by (subst dosname_loop.simps) (auto simp: Let_def assms(2))
qed

lemma splice_step: "i < length xs \<Longrightarrow> splice_at (xs[i := b]) (Suc i) bs = splice_at xs i (b # bs)"
  by (simp add: splice_at_def take_Suc_conv_app_nth take_update_cancel drop_update_cancel)

lemma loop_chars:
  assumes "\<forall>b \<in> set bs. short_char b" "\<forall>k < length bs. char_at name (u + k) = ucast (bs ! k)" "i + length bs \<le> length dos"
    "i + length bs \<le> 8 \<or> (\<exists>p. lp = Some p \<and> p < u \<and> i + length bs \<le> 11)"
  shows "\<exists>upper'. dosname_loop nls name lp i u dos 0 upper lossy =
    dosname_loop nls name lp (i + length bs) (u + length bs) (splice_at dos i bs) 0 upper' lossy"
  using assms
proof (induction bs arbitrary: i u dos upper)
  case Nil
  then show ?case by (auto simp: splice_at_def)
next
  case (Cons b bs)
  have c: "char_at name u = ucast b" using spec [OF Cons.prems(2), of 0] by simp
  obtain upper1 where 1: "dosname_loop nls name lp i u dos 0 upper lossy =
      dosname_loop nls name lp (i + 1) (u + 1) (dos[i := b]) 0 upper1 lossy"
    using loop_step [of b name u i lp nls dos upper lossy] Cons.prems c by auto
  have "\<forall>k < length bs. char_at name (u + 1 + k) = ucast (bs ! k)"
    using Cons.prems(2) by auto
  then obtain upper2 where 2: "dosname_loop nls name lp (i + 1) (u + 1) (dos[i := b]) 0 upper1 lossy =
      dosname_loop nls name lp (i + 1 + length bs) (u + 1 + length bs) (splice_at (dos[i := b]) (i + 1) bs) 0 upper2 lossy"
    using Cons.IH [of "u + 1" "i + 1" "dos[i := b]" upper1] Cons.prems by auto
  show ?case using 1 2 Cons.prems(3) splice_step [of i dos b bs] by auto
qed

text \<open>A short name in the form the directory entry has it, and the long name it is shown as.\<close>

definition pad_to :: "nat \<Rightarrow> u8 list \<Rightarrow> u8 list" where
  "pad_to n bs = bs @ replicate (n - length bs) SPACE"

definition dotted :: "u8 list \<Rightarrow> u8 list \<Rightarrow> u8 list" where
  "dotted base ext = base @ (if ext = [] then [] else PERIOD # ext)"

lemma takeWhile_pad: "\<forall>b \<in> set bs. b \<noteq> SPACE \<Longrightarrow> takeWhile (\<lambda>b. b \<noteq> SPACE) (bs @ replicate n SPACE) = bs"
  by (induction bs) (auto simp: takeWhile_replicate)

lemma short_buf:
  assumes "base \<noteq> []" "length base \<le> 8" "length ext \<le> 3" "\<forall>b \<in> set base \<union> set ext. short_char b"
  shows "dosname_buf \<lparr>dos_name = pad_to 8 base @ pad_to 3 ext, name_case = 0\<rparr> = dotted base ext @ [0]"
proof -
  have l: "length (pad_to 8 base) = 8" "length (pad_to 3 ext) = 3" using assms by (simp_all add: pad_to_def)
  have part: "dos_part (pad_to n bs) False = bs" if "\<forall>b \<in> set bs. short_char b" for n bs
    using that short_char_unit(9) by (simp add: dos_part_def lower_byte_def pad_to_def takeWhile_pad map_idI)
  have first: "(pad_to 8 base @ pad_to 3 ext) ! 0 \<noteq> 0x05"
    using assms(1,4) short_char_unit(10) by (cases base) (auto simp: pad_to_def)
  have e: "(pad_to 8 base @ pad_to 3 ext) ! 8 \<noteq> SPACE \<longleftrightarrow> ext \<noteq> []"
    using assms(4) l short_char_unit(9) by (cases ext) (auto simp: nth_append pad_to_def)
  show ?thesis
    using first e l assms(4) unfolding dosname_buf_def dotted_def by (simp add: part Let_def)
qed

lemma chars_of_ascii:
  "\<forall>b \<in> set (drop i bs). b < 0x80 \<and> b \<noteq> 0 \<Longrightarrow> length (drop i bs) \<le> n \<Longrightarrow>
   chars_loop n nls (bs @ [0]) i = (map ucast (drop i bs), max i (length bs), False)"
proof (induction n arbitrary: i)
  case 0
  then show ?case by simp
next
  case (Suc n)
  show ?case
  proof (cases "i < length bs")
    case True
    then have d: "drop i bs = bs ! i # drop (Suc i) bs" by (simp add: Cons_nth_drop_Suc)
    have c: "char_at (bs @ [0]) i = bs ! i" "char_at (drop i (bs @ [0])) 0 = bs ! i"
      using True by (simp_all add: char_at_def nth_append)
    have "chars_loop n nls (bs @ [0]) (Suc i) = (map ucast (drop (Suc i) bs), max (Suc i) (length bs), False)"
      using Suc.prems d by (intro Suc.IH) auto
    then show ?thesis using Suc.prems(1) True c by (auto simp: d convert_ch_to_uni_def)
  next
    case False
    then have "char_at (bs @ [0]) i = 0" by (simp add: char_at_def nth_append)
    then show ?thesis using False by simp
  qed
qed

lemma last_period_chars:
  "\<forall>b \<in> set bs. short_char b \<Longrightarrow> last_period_loop (map ucast bs @ rest) p lp = last_period_loop rest (p + length bs) lp"
  using short_char_unit by (induction bs arbitrary: p) auto

lemma char_at_name:
  "k < length bs \<Longrightarrow> char_at (map f bs @ rest) k = f (bs ! k)" "char_at (map f bs @ c # rest) (length bs) = c"
  by (simp_all add: char_at_def nth_append)

lemma splice_pad:
  "length base \<le> 8 \<Longrightarrow> splice_at (replicate DOS_NAME_LENGTH SPACE) 0 base = pad_to 8 base @ pad_to 3 []"
  "length ext \<le> 3 \<Longrightarrow> splice_at (pad_to 8 base @ pad_to 3 []) 8 ext = pad_to 8 base @ pad_to 3 ext" if "length base \<le> 8"
  using that by (auto simp: splice_at_def pad_to_def simp flip: replicate_add)

lemma dotted_loop:
  assumes "base \<noteq> []" "length base \<le> 8" "length ext \<le> 3" "\<forall>b \<in> set base \<union> set ext. short_char b"
    "name = map ucast (dotted base ext) @ 0 # rest"
  shows "\<exists>upper. dosname_loop nls name (last_period_loop name 0 None) 0 0 (replicate DOS_NAME_LENGTH SPACE) 0 0 False =
    (pad_to 8 base @ pad_to 3 ext, length (dotted base ext), 0, upper, False)"
proof -
  define lp where "lp = (if ext = [] then None else Some (length base))"
  have lp: "last_period_loop name 0 None = lp"
    using assms(4) by (auto simp: assms(5) dotted_def lp_def last_period_chars)
  define d1 where "d1 = pad_to 8 base @ pad_to 3 []"
  have at: "char_at name k = ucast (dotted base ext ! k)" if "k < length (dotted base ext)" for k
    using char_at_name(1) that by (simp add: assms(5))
  have stop: "char_at name (length (dotted base ext)) = 0" unfolding assms(5) by (rule char_at_name(2))
  obtain upper1 where 1: "dosname_loop nls name lp 0 0 (replicate DOS_NAME_LENGTH SPACE) 0 0 False =
      dosname_loop nls name lp (length base) (length base) d1 0 upper1 False"
    using loop_chars [of base name 0 0 "replicate DOS_NAME_LENGTH SPACE" lp nls 0 False] assms(2,4) at splice_pad(1)
    by (auto simp: dotted_def nth_append d1_def)
  show ?thesis
  proof (cases "ext = []")
    case True
    then have "dosname_loop nls name lp (length base) (length base) d1 0 upper1 False = (d1, length base, 0, upper1, False)"
      using assms(2) stop by (subst dosname_loop.simps) (simp add: lp_def skip_extension_def dotted_def Let_def)
    then show ?thesis using 1 True by (simp add: lp d1_def dotted_def)
  next
    case False
    let ?p = "length base"
    have p: "char_at name ?p = PERIOD" using at [of ?p] False by (simp add: dotted_def nth_append)
    have "\<forall>k < length ext. char_at name (Suc ?p + k) = ucast (ext ! k)"
      using at False by (auto simp: dotted_def nth_append)
    then obtain upper2 where 2: "dosname_loop nls name lp 8 (Suc ?p) d1 0 upper1 False =
        dosname_loop nls name lp (8 + length ext) (Suc ?p + length ext) (splice_at d1 8 ext) 0 upper2 False"
      using loop_chars [of ext name "Suc ?p" 8 d1 lp nls upper1 False] assms(2,3,4) False
      by (auto simp: d1_def pad_to_def lp_def)
    have skip: "dosname_loop nls name lp ?p ?p d1 0 upper1 False = dosname_loop nls name lp 8 (Suc ?p) d1 0 upper1 False"
    proof (cases "?p = 8")
      case True
      then have sk: "skip_extension lp 8 8 False = (9, False)" "skip_extension lp 8 (Suc 8) False = (9, False)" "lp = Some 8"
        using False by (simp_all add: lp_def skip_extension_def)
      show ?thesis
        unfolding True dosname_loop.simps [of nls name lp 8 8] dosname_loop.simps [of nls name lp 8 "Suc 8"] sk(1,2)
        using sk(3) by simp
    next
      case short: False
      then have "skip_extension lp ?p ?p False = (?p, False)" by (auto simp: lp_def skip_extension_def)
      then show ?thesis
        using False short assms(2) by (subst dosname_loop.simps) (simp add: lp_def Let_def p)
    qed
    have "dosname_loop nls name lp (8 + length ext) (Suc ?p + length ext) d 0 upper2 False = (d, Suc ?p + length ext, 0, upper2, False)" for d
      using stop False by (subst dosname_loop.simps) (auto simp: lp_def skip_extension_def dotted_def Let_def)
    then show ?thesis using 1 2 skip assms(2,3) splice_pad(2) [of base ext] False by (simp add: lp d1_def dotted_def)
  qed
qed

text \<open>
  C14: A short name survives the conversion to a long name and back.  For every name with a base of 1 to 8 and an extension
  of 0 to 3 plain characters, as it is stored in a directory entry, \<open>nls_dosname_to_uniname\<close> yields the dotted name,
  and \<open>nls_uniname_to_dosname\<close> recovers exactly the stored bytes from it and does not report a loss, on a FAT volume
  (which has no up-case table) and with any character set.
\<close>

theorem dosname_roundtrip:
  assumes "base \<noteq> []" "length base \<le> 8" "length ext \<le> 3" "\<forall>b \<in> set base \<union> set ext. short_char b"
    "length (uni_name p) = 256" "vol_utbl s = []"
  shows "let d = \<lparr>dos_name = pad_to 8 base @ pad_to 3 ext, name_case = 0\<rparr>;
             u = nls_dosname_to_uniname nls p d
         in takeWhile (\<lambda>c. c \<noteq> 0) (uni_name u) = map ucast (dotted base ext) \<and>
            nls_uniname_to_dosname nls' s u = (d, False)"
proof -
  define d where "d = \<lparr>dos_name = pad_to 8 base @ pad_to 3 ext, name_case = 0 :: u8\<rparr>"
  define us :: "u16 list" where "us = map ucast (dotted base ext)"
  have bytes: "b < 0x80 \<and> b \<noteq> 0" if "b \<in> set (dotted base ext)" for b
    using that assms(4) short_char_unit(7,8) by (auto simp: dotted_def split: if_splits)
  have len: "length (dotted base ext) \<le> 12" using assms(2,3) by (simp add: dotted_def)
  define rest where "rest = drop (Suc (length us)) (uni_name p)"
  have "chars_loop 255 nls (dotted base ext @ [0]) 0 = (us, length (dotted base ext), False)"
    using chars_of_ascii [of 0 "dotted base ext" 255 nls] bytes len by (simp add: us_def)
  then have u: "uni_name (nls_dosname_to_uniname nls p d) = us @ 0 # rest"
    using assms(5) by (simp add: nls_dosname_to_uniname_def d_def short_buf [OF assms(1-4)] store_name_def splice_at_def rest_def)
  have nz: "\<forall>c \<in> set us. c \<noteq> 0"
    using bytes by (auto simp: us_def word_unat_eq_iff unat_ucast_u8)
  then have tw: "takeWhile (\<lambda>c. c \<noteq> 0) (us @ 0 # rest) = us" by (induction us) auto
  obtain b bs where base: "base = b # bs" using assms(1) by (cases base) auto
  then have b: "short_char b" using assms(4) by simp
  have hd: "char_at (us @ 0 # rest) 0 = ucast b" by (simp add: us_def dotted_def base)
  have up: "nls_upper s = (\<lambda>c. c)" by (rule nls_upper_null) (rule assms(6))
  have cmp: "nls_uniname_cmp s (us @ 0 # rest) UNI_CUR_DIR_NAME" "nls_uniname_cmp s (us @ 0 # rest) UNI_PAR_DIR_NAME"
    using short_char_unit(3) [OF b] unfolding nls_uniname_cmp_def
    by (simp_all add: uniname_cmp_loop.simps(2) [of 255, simplified] up hd UNI_CUR_DIR_NAME_def UNI_PAR_DIR_NAME_def)
  obtain upper where loop: "dosname_loop nls' (us @ 0 # rest) (last_period_loop (us @ 0 # rest) 0 None) 0 0 (replicate DOS_NAME_LENGTH SPACE) 0 0 False =
    (pad_to 8 base @ pad_to 3 ext, length (dotted base ext), 0, upper, False)"
    using dotted_loop [OF assms(1-4), of "us @ 0 # rest" rest nls'] by (auto simp: us_def)
  have e5: "(pad_to 8 base @ pad_to 3 ext) ! 0 \<noteq> 0xE5" using short_char_unit(11) [OF b] by (simp add: base pad_to_def)
  have stop: "char_at (us @ 0 # rest) (length (dotted base ext)) = 0"
    unfolding us_def by (rule char_at_name(2))
  have "nls_uniname_to_dosname nls' s (nls_dosname_to_uniname nls p d) = (d, False)"
    unfolding nls_uniname_to_dosname_def Let_def u loop by (simp add: cmp e5 stop d_def)
  then show ?thesis unfolding d_def [symmetric] Let_def u tw by (simp add: us_def)
qed

theorem dosname_roundtrip_witness:
  "nls_uniname_to_dosname ascii_nls (blank_sb FAT16)
     (nls_dosname_to_uniname ascii_nls empty_name \<lparr>dos_name = [0x41, 0x42, SPACE, SPACE, SPACE, SPACE, SPACE, SPACE, 0x43, SPACE, SPACE], name_case = 0\<rparr>)
   = (\<lparr>dos_name = [0x41, 0x42, SPACE, SPACE, SPACE, SPACE, SPACE, SPACE, 0x43, SPACE, SPACE], name_case = 0\<rparr>, False)"
proof -
  have d: "pad_to 8 [0x41, 0x42] @ pad_to 3 [0x43] = [0x41, 0x42, SPACE, SPACE, SPACE, SPACE, SPACE, SPACE, 0x43, SPACE, SPACE]"
    by (simp add: pad_to_def eval_nat_numeral)
  show ?thesis
    using dosname_roundtrip [of "[0x41, 0x42]" "[0x43]" empty_name "blank_sb FAT16" ascii_nls ascii_nls]
    unfolding d Let_def by (simp add: short_char_def empty_name_def blank_sb_def)
qed

end
