(* ===== verification/Dir.thy ===== *)
theory Dir
  imports Names Cluster
begin

text \<open>
  Directories, from \<open>fat_init_dir_entry\<close> to \<open>is_dir_empty\<close> of \<open>exfat_core.c\<close>.  A \<open>DENTRY_T *\<close> is a block with an offset
  (\<open>dptr\<close>); the code's pointers stay valid because the buffer of a block is the store \<open>blk\<close> itself.  Where the code
  passes \<open>\<dots> *sector\<close>, the sector is returned.
\<close>

section \<open>Entries by position\<close>

type_synonym dptr = "u32 \<times> nat"

definition load_entry :: "sb \<Rightarrow> dptr \<Rightarrow> dentry" where
  "load_entry s p = slice_at (blk s (fst p)) (snd p) DENTRY_SIZE"

definition store_entry :: "sb \<Rightarrow> dptr \<Rightarrow> dentry \<Rightarrow> sb" where
  "store_entry s p e = poke (fst p) (snd p) e s"

fun walk_loop :: "nat \<Rightarrow> sb \<Rightarrow> u32 \<Rightarrow> sb \<times> u32 option" where
  "walk_loop 0 s cur_clu = (s, Some cur_clu)"
| "walk_loop (Suc n) s cur_clu =
     (case FAT_read s cur_clu of (s1, None) \<Rightarrow> (s1, None) | (s1, Some clu) \<Rightarrow> walk_loop n s1 clu)"

definition walk_fat_chain :: "sb \<Rightarrow> CHAIN_T \<Rightarrow> int \<Rightarrow> sb \<times> u32 option" where
  "walk_fat_chain s p_dir byte_offset =
     (let clu_offset = drop_bit (unat (cluster_size_bits s)) byte_offset
      in if ch_flags p_dir = 0x03 then (s, Some (ch_dir p_dir + of_s32 clu_offset))
         else walk_loop (nat clu_offset) s (ch_dir p_dir))"

text \<open>The split of a byte offset into a sector and an offset in it; \<open>base\<close> is the first sector.\<close>

definition split_offset :: "sb \<Rightarrow> int \<Rightarrow> u32 \<Rightarrow> u32 \<times> nat" where
  "split_offset s off base = (of_s32 (drop_bit (sector_size_bits s) off) + base, nat (off AND sector_size_mask s))"

definition in_cluster :: "sb \<Rightarrow> int \<Rightarrow> int" where
  "in_cluster s off = to_s32 (of_s32 off AND (cluster_size s - 1))"

definition find_location :: "sb \<Rightarrow> CHAIN_T \<Rightarrow> int \<Rightarrow> sb \<times> (u32 \<times> nat) option" where
  "find_location s p_dir entry =
     (let off = push_bit DENTRY_SIZE_BITS entry
      in if ch_dir p_dir = 0 then (s, Some (split_offset s off (root_start_sector s)))
         else case walk_fat_chain s p_dir off of
                (s1, None) \<Rightarrow> (s1, None)
              | (s1, Some clu) \<Rightarrow> (s1, Some (split_offset s1 (in_cluster s1 off) (START_SECTOR s1 clu))))"

definition get_entry_with_sector :: "sb \<Rightarrow> u32 \<Rightarrow> nat \<Rightarrow> sb \<times> dptr option" where
  "get_entry_with_sector s sector offset =
     (case buf_getblk s sector of (s1, None) \<Rightarrow> (s1, None) | (s1, Some b) \<Rightarrow> (s1, Some (b, offset)))"

definition get_entry_in_dir :: "sb \<Rightarrow> CHAIN_T \<Rightarrow> int \<Rightarrow> sb \<times> (dptr \<times> u32) option" where
  "get_entry_in_dir s p_dir entry =
     (case find_location s p_dir entry of
        (s1, None) \<Rightarrow> (s1, None)
      | (s1, Some (sec, off)) \<Rightarrow>
          (case buf_getblk s1 sec of (s2, None) \<Rightarrow> (s2, None) | (s2, Some b) \<Rightarrow> (s2, Some ((b, off), sec))))"

section \<open>Writing entries\<close>

definition now :: "sb \<Rightarrow> sb \<times> TIMESTAMP_T" where
  "now s = (tick s, tm_current (wall_clock s (io_clock s)) (sys_tz s))"

definition fat_init_dir_entry :: "sb \<Rightarrow> CHAIN_T \<Rightarrow> int \<Rightarrow> u32 \<Rightarrow> u32 \<Rightarrow> u64 \<Rightarrow> sb \<times> ffs" where
  "fat_init_dir_entry s p_dir entry type clu n =
     (case get_entry_in_dir s p_dir entry of
        (s1, None) \<Rightarrow> (s1, FFS_MEDIAERR)
      | (s1, Some (p, sector)) \<Rightarrow>
          (case now s1 of
             (s2, tp) \<Rightarrow> (buf_modify (store_entry s2 p (init_dos_entry tp (load_entry s2 p) type clu)) sector, FFS_SUCCESS)))"

text \<open>The second call of \<open>get_entry_in_dir\<close> overwrites \<open>sector\<close> before either entry is marked as modified.\<close>

definition exfat_init_dir_entry :: "sb \<Rightarrow> CHAIN_T \<Rightarrow> int \<Rightarrow> u32 \<Rightarrow> u32 \<Rightarrow> u64 \<Rightarrow> sb \<times> ffs" where
  "exfat_init_dir_entry s p_dir entry type clu n =
     (let flags = (if type = TYPE_FILE then 0x01 else 0x03)
      in case get_entry_in_dir s p_dir entry of
           (s1, None) \<Rightarrow> (s1, FFS_MEDIAERR)
         | (s1, Some (file_ep, _)) \<Rightarrow>
             (case get_entry_in_dir s1 p_dir (entry + 1) of
                (s2, None) \<Rightarrow> (s2, FFS_MEDIAERR)
              | (s2, Some (strm_ep, sector)) \<Rightarrow>
                  (case now s2 of
                     (s3, tp) \<Rightarrow>
                       let s4 = buf_modify (store_entry s3 file_ep (init_file_entry tp (load_entry s3 file_ep) type)) sector;
                           s5 = buf_modify (store_entry s4 strm_ep (init_strm_entry (load_entry s4 strm_ep) flags clu n)) sector
                       in (s5, FFS_SUCCESS))))"

text \<open>\<open>buf_modify\<close> of the sector after an update of an entry, the common step of the functions below.\<close>

definition update_entry :: "sb \<Rightarrow> CHAIN_T \<Rightarrow> int \<Rightarrow> (dentry \<Rightarrow> dentry) \<Rightarrow> sb \<times> dptr option" where
  "update_entry s p_dir entry f =
     (case get_entry_in_dir s p_dir entry of
        (s1, None) \<Rightarrow> (s1, None)
      | (s1, Some (p, sector)) \<Rightarrow> (buf_modify (store_entry s1 p (f (load_entry s1 p))) sector, Some p))"

text \<open>
  The extended entries of a VFAT name: \<open>i\<close> counts the entries, \<open>n\<close> of them remain, \<open>uniname\<close> is the rest of the name; the
  last one has 0x40 added to its order.
\<close>

fun fat_ext_loop :: "nat \<Rightarrow> sb \<Rightarrow> CHAIN_T \<Rightarrow> int \<Rightarrow> int \<Rightarrow> u8 \<Rightarrow> u16 list \<Rightarrow> sb \<times> ffs" where
  "fat_ext_loop n s p_dir entry i chksum uniname =
     (case update_entry s p_dir (entry - i)
             (\<lambda>e. init_ext_entry e (case n of 0 \<Rightarrow> i + 0x40 | Suc _ \<Rightarrow> i) chksum uniname) of
        (s1, None) \<Rightarrow> (s1, FFS_MEDIAERR)
      | (s1, Some _) \<Rightarrow>
          (case n of
             0 \<Rightarrow> (s1, FFS_SUCCESS)
           | Suc m \<Rightarrow> fat_ext_loop m s1 p_dir entry (i + 1) chksum (drop 13 uniname)))"

definition fat_init_ext_entry :: "sb \<Rightarrow> CHAIN_T \<Rightarrow> int \<Rightarrow> int \<Rightarrow> UNI_NAME_T \<Rightarrow> DOS_NAME_T \<Rightarrow> sb \<times> ffs" where
  "fat_init_ext_entry s p_dir entry num_entries p_uniname p_dosname =
     (case update_entry s p_dir entry
             (\<lambda>e. splice_at (e[offsetof DOS_DENTRY_T ''lcase'' := name_case p_dosname])
                    (offsetof DOS_DENTRY_T ''name'') (dos_name p_dosname)) of
        (s1, None) \<Rightarrow> (s1, FFS_MEDIAERR)
      | (s1, Some p) \<Rightarrow>
          if num_entries - 1 > 0
          then fat_ext_loop (nat (num_entries - 2)) s1 p_dir entry 1
                 (calc_checksum_1byte (load_entry s1 p) DOS_NAME_LENGTH 0) (uni_name p_uniname)
          else (s1, FFS_SUCCESS))"

fun fat_delete_loop :: "nat \<Rightarrow> sb \<Rightarrow> CHAIN_T \<Rightarrow> int \<Rightarrow> int \<Rightarrow> sb" where
  "fat_delete_loop 0 s p_dir entry i = s"
| "fat_delete_loop (Suc n) s p_dir entry i =
     (case update_entry s p_dir (entry - i) (\<lambda>e. set_entry_type (dentry_func s) e TYPE_DELETED) of
        (s1, None) \<Rightarrow> s1
      | (s1, Some _) \<Rightarrow> fat_delete_loop n s1 p_dir entry (i - 1))"

definition fat_delete_dir_entry :: "sb \<Rightarrow> CHAIN_T \<Rightarrow> int \<Rightarrow> int \<Rightarrow> int \<Rightarrow> sb" where
  "fat_delete_dir_entry s p_dir entry order num_entries =
     fat_delete_loop (nat (num_entries - order)) s p_dir entry (num_entries - 1)"

fun exfat_delete_loop :: "nat \<Rightarrow> sb \<Rightarrow> CHAIN_T \<Rightarrow> int \<Rightarrow> int \<Rightarrow> sb" where
  "exfat_delete_loop 0 s p_dir entry i = s"
| "exfat_delete_loop (Suc n) s p_dir entry i =
     (case update_entry s p_dir (entry + i) (\<lambda>e. set_entry_type (dentry_func s) e TYPE_DELETED) of
        (s1, None) \<Rightarrow> s1
      | (s1, Some _) \<Rightarrow> exfat_delete_loop n s1 p_dir entry (i + 1))"

definition exfat_delete_dir_entry :: "sb \<Rightarrow> CHAIN_T \<Rightarrow> int \<Rightarrow> int \<Rightarrow> int \<Rightarrow> sb" where
  "exfat_delete_dir_entry s p_dir entry order num_entries =
     exfat_delete_loop (nat (num_entries - order)) s p_dir entry order"

text \<open>\<open>None\<close>: an entry could not be read, and the sector of the file entry has been unlocked.\<close>

fun checksum_loop :: "nat \<Rightarrow> sb \<Rightarrow> CHAIN_T \<Rightarrow> int \<Rightarrow> u16 \<Rightarrow> sb \<times> u16 option" where
  "checksum_loop 0 s p_dir entry chksum = (s, Some chksum)"
| "checksum_loop (Suc n) s p_dir entry chksum =
     (case get_entry_in_dir s p_dir entry of
        (s1, None) \<Rightarrow> (s1, None)
      | (s1, Some (p, _)) \<Rightarrow>
          checksum_loop n s1 p_dir (entry + 1) (calc_checksum_2byte (load_entry s1 p) DENTRY_SIZE chksum CS_DEFAULT))"

definition update_dir_checksum :: "sb \<Rightarrow> CHAIN_T \<Rightarrow> int \<Rightarrow> sb" where
  "update_dir_checksum s p_dir entry =
     (case get_entry_in_dir s p_dir entry of
        (s1, None) \<Rightarrow> s1
      | (s1, Some (file_ep, sector)) \<Rightarrow>
          let s2 = buf_lock s1 sector; e = load_entry s2 file_ep
          in case checksum_loop (unat (e ! offsetof FILE_DENTRY_T ''num_ext'')) s2 p_dir (entry + 1)
                    (calc_checksum_2byte e DENTRY_SIZE 0 CS_DIR_ENTRY) of
               (s3, None) \<Rightarrow> buf_unlock s3 sector
             | (s3, Some chksum) \<Rightarrow>
                 buf_unlock (buf_modify (store_entry s3 file_ep
                   (SET16 (load_entry s3 file_ep) (offsetof FILE_DENTRY_T ''checksum'') chksum)) sector) sector)"

fun name_loop :: "nat \<Rightarrow> sb \<Rightarrow> CHAIN_T \<Rightarrow> int \<Rightarrow> u16 list \<Rightarrow> sb \<times> ffs" where
  "name_loop 0 s p_dir entry uniname = (s, FFS_SUCCESS)"
| "name_loop (Suc n) s p_dir entry uniname =
     (case update_entry s p_dir entry (\<lambda>e. init_name_entry e uniname) of
        (s1, None) \<Rightarrow> (s1, FFS_MEDIAERR)
      | (s1, Some _) \<Rightarrow> name_loop n s1 p_dir (entry + 1) (drop 15 uniname))"

definition exfat_init_ext_entry :: "sb \<Rightarrow> CHAIN_T \<Rightarrow> int \<Rightarrow> int \<Rightarrow> UNI_NAME_T \<Rightarrow> DOS_NAME_T \<Rightarrow> sb \<times> ffs" where
  "exfat_init_ext_entry s p_dir entry num_entries p_uniname p_dosname =
     (case update_entry s p_dir entry (\<lambda>e. e[offsetof FILE_DENTRY_T ''num_ext'' := word_of_int (num_entries - 1)]) of
        (s1, None) \<Rightarrow> (s1, FFS_MEDIAERR)
      | (s1, Some _) \<Rightarrow>
          (case update_entry s1 p_dir (entry + 1)
                  (\<lambda>e. SET16 (e[offsetof STRM_DENTRY_T ''name_len'' := name_len p_uniname])
                         (offsetof STRM_DENTRY_T ''name_hash'') (name_hash p_uniname)) of
             (s2, None) \<Rightarrow> (s2, FFS_MEDIAERR)
           | (s2, Some _) \<Rightarrow>
               (case name_loop (nat (num_entries - 2)) s2 p_dir (entry + 2) (uni_name p_uniname) of
                  (s3, ret) \<Rightarrow>
                    if ret \<noteq> FFS_SUCCESS then (s3, ret) else (update_dir_checksum s3 p_dir entry, FFS_SUCCESS))))"

end
