(* ===== verification/EntrySet.thy ===== *)
theory EntrySet
  imports Dir
begin

text \<open>
  Entry sets: the copy of all entries of a file that \<open>get_entry_set_in_dir\<close> reads and checks, and the functions that
  write it back.  An \<open>ENTRY_SET_CACHE_T *\<close> is the structure itself, with the entries behind it as the byte list
  \<open>es_buf\<close>; an entry in it is given by its index.
\<close>

record ENTRY_SET_CACHE_T =
  es_sector :: u32
  es_offset :: nat
  es_alloc_flag :: u8
  es_num_entries :: nat
  es_buf :: "u8 list"

abbreviation (input) ES_ALL_ENTRIES :: nat where "ES_ALL_ENTRIES \<equiv> 0"
abbreviation (input) ES_2_ENTRIES :: nat where "ES_2_ENTRIES \<equiv> 2"
abbreviation (input) ES_3_ENTRIES :: nat where "ES_3_ENTRIES \<equiv> 3"

definition es_entry :: "ENTRY_SET_CACHE_T \<Rightarrow> nat \<Rightarrow> dentry" where
  "es_entry es k = slice_at (es_buf es) (DENTRY_SIZE * k) DENTRY_SIZE"

definition es_put :: "ENTRY_SET_CACHE_T \<Rightarrow> nat \<Rightarrow> dentry \<Rightarrow> ENTRY_SET_CACHE_T" where
  "es_put es k e = es\<lparr>es_buf := splice_at (es_buf es) (DENTRY_SIZE * k) e\<rparr>"

section \<open>The order of the entries\<close>

text \<open>The state machine that checks the order of the entries of a file; \<open>None\<close> is the jump to \<open>err_out\<close>.\<close>

datatype es_mode = ES_MODE_STARTED | ES_MODE_GET_FILE_ENTRY | ES_MODE_GET_STRM_ENTRY | ES_MODE_GET_NAME_ENTRY
  | ES_MODE_GET_CRITICAL_SEC_ENTRY

fun es_step :: "es_mode \<Rightarrow> u32 \<Rightarrow> es_mode option" where
  "es_step ES_MODE_STARTED t = (if t = TYPE_FILE \<or> t = TYPE_DIR then Some ES_MODE_GET_FILE_ENTRY else None)"
| "es_step ES_MODE_GET_FILE_ENTRY t = (if t = TYPE_STREAM then Some ES_MODE_GET_STRM_ENTRY else None)"
| "es_step ES_MODE_GET_STRM_ENTRY t = (if t = TYPE_EXTEND then Some ES_MODE_GET_NAME_ENTRY else None)"
| "es_step ES_MODE_GET_NAME_ENTRY t =
     (if t = TYPE_EXTEND then Some ES_MODE_GET_NAME_ENTRY
      else if t = TYPE_STREAM then None
      else if t AND TYPE_CRITICAL_SEC \<noteq> 0 then Some ES_MODE_GET_CRITICAL_SEC_ENTRY
      else None)"
| "es_step ES_MODE_GET_CRITICAL_SEC_ENTRY t =
     (if t = TYPE_EXTEND \<or> t = TYPE_STREAM then None
      else if t AND TYPE_CRITICAL_SEC \<noteq> TYPE_CRITICAL_SEC then None
      else Some ES_MODE_GET_CRITICAL_SEC_ENTRY)"

section \<open>Reading a set\<close>

text \<open>The sector after \<open>sec\<close> in a file of cluster \<open>clu\<close>, as both loops compute it.\<close>

definition next_sector :: "sb \<Rightarrow> u8 \<Rightarrow> u32 \<Rightarrow> u32 \<Rightarrow> sb \<times> (u32 \<times> u32) option" where
  "next_sector s alloc_flag clu sec =
     (if IS_LAST_SECTOR_IN_CLUSTER s sec then
        (case (if alloc_flag = 0x03 then (s, Some (clu + 1)) else FAT_read s clu) of
           (s1, None) \<Rightarrow> (s1, None)
         | (s1, Some clu) \<Rightarrow> (s1, Some (clu, START_SECTOR s1 clu)))
      else (s, Some (clu, sec + 1)))"

text \<open>The loop over the entries: \<open>n\<close> remain, \<open>b\<close>, \<open>off\<close> is the entry in the buffer of \<open>sec\<close>; the result is the copied bytes.\<close>

fun es_loop :: "nat \<Rightarrow> sb \<Rightarrow> u8 \<Rightarrow> es_mode \<Rightarrow> u32 \<Rightarrow> u32 \<Rightarrow> u32 \<Rightarrow> nat \<Rightarrow> sb \<times> u8 list option" where
  "es_loop 0 s flag mode clu sec b off = (s, Some [])"
| "es_loop (Suc n) s flag mode clu sec b off =
     (let e = load_entry s (b, off); entry_type = get_entry_type (dentry_func s) e
      in if entry_type = TYPE_UNUSED \<or> entry_type = TYPE_DELETED then (s, None)
         else case es_step mode entry_type of
                None \<Rightarrow> (s, None)
              | Some mode \<Rightarrow>
                  if n = 0 then (s, Some e)
                  else case (if (int off + int DENTRY_SIZE) AND sector_size_mask s < int off AND sector_size_mask s
                             then (case next_sector s flag clu sec of
                                     (s1, None) \<Rightarrow> (s1, None)
                                   | (s1, Some (clu, sec)) \<Rightarrow>
                                       (case buf_getblk s1 sec of
                                          (s2, None) \<Rightarrow> (s2, None)
                                        | (s2, Some b) \<Rightarrow> (s2, Some (clu, sec, b, 0))))
                             else (s, Some (clu, sec, b, off + DENTRY_SIZE))) of
                         (s1, None) \<Rightarrow> (s1, None)
                       | (s1, Some (clu, sec, b, off)) \<Rightarrow>
                           (case es_loop n s1 flag mode clu sec b off of
                              (s2, None) \<Rightarrow> (s2, None)
                            | (s2, Some rest) \<Rightarrow> (s2, Some (e @ rest))))"

definition get_entry_set_in_dir :: "sb \<Rightarrow> CHAIN_T \<Rightarrow> int \<Rightarrow> nat \<Rightarrow> sb \<times> ENTRY_SET_CACHE_T option" where
  "get_entry_set_in_dir s p_dir entry type =
     (let byte_offset = push_bit DENTRY_SIZE_BITS entry
      in case walk_fat_chain s p_dir byte_offset of
           (s1, None) \<Rightarrow> (s1, None)
         | (s1, Some clu) \<Rightarrow>
             (case split_offset s1 (in_cluster s1 byte_offset) (START_SECTOR s1 clu) of
                (sec, off) \<Rightarrow>
                  (case buf_getblk s1 sec of
                     (s2, None) \<Rightarrow> (s2, None)
                   | (s2, Some b) \<Rightarrow>
                       let ep = load_entry s2 (b, off); entry_type = get_entry_type (dentry_func s2) ep
                       in if entry_type \<noteq> TYPE_FILE \<and> entry_type \<noteq> TYPE_DIR then (s2, None)
                          else let num_entries = (if type = ES_ALL_ENTRIES
                                                  then unat ((ep ! offsetof FILE_DENTRY_T ''num_ext'') + 1) else type)
                               in case kmalloc s2 of
                                    (s3, False) \<Rightarrow> (s3, None)
                                  | (s3, True) \<Rightarrow>
                                      (case es_loop num_entries s3 (ch_flags p_dir) ES_MODE_STARTED clu sec b off of
                                         (s4, None) \<Rightarrow> (s4, None)
                                       | (s4, Some bytes) \<Rightarrow>
                                           (s4, Some \<lparr>es_sector = sec, es_offset = off, es_alloc_flag = ch_flags p_dir,
                                                      es_num_entries = num_entries, es_buf = bytes\<rparr>)))))"

section \<open>Writing a set back\<close>

text \<open>The loop writes one sector per iteration; it would not end on a sector in which no entry fits.\<close>

partial_function (option) write_entries_loop ::
  "sb \<Rightarrow> ENTRY_SET_CACHE_T \<Rightarrow> u32 \<Rightarrow> nat \<Rightarrow> nat \<Rightarrow> nat \<Rightarrow> (sb \<times> ffs) option" where
  "write_entries_loop s es sec off buf_off num_entries =
     (if num_entries = 0 then Some (s, FFS_SUCCESS)
      else let copy_entries = min ((2 ^ sector_size_bits s - off) div DENTRY_SIZE) num_entries
           in case buf_getblk s sec of
                (s1, None) \<Rightarrow> Some (s1, FFS_ERROR)
              | (s1, Some b) \<Rightarrow>
                  let s2 = buf_modify (poke b off (slice_at (es_buf es) buf_off (DENTRY_SIZE * copy_entries)) s1) sec
                  in if num_entries - copy_entries = 0 then Some (s2, FFS_SUCCESS)
                     else case next_sector s2 (es_alloc_flag es) (GET_CLUSTER_FROM_SECTOR s2 sec) sec of
                            (s3, None) \<Rightarrow> Some (s3, FFS_ERROR)
                          | (s3, Some (_, sec)) \<Rightarrow>
                              write_entries_loop s3 es sec 0 (buf_off + DENTRY_SIZE * copy_entries) (num_entries - copy_entries))"

definition write_whole_entry_set :: "sb \<Rightarrow> ENTRY_SET_CACHE_T \<Rightarrow> (sb \<times> ffs) option" where
  "write_whole_entry_set s es = write_entries_loop s es (es_sector es) (es_offset es) 0 (es_num_entries es)"

fun es_checksum :: "nat \<Rightarrow> ENTRY_SET_CACHE_T \<Rightarrow> nat \<Rightarrow> u16 \<Rightarrow> u16" where
  "es_checksum 0 es i chksum = chksum"
| "es_checksum (Suc n) es i chksum =
     es_checksum n es (Suc i)
       (calc_checksum_2byte (es_entry es i) DENTRY_SIZE chksum (if i = 0 then CS_DIR_ENTRY else CS_DEFAULT))"

definition update_dir_checksum_with_entry_set :: "sb \<Rightarrow> ENTRY_SET_CACHE_T \<Rightarrow> (sb \<times> ENTRY_SET_CACHE_T) option" where
  "update_dir_checksum_with_entry_set s es =
     (let chksum = es_checksum (es_num_entries es) es 0 0;
          es = es_put es 0 (SET16 (es_entry es 0) (offsetof FILE_DENTRY_T ''checksum'') chksum)
      in case write_whole_entry_set s es of
           None \<Rightarrow> None
         | Some (s1, _) \<Rightarrow> Some (s1, es))"

section \<open>The names of a file\<close>

text \<open>
  \<open>uniname\<close> is written from index \<open>u\<close> on.  In the FAT version the entries are read backwards from the file's entry.
\<close>

fun fat_name_loop :: "nat \<Rightarrow> sb \<Rightarrow> CHAIN_T \<Rightarrow> int \<Rightarrow> int \<Rightarrow> u16 list \<Rightarrow> nat \<Rightarrow> sb \<times> u16 list" where
  "fat_name_loop 0 s p_dir entry i uniname u = (s, uniname)"
| "fat_name_loop (Suc n) s p_dir entry i uniname u =
     (case get_entry_in_dir s p_dir entry of
        (s1, None) \<Rightarrow> (s1, uniname)
      | (s1, Some (p, _)) \<Rightarrow>
          let e = load_entry s1 p
          in if get_entry_type (dentry_func s1) e = TYPE_EXTEND then
               (let uniname = splice_at uniname u (fst (extract_uni_name_from_ext_entry e i))
                in if 0x40 < e ! offsetof EXT_DENTRY_T ''order'' then (s1, uniname)
                   else fat_name_loop n s1 p_dir (entry - 1) (i + 1) uniname (u + 13))
             else (s1, uniname))"

definition fat_get_uni_name_from_ext_entry :: "sb \<Rightarrow> CHAIN_T \<Rightarrow> int \<Rightarrow> u16 list \<Rightarrow> sb \<times> u16 list" where
  "fat_get_uni_name_from_ext_entry s p_dir entry uniname = fat_name_loop (nat entry) s p_dir (entry - 1) 1 uniname 0"

fun exfat_name_loop :: "nat \<Rightarrow> sb \<Rightarrow> ENTRY_SET_CACHE_T \<Rightarrow> nat \<Rightarrow> u16 list \<Rightarrow> nat \<Rightarrow> u16 list" where
  "exfat_name_loop 0 s es i uniname u = uniname"
| "exfat_name_loop (Suc n) s es i uniname u =
     (if get_entry_type (dentry_func s) (es_entry es i) = TYPE_EXTEND
      then exfat_name_loop n s es (i + 1) (splice_at uniname u (fst (extract_uni_name_from_name_entry (es_entry es i)))) (u + 15)
      else uniname)"

definition exfat_get_uni_name_from_ext_entry :: "sb \<Rightarrow> CHAIN_T \<Rightarrow> int \<Rightarrow> u16 list \<Rightarrow> sb \<times> u16 list" where
  "exfat_get_uni_name_from_ext_entry s p_dir entry uniname =
     (case get_entry_set_in_dir s p_dir entry ES_ALL_ENTRIES of
        (s1, None) \<Rightarrow> (s1, uniname)
      | (s1, Some es) \<Rightarrow>
          if es_num_entries es < 3 then (s1, uniname)
          else (s1, exfat_name_loop (es_num_entries es - 2) s1 es 2 uniname 0))"

section \<open>The number of extended entries\<close>

fun fat_count_ext_loop :: "nat \<Rightarrow> sb \<Rightarrow> CHAIN_T \<Rightarrow> int \<Rightarrow> u8 \<Rightarrow> int \<Rightarrow> sb \<times> int" where
  "fat_count_ext_loop 0 s p_dir entry chksum count = (s, count)"
| "fat_count_ext_loop (Suc n) s p_dir entry chksum count =
     (case get_entry_in_dir s p_dir entry of
        (s1, None) \<Rightarrow> (s1, -1)
      | (s1, Some (p, _)) \<Rightarrow>
          let e = load_entry s1 p
          in if get_entry_type (dentry_func s1) e = TYPE_EXTEND \<and> e ! offsetof EXT_DENTRY_T ''checksum'' = chksum
             then if 0x40 < e ! offsetof EXT_DENTRY_T ''order'' then (s1, count + 1)
                  else fat_count_ext_loop n s1 p_dir (entry - 1) chksum (count + 1)
             else (s1, count))"

definition fat_count_ext_entries :: "sb \<Rightarrow> CHAIN_T \<Rightarrow> int \<Rightarrow> dentry \<Rightarrow> sb \<times> int" where
  "fat_count_ext_entries s p_dir entry p_entry =
     fat_count_ext_loop (nat entry) s p_dir (entry - 1) (calc_checksum_1byte p_entry DOS_NAME_LENGTH 0) 0"

fun exfat_count_ext_loop :: "nat \<Rightarrow> sb \<Rightarrow> CHAIN_T \<Rightarrow> int \<Rightarrow> int \<Rightarrow> sb \<times> int" where
  "exfat_count_ext_loop 0 s p_dir entry count = (s, count)"
| "exfat_count_ext_loop (Suc n) s p_dir entry count =
     (case get_entry_in_dir s p_dir entry of
        (s1, None) \<Rightarrow> (s1, -1)
      | (s1, Some (p, _)) \<Rightarrow>
          let type = get_entry_type (dentry_func s1) (load_entry s1 p)
          in if type = TYPE_EXTEND \<or> type = TYPE_STREAM
             then exfat_count_ext_loop n s1 p_dir (entry + 1) (count + 1)
             else (s1, count))"

definition exfat_count_ext_entries :: "sb \<Rightarrow> CHAIN_T \<Rightarrow> int \<Rightarrow> dentry \<Rightarrow> sb \<times> int" where
  "exfat_count_ext_entries s p_dir entry p_entry =
     exfat_count_ext_loop (unat (p_entry ! offsetof FILE_DENTRY_T ''num_ext'')) s p_dir (entry + 1) 0"

end
