(* ===== verification/DirScan.thy ===== *)
theory DirScan
  imports EntrySet ClusterApi
begin

text \<open>
  The functions that search a whole directory, from \<open>search_deleted_or_unused_entry\<close> to \<open>is_dir_empty\<close>, and the ones of
  other parts of \<open>exfat_core.c\<close> with the same two nested loops.  The outer loop follows the clusters of the directory, the
  inner one the entries of a cluster; \<open>scan\<close> collects what distinguishes the functions.  A loop body is a function of its
  local variables, the cluster and the entry; it says whether the inner loop goes on (\<open>Continue\<close>), is left (\<open>Break\<close>) or
  the function returns (\<open>Return\<close>).  The outer loop does not end on a directory whose cluster chain is a cycle.

  The bodies do not read what the loops change of the super block.  The code writes the hint \<open>hint_uentry\<close> inside its
  loops; as nothing in between reads it, it is a local variable here and is stored when the function returns.
\<close>

section \<open>The two loops\<close>

datatype ('a, 'r) flow = Continue 'a | Break 'a | Return 'r

record ('a, 'r) scan =
  sc_first :: "'a \<Rightarrow> int"
  sc_body :: "'a \<Rightarrow> CHAIN_T \<Rightarrow> dentry \<Rightarrow> ('a, 'r) flow"
  sc_null :: "'a \<Rightarrow> ('a, 'r) flow"
  sc_fat :: "'a \<Rightarrow> ('a, 'r) flow"
  sc_contig :: bool
  sc_ejects :: bool

text \<open>The inner loop: \<open>n\<close> entries remain from index \<open>i\<close> on.\<close>

fun scan_entries :: "('a, 'r) scan \<Rightarrow> nat \<Rightarrow> sb \<Rightarrow> CHAIN_T \<Rightarrow> int \<Rightarrow> 'a \<Rightarrow> sb \<times> ('a + 'r)" where
  "scan_entries sc 0 s clu i st = (s, Inl st)"
| "scan_entries sc (Suc n) s clu i st =
     (case (case get_entry_in_dir s clu i of
              (s1, None) \<Rightarrow> (s1, sc_null sc st)
            | (s1, Some (p, _)) \<Rightarrow> (s1, sc_body sc st clu (load_entry s1 p))) of
        (s1, Continue st) \<Rightarrow> scan_entries sc n s1 clu (i + 1) st
      | (s1, Break st) \<Rightarrow> (s1, Inl st)
      | (s1, Return r) \<Rightarrow> (s1, Inr r))"

text \<open>The step to the next cluster; \<open>None\<close> if the table cannot be read.\<close>

definition scan_next :: "('a, 'r) scan \<Rightarrow> sb \<Rightarrow> CHAIN_T \<Rightarrow> sb \<times> CHAIN_T option" where
  "scan_next sc s clu =
     (if sc_contig sc \<and> ch_flags clu = 0x03
      then (s, Some (clu\<lparr>ch_size := ch_size clu - 1,
                         ch_dir := (if ch_size clu - 1 > 0 then ch_dir clu + 1 else CLUSTER_EOF)\<rparr>))
      else case FAT_read s (ch_dir clu) of
             (s1, None) \<Rightarrow> (s1, None)
           | (s1, Some c) \<Rightarrow> (s1, Some (clu\<lparr>ch_dir := c\<rparr>)))"

text \<open>The outer loop: \<open>dentries\<close> entries per cluster, \<open>root\<close> says that the directory is the FAT16 root directory.\<close>

partial_function (option) scan_clusters ::
  "('a, 'r) scan \<Rightarrow> int \<Rightarrow> bool \<Rightarrow> sb \<Rightarrow> CHAIN_T \<Rightarrow> 'a \<Rightarrow> (sb \<times> ('a + 'r)) option" where
  "scan_clusters sc dentries root s clu st =
     (if ch_dir clu = CLUSTER_EOF \<or> (sc_ejects sc \<and> dev_ejected s) then Some (s, Inl st)
      else case scan_entries sc (nat (dentries - sc_first sc st)) s clu (sc_first sc st) st of
             (s1, Inr r) \<Rightarrow> Some (s1, Inr r)
           | (s1, Inl st) \<Rightarrow>
               if root then Some (s1, Inl st)
               else case scan_next sc s1 clu of
                      (s2, None) \<Rightarrow>
                        (case sc_fat sc st of
                           Return r \<Rightarrow> Some (s2, Inr r) | Continue st \<Rightarrow> Some (s2, Inl st) | Break st \<Rightarrow> Some (s2, Inl st))
                    | (s2, Some clu) \<Rightarrow> scan_clusters sc dentries root s2 clu st)"

definition dir_dentries :: "sb \<Rightarrow> CHAIN_T \<Rightarrow> int" where
  "dir_dentries s p_dir = to_s32 (if ch_dir p_dir = 0 then dentries_in_root s else dentries_per_clu s)"

definition scan_dir :: "('a, 'r) scan \<Rightarrow> sb \<Rightarrow> CHAIN_T \<Rightarrow> CHAIN_T \<Rightarrow> 'a \<Rightarrow> (sb \<times> ('a + 'r)) option" where
  "scan_dir sc s p_dir clu st = scan_clusters sc (dir_dentries s p_dir) (ch_dir p_dir = 0) s clu st"

section \<open>Empty entries\<close>

text \<open>Local variables: \<open>dentry\<close>, \<open>num_empty\<close> and the hint.\<close>

definition search_body :: "DENTRY_FUNC_T \<Rightarrow> bool \<Rightarrow> u32 \<Rightarrow> int \<Rightarrow> int \<times> int \<times> UENTRY_T \<Rightarrow> CHAIN_T \<Rightarrow> dentry
    \<Rightarrow> (int \<times> int \<times> UENTRY_T, int \<times> UENTRY_T) flow" where
  "search_body ops exfat dir num_entries st clu e =
     (case st of (dentry, num_empty, hint) \<Rightarrow>
        let type = get_entry_type ops e;
            (num_empty, hint) =
              (if type = TYPE_UNUSED then
                 (num_empty + 1,
                  if ue_entry hint = -1 then \<lparr>ue_dir = dir, ue_entry = dentry, ue_clu = clu\<rparr> else hint)
               else if type = TYPE_DELETED then (num_empty + 1, hint)
               else (0, hint))
        in if num_empty \<ge> num_entries
           then Return (if exfat then dentry - (num_entries - 1) else dentry, hint\<lparr>ue_dir := CLUSTER_EOF, ue_entry := -1\<rparr>)
           else Continue (dentry + 1, num_empty, hint))"

definition search_deleted_or_unused_entry :: "sb \<Rightarrow> CHAIN_T \<Rightarrow> int \<Rightarrow> (sb \<times> int) option" where
  "search_deleted_or_unused_entry s p_dir num_entries =
     (let dentries = dir_dentries s p_dir; h = hint_uentry s;
          sc = \<lparr>sc_first = (\<lambda>(dentry, _). if ch_dir p_dir = 0 then dentry mod dentries else dentry AND (dentries - 1)),
                sc_body = search_body (dentry_func s) (vol_type s = EXFAT) (ch_dir p_dir) num_entries,
                sc_null = (\<lambda>(_, _, hint). Return (-1, hint)), sc_fat = (\<lambda>(_, _, hint). Return (-1, hint)),
                sc_contig = True, sc_ejects = True\<rparr>
      in if ue_dir h = ch_dir p_dir \<and> ue_entry h = -1 then Some (s, -1)
         else let (clu, dentry, h) = (if ue_dir h = ch_dir p_dir then (ue_clu h, ue_entry h, h)
                                      else (p_dir, 0, h\<lparr>ue_entry := -1\<rparr>))
              in case scan_dir sc s p_dir clu (dentry, 0, h) of
                   None \<Rightarrow> None
                 | Some (s1, Inr (r, hint)) \<Rightarrow> Some (s1\<lparr>hint_uentry := hint\<rparr>, r)
                 | Some (s1, Inl (_, _, hint)) \<Rightarrow> Some (s1\<lparr>hint_uentry := hint\<rparr>, -1))"

section \<open>Entries by name, FAT\<close>

text \<open>
  Local variables: \<open>dentry\<close>, \<open>is_feasible_entry\<close>, \<open>has_ext_entry\<close> and the pointer \<open>uniname\<close> as an index into the name
  (\<open>None\<close> is \<open>NULL\<close>).  A comparison behind the end of the name, or at \<open>NULL\<close>, returns \<open>None\<close>: there the code reads and
  writes outside the name.
\<close>

definition cmp_name_part :: "sb \<Rightarrow> u16 list \<Rightarrow> int \<Rightarrow> u16 list \<times> int \<Rightarrow> bool option" where
  "cmp_name_part s name u part =
     (if 0 \<le> u \<and> nat (u + snd part) < length name
      then Some (nls_uniname_cmp s ((drop (nat u) name)[nat (snd part) := 0]) (fst part)) else None)"

definition fat_find_body :: "sb \<Rightarrow> UNI_NAME_T \<Rightarrow> DOS_NAME_T \<Rightarrow> u32 \<Rightarrow> int \<times> bool \<times> bool \<times> int option \<Rightarrow> CHAIN_T \<Rightarrow> dentry
    \<Rightarrow> (int \<times> bool \<times> bool \<times> int option, int option) flow" where
  "fat_find_body s p_uniname p_dosname type st clu e =
     (case st of (dentry, is_feasible_entry, has_ext_entry, uniname) \<Rightarrow>
        let entry_type = get_entry_type (dentry_func s) e
        in if entry_type = TYPE_FILE \<or> entry_type = TYPE_DIR then
             (if (type = TYPE_ALL \<or> type = entry_type) \<and>
                 (is_feasible_entry \<and> has_ext_entry \<or>
                  \<not> nls_dosname_cmp (dos_name p_dosname) (slice_at e (offsetof DOS_DENTRY_T ''name'') DOS_NAME_LENGTH))
              then Return (Some dentry)
              else Continue (dentry + 1, True, False, uniname))
           else if entry_type = TYPE_EXTEND then
             (if is_feasible_entry then
                (let ord = e ! offsetof EXT_DENTRY_T ''order'';
                     (order, u) = (if 0x40 < ord then (uint (ord - 0x40), Some (13 * (uint (ord - 0x40) - 1)))
                                   else (uint ord, map_option (\<lambda>u. u - 13) uniname))
                 in case u of
                      None \<Rightarrow> Return None
                    | Some k \<Rightarrow>
                        (case cmp_name_part s (uni_name p_uniname) k (extract_uni_name_from_ext_entry e order) of
                           None \<Rightarrow> Return None
                         | Some differ \<Rightarrow> Continue (dentry + 1, \<not> differ, True, u)))
              else Continue (dentry + 1, is_feasible_entry, True, uniname))
           else if entry_type = TYPE_UNUSED then Return (Some (-2))
           else Continue (dentry + 1, True, False, uniname))"

definition is_dot_name :: "sb \<Rightarrow> UNI_NAME_T \<Rightarrow> bool" where
  "is_dot_name s p_uniname \<longleftrightarrow>
     \<not> nls_uniname_cmp s (uni_name p_uniname) UNI_CUR_DIR_NAME \<or> \<not> nls_uniname_cmp s (uni_name p_uniname) UNI_PAR_DIR_NAME"

definition fat_find_dir_entry :: "sb \<Rightarrow> CHAIN_T \<Rightarrow> UNI_NAME_T \<Rightarrow> int \<Rightarrow> DOS_NAME_T \<Rightarrow> u32 \<Rightarrow> (sb \<times> int) option" where
  "fat_find_dir_entry s p_dir p_uniname num_entries p_dosname type =
     (let sc = \<lparr>sc_first = (\<lambda>_. 0), sc_body = fat_find_body s p_uniname p_dosname type,
                sc_null = (\<lambda>_. Return (Some (-2))), sc_fat = (\<lambda>_. Return (Some (-2))), sc_contig = False, sc_ejects = True\<rparr>
      in if ch_dir p_dir = root_dir s \<and> is_dot_name s p_uniname then Some (s, -1)
         else case scan_dir sc s p_dir p_dir (0, True, False, None) of
                None \<Rightarrow> None
              | Some (s1, Inr (Some r)) \<Rightarrow> Some (s1, r)
              | Some (s1, Inr None) \<Rightarrow> Some (kernel_oops s1, -2)
              | Some (s1, Inl _) \<Rightarrow> Some (s1, -2))"

section \<open>Entries by name, exFAT\<close>

text \<open>
  Local variables: \<open>dentry\<close>, \<open>is_feasible_entry\<close>, \<open>num_ext_entries\<close>, \<open>order\<close>, \<open>uniname\<close>, \<open>num_empty\<close> and the hint.  (When
  the name is found the code leaves a terminator in the caller's copy of it; that copy is not used afterwards.)
\<close>

type_synonym exfat_find = "int \<times> bool \<times> int \<times> int \<times> int option \<times> int \<times> UENTRY_T"

definition exfat_find_body :: "sb \<Rightarrow> UNI_NAME_T \<Rightarrow> int \<Rightarrow> u32 \<Rightarrow> exfat_find \<Rightarrow> CHAIN_T \<Rightarrow> dentry
    \<Rightarrow> (exfat_find, int option \<times> UENTRY_T) flow" where
  "exfat_find_body s p_uniname num_entries type st clu e =
     (case st of (dentry, feasible, num_ext, order, uniname, num_empty, hint) \<Rightarrow>
        let entry_type = get_entry_type (dentry_func s) e
        in if entry_type = TYPE_UNUSED \<or> entry_type = TYPE_DELETED then
             (let (num_empty, hint) =
                    (if ue_entry hint = -1 then
                       (let num_empty = num_empty + 1;
                            hint = (if num_empty = 1 then hint\<lparr>ue_clu := clu\<rparr> else hint)
                        in (num_empty,
                            if num_empty \<ge> num_entries \<or> entry_type = TYPE_UNUSED
                            then hint\<lparr>ue_entry := dentry - (num_empty - 1)\<rparr> else hint))
                     else (num_empty, hint))
              in if entry_type = TYPE_UNUSED then Return (Some (-2), hint)
                 else Continue (dentry + 1, False, num_ext, order, uniname, num_empty, hint))
           else if entry_type = TYPE_FILE \<or> entry_type = TYPE_DIR then
             (if type = TYPE_ALL \<or> type = entry_type
              then Continue (dentry + 1, True, uint (e ! offsetof FILE_DENTRY_T ''num_ext''), order, uniname, 0, hint)
              else Continue (dentry + 1, False, num_ext, order, uniname, 0, hint))
           else if entry_type = TYPE_STREAM then
             (if feasible then
                (if name_len p_uniname = e ! offsetof STRM_DENTRY_T ''name_len''
                 then Continue (dentry + 1, True, num_ext, 1, uniname, 0, hint)
                 else Continue (dentry + 1, False, num_ext, order, uniname, 0, hint))
              else Continue (dentry + 1, feasible, num_ext, order, uniname, 0, hint))
           else if entry_type = TYPE_EXTEND then
             (if feasible then
                (let order = order + 1; u = (if order = 2 then Some 0 else map_option (\<lambda>u. u + 15) uniname)
                 in case u of
                      None \<Rightarrow> Return (None, hint)
                    | Some k \<Rightarrow>
                        (case cmp_name_part s (uni_name p_uniname) k (extract_uni_name_from_name_entry e) of
                           None \<Rightarrow> Return (None, hint)
                         | Some differ \<Rightarrow>
                             if differ then Continue (dentry + 1, False, num_ext, order, u, 0, hint)
                             else if order = num_ext
                             then Return (Some (dentry - num_ext), hint\<lparr>ue_dir := CLUSTER_EOF, ue_entry := -1\<rparr>)
                             else Continue (dentry + 1, feasible, num_ext, order, u, 0, hint)))
              else Continue (dentry + 1, feasible, num_ext, order, uniname, 0, hint))
           else Continue (dentry + 1, False, num_ext, order, uniname, 0, hint))"

definition exfat_find_dir_entry :: "sb \<Rightarrow> CHAIN_T \<Rightarrow> UNI_NAME_T \<Rightarrow> int \<Rightarrow> DOS_NAME_T \<Rightarrow> u32 \<Rightarrow> (sb \<times> int) option" where
  "exfat_find_dir_entry s p_dir p_uniname num_entries p_dosname type =
     (let sc = \<lparr>sc_first = (\<lambda>_. 0), sc_body = exfat_find_body s p_uniname num_entries type,
                sc_null = (\<lambda>(_, _, _, _, _, _, hint). Return (Some (-2), hint)),
                sc_fat = (\<lambda>(_, _, _, _, _, _, hint). Return (Some (-2), hint)), sc_contig = True, sc_ejects = True\<rparr>
      in if ch_dir p_dir = root_dir s \<and> is_dot_name s p_uniname then Some (s, -1)
         else case scan_dir sc s p_dir p_dir
                (0, False, 0, 0, None, 0, (hint_uentry s)\<lparr>ue_dir := ch_dir p_dir, ue_entry := -1\<rparr>) of
                None \<Rightarrow> None
              | Some (s1, Inr (Some r, hint)) \<Rightarrow> Some (s1\<lparr>hint_uentry := hint\<rparr>, r)
              | Some (s1, Inr (None, hint)) \<Rightarrow> Some (kernel_oops (s1\<lparr>hint_uentry := hint\<rparr>), -2)
              | Some (s1, Inl (_, _, _, _, _, _, hint)) \<Rightarrow> Some (s1\<lparr>hint_uentry := hint\<rparr>, -2))"

section \<open>Counting entries\<close>

definition count_body :: "DENTRY_FUNC_T \<Rightarrow> u32 \<Rightarrow> int \<Rightarrow> CHAIN_T \<Rightarrow> dentry \<Rightarrow> (int, int) flow" where
  "count_body ops type count clu e =
     (let entry_type = get_entry_type ops e
      in if entry_type = TYPE_UNUSED then Return count
         else if type AND TYPE_CRITICAL_PRI = 0 \<and> type AND TYPE_BENIGN_PRI = 0 then Continue count
         else if type = TYPE_ALL \<or> type = entry_type then Continue (count + 1)
         else Continue count)"

definition count_dos_name_entries :: "sb \<Rightarrow> CHAIN_T \<Rightarrow> u32 \<Rightarrow> (sb \<times> int) option" where
  "count_dos_name_entries s p_dir type =
     (let sc = \<lparr>sc_first = (\<lambda>_. 0), sc_body = count_body (dentry_func s) type,
                sc_null = (\<lambda>_. Return (-1)), sc_fat = (\<lambda>_. Return (-1)), sc_contig = True, sc_ejects = True\<rparr>
      in case scan_dir sc s p_dir p_dir 0 of
           None \<Rightarrow> None | Some (s1, Inr r) \<Rightarrow> Some (s1, r) | Some (s1, Inl count) \<Rightarrow> Some (s1, count))"

definition empty_body :: "DENTRY_FUNC_T \<Rightarrow> bool \<Rightarrow> bool \<Rightarrow> bool \<Rightarrow> int \<Rightarrow> CHAIN_T \<Rightarrow> dentry \<Rightarrow> (int, bool) flow" where
  "empty_body ops exfat fat16_root is_root count clu e =
     (let type = get_entry_type ops e
      in if type = TYPE_UNUSED then Return True
         else if type \<noteq> TYPE_FILE \<and> type \<noteq> TYPE_DIR then Continue count
         else if fat16_root \<or> exfat \<or> is_root \<or> count + 1 > 2 then Return False
         else Continue (count + 1))"

definition is_dir_empty :: "sb \<Rightarrow> CHAIN_T \<Rightarrow> (sb \<times> bool) option" where
  "is_dir_empty s p_dir =
     (let sc = \<lparr>sc_first = (\<lambda>_. 0),
                sc_body = empty_body (dentry_func s) (vol_type s = EXFAT) (ch_dir p_dir = 0) (ch_dir p_dir = root_dir s),
                sc_null = Break, sc_fat = Break, sc_contig = True, sc_ejects = True\<rparr>
      in case scan_dir sc s p_dir p_dir 0 of
           None \<Rightarrow> None | Some (s1, Inr r) \<Rightarrow> Some (s1, r) | Some (s1, Inl _) \<Rightarrow> Some (s1, True))"

end
