(* ===== verification/DirApi.thy ===== *)
theory DirApi
  imports DirScan FatProps NameEntries NamesProps
begin

text \<open>
  Directories as lists of entries.  On a working volume (\<open>dir_ok\<close>) every entry of a cluster can be read, and the scan of
  a directory is a function of the list of its entries: the two loops end and visit the entries in order.
\<close>

section \<open>Readable directories\<close>

definition clu_geom :: "sb \<Rightarrow> bool" where
  "clu_geom s \<longleftrightarrow> (let b = sector_size_bits s; cb = unat (cluster_size_bits s)
     in b \<le> cb \<and> cb \<le> 25 \<and> cluster_size s = 2 ^ cb \<and> dentries_per_clu s = 2 ^ (cb - 5) \<and>
        (\<forall>c. 2 \<le> c \<longrightarrow> c < num_clusters s \<longrightarrow> (\<forall>k < 2 ^ (cb - b). \<not> out_of_range s (START_SECTOR s c + of_nat k))))"

definition dir_ok :: "sb \<Rightarrow> bool" where
  "dir_ok s \<longleftrightarrow> tbl_ok s \<and> bufc.inv s \<and> 0 < free_entries s \<and> clu_geom s"

definition per_clu :: "sb \<Rightarrow> nat" where
  "per_clu s = 2 ^ (unat (cluster_size_bits s) - 5)"

definition entry_ptr :: "sb \<Rightarrow> u32 \<Rightarrow> nat \<Rightarrow> dptr" where
  "entry_ptr s c i = (START_SECTOR s c + of_nat (32 * i div 2 ^ sector_size_bits s), 32 * i mod 2 ^ sector_size_bits s)"

definition entry_at :: "sb \<Rightarrow> u32 \<Rightarrow> nat \<Rightarrow> dentry" where
  "entry_at s c i = load_entry s (entry_ptr s c i)"

definition cluster_entries :: "sb \<Rightarrow> u32 \<Rightarrow> dentry list" where
  "cluster_entries s c = map (entry_at s c) [0..<per_clu s]"

lemma length_cluster_entries [simp]: "length (cluster_entries s c) = per_clu s"
  by (simp add: cluster_entries_def)

lemma dir_ok_fields:
  assumes "dir_ok s"
  shows "tbl_ok s" "fat_ok s" "io_ready s" "geom s" "bufc.inv s" "buf_room (the_buf_cache s)" "clu_geom s" "FATc.inv s"
    "dev_ejected s = False"
  using assms by (auto simp: dir_ok_def tbl_ok_def fat_ok_def fat_ready_def buf_room_iff io_ready_def)

section \<open>Steps that keep a directory\<close>

text \<open>\<open>vol_eq\<close> steps that keep the two cache invariants keep everything a directory needs.\<close>

lemma clu_geom_frame: "clu_frame s s' \<Longrightarrow> cluster_size_bits s' = cluster_size_bits s \<Longrightarrow> cluster_size s' = cluster_size s
    \<Longrightarrow> dentries_per_clu s' = dentries_per_clu s \<Longrightarrow> clu_geom s' = clu_geom s"
  using clu_frame_fields clu_frame_derived by (simp add: clu_geom_def)

lemma buf_inv_cong: "drv s' = drv s \<Longrightarrow> buf_hash s' = buf_hash s \<Longrightarrow> the_buf_cache s' = the_buf_cache s \<Longrightarrow> bufc.inv s' = bufc.inv s"
  by (simp add: bufc.inv_def)

lemma dir_view:
  assumes "vol_eq s s'"
  shows "per_clu s' = per_clu s" "entry_ptr s' = entry_ptr s" "entry_at s' = entry_at s" "cluster_entries s' = cluster_entries s"
    "clu_geom s' = clu_geom s"
proof -
  note f = same_volume_fields [OF vol_eq_same [OF assms]] same_volume_derived [OF vol_eq_same [OF assms]]
  show p: "per_clu s' = per_clu s" "entry_ptr s' = entry_ptr s" by (simp_all add: per_clu_def entry_ptr_def fun_eq_iff f)
  show e: "entry_at s' = entry_at s" by (simp add: entry_at_def load_entry_def fun_eq_iff p f)
  show "cluster_entries s' = cluster_entries s" by (simp add: cluster_entries_def fun_eq_iff p e)
  show "clu_geom s' = clu_geom s" by (rule clu_geom_frame [OF vol_clu_frame [OF assms]]) (simp_all add: f)
qed

lemma buf_getblk_FAT_cache: "buf_getblk s sec = (s', r) \<Longrightarrow> FAT_cache s' = FAT_cache s"
  by (auto simp: buf_getblk_eq Let_def sector_read_frame(2) split: option.splits prod.splits if_splits)

lemma getblk_dir:
  assumes "dir_ok s" "\<not> out_of_range s sec"
  obtains s' where "buf_getblk s sec = (s', Some sec)" "dir_ok s'" "vol_eq s s'" "fat_get s' = fat_get s" "bufc.holds s' sec"
proof -
  note o = dir_ok_fields [OF assms(1)]
  obtain s' where s': "buf_getblk s sec = (s', Some sec)" "bufc.inv s'" "vol_eq s s'" "bufc.holds s' sec"
    using bufc.getblk_works [OF o(5,6,3) assms(2)] by blast
  have t: "tbl_ok s' = tbl_ok s" "fat_get s' = fat_get s"
    using table_view [OF vol_clu_frame [OF s'(3)]] same_volume_fields(1) [OF vol_eq_same [OF s'(3)]] buf_getblk_FAT_cache [OF s'(1)]
    by simp_all
  have "0 < free_entries s'" using getblk_free_entries [OF s'(1)] assms(1) by (simp add: dir_ok_def)
  then have "dir_ok s'" using s'(2) o(1,7) t(1) dir_view(5) [OF s'(3)] by (simp add: dir_ok_def)
  then show thesis using that s' t(2) by blast
qed

lemma read_dir:
  assumes "dir_ok s" "c < num_clusters s"
  obtains s' where "FAT_read s c = (s', Some (fat_get s c))" "dir_ok s'" "vol_eq s s'" "fat_get s' = fat_get s"
proof -
  note o = dir_ok_fields [OF assms(1)]
  obtain s' where s': "FAT_read s c = (s', Some (fat_get s c))" "tbl_ok s'" "fat_frame s s'" "fat_get s' = fat_get s" "vol_eq s s'"
    using table_read [OF o(1) assms(2)] by blast
  have b: "the_buf_cache s' = the_buf_cache s" using fat_frame_fields(4) [OF s'(3)] .
  have "bufc.inv s'"
    using buf_inv_cong [OF _ _ b] same_volume_fields(5) [OF vol_eq_same [OF s'(5)]] same_volume_derived(3) [OF vol_eq_same [OF s'(5)]] o(5)
    by simp
  moreover have "free_entries s' = free_entries s" by (simp add: free_entries_def b)
  ultimately have "dir_ok s'" using s'(2) assms(1) dir_view(5) [OF s'(5)] by (simp add: dir_ok_def)
  then show thesis using that s' by blast
qed

section \<open>Reading an entry\<close>

lemma drop_bit_int: "drop_bit n (int k) = int (k div 2 ^ n)"
  by (simp add: drop_bit_eq_div zdiv_int)

lemma split_offset_eq:
  assumes "geom s"
  shows "split_offset s (int off) base = (base + of_nat (off div 2 ^ sector_size_bits s), off mod 2 ^ sector_size_bits s)"
proof -
  have "sector_size_mask s = mask (sector_size_bits s)" using assms by (simp add: geom_def mask_eq_exp_minus_1)
  then have "int off AND sector_size_mask s = int (off mod 2 ^ sector_size_bits s)"
    by (simp only: take_bit_eq_mask [symmetric] take_bit_eq_mod zmod_int of_nat_power of_nat_numeral)
  moreover have "drop_bit (sector_size_bits s) (int off) = int (off div 2 ^ sector_size_bits s)"
    by (rule drop_bit_int)
  ultimately show ?thesis by (simp add: split_offset_def of_s32_def add.commute)
qed

lemma in_cluster_eq:
  assumes "clu_geom s" "off < 2 ^ unat (cluster_size_bits s)"
  shows "in_cluster s (int off) = int off" "drop_bit (unat (cluster_size_bits s)) (int off) = 0"
proof -
  define cb where "cb = unat (cluster_size_bits s)"
  have cb: "cb \<le> 25" "cluster_size s = 2 ^ cb" using assms(1) by (simp_all add: clu_geom_def cb_def Let_def)
  have off: "off < 2 ^ cb" using assms(2) by (simp add: cb_def)
  also have "(2 :: nat) ^ cb \<le> 2 ^ 25" using cb(1) by (rule power_increasing) simp
  finally have lim: "off < 2 ^ 31" by simp
  have "of_s32 (int off) AND (cluster_size s - 1) = take_bit cb (of_nat off)"
    by (simp add: of_s32_def cb(2) take_bit_eq_mask mask_eq_exp_minus_1)
  also have "\<dots> = of_nat off"
  proof -
    have "unat (take_bit cb (of_nat off :: u32)) = off" using off lim by (simp add: unat_take_bit unat_of_nat)
    then show ?thesis by (rule unat_word)
  qed
  finally show "in_cluster s (int off) = int off"
    using lim by (simp add: in_cluster_def to_s32_def signed_of_nat signed_take_bit_int_eq_self)
  show "drop_bit (unat (cluster_size_bits s)) (int off) = 0"
    using off unfolding drop_bit_int cb_def by simp
qed

lemma per_clu_bytes: "clu_geom s \<Longrightarrow> geom s \<Longrightarrow> i < per_clu s \<Longrightarrow> 32 * i < 2 ^ unat (cluster_size_bits s)"
proof -
  assume a: "clu_geom s" "geom s" "i < per_clu s"
  then have "5 \<le> unat (cluster_size_bits s)" by (simp add: clu_geom_def geom_def Let_def)
  then have "(2 :: nat) ^ unat (cluster_size_bits s) = 32 * per_clu s"
    using power_add [of "2 :: nat" 5 "unat (cluster_size_bits s) - 5"] by (simp add: per_clu_def)
  then show ?thesis using a(3) by simp
qed

lemma entry_in_range:
  assumes "clu_geom s" "geom s" "2 \<le> c" "c < num_clusters s" "i < per_clu s"
  shows "\<not> out_of_range s (fst (entry_ptr s c i))"
proof -
  define b cb where "b = sector_size_bits s" and "cb = unat (cluster_size_bits s)"
  have "b \<le> cb" using assms(1) by (simp add: clu_geom_def b_def cb_def Let_def)
  have "32 * i < 2 ^ cb" using per_clu_bytes [OF assms(1,2,5)] by (simp add: cb_def)
  also have "(2 :: nat) ^ cb = 2 ^ (cb - b) * 2 ^ b" using \<open>b \<le> cb\<close> by (simp flip: power_add)
  finally have "32 * i div 2 ^ b < 2 ^ (cb - b)" by (rule less_mult_imp_div_less)
  then show ?thesis
    using assms(1,3,4) unfolding clu_geom_def Let_def entry_ptr_def fst_conv b_def cb_def by blast
qed

lemma get_entry_ok:
  assumes "dir_ok s" "2 \<le> ch_dir clu" "ch_dir clu < num_clusters s" "i < per_clu s"
  obtains s' where "get_entry_in_dir s clu (int i) = (s', Some (entry_ptr s (ch_dir clu) i, fst (entry_ptr s (ch_dir clu) i)))"
    "dir_ok s'" "vol_eq s s'" "fat_get s' = fat_get s" "bufc.holds s' (fst (entry_ptr s (ch_dir clu) i))"
proof -
  note o = dir_ok_fields [OF assms(1)]
  have nz: "ch_dir clu \<noteq> 0" using assms(2) by auto
  have off: "push_bit 5 (int i) = int (32 * i)" by (simp add: push_bit_eq_mult)
  note lim = per_clu_bytes [OF o(7,4) assms(4)]
  have "find_location s clu (int i) = (s, Some (split_offset s (int (32 * i)) (START_SECTOR s (ch_dir clu))))"
    unfolding find_location_def walk_fat_chain_def Let_def off
    using nz by (simp add: in_cluster_eq [OF o(7) lim, simplified] of_s32_def)
  then have loc: "find_location s clu (int i) = (s, Some (entry_ptr s (ch_dir clu) i))"
    by (simp only: split_offset_eq [OF o(4)] entry_ptr_def)
  obtain s' where s': "buf_getblk s (fst (entry_ptr s (ch_dir clu) i)) = (s', Some (fst (entry_ptr s (ch_dir clu) i)))" "dir_ok s'" "vol_eq s s'"
    "fat_get s' = fat_get s" "bufc.holds s' (fst (entry_ptr s (ch_dir clu) i))"
    using getblk_dir [OF assms(1) entry_in_range [OF o(7,4) assms(2-4)]] by blast
  obtain b off where p: "entry_ptr s (ch_dir clu) i = (b, off)" by fastforce
  show thesis
    by (rule that [OF _ s'(2-5)]) (use s'(1) in \<open>simp add: get_entry_in_dir_def loc p\<close>)
qed

section \<open>Scans as functions of the entries\<close>

text \<open>The inner loop on a list of entries, and the outer loop on the clusters it visits with their entries.\<close>

fun scan_list :: "('a, 'r) scan \<Rightarrow> CHAIN_T \<Rightarrow> dentry list \<Rightarrow> 'a \<Rightarrow> 'a + 'r" where
  "scan_list sc clu [] st = Inl st"
| "scan_list sc clu (e # es) st =
     (case sc_body sc st clu e of Continue st \<Rightarrow> scan_list sc clu es st | Break st \<Rightarrow> Inl st | Return r \<Rightarrow> Inr r)"

fun scan_path :: "('a, 'r) scan \<Rightarrow> (CHAIN_T \<times> dentry list) list \<Rightarrow> 'a \<Rightarrow> 'a + 'r" where
  "scan_path sc [] st = Inl st"
| "scan_path sc ((clu, es) # ks) st =
     (case scan_list sc clu es st of Inl st \<Rightarrow> scan_path sc ks st | Inr r \<Rightarrow> Inr r)"

lemma scan_entries_ok:
  assumes "dir_ok s" "2 \<le> ch_dir clu" "ch_dir clu < num_clusters s" "i + n \<le> per_clu s"
  shows "\<exists>s'. scan_entries sc n s clu (int i) st = (s', scan_list sc clu (map (entry_at s (ch_dir clu)) [i..<i + n]) st) \<and>
    dir_ok s' \<and> vol_eq s s' \<and> fat_get s' = fat_get s"
  using assms
proof (induction n arbitrary: s i st)
  case 0
  then show ?case by simp
next
  case (Suc n)
  have "i < per_clu s" using Suc.prems(4) by simp
  then obtain s1 where s1: "get_entry_in_dir s clu (int i) = (s1, Some (entry_ptr s (ch_dir clu) i, fst (entry_ptr s (ch_dir clu) i)))"
    "dir_ok s1" "vol_eq s s1" "fat_get s1 = fat_get s"
    using get_entry_ok [OF Suc.prems(1-3)] by blast
  note f = same_volume_fields [OF vol_eq_same [OF s1(3)]]
  note v = dir_view [OF s1(3)]
  have e: "load_entry s1 (entry_ptr s (ch_dir clu) i) = entry_at s (ch_dir clu) i"
    using v(3) by (simp add: entry_at_def fun_eq_iff v(2))
  have l: "[i..<i + Suc n] = i # [Suc i..<Suc i + n]" by (simp add: upt_conv_Cons)
  have step: "scan_entries sc (Suc n) s clu (int i) st =
     (case sc_body sc st clu (entry_at s (ch_dir clu) i) of
        Continue st \<Rightarrow> scan_entries sc n s1 clu (int (Suc i)) st | Break st \<Rightarrow> (s1, Inl st) | Return r \<Rightarrow> (s1, Inr r))"
    by (simp add: s1(1) e add.commute split: flow.split)
  show ?case
  proof (cases "sc_body sc st clu (entry_at s (ch_dir clu) i)")
    case (Continue st1)
    have "\<exists>s'. scan_entries sc n s1 clu (int (Suc i)) st1 =
        (s', scan_list sc clu (map (entry_at s1 (ch_dir clu)) [Suc i..<Suc i + n]) st1) \<and>
        dir_ok s' \<and> vol_eq s1 s' \<and> fat_get s' = fat_get s1"
      using Suc.prems f(13) v(1) by (intro Suc.IH [OF s1(2)]) auto
    then show ?thesis
      using vol_eq_trans [OF s1(3)] unfolding step l Continue by (auto simp: v(3) s1(4) Continue)
  next
    case (Break st1)
    then show ?thesis using s1 unfolding step l by simp
  next
    case (Return r)
    then show ?thesis using s1 unfolding step l by simp
  qed
qed

text \<open>The clusters that the outer loop visits from \<open>clu\<close> on, all of them on the volume.\<close>

definition next_clu :: "bool \<Rightarrow> sb \<Rightarrow> CHAIN_T \<Rightarrow> CHAIN_T" where
  "next_clu contig s clu =
     (if contig \<and> ch_flags clu = 0x03
      then clu\<lparr>ch_size := ch_size clu - 1, ch_dir := (if ch_size clu - 1 > 0 then ch_dir clu + 1 else CLUSTER_EOF)\<rparr>
      else clu\<lparr>ch_dir := fat_get s (ch_dir clu)\<rparr>)"

fun dir_path :: "bool \<Rightarrow> sb \<Rightarrow> CHAIN_T \<Rightarrow> CHAIN_T list \<Rightarrow> bool" where
  "dir_path contig s clu [] \<longleftrightarrow> ch_dir clu = CLUSTER_EOF"
| "dir_path contig s clu (k # ks) \<longleftrightarrow>
     k = clu \<and> 2 \<le> ch_dir clu \<and> ch_dir clu < num_clusters s \<and> dir_path contig s (next_clu contig s clu) ks"

definition path_entries :: "sb \<Rightarrow> CHAIN_T list \<Rightarrow> (CHAIN_T \<times> dentry list) list" where
  "path_entries s ks = map (\<lambda>k. (k, cluster_entries s (ch_dir k))) ks"

lemma dir_path_cong: "num_clusters s' = num_clusters s \<Longrightarrow> fat_get s' = fat_get s \<Longrightarrow> dir_path contig s' clu ks = dir_path contig s clu ks"
  by (induction ks arbitrary: clu) (simp_all add: next_clu_def)

lemma scan_clusters_ok:
  assumes "dir_ok s" "dir_path (sc_contig sc) s clu ks" "per_clu s = m" "dentries = int m" "P st"
    "\<And>st. P st \<Longrightarrow> sc_first sc st = 0"
    "\<And>clu es st st'. P st \<Longrightarrow> length es = m \<Longrightarrow> scan_list sc clu es st = Inl st' \<Longrightarrow> P st'"
  shows "\<exists>s'. scan_clusters sc dentries False s clu st = Some (s', scan_path sc (path_entries s ks) st) \<and>
    dir_ok s' \<and> vol_eq s s' \<and> fat_get s' = fat_get s"
  using assms(1-3,5)
proof (induction ks arbitrary: s clu st)
  case Nil
  then show ?case by (subst scan_clusters.simps) (simp add: path_entries_def)
next
  case (Cons k ks)
  have k: "k = clu" "2 \<le> ch_dir clu" "ch_dir clu < num_clusters s" "dir_path (sc_contig sc) s (next_clu (sc_contig sc) s clu) ks"
    using Cons.prems(2) by simp_all
  have ne: "ch_dir clu \<noteq> CLUSTER_EOF" using k(3) below_EOF by blast
  have ej: "\<not> dev_ejected s" using dir_ok_fields(9) [OF Cons.prems(1)] by simp
  obtain s1 where s1: "scan_entries sc m s clu 0 st = (s1, scan_list sc clu (cluster_entries s (ch_dir clu)) st)"
    "dir_ok s1" "vol_eq s s1" "fat_get s1 = fat_get s"
    using scan_entries_ok [OF Cons.prems(1) k(2,3), of 0 "per_clu s" sc st] Cons.prems(3) by (auto simp: cluster_entries_def)
  note f = same_volume_fields [OF vol_eq_same [OF s1(3)]]
  note v = dir_view [OF s1(3)]
  have nat_d: "nat dentries = m" using assms(4) by simp
  have fst0: "sc_first sc st = 0" using assms(6) Cons.prems(4) by blast
  show ?case
  proof (cases "scan_list sc clu (cluster_entries s (ch_dir clu)) st")
    case (Inr r)
    then show ?thesis
      using s1 by (subst scan_clusters.simps) (simp add: ne ej fst0 nat_d path_entries_def k(1))
  next
    case (Inl st1)
    obtain s2 where s2: "scan_next sc s1 clu = (s2, Some (next_clu (sc_contig sc) s clu))" "dir_ok s2" "vol_eq s1 s2" "fat_get s2 = fat_get s1"
    proof (cases "sc_contig sc \<and> ch_flags clu = 0x03")
      case True
      then show thesis using that [of s1] s1 by (simp add: scan_next_def next_clu_def)
    next
      case False
      obtain s2 where "FAT_read s1 (ch_dir clu) = (s2, Some (fat_get s1 (ch_dir clu)))" "dir_ok s2" "vol_eq s1 s2" "fat_get s2 = fat_get s1"
        using read_dir [OF s1(2)] k(3) f(13) by metis
      then show thesis using that [of s2] False by (auto simp: scan_next_def next_clu_def s1(4))
    qed
    note f2 = same_volume_fields [OF vol_eq_same [OF s2(3)]]
    note v2 = dir_view [OF s2(3)]
    have p: "dir_path (sc_contig sc) s2 (next_clu (sc_contig sc) s clu) ks"
      using k(4) dir_path_cong [of s2 s] f(13) f2(13) s1(4) s2(4) by simp
    have "\<exists>s'. scan_clusters sc dentries False s2 (next_clu (sc_contig sc) s clu) st1 = Some (s', scan_path sc (path_entries s2 ks) st1) \<and>
      dir_ok s' \<and> vol_eq s2 s' \<and> fat_get s' = fat_get s2"
      using Cons.prems(3) v(1) v2(1) assms(7) [OF Cons.prems(4) _ Inl] by (intro Cons.IH [OF s2(2) p]) simp_all
    moreover have "path_entries s2 ks = path_entries s ks" by (simp add: path_entries_def v(4) v2(4))
    ultimately have "\<exists>s'. scan_clusters sc dentries False s2 (next_clu (sc_contig sc) s clu) st1 = Some (s', scan_path sc (path_entries s ks) st1) \<and>
      dir_ok s' \<and> vol_eq s s' \<and> fat_get s' = fat_get s"
      using s1(3,4) s2(3,4) vol_eq_trans by metis
    then show ?thesis
      using s1(1) Inl s2(1)
      by (subst scan_clusters.simps) (simp add: ne ej fst0 nat_d path_entries_def k(1))
  qed
qed

text \<open>The entries of the directory in one list, for bodies that ignore the cluster and never leave the inner loop early.\<close>

definition dir_list :: "sb \<Rightarrow> CHAIN_T list \<Rightarrow> dentry list" where
  "dir_list s ks = concat (map (\<lambda>k. cluster_entries s (ch_dir k)) ks)"

lemma scan_list_append:
  assumes "\<And>st clu e st'. sc_body sc st clu e \<noteq> Break st'"
  shows "scan_list sc clu (es @ fs) st = (case scan_list sc clu es st of Inl st \<Rightarrow> scan_list sc clu fs st | Inr r \<Rightarrow> Inr r)"
  using assms by (induction es arbitrary: st) (auto split: flow.split)

lemma scan_list_clu:
  assumes "\<And>st clu clu' e. sc_body sc st clu e = sc_body sc st clu' e"
  shows "scan_list sc clu es st = scan_list sc clu' es st"
proof (induction es arbitrary: st)
  case (Cons e es)
  then show ?case using assms [of st clu e clu'] by (simp split: flow.split)
qed simp

lemma scan_path_list:
  assumes "\<And>st clu e st'. sc_body sc st clu e \<noteq> Break st'" "\<And>st clu clu' e. sc_body sc st clu e = sc_body sc st clu' e"
  shows "scan_path sc (path_entries s ks) st = scan_list sc clu (dir_list s ks) st"
proof (induction ks arbitrary: st)
  case Nil
  then show ?case by (simp add: path_entries_def dir_list_def)
next
  case (Cons k ks)
  have "scan_list sc k (cluster_entries s (ch_dir k)) st = scan_list sc clu (cluster_entries s (ch_dir k)) st"
    by (rule scan_list_clu) (rule assms(2))
  then show ?case
    using Cons by (simp add: path_entries_def dir_list_def scan_list_append [OF assms(1)] split: sum.split)
qed

lemma dir_dentries_ok:
  assumes "dir_ok s" "ch_dir p_dir \<noteq> 0"
  shows "dir_dentries s p_dir = int (per_clu s)"
proof -
  have cb: "unat (cluster_size_bits s) \<le> 25" "dentries_per_clu s = 2 ^ (unat (cluster_size_bits s) - 5)"
    using dir_ok_fields(7) [OF assms(1)] by (simp_all add: clu_geom_def Let_def)
  have "(2 :: nat) ^ (unat (cluster_size_bits s) - 5) \<le> 2 ^ 20" by (rule power_increasing) (use cb(1) in auto)
  then have l: "per_clu s < 2 ^ 31" by (simp add: per_clu_def)
  have "dentries_per_clu s = of_nat (per_clu s)" by (simp add: cb(2) per_clu_def)
  then show ?thesis
    using assms(2) l by (simp add: dir_dentries_def to_s32_def signed_of_nat signed_take_bit_int_eq_self)
qed

end
