(* ===== verification/DirProps.thy ===== *)
theory DirProps
  imports DirApi
begin

text \<open>
  The properties of the directory scans: what they compute from the list of a directory's entries, what they answer when
  the device fails, and that they never end on a directory whose clusters form a cycle.
\<close>

section \<open>Sample directories\<close>

lemma buf_hash_upd: "buf_hash (s\<lparr>blk := f\<rparr>) = buf_hash s"
  by (simp add: fun_eq_iff buf_hash_def)

lemma dir_ok_blk:
  assumes "dir_ok s" "\<forall>b. length (f b) = 2 ^ sector_size_bits s"
  shows "dir_ok (s\<lparr>blk := f\<rparr>)"
proof -
  let ?t = "s\<lparr>blk := f\<rparr>"
  have "bufc.inv ?t" "free_entries ?t = free_entries s" "FATc.inv ?t"
    using assms(1) buf_inv_cong [of ?t s] buf_hash_upd holds_cong_FAT [of ?t s] dir_ok_fields(8) [OF assms(1)]
    by (simp_all add: dir_ok_def free_entries_def)
  moreover have "clu_geom ?t = clu_geom s" by (simp add: clu_geom_def Let_def START_SECTOR_def out_of_range_def)
  moreover have "io_ready ?t = io_ready s" by (simp add: io_ready_def debug_error_rw_def)
  ultimately show ?thesis
    using assms by (simp add: dir_ok_def tbl_ok_def fat_ok_def fat_ready_def geom_def out_of_range_def fat_sector_def)
qed

lemma sample_dir_fields: "cluster_size_bits (sample_sb k) = 10" "sector_size_bits (sample_sb k) = 9" "root_dir (sample_sb k) = 2"
  "vol_type (sample_sb k) = k" "num_clusters (sample_sb k) = 66" "sectors_per_clu_bits (sample_sb k) = 1"
  "data_start_sector (sample_sb k) = 8" "cluster_size (sample_sb k) = 1024" "dentries_per_clu (sample_sb k) = 32"
  "ue_dir (hint_uentry (sample_sb k)) = CLUSTER_EOF"
  by (simp_all add: sample_fields blank_sb_def)

lemma sample_dir_ok: "dir_ok (sample_sb k)"
proof -
  have "\<not> out_of_range (sample_sb k) (START_SECTOR (sample_sb k) c + of_nat i)" if "2 \<le> c" "c < 66" "i < 2" for c i
  proof -
    have "c - 2 = of_nat (unat c - 2)" using that(1) by (simp add: word_le_nat_alt of_nat_diff)
    then have "START_SECTOR (sample_sb k) c + of_nat i = of_nat (2 * (unat c - 2) + 8 + i)"
      by (simp add: START_SECTOR_def sample_dir_fields push_bit_eq_mult)
    moreover have "unat c < 66" using that(2) by (simp add: word_less_nat_alt)
    then have "2 * (unat c - 2) + 8 + i < 1024" using that(3) by simp
    then have "unat (of_nat (2 * (unat c - 2) + 8 + i) :: u32) < 1024" by (subst unat_of_nat) simp
    ultimately show ?thesis by (simp only: sample_io(2) word_le_nat_alt) simp
  qed
  then have "clu_geom (sample_sb k)" by (simp add: clu_geom_def sample_dir_fields Let_def)
  then show ?thesis using sample_tbl_ok(1) sample_inv(2) sample_caches(3) by (simp add: dir_ok_def)
qed

text \<open>The sample volume with the entries \<open>es\<close> at the start of its root directory, cluster 2, the only one in use.\<close>

definition one_cluster :: CHAIN_T where
  "one_cluster = \<lparr>ch_dir = 2, ch_size = 1, ch_flags = 3\<rparr>"

definition listed_sb :: "vol_kind \<Rightarrow> dentry list \<Rightarrow> sb" where
  "listed_sb k es = (sample_sb k)\<lparr>blk := (\<lambda>b. if b = 8 then take 512 (concat es @ replicate 512 0)
     else if b = 1 then replicate 512 0xFF else replicate 512 0)\<rparr>"

lemma first_cluster_ptr:
  assumes "i < 32" "sector_size_bits s = 9" "START_SECTOR s 2 = 8"
  shows "entry_ptr s 2 i = (if i < 16 then (8, 32 * i) else (9, 32 * (i - 16)))"
proof (cases "i < 16")
  case True
  then show ?thesis by (simp add: entry_ptr_def assms(2,3))
next
  case False
  then have "i = 16 + (i - 16)" "i - 16 < 16" using assms(1) by simp_all
  then obtain j where j: "i = 16 + j" "j < 16" by blast
  then have "(512 + 32 * j) div 512 = 1" by (subst div_add_self1) simp_all
  with j show ?thesis by (simp add: entry_ptr_def assms(2,3))
qed

lemma concat_nth_block:
  assumes "\<forall>e \<in> set es. length e = 32" "i < length es"
  shows "take 32 (drop (32 * i) (concat es)) = es ! i"
  using assms
proof (induction es arbitrary: i)
  case (Cons e es)
  then show ?case by (cases i) simp_all
qed simp

lemma listed_dir:
  assumes "\<forall>e \<in> set es. length e = 32" "length es \<le> 16"
  shows "dir_ok (listed_sb k es)" "vol_type (listed_sb k es) = k" "root_dir (listed_sb k es) = 2"
    "dir_path True (listed_sb k es) one_cluster [one_cluster]" "ue_dir (hint_uentry (listed_sb k es)) = CLUSTER_EOF"
    "dir_list (listed_sb k es) [one_cluster] = es @ replicate (32 - length es) (replicate 32 0)"
proof -
  show "dir_ok (listed_sb k es)" unfolding listed_sb_def by (rule dir_ok_blk [OF sample_dir_ok]) (simp add: sample_dir_fields)
  show "vol_type (listed_sb k es) = k" "root_dir (listed_sb k es) = 2" "ue_dir (hint_uentry (listed_sb k es)) = CLUSTER_EOF"
    by (simp_all add: listed_sb_def sample_dir_fields)
  show "dir_path True (listed_sb k es) one_cluster [one_cluster]"
    by (simp add: one_cluster_def next_clu_def listed_sb_def sample_dir_fields)
  have len: "length (concat es) = 32 * length es" using assms(1) by (induction es) simp_all
  have e: "entry_at (listed_sb k es) 2 i = (es @ replicate (32 - length es) (replicate 32 0)) ! i" if "i < 32" for i
  proof -
    have p: "entry_ptr (listed_sb k es) 2 i = (if i < 16 then (8, 32 * i) else (9, 32 * (i - 16)))"
      by (rule first_cluster_ptr [OF that]) (simp_all add: listed_sb_def START_SECTOR_def sample_dir_fields)
    consider "i < length es" | "length es \<le> i" "i < 16" | "16 \<le> i" by linarith
    then show ?thesis
    proof cases
      case 1
      then have "32 * i + 32 \<le> 32 * length es" by simp
      then show ?thesis
        using 1 p assms concat_nth_block [OF assms(1) 1] len
        by (simp add: entry_at_def load_entry_def slice_at_def listed_sb_def nth_append take_drop)
    next
      case 2
      then show ?thesis
        using p assms len by (simp add: entry_at_def load_entry_def slice_at_def listed_sb_def nth_append take_drop)
    next
      case 3
      then show ?thesis
        using p assms that by (simp add: entry_at_def load_entry_def slice_at_def listed_sb_def nth_append take_drop)
    qed
  qed
  show "dir_list (listed_sb k es) [one_cluster] = es @ replicate (32 - length es) (replicate 32 0)"
    by (rule nth_equalityI) (use assms(2) e in \<open>simp_all add: dir_list_def cluster_entries_def per_clu_def one_cluster_def
      listed_sb_def [of k es] sample_dir_fields\<close>)
qed

lemma listed_fat:
  assumes "k \<noteq> FAT12"
  shows "fat_get (listed_sb k es) 2 = CLUSTER_EOF"
proof -
  have "fat_mem (listed_sb k es) p = 0xFF" if "p < 512" for p
    using that by (simp add: fat_mem_def fat_sector_def listed_sb_def sample_dir_fields) (simp add: sample_fields blank_sb_def)
  moreover have "vol_type (listed_sb k es) = k" by (simp add: listed_sb_def sample_dir_fields)
  ultimately show ?thesis
    using assms by (cases k) (simp_all add: fat_get_def fat_raw_def raw16_def raw32_def rawex_def mem16_def mem32_def fat_val_def
        fat_limit_def GET16_def GET32_def)
qed

section \<open>Scans that look at the entries only\<close>

lemma scan_dir_list:
  assumes "dir_ok s" "ch_dir p_dir \<noteq> 0" "dir_path (sc_contig sc) s p_dir ks" "sc_first sc = (\<lambda>_. 0)"
    "\<And>st clu e st'. sc_body sc st clu e \<noteq> Break st'" "\<And>st clu clu' e. sc_body sc st clu e = sc_body sc st clu' e"
  shows "\<exists>s'. scan_dir sc s p_dir p_dir st = Some (s', scan_list sc p_dir (dir_list s ks) st) \<and> dir_ok s' \<and> vol_eq s s'"
proof -
  have "scan_path sc (path_entries s ks) st = scan_list sc p_dir (dir_list s ks) st"
    by (rule scan_path_list) (rule assms(5), rule assms(6))
  then show ?thesis
    using scan_clusters_ok [OF assms(1,3) refl dir_dentries_ok [OF assms(1,2)], of "\<lambda>_. True" st] assms(2,4)
    by (auto simp: scan_dir_def)
qed

lemma count_body_flow:
  "count_body ops type st clu e \<noteq> Break st'" "count_body ops type st clu e = count_body ops type st clu' e"
  by (simp_all add: count_body_def Let_def)

lemma empty_body_flow:
  "empty_body ops x y z st clu e \<noteq> Break st'" "empty_body ops x y z st clu e = empty_body ops x y z st clu' e"
  by (simp_all add: empty_body_def Let_def)

section \<open>Counting\<close>

text \<open>The types of the entries in front of the first unused one.\<close>

definition used_types :: "sb \<Rightarrow> dentry list \<Rightarrow> u32 list" where
  "used_types s es = takeWhile (\<lambda>t. t \<noteq> TYPE_UNUSED) (map (get_entry_type (dentry_func s)) es)"

lemma count_scan:
  assumes "sc_body sc = count_body (dentry_func s) type" "type AND TYPE_CRITICAL_PRI \<noteq> 0 \<or> type AND TYPE_BENIGN_PRI \<noteq> 0"
  shows "(case scan_list sc clu es count of Inl n \<Rightarrow> n | Inr n \<Rightarrow> n) =
    count + int (length (filter (\<lambda>t. type = TYPE_ALL \<or> type = t) (used_types s es)))"
proof (induction es arbitrary: count)
  case Nil
  then show ?case by (simp add: used_types_def)
next
  case (Cons e es)
  then show ?case using assms by (auto simp: used_types_def count_body_def Let_def)
qed

text \<open>
  C21: On a working volume \<open>count_dos_name_entries\<close> ends for a directory with a terminated chain of clusters, contiguous
  or linked by the table, changes nothing but the caches, and returns the number of entries of the type asked for (all
  types for \<open>TYPE_ALL\<close>) in front of the first unused entry.
\<close>

theorem count_dos_name_entries_exact:
  assumes "dir_ok s" "ch_dir p_dir \<noteq> 0" "dir_path True s p_dir ks"
    "type AND TYPE_CRITICAL_PRI \<noteq> 0 \<or> type AND TYPE_BENIGN_PRI \<noteq> 0"
  shows "\<exists>s'. count_dos_name_entries s p_dir type =
      Some (s', int (length (filter (\<lambda>t. type = TYPE_ALL \<or> type = t) (used_types s (dir_list s ks))))) \<and> vol_eq s s'"
proof -
  let ?sc = "\<lparr>sc_first = (\<lambda>_. 0), sc_body = count_body (dentry_func s) type,
    sc_null = (\<lambda>_. Return (-1)), sc_fat = (\<lambda>_. Return (-1)), sc_contig = True, sc_ejects = True\<rparr>"
  obtain s' where s': "scan_dir ?sc s p_dir p_dir 0 = Some (s', scan_list ?sc p_dir (dir_list s ks) 0)" "vol_eq s s'"
    using scan_dir_list [of s p_dir ?sc ks 0] assms(1-3) count_body_flow by fastforce
  have "(case scan_list ?sc p_dir (dir_list s ks) 0 of Inl n \<Rightarrow> n | Inr n \<Rightarrow> n) =
      int (length (filter (\<lambda>t. type = TYPE_ALL \<or> type = t) (used_types s (dir_list s ks))))"
    using count_scan [of ?sc s type p_dir "dir_list s ks" 0] assms(4) by simp
  then show ?thesis
    using s' unfolding count_dos_name_entries_def Let_def
    by (cases "scan_list ?sc p_dir (dir_list s ks) 0") auto
qed

text \<open>A deleted entry, and the entry of a file.\<close>

definition deleted_e :: dentry where
  "deleted_e = (replicate 32 0)[0 := 0xE5]"

definition file_e :: dentry where
  "file_e = (replicate 32 0)[0 := 0x41, 11 := 0x20]"

lemma sample_types:
  "length deleted_e = 32" "length file_e = 32"
  "fat_get_entry_type deleted_e = TYPE_DELETED" "fat_get_entry_type file_e = TYPE_FILE" "fat_get_entry_type (replicate 32 0) = TYPE_UNUSED"
  by (simp_all add: deleted_e_def file_e_def fat_get_entry_type_def offsets)

lemma sample_ops: "get_entry_type (dentry_func (listed_sb FAT32 es)) = fat_get_entry_type"
  by (simp add: dentry_func_def fat_dentry_func_def listed_sb_def sample_dir_fields)

theorem count_dos_name_entries_exact_witness:
  "\<exists>s'. count_dos_name_entries (listed_sb FAT32 [file_e, deleted_e, file_e]) one_cluster TYPE_FILE = Some (s', 2)"
proof -
  let ?es = "[file_e, deleted_e, file_e]"
  have l: "\<forall>e \<in> set ?es. length e = 32" "length ?es \<le> 16" by (simp_all add: sample_types)
  have "used_types (listed_sb FAT32 ?es) (dir_list (listed_sb FAT32 ?es) [one_cluster]) = [TYPE_FILE, TYPE_DELETED, TYPE_FILE]"
    by (simp add: listed_dir(6) [OF l] used_types_def sample_ops sample_types)
  then show ?thesis
    using count_dos_name_entries_exact [OF listed_dir(1) [OF l] _ listed_dir(4) [OF l], of TYPE_FILE FAT32]
    by (auto simp: one_cluster_def)
qed

section \<open>Empty directories\<close>

lemma empty_scan:
  assumes "sc_body sc = empty_body (dentry_func s) x y z" "m = (if x \<or> y \<or> z then 0 else 2)" "0 \<le> count" "count \<le> m"
  shows "(case scan_list sc clu es count of Inl _ \<Rightarrow> True | Inr r \<Rightarrow> r) \<longleftrightarrow>
    count + int (length (filter (\<lambda>t. t = TYPE_FILE \<or> t = TYPE_DIR) (used_types s es))) \<le> m"
  using assms(3,4)
proof (induction es arbitrary: count)
  case Nil
  then show ?case by (simp add: used_types_def)
next
  case (Cons e es)
  let ?t = "get_entry_type (dentry_func s) e"
  consider "?t = TYPE_UNUSED" | "?t \<noteq> TYPE_UNUSED" "?t \<noteq> TYPE_FILE" "?t \<noteq> TYPE_DIR"
    | "?t = TYPE_FILE \<or> ?t = TYPE_DIR" "count + 1 \<le> m" | "?t = TYPE_FILE \<or> ?t = TYPE_DIR" "m < count + 1"
    by linarith
  then show ?case
  proof cases
    case 1
    then show ?thesis using Cons.prems assms(1) by (simp add: used_types_def empty_body_def)
  next
    case 2
    then show ?thesis using Cons assms(1) by (simp add: used_types_def empty_body_def)
  next
    case 3
    then have "\<not> (x \<or> y \<or> z)" "\<not> count + 1 > 2" "?t \<noteq> TYPE_UNUSED" using assms(2) Cons.prems by (auto split: if_splits)
    then show ?thesis using Cons.IH [of "count + 1"] 3 assms(1) Cons.prems by (auto simp: used_types_def empty_body_def)
  next
    case 4
    then have "x \<or> y \<or> z \<or> count + 1 > 2" "?t \<noteq> TYPE_UNUSED" using assms(2) by (auto split: if_splits)
    then show ?thesis using 4 assms(1) by (auto simp: used_types_def empty_body_def)
  qed
qed

text \<open>
  C22: On a working volume \<open>is_dir_empty\<close> ends and says whether the directory has no files and directories in front of
  its first unused entry; a FAT directory that is not the root may hold two, its \<open>.\<close> and \<open>..\<close>.
\<close>

theorem is_dir_empty_exact:
  assumes "dir_ok s" "ch_dir p_dir \<noteq> 0" "dir_path True s p_dir ks"
  shows "\<exists>s'. is_dir_empty s p_dir = Some (s',
      length (filter (\<lambda>t. t = TYPE_FILE \<or> t = TYPE_DIR) (used_types s (dir_list s ks)))
        \<le> (if vol_type s = EXFAT \<or> ch_dir p_dir = root_dir s then 0 else 2)) \<and> vol_eq s s'"
proof -
  let ?x = "vol_type s = EXFAT" and ?z = "ch_dir p_dir = root_dir s"
  let ?sc = "\<lparr>sc_first = (\<lambda>_. 0), sc_body = empty_body (dentry_func s) ?x (ch_dir p_dir = 0) ?z,
    sc_null = Break, sc_fat = Break, sc_contig = True, sc_ejects = True\<rparr>"
  let ?n = "length (filter (\<lambda>t. t = TYPE_FILE \<or> t = TYPE_DIR) (used_types s (dir_list s ks)))"
  obtain s' where s': "scan_dir ?sc s p_dir p_dir 0 = Some (s', scan_list ?sc p_dir (dir_list s ks) 0)" "vol_eq s s'"
    using scan_dir_list [of s p_dir ?sc ks 0] assms empty_body_flow by fastforce
  have "(case scan_list ?sc p_dir (dir_list s ks) 0 of Inl _ \<Rightarrow> True | Inr r \<Rightarrow> r) \<longleftrightarrow> ?n \<le> (if ?x \<or> ?z then 0 else 2)"
    using empty_scan [of ?sc s ?x "ch_dir p_dir = 0" ?z "if ?x \<or> ?z then 0 else 2" 0 p_dir "dir_list s ks"] assms(2) by auto
  then show ?thesis
    using s' unfolding is_dir_empty_def Let_def
    by (cases "scan_list ?sc p_dir (dir_list s ks) 0") auto
qed


theorem is_dir_empty_exact_witness:
  "\<exists>s'. is_dir_empty (listed_sb FAT32 [deleted_e, file_e]) one_cluster = Some (s', False)"
proof -
  let ?es = "[deleted_e, file_e]"
  have l: "\<forall>e \<in> set ?es. length e = 32" "length ?es \<le> 16" by (simp_all add: sample_types)
  have "used_types (listed_sb FAT32 ?es) (dir_list (listed_sb FAT32 ?es) [one_cluster]) = [TYPE_DELETED, TYPE_FILE]"
    by (simp add: listed_dir(6) [OF l] used_types_def sample_ops sample_types)
  then show ?thesis
    using is_dir_empty_exact [OF listed_dir(1) [OF l] _ listed_dir(4) [OF l], of FAT32] listed_dir(3) [OF l, of FAT32]
    by (auto simp: one_cluster_def)
qed

section \<open>The search for empty entries\<close>

text \<open>A window: \<open>n\<close> entries from \<open>d\<close> on, all of them deleted or unused.\<close>

definition is_free :: "sb \<Rightarrow> dentry \<Rightarrow> bool" where
  "is_free s e \<longleftrightarrow> get_entry_type (dentry_func s) e \<in> {TYPE_UNUSED, TYPE_DELETED}"

definition window :: "nat \<Rightarrow> bool list \<Rightarrow> nat \<Rightarrow> bool" where
  "window n bs d \<longleftrightarrow> d + n \<le> length bs \<and> (\<forall>k < n. bs ! (d + k))"

definition run_at_end :: "bool list \<Rightarrow> nat" where
  "run_at_end bs = length (takeWhile id (rev bs))"

lemma run_at_end_snoc: "run_at_end (bs @ [b]) = (if b then Suc (run_at_end bs) else 0)"
  by (simp add: run_at_end_def)

lemma run_at_end_le: "run_at_end bs \<le> length bs"
  unfolding run_at_end_def by (metis length_rev length_takeWhile_le)

lemma run_at_end_window: "n \<le> run_at_end bs \<Longrightarrow> window n bs (length bs - n)"
proof (induction bs arbitrary: n rule: rev_induct)
  case Nil
  then show ?case by (simp add: window_def run_at_end_def)
next
  case (snoc b bs)
  show ?case
  proof (cases n)
    case 0
    then show ?thesis by (simp add: window_def)
  next
    case (Suc m)
    then have b: "b" "m \<le> run_at_end bs" using snoc.prems by (auto simp: run_at_end_snoc split: if_splits)
    have w: "window m bs (length bs - m)" and le: "m \<le> length bs" using snoc.IH [OF b(2)] b(2) run_at_end_le [of bs] by auto
    have "(bs @ [b]) ! (length bs - m + k)" if "k < Suc m" for k
      using w le b(1) that by (cases "k = m") (auto simp: window_def nth_append)
    then show ?thesis using Suc le by (simp add: window_def)
  qed
qed

lemma window_run_at_end: "window n bs d \<Longrightarrow> d + n = length bs \<Longrightarrow> n \<le> run_at_end bs"
proof (induction bs arbitrary: n rule: rev_induct)
  case (snoc b bs)
  show ?case
  proof (cases n)
    case (Suc m)
    have l: "d + m = length bs" using snoc.prems(2) Suc by simp
    have w: "(bs @ [b]) ! (d + k)" if "k < Suc m" for k using snoc.prems(1) that Suc by (simp add: window_def)
    have "b" using w [of m] l by (simp add: nth_append)
    moreover have "bs ! (d + k)" if "k < m" for k using w [of k] l that by (simp add: nth_append)
    then have "window m bs d" using l by (simp add: window_def)
    ultimately show ?thesis using snoc.IH [of m] l Suc by (simp add: run_at_end_snoc)
  qed simp
qed (simp add: window_def)

lemma window_append: "window n (bs @ cs) d \<Longrightarrow> d + n \<le> length bs \<Longrightarrow> window n bs d"
  by (simp add: window_def nth_append)

lemma window_append_mono: "window n bs d \<Longrightarrow> window n (bs @ cs) d"
  by (auto simp: window_def nth_append)

text \<open>The local variables of the search after the entries \<open>bs\<close>, and the result once a window is complete.\<close>

definition searching :: "int \<Rightarrow> bool list \<Rightarrow> int \<times> int \<times> UENTRY_T \<Rightarrow> bool" where
  "searching n bs st \<longleftrightarrow> (\<exists>hint. st = (int (length bs), int (run_at_end bs), hint)) \<and> (\<forall>d. \<not> window (nat n) bs d)"

definition found :: "bool \<Rightarrow> int \<Rightarrow> bool list \<Rightarrow> int \<Rightarrow> bool" where
  "found exfat n bs r \<longleftrightarrow> (\<exists>d. window (nat n) bs d \<and> (\<forall>d' < d. \<not> window (nat n) bs d') \<and>
     r = (if exfat then int d else int d + n - 1))"

lemma found_append: "found x n bs r \<Longrightarrow> found x n (bs @ cs) r"
proof -
  assume "found x n bs r"
  then obtain d where d: "window (nat n) bs d" "\<forall>d' < d. \<not> window (nat n) bs d'" "r = (if x then int d else int d + n - 1)"
    unfolding found_def by blast
  have "\<not> window (nat n) (bs @ cs) d'" if "d' < d" for d'
  proof
    assume "window (nat n) (bs @ cs) d'"
    moreover have "d' + nat n \<le> length bs" using d(1) that by (simp add: window_def)
    ultimately show False using window_append d(2) that by blast
  qed
  then show ?thesis unfolding found_def using window_append_mono [OF d(1)] d(3) by blast
qed

lemma search_step:
  assumes "searching n bs st" "0 < n" "bs' = bs @ [is_free s e]"
  shows "case search_body (dentry_func s) x dir n st clu e of
      Continue st' \<Rightarrow> searching n bs' st' | Break _ \<Rightarrow> False | Return (r, _) \<Rightarrow> found x n bs' r"
proof -
  obtain hint where st: "st = (int (length bs), int (run_at_end bs), hint)" and no: "\<forall>d. \<not> window (nat n) bs d"
    using assms(1) by (auto simp: searching_def)
  have le: "run_at_end bs' \<le> length bs'" by (rule run_at_end_le)
  have win: "window (nat n) bs' d \<longleftrightarrow> n \<le> int (run_at_end bs') \<and> d = length bs' - nat n" for d
  proof
    assume w: "window (nat n) bs' d"
    have "\<not> d + nat n \<le> length bs" using w window_append no unfolding assms(3) by blast
    then have "d + nat n = length bs'" using w by (simp add: window_def assms(3))
    then show "n \<le> int (run_at_end bs') \<and> d = length bs' - nat n" using window_run_at_end [OF w] by auto
  next
    assume "n \<le> int (run_at_end bs') \<and> d = length bs' - nat n"
    then show "window (nat n) bs' d" using run_at_end_window [of "nat n" bs'] by (simp add: nat_le_iff)
  qed
  have num: "int (run_at_end bs') = (if is_free s e then int (run_at_end bs) + 1 else 0)"
    by (simp add: assms(3) run_at_end_snoc)
  show ?thesis
  proof (cases "n \<le> int (run_at_end bs')")
    case True
    then have "found x n bs' (if x then int (length bs) - (n - 1) else int (length bs))"
      unfolding found_def win using assms(2,3) le by (intro exI [of _ "length bs' - nat n"]) auto
    then show ?thesis
      using True num assms(2) by (auto simp: search_body_def st Let_def is_free_def split: if_splits)
  next
    case False
    then have "\<forall>d. \<not> window (nat n) bs' d" unfolding win by simp
    then show ?thesis
      using False num assms(2,3) by (auto simp: search_body_def st Let_def is_free_def searching_def split: if_splits)
  qed
qed

lemma search_entries:
  assumes "searching n bs st" "0 < n" "sc_body sc = search_body (dentry_func s) x dir n"
  shows "case scan_list sc clu es st of
      Inl st' \<Rightarrow> searching n (bs @ map (is_free s) es) st' | Inr (r, _) \<Rightarrow> found x n (bs @ map (is_free s) es) r"
  using assms(1)
proof (induction es arbitrary: bs st)
  case (Cons e es)
  note step = search_step [OF Cons.prems assms(2) refl, of s e x dir clu]
  show ?case
  proof (cases "search_body (dentry_func s) x dir n st clu e")
    case (Continue st')
    then show ?thesis using Cons.IH [of "bs @ [is_free s e]" st'] step by (auto simp: assms(3) split: sum.splits prod.splits)
  next
    case (Return ret)
    then show ?thesis
      using step found_append [of x n "bs @ [is_free s e]" _ "map (is_free s) es"] by (cases ret) (simp add: assms(3))
  qed (use step in simp)
qed simp

lemma search_path:
  assumes "searching n bs st" "0 < n" "sc_body sc = search_body (dentry_func s) x dir n"
  shows "case scan_path sc (path_entries s ks) st of
      Inl st' \<Rightarrow> searching n (bs @ map (is_free s) (dir_list s ks)) st'
    | Inr (r, _) \<Rightarrow> found x n (bs @ map (is_free s) (dir_list s ks)) r"
  using assms(1)
proof (induction ks arbitrary: bs st)
  case Nil
  then show ?case by (simp add: path_entries_def dir_list_def)
next
  case (Cons k ks)
  let ?es = "cluster_entries s (ch_dir k)"
  note step = search_entries [OF Cons.prems assms(2,3), of ?es k]
  show ?case
  proof (cases "scan_list sc k ?es st")
    case (Inl st')
    then show ?thesis
      using Cons.IH [of "bs @ map (is_free s) ?es" st'] step by (auto simp: path_entries_def dir_list_def split: sum.splits prod.splits)
  next
    case (Inr ret)
    then show ?thesis
      using step found_append [of x n "bs @ map (is_free s) ?es" _ "map (is_free s) (dir_list s ks)"]
      by (cases ret) (simp add: path_entries_def dir_list_def)
  qed
qed


text \<open>
  C20: The search for \<open>num_entries\<close> free entries without a hint, on a working volume: it ends, and returns the first place
  of the directory with that many deleted or unused entries in a row (the first of them on exFAT, the last one on FAT,
  where a file's main entry follows its extended ones), or -1 when there is no such place.
\<close>

theorem search_finds_first_window:
  assumes "dir_ok s" "ch_dir p_dir \<noteq> 0" "dir_path True s p_dir ks" "ue_dir (hint_uentry s) \<noteq> ch_dir p_dir" "0 < n"
  defines "bs \<equiv> map (is_free s) (dir_list s ks)"
  shows "\<exists>s' r. search_deleted_or_unused_entry s p_dir n = Some (s', r) \<and>
    (if \<exists>d. window (nat n) bs d
     then \<exists>d. window (nat n) bs d \<and> (\<forall>d' < d. \<not> window (nat n) bs d') \<and> r = (if vol_type s = EXFAT then int d else int d + n - 1)
     else r = -1)"
proof -
  let ?d = "dir_dentries s p_dir" and ?x = "vol_type s = EXFAT"
  let ?sc = "\<lparr>sc_first = (\<lambda>(dentry, _). if ch_dir p_dir = 0 then dentry mod ?d else dentry AND (?d - 1)),
                sc_body = search_body (dentry_func s) ?x (ch_dir p_dir) n,
                sc_null = (\<lambda>(_, _, hint). Return (-1, hint)), sc_fat = (\<lambda>(_, _, hint). Return (-1, hint)),
                sc_contig = True, sc_ejects = True\<rparr>"
  let ?st = "(0, 0, (hint_uentry s)\<lparr>ue_entry := -1\<rparr>)"
  let ?P = "\<lambda>st. \<exists>bs. searching n bs st \<and> per_clu s dvd length bs"
  have d: "?d = int (per_clu s)" by (rule dir_dentries_ok [OF assms(1,2)])
  have init: "searching n [] ?st" using assms(5) by (simp add: searching_def window_def run_at_end_def)
  have first: "sc_first ?sc st = 0" if st: "?P st" for st
  proof -
    obtain bs where "searching n bs st" and dv: "per_clu s dvd length bs" using st by blast
    then have b: "fst st = int (length bs)" by (auto simp: searching_def)
    have "int (length bs) AND (int (per_clu s) - 1) = int (length bs) mod int (per_clu s)"
      by (simp add: per_clu_def flip: take_bit_eq_mask mask_eq_exp_minus_1 take_bit_eq_mod)
    then show ?thesis using b dv assms(2) by (auto simp: d split: prod.split)
  qed
  have keep: "?P st'" if "?P st" "length es = per_clu s" "scan_list ?sc clu es st = Inl st'" for clu es st st'
  proof -
    obtain bs where b: "searching n bs st" "per_clu s dvd length bs" using \<open>?P st\<close> by blast
    have "searching n (bs @ map (is_free s) es) st'"
      using search_entries [OF b(1) assms(5), of ?sc s ?x "ch_dir p_dir" es clu] that(3) by simp
    then show ?thesis using b(2) that(2) by (intro exI [of _ "bs @ map (is_free s) es"]) simp
  qed
  have "?P ?st" using init by (intro exI [of _ "[]"]) simp
  then obtain s' where s': "scan_dir ?sc s p_dir p_dir ?st = Some (s', scan_path ?sc (path_entries s ks) ?st)"
    using scan_clusters_ok [of s ?sc p_dir ks "per_clu s" ?d ?P ?st] assms(1-3) d first keep by (auto simp: scan_dir_def)
  note path = search_path [OF init assms(5), of ?sc s ?x "ch_dir p_dir" ks]
  show ?thesis
  proof (cases "scan_path ?sc (path_entries s ks) ?st")
    case (Inl st')
    then have "\<nexists>d. window (nat n) bs d" using path by (simp add: bs_def searching_def)
    then show ?thesis
      using s' Inl assms(4) by (cases st') (simp add: search_deleted_or_unused_entry_def Let_def)
  next
    case (Inr ret)
    obtain r h where ret: "ret = (r, h)" by fastforce
    then have "found ?x n bs r" using path Inr by (simp add: bs_def)
    then show ?thesis
      using s' Inr ret assms(4) unfolding found_def by (auto simp: search_deleted_or_unused_entry_def Let_def)
  qed
qed

theorem search_finds_first_window_witness:
  "\<exists>s'. search_deleted_or_unused_entry (listed_sb FAT32 [deleted_e, file_e, deleted_e, deleted_e]) one_cluster 2 = Some (s', 3)"
proof -
  let ?es = "[deleted_e, file_e, deleted_e, deleted_e]"
  let ?s = "listed_sb FAT32 ?es"
  have l: "\<forall>e \<in> set ?es. length e = 32" "length ?es \<le> 16" by (simp_all add: sample_types)
  let ?bs = "map (is_free ?s) (dir_list ?s [one_cluster])"
  have bs: "?bs = [True, False, True, True] @ replicate 28 True"
    by (simp add: listed_dir(6) [OF l] is_free_def sample_ops sample_types)
  have no: "\<not> window 2 ?bs 0" "\<not> window 2 ?bs 1" unfolding window_def bs by (simp_all add: numeral_2_eq_2 All_less_Suc)
  have yes: "window 2 ?bs 2" unfolding window_def bs by (simp add: numeral_2_eq_2 All_less_Suc)
  have first: "d = 2" if "window 2 ?bs d" "\<forall>d' < d. \<not> window 2 ?bs d'" for d
    using that no yes by (metis One_nat_def less_2_cases_iff linorder_less_linear)
  have "ue_dir (hint_uentry ?s) \<noteq> ch_dir one_cluster" "ch_dir one_cluster \<noteq> 0"
    using listed_dir(5) [OF l] by (simp_all add: one_cluster_def)
  then obtain s' r where r: "search_deleted_or_unused_entry ?s one_cluster 2 = Some (s', r)"
    "if \<exists>d. window (nat 2) ?bs d then \<exists>d. window (nat 2) ?bs d \<and> (\<forall>d' < d. \<not> window (nat 2) ?bs d') \<and>
       r = (if vol_type ?s = EXFAT then int d else int d + 2 - 1) else r = -1"
    using search_finds_first_window [OF listed_dir(1) [OF l] _ listed_dir(4) [OF l], of FAT32 2] by auto
  have two: "nat 2 = 2" by simp
  obtain d where "window 2 ?bs d" "\<forall>d' < d. \<not> window 2 ?bs d'" "r = int d + 2 - 1"
    using r(2) yes unfolding two listed_dir(2) [OF l] by (auto split: if_splits)
  then show ?thesis using first r(1) by fastforce
qed

section \<open>Failing devices and cyclic directories\<close>

text \<open>
  When the device has been ejected, \<open>is_dir_empty\<close> answers that every directory is empty, so that a directory with
  files in it passes the check of \<open>ffsRemoveDir\<close>.
\<close>

lemma is_dir_empty_on_ejected_device:
  "dev_ejected s \<Longrightarrow> is_dir_empty s p_dir = Some (s, True)"
  by (simp add: is_dir_empty_def scan_dir_def scan_clusters.simps)

lemma scan_never_returns:
  assumes "scan_clusters sc dentries root s clu st = Some r"
  shows "dir_ok s \<Longrightarrow> \<not> root \<Longrightarrow> dentries = int (per_clu s) \<Longrightarrow> sc_first sc = (\<lambda>_. 0) \<Longrightarrow> ch_dir clu \<in> C \<Longrightarrow> ch_flags clu \<noteq> 0x03 \<Longrightarrow>
    (\<forall>c \<in> C. 2 \<le> c \<and> c < num_clusters s \<and> fat_get s c \<in> C) \<Longrightarrow>
    (\<forall>clu st. ch_dir clu \<in> C \<longrightarrow> isl (scan_list sc clu (cluster_entries s (ch_dir clu)) st)) \<Longrightarrow> False"
  using assms
proof (induction sc dentries root s clu st r rule: scan_clusters.raw_induct [rotated, consumes 1, case_names round])
  case (round scan_clusters sc dentries root s clu st r)
  note dir = round.prems(1)
  have c: "2 \<le> ch_dir clu" "ch_dir clu < num_clusters s" "fat_get s (ch_dir clu) \<in> C" using round.prems(5,7) by blast+
  have ne: "ch_dir clu \<noteq> CLUSTER_EOF" using below_EOF [OF c(2)] .
  have ej: "\<not> dev_ejected s" using dir_ok_fields(9) [OF dir] by simp
  obtain st1 where st1: "scan_list sc clu (cluster_entries s (ch_dir clu)) st = Inl st1"
    using round.prems(5,8) by (meson isl_def)
  obtain s1 where s1: "scan_entries sc (per_clu s) s clu 0 st = (s1, Inl st1)" "dir_ok s1" "vol_eq s s1" "fat_get s1 = fat_get s"
    using scan_entries_ok [OF dir c(1,2), of 0 "per_clu s" sc st] st1 by (auto simp: cluster_entries_def)
  note f = same_volume_fields [OF vol_eq_same [OF s1(3)]] and v = dir_view [OF s1(3)]
  obtain s2 where s2: "FAT_read s1 (ch_dir clu) = (s2, Some (fat_get s1 (ch_dir clu)))" "dir_ok s2" "vol_eq s1 s2" "fat_get s2 = fat_get s1"
    using read_dir [OF s1(2)] c(2) f(13) by metis
  note f2 = same_volume_fields [OF vol_eq_same [OF s2(3)]] and v2 = dir_view [OF s2(3)]
  have step: "scan_next sc s1 clu = (s2, Some (clu\<lparr>ch_dir := fat_get s (ch_dir clu)\<rparr>))"
    using round.prems(6) s2(1) s1(4) by (simp add: scan_next_def)
  have nat_d: "nat dentries = per_clu s" using round.prems(3) by simp
  have "scan_clusters sc dentries root s2 (clu\<lparr>ch_dir := fat_get s (ch_dir clu)\<rparr>) st1 = Some r"
    using round.hyps ne ej s1(1) step round.prems(2,4) nat_d by simp
  then show ?case
  proof (rule round.IH)
    show "dentries = int (per_clu s2)" using round.prems(3) v(1) v2(1) by simp
    show "\<forall>c \<in> C. 2 \<le> c \<and> c < num_clusters s2 \<and> fat_get s2 c \<in> C"
      using round.prems(7) f(13) f2(13) s1(4) s2(4) by simp
    show "\<forall>clu st. ch_dir clu \<in> C \<longrightarrow> isl (scan_list sc clu (cluster_entries s2 (ch_dir clu)) st)"
      using round.prems(8) v(4) v2(4) by simp
  qed (use s2(2) round.prems(2,4,6) c(3) in simp_all)
qed

text \<open>
  C24: On a volume whose table links a directory's clusters into a cycle, without an unused entry in them,
  \<open>count_dos_name_entries\<close> never returns: nothing bounds the number of clusters it follows.
\<close>

theorem count_dos_name_entries_hangs:
  assumes "dir_ok s" "ch_dir p_dir \<in> C" "ch_flags p_dir \<noteq> 0x03" "\<forall>c \<in> C. 2 \<le> c \<and> c < num_clusters s \<and> fat_get s c \<in> C"
    "\<forall>c \<in> C. \<forall>e \<in> set (cluster_entries s c). get_entry_type (dentry_func s) e \<noteq> TYPE_UNUSED"
  shows "count_dos_name_entries s p_dir type = None"
proof -
  let ?sc = "\<lparr>sc_first = (\<lambda>_. 0), sc_body = count_body (dentry_func s) type,
    sc_null = (\<lambda>_. Return (-1)), sc_fat = (\<lambda>_. Return (-1)), sc_contig = True, sc_ejects = True\<rparr>"
  have "isl (scan_list ?sc clu es st)" if "\<forall>e \<in> set es. get_entry_type (dentry_func s) e \<noteq> TYPE_UNUSED" for clu es st
    using that by (induction es arbitrary: st) (auto simp: count_body_def Let_def)
  then have stay: "\<forall>clu st. ch_dir clu \<in> C \<longrightarrow> isl (scan_list ?sc clu (cluster_entries s (ch_dir clu)) st)"
    using assms(5) by blast
  have "2 \<le> ch_dir p_dir" using assms(2,4) by blast
  then have nz: "ch_dir p_dir \<noteq> 0" by auto
  have "scan_dir ?sc s p_dir p_dir 0 \<noteq> Some r" for r
    using scan_never_returns [of ?sc "dir_dentries s p_dir" False s p_dir 0 r C] assms(1-4) stay nz dir_dentries_ok [OF assms(1) nz]
    by (auto simp: scan_dir_def)
  then have "scan_dir ?sc s p_dir p_dir 0 = None" by (meson option.exhaust)
  then show ?thesis by (simp add: count_dos_name_entries_def)
qed


text \<open>A FAT16 volume whose root directory, cluster 2, is full of files and linked to itself.\<close>

definition cyclic_sb :: sb where
  "cyclic_sb = (sample_sb FAT16)\<lparr>blk := (\<lambda>b. if b = 1 then (replicate 512 0)[4 := 2] else replicate 512 0x41)\<rparr>"

theorem count_dos_name_entries_hangs_witness: "count_dos_name_entries cyclic_sb (chain_at 2) TYPE_FILE = None"
proof (rule count_dos_name_entries_hangs [where C = "{2}"])
  show "dir_ok cyclic_sb" unfolding cyclic_sb_def by (rule dir_ok_blk [OF sample_dir_ok]) (simp add: sample_dir_fields)
  have f: "vol_type cyclic_sb = FAT16" "num_clusters cyclic_sb = 66" "FAT1_start_sector cyclic_sb = 1" "sector_size_bits cyclic_sb = 9"
    "data_start_sector cyclic_sb = 8" "sectors_per_clu_bits cyclic_sb = 1" "per_clu cyclic_sb = 32"
    by (simp_all add: cyclic_sb_def sample_dir_fields per_clu_def) (simp add: sample_fields blank_sb_def)
  have "fat_mem cyclic_sb 4 = 2" "fat_mem cyclic_sb 5 = 0" by (simp_all add: fat_mem_def fat_sector_def f) (simp_all add: cyclic_sb_def)
  then have "fat_get cyclic_sb 2 = 2"
    by (simp add: fat_get_def fat_raw_def raw16_def mem16_def fat_val_def fat_limit_def GET16_def f)
  then show "\<forall>c \<in> {2}. 2 \<le> c \<and> c < num_clusters cyclic_sb \<and> fat_get cyclic_sb c \<in> {2}" by (simp add: f)
  have "entry_at cyclic_sb 2 i = replicate 32 0x41" if "i < 32" for i
  proof -
    have "START_SECTOR cyclic_sb 2 = 8" by (simp add: START_SECTOR_def f)
    then have p: "fst (entry_ptr cyclic_sb 2 i) \<noteq> 1" "snd (entry_ptr cyclic_sb 2 i) + 32 \<le> 512"
      using first_cluster_ptr [OF that f(4)] that by auto
    then show ?thesis by (simp add: entry_at_def load_entry_def slice_at_def) (simp add: cyclic_sb_def)
  qed
  then have "e = replicate 32 0x41" if "e \<in> set (cluster_entries cyclic_sb 2)" for e
    using that by (auto simp: cluster_entries_def f)
  moreover have "get_entry_type (dentry_func cyclic_sb) (replicate 32 0x41) \<noteq> TYPE_UNUSED"
    by (simp add: dentry_func_def fat_dentry_func_def f fat_get_entry_type_def offsets)
  ultimately show "\<forall>c \<in> {2}. \<forall>e \<in> set (cluster_entries cyclic_sb c). get_entry_type (dentry_func cyclic_sb) e \<noteq> TYPE_UNUSED"
    by auto
qed simp_all

end
