(* ===== verification/Mount.thy ===== *)
theory Mount
  imports DirScan UpcaseTable
begin

text \<open>
  Mounting: \<open>fat16_mount\<close>, \<open>fat32_mount\<close>, \<open>exfat_mount\<close>, the loading of the allocation bitmap and of the up-case table,
  and the volume operations \<open>ffsInit\<close> to \<open>ffsSyncVol\<close> of \<open>exfat_core.c\<close>.  The kernel's \<open>sb_set_blocksize\<close>, which discards
  the buffers of the old block size, is the argument \<open>set_blocksize\<close>.  The flag that \<open>fs_func\<close> points to is \<open>vol_type\<close>.
\<close>

section \<open>The boot sector\<close>

definition bpb_of :: "u8 list \<Rightarrow> u8 list" where
  "bpb_of pbr = drop (offsetof PBR_SECTOR_T ''bpb'') pbr"

text \<open>The kernel's \<open>ilog2\<close> returns -1 for 0.\<close>

definition ilog2_u32 :: "nat \<Rightarrow> u32" where
  "ilog2_u32 n = (if n = 0 then -1 else of_nat (ilog2 n))"

text \<open>The fields that the three mount functions derive in the same way.\<close>

definition set_cluster_bits :: "sb \<Rightarrow> u32 \<Rightarrow> u32 \<Rightarrow> sb" where
  "set_cluster_bits s per_clu per_clu_bits =
     (let bits = per_clu_bits + of_nat (sector_size_bits s)
      in s\<lparr>sectors_per_clu := per_clu, sectors_per_clu_bits := per_clu_bits, cluster_size_bits := bits,
           cluster_size := push_bit (unat bits) 1\<rparr>)"

definition set_FAT_sectors :: "sb \<Rightarrow> u32 \<Rightarrow> u32 \<Rightarrow> u8 \<Rightarrow> sb" where
  "set_FAT_sectors s fat_sectors reserved fats =
     (let fat1 = PBR_sector s + reserved
      in s\<lparr>num_FAT_sectors := fat_sectors, FAT1_start_sector := fat1,
           FAT2_start_sector := (if fats = 1 then fat1 else fat1 + fat_sectors)\<rparr>)"

definition set_search_state :: "sb \<Rightarrow> u32 \<Rightarrow> sb" where
  "set_search_state s flag =
     s\<lparr>dentries_per_clu := push_bit (unat (cluster_size_bits s - of_nat DENTRY_SIZE_BITS)) 1, vol_flag := flag,
       clu_srch_ptr := 2, used_clusters := -1\<rparr>"

definition fat16_mount :: "sb \<Rightarrow> u8 list \<Rightarrow> sb \<times> ffs" where
  "fat16_mount s p_pbr =
     (let p = bpb_of p_pbr; at = offsetof BPB16_T; spc = p ! at ''sectors_per_clu''
      in if p ! at ''num_fats'' = 0 then (s, FFS_FORMATERR)
         else let num_root_sectors = push_bit DENTRY_SIZE_BITS (uint (GET16 p (at ''num_root_entries'')));
                  num_root_sectors = drop_bit (sector_size_bits s) (num_root_sectors - 1) + 1;
                  s1 = set_cluster_bits s (ucast spc) (ilog2_u32 (unat spc));
                  s2 = set_FAT_sectors s1 (ucast (GET16 p (at ''num_fat_sectors''))) (ucast (GET16 p (at ''num_reserved'')))
                         (p ! at ''num_fats'');
                  root = FAT2_start_sector s2 + num_FAT_sectors s2;
                  data = root + of_s32 num_root_sectors;
                  n = ucast (GET16 p (at ''num_sectors''));
                  n = (if n = 0 then GET32 p (at ''num_huge_sectors'') else n);
                  clusters = drop_bit (unat (sectors_per_clu_bits s2)) (n - (data - PBR_sector s2)) + 2;
                  s3 = s2\<lparr>root_start_sector := root, data_start_sector := data, num_sectors := n, num_clusters := clusters,
                          vol_type := (if clusters < FAT12_THRESHOLD then FAT12 else FAT16),
                          vol_id := GET32 p (at ''vol_serial''), root_dir := 0,
                          dentries_in_root := ucast (GET16 p (at ''num_root_entries''))\<rparr>
              in (set_search_state s3 VOL_CLEAN, FFS_SUCCESS))"

definition fat32_mount :: "sb \<Rightarrow> u8 list \<Rightarrow> sb \<times> ffs" where
  "fat32_mount s p_pbr =
     (let p = bpb_of p_pbr; at = offsetof BPB32_T; spc = p ! at ''sectors_per_clu''
      in if p ! at ''num_fats'' = 0 then (s, FFS_FORMATERR)
         else let s1 = set_cluster_bits s (ucast spc) (ilog2_u32 (unat spc));
                  s2 = set_FAT_sectors s1 (GET32 p (at ''num_fat32_sectors'')) (ucast (GET16 p (at ''num_reserved'')))
                         (p ! at ''num_fats'');
                  root = FAT2_start_sector s2 + num_FAT_sectors s2;
                  n = GET32 p (at ''num_huge_sectors'');
                  clusters = drop_bit (unat (sectors_per_clu_bits s2)) (n - (root - PBR_sector s2)) + 2;
                  s3 = s2\<lparr>root_start_sector := root, data_start_sector := root, num_sectors := n, num_clusters := clusters,
                          vol_type := FAT32, vol_id := GET32 p (at ''vol_serial''),
                          root_dir := GET32 p (at ''root_cluster''), dentries_in_root := 0\<rparr>
              in (set_search_state s3 VOL_CLEAN, FFS_SUCCESS))"

definition exfat_mount :: "sb \<Rightarrow> u8 list \<Rightarrow> sb \<times> ffs" where
  "exfat_mount s p_pbr =
     (let p = bpb_of p_pbr; at = offsetof BPBEX_T; bits = p ! at ''sectors_per_clu_bits''
      in if p ! at ''num_fats'' = 0 then (s, FFS_FORMATERR)
         else let s1 = set_cluster_bits s (push_bit (unat bits) 1) (ucast bits);
                  s2 = set_FAT_sectors s1 (GET32 p (at ''fat_length'')) (GET32 p (at ''fat_offset'')) (p ! at ''num_fats'');
                  root = PBR_sector s2 + GET32 p (at ''clu_offset'');
                  s3 = s2\<lparr>root_start_sector := root, data_start_sector := root,
                          num_sectors := ucast (GET64 p (at ''vol_length'')), num_clusters := GET32 p (at ''clu_count'') + 2,
                          vol_type := EXFAT, vol_id := GET32 p (at ''vol_serial''),
                          root_dir := GET32 p (at ''root_cluster''), dentries_in_root := 0\<rparr>
              in (set_search_state s3 (ucast (GET16 p (at ''vol_flags''))), FFS_SUCCESS))"

section \<open>The allocation bitmap\<close>

text \<open>Reading the sectors of the map: \<open>n\<close> remain from the \<open>j\<close>-th on; a failure discards what was read.\<close>

fun amap_loop :: "nat \<Rightarrow> sb \<Rightarrow> u32 \<Rightarrow> sb \<times> ffs" where
  "amap_loop 0 s sector = (s\<lparr>pbr_bh := None\<rparr>, FFS_SUCCESS)"
| "amap_loop (Suc n) s sector =
     (case sector_read s sector None True of
        (s1, bh, ret) \<Rightarrow>
          if ret \<noteq> FFS_SUCCESS then (s1\<lparr>vol_amap := []\<rparr>, ret)
          else amap_loop n (s1\<lparr>vol_amap := vol_amap s1 @ [bh]\<rparr>) (sector + 1))"

text \<open>The scan of the root directory ends at the entry of the map (\<open>Some ep\<close>) or with an error (\<open>None\<close>).\<close>

definition bitmap_scan :: "DENTRY_FUNC_T \<Rightarrow> (unit, dentry option) scan" where
  "bitmap_scan ops =
     \<lparr>sc_first = (\<lambda>_. 0),
      sc_body = (\<lambda>_ clu ep.
        let type = get_entry_type ops ep
        in if type = TYPE_UNUSED then Break ()
           else if type \<noteq> TYPE_BITMAP then Continue ()
           else if ep ! offsetof BMAP_DENTRY_T ''flags'' = 0 then Return (Some ep)
           else Continue ()),
      sc_null = (\<lambda>_. Return None), sc_fat = (\<lambda>_. Return None), sc_contig = False, sc_ejects = True\<rparr>"

definition load_alloc_bitmap :: "sb \<Rightarrow> (sb \<times> ffs) option" where
  "load_alloc_bitmap s =
     (case scan_clusters (bitmap_scan (dentry_func s)) (uint (dentries_per_clu s)) False s
             \<lparr>ch_dir = root_dir s, ch_size = 0, ch_flags = 0x01\<rparr> () of
        None \<Rightarrow> None
      | Some (s1, Inl _) \<Rightarrow> Some (s1, FFS_FORMATERR)
      | Some (s1, Inr None) \<Rightarrow> Some (s1, FFS_MEDIAERR)
      | Some (s1, Inr (Some ep)) \<Rightarrow>
          let clu = GET32 ep (offsetof BMAP_DENTRY_T ''start_clu'');
              map_size = ucast (GET64 ep (offsetof BMAP_DENTRY_T ''size'')) :: u32;
              n = drop_bit (sector_size_bits s1) (map_size - 1) + 1
          in (case kmalloc (s1\<lparr>map_clu := clu, map_sectors := n\<rparr>) of
                (s2, False) \<Rightarrow> Some (s2\<lparr>vol_amap := []\<rparr>, FFS_MEMORYERR)
              | (s2, True) \<Rightarrow> Some (amap_loop (unat n) (s2\<lparr>vol_amap := []\<rparr>) (START_SECTOR s2 clu))))"

section \<open>The up-case table\<close>

text \<open>
  The inner loop ends at the entry of the table (\<open>Some ep\<close>), at an unused entry, or with an error (\<open>None\<close>); a table that
  cannot be loaded sends the search to the next cluster.  There is no test of \<open>dev_ejected\<close> in the outer loop.
\<close>

definition upcase_scan :: "DENTRY_FUNC_T \<Rightarrow> (unit, dentry option) scan" where
  "upcase_scan ops =
     \<lparr>sc_first = (\<lambda>_. 0),
      sc_body = (\<lambda>_ clu ep.
        let type = get_entry_type ops ep
        in if type = TYPE_UNUSED then Break () else if type \<noteq> TYPE_UPCASE then Continue () else Return (Some ep)),
      sc_null = (\<lambda>_. Return None), sc_fat = (\<lambda>_. Return None), sc_contig = False, sc_ejects = False\<rparr>"

definition load_upcase_entry :: "sb \<Rightarrow> dentry \<Rightarrow> sb \<times> ffs" where
  "load_upcase_entry s ep =
     (let tbl_clu = GET32 ep (offsetof CASE_DENTRY_T ''start_clu'');
          tbl_size = ucast (GET64 ep (offsetof CASE_DENTRY_T ''size'')) :: u32
      in load_upcase_sectors s (START_SECTOR s tbl_clu) (drop_bit (sector_size_bits s) (tbl_size - 1) + 1)
           (GET32 ep (offsetof CASE_DENTRY_T ''checksum'')))"

partial_function (option) upcase_loop :: "sb \<Rightarrow> CHAIN_T \<Rightarrow> (sb \<times> ffs) option" where
  "upcase_loop s clu =
     (if ch_dir clu = CLUSTER_EOF then Some (load_default_upcase_table uni_upcase s)
      else case scan_entries (upcase_scan (dentry_func s)) (unat (dentries_per_clu s)) s clu 0 () of
             (s1, Inr None) \<Rightarrow> Some (s1, FFS_MEDIAERR)
           | (s1, r) \<Rightarrow>
               (case (case r of Inr (Some ep) \<Rightarrow> load_upcase_entry s1 ep | _ \<Rightarrow> (s1, FFS_ERROR)) of
                  (s2, ret) \<Rightarrow>
                    if ret = FFS_SUCCESS then Some (s2, FFS_SUCCESS)
                    else case FAT_read s2 (ch_dir clu) of
                           (s3, None) \<Rightarrow> Some (s3, FFS_MEDIAERR)
                         | (s3, Some c) \<Rightarrow> upcase_loop s3 (clu\<lparr>ch_dir := c\<rparr>)))"

definition load_upcase_table :: "sb \<Rightarrow> (sb \<times> ffs) option" where
  "load_upcase_table s =
     (if dev_ejected s then Some (s, FFS_MEDIAERR)
      else upcase_loop s \<lparr>ch_dir = root_dir s, ch_size = 0, ch_flags = 0x01\<rparr>)"

section \<open>Volume operations\<close>

text \<open>\<open>sizeof(DENTRY_T)\<close> is 32: the structure is one array of \<open>DENTRY_SIZE\<close> bytes.\<close>

definition fs_init :: ffs where
  "fs_init =
     (if list_ex (\<lambda>l. layout_size l \<noteq> DENTRY_SIZE)
           [[(''dummy'', 32)], DOS_DENTRY_T, EXT_DENTRY_T, FILE_DENTRY_T, STRM_DENTRY_T, NAME_DENTRY_T, BMAP_DENTRY_T,
            CASE_DENTRY_T, VOLM_DENTRY_T]
      then FFS_ALIGNMENTERR else FFS_SUCCESS)"

definition fs_shutdown :: ffs where
  "fs_shutdown = FFS_SUCCESS"

definition bdev_init :: ffs where
  "bdev_init = FFS_SUCCESS"

definition bdev_shutdown :: ffs where
  "bdev_shutdown = FFS_SUCCESS"

definition ffsInit :: ffs where
  "ffsInit = (if bdev_init \<noteq> FFS_SUCCESS then bdev_init else if fs_init \<noteq> FFS_SUCCESS then fs_init else FFS_SUCCESS)"

definition ffsShutdown :: ffs where
  "ffsShutdown =
     (if fs_shutdown \<noteq> FFS_SUCCESS then fs_shutdown else if bdev_shutdown \<noteq> FFS_SUCCESS then bdev_shutdown else FFS_SUCCESS)"

definition mount_tables :: "sb \<Rightarrow> (sb \<times> ffs) option" where
  "mount_tables s =
     (if vol_type s \<noteq> EXFAT then Some (s, FFS_SUCCESS)
      else do {
        (s1, ret) \<leftarrow> load_alloc_bitmap s;
        if ret \<noteq> FFS_SUCCESS then Some (fst (bdev_close s1), ret)
        else do {
          (s2, ret) \<leftarrow> load_upcase_table s1;
          if ret \<noteq> FFS_SUCCESS then Some (fst (bdev_close (free_alloc_bitmap s2)), ret) else Some (s2, FFS_SUCCESS)
        }
      })"

definition mount_pbr :: "sb \<Rightarrow> u8 list \<Rightarrow> sb \<times> ffs" where
  "mount_pbr s p_pbr =
     (if list_ex (\<lambda>b. b \<noteq> 0) (take 53 (bpb_of p_pbr)) then
        (if GET16 (bpb_of p_pbr) 11 \<noteq> 0 then fat16_mount s p_pbr else fat32_mount s p_pbr)
      else exfat_mount s p_pbr)"

definition ffsMountVol :: "(sb \<Rightarrow> int \<Rightarrow> sb) \<Rightarrow> sb \<Rightarrow> (sb \<times> ffs) option" where
  "ffsMountVol set_blocksize s =
     (case bdev_open (s\<lparr>dev_ejected := False\<rparr>) of
        (s1, ret) \<Rightarrow>
          if ret \<noteq> FFS_SUCCESS \<or> sector_size s1 < s_blocksize s1 then Some (s1, FFS_MEDIAERR)
          else let s2 = (if sector_size s1 > s_blocksize s1 then set_blocksize s1 (sector_size s1) else s1)
               in case sector_read s2 0 None True of
                    (s3, tmp_bh, ret) \<Rightarrow>
                      if ret \<noteq> FFS_SUCCESS then Some (s3, FFS_MEDIAERR)
                      else let s4 = s3\<lparr>PBR_sector := 0\<rparr>
                           in case tmp_bh of
                                None \<Rightarrow> Some (kernel_oops s4, FFS_MEDIAERR)
                              | Some b \<Rightarrow>
                                  let p_pbr = blk s4 b
                                  in if GET16 p_pbr (offsetof PBR_SECTOR_T ''signature'') \<noteq> PBR_SIGNATURE
                                     then Some (fst (bdev_close s4), FFS_FORMATERR)
                                     else case mount_pbr s4 p_pbr of
                                            (s5, ret) \<Rightarrow>
                                              if ret \<noteq> FFS_SUCCESS then Some (fst (bdev_close s5), ret)
                                              else do {
                                                (s6, ret) \<leftarrow> mount_tables s5;
                                                if ret \<noteq> FFS_SUCCESS then Some (s6, ret)
                                                else if dev_ejected s6
                                                then Some (fst (bdev_close (if vol_type s6 = EXFAT
                                                       then free_alloc_bitmap (free_upcase_table s6) else s6)), FFS_MEDIAERR)
                                                else Some (s6, FFS_SUCCESS)
                                              })"

definition ffsUmountVol :: "sb \<Rightarrow> sb \<times> ffs" where
  "ffsUmountVol s =
     (let s1 = fs_set_vol_flags (fs_sync s False) VOL_CLEAN;
          s2 = (if vol_type s1 = EXFAT then free_alloc_bitmap (free_upcase_table s1) else s1);
          s3 = fst (bdev_close (buf_release_all (FAT_release_all s2)))
      in (s3, if dev_ejected s3 then FFS_MEDIAERR else FFS_SUCCESS))"

record VOL_INFO_T =
  FatType :: vol_kind
  ClusterSize :: u32
  NumClusters :: u32
  FreeClusters :: u32
  UsedClusters :: u32

definition count_used_clusters :: "sb \<Rightarrow> sb \<times> int" where
  "count_used_clusters s = (if vol_type s = EXFAT then exfat_count_used_clusters s else fat_count_used_clusters s)"

definition ffsGetVolInfo :: "sb \<Rightarrow> sb \<times> VOL_INFO_T \<times> ffs" where
  "ffsGetVolInfo s =
     (let s1 = (if used_clusters s = -1 then (case count_used_clusters s of (t, n) \<Rightarrow> t\<lparr>used_clusters := of_s32 n\<rparr>) else s)
      in (s1, \<lparr>FatType = vol_type s1, ClusterSize = cluster_size s1, NumClusters = num_clusters s1 - 2,
               FreeClusters = num_clusters s1 - 2 - used_clusters s1, UsedClusters = used_clusters s1\<rparr>,
          if dev_ejected s1 then FFS_MEDIAERR else FFS_SUCCESS))"

definition ffsSyncVol :: "sb \<Rightarrow> bool \<Rightarrow> sb \<times> ffs" where
  "ffsSyncVol s do_sync =
     (let s1 = fs_set_vol_flags (fs_sync s do_sync) VOL_CLEAN in (s1, if dev_ejected s1 then FFS_MEDIAERR else FFS_SUCCESS))"

end
