(* ===== verification/MountProps.thy ===== *)
theory MountProps
  imports Mount DirProps
begin

text \<open>
  What mounting establishes: the geometry that the cluster and directory functions rely on, and the buffers of the
  allocation bitmap; and what it accepts although it should not.
\<close>

section \<open>The geometry of a FAT volume\<close>

lemma unat_range: "unat (w :: u32) < 4294967296"
proof -
  have "unat w < 2 ^ LENGTH(32)" by (rule unsigned_less)
  then show ?thesis by simp
qed

lemma div_mult_room: "c < n div k \<Longrightarrow> 0 < k \<Longrightarrow> c * k + k \<le> n" for c n k :: nat
  by (metis Suc_leI add.commute div_le_mono le_trans mult.commute mult_Suc_right mult_le_mono2 times_div_less_eq_dividend)

text \<open>The data area of \<open>n\<close> sectors behind \<open>data_start_sector\<close>, in clusters of \<open>2 ^ k\<close> sectors.\<close>

lemma clusters_in_range:
  assumes "PBR_sector s = 0" "sectors_per_clu_bits s = of_nat k" "k < 32" "data_start_sector s \<le> num_sectors s"
    "num_clusters s = drop_bit k (num_sectors s - data_start_sector s) + 2" "2 \<le> c" "c < num_clusters s" "i < 2 ^ k"
    "2 < data_start_sector s"
  shows "\<not> out_of_range s (START_SECTOR s c + of_nat i)"
proof -
  let ?room = "unat (num_sectors s) - unat (data_start_sector s)"
  have room: "unat (num_sectors s - data_start_sector s) = ?room"
    using assms(4) by (simp add: unat_sub word_le_nat_alt)
  have "unat (drop_bit k (num_sectors s - data_start_sector s)) = ?room div 2 ^ k"
    using take_bit_nat_eq_self [OF unsigned_less [of "num_sectors s - data_start_sector s"]]
    by (simp only: unsigned_drop_bit_eq room) (simp add: drop_bit_eq_div room)
  moreover have "?room div 2 ^ k + 2 < 2 ^ 32"
  proof -
    have "unat (num_sectors s) < 2 ^ LENGTH(32)" by (rule unsigned_less)
    then have "unat (num_sectors s) < 4294967296" by simp
    moreover have "2 < unat (data_start_sector s)" using assms(9) by (simp add: word_less_nat_alt)
    moreover have "?room div 2 ^ k \<le> ?room" by (rule div_le_dividend)
    ultimately have "?room div 2 ^ k + 2 < 4294967296" by linarith
    then show ?thesis by simp
  qed
  ultimately have nc: "unat (num_clusters s) = ?room div 2 ^ k + 2"
    unfolding assms(5) by (simp add: unat_word_ariths)
  have "unat c - 2 < ?room div 2 ^ k" using assms(6,7) nc by (simp add: word_less_nat_alt word_le_nat_alt)
  then have fits: "(unat c - 2) * 2 ^ k + 2 ^ k \<le> ?room" by (rule div_mult_room) simp
  have "c - 2 = of_nat (unat c - 2)" using assms(6) by (simp add: word_le_nat_alt of_nat_diff)
  then have "START_SECTOR s c + of_nat i = of_nat ((unat c - 2) * 2 ^ k + unat (data_start_sector s) + i)"
    using assms(3) by (simp add: START_SECTOR_def assms(2) push_bit_eq_mult unat_of_nat)
  moreover have lt: "(unat c - 2) * 2 ^ k + unat (data_start_sector s) + i < unat (num_sectors s)"
    using fits assms(4,8) by (simp add: word_le_nat_alt)
  then have "unat (of_nat ((unat c - 2) * 2 ^ k + unat (data_start_sector s) + i) :: u32) < unat (num_sectors s)"
    by (simp only: unat_of_nat) (rule le_less_trans [OF mod_less_eq_dividend])
  ultimately show ?thesis by (simp add: out_of_range_def assms(1) word_le_nat_alt)
qed


text \<open>The fields of a mounted FAT volume that do not depend on the position of the table.\<close>

definition fat_fields :: "nat \<Rightarrow> sb \<Rightarrow> sb \<Rightarrow> bool" where
  "fat_fields spc s s' \<longleftrightarrow>
     sectors_per_clu_bits s' = ilog2_u32 spc \<and> sectors_per_clu s' = of_nat spc \<and>
     cluster_size_bits s' = ilog2_u32 spc + of_nat (sector_size_bits s) \<and>
     cluster_size s' = push_bit (unat (cluster_size_bits s')) 1 \<and>
     dentries_per_clu s' = push_bit (unat (cluster_size_bits s' - 5)) 1 \<and>
     num_clusters s' = drop_bit (unat (sectors_per_clu_bits s')) (num_sectors s' - (data_start_sector s' - PBR_sector s)) + 2 \<and>
     PBR_sector s' = PBR_sector s \<and> sector_size_bits s' = sector_size_bits s \<and>
     clu_srch_ptr s' = 2 \<and> used_clusters s' = CLUSTER_EOF \<and>
     (vol_type s' = FAT12 \<longrightarrow> num_clusters s' < FAT12_THRESHOLD) \<and> (vol_type s' = FAT16 \<longrightarrow> FAT12_THRESHOLD \<le> num_clusters s')"

lemmas mount_defs = Let_def set_search_state_def set_FAT_sectors_def set_cluster_bits_def

lemma fat_mount_fields:
  assumes "mount_pbr s pbr = (s', FFS_SUCCESS)" "vol_type s' \<noteq> EXFAT"
  shows "fat_fields (unat (bpb_of pbr ! offsetof BPB16_T ''sectors_per_clu'')) s s'"
proof -
  have e: "offsetof BPB32_T ''sectors_per_clu'' = offsetof BPB16_T ''sectors_per_clu''"
    "offsetof BPB32_T ''num_fats'' = offsetof BPB16_T ''num_fats''" "offsetof BPBEX_T ''num_fats'' \<noteq> 1" by (simp_all add: offsets)
  consider "fat16_mount s pbr = (s', FFS_SUCCESS)" | "fat32_mount s pbr = (s', FFS_SUCCESS)" | "exfat_mount s pbr = (s', FFS_SUCCESS)"
    using assms(1) by (auto simp: mount_pbr_def split: if_splits)
  then show ?thesis
  proof cases
    case 1
    have nf: "bpb_of pbr ! offsetof BPB16_T ''num_fats'' \<noteq> 0" using 1 by (auto simp: fat16_mount_def)
    have s': "s' = fst (fat16_mount s pbr)" by (simp add: 1)
    show ?thesis unfolding s' fat_fields_def fat16_mount_def mount_defs if_not_P [OF nf] fst_conv by (simp add: linorder_not_less)
  next
    case 2
    have nf: "bpb_of pbr ! offsetof BPB32_T ''num_fats'' \<noteq> 0" using 2 by (auto simp: fat32_mount_def)
    have s': "s' = fst (fat32_mount s pbr)" by (simp add: 2)
    show ?thesis unfolding s' fat_fields_def fat32_mount_def mount_defs if_not_P [OF nf] fst_conv by (simp add: e(1))
  next
    case 3
    then have nf: "bpb_of pbr ! offsetof BPBEX_T ''num_fats'' \<noteq> 0" by (auto simp: exfat_mount_def)
    have s': "s' = fst (exfat_mount s pbr)" by (simp add: 3)
    have "vol_type s' = EXFAT" unfolding s' exfat_mount_def mount_defs if_not_P [OF nf] fst_conv by simp
    with assms(2) show ?thesis by simp
  qed
qed


lemma ilog2_power: "ilog2 (2 ^ k) = k"
  by (induction k) (simp_all add: ilog2.simps)

lemma unat_push_one: "n < 32 \<Longrightarrow> unat (push_bit n 1 :: u32) = 2 ^ n"
proof -
  assume n: "n < 32"
  have "(2 :: nat) ^ n < 2 ^ 32" using n by (intro power_strict_increasing) simp_all
  then have "unat (of_nat (2 ^ n) :: u32) = 2 ^ n" by (subst unat_of_nat) (simp only: mod_less take_bit_nat_eq_self len_of_numeral_defs, simp)
  moreover have "push_bit n 1 = (of_nat (2 ^ n) :: u32)" by (simp add: push_bit_eq_mult)
  ultimately show ?thesis by (simp only:)
qed

text \<open>
  C25: Mounting a FAT12, FAT16 or FAT32 volume whose boot sector gives a power of two as sectors per cluster, and a data
  area inside the volume, establishes the geometry the other functions rely on: cluster size and entries per cluster are
  powers of two, every cluster below \<open>num_clusters\<close> lies inside the volume, and FAT12 is chosen exactly below the
  threshold.
\<close>

theorem fat_mount_geometry:
  assumes "mount_pbr s pbr = (s', FFS_SUCCESS)" "vol_type s' \<noteq> EXFAT" "PBR_sector s = 0"
    "9 \<le> sector_size_bits s" "sector_size_bits s \<le> 12" "unat (bpb_of pbr ! offsetof BPB16_T ''sectors_per_clu'') = 2 ^ k"
    "2 < data_start_sector s'" "data_start_sector s' \<le> num_sectors s'"
  shows "clu_geom s' \<and> unat (cluster_size s') = 2 ^ k * 2 ^ sector_size_bits s \<and>
    (vol_type s' \<noteq> FAT32 \<longrightarrow> (vol_type s' = FAT12 \<longleftrightarrow> num_clusters s' < FAT12_THRESHOLD))"
proof -
  have "unat (bpb_of pbr ! offsetof BPB16_T ''sectors_per_clu'') < 2 ^ LENGTH(8)" by (rule unsigned_less)
  then have "(2 :: nat) ^ k < 2 ^ 8" by (simp add: assms(6))
  then have k: "k < 8" by (simp only: power_strict_increasing_iff)
  note f = fat_mount_fields [OF assms(1,2), unfolded assms(6) fat_fields_def]
  have bits: "sectors_per_clu_bits s' = of_nat k" using f by (simp add: ilog2_u32_def ilog2_power)
  have cb: "unat (cluster_size_bits s') = k + sector_size_bits s'"
  proof -
    have "cluster_size_bits s' = of_nat (k + sector_size_bits s')" using f by (simp add: ilog2_u32_def ilog2_power)
    moreover have "k + sector_size_bits s' < 2 ^ 32" using k assms(5) f by simp
    ultimately show ?thesis by (simp only: unat_of_nat) simp
  qed
  have b: "9 \<le> sector_size_bits s'" "sector_size_bits s' \<le> 12" using assms(4,5) f by simp_all
  have five: "unat (cluster_size_bits s' - 5) = unat (cluster_size_bits s') - 5"
    using cb b(1) by (subst unat_sub) (simp_all add: word_le_nat_alt)
  have in_range: "\<not> out_of_range s' (START_SECTOR s' c + of_nat i)" if "2 \<le> c" "c < num_clusters s'" "i < 2 ^ k" for c i
    by (rule clusters_in_range [of s' k]) (use f k that assms(3,7,8) bits in \<open>auto simp: unat_of_nat\<close>)
  have "clu_geom s'"
    unfolding clu_geom_def Let_def cb
    using f b k in_range five cb by (auto simp: push_bit_eq_mult)
  moreover have "unat (cluster_size s') = 2 ^ k * 2 ^ sector_size_bits s"
    using f cb k b unat_push_one [of "k + sector_size_bits s'"] by (simp add: power_add)
  ultimately show ?thesis using f assms(2) by (cases "vol_type s'") auto
qed


text \<open>The boot sector of a FAT16 volume of \<open>n\<close> sectors with 4 sectors per cluster, its data area at sector 73.\<close>

definition sample_pbr :: "u16 \<Rightarrow> u8 list" where
  "sample_pbr n = (replicate 512 0)[13 := 4, 14 := 1, 16 := 2, 18 := 2, 19 := ucast n, 20 := ucast (drop_bit 8 n), 22 := 20]"

lemma sample_pbr_mount:
  fixes n :: u16
  assumes "n \<noteq> 0"
  defines "s' \<equiv> fst (mount_pbr (sample_sb FAT12) (sample_pbr n))"
  shows "mount_pbr (sample_sb FAT12) (sample_pbr n) = (s', FFS_SUCCESS)" "data_start_sector s' = 73" "num_sectors s' = ucast n"
    "vol_type s' \<noteq> EXFAT" "PBR_sector (sample_sb FAT12) = 0" "unat (bpb_of (sample_pbr n) ! offsetof BPB16_T ''sectors_per_clu'') = 2 ^ 2"
    "num_clusters s' = drop_bit 2 (ucast n - 73) + 2" "sector_size_bits (sample_sb FAT12) = 9"
proof -
  define p where "p = bpb_of (sample_pbr n)"
  have bytes: "p ! 0 = 0" "p ! 2 = 4" "p ! 3 = 1" "p ! 4 = 0" "p ! 5 = 2" "p ! 6 = 0" "p ! 7 = 2" "p ! 8 = ucast n"
    "p ! 9 = ucast (drop_bit 8 n)" "p ! 11 = 20" "p ! 12 = 0" "length p = 501"
    by (simp_all add: p_def bpb_of_def sample_pbr_def offsets)
  have g: "GET16 p 3 = 1" "GET16 p 6 = 512" "GET16 p 11 = 20" by (simp_all add: GET16_def bytes)
  have n: "GET16 p 8 = n" by (simp add: GET16_def bytes decompose16)
  show bits: "sector_size_bits (sample_sb FAT12) = 9" and pbr: "PBR_sector (sample_sb FAT12) = 0"
    by (simp_all add: sample_fields blank_sb_def)
  show "unat (bpb_of (sample_pbr n) ! offsetof BPB16_T ''sectors_per_clu'') = 2 ^ 2"
    unfolding p_def [symmetric] by (simp add: offsets bytes)
  have "list_ex (\<lambda>b. b \<noteq> 0) (take 53 p)"
    using nth_mem [of 2 "take 53 p"] bytes(2,12) by (auto simp: list_ex_iff intro!: bexI [of _ 4])
  then have m: "mount_pbr (sample_sb FAT12) (sample_pbr n) = fat16_mount (sample_sb FAT12) (sample_pbr n)"
    unfolding mount_pbr_def p_def [symmetric] g by simp
  have two: "ilog2_u32 4 = 2" using ilog2_power [of 2] by (simp add: ilog2_u32_def)
  have nf: "p ! offsetof BPB16_T ''num_fats'' \<noteq> 0" by (simp add: offsets bytes)
  have "unat n < 2 ^ LENGTH(16)" by (rule unsigned_less)
  then have "unat (ucast n :: u32) = unat n" by (simp add: unsigned_ucast_eq take_bit_nat_eq_self)
  then have nz: "(ucast n :: u32) \<noteq> 0" using assms(1) by (auto simp: word_unat_eq_iff)
  note e = m fat16_mount_def mount_defs p_def [symmetric] if_not_P [OF nf] fst_conv snd_conv
  show "mount_pbr (sample_sb FAT12) (sample_pbr n) = (s', FFS_SUCCESS)"
    unfolding s'_def unfolding e by simp
  show "data_start_sector s' = 73" "num_sectors s' = ucast n" "vol_type s' \<noteq> EXFAT" "num_clusters s' = drop_bit 2 (ucast n - 73) + 2"
    unfolding s'_def unfolding e by (simp_all add: offsets bytes g n nz bits pbr two of_s32_def push_bit_eq_mult drop_bit_eq_div)
qed

theorem fat_mount_geometry_witness:
  "let s' = fst (mount_pbr (sample_sb FAT12) (sample_pbr 20000)) in clu_geom s' \<and> cluster_size s' = 2048 \<and> vol_type s' \<noteq> FAT12"
proof -
  have "(20000 :: u16) \<noteq> 0" by simp
  note m = sample_pbr_mount [OF this]
  show ?thesis
    using fat_mount_geometry [OF m(1,4,5) _ _ m(6)] m(2,3,7,8) by (auto simp: word_unat_eq_iff Let_def)
qed

text \<open>
  Mounting a FAT volume does not compare the reserved area and the tables with the size of the volume.  If they reach behind its last
  sector and the volume is mounted, its number of clusters has wrapped around, and already the first cluster lies outside
  the volume.  The example below is such a volume.
\<close>

lemma fat_mount_accepts_truncated:
  assumes "mount_pbr s pbr = (s', FFS_SUCCESS)" "vol_type s' \<noteq> EXFAT" "PBR_sector s = 0"
    "unat (bpb_of pbr ! offsetof BPB16_T ''sectors_per_clu'') = 2 ^ k" "0 < k" "num_sectors s' < data_start_sector s'" "0 < num_sectors s'"
    "data_start_sector s' < 0x80000000"
  shows "2 < num_clusters s' \<and> out_of_range s' (START_SECTOR s' 2)"
proof -
  have "unat (bpb_of pbr ! offsetof BPB16_T ''sectors_per_clu'') < 2 ^ LENGTH(8)" by (rule unsigned_less)
  then have "(2 :: nat) ^ k < 2 ^ 8" by (simp add: assms(4))
  then have k: "k < 8" by (simp only: power_strict_increasing_iff)
  note f = fat_mount_fields [OF assms(1,2), unfolded assms(4) fat_fields_def]
  have bits: "sectors_per_clu_bits s' = of_nat k" using f by (simp add: ilog2_u32_def ilog2_power)
  let ?n = "num_sectors s' - data_start_sector s'"
  have nc: "num_clusters s' = drop_bit k ?n + 2" using f k assms(3) bits by (simp add: unat_of_nat)
  have big: "2 ^ 31 \<le> unat ?n"
    using assms(6,8) unsigned_less [of "num_sectors s'"] by (simp add: unat_sub_if' word_less_nat_alt)
  define q where "q = unat ?n div 2 ^ k"
  have dq: "unat (drop_bit k ?n) = q"
    using take_bit_nat_eq_self [OF unsigned_less [of ?n]] by (simp only: unsigned_drop_bit_eq) (simp add: drop_bit_eq_div q_def)
  have "(2 :: nat) ^ (24 + k) \<le> 2 ^ 31" using k by (intro power_increasing) simp_all
  then have "2 ^ 24 * 2 ^ k \<le> unat ?n" using big by (simp add: power_add)
  then have "2 ^ 24 \<le> q" by (simp add: q_def less_eq_div_iff_mult_less_eq)
  moreover have "q \<le> unat ?n div 2"
    unfolding q_def using power_increasing [of 1 k "2 :: nat"] assms(5) by (intro div_le_mono2) simp_all
  moreover have "unat ?n < 2 ^ LENGTH(32)" by (rule unsigned_less)
  ultimately have q: "2 < q" "q + 2 < 4294967296" by simp_all
  have "2 < num_clusters s'" unfolding nc using q by (simp add: word_less_nat_alt unat_word_ariths dq)
  moreover have "out_of_range s' (START_SECTOR s' 2)"
    using assms(3,6,7) f by (simp add: out_of_range_def START_SECTOR_def)
  ultimately show ?thesis by simp
qed


lemma fat_mount_accepts_truncated_example:
  "\<exists>s'. mount_pbr (sample_sb FAT12) (sample_pbr 50) = (s', FFS_SUCCESS) \<and> 2 < num_clusters s' \<and> out_of_range s' (START_SECTOR s' 2)"
proof -
  have "(50 :: u16) \<noteq> 0" by simp
  note m = sample_pbr_mount [OF this]
  show ?thesis using fat_mount_accepts_truncated [OF m(1,4,5,6)] m(1-3) by auto
qed

section \<open>Loading the allocation bitmap\<close>

text \<open>The entries that the search for the bitmap looks at: of each cluster, those in front of its first unused one.\<close>

definition seen_entries :: "sb \<Rightarrow> CHAIN_T list \<Rightarrow> dentry list" where
  "seen_entries s ks =
     concat (map (\<lambda>k. takeWhile (\<lambda>e. get_entry_type (dentry_func s) e \<noteq> TYPE_UNUSED) (cluster_entries s (ch_dir k))) ks)"

definition bitmap_entry :: "sb \<Rightarrow> dentry \<Rightarrow> bool" where
  "bitmap_entry s e \<longleftrightarrow> get_entry_type (dentry_func s) e = TYPE_BITMAP \<and> e ! offsetof BMAP_DENTRY_T ''flags'' = 0"

lemma bitmap_list:
  "scan_list (bitmap_scan (dentry_func s)) clu es () =
     (case find (bitmap_entry s) (takeWhile (\<lambda>e. get_entry_type (dentry_func s) e \<noteq> TYPE_UNUSED) es) of
        None \<Rightarrow> Inl () | Some e \<Rightarrow> Inr (Some e))"
  by (induction es) (auto simp: bitmap_scan_def Let_def bitmap_entry_def)

lemma find_append_case: "find P (xs @ ys) = (case find P xs of None \<Rightarrow> find P ys | Some x \<Rightarrow> Some x)"
  by (induction xs) simp_all

lemma bitmap_path:
  "scan_path (bitmap_scan (dentry_func s)) (path_entries s ks) () =
     (case find (bitmap_entry s) (seen_entries s ks) of None \<Rightarrow> Inl () | Some e \<Rightarrow> Inr (Some e))"
proof (induction ks)
  case Nil
  then show ?case by (simp add: path_entries_def seen_entries_def)
next
  case (Cons k ks)
  then show ?case
    using bitmap_list [of s k "cluster_entries s (ch_dir k)"]
    by (auto simp: path_entries_def seen_entries_def find_append_case split: option.splits)
qed

lemma amap_loop_ok:
  assumes "io_ready s" "\<forall>i < n. \<not> out_of_range s (sec + of_nat i)"
  shows "\<exists>s'. amap_loop n s sec = (s', FFS_SUCCESS) \<and>
    s' = s\<lparr>vol_amap := vol_amap s @ map (\<lambda>i. Some (sec + of_nat i)) [0..<n], pbr_bh := None, io_clock := io_clock s'\<rparr>"
  using assms
proof (induction n arbitrary: s sec)
  case 0
  then show ?case by simp
next
  case (Suc n)
  let ?t = "(tick s)\<lparr>vol_amap := vol_amap s @ [Some sec]\<rparr>"
  have rd: "sector_read s sec None True = (tick s, Some sec, FFS_SUCCESS)"
    using Suc.prems(1) Suc.prems(2) [rule_format, of 0]
    by (simp add: sector_read_def bdev_read_def kernel_getblk_def io_ready_def io_now_def)
  have "io_ready ?t" using Suc.prems(1) by (simp add: io_ready_def debug_error_rw_def tick_def)
  moreover have "\<forall>i < n. \<not> out_of_range ?t (sec + 1 + of_nat i)"
  proof (intro allI impI)
    fix i assume "i < n"
    then have "\<not> out_of_range s (sec + of_nat (Suc i))" using Suc.prems(2) by blast
    then show "\<not> out_of_range ?t (sec + 1 + of_nat i)" by (simp add: out_of_range_def tick_def add.assoc)
  qed
  ultimately obtain s' where s': "amap_loop n ?t (sec + 1) = (s', FFS_SUCCESS)"
    "s' = ?t\<lparr>vol_amap := vol_amap ?t @ map (\<lambda>i. Some (sec + 1 + of_nat i)) [0..<n], pbr_bh := None, io_clock := io_clock s'\<rparr>"
    using Suc.IH by blast
  have "map (\<lambda>i. Some (sec + of_nat i)) [0..<Suc n] = Some sec # map (\<lambda>i. Some (sec + 1 + of_nat i)) [0..<n]"
    by (simp add: upt_conv_Cons map_Suc_upt [symmetric] add.assoc comp_def del: upt_Suc)
  then show ?case using rd s' by (simp add: tick_def del: upt_Suc)
qed


text \<open>
  C30: On a working exFAT volume whose root directory has a bitmap entry that is large enough for all clusters, but not a
  sector longer than needed, and inside the volume, \<open>load_alloc_bitmap\<close> ends, succeeds, changes no data, and establishes
  the invariant \<open>amap_ok\<close> under which the allocation functions are proved correct.
\<close>

theorem load_alloc_bitmap_establishes:
  assumes "dir_ok s" "dir_path False s \<lparr>ch_dir = root_dir s, ch_size = 0, ch_flags = 0x01\<rparr> ks"
    "find (bitmap_entry s) (seen_entries s ks) = Some ep" "\<forall>t. mem_ok s t" "num_clusters s < 0xFFFFFFF0"
  defines "clu \<equiv> GET32 ep (offsetof BMAP_DENTRY_T ''start_clu'')"
    and "sectors \<equiv> unat (drop_bit (sector_size_bits s) (ucast (GET64 ep (offsetof BMAP_DENTRY_T ''size'')) - 1 :: u32) + 1)"
  assumes "unat (num_clusters s) - 2 \<le> sectors * 2 ^ (sector_size_bits s + 3)"
    "(sectors - 1) * 2 ^ (sector_size_bits s + 3) < unat (num_clusters s) - 2"
    "\<forall>i < sectors. \<not> out_of_range s (START_SECTOR s clu + of_nat i)"
  shows "\<exists>s'. load_alloc_bitmap s = Some (s', FFS_SUCCESS) \<and> amap_ok s' \<and> blk s' = blk s \<and> map_clu s' = clu"
proof -
  note o = dir_ok_fields [OF assms(1)]
  let ?sc = "bitmap_scan (dentry_func s)" and ?clu = "\<lparr>ch_dir = root_dir s, ch_size = 0, ch_flags = 0x01\<rparr>"
  have per: "uint (dentries_per_clu s) = int (per_clu s)"
  proof -
    have cb: "unat (cluster_size_bits s) \<le> 25" "dentries_per_clu s = 2 ^ (unat (cluster_size_bits s) - 5)"
      using o(7) by (simp_all add: clu_geom_def Let_def)
    then have "unat (dentries_per_clu s) = per_clu s"
      using unat_push_one [of "unat (cluster_size_bits s) - 5"] by (simp add: per_clu_def push_bit_eq_mult)
    then show ?thesis by (simp only: uint_nat)
  qed
  have sc: "sc_contig ?sc = False" "\<And>st. sc_first ?sc st = 0" by (simp_all add: bitmap_scan_def)
  obtain s1 where s1: "scan_clusters ?sc (uint (dentries_per_clu s)) False s ?clu () = Some (s1, Inr (Some ep))"
    "dir_ok s1" "vol_eq s s1"
    using scan_clusters_ok [of s ?sc ?clu ks "per_clu s" _ "\<lambda>_. True" "()"] assms(1,2,3) sc per bitmap_path [of s ks] by fastforce
  note f = same_volume_fields [OF vol_eq_same [OF s1(3)]] same_volume_derived [OF vol_eq_same [OF s1(3)]]
  have tbl: "2 < num_clusters s" using o(1) by (simp add: tbl_ok_def)
  define n where "n = drop_bit (sector_size_bits s) (ucast (GET64 ep (offsetof BMAP_DENTRY_T ''size'')) - 1 :: u32) + 1"
  let ?t = "(tick (s1\<lparr>map_clu := clu, map_sectors := n\<rparr>))\<lparr>vol_amap := []\<rparr>"
  have t: "START_SECTOR ?t clu = START_SECTOR s clu" "out_of_range ?t = out_of_range s" "io_ready ?t" "geom ?t"
    using f dir_ok_fields(3,4) [OF s1(2)]
    by (simp_all add: START_SECTOR_def out_of_range_def fun_eq_iff tick_def io_ready_def debug_error_rw_def geom_def)
  obtain s' where s': "amap_loop (unat n) ?t (START_SECTOR s clu) = (s', FFS_SUCCESS)"
    "s' = ?t\<lparr>vol_amap := vol_amap ?t @ map (\<lambda>i. Some (START_SECTOR s clu + of_nat i)) [0..<unat n], pbr_bh := None, io_clock := io_clock s'\<rparr>"
    using amap_loop_ok [OF t(3), of "unat n" "START_SECTOR s clu"] assms(10) t(2) unfolding sectors_def n_def by auto
  have nb: "sectors = unat n" by (simp add: sectors_def n_def)
  have v: "map_clu s' = clu" "map_sectors s' = n" "vol_amap s' = map (\<lambda>i. Some (START_SECTOR s clu + of_nat i)) [0..<unat n]"
    "START_SECTOR s' = START_SECTOR s" "out_of_range s' = out_of_range s" "num_clusters s' = num_clusters s"
    "sector_size_bits s' = sector_size_bits s" "blk s' = blk s" "io_ready s'" "geom s'"
    using t f by (subst s'(2), simp add: START_SECTOR_def out_of_range_def fun_eq_iff tick_def io_ready_def debug_error_rw_def geom_def)+
  have "amap_ok s'"
    using assms(5,8-10) tbl unfolding nb by (simp add: amap_ok_def amap_sector_def v)
  moreover have "load_alloc_bitmap s = Some (s', FFS_SUCCESS)"
    using s1(1) s'(1) assms(4) f unfolding load_alloc_bitmap_def
    by (simp add: kmalloc_def Let_def flip: clu_def n_def) (simp add: START_SECTOR_def tick_def)
  ultimately show ?thesis using v(1,8) by blast
qed


text \<open>The entry of a bitmap of 8 bytes in cluster 3.\<close>

definition bitmap_e :: dentry where
  "bitmap_e = (replicate 32 0)[0 := 0x81, 20 := 3, 24 := 8]"

theorem load_alloc_bitmap_establishes_witness:
  "\<exists>s'. load_alloc_bitmap (listed_sb EXFAT [bitmap_e]) = Some (s', FFS_SUCCESS) \<and> amap_ok s' \<and> map_clu s' = 3"
proof -
  let ?s = "listed_sb EXFAT [bitmap_e]"
  have l: "\<forall>e \<in> set [bitmap_e]. length e = 32" "length [bitmap_e] \<le> 16" by (simp_all add: bitmap_e_def)
  let ?k = "\<lparr>ch_dir = root_dir ?s, ch_size = 0, ch_flags = 0x01\<rparr>"
  have r: "root_dir ?s = 2" by (rule listed_dir(3) [OF l])
  have f: "num_clusters ?s = 66" "sector_size_bits ?s = 9" "START_SECTOR ?s 3 = 10"
    by (simp_all add: listed_sb_def START_SECTOR_def sample_dir_fields)
  have o: "out_of_range ?s sec \<longleftrightarrow> 1024 \<le> sec" for sec using sample_io(2) [of EXFAT sec] by (simp add: listed_sb_def out_of_range_def)
  have path: "dir_path False ?s ?k [?k]" by (simp add: next_clu_def r f listed_fat)
  have g: "get_entry_type (dentry_func ?s) = exfat_get_entry_type" by (simp add: dentry_func_def exfat_dentry_func_def listed_dir(2) [OF l])
  have t: "exfat_get_entry_type bitmap_e = TYPE_BITMAP" by (simp add: bitmap_e_def exfat_get_entry_type_def offsets GET16_def)
  have "cluster_entries ?s 2 = [bitmap_e] @ replicate 31 (replicate 32 0)"
    using listed_dir(6) [OF l, of EXFAT] by (simp add: dir_list_def one_cluster_def)
  then have "find (bitmap_entry ?s) (seen_entries ?s [?k]) = Some bitmap_e"
    by (simp add: seen_entries_def r g t bitmap_entry_def) (simp add: bitmap_e_def offsets)
  moreover have "GET32 bitmap_e (offsetof BMAP_DENTRY_T ''start_clu'') = 3" "GET64 bitmap_e (offsetof BMAP_DENTRY_T ''size'') = 8"
    by (simp_all add: bitmap_e_def offsets GET32_def GET64_def)
  moreover have "\<forall>t. mem_ok ?s t" by (simp add: listed_sb_def sample_fields blank_sb_def)
  ultimately show ?thesis
    using load_alloc_bitmap_establishes [OF listed_dir(1) [OF l] path, of bitmap_e] by (auto simp: f o drop_bit_eq_div)
qed

section \<open>Free space\<close>

lemma card_word_range: "card {a ..< b :: u32} = unat b - unat a"
proof -
  have "unat ` {a ..< b} = {unat a ..< unat b}"
  proof (rule antisym; rule subsetI)
    fix n assume n: "n \<in> {unat a ..< unat b}"
    have "unat b < 2 ^ LENGTH(32)" by (rule unsigned_less)
    then have "unat (of_nat n :: u32) = n" using n by (simp add: unat_of_nat)
    then show "n \<in> unat ` {a ..< b}"
      using n by (intro image_eqI [of _ _ "of_nat n"]) (simp_all add: word_le_nat_alt word_less_nat_alt)
  qed (auto simp: word_le_nat_alt word_less_nat_alt)
  then show ?thesis by (metis card_atLeastLessThan card_image inj_on_subset inj_unat subset_UNIV)
qed

text \<open>
  C31: On a mounted FAT volume whose clusters have not been counted yet, \<open>ffsGetVolInfo\<close> reports as free exactly the data
  clusters with a zero table entry, and used and free clusters add up to the data clusters.
\<close>

theorem vol_info_counts_free:
  assumes "tbl_ok s" "vol_type s \<noteq> EXFAT" "used_clusters s = CLUSTER_EOF"
  shows "\<exists>s' info. ffsGetVolInfo s = (s', info, FFS_SUCCESS) \<and>
    unat (FreeClusters info) = card {c. 2 \<le> c \<and> c < num_clusters s \<and> fat_get s c = 0} \<and>
    unat (UsedClusters info) + unat (FreeClusters info) = data_clusters s"
proof -
  let ?U = "{c. 2 \<le> c \<and> c < num_clusters s \<and> fat_get s c \<noteq> 0}" and ?F = "{c. 2 \<le> c \<and> c < num_clusters s \<and> fat_get s c = 0}"
  have big: "2 < unat (num_clusters s)" using assms(1) by (simp add: tbl_ok_def word_less_nat_alt)
  then have U: "{c. 2 \<le> c \<and> unat c < unat (2 :: u32) + (unat (num_clusters s) - 2) \<and> fat_get s c \<noteq> 0} = ?U"
    by (auto simp: word_less_nat_alt)
  have le: "unat (2 :: u32) + (unat (num_clusters s) - 2) \<le> unat (num_clusters s)" using big by simp
  obtain s1 where s1: "fat_count_used_clusters s = (s1, int (card ?U))" "vol_eq s s1"
    using count_used_card [OF assms(1) le, of 0] unfolding U fat_count_used_clusters_def by auto
  note f = same_volume_fields [OF vol_eq_same [OF s1(2)]] vol_eq_fields [OF s1(2)]
  have "{c. 2 \<le> c \<and> c < num_clusters s} = {2..<num_clusters s}" by auto
  then have "card {c. 2 \<le> c \<and> c < num_clusters s} = data_clusters s"
    using card_word_range [of 2 "num_clusters s"] big by (simp add: data_clusters_def)
  moreover have "{c. 2 \<le> c \<and> c < num_clusters s} = ?U \<union> ?F" by auto
  moreover have "card (?U \<union> ?F) = card ?U + card ?F" by (rule card_Un_disjoint) (auto intro: finite_subset [OF subset_UNIV])
  ultimately have sum: "card ?U + card ?F = data_clusters s" by simp
  have lim: "data_clusters s < 2 ^ 32" "unat (num_clusters s - 2) = data_clusters s"
    using big unat_range [of "num_clusters s"] by (simp_all add: data_clusters_def unat_sub_if')
  have u: "unat (of_nat (card ?U) :: u32) = card ?U" using sum lim(1) by (simp add: unat_of_nat)
  have "unat (num_clusters s - 2 - of_nat (card ?U)) = card ?F"
    using sum lim(2) u by (simp add: unat_sub_if')
  then show ?thesis
    using s1(1) f sum u assms
    by (auto simp: ffsGetVolInfo_def count_used_clusters_def of_s32_def tbl_ok_def fat_ok_def fat_ready_def io_ready_def)
qed

theorem vol_info_counts_free_witness:
  "\<exists>s' info. ffsGetVolInfo (sample_sb FAT16) = (s', info, FFS_SUCCESS) \<and> unat (UsedClusters info) + unat (FreeClusters info) = 64"
  using vol_info_counts_free [OF sample_tbl_ok(1), of FAT16] sample_tbl_ok(3,5) by (auto simp: sample_dir_fields)

end
