(* ===== verification/EntryProps.thy ===== *)
theory EntryProps
  imports EntrySet DirProps
begin

text \<open>
  What the rest of the driver may assume of an entry set that \<open>get_entry_set_in_dir\<close> returns, whatever the device holds
  and however it fails: the set is completely there and its entries are of the right types in the right order.
\<close>

section \<open>Reads leave the volume alone\<close>

lemma buf_getblk_same: "buf_getblk s sec = (s', r) \<Longrightarrow> same_volume s s'"
proof -
  have set_cache: "same_volume s (t\<lparr>the_buf_cache := c\<rparr>)" if "same_volume s t" for t c
    using that vol_eq_same [of t "t\<lparr>the_buf_cache := c\<rparr>"] same_volume_trans by (simp add: vol_eq_updates)
  assume "buf_getblk s sec = (s', r)"
  then show ?thesis
    unfolding buf_getblk_eq Let_def
    by (auto split: option.splits prod.splits if_splits dest!: sector_read_frame(1) intro!: set_cache
        intro: same_volume_trans [OF set_cache [OF same_volume_refl]])
qed

lemma FAT_getblk_same: "FAT_getblk s sec = (s', r) \<Longrightarrow> same_volume s s'"
proof -
  have set_cache: "same_volume s (t\<lparr>FAT_cache := c\<rparr>)" if "same_volume s t" for t c
    using that vol_eq_same [of t "t\<lparr>FAT_cache := c\<rparr>"] same_volume_trans by (simp add: vol_eq_updates)
  assume "FAT_getblk s sec = (s', r)"
  then show ?thesis
    unfolding FAT_getblk_eq Let_def
    by (auto split: option.splits prod.splits if_splits dest!: sector_read_frame(1) intro!: set_cache
        intro: same_volume_trans [OF set_cache [OF same_volume_refl]])
qed

lemma FAT_read_same: "FAT_read s c = (s', r) \<Longrightarrow> same_volume s s'"
  unfolding FAT_read_def Let_def
  by (auto split: vol_kind.splits option.splits prod.splits if_splits dest!: FAT_getblk_same intro: same_volume_trans)

lemma next_sector_same: "next_sector s flag clu sec = (s', r) \<Longrightarrow> same_volume s s'"
  by (auto simp: next_sector_def split: if_splits option.splits prod.splits dest!: FAT_read_same)

lemma walk_same: "walk_loop n s c = (s', r) \<Longrightarrow> same_volume s s'"
proof (induction n arbitrary: s c)
  case (Suc n)
  then show ?case by (auto split: prod.splits option.splits dest!: FAT_read_same intro: same_volume_trans)
qed auto

lemma walk_fat_chain_same: "walk_fat_chain s d off = (s', r) \<Longrightarrow> same_volume s s'"
  by (auto simp: walk_fat_chain_def Let_def split: if_splits dest: walk_same)

lemma same_volume_geom:
  assumes "same_volume s s'"
  shows "geom s' = geom s" "dentry_func s' = dentry_func s" "load_entry s' = load_entry s"
  using same_volume_fields [OF assms] by (simp_all add: geom_def dentry_func_def fun_eq_iff load_entry_def)

section \<open>The entries of a set\<close>

text \<open>The run of the state machine over a list of types.\<close>

fun es_run :: "es_mode \<Rightarrow> u32 list \<Rightarrow> bool" where
  "es_run mode [] \<longleftrightarrow> True"
| "es_run mode (t # ts) \<longleftrightarrow> t \<noteq> TYPE_UNUSED \<and> t \<noteq> TYPE_DELETED \<and> (\<exists>mode'. es_step mode t = Some mode' \<and> es_run mode' ts)"

definition buf_types :: "DENTRY_FUNC_T \<Rightarrow> u8 list \<Rightarrow> nat \<Rightarrow> u32 list" where
  "buf_types ops bytes n = map (\<lambda>k. get_entry_type ops (slice_at bytes (32 * k) 32)) [0..<n]"

lemma buf_types_Cons:
  assumes "length e = 32"
  shows "buf_types ops (e @ rest) (Suc n) = get_entry_type ops e # buf_types ops rest n"
proof -
  have "slice_at (e @ rest) (32 + 32 * k) 32 = slice_at rest (32 * k) 32" for k using assms by (simp add: slice_at_def)
  moreover have "slice_at (e @ rest) 0 32 = e" using assms by (simp add: slice_at_def)
  ultimately show ?thesis unfolding buf_types_def upt_conv_Cons [OF zero_less_Suc] map_Suc_upt [symmetric] by (simp add: comp_def)
qed

lemma wrap_offset:
  assumes "geom s" "32 dvd off" "off + 32 \<le> 2 ^ sector_size_bits s"
    "\<not> (int off + int DENTRY_SIZE) AND sector_size_mask s < int off AND sector_size_mask s"
  shows "off + 32 + 32 \<le> 2 ^ sector_size_bits s"
proof (rule ccontr)
  let ?n = "2 ^ sector_size_bits s :: nat"
  assume "\<not> ?thesis"
  moreover have "(32 :: nat) dvd ?n"
    using assms(1) le_imp_power_dvd [of 5 "sector_size_bits s" "2 :: nat"] by (simp add: geom_def)
  then obtain j k where "off = 32 * j" "?n = 32 * k" using assms(2) by (auto elim!: dvdE)
  ultimately have e: "off + 32 = ?n" using assms(3) by presburger
  have m: "int x AND sector_size_mask s = int (x mod ?n)" for x
    using assms(1) by (simp add: geom_def take_bit_eq_mod zmod_int flip: mask_eq_exp_minus_1 take_bit_eq_mask)
  have "(int off + int DENTRY_SIZE) AND sector_size_mask s = int (off + 32) AND sector_size_mask s" by simp
  also have "\<dots> = 0" by (simp only: m e mod_self of_nat_0)
  finally have "(int off + int DENTRY_SIZE) AND sector_size_mask s = 0" .
  moreover have "int off AND sector_size_mask s = int off" using m [of off] e by simp
  moreover have "0 < off" using e assms(1) power_increasing [of 9 "sector_size_bits s" "2 :: nat"] by (simp add: geom_def)
  ultimately show False using assms(4) by simp
qed

lemma es_loop_types:
  assumes "geom s" "32 dvd off" "off + 32 \<le> 2 ^ sector_size_bits s" "es_loop n s flag mode clu sec b off = (s', Some bytes)"
  shows "length bytes = 32 * n \<and> es_run mode (buf_types (dentry_func s) bytes n) \<and> same_volume s s'"
  using assms
proof (induction n arbitrary: s mode clu sec b off bytes)
  case 0
  then show ?case by (simp add: buf_types_def)
next
  case (Suc n)
  let ?e = "load_entry s (b, off)" and ?ops = "dentry_func s"
  have le: "length ?e = 32" using Suc.prems(1,3) by (simp add: load_entry_def geom_def)
  obtain m where m: "get_entry_type ?ops ?e \<noteq> TYPE_UNUSED" "get_entry_type ?ops ?e \<noteq> TYPE_DELETED" "es_step mode (get_entry_type ?ops ?e) = Some m"
    using Suc.prems(4) by (auto simp: Let_def split: if_splits option.splits)
  show ?case
  proof (cases "n = 0")
    case True
    then have "bytes = ?e" "s' = s" using Suc.prems(4) m by (auto simp: Let_def)
    then show ?thesis using buf_types_Cons [OF le, of ?ops "[]" 0] m le True by (simp add: buf_types_def)
  next
    case False
    define step where "step = (if (int off + int DENTRY_SIZE) AND sector_size_mask s < int off AND sector_size_mask s
                             then (case next_sector s flag clu sec of
                                     (s1, None) \<Rightarrow> (s1, None)
                                   | (s1, Some (clu, sec)) \<Rightarrow>
                                       (case buf_getblk s1 sec of
                                          (s2, None) \<Rightarrow> (s2, None)
                                        | (s2, Some b) \<Rightarrow> (s2, Some (clu, sec, b, 0))))
                             else (s, Some (clu, sec, b, off + DENTRY_SIZE)))"
    have "(case step of (s1, None) \<Rightarrow> (s1, None)
        | (s1, Some (clu, sec, b, off)) \<Rightarrow>
            (case es_loop n s1 flag m clu sec b off of (s2, None) \<Rightarrow> (s2, None) | (s2, Some rest) \<Rightarrow> (s2, Some (?e @ rest)))) = (s', Some bytes)"
      using Suc.prems(4) m False unfolding step_def by (simp add: Let_def)
    then obtain s1 clu1 sec1 b1 off1 rest where st: "step = (s1, Some (clu1, sec1, b1, off1))"
      and r: "es_loop n s1 flag m clu1 sec1 b1 off1 = (s', Some rest)" and b: "bytes = ?e @ rest"
      by (auto split: prod.splits option.splits)
    have s1: "same_volume s s1 \<and> 32 dvd off1 \<and> off1 + 32 \<le> 2 ^ sector_size_bits s"
    proof (cases "(int off + int DENTRY_SIZE) AND sector_size_mask s < int off AND sector_size_mask s")
      case True
      then have "same_volume s s1" "off1 = 0"
        using st unfolding step_def
        by (auto split: prod.splits option.splits dest!: next_sector_same buf_getblk_same intro: same_volume_trans)
      then show ?thesis using Suc.prems(3) by simp
    next
      case False
      then have "s1 = s" "off1 = off + 32" using st unfolding step_def by auto
      then show ?thesis using wrap_offset [OF Suc.prems(1-3) False] Suc.prems(2) by simp
    qed
    note g = same_volume_geom [of s s1] same_volume_fields [of s s1]
    have "length rest = 32 * n \<and> es_run m (buf_types (dentry_func s1) rest n) \<and> same_volume s1 s'"
      using Suc.IH [OF _ _ _ r] s1 Suc.prems(1) g by simp
    then show ?thesis
      using buf_types_Cons [OF le, of ?ops rest n] m s1 g b le same_volume_trans by auto
  qed
qed

text \<open>What the state machine accepts.\<close>

lemma es_run_tail:
  "es_run ES_MODE_GET_CRITICAL_SEC_ENTRY ts \<Longrightarrow> t \<in> set ts \<Longrightarrow> t AND TYPE_CRITICAL_SEC \<noteq> 0 \<and> t \<noteq> TYPE_STREAM \<and> t \<noteq> TYPE_EXTEND"
  by (induction ts) (auto split: if_splits)

lemma es_run_names:
  "es_run ES_MODE_GET_NAME_ENTRY ts \<Longrightarrow>
     \<exists>m \<le> length ts. (\<forall>k < m. ts ! k = TYPE_EXTEND) \<and>
       (\<forall>k. m \<le> k \<longrightarrow> k < length ts \<longrightarrow> ts ! k AND TYPE_CRITICAL_SEC \<noteq> 0 \<and> ts ! k \<noteq> TYPE_STREAM \<and> ts ! k \<noteq> TYPE_EXTEND)"
proof (induction ts)
  case (Cons t ts)
  show ?case
  proof (cases "t = TYPE_EXTEND")
    case True
    then obtain m where m: "m \<le> length ts" "\<forall>k < m. ts ! k = TYPE_EXTEND"
      "\<forall>k. m \<le> k \<longrightarrow> k < length ts \<longrightarrow> ts ! k AND TYPE_CRITICAL_SEC \<noteq> 0 \<and> ts ! k \<noteq> TYPE_STREAM \<and> ts ! k \<noteq> TYPE_EXTEND"
      using Cons by auto
    then show ?thesis using True by (intro exI [of _ "Suc m"]) (auto simp: nth_Cons split: nat.splits)
  next
    case False
    then have t: "t AND TYPE_CRITICAL_SEC \<noteq> 0" "t \<noteq> TYPE_STREAM" "es_run ES_MODE_GET_CRITICAL_SEC_ENTRY ts"
      using Cons.prems by (auto split: if_splits)
    then have "(t # ts) ! k AND TYPE_CRITICAL_SEC \<noteq> 0 \<and> (t # ts) ! k \<noteq> TYPE_STREAM \<and> (t # ts) ! k \<noteq> TYPE_EXTEND"
      if "k < length (t # ts)" for k
      using es_run_tail [OF t(3), of "(t # ts) ! k"] that False by (cases k) auto
    then show ?thesis by (intro exI [of _ 0]) simp
  qed
qed simp

lemma split_aligned:
  assumes "geom s" "split_offset s (in_cluster s (push_bit 5 entry)) base = (sec, off)"
  shows "32 dvd off" "off + 32 \<le> 2 ^ sector_size_bits s"
proof -
  define y where "y = in_cluster s (push_bit 5 entry)"
  have b: "9 \<le> sector_size_bits s" "sector_size_mask s = mask (sector_size_bits s)"
    using assms(1) by (simp_all add: geom_def mask_eq_exp_minus_1)
  have off: "int off = take_bit (sector_size_bits s) y"
    using assms(2) b(2) by (auto simp: split_offset_def take_bit_eq_mask simp flip: y_def)
  have "\<not> bit y n" if "n < 5" for n
    using that by (simp add: y_def in_cluster_def to_s32_def of_s32_def bit_simps)
  then have "take_bit 5 (int off) = 0" by (intro bit_eqI) (auto simp: off bit_simps)
  then have "int off mod 32 = 0" by (simp add: take_bit_eq_mod)
  then show d: "32 dvd off" by presburger
  have "int off < 2 ^ sector_size_bits s" by (simp add: off)
  then have lt: "off < 2 ^ sector_size_bits s" by (metis of_nat_less_iff of_nat_numeral of_nat_power)
  have "(32 :: nat) dvd 2 ^ sector_size_bits s" using b(1) le_imp_power_dvd [of 5 "sector_size_bits s" "2 :: nat"] by simp
  then obtain j k where "off = 32 * j" "(2 :: nat) ^ sector_size_bits s = 32 * k" using d by (auto elim!: dvdE)
  with lt show "off + 32 \<le> 2 ^ sector_size_bits s" by simp
qed

lemma get_entry_set_parts:
  assumes "geom s" "get_entry_set_in_dir s p_dir entry type = (s', Some es)"
  shows "length (es_buf es) = 32 * es_num_entries es \<and>
    es_run ES_MODE_STARTED (buf_types (dentry_func s) (es_buf es) (es_num_entries es)) \<and> same_volume s s'"
proof -
  obtain s1 clu where 1: "walk_fat_chain s p_dir (push_bit DENTRY_SIZE_BITS entry) = (s1, Some clu)"
    using assms(2) by (auto simp: get_entry_set_in_dir_def Let_def split: prod.splits option.splits)
  obtain sec off where 2: "split_offset s1 (in_cluster s1 (push_bit DENTRY_SIZE_BITS entry)) (START_SECTOR s1 clu) = (sec, off)" by fastforce
  obtain s2 b where 3: "buf_getblk s1 sec = (s2, Some b)"
    using assms(2) 1 2 by (auto simp: get_entry_set_in_dir_def Let_def split: prod.splits option.splits)
  obtain s3 n bytes where 4: "kmalloc s2 = (s3, True)" "es_loop n s3 (ch_flags p_dir) ES_MODE_STARTED clu sec b off = (s', Some bytes)"
    "es_num_entries es = n" "es_buf es = bytes"
    using assms(2) 1 2 3 by (auto simp: get_entry_set_in_dir_def Let_def split: prod.splits option.splits if_splits bool.splits)
  have v1: "same_volume s s1" using walk_fat_chain_same [OF 1] .
  have v3: "same_volume s s3"
    using same_volume_trans [OF v1 buf_getblk_same [OF 3]] same_volume_trans [OF _ same_volume_updates(2)] 4(1) by (auto simp: kmalloc_def)
  note g1 = same_volume_geom [OF v1] and g3 = same_volume_geom [OF v3] and f1 = same_volume_fields [OF v1] and f3 = same_volume_fields [OF v3]
  have "32 dvd off" "off + 32 \<le> 2 ^ sector_size_bits s3" using split_aligned [of s1 entry] 2 assms(1) g1 f1 f3 by auto
  from es_loop_types [OF _ this 4(2)] show ?thesis using assms(1) g3 v3 4(3,4) same_volume_trans by auto
qed

text \<open>
  C15: Whatever the device holds and however it fails: when \<open>get_entry_set_in_dir\<close> returns a set, all its entries are
  there, and they are well-formed: the first is a file or a directory, the second a stream entry, the third
  a name entry, and behind them follow name entries and then other critical secondary entries only.  The volume itself is
  not touched.
\<close>

theorem entry_set_is_typed:
  assumes "geom s" "get_entry_set_in_dir s p_dir entry type = (s', Some es)"
  defines "t \<equiv> \<lambda>k. get_entry_type (dentry_func s) (es_entry es k)" and "n \<equiv> es_num_entries es"
  shows "length (es_buf es) = 32 * n \<and> same_volume s s' \<and> (0 < n \<longrightarrow> t 0 = TYPE_FILE \<or> t 0 = TYPE_DIR) \<and>
    (1 < n \<longrightarrow> t 1 = TYPE_STREAM) \<and> (2 < n \<longrightarrow> t 2 = TYPE_EXTEND) \<and>
    (\<exists>m. \<forall>k. 2 \<le> k \<longrightarrow> k < n \<longrightarrow>
       (if k < m then t k = TYPE_EXTEND else t k AND TYPE_CRITICAL_SEC \<noteq> 0 \<and> t k \<noteq> TYPE_STREAM \<and> t k \<noteq> TYPE_EXTEND))"
proof -
  have p: "length (es_buf es) = 32 * n" "es_run ES_MODE_STARTED (map t [0..<n])" "same_volume s s'"
    using get_entry_set_parts [OF assms(1,2)] by (simp_all add: n_def t_def buf_types_def es_entry_def comp_def)
  have shape: "(0 < n \<longrightarrow> t 0 = TYPE_FILE \<or> t 0 = TYPE_DIR) \<and> (1 < n \<longrightarrow> t 1 = TYPE_STREAM) \<and> (2 < n \<longrightarrow> t 2 = TYPE_EXTEND) \<and>
      (2 < n \<longrightarrow> es_run ES_MODE_GET_NAME_ENTRY (map t [3..<n]))"
  proof -
    consider "n = 0" | "n = 1" | "n = 2" | "2 < n" by linarith
    then show ?thesis
    proof cases
      case 3
      have "[0..<2] = [0, 1 :: nat]" by (simp add: upt_rec)
      then show ?thesis using p(2) 3 by (auto split: if_splits)
    next
      case 4
      then have "[0..<n] = 0 # 1 # 2 # [3..<n]" by (simp add: upt_conv_Cons numeral_3_eq_3 numeral_2_eq_2)
      then show ?thesis using p(2) 4 by (auto split: if_splits)
    qed (use p(2) in \<open>auto split: if_splits\<close>)
  qed
  have "\<exists>m. \<forall>k. 2 \<le> k \<longrightarrow> k < n \<longrightarrow>
      (if k < m then t k = TYPE_EXTEND else t k AND TYPE_CRITICAL_SEC \<noteq> 0 \<and> t k \<noteq> TYPE_STREAM \<and> t k \<noteq> TYPE_EXTEND)"
  proof (cases "2 < n")
    case True
    let ?ts = "map t [3..<n]"
    obtain m where m: "\<forall>k < m. ?ts ! k = TYPE_EXTEND"
      "\<forall>k. m \<le> k \<longrightarrow> k < length ?ts \<longrightarrow> ?ts ! k AND TYPE_CRITICAL_SEC \<noteq> 0 \<and> ?ts ! k \<noteq> TYPE_STREAM \<and> ?ts ! k \<noteq> TYPE_EXTEND"
      using es_run_names [of ?ts] shape True by blast
    have "if k < 3 + m then t k = TYPE_EXTEND else t k AND TYPE_CRITICAL_SEC \<noteq> 0 \<and> t k \<noteq> TYPE_STREAM \<and> t k \<noteq> TYPE_EXTEND"
      if k: "2 \<le> k" "k < n" for k
    proof (cases "k = 2")
      case False
      then obtain j where j: "k = 3 + j" using k le_Suc_ex [of 3 k] by auto
      then have jn: "j < length ?ts" "?ts ! j = t k" using k by simp_all
      show ?thesis
      proof (cases "j < m")
        case True
        then show ?thesis using m(1) jn j by auto
      next
        case False
        then have "m \<le> j" by simp
        then show ?thesis using m(2) jn j False by auto
      qed
    qed (use shape True in simp)
    then show ?thesis by blast
  qed auto
  then show ?thesis using p shape by blast
qed

definition sample_set :: "dentry list" where
  "sample_set = [(replicate 32 0)[0 := 0x85, 1 := 2], (replicate 32 0)[0 := 0xC0], (replicate 32 0)[0 := 0xC1]]"

text \<open>A file with a stream entry and one name entry.\<close>

theorem entry_set_is_typed_witness:
  "\<exists>s' es. get_entry_set_in_dir (listed_sb EXFAT sample_set) one_cluster 0 ES_ALL_ENTRIES = (s', Some es) \<and>
    es_num_entries es = 3 \<and> exfat_get_entry_type (es_entry es 1) = TYPE_STREAM"
proof -
  let ?s = "listed_sb EXFAT sample_set"
  have l: "\<forall>e \<in> set sample_set. length e = 32" "length sample_set \<le> 16" by (simp_all add: sample_set_def)
  note d = listed_dir [OF l, of EXFAT]
  have f: "sector_size_bits ?s = 9" "cluster_size_bits ?s = 10" "cluster_size ?s = 1024" "START_SECTOR ?s 2 = 8" "sector_size_mask ?s = 511"
    "mem_ok ?s = (\<lambda>_. True)"
    by (simp_all add: listed_sb_def sample_dir_fields START_SECTOR_def) (simp_all add: sample_fields blank_sb_def)
  have "\<not> out_of_range ?s 8" by (simp add: listed_sb_def out_of_range_def) (simp add: sample_fields blank_sb_def)
  then obtain s2 where s2: "buf_getblk ?s 8 = (s2, Some 8)" "vol_eq ?s s2"
    using getblk_dir [OF d(1)] by metis
  note g = same_volume_fields [OF vol_eq_same [OF s2(2)]] vol_eq_fields [OF s2(2)]
  define s3 where "s3 = tick s2"
  have km: "kmalloc s2 = (s3, True)" using g f by (simp add: kmalloc_def s3_def)
  have v3: "same_volume ?s s3" using same_volume_trans [OF vol_eq_same [OF s2(2)] same_volume_updates(2)] by (simp add: s3_def)
  have ops: "dentry_func s3 = exfat_dentry_func" "dentry_func s2 = exfat_dentry_func"
    using g d(2) by (simp_all add: dentry_func_def s3_def tick_def)
  have b: "blk ?s 8 = take 512 (concat sample_set @ replicate 512 0)" by (simp add: listed_sb_def)
  have e: "load_entry ?s (8, 0) = sample_set ! 0" "load_entry ?s (8, 32) = sample_set ! 1" "load_entry ?s (8, 64) = sample_set ! 2"
    unfolding load_entry_def b slice_at_def fst_conv snd_conv by (simp_all add: sample_set_def)
  have ld: "load_entry s2 = load_entry ?s" "load_entry s3 = load_entry ?s"
    using same_volume_geom(3) [OF v3] same_volume_geom(3) [OF vol_eq_same [OF s2(2)]] by simp_all
  have ty: "exfat_get_entry_type (sample_set ! 0) = TYPE_FILE" "exfat_get_entry_type (sample_set ! 1) = TYPE_STREAM"
    "exfat_get_entry_type (sample_set ! 2) = TYPE_EXTEND"
    by (simp_all add: exfat_get_entry_type_def sample_set_def offsets GET16_def Let_def)
  have mask: "sector_size_mask s3 = 511" using same_volume_fields [OF v3] f by simp
  have et: "get_entry_type exfat_dentry_func = exfat_get_entry_type" by (simp add: exfat_dentry_func_def)
  have lp: "es_loop 3 s3 3 ES_MODE_STARTED 2 8 8 0 = (s3, Some (concat sample_set))"
  proof -
    have "concat sample_set = sample_set ! 0 @ sample_set ! 1 @ sample_set ! 2" by (simp add: sample_set_def)
    then show ?thesis using ty(2) by (simp add: numeral_3_eq_3 Let_def ops et ld e ty(1,3) mask)
  qed
  have "get_entry_set_in_dir ?s one_cluster 0 ES_ALL_ENTRIES =
      (s3, Some \<lparr>es_sector = 8, es_offset = 0, es_alloc_flag = 3, es_num_entries = 3, es_buf = concat sample_set\<rparr>)"
    (is "_ = (s3, Some ?es)")
  proof -
    have "in_cluster ?s 0 = 0" by (simp add: in_cluster_def of_s32_def to_s32_def)
    then have "split_offset ?s (in_cluster ?s 0) (START_SECTOR ?s 2) = (8, 0)" using f by (simp add: split_offset_def of_s32_def)
    moreover have "walk_fat_chain ?s one_cluster 0 = (?s, Some 2)" by (simp add: walk_fat_chain_def one_cluster_def of_s32_def)
    moreover have "unat (sample_set ! 0 ! offsetof FILE_DENTRY_T ''num_ext'' + 1) = 3" by (simp add: sample_set_def offsets)
    moreover have "ch_flags one_cluster = 3" by (simp add: one_cluster_def)
    ultimately show ?thesis using s2(1) lp by (simp add: get_entry_set_in_dir_def Let_def ops et ld e ty km)
  qed
  moreover have "exfat_get_entry_type (es_entry ?es 1) = TYPE_STREAM"
  proof -
    have "geom ?s" using dir_ok_fields(4) [OF d(1)] .
    from entry_set_is_typed [OF this calculation] show ?thesis using d(2) by (simp add: dentry_func_def et)
  qed
  ultimately show ?thesis by (intro exI [of _ s3] exI [of _ ?es]) simp
qed

end
