(* ===== verification/FsFunc.thy ===== *)
theory FsFunc
  imports Mount
begin

text \<open>
  The table \<open>fs_func\<close> of the mounted volume (the entry accessors of it are \<open>dentry_func\<close>), the generation of short names
  (\<open>fat_generate_dos_name\<close>, \<open>get_num_entries_and_dos_name\<close>), and the resolution of a path.  A function of the table that
  follows a chain of clusters returns an option, \<open>None\<close> when it does not return.
\<close>

section \<open>The function table\<close>

definition alloc_cluster :: "sb \<Rightarrow> int \<Rightarrow> CHAIN_T \<Rightarrow> (sb \<times> CHAIN_T \<times> int) option" where
  "alloc_cluster s num_alloc p_chain =
     (if vol_type s = EXFAT then exfat_alloc_cluster s num_alloc p_chain else Some (fat_alloc_cluster s num_alloc p_chain))"

definition free_cluster :: "sb \<Rightarrow> CHAIN_T \<Rightarrow> bool \<Rightarrow> sb option" where
  "free_cluster s p_chain do_relse =
     (if vol_type s = EXFAT then exfat_free_cluster s p_chain do_relse else fat_free_cluster s p_chain do_relse)"

definition init_dir_entry :: "sb \<Rightarrow> CHAIN_T \<Rightarrow> int \<Rightarrow> u32 \<Rightarrow> u32 \<Rightarrow> u64 \<Rightarrow> sb \<times> ffs" where
  "init_dir_entry s p_dir entry type clu n =
     (if vol_type s = EXFAT then exfat_init_dir_entry s p_dir entry type clu n else fat_init_dir_entry s p_dir entry type clu n)"

definition init_ext_entries :: "sb \<Rightarrow> CHAIN_T \<Rightarrow> int \<Rightarrow> int \<Rightarrow> UNI_NAME_T \<Rightarrow> DOS_NAME_T \<Rightarrow> sb \<times> ffs" where
  "init_ext_entries s p_dir entry num_entries p_uniname p_dosname =
     (if vol_type s = EXFAT then exfat_init_ext_entry s p_dir entry num_entries p_uniname p_dosname
      else fat_init_ext_entry s p_dir entry num_entries p_uniname p_dosname)"

definition find_dir_entry :: "sb \<Rightarrow> CHAIN_T \<Rightarrow> UNI_NAME_T \<Rightarrow> int \<Rightarrow> DOS_NAME_T \<Rightarrow> u32 \<Rightarrow> (sb \<times> int) option" where
  "find_dir_entry s p_dir p_uniname num_entries p_dosname type =
     (if vol_type s = EXFAT then exfat_find_dir_entry s p_dir p_uniname num_entries p_dosname type
      else fat_find_dir_entry s p_dir p_uniname num_entries p_dosname type)"

definition delete_dir_entry :: "sb \<Rightarrow> CHAIN_T \<Rightarrow> int \<Rightarrow> int \<Rightarrow> int \<Rightarrow> sb" where
  "delete_dir_entry s p_dir entry offset num_entries =
     (if vol_type s = EXFAT then exfat_delete_dir_entry s p_dir entry offset num_entries
      else fat_delete_dir_entry s p_dir entry offset num_entries)"

definition get_uni_name_from_ext_entry :: "sb \<Rightarrow> CHAIN_T \<Rightarrow> int \<Rightarrow> u16 list \<Rightarrow> sb \<times> u16 list" where
  "get_uni_name_from_ext_entry s p_dir entry uniname =
     (if vol_type s = EXFAT then exfat_get_uni_name_from_ext_entry s p_dir entry uniname
      else fat_get_uni_name_from_ext_entry s p_dir entry uniname)"

definition count_ext_entries :: "sb \<Rightarrow> CHAIN_T \<Rightarrow> int \<Rightarrow> dentry \<Rightarrow> sb \<times> int" where
  "count_ext_entries s p_dir entry p_entry =
     (if vol_type s = EXFAT then exfat_count_ext_entries s p_dir entry p_entry else fat_count_ext_entries s p_dir entry p_entry)"

section \<open>Sequences of fallible steps\<close>

text \<open>\<open>if (ret != FFS_SUCCESS) return ret;\<close> between two steps.\<close>

definition then_ok :: "sb \<times> ffs \<Rightarrow> (sb \<Rightarrow> sb \<times> ffs) \<Rightarrow> sb \<times> ffs" where
  "then_ok r f = (case r of (s, ret) \<Rightarrow> if ret \<noteq> FFS_SUCCESS then (s, ret) else f s)"

lemma then_ok_simps [simp]: "then_ok (s, FFS_SUCCESS) f = f s" "ret \<noteq> FFS_SUCCESS \<Longrightarrow> then_ok (s, ret) f = (s, ret)"
  by (simp_all add: then_ok_def)

text \<open>
  \<open>CONFIG_EXFAT_DELAYED_SYNC\<close> is defined (as 0) and tested with \<open>#ifdef\<close>: the operations end with \<open>delayed_sync\<close>, and
  return \<open>FFS_MEDIAERR\<close> in place of their result once the device is gone.
\<close>

definition delayed_sync :: "sb \<Rightarrow> sb" where
  "delayed_sync s = fs_set_vol_flags (fs_sync s False) VOL_CLEAN"

definition eject_ret :: "sb \<Rightarrow> ffs \<Rightarrow> ffs" where
  "eject_ret s ret = (if dev_ejected s then FFS_MEDIAERR else ret)"

section \<open>Short names\<close>

definition reserved_names :: "u8 list list" where
  "reserved_names = map (map of_char)
     [''AUX     '', ''CON     '', ''NUL     '', ''PRN     '', ''COM1    '', ''COM2    '', ''COM3    '', ''COM4    '',
      ''COM5    '', ''COM6    '', ''COM7    '', ''COM8    '', ''COM9    '', ''LPT1    '', ''LPT2    '', ''LPT3    '',
      ''LPT4    '', ''LPT5    '', ''LPT6    '', ''LPT7    '', ''LPT8    '', ''LPT9    '']"

text \<open>The number at the end of a short name: the loop over its first eight bytes.\<close>

fun name_count :: "u8 list \<Rightarrow> int \<Rightarrow> bool \<Rightarrow> int" where
  "name_count [] count count_begin = count"
| "name_count (c # cs) count count_begin =
     (if c = SPACE then count
      else if c = 0x7E then name_count cs count True
      else if count_begin then
        (if 0x30 \<le> c \<and> c \<le> 0x39 then name_count cs (count * 10 + uint (c - 0x30)) True else name_count cs 0 False)
      else name_count cs count False)"

text \<open>The bit map of the numbers in use is the local variable of the scan.\<close>

definition generate_body :: "DENTRY_FUNC_T \<Rightarrow> u8 list \<Rightarrow> CHAIN_T \<Rightarrow> dentry \<Rightarrow> (u8 list, ffs) flow" where
  "generate_body ops bmap clu e =
     (let type = get_entry_type ops e
      in if type = TYPE_UNUSED then Break bmap
         else if type \<noteq> TYPE_FILE \<and> type \<noteq> TYPE_DIR then Continue bmap
         else let count = name_count (slice_at e (offsetof DOS_DENTRY_T ''name'') 8) 0 False
              in Continue (if 0 < count \<and> count < 1024 then exfat_bitmap_set bmap (nat count) else bmap))"

fun first_count :: "u8 list \<Rightarrow> nat \<Rightarrow> nat" where
  "first_count [] i = 0"
| "first_count (b # bs) i =
     (if b \<noteq> 0xFF then
        (case find (\<lambda>j. exfat_bitmap_test [b] j = 0) [0..<8] of
           Some j \<Rightarrow> if push_bit 3 i + j \<noteq> 0 then push_bit 3 i + j else first_count bs (i + 1)
         | None \<Rightarrow> first_count bs (i + 1))
      else first_count bs (i + 1))"

text \<open>\<open>snprintf\<close> of \<open>"~%d"\<close> for a positive number.\<close>

fun decimal :: "nat \<Rightarrow> u8 list" where
  "decimal n = (if n < 10 then [0x30 + of_nat n] else decimal (n div 10) @ [0x30 + of_nat (n mod 10)])"

declare decimal.simps [simp del]

text \<open>The loop that finds the place of the number: \<open>i\<close> is the last position visited.\<close>

function attach_pos :: "u8 list \<Rightarrow> int \<Rightarrow> nat \<Rightarrow> nat \<Rightarrow> nat" where
  "attach_pos dosname limit i j =
     (if int j \<le> limit then
        (if dosname ! j = SPACE then j else attach_pos dosname limit j (if dosname ! j AND 0x80 \<noteq> 0 then j + 2 else j + 1))
      else i)"
  by pat_completeness auto
termination by (relation "measure (\<lambda>(dosname, limit, i, j). nat (limit + 1) - j)") auto

declare attach_pos.simps [simp del]

definition fat_attach_count_to_dos_name :: "u8 list \<Rightarrow> nat \<Rightarrow> u8 list" where
  "fat_attach_count_to_dos_name dosname count =
     (let str_count = 0x7E # decimal count;
          i = attach_pos dosname (8 - int (length str_count)) 0 0;
          dosname = splice_at dosname i str_count
      in if i + length str_count = 7 then dosname[7 := SPACE] else dosname)"

definition fat_generate_dos_name :: "sb \<Rightarrow> CHAIN_T \<Rightarrow> DOS_NAME_T \<Rightarrow> (sb \<times> ffs \<times> DOS_NAME_T) option" where
  "fat_generate_dos_name s p_dir p_dosname =
     (let sc = \<lparr>sc_first = (\<lambda>_. 0), sc_body = generate_body (dentry_func s),
                sc_null = (\<lambda>_. Return FFS_MEDIAERR), sc_fat = (\<lambda>_. Return FFS_MEDIAERR), sc_contig = False, sc_ejects = True\<rparr>
      in case scan_dir sc s p_dir p_dir (exfat_bitmap_set (replicate 128 0) 0) of
           None \<Rightarrow> None
         | Some (s1, Inr ret) \<Rightarrow> Some (s1, ret, p_dosname)
         | Some (s1, Inl bmap) \<Rightarrow>
             let count = first_count bmap 0
             in if count = 0 \<or> count \<ge> 1024 then Some (s1, FFS_FILEEXIST, p_dosname)
                else Some (s1, FFS_SUCCESS, p_dosname\<lparr>dos_name := fat_attach_count_to_dos_name (dos_name p_dosname) count\<rparr>))"

text \<open>
  The kernel services for names: the character set of short names, the one of the mount option (\<open>NULL\<close> for UTF-8), and
  the two UTF-8 conversions.
\<close>

record nls_conf =
  nls_disk :: nls_table
  nls_io :: "nls_table option"
  utf8_to_utf16 :: "u8 list \<Rightarrow> u16 list \<times> int"
  utf16_to_utf8 :: "u16 list \<Rightarrow> u8 list"

text \<open>The result: the return value, \<open>*entries\<close> and \<open>*p_dosname\<close>; the name starts as whatever the caller's variable holds.\<close>

definition get_num_entries_and_dos_name :: "nls_conf \<Rightarrow> sb \<Rightarrow> CHAIN_T \<Rightarrow> UNI_NAME_T \<Rightarrow> (sb \<times> ffs \<times> int \<times> DOS_NAME_T) option" where
  "get_num_entries_and_dos_name conf s p_dir p_uniname =
     (let num_entries = calc_num_entries (dentry_func s) (name_len p_uniname);
          blank = \<lparr>dos_name = replicate DOS_NAME_LENGTH 0, name_case = 0\<rparr>
      in if num_entries = 0 then Some (s, FFS_INVALIDPATH, 0, blank)
         else if vol_type s = EXFAT then Some (s, FFS_SUCCESS, num_entries, blank)
         else case nls_uniname_to_dosname (nls_disk conf) s p_uniname of
                (dos, lossy) \<Rightarrow>
                  if lossy then
                    (case fat_generate_dos_name s p_dir dos of
                       None \<Rightarrow> None
                     | Some (s1, ret, dos) \<Rightarrow>
                         if ret \<noteq> FFS_SUCCESS then Some (s1, ret, 0, dos)
                         else Some (s1, FFS_SUCCESS, num_entries, if num_entries > 1 then dos\<lparr>name_case := 0\<rparr> else dos))
                  else if list_ex (\<lambda>r. strneq 8 (dos_name dos) r) reserved_names then Some (s, FFS_INVALIDPATH, 0, dos)
                  else let num_entries = (if name_case dos \<noteq> 0xFF then 1 else num_entries)
                       in Some (s, FFS_SUCCESS, num_entries, if num_entries > 1 then dos\<lparr>name_case := 0\<rparr> else dos))"

definition get_uni_name_from_dos_entry :: "nls_conf \<Rightarrow> dentry \<Rightarrow> UNI_NAME_T \<Rightarrow> u8 \<Rightarrow> UNI_NAME_T" where
  "get_uni_name_from_dos_entry conf ep p_uniname mode =
     nls_dosname_to_uniname (nls_disk conf) p_uniname
       \<lparr>dos_name = slice_at ep (offsetof DOS_DENTRY_T ''name'') DOS_NAME_LENGTH,
        name_case = (if mode = 0 then 0 else ep ! offsetof DOS_DENTRY_T ''lcase'')\<rparr>"

section \<open>Inodes and paths\<close>

text \<open>What the operations use of a Linux inode, with \<open>EXFAT_I(inode)\<close>.\<close>

record inode =
  i_fid :: FILE_ID_T
  i_size :: int
  mmu_private :: int
  i_blocks :: int

abbreviation (input) MAX_CHARSET_SIZE :: nat where "MAX_CHARSET_SIZE \<equiv> 3"

text \<open>A local \<open>UNI_NAME_T\<close>; its initial contents are not read.\<close>

definition blank_uniname :: UNI_NAME_T where
  "blank_uniname = \<lparr>uni_name = replicate MAX_NAME_LENGTH 0, name_hash = 0, name_len = 0\<rparr>"

text \<open>The path is the string up to its terminator.\<close>

definition resolve_path :: "nls_conf \<Rightarrow> sb \<Rightarrow> inode \<Rightarrow> u8 list \<Rightarrow> inode \<times> ffs \<times> CHAIN_T \<times> UNI_NAME_T" where
  "resolve_path conf s inode pathname =
     (let dir = \<lparr>ch_dir = 0, ch_size = 0, ch_flags = 0\<rparr>
      in if length pathname \<ge> MAX_NAME_LENGTH * MAX_CHARSET_SIZE then (inode, FFS_INVALIDPATH, dir, blank_uniname)
         else case nls_cstring_to_uniname (utf8_to_utf16 conf) (nls_io conf) s blank_uniname pathname of
                (uni, lossy) \<Rightarrow>
                  if lossy then (inode, FFS_INVALIDPATH, dir, uni)
                  else let fid = (i_fid inode)\<lparr>fid_size := word_of_int (i_size inode)\<rparr>
                       in (inode\<lparr>i_fid := fid\<rparr>, FFS_SUCCESS,
                           \<lparr>ch_dir = start_clu fid,
                            ch_size = to_s32 (ucast (drop_bit (unat (cluster_size_bits s)) (fid_size fid))),
                            ch_flags = fid_flags fid\<rparr>, uni))"

end
