(* ===== verification/ShortNames.thy ===== *)
theory ShortNames
  imports FsFunc DirProps AllocSearch
begin

text \<open>
  The numbers of short names: \<open>fat_generate_dos_name\<close> collects the numbers at the ends of the names in the directory and
  attaches the smallest one that is left.  The name it makes is new when the base has no tilde; with one it need not be.
\<close>

section \<open>The numbers in use\<close>

definition short_stem :: "dentry \<Rightarrow> u8 list" where
  "short_stem e = slice_at e (offsetof DOS_DENTRY_T ''name'') 8"

text \<open>The entries of files and directories that the scan visits: it leaves a cluster at its first unused entry.\<close>

definition named_entries :: "sb \<Rightarrow> CHAIN_T list \<Rightarrow> dentry list" where
  "named_entries s ks =
     (let type = get_entry_type (dentry_func s)
      in filter (\<lambda>e. type e = TYPE_FILE \<or> type e = TYPE_DIR)
           (concat (map (\<lambda>k. takeWhile (\<lambda>e. type e \<noteq> TYPE_UNUSED) (cluster_entries s (ch_dir k))) ks)))"

definition counts_of :: "dentry list \<Rightarrow> nat set" where
  "counts_of es = {c. 0 < c \<and> c < 1024 \<and> (\<exists>e \<in> set es. name_count (short_stem e) 0 False = int c)}"

lemma counts_ofI: "e \<in> set es \<Longrightarrow> name_count (short_stem e) 0 False = int c \<Longrightarrow> 0 < c \<Longrightarrow> c < 1024 \<Longrightarrow> c \<in> counts_of es"
  by (auto simp: counts_of_def)

lemma counts_of_single: "name_count (short_stem e) 0 False = int c \<Longrightarrow> 0 < c \<Longrightarrow> c < 1024 \<Longrightarrow> counts_of [e] = {c}"
  by (auto simp: counts_of_def)

lemma generate_scan_list:
  assumes "sc_body sc = generate_body ops" "length bmap = 128"
  shows "\<exists>bm. scan_list sc clu es bmap = Inl bm \<and> length bm = 128 \<and>
    bits_of bm = bits_of bmap \<union> counts_of (filter (\<lambda>e. get_entry_type ops e = TYPE_FILE \<or> get_entry_type ops e = TYPE_DIR)
      (takeWhile (\<lambda>e. get_entry_type ops e \<noteq> TYPE_UNUSED) es))"
  using assms(2)
proof (induction es arbitrary: bmap)
  case Nil
  then show ?case by (simp add: counts_of_def)
next
  case (Cons e es)
  let ?t = "get_entry_type ops e" and ?c = "name_count (short_stem e) 0 False"
  consider (unused) "?t = TYPE_UNUSED" | (other) "?t \<noteq> TYPE_UNUSED" "?t \<noteq> TYPE_FILE" "?t \<noteq> TYPE_DIR" | (named) "?t = TYPE_FILE \<or> ?t = TYPE_DIR"
    by blast
  then show ?case
  proof cases
    case named
    let ?b = "if 0 < ?c \<and> ?c < 1024 then exfat_bitmap_set bmap (nat ?c) else bmap"
    have l: "length ?b = 128" using Cons.prems by simp
    have "bits_of ?b = bits_of bmap \<union> counts_of [e]"
    proof (cases "0 < ?c \<and> ?c < 1024")
      case True
      then have "counts_of [e] = {nat ?c}" by (auto simp: counts_of_def)
      then show ?thesis using True Cons.prems by (simp add: bits_of_set nat_less_iff)
    next
      case False
      then have "counts_of [e] = {}" by (auto simp: counts_of_def)
      then show ?thesis using False by auto
    qed
    moreover let ?rest = "filter (\<lambda>e. get_entry_type ops e = TYPE_FILE \<or> get_entry_type ops e = TYPE_DIR)
        (takeWhile (\<lambda>e. get_entry_type ops e \<noteq> TYPE_UNUSED) es)"
    have "counts_of (e # ?rest) = counts_of [e] \<union> counts_of ?rest" by (auto simp: counts_of_def)
    moreover have "sc_body sc bmap clu e = Continue ?b" using named by (auto simp: assms(1) generate_body_def Let_def short_stem_def)
    moreover obtain bm where "scan_list sc clu es ?b = Inl bm" "length bm = 128"
      "bits_of bm = bits_of ?b \<union> counts_of (filter (\<lambda>e. get_entry_type ops e = TYPE_FILE \<or> get_entry_type ops e = TYPE_DIR)
        (takeWhile (\<lambda>e. get_entry_type ops e \<noteq> TYPE_UNUSED) es))"
      using Cons.IH [OF l] by blast
    moreover have "?t \<noteq> TYPE_UNUSED" using named by auto
    ultimately show ?thesis using named by (simp add: Un_assoc)
  next
    case unused
    then show ?thesis using Cons.prems by (simp add: assms(1) generate_body_def counts_of_def)
  next
    case other
    then have "sc_body sc bmap clu e = Continue bmap" by (simp add: assms(1) generate_body_def)
    then show ?thesis using Cons.IH [OF Cons.prems] other by simp
  qed
qed

lemma generate_scan_path:
  assumes "sc_body sc = generate_body (dentry_func s)" "length bmap = 128"
  shows "\<exists>bm. scan_path sc (path_entries s ks) bmap = Inl bm \<and> length bm = 128 \<and>
    bits_of bm = bits_of bmap \<union> counts_of (named_entries s ks)"
  using assms(2)
proof (induction ks arbitrary: bmap)
  case Nil
  then show ?case by (simp add: path_entries_def named_entries_def counts_of_def)
next
  case (Cons k ks)
  let ?es = "cluster_entries s (ch_dir k)"
  obtain b where b: "scan_list sc k ?es bmap = Inl b" "length b = 128"
    "bits_of b = bits_of bmap \<union> counts_of (named_entries s [k])"
    using generate_scan_list [OF assms(1) Cons.prems, of k ?es] by (auto simp: named_entries_def Let_def)
  have "counts_of (named_entries s (k # ks)) = counts_of (named_entries s [k]) \<union> counts_of (named_entries s ks)"
    by (auto simp: named_entries_def counts_of_def Let_def)
  then show ?case using Cons.IH [OF b(2)] b by (auto simp: path_entries_def)
qed

section \<open>The first number that is left\<close>


lemma all_ones: "b \<noteq> 0xFF \<longleftrightarrow> (\<exists>j < 8. \<not> bit b j)" for b :: u8
proof -
  have "b = 0xFF" if "\<forall>j < 8. bit b j"
    by (rule bit_word_eqI) (use that bit_FF in simp)
  then show ?thesis using bit_FF by blast
qed

lemma first_clear:
  assumes "b \<noteq> 0xFF"
  obtains j where "find (\<lambda>j. exfat_bitmap_test [b] j = 0) [0..<8] = Some j" "j < 8" "\<not> bit b j" "\<And>k. k < j \<Longrightarrow> bit b k"
proof -
  define j where "j = (LEAST j. \<not> bit b j)"
  obtain i where "i < 8" "\<not> bit b i" using assms all_ones by blast
  then have "j \<le> i" unfolding j_def by (intro Least_le)
  moreover from \<open>\<not> bit b i\<close> have "\<not> bit b j" unfolding j_def by (rule LeastI)
  moreover have "bit b k" if "k < j" for k using not_less_Least [OF that [unfolded j_def]] by simp
  ultimately have j: "\<not> bit b j" "j < 8" "\<And>k. k < j \<Longrightarrow> bit b k" using \<open>i < 8\<close> by simp_all
  have t: "exfat_bitmap_test [b] k = 0 \<longleftrightarrow> \<not> bit b k" if "k < 8" for k using that by (simp add: bitmap_test_iff)
  have "find (\<lambda>j. exfat_bitmap_test [b] j = 0) [0..<8] = Some j"
  proof (rule find_first)
    show "exfat_bitmap_test [b] j = 0" using t j(1,2) by blast
    show "\<not> exfat_bitmap_test [b] k = 0" if "k < j" for k using t [of k] j(2,3) that by simp
  qed (use j(2) in simp_all)
  then show thesis using j(2,1,3) by (rule that)
qed

lemma first_count_spec:
  assumes "i = 0 \<Longrightarrow> bs \<noteq> [] \<Longrightarrow> bit (hd bs) 0"
  shows "(first_count bs i = 0 \<longrightarrow> (\<forall>n < 8 * length bs. n \<in> bits_of bs)) \<and>
    (first_count bs i \<noteq> 0 \<longrightarrow> (\<exists>m < 8 * length bs. first_count bs i = 8 * i + m \<and> m \<notin> bits_of bs \<and> (\<forall>n < m. n \<in> bits_of bs)))"
  using assms
proof (induction bs i rule: first_count.induct)
  case (1 i)
  then show ?case by simp
next
  case (2 b bs i)
  have head: "n \<in> bits_of (b # bs) \<longleftrightarrow> bit b n" if "n < 8" for n using that by (simp add: bits_of_def)
  have tail: "8 + n \<in> bits_of (b # bs) \<longleftrightarrow> n \<in> bits_of bs" for n
  proof -
    have "(8 + n) div 8 = Suc (n div 8)" by simp
    then show ?thesis by (simp add: bits_of_def)
  qed
  show ?case
  proof (cases "b = 0xFF")
    case False
    obtain j where j: "find (\<lambda>j. exfat_bitmap_test [b] j = 0) [0..<8] = Some j" "j < 8" "\<not> bit b j" "\<And>k. k < j \<Longrightarrow> bit b k"
      using first_clear [OF False] by blast
    have nz: "push_bit 3 i + j \<noteq> 0"
    proof
      assume "push_bit 3 i + j = 0"
      then have "i = 0" "j = 0" by (simp_all add: push_bit_eq_mult)
      then show False using "2.prems" j(3) by simp
    qed
    then have "first_count (b # bs) i = 8 * i + j" using False j(1) by (simp add: push_bit_eq_mult mult.commute)
    then show ?thesis using nz j(2-4) head by (auto simp: push_bit_eq_mult intro!: exI [of _ j])
  next
    case True
    then have all: "bit b n" if "n < 8" for n using that all_ones [of b] by blast
    have fc: "first_count (b # bs) i = first_count bs (i + 1)" using True by simp
    have ih: "(first_count bs (i + 1) = 0 \<longrightarrow> (\<forall>n < 8 * length bs. n \<in> bits_of bs)) \<and>
      (first_count bs (i + 1) \<noteq> 0 \<longrightarrow> (\<exists>m < 8 * length bs. first_count bs (i + 1) = 8 * (i + 1) + m \<and> m \<notin> bits_of bs \<and> (\<forall>n < m. n \<in> bits_of bs)))"
      using "2.IH" True by auto
    have shift: "n \<in> bits_of (b # bs)" if "n < 8 + m" "\<forall>n < m. n \<in> bits_of bs" for n m
    proof (cases "n < 8")
      case False
      then obtain k where k: "n = 8 + k" using le_Suc_ex [of 8 n] by auto
      then show ?thesis using that tail [of k] by simp
    qed (simp add: head all)
    show ?thesis
    proof (cases "first_count bs (i + 1) = 0")
      case True
      then show ?thesis using ih shift [of _ "8 * length bs"] fc by auto
    next
      case False
      then obtain m where m: "m < 8 * length bs" "first_count bs (i + 1) = 8 * (i + 1) + m" "m \<notin> bits_of bs" "\<forall>n < m. n \<in> bits_of bs"
        using ih by blast
      have "8 + m \<notin> bits_of (b # bs)" using m(3) tail by blast
      then show ?thesis using m shift [OF _ m(4)] fc by (auto intro!: exI [of _ "8 + m"])
    qed
  qed
qed

section \<open>Numbers in names\<close>

lemma name_count_prefix:
  "\<forall>c \<in> set xs. c \<noteq> SPACE \<and> c \<noteq> 0x7E \<Longrightarrow> name_count (xs @ ys) k False = name_count ys k False"
  by (induction xs) auto

lemma name_count_spaces: "name_count (replicate n SPACE) k b = k"
  by (cases n) simp_all

lemma digit:
  assumes "d < 10"
  shows "(0x30 :: u8) + of_nat d \<noteq> SPACE" "(0x30 :: u8) + of_nat d \<noteq> 0x7E" "0x30 \<le> (0x30 :: u8) + of_nat d" "(0x30 :: u8) + of_nat d \<le> 0x39"
    "uint ((0x30 :: u8) + of_nat d - 0x30) = int d"
proof -
  have "d \<in> {0, 1, 2, 3, 4, 5, 6, 7, 8, 9}" using assms by auto
  then show "(0x30 :: u8) + of_nat d \<noteq> SPACE" "(0x30 :: u8) + of_nat d \<noteq> 0x7E" "0x30 \<le> (0x30 :: u8) + of_nat d" "(0x30 :: u8) + of_nat d \<le> 0x39"
    "uint ((0x30 :: u8) + of_nat d - 0x30) = int d"
    by auto
qed

lemma name_count_decimal: "name_count (decimal n @ ys) k True = name_count ys (k * 10 ^ length (decimal n) + int n) True"
proof (induction n arbitrary: k ys rule: decimal.induct)
  case (1 n)
  show ?case
  proof (cases "n < 10")
    case True
    then show ?thesis using digit [OF True] by (simp add: decimal.simps [of n])
  next
    case False
    have d: "n mod 10 < 10" by simp
    have e: "decimal n = decimal (n div 10) @ [0x30 + of_nat (n mod 10)]" using False by (simp add: decimal.simps [of n])
    have "int (n div 10) * 10 + int (n mod 10) = int n" by presburger
    then have v: "(k * 10 ^ length (decimal (n div 10)) + int (n div 10)) * 10 + int (n mod 10) = k * 10 ^ length (decimal n) + int n"
      by (simp add: e algebra_simps)
    have "name_count (decimal n @ ys) k True = name_count ((0x30 + of_nat (n mod 10)) # ys) (k * 10 ^ length (decimal (n div 10)) + int (n div 10)) True"
      using "1.IH" [OF False, of "(0x30 + of_nat (n mod 10)) # ys" k] by (simp add: e)
    also have "\<dots> = name_count ys (k * 10 ^ length (decimal n) + int n) True"
      using digit [OF d] v by simp
    finally show ?thesis .
  qed
qed

lemma decimal_length: "n < 10 ^ Suc k \<Longrightarrow> length (decimal n) \<le> Suc k"
proof (induction k arbitrary: n)
  case 0
  then show ?case by (simp add: decimal.simps [of n])
next
  case (Suc k)
  have "n div 10 < 10 ^ Suc k" using Suc.prems by (simp add: div_less_iff_less_mult)
  then show ?case using Suc.IH [of "n div 10"] by (simp add: decimal.simps [of n])
qed

lemma attach_pos_ok:
  assumes "m = min l (nat limit)" "0 \<le> limit" "limit \<le> 7" "\<And>k. k < l \<Longrightarrow> d ! k \<noteq> SPACE \<and> d ! k AND 0x80 = 0" "l < 8 \<Longrightarrow> d ! l = SPACE"
    "j \<le> m"
  shows "attach_pos d limit i j = m"
  using assms(6)
proof (induction "m - j" arbitrary: i j)
  case 0
  then have j: "j = m" by simp
  have le: "int j \<le> limit" using assms(1,2) j by linarith
  show ?case
  proof (cases "d ! j = SPACE")
    case True
    then show ?thesis using le unfolding j by (subst attach_pos.simps) simp
  next
    case False
    then have "j \<noteq> l" using assms(3,5) le by (cases "l < 8") auto
    then have "j = nat limit" using j assms(1) by auto
    then have "\<not> int (j + 1) \<le> limit" "j < l" using assms(1,2) j \<open>j \<noteq> l\<close> by auto
    then show ?thesis using False le j assms(4) [of j] by (subst attach_pos.simps, subst attach_pos.simps) simp
  qed
next
  case (Suc n)
  then have lt: "j < m" by simp
  then have "j < l" "int j \<le> limit" using assms(1,2) by auto
  then show ?case using Suc.hyps(1) [of "j + 1" j] Suc.hyps(2) lt assms(4) [of j] by (simp add: attach_pos.simps [of d limit i j])
qed

text \<open>The base of a name: up to eight characters of one byte, padded with spaces, and an extension.\<close>

definition plain_name :: "u8 list \<Rightarrow> u8 list \<Rightarrow> u8 list \<Rightarrow> bool" where
  "plain_name name xs ext \<longleftrightarrow> name = xs @ replicate (8 - length xs) SPACE @ ext \<and> length xs \<le> 8 \<and> length ext = 3 \<and>
     (\<forall>c \<in> set xs. c \<noteq> SPACE \<and> c AND 0x80 = 0)"

lemma attach_plain:
  assumes "plain_name name xs ext" "0 < c" "c < 1024"
  defines "str \<equiv> 0x7E # decimal c"
  defines "m \<equiv> min (length xs) (8 - length str)"
  shows "fat_attach_count_to_dos_name name c = take m xs @ str @ replicate (8 - m - length str) SPACE @ ext" "m + length str \<le> 8"
proof -
  have n: "name = xs @ replicate (8 - length xs) SPACE @ ext" "length xs \<le> 8" "length ext = 3"
    "\<And>k. k < length xs \<Longrightarrow> name ! k \<noteq> SPACE \<and> name ! k AND 0x80 = 0" "length xs < 8 \<Longrightarrow> name ! length xs = SPACE"
    using assms(1) by (auto simp: plain_name_def nth_append)
  have l: "length str \<le> 5" using decimal_length [of c 3] assms(3) by (simp add: str_def)
  have pos: "attach_pos name (8 - int (length str)) 0 0 = m"
    by (rule attach_pos_ok [of m "length xs"]) (use l n in \<open>auto simp: m_def str_def\<close>)
  show le: "m + length str \<le> 8" using l by (simp add: m_def)
  have ln: "length name = 11" using n(1-3) by simp
  have sp: "splice_at name m str = take m xs @ str @ replicate (8 - m - length str) SPACE @ ext" (is "_ = ?r")
  proof (cases "m = length xs")
    case True
    then show ?thesis using le n by (simp add: splice_at_def)
  next
    case False
    then have "m + length str = 8" "m < length xs" using l by (auto simp: m_def)
    then show ?thesis using n by (simp add: splice_at_def)
  qed
  have "?r[7 := SPACE] = ?r" if "m + length str = 7"
  proof -
    have "length (take m xs @ str) = 7" using that by (simp add: m_def)
    moreover have "?r = (take m xs @ str) @ SPACE # ext" using that by simp
    ultimately have "?r ! 7 = SPACE" by (metis nth_append_length)
    then show ?thesis by (metis list_update_id)
  qed
  then show "fat_attach_count_to_dos_name name c = ?r"
    unfolding fat_attach_count_to_dos_name_def Let_def str_def [symmetric] pos sp by auto
qed

lemma attach_count:
  assumes "plain_name name xs ext" "0 < c" "c < 1024" "0x7E \<notin> set xs"
  shows "name_count (take 8 (fat_attach_count_to_dos_name name c)) 0 False = int c"
proof -
  let ?str = "0x7E # decimal c" and ?m = "min (length xs) (8 - length (0x7E # decimal c))"
  note a = attach_plain [OF assms(1-3)]
  have t: "take 8 (fat_attach_count_to_dos_name name c) = take ?m xs @ ?str @ replicate (8 - ?m - length ?str) SPACE"
    (is "_ = ?stem")
  proof -
    have take: "take 8 (ys @ ext) = ys" if "length ys = 8" for ys :: "u8 list" using that by simp
    have "length ?stem = 8" using a(2) by simp
    from take [OF this] show ?thesis unfolding a(1) by (simp only: append_assoc)
  qed
  have "\<forall>x \<in> set (take ?m xs). x \<noteq> SPACE \<and> x \<noteq> 0x7E" using assms(1,4) by (auto simp: plain_name_def dest: in_set_takeD)
  then have "name_count (take 8 (fat_attach_count_to_dos_name name c)) 0 False = name_count (decimal c @ replicate (8 - ?m - length ?str) SPACE) 0 True"
    unfolding t using name_count_prefix [of "take ?m xs"] by simp
  also have "\<dots> = name_count (replicate (8 - ?m - length ?str) SPACE) (int c) True" by (simp add: name_count_decimal)
  also have "\<dots> = int c" by (rule name_count_spaces)
  finally show ?thesis .
qed

section \<open>The generated name\<close>

lemma generate_dos_name_eq:
  assumes "dir_ok s" "ch_dir p_dir \<noteq> 0" "dir_path False s p_dir ks"
  defines "used \<equiv> counts_of (named_entries s ks)"
  shows "\<exists>s'. vol_eq s s' \<and> fat_generate_dos_name s p_dir d =
    (if {1..<1024} \<subseteq> used then Some (s', FFS_FILEEXIST, d)
     else Some (s', FFS_SUCCESS, d\<lparr>dos_name := fat_attach_count_to_dos_name (dos_name d) (LEAST c. 0 < c \<and> c \<notin> used)\<rparr>))"
proof -
  let ?sc = "\<lparr>sc_first = (\<lambda>_. 0), sc_body = generate_body (dentry_func s), sc_null = (\<lambda>_. Return FFS_MEDIAERR),
    sc_fat = (\<lambda>_. Return FFS_MEDIAERR), sc_contig = False, sc_ejects = True\<rparr>"
  let ?b0 = "exfat_bitmap_set (replicate 128 0) 0"
  have "bits_of (replicate 128 0) = {}" by (auto simp: bits_of_def less_mult_imp_div_less)
  then have b0: "length ?b0 = 128" "bits_of ?b0 = {0}" using bits_of_set [of 0 "replicate 128 0"] by simp_all
  obtain bm where bm: "scan_path ?sc (path_entries s ks) ?b0 = Inl bm" "length bm = 128" "bits_of bm = insert 0 used"
    using generate_scan_path [of ?sc s ?b0 ks] b0 by (auto simp: used_def)
  obtain s' where s': "scan_dir ?sc s p_dir p_dir ?b0 = Some (s', Inl bm)" "vol_eq s s'"
    using scan_clusters_ok [OF assms(1), of ?sc p_dir ks, OF _ refl dir_dentries_ok [OF assms(1,2)], of "\<lambda>_. True" ?b0] assms(2,3) bm(1)
    by (auto simp: scan_dir_def)
  let ?c = "first_count bm 0"
  have b0m: "bit (hd bm) 0"
  proof -
    have "0 \<in> bits_of bm" using bm(3) by simp
    then show ?thesis using bm(2) by (cases bm) (simp_all add: bits_of_def)
  qed
  note spec = first_count_spec [of 0 bm, OF b0m]
  have gen: "fat_generate_dos_name s p_dir d = (if ?c = 0 \<or> 1024 \<le> ?c then Some (s', FFS_FILEEXIST, d)
      else Some (s', FFS_SUCCESS, d\<lparr>dos_name := fat_attach_count_to_dos_name (dos_name d) ?c\<rparr>))"
    using s'(1) by (simp add: fat_generate_dos_name_def Let_def)
  show ?thesis
  proof (cases "?c = 0")
    case True
    then have "{1..<1024} \<subseteq> used" using spec bm(2,3) by fastforce
    then show ?thesis using gen True s'(2) by auto
  next
    case False
    then have c: "?c < 1024" "?c \<notin> insert 0 used" "\<And>n. n < ?c \<Longrightarrow> n \<in> insert 0 used" using spec bm(2,3) by auto
    then have n: "\<not> {1..<1024} \<subseteq> used" using False by (metis One_nat_def Suc_leI atLeastLessThan_iff insertCI neq0_conv subsetD)
    have "(LEAST c. 0 < c \<and> c \<notin> used) = ?c"
    proof (rule Least_equality)
      show "0 < ?c \<and> ?c \<notin> used" using c(2) by auto
      show "?c \<le> y" if "0 < y \<and> y \<notin> used" for y using c(3) [of y] that by (intro leI notI) auto
    qed
    then show ?thesis using gen False c(1) n s'(2) by auto
  qed
qed

text \<open>
  C16: The short name made for a long one, on a working volume and a directory with a terminated chain of clusters: when every
  number from 1 to 1023 stands at the end of a name of the directory, \<open>fat_generate_dos_name\<close> fails with
  \<open>FFS_FILEEXIST\<close>; otherwise it attaches the smallest number that does not.  If the base consists of one-byte characters and
  has no tilde, the first eight bytes of the result differ from those of every file and directory that the
  directory lists, and the extension is the one of the base.
\<close>

theorem fat_generate_dos_name_fresh:
  assumes "dir_ok s" "ch_dir p_dir \<noteq> 0" "dir_path False s p_dir ks" "plain_name (dos_name d) xs ext" "0x7E \<notin> set xs"
  shows "\<exists>s'. vol_eq s s' \<and> (if {1..<1024} \<subseteq> counts_of (named_entries s ks)
    then fat_generate_dos_name s p_dir d = Some (s', FFS_FILEEXIST, d)
    else \<exists>c name. c = (LEAST c. 0 < c \<and> c \<notin> counts_of (named_entries s ks)) \<and> name = fat_attach_count_to_dos_name (dos_name d) c \<and>
      fat_generate_dos_name s p_dir d = Some (s', FFS_SUCCESS, d\<lparr>dos_name := name\<rparr>) \<and>
      drop 8 name = ext \<and> (\<forall>e \<in> set (named_entries s ks). short_stem e \<noteq> take 8 name))"
proof -
  let ?used = "counts_of (named_entries s ks)" and ?c = "LEAST c. 0 < c \<and> c \<notin> counts_of (named_entries s ks)"
  let ?name = "fat_attach_count_to_dos_name (dos_name d) ?c"
  obtain s' where s': "vol_eq s s'" "fat_generate_dos_name s p_dir d =
    (if {1..<1024} \<subseteq> ?used then Some (s', FFS_FILEEXIST, d) else Some (s', FFS_SUCCESS, d\<lparr>dos_name := ?name\<rparr>))"
    using generate_dos_name_eq [OF assms(1-3)] by blast
  show ?thesis
  proof (cases "{1..<1024} \<subseteq> ?used")
    case False
    then obtain y where "y \<in> {1..<1024}" "y \<notin> ?used" by blast
    then have y: "0 < y" "y < 1024" "y \<notin> ?used" by simp_all
    have c: "0 < ?c \<and> ?c \<notin> ?used" using LeastI [of "\<lambda>c. 0 < c \<and> c \<notin> ?used" y] y by blast
    have "?c \<le> y" using Least_le [of "\<lambda>c. 0 < c \<and> c \<notin> ?used" y] y by blast
    then have lt: "?c < 1024" using y(2) by simp
    have fresh: "short_stem e \<noteq> take 8 ?name" if "e \<in> set (named_entries s ks)" for e
    proof
      assume "short_stem e = take 8 ?name"
      then have "name_count (short_stem e) 0 False = int ?c" using attach_count [OF assms(4) _ lt assms(5)] c by simp
      then have "?c \<in> ?used" using counts_ofI [OF that] c lt by blast
      then show False using c by blast
    qed
    have "drop 8 ?name = ext"
    proof -
      let ?str = "0x7E # decimal ?c" and ?m = "min (length xs) (8 - length (0x7E # decimal ?c))"
      note a = attach_plain [OF assms(4) conjunct1 [OF c] lt]
      have drop: "drop 8 (ys @ ext) = ext" if "length ys = 8" for ys :: "u8 list" using that by simp
      have "length (take ?m xs @ ?str @ replicate (8 - ?m - length ?str) SPACE) = 8" using a(2) by simp
      from drop [OF this] show ?thesis unfolding a(1) by (simp only: append_assoc)
    qed
    then show ?thesis using s' False fresh by (intro exI [of _ s']) auto
  qed (use s' in auto)
qed

text \<open>A directory with one file.\<close>

definition named_e :: "u8 list \<Rightarrow> dentry" where
  "named_e name = name @ ATTR_ARCHIVE # replicate 20 0"

lemma listed_names:
  assumes "length name = 11" "name ! 0 \<notin> {0, 0xE5}"
  shows "named_entries (listed_sb FAT32 [named_e name]) [one_cluster] = [named_e name]" "short_stem (named_e name) = take 8 name"
    "dir_path False (listed_sb FAT32 [named_e name]) one_cluster [one_cluster]" "dir_ok (listed_sb FAT32 [named_e name])"
proof -
  let ?s = "listed_sb FAT32 [named_e name]"
  have l: "\<forall>e \<in> set [named_e name]. length e = 32" "length [named_e name] \<le> 16" using assms(1) by (simp_all add: named_e_def)
  note d = listed_dir [OF l, of FAT32]
  have t: "fat_get_entry_type (named_e name) = TYPE_FILE"
    using assms by (simp add: fat_get_entry_type_def named_e_def offsets nth_append)
  have c: "cluster_entries ?s 2 = named_e name # replicate 31 (replicate 32 0)"
    using d(6) by (simp add: dir_list_def one_cluster_def)
  show "named_entries ?s [one_cluster] = [named_e name]"
    by (simp add: named_entries_def Let_def sample_ops one_cluster_def c t) (simp add: fat_get_entry_type_def offsets)
  show "short_stem (named_e name) = take 8 name" using assms(1) by (simp add: short_stem_def named_e_def slice_at_def offsets)
  show "dir_path False ?s one_cluster [one_cluster]"
    by (simp add: one_cluster_def next_clu_def listed_fat) (simp add: listed_sb_def sample_dir_fields)
  show "dir_ok ?s" by (rule d(1))
qed

theorem fat_generate_dos_name_fresh_witness:
  "\<exists>s' d'. fat_generate_dos_name (listed_sb FAT32 [named_e (map of_char ''AB~1    TXT'')]) one_cluster
     \<lparr>dos_name = map of_char ''AB      TXT'', name_case = 0\<rparr> = Some (s', FFS_SUCCESS, d') \<and>
     take 8 (dos_name d') \<noteq> map of_char ''AB~1    ''"
proof -
  let ?n = "map of_char ''AB~1    TXT'' :: u8 list" and ?d = "\<lparr>dos_name = map of_char ''AB      TXT'', name_case = 0\<rparr> :: DOS_NAME_T"
  have n: "length ?n = 11" "?n ! 0 \<notin> {0, 0xE5}" by simp_all
  note l = listed_names [OF n]
  have p: "plain_name (dos_name ?d) (map of_char ''AB'') (map of_char ''TXT'')"
  proof -
    have "replicate 6 x = [x, x, x, x, x, x]" for x :: u8 by (simp add: numeral_eq_Suc)
    then show ?thesis by (simp add: plain_name_def)
  qed
  have "name_count (short_stem (named_e ?n)) 0 False = int 1" unfolding l(2) by simp
  then have used: "counts_of [named_e ?n] = {1}" by (rule counts_of_single) simp_all
  have "\<not> {1..<1024} \<subseteq> {1 :: nat}" by (simp add: subset_iff) presburger
  then show ?thesis
    using fat_generate_dos_name_fresh [OF l(4) _ l(3) p] l(1,2) used by (auto simp: one_cluster_def)
qed

text \<open>
  C23: With a tilde in the base the result need not be new.  The count of a listed name is not reset at a second tilde, so
  that \<open>A~3~1\<close> counts as 31; the number 1 is still left, and the name made from the base \<open>A~3\<close> is again
  \<open>A~3~1\<close>, with success, although the directory lists it.
\<close>

theorem fat_generate_dos_name_duplicates:
  "\<exists>s' d'. fat_generate_dos_name (listed_sb FAT32 [named_e (map of_char ''A~3~1   TXT'')]) one_cluster
     \<lparr>dos_name = map of_char ''A~3     TXT'', name_case = 0\<rparr> = Some (s', FFS_SUCCESS, d') \<and>
     dos_name d' = map of_char ''A~3~1   TXT''"
proof -
  let ?n = "map of_char ''A~3~1   TXT'' :: u8 list" and ?d = "\<lparr>dos_name = map of_char ''A~3     TXT'', name_case = 0\<rparr> :: DOS_NAME_T"
  have n: "length ?n = 11" "?n ! 0 \<notin> {0, 0xE5}" by simp_all
  note l = listed_names [OF n]
  have "name_count (short_stem (named_e ?n)) 0 False = int 31" unfolding l(2) by simp
  then have used: "counts_of (named_entries (listed_sb FAT32 [named_e ?n]) [one_cluster]) = {31}"
    unfolding l(1) by (rule counts_of_single) simp_all
  have least: "(LEAST c. 0 < c \<and> c \<notin> {31 :: nat}) = 1" by (rule Least_equality) auto
  have "\<not> {1..<1024} \<subseteq> {31 :: nat}" by (simp add: subset_iff) presburger
  moreover have "fat_attach_count_to_dos_name (dos_name ?d) 1 = ?n"
    by (simp add: fat_attach_count_to_dos_name_def decimal.simps attach_pos.simps splice_at_def)
  ultimately show ?thesis
    using generate_dos_name_eq [OF l(4) _ l(3), of ?d] used least by (auto simp: one_cluster_def)
qed

end
