(* ===== verification/Files.thy ===== *)
theory Files
  imports FsFunc
begin

text \<open>
  Creating, removing and renaming the entries of files: \<open>find_empty_entry\<close> and \<open>create_dir\<close> to \<open>move_file\<close> of
  \<open>exfat_core.c\<close>.  The \<open>inode\<close> argument is the directory's inode, \<open>fid\<close> the identifier of the file; a structure the code
  writes through its pointer is returned updated.  The code keeps pointers to entries over other operations; they are the
  \<open>dptr\<close>s here, read and written when the code does.
\<close>

section \<open>Finding room for an entry\<close>

text \<open>
  One round of the loop of \<open>find_empty_entry\<close>, after a cluster \<open>clu\<close> has been allocated: clear it, append it to the
  directory, keep the hint and the directory's own entry up to date.  The last component is false where the code returns -1.
\<close>

definition grow_hint :: "sb \<Rightarrow> CHAIN_T \<Rightarrow> CHAIN_T \<Rightarrow> UENTRY_T" where
  "grow_hint s p_dir clu =
     (let h = hint_uentry s;
          h = (if ue_entry h = -1
               then \<lparr>ue_dir = ch_dir p_dir,
                     ue_entry = push_bit (unat (cluster_size_bits s - of_nat DENTRY_SIZE_BITS)) (ch_size p_dir),
                     ue_clu = clu\<lparr>ch_size := 0\<rparr>\<rparr>
               else h)
      in h\<lparr>ue_clu := (ue_clu h)\<lparr>ch_size := ch_size (ue_clu h) + 1\<rparr>\<rparr>)"

definition grow_entry :: "sb \<Rightarrow> inode \<Rightarrow> CHAIN_T \<Rightarrow> sb \<times> bool" where
  "grow_entry s inode p_dir =
     (let fid = i_fid inode; n = word_of_int (i_size inode) + ucast (cluster_size s)
      in if vol_type s = EXFAT \<and> ch_dir p_dir \<noteq> root_dir s then
           (case update_entry s (fid_dir fid) (fid_entry fid + 1)
                   (\<lambda>e. set_entry_flag (dentry_func s) (set_entry_size (dentry_func s) e n) (ch_flags p_dir)) of
              (s1, None) \<Rightarrow> (s1, False)
            | (s1, Some _) \<Rightarrow> (update_dir_checksum s1 (fid_dir fid) (fid_entry fid), True))
         else (s, True))"

definition grow_inode :: "sb \<Rightarrow> inode \<Rightarrow> u8 \<Rightarrow> inode" where
  "grow_inode s inode flags =
     inode\<lparr>i_size := i_size inode + uint (cluster_size s), mmu_private := mmu_private inode + uint (cluster_size s),
           i_fid := (i_fid inode)\<lparr>fid_size := fid_size (i_fid inode) + ucast (cluster_size s), fid_flags := flags\<rparr>,
           i_blocks := i_blocks inode + push_bit (unat (cluster_size_bits s - 9)) 1\<rparr>"

definition grow_dir :: "sb \<Rightarrow> inode \<Rightarrow> CHAIN_T \<Rightarrow> u32 \<Rightarrow> CHAIN_T \<Rightarrow> sb \<times> inode \<times> CHAIN_T \<times> bool" where
  "grow_dir s inode p_dir last_clu clu =
     (case clear_cluster s (ch_dir clu) of
        (s1, ret) \<Rightarrow>
          if ret \<noteq> FFS_SUCCESS then (s1, inode, p_dir, False)
          else let (s2, p_dir) =
                 (if ch_flags clu \<noteq> ch_flags p_dir then
                    (let t = exfat_chain_cont_cluster s1 (ch_dir p_dir) (ch_size p_dir); h = hint_uentry t
                     in (t\<lparr>hint_uentry := h\<lparr>ue_clu := (ue_clu h)\<lparr>ch_flags := 0x01\<rparr>\<rparr>\<rparr>, p_dir\<lparr>ch_flags := 0x01\<rparr>))
                  else (s1, p_dir));
                 (s3, w) = (if ch_flags clu = 0x01 then FAT_write s2 last_clu (ch_dir clu) else (s2, 0))
               in if w < 0 then (s3, inode, p_dir, False)
                  else let s4 = s3\<lparr>hint_uentry := grow_hint s3 p_dir clu\<rparr>; p_dir = p_dir\<lparr>ch_size := ch_size p_dir + 1\<rparr>
                       in case grow_entry s4 inode p_dir of
                            (s5, ok) \<Rightarrow>
                              if \<not> ok then (s5, inode, p_dir, False)
                              else (s5, grow_inode s5 inode (ch_flags p_dir), p_dir, True))"

text \<open>The result: the updated inode and directory, and the entry found, negative if there is none.\<close>

partial_function (option) find_empty_loop :: "sb \<Rightarrow> inode \<Rightarrow> CHAIN_T \<Rightarrow> int \<Rightarrow> (sb \<times> inode \<times> CHAIN_T \<times> int) option" where
  "find_empty_loop s inode p_dir num_entries =
     do {
       (s1, dentry) \<leftarrow> search_deleted_or_unused_entry s p_dir num_entries;
       if \<not> dentry < 0 \<or> dev_ejected s1 then Some (s1, inode, p_dir, dentry)
       else do {
         (s2, last_clu) \<leftarrow> find_last_cluster s1 p_dir;
         (s3, clu, ret) \<leftarrow> alloc_cluster s2 1 \<lparr>ch_dir = last_clu + 1, ch_size = 0, ch_flags = ch_flags p_dir\<rparr>;
         if ret < 1 then Some (s3, inode, p_dir, -1)
         else case grow_dir s3 inode p_dir last_clu clu of
                (s4, inode, p_dir, ok) \<Rightarrow>
                  if ok then find_empty_loop s4 inode p_dir num_entries else Some (s4, inode, p_dir, -1)
       }
     }"

definition find_empty_entry :: "sb \<Rightarrow> inode \<Rightarrow> CHAIN_T \<Rightarrow> int \<Rightarrow> (sb \<times> inode \<times> CHAIN_T \<times> int) option" where
  "find_empty_entry s inode p_dir num_entries =
     (if ch_dir p_dir = 0 then do {
        (s1, dentry) \<leftarrow> search_deleted_or_unused_entry s p_dir num_entries;
        Some (s1, inode, p_dir, dentry)
      }
      else find_empty_loop s inode p_dir num_entries)"

section \<open>Creating\<close>

definition new_flags :: "sb \<Rightarrow> u8" where
  "new_flags s = (if vol_type s = EXFAT then 0x03 else 0x01)"

definition DOS_CUR_DIR_NAME :: "u8 list" where "DOS_CUR_DIR_NAME = PERIOD # replicate 10 SPACE"
definition DOS_PAR_DIR_NAME :: "u8 list" where "DOS_PAR_DIR_NAME = PERIOD # PERIOD # replicate 9 SPACE"

text \<open>The entries \<open>.\<close> and \<open>..\<close> of a new FAT directory.\<close>

definition init_dot_entries :: "sb \<Rightarrow> CHAIN_T \<Rightarrow> CHAIN_T \<Rightarrow> sb \<times> ffs" where
  "init_dot_entries s p_dir clu =
     then_ok (init_dir_entry s clu 0 TYPE_DIR (ch_dir clu) 0) (\<lambda>s.
     then_ok (init_ext_entries s clu 0 1 blank_uniname \<lparr>dos_name = DOS_CUR_DIR_NAME, name_case = 0\<rparr>) (\<lambda>s.
     then_ok (init_dir_entry s clu 1 TYPE_DIR (if ch_dir p_dir = root_dir s then 0 else ch_dir p_dir) 0) (\<lambda>s.
     init_ext_entries s clu 1 1 blank_uniname \<lparr>dos_name = DOS_PAR_DIR_NAME, name_case = 0\<rparr>)))"

definition create_dir :: "nls_conf \<Rightarrow> sb \<Rightarrow> inode \<Rightarrow> CHAIN_T \<Rightarrow> UNI_NAME_T \<Rightarrow> FILE_ID_T \<Rightarrow> (sb \<times> inode \<times> FILE_ID_T \<times> ffs) option" where
  "create_dir conf s inode p_dir p_uniname fid =
     do {
       (s1, ret, num_entries, dos_name) \<leftarrow> get_num_entries_and_dos_name conf s p_dir p_uniname;
       if ret \<noteq> FFS_SUCCESS then Some (s1, inode, fid, ret)
       else do {
         (s2, inode, p_dir, dentry) \<leftarrow> find_empty_entry s1 inode p_dir num_entries;
         if dentry < 0 then Some (s2, inode, fid, FFS_FULL)
         else do {
           (s3, clu, n) \<leftarrow> alloc_cluster s2 1 \<lparr>ch_dir = CLUSTER_EOF, ch_size = 0, ch_flags = new_flags s2\<rparr>;
           if n < 0 then Some (s3, inode, fid, FFS_MEDIAERR)
           else if n = 0 then Some (s3, inode, fid, FFS_FULL)
           else let size = (if vol_type s3 = EXFAT then ucast (cluster_size s3) else 0);
                    (s4, ret) =
                      then_ok (clear_cluster s3 (ch_dir clu)) (\<lambda>s.
                      then_ok (if vol_type s = EXFAT then (s, FFS_SUCCESS) else init_dot_entries s p_dir clu) (\<lambda>s.
                      then_ok (init_dir_entry s p_dir dentry TYPE_DIR (ch_dir clu) size) (\<lambda>s.
                      init_ext_entries s p_dir dentry num_entries p_uniname dos_name)))
                in if ret \<noteq> FFS_SUCCESS then Some (s4, inode, fid, ret)
                   else Some (s4, inode,
                     fid\<lparr>fid_dir := p_dir, fid_entry := dentry, fid_attr := ATTR_SUBDIR, fid_flags := new_flags s4,
                         fid_size := size, start_clu := ch_dir clu, fid_type := TYPE_DIR, rwoffset := 0, hint_last_off := -1\<rparr>,
                     FFS_SUCCESS)
         }
       }
     }"

definition create_file :: "nls_conf \<Rightarrow> sb \<Rightarrow> inode \<Rightarrow> CHAIN_T \<Rightarrow> UNI_NAME_T \<Rightarrow> u8 \<Rightarrow> FILE_ID_T
    \<Rightarrow> (sb \<times> inode \<times> FILE_ID_T \<times> ffs) option" where
  "create_file conf s inode p_dir p_uniname mode fid =
     do {
       (s1, ret, num_entries, dos_name) \<leftarrow> get_num_entries_and_dos_name conf s p_dir p_uniname;
       if ret \<noteq> FFS_SUCCESS then Some (s1, inode, fid, ret)
       else do {
         (s2, inode, p_dir, dentry) \<leftarrow> find_empty_entry s1 inode p_dir num_entries;
         if dentry < 0 then Some (s2, inode, fid, FFS_FULL)
         else let (s3, ret) =
                then_ok (init_dir_entry s2 p_dir dentry (TYPE_FILE OR ucast mode) 0 0) (\<lambda>s.
                init_ext_entries s p_dir dentry num_entries p_uniname dos_name)
              in if ret \<noteq> FFS_SUCCESS then Some (s3, inode, fid, ret)
                 else Some (s3, inode,
                   fid\<lparr>fid_dir := p_dir, fid_entry := dentry, fid_attr := ATTR_ARCHIVE OR ucast mode, fid_flags := new_flags s3,
                       fid_size := 0, start_clu := CLUSTER_EOF, fid_type := TYPE_FILE, rwoffset := 0, hint_last_off := -1\<rparr>,
                   FFS_SUCCESS)
       }
     }"

section \<open>Removing\<close>

text \<open>The entries of a file are counted with the sector of its main entry locked.\<close>

definition count_locked :: "sb \<Rightarrow> CHAIN_T \<Rightarrow> int \<Rightarrow> dptr \<Rightarrow> u32 \<Rightarrow> sb \<times> int" where
  "count_locked s p_dir entry p sector = (let s1 = buf_lock s sector in count_ext_entries s1 p_dir entry (load_entry s1 p))"

definition remove_file :: "sb \<Rightarrow> CHAIN_T \<Rightarrow> int \<Rightarrow> sb" where
  "remove_file s p_dir entry =
     (case get_entry_in_dir s p_dir entry of
        (s1, None) \<Rightarrow> s1
      | (s1, Some (p, sector)) \<Rightarrow>
          (case count_locked s1 p_dir entry p sector of
             (s2, num_entries) \<Rightarrow>
               if num_entries < 0 then buf_unlock s2 sector
               else delete_dir_entry (buf_unlock s2 sector) p_dir entry 0 (num_entries + 1)))"

section \<open>Renaming and moving\<close>

definition archive_entry :: "DENTRY_FUNC_T \<Rightarrow> dentry \<Rightarrow> dentry" where
  "archive_entry ops e = (if get_entry_type ops e = TYPE_FILE then set_entry_attr ops e (get_entry_attr ops e OR ATTR_ARCHIVE) else e)"

definition archive_fid :: "DENTRY_FUNC_T \<Rightarrow> dentry \<Rightarrow> FILE_ID_T \<Rightarrow> FILE_ID_T" where
  "archive_fid ops e fid = (if get_entry_type ops e = TYPE_FILE then fid\<lparr>fid_attr := fid_attr fid OR ATTR_ARCHIVE\<rparr> else fid)"

text \<open>
  The copy of an exFAT stream entry.  \<open>sector\<close> is the caller's variable, which keeps its value when the old entry cannot be
  read.
\<close>

definition copy_stream :: "sb \<Rightarrow> CHAIN_T \<Rightarrow> int \<Rightarrow> CHAIN_T \<Rightarrow> int \<Rightarrow> u32 \<Rightarrow> sb \<times> ffs" where
  "copy_stream s p_olddir oldentry p_newdir newentry sector =
     (case get_entry_in_dir s p_olddir (oldentry + 1) of
        (s1, old) \<Rightarrow>
          let sector = (case old of None \<Rightarrow> sector | Some (_, sec) \<Rightarrow> sec)
          in case get_entry_in_dir (buf_lock s1 sector) p_newdir (newentry + 1) of
               (s2, new) \<Rightarrow>
                 (case old of
                    None \<Rightarrow> (buf_unlock s2 sector, FFS_MEDIAERR)
                  | Some (po, _) \<Rightarrow>
                      (case new of
                         None \<Rightarrow> (buf_unlock s2 sector, FFS_MEDIAERR)
                       | Some (pn, sector_new) \<Rightarrow>
                           (buf_unlock (buf_modify (store_entry s2 pn (load_entry s2 po)) sector_new) sector, FFS_SUCCESS))))"

definition rename_file :: "nls_conf \<Rightarrow> sb \<Rightarrow> inode \<Rightarrow> CHAIN_T \<Rightarrow> int \<Rightarrow> UNI_NAME_T \<Rightarrow> FILE_ID_T
    \<Rightarrow> (sb \<times> inode \<times> FILE_ID_T \<times> ffs) option" where
  "rename_file conf s inode p_dir oldentry p_uniname fid =
     (case get_entry_in_dir s p_dir oldentry of
        (s1, None) \<Rightarrow> Some (s1, inode, fid, FFS_MEDIAERR)
      | (s1, Some (epold, sector_old)) \<Rightarrow>
          (case count_locked s1 p_dir oldentry epold sector_old of
             (s2, num_old) \<Rightarrow>
               if num_old < 0 then Some (buf_unlock s2 sector_old, inode, fid, FFS_MEDIAERR)
               else do {
                 (s3, ret, num_new, dos_name) \<leftarrow> get_num_entries_and_dos_name conf s2 p_dir p_uniname;
                 if ret \<noteq> FFS_SUCCESS then Some (buf_unlock s3 sector_old, inode, fid, ret)
                 else if num_old + 1 < num_new then do {
                   (s4, inode, p_dir, newentry) \<leftarrow> find_empty_entry s3 inode p_dir num_new;
                   if newentry < 0 then Some (buf_unlock s4 sector_old, inode, fid, FFS_FULL)
                   else case get_entry_in_dir s4 p_dir newentry of
                          (s5, None) \<Rightarrow> Some (buf_unlock s5 sector_old, inode, fid, FFS_MEDIAERR)
                        | (s5, Some (epnew, sector_new)) \<Rightarrow>
                            let e = load_entry s5 epold; ops = dentry_func s5; fid = archive_fid ops e fid;
                                s6 = buf_unlock (buf_modify (store_entry s5 epnew (archive_entry ops e)) sector_new) sector_old;
                                (s7, ret) =
                                  then_ok (if vol_type s6 = EXFAT then copy_stream s6 p_dir oldentry p_dir newentry sector_old
                                           else (s6, FFS_SUCCESS)) (\<lambda>s.
                                  init_ext_entries s p_dir newentry num_new p_uniname dos_name)
                            in if ret \<noteq> FFS_SUCCESS then Some (s7, inode, fid, ret)
                               else Some (delete_dir_entry s7 p_dir oldentry 0 (num_old + 1), inode, fid\<lparr>fid_entry := newentry\<rparr>,
                                          FFS_SUCCESS)
                 }
                 else let e = load_entry s3 epold; ops = dentry_func s3; fid = archive_fid ops e fid;
                          s4 = buf_unlock (buf_modify (store_entry s3 epold (archive_entry ops e)) sector_old) sector_old
                      in case init_ext_entries s4 p_dir oldentry num_new p_uniname dos_name of
                           (s5, ret) \<Rightarrow>
                             if ret \<noteq> FFS_SUCCESS then Some (s5, inode, fid, ret)
                             else Some (delete_dir_entry s5 p_dir oldentry num_new (num_old + 1), inode, fid, FFS_SUCCESS)
               }))"

text \<open>The entry \<open>..\<close> of a moved FAT directory \<open>clu\<close>.\<close>

definition move_parent :: "sb \<Rightarrow> CHAIN_T \<Rightarrow> u32 \<Rightarrow> sb \<times> ffs" where
  "move_parent s p_newdir clu =
     (case update_entry s \<lparr>ch_dir = clu, ch_size = 0, ch_flags = 0x01\<rparr> 1
             (\<lambda>e. set_entry_clu0 (dentry_func s) e (if ch_dir p_newdir = root_dir s then 0 else ch_dir p_newdir)) of
        (s1, None) \<Rightarrow> (s1, FFS_MEDIAERR) | (s1, Some _) \<Rightarrow> (s1, FFS_SUCCESS))"

definition move_file :: "nls_conf \<Rightarrow> sb \<Rightarrow> inode \<Rightarrow> CHAIN_T \<Rightarrow> int \<Rightarrow> CHAIN_T \<Rightarrow> UNI_NAME_T \<Rightarrow> FILE_ID_T
    \<Rightarrow> (sb \<times> inode \<times> FILE_ID_T \<times> ffs) option" where
  "move_file conf s inode p_olddir oldentry p_newdir p_uniname fid =
     (case get_entry_in_dir s p_olddir oldentry of
        (s1, None) \<Rightarrow> Some (s1, inode, fid, FFS_MEDIAERR)
      | (s1, Some (epmov, sector_mov)) \<Rightarrow>
          let ops = dentry_func s1; e = load_entry s1 epmov
          in if get_entry_type ops e = TYPE_DIR \<and> get_entry_clu0 ops e = ch_dir p_newdir
             then Some (s1, inode, fid, FFS_INVALIDPATH)
             else case count_locked s1 p_olddir oldentry epmov sector_mov of
                    (s2, num_old) \<Rightarrow>
                      if num_old < 0 then Some (buf_unlock s2 sector_mov, inode, fid, FFS_MEDIAERR)
                      else do {
                        (s3, ret, num_new, dos_name) \<leftarrow> get_num_entries_and_dos_name conf s2 p_newdir p_uniname;
                        if ret \<noteq> FFS_SUCCESS then Some (buf_unlock s3 sector_mov, inode, fid, ret)
                        else do {
                          (s4, inode, p_newdir, newentry) \<leftarrow> find_empty_entry s3 inode p_newdir num_new;
                          if newentry < 0 then Some (buf_unlock s4 sector_mov, inode, fid, FFS_FULL)
                          else case get_entry_in_dir s4 p_newdir newentry of
                                 (s5, None) \<Rightarrow> Some (buf_unlock s5 sector_mov, inode, fid, FFS_MEDIAERR)
                               | (s5, Some (epnew, sector_new)) \<Rightarrow>
                                   let e = load_entry s5 epmov; fid = archive_fid ops e fid; e_new = archive_entry ops e;
                                       s6 = buf_unlock (buf_modify (store_entry s5 epnew e_new) sector_new) sector_mov;
                                       (s7, ret) =
                                         then_ok (if vol_type s6 = EXFAT
                                                  then copy_stream s6 p_olddir oldentry p_newdir newentry sector_mov
                                                  else if get_entry_type ops e_new = TYPE_DIR
                                                  then move_parent s6 p_newdir (get_entry_clu0 ops e_new)
                                                  else (s6, FFS_SUCCESS)) (\<lambda>s.
                                         init_ext_entries s p_newdir newentry num_new p_uniname dos_name)
                                   in if ret \<noteq> FFS_SUCCESS then Some (s7, inode, fid, ret)
                                      else Some (delete_dir_entry s7 p_olddir oldentry 0 (num_old + 1), inode,
                                                 fid\<lparr>fid_dir := p_newdir, fid_entry := newentry\<rparr>, FFS_SUCCESS)
                        }
                      })"

end
