(* ===== verification/FileIO.thy ===== *)
theory FileIO
  imports Files
begin

text \<open>
  The contents of files: \<open>ffsReadFile\<close>, \<open>ffsWriteFile\<close>, \<open>ffsTruncateFile\<close> and \<open>ffsMapCluster\<close> of \<open>exfat_core.c\<close>.  The
  buffer of a read is the list of the bytes read; \<open>*rcount\<close> and \<open>*wcount\<close> are \<open>None\<close> where the code does not set them.
\<close>

section \<open>Integer conversions\<close>

definition s32_of :: "int \<Rightarrow> int" where
  "s32_of i = to_s32 (of_s32 i)"

definition to_s64 :: "u64 \<Rightarrow> int" where
  "to_s64 w = sint w"

definition of_s64 :: "int \<Rightarrow> u64" where
  "of_s64 i = word_of_int i"

section \<open>The entry of an open file\<close>

text \<open>
  The operations on the entry of an open file come in two versions: on exFAT they work on a copy of the entry set, which
  is written back with a new checksum, otherwise on the entry itself.  \<open>k\<close> is 0 for \<open>ep\<close> and 1 for \<open>ep2\<close>; on FAT both
  are the same entry.  A set of a single entry has no second one: there the code accesses memory behind the set.
\<close>

datatype entry_ref = In_set ENTRY_SET_CACHE_T | In_dir dptr u32

definition open_entry :: "sb \<Rightarrow> FILE_ID_T \<Rightarrow> nat \<Rightarrow> sb \<times> entry_ref option" where
  "open_entry s fid type =
     (if vol_type s = EXFAT then
        (case get_entry_set_in_dir s (fid_dir fid) (fid_entry fid) type of
           (s1, None) \<Rightarrow> (s1, None) | (s1, Some es) \<Rightarrow> (s1, Some (In_set es)))
      else
        (case get_entry_in_dir s (fid_dir fid) (fid_entry fid) of
           (s1, None) \<Rightarrow> (s1, None) | (s1, Some (p, sector)) \<Rightarrow> (s1, Some (In_dir p sector))))"

fun ref_entry :: "sb \<Rightarrow> entry_ref \<Rightarrow> nat \<Rightarrow> dentry" where
  "ref_entry s (In_set es) k = es_entry es k"
| "ref_entry s (In_dir p sector) k = load_entry s p"

fun ref_update :: "sb \<Rightarrow> entry_ref \<Rightarrow> nat \<Rightarrow> (dentry \<Rightarrow> dentry) \<Rightarrow> sb \<times> entry_ref" where
  "ref_update s (In_set es) k f =
     (if k < es_num_entries es then (s, In_set (es_put es k (f (es_entry es k)))) else (kernel_oops s, In_set es))"
| "ref_update s (In_dir p sector) k f = (store_entry s p (f (load_entry s p)), In_dir p sector)"

fun ref_commit :: "sb \<Rightarrow> entry_ref \<Rightarrow> sb option" where
  "ref_commit s (In_set es) = do { (s1, _) \<leftarrow> update_dir_checksum_with_entry_set s es; Some s1 }"
| "ref_commit s (In_dir p sector) = Some (buf_modify s sector)"

section \<open>The position in a file\<close>

definition clamp_rwoffset :: "FILE_ID_T \<Rightarrow> FILE_ID_T" where
  "clamp_rwoffset fid = (if of_s64 (rwoffset fid) > fid_size fid then fid\<lparr>rwoffset := to_s64 (fid_size fid)\<rparr> else fid)"

text \<open>The number of the cluster at the current position, and where the search in the chain starts.\<close>

definition clu_index :: "sb \<Rightarrow> FILE_ID_T \<Rightarrow> int" where
  "clu_index s fid = s32_of (drop_bit (unat (cluster_size_bits s)) (rwoffset fid))"

definition chain_start :: "FILE_ID_T \<Rightarrow> int \<Rightarrow> int \<times> u32" where
  "chain_start fid clu_offset =
     (if clu_offset > 0 \<and> hint_last_off fid > 0 \<and> clu_offset \<ge> hint_last_off fid
      then (clu_offset - hint_last_off fid, hint_last_clu fid) else (clu_offset, start_clu fid))"

definition set_hint :: "sb \<Rightarrow> FILE_ID_T \<Rightarrow> u32 \<Rightarrow> FILE_ID_T" where
  "set_hint s fid clu = fid\<lparr>hint_last_off := clu_index s fid, hint_last_clu := clu\<rparr>"

text \<open>The sector and the offset in it of the current position in cluster \<open>clu\<close>.\<close>

definition file_sector :: "sb \<Rightarrow> FILE_ID_T \<Rightarrow> u32 \<Rightarrow> u32 \<times> int" where
  "file_sector s fid clu =
     (let offset = s32_of (rwoffset fid AND uint (cluster_size s - 1))
      in (START_SECTOR s clu + of_s32 (drop_bit (sector_size_bits s) offset), offset AND sector_size_mask s))"

text \<open>The number of bytes of one step: up to the end of the sector or of the request.\<close>

definition one_block :: "sb \<Rightarrow> int \<Rightarrow> u64 \<Rightarrow> u64" where
  "one_block s offset count = (let n = word_of_int (sector_size s - offset) in if n > count then count else n)"

text \<open>How a loop is left: at its end, by a jump to \<open>err_out\<close>, or by a return.\<close>

datatype io_exit = Loop_end | Err_out | Returned ffs

section \<open>Reading\<close>

definition read_cluster :: "sb \<Rightarrow> FILE_ID_T \<Rightarrow> sb \<times> u32 option" where
  "read_cluster s fid =
     (let clu_offset = clu_index s fid
      in if fid_flags fid = 0x03 then (s, Some (start_clu fid + of_s32 clu_offset))
         else case chain_start fid clu_offset of (n, clu) \<Rightarrow> walk_loop (nat n) s clu)"

partial_function (option) read_loop :: "sb \<Rightarrow> FILE_ID_T \<Rightarrow> u64 \<Rightarrow> u8 list \<Rightarrow> u32 option
    \<Rightarrow> (sb \<times> FILE_ID_T \<times> u8 list \<times> io_exit) option" where
  "read_loop s fid count buffer tmp_bh =
     (if count = 0 then Some (s, fid, buffer, Loop_end)
      else case read_cluster s fid of
             (s1, None) \<Rightarrow> Some (s1, fid, buffer, Returned FFS_MEDIAERR)
           | (s1, Some clu) \<Rightarrow>
               let fid = set_hint s1 fid clu
               in case file_sector s1 fid clu of
                    (LogSector, offset) \<Rightarrow>
                      let n = one_block s1 offset count
                      in case sector_read s1 LogSector tmp_bh True of
                           (s2, bh, ret) \<Rightarrow>
                             if ret \<noteq> FFS_SUCCESS then Some (s2, fid, buffer, Err_out)
                             else case bh of
                                    None \<Rightarrow> Some (kernel_oops s2, fid, buffer, Err_out)
                                  | Some b \<Rightarrow>
                                      read_loop s2 (fid\<lparr>rwoffset := rwoffset fid + to_s64 n\<rparr>) (count - n)
                                        (buffer @ slice_at (blk s2 b) (nat offset) (unat n)) bh)"

definition ffsReadFile :: "sb \<Rightarrow> FILE_ID_T \<Rightarrow> u64 \<Rightarrow> (sb \<times> FILE_ID_T \<times> u8 list \<times> u64 option \<times> ffs) option" where
  "ffsReadFile s fid count =
     (if fid_type fid \<noteq> TYPE_FILE then Some (s, fid, [], None, FFS_PERMISSIONERR)
      else let fid = clamp_rwoffset fid; left = fid_size fid - of_s64 (rwoffset fid);
               count = (if count > left then left else count)
           in if count = 0 then Some (s, fid, [], Some 0, FFS_EOF)
              else do {
                (s1, fid, buffer, ex) \<leftarrow> read_loop s fid count [] None;
                case ex of
                  Returned ret \<Rightarrow> Some (s1, fid, buffer, None, ret)
                | _ \<Rightarrow> Some (s1, fid, buffer, Some (of_nat (length buffer)), eject_ret s1 FFS_SUCCESS)
              })"

section \<open>Writing\<close>

text \<open>
  The cluster at the current position and the one before it; the cluster is \<open>CLUSTER_EOF\<close> at the end of the file.  The
  code's \<open>last_clu\<close> starts as the first cluster of the file even when the search starts at the hint.
\<close>

fun walk_last :: "nat \<Rightarrow> sb \<Rightarrow> u32 \<Rightarrow> u32 \<Rightarrow> sb \<times> (u32 \<times> u32) option" where
  "walk_last 0 s clu last_clu = (s, Some (clu, last_clu))"
| "walk_last (Suc n) s clu last_clu =
     (if clu = CLUSTER_EOF then (s, Some (clu, last_clu))
      else case FAT_read s clu of (s1, None) \<Rightarrow> (s1, None) | (s1, Some next_clu) \<Rightarrow> walk_last n s1 next_clu clu)"

definition write_cluster :: "sb \<Rightarrow> FILE_ID_T \<Rightarrow> int \<Rightarrow> int \<Rightarrow> sb \<times> (u32 \<times> u32) option" where
  "write_cluster s fid clu_offset clusters =
     (let clu = start_clu fid
      in if fid_flags fid = 0x03 then
           (if clu_offset > 0 \<and> clu \<noteq> CLUSTER_EOF
            then (s, Some (if clu_offset = clusters then CLUSTER_EOF else clu + of_s32 clu_offset, clu + of_s32 (clu_offset - 1)))
            else (s, Some (clu, clu)))
         else case chain_start fid clu_offset of (n, from) \<Rightarrow> walk_last (nat n) s from clu)"

text \<open>
  Allocation at the end of a file, common to \<open>ffsWriteFile\<close> and \<open>ffsMapCluster\<close>: the new clusters are appended to those
  of \<open>fid\<close>; the boolean is \<open>modified\<close>.
\<close>

definition append_clusters :: "sb \<Rightarrow> FILE_ID_T \<Rightarrow> int \<Rightarrow> u32 \<Rightarrow> CHAIN_T \<Rightarrow> bool \<Rightarrow> sb \<times> FILE_ID_T \<times> bool" where
  "append_clusters s fid clusters last_clu new_clu modified =
     (if last_clu = CLUSTER_EOF then
        (s, fid\<lparr>fid_flags := (if ch_flags new_clu = 0x01 then 0x01 else fid_flags fid), start_clu := ch_dir new_clu\<rparr>, True)
      else let (s1, fid, modified) =
                 (if ch_flags new_clu \<noteq> fid_flags fid
                  then (exfat_chain_cont_cluster s (start_clu fid) clusters, fid\<lparr>fid_flags := 0x01\<rparr>, True)
                  else (s, fid, modified))
           in (if ch_flags new_clu = 0x01 then fst (FAT_write s1 last_clu (ch_dir new_clu)) else s1, fid, modified))"

definition new_chain :: "FILE_ID_T \<Rightarrow> u32 \<Rightarrow> CHAIN_T" where
  "new_chain fid last_clu =
     \<lparr>ch_dir = (if last_clu = CLUSTER_EOF then CLUSTER_EOF else last_clu + 1), ch_size = 0, ch_flags = fid_flags fid\<rparr>"

text \<open>
  One block is written: the buffer of its sector is obtained, changed and marked.  The flag of \<open>sector_read\<close> says whether
  the old contents are needed.
\<close>

definition write_block :: "sb \<Rightarrow> FILE_ID_T \<Rightarrow> u32 \<Rightarrow> int \<Rightarrow> u64 \<Rightarrow> u8 list \<Rightarrow> u32 option \<Rightarrow> sb \<times> u32 option \<times> bool" where
  "write_block s fid LogSector offset n bytes tmp_bh =
     (let old = (if offset = 0 \<and> n = word_of_int (sector_size s) then False
                 else offset > 0 \<or> of_s64 (rwoffset fid) + n < fid_size fid)
      in case sector_read s LogSector tmp_bh old of
           (s1, bh, ret) \<Rightarrow>
             if ret \<noteq> FFS_SUCCESS then (s1, bh, False)
             else case bh of
                    None \<Rightarrow> (kernel_oops s1, bh, False)
                  | Some b \<Rightarrow>
                      (case sector_write (poke b (nat offset) bytes s1) LogSector bh False of
                         (s2, ret) \<Rightarrow> (s2, bh, ret = FFS_SUCCESS)))"

text \<open>\<open>written\<close> is \<open>write_bytes\<close>; the result holds it together with \<open>modified\<close> and \<open>num_alloced\<close>.\<close>

definition write_done :: "FILE_ID_T \<Rightarrow> u64 \<Rightarrow> bool \<Rightarrow> FILE_ID_T \<times> bool" where
  "write_done fid n modified =
     (let fid = fid\<lparr>rwoffset := rwoffset fid + to_s64 n, fid_attr := fid_attr fid OR ATTR_ARCHIVE\<rparr>
      in if fid_size fid < of_s64 (rwoffset fid) then (fid\<lparr>fid_size := of_s64 (rwoffset fid)\<rparr>, True) else (fid, modified))"

partial_function (option) write_loop :: "sb \<Rightarrow> FILE_ID_T \<Rightarrow> u8 list \<Rightarrow> u64 \<Rightarrow> nat \<Rightarrow> bool \<Rightarrow> int \<Rightarrow> int \<Rightarrow> u32 option
    \<Rightarrow> (sb \<times> FILE_ID_T \<times> nat \<times> bool \<times> int \<times> io_exit) option" where
  "write_loop s fid buffer count written modified clusters num_alloced tmp_bh =
     (if count = 0 then Some (s, fid, written, modified, num_alloced, Loop_end)
      else case write_cluster s fid (clu_index s fid) clusters of
             (s1, None) \<Rightarrow> Some (s1, fid, written, modified, num_alloced, Returned FFS_MEDIAERR)
           | (s1, Some (clu, last_clu)) \<Rightarrow> do {
               (s2, new_clu, n_new) \<leftarrow>
                 (if clu = CLUSTER_EOF
                  then alloc_cluster s1 (s32_of (uint (drop_bit (unat (cluster_size_bits s1)) (count - 1))) + 1) (new_chain fid last_clu)
                  else Some (s1, new_chain fid last_clu, num_alloced));
               if clu = CLUSTER_EOF \<and> n_new = 0 then Some (s2, fid, written, modified, 0, Loop_end)
               else if clu = CLUSTER_EOF \<and> n_new < 0 then Some (s2, fid, written, modified, n_new, Returned FFS_MEDIAERR)
               else let (s3, fid, modified) =
                          (if clu = CLUSTER_EOF then append_clusters s2 fid clusters last_clu new_clu modified
                           else (s2, fid, modified));
                        clusters = (if clu = CLUSTER_EOF then clusters + n_new else clusters);
                        clu = (if clu = CLUSTER_EOF then ch_dir new_clu else clu);
                        fid = set_hint s3 fid clu;
                        (LogSector, offset) = file_sector s3 fid clu;
                        n = one_block s3 offset count;
                        (s4, bh, ok) = write_block s3 fid LogSector offset n (slice_at buffer written (unat n)) tmp_bh
                    in if \<not> ok then Some (s4, fid, written, modified, n_new, Err_out)
                       else let (fid, modified) = write_done fid n modified
                            in write_loop s4 fid buffer (count - n) (written + unat n) modified clusters n_new bh
             })"

text \<open>Each of the setters below is called only when the value differs.\<close>

definition sync_flag :: "DENTRY_FUNC_T \<Rightarrow> FILE_ID_T \<Rightarrow> dentry \<Rightarrow> dentry" where
  "sync_flag ops fid e = (if get_entry_flag ops e \<noteq> fid_flags fid then set_entry_flag ops e (fid_flags fid) else e)"

definition sync_size :: "DENTRY_FUNC_T \<Rightarrow> FILE_ID_T \<Rightarrow> dentry \<Rightarrow> dentry" where
  "sync_size ops fid e = (if get_entry_size ops e \<noteq> fid_size fid then set_entry_size ops e (fid_size fid) else e)"

definition sync_clu0 :: "DENTRY_FUNC_T \<Rightarrow> FILE_ID_T \<Rightarrow> dentry \<Rightarrow> dentry" where
  "sync_clu0 ops fid e = (if get_entry_clu0 ops e \<noteq> start_clu fid then set_entry_clu0 ops e (start_clu fid) else e)"

text \<open>Step (3) of \<open>ffsWriteFile\<close>.  On FAT the sector is marked once more when the second group of fields has changed.\<close>

definition write_entry :: "sb \<Rightarrow> FILE_ID_T \<Rightarrow> bool \<Rightarrow> entry_ref \<Rightarrow> sb option" where
  "write_entry s fid modified r =
     (let ops = dentry_func s; (s1, tp) = now s;
          (s2, r) = ref_update s1 r 0 (\<lambda>e. set_entry_attr ops (set_entry_time ops e tp TM_MODIFY) (fid_attr fid));
          s2 = (case r of In_set _ \<Rightarrow> s2 | In_dir _ sector \<Rightarrow> buf_modify s2 sector)
      in if modified then
           (case ref_update s2 r 1 (\<lambda>e. sync_clu0 ops fid (sync_size ops fid (sync_flag ops fid e))) of
              (s3, r) \<Rightarrow> ref_commit s3 r)
         else (case r of In_set es \<Rightarrow> ref_commit s2 r | In_dir _ _ \<Rightarrow> Some s2))"

definition ffsWriteFile :: "sb \<Rightarrow> FILE_ID_T \<Rightarrow> u8 list \<Rightarrow> u64 \<Rightarrow> (sb \<times> FILE_ID_T \<times> u64 option \<times> ffs) option" where
  "ffsWriteFile s fid buffer count =
     (if fid_type fid \<noteq> TYPE_FILE then Some (s, fid, None, FFS_PERMISSIONERR)
      else let fid = clamp_rwoffset fid
           in if count = 0 then Some (s, fid, Some 0, FFS_SUCCESS)
              else let s1 = fs_set_vol_flags s VOL_DIRTY;
                       clusters = (if fid_size fid = 0 then 0
                                       else s32_of (uint (drop_bit (unat (cluster_size_bits s1)) (fid_size fid - 1))) + 1)
                   in do {
                     (s2, fid, written, modified, num_alloced, ex) \<leftarrow> write_loop s1 fid buffer count 0 False clusters (-1) None;
                     let out = (\<lambda>s. Some (s, fid, Some (of_nat written), if num_alloced = 0 then FFS_FULL else eject_ret s FFS_SUCCESS))
                     in case ex of
                          Returned ret \<Rightarrow> Some (s2, fid, None, ret)
                        | Err_out \<Rightarrow> out s2
                        | Loop_end \<Rightarrow>
                            (case open_entry s2 fid ES_ALL_ENTRIES of
                               (s3, None) \<Rightarrow> out s3
                             | (s3, Some r) \<Rightarrow> do { s4 \<leftarrow> write_entry s3 fid modified r; out (delayed_sync s4) })
                   })"

section \<open>Truncating\<close>

fun truncate_walk :: "nat \<Rightarrow> sb \<Rightarrow> u32 \<Rightarrow> u32 \<Rightarrow> sb \<times> (u32 \<times> u32) option" where
  "truncate_walk 0 s clu last_clu = (s, Some (clu, last_clu))"
| "truncate_walk (Suc n) s clu last_clu =
     (case FAT_read s clu of (s1, None) \<Rightarrow> (s1, None) | (s1, Some next_clu) \<Rightarrow> truncate_walk n s1 next_clu clu)"

text \<open>
  The clusters to free and the last one that stays (0 if none); \<open>None\<close> if the table cannot be read.  For a linked file
  the loop has counted \<open>num_clusters\<close> down to 0 before it is subtracted from the size.
\<close>

definition truncate_chain :: "sb \<Rightarrow> FILE_ID_T \<Rightarrow> u64 \<Rightarrow> u64 \<Rightarrow> sb \<times> (CHAIN_T \<times> u32) option" where
  "truncate_chain s fid old_size new_size =
     (let bits = unat (cluster_size_bits s);
          clu = \<lparr>ch_dir = start_clu fid, ch_size = s32_of (uint (drop_bit bits (old_size - 1))) + 1, ch_flags = fid_flags fid\<rparr>;
          clusters = s32_of (uint (drop_bit bits (new_size - 1))) + 1
      in if new_size = 0 then (s, Some (clu, 0))
         else if ch_flags clu = 0x03
         then (s, Some (clu\<lparr>ch_dir := ch_dir clu + of_s32 clusters, ch_size := ch_size clu - clusters\<rparr>, 0))
         else case truncate_walk (nat clusters) s (ch_dir clu) 0 of
                (s1, None) \<Rightarrow> (s1, None)
              | (s1, Some (c, last_clu)) \<Rightarrow> (s1, Some (clu\<lparr>ch_dir := c, ch_size := ch_size clu - min clusters 0\<rparr>, last_clu)))"

definition truncate_entry :: "sb \<Rightarrow> FILE_ID_T \<Rightarrow> u64 \<Rightarrow> entry_ref \<Rightarrow> sb option" where
  "truncate_entry s fid new_size r =
     (let ops = dentry_func s; (s1, tp) = now s;
          (s2, r) = ref_update s1 r 0 (\<lambda>e. set_entry_attr ops (set_entry_time ops e tp TM_MODIFY) (fid_attr fid));
          (s3, r) = ref_update s2 r 1 (\<lambda>e. let e = set_entry_size ops e new_size
                                            in if new_size = 0 then set_entry_clu0 ops (set_entry_flag ops e 0x01) 0 else e)
      in ref_commit s3 r)"

definition ffsTruncateFile :: "sb \<Rightarrow> inode \<Rightarrow> u64 \<Rightarrow> u64 \<Rightarrow> (sb \<times> inode \<times> ffs) option" where
  "ffsTruncateFile s inode old_size new_size =
     (let fid = i_fid inode
      in if fid_type fid \<noteq> TYPE_FILE then Some (s, inode, FFS_PERMISSIONERR)
         else if old_size \<le> new_size then Some (s, inode, FFS_SUCCESS)
         else let s1 = fs_set_vol_flags s VOL_DIRTY
              in case truncate_chain s1 fid old_size new_size of
                   (s2, None) \<Rightarrow> Some (s2, inode, FFS_MEDIAERR)
                 | (s2, Some (clu, last_clu)) \<Rightarrow>
                     let fid = fid\<lparr>fid_size := new_size, fid_attr := fid_attr fid OR ATTR_ARCHIVE\<rparr>;
                         fid = (if new_size = 0 then fid\<lparr>fid_flags := new_flags s2, start_clu := CLUSTER_EOF\<rparr> else fid)
                     in (case open_entry s2 fid ES_ALL_ENTRIES of
                           (s3, None) \<Rightarrow> Some (s3, inode\<lparr>i_fid := fid\<rparr>, FFS_MEDIAERR)
                         | (s3, Some r) \<Rightarrow> do {
                             s4 \<leftarrow> truncate_entry s3 fid new_size r;
                             let s5 = (if last_clu \<noteq> 0 \<and> fid_flags fid = 0x01 then fst (FAT_write s4 last_clu CLUSTER_EOF) else s4)
                             in do {
                               s6 \<leftarrow> free_cluster s5 clu False;
                               let fid = clamp_rwoffset (fid\<lparr>hint_last_off := -1\<rparr>); s7 = delayed_sync s6
                               in Some (s7, inode\<lparr>i_fid := fid\<rparr>, eject_ret s7 FFS_SUCCESS)
                             }
                           }))"

section \<open>Mapping a cluster\<close>

text \<open>
  The part of \<open>ffsMapCluster\<close> that allocates.  On exFAT the entry set is read, and written back, even when nothing has
  been modified.
\<close>

definition map_entry :: "sb \<Rightarrow> FILE_ID_T \<Rightarrow> bool \<Rightarrow> (sb \<times> bool) option" where
  "map_entry s fid modified =
     (if vol_type s \<noteq> EXFAT \<and> \<not> modified then Some (s, True)
      else case open_entry s fid ES_ALL_ENTRIES of
             (s1, None) \<Rightarrow> Some (s1, False)
           | (s1, Some r) \<Rightarrow>
               let ops = dentry_func s1;
                   (s2, r) = (if modified then ref_update s1 r 1 (\<lambda>e. sync_clu0 ops fid (sync_flag ops fid e)) else (s1, r))
               in do { s3 \<leftarrow> ref_commit s2 r; Some (s3, True) })"

definition map_new_cluster :: "sb \<Rightarrow> inode \<Rightarrow> FILE_ID_T \<Rightarrow> int \<Rightarrow> u32 \<Rightarrow> (sb \<times> inode \<times> FILE_ID_T \<times> u32 \<times> ffs) option" where
  "map_new_cluster s inode fid clusters last_clu =
     do {
       (s2, new_clu, n_new) \<leftarrow> alloc_cluster (fs_set_vol_flags s VOL_DIRTY) 1 (new_chain fid last_clu);
       if n_new < 0 then Some (s2, inode, fid, CLUSTER_EOF, FFS_MEDIAERR)
       else if n_new = 0 then Some (s2, inode, fid, CLUSTER_EOF, FFS_FULL)
       else case append_clusters s2 fid clusters last_clu new_clu False of
              (s3, fid, modified) \<Rightarrow> do {
                (s4, ok) \<leftarrow> map_entry s3 fid modified;
                if \<not> ok then Some (s4, inode, fid, ch_dir new_clu, FFS_MEDIAERR)
                else Some (s4, inode\<lparr>i_blocks := i_blocks inode + push_bit (unat (cluster_size_bits s4 - 9)) n_new\<rparr>, fid,
                           ch_dir new_clu, FFS_SUCCESS)
              }
     }"

text \<open>The cluster at which the search stops when the entry of its successor cannot be read.\<close>

fun walk_stop :: "nat \<Rightarrow> sb \<Rightarrow> u32 \<Rightarrow> u32" where
  "walk_stop 0 s clu = clu"
| "walk_stop (Suc n) s clu =
     (if clu = CLUSTER_EOF then clu
      else case FAT_read s clu of (s1, None) \<Rightarrow> clu | (s1, Some next_clu) \<Rightarrow> walk_stop n s1 next_clu)"

definition ffsMapCluster :: "sb \<Rightarrow> inode \<Rightarrow> int \<Rightarrow> (sb \<times> inode \<times> u32 \<times> ffs) option" where
  "ffsMapCluster s inode clu_offset =
     (let bits = unat (cluster_size_bits s); fid = (i_fid inode)\<lparr>rwoffset := push_bit bits clu_offset\<rparr>;
          clusters = (if mmu_private inode = 0 then 0 else s32_of (drop_bit bits (mmu_private inode - 1)) + 1)
      in case write_cluster s fid clu_offset clusters of
           (s1, None) \<Rightarrow> (case chain_start fid clu_offset of (n, from) \<Rightarrow>
             Some (s1, inode\<lparr>i_fid := fid\<rparr>, walk_stop (nat n) s from, FFS_MEDIAERR))
         | (s1, Some (clu, last_clu)) \<Rightarrow> do {
             (s2, inode, fid, clu, ret) \<leftarrow>
               (if clu = CLUSTER_EOF then map_new_cluster s1 inode fid clusters last_clu else Some (s1, inode, fid, clu, FFS_SUCCESS));
             if ret \<noteq> FFS_SUCCESS then Some (s2, inode\<lparr>i_fid := fid\<rparr>, clu, ret)
             else Some (s2, inode\<lparr>i_fid := set_hint s2 fid clu\<rparr>, clu, eject_ret s2 FFS_SUCCESS)
           })"

end
