(* ===== verification/FileModel.thy ===== *)
theory FileModel
  imports FileIO DirApi
begin

text \<open>
  Files as byte sequences.  A file with the clusters \<open>cs\<close> has the byte \<open>file_byte s cs p\<close> at position \<open>p\<close>.  The position
  arithmetic of \<open>ffsReadFile\<close> and \<open>ffsWriteFile\<close> finds its sector and offset, whatever the hint, for files linked by the
  table and for contiguous ones.
\<close>

section \<open>The bytes of a file\<close>

definition csize :: "sb \<Rightarrow> nat" where
  "csize s = 2 ^ unat (cluster_size_bits s)"

definition ssize :: "sb \<Rightarrow> nat" where
  "ssize s = 2 ^ sector_size_bits s"

definition file_pos :: "sb \<Rightarrow> u32 list \<Rightarrow> nat \<Rightarrow> u32" where
  "file_pos s cs p = START_SECTOR s (cs ! (p div csize s)) + of_nat (p mod csize s div ssize s)"

definition file_byte :: "sb \<Rightarrow> u32 list \<Rightarrow> nat \<Rightarrow> u8" where
  "file_byte s cs p = blk s (file_pos s cs p) ! (p mod ssize s)"

definition file_bytes :: "sb \<Rightarrow> u32 list \<Rightarrow> nat \<Rightarrow> nat \<Rightarrow> u8 list" where
  "file_bytes s cs p n = map (file_byte s cs) [p..<p + n]"

lemma length_file_bytes [simp]: "length (file_bytes s cs p n) = n"
  by (simp add: file_bytes_def)

lemma file_bytes_append: "file_bytes s cs p (m + n) = file_bytes s cs p m @ file_bytes s cs (p + m) n"
  using upt_add_eq_append [of p "p + m" n] by (simp add: file_bytes_def add.assoc)

text \<open>The clusters of a file, as its identifier gives them, and a hint that is right.\<close>

definition file_chain :: "sb \<Rightarrow> FILE_ID_T \<Rightarrow> u32 list \<Rightarrow> bool" where
  "file_chain s fid cs \<longleftrightarrow> (\<forall>c \<in> set cs. 2 \<le> c \<and> c < num_clusters s) \<and> length cs < 2 ^ 31 \<and>
     (cs \<noteq> [] \<longrightarrow> start_clu fid = hd cs) \<and>
     (if fid_flags fid = 0x03 then \<forall>i < length cs. cs ! i = start_clu fid + of_nat i
      else \<forall>i. Suc i < length cs \<longrightarrow> fat_get s (cs ! i) = cs ! Suc i)"

definition hint_ok :: "FILE_ID_T \<Rightarrow> u32 list \<Rightarrow> bool" where
  "hint_ok fid cs \<longleftrightarrow> (0 < hint_last_off fid \<longrightarrow> nat (hint_last_off fid) < length cs \<longrightarrow>
     hint_last_clu fid = cs ! nat (hint_last_off fid))"

definition file_ok :: "sb \<Rightarrow> FILE_ID_T \<Rightarrow> u32 list \<Rightarrow> bool" where
  "file_ok s fid cs \<longleftrightarrow> dir_ok s \<and> file_chain s fid cs \<and> hint_ok fid cs"

lemma csize_bounds:
  assumes "dir_ok s"
  shows "csize s \<le> 2 ^ 25" "ssize s dvd csize s" "0 < csize s" "0 < ssize s" "ssize s \<le> csize s" "ssize s \<le> 4096"
proof -
  have c: "sector_size_bits s \<le> unat (cluster_size_bits s)" "unat (cluster_size_bits s) \<le> 25" "sector_size_bits s \<le> 12"
    using dir_ok_fields(4,7) [OF assms] by (simp_all add: clu_geom_def geom_def Let_def)
  show "csize s \<le> 2 ^ 25" unfolding csize_def by (rule power_increasing [OF c(2)]) simp
  show "ssize s dvd csize s" "ssize s \<le> csize s" unfolding csize_def ssize_def
    using c(1) by (simp_all add: le_imp_power_dvd)
  have "(2 :: nat) ^ sector_size_bits s \<le> 2 ^ 12" by (rule power_increasing [OF c(3)]) simp
  then show "ssize s \<le> 4096" by (simp add: ssize_def)
qed (simp_all add: csize_def ssize_def)

lemma file_pos_bound:
  assumes "file_ok s fid cs" "p < length cs * csize s"
  shows "p div csize s < length cs" "p < 2 ^ 56"
proof -
  have d: "dir_ok s" and l: "length cs < 2 ^ 31" using assms(1) by (simp_all add: file_ok_def file_chain_def)
  show "p div csize s < length cs" using assms(2) by (rule less_mult_imp_div_less)
  have "length cs * csize s \<le> 2 ^ 31 * 2 ^ 25" using l csize_bounds(1) [OF d] by (intro mult_le_mono) auto
  then show "p < 2 ^ 56" using assms(2) by simp
qed

section \<open>Conversions of positions\<close>

lemma s32_of_small: "0 \<le> i \<Longrightarrow> i < 2 ^ 31 \<Longrightarrow> s32_of i = i"
  by (simp add: s32_of_def to_s32_def of_s32_def signed_of_int signed_take_bit_int_eq_self)

lemma of_s64_nat: "n < 2 ^ 63 \<Longrightarrow> unat (of_s64 (int n)) = n"
  by (simp add: of_s64_def unat_of_nat)

lemma to_s64_nat: "unat w < 2 ^ 63 \<Longrightarrow> to_s64 w = int (unat w)"
proof -
  assume "unat w < 2 ^ 63"
  then have "int (unat w) < int (2 ^ 63)" by (simp only: of_nat_less_iff)
  then have "uint w < 2 ^ 63" by simp
  moreover have "- (2 ^ 63) \<le> uint w" by (rule order.trans [of _ 0]) simp_all
  ultimately have "signed_take_bit 63 (uint w) = uint w" by (intro signed_take_bit_int_eq_self)
  then show ?thesis by (simp add: to_s64_def sint_uint)
qed

lemma clu_index_eq:
  assumes "file_ok s fid cs" "rwoffset fid = int p" "p < length cs * csize s"
  shows "clu_index s fid = int (p div csize s)"
proof -
  have "drop_bit (unat (cluster_size_bits s)) (int p) = int (p div csize s)"
    unfolding csize_def by (rule drop_bit_int)
  moreover have "p div csize s < 2 ^ 31"
    using file_pos_bound(1) [OF assms(1,3)] assms(1) by (simp add: file_ok_def file_chain_def)
  then have "s32_of (int (p div csize s)) = int (p div csize s)" by (intro s32_of_small) auto
  ultimately show ?thesis by (simp add: clu_index_def assms(2))
qed

lemma file_sector_eq:
  assumes "dir_ok s" "rwoffset fid = int p"
  shows "file_sector s fid clu = (START_SECTOR s clu + of_nat (p mod csize s div ssize s), int (p mod ssize s))"
proof -
  have cs: "cluster_size s = 2 ^ unat (cluster_size_bits s)" "unat (cluster_size_bits s) \<le> 25"
    using dir_ok_fields(7) [OF assms(1)] by (simp_all add: clu_geom_def Let_def)
  have ms: "sector_size_mask s = mask (sector_size_bits s)"
    using dir_ok_fields(4) [OF assms(1)] by (simp add: geom_def mask_eq_exp_minus_1)
  have m: "uint (cluster_size s - 1) = mask (unat (cluster_size_bits s))"
    using cs by (simp add: uint_mask_eq flip: mask_eq_exp_minus_1)
  have "int p AND uint (cluster_size s - 1) = int (p mod csize s)"
    by (simp only: m take_bit_eq_mask [symmetric] take_bit_eq_mod zmod_int of_nat_power of_nat_numeral csize_def)
  moreover have "p mod csize s < 2 ^ 31"
    using order.strict_trans2 [OF mod_less_divisor [OF csize_bounds(3) [OF assms(1)]] csize_bounds(1) [OF assms(1)], of p] by simp
  then have "s32_of (int (p mod csize s)) = int (p mod csize s)" by (intro s32_of_small) auto
  moreover have "int (p mod csize s) AND sector_size_mask s = int (p mod csize s mod ssize s)"
    by (simp only: ms take_bit_eq_mask [symmetric] take_bit_eq_mod zmod_int of_nat_power of_nat_numeral ssize_def)
  moreover have "p mod csize s mod ssize s = p mod ssize s" using csize_bounds(2) [OF assms(1)] by (rule mod_mod_cancel)
  moreover have "drop_bit (sector_size_bits s) (int (p mod csize s)) = int (p mod csize s div ssize s)"
    unfolding ssize_def by (rule drop_bit_int)
  ultimately show ?thesis by (simp add: file_sector_def assms(2) of_s32_def)
qed

lemma one_block_eq:
  assumes "dir_ok s"
  shows "unat (one_block s (int (p mod ssize s)) count) = min (ssize s - p mod ssize s) (unat count)"
proof -
  have ss: "sector_size s = int (ssize s)" using dir_ok_fields(4) [OF assms] by (simp add: geom_def ssize_def)
  have lt: "p mod ssize s < ssize s" using csize_bounds(4) [OF assms] by simp
  then have "sector_size s - int (p mod ssize s) = int (ssize s - p mod ssize s)" using ss by (simp add: of_nat_diff)
  then have w: "word_of_int (sector_size s - int (p mod ssize s)) = (of_nat (ssize s - p mod ssize s) :: u64)" by simp
  have "unat (of_nat (ssize s - p mod ssize s) :: u64) = ssize s - p mod ssize s"
    using csize_bounds(6) [OF assms] by (simp add: unat_of_nat)
  then show ?thesis unfolding one_block_def w Let_def by (auto simp: word_less_nat_alt min_def)
qed

text \<open>A step never crosses a sector, and so never a cluster.\<close>

lemma step_positions:
  assumes "dir_ok s" "j < ssize s - p mod ssize s"
  shows "file_pos s cs (p + j) = file_pos s cs p" "(p + j) mod ssize s = p mod ssize s + j" "(p + j) div csize s = p div csize s"
proof -
  have lt: "p mod ssize s + j < ssize s" using assms(2) by simp
  then show m: "(p + j) mod ssize s = p mod ssize s + j"
    by (metis mod_add_left_eq mod_less)
  have "p + j = p mod ssize s + j + ssize s * (p div ssize s)" by simp
  then have sd: "(p + j) div ssize s = p div ssize s"
    using lt csize_bounds(4) [OF assms(1)] by (simp only: div_mult_self2) simp
  obtain k where k: "csize s = ssize s * k" using csize_bounds(2) [OF assms(1)] by blast
  show c: "(p + j) div csize s = p div csize s" unfolding k by (simp add: div_mult2_eq sd)
  have "x mod csize s div ssize s = x div ssize s mod k" for x
    unfolding k by (simp add: mod_mult2_eq csize_bounds(4) [OF assms(1)])
  then show "file_pos s cs (p + j) = file_pos s cs p" by (simp add: file_pos_def c sd)
qed

section \<open>Finding the cluster of a position\<close>

lemma vol_eq_fat_get:
  assumes "vol_eq s s'"
  shows "fat_get s' = fat_get s"
proof -
  note f = same_volume_fields [OF vol_eq_same [OF assms]]
  have m: "fat_mem s' = fat_mem s" by (simp add: fun_eq_iff fat_mem_def fat_sector_def f)
  show ?thesis unfolding fun_eq_iff fat_get_def m by (simp add: f)
qed

lemma file_view:
  assumes "vol_eq s s'"
  shows "csize s' = csize s" "ssize s' = ssize s" "file_pos s' = file_pos s" "file_byte s' = file_byte s" "file_bytes s' = file_bytes s"
proof -
  note f = same_volume_fields [OF vol_eq_same [OF assms]] same_volume_derived [OF vol_eq_same [OF assms]]
  show c: "csize s' = csize s" "ssize s' = ssize s" by (simp_all add: csize_def ssize_def f)
  show p: "file_pos s' = file_pos s" by (simp add: fun_eq_iff file_pos_def c f)
  show b: "file_byte s' = file_byte s" by (simp add: fun_eq_iff file_byte_def c p f)
  show "file_bytes s' = file_bytes s" by (simp add: fun_eq_iff file_bytes_def b)
qed

lemma file_chain_cong:
  assumes "file_chain s fid cs" "num_clusters s' = num_clusters s" "fat_get s' = fat_get s" "start_clu fid' = start_clu fid"
    "fid_flags fid' = fid_flags fid"
  shows "file_chain s' fid' cs"
  using assms by (simp add: file_chain_def split: if_splits)

lemma walk_chain:
  assumes "dir_ok s" "\<forall>c \<in> set cs. 2 \<le> c \<and> c < num_clusters s" "\<forall>i. Suc i < length cs \<longrightarrow> fat_get s (cs ! i) = cs ! Suc i"
    "k + n < length cs"
  shows "\<exists>s'. walk_loop n s (cs ! k) = (s', Some (cs ! (k + n))) \<and> dir_ok s' \<and> vol_eq s s' \<and> fat_get s' = fat_get s"
  using assms
proof (induction n arbitrary: s k)
  case 0
  then show ?case by auto
next
  case (Suc n)
  have "cs ! k < num_clusters s" "fat_get s (cs ! k) = cs ! Suc k" using Suc.prems by auto
  then obtain s1 where s1: "FAT_read s (cs ! k) = (s1, Some (cs ! Suc k))" "dir_ok s1" "vol_eq s s1" "fat_get s1 = fat_get s"
    using read_dir [OF Suc.prems(1)] by metis
  have "num_clusters s1 = num_clusters s" using same_volume_fields(13) [OF vol_eq_same [OF s1(3)]] .
  then obtain s' where "walk_loop n s1 (cs ! Suc k) = (s', Some (cs ! (Suc k + n)))" "dir_ok s'" "vol_eq s1 s'" "fat_get s' = fat_get s1"
    using Suc.IH [OF s1(2), of "Suc k"] Suc.prems s1(4) by auto
  then show ?case using s1 vol_eq_trans [OF s1(3)] by simp
qed

lemma chain_start_ok:
  assumes "hint_ok fid cs" "cs \<noteq> []" "start_clu fid = hd cs" "k < length cs"
  shows "\<exists>j n. chain_start fid (int k) = (int n, cs ! j) \<and> j + n = k"
proof (cases "0 < k \<and> 0 < hint_last_off fid \<and> hint_last_off fid \<le> int k")
  case True
  then have "hint_last_clu fid = cs ! nat (hint_last_off fid)" using assms(1,4) by (simp add: hint_ok_def nat_less_iff)
  then show ?thesis
    using True by (intro exI [of _ "nat (hint_last_off fid)"] exI [of _ "k - nat (hint_last_off fid)"]) (simp add: chain_start_def of_nat_diff nat_le_iff)
next
  case False
  then show ?thesis using assms(2,3) by (intro exI [of _ 0] exI [of _ k]) (auto simp: chain_start_def hd_conv_nth)
qed

lemma read_cluster_ok:
  assumes "file_ok s fid cs" "rwoffset fid = int p" "p < length cs * csize s"
  obtains s' where "read_cluster s fid = (s', Some (cs ! (p div csize s)))" "dir_ok s'" "vol_eq s s'" "fat_get s' = fat_get s"
proof -
  have d: "dir_ok s" and ch: "file_chain s fid cs" and h: "hint_ok fid cs" using assms(1) by (simp_all add: file_ok_def)
  note k = file_pos_bound(1) [OF assms(1,3)] and i = clu_index_eq [OF assms]
  have ne: "cs \<noteq> []" using k by auto
  then have hd: "start_clu fid = hd cs" using ch by (simp add: file_chain_def)
  show thesis
  proof (cases "fid_flags fid = 0x03")
    case True
    then have "cs ! (p div csize s) = start_clu fid + of_nat (p div csize s)" using ch k by (simp add: file_chain_def)
    then show thesis using that [of s] d True by (simp add: read_cluster_def i of_s32_def)
  next
    case False
    obtain j n where j: "chain_start fid (int (p div csize s)) = (int n, cs ! j)" "j + n = p div csize s"
      using chain_start_ok [OF h ne hd k] by blast
    have "\<exists>s'. walk_loop n s (cs ! j) = (s', Some (cs ! (j + n))) \<and> dir_ok s' \<and> vol_eq s s' \<and> fat_get s' = fat_get s"
      using ch False k j(2) by (intro walk_chain [OF d]) (simp_all add: file_chain_def)
    then show thesis using that False j by (auto simp: read_cluster_def i)
  qed
qed

lemma set_hint_ok:
  assumes "file_ok s fid cs" "rwoffset fid = int p" "p < length cs * csize s"
  shows "hint_ok (set_hint s fid (cs ! (p div csize s))) cs"
  by (simp add: hint_ok_def set_hint_def clu_index_eq [OF assms])

lemma file_pos_in_range:
  assumes "file_ok s fid cs" "p < length cs * csize s"
  shows "\<not> out_of_range s (file_pos s cs p)"
proof -
  have d: "dir_ok s" using assms(1) by (simp add: file_ok_def)
  have c: "2 \<le> cs ! (p div csize s)" "cs ! (p div csize s) < num_clusters s"
    using assms(1) file_pos_bound(1) [OF assms] by (simp_all add: file_ok_def file_chain_def)
  have le: "sector_size_bits s \<le> unat (cluster_size_bits s)" using dir_ok_fields(7) [OF d] by (simp add: clu_geom_def Let_def)
  have "p mod csize s < 2 ^ (unat (cluster_size_bits s) - sector_size_bits s) * ssize s"
    using csize_bounds(3) [OF d] le by (simp add: csize_def ssize_def flip: power_add)
  then have "p mod csize s div ssize s < 2 ^ (unat (cluster_size_bits s) - sector_size_bits s)" by (rule less_mult_imp_div_less)
  then show ?thesis using c dir_ok_fields(7) [OF d] unfolding clu_geom_def Let_def file_pos_def by blast
qed

end
