(* ===== verification/FileProps.thy ===== *)
theory FileProps
  imports FileModel DirProps
begin

text \<open>
  What the operations on the contents of files do: a read returns the bytes of the file at the current position.
\<close>

section \<open>Reading\<close>

lemma dir_ok_tick: "dir_ok s \<Longrightarrow> dir_ok (tick s)"
proof -
  assume d: "dir_ok s"
  have v: "vol_eq s (tick s)" by simp
  have c: "FAT_cache (tick s) = FAT_cache s" "the_buf_cache (tick s) = the_buf_cache s" by (simp_all add: tick_def)
  have "tbl_ok (tick s) = tbl_ok s" using table_view(3) [OF vol_clu_frame [OF v]] c by (simp add: tick_def)
  moreover have "bufc.inv (tick s) = bufc.inv s"
    using buf_inv_cong same_volume_fields(5) [OF vol_eq_same [OF v]] same_volume_derived(3) [OF vol_eq_same [OF v]] c(2) by blast
  moreover have "free_entries (tick s) = free_entries s" by (simp add: free_entries_def c)
  ultimately show ?thesis using d dir_view(5) [OF v] by (simp add: dir_ok_def)
qed

lemma slice_file_bytes:
  assumes "dir_ok s" "n \<le> ssize s - p mod ssize s"
  shows "slice_at (blk s (file_pos s cs p)) (p mod ssize s) n = file_bytes s cs p n"
proof (rule nth_equalityI)
  have len: "length (blk s (file_pos s cs p)) = ssize s" using dir_ok_fields(4) [OF assms(1)] by (simp add: geom_def ssize_def)
  have "p mod ssize s < ssize s" using csize_bounds(4) [OF assms(1)] by simp
  then have fits: "p mod ssize s + n \<le> length (blk s (file_pos s cs p))" using assms(2) len by simp
  then show "length (slice_at (blk s (file_pos s cs p)) (p mod ssize s) n) = length (file_bytes s cs p n)" by simp
  fix j assume "j < length (slice_at (blk s (file_pos s cs p)) (p mod ssize s) n)"
  then have j: "j < n" using fits by simp
  then show "slice_at (blk s (file_pos s cs p)) (p mod ssize s) n ! j = file_bytes s cs p n ! j"
    using step_positions [OF assms(1), of j p] assms(2) fits by (simp add: nth_slice_at file_bytes_def file_byte_def)
qed

text \<open>One round of the loop, and the loop: it ends, and the bytes of the file follow those already in the buffer.\<close>

lemma read_round:
  assumes "file_ok s fid cs" "rwoffset fid = int p" "p < length cs * csize s" "count \<noteq> 0"
  defines "n \<equiv> min (ssize s - p mod ssize s) (unat count)"
  obtains s' fid' where
    "read_loop s fid count buffer bh = read_loop s' fid' (count - of_nat n) (buffer @ file_bytes s cs p n) (Some (file_pos s cs p))"
    "file_ok s' fid' cs" "vol_eq s s'" "fid' = fid\<lparr>rwoffset := int (p + n), hint_last_off := hint_last_off fid', hint_last_clu := hint_last_clu fid'\<rparr>"
proof -
  have d: "dir_ok s" using assms(1) by (simp add: file_ok_def)
  obtain s1 where s1: "read_cluster s fid = (s1, Some (cs ! (p div csize s)))" "dir_ok s1" "vol_eq s s1" "fat_get s1 = fat_get s"
    using read_cluster_ok [OF assms(1-3)] by blast
  note v1 = file_view [OF s1(3)] and f1 = same_volume_fields [OF vol_eq_same [OF s1(3)]] same_volume_derived [OF vol_eq_same [OF s1(3)]]
  define fid1 where "fid1 = set_hint s1 fid (cs ! (p div csize s))"
  have rw: "rwoffset fid1 = int p" by (simp add: fid1_def set_hint_def assms(2))
  have fs: "file_sector s1 fid1 (cs ! (p div csize s)) = (file_pos s cs p, int (p mod ssize s))"
    using file_sector_eq [OF s1(2) rw] v1 f1 by (simp add: file_pos_def)
  have ob: "unat (one_block s1 (int (p mod ssize s)) count) = n"
    using one_block_eq [OF s1(2)] v1 by (simp add: n_def)
  then have obw: "one_block s1 (int (p mod ssize s)) count = of_nat n" by (rule unat_word)
  have "\<not> out_of_range s1 (file_pos s cs p)" using file_pos_in_range [OF assms(1,3)] f1 by simp
  then have rd: "sector_read s1 (file_pos s cs p) bh True = (tick s1, Some (file_pos s cs p), FFS_SUCCESS)"
    using dir_ok_fields(3) [OF s1(2)] by (intro sector_read_ok)
  have n1: "n \<le> ssize s - p mod ssize s" by (simp add: n_def)
  then have n: "n \<le> ssize s - p mod ssize s" "n \<le> 4096" using csize_bounds(6) [OF d] by simp_all
  have un: "to_s64 (of_nat n) = int n"
  proof -
    have "unat (of_nat n :: u64) = n" using n(2) by (simp add: unat_of_nat)
    then show ?thesis using to_s64_nat [of "of_nat n"] n(2) by simp
  qed
  have b: "blk (tick s1) = blk s" by (simp add: tick_def f1)
  have sl: "slice_at (blk (tick s1) (file_pos s cs p)) (p mod ssize s) n = file_bytes s cs p n"
    using slice_file_bytes [OF d n(1)] b by simp
  define fid2 where "fid2 = fid1\<lparr>rwoffset := int (p + n)\<rparr>"
  have un2: "unat (of_nat n :: u64) = n" using n(2) by (simp add: unat_of_nat)
  have step: "read_loop s fid count buffer bh =
      read_loop (tick s1) fid2 (count - of_nat n) (buffer @ file_bytes s cs p n) (Some (file_pos s cs p))"
    using assms(4) by (subst read_loop.simps)
      (simp add: s1(1) fs obw rd un un2 sl rw fid2_def Let_def flip: fid1_def)
  have v: "vol_eq s (tick s1)" using vol_eq_trans [OF s1(3)] by simp
  have h: "hint_ok fid1 cs"
    using set_hint_ok [of s1 fid cs p] assms(1,2,3) s1 v1 f1 file_chain_cong [of s fid cs s1 fid]
    by (simp add: fid1_def file_ok_def)
  have fat: "fat_get (tick s1) = fat_get s" by (rule vol_eq_fat_get [OF v])
  have "file_ok (tick s1) fid2 cs"
    using assms(1) h dir_ok_tick [OF s1(2)] file_chain_cong [of s fid cs "tick s1" fid2] fat same_volume_fields(13) [OF vol_eq_same [OF v]]
    by (simp add: file_ok_def hint_ok_def fid2_def fid1_def set_hint_def)
  then show thesis
    using that [OF step _ v] by (simp add: fid2_def fid1_def set_hint_def)
qed

lemma read_loop_ok:
  assumes "file_ok s fid cs" "rwoffset fid = int p" "p + unat count \<le> length cs * csize s"
  shows "\<exists>s' fid'. read_loop s fid count buffer bh = Some (s', fid', buffer @ file_bytes s cs p (unat count), Loop_end) \<and>
    file_ok s' fid' cs \<and> vol_eq s s' \<and>
    fid' = fid\<lparr>rwoffset := int (p + unat count), hint_last_off := hint_last_off fid', hint_last_clu := hint_last_clu fid'\<rparr>"
  using assms
proof (induction "unat count" arbitrary: s fid p count buffer bh rule: less_induct)
  case less
  show ?case
  proof (cases "count = 0")
    case True
    then show ?thesis using less.prems by (subst read_loop.simps) (simp add: file_bytes_def)
  next
    case False
    then have pos: "0 < unat count" by (simp add: unat_gt_0)
    define n where "n = min (ssize s - p mod ssize s) (unat count)"
    have d: "dir_ok s" using less.prems(1) by (simp add: file_ok_def)
    have lt: "p < length cs * csize s" using less.prems(3) pos by simp
    obtain s1 fid1 where r: "read_loop s fid count buffer bh =
        read_loop s1 fid1 (count - of_nat n) (buffer @ file_bytes s cs p n) (Some (file_pos s cs p))"
      and s1: "file_ok s1 fid1 cs" "vol_eq s s1"
      and fid1: "fid1 = fid\<lparr>rwoffset := int (p + n), hint_last_off := hint_last_off fid1, hint_last_clu := hint_last_clu fid1\<rparr>"
      using read_round [OF less.prems(1,2) lt False, of buffer bh] unfolding n_def by metis
    have "p mod ssize s < ssize s" using csize_bounds(4) [OF d] by simp
    then have n: "0 < n" "n \<le> unat count" using pos by (simp_all add: n_def)
    have c: "unat (count - of_nat n) = unat count - n"
    proof -
      have "unat (of_nat n :: u64) = n" using n(2) order.strict_trans1 [OF n(2) unsigned_less [of count]] by (simp add: unat_of_nat)
      then show ?thesis using n(2) by (simp add: unat_sub word_le_nat_alt)
    qed
    note v = file_view [OF s1(2)]
    have rw: "rwoffset fid1 = int (p + n)" by (subst fid1) simp
    have "\<exists>s' fid'. read_loop s1 fid1 (count - of_nat n) (buffer @ file_bytes s cs p n) (Some (file_pos s cs p)) =
        Some (s', fid', (buffer @ file_bytes s cs p n) @ file_bytes s1 cs (p + n) (unat (count - of_nat n)), Loop_end) \<and>
        file_ok s' fid' cs \<and> vol_eq s1 s' \<and> fid' = fid1\<lparr>rwoffset := int (p + n + unat (count - of_nat n)),
          hint_last_off := hint_last_off fid', hint_last_clu := hint_last_clu fid'\<rparr>"
      by (rule less.hyps [OF _ s1(1) rw]) (use n less.prems(3) in \<open>simp_all add: c v\<close>)
    then obtain s' fid' where s': "read_loop s1 fid1 (count - of_nat n) (buffer @ file_bytes s cs p n) (Some (file_pos s cs p)) =
        Some (s', fid', (buffer @ file_bytes s cs p n) @ file_bytes s1 cs (p + n) (unat (count - of_nat n)), Loop_end)"
      "file_ok s' fid' cs" "vol_eq s1 s'" and fid': "fid' = fid1\<lparr>rwoffset := int (p + n + unat (count - of_nat n)),
          hint_last_off := hint_last_off fid', hint_last_clu := hint_last_clu fid'\<rparr>"
      by blast
    have app: "file_bytes s cs p n @ file_bytes s cs (p + n) (unat count - n) = file_bytes s cs p (unat count)"
      using file_bytes_append [of s cs p n "unat count - n"] n(2) by simp
    have "fid' = fid\<lparr>rwoffset := int (p + unat count), hint_last_off := hint_last_off fid', hint_last_clu := hint_last_clu fid'\<rparr>"
      using n(2) by (subst fid', subst fid1) (simp add: c)
    then show ?thesis
      using s' vol_eq_trans [OF s1(2) s'(3)] app by (simp add: r c v)
  qed
qed

lemma ffsReadFile_ok:
  fixes count :: u64
  assumes "file_ok s fid cs" "fid_type fid = TYPE_FILE" "unat (fid_size fid) \<le> length cs * csize s"
    "0 \<le> rwoffset fid" "rwoffset fid < 2 ^ 63"
    and p_def: "p = min (nat (rwoffset fid)) (unat (fid_size fid))" and n_def: "n = min (unat count) (unat (fid_size fid) - p)"
  shows "\<exists>s' fid'. ffsReadFile s fid count =
      Some (s', fid', file_bytes s cs p n, Some (of_nat n), if n = 0 then FFS_EOF else FFS_SUCCESS) \<and> vol_eq s s' \<and>
      fid' = fid\<lparr>rwoffset := int (p + n), hint_last_off := hint_last_off fid', hint_last_clu := hint_last_clu fid'\<rparr>"
proof -
  define fid0 where "fid0 = clamp_rwoffset fid"
  have d: "dir_ok s" using assms(1) by (simp add: file_ok_def)
  have "length cs * csize s \<le> 2 ^ 31 * 2 ^ 25"
    using csize_bounds(1) [OF d] assms(1) by (intro mult_le_mono) (auto simp: file_ok_def file_chain_def)
  then have sz: "unat (fid_size fid) < 2 ^ 63" using assms(3) by simp
  have u: "unat (of_s64 (rwoffset fid)) = nat (rwoffset fid)" using of_s64_nat [of "nat (rwoffset fid)"] assms(4,5) by (simp add: nat_less_iff)
  have fid0: "fid0 = fid\<lparr>rwoffset := int p\<rparr>"
  proof (cases "fid_size fid < of_s64 (rwoffset fid)")
    case True
    then have "p = unat (fid_size fid)" using u by (simp add: p_def word_less_nat_alt)
    then show ?thesis using True to_s64_nat [OF sz] by (simp add: fid0_def clamp_rwoffset_def)
  next
    case False
    then have "int p = rwoffset fid" using u assms(4) by (simp add: p_def word_less_nat_alt)
    then show ?thesis using False by (simp add: fid0_def clamp_rwoffset_def)
  qed
  have p: "p \<le> unat (fid_size fid)" by (simp add: p_def)
  then have up: "unat (of_s64 (rwoffset fid0)) = p" using of_s64_nat [of p] sz by (simp add: fid0)
  define left where "left = fid_size fid0 - of_s64 (rwoffset fid0)"
  have "of_s64 (rwoffset fid0) \<le> fid_size fid0" using p up by (simp add: fid0 word_le_nat_alt)
  then have l: "unat left = unat (fid_size fid) - p" unfolding left_def using up by (simp add: unat_sub fid0)
  define count' where "count' = (if count > left then left else count)"
  have n: "unat count' = n" using l by (simp add: count'_def n_def word_less_nat_alt min_def)
  have read: "ffsReadFile s fid count = (if count' = 0 then Some (s, fid0, [], Some 0, FFS_EOF)
      else do {
        (s1, fid, buffer, ex) \<leftarrow> read_loop s fid0 count' [] None;
        case ex of
          Returned ret \<Rightarrow> Some (s1, fid, buffer, None, ret)
        | _ \<Rightarrow> Some (s1, fid, buffer, Some (of_nat (length buffer)), eject_ret s1 FFS_SUCCESS)
      })"
    unfolding ffsReadFile_def Let_def fid0_def [symmetric] left_def [symmetric] count'_def [symmetric] using assms(2) by simp
  show ?thesis
  proof (cases "n = 0")
    case True
    then have "count' = 0" using n by (simp add: unat_eq_0)
    then show ?thesis using True by (auto simp: read fid0 file_bytes_def)
  next
    case False
    then have nz: "count' \<noteq> 0" using n by auto
    have ok: "file_ok s fid0 cs"
      using assms(1) file_chain_cong [of s fid cs s fid0] by (simp add: file_ok_def fid0 hint_ok_def)
    have rw: "rwoffset fid0 = int p" by (simp add: fid0)
    have cap: "p + unat count' \<le> length cs * csize s" using assms(3) p by (simp add: n n_def)
    obtain s' fid' where s': "read_loop s fid0 count' [] None = Some (s', fid', [] @ file_bytes s cs p (unat count'), Loop_end)"
      "file_ok s' fid' cs" "vol_eq s s'"
      and fid': "fid' = fid0\<lparr>rwoffset := int (p + unat count'), hint_last_off := hint_last_off fid', hint_last_clu := hint_last_clu fid'\<rparr>"
      using read_loop_ok [OF ok rw cap, of "[]" None] by blast
    have ej: "\<not> dev_ejected s'" using s'(2) dir_ok_fields(9) by (auto simp: file_ok_def)
    have "fid' = fid\<lparr>rwoffset := int (p + n), hint_last_off := hint_last_off fid', hint_last_clu := hint_last_clu fid'\<rparr>"
      by (subst fid') (simp add: fid0 n)
    then show ?thesis
      using False nz s'(1,3) ej by (simp add: read n eject_ret_def)
  qed
qed

text \<open>
  C1: Reading a file, for all four formats, linked and contiguous files: on a working volume \<open>ffsReadFile\<close> ends.  The
  position is first moved back to the end of the file if it lies behind it.  At the end of the file the result is
  \<open>FFS_EOF\<close>; otherwise it is a success with the bytes of the file from the position on, as many as were asked for or as
  there are, across sectors and clusters; the position advances by their number and nothing changes but the caches.
\<close>

theorem ffsReadFile_contents:
  fixes count :: u64
  assumes "file_ok s fid cs" "fid_type fid = TYPE_FILE" "unat (fid_size fid) \<le> length cs * csize s"
    "0 \<le> rwoffset fid" "rwoffset fid < 2 ^ 63"
  defines "p \<equiv> min (nat (rwoffset fid)) (unat (fid_size fid))"
  defines "n \<equiv> min (unat count) (unat (fid_size fid) - p)"
  shows "\<exists>s' fid'. ffsReadFile s fid count =
      Some (s', fid', file_bytes s cs p n, Some (of_nat n), if n = 0 then FFS_EOF else FFS_SUCCESS) \<and> vol_eq s s' \<and>
      fid' = fid\<lparr>rwoffset := int (p + n), hint_last_off := hint_last_off fid', hint_last_clu := hint_last_clu fid'\<rparr>"
  unfolding p_def n_def by (rule ffsReadFile_ok [OF assms(1-5) refl refl])

text \<open>A FAT16 volume with a file of the clusters 3 and 4, every byte of which is the number of its sector.\<close>

definition file_sb :: sb where
  "file_sb = (sample_sb FAT16)\<lparr>blk := (\<lambda>b. if b = 1 then (replicate 512 0)[6 := 4] else replicate 512 (ucast b))\<rparr>"

definition sample_fid :: FILE_ID_T where
  "sample_fid = \<lparr>fid_dir = one_cluster, fid_entry = 0, fid_type = TYPE_FILE, fid_attr = ATTR_ARCHIVE, start_clu = 3, fid_size = 1030,
     fid_flags = 1, rwoffset = 1020, hint_last_off = -1, hint_last_clu = 0\<rparr>"

lemma file_sb_fields: "num_clusters file_sb = 66" "vol_type file_sb = FAT16" "cluster_size_bits file_sb = 10"
  "sector_size_bits file_sb = 9" "sectors_per_clu_bits file_sb = 1" "data_start_sector file_sb = 8" "FAT1_start_sector file_sb = 1"
  by (simp_all add: file_sb_def sample_dir_fields) (simp add: sample_fields blank_sb_def)

lemma file_sb_ok: "file_ok file_sb sample_fid [3, 4]"
proof -
  have "dir_ok file_sb" unfolding file_sb_def by (rule dir_ok_blk [OF sample_dir_ok]) (simp add: sample_dir_fields)
  moreover have "fat_mem file_sb 6 = 4" "fat_mem file_sb 7 = 0"
    by (simp_all add: fat_mem_def fat_sector_def file_sb_fields) (simp_all add: file_sb_def)
  then have "fat_get file_sb 3 = 4"
    by (simp add: fat_get_def fat_raw_def raw16_def mem16_def fat_val_def fat_limit_def GET16_def file_sb_fields)
  ultimately show ?thesis by (simp add: file_ok_def file_chain_def hint_ok_def sample_fid_def file_sb_fields)
qed

theorem ffsReadFile_contents_witness:
  "\<exists>s' fid'. ffsReadFile file_sb sample_fid 6 = Some (s', fid', [11, 11, 11, 11, 12, 12], Some 6, FFS_SUCCESS) \<and> rwoffset fid' = 1026"
proof -
  have c: "csize file_sb = 1024" "ssize file_sb = 512" by (simp_all add: csize_def ssize_def file_sb_fields)
  have s: "START_SECTOR file_sb 3 = 10" "START_SECTOR file_sb 4 = 12" by (simp_all add: START_SECTOR_def file_sb_fields)
  have b: "blk file_sb x = replicate 512 (ucast x)" if "x \<noteq> 1" for x using that by (simp add: file_sb_def)
  have bytes: "file_bytes file_sb [3, 4] 1020 6 = [11, 11, 11, 11, 12, 12]"
    by (simp add: file_bytes_def upt_rec file_byte_def file_pos_def c s b)
  have f: "fid_type sample_fid = TYPE_FILE" "fid_size sample_fid = 1030" "rwoffset sample_fid = 1020"
    by (simp_all add: sample_fid_def)
  obtain s' fid' where r: "ffsReadFile file_sb sample_fid 6 = Some (s', fid', [11, 11, 11, 11, 12, 12], Some 6, FFS_SUCCESS)"
    and e: "fid' = sample_fid\<lparr>rwoffset := 1026, hint_last_off := hint_last_off fid', hint_last_clu := hint_last_clu fid'\<rparr>"
    using ffsReadFile_contents [OF file_sb_ok, of 6] bytes by (auto simp: f c)
  have "rwoffset fid' = 1026" by (subst e) simp
  then show ?thesis using r by blast
qed

end
