(* ===== verification/FileWrite.thy ===== *)
theory FileWrite
  imports FileProps
begin

text \<open>
  Writing inside the clusters of a file: a round of the loop of \<open>ffsWriteFile\<close> changes the bytes of the file at the
  current position and no other block.
\<close>

section \<open>Volumes whose regions do not overlap\<close>

text \<open>The sectors of the data clusters are pairwise different and lie outside the table.\<close>

definition spc :: "sb \<Rightarrow> nat" where
  "spc s = csize s div ssize s"

definition data_ok :: "sb \<Rightarrow> bool" where
  "data_ok s \<longleftrightarrow> (\<forall>c k. 2 \<le> c \<longrightarrow> c < num_clusters s \<longrightarrow> k < spc s \<longrightarrow> START_SECTOR s c + of_nat k \<notin> fat_area s) \<and>
     (\<forall>c d k l. 2 \<le> c \<longrightarrow> c < num_clusters s \<longrightarrow> k < spc s \<longrightarrow> 2 \<le> d \<longrightarrow> d < num_clusters s \<longrightarrow> l < spc s \<longrightarrow>
        START_SECTOR s c + of_nat k = START_SECTOR s d + of_nat l \<longrightarrow> c = d \<and> k = l)"

text \<open>The blocks of a cluster, and of the clusters of a file.\<close>

definition clu_blocks :: "sb \<Rightarrow> u32 \<Rightarrow> u32 set" where
  "clu_blocks s c = (\<lambda>k. START_SECTOR s c + of_nat k) ` {..<spc s}"

definition file_area :: "sb \<Rightarrow> u32 list \<Rightarrow> u32 set" where
  "file_area s cs = \<Union> (clu_blocks s ` set cs)"

lemma csize_spc:
  assumes "dir_ok s"
  shows "csize s = spc s * ssize s" "0 < spc s"
  using csize_bounds [OF assms] by (auto simp: spc_def div_greater_zero_iff)

lemma sector_index:
  assumes "dir_ok s"
  shows "p div ssize s = p div csize s * spc s + p mod csize s div ssize s" "p mod csize s div ssize s < spc s"
proof -
  note c = csize_spc [OF assms] and b = csize_bounds [OF assms]
  have "p mod csize s < spc s * ssize s" using b(3) c(1) by (metis mod_less_divisor)
  then show "p mod csize s div ssize s < spc s" by (rule less_mult_imp_div_less)
  have "p = p mod csize s + ssize s * (p div csize s * spc s)"
    using div_mult_mod_eq [of p "csize s"] c(1) by (simp add: algebra_simps)
  then have "p div ssize s = (p mod csize s + ssize s * (p div csize s * spc s)) div ssize s" by simp
  also have "\<dots> = p div csize s * spc s + p mod csize s div ssize s" using b(4) by (simp only: div_mult_self2)
  finally show "p div ssize s = p div csize s * spc s + p mod csize s div ssize s" .
qed

lemma file_pos_block:
  assumes "dir_ok s" "p < length cs * csize s"
  shows "file_pos s cs p \<in> clu_blocks s (cs ! (p div csize s))" "cs ! (p div csize s) \<in> set cs" "file_pos s cs p \<in> file_area s cs"
proof -
  show 1: "file_pos s cs p \<in> clu_blocks s (cs ! (p div csize s))"
    using sector_index(2) [OF assms(1)] by (simp add: clu_blocks_def file_pos_def)
  show 2: "cs ! (p div csize s) \<in> set cs" using less_mult_imp_div_less [OF assms(2)] by simp
  show "file_pos s cs p \<in> file_area s cs" using 1 2 by (auto simp: file_area_def)
qed

lemma file_pos_inj:
  assumes "dir_ok s" "data_ok s" "distinct cs" "\<forall>c \<in> set cs. 2 \<le> c \<and> c < num_clusters s"
    "p < length cs * csize s" "q < length cs * csize s"
  shows "file_pos s cs p = file_pos s cs q \<longleftrightarrow> p div ssize s = q div ssize s"
proof
  note i = sector_index [OF assms(1)]
  have l: "p div csize s < length cs" "q div csize s < length cs" using assms(5,6) by (simp_all add: less_mult_imp_div_less)
  then have r: "2 \<le> cs ! (p div csize s)" "cs ! (p div csize s) < num_clusters s" "2 \<le> cs ! (q div csize s)" "cs ! (q div csize s) < num_clusters s"
    using assms(4) by simp_all
  {
    assume "file_pos s cs p = file_pos s cs q"
    then have "cs ! (p div csize s) = cs ! (q div csize s)" and k: "p mod csize s div ssize s = q mod csize s div ssize s"
      using assms(2) r i(2) unfolding data_ok_def file_pos_def by blast+
    then have "p div csize s = q div csize s" using nth_eq_iff_index_eq [OF assms(3) l] by simp
    with k show "p div ssize s = q div ssize s" unfolding i(1) [of p] i(1) [of q] by simp
  }
  assume e: "p div ssize s = q div ssize s"
  have "p div csize s = q div csize s"
    by (simp only: csize_spc(1) [OF assms(1)] mult.commute [of "spc s" "ssize s"] div_mult2_eq e)
  moreover have "p mod csize s div ssize s = q mod csize s div ssize s"
    using e calculation unfolding i(1) [of p] i(1) [of q] by simp
  ultimately show "file_pos s cs p = file_pos s cs q" by (simp add: file_pos_def)
qed

section \<open>Steps that keep the volume usable\<close>

lemma clu_frame_more:
  assumes "clu_frame s s'"
  shows "cluster_size_bits s' = cluster_size_bits s" "cluster_size s' = cluster_size s" "dentries_per_clu s' = dentries_per_clu s"
    "vol_flag s' = vol_flag s" "hint_uentry s' = hint_uentry s" "wall_clock s' = wall_clock s" "sys_tz s' = sys_tz s"
  by (subst assms [unfolded clu_frame_def], simp)+

lemma dir_ok_frame:
  assumes "dir_ok s" "clu_frame s s'" "tbl_ok s'" "the_buf_cache s' = the_buf_cache s"
  shows "dir_ok s'"
proof -
  note f = clu_frame_fields [OF assms(2)] clu_frame_more [OF assms(2)]
  have "buf_hash s' = buf_hash s" by (simp add: fun_eq_iff buf_hash_def f)
  then have "bufc.inv s' = bufc.inv s" by (rule buf_inv_cong [OF f(3) _ assms(4)])
  moreover have "free_entries s' = free_entries s" by (simp add: free_entries_def assms(4))
  ultimately show ?thesis using assms(1,3) clu_geom_frame [OF assms(2)] f by (simp add: dir_ok_def)
qed

lemma data_view:
  assumes "clu_frame s s'"
  shows "csize s' = csize s" "ssize s' = ssize s" "spc s' = spc s" "file_pos s' = file_pos s" "clu_blocks s' = clu_blocks s"
    "file_area s' = file_area s" "data_ok s' = data_ok s"
proof -
  note f = clu_frame_fields [OF assms] clu_frame_derived [OF assms] clu_frame_more [OF assms]
  show c: "csize s' = csize s" "ssize s' = ssize s" by (simp_all add: csize_def ssize_def f)
  then show p: "spc s' = spc s" by (simp add: spc_def)
  show "file_pos s' = file_pos s" by (simp add: fun_eq_iff file_pos_def c f)
  show b: "clu_blocks s' = clu_blocks s" by (simp add: fun_eq_iff clu_blocks_def p f)
  show "file_area s' = file_area s" by (simp add: fun_eq_iff file_area_def b)
  show "data_ok s' = data_ok s" by (simp add: data_ok_def p f)
qed

lemma store_dir_ok:
  assumes "dir_ok s" "\<forall>b. length (f b) = 2 ^ sector_size_bits s"
  shows "dir_ok (s\<lparr>blk := f, dirty := d\<rparr>)"
proof -
  let ?t = "s\<lparr>blk := f\<rparr>"
  have t: "dir_ok ?t" using dir_ok_blk [OF assms] .
  have c: "clu_frame ?t (?t\<lparr>dirty := d\<rparr>)" by (simp add: clu_frame_def)
  have "tbl_ok (?t\<lparr>dirty := d\<rparr>)" using table_view(3) [OF c] dir_ok_fields(1) [OF t] by simp
  then show ?thesis using dir_ok_frame [OF t c] by simp
qed

lemma fat_get_outside:
  assumes "clu_frame s s'" "only_in A s s'" "A \<inter> fat_area s = {}" "c < num_clusters s"
  shows "fat_get s' c = fat_get s c"
proof -
  note f = clu_frame_fields [OF assms(1)] clu_frame_derived [OF assms(1)]
  have "fat_mem s' p = fat_mem s p" if "p \<in> fat_span (vol_type s) (unat c)" for p
  proof -
    have "fat_sector s p \<in> fat_area s" using that assms(4) by (auto simp: fat_area_def word_less_nat_alt)
    then have "fat_sector s p \<notin> A" using assms(3) by blast
    then show ?thesis using assms(2) f by (simp add: fat_mem_def only_in_def)
  qed
  then have "fat_raw (vol_type s) (fat_mem s') (unat c) = fat_raw (vol_type s) (fat_mem s) (unat c)" by (rule fat.raw_cong)
  then show ?thesis by (simp add: fat_get_def f)
qed

section \<open>One block\<close>

definition block_stored :: "sb \<Rightarrow> u32 \<Rightarrow> nat \<Rightarrow> u8 list \<Rightarrow> sb" where
  "block_stored s sec off bytes = mark_buffer_dirty (poke sec off bytes (tick s)) sec"

lemma block_stored_fields:
  "blk (block_stored s sec off bytes) = (blk s)(sec := splice_at (blk s sec) off bytes)"
  "dirty (block_stored s sec off bytes) = (dirty s)(sec := True)" "clu_frame s (block_stored s sec off bytes)"
  "the_buf_cache (block_stored s sec off bytes) = the_buf_cache s" "clu_srch_ptr (block_stored s sec off bytes) = clu_srch_ptr s"
  by (simp_all add: block_stored_def mark_buffer_dirty_def poke_def tick_def clu_frame_def)

lemma block_stored_ok:
  assumes "dir_ok s" "off + length bytes \<le> ssize s"
  shows "dir_ok (block_stored s sec off bytes)" "only_in {sec} s (block_stored s sec off bytes)"
proof -
  have t: "dir_ok (tick s)" by (rule dir_ok_tick) fact
  have len: "\<forall>b. length (blk (tick s) b) = 2 ^ sector_size_bits (tick s)" using dir_ok_fields(4) [OF t] by (simp add: geom_def)
  have e: "block_stored s sec off bytes =
      (tick s)\<lparr>blk := (blk (tick s))(sec := splice_at (blk (tick s) sec) off bytes), dirty := (dirty s)(sec := True)\<rparr>"
    by (simp add: block_stored_def mark_buffer_dirty_def poke_def tick_def)
  show "dir_ok (block_stored s sec off bytes)" unfolding e
    by (rule store_dir_ok [OF t]) (use len assms(2) in \<open>auto simp: ssize_def tick_def\<close>)
  show "only_in {sec} s (block_stored s sec off bytes)" by (simp add: only_in_def block_stored_fields)
qed

lemma write_block_ok:
  assumes "dir_ok s" "\<not> out_of_range s sec"
  shows "write_block s fid sec (int off) n bytes bh = (block_stored s sec off bytes, Some sec, True)"
proof -
  have io: "io_ready s" using dir_ok_fields(3) [OF assms(1)] .
  let ?p = "poke sec off bytes (tick s)"
  have c: "clu_frame s ?p" by (simp add: clu_frame_def poke_def tick_def)
  have "io_ready ?p" "\<not> out_of_range ?p sec" using io assms(2) clu_frame_derived [OF c] by simp_all
  then have w: "sector_write ?p sec (Some sec) False = (block_stored s sec off bytes, FFS_SUCCESS)"
    by (simp add: sector_write_ok block_stored_def)
  show ?thesis unfolding write_block_def Let_def using w by (simp add: sector_read_ok [OF io assms(2)])
qed

text \<open>\<open>wrote s s' cs p bs\<close>: the bytes of the file \<open>cs\<close> from position \<open>p\<close> on are now \<open>bs\<close>, the others are as before.\<close>

definition wrote :: "sb \<Rightarrow> sb \<Rightarrow> u32 list \<Rightarrow> nat \<Rightarrow> u8 list \<Rightarrow> bool" where
  "wrote s s' cs p bs \<longleftrightarrow> (\<forall>q < length cs * csize s.
     file_byte s' cs q = (if p \<le> q \<and> q < p + length bs then bs ! (q - p) else file_byte s cs q))"

lemma wrote_trans:
  assumes "wrote s t cs p as" "wrote t u cs (p + length as) bs" "csize t = csize s"
  shows "wrote s u cs p (as @ bs)"
  using assms by (auto simp: wrote_def nth_append)

lemma wrote_same: "file_byte s' = file_byte s \<Longrightarrow> wrote s s' cs p []"
  by (auto simp: wrote_def)

lemma block_wrote:
  assumes "dir_ok s" "data_ok s" "distinct cs" "\<forall>c \<in> set cs. 2 \<le> c \<and> c < num_clusters s" "p < length cs * csize s"
    "length bytes \<le> ssize s - p mod ssize s"
  shows "wrote s (block_stored s (file_pos s cs p) (p mod ssize s) bytes) cs p bytes"
  unfolding wrote_def
proof (intro allI impI)
  let ?s = "block_stored s (file_pos s cs p) (p mod ssize s) bytes"
  note v = data_view [OF block_stored_fields(3), of s "file_pos s cs p" "p mod ssize s" bytes]
  have pm: "p mod ssize s < ssize s" using csize_bounds(4) [OF assms(1)] by simp
  have fits: "p mod ssize s + length bytes \<le> ssize s" using pm assms(6) by linarith
  have len: "length (blk s b) = ssize s" for b using dir_ok_fields(4) [OF assms(1)] by (simp add: geom_def ssize_def)
  fix q assume q: "q < length cs * csize s"
  have qm: "q mod ssize s < ssize s" using csize_bounds(4) [OF assms(1)] by simp
  note inj = file_pos_inj [OF assms(1-4) q assms(5)]
  show "file_byte ?s cs q = (if p \<le> q \<and> q < p + length bytes then bytes ! (q - p) else file_byte s cs q)"
  proof (cases "q div ssize s = p div ssize s")
    case True
    then have b: "file_pos s cs q = file_pos s cs p" using inj by simp
    have qp: "q = p div ssize s * ssize s + q mod ssize s" "p = p div ssize s * ssize s + p mod ssize s"
      using True div_mult_mod_eq [of q "ssize s"] div_mult_mod_eq [of p "ssize s"] by simp_all
    then have "q mod ssize s - p mod ssize s = q - p" "p mod ssize s \<le> q mod ssize s \<longleftrightarrow> p \<le> q"
      "q mod ssize s < p mod ssize s + length bytes \<longleftrightarrow> q < p + length bytes"
      by linarith+
    moreover have "splice_at (blk s (file_pos s cs p)) (p mod ssize s) bytes ! (q mod ssize s) =
        (if p mod ssize s \<le> q mod ssize s \<and> q mod ssize s < p mod ssize s + length bytes
         then bytes ! (q mod ssize s - p mod ssize s) else blk s (file_pos s cs p) ! (q mod ssize s))"
      by (rule nth_splice_at) (use fits qm in \<open>simp_all add: len\<close>)
    ultimately show ?thesis by (simp add: file_byte_def v b block_stored_fields)
  next
    case False
    then have b: "file_pos s cs q \<noteq> file_pos s cs p" using inj by simp
    have "\<not> (p \<le> q \<and> q < p + length bytes)"
    proof
      assume "p \<le> q \<and> q < p + length bytes"
      then have "q - p < ssize s - p mod ssize s" "q = p + (q - p)" using assms(6) by auto
      then have "file_pos s cs q = file_pos s cs p" using step_positions(1) [OF assms(1), of "q - p" p cs] by simp
      then show False using b by simp
    qed
    then show ?thesis using b by (auto simp: file_byte_def v block_stored_fields)
  qed
qed

section \<open>One round\<close>

definition writable :: "sb \<Rightarrow> FILE_ID_T \<Rightarrow> u32 list \<Rightarrow> bool" where
  "writable s fid cs \<longleftrightarrow> file_ok s fid cs \<and> data_ok s \<and> distinct cs \<and>
     (hint_last_off fid \<le> 0 \<or> nat (hint_last_off fid) < length cs)"

lemma writable_fields:
  assumes "writable s fid cs"
  shows "file_ok s fid cs" "data_ok s" "distinct cs" "dir_ok s" "file_chain s fid cs" "hint_ok fid cs"
    "\<forall>c \<in> set cs. 2 \<le> c \<and> c < num_clusters s"
  using assms by (auto simp: writable_def file_ok_def file_chain_def)

text \<open>What the identifier looks like after \<open>n\<close> more bytes.\<close>

definition fid_wrote :: "FILE_ID_T \<Rightarrow> nat \<Rightarrow> nat \<Rightarrow> FILE_ID_T \<Rightarrow> bool" where
  "fid_wrote fid p n fid' \<longleftrightarrow> rwoffset fid' = int (p + n) \<and> unat (fid_size fid') = max (unat (fid_size fid)) (p + n) \<and>
     fid_attr fid' = fid_attr fid OR ATTR_ARCHIVE \<and> fid_type fid' = fid_type fid \<and> fid_dir fid' = fid_dir fid \<and>
     fid_entry fid' = fid_entry fid"

lemma fid_wrote_trans:
  assumes "fid_wrote fid p m fid1" "fid_wrote fid1 (p + m) n fid2"
  shows "fid_wrote fid p (m + n) fid2"
  using assms by (auto simp: fid_wrote_def or.assoc)

lemma file_area_mono: "set cs \<subseteq> set ds \<Longrightarrow> file_area s cs \<subseteq> file_area s ds"
  by (auto simp: file_area_def)

lemma file_area_outside:
  assumes "dir_ok s" "data_ok s" "\<forall>c \<in> set cs. 2 \<le> c \<and> c < num_clusters s"
  shows "file_area s cs \<inter> fat_area s = {}"
  using assms by (auto simp: file_area_def clu_blocks_def data_ok_def)

lemma file_chain_frame:
  assumes "file_chain s fid cs" "num_clusters s' = num_clusters s" "\<And>c. c < num_clusters s \<Longrightarrow> fat_get s' c = fat_get s c"
    "start_clu fid' = start_clu fid" "fid_flags fid' = fid_flags fid"
  shows "file_chain s' fid' cs"
  using assms by (auto simp: file_chain_def split: if_splits)

text \<open>The part of a round after its cluster is known.\<close>

lemma block_round:
  assumes w: "writable s fid cs" and rw: "rwoffset fid = int p" and lt: "p < length cs * csize s" and c0: "count \<noteq> 0"
    and buf: "written + unat count \<le> length buffer"
  defines "clu \<equiv> cs ! (p div csize s)" and "n \<equiv> min (ssize s - p mod ssize s) (unat count)"
  obtains s' fid' where
    "file_sector s (set_hint s fid clu) clu = (file_pos s cs p, int (p mod ssize s))"
    "one_block s (int (p mod ssize s)) count = of_nat n" "unat (of_nat n :: u64) = n" "0 < n" "n \<le> unat count"
    "write_block s (set_hint s fid clu) (file_pos s cs p) (int (p mod ssize s)) (of_nat n) (slice_at buffer written n) bh
       = (s', Some (file_pos s cs p), True)"
    "write_done (set_hint s fid clu) (of_nat n) modified = (fid', modified \<or> unat (fid_size fid) < p + n)"
    "writable s' fid' cs" "clu_frame s s'" "only_in (file_area s cs) s s'" "clu_srch_ptr s' = clu_srch_ptr s"
    "wrote s s' cs p (slice_at buffer written n)" "fid_wrote fid p n fid'" "fid_flags fid' = fid_flags fid" "start_clu fid' = start_clu fid"
    "\<And>c. c < num_clusters s \<Longrightarrow> fat_get s' c = fat_get s c"
proof -
  note o = writable_fields [OF w]
  define fid1 where "fid1 = set_hint s fid clu"
  have rw1: "rwoffset fid1 = int p" by (simp add: fid1_def set_hint_def rw)
  have p56: "p < 2 ^ 56" using file_pos_bound(2) [OF o(1) lt] .
  have pm: "p mod ssize s < ssize s" using csize_bounds(4) [OF o(4)] by simp
  have n1: "n \<le> ssize s - p mod ssize s" "n \<le> unat count" by (simp_all add: n_def)
  then have n4: "n \<le> 4096" using csize_bounds(6) [OF o(4)] by simp
  have npos: "0 < n" using pm c0 by (simp add: n_def unat_gt_0)
  have un: "unat (of_nat n :: u64) = n" using n4 by (simp add: unat_of_nat)
  have toN: "to_s64 (of_nat n) = int n" using to_s64_nat [of "of_nat n"] un n4 by simp
  let ?bs = "slice_at buffer written n"
  have lb: "length ?bs = n" using buf n1(2) by simp
  let ?s' = "block_stored s (file_pos s cs p) (p mod ssize s) ?bs"
  have fits: "p mod ssize s + length ?bs \<le> ssize s" using lb n1(1) pm by linarith
  have fs: "file_sector s fid1 clu = (file_pos s cs p, int (p mod ssize s))"
    using file_sector_eq [OF o(4) rw1] by (simp add: file_pos_def clu_def)
  have ob: "one_block s (int (p mod ssize s)) count = of_nat n"
    by (rule unat_word) (use one_block_eq [OF o(4)] in \<open>simp add: n_def\<close>)
  have wb: "write_block s fid1 (file_pos s cs p) (int (p mod ssize s)) (of_nat n) ?bs bh = (?s', Some (file_pos s cs p), True)"
    by (rule write_block_ok [OF o(4) file_pos_in_range [OF o(1) lt]])
  define fid' where "fid' = fst (write_done fid1 (of_nat n) modified)"
  have u: "unat (of_s64 (int (p + n))) = p + n" using of_s64_nat [of "p + n"] p56 n4 by simp
  have wd: "write_done fid1 (of_nat n) modified = (fid', modified \<or> unat (fid_size fid) < p + n)"
    and fw: "fid_wrote fid p n fid'" and fl: "fid_flags fid' = fid_flags fid" "start_clu fid' = start_clu fid"
    and hl: "hint_last_off fid' = hint_last_off fid1" "hint_last_clu fid' = hint_last_clu fid1"
  proof -
    have sz: "fid_size fid1 = fid_size fid" "fid_flags fid1 = fid_flags fid" "start_clu fid1 = start_clu fid" "fid_attr fid1 = fid_attr fid"
      by (simp_all add: fid1_def set_hint_def)
    have rn: "rwoffset fid1 + to_s64 (of_nat n) = int (p + n)" by (simp add: rw1 toN)
    have e: "of_s64 (int p + int n) = of_nat p + of_nat n" by (simp add: of_s64_def)
    have f: "write_done fid1 (of_nat n) modified =
        (if unat (fid_size fid) < p + n
         then (fid1\<lparr>rwoffset := int (p + n), fid_attr := fid_attr fid OR ATTR_ARCHIVE, fid_size := of_nat (p + n)\<rparr>, True)
         else (fid1\<lparr>rwoffset := int (p + n), fid_attr := fid_attr fid OR ATTR_ARCHIVE\<rparr>, modified))"
      unfolding write_done_def Let_def rn using u by (simp add: sz word_less_nat_alt) (simp add: e)
    show "write_done fid1 (of_nat n) modified = (fid', modified \<or> unat (fid_size fid) < p + n)"
      unfolding fid'_def f by simp
    show "fid_flags fid' = fid_flags fid" "start_clu fid' = start_clu fid" "hint_last_off fid' = hint_last_off fid1" "hint_last_clu fid' = hint_last_clu fid1"
      unfolding fid'_def f by (simp_all add: sz)
    have "unat (of_nat p + of_nat n :: u64) = p + n" using p56 n4 by (simp add: unat_of_nat flip: of_nat_add)
    then show "fid_wrote fid p n fid'"
      unfolding fid_wrote_def fid'_def f by (simp add: fid1_def set_hint_def max_def)
  qed
  note bs = block_stored_ok [OF o(4) fits, of "file_pos s cs p"] and bf = block_stored_fields(3,5) [of s "file_pos s cs p" "p mod ssize s" ?bs]
  note v = data_view [OF bf(1)] and cf = clu_frame_fields [OF bf(1)]
  have inn: "file_pos s cs p \<in> file_area s cs" by (rule file_pos_block(3) [OF o(4) lt])
  have oi: "only_in (file_area s cs) s ?s'" by (rule only_in_mono [OF bs(2)]) (use inn in simp)
  have fg: "fat_get ?s' c = fat_get s c" if "c < num_clusters s" for c
    by (rule fat_get_outside [OF bf(1) oi file_area_outside [OF o(4,2,7)] that])
  have ch: "file_chain ?s' fid' cs" by (rule file_chain_frame [OF o(5) _ fg fl(2,1)]) (use cf in simp_all)
  have "hint_last_off fid1 = int (p div csize s)" by (simp add: fid1_def set_hint_def clu_index_eq [OF o(1) rw lt])
  then have hin: "nat (hint_last_off fid') < length cs" using file_pos_bound(1) [OF o(1) lt] by (simp add: hl)
  have "hint_ok fid1 cs" unfolding fid1_def clu_def by (rule set_hint_ok [OF o(1) rw lt])
  then have "hint_ok fid' cs" by (simp add: hint_ok_def hl)
  then have "writable ?s' fid' cs" using ch bs(1) v o(2,3) hin by (simp add: writable_def file_ok_def)
  then show thesis
    by (rule that [OF fs [unfolded fid1_def] ob un npos n1(2) wb [unfolded fid1_def] wd [unfolded fid1_def] _ bf(1) oi bf(2) _ fw fl fg])
      (rule block_wrote [OF o(4,2,3,7) lt], simp add: lb n1(1))
qed

section \<open>Rounds inside the allocated clusters\<close>

text \<open>Everything a number of rounds keeps and does.\<close>

definition wrote_step :: "sb \<Rightarrow> FILE_ID_T \<Rightarrow> u32 list \<Rightarrow> nat \<Rightarrow> u8 list \<Rightarrow> sb \<Rightarrow> FILE_ID_T \<Rightarrow> bool" where
  "wrote_step s fid cs p bs s' fid' \<longleftrightarrow> writable s' fid' cs \<and> clu_frame s s' \<and> only_in (fat_area s \<union> file_area s cs) s s' \<and>
     wrote s s' cs p bs \<and> fid_wrote fid p (length bs) fid' \<and> fid_flags fid' = fid_flags fid \<and> start_clu fid' = start_clu fid \<and>
     clu_srch_ptr s' = clu_srch_ptr s \<and> (\<forall>c < num_clusters s. fat_get s' c = fat_get s c)"

lemma wrote_step_trans:
  assumes "wrote_step s fid cs p as t fid1" "wrote_step t fid1 cs (p + length as) bs u fid2"
  shows "wrote_step s fid cs p (as @ bs) u fid2"
proof -
  have f: "clu_frame s t" "clu_frame t u" using assms by (simp_all add: wrote_step_def)
  note v = data_view [OF f(1)] and d = clu_frame_fields [OF f(1)] clu_frame_derived [OF f(1)]
  have a: "fat_area t = fat_area s" by (simp add: fat_area_def fat_sector_def fun_eq_iff d)
  have "only_in (fat_area s \<union> file_area s cs) s u"
    using assms by (intro only_in_trans [of _ s t u]) (simp_all add: wrote_step_def a v)
  moreover have "wrote s u cs p (as @ bs)" using assms v by (intro wrote_trans [of s t cs p "as" u bs]) (simp_all add: wrote_step_def)
  moreover have "fid_wrote fid p (length (as @ bs)) fid2"
    using assms fid_wrote_trans [of fid p "length as" fid1 "length bs" fid2] by (simp add: wrote_step_def)
  ultimately show ?thesis using assms clu_frame_trans [OF f] d by (simp add: wrote_step_def)
qed

text \<open>The walk to the cluster of the position, which may be the end of the chain.\<close>

lemma walk_last_chain:
  assumes "dir_ok s" "\<forall>c \<in> set cs. 2 \<le> c \<and> c < num_clusters s" "\<forall>i. Suc i < length cs \<longrightarrow> fat_get s (cs ! i) = cs ! Suc i"
    "k < length cs" "k + n \<le> length cs" "k + n = length cs \<Longrightarrow> fat_get s (last cs) = CLUSTER_EOF"
  shows "\<exists>s'. walk_last n s (cs ! k) l0 =
      (s', Some (if k + n = length cs then CLUSTER_EOF else cs ! (k + n), if n = 0 then l0 else cs ! (k + n - 1))) \<and>
    dir_ok s' \<and> vol_eq s s' \<and> fat_get s' = fat_get s"
  using assms
proof (induction n arbitrary: s k l0)
  case 0
  then show ?case by auto
next
  case (Suc n)
  have k: "cs ! k < num_clusters s" using Suc.prems by auto
  then have eof: "cs ! k \<noteq> CLUSTER_EOF" using below_EOF by blast
  obtain s1 where s1: "FAT_read s (cs ! k) = (s1, Some (fat_get s (cs ! k)))" "dir_ok s1" "vol_eq s s1" "fat_get s1 = fat_get s"
    using read_dir [OF Suc.prems(1) k] by metis
  have nc: "num_clusters s1 = num_clusters s" using same_volume_fields(13) [OF vol_eq_same [OF s1(3)]] .
  show ?case
  proof (cases "Suc k = length cs")
    case True
    then have "last cs = cs ! k" by (metis diff_Suc_1 last_conv_nth length_0_conv nat.simps(3))
    then have "fat_get s (cs ! k) = CLUSTER_EOF" "n = 0" using Suc.prems(5,6) True by simp_all
    then show ?thesis using s1 eof True [symmetric] by simp
  next
    case False
    then have kl: "Suc k < length cs" using Suc.prems(4) by simp
    then have g: "fat_get s (cs ! k) = cs ! Suc k" using Suc.prems(3) by blast
    obtain s' where s': "walk_last n s1 (cs ! Suc k) (cs ! k) =
        (s', Some (if Suc k + n = length cs then CLUSTER_EOF else cs ! (Suc k + n), if n = 0 then cs ! k else cs ! (Suc k + n - 1)))"
      "dir_ok s'" "vol_eq s1 s'" "fat_get s' = fat_get s1"
      using Suc.IH [OF s1(2), of "Suc k" "cs ! k"] Suc.prems s1(4) kl nc by auto
    then show ?thesis using s1 eof g vol_eq_trans [OF s1(3) s'(3)] by auto
  qed
qed

lemma write_cluster_ok:
  assumes "writable s fid cs" "rwoffset fid = int p" "p < length cs * csize s" "fid_flags fid = 0x03 \<Longrightarrow> int (length cs) \<le> clusters"
  obtains s' l where "write_cluster s fid (clu_index s fid) clusters = (s', Some (cs ! (p div csize s), l))"
    "dir_ok s'" "vol_eq s s'" "fat_get s' = fat_get s"
proof -
  note o = writable_fields [OF assms(1)]
  note k = file_pos_bound(1) [OF o(1) assms(3)] and i = clu_index_eq [OF o(1) assms(2,3)]
  have ne: "cs \<noteq> []" using k by auto
  then have hd: "start_clu fid = hd cs" using o(5) by (simp add: file_chain_def)
  then have eof: "start_clu fid \<noteq> CLUSTER_EOF" using o(7) ne below_EOF by (metis hd_in_set)
  show thesis
  proof (cases "fid_flags fid = 0x03")
    case True
    then have "cs ! (p div csize s) = start_clu fid + of_nat (p div csize s)" using o(5) k by (simp add: file_chain_def)
    then show thesis
      using that [of s] o(4) True eof k assms(4) by (cases "p div csize s = 0") (simp_all add: write_cluster_def i of_s32_def Let_def)
  next
    case False
    obtain j n where j: "chain_start fid (int (p div csize s)) = (int n, cs ! j)" "j + n = p div csize s"
      using chain_start_ok [OF o(6) ne hd k] by blast
    obtain s' where "walk_last n s (cs ! j) (start_clu fid) =
        (s', Some (cs ! (j + n), if n = 0 then start_clu fid else cs ! (j + n - 1)))" "dir_ok s'" "vol_eq s s'" "fat_get s' = fat_get s"
      using walk_last_chain [OF o(4,7), of j n "start_clu fid"] o(5) False k j(2) by (auto simp: file_chain_def)
    then show thesis using that False j by (simp add: write_cluster_def i)
  qed
qed

lemma writable_vol_eq:
  assumes "writable s fid cs" "vol_eq s s'" "dir_ok s'" "fat_get s' = fat_get s"
  shows "writable s' fid cs"
proof -
  have "file_chain s' fid cs"
    using file_chain_cong [OF _ same_volume_fields(13) [OF vol_eq_same [OF assms(2)]] assms(4), of fid cs fid] writable_fields(5) [OF assms(1)]
    by simp
  then show ?thesis using assms(1,3) data_view(7) [OF vol_clu_frame [OF assms(2)]] by (simp add: writable_def file_ok_def)
qed

lemma write_round:
  assumes w: "writable s fid cs" and rw: "rwoffset fid = int p" and lt: "p < length cs * csize s" and c0: "count \<noteq> 0"
    and buf: "written + unat count \<le> length buffer" and cl: "fid_flags fid = 0x03 \<Longrightarrow> int (length cs) \<le> clusters"
  defines "n \<equiv> min (ssize s - p mod ssize s) (unat count)"
  obtains s' fid' where
    "write_loop s fid buffer count written modified clusters na bh =
       write_loop s' fid' buffer (count - of_nat n) (written + n) (modified \<or> unat (fid_size fid) < p + n) clusters na (Some (file_pos s cs p))"
    "wrote_step s fid cs p (slice_at buffer written n) s' fid'" "0 < n" "n \<le> unat count"
proof -
  obtain s1 l where s1: "write_cluster s fid (clu_index s fid) clusters = (s1, Some (cs ! (p div csize s), l))"
    "dir_ok s1" "vol_eq s s1" "fat_get s1 = fat_get s"
    using write_cluster_ok [OF w rw lt cl] by blast
  have w1: "writable s1 fid cs" by (rule writable_vol_eq [OF w s1(3,2,4)])
  have f: "clu_frame s s1" by (rule vol_clu_frame [OF s1(3)])
  note v = data_view [OF f] and g = clu_frame_fields [OF f]
  let ?clu = "cs ! (p div csize s)"
  have "p < length cs * csize s1" using lt v by simp
  note round = block_round [OF w1 rw this c0 buf, of bh modified, unfolded v, folded n_def]
  obtain s' fid' where r:
    "file_sector s1 (set_hint s1 fid ?clu) ?clu = (file_pos s cs p, int (p mod ssize s))"
    "one_block s1 (int (p mod ssize s)) count = of_nat n" "unat (of_nat n :: u64) = n" "0 < n" "n \<le> unat count"
    "write_block s1 (set_hint s1 fid ?clu) (file_pos s cs p) (int (p mod ssize s)) (of_nat n) (slice_at buffer written n) bh
       = (s', Some (file_pos s cs p), True)"
    "write_done (set_hint s1 fid ?clu) (of_nat n) modified = (fid', modified \<or> unat (fid_size fid) < p + n)"
    and t: "writable s' fid' cs" "clu_frame s1 s'" "only_in (file_area s cs) s1 s'" "clu_srch_ptr s' = clu_srch_ptr s1"
    "wrote s1 s' cs p (slice_at buffer written n)" "fid_wrote fid p n fid'" "fid_flags fid' = fid_flags fid" "start_clu fid' = start_clu fid"
    "\<And>c. c < num_clusters s1 \<Longrightarrow> fat_get s' c = fat_get s1 c"
    by (rule round) (rule that)
  have eof: "?clu \<noteq> CLUSTER_EOF"
    using writable_fields(7) [OF w] file_pos_bound(1) [OF writable_fields(1) [OF w] lt] below_EOF by (metis nth_mem)
  have loop: "write_loop s fid buffer count written modified clusters na bh =
       write_loop s' fid' buffer (count - of_nat n) (written + n) (modified \<or> unat (fid_size fid) < p + n) clusters na (Some (file_pos s cs p))"
    using c0 by (subst write_loop.simps) (simp add: s1(1) eof r Let_def)
  have "file_byte s1 = file_byte s" using file_view(4) [OF s1(3)] .
  then have "wrote s s' cs p (slice_at buffer written n)" using t(5) v by (simp add: wrote_def)
  moreover have "only_in (fat_area s \<union> file_area s cs) s s'"
  proof (rule only_in_trans)
    show "only_in (fat_area s \<union> file_area s cs) s s1"
      using same_volume_fields [OF vol_eq_same [OF s1(3)]] vol_eq_fields [OF s1(3)] by (intro only_in_same) simp_all
    show "only_in (fat_area s \<union> file_area s cs) s1 s'" by (rule only_in_mono [OF t(3)]) simp
  qed
  moreover have "length (slice_at buffer written n) = n" using buf r(5) by simp
  ultimately have "wrote_step s fid cs p (slice_at buffer written n) s' fid'"
    using t clu_frame_trans [OF f t(2)] s1(4) g same_volume_fields [OF vol_eq_same [OF s1(3)]] by (simp add: wrote_step_def)
  then show thesis by (rule that [OF loop _ r(4,5)])
qed

lemma slice_at_add: "slice_at xs i (m + n) = slice_at xs i m @ slice_at xs (i + m) n"
  by (simp add: slice_at_def take_add add.commute)

lemma next_block_le:
  assumes "dir_ok s" "p < l * csize s"
  shows "ssize s - p mod ssize s \<le> l * csize s - p"
proof -
  have e: "l * csize s = l * spc s * ssize s" by (simp only: csize_spc(1) [OF assms(1)] mult.assoc)
  then have "p div ssize s < l * spc s" using assms(2) by (simp only: less_mult_imp_div_less)
  then have "(p div ssize s + 1) * ssize s \<le> l * csize s" unfolding e by (intro mult_le_mono1) simp
  then have "p div ssize s * ssize s + ssize s \<le> l * csize s" by simp
  moreover have "p = p div ssize s * ssize s + p mod ssize s" by simp
  ultimately show ?thesis by linarith
qed

text \<open>Rounds up to the end of the request or of the clusters.\<close>

lemma write_rounds:
  assumes "writable s fid cs" "rwoffset fid = int p" "0 < m" "m \<le> unat count" "p + m \<le> length cs * csize s"
    "m = unat count \<or> p + m = length cs * csize s" "written + unat count \<le> length buffer"
    "fid_flags fid = 0x03 \<Longrightarrow> int (length cs) \<le> clusters"
  shows "\<exists>s' fid' bh'. write_loop s fid buffer count written modified clusters na bh =
      write_loop s' fid' buffer (count - of_nat m) (written + m) (modified \<or> unat (fid_size fid) < p + m) clusters na bh' \<and>
    wrote_step s fid cs p (slice_at buffer written m) s' fid'"
  using assms
proof (induction m arbitrary: s fid p count written modified bh rule: less_induct)
  case (less m)
  note o = writable_fields [OF less.prems(1)]
  have lt: "p < length cs * csize s" using less.prems(3,5) by simp
  have c0: "count \<noteq> 0" using less.prems(3,4) by auto
  define n where "n = min (ssize s - p mod ssize s) (unat count)"
  obtain s1 fid1 where r: "write_loop s fid buffer count written modified clusters na bh =
      write_loop s1 fid1 buffer (count - of_nat n) (written + n) (modified \<or> unat (fid_size fid) < p + n) clusters na (Some (file_pos s cs p))"
    and w: "wrote_step s fid cs p (slice_at buffer written n) s1 fid1" and n: "0 < n" "n \<le> unat count"
    using write_round [OF less.prems(1,2) lt c0 less.prems(7,8), folded n_def] by blast
  have nm: "n \<le> m"
  proof (cases "m = unat count")
    case False
    then have "m = length cs * csize s - p" using less.prems(6) by linarith
    then show ?thesis using next_block_le [OF o(4) lt] by (simp add: n_def)
  qed (simp add: n(2))
  show ?case
  proof (cases "n = m")
    case True
    then show ?thesis using r w by blast
  next
    case False
    have un: "unat (of_nat n :: u64) = n" using n(2) order.strict_trans1 [OF n(2) unsigned_less [of count]] by (simp add: unat_of_nat)
    have c: "unat (count - of_nat n) = unat count - n" using n(2) un by (simp add: unat_sub word_le_nat_alt)
    have lb: "length (slice_at buffer written n) = n" using less.prems(7) n(2) by simp
    have w1: "writable s1 fid1 cs" "rwoffset fid1 = int (p + n)" "fid_flags fid1 = fid_flags fid"
      "unat (fid_size fid1) = max (unat (fid_size fid)) (p + n)" and f: "clu_frame s s1"
      using w lb by (simp_all add: wrote_step_def fid_wrote_def)
    note v = data_view [OF f]
    have lt1: "m - n < m" and pos: "0 < m - n" using n(1) nm False by simp_all
    have le1: "m - n \<le> unat (count - of_nat n)" "written + n + unat (count - of_nat n) \<le> length buffer"
      using c less.prems(4,7) n(2) by simp_all
    have le2: "p + n + (m - n) \<le> length cs * csize s1" using less.prems(5) nm v by simp
    have eq: "m - n = unat (count - of_nat n) \<or> p + n + (m - n) = length cs * csize s1" using less.prems(6) nm c v by auto
    obtain s2 fid2 bh2 where i: "write_loop s1 fid1 buffer (count - of_nat n) (written + n) (modified \<or> unat (fid_size fid) < p + n) clusters na (Some (file_pos s cs p)) =
        write_loop s2 fid2 buffer (count - of_nat n - of_nat (m - n)) (written + n + (m - n))
          ((modified \<or> unat (fid_size fid) < p + n) \<or> unat (fid_size fid1) < p + n + (m - n)) clusters na bh2"
      and w2: "wrote_step s1 fid1 cs (p + n) (slice_at buffer (written + n) (m - n)) s2 fid2"
      using less.IH [OF lt1 w1(1,2) pos le1(1) le2 eq le1(2)] less.prems(8) w1(3) by metis
    have "count - of_nat n - of_nat (m - n) = count - of_nat m" using nm by (simp add: of_nat_diff)
    moreover have "((modified \<or> unat (fid_size fid) < p + n) \<or> unat (fid_size fid1) < p + n + (m - n)) = (modified \<or> unat (fid_size fid) < p + m)"
      using w1(4) nm False by auto
    moreover have "wrote_step s fid cs p (slice_at buffer written m) s2 fid2"
      using wrote_step_trans [OF w, of "slice_at buffer (written + n) (m - n)" s2 fid2] w2 lb slice_at_add [of buffer written n "m - n"] nm
      by simp
    ultimately show ?thesis using r i nm by (intro exI [of _ s2] exI [of _ fid2] exI [of _ bh2]) simp
  qed
qed

end
