(* ===== verification/FileGrow.thy ===== *)
theory FileGrow
  imports FileWrite
begin

text \<open>
  Writes that make a file longer, on volumes of the FAT family: the round of the loop that finds no cluster for the
  position allocates all that the rest of the request needs and links them behind the last one.  \<open>grew\<close> says what
  such rounds do, and \<open>write_loop_ok\<close> that the whole loop does it.
\<close>

section \<open>The round that appends clusters\<close>

lemma chain_file:
  assumes "dir_ok s" "vol_type s \<noteq> EXFAT" "is_chain (fat_get s) (start_clu fid) cs" "fid_flags fid \<noteq> 0x03"
    "\<forall>c \<in> set cs. 2 \<le> c \<and> c < num_clusters s"
  shows "file_chain s fid cs"
proof -
  have "set cs \<subseteq> {x. 2 \<le> x \<and> x < num_clusters s}" using assms(5) by auto
  then have "length cs \<le> data_clusters s" by (rule few_clusters [OF is_chain_distinct [OF assms(3)]])
  moreover have "num_clusters s \<le> 0x0FFFFFF8"
    using dir_ok_fields(1) [OF assms(1)] assms(2) by (cases "vol_type s") (auto simp: tbl_ok_def fat_limit_def intro: order.trans)
  then have "unat (num_clusters s) \<le> 0x0FFFFFF8" by (simp add: word_le_nat_alt)
  ultimately have "length cs < 2 ^ 31" by (simp add: data_clusters_def)
  moreover have "fat_get s (cs ! i) = cs ! Suc i" if "Suc i < length cs" for i
  proof -
    have "cs = take i cs @ cs ! i # cs ! Suc i # drop (Suc (Suc i)) cs" using that by (simp add: Cons_nth_drop_Suc)
    then show ?thesis using is_chain_step assms(3) by metis
  qed
  moreover have "cs \<noteq> [] \<longrightarrow> start_clu fid = hd cs" using assms(3) by (cases cs) auto
  ultimately show ?thesis using assms(4,5) by (simp add: file_chain_def)
qed

lemma grow_chain:
  assumes w: "writable s fid cs" and ch: "is_chain (fat_get s) (start_clu fid) cs" and t: "vol_type s \<noteq> EXFAT" and fl: "fid_flags fid = 0x01"
    and ptr: "2 \<le> clu_srch_ptr s" "clu_srch_ptr s < num_clusters s"
    and k: "1 \<le> k" "k \<le> card {c. 2 \<le> c \<and> c < num_clusters s \<and> fat_get s c = 0}"
  defines "l \<equiv> if cs = [] then CLUSTER_EOF else last cs"
  obtains s2 new s3 fid3 taken where
    "alloc_cluster s (int k) (new_chain fid l) = Some (s2, new, int k)"
    "append_clusters s2 fid clusters l new modified = (s3, fid3, modified \<or> cs = [])"
    "ch_dir new = hd taken" "length taken = k" "fid3 = fid\<lparr>start_clu := start_clu fid3\<rparr>"
    "writable s3 fid3 (cs @ taken)" "is_chain (fat_get s3) (start_clu fid3) (cs @ taken)" "clu_frame s s3" "only_in (fat_area s) s s3"
    "\<And>c. c \<notin> set (cs @ taken) \<Longrightarrow> fat_get s3 c = fat_get s c" "\<And>c. c \<in> set taken \<Longrightarrow> fat_get s c = 0"
    "2 \<le> clu_srch_ptr s3" "clu_srch_ptr s3 < num_clusters s"
proof -
  note o = writable_fields [OF w]
  have tok: "tbl_ok s" using dir_ok_fields(1) [OF o(4)] .
  have lr: "2 \<le> l \<and> l < num_clusters s" if "cs \<noteq> []" using o(7) that by (simp add: l_def)
  let ?p = "new_chain fid l"
  have l1: "2 \<le> l + 1 \<and> l + 1 \<noteq> CLUSTER_EOF" if "cs \<noteq> []"
  proof -
    have "num_clusters s \<le> 0x0FFFFFF8"
      using tok t by (cases "vol_type s") (auto simp: tbl_ok_def fat_limit_def intro: order.trans)
    then have "unat l < 0x0FFFFFF8" "2 \<le> unat l" using lr [OF that] by (simp_all add: word_le_nat_alt word_less_nat_alt)
    moreover from this have "unat (l + 1) = Suc (unat l)" by (simp add: unat_word_ariths)
    ultimately show ?thesis by (auto simp: word_le_nat_alt word_unat_eq_iff)
  qed
  have po: "ptr_ok s ?p"
    using ptr l1 by (cases "cs = []") (auto simp: ptr_ok_def new_chain_def l_def below_EOF)
  define taken where "taken = fat_taken s k ?p"
  note tp = fat_taken_props [OF tok po, where k = k, folded taken_def]
  have lt: "length taken = k" using tp(3) k(2) by simp
  then have ne: "taken \<noteq> []" using k(1) by auto
  obtain s2 where s2: "fat_alloc_cluster s (int k) ?p = (s2, with_first (?p\<lparr>ch_dir := CLUSTER_EOF\<rparr>) taken, int (length taken))"
    "tbl_ok s2" "clu_frame s s2" "fat_get s2 = link_all (fat_get s) taken" "only_in (fat_area s) s s2" "the_buf_cache s2 = the_buf_cache s"
    and p2: "2 \<le> clu_srch_ptr s2 \<and> clu_srch_ptr s2 < num_clusters s"
    using fat_alloc_cluster_ok [OF tok po k(1)] unfolding taken_def by metis
  define new where "new = ?p\<lparr>ch_dir := hd taken\<rparr>"
  have nw: "with_first (?p\<lparr>ch_dir := CLUSTER_EOF\<rparr>) taken = new" by (simp add: with_first_def new_def ne)
  have al: "alloc_cluster s (int k) ?p = Some (s2, new, int k)" by (simp add: alloc_cluster_def t s2(1) lt nw)
  note f2 = clu_frame_fields [OF s2(3)] clu_frame_derived [OF s2(3)]
  have hd: "hd taken \<in> set taken" using ne by simp
  have eofs: "CLUSTER_EOF \<notin> set taken" using tp(2) below_EOF by blast
  have tch: "is_chain (fat_get s2) (hd taken) taken" unfolding s2(4) by (rule link_all_chain [OF tp(1) eofs ne])
  have fresh: "c \<notin> set taken" if inc: "c \<in> set cs" for c
  proof
    assume "c \<in> set taken"
    then have "fat_get s c = 0" using tp(2) by blast
    obtain us vs where cs: "cs = us @ c # vs" using inc by (auto simp: in_set_conv_decomp)
    then have "is_chain (fat_get s) c (c # vs)" using ch is_chain_append by metis
    then have "is_chain (fat_get s) 0 vs" using \<open>fat_get s c = 0\<close> by simp
    then have "vs \<noteq> []" "hd vs = 0" by (cases vs; simp)+
    then show False using o(7) cs by (cases vs) auto
  qed
  have cs2: "is_chain (fat_get s2) (start_clu fid) cs"
    using ch fresh is_chain_cong [of cs "fat_get s2" "fat_get s" "start_clu fid"] by (simp add: s2(4) link_all_outside)
  have "\<exists>s3 fid3. append_clusters s2 fid clusters l new modified = (s3, fid3, modified \<or> cs = []) \<and> fid3 = fid\<lparr>start_clu := start_clu fid3\<rparr> \<and>
      tbl_ok s3 \<and> clu_frame s s3 \<and> only_in (fat_area s) s s3 \<and> the_buf_cache s3 = the_buf_cache s \<and> clu_srch_ptr s3 = clu_srch_ptr s2 \<and>
      is_chain (fat_get s3) (start_clu fid3) (cs @ taken) \<and> (\<forall>c. c \<notin> set (cs @ taken) \<longrightarrow> fat_get s3 c = fat_get s c)"
  proof (cases "cs = []")
    case True
    then show ?thesis
      using s2 tch fl by (intro exI [of _ s2] exI [of _ "fid\<lparr>start_clu := hd taken\<rparr>"])
        (auto simp: append_clusters_def l_def new_def new_chain_def link_all_outside)
  next
    case False
    have lne: "l \<noteq> CLUSTER_EOF" "l < num_clusters s2" using lr [OF False] below_EOF f2 by auto
    have "hd taken < num_clusters s2" using tp(2) hd f2 by simp
    then obtain s3 where s3: "FAT_write s2 l (hd taken) = (s3, 0)" "tbl_ok s3" "fat_frame s2 s3" "fat_get s3 = (fat_get s2)(l := hd taken)"
      "only_in (fat_area s2) s2 s3"
      using table_write [OF s2(2) lne(2)] by metis
    have fa: "fat_area s2 = fat_area s" by (simp add: fat_area_def fat_sector_def fun_eq_iff f2)
    have "is_chain ((fat_get s2)(last cs := hd taken)) (start_clu fid) (cs @ taken)"
      by (rule is_chain_splice [OF cs2 False tch ne]) (use fresh False in simp)
    moreover have "clu_frame s s3" using clu_frame_trans [OF s2(3) fat_clu_frame [OF s3(3)]] .
    moreover have "only_in (fat_area s) s s3" using only_in_trans [OF s2(5)] s3(5) fa by simp
    moreover have "the_buf_cache s3 = the_buf_cache s" "clu_srch_ptr s3 = clu_srch_ptr s2" using fat_frame_fields(4,23) [OF s3(3)] s2(6) by simp_all
    moreover have "fat_get s3 c = fat_get s c" if "c \<notin> set (cs @ taken)" for c
      using that False by (auto simp: s3(4) l_def s2(4) link_all_outside)
    ultimately show ?thesis
      using s3 False lne(1) fl by (intro exI [of _ s3] exI [of _ fid]) (auto simp: append_clusters_def new_def new_chain_def l_def)
  qed
  then obtain s3 fid3 where ap: "append_clusters s2 fid clusters l new modified = (s3, fid3, modified \<or> cs = [])" "fid3 = fid\<lparr>start_clu := start_clu fid3\<rparr>"
    and s3: "tbl_ok s3" "clu_frame s s3" "only_in (fat_area s) s s3" "the_buf_cache s3 = the_buf_cache s"
    "is_chain (fat_get s3) (start_clu fid3) (cs @ taken)" "\<forall>c. c \<notin> set (cs @ taken) \<longrightarrow> fat_get s3 c = fat_get s c"
    "clu_srch_ptr s3 = clu_srch_ptr s2"
    by blast
  note f3 = clu_frame_fields [OF s3(2)] clu_frame_derived [OF s3(2)]
  have d3: "dir_ok s3" by (rule dir_ok_frame [OF o(4) s3(2,1,4)])
  have r3: "\<forall>c \<in> set (cs @ taken). 2 \<le> c \<and> c < num_clusters s3" using o(7) tp(2) f3 by auto
  have fl3: "fid_flags fid3 = 0x01" "hint_last_off fid3 = hint_last_off fid" "hint_last_clu fid3 = hint_last_clu fid"
    by (subst ap(2), simp add: fl)+
  have "file_chain s3 fid3 (cs @ taken)" by (rule chain_file [OF d3 _ s3(5) _ r3]) (use t f3 fl3 in simp_all)
  moreover have "hint_ok fid3 (cs @ taken) \<and> (hint_last_off fid3 \<le> 0 \<or> nat (hint_last_off fid3) < length (cs @ taken))"
    using w o(6) fl3 by (auto simp: hint_ok_def writable_def nth_append)
  moreover have "data_ok s3" using data_view(7) [OF s3(2)] o(2) by simp
  ultimately have "writable s3 fid3 (cs @ taken)" using d3 is_chain_distinct [OF s3(5)] by (simp add: writable_def file_ok_def)
  then show thesis
    using that [OF al ap(1) _ lt ap(2) _ s3(5,2,3)] s3(6,7) tp(2) p2 by (simp add: new_def)
qed

definition srch_ok :: "sb \<Rightarrow> bool" where
  "srch_ok s \<longleftrightarrow> 2 \<le> clu_srch_ptr s \<and> clu_srch_ptr s < num_clusters s"

text \<open>What rounds do that may append clusters: \<open>cs'\<close> are the clusters of the file afterwards.\<close>

definition grew :: "sb \<Rightarrow> FILE_ID_T \<Rightarrow> u32 list \<Rightarrow> nat \<Rightarrow> u8 list \<Rightarrow> sb \<Rightarrow> FILE_ID_T \<Rightarrow> u32 list \<Rightarrow> bool" where
  "grew s fid cs p bs s' fid' cs' \<longleftrightarrow> writable s' fid' cs' \<and> is_chain (fat_get s') (start_clu fid') cs' \<and> fid_flags fid' = fid_flags fid \<and>
     clu_frame s s' \<and> only_in (fat_area s \<union> file_area s cs') s s' \<and> wrote s s' cs' p bs \<and> fid_wrote fid p (length bs) fid' \<and>
     (\<exists>new. cs' = cs @ new \<and> (\<forall>c \<in> set new. fat_get s c = 0)) \<and> (srch_ok s \<longrightarrow> srch_ok s') \<and>
     (\<forall>c. c < num_clusters s \<longrightarrow> c \<notin> set cs' \<longrightarrow> fat_get s' c = fat_get s c)"

lemma file_byte_frame:
  assumes "clu_frame s s'" "only_in A s s'" "file_pos s cs q \<notin> A"
  shows "file_byte s' cs q = file_byte s cs q"
  using assms data_view [OF assms(1)] by (simp add: file_byte_def only_in_def)

lemma wrote_after_frame:
  assumes "dir_ok s" "data_ok s" "\<forall>c \<in> set cs. 2 \<le> c \<and> c < num_clusters s" "clu_frame s t" "only_in (fat_area s) s t" "wrote t u cs p bs"
  shows "wrote s u cs p bs"
proof -
  have "file_byte t cs q = file_byte s cs q" if "q < length cs * csize s" for q
    using file_byte_frame [OF assms(4,5)] file_pos_block(3) [OF assms(1) that] file_area_outside [OF assms(1-3)] by blast
  then show ?thesis using assms(6) data_view [OF assms(4)] by (auto simp: wrote_def)
qed

lemma grew_frame:
  assumes "dir_ok s" "data_ok s" "\<forall>c \<in> set cs'. 2 \<le> c \<and> c < num_clusters s" "clu_frame s t" "only_in (fat_area s) s t"
    "wrote_step t fid1 cs' p bs u fid2" "is_chain (fat_get t) (start_clu fid1) cs'" "cs' = cs @ new" "\<forall>c \<in> set new. fat_get s c = 0"
    "\<And>c. c < num_clusters s \<Longrightarrow> c \<notin> set cs' \<Longrightarrow> fat_get t c = fat_get s c" "fid_flags fid1 = fid_flags fid"
    "fid_wrote fid p (length bs) fid2" "srch_ok s \<longrightarrow> srch_ok t"
  shows "grew s fid cs p bs u fid2 cs'"
proof -
  note v = data_view [OF assms(4)] and f = clu_frame_fields [OF assms(4)] clu_frame_derived [OF assms(4)]
  have fa: "fat_area t = fat_area s" by (simp add: fat_area_def fat_sector_def fun_eq_iff f)
  have c: "writable u fid2 cs'" "clu_frame t u" "only_in (fat_area s \<union> file_area s cs') t u" "wrote t u cs' p bs"
    "fid_flags fid2 = fid_flags fid1" "start_clu fid2 = start_clu fid1" "\<forall>c < num_clusters s. fat_get u c = fat_get t c"
    "srch_ok t \<Longrightarrow> srch_ok u"
    using assms(6) clu_frame_fields(11) [of t u] by (simp_all add: wrote_step_def fa v f srch_ok_def)
  have "is_chain (fat_get u) (start_clu fid2) cs'"
    using assms(3,7) c(6,7) is_chain_cong [of cs' "fat_get u" "fat_get t" "start_clu fid2"] by auto
  moreover have "only_in (fat_area s \<union> file_area s cs') s u"
    by (rule only_in_trans [OF only_in_mono [OF assms(5)] c(3)]) simp
  moreover have "wrote s u cs' p bs" by (rule wrote_after_frame [OF assms(1-5) c(4)])
  ultimately show ?thesis
    unfolding grew_def using c clu_frame_trans [OF assms(4) c(2)] assms(8-13) by simp
qed

lemma wrote_step_grew:
  assumes "writable s fid cs" "wrote_step s fid cs p bs u fid2" "is_chain (fat_get s) (start_clu fid) cs"
  shows "grew s fid cs p bs u fid2 cs"
proof -
  note o = writable_fields [OF assms(1)]
  have r: "clu_frame s s" "only_in (fat_area s) s s" by (simp_all add: clu_frame_refl only_in_same)
  have "fid_wrote fid p (length bs) fid2" using assms(2) by (simp add: wrote_step_def)
  then show ?thesis by (intro grew_frame [OF o(4,2,7) r assms(2,3), of cs "[]" fid]) simp_all
qed

lemma clu_index_at:
  assumes "rwoffset fid = int p" "p div csize s < 2 ^ 31"
  shows "clu_index s fid = int (p div csize s)"
proof -
  have "drop_bit (unat (cluster_size_bits s)) (int p) = int (p div csize s)"
    unfolding csize_def by (rule drop_bit_int)
  moreover have "s32_of (int (p div csize s)) = int (p div csize s)" using assms(2) by (intro s32_of_small) auto
  ultimately show ?thesis by (simp add: clu_index_def assms(1))
qed

lemma write_cluster_end:
  assumes "writable s fid cs" "is_chain (fat_get s) (start_clu fid) cs" "fid_flags fid \<noteq> 0x03"
  obtains s' where "write_cluster s fid (int (length cs)) clusters = (s', Some (CLUSTER_EOF, if cs = [] then CLUSTER_EOF else last cs))"
    "dir_ok s'" "vol_eq s s'" "fat_get s' = fat_get s"
proof (cases "cs = []")
  case True
  then have "start_clu fid = CLUSTER_EOF" using assms(2) by simp
  then show thesis using that [of s] True writable_fields(4) [OF assms(1)] assms(3) by (simp add: write_cluster_def chain_start_def)
next
  case False
  note o = writable_fields [OF assms(1)]
  have hd: "start_clu fid = hd cs" using o(5) False by (simp add: file_chain_def)
  have h: "0 < hint_last_off fid \<Longrightarrow> nat (hint_last_off fid) < length cs" using assms(1) by (auto simp: writable_def)
  then have hint: "0 < hint_last_off fid \<Longrightarrow> hint_last_clu fid = cs ! nat (hint_last_off fid)" using o(6) by (simp add: hint_ok_def)
  obtain j n where j: "chain_start fid (int (length cs)) = (int n, cs ! j)" "j + n = length cs" "j < length cs"
  proof (cases "0 < hint_last_off fid \<and> hint_last_off fid \<le> int (length cs)")
    case True
    then show thesis
      using h hint False by (intro that [of "length cs - nat (hint_last_off fid)" "nat (hint_last_off fid)"]) (auto simp: chain_start_def of_nat_diff)
  next
    case none: False
    then show thesis using hd False by (intro that [of "length cs" 0]) (auto simp: chain_start_def hd_conv_nth)
  qed
  have l: "fat_get s (last cs) = CLUSTER_EOF" by (rule is_chain_last [OF assms(2) False])
  have ls: "\<forall>i. Suc i < length cs \<longrightarrow> fat_get s (cs ! i) = cs ! Suc i" using o(5) assms(3) by (simp add: file_chain_def)
  have "0 < n" using j by linarith
  moreover have "last cs = cs ! (j + n - 1)" using last_conv_nth [OF False] j(2) by simp
  ultimately obtain s' where "walk_last n s (cs ! j) (start_clu fid) = (s', Some (CLUSTER_EOF, last cs))" "dir_ok s'" "vol_eq s s'" "fat_get s' = fat_get s"
    using walk_last_chain [OF o(4,7) ls j(3), of n "start_clu fid"] j(2) l by auto
  then show thesis using that [of s'] j(1) assms(3) False by (simp add: write_cluster_def)
qed

lemma clusters_needed:
  assumes "dir_ok s" "count \<noteq> 0" "(unat count - 1) div csize s < 2 ^ 31"
  shows "s32_of (uint (drop_bit (unat (cluster_size_bits s)) (count - 1 :: u64))) + 1 = int ((unat count - 1) div csize s + 1)"
proof -
  have "unat (count - 1) = unat count - 1" using assms(2) by (simp add: unat_minus_one)
  then have "uint (drop_bit (unat (cluster_size_bits s)) (count - 1)) = int ((unat count - 1) div csize s)"
    by (simp add: uint_nat unat_drop_bit csize_def)
  moreover have "s32_of (int ((unat count - 1) div csize s)) = int ((unat count - 1) div csize s)"
    by (rule s32_of_small) (use assms(3) in auto)
  ultimately show ?thesis by simp
qed

text \<open>A volume of the FAT family with a linked file, and enough free clusters for \<open>n\<close> more bytes.\<close>

definition growable :: "sb \<Rightarrow> FILE_ID_T \<Rightarrow> u32 list \<Rightarrow> bool" where
  "growable s fid cs \<longleftrightarrow> writable s fid cs \<and> is_chain (fat_get s) (start_clu fid) cs \<and> vol_type s \<noteq> EXFAT \<and> fid_flags fid = 0x01 \<and>
     2 \<le> clu_srch_ptr s \<and> clu_srch_ptr s < num_clusters s \<and> unat (fid_size fid) \<le> length cs * csize s"

definition free_count :: "sb \<Rightarrow> nat" where
  "free_count s = card {c. 2 \<le> c \<and> c < num_clusters s \<and> fat_get s c = 0}"

lemma free_count_bound:
  assumes "vol_type s \<noteq> EXFAT" "dir_ok s"
  shows "free_count s < 2 ^ 31"
proof -
  have "num_clusters s \<le> 0x0FFFFFF8"
    using dir_ok_fields(1) [OF assms(2)] assms(1) by (cases "vol_type s") (auto simp: tbl_ok_def fat_limit_def intro: order.trans)
  then have b: "unat (num_clusters s) \<le> 0x0FFFFFF8" by (simp add: word_le_nat_alt)
  have "free_count s = card (unat ` {c. 2 \<le> c \<and> c < num_clusters s \<and> fat_get s c = 0})"
    unfolding free_count_def by (rule card_image [symmetric], rule inj_on_subset [OF inj_unat]) simp
  also have "\<dots> \<le> card {..<unat (num_clusters s)}" by (rule card_mono) (auto simp: word_less_nat_alt)
  finally show ?thesis using b by simp
qed

lemma grow_round:
  assumes g: "growable s fid cs" and rw: "rwoffset fid = int p" and p: "p = length cs * csize s" and c0: "count \<noteq> 0"
    and buf: "written + unat count \<le> length buffer" and k: "k = (unat count - 1) div csize s + 1" "k \<le> free_count s"
  obtains s' fid' taken n bh' where
    "write_loop s fid buffer count written modified clusters na bh =
       write_loop s' fid' buffer (count - of_nat n) (written + n) True (clusters + int k) (int k) bh'"
    "grew s fid cs p (slice_at buffer written n) s' fid' (cs @ taken)" "length taken = k" "0 < n" "n \<le> unat count"
proof -
  have w: "writable s fid cs" and ch: "is_chain (fat_get s) (start_clu fid) cs" and t: "vol_type s \<noteq> EXFAT" and fl: "fid_flags fid = 0x01"
    and ptr: "2 \<le> clu_srch_ptr s" "clu_srch_ptr s < num_clusters s" and sz: "unat (fid_size fid) \<le> p"
    using g by (simp_all add: growable_def p)
  note o = writable_fields [OF w]
  let ?l = "if cs = [] then CLUSTER_EOF else last cs"
  have cb: "0 < csize s" using csize_bounds(3) [OF o(4)] .
  have "length cs < 2 ^ 31" using o(5) by (simp add: file_chain_def)
  then have ci: "clu_index s fid = int (length cs)" using clu_index_at [OF rw] cb by (simp add: p)
  obtain s1 where s1: "write_cluster s fid (int (length cs)) clusters = (s1, Some (CLUSTER_EOF, ?l))" "dir_ok s1" "vol_eq s s1" "fat_get s1 = fat_get s"
    using write_cluster_end [OF w ch] fl by auto
  have w1: "writable s1 fid cs" by (rule writable_vol_eq [OF w s1(3,2,4)])
  have f1: "clu_frame s s1" by (rule vol_clu_frame [OF s1(3)])
  note v1 = data_view [OF f1] and d1 = clu_frame_fields [OF f1]
  have p1: "clu_srch_ptr s1 = clu_srch_ptr s" using same_volume_fields [OF vol_eq_same [OF s1(3)]] by simp
  have k1: "1 \<le> k" "k \<le> card {c. 2 \<le> c \<and> c < num_clusters s1 \<and> fat_get s1 c = 0}"
    using k by (simp_all add: free_count_def s1(4) d1)
  have need: "s32_of (uint (drop_bit (unat (cluster_size_bits s1)) (count - 1))) + 1 = int k"
    using clusters_needed [OF s1(2) c0] free_count_bound [OF t o(4)] k v1 by simp
  have ch1: "is_chain (fat_get s1) (start_clu fid) cs" using ch s1(4) by simp
  have t1: "vol_type s1 \<noteq> EXFAT" "2 \<le> clu_srch_ptr s1" "clu_srch_ptr s1 < num_clusters s1" using t ptr p1 d1 by simp_all
  note grow = grow_chain [OF w1 ch1 t1(1) fl t1(2,3) k1, of clusters modified]
  obtain s2 new s3 fid3 taken where g2:
    "alloc_cluster s1 (int k) (new_chain fid ?l) = Some (s2, new, int k)"
    "append_clusters s2 fid clusters ?l new modified = (s3, fid3, modified \<or> cs = [])"
    "ch_dir new = hd taken" "length taken = k" "fid3 = fid\<lparr>start_clu := start_clu fid3\<rparr>"
    and w3: "writable s3 fid3 (cs @ taken)" and ch3: "is_chain (fat_get s3) (start_clu fid3) (cs @ taken)"
    and f13: "clu_frame s1 s3" "only_in (fat_area s1) s1 s3"
    and fg: "\<And>c. c \<notin> set (cs @ taken) \<Longrightarrow> fat_get s3 c = fat_get s1 c" "\<And>c. c \<in> set taken \<Longrightarrow> fat_get s1 c = 0"
    and srch: "2 \<le> clu_srch_ptr s3" "clu_srch_ptr s3 < num_clusters s1"
    by (rule grow) (rule that)
  have f3: "clu_frame s s3" by (rule clu_frame_trans [OF f1 f13(1)])
  note v3 = data_view [OF f3] and d3 = clu_frame_fields [OF f3] clu_frame_derived [OF f3]
  have fa: "fat_area s1 = fat_area s" using clu_frame_derived [OF f1] d1 by (simp add: fat_area_def fat_sector_def fun_eq_iff)
  have oi: "only_in (fat_area s) s s3"
  proof (rule only_in_trans)
    show "only_in (fat_area s) s s1"
      using same_volume_fields [OF vol_eq_same [OF s1(3)]] vol_eq_fields [OF s1(3)] by (intro only_in_same) simp_all
    show "only_in (fat_area s) s1 s3" using f13(2) fa by simp
  qed
  have fid3: "fid_size fid3 = fid_size fid" "rwoffset fid3 = int p" "fid_attr fid3 = fid_attr fid" "fid_type fid3 = fid_type fid"
    "fid_dir fid3 = fid_dir fid" "fid_entry fid3 = fid_entry fid" "fid_flags fid3 = fid_flags fid"
    by (subst g2(5), simp add: rw)+
  have tn: "taken \<noteq> []" using g2(4) k1(1) by auto
  define n where "n = min (ssize s - p mod ssize s) (unat count)"
  have pd: "p div csize s = length cs" using cb by (simp add: p)
  have clu: "(cs @ taken) ! (p div csize s) = ch_dir new" using tn by (simp add: pd nth_append g2(3) hd_conv_nth)
  have lt: "p < length (cs @ taken) * csize s3" using tn cb v3 by (simp add: p)
  note round = block_round [OF w3 fid3(2) lt c0 buf, of bh "modified \<or> cs = []", unfolded v3, folded n_def, unfolded clu]
  obtain s' fid' where r:
    "file_sector s3 (set_hint s3 fid3 (ch_dir new)) (ch_dir new) = (file_pos s (cs @ taken) p, int (p mod ssize s))"
    "one_block s3 (int (p mod ssize s)) count = of_nat n" "unat (of_nat n :: u64) = n" "0 < n" "n \<le> unat count"
    "write_block s3 (set_hint s3 fid3 (ch_dir new)) (file_pos s (cs @ taken) p) (int (p mod ssize s)) (of_nat n) (slice_at buffer written n) bh
       = (s', Some (file_pos s (cs @ taken) p), True)"
    "write_done (set_hint s3 fid3 (ch_dir new)) (of_nat n) (modified \<or> cs = []) = (fid', (modified \<or> cs = []) \<or> unat (fid_size fid3) < p + n)"
    and q: "writable s' fid' (cs @ taken)" "clu_frame s3 s'" "only_in (file_area s (cs @ taken)) s3 s'"
    "clu_srch_ptr s' = clu_srch_ptr s3"
    "wrote s3 s' (cs @ taken) p (slice_at buffer written n)" "fid_wrote fid3 p n fid'" "fid_flags fid' = fid_flags fid3" "start_clu fid' = start_clu fid3"
    "\<And>c. c < num_clusters s3 \<Longrightarrow> fat_get s' c = fat_get s3 c"
    by (rule round) (rule that)
  have lb: "length (slice_at buffer written n) = n" using buf r(5) by simp
  have m: "(modified \<or> cs = []) \<or> unat (fid_size fid3) < p + n" using sz r(4) fid3(1) by simp
  have loop: "write_loop s fid buffer count written modified clusters na bh =
       write_loop s' fid' buffer (count - of_nat n) (written + n) True (clusters + int k) (int k) (Some (file_pos s (cs @ taken) p))"
    using c0 k1(1) m by (subst write_loop.simps) (simp add: ci s1(1) need g2(1,2) r Let_def)
  have fa3: "fat_area s3 = fat_area s" using d3 by (simp add: fat_area_def fat_sector_def fun_eq_iff)
  have fv3: "file_area s3 = file_area s" using v3 by simp
  have step: "wrote_step s3 fid3 (cs @ taken) p (slice_at buffer written n) s' fid'"
    using q lb by (simp add: wrote_step_def fv3) (rule only_in_mono, assumption, simp)
  have "grew s fid cs p (slice_at buffer written n) s' fid' (cs @ taken)"
  proof (rule grew_frame [OF o(4,2) _ f3 oi step ch3 refl])
    show "\<forall>c \<in> set (cs @ taken). 2 \<le> c \<and> c < num_clusters s" using writable_fields(7) [OF w3] d3 by simp
    show "fid_wrote fid p (length (slice_at buffer written n)) fid'" using q(6) lb fid3 by (simp add: fid_wrote_def)
  qed (use fg s1(4) fid3 srch d1 d3 in \<open>simp_all add: srch_ok_def\<close>)
  then show thesis by (rule that [OF loop _ g2(4) r(4,5)])
qed

section \<open>The loop\<close>

lemma file_pos_append: "p < length cs * csize s \<Longrightarrow> file_pos s (cs @ ds) p = file_pos s cs p"
  by (simp add: file_pos_def nth_append less_mult_imp_div_less)

lemma new_bytes_kept:
  assumes "dir_ok s" "data_ok s" "distinct (cs @ new)" "\<forall>c \<in> set (cs @ new). 2 \<le> c \<and> c < num_clusters s"
    "clu_frame s t" "only_in (fat_area s \<union> file_area s cs) s t" "length cs * csize s \<le> q" "q < length (cs @ new) * csize s"
  shows "file_byte t (cs @ new) q = file_byte s (cs @ new) q"
proof (rule file_byte_frame [OF assms(5,6)])
  have cb: "0 < csize s" using csize_bounds(3) [OF assms(1)] .
  let ?c = "(cs @ new) ! (q div csize s)"
  have i: "length cs \<le> q div csize s" "q div csize s < length (cs @ new)"
    using assms(7,8) cb by (simp_all add: less_eq_div_iff_mult_less_eq less_mult_imp_div_less del: length_append)
  then have "?c \<in> set new" by (simp add: nth_append)
  then have out: "?c \<notin> set cs" using assms(3) by auto
  note b = file_pos_block [OF assms(1,8)]
  have "file_pos s (cs @ new) q \<notin> fat_area s" using b(3) file_area_outside [OF assms(1,2,4)] by blast
  moreover have "file_pos s (cs @ new) q \<notin> file_area s cs"
  proof
    assume "file_pos s (cs @ new) q \<in> file_area s cs"
    then obtain d k l where d: "d \<in> set cs" "k < spc s" "l < spc s" "START_SECTOR s ?c + of_nat l = START_SECTOR s d + of_nat k"
      using b(1) unfolding file_area_def clu_blocks_def by auto
    moreover have "2 \<le> ?c" "?c < num_clusters s" "2 \<le> d" "d < num_clusters s" using assms(4) b(2) d(1) by auto
    ultimately have "?c = d" using assms(2) unfolding data_ok_def by metis
    then show False using d(1) out by simp
  qed
  ultimately show "file_pos s (cs @ new) q \<notin> fat_area s \<union> file_area s cs" by simp
qed

lemma grew_trans:
  assumes w: "writable s fid cs" and a: "grew s fid cs p as t fid1 ds" and b: "grew t fid1 ds (p + length as) bs u fid2 es"
    and le: "p + length as \<le> length ds * csize s"
  shows "grew s fid cs p (as @ bs) u fid2 es"
proof -
  note o = writable_fields [OF w]
  have f: "clu_frame s t" "clu_frame t u" using a b by (simp_all add: grew_def)
  note v = data_view [OF f(1)] and d = clu_frame_fields [OF f(1)] clu_frame_derived [OF f(1)] and e = clu_frame_fields [OF f(2)]
  have fa: "fat_area t = fat_area s" by (simp add: fat_area_def fat_sector_def fun_eq_iff d)
  obtain new where new: "ds = cs @ new" "\<forall>c \<in> set new. fat_get s c = 0" using a by (auto simp: grew_def)
  obtain more where more: "es = ds @ more" "\<forall>c \<in> set more. fat_get t c = 0" using b by (auto simp: grew_def)
  have wu: "writable u fid2 es" using b by (simp add: grew_def)
  have rng: "\<forall>c \<in> set es. 2 \<le> c \<and> c < num_clusters s" using writable_fields(7) [OF wu] d e by simp
  have dist: "distinct es" using writable_fields(3) [OF wu] .
  have "fat_get s c = 0" if "c \<in> set more" for c
  proof -
    have "c \<notin> set ds" "c < num_clusters s" using that dist rng more(1) by auto
    then have "fat_get t c = fat_get s c" using a unfolding grew_def by blast
    moreover have "fat_get t c = 0" using that more(2) by blast
    ultimately show ?thesis by simp
  qed
  then have 1: "\<exists>new. es = cs @ new \<and> (\<forall>c \<in> set new. fat_get s c = 0)"
    using new more by (intro exI [of _ "new @ more"]) auto
  have sub: "fat_area s \<union> file_area s ds \<subseteq> fat_area s \<union> file_area s es" using file_area_mono [of ds es s] more(1) by auto
  have oi: "only_in (fat_area s \<union> file_area s ds) s t" using a by (simp add: grew_def)
  have 2: "only_in (fat_area s \<union> file_area s es) s u"
    by (rule only_in_trans [OF only_in_mono [OF oi sub]]) (use b in \<open>simp add: grew_def fa v\<close>)
  have "wrote s t es p as" unfolding wrote_def
  proof (intro allI impI)
    fix q assume q: "q < length es * csize s"
    show "file_byte t es q = (if p \<le> q \<and> q < p + length as then as ! (q - p) else file_byte s es q)"
    proof (cases "q < length ds * csize s")
      case True
      then have "file_byte t es q = file_byte t ds q" "file_byte s es q = file_byte s ds q"
        using file_pos_append [of q ds t more] file_pos_append [of q ds s more] v more(1) by (simp_all add: file_byte_def)
      then show ?thesis using a True by (simp add: grew_def wrote_def)
    next
      case False
      then have "\<not> q < p + length as" using le by simp
      moreover have "file_byte t es q = file_byte s es q"
        unfolding more(1) by (rule new_bytes_kept [OF o(4,2) _ _ f(1) oi]) (use dist rng q False more(1) in simp_all)
      ultimately show ?thesis by simp
    qed
  qed
  then have 3: "wrote s u es p (as @ bs)" by (rule wrote_trans) (use b v in \<open>simp_all add: grew_def\<close>)
  have 4: "fid_wrote fid p (length (as @ bs)) fid2"
    using a b fid_wrote_trans [of fid p "length as" fid1 "length bs" fid2] by (simp add: grew_def)
  have 5: "fat_get u c = fat_get s c" if "c < num_clusters s" "c \<notin> set es" for c
    using that a b d more(1) by (auto simp: grew_def)
  show ?thesis using 1 2 3 4 5 a b clu_frame_trans [OF f] by (simp add: grew_def)
qed

text \<open>The clusters that a write of \<open>n\<close> bytes at position \<open>p\<close> needs beyond those of the file.\<close>

definition extra_clusters :: "sb \<Rightarrow> u32 list \<Rightarrow> nat \<Rightarrow> nat \<Rightarrow> nat" where
  "extra_clusters s cs p n = (if p + n \<le> length cs * csize s then 0 else (p + n - length cs * csize s - 1) div csize s + 1)"

lemma write_tail:
  assumes "writable s fid cs" "is_chain (fat_get s) (start_clu fid) cs" "fid_flags fid \<noteq> 0x03" "rwoffset fid = int p"
    "p + unat count \<le> length cs * csize s" "written + unat count \<le> length buffer" "modified \<or> unat count \<noteq> 0"
  shows "\<exists>s' fid'. write_loop s fid buffer count written modified clusters na bh =
      Some (s', fid', written + unat count, modified \<or> unat (fid_size fid) < p + unat count, na, Loop_end) \<and>
    (if count = 0 then s' = s \<and> fid' = fid else grew s fid cs p (slice_at buffer written (unat count)) s' fid' cs)"
proof (cases "count = 0")
  case True
  then show ?thesis using assms(7) by (subst write_loop.simps) simp
next
  case False
  then have pos: "0 < unat count" by (simp add: unat_gt_0)
  obtain s' fid' bh' where l: "write_loop s fid buffer count written modified clusters na bh =
      write_loop s' fid' buffer (count - of_nat (unat count)) (written + unat count) (modified \<or> unat (fid_size fid) < p + unat count) clusters na bh'"
    and w: "wrote_step s fid cs p (slice_at buffer written (unat count)) s' fid'"
    using write_rounds [OF assms(1,4) pos order.refl assms(5) _ assms(6)] assms(3) by blast
  have "write_loop s fid buffer count written modified clusters na bh =
      Some (s', fid', written + unat count, modified \<or> unat (fid_size fid) < p + unat count, na, Loop_end)"
    unfolding l by (subst write_loop.simps) simp
  then show ?thesis using wrote_step_grew [OF assms(1) w assms(2)] False by auto
qed

lemma slice_all: "slice_at xs 0 n = take n xs"
  by (simp add: slice_at_def)

text \<open>The rounds up to the end of the clusters, and those behind it.\<close>

lemma write_to_end:
  assumes g: "growable s fid cs" and rw: "rwoffset fid = int p" and m: "p + m = length cs * csize s" "0 < m" "m < unat count"
    and buf: "unat count \<le> length buffer"
  obtains s1 fid1 bh1 mo where
    "write_loop s fid buffer count 0 False clusters na bh = write_loop s1 fid1 buffer (count - of_nat m) m mo clusters na bh1"
    "grew s fid cs p (take m buffer) s1 fid1 cs" "growable s1 fid1 cs" "free_count s1 = free_count s"
proof -
  have w: "writable s fid cs" and ch: "is_chain (fat_get s) (start_clu fid) cs" and fl: "fid_flags fid = 0x01"
    and sz: "unat (fid_size fid) \<le> length cs * csize s"
    using g by (simp_all add: growable_def)
  have mo: "m = unat count \<or> p + m = length cs * csize s" using m(1) by simp
  have b: "0 + unat count \<le> length buffer" using buf by simp
  have f3: "fid_flags fid = 0x03 \<Longrightarrow> int (length cs) \<le> clusters" for clusters using fl by simp
  obtain s1 fid1 bh1 where l: "write_loop s fid buffer count 0 False clusters na bh =
      write_loop s1 fid1 buffer (count - of_nat m) (0 + m) (False \<or> unat (fid_size fid) < p + m) clusters na bh1"
    and st: "wrote_step s fid cs p (slice_at buffer 0 m) s1 fid1"
    using write_rounds [OF w rw m(2) less_imp_le [OF m(3)] eq_imp_le [OF m(1)] mo b f3] by blast
  have gr: "grew s fid cs p (take m buffer) s1 fid1 cs" using wrote_step_grew [OF w st ch] by (simp add: slice_all)
  then have f: "clu_frame s s1" by (simp add: grew_def)
  note v = data_view [OF f] and d = clu_frame_fields [OF f]
  have fg: "fat_get s1 c = fat_get s c" if "c < num_clusters s" for c using st that by (simp add: wrote_step_def)
  then have fc: "free_count s1 = free_count s" unfolding free_count_def d by (intro arg_cong [where f = card]) auto
  have "length (take m buffer) = m" using buf m(3) by simp
  then have "unat (fid_size fid1) \<le> length cs * csize s" using gr sz m(1) by (simp add: grew_def fid_wrote_def)
  moreover have "clu_srch_ptr s1 = clu_srch_ptr s" using st by (simp add: wrote_step_def)
  ultimately have "growable s1 fid1 cs" using g gr v d by (simp add: growable_def grew_def)
  then show thesis using that l gr fc by simp
qed

lemma write_behind:
  assumes g: "growable s fid cs" and rw: "rwoffset fid = int (length cs * csize s)" and c0: "count \<noteq> 0"
    and buf: "written + unat count \<le> length buffer" and k: "k = (unat count - 1) div csize s + 1" "k \<le> free_count s"
  shows "\<exists>s' fid' taken na'. write_loop s fid buffer count written modified clusters na bh =
      Some (s', fid', written + unat count, True, na', Loop_end) \<and> na' \<noteq> 0 \<and>
    grew s fid cs (length cs * csize s) (slice_at buffer written (unat count)) s' fid' (cs @ taken) \<and> length taken = k"
proof -
  define p where "p = length cs * csize s"
  have w: "writable s fid cs" and fl: "fid_flags fid = 0x01" using g by (simp_all add: growable_def)
  note o = writable_fields [OF w]
  have cb: "0 < csize s" using csize_bounds(3) [OF o(4)] .
  obtain s1 fid1 taken n bh1 where l: "write_loop s fid buffer count written modified clusters na bh =
       write_loop s1 fid1 buffer (count - of_nat n) (written + n) True (clusters + int k) (int k) bh1"
    and gr: "grew s fid cs p (slice_at buffer written n) s1 fid1 (cs @ taken)" and lt: "length taken = k" and n: "0 < n" "n \<le> unat count"
    using grow_round [OF g rw refl c0 buf k] unfolding p_def by metis
  have un: "unat (of_nat n :: u64) = n" using n(2) order.strict_trans1 [OF n(2) unsigned_less [of count]] by (simp add: unat_of_nat)
  have c: "unat (count - of_nat n) = unat count - n" using n(2) un by (simp add: unat_sub word_le_nat_alt)
  have lb: "length (slice_at buffer written n) = n" using buf n(2) by simp
  have w1: "writable s1 fid1 (cs @ taken)" "is_chain (fat_get s1) (start_clu fid1) (cs @ taken)" "fid_flags fid1 \<noteq> 0x03"
    "rwoffset fid1 = int (p + n)" "clu_frame s s1"
    using gr fl lb by (simp_all add: grew_def fid_wrote_def)
  note v = data_view [OF w1(5)]
  have "unat count - 1 < csize s * ((unat count - 1) div csize s + 1)" using cb dividend_less_times_div [of "csize s" "unat count - 1"] by simp
  then have "unat count \<le> csize s * k" using c0 k(1) by (simp add: unat_gt_0 Suc_le_eq [symmetric] flip: unat_eq_0)
  then have cap: "p + unat count \<le> length (cs @ taken) * csize s" by (simp add: p_def lt algebra_simps)
  have fit: "p + n + unat (count - of_nat n) \<le> length (cs @ taken) * csize s1" "written + n + unat (count - of_nat n) \<le> length buffer"
    using cap c n buf v by simp_all
  obtain s' fid' where e: "write_loop s1 fid1 buffer (count - of_nat n) (written + n) True (clusters + int k) (int k) bh1 =
      Some (s', fid', written + n + unat (count - of_nat n), True, int k, Loop_end)"
    "if count - of_nat n = 0 then s' = s1 \<and> fid' = fid1
     else grew s1 fid1 (cs @ taken) (p + n) (slice_at buffer (written + n) (unat (count - of_nat n))) s' fid' (cs @ taken)"
    using write_tail [OF w1(1-4) fit, of True "clusters + int k" "int k" bh1] by auto
  have "grew s fid cs p (slice_at buffer written (unat count)) s' fid' (cs @ taken)"
  proof (cases "count - of_nat n = 0")
    case True
    then have "unat count = n" using c n(2) by simp
    then show ?thesis using e(2) True gr by simp
  next
    case False
    have "p + length (slice_at buffer written n) \<le> length (cs @ taken) * csize s" using cap n(2) lb by simp
    then have "grew s fid cs p (slice_at buffer written n @ slice_at buffer (written + n) (unat count - n)) s' fid' (cs @ taken)"
      by (intro grew_trans [OF w gr]) (use e(2) False lb c in simp_all)
    then show ?thesis using slice_at_add [of buffer written n "unat count - n"] n(2) by simp
  qed
  moreover have "int k \<noteq> 0" using k(1) by simp
  ultimately show ?thesis using l e(1) c n lt unfolding p_def by auto
qed

lemma write_loop_ok:
  assumes g: "growable s fid cs" and rw: "rwoffset fid = int p" and p: "p \<le> length cs * csize s" and c0: "count \<noteq> 0"
    and buf: "unat count \<le> length buffer" and k: "extra_clusters s cs p (unat count) \<le> free_count s"
  shows "\<exists>s' fid' taken na. write_loop s fid buffer count 0 False clusters (-1) None =
      Some (s', fid', unat count, unat (fid_size fid) < p + unat count, na, Loop_end) \<and> na \<noteq> 0 \<and>
    grew s fid cs p (take (unat count) buffer) s' fid' (cs @ taken) \<and> length taken = extra_clusters s cs p (unat count)"
proof -
  have w: "writable s fid cs" and ch: "is_chain (fat_get s) (start_clu fid) cs" and fl: "fid_flags fid = 0x01"
    and sz: "unat (fid_size fid) \<le> length cs * csize s"
    using g by (simp_all add: growable_def)
  let ?cap = "length cs * csize s" and ?n = "unat count"
  consider (inside) "p + ?n \<le> ?cap" | (at) "p = ?cap" "?cap < p + ?n" | (over) "p < ?cap" "?cap < p + ?n" using p by linarith
  then show ?thesis
  proof cases
    case inside
    have b: "0 + ?n \<le> length buffer" and nz: "False \<or> unat count \<noteq> 0" and f3: "fid_flags fid \<noteq> 0x03" using buf c0 fl by (simp_all add: unat_eq_0)
    obtain s' fid' where "write_loop s fid buffer count 0 False clusters (-1) None =
        Some (s', fid', ?n, unat (fid_size fid) < p + ?n, -1, Loop_end)" "grew s fid cs p (take ?n buffer) s' fid' (cs @ [])"
      using write_tail [OF w ch f3 rw inside b nz, of clusters "-1" None] c0 by (auto simp: slice_all)
    moreover have "extra_clusters s cs p ?n = length ([] :: u32 list)" using inside by (simp add: extra_clusters_def)
    moreover have "(-1 :: int) \<noteq> 0" by simp
    ultimately show ?thesis by metis
  next
    case at
    have kk: "extra_clusters s cs p ?n = (?n - 1) div csize s + 1" using at by (simp add: extra_clusters_def)
    have "0 + ?n \<le> length buffer" using buf by simp
    from write_behind [OF g _ c0 this kk k, of False clusters "-1" None] rw at sz
    show ?thesis by (auto simp: slice_all)
  next
    case over
    define m where "m = ?cap - p"
    have m: "p + m = ?cap" "0 < m" "m < ?n" using over by (simp_all add: m_def)
    obtain s1 fid1 bh1 mo where l: "write_loop s fid buffer count 0 False clusters (-1) None =
        write_loop s1 fid1 buffer (count - of_nat m) m mo clusters (-1) bh1"
      and gr: "grew s fid cs p (take m buffer) s1 fid1 cs" and g1: "growable s1 fid1 cs" and fc: "free_count s1 = free_count s"
      by (rule write_to_end [OF g rw m buf])
    have um: "unat (of_nat m :: u64) = m" using m(3) order.strict_trans [OF m(3) unsigned_less [of count]] by (simp add: unat_of_nat)
    have c1: "unat (count - of_nat m) = ?n - m" using m(3) um by (simp add: unat_sub word_le_nat_alt)
    then have c1z: "count - of_nat m \<noteq> 0" using m(3) by (auto simp: unat_eq_0 [symmetric])
    have lb: "length (take m buffer) = m" using buf m(3) by simp
    have "rwoffset fid1 = int (p + m)" using gr lb by (simp add: grew_def fid_wrote_def)
    then have rw1: "rwoffset fid1 = int ?cap" by (simp only: m(1))
    have f: "clu_frame s s1" using gr by (simp add: grew_def)
    note v = data_view [OF f]
    have kk: "extra_clusters s cs p ?n = (unat (count - of_nat m) - 1) div csize s1 + 1"
    proof -
      have "p + ?n - ?cap - 1 = ?n - m - 1" using m(1) by linarith
      then show ?thesis using over(2) unfolding extra_clusters_def c1 v by simp
    qed
    have b: "m + unat (count - of_nat m) \<le> length buffer" using c1 m(3) buf by simp
    obtain s' fid' taken na' where e: "write_loop s1 fid1 buffer (count - of_nat m) m mo clusters (-1) bh1 =
        Some (s', fid', m + unat (count - of_nat m), True, na', Loop_end)" "na' \<noteq> 0"
      "grew s1 fid1 cs ?cap (slice_at buffer m (unat (count - of_nat m))) s' fid' (cs @ taken)" "length taken = extra_clusters s cs p ?n"
      using write_behind [OF g1 _ c1z b kk, of mo clusters "-1" bh1] rw1 k fc v by auto
    have "grew s fid cs p (take m buffer @ slice_at buffer m (?n - m)) s' fid' (cs @ taken)"
      by (rule grew_trans [OF w gr]) (use e(3) lb m(1) c1 in simp_all)
    moreover have "take m buffer @ slice_at buffer m (?n - m) = take ?n buffer"
      using slice_at_add [of buffer 0 m "?n - m"] m(3) by (simp add: slice_all)
    moreover have "unat (fid_size fid) < p + ?n" using sz over by simp
    ultimately show ?thesis using l e c1 m(3) by auto
  qed
qed

end
