(* ===== verification/WriteProps.thy ===== *)
theory WriteProps
  imports FileGrow
begin

text \<open>
  The whole of \<open>ffsWriteFile\<close> on volumes of the FAT family: the loop, the update of the directory entry, and the flags of
  the volume; and that what is written is what is read.
\<close>

section \<open>The flag of the volume\<close>

definition flagged :: "u32 \<Rightarrow> sb \<Rightarrow> sb" where
  "flagged f s = s\<lparr>vol_flag := f\<rparr>"

lemma fs_set_vol_flags_fat: "vol_type s \<noteq> EXFAT \<Longrightarrow> fs_set_vol_flags s f = flagged f s"
  by (simp add: fs_set_vol_flags_def flagged_def)

lemma flagged_fields [simp]:
  "blk (flagged f s) = blk s" "dirty (flagged f s) = dirty s" "FAT_cache (flagged f s) = FAT_cache s"
  "the_buf_cache (flagged f s) = the_buf_cache s" "vol_type (flagged f s) = vol_type s" "num_clusters (flagged f s) = num_clusters s"
  "clu_srch_ptr (flagged f s) = clu_srch_ptr s" "cluster_size_bits (flagged f s) = cluster_size_bits s"
  "sector_size_bits (flagged f s) = sector_size_bits s" "dev_ejected (flagged f s) = dev_ejected s" "drv (flagged f s) = drv s"
  by (simp_all add: flagged_def)

lemma flagged_derived [simp]:
  "out_of_range (flagged f s) = out_of_range s" "FAT_hash (flagged f s) = FAT_hash s" "START_SECTOR (flagged f s) = START_SECTOR s"
  "io_ready (flagged f s) = io_ready s" "fat_sector (flagged f s) = fat_sector s" "fat_area (flagged f s) = fat_area s"
  "buf_hash (flagged f s) = buf_hash s" "csize (flagged f s) = csize s" "ssize (flagged f s) = ssize s" "per_clu (flagged f s) = per_clu s"
  "entry_ptr (flagged f s) = entry_ptr s"
  by (simp_all add: fun_eq_iff flagged_def out_of_range_def FAT_hash_def START_SECTOR_def io_ready_def debug_error_rw_def
      fat_sector_def fat_area_def buf_hash_def csize_def ssize_def per_clu_def entry_ptr_def)

lemma flagged_views [simp]:
  "fat_get (flagged f s) = fat_get s" "dir_ok (flagged f s) = dir_ok s" "spc (flagged f s) = spc s" "file_pos (flagged f s) = file_pos s"
  "file_byte (flagged f s) = file_byte s" "file_area (flagged f s) = file_area s" "data_ok (flagged f s) = data_ok s"
  "free_count (flagged f s) = free_count s" "srch_ok (flagged f s) = srch_ok s"
proof -
  have m: "fat_mem (flagged f s) = fat_mem s" by (simp add: fun_eq_iff fat_mem_def)
  show g: "fat_get (flagged f s) = fat_get s" unfolding fun_eq_iff fat_get_def m by simp
  have i: "FATc.inv (flagged f s) = FATc.inv s" by (simp add: FATc.inv_def)
  have b: "bufc.inv (flagged f s) = bufc.inv s" by (rule buf_inv_cong) simp_all
  have c: "clu_geom (flagged f s) = clu_geom s" unfolding clu_geom_def Let_def flagged_derived by (simp add: flagged_def)
  have ge: "geom (flagged f s) = geom s" unfolding geom_def by (simp add: flagged_def)
  have "fat_ready (flagged f s) = fat_ready s" by (simp add: fat_ready_def i ge)
  then have "fat_ok (flagged f s) = fat_ok s" by (simp add: fat_ok_def)
  then have "tbl_ok (flagged f s) = tbl_ok s" by (simp add: tbl_ok_def)
  then show "dir_ok (flagged f s) = dir_ok s" by (simp add: dir_ok_def b c free_entries_def)
  show sp: "spc (flagged f s) = spc s" by (simp add: spc_def)
  show p: "file_pos (flagged f s) = file_pos s" by (simp add: fun_eq_iff file_pos_def)
  show "file_byte (flagged f s) = file_byte s" by (simp add: fun_eq_iff file_byte_def p)
  show "file_area (flagged f s) = file_area s" by (simp add: fun_eq_iff file_area_def clu_blocks_def sp)
  show "data_ok (flagged f s) = data_ok s" by (simp add: data_ok_def sp)
  show "free_count (flagged f s) = free_count s" by (simp add: free_count_def g)
  show "srch_ok (flagged f s) = srch_ok s" by (simp add: srch_ok_def)
qed

lemma flagged_file [simp]:
  "writable (flagged f s) fid cs = writable s fid cs" "growable (flagged f s) fid cs = growable s fid cs"
  "extra_clusters (flagged f s) = extra_clusters s"
  by (simp_all add: writable_def file_ok_def file_chain_def growable_def extra_clusters_def fun_eq_iff)

section \<open>The directory entry\<close>

lemma buf_inv_store: "the_buf_cache s' = the_buf_cache s \<Longrightarrow> clu_frame s s' \<Longrightarrow> bufc.holds s' sec = bufc.holds s sec"
  by (simp add: bufc.holds_def cached_def clu_frame_fields)

lemma entry_put:
  assumes "dir_ok s" "bufc.holds s sec" "\<not> out_of_range s sec" "off + length e \<le> ssize s"
  defines "t \<equiv> s\<lparr>blk := (blk s)(sec := splice_at (blk s sec) off e), dirty := (dirty s)(sec := True)\<rparr>"
  shows "buf_modify (store_entry s (sec, off) e) sec = t" "dir_ok t" "bufc.holds t sec" "clu_frame s t" "only_in {sec} s t"
proof -
  let ?p = "store_entry s (sec, off) e"
  have len: "\<forall>b. length (blk s b) = 2 ^ sector_size_bits s" using dir_ok_fields(4) [OF assms(1)] by (simp add: geom_def)
  have ps: "?p = s\<lparr>blk := (blk s)(sec := splice_at (blk s sec) off e)\<rparr>" by (simp add: store_entry_def poke_def)
  have f: "clu_frame s ?p" "clu_frame s t" by (simp_all add: ps t_def clu_frame_def)
  have b: "\<forall>b. length (((blk s)(sec := splice_at (blk s sec) off e)) b) = 2 ^ sector_size_bits s"
    using len assms(4) by (simp add: ssize_def)
  have d: "dir_ok ?p" unfolding ps
    using store_dir_ok [OF assms(1), of "(blk s)(sec := splice_at (blk s sec) off e)" "dirty s"] b by simp
  show "dir_ok t" unfolding t_def using store_dir_ok [OF assms(1), of "(blk s)(sec := splice_at (blk s sec) off e)"] b by simp
  have h: "bufc.holds ?p sec" "bufc.holds t sec" using assms(2) buf_inv_store [OF _ f(1)] buf_inv_store [OF _ f(2)] by (simp_all add: ps t_def)
  show "bufc.holds t sec" "clu_frame s t" by (fact h f)+
  have "buf_modify ?p sec = mark_buffer_dirty ?p sec"
    by (rule buf_modify_ok [OF dir_ok_fields(5) [OF d] h(1) dir_ok_fields(3) [OF d]]) (use assms(3) clu_frame_derived [OF f(1)] in simp)
  then show "buf_modify ?p sec = t" by (simp add: ps t_def mark_buffer_dirty_def)
  show "only_in {sec} s t" by (simp add: only_in_def t_def)
qed

text \<open>The bytes of the entry after \<open>write_entry\<close>.\<close>

definition written_entry :: "FILE_ID_T \<Rightarrow> TIMESTAMP_T \<Rightarrow> bool \<Rightarrow> dentry \<Rightarrow> dentry" where
  "written_entry fid tp modified e =
     (let ops = fat_dentry_func; e = set_entry_attr ops (set_entry_time ops e tp TM_MODIFY) (fid_attr fid)
      in if modified then sync_clu0 ops fid (sync_size ops fid (sync_flag ops fid e)) else e)"

lemma length_sync [simp]:
  "length (sync_clu0 fat_dentry_func fid e) = length e" "length (sync_size fat_dentry_func fid e) = length e"
  "length (sync_flag fat_dentry_func fid e) = length e"
  by (simp_all add: sync_clu0_def sync_size_def sync_flag_def fat_codec.lengths)

lemma write_entry_fat:
  assumes "dir_ok s" "bufc.holds s sec" "\<not> out_of_range s sec" "off + 32 \<le> ssize s" "vol_type s \<noteq> EXFAT"
  obtains s' tp where "write_entry s fid modified (In_dir (sec, off) sec) = Some s'" "dir_ok s'" "clu_frame s s'" "only_in {sec} s s'"
    "load_entry s' (sec, off) = written_entry fid tp modified (load_entry s (sec, off))" "clu_srch_ptr s' = clu_srch_ptr s"
proof -
  define tp where "tp = snd (now s)"
  have nw: "now s = (tick s, tp)" by (simp add: now_def tp_def)
  have d1: "dir_ok (tick s)" by (rule dir_ok_tick [OF assms(1)])
  have f1: "clu_frame s (tick s)" by (simp add: clu_frame_def tick_def)
  have len: "length (blk s sec) = ssize s" using dir_ok_fields(4) [OF assms(1)] by (simp add: geom_def ssize_def)
  let ?ops = fat_dentry_func
  define e0 where "e0 = load_entry s (sec, off)"
  have l0: "length e0 = 32" using len assms(4) by (simp add: e0_def load_entry_def)
  have ld: "load_entry (tick s) (sec, off) = e0" by (simp add: e0_def load_entry_def tick_def)
  define e1 where "e1 = set_entry_attr ?ops (set_entry_time ?ops e0 tp TM_MODIFY) (fid_attr fid)"
  have l1: "length e1 = 32" by (simp add: e1_def l0 fat_codec.lengths)
  have r1: "\<not> out_of_range (tick s) sec" "off + length e1 \<le> ssize (tick s)" "bufc.holds (tick s) sec"
    using assms(2-4) l1 clu_frame_derived [OF f1] data_view [OF f1] buf_inv_store [OF _ f1] by (simp_all add: tick_def)
  define s1 where "s1 = (tick s)\<lparr>blk := (blk (tick s))(sec := splice_at (blk (tick s) sec) off e1), dirty := (dirty (tick s))(sec := True)\<rparr>"
  note p1 = entry_put [OF d1 r1(3,1,2), folded s1_def]
  have f2: "clu_frame s s1" by (rule clu_frame_trans [OF f1 p1(4)])
  have len1: "length (blk s1 sec) = ssize s" using dir_ok_fields(4) [OF p1(2)] data_view [OF f2] by (simp add: geom_def ssize_def)
  have ld1: "load_entry s1 (sec, off) = e1"
    using slice_splice_same [of off e1 "blk s sec"] l1 len assms(4) by (simp add: load_entry_def s1_def tick_def)
  have o1: "only_in {sec} s s1" by (rule only_in_trans [OF only_in_same p1(5)]) (simp_all add: tick_def)
  have c1: "clu_srch_ptr s1 = clu_srch_ptr s" by (simp add: s1_def tick_def)
  have ops: "dentry_func s = ?ops" using assms(5) by (simp add: dentry_func_def)
  show thesis
  proof (cases modified)
    case False
    have "write_entry s fid modified (In_dir (sec, off) sec) = Some s1"
      using p1(1) False by (simp add: write_entry_def nw ops ld e1_def Let_def)
    then show thesis
      by (rule that [OF _ p1(2) f2 o1 _ c1]) (simp add: ld1 written_entry_def False e1_def e0_def Let_def)
  next
    case True
    define e2 where "e2 = sync_clu0 ?ops fid (sync_size ?ops fid (sync_flag ?ops fid e1))"
    have l2: "length e2 = 32" by (simp add: e2_def l1)
    have r2: "\<not> out_of_range s1 sec" "off + length e2 \<le> ssize s1"
      using assms(3,4) l2 clu_frame_derived [OF f2] data_view [OF f2] by simp_all
    define s2 where "s2 = s1\<lparr>blk := (blk s1)(sec := splice_at (blk s1 sec) off e2), dirty := (dirty s1)(sec := True)\<rparr>"
    note p2 = entry_put [OF p1(2,3) r2, folded s2_def]
    have ld2: "load_entry s2 (sec, off) = e2"
      using slice_splice_same [of off e2 "blk s1 sec"] l2 len1 assms(4) by (simp add: load_entry_def s2_def)
    have "write_entry s fid modified (In_dir (sec, off) sec) = Some s2"
      using p1(1) p2(1) True by (simp add: write_entry_def nw ops ld ld1 Let_def flip: e1_def e2_def)
    moreover have "clu_srch_ptr s2 = clu_srch_ptr s" using c1 by (simp add: s2_def)
    ultimately show thesis
      using that [OF _ p2(2) clu_frame_trans [OF f2 p2(4)] only_in_trans [OF o1 p2(5)], of tp]
      by (simp add: ld2 written_entry_def True e2_def e1_def e0_def Let_def)
  qed
qed

text \<open>What an entry says of its file.\<close>

definition entry_agrees :: "sb \<Rightarrow> FILE_ID_T \<Rightarrow> dptr \<Rightarrow> bool" where
  "entry_agrees s fid q \<longleftrightarrow> fat_get_entry_size (load_entry s q) = fid_size fid \<and>
     (fid_size fid \<noteq> 0 \<longrightarrow> fat_get_entry_clu0 (load_entry s q) = start_clu fid)"

lemma fat_entry_other:
  "length e = 32 \<Longrightarrow> fat_get_entry_size (fat_set_entry_attr (fat_set_entry_time e tp mode) a) = fat_get_entry_size e"
  "length e = 32 \<Longrightarrow> fat_get_entry_clu0 (fat_set_entry_attr (fat_set_entry_time e tp mode) a) = fat_get_entry_clu0 e"
  by (auto simp: fat_get_entry_size_def fat_get_entry_clu0_def fat_set_entry_attr_def fat_set_entry_time_def offsets entry_simps Let_def)

lemma fat_ops [simp]:
  "get_entry_size fat_dentry_func = fat_get_entry_size" "get_entry_clu0 fat_dentry_func = fat_get_entry_clu0"
  "set_entry_size fat_dentry_func = fat_set_entry_size" "set_entry_clu0 fat_dentry_func = fat_set_entry_clu0"
  "get_entry_flag fat_dentry_func = fat_get_entry_flag" "set_entry_flag fat_dentry_func = fat_set_entry_flag"
  "set_entry_attr fat_dentry_func = fat_set_entry_attr" "set_entry_time fat_dentry_func = fat_set_entry_time"
  by (simp_all add: fat_dentry_func_def)

lemma written_entry_agrees:
  assumes "length e = 32" "unat (fid_size fid) < 2 ^ 32"
    "\<not> modified \<Longrightarrow> fat_get_entry_size e = fid_size fid \<and> fat_get_entry_clu0 e = start_clu fid"
  shows "fat_get_entry_size (written_entry fid tp modified e) = fid_size fid" "fat_get_entry_clu0 (written_entry fid tp modified e) = start_clu fid"
proof -
  define e1 where "e1 = fat_set_entry_attr (fat_set_entry_time e tp TM_MODIFY) (fid_attr fid)"
  have w: "written_entry fid tp modified e =
      (if modified then sync_clu0 fat_dentry_func fid (sync_size fat_dentry_func fid (sync_flag fat_dentry_func fid e1)) else e1)"
    by (simp add: written_entry_def e1_def Let_def)
  have l: "length e1 = 32" using fat_codec.lengths assms(1) by (simp add: e1_def)
  have f: "sync_flag fat_dentry_func fid e1 = e1" by (simp add: sync_flag_def fat_set_entry_flag_def)
  have sz: "take_bit 32 (fid_size fid) = fid_size fid"
    using assms(2) by (simp add: word_unat_eq_iff unat_take_bit)
  have 1: "fat_get_entry_size (sync_size fat_dentry_func fid e1) = fid_size fid"
    using fat_codec.size_same [OF l, of "fid_size fid"] by (simp add: sync_size_def sz)
  have l2: "length (sync_size fat_dentry_func fid e1) = 32" using l by simp
  have 2: "fat_get_entry_clu0 (sync_clu0 fat_dentry_func fid (sync_size fat_dentry_func fid e1)) = start_clu fid"
    "fat_get_entry_size (sync_clu0 fat_dentry_func fid (sync_size fat_dentry_func fid e1)) = fid_size fid"
    using fat_codec.clu0_same [OF l2, of "start_clu fid"] fat_codec.size_other(2) 1 by (simp_all add: sync_clu0_def)
  have "fat_get_entry_size e1 = fat_get_entry_size e" "fat_get_entry_clu0 e1 = fat_get_entry_clu0 e"
    using fat_entry_other [OF assms(1)] by (simp_all add: e1_def)
  then show "fat_get_entry_size (written_entry fid tp modified e) = fid_size fid" "fat_get_entry_clu0 (written_entry fid tp modified e) = start_clu fid"
    using assms(3) 2 by (simp_all add: w f)
qed

text \<open>Where the entry of the file is: in the first cluster of its directory, outside the file.\<close>

definition entry_place :: "sb \<Rightarrow> FILE_ID_T \<Rightarrow> u32 list \<Rightarrow> nat \<Rightarrow> bool" where
  "entry_place s fid cs i \<longleftrightarrow> fid_entry fid = int i \<and> i < per_clu s \<and> 2 \<le> ch_dir (fid_dir fid) \<and> ch_dir (fid_dir fid) < num_clusters s \<and>
     ch_dir (fid_dir fid) \<notin> set cs \<and> fat_get s (ch_dir (fid_dir fid)) \<noteq> 0 \<and> entry_agrees s fid (entry_ptr s (ch_dir (fid_dir fid)) i)"

lemma entry_block:
  assumes "dir_ok s" "i < per_clu s"
  shows "fst (entry_ptr s d i) \<in> clu_blocks s d" "snd (entry_ptr s d i) + 32 \<le> ssize s"
proof -
  note o = dir_ok_fields [OF assms(1)] and b = csize_bounds [OF assms(1)]
  have "32 * i < csize s" using per_clu_bytes [OF o(7,4) assms(2)] by (simp add: csize_def)
  then have "32 * i div ssize s < spc s" using csize_spc(1) [OF assms(1)] by (simp add: less_mult_imp_div_less)
  then show "fst (entry_ptr s d i) \<in> clu_blocks s d" by (simp add: entry_ptr_def clu_blocks_def ssize_def)
  have "9 \<le> sector_size_bits s" using o(4) by (simp add: geom_def)
  then obtain k where k: "ssize s = 32 * k" unfolding ssize_def using power_add [of "2 :: nat" 5 "sector_size_bits s - 5"] by simp
  then have "i mod k < k" using b(4) by simp
  then have "32 * (i mod k) + 32 \<le> 32 * k" by linarith
  moreover have "32 * i mod ssize s = 32 * (i mod k)" by (simp only: k mult_mod_right)
  moreover have "snd (entry_ptr s d i) = 32 * i mod ssize s" by (simp add: entry_ptr_def ssize_def)
  ultimately show "snd (entry_ptr s d i) + 32 \<le> ssize s" using k by linarith
qed

lemma clu_blocks_disjoint:
  assumes "data_ok s" "2 \<le> c" "c < num_clusters s" "\<forall>x \<in> set cs. 2 \<le> x \<and> x < num_clusters s" "c \<notin> set cs" "b \<in> clu_blocks s c"
  shows "b \<notin> fat_area s \<union> file_area s cs"
proof -
  obtain k where k: "b = START_SECTOR s c + of_nat k" "k < spc s" using assms(6) by (auto simp: clu_blocks_def)
  have "b \<notin> fat_area s" using assms(1-3) k by (auto simp: data_ok_def)
  moreover have "b \<notin> clu_blocks s x" if "x \<in> set cs" for x
  proof
    assume "b \<in> clu_blocks s x"
    then obtain l where "START_SECTOR s c + of_nat k = START_SECTOR s x + of_nat l" "l < spc s" using k by (auto simp: clu_blocks_def)
    then have "c = x" using assms(1-4) that k(2) unfolding data_ok_def by metis
    then show False using that assms(5) by simp
  qed
  ultimately show ?thesis by (auto simp: file_area_def)
qed

lemma growable_frame:
  assumes g: "growable s fid cs" and f: "clu_frame s t" and d: "dir_ok t" and o: "only_in {sec} s t" and sec: "sec \<notin> fat_area s \<union> file_area s cs"
    and ptr: "clu_srch_ptr t = clu_srch_ptr s"
  shows "growable t fid cs" "\<And>q. q < length cs * csize s \<Longrightarrow> file_byte t cs q = file_byte s cs q"
    "\<And>c. c < num_clusters s \<Longrightarrow> fat_get t c = fat_get s c"
proof -
  have w: "writable s fid cs" and ch: "is_chain (fat_get s) (start_clu fid) cs" using g by (simp_all add: growable_def)
  note wf = writable_fields [OF w] and v = data_view [OF f] and cf = clu_frame_fields [OF f]
  show fg: "fat_get t c = fat_get s c" if "c < num_clusters s" for c
    by (rule fat_get_outside [OF f o _ that]) (use sec in auto)
  show "file_byte t cs q = file_byte s cs q" if "q < length cs * csize s" for q
    by (rule file_byte_frame [OF f o]) (use file_pos_block(3) [OF wf(4) that] sec in auto)
  have "file_chain t fid cs" using file_chain_frame [OF wf(5) _ fg] cf by simp
  then have "writable t fid cs" using w d v by (simp add: writable_def file_ok_def)
  moreover have "is_chain (fat_get t) (start_clu fid) cs" using ch wf(7) fg is_chain_cong [of cs "fat_get t" "fat_get s"] by blast
  ultimately show "growable t fid cs" using g cf v ptr by (simp add: growable_def)
qed

lemma extra_capacity:
  assumes "0 < csize s" "length new = extra_clusters s cs p n"
  shows "p + n \<le> length (cs @ new) * csize s"
proof (cases "p + n \<le> length cs * csize s")
  case False
  let ?x = "p + n - length cs * csize s"
  have "?x - 1 < csize s * ((?x - 1) div csize s + 1)" using assms(1) dividend_less_times_div [of "csize s" "?x - 1"] by simp
  then have "?x \<le> csize s * length new" using False assms(2) by (simp add: extra_clusters_def)
  then show ?thesis using False by (simp add: algebra_simps)
qed (simp add: add_mult_distrib)

section \<open>The whole operation\<close>

definition write_result :: "sb \<Rightarrow> FILE_ID_T \<Rightarrow> u32 list \<Rightarrow> nat \<Rightarrow> u8 list \<Rightarrow> sb \<Rightarrow> FILE_ID_T \<Rightarrow> u32 list \<Rightarrow> bool" where
  "write_result s fid cs p bs s' fid' cs' \<longleftrightarrow>
     rwoffset fid' = int (p + length bs) \<and> unat (fid_size fid') = max (unat (fid_size fid)) (p + length bs) \<and>
     fid_type fid' = fid_type fid \<and> fid_dir fid' = fid_dir fid \<and> csize s' = csize s \<and>
     wrote s s' cs' p bs \<and> (\<exists>new. cs' = cs @ new \<and> length new = extra_clusters s cs p (length bs) \<and> (\<forall>c \<in> set new. fat_get s c = 0)) \<and>
     (\<forall>c < num_clusters s. c \<notin> set cs' \<longrightarrow> fat_get s' c = fat_get s c) \<and>
     only_in (fat_area s \<union> file_area s cs' \<union> clu_blocks s (ch_dir (fid_dir fid))) s s'"

lemma ffsWriteFile_fat:
  assumes g: "growable s fid cs" and ty: "fid_type fid = TYPE_FILE" and rw: "rwoffset fid = int p" and p: "p \<le> unat (fid_size fid)"
    and c0: "count \<noteq> 0" and buf: "unat count \<le> length buffer" and k: "extra_clusters s cs p (unat count) \<le> free_count s"
    and big: "p + unat count < 2 ^ 32" "unat (fid_size fid) < 2 ^ 32" and at: "entry_place s fid cs i"
  shows "\<exists>s' fid' cs'. ffsWriteFile s fid buffer count = Some (s', fid', Some count, FFS_SUCCESS) \<and>
    growable s' fid' cs' \<and> entry_place s' fid' cs' i \<and> write_result s fid cs p (take (unat count) buffer) s' fid' cs'"
proof -
  let ?s1 = "flagged VOL_DIRTY s" and ?n = "unat count" and ?bs = "take (unat count) buffer" and ?d = "ch_dir (fid_dir fid)"
  have t: "vol_type s \<noteq> EXFAT" and cap: "unat (fid_size fid) \<le> length cs * csize s" and w: "writable s fid cs"
    using g by (simp_all add: growable_def)
  note wf = writable_fields [OF w]
  have pc: "p \<le> length cs * csize s" using p cap by simp
  have u: "unat (of_s64 (int p)) = p" by (rule of_s64_nat) (use big in simp)
  then have cl: "clamp_rwoffset fid = fid" using p by (simp add: clamp_rwoffset_def rw word_less_nat_alt)
  have g1: "growable ?s1 fid cs" "extra_clusters ?s1 cs p ?n \<le> free_count ?s1" "p \<le> length cs * csize ?s1" using g k pc by simp_all
  define clusters where "clusters = (if fid_size fid = 0 then 0 else s32_of (uint (drop_bit (unat (cluster_size_bits ?s1)) (fid_size fid - 1))) + 1)"
  obtain s2 fid2 new na where l: "write_loop ?s1 fid buffer count 0 False clusters (-1) None =
      Some (s2, fid2, ?n, unat (fid_size fid) < p + ?n, na, Loop_end)" "na \<noteq> 0"
    and gr: "grew ?s1 fid cs p ?bs s2 fid2 (cs @ new)" and ln: "length new = extra_clusters s cs p ?n"
    using write_loop_ok [OF g1(1) rw g1(3) c0 buf g1(2), of clusters] by auto
  let ?cs = "cs @ new"
  have lb: "length ?bs = ?n" using buf by simp
  have f2: "clu_frame ?s1 s2" and w2: "writable s2 fid2 ?cs" and ch2: "is_chain (fat_get s2) (start_clu fid2) ?cs"
    and fw: "fid_wrote fid p ?n fid2" and oi2: "only_in (fat_area s \<union> file_area s ?cs) ?s1 s2" and wr2: "wrote ?s1 s2 ?cs p ?bs"
    and fr2: "\<forall>c \<in> set new. fat_get s c = 0" "\<forall>c. c < num_clusters s \<longrightarrow> c \<notin> set ?cs \<longrightarrow> fat_get s2 c = fat_get s c"
    and so: "srch_ok s2" and fl2: "fid_flags fid2 = 0x01"
    using gr lb g by (simp_all add: grew_def growable_def srch_ok_def)
  note v2 = data_view [OF f2, simplified] and c2 = clu_frame_fields [OF f2, simplified] clu_frame_derived [OF f2, simplified]
  have d2: "dir_ok s2" using writable_fields(4) [OF w2] .
  have cb: "0 < csize s" using csize_bounds(3) [OF wf(4)] .
  have cap2: "unat (fid_size fid2) \<le> length ?cs * csize s"
    using fw extra_capacity [OF cb, of new cs p ?n] ln cap by (simp add: fid_wrote_def add_mult_distrib)
  have g2: "growable s2 fid2 ?cs"
    using w2 ch2 so fl2 cap2 c2 v2 t by (simp add: growable_def srch_ok_def)
  have dd: "2 \<le> ?d" "?d < num_clusters s" "?d \<notin> set ?cs" "fat_get s ?d \<noteq> 0" "i < per_clu s" "fid_entry fid2 = int i" "fid_dir fid2 = fid_dir fid"
    using at fr2 fw by (auto simp: entry_place_def fid_wrote_def)
  have pv: "per_clu s2 = per_clu s" "entry_ptr s2 = entry_ptr s"
    using c2 clu_frame_more [OF f2] by (simp_all add: per_clu_def fun_eq_iff entry_ptr_def flagged_def)
  obtain sec off where q: "entry_ptr s ?d i = (sec, off)" by fastforce
  note eb = entry_block [OF wf(4) dd(5), of ?d, unfolded q fst_conv snd_conv]
  obtain s3 where s3: "get_entry_in_dir s2 (fid_dir fid2) (int i) = (s3, Some ((sec, off), sec))" "dir_ok s3" "vol_eq s2 s3" "fat_get s3 = fat_get s2"
    "bufc.holds s3 sec"
    using get_entry_ok [OF d2, of "fid_dir fid2" i] dd pv c2 q by auto
  have f3: "clu_frame s2 s3" by (rule vol_clu_frame [OF s3(3)])
  note v3 = data_view [OF f3] and c3 = clu_frame_fields [OF f3] clu_frame_derived [OF f3]
  have rng: "\<not> out_of_range s3 sec"
    using entry_in_range [OF dir_ok_fields(7,4) [OF wf(4)] dd(1,2,5)] q c3 c2 by simp
  have t3: "vol_type s3 \<noteq> EXFAT" "off + 32 \<le> ssize s3" using t c3 c2 eb(2) v3 v2 by simp_all
  obtain s4 tp where s4: "write_entry s3 fid2 (unat (fid_size fid) < p + ?n) (In_dir (sec, off) sec) = Some s4" "dir_ok s4" "clu_frame s3 s4"
    "only_in {sec} s3 s4" "load_entry s4 (sec, off) = written_entry fid2 tp (unat (fid_size fid) < p + ?n) (load_entry s3 (sec, off))"
    "clu_srch_ptr s4 = clu_srch_ptr s3"
    by (rule write_entry_fat [OF s3(2,5) rng t3(2,1)])
  have f4: "clu_frame s2 s4" by (rule clu_frame_trans [OF f3 s4(3)])
  note sv3 = same_volume_fields [OF vol_eq_same [OF s3(3)]] vol_eq_fields [OF s3(3)]
  have o4: "only_in {sec} s2 s4" by (rule only_in_trans [OF only_in_same s4(4)]) (simp_all add: sv3)
  have rs: "\<forall>x \<in> set ?cs. 2 \<le> x \<and> x < num_clusters s" using writable_fields(7) [OF w2] c2 by simp
  have sec: "sec \<notin> fat_area s \<union> file_area s ?cs" by (rule clu_blocks_disjoint [OF wf(2) dd(1,2) rs dd(3) eb(1)])
  have sec2: "sec \<notin> fat_area s2 \<union> file_area s2 ?cs" using sec c2 v2 by simp
  have p4: "clu_srch_ptr s4 = clu_srch_ptr s2" using s4(6) sv3 by simp
  note k4 = growable_frame [OF g2 f4 s4(2) o4 sec2 p4]
  let ?s' = "flagged VOL_CLEAN s4"
  note c4 = clu_frame_fields [OF f4] clu_frame_derived [OF f4] and v4 = data_view [OF f4]
  have ej: "\<not> dev_ejected s4" using dir_ok_fields(3) [OF s4(2)] by (simp add: io_ready_def)
  have t4: "vol_type s4 \<noteq> EXFAT" using t c4 c2 by simp
  have run: "ffsWriteFile s fid buffer count = Some (?s', fid2, Some count, FFS_SUCCESS)"
    unfolding ffsWriteFile_def using ty cl c0 l t s3(1) s4(1) dd(6) ej t4 c2
    by (simp add: fs_set_vol_flags_fat clusters_def open_entry_def Let_def delayed_sync_def fs_sync_def eject_ret_def)
  have le: "length (load_entry s3 (sec, off)) = 32"
    using dir_ok_fields(4) [OF s3(2)] t3(2) by (simp add: load_entry_def geom_def ssize_def)
  have ld: "load_entry s3 (sec, off) = load_entry s (sec, off)"
  proof -
    have "blk s2 sec = blk s sec" using oi2 sec by (simp add: only_in_def)
    then show ?thesis by (simp add: load_entry_def sv3)
  qed
  have "unat (fid_size fid2) < 2 ^ 32" using fw big by (simp add: fid_wrote_def)
  moreover have "fat_get_entry_size (load_entry s (sec, off)) = fid_size fid2 \<and> fat_get_entry_clu0 (load_entry s (sec, off)) = start_clu fid2"
    if "\<not> unat (fid_size fid) < p + ?n"
  proof -
    have "unat (fid_size fid2) = unat (fid_size fid)" using that fw by (simp add: fid_wrote_def)
    then have sz: "fid_size fid2 = fid_size fid" by (simp add: word_unat_eq_iff)
    have "0 < unat count" using c0 by (simp add: unat_gt_0)
    then have nz: "fid_size fid \<noteq> 0" using that by auto
    then have "cs \<noteq> []" using cap by (auto simp: unat_eq_0)
    then have "start_clu fid2 = start_clu fid" using ch2 wf(5) by (cases cs) (auto simp: file_chain_def)
    then show ?thesis using at nz sz q by (simp add: entry_place_def entry_agrees_def)
  qed
  ultimately have "entry_agrees s4 fid2 (sec, off)"
    using written_entry_agrees [OF le, of fid2 "unat (fid_size fid) < p + ?n" tp] by (simp add: entry_agrees_def s4(5) ld)
  then have ag: "entry_agrees ?s' fid2 (sec, off)" by (simp add: entry_agrees_def load_entry_def)
  have pv4: "per_clu s4 = per_clu s" "entry_ptr s4 = entry_ptr s"
    using pv c4 clu_frame_more [OF f4] by (simp_all add: per_clu_def fun_eq_iff entry_ptr_def)
  have fd: "fat_get s4 c = fat_get s c" if "c < num_clusters s" "c \<notin> set ?cs" for c using k4(3) [of c] fr2(2) that c2 by simp
  have place: "entry_place ?s' fid2 ?cs i" using ag dd fd pv4 q c4 c2 by (simp add: entry_place_def)
  have "wrote s ?s' ?cs p ?bs" using wr2 k4(2) v4 v2 by (simp add: wrote_def)
  moreover have "only_in (fat_area s \<union> file_area s ?cs \<union> clu_blocks s ?d) s ?s'"
  proof -
    have a: "only_in (fat_area s \<union> file_area s ?cs \<union> clu_blocks s ?d) s s2"
      by (rule only_in_mono [of "fat_area s \<union> file_area s ?cs"]) (use oi2 in \<open>auto simp: only_in_def\<close>)
    have b: "only_in (fat_area s \<union> file_area s ?cs \<union> clu_blocks s ?d) s2 s4" by (rule only_in_mono [OF o4]) (use eb(1) in simp)
    show ?thesis using only_in_trans [OF a b] by (simp add: only_in_def)
  qed
  ultimately have "write_result s fid cs p ?bs ?s' fid2 ?cs"
    using fw lb ln fr2 fd v4 v2 by (simp add: write_result_def fid_wrote_def)
  then show ?thesis using run k4(1) place by (intro exI [of _ ?s'] exI [of _ fid2] exI [of _ ?cs]) simp
qed

text \<open>
  C2: Writing, on FAT12, FAT16 and FAT32: on a working volume with the file \<open>cs\<close> whose directory entry says what its
  identifier says, and with enough free clusters for the bytes behind its end, \<open>ffsWriteFile\<close> ends with success and
  has written all \<open>count\<close> bytes.  The file has then the bytes of the buffer from the position on and its old bytes
  elsewhere, the clusters it had with exactly as many formerly free ones behind them as it needs, and its size grows when
  the write ends behind it; the directory entry agrees with the identifier again.  No other entry of the table and no other
  block is changed, and the next write finds the volume in the same good order.
\<close>

theorem ffsWriteFile_contents:
  fixes count :: u64
  assumes "growable s fid cs" "fid_type fid = TYPE_FILE" "rwoffset fid = int p" "p \<le> unat (fid_size fid)" "count \<noteq> 0"
    "unat count \<le> length buffer" "extra_clusters s cs p (unat count) \<le> free_count s" "p + unat count < 2 ^ 32"
    "unat (fid_size fid) < 2 ^ 32" "entry_place s fid cs i"
  shows "\<exists>s' fid' cs'. ffsWriteFile s fid buffer count = Some (s', fid', Some count, FFS_SUCCESS) \<and>
    growable s' fid' cs' \<and> entry_place s' fid' cs' i \<and> write_result s fid cs p (take (unat count) buffer) s' fid' cs'"
  by (rule ffsWriteFile_fat [OF assms])

text \<open>
  C3: What is written is what is read: after the write, reading as many bytes from the same position returns the buffer.
\<close>

theorem write_then_read:
  fixes count :: u64
  assumes "growable s fid cs" "fid_type fid = TYPE_FILE" "rwoffset fid = int p" "p \<le> unat (fid_size fid)" "count \<noteq> 0"
    "unat count \<le> length buffer" "extra_clusters s cs p (unat count) \<le> free_count s" "p + unat count < 2 ^ 32"
    "unat (fid_size fid) < 2 ^ 32" "entry_place s fid cs i"
  shows "\<exists>s' fid' t fid2. ffsWriteFile s fid buffer count = Some (s', fid', Some count, FFS_SUCCESS) \<and>
    ffsReadFile s' (fid'\<lparr>rwoffset := int p\<rparr>) count = Some (t, fid2, take (unat count) buffer, Some count, FFS_SUCCESS)"
proof -
  obtain s' fid' cs' where w: "ffsWriteFile s fid buffer count = Some (s', fid', Some count, FFS_SUCCESS)"
    and g: "growable s' fid' cs'" and r: "write_result s fid cs p (take (unat count) buffer) s' fid' cs'"
    using ffsWriteFile_fat [OF assms] by blast
  let ?f = "fid'\<lparr>rwoffset := int p\<rparr>" and ?n = "unat count"
  have lb: "length (take ?n buffer) = ?n" using assms(6) by simp
  have sz: "unat (fid_size fid') = max (unat (fid_size fid)) (p + ?n)" "fid_type fid' = TYPE_FILE" "csize s' = csize s"
    and wr: "wrote s s' cs' p (take ?n buffer)"
    using r lb assms(2) by (simp_all add: write_result_def)
  have cap: "unat (fid_size fid') \<le> length cs' * csize s'" and wf: "writable s' fid' cs'" using g by (simp_all add: growable_def)
  have ok: "file_ok s' ?f cs'"
    using writable_fields(1) [OF wf] file_chain_cong [of s' fid' cs' s' ?f] by (simp add: file_ok_def hint_ok_def)
  have p: "p = min (nat (rwoffset ?f)) (unat (fid_size ?f))" "?n = min (unat count) (unat (fid_size ?f) - p)" using sz by simp_all
  obtain t fid2 where "ffsReadFile s' ?f count = Some (t, fid2, file_bytes s' cs' p ?n, Some (of_nat ?n), if ?n = 0 then FFS_EOF else FFS_SUCCESS)"
    using ffsReadFile_ok [OF ok _ _ _ _ p] sz cap assms(8) by auto
  moreover have "file_bytes s' cs' p ?n = take ?n buffer"
  proof (rule nth_equalityI)
    show "length (file_bytes s' cs' p ?n) = length (take ?n buffer)" by (simp add: lb del: length_take)
    fix j assume "j < length (file_bytes s' cs' p ?n)"
    then have j: "j < ?n" by simp
    have "p + j < length cs' * csize s" using cap sz j by simp
    then show "file_bytes s' cs' p ?n ! j = take ?n buffer ! j" using wr j lb by (simp add: wrote_def file_bytes_def del: length_take)
  qed
  moreover have "?n \<noteq> 0" using assms(5) by (simp add: unat_eq_0)
  ultimately show ?thesis using w by auto
qed

section \<open>A volume to write on\<close>

text \<open>A FAT16 volume: cluster 2 is a directory whose first entry is a file of the cluster 3 with 1020 bytes.\<close>

definition write_sb :: sb where
  "write_sb = (sample_sb FAT16)\<lparr>blk := (\<lambda>b. if b = 1 then (replicate 512 0)[4 := 0xFF, 5 := 0xFF, 6 := 0xFF, 7 := 0xFF]
     else if b = 8 then fat_set_entry_size (fat_set_entry_clu0 (replicate 32 0) 3) 1020 @ replicate 480 0 else replicate 512 (ucast b))\<rparr>"

definition write_fid :: FILE_ID_T where
  "write_fid = sample_fid\<lparr>fid_size := 1020, fid_dir := one_cluster\<rparr>"

lemma write_sb_fields: "num_clusters write_sb = 66" "vol_type write_sb = FAT16" "cluster_size_bits write_sb = 10"
  "sector_size_bits write_sb = 9" "sectors_per_clu_bits write_sb = 1" "data_start_sector write_sb = 8" "FAT1_start_sector write_sb = 1"
  "clu_srch_ptr write_sb = 2"
  by (simp_all add: write_sb_def sample_dir_fields sample_tbl_ok(4)) (simp add: sample_fields blank_sb_def)

lemma write_sb_sizes: "csize write_sb = 1024" "ssize write_sb = 512" "spc write_sb = 2" "per_clu write_sb = 32"
  by (simp_all add: csize_def ssize_def spc_def per_clu_def write_sb_fields)

lemma write_sb_start: "2 \<le> c \<Longrightarrow> c < 66 \<Longrightarrow> k < 2 \<Longrightarrow> unat (START_SECTOR write_sb c + of_nat k) = 2 * unat c + 4 + k"
proof -
  assume c: "2 \<le> c" "c < 66" "k < 2"
  then have u: "2 \<le> unat c" "unat c < 66" by (simp_all add: word_le_nat_alt word_less_nat_alt)
  then have "unat (c - 2) = unat c - 2" by (simp add: unat_sub word_le_nat_alt)
  then have n: "2 * unat (c - 2) + 8 + k = 2 * unat c + 4 + k" using u by linarith
  have "START_SECTOR write_sb c + of_nat k = of_nat (2 * unat (c - 2) + 8 + k)"
    by (simp add: START_SECTOR_def write_sb_fields push_bit_eq_mult)
  then have "unat (START_SECTOR write_sb c + of_nat k) = (2 * unat c + 4 + k) mod 2 ^ 32" unfolding n by (simp only: unat_of_nat) simp
  then show "unat (START_SECTOR write_sb c + of_nat k) = 2 * unat c + 4 + k" using u c(3) by simp
qed

lemma write_sb_area: "fat_area write_sb = {1}"
proof -
  have f: "fat_sector write_sb p = 1" if "p < 512" for p using that by (simp add: fat_sector_def write_sb_fields)
  have "fat_sector write_sb ` fat_span FAT16 l = {1}" if "l < 66" for l
    using that by (auto simp: fat_span_def f)
  then show ?thesis by (auto simp: fat_area_def write_sb_fields lessThan_empty_iff)
qed

lemma write_sb_data: "data_ok write_sb"
  unfolding data_ok_def write_sb_sizes write_sb_area write_sb_fields
proof (intro conjI allI impI)
  fix c :: u32 and k :: nat assume c: "2 \<le> c" "c < 66" "k < 2"
  show "START_SECTOR write_sb c + of_nat k \<notin> {1}"
  proof
    assume "START_SECTOR write_sb c + of_nat k \<in> {1}"
    then have "unat (START_SECTOR write_sb c + of_nat k) = 1" by simp
    then show False using write_sb_start [OF c] by simp
  qed
next
  fix c d :: u32 and k l :: nat
  assume a: "2 \<le> c" "c < 66" "k < 2" "2 \<le> d" "d < 66" "l < 2" "START_SECTOR write_sb c + of_nat k = START_SECTOR write_sb d + of_nat l"
  then have e: "2 * unat c + 4 + k = 2 * unat d + 4 + l" using write_sb_start [OF a(1-3)] write_sb_start [OF a(4-6)] by simp
  then have "k = l" using a(3,6) by presburger
  with e show "c = d" "k = l" by (simp_all add: word_unat_eq_iff)
qed

lemma write_sb_get: "fat_get write_sb 2 = CLUSTER_EOF" "fat_get write_sb 3 = CLUSTER_EOF" "fat_get write_sb 4 = 0"
proof -
  have m: "fat_mem write_sb 4 = 0xFF" "fat_mem write_sb 5 = 0xFF" "fat_mem write_sb 6 = 0xFF" "fat_mem write_sb 7 = 0xFF"
    "fat_mem write_sb 8 = 0" "fat_mem write_sb 9 = 0"
    by (simp_all add: fat_mem_def fat_sector_def write_sb_fields) (simp_all add: write_sb_def)
  then show "fat_get write_sb 2 = CLUSTER_EOF" "fat_get write_sb 3 = CLUSTER_EOF" "fat_get write_sb 4 = 0"
    by (simp_all add: fat_get_def fat_raw_def raw16_def mem16_def fat_val_def fat_limit_def GET16_def write_sb_fields)
qed

lemma write_sb_dir: "dir_ok write_sb"
  unfolding write_sb_def by (rule dir_ok_blk [OF sample_dir_ok]) (simp add: sample_dir_fields fat_set_entry_size_def fat_set_entry_clu0_def)

lemma write_sb_growable: "growable write_sb write_fid [3]"
proof -
  have "writable write_sb write_fid [3]"
    by (simp add: writable_def file_ok_def write_sb_dir write_sb_data file_chain_def hint_ok_def write_fid_def sample_fid_def write_sb_fields)
  then show ?thesis
    by (simp add: growable_def write_sb_fields write_sb_sizes write_sb_get write_fid_def sample_fid_def)
qed

lemma write_sb_place: "entry_place write_sb write_fid [3] 0"
proof -
  let ?e = "fat_set_entry_size (fat_set_entry_clu0 (replicate 32 0) 3) 1020"
  have l: "length ?e = 32" by (simp add: fat_set_entry_size_def fat_set_entry_clu0_def)
  have "entry_ptr write_sb 2 0 = (8, 0)" by (simp add: entry_ptr_def START_SECTOR_def write_sb_fields)
  moreover have "load_entry write_sb (8, 0) = ?e" using l by (simp add: load_entry_def write_sb_def slice_at_def)
  moreover have "fat_get_entry_size ?e = 1020" "fat_get_entry_clu0 ?e = 3"
    using fat_codec.size_same [of "fat_set_entry_clu0 (replicate 32 0) 3" 1020] fat_codec.clu0_same [of "replicate 32 0" 3]
      fat_codec.clu0_other(2) [of "fat_set_entry_clu0 (replicate 32 0) 3" 1020]
    by (simp_all add: fat_set_entry_clu0_def)
  ultimately show ?thesis
    by (simp add: entry_place_def entry_agrees_def write_sb_fields write_sb_sizes write_sb_get write_fid_def sample_fid_def one_cluster_def)
qed

lemma write_sb_room: "1 \<le> free_count write_sb"
proof -
  have "4 \<in> {c. 2 \<le> c \<and> c < num_clusters write_sb \<and> fat_get write_sb c = 0}" by (simp add: write_sb_fields write_sb_get)
  then have "0 < free_count write_sb" unfolding free_count_def by (subst card_gt_0_iff) auto
  then show ?thesis by simp
qed

lemma write_sb_args:
  "fid_type write_fid = TYPE_FILE" "rwoffset write_fid = int 1020" "1020 \<le> unat (fid_size write_fid)" "(10 :: u64) \<noteq> 0"
  "unat (10 :: u64) \<le> length (replicate 10 (7 :: u8))" "extra_clusters write_sb [3] 1020 (unat (10 :: u64)) \<le> free_count write_sb"
  "1020 + unat (10 :: u64) < 2 ^ 32" "unat (fid_size write_fid) < 2 ^ 32"
  using write_sb_room by (simp_all add: write_fid_def sample_fid_def extra_clusters_def write_sb_sizes)

text \<open>Ten bytes at the end of the file, the last six of which need a new cluster.\<close>

theorem ffsWriteFile_contents_witness:
  "\<exists>s' fid' c. ffsWriteFile write_sb write_fid (replicate 10 7) 10 = Some (s', fid', Some 10, FFS_SUCCESS) \<and>
    fid_size fid' = 1030 \<and> fat_get write_sb c = 0 \<and> is_chain (fat_get s') 3 [3, c] \<and> file_byte s' [3, c] 1029 = 7"
proof -
  obtain s' fid' cs' where w: "ffsWriteFile write_sb write_fid (replicate 10 7) 10 = Some (s', fid', Some 10, FFS_SUCCESS)"
    and g: "growable s' fid' cs'" and r: "write_result write_sb write_fid [3] 1020 (replicate 10 7) s' fid' cs'"
    using ffsWriteFile_contents [OF write_sb_growable write_sb_args write_sb_place] by auto
  obtain new where new: "cs' = [3] @ new" "length new = 1" "\<forall>c \<in> set new. fat_get write_sb c = 0"
    using r by (auto simp: write_result_def extra_clusters_def write_sb_sizes)
  then obtain c where c: "new = [c]" by (auto simp: length_Suc_conv)
  have "unat (fid_size fid') = 1030" using r by (simp add: write_result_def write_fid_def)
  then have "fid_size fid' = 1030" by (simp add: word_unat_eq_iff)
  moreover have "is_chain (fat_get s') 3 [3, c]" using g new c by (auto simp: growable_def)
  moreover have "file_byte s' [3, c] 1029 = 7" using r new c by (simp add: write_result_def wrote_def write_sb_sizes)
  ultimately show ?thesis using w new c by auto
qed

theorem write_then_read_witness:
  "\<exists>s' fid' t fid2. ffsWriteFile write_sb write_fid (replicate 10 7) 10 = Some (s', fid', Some 10, FFS_SUCCESS) \<and>
    ffsReadFile s' (fid'\<lparr>rwoffset := 1020\<rparr>) 10 = Some (t, fid2, replicate 10 7, Some 10, FFS_SUCCESS)"
  using write_then_read [OF write_sb_growable write_sb_args write_sb_place] by auto

end
