(* ===== verification/FileOps.thy ===== *)
theory FileOps
  imports FileIO
begin

text \<open>
  The operations on the entries of files and directories: \<open>ffsLookupFile\<close>, \<open>ffsCreateFile\<close>, \<open>ffsMoveFile\<close>,
  \<open>ffsRemoveFile\<close>, \<open>ffsSetAttr\<close>, \<open>ffsGetStat\<close>, \<open>ffsSetStat\<close>, \<open>ffsCreateDir\<close>, \<open>ffsReadDir\<close> and \<open>ffsRemoveDir\<close> of
  \<open>exfat_core.c\<close>.
\<close>

section \<open>Looking up and creating\<close>

definition lookup_fid :: "sb \<Rightarrow> dentry \<Rightarrow> dentry \<Rightarrow> FILE_ID_T \<Rightarrow> FILE_ID_T" where
  "lookup_fid s e e2 fid =
     (let ops = dentry_func s; type = get_entry_type ops e; size = get_entry_size ops e2;
          (flags, clu) = (if type = TYPE_FILE \<and> size = 0 then (new_flags s, CLUSTER_EOF)
                          else (get_entry_flag ops e2, get_entry_clu0 ops e2))
      in fid\<lparr>fid_type := type, rwoffset := 0, hint_last_off := -1, fid_attr := get_entry_attr ops e, fid_size := size,
             fid_flags := flags, start_clu := clu\<rparr>)"

definition ffsLookupFile :: "nls_conf \<Rightarrow> sb \<Rightarrow> inode \<Rightarrow> u8 list \<Rightarrow> FILE_ID_T \<Rightarrow> (sb \<times> inode \<times> FILE_ID_T \<times> ffs) option" where
  "ffsLookupFile conf s inode pathname fid =
     (case resolve_path conf s inode pathname of
        (inode, ret, dir, uni) \<Rightarrow>
          if ret \<noteq> FFS_SUCCESS then Some (s, inode, fid, ret)
          else do {
            (s1, ret, num_entries, dos) \<leftarrow> get_num_entries_and_dos_name conf s dir uni;
            if ret \<noteq> FFS_SUCCESS then Some (s1, inode, fid, ret)
            else do {
              (s2, dentry) \<leftarrow> find_dir_entry s1 dir uni num_entries dos TYPE_ALL;
              if dentry < -1 then Some (s2, inode, fid, FFS_NOTFOUND)
              else let fid = fid\<lparr>fid_dir := dir, fid_entry := dentry\<rparr>
                   in if dentry = -1
                      then Some (s2, inode,
                        fid\<lparr>fid_type := TYPE_DIR, rwoffset := 0, hint_last_off := -1, fid_attr := ATTR_SUBDIR, fid_flags := 0x01,
                            fid_size := 0, start_clu := root_dir s2\<rparr>, eject_ret s2 FFS_SUCCESS)
                      else case open_entry s2 fid ES_2_ENTRIES of
                             (s3, None) \<Rightarrow> Some (s3, inode, fid, FFS_MEDIAERR)
                           | (s3, Some r) \<Rightarrow>
                               Some (s3, inode, lookup_fid s3 (ref_entry s3 r 0) (ref_entry s3 r 1) fid, eject_ret s3 FFS_SUCCESS)
            }
          })"

definition ffsCreateFile :: "nls_conf \<Rightarrow> sb \<Rightarrow> inode \<Rightarrow> u8 list \<Rightarrow> u8 \<Rightarrow> FILE_ID_T \<Rightarrow> (sb \<times> inode \<times> FILE_ID_T \<times> ffs) option" where
  "ffsCreateFile conf s inode pathname mode fid =
     (case resolve_path conf s inode pathname of
        (inode, ret, dir, uni) \<Rightarrow>
          if ret \<noteq> FFS_SUCCESS then Some (s, inode, fid, ret)
          else do {
            (s1, inode, fid, ret) \<leftarrow> create_file conf (fs_set_vol_flags s VOL_DIRTY) inode dir uni mode fid;
            let s2 = delayed_sync s1 in Some (s2, inode, fid, eject_ret s2 ret)
          })"

definition ffsCreateDir :: "nls_conf \<Rightarrow> sb \<Rightarrow> inode \<Rightarrow> u8 list \<Rightarrow> FILE_ID_T \<Rightarrow> (sb \<times> inode \<times> FILE_ID_T \<times> ffs) option" where
  "ffsCreateDir conf s inode pathname fid =
     (case resolve_path conf s inode pathname of
        (inode, ret, dir, uni) \<Rightarrow>
          if ret \<noteq> FFS_SUCCESS then Some (s, inode, fid, ret)
          else do {
            (s1, inode, fid, ret) \<leftarrow> create_dir conf (fs_set_vol_flags s VOL_DIRTY) inode dir uni fid;
            let s2 = delayed_sync s1 in Some (s2, inode, fid, eject_ret s2 ret)
          })"

section \<open>Removing\<close>

text \<open>The clusters of a file; its size is rounded up to clusters.\<close>

definition fid_chain :: "sb \<Rightarrow> FILE_ID_T \<Rightarrow> CHAIN_T" where
  "fid_chain s fid =
     \<lparr>ch_dir = start_clu fid, ch_size = s32_of (uint (drop_bit (unat (cluster_size_bits s)) (fid_size fid - 1))) + 1,
      ch_flags = fid_flags fid\<rparr>"

definition forget_clusters :: "sb \<Rightarrow> FILE_ID_T \<Rightarrow> FILE_ID_T" where
  "forget_clusters s fid = fid\<lparr>fid_size := 0, start_clu := CLUSTER_EOF, fid_flags := new_flags s\<rparr>"

definition ffsRemoveFile :: "sb \<Rightarrow> FILE_ID_T \<Rightarrow> (sb \<times> FILE_ID_T \<times> ffs) option" where
  "ffsRemoveFile s fid =
     (case get_entry_in_dir s (fid_dir fid) (fid_entry fid) of
        (s1, None) \<Rightarrow> Some (s1, fid, FFS_MEDIAERR)
      | (s1, Some (p, _)) \<Rightarrow>
          if get_entry_attr (dentry_func s1) (load_entry s1 p) AND ATTR_READONLY \<noteq> 0 then Some (s1, fid, FFS_PERMISSIONERR)
          else do {
            s2 \<leftarrow> free_cluster (remove_file (fs_set_vol_flags s1 VOL_DIRTY) (fid_dir fid) (fid_entry fid)) (fid_chain s1 fid) False;
            let s3 = delayed_sync s2 in Some (s3, forget_clusters s3 fid, eject_ret s3 FFS_SUCCESS)
          })"

definition ffsRemoveDir :: "sb \<Rightarrow> FILE_ID_T \<Rightarrow> (sb \<times> FILE_ID_T \<times> ffs) option" where
  "ffsRemoveDir s fid =
     (if vol_type s \<noteq> EXFAT \<and> ch_dir (fid_dir fid) \<noteq> root_dir s \<and> fid_entry fid < 2 then Some (s, fid, FFS_PERMISSIONERR)
      else do {
        (s1, is_empty) \<leftarrow> is_dir_empty s (fid_chain s fid);
        if \<not> is_empty then Some (s1, fid, FFS_FILEEXIST)
        else do {
          s2 \<leftarrow> free_cluster (remove_file (fs_set_vol_flags s1 VOL_DIRTY) (fid_dir fid) (fid_entry fid)) (fid_chain s fid) True;
          let s3 = delayed_sync s2 in Some (s3, forget_clusters s3 fid, eject_ret s3 FFS_SUCCESS)
        }
      })"

section \<open>Moving\<close>

definition update_parent_info :: "sb \<Rightarrow> FILE_ID_T \<Rightarrow> FILE_ID_T \<Rightarrow> FILE_ID_T" where
  "update_parent_info s fid parent_fid =
     (if fid_flags parent_fid \<noteq> ch_flags (fid_dir fid)
         \<or> fid_size parent_fid \<noteq> word_of_int (s32_of (push_bit (unat (cluster_size_bits s)) (ch_size (fid_dir fid))))
         \<or> start_clu parent_fid \<noteq> ch_dir (fid_dir fid)
      then fid\<lparr>fid_dir :=
             \<lparr>ch_dir = start_clu parent_fid,
              ch_size = to_s32 (ucast (drop_bit (unat (cluster_size_bits s)) (fid_size parent_fid + ucast (cluster_size s - 1)))),
              ch_flags = fid_flags parent_fid\<rparr>\<rparr>
      else fid)"

text \<open>
  The inodes that \<open>ffsMoveFile\<close> is called with are kept in a store, as the two parents may be the same one: the moved
  file, its parent, the new parent, and the inode that has the new name already, if there is one.
\<close>

type_synonym inodes = "nat \<Rightarrow> inode"

definition fid_at :: "inodes \<Rightarrow> nat \<Rightarrow> FILE_ID_T" where
  "fid_at m i = i_fid (m i)"

definition put_fid :: "inodes \<Rightarrow> nat \<Rightarrow> FILE_ID_T \<Rightarrow> inodes" where
  "put_fid m i fid = m(i := (m i)\<lparr>i_fid := fid\<rparr>)"

text \<open>
  The check of the file that has the new name: an error, the end of the function with an error (\<open>goto out\<close>), or to go on.
\<close>

datatype target = Target_ok | Target_busy | Target_unreadable

definition check_target :: "sb \<Rightarrow> FILE_ID_T \<Rightarrow> (sb \<times> target) option" where
  "check_target s new_fid =
     (case get_entry_in_dir s (fid_dir new_fid) (fid_entry new_fid) of
        (s1, None) \<Rightarrow> Some (s1, Target_unreadable)
      | (s1, Some (p, _)) \<Rightarrow>
          if get_entry_type (dentry_func s1) (load_entry s1 p) = TYPE_DIR then do {
            (s2, is_empty) \<leftarrow> is_dir_empty s1 (fid_chain s1 new_fid);
            Some (s2, if is_empty then Target_ok else Target_busy)
          }
          else Some (s1, Target_ok))"

definition delete_target :: "sb \<Rightarrow> FILE_ID_T \<Rightarrow> sb" where
  "delete_target s new_fid =
     (case get_entry_in_dir s (fid_dir new_fid) (fid_entry new_fid) of
        (s1, None) \<Rightarrow> s1
      | (s1, Some (p, _)) \<Rightarrow>
          (case count_ext_entries s1 (fid_dir new_fid) (fid_entry new_fid) (load_entry s1 p) of
             (s2, num_entries) \<Rightarrow>
               if num_entries < 0 then s2
               else delete_dir_entry s2 (fid_dir new_fid) (fid_entry new_fid) 0 (num_entries + 1)))"

definition move_or_rename :: "nls_conf \<Rightarrow> sb \<Rightarrow> inode \<Rightarrow> CHAIN_T \<Rightarrow> int \<Rightarrow> CHAIN_T \<Rightarrow> UNI_NAME_T \<Rightarrow> FILE_ID_T
    \<Rightarrow> (sb \<times> inode \<times> FILE_ID_T \<times> ffs) option" where
  "move_or_rename conf s inode olddir dentry newdir uni fid =
     (if ch_dir olddir = ch_dir newdir then rename_file conf s inode olddir dentry uni fid
      else move_file conf s inode olddir dentry newdir uni fid)"

definition ffsMoveFile :: "nls_conf \<Rightarrow> sb \<Rightarrow> inodes \<Rightarrow> nat \<Rightarrow> nat \<Rightarrow> nat \<Rightarrow> u8 list \<Rightarrow> nat option \<Rightarrow> (sb \<times> inodes \<times> ffs) option" where
  "ffsMoveFile conf s m old_parent old new_parent new_path new_inode =
     (if new_path = [] then Some (s, m, FFS_ERROR)
      else let m = put_fid m old (update_parent_info s (fid_at m old) (fid_at m old_parent));
               olddir = fid_dir (fid_at m old); dentry = fid_entry (fid_at m old)
           in if vol_type s \<noteq> EXFAT \<and> ch_dir olddir \<noteq> root_dir s \<and> dentry < 2 then Some (s, m, FFS_PERMISSIONERR)
              else case get_entry_in_dir s olddir dentry of
                     (s1, None) \<Rightarrow> Some (s1, m, FFS_MEDIAERR)
                   | (s1, Some (p, _)) \<Rightarrow>
                       if get_entry_attr (dentry_func s1) (load_entry s1 p) AND ATTR_READONLY \<noteq> 0
                       then Some (s1, m, FFS_PERMISSIONERR)
                       else let m = (case new_inode of
                                       None \<Rightarrow> m
                                     | Some i \<Rightarrow> put_fid m i (update_parent_info s1 (fid_at m i) (fid_at m new_parent)))
                            in do {
                              (s2, target) \<leftarrow> (case new_inode of
                                  None \<Rightarrow> Some (s1, Target_ok) | Some i \<Rightarrow> check_target s1 (fid_at m i));
                              if target = Target_busy then Some (s2, m, FFS_FILEEXIST)
                              else if target = Target_unreadable
                              then let s3 = delayed_sync s2 in Some (s3, m, eject_ret s3 FFS_MEDIAERR)
                              else case resolve_path conf s2 (m new_parent) new_path of
                                     (inode, ret, newdir, uni) \<Rightarrow>
                                       if ret \<noteq> FFS_SUCCESS then Some (s2, m(new_parent := inode), ret)
                                       else do {
                                         (s3, inode, fid, ret) \<leftarrow>
                                           move_or_rename conf (fs_set_vol_flags s2 VOL_DIRTY) inode olddir dentry newdir uni
                                             (fid_at (m(new_parent := inode)) old);
                                         let m = put_fid (m(new_parent := inode)) old fid;
                                             s4 = (case new_inode of
                                                     None \<Rightarrow> s3
                                                   | Some i \<Rightarrow> if ret = FFS_SUCCESS then delete_target s3 (fid_at m i) else s3);
                                             s5 = delayed_sync s4
                                         in Some (s5, m, eject_ret s5 ret)
                                       }
                            })"

section \<open>Attributes\<close>

definition is_root_fid :: "sb \<Rightarrow> FILE_ID_T \<Rightarrow> bool" where
  "is_root_fid s fid \<longleftrightarrow> fid_type fid = TYPE_DIR \<and> ch_dir (fid_dir fid) = root_dir s \<and> fid_entry fid = -1"

definition ffsSetAttr :: "sb \<Rightarrow> inode \<Rightarrow> u32 \<Rightarrow> (sb \<times> inode \<times> ffs) option" where
  "ffsSetAttr s inode attr =
     (let fid = i_fid inode
      in if fid_attr fid = attr \<or> is_root_fid s fid then Some (s, inode, eject_ret s FFS_SUCCESS)
         else case open_entry s fid ES_ALL_ENTRIES of
                (s1, None) \<Rightarrow> Some (s1, inode, FFS_MEDIAERR)
              | (s1, Some r) \<Rightarrow>
                  let ops = dentry_func s1; type = get_entry_type ops (ref_entry s1 r 0)
                  in if type = TYPE_FILE \<and> attr AND ATTR_SUBDIR \<noteq> 0 \<or> type = TYPE_DIR \<and> attr AND ATTR_SUBDIR = 0
                     then Some (s1, inode, eject_ret s1 FFS_ERROR)
                     else (case ref_update (fs_set_vol_flags s1 VOL_DIRTY) r 0 (\<lambda>e. set_entry_attr ops e attr) of
                             (s2, r) \<Rightarrow> do {
                               s3 \<leftarrow> ref_commit s2 r;
                               let s4 = delayed_sync s3
                               in Some (s4, inode\<lparr>i_fid := fid\<lparr>fid_attr := attr\<rparr>\<rparr>, eject_ret s4 FFS_SUCCESS)
                             }))"

text \<open>The C strings of \<open>DIR_ENTRY_T\<close> are the bytes up to and including the terminator.\<close>

record DIR_ENTRY_T =
  Name :: "u8 list"
  ShortName :: "u8 list"
  Attr :: u32
  Size :: u64
  NumSubdirs :: u32
  CreateTimestamp :: DATE_TIME_T
  ModifyTimestamp :: DATE_TIME_T
  AccessTimestamp :: DATE_TIME_T

definition zero_time :: DATE_TIME_T where
  "zero_time = \<lparr>Year = 0, Month = 0, Day = 0, Hour = 0, Minute = 0, Second = 0, MilliSecond = 0\<rparr>"

definition date_of :: "TIMESTAMP_T \<Rightarrow> DATE_TIME_T" where
  "date_of tm = \<lparr>Year = tm_year tm, Month = tm_mon tm, Day = tm_day tm, Hour = tm_hour tm, Minute = tm_min tm,
     Second = tm_sec tm, MilliSecond = 0\<rparr>"

definition stamp_of :: "DATE_TIME_T \<Rightarrow> TIMESTAMP_T" where
  "stamp_of t = \<lparr>tm_sec = Second t, tm_min = Minute t, tm_hour = Hour t, tm_day = Day t, tm_mon = Month t, tm_year = Year t\<rparr>"

definition entry_info :: "DENTRY_FUNC_T \<Rightarrow> dentry \<Rightarrow> DIR_ENTRY_T \<Rightarrow> DIR_ENTRY_T" where
  "entry_info ops e info =
     info\<lparr>Attr := get_entry_attr ops e, CreateTimestamp := date_of (get_entry_time ops e TM_CREATE),
          ModifyTimestamp := date_of (get_entry_time ops e TM_MODIFY), AccessTimestamp := zero_time\<rparr>"

text \<open>The long name of an entry; a FAT entry without one has its short name.\<close>

definition entry_name :: "nls_conf \<Rightarrow> sb \<Rightarrow> CHAIN_T \<Rightarrow> int \<Rightarrow> (sb \<Rightarrow> dentry) \<Rightarrow> sb \<times> UNI_NAME_T" where
  "entry_name conf s dir entry ep =
     (case get_uni_name_from_ext_entry s dir entry (uni_name blank_uniname) of
        (s1, us) \<Rightarrow>
          let uni = blank_uniname\<lparr>uni_name := us\<rparr>
          in (s1, if us ! 0 = 0 \<and> vol_type s1 \<noteq> EXFAT then get_uni_name_from_dos_entry conf (ep s1) uni 0x1 else uni))"

definition cstring_of :: "nls_conf \<Rightarrow> UNI_NAME_T \<Rightarrow> u8 list" where
  "cstring_of conf uni = nls_uniname_to_cstring (utf16_to_utf8 conf) (nls_io conf) uni"

definition root_stat :: "sb \<Rightarrow> DIR_ENTRY_T \<Rightarrow> (sb \<times> DIR_ENTRY_T \<times> ffs) option" where
  "root_stat s info =
     (let dir = \<lparr>ch_dir = root_dir s, ch_size = 0, ch_flags = 0x01\<rparr>;
          info = info\<lparr>Attr := ATTR_SUBDIR, CreateTimestamp := zero_time, ModifyTimestamp := zero_time, AccessTimestamp := zero_time,
                      ShortName := [PERIOD, 0], Name := [PERIOD, 0]\<rparr>;
          (s1, size) = (if root_dir s = 0 then (s, ucast (push_bit DENTRY_SIZE_BITS (dentries_in_root s)))
                        else case count_num_clusters s dir of
                               (t, n) \<Rightarrow> (t, word_of_int (s32_of (push_bit (unat (cluster_size_bits s)) n))));
          info = info\<lparr>Size := size\<rparr>
      in do {
        (s2, count) \<leftarrow> count_dos_name_entries s1 dir TYPE_DIR;
        if count < 0 then Some (s2, info, FFS_MEDIAERR)
        else Some (s2, info\<lparr>NumSubdirs := word_of_int count\<rparr>, eject_ret s2 FFS_SUCCESS)
      })"

text \<open>The size and the number of subdirectories of a directory, which is taken to be linked by the table.\<close>

definition dir_stat :: "sb \<Rightarrow> FILE_ID_T \<Rightarrow> DIR_ENTRY_T \<Rightarrow> (sb \<times> DIR_ENTRY_T \<times> ffs) option" where
  "dir_stat s fid info =
     (let dir = \<lparr>ch_dir = start_clu fid, ch_size = 0, ch_flags = 0x01\<rparr>;
          (s1, info) = (if Size info = 0
                        then (case count_num_clusters s dir of
                                (t, n) \<Rightarrow> (t, info\<lparr>Size := push_bit (unat (cluster_size_bits s)) (word_of_int n)\<rparr>))
                        else (s, info))
      in do {
        (s2, count) \<leftarrow> count_dos_name_entries s1 dir TYPE_DIR;
        if count < 0 then Some (s2, info, FFS_MEDIAERR)
        else Some (s2, info\<lparr>NumSubdirs := NumSubdirs info + word_of_int count\<rparr>, eject_ret s2 FFS_SUCCESS)
      })"

definition ffsGetStat :: "nls_conf \<Rightarrow> sb \<Rightarrow> inode \<Rightarrow> DIR_ENTRY_T \<Rightarrow> (sb \<times> DIR_ENTRY_T \<times> ffs) option" where
  "ffsGetStat conf s inode info =
     (let fid = i_fid inode
      in if is_root_fid s fid then root_stat s info
         else case open_entry s fid ES_2_ENTRIES of
                (s1, None) \<Rightarrow> Some (s1, info, FFS_MEDIAERR)
              | (s1, Some r) \<Rightarrow>
                  let ops = dentry_func s1;
                      s2 = (case r of In_set _ \<Rightarrow> s1 | In_dir _ sector \<Rightarrow> buf_lock s1 sector);
                      info = entry_info ops (ref_entry s2 r 0) info;
                      (s3, uni) = entry_name conf s2 (fid_dir fid) (fid_entry fid) (\<lambda>s. ref_entry s r 0);
                      info = info\<lparr>Name := cstring_of conf uni\<rparr>;
                      (s4, info) =
                        (case r of
                           In_set _ \<Rightarrow> (s3, info\<lparr>NumSubdirs := 2\<rparr>)
                         | In_dir _ sector \<Rightarrow>
                             let s4 = buf_unlock s3 sector
                             in (s4, info\<lparr>ShortName := cstring_of conf (get_uni_name_from_dos_entry conf (ref_entry s4 r 0) uni 0x0),
                                          NumSubdirs := 0\<rparr>));
                      info = info\<lparr>Size := get_entry_size ops (ref_entry s4 r 1)\<rparr>
                  in if fid_type fid = TYPE_DIR then dir_stat s4 fid info
                     else Some (s4, info, eject_ret s4 FFS_SUCCESS))"

definition ffsSetStat :: "sb \<Rightarrow> inode \<Rightarrow> DIR_ENTRY_T \<Rightarrow> (sb \<times> ffs) option" where
  "ffsSetStat s inode info =
     (let fid = i_fid inode
      in if is_root_fid s fid then Some (s, eject_ret s FFS_SUCCESS)
         else case open_entry (fs_set_vol_flags s VOL_DIRTY) fid ES_ALL_ENTRIES of
                (s1, None) \<Rightarrow> Some (s1, FFS_MEDIAERR)
              | (s1, Some r) \<Rightarrow>
                  let ops = dentry_func s1;
                      (s2, r) = ref_update s1 r 0 (\<lambda>e.
                        set_entry_time ops (set_entry_time ops (set_entry_attr ops e (Attr info))
                          (stamp_of (CreateTimestamp info)) TM_CREATE) (stamp_of (ModifyTimestamp info)) TM_MODIFY);
                      (s3, r) = ref_update s2 r 1 (\<lambda>e. set_entry_size ops e (Size info))
                  in do { s4 \<leftarrow> ref_commit s3 r; Some (s4, eject_ret s4 FFS_SUCCESS) })"

section \<open>Reading a directory\<close>

text \<open>The cluster that holds the entry \<open>dentry\<close>; \<open>None\<close> if the table cannot be read.\<close>

definition readdir_start :: "sb \<Rightarrow> FILE_ID_T \<Rightarrow> CHAIN_T \<Rightarrow> int \<Rightarrow> sb \<times> CHAIN_T option" where
  "readdir_start s fid dir dentry =
     (if ch_dir dir = 0
      then (s, Some (if dentry = dir_dentries s dir then dir\<lparr>ch_dir := CLUSTER_EOF\<rparr> else dir))
      else let clu_offset = drop_bit (ilog2 (nat (dir_dentries s dir))) dentry
           in if ch_flags dir = 0x03
              then (s, Some (dir\<lparr>ch_dir := ch_dir dir + of_s32 clu_offset, ch_size := ch_size dir - clu_offset\<rparr>))
              else let (n, clu) = (if clu_offset > 0 \<and> hint_last_off fid > 0 \<and> clu_offset \<ge> hint_last_off fid
                                   then (clu_offset - hint_last_off fid, hint_last_clu fid) else (clu_offset, ch_dir dir))
                   in case walk_loop (nat n) s clu of
                        (s1, None) \<Rightarrow> (s1, None) | (s1, Some c) \<Rightarrow> (s1, Some (dir\<lparr>ch_dir := c\<rparr>)))"

text \<open>
  The inner loop: \<open>n\<close> entries remain from index \<open>i\<close> on.  It ends behind the last one or at an unused entry (\<open>Inl\<close> of the
  \<open>dentry\<close> reached), at an entry of a file or directory (its pointer, its sector, \<open>i\<close> and \<open>dentry\<close>), or with an error.
\<close>

fun readdir_entries :: "nat \<Rightarrow> sb \<Rightarrow> CHAIN_T \<Rightarrow> int \<Rightarrow> int \<Rightarrow> sb \<times> (int + (dptr \<times> u32 \<times> int \<times> int) option)" where
  "readdir_entries 0 s clu i dentry = (s, Inl dentry)"
| "readdir_entries (Suc n) s clu i dentry =
     (case get_entry_in_dir s clu i of
        (s1, None) \<Rightarrow> (s1, Inr None)
      | (s1, Some (p, sector)) \<Rightarrow>
          let type = get_entry_type (dentry_func s1) (load_entry s1 p)
          in if type = TYPE_UNUSED then (s1, Inl dentry)
             else if type \<noteq> TYPE_FILE \<and> type \<noteq> TYPE_DIR then readdir_entries n s1 clu (i + 1) (dentry + 1)
             else (s1, Inr (Some (p, sector, i, dentry))))"

definition readdir_fill :: "nls_conf \<Rightarrow> sb \<Rightarrow> FILE_ID_T \<Rightarrow> CHAIN_T \<Rightarrow> CHAIN_T \<Rightarrow> DIR_ENTRY_T \<Rightarrow> dptr \<times> u32 \<times> int \<times> int
    \<Rightarrow> sb \<times> FILE_ID_T \<times> DIR_ENTRY_T \<times> ffs" where
  "readdir_fill conf s fid dir clu info at =
     (case at of (p, sector, i, dentry) \<Rightarrow>
        let s1 = buf_lock s sector; ops = dentry_func s1; info = entry_info ops (load_entry s1 p) info;
            (s2, uni) = entry_name conf s1 dir dentry (\<lambda>s. load_entry s p);
            info = info\<lparr>Name := cstring_of conf uni\<rparr>; s3 = buf_unlock s2 sector;
            info = (if vol_type s3 = EXFAT then info
                    else info\<lparr>ShortName := cstring_of conf (get_uni_name_from_dos_entry conf (load_entry s3 p) uni 0x0)\<rparr>)
        in case (if vol_type s3 = EXFAT then get_entry_in_dir s3 clu (i + 1) else (s3, Some (p, sector))) of
             (s4, None) \<Rightarrow> (s4, fid, info, FFS_MEDIAERR)
           | (s4, Some (p2, _)) \<Rightarrow>
               let info = info\<lparr>Size := get_entry_size ops (load_entry s4 p2)\<rparr>;
                   fid = (if ch_dir dir = 0 then fid
                          else fid\<lparr>hint_last_off := drop_bit (ilog2 (nat (dir_dentries s4 dir))) dentry,
                                   hint_last_clu := ch_dir clu\<rparr>)
               in (s4, fid\<lparr>rwoffset := dentry + 1\<rparr>, info, eject_ret s4 FFS_SUCCESS))"

partial_function (option) readdir_loop :: "nls_conf \<Rightarrow> sb \<Rightarrow> FILE_ID_T \<Rightarrow> CHAIN_T \<Rightarrow> CHAIN_T \<Rightarrow> int \<Rightarrow> DIR_ENTRY_T
    \<Rightarrow> (sb \<times> FILE_ID_T \<times> DIR_ENTRY_T \<times> ffs) option" where
  "readdir_loop conf s fid dir clu dentry info =
     (let done = (\<lambda>s dentry. (s, fid\<lparr>rwoffset := dentry + 1\<rparr>, info\<lparr>Name := [0]\<rparr>, eject_ret s FFS_SUCCESS));
          dentries = dir_dentries s dir
      in if ch_dir clu = CLUSTER_EOF \<or> dev_ejected s then Some (done s dentry)
         else let i = (if ch_dir dir = 0 then dentry mod dentries else dentry AND (dentries - 1))
              in case readdir_entries (nat (dentries - i)) s clu i dentry of
                   (s1, Inr None) \<Rightarrow> Some (s1, fid, info, FFS_MEDIAERR)
                 | (s1, Inr (Some at)) \<Rightarrow> Some (readdir_fill conf s1 fid dir clu info at)
                 | (s1, Inl dentry) \<Rightarrow>
                     if ch_dir dir = 0 then Some (done s1 dentry)
                     else if ch_flags clu = 0x03
                     then readdir_loop conf s1 fid dir
                            (clu\<lparr>ch_size := ch_size clu - 1,
                                 ch_dir := (if ch_size clu - 1 > 0 then ch_dir clu + 1 else CLUSTER_EOF)\<rparr>) dentry info
                     else case FAT_read s1 (ch_dir clu) of
                            (s2, None) \<Rightarrow> Some (s2, fid, info, FFS_MEDIAERR)
                          | (s2, Some c) \<Rightarrow> readdir_loop conf s2 fid dir (clu\<lparr>ch_dir := c\<rparr>) dentry info)"

definition ffsReadDir :: "nls_conf \<Rightarrow> sb \<Rightarrow> inode \<Rightarrow> DIR_ENTRY_T \<Rightarrow> (sb \<times> inode \<times> DIR_ENTRY_T \<times> ffs) option" where
  "ffsReadDir conf s inode info =
     (let fid = i_fid inode; dentry = s32_of (rwoffset fid);
          dir = (if fid_entry fid = -1 then \<lparr>ch_dir = root_dir s, ch_size = 0, ch_flags = 0x01\<rparr>
                 else \<lparr>ch_dir = start_clu fid,
                       ch_size = to_s32 (ucast (drop_bit (unat (cluster_size_bits s)) (fid_size fid))), ch_flags = fid_flags fid\<rparr>)
      in if fid_type fid \<noteq> TYPE_DIR then Some (s, inode, info, FFS_PERMISSIONERR)
         else case readdir_start s fid dir dentry of
                (s1, None) \<Rightarrow> Some (s1, inode, info, FFS_MEDIAERR)
              | (s1, Some clu) \<Rightarrow> do {
                  (s2, fid, info, ret) \<leftarrow> readdir_loop conf s1 fid dir clu dentry info;
                  Some (s2, inode\<lparr>i_fid := fid\<rparr>, info, ret)
                })"

end
