(* ===== verification/Api.thy ===== *)
theory Api
  imports FileOps CacheOps
begin

text \<open>
  The interface of the driver, \<open>exfat_api.c\<close>: each function checks its pointer arguments, takes the semaphore of the
  volume, calls the operation of \<open>exfat_core.c\<close> and releases the semaphore.  A pointer argument is an option, \<open>None\<close> for
  \<open>NULL\<close>.  A semaphore is its count (\<open>exfat_oal.c\<close>); the result \<open>None\<close> of a function says that it does not return,
  because its operation does not or because \<open>down\<close> waits for ever.
\<close>

section \<open>Semaphores\<close>

definition sm_Init :: nat where
  "sm_Init = 1"

definition sm_P :: "nat \<Rightarrow> nat option" where
  "sm_P sm = (if sm = 0 then None else Some (sm - 1))"

definition sm_V :: "nat \<Rightarrow> nat" where
  "sm_V sm = sm + 1"

text \<open>A volume with its semaphore, and the semaphore of the module.\<close>

record fsys =
  vol :: sb
  v_sem :: nat
  z_sem :: nat

definition locked_op :: "fsys \<Rightarrow> (sb \<Rightarrow> (sb \<times> 'r) option) \<Rightarrow> (fsys \<times> 'r) option" where
  "locked_op f op =
     do {
       sem \<leftarrow> sm_P (v_sem f);
       (s, r) \<leftarrow> op (vol f);
       Some (f\<lparr>vol := s, v_sem := sm_V sem\<rparr>, r)
     }"

section \<open>Volumes\<close>

definition FsInit :: ffs where "FsInit = ffsInit"
definition FsShutdown :: ffs where "FsShutdown = ffsShutdown"

text \<open>\<open>ffsMountVol\<close> sets up the semaphore of the volume first.\<close>

definition FsMountVol :: "(sb \<Rightarrow> int \<Rightarrow> sb) \<Rightarrow> fsys \<Rightarrow> (fsys \<times> ffs) option" where
  "FsMountVol set_blocksize f =
     do {
       sem \<leftarrow> sm_P (z_sem f);
       (f1, err) \<leftarrow> (case buf_init (vol f) of
           (s, err) \<Rightarrow>
             if err = FFS_SUCCESS
             then do { (s1, err) \<leftarrow> ffsMountVol set_blocksize s; Some (f\<lparr>vol := s1, v_sem := sm_Init\<rparr>, err) }
             else Some (f\<lparr>vol := fst (buf_shutdown s)\<rparr>, err));
       Some (f1\<lparr>z_sem := sm_V sem\<rparr>, err)
     }"

definition FsUmountVol :: "fsys \<Rightarrow> (fsys \<times> ffs) option" where
  "FsUmountVol f =
     do {
       zsem \<leftarrow> sm_P (z_sem f);
       (f1, err) \<leftarrow> locked_op f (\<lambda>s. case ffsUmountVol s of (s1, err) \<Rightarrow> Some (fst (buf_shutdown s1), err));
       Some (f1\<lparr>z_sem := sm_V zsem\<rparr>, err)
     }"

definition FsGetVolInfo :: "fsys \<Rightarrow> VOL_INFO_T option \<Rightarrow> (fsys \<times> VOL_INFO_T option \<times> ffs) option" where
  "FsGetVolInfo f info =
     (case info of
        None \<Rightarrow> Some (f, None, FFS_ERROR)
      | Some _ \<Rightarrow> locked_op f (\<lambda>s. case ffsGetVolInfo s of (s1, info, err) \<Rightarrow> Some (s1, Some info, err)))"

definition FsSyncVol :: "fsys \<Rightarrow> bool \<Rightarrow> (fsys \<times> ffs) option" where
  "FsSyncVol f do_sync = locked_op f (\<lambda>s. Some (ffsSyncVol s do_sync))"

section \<open>Files\<close>

text \<open>The check of a file identifier and a path: \<open>NULL\<close> or the empty string is an error.\<close>

definition with_path :: "fsys \<Rightarrow> inode \<Rightarrow> u8 list option \<Rightarrow> FILE_ID_T option
    \<Rightarrow> (u8 list \<Rightarrow> FILE_ID_T \<Rightarrow> sb \<Rightarrow> (sb \<times> inode \<times> FILE_ID_T \<times> ffs) option)
    \<Rightarrow> (fsys \<times> inode \<times> FILE_ID_T option \<times> ffs) option" where
  "with_path f inode pathname fid op =
     (case fid of
        None \<Rightarrow> Some (f, inode, fid, FFS_ERROR)
      | Some fid' \<Rightarrow>
          (case pathname of
             None \<Rightarrow> Some (f, inode, fid, FFS_ERROR)
           | Some pn \<Rightarrow>
               if pn = [] then Some (f, inode, fid, FFS_ERROR)
               else locked_op f (\<lambda>s. do { (s1, inode, fid, err) \<leftarrow> op pn fid' s; Some (s1, inode, Some fid, err) })))"

definition FsLookupFile :: "nls_conf \<Rightarrow> fsys \<Rightarrow> inode \<Rightarrow> u8 list option \<Rightarrow> FILE_ID_T option
    \<Rightarrow> (fsys \<times> inode \<times> FILE_ID_T option \<times> ffs) option" where
  "FsLookupFile conf f inode pathname fid = with_path f inode pathname fid (\<lambda>pn fid s. ffsLookupFile conf s inode pn fid)"

definition FsCreateFile :: "nls_conf \<Rightarrow> fsys \<Rightarrow> inode \<Rightarrow> u8 list option \<Rightarrow> u8 \<Rightarrow> FILE_ID_T option
    \<Rightarrow> (fsys \<times> inode \<times> FILE_ID_T option \<times> ffs) option" where
  "FsCreateFile conf f inode pathname mode fid =
     with_path f inode pathname fid (\<lambda>pn fid s. ffsCreateFile conf s inode pn mode fid)"

text \<open>The buffer of a read is only tested for \<open>NULL\<close> here; the bytes read are part of the result.\<close>

definition FsReadFile :: "fsys \<Rightarrow> FILE_ID_T option \<Rightarrow> u8 list option \<Rightarrow> u64
    \<Rightarrow> (fsys \<times> FILE_ID_T option \<times> u8 list \<times> u64 option \<times> ffs) option" where
  "FsReadFile f fid buffer count =
     (case fid of
        None \<Rightarrow> Some (f, fid, [], None, FFS_INVALIDFID)
      | Some fid' \<Rightarrow>
          if buffer = None then Some (f, fid, [], None, FFS_ERROR)
          else locked_op f (\<lambda>s. do {
            (s1, fid, bytes, rcount, err) \<leftarrow> ffsReadFile s fid' count; Some (s1, Some fid, bytes, rcount, err) }))"

definition FsWriteFile :: "fsys \<Rightarrow> FILE_ID_T option \<Rightarrow> u8 list option \<Rightarrow> u64
    \<Rightarrow> (fsys \<times> FILE_ID_T option \<times> u64 option \<times> ffs) option" where
  "FsWriteFile f fid buffer count =
     (case fid of
        None \<Rightarrow> Some (f, fid, None, FFS_INVALIDFID)
      | Some fid' \<Rightarrow>
          (case buffer of
             None \<Rightarrow> Some (f, fid, None, FFS_ERROR)
           | Some bytes \<Rightarrow> locked_op f (\<lambda>s. do {
               (s1, fid, wcount, err) \<leftarrow> ffsWriteFile s fid' bytes count; Some (s1, Some fid, wcount, err) })))"

definition FsTruncateFile :: "fsys \<Rightarrow> inode \<Rightarrow> u64 \<Rightarrow> u64 \<Rightarrow> (fsys \<times> inode \<times> ffs) option" where
  "FsTruncateFile f inode old_size new_size = locked_op f (\<lambda>s. ffsTruncateFile s inode old_size new_size)"

text \<open>The identifier of the moved file is the inode \<open>old\<close> of the store, \<open>None\<close> for \<open>NULL\<close>.\<close>

definition FsMoveFile :: "nls_conf \<Rightarrow> fsys \<Rightarrow> inodes \<Rightarrow> nat \<Rightarrow> nat option \<Rightarrow> nat \<Rightarrow> u8 list \<Rightarrow> nat option
    \<Rightarrow> (fsys \<times> inodes \<times> ffs) option" where
  "FsMoveFile conf f m old_parent old new_parent new_path new_inode =
     (case old of
        None \<Rightarrow> Some (f, m, FFS_INVALIDFID)
      | Some i \<Rightarrow> locked_op f (\<lambda>s. ffsMoveFile conf s m old_parent i new_parent new_path new_inode))"

definition with_fid :: "fsys \<Rightarrow> FILE_ID_T option \<Rightarrow> (FILE_ID_T \<Rightarrow> sb \<Rightarrow> (sb \<times> FILE_ID_T \<times> ffs) option)
    \<Rightarrow> (fsys \<times> FILE_ID_T option \<times> ffs) option" where
  "with_fid f fid op =
     (case fid of
        None \<Rightarrow> Some (f, None, FFS_INVALIDFID)
      | Some fid' \<Rightarrow> locked_op f (\<lambda>s. do { (s1, fid, err) \<leftarrow> op fid' s; Some (s1, Some fid, err) }))"

definition FsRemoveFile :: "fsys \<Rightarrow> FILE_ID_T option \<Rightarrow> (fsys \<times> FILE_ID_T option \<times> ffs) option" where
  "FsRemoveFile f fid = with_fid f fid (\<lambda>fid s. ffsRemoveFile s fid)"

definition FsSetAttr :: "fsys \<Rightarrow> inode \<Rightarrow> u32 \<Rightarrow> (fsys \<times> inode \<times> ffs) option" where
  "FsSetAttr f inode attr = locked_op f (\<lambda>s. ffsSetAttr s inode attr)"

definition FsReadStat :: "nls_conf \<Rightarrow> fsys \<Rightarrow> inode \<Rightarrow> DIR_ENTRY_T \<Rightarrow> (fsys \<times> DIR_ENTRY_T \<times> ffs) option" where
  "FsReadStat conf f inode info = locked_op f (\<lambda>s. ffsGetStat conf s inode info)"

definition FsWriteStat :: "fsys \<Rightarrow> inode \<Rightarrow> DIR_ENTRY_T \<Rightarrow> (fsys \<times> ffs) option" where
  "FsWriteStat f inode info = locked_op f (\<lambda>s. ffsSetStat s inode info)"

definition FsMapCluster :: "fsys \<Rightarrow> inode \<Rightarrow> int \<Rightarrow> u32 option \<Rightarrow> (fsys \<times> inode \<times> u32 option \<times> ffs) option" where
  "FsMapCluster f inode clu_offset clu =
     (case clu of
        None \<Rightarrow> Some (f, inode, None, FFS_ERROR)
      | Some _ \<Rightarrow> locked_op f (\<lambda>s. do {
          (s1, inode, c, err) \<leftarrow> ffsMapCluster s inode clu_offset; Some (s1, inode, Some c, err) }))"

section \<open>Directories\<close>

definition FsCreateDir :: "nls_conf \<Rightarrow> fsys \<Rightarrow> inode \<Rightarrow> u8 list option \<Rightarrow> FILE_ID_T option
    \<Rightarrow> (fsys \<times> inode \<times> FILE_ID_T option \<times> ffs) option" where
  "FsCreateDir conf f inode pathname fid = with_path f inode pathname fid (\<lambda>pn fid s. ffsCreateDir conf s inode pn fid)"

definition FsReadDir :: "nls_conf \<Rightarrow> fsys \<Rightarrow> inode \<Rightarrow> DIR_ENTRY_T option \<Rightarrow> (fsys \<times> inode \<times> DIR_ENTRY_T option \<times> ffs) option" where
  "FsReadDir conf f inode dir_entry =
     (case dir_entry of
        None \<Rightarrow> Some (f, inode, None, FFS_ERROR)
      | Some info \<Rightarrow> locked_op f (\<lambda>s. do {
          (s1, inode, info, err) \<leftarrow> ffsReadDir conf s inode info; Some (s1, inode, Some info, err) }))"

definition FsRemoveDir :: "fsys \<Rightarrow> FILE_ID_T option \<Rightarrow> (fsys \<times> FILE_ID_T option \<times> ffs) option" where
  "FsRemoveDir f fid = with_fid f fid (\<lambda>fid s. ffsRemoveDir s fid)"

text \<open>Compiled with \<open>CONFIG_EXFAT_KERNEL_DEBUG\<close> only.\<close>

definition FsReleaseCache :: "fsys \<Rightarrow> (fsys \<times> int) option" where
  "FsReleaseCache f = locked_op f (\<lambda>s. Some (buf_release_all (FAT_release_all s), 0))"

end
