(* ===== verification/ApiProps.thy ===== *)
theory ApiProps
  imports Api
begin

text \<open>
  The semaphores of the interface: every function gives back what it takes, on its error paths too, and gets at the volume only with the
  semaphore of the volume.
\<close>

section \<open>Calls\<close>

text \<open>\<open>volume_call f g\<close>: a call of a function that works on a mounted volume, with any arguments, returns and leaves \<open>g\<close>.\<close>

inductive volume_call :: "fsys \<Rightarrow> fsys \<Rightarrow> bool" where
  vol_info_call: "FsGetVolInfo f info = Some (g, info1, err) \<Longrightarrow> volume_call f g"
| sync_call: "FsSyncVol f do_sync = Some (g, err) \<Longrightarrow> volume_call f g"
| lookup_call: "FsLookupFile conf f i pn fid = Some (g, i1, fid1, err) \<Longrightarrow> volume_call f g"
| create_call: "FsCreateFile conf f i pn mode fid = Some (g, i1, fid1, err) \<Longrightarrow> volume_call f g"
| read_call: "FsReadFile f fid buf n = Some (g, fid1, bytes, rcount, err) \<Longrightarrow> volume_call f g"
| write_call: "FsWriteFile f fid buf n = Some (g, fid1, wcount, err) \<Longrightarrow> volume_call f g"
| truncate_call: "FsTruncateFile f i old_size new_size = Some (g, i1, err) \<Longrightarrow> volume_call f g"
| move_call: "FsMoveFile conf f m d old e name new = Some (g, m1, err) \<Longrightarrow> volume_call f g"
| remove_call: "FsRemoveFile f fid = Some (g, fid1, err) \<Longrightarrow> volume_call f g"
| set_attr_call: "FsSetAttr f i attr = Some (g, i1, err) \<Longrightarrow> volume_call f g"
| read_stat_call: "FsReadStat conf f i info = Some (g, info1, err) \<Longrightarrow> volume_call f g"
| write_stat_call: "FsWriteStat f i info = Some (g, err) \<Longrightarrow> volume_call f g"
| map_call: "FsMapCluster f i offset clu = Some (g, i1, clu1, err) \<Longrightarrow> volume_call f g"
| create_dir_call: "FsCreateDir conf f i pn fid = Some (g, i1, fid1, err) \<Longrightarrow> volume_call f g"
| read_dir_call: "FsReadDir conf f i entry = Some (g, i1, entry1, err) \<Longrightarrow> volume_call f g"
| remove_dir_call: "FsRemoveDir f fid = Some (g, fid1, err) \<Longrightarrow> volume_call f g"
| release_call: "FsReleaseCache f = Some (g, n) \<Longrightarrow> volume_call f g"

text \<open>Any call, mounting and unmounting too.\<close>

inductive api_call :: "fsys \<Rightarrow> fsys \<Rightarrow> bool" where
  on_volume: "volume_call f g \<Longrightarrow> api_call f g"
| mount_call: "FsMountVol set_blocksize f = Some (g, err) \<Longrightarrow> api_call f g"
| umount_call: "FsUmountVol f = Some (g, err) \<Longrightarrow> api_call f g"

lemma locked_op_some:
  assumes "locked_op f op = Some (g, r)"
  shows "0 < v_sem f" "\<exists>s. op (vol f) = Some (s, r) \<and> g = f\<lparr>vol := s\<rparr>"
  using assms by (cases f; auto simp: locked_op_def sm_P_def sm_V_def bind_eq_Some_conv split: if_splits)+

text \<open>A call has the semaphore while it works on the volume, or it changes nothing.\<close>

lemma locked_call: "locked_op f op = Some (g, r) \<Longrightarrow> g = f \<or> 0 < v_sem f \<and> (\<exists>s. g = f\<lparr>vol := s\<rparr>)"
  using locked_op_some [of f op g r] by blast

lemmas call_defs = FsGetVolInfo_def FsSyncVol_def FsLookupFile_def FsCreateFile_def FsReadFile_def FsWriteFile_def FsTruncateFile_def
  FsMoveFile_def FsRemoveFile_def FsSetAttr_def FsReadStat_def FsWriteStat_def FsMapCluster_def FsCreateDir_def FsReadDir_def
  FsRemoveDir_def FsReleaseCache_def with_path_def with_fid_def

lemma volume_call_locked:
  assumes "volume_call f g"
  shows "g = f \<or> 0 < v_sem f \<and> (\<exists>s. g = f\<lparr>vol := s\<rparr>)"
  using assms by cases (auto simp: call_defs split: option.splits if_splits dest!: locked_call)

lemma mount_sems:
  assumes "FsMountVol set_blocksize f = Some (g, err)"
  shows "0 < z_sem f" "z_sem g = z_sem f" "v_sem g = v_sem f \<or> v_sem g = sm_Init"
  using assms by (auto simp: FsMountVol_def sm_P_def sm_V_def bind_eq_Some_conv split: if_splits prod.splits)

lemma locked_op_free: "locked_op f op = Some (g, r) \<Longrightarrow> 0 < v_sem f \<and> v_sem g = v_sem f \<and> z_sem g = z_sem f"
  using locked_op_some [of f op g r] by auto

lemma umount_sems:
  assumes "FsUmountVol f = Some (g, err)"
  shows "0 < z_sem f" "0 < v_sem f" "z_sem g = z_sem f" "v_sem g = v_sem f"
  using assms by (auto simp: FsUmountVol_def sm_P_def sm_V_def bind_eq_Some_conv split: if_splits dest!: locked_op_free)

lemma api_call_sems: "api_call f g \<Longrightarrow> z_sem g = z_sem f \<and> (v_sem g = v_sem f \<or> v_sem g = sm_Init)"
proof (induction rule: api_call.induct)
  case (on_volume f g)
  then show ?case using volume_call_locked by fastforce
next
  case (mount_call set_blocksize f g err)
  then show ?case using mount_sems by blast
next
  case (umount_call f g err)
  then show ?case using umount_sems by blast
qed

section \<open>Properties\<close>

text \<open>
  C37: after any sequence of calls of the interface, with whatever arguments and whatever errors, both semaphores are free as they were before,
  and so the next call does not wait: an unmount returns, and so does a sync.  While somebody else has the semaphore of the
  volume, a call waits or, for a bad argument, returns with nothing changed, and unmounting waits; while somebody else mounts or unmounts,
  mounting and unmounting wait.
\<close>

theorem api_calls_balanced:
  assumes "api_call\<^sup>*\<^sup>* f g" "v_sem f = sm_Init" "z_sem f = sm_Init"
  shows "v_sem g = sm_Init \<and> z_sem g = sm_Init \<and> FsUmountVol g \<noteq> None \<and> FsSyncVol g do_sync \<noteq> None \<and>
    (\<forall>h. volume_call (g\<lparr>v_sem := 0\<rparr>) h \<longrightarrow> h = g\<lparr>v_sem := 0\<rparr>) \<and> FsUmountVol (g\<lparr>v_sem := 0\<rparr>) = None \<and>
    FsUmountVol (g\<lparr>z_sem := 0\<rparr>) = None \<and> FsMountVol set_blocksize (g\<lparr>z_sem := 0\<rparr>) = None"
proof -
  have sems: "v_sem g = sm_Init \<and> z_sem g = sm_Init"
    using assms by (induction rule: rtranclp_induct) (auto dest: api_call_sems)
  then have "FsUmountVol g \<noteq> None" "FsSyncVol g do_sync \<noteq> None"
    by (simp_all add: FsUmountVol_def FsSyncVol_def locked_op_def sm_P_def sm_Init_def split: prod.split)
  moreover have "volume_call (g\<lparr>v_sem := 0\<rparr>) h \<Longrightarrow> h = g\<lparr>v_sem := 0\<rparr>" for h using volume_call_locked by fastforce
  moreover have "FsUmountVol (g\<lparr>v_sem := 0\<rparr>) = None" using umount_sems(2) [of "g\<lparr>v_sem := 0\<rparr>"] by (cases "FsUmountVol (g\<lparr>v_sem := 0\<rparr>)") auto
  moreover have "FsUmountVol (g\<lparr>z_sem := 0\<rparr>) = None" using umount_sems(1) [of "g\<lparr>z_sem := 0\<rparr>"] by (cases "FsUmountVol (g\<lparr>z_sem := 0\<rparr>)") auto
  moreover have "FsMountVol set_blocksize (g\<lparr>z_sem := 0\<rparr>) = None"
    using mount_sems(1) [of set_blocksize "g\<lparr>z_sem := 0\<rparr>"] by (cases "FsMountVol set_blocksize (g\<lparr>z_sem := 0\<rparr>)") auto
  ultimately show ?thesis using sems by blast
qed

definition sample_fsys :: fsys where
  "sample_fsys = \<lparr>vol = sample_sb FAT16, v_sem = sm_Init, z_sem = sm_Init\<rparr>"

text \<open>A sync, a write without a buffer, and then an unmount.\<close>

theorem api_calls_balanced_witness:
  "\<exists>g h e. FsSyncVol sample_fsys True = Some (g, e) \<and> FsWriteFile g None None 5 = Some (g, None, None, FFS_INVALIDFID) \<and>
    v_sem g = 1 \<and> FsUmountVol g = Some h"
proof -
  obtain g e where g: "FsSyncVol sample_fsys True = Some (g, e)"
    by (cases "ffsSyncVol (sample_sb FAT16) True") (auto simp: FsSyncVol_def locked_op_def sm_P_def sample_fsys_def sm_Init_def)
  have w: "FsWriteFile g None None 5 = Some (g, None, None, FFS_INVALIDFID)" by (simp add: FsWriteFile_def)
  have "api_call sample_fsys g" "api_call g g" using g w by (blast intro: api_call.on_volume volume_call.intros)+
  then have "api_call\<^sup>*\<^sup>* sample_fsys g" by (meson rtranclp.rtrancl_into_rtrancl r_into_rtranclp)
  from api_calls_balanced [OF this] show ?thesis using g w by (auto simp: sample_fsys_def sm_Init_def)
qed

end
