(* ===== verification/Vfs.thy ===== *)
theory Vfs
  imports Api Clock
begin

text \<open>
  The inodes of the driver: \<open>exfat_super.h\<close> and the part of \<open>exfat_super.c\<close> that all operations of the VFS layer use.
  The code is read for a 64-bit kernel of version 4.7.  A \<open>struct inode *\<close> is the number of the inode in the store
  \<open>vnode_at\<close>; a \<open>vnode\<close> is the \<open>inode\<close> of the operations below it, extended by the fields of the VFS layer.  The services
  of the kernel that do more than read or write a field are the record \<open>kernel\<close>, an argument of the functions that call
  them.  The lock of the super block is a flag, and taking it twice does not return (\<open>None\<close>).
\<close>

section \<open>Constants\<close>

abbreviation (input) EPERM :: int where "EPERM \<equiv> 1"
abbreviation (input) ENOENT :: int where "ENOENT \<equiv> 2"
abbreviation (input) EIO :: int where "EIO \<equiv> 5"
abbreviation (input) ECHILD :: int where "ECHILD \<equiv> 10"
abbreviation (input) ENOMEM :: int where "ENOMEM \<equiv> 12"
abbreviation (input) EFAULT :: int where "EFAULT \<equiv> 14"
abbreviation (input) EBUSY :: int where "EBUSY \<equiv> 16"
abbreviation (input) EEXIST :: int where "EEXIST \<equiv> 17"
abbreviation (input) EINVAL :: int where "EINVAL \<equiv> 22"
abbreviation (input) ENOTTY :: int where "ENOTTY \<equiv> 25"
abbreviation (input) ENOSPC :: int where "ENOSPC \<equiv> 28"
abbreviation (input) ENAMETOOLONG :: int where "ENAMETOOLONG \<equiv> 36"
abbreviation (input) ENOTEMPTY :: int where "ENOTEMPTY \<equiv> 39"

text \<open>The bits of a mode, \<open>0222\<close>, \<open>0444\<close> and so on in the octal of the C code.\<close>

abbreviation (input) S_IWUGO :: "'a::len word" where "S_IWUGO \<equiv> 0x92"
abbreviation (input) S_IRUGO :: "'a::len word" where "S_IRUGO \<equiv> 0x124"
abbreviation (input) S_IXUGO :: "'a::len word" where "S_IXUGO \<equiv> 0x49"
abbreviation (input) S_IRWXUGO :: "'a::len word" where "S_IRWXUGO \<equiv> 0x1FF"
abbreviation (input) S_IWGRP :: "'a::len word" where "S_IWGRP \<equiv> 0x10"
abbreviation (input) S_IWOTH :: "'a::len word" where "S_IWOTH \<equiv> 0x02"
abbreviation (input) S_IFMT :: "'a::len word" where "S_IFMT \<equiv> 0xF000"
abbreviation (input) S_IFDIR :: "'a::len word" where "S_IFDIR \<equiv> 0x4000"
abbreviation (input) S_IFREG :: "'a::len word" where "S_IFREG \<equiv> 0x8000"
abbreviation (input) S_IFLNK :: "'a::len word" where "S_IFLNK \<equiv> 0xA000"
abbreviation (input) ATTR_RWMASK :: u32 where "ATTR_RWMASK \<equiv> 0x007E"
abbreviation (input) EXFAT_ROOT_INO :: u64 where "EXFAT_ROOT_INO \<equiv> 1"
abbreviation (input) EXFAT_HASH_BITS :: nat where "EXFAT_HASH_BITS \<equiv> 8"
abbreviation (input) EXFAT_HASH_SIZE :: nat where "EXFAT_HASH_SIZE \<equiv> 256"

definition S_ISDIR :: "u16 \<Rightarrow> bool" where "S_ISDIR m \<longleftrightarrow> m AND S_IFMT = S_IFDIR"
definition S_ISREG :: "u16 \<Rightarrow> bool" where "S_ISREG m \<longleftrightarrow> m AND S_IFMT = S_IFREG"
definition S_ISLNK :: "u16 \<Rightarrow> bool" where "S_ISLNK m \<longleftrightarrow> m AND S_IFMT = S_IFLNK"

section \<open>Options and inodes\<close>

text \<open>
  The pointer \<open>iocharset\<close> goes to the default name, to a copy that the driver owns, or to a copy that has been freed.
\<close>

datatype charset_ref = Default_charset | Own_charset string | Freed_charset

record exfat_mount_options =
  fs_uid :: u32
  fs_gid :: u32
  fs_fmask :: u16
  fs_dmask :: u16
  allow_utime :: u16
  codepage :: u16
  iocharset :: charset_ref
  opt_casesensitive :: u8
  opt_on_error :: errors_opt
  opt_discard :: bool

datatype iops = No_ops | Dir_ops | Symlink_ops | File_ops

text \<open>Times are seconds, as all the code stores a zero next to them.\<close>

record vnode = inode +
  i_ino :: u64
  i_mode :: u16
  i_uid :: u32
  i_gid :: u32
  i_nlink :: u32
  i_version :: u64
  i_generation :: u32
  i_mtime :: int
  i_ctime :: int
  i_atime :: int
  i_op :: iops
  i_pos :: u64
  i_target :: "u8 list option"
  i_dirty :: bool
  i_sync :: bool
  i_dirsync :: bool

record vfs =
  kfs :: fsys
  conf :: nls_conf
  opts :: exfat_mount_options
  vnode_at :: "nat \<Rightarrow> vnode"
  inode_hashtable :: "nat \<Rightarrow> nat list"
  s_lock :: bool
  s_fs_info :: bool
  s_nodiratime :: bool
  s_magic :: u32
  s_maxbytes :: u64
  s_ci_names :: bool
  s_root :: "nat option"
  nls_disk_loaded :: bool

text \<open>
  A \<open>struct dentry\<close>: its name, the inode of its parent, its own inode (\<open>None\<close> for a negative entry), its time stamp and
  its place in the cache of the kernel.  A \<open>struct dir_context\<close> is the position and what has been handed to the caller:
  name, inode number and type.
\<close>

record kdentry =
  d_name :: "u8 list"
  d_parent :: nat
  d_inode :: "nat option"
  d_time :: u64
  d_is_root :: bool
  d_disconnected :: bool
  d_unhashed :: bool

record dir_context =
  ctx_pos :: int
  ctx_out :: "(u8 list \<times> u64 \<times> u8) list"

text \<open>
  \<open>igrab\<close> fails for an inode that is being freed; \<open>stack_info\<close> and \<open>stack_fid\<close> are what a local
  \<open>DIR_ENTRY_T\<close> and a local \<open>FILE_ID_T\<close> hold before they are written, \<open>heap_junk n\<close> is what \<open>n\<close> fresh bytes hold.
\<close>

record kernel =
  new_inode :: "vfs \<Rightarrow> vfs \<times> nat option"
  igrab :: "vfs \<Rightarrow> nat \<Rightarrow> vfs \<times> bool"
  iput :: "vfs \<Rightarrow> nat \<Rightarrow> vfs"
  iunique :: "vfs \<Rightarrow> u64 \<Rightarrow> u64"
  insert_inode_hash :: "vfs \<Rightarrow> nat \<Rightarrow> vfs"
  remove_inode_hash :: "vfs \<Rightarrow> nat \<Rightarrow> vfs"
  hash_32 :: "u32 \<Rightarrow> nat \<Rightarrow> u32"
  stack_info :: DIR_ENTRY_T
  stack_fid :: FILE_ID_T
  heap_junk :: "nat \<Rightarrow> u8 list"
  d_instantiate :: "kdentry \<Rightarrow> nat \<Rightarrow> kdentry"
  d_find_alias :: "vfs \<Rightarrow> nat \<Rightarrow> kdentry option"
  d_move :: "kdentry \<Rightarrow> kdentry \<Rightarrow> kdentry"
  d_splice_alias :: "vfs \<Rightarrow> nat option \<Rightarrow> kdentry \<Rightarrow> vfs \<times> kdentry option"
  dir_emit :: "dir_context \<Rightarrow> u8 list \<Rightarrow> u64 \<Rightarrow> u8 \<Rightarrow> dir_context \<times> bool"
  dir_emit_dots :: "vfs \<Rightarrow> nat \<Rightarrow> dir_context \<Rightarrow> dir_context \<times> bool"

definition core :: "vnode \<Rightarrow> inode" where
  "core n = inode.truncate n"

definition put_core :: "inode \<Rightarrow> vnode \<Rightarrow> vnode" where
  "put_core c n = inode.extend c (inode.more n)"

definition upd_node :: "nat \<Rightarrow> (vnode \<Rightarrow> vnode) \<Rightarrow> vfs \<Rightarrow> vfs" where
  "upd_node i f v = v\<lparr>vnode_at := (vnode_at v)(i := f (vnode_at v i))\<rparr>"

text \<open>Reading the two halves of an inode, and the store of inodes.\<close>

lemma core_fields [simp]:
  "i_fid (core n) = i_fid n" "inode.i_size (core n) = i_size n" "mmu_private (core n) = mmu_private n" "i_blocks (core n) = i_blocks n"
  by (cases n; simp add: core_def inode.defs)+

lemma put_core_fields [simp]:
  "i_fid (put_core c n) = i_fid c" "i_size (put_core c n) = inode.i_size c" "mmu_private (put_core c n) = mmu_private c"
  "i_blocks (put_core c n) = i_blocks c" "i_ino (put_core c n) = i_ino n" "i_mode (put_core c n) = i_mode n"
  "i_uid (put_core c n) = i_uid n" "i_gid (put_core c n) = i_gid n" "i_nlink (put_core c n) = i_nlink n"
  "i_version (put_core c n) = i_version n" "i_op (put_core c n) = i_op n" "i_pos (put_core c n) = i_pos n"
  "i_target (put_core c n) = i_target n" "i_dirty (put_core c n) = i_dirty n" "i_sync (put_core c n) = i_sync n"
  "i_dirsync (put_core c n) = i_dirsync n"
  by (cases n; cases c; simp add: put_core_def inode.defs)+

lemma put_core_core [simp]: "put_core (core n) n = n"
  by (cases n; simp add: put_core_def core_def inode.defs)

lemma upd_node_fields [simp]:
  "kfs (upd_node i f v) = kfs v" "conf (upd_node i f v) = conf v" "opts (upd_node i f v) = opts v"
  "inode_hashtable (upd_node i f v) = inode_hashtable v" "s_lock (upd_node i f v) = s_lock v" "s_fs_info (upd_node i f v) = s_fs_info v"
  "vnode_at (upd_node i f v) i = f (vnode_at v i)" "j \<noteq> i \<Longrightarrow> vnode_at (upd_node i f v) j = vnode_at v j"
  by (simp_all add: upd_node_def)

abbreviation ksb :: "vfs \<Rightarrow> sb" where
  "ksb v \<equiv> vol (kfs v)"

definition CURRENT_TIME_SEC :: "vfs \<Rightarrow> int" where
  "CURRENT_TIME_SEC v = wall_clock (ksb v) (io_clock (ksb v))"

definition mark_inode_dirty :: "nat \<Rightarrow> vfs \<Rightarrow> vfs" where
  "mark_inode_dirty i = upd_node i (\<lambda>n. n\<lparr>i_dirty := True\<rparr>)"

definition lock_super :: "vfs \<Rightarrow> vfs option" where
  "lock_super v = (if s_lock v then None else Some (v\<lparr>s_lock := True\<rparr>))"

definition unlock_super :: "vfs \<Rightarrow> vfs" where
  "unlock_super v = v\<lparr>s_lock := False\<rparr>"

definition is_sb_dirty :: "vfs \<Rightarrow> bool" where
  "is_sb_dirty v = s_dirt (ksb v)"

definition set_sb_clean :: "vfs \<Rightarrow> vfs" where
  "set_sb_clean v = v\<lparr>kfs := (kfs v)\<lparr>vol := (ksb v)\<lparr>s_dirt := False\<rparr>\<rparr>\<rparr>"

section \<open>Modes and attributes\<close>

definition exfat_mode_can_hold_ro :: "exfat_mount_options \<Rightarrow> u16 \<Rightarrow> bool" where
  "exfat_mode_can_hold_ro opt mode \<longleftrightarrow> \<not> S_ISDIR mode \<and> NOT (fs_fmask opt) AND S_IWUGO \<noteq> 0"

text \<open>The mode is a \<open>mode_t\<close>, an \<open>unsigned int\<close>.\<close>

definition exfat_make_mode :: "exfat_mount_options \<Rightarrow> u32 \<Rightarrow> u32 \<Rightarrow> u32" where
  "exfat_make_mode opt attr mode =
     (let mode = (if attr AND ATTR_READONLY \<noteq> 0 \<and> attr AND ATTR_SUBDIR = 0 then mode AND NOT S_IWUGO else mode)
      in if attr AND ATTR_SUBDIR \<noteq> 0 then mode AND NOT (ucast (fs_dmask opt)) OR S_IFDIR
         else if attr AND ATTR_SYMLINK \<noteq> 0 then mode AND NOT (ucast (fs_dmask opt)) OR S_IFLNK
         else mode AND NOT (ucast (fs_fmask opt)) OR S_IFREG)"

definition exfat_make_attr :: "exfat_mount_options \<Rightarrow> vnode \<Rightarrow> u32" where
  "exfat_make_attr opt n =
     (if exfat_mode_can_hold_ro opt (i_mode n) \<and> i_mode n AND S_IWUGO = 0 then fid_attr (i_fid n) OR ATTR_READONLY
      else fid_attr (i_fid n))"

definition exfat_save_attr :: "exfat_mount_options \<Rightarrow> u32 \<Rightarrow> vnode \<Rightarrow> vnode" where
  "exfat_save_attr opt attr n =
     n\<lparr>i_fid := (i_fid n)\<lparr>fid_attr :=
         (if exfat_mode_can_hold_ro opt (i_mode n) then attr AND ATTR_RWMASK else attr AND (ATTR_RWMASK OR ATTR_READONLY))\<rparr>\<rparr>"

section \<open>The inodes by position\<close>

text \<open>The position of a file is its directory and the index of its entry there.\<close>

definition file_pos_of :: "FILE_ID_T \<Rightarrow> u64" where
  "file_pos_of fid = push_bit 32 (ucast (ch_dir (fid_dir fid))) OR ucast (of_s32 (fid_entry fid))"

definition exfat_hash :: "kernel \<Rightarrow> u64 \<Rightarrow> nat" where
  "exfat_hash K pos = unat (hash_32 K (ucast pos) EXFAT_HASH_BITS)"

fun iget_walk :: "kernel \<Rightarrow> vfs \<Rightarrow> u64 \<Rightarrow> nat list \<Rightarrow> vfs \<times> nat option" where
  "iget_walk K v pos [] = (v, None)"
| "iget_walk K v pos (i # is) =
     (if pos \<noteq> i_pos (vnode_at v i) then iget_walk K v pos is
      else case igrab K v i of (v1, ok) \<Rightarrow> if ok then (v1, Some i) else iget_walk K v1 pos is)"

definition exfat_iget :: "kernel \<Rightarrow> vfs \<Rightarrow> u64 \<Rightarrow> vfs \<times> nat option" where
  "exfat_iget K v pos = iget_walk K v pos (inode_hashtable v (exfat_hash K pos))"

definition exfat_attach :: "kernel \<Rightarrow> nat \<Rightarrow> u64 \<Rightarrow> vfs \<Rightarrow> vfs" where
  "exfat_attach K i pos v =
     (let h = exfat_hash K pos; v = upd_node i (\<lambda>n. n\<lparr>i_pos := pos\<rparr>) v
      in v\<lparr>inode_hashtable := (inode_hashtable v)(h := i # inode_hashtable v h)\<rparr>)"

text \<open>An inode is on one list at most; \<open>hlist_del_init\<close> takes it from there.\<close>

definition exfat_detach :: "nat \<Rightarrow> vfs \<Rightarrow> vfs" where
  "exfat_detach i v =
     (let v = v\<lparr>inode_hashtable := (\<lambda>h. remove1 i (inode_hashtable v h))\<rparr> in upd_node i (\<lambda>n. n\<lparr>i_pos := 0\<rparr>) v)"

definition exfat_hash_init :: "vfs \<Rightarrow> vfs" where
  "exfat_hash_init v = v\<lparr>inode_hashtable := (\<lambda>h. if h < EXFAT_HASH_SIZE then [] else inode_hashtable v h)\<rparr>"

section \<open>Inodes and entries\<close>

definition blocks_of :: "sb \<Rightarrow> int \<Rightarrow> int" where
  "blocks_of s sz = drop_bit 9 ((sz + (uint (cluster_size s) - 1)) AND NOT (uint (cluster_size s) - 1))"

definition fill_node :: "vfs \<Rightarrow> DIR_ENTRY_T \<Rightarrow> vnode \<Rightarrow> vnode" where
  "fill_node v info n =
     (let s = ksb v; opt = opts v; sec = CURRENT_TIME_SEC v;
          n = n\<lparr>i_pos := 0, i_target := None, i_uid := fs_uid opt, i_gid := fs_gid opt, i_version := i_version n + 1,
                i_generation := of_s32 sec, i_mode := ucast (exfat_make_mode opt (Attr info) S_IRWXUGO),
                i_size := to_s64 (Size info), mmu_private := to_s64 (Size info)\<rparr>;
          n = (if Attr info AND ATTR_SUBDIR \<noteq> 0
               then n\<lparr>i_generation := i_generation n AND NOT 1, i_op := Dir_ops, i_nlink := NumSubdirs info\<rparr>
               else if Attr info AND ATTR_SYMLINK \<noteq> 0
               then n\<lparr>i_generation := i_generation n OR 1, i_op := Symlink_ops\<rparr>
               else n\<lparr>i_generation := i_generation n OR 1, i_op := File_ops\<rparr>);
          n = exfat_save_attr opt (Attr info) n
      in n\<lparr>i_blocks := blocks_of s (i_size n),
           i_mtime := exfat_time_fat2unix (ModifyTimestamp info) (sys_tz s),
           i_ctime := exfat_time_fat2unix (CreateTimestamp info) (sys_tz s),
           i_atime := exfat_time_fat2unix (AccessTimestamp info) (sys_tz s)\<rparr>)"

text \<open>The return value of \<open>FsReadStat\<close> is not used.\<close>

definition exfat_fill_inode :: "kernel \<Rightarrow> vfs \<Rightarrow> nat \<Rightarrow> FILE_ID_T \<Rightarrow> (vfs \<times> int) option" where
  "exfat_fill_inode K v i fid =
     (let v = upd_node i (\<lambda>n. n\<lparr>i_fid := fid\<rparr>) v
      in do {
        (f, info, _) \<leftarrow> FsReadStat (conf v) (kfs v) (core (vnode_at v i)) (stack_info K);
        let v = v\<lparr>kfs := f\<rparr> in Some (upd_node i (fill_node v info) v, 0)
      })"

text \<open>The inode of a file, or the error that \<open>ERR_PTR\<close> carries.\<close>

definition exfat_build_inode :: "kernel \<Rightarrow> vfs \<Rightarrow> FILE_ID_T \<Rightarrow> u64 \<Rightarrow> (vfs \<times> (int + nat)) option" where
  "exfat_build_inode K v fid pos =
     (case exfat_iget K v pos of
        (v, Some i) \<Rightarrow> Some (v, Inr i)
      | (v, None) \<Rightarrow>
          (case new_inode K v of
             (v, None) \<Rightarrow> Some (v, Inl (- ENOMEM))
           | (v, Some i) \<Rightarrow>
               let v = upd_node i (\<lambda>n. n\<lparr>i_ino := iunique K v EXFAT_ROOT_INO, i_version := 1\<rparr>) v
               in do {
                 (v, err) \<leftarrow> exfat_fill_inode K v i fid;
                 if err \<noteq> 0 then Some (iput K v i, Inl err)
                 else Some (insert_inode_hash K (exfat_attach K i pos v) i, Inr i)
               }))"

definition write_info :: "vfs \<Rightarrow> DIR_ENTRY_T \<Rightarrow> vnode \<Rightarrow> DIR_ENTRY_T" where
  "write_info v info n =
     (let tz = sys_tz (ksb v)
      in info\<lparr>Attr := exfat_make_attr (opts v) n, Size := of_s64 (i_size n),
              ModifyTimestamp := exfat_time_unix2fat (i_mtime n) tz (MilliSecond (ModifyTimestamp info)),
              CreateTimestamp := exfat_time_unix2fat (i_ctime n) tz (MilliSecond (CreateTimestamp info)),
              AccessTimestamp := exfat_time_unix2fat (i_atime n) tz (MilliSecond (AccessTimestamp info))\<rparr>)"

definition exfat_write_inode :: "kernel \<Rightarrow> vfs \<Rightarrow> nat \<Rightarrow> (vfs \<times> int) option" where
  "exfat_write_inode K v i =
     (let n = vnode_at v i
      in if i_ino n = EXFAT_ROOT_INO then Some (v, 0)
         else do {
           (f, _) \<leftarrow> FsWriteStat (kfs v) (core n) (write_info v (stack_info K) n);
           Some (v\<lparr>kfs := f\<rparr>, 0)
         })"

definition exfat_sync_inode :: "kernel \<Rightarrow> vfs \<Rightarrow> nat \<Rightarrow> (vfs \<times> int) option" where
  "exfat_sync_inode K v i = exfat_write_inode K v i"

text \<open>The idiom of the operations: an inode with \<open>S_DIRSYNC\<close> is written at once, another one later.\<close>

definition sync_or_mark :: "kernel \<Rightarrow> bool \<Rightarrow> nat \<Rightarrow> vfs \<Rightarrow> vfs option" where
  "sync_or_mark K dirsync i v =
     (if dirsync then do { (v, _) \<leftarrow> exfat_sync_inode K v i; Some v } else Some (mark_inode_dirty i v))"

definition exfat_read_root :: "kernel \<Rightarrow> vfs \<Rightarrow> nat \<Rightarrow> (vfs \<times> int) option" where
  "exfat_read_root K v i =
     (let ts = CURRENT_TIME_SEC v; s = ksb v;
          v = upd_node i (\<lambda>n. n\<lparr>i_fid := (i_fid n)\<lparr>fid_dir := (fid_dir (i_fid n))\<lparr>ch_dir := root_dir s, ch_flags := 0x01\<rparr>,
                fid_entry := -1, start_clu := root_dir s, fid_flags := 0x01, fid_type := TYPE_DIR, rwoffset := 0,
                hint_last_off := -1\<rparr>, i_target := None\<rparr>) v
      in do {
        (f, info, _) \<leftarrow> FsReadStat (conf v) (kfs v) (core (vnode_at v i)) (stack_info K);
        (let v = v\<lparr>kfs := f\<rparr>; s = ksb v; opt = opts v; size = to_s64 (Size info)
        in Some (upd_node i (\<lambda>n. (exfat_save_attr opt ATTR_SUBDIR
             (n\<lparr>i_uid := fs_uid opt, i_gid := fs_gid opt, i_version := i_version n + 1, i_generation := 0,
                i_mode := ucast (exfat_make_mode opt ATTR_SUBDIR S_IRWXUGO), i_op := Dir_ops, i_size := size,
                i_blocks := blocks_of s size, i_pos := push_bit 32 (ucast (root_dir s)) OR 0xFFFFFFFF, mmu_private := size\<rparr>))
             \<lparr>i_mtime := ts, i_atime := ts, i_ctime := ts, i_nlink := NumSubdirs info + 2\<rparr>) v, 0))
      })"

section \<open>A small example\<close>

definition sample_options :: exfat_mount_options where
  "sample_options =
     \<lparr>fs_uid = 0, fs_gid = 0, fs_fmask = 0x12, fs_dmask = 0x12, allow_utime = 0x12, codepage = 437, iocharset = Default_charset,
      opt_casesensitive = 0, opt_on_error = ERRORS_RO, opt_discard = False\<rparr>"

definition sample_vnode :: vnode where
  "sample_vnode =
     \<lparr>i_fid = \<lparr>fid_dir = \<lparr>ch_dir = 2, ch_size = 1, ch_flags = 1\<rparr>, fid_entry = 0, fid_type = TYPE_FILE, fid_attr = 0x20, start_clu = 3,
                fid_size = 100, fid_flags = 1, rwoffset = 0, hint_last_off = -1, hint_last_clu = 0\<rparr>,
      i_size = 100, mmu_private = 100, i_blocks = 2, i_ino = 7, i_mode = 0x81ED, i_uid = 0, i_gid = 0, i_nlink = 1, i_version = 1,
      i_generation = 1, i_mtime = 1000000000, i_ctime = 1000000000, i_atime = 1000000000, i_op = File_ops, i_pos = 0x200000000,
      i_target = None, i_dirty = False, i_sync = False, i_dirsync = False\<rparr>"

definition sample_conf :: nls_conf where
  "sample_conf = \<lparr>nls_disk = \<lparr>char2uni = (\<lambda>cs. (1, ucast (hd cs))), uni2char = (\<lambda>c. (1, [ucast c])), charset_utf8 = False\<rparr>,
     nls_io = Some \<lparr>char2uni = (\<lambda>cs. (1, ucast (hd cs))), uni2char = (\<lambda>c. (1, [ucast c])), charset_utf8 = False\<rparr>,
     utf8_to_utf16 = (\<lambda>s. (map ucast s, int (length s))), utf16_to_utf8 = map ucast\<rparr>"

definition sample_vfs :: "sb \<Rightarrow> vnode \<Rightarrow> vfs" where
  "sample_vfs s n = \<lparr>kfs = \<lparr>vol = s, v_sem = 1, z_sem = 1\<rparr>, conf = sample_conf, opts = sample_options, vnode_at = (\<lambda>_. n),
     inode_hashtable = (\<lambda>_. []), s_lock = False, s_fs_info = True, s_nodiratime = True, s_magic = 0x2011BAB0,
     s_maxbytes = 0x7FFFFFFFFFFFFFFF, s_ci_names = True, s_root = None, nls_disk_loaded = False\<rparr>"

lemma sample_vfs_fields [simp]:
  "kfs (sample_vfs s n) = \<lparr>vol = s, v_sem = 1, z_sem = 1\<rparr>" "vnode_at (sample_vfs s n) i = n" "\<not> s_lock (sample_vfs s n)"
  "opts (sample_vfs s n) = sample_options" "inode_hashtable (sample_vfs s n) = (\<lambda>_. [])"
  by (simp_all add: sample_vfs_def)

end
