(* ===== verification/VfsNames.thy ===== *)
theory VfsNames
  imports Vfs
begin

text \<open>
  The operations of \<open>exfat_super.c\<close> on the names in the dentry cache: validity, hashing and comparison, for volumes
  mounted with and without regard to case.  The hash functions and the tables of lower-case characters of the kernel are
  the record \<open>name_services\<close>.
\<close>

record name_services =
  full_name_hash :: "u8 list \<Rightarrow> u32"
  init_name_hash :: u64
  partial_name_hash :: "u64 \<Rightarrow> u64 \<Rightarrow> u64"
  end_name_hash :: "u64 \<Rightarrow> u32"
  nls_tolower :: "nls_table \<Rightarrow> u8 \<Rightarrow> u8"
  ascii_tolower :: "u8 \<Rightarrow> u8"

abbreviation (input) LOOKUP_RCU :: u32 where "LOOKUP_RCU \<equiv> 0x0040"
abbreviation (input) LOOKUP_CREATE :: u32 where "LOOKUP_CREATE \<equiv> 0x0200"
abbreviation (input) LOOKUP_RENAME_TARGET :: u32 where "LOOKUP_RENAME_TARGET \<equiv> 0x0800"

section \<open>Validity\<close>

definition exfat_revalidate0 :: "kdentry \<Rightarrow> int" where
  "exfat_revalidate0 dentry = 0"

definition exfat_revalidate :: "kdentry \<Rightarrow> u32 \<Rightarrow> int" where
  "exfat_revalidate dentry flags =
     (if flags AND LOOKUP_RCU \<noteq> 0 then - ECHILD else if d_inode dentry \<noteq> None then 1 else exfat_revalidate0 dentry)"

definition exfat_revalidate_ci :: "kdentry \<Rightarrow> u32 \<Rightarrow> int" where
  "exfat_revalidate_ci dentry flags =
     (if flags AND LOOKUP_RCU \<noteq> 0 then - ECHILD
      else if d_inode dentry \<noteq> None then 1
      else if flags = 0 then 0
      else if flags AND (LOOKUP_CREATE OR LOOKUP_RENAME_TARGET) \<noteq> 0 then 0
      else exfat_revalidate0 dentry)"

section \<open>Hashing and comparison\<close>

text \<open>The length without the dots at the end.\<close>

fun striptail_len :: "nat \<Rightarrow> u8 list \<Rightarrow> nat" where
  "striptail_len 0 name = 0"
| "striptail_len (Suc n) name = (if name ! n = PERIOD then striptail_len n name else Suc n)"

definition exfat_striptail_len :: "u8 list \<Rightarrow> nat" where
  "exfat_striptail_len name = striptail_len (length name) name"

definition exfat_d_hash :: "name_services \<Rightarrow> u8 list \<Rightarrow> u32" where
  "exfat_d_hash N name = full_name_hash N (take (exfat_striptail_len name) name)"

fun hashi_loop :: "name_services \<Rightarrow> sb \<Rightarrow> nat \<Rightarrow> u8 list \<Rightarrow> u64 \<Rightarrow> u64" where
  "hashi_loop N s 0 name hash = hash"
| "hashi_loop N s (Suc len) name hash = hashi_loop N s len (tl name) (partial_name_hash N (ucast (nls_upper s (ucast (hd name)))) hash)"

definition exfat_d_hashi :: "name_services \<Rightarrow> sb \<Rightarrow> u8 list \<Rightarrow> u32" where
  "exfat_d_hashi N s name = end_name_hash N (hashi_loop N s (exfat_striptail_len name) name (init_name_hash N))"

text \<open>\<open>strncmp\<close>, \<open>strncasecmp\<close> and \<open>nls_strnicmp\<close> up to the length that has been found equal: do the strings differ?\<close>

fun strn_differ :: "(u8 \<Rightarrow> u8) \<Rightarrow> bool \<Rightarrow> nat \<Rightarrow> u8 list \<Rightarrow> u8 list \<Rightarrow> bool" where
  "strn_differ low zero_ends 0 a b \<longleftrightarrow> False"
| "strn_differ low zero_ends (Suc n) a b \<longleftrightarrow>
     (if low (hd a) \<noteq> low (hd b) then True
      else if zero_ends \<and> hd a = 0 then False
      else strn_differ low zero_ends n (tl a) (tl b))"

definition exfat_cmpi :: "name_services \<Rightarrow> nls_table option \<Rightarrow> u8 list \<Rightarrow> u8 list \<Rightarrow> int" where
  "exfat_cmpi N t str name =
     (let alen = exfat_striptail_len name; blen = exfat_striptail_len str
      in if alen = blen then
           (case t of
              None \<Rightarrow> if \<not> strn_differ (ascii_tolower N) True alen name str then 0 else 1
            | Some t \<Rightarrow> if \<not> strn_differ (nls_tolower N t) False alen name str then 0 else 1)
         else 1)"

definition exfat_cmp :: "u8 list \<Rightarrow> u8 list \<Rightarrow> int" where
  "exfat_cmp str name =
     (let alen = exfat_striptail_len name; blen = exfat_striptail_len str
      in if alen = blen then (if \<not> strn_differ id True alen name str then 0 else 1) else 1)"

end
