(* ===== verification/VfsDir.thy ===== *)
theory VfsDir
  imports Vfs
begin

text \<open>
  The operations of \<open>exfat_super.c\<close> on directories: listing, creation, lookup, removal, symbolic links and renaming.  They
  take the lock of the super block, call the operation of \<open>exfat_api.c\<close>, translate its error and keep the inodes in
  step.  An operation returns the state, the \<open>dentry\<close> where it changes it, and the error number.
\<close>

section \<open>Listing\<close>

abbreviation (input) DT_DIR :: u8 where "DT_DIR \<equiv> 4"
abbreviation (input) DT_REG :: u8 where "DT_REG \<equiv> 8"

definition DOS_CUR_DIR_NAME :: "u8 list" where
  "DOS_CUR_DIR_NAME = PERIOD # replicate 10 SPACE"

definition DOS_PAR_DIR_NAME :: "u8 list" where
  "DOS_PAR_DIR_NAME = [PERIOD, PERIOD] @ replicate 9 SPACE"

definition name_is :: "u8 list \<Rightarrow> u8 list \<Rightarrow> bool" where
  "name_is short_name name \<longleftrightarrow> take DOS_NAME_LENGTH short_name = name"

text \<open>The dots of a directory that has no entries for them; \<open>n\<close> bounds the rounds, of which there are two at most.\<close>

fun emit_dots :: "nat \<Rightarrow> kernel \<Rightarrow> vfs \<Rightarrow> nat \<Rightarrow> dir_context \<Rightarrow> int \<Rightarrow> dir_context \<times> int \<times> bool" where
  "emit_dots 0 K v i ctx cpos = (ctx, cpos, True)"
| "emit_dots (Suc n) K v i ctx cpos =
     (if cpos < 2 then
        (case dir_emit_dots K v i ctx of
           (ctx, ok) \<Rightarrow> if \<not> ok then (ctx, cpos, False)
                        else emit_dots n K v i (ctx\<lparr>ctx_pos := ctx_pos ctx + 1\<rparr>) (cpos + 1))
      else (ctx, cpos, True))"

definition entry_ino :: "kernel \<Rightarrow> vfs \<Rightarrow> nat \<Rightarrow> u64 \<Rightarrow> DIR_ENTRY_T \<Rightarrow> vfs \<times> u64" where
  "entry_ino K v i parent_ino de =
     (if name_is (ShortName de) DOS_CUR_DIR_NAME then (v, i_ino (vnode_at v i))
      else if name_is (ShortName de) DOS_PAR_DIR_NAME then (v, parent_ino)
      else let fid = i_fid (vnode_at v i);
               pos = push_bit 32 (ucast (start_clu fid)) OR (of_s64 (rwoffset fid - 1) AND 0xFFFFFFFF)
           in case exfat_iget K v pos of
                (v, Some j) \<Rightarrow> (iput K v j, i_ino (vnode_at v j))
              | (v, None) \<Rightarrow> (v, iunique K v EXFAT_ROOT_INO))"

partial_function (option) readdir_from :: "kernel \<Rightarrow> vfs \<Rightarrow> nat \<Rightarrow> u64 \<Rightarrow> dir_context \<Rightarrow> int \<Rightarrow> DIR_ENTRY_T
    \<Rightarrow> (vfs \<times> dir_context \<times> int) option" where
  "readdir_from K v i parent_ino ctx cpos de =
     (let v = upd_node i (\<lambda>n. n\<lparr>i_fid := (i_fid n)\<lparr>fid_size := of_s64 (i_size n), rwoffset := drop_bit DENTRY_SIZE_BITS cpos\<rparr>\<rparr>) v
      in do {
        (f, inode, info, err) \<leftarrow> FsReadDir (conf v) (kfs v) (core (vnode_at v i)) (Some de);
        (let v = upd_node i (put_core inode) (v\<lparr>kfs := f\<rparr>); de = (case info of None \<Rightarrow> de | Some de \<Rightarrow> de); s = ksb v
         in if err \<noteq> FFS_SUCCESS
            then let cpos = (if err = FFS_MEDIAERR
                             then (cpos + 2 ^ sector_size_bits s) AND NOT (2 ^ sector_size_bits s - 1) else cpos)
                 in Some (v, ctx\<lparr>ctx_pos := cpos\<rparr>, - EIO)
            else let cpos = push_bit DENTRY_SIZE_BITS (rwoffset (i_fid (vnode_at v i)))
                 in if Name de ! 0 = 0 then Some (v, ctx\<lparr>ctx_pos := cpos\<rparr>, 0)
                    else case entry_ino K v i parent_ino de of
                           (v, inum) \<Rightarrow>
                             (case dir_emit K ctx (takeWhile (\<lambda>b. b \<noteq> 0) (Name de)) inum
                                     (if Attr de AND ATTR_SUBDIR \<noteq> 0 then DT_DIR else DT_REG) of
                                (ctx, ok) \<Rightarrow>
                                  if \<not> ok then Some (v, ctx, 0)
                                  else readdir_from K v i parent_ino (ctx\<lparr>ctx_pos := cpos\<rparr>) cpos de))
      })"

definition exfat_readdir :: "kernel \<Rightarrow> vfs \<Rightarrow> nat \<Rightarrow> u64 \<Rightarrow> dir_context \<Rightarrow> (vfs \<times> dir_context \<times> int) option" where
  "exfat_readdir K v i parent_ino ctx =
     do {
       v \<leftarrow> lock_super v;
       (let (ctx, cpos, ok) =
              (if vol_type (ksb v) = EXFAT \<or> i_ino (vnode_at v i) = EXFAT_ROOT_INO
               then (case emit_dots 2 K v i ctx (ctx_pos ctx) of (ctx, cpos, ok) \<Rightarrow> (ctx, if ok \<and> cpos = 2 then 0 else cpos, ok))
               else (ctx, ctx_pos ctx, True))
        in if \<not> ok then Some (unlock_super v, ctx, 0)
           else if cpos AND 31 \<noteq> 0 then Some (unlock_super v, ctx, - ENOENT)
           else do {
             (v, ctx, err) \<leftarrow> readdir_from K v i parent_ino ctx cpos (stack_info K);
             Some (unlock_super v, ctx, err)
           })
     }"

section \<open>Control requests\<close>

text \<open>The requests of the debug configuration with the argument: a user address that can be written or read, or not.\<close>

datatype ioctl_cmd = IOCTL_GET_VOLUME_ID | IOC_GET_DEBUGFLAGS | IOC_SET_DEBUGFLAGS | IOCTL_other

definition exfat_ioctl_volume_id :: "vfs \<Rightarrow> u32" where
  "exfat_ioctl_volume_id v = vol_id (ksb v)"

definition exfat_generic_ioctl :: "vfs \<Rightarrow> ioctl_cmd \<Rightarrow> bool \<Rightarrow> u32 option \<Rightarrow> (vfs \<times> u32 option \<times> int) option" where
  "exfat_generic_ioctl v cmd cap_sys_admin user =
     (case cmd of
        IOCTL_GET_VOLUME_ID \<Rightarrow> Some (v, user, to_s32 (exfat_ioctl_volume_id v))
      | IOC_GET_DEBUGFLAGS \<Rightarrow>
          (case user of None \<Rightarrow> Some (v, None, - EFAULT) | Some _ \<Rightarrow> Some (v, Some (debug_flags (ksb v)), 0))
      | IOC_SET_DEBUGFLAGS \<Rightarrow>
          if \<not> cap_sys_admin then Some (v, user, - EPERM)
          else (case user of
                  None \<Rightarrow> Some (v, user, - EFAULT)
                | Some flags \<Rightarrow> do {
                    v \<leftarrow> lock_super v;
                    Some (unlock_super (v\<lparr>kfs := (kfs v)\<lparr>vol := (ksb v)\<lparr>debug_flags := flags\<rparr>\<rparr>\<rparr>), user, 0)
                  })
      | IOCTL_other \<Rightarrow> Some (v, user, - ENOTTY))"

section \<open>Creation\<close>

text \<open>The error numbers of the operations.\<close>

definition symlink_errno :: "ffs \<Rightarrow> int" where
  "symlink_errno err =
     (case err of FFS_INVALIDPATH \<Rightarrow> - EINVAL | FFS_FILEEXIST \<Rightarrow> - EEXIST | FFS_FULL \<Rightarrow> - ENOSPC | _ \<Rightarrow> - EIO)"

definition create_errno :: "ffs \<Rightarrow> int" where
  "create_errno err = (if err = FFS_NAMETOOLONG then - ENAMETOOLONG else symlink_errno err)"

definition rmdir_errno :: "ffs \<Rightarrow> int" where
  "rmdir_errno err =
     (case err of FFS_INVALIDPATH \<Rightarrow> - EINVAL | FFS_FILEEXIST \<Rightarrow> - ENOTEMPTY | FFS_NOTFOUND \<Rightarrow> - ENOENT | FFS_DIRBUSY \<Rightarrow> - EBUSY
      | _ \<Rightarrow> - EIO)"

definition rename_errno :: "ffs \<Rightarrow> int" where
  "rename_errno err =
     (case err of FFS_PERMISSIONERR \<Rightarrow> - EPERM | FFS_INVALIDPATH \<Rightarrow> - EINVAL | FFS_FILEEXIST \<Rightarrow> - EEXIST
      | FFS_NOTFOUND \<Rightarrow> - ENOENT | FFS_FULL \<Rightarrow> - ENOSPC | _ \<Rightarrow> - EIO)"

text \<open>The version of a directory and, as the flags say, its times; and the times of a new inode.\<close>

definition touch_dir :: "bool \<Rightarrow> bool \<Rightarrow> int \<Rightarrow> vnode \<Rightarrow> vnode" where
  "touch_dir ctime atime ts n =
     n\<lparr>i_version := i_version n + 1, i_mtime := ts, i_ctime := (if ctime then ts else i_ctime n),
       i_atime := (if atime then ts else i_atime n)\<rparr>"

definition touch_new :: "int \<Rightarrow> vnode \<Rightarrow> vnode" where
  "touch_new ts n = n\<lparr>i_version := i_version n + 1, i_mtime := ts, i_atime := ts, i_ctime := ts\<rparr>"

text \<open>The end of a creation: the directory, the new inode, what else happens to it, and the entry.\<close>

definition instantiate :: "kernel \<Rightarrow> vfs \<Rightarrow> nat \<Rightarrow> kdentry \<Rightarrow> int \<Rightarrow> bool \<Rightarrow> FILE_ID_T \<Rightarrow> (vfs \<Rightarrow> nat \<Rightarrow> vfs \<times> int)
    \<Rightarrow> (vfs \<times> kdentry \<times> int) option" where
  "instantiate K v dir dentry ts is_dir fid finish =
     do {
       v \<leftarrow> sync_or_mark K (i_dirsync (vnode_at v dir)) dir (upd_node dir (touch_dir True True ts) v);
       (let v = (if is_dir then upd_node dir (\<lambda>n. n\<lparr>i_nlink := i_nlink n + 1\<rparr>) v else v)
        in do {
          (v, r) \<leftarrow> exfat_build_inode K v fid (file_pos_of fid);
          (case r of
             Inl err \<Rightarrow> Some (unlock_super v, dentry, err)
           | Inr i \<Rightarrow>
               (case finish (upd_node i (touch_new ts) v) i of
                  (v, err) \<Rightarrow>
                    if err \<noteq> 0 then Some (unlock_super v, dentry, err)
                    else Some (unlock_super v, d_instantiate K (dentry\<lparr>d_time := i_version (vnode_at v (d_parent dentry))\<rparr>) i, 0)))
        })
     }"

definition exfat_create :: "kernel \<Rightarrow> vfs \<Rightarrow> nat \<Rightarrow> kdentry \<Rightarrow> (vfs \<times> kdentry \<times> int) option" where
  "exfat_create K v dir dentry =
     do {
       v \<leftarrow> lock_super v;
       (let ts = CURRENT_TIME_SEC v
        in do {
          (f, inode, fid, err) \<leftarrow> FsCreateFile (conf v) (kfs v) (core (vnode_at v dir)) (Some (d_name dentry)) 0x00 (Some (stack_fid K));
          (let v = upd_node dir (put_core inode) (v\<lparr>kfs := f\<rparr>)
           in if err \<noteq> FFS_SUCCESS then Some (unlock_super v, dentry, create_errno err)
              else instantiate K v dir dentry ts False (the fid) (\<lambda>v i. (v, 0)))
        })
     }"

definition exfat_mkdir :: "kernel \<Rightarrow> vfs \<Rightarrow> nat \<Rightarrow> kdentry \<Rightarrow> (vfs \<times> kdentry \<times> int) option" where
  "exfat_mkdir K v dir dentry =
     do {
       v \<leftarrow> lock_super v;
       (let ts = CURRENT_TIME_SEC v
        in do {
          (f, inode, fid, err) \<leftarrow> FsCreateDir (conf v) (kfs v) (core (vnode_at v dir)) (Some (d_name dentry)) (Some (stack_fid K));
          (let v = upd_node dir (put_core inode) (v\<lparr>kfs := f\<rparr>)
           in if err \<noteq> FFS_SUCCESS then Some (unlock_super v, dentry, create_errno err)
              else instantiate K v dir dentry ts True (the fid) (\<lambda>v i. (v, 0)))
        })
     }"

text \<open>The target of a link is kept with its terminator.  A failed write removes the new file; the result of that is not used.\<close>

definition kmalloc_in :: "vfs \<Rightarrow> vfs \<times> bool" where
  "kmalloc_in v = (case kmalloc (ksb v) of (s, ok) \<Rightarrow> (v\<lparr>kfs := (kfs v)\<lparr>vol := s\<rparr>\<rparr>, ok))"

definition exfat_symlink :: "kernel \<Rightarrow> vfs \<Rightarrow> nat \<Rightarrow> kdentry \<Rightarrow> u8 list \<Rightarrow> (vfs \<times> kdentry \<times> int) option" where
  "exfat_symlink K v dir dentry path_to =
     do {
       v \<leftarrow> lock_super v;
       (let ts = CURRENT_TIME_SEC v
        in do {
          (f, inode, fid, err) \<leftarrow> FsCreateFile (conf v) (kfs v) (core (vnode_at v dir)) (Some (d_name dentry)) 0x40 (Some (stack_fid K));
          (let v = upd_node dir (put_core inode) (v\<lparr>kfs := f\<rparr>)
           in if err \<noteq> FFS_SUCCESS then Some (unlock_super v, dentry, symlink_errno err)
              else do {
                (f, fid, _, err) \<leftarrow> FsWriteFile (kfs v) fid (Some path_to) (of_nat (length path_to));
                if err \<noteq> FFS_SUCCESS then do {
                  (f, _, _) \<leftarrow> FsRemoveFile f fid;
                  Some (unlock_super (v\<lparr>kfs := f\<rparr>), dentry, if err = FFS_FULL then - ENOSPC else - EIO)
                }
                else instantiate K (v\<lparr>kfs := f\<rparr>) dir dentry ts False (the fid) (\<lambda>v i.
                       case kmalloc_in v of
                         (v, ok) \<Rightarrow> if \<not> ok then (upd_node i (\<lambda>n. n\<lparr>i_target := None\<rparr>) v, - ENOMEM)
                                    else (upd_node i (\<lambda>n. n\<lparr>i_target := Some (path_to @ [0])\<rparr>) v, 0))
              })
        })
     }"

section \<open>Lookup\<close>

definition exfat_find :: "kernel \<Rightarrow> vfs \<Rightarrow> nat \<Rightarrow> u8 list \<Rightarrow> (vfs \<times> FILE_ID_T \<times> int) option" where
  "exfat_find K v dir qname =
     (if qname = [] then Some (v, stack_fid K, - ENOENT)
      else do {
        (f, inode, fid, err) \<leftarrow> FsLookupFile (conf v) (kfs v) (core (vnode_at v dir)) (Some qname) (Some (stack_fid K));
        Some (upd_node dir (put_core inode) (v\<lparr>kfs := f\<rparr>), the fid, if err \<noteq> FFS_SUCCESS then - ENOENT else 0)
      })"

definition exfat_d_anon_disconn :: "kdentry \<Rightarrow> bool" where
  "exfat_d_anon_disconn dentry \<longleftrightarrow> d_is_root dentry \<and> d_disconnected dentry"

text \<open>The target of a symbolic link is read into fresh memory, one byte longer than the file.\<close>

definition load_target :: "kernel \<Rightarrow> vfs \<Rightarrow> nat \<Rightarrow> FILE_ID_T \<Rightarrow> (vfs \<times> bool) option" where
  "load_target K v i fid =
     (case kmalloc_in v of
        (v, ok) \<Rightarrow>
          if \<not> ok then Some (upd_node i (\<lambda>n. n\<lparr>i_target := None\<rparr>) v, False)
          else let size = i_size (vnode_at v i)
               in do {
                 (f, _, bytes, _, _) \<leftarrow> FsReadFile (kfs v) (Some fid) (Some (heap_junk K (nat size))) (of_s64 size);
                 Some (upd_node i (\<lambda>n. n\<lparr>i_target := Some (bytes @ drop (length bytes) (heap_junk K (nat size)) @ [0])\<rparr>) (v\<lparr>kfs := f\<rparr>), True)
               })"

definition splice :: "kernel \<Rightarrow> vfs \<Rightarrow> nat option \<Rightarrow> kdentry \<Rightarrow> vfs \<times> (int + kdentry option)" where
  "splice K v inode dentry =
     (let stamp = (\<lambda>v d. d\<lparr>d_time := i_version (vnode_at v (d_parent d))\<rparr>);
          (v, r) = d_splice_alias K (unlock_super v) inode (stamp v dentry)
      in (v, Inr (map_option (stamp v) r)))"

definition exfat_lookup :: "kernel \<Rightarrow> vfs \<Rightarrow> nat \<Rightarrow> kdentry \<Rightarrow> (vfs \<times> (int + kdentry option)) option" where
  "exfat_lookup K v dir dentry =
     do {
       v \<leftarrow> lock_super v;
       (v, fid, err) \<leftarrow> exfat_find K v dir (d_name dentry);
       if err \<noteq> 0 then Some (if err = - ENOENT then splice K v None dentry else (unlock_super v, Inl err))
       else do {
         (v, r) \<leftarrow> exfat_build_inode K v fid (file_pos_of fid);
         (case r of
            Inl err \<Rightarrow> Some (unlock_super v, Inl err)
          | Inr i \<Rightarrow>
              let mode = i_mode (vnode_at v i)
              in do {
                (v, ok) \<leftarrow> (if S_ISLNK mode then load_target K v i fid else Some (v, True));
                if \<not> ok then Some (unlock_super v, Inl (- ENOMEM))
                else (case d_find_alias K v i of
                        None \<Rightarrow> Some (splice K v (Some i) dentry)
                      | Some alias \<Rightarrow>
                          if exfat_d_anon_disconn alias then Some (splice K v (Some i) dentry)
                          else let v = (if d_unhashed alias then v\<lparr>kfs := (kfs v)\<lparr>vol := kernel_oops (ksb v)\<rparr>\<rparr> else v);
                                   alias = (if S_ISDIR mode then alias else d_move K alias dentry)
                               in Some (unlock_super (iput K v i), Inr (Some alias)))
              })
       }
     }"

section \<open>Removal\<close>

definition size_to_fid :: "nat \<Rightarrow> vfs \<Rightarrow> vfs" where
  "size_to_fid i = upd_node i (\<lambda>n. n\<lparr>i_fid := (i_fid n)\<lparr>fid_size := of_s64 (i_size n)\<rparr>\<rparr>)"

definition put_fid_at :: "nat \<Rightarrow> FILE_ID_T option \<Rightarrow> vfs \<Rightarrow> vfs" where
  "put_fid_at i fid v = (case fid of None \<Rightarrow> v | Some fid \<Rightarrow> upd_node i (\<lambda>n. n\<lparr>i_fid := fid\<rparr>) v)"

definition drop_nlink :: "nat \<Rightarrow> vfs \<Rightarrow> vfs" where
  "drop_nlink i = upd_node i (\<lambda>n. n\<lparr>i_nlink := i_nlink n - 1\<rparr>)"

text \<open>The inode of a removed file leaves both hash tables.\<close>

definition forget_inode :: "kernel \<Rightarrow> int \<Rightarrow> nat \<Rightarrow> vfs \<Rightarrow> vfs" where
  "forget_inode K ts i v =
     remove_inode_hash K (exfat_detach i (upd_node i (\<lambda>n. n\<lparr>i_nlink := 0, i_mtime := ts, i_atime := ts\<rparr>) v)) i"

definition exfat_unlink :: "kernel \<Rightarrow> vfs \<Rightarrow> nat \<Rightarrow> nat \<Rightarrow> (vfs \<times> int) option" where
  "exfat_unlink K v dir i =
     do {
       v \<leftarrow> lock_super v;
       (let ts = CURRENT_TIME_SEC v; v = size_to_fid i v
        in do {
          (f, fid, err) \<leftarrow> FsRemoveFile (kfs v) (Some (i_fid (vnode_at v i)));
          (let v = put_fid_at i fid (v\<lparr>kfs := f\<rparr>)
           in if err \<noteq> FFS_SUCCESS then Some (unlock_super v, if err = FFS_PERMISSIONERR then - EPERM else - EIO)
              else do {
                v \<leftarrow> sync_or_mark K (i_dirsync (vnode_at v dir)) dir (upd_node dir (touch_dir False True ts) v);
                Some (unlock_super (forget_inode K ts i v), 0)
              })
        })
     }"

definition exfat_rmdir :: "kernel \<Rightarrow> vfs \<Rightarrow> nat \<Rightarrow> nat \<Rightarrow> (vfs \<times> int) option" where
  "exfat_rmdir K v dir i =
     do {
       v \<leftarrow> lock_super v;
       (let ts = CURRENT_TIME_SEC v; v = size_to_fid i v
        in do {
          (f, fid, err) \<leftarrow> FsRemoveDir (kfs v) (Some (i_fid (vnode_at v i)));
          (let v = put_fid_at i fid (v\<lparr>kfs := f\<rparr>)
           in if err \<noteq> FFS_SUCCESS then Some (unlock_super v, rmdir_errno err)
              else do {
                v \<leftarrow> sync_or_mark K (i_dirsync (vnode_at v dir)) dir (upd_node dir (touch_dir False True ts) v);
                Some (unlock_super (forget_inode K ts i (drop_nlink dir v)), 0)
              })
        })
     }"

section \<open>Renaming\<close>

text \<open>The store of inodes that the operations below see, and their results in it.\<close>

definition cores :: "vfs \<Rightarrow> inodes" where
  "cores v = (\<lambda>i. core (vnode_at v i))"

definition put_cores :: "inodes \<Rightarrow> vfs \<Rightarrow> vfs" where
  "put_cores m v = v\<lparr>vnode_at := (\<lambda>i. put_core (m i) (vnode_at v i))\<rparr>"

text \<open>The inode moves to its new position, and the links to directories are counted.\<close>

definition rename_links :: "nat \<Rightarrow> nat \<Rightarrow> nat \<Rightarrow> nat option \<Rightarrow> vfs \<Rightarrow> vfs" where
  "rename_links old_dir i new_dir new_i v =
     (if S_ISDIR (i_mode (vnode_at v i)) \<and> old_dir \<noteq> new_dir
      then let v = drop_nlink old_dir v
           in if new_i = None then upd_node new_dir (\<lambda>n. n\<lparr>i_nlink := i_nlink n + 1\<rparr>) v else v
      else v)"

definition rename_target :: "int \<Rightarrow> nat option \<Rightarrow> vfs \<Rightarrow> vfs" where
  "rename_target ts new_i v =
     (case new_i of
        None \<Rightarrow> v
      | Some j \<Rightarrow>
          let v = drop_nlink j (exfat_detach j v); v = (if S_ISDIR (i_mode (vnode_at v j)) then drop_nlink j v else v)
          in upd_node j (\<lambda>n. n\<lparr>i_ctime := ts\<rparr>) v)"

definition exfat_rename :: "kernel \<Rightarrow> vfs \<Rightarrow> nat \<Rightarrow> nat \<Rightarrow> nat \<Rightarrow> kdentry \<Rightarrow> (vfs \<times> int) option" where
  "exfat_rename K v old_dir i new_dir new_dentry =
     do {
       v \<leftarrow> lock_super v;
       (let ts = CURRENT_TIME_SEC v; v = size_to_fid i v; new_i = d_inode new_dentry
        in do {
          (f, m, err) \<leftarrow> FsMoveFile (conf v) (kfs v) (cores v) old_dir (Some i) new_dir (d_name new_dentry) new_i;
          (let v = put_cores m (v\<lparr>kfs := f\<rparr>)
           in if err \<noteq> FFS_SUCCESS then Some (unlock_super v, rename_errno err)
              else do {
                v \<leftarrow> sync_or_mark K (i_dirsync (vnode_at v new_dir)) new_dir (upd_node new_dir (touch_dir True True ts) v);
                v \<leftarrow> sync_or_mark K (i_dirsync (vnode_at v new_dir)) i
                       (exfat_attach K i (file_pos_of (i_fid (vnode_at v i))) (exfat_detach i v));
                v \<leftarrow> (let v = upd_node old_dir (touch_dir True False ts) (rename_links old_dir i new_dir new_i v)
                      in sync_or_mark K (i_dirsync (vnode_at v old_dir)) old_dir v);
                Some (unlock_super (rename_target ts new_i v), 0)
              })
        })
     }"

end
