(* ===== verification/VfsFile.thy ===== *)
theory VfsFile
  imports Vfs
begin

text \<open>
  The operations of \<open>exfat_super.c\<close> on the attributes and the pages of a file: \<open>exfat_setattr\<close> and what it calls, the
  mapping of the blocks of a file to the sectors of the volume, and the entry points of the page cache.  The page cache
  itself is the record \<open>pagecache\<close>.  The semaphores that keep a mapping and a truncation apart (\<open>truncate_lock\<close>) are not
  modelled.
\<close>

section \<open>The services of the page cache\<close>

abbreviation (input) ATTR_MODE :: u32 where "ATTR_MODE \<equiv> 1"
abbreviation (input) ATTR_UID :: u32 where "ATTR_UID \<equiv> 2"
abbreviation (input) ATTR_GID :: u32 where "ATTR_GID \<equiv> 4"
abbreviation (input) ATTR_SIZE :: u32 where "ATTR_SIZE \<equiv> 8"
abbreviation (input) ATTR_ATIME_SET :: u32 where "ATTR_ATIME_SET \<equiv> 0x80"
abbreviation (input) ATTR_MTIME_SET :: u32 where "ATTR_MTIME_SET \<equiv> 0x100"
abbreviation (input) ATTR_TIMES_SET :: u32 where "ATTR_TIMES_SET \<equiv> 0x10000"
abbreviation (input) MAY_WRITE :: u16 where "MAY_WRITE \<equiv> 2"

record iattr =
  ia_valid :: u32
  ia_mode :: u16
  ia_uid :: u32
  ia_gid :: u32
  ia_size :: int
  ia_atime :: int
  ia_mtime :: int
  ia_ctime :: int

record kstat =
  st_mode :: u16
  st_nlink :: u32
  st_size :: int
  st_blocks :: int
  st_blksize :: u32

text \<open>What \<open>exfat_get_block\<close> leaves in a \<open>buffer_head\<close>: the block it is mapped to, whether it is new, and its size.\<close>

record bh_result =
  bh_mapped :: "u64 option"
  bh_new :: bool
  b_size :: u64

type_synonym get_block = "vfs \<Rightarrow> nat \<Rightarrow> u64 \<Rightarrow> bh_result \<Rightarrow> bool \<Rightarrow> (vfs \<times> bh_result \<times> int) option"

record pagecache =
  current_fsuid :: u32
  in_group_p :: "u32 \<Rightarrow> bool"
  inode_change_ok :: "vfs \<Rightarrow> nat \<Rightarrow> iattr \<Rightarrow> int"
  setattr_copy :: "vfs \<Rightarrow> nat \<Rightarrow> iattr \<Rightarrow> vfs"
  generic_fillattr :: "vnode \<Rightarrow> kstat"
  truncate_setsize :: "vfs \<Rightarrow> nat \<Rightarrow> int \<Rightarrow> vfs"
  truncate_pagecache :: "vfs \<Rightarrow> nat \<Rightarrow> int \<Rightarrow> vfs"
  generic_cont_expand_simple :: "vfs \<Rightarrow> nat \<Rightarrow> int \<Rightarrow> (vfs \<times> int) option"
  filemap_fdatawrite_range :: "vfs \<Rightarrow> nat \<Rightarrow> int \<Rightarrow> int \<Rightarrow> (vfs \<times> int) option"
  sync_mapping_buffers :: "vfs \<Rightarrow> nat \<Rightarrow> (vfs \<times> int) option"
  write_inode_now :: "vfs \<Rightarrow> nat \<Rightarrow> (vfs \<times> int) option"
  filemap_fdatawait_range :: "vfs \<Rightarrow> nat \<Rightarrow> int \<Rightarrow> int \<Rightarrow> (vfs \<times> int) option"
  cont_write_begin :: "get_block \<Rightarrow> vfs \<Rightarrow> nat \<Rightarrow> int \<Rightarrow> u32 \<Rightarrow> (vfs \<times> int) option"
  generic_write_end :: "vfs \<Rightarrow> nat \<Rightarrow> int \<Rightarrow> u32 \<Rightarrow> u32 \<Rightarrow> (vfs \<times> int) option"
  blockdev_direct_IO :: "get_block \<Rightarrow> vfs \<Rightarrow> nat \<Rightarrow> u64 \<Rightarrow> (vfs \<times> int \<times> u64) option"
  generic_block_bmap :: "get_block \<Rightarrow> vfs \<Rightarrow> nat \<Rightarrow> u64 \<Rightarrow> (vfs \<times> u64) option"
  mpage_readpage :: "get_block \<Rightarrow> vfs \<Rightarrow> nat \<Rightarrow> (vfs \<times> int) option"
  mpage_readpages :: "get_block \<Rightarrow> vfs \<Rightarrow> nat \<Rightarrow> nat list \<Rightarrow> (vfs \<times> int) option"
  block_write_full_page :: "get_block \<Rightarrow> vfs \<Rightarrow> nat \<Rightarrow> (vfs \<times> int) option"
  mpage_writepages :: "get_block \<Rightarrow> vfs \<Rightarrow> nat \<Rightarrow> (vfs \<times> int) option"

section \<open>Attributes\<close>

definition exfat_cont_expand :: "pagecache \<Rightarrow> vfs \<Rightarrow> nat \<Rightarrow> int \<Rightarrow> (vfs \<times> int) option" where
  "exfat_cont_expand P v i size_new =
     (let start = i_size (vnode_at v i); count = size_new - start
      in do {
        (v, err) \<leftarrow> generic_cont_expand_simple P v i size_new;
        if err \<noteq> 0 then Some (v, err)
        else let ts = CURRENT_TIME_SEC v; v = mark_inode_dirty i (upd_node i (\<lambda>n. n\<lparr>i_ctime := ts, i_mtime := ts\<rparr>) v)
             in if \<not> i_sync (vnode_at v i) then Some (v, err)
                else do {
                  (v, err) \<leftarrow> filemap_fdatawrite_range P v i start (start + count - 1);
                  (v, err2) \<leftarrow> sync_mapping_buffers P v i;
                  (let err = (if err \<noteq> 0 then err else err2)
                   in do {
                     (v, err2) \<leftarrow> write_inode_now P v i;
                     (let err = (if err \<noteq> 0 then err else err2)
                      in if err = 0 then filemap_fdatawait_range P v i start (start + count - 1) else Some (v, err))
                   })
                }
      })"

definition exfat_allow_set_time :: "pagecache \<Rightarrow> exfat_mount_options \<Rightarrow> vnode \<Rightarrow> bool" where
  "exfat_allow_set_time P opt n \<longleftrightarrow>
     current_fsuid P \<noteq> i_uid n \<and>
     (if in_group_p P (i_gid n) then drop_bit 3 (allow_utime opt) else allow_utime opt) AND MAY_WRITE \<noteq> 0"

text \<open>The mode that is stored, if the request is granted.\<close>

definition exfat_sanitize_mode :: "exfat_mount_options \<Rightarrow> u16 \<Rightarrow> u16 \<Rightarrow> u16 option" where
  "exfat_sanitize_mode opt old mode =
     (let mask = (if S_ISREG old \<or> S_ISLNK old then fs_fmask opt else fs_dmask opt);
          perm = mode AND NOT (S_IFMT OR mask)
      in if perm AND (S_IRUGO OR S_IXUGO) \<noteq> old AND (S_IRUGO OR S_IXUGO) then None
         else if (if exfat_mode_can_hold_ro opt old
                  then perm AND S_IWUGO \<noteq> 0 \<and> perm AND S_IWUGO \<noteq> S_IWUGO AND NOT mask
                  else perm AND S_IWUGO \<noteq> S_IWUGO AND NOT mask) then None
         else Some (mode AND (S_IFMT OR perm)))"

text \<open>Shortening a file.  A file whose first cluster is 0 has no clusters.\<close>

definition exfat_truncate :: "kernel \<Rightarrow> vfs \<Rightarrow> nat \<Rightarrow> int \<Rightarrow> vfs option" where
  "exfat_truncate K v i old_size =
     do {
       v \<leftarrow> lock_super v;
       (let v = upd_node i (\<lambda>n. if mmu_private n > i_size n then n\<lparr>mmu_private := i_size n\<rparr> else n) v
        in if start_clu (i_fid (vnode_at v i)) = 0 then Some (unlock_super v)
           else do {
             (f, inode, err) \<leftarrow> FsTruncateFile (kfs v) (core (vnode_at v i)) (of_s64 old_size) (of_s64 (i_size (vnode_at v i)));
             (let v = upd_node i (put_core inode) (v\<lparr>kfs := f\<rparr>); ts = CURRENT_TIME_SEC v
              in if err \<noteq> FFS_SUCCESS then Some (unlock_super v)
                 else do {
                   v \<leftarrow> sync_or_mark K (i_dirsync (vnode_at v i)) i (upd_node i (\<lambda>n. n\<lparr>i_ctime := ts, i_mtime := ts\<rparr>) v);
                   Some (unlock_super (upd_node i (\<lambda>n. n\<lparr>i_blocks := blocks_of (ksb v) (i_size n)\<rparr>) v))
                 })
           })
     }"

text \<open>The request as it is granted or refused, and its result.  \<open>attr\<close> is the caller's and keeps the changes.\<close>

definition setattr_times :: "pagecache \<Rightarrow> exfat_mount_options \<Rightarrow> vnode \<Rightarrow> iattr \<Rightarrow> iattr" where
  "setattr_times P opt n attr =
     (let set_bits = ATTR_MTIME_SET OR ATTR_ATIME_SET OR ATTR_TIMES_SET
      in if ia_valid attr AND set_bits \<noteq> 0 \<and> exfat_allow_set_time P opt n
         then attr\<lparr>ia_valid := ia_valid attr AND NOT set_bits\<rparr> else attr)"

definition setattr_refused :: "exfat_mount_options \<Rightarrow> iattr \<Rightarrow> bool" where
  "setattr_refused opt attr \<longleftrightarrow>
     ia_valid attr AND ATTR_UID \<noteq> 0 \<and> ia_uid attr \<noteq> fs_uid opt \<or>
     ia_valid attr AND ATTR_GID \<noteq> 0 \<and> ia_gid attr \<noteq> fs_gid opt \<or>
     ia_valid attr AND ATTR_MODE \<noteq> 0 \<and> ia_mode attr AND NOT (S_IFREG OR S_IFLNK OR S_IFDIR OR S_IRWXUGO) \<noteq> 0"

definition setattr_mode :: "exfat_mount_options \<Rightarrow> vnode \<Rightarrow> iattr \<Rightarrow> iattr" where
  "setattr_mode opt n attr =
     (if ia_valid attr AND ATTR_MODE \<noteq> 0
      then (case exfat_sanitize_mode opt (i_mode n) (ia_mode attr) of
              None \<Rightarrow> attr\<lparr>ia_valid := ia_valid attr AND NOT ATTR_MODE\<rparr> | Some m \<Rightarrow> attr\<lparr>ia_mode := m\<rparr>)
      else attr)"

definition setattr_store :: "kernel \<Rightarrow> pagecache \<Rightarrow> vfs \<Rightarrow> nat \<Rightarrow> iattr \<Rightarrow> (vfs \<times> iattr \<times> int) option" where
  "setattr_store K P v i attr =
     (let opt = opts v;
          error = inode_change_ok P v i (setattr_times P opt (vnode_at v i) attr)
      in if error \<noteq> 0 then Some (v, attr, error)
         else if setattr_refused opt attr then Some (v, attr, - EPERM)
         else let attr = setattr_mode opt (vnode_at v i) attr;
                  v = upd_node i (\<lambda>n. n\<lparr>i_fid := (i_fid n)\<lparr>fid_size := of_s64 (i_size n)\<rparr>\<rparr>) v;
                  old_size = i_size (vnode_at v i)
              in do {
                v \<leftarrow> (if ia_valid attr AND ATTR_SIZE \<noteq> 0 then exfat_truncate K (truncate_setsize P v i (ia_size attr)) i old_size
                      else Some v);
                Some (mark_inode_dirty i (setattr_copy P v i attr), attr, error)
              })"

definition exfat_setattr :: "kernel \<Rightarrow> pagecache \<Rightarrow> vfs \<Rightarrow> nat \<Rightarrow> iattr \<Rightarrow> (vfs \<times> iattr \<times> int) option" where
  "exfat_setattr K P v i attr =
     (if ia_valid attr AND ATTR_SIZE \<noteq> 0 \<and> ia_size attr > i_size (vnode_at v i)
      then do {
        (v, error) \<leftarrow> exfat_cont_expand P v i (ia_size attr);
        if error \<noteq> 0 \<or> ia_valid attr = ATTR_SIZE then Some (v, attr, error)
        else setattr_store K P v i (attr\<lparr>ia_valid := ia_valid attr AND NOT ATTR_SIZE\<rparr>)
      }
      else setattr_store K P v i attr)"

definition exfat_getattr :: "pagecache \<Rightarrow> vfs \<Rightarrow> nat \<Rightarrow> kstat" where
  "exfat_getattr P v i = (generic_fillattr P (vnode_at v i))\<lparr>st_blksize := cluster_size (ksb v)\<rparr>"

definition exfat_get_link :: "vfs \<Rightarrow> nat \<Rightarrow> u8 list option" where
  "exfat_get_link v i = i_target (vnode_at v i)"

definition exfat_file_release :: "vfs \<Rightarrow> nat \<Rightarrow> (vfs \<times> int) option" where
  "exfat_file_release v i =
     (let v = upd_node i (\<lambda>n. n\<lparr>i_fid := (i_fid n)\<lparr>fid_size := of_s64 (i_size n)\<rparr>\<rparr>) v
      in do { (f, _) \<leftarrow> FsSyncVol (kfs v) False; Some (v\<lparr>kfs := f\<rparr>, 0) })"

section \<open>The blocks of a file\<close>

definition blocksize_bits :: "sb \<Rightarrow> nat" where
  "blocksize_bits s = ilog2 (nat (s_blocksize s))"

text \<open>The result: the error, \<open>*phys\<close>, \<open>*mapped_blocks\<close> and \<open>*create\<close>.\<close>

definition exfat_bmap :: "vfs \<Rightarrow> nat \<Rightarrow> u64 \<Rightarrow> bool \<Rightarrow> (vfs \<times> int \<times> u64 \<times> u64 \<times> bool) option" where
  "exfat_bmap v i sector create =
     (let s = ksb v; n = vnode_at v i;
          last_block = drop_bit (blocksize_bits s) (of_s64 (i_size n) + (word_of_int (s_blocksize s) - 1))
      in if (vol_type s = FAT12 \<or> vol_type s = FAT16) \<and> i_ino n = EXFAT_ROOT_INO
         then if sector < ucast (drop_bit (sector_size_bits s - DENTRY_SIZE_BITS) (dentries_in_root s))
              then Some (v, 0, sector + ucast (root_start_sector s), 1, create)
              else Some (v, 0, 0, 0, create)
         else if sector \<ge> last_block \<and> \<not> create then Some (v, 0, 0, 0, create)
         else let create = (create \<and> sector \<ge> last_block);
                  clu_offset = s32_of (uint (drop_bit (unat (sectors_per_clu_bits s)) sector));
                  sec_offset = sector AND ucast (sectors_per_clu s - 1);
                  v = upd_node i (\<lambda>n. n\<lparr>i_fid := (i_fid n)\<lparr>fid_size := of_s64 (i_size n)\<rparr>\<rparr>) v
              in do {
                (f, inode, clu, err) \<leftarrow> FsMapCluster (kfs v) (core (vnode_at v i)) clu_offset (Some 0);
                (let v = upd_node i (put_core inode) (v\<lparr>kfs := f\<rparr>); s = ksb v; cluster = the clu
                 in if err \<noteq> FFS_SUCCESS then Some (v, if err = FFS_FULL then - ENOSPC else - EIO, 0, 0, create)
                    else if cluster \<noteq> CLUSTER_EOF
                    then Some (v, 0, ucast (START_SECTOR s cluster + ucast sec_offset), ucast (sectors_per_clu s) - sec_offset, create)
                    else Some (v, 0, 0, 0, create))
              })"

definition exfat_get_block :: get_block where
  "exfat_get_block v i iblock bh create =
     (let max_blocks = drop_bit (blocksize_bits (ksb v)) (b_size bh)
      in do {
        v \<leftarrow> lock_super v;
        (v, err, phys, mapped_blocks, create) \<leftarrow> exfat_bmap v i iblock create;
        if err \<noteq> 0 then Some (unlock_super v, bh, err)
        else let bits = blocksize_bits (ksb v)
             in if phys \<noteq> 0
                then let max_blocks = min mapped_blocks max_blocks;
                         v = (if create then upd_node i (\<lambda>n. n\<lparr>mmu_private := mmu_private n + uint (push_bit bits max_blocks)\<rparr>) v else v)
                     in Some (unlock_super v,
                              bh\<lparr>bh_mapped := Some phys, bh_new := (bh_new bh \<or> create), b_size := push_bit bits max_blocks\<rparr>, 0)
                else Some (unlock_super v, bh\<lparr>b_size := push_bit bits max_blocks\<rparr>, 0)
      })"

section \<open>The entry points of the page cache\<close>

definition exfat_readpage :: "pagecache \<Rightarrow> vfs \<Rightarrow> nat \<Rightarrow> (vfs \<times> int) option" where
  "exfat_readpage P v page = mpage_readpage P exfat_get_block v page"

definition exfat_readpages :: "pagecache \<Rightarrow> vfs \<Rightarrow> nat \<Rightarrow> nat list \<Rightarrow> (vfs \<times> int) option" where
  "exfat_readpages P v i pages = mpage_readpages P exfat_get_block v i pages"

definition exfat_writepage :: "pagecache \<Rightarrow> vfs \<Rightarrow> nat \<Rightarrow> (vfs \<times> int) option" where
  "exfat_writepage P v page = block_write_full_page P exfat_get_block v page"

definition exfat_writepages :: "pagecache \<Rightarrow> vfs \<Rightarrow> nat \<Rightarrow> (vfs \<times> int) option" where
  "exfat_writepages P v i = mpage_writepages P exfat_get_block v i"

text \<open>What a failed write has allocated behind the end of the file is given back.\<close>

definition exfat_write_failed :: "kernel \<Rightarrow> pagecache \<Rightarrow> vfs \<Rightarrow> nat \<Rightarrow> int \<Rightarrow> vfs option" where
  "exfat_write_failed K P v i to_pos =
     (let size_now = i_size (vnode_at v i)
      in if to_pos > size_now
         then let v = upd_node i (\<lambda>n. n\<lparr>i_fid := (i_fid n)\<lparr>fid_size := of_s64 (i_size n)\<rparr>\<rparr>) (truncate_pagecache P v i size_now)
              in exfat_truncate K v i (i_size (vnode_at v i))
         else Some v)"

definition exfat_write_begin :: "kernel \<Rightarrow> pagecache \<Rightarrow> vfs \<Rightarrow> nat \<Rightarrow> int \<Rightarrow> u32 \<Rightarrow> (vfs \<times> int) option" where
  "exfat_write_begin K P v i pos len =
     do {
       (v, ret) \<leftarrow> cont_write_begin P exfat_get_block v i pos len;
       if ret < 0 then do { v \<leftarrow> exfat_write_failed K P v i (pos + uint len); Some (v, ret) } else Some (v, ret)
     }"

text \<open>The comparison \<open>err < len\<close> is one of unsigned integers.\<close>

definition exfat_write_end :: "kernel \<Rightarrow> pagecache \<Rightarrow> vfs \<Rightarrow> nat \<Rightarrow> int \<Rightarrow> u32 \<Rightarrow> u32 \<Rightarrow> (vfs \<times> int) option" where
  "exfat_write_end K P v i pos len copied =
     do {
       (v, err) \<leftarrow> generic_write_end P v i pos len copied;
       v \<leftarrow> (if of_s32 err < len then exfat_write_failed K P v i (pos + uint len) else Some v);
       if \<not> err < 0 \<and> fid_attr (i_fid (vnode_at v i)) AND ATTR_ARCHIVE = 0
       then let ts = CURRENT_TIME_SEC v
            in Some (mark_inode_dirty i (upd_node i (\<lambda>n. n\<lparr>i_mtime := ts, i_ctime := ts,
                 i_fid := (i_fid n)\<lparr>fid_attr := fid_attr (i_fid n) OR ATTR_ARCHIVE\<rparr>\<rparr>) v), err)
       else Some (v, err)
     }"

text \<open>From version 4.7 on the offset of a direct request is no longer part of the two positions compared here.\<close>

definition exfat_direct_IO :: "kernel \<Rightarrow> pagecache \<Rightarrow> vfs \<Rightarrow> nat \<Rightarrow> bool \<Rightarrow> u64 \<Rightarrow> (vfs \<times> int) option" where
  "exfat_direct_IO K P v i is_write count =
     (if is_write \<and> of_s64 (mmu_private (vnode_at v i)) < count then Some (v, 0)
      else do {
        (v, ret, left) \<leftarrow> blockdev_direct_IO P exfat_get_block v i count;
        v \<leftarrow> (if ret < 0 \<and> is_write then exfat_write_failed K P v i (to_s64 left) else Some v);
        Some (v, ret)
      })"

definition exfat_aop_bmap :: "pagecache \<Rightarrow> vfs \<Rightarrow> nat \<Rightarrow> u64 \<Rightarrow> (vfs \<times> u64) option" where
  "exfat_aop_bmap P v i block = generic_block_bmap P exfat_get_block v i block"

end
