(* ===== verification/VfsSuper.thy ===== *)
theory VfsSuper
  imports VfsDir VfsFile
begin

text \<open>
  The operations of \<open>exfat_super.c\<close> on the super block: inodes that go away, unmounting, writing back, statistics, the mount
  options, mounting, and the load and unload of the module.  The services of the kernel that only these use are the record
  \<open>mount_services\<close>.
\<close>

section \<open>Mount options\<close>

datatype opt_token = Opt_uid | Opt_gid | Opt_umask | Opt_dmask | Opt_fmask | Opt_allow_utime | Opt_codepage | Opt_charset
  | Opt_namecase | Opt_debug | Opt_err_cont | Opt_err_panic | Opt_err_ro | Opt_utf8_hack | Opt_err | Opt_discard

definition exfat_tokens :: "(opt_token \<times> string option) list" where
  "exfat_tokens =
     [(Opt_uid, Some ''uid=%u''), (Opt_gid, Some ''gid=%u''), (Opt_umask, Some ''umask=%o''), (Opt_dmask, Some ''dmask=%o''),
      (Opt_fmask, Some ''fmask=%o''), (Opt_allow_utime, Some ''allow_utime=%o''), (Opt_codepage, Some ''codepage=%u''),
      (Opt_charset, Some ''iocharset=%s''), (Opt_namecase, Some ''namecase=%u''), (Opt_debug, Some ''debug''),
      (Opt_err_cont, Some ''errors=continue''), (Opt_err_panic, Some ''errors=panic''), (Opt_err_ro, Some ''errors=remount-ro''),
      (Opt_utf8_hack, Some ''utf8''), (Opt_discard, Some ''discard''), (Opt_err, None)]"

text \<open>
  \<open>match_token\<close> finds the pattern of an option and the text of its argument; the other three read an argument.  The
  default names come from the configuration of the build.
\<close>

record mount_services =
  match_token :: "string \<Rightarrow> (opt_token \<times> string option) list \<Rightarrow> opt_token \<times> string"
  match_int :: "string \<Rightarrow> int option"
  match_octal :: "string \<Rightarrow> int option"
  match_strdup :: "string \<Rightarrow> string option"
  current_uid :: u32
  current_gid :: u32
  current_umask :: u16
  exfat_default_codepage :: u16
  exfat_default_iocharset :: string
  load_nls :: "string \<Rightarrow> nls_table option"
  charset_name :: "nls_table \<Rightarrow> string"
  kzalloc_ok :: bool
  sb_min_blocksize :: "sb \<Rightarrow> sb"
  sb_set_blocksize :: "sb \<Rightarrow> int \<Rightarrow> sb"
  d_make_root :: "vfs \<Rightarrow> nat \<Rightarrow> vfs \<times> bool"
  truncate_inode_pages :: "vfs \<Rightarrow> nat \<Rightarrow> vfs"
  clear_inode :: "vfs \<Rightarrow> nat \<Rightarrow> vfs"
  invalidate_bdev :: "vfs \<Rightarrow> vfs"
  kill_block_super :: "vfs \<Rightarrow> vfs option"
  bd_dev :: u64

text \<open>The pieces that \<open>strsep\<close> cuts at the commas.\<close>

fun strsep :: "string \<Rightarrow> string list" where
  "strsep [] = [[]]"
| "strsep (c # cs) =
     (if c = CHR '','' then [] # strsep cs else (case strsep cs of [] \<Rightarrow> [[c]] | p # ps \<Rightarrow> (c # p) # ps))"

definition default_options :: "mount_services \<Rightarrow> exfat_mount_options" where
  "default_options S =
     \<lparr>fs_uid = current_uid S, fs_gid = current_gid S, fs_fmask = current_umask S, fs_dmask = current_umask S,
      allow_utime = 0xFFFF, codepage = exfat_default_codepage S, iocharset = Default_charset, opt_casesensitive = 0,
      opt_on_error = ERRORS_RO, opt_discard = False\<rparr>"

text \<open>One option: it goes on with the new options, or the function returns.\<close>

datatype 'a parse_step = Go_on 'a | Return_now 'a int

definition number :: "int option \<Rightarrow> 'a \<Rightarrow> (int \<Rightarrow> 'a) \<Rightarrow> 'a parse_step" where
  "number n o0 f = (case n of None \<Rightarrow> Return_now o0 0 | Some k \<Rightarrow> Go_on (f k))"

definition parse_option :: "mount_services \<Rightarrow> string \<Rightarrow> exfat_mount_options \<times> bool \<Rightarrow> (exfat_mount_options \<times> bool) parse_step" where
  "parse_option S p od =
     (case od of (opt, debug) \<Rightarrow>
      case match_token S p exfat_tokens of (token, arg) \<Rightarrow>
        (case token of
           Opt_uid \<Rightarrow> number (match_int S arg) od (\<lambda>k. (opt\<lparr>fs_uid := word_of_int k\<rparr>, debug))
         | Opt_gid \<Rightarrow> number (match_int S arg) od (\<lambda>k. (opt\<lparr>fs_gid := word_of_int k\<rparr>, debug))
         | Opt_umask \<Rightarrow> number (match_octal S arg) od (\<lambda>k. (opt\<lparr>fs_fmask := word_of_int k, fs_dmask := word_of_int k\<rparr>, debug))
         | Opt_dmask \<Rightarrow> number (match_octal S arg) od (\<lambda>k. (opt\<lparr>fs_dmask := word_of_int k\<rparr>, debug))
         | Opt_fmask \<Rightarrow> number (match_octal S arg) od (\<lambda>k. (opt\<lparr>fs_fmask := word_of_int k\<rparr>, debug))
         | Opt_allow_utime \<Rightarrow>
             number (match_octal S arg) od (\<lambda>k. (opt\<lparr>allow_utime := word_of_int k AND (S_IWGRP OR S_IWOTH)\<rparr>, debug))
         | Opt_codepage \<Rightarrow> number (match_int S arg) od (\<lambda>k. (opt\<lparr>codepage := word_of_int k\<rparr>, debug))
         | Opt_charset \<Rightarrow>
             (case match_strdup S arg of
                None \<Rightarrow> Return_now (opt\<lparr>iocharset := (if iocharset opt = Default_charset then Default_charset else Freed_charset)\<rparr>, debug)
                          (- ENOMEM)
              | Some name \<Rightarrow> Go_on (opt\<lparr>iocharset := Own_charset name\<rparr>, debug))
         | Opt_namecase \<Rightarrow> number (match_int S arg) od (\<lambda>k. (opt\<lparr>opt_casesensitive := word_of_int k\<rparr>, debug))
         | Opt_err_cont \<Rightarrow> Go_on (opt\<lparr>opt_on_error := ERRORS_CONT\<rparr>, debug)
         | Opt_err_panic \<Rightarrow> Go_on (opt\<lparr>opt_on_error := ERRORS_PANIC\<rparr>, debug)
         | Opt_err_ro \<Rightarrow> Go_on (opt\<lparr>opt_on_error := ERRORS_RO\<rparr>, debug)
         | Opt_debug \<Rightarrow> Go_on (opt, True)
         | Opt_discard \<Rightarrow> Go_on (opt\<lparr>opt_discard := True\<rparr>, debug)
         | Opt_utf8_hack \<Rightarrow> Go_on od
         | Opt_err \<Rightarrow> Return_now od (- EINVAL)))"

definition fix_allow_utime :: "exfat_mount_options \<Rightarrow> exfat_mount_options" where
  "fix_allow_utime opt =
     (if allow_utime opt = 0xFFFF then opt\<lparr>allow_utime := NOT (fs_dmask opt) AND (S_IWGRP OR S_IWOTH)\<rparr> else opt)"

text \<open>A \<open>return\<close> inside the loop leaves \<open>allow_utime\<close> as it is.\<close>

fun parse_loop :: "mount_services \<Rightarrow> string list \<Rightarrow> exfat_mount_options \<times> bool \<Rightarrow> (exfat_mount_options \<times> bool) \<times> int" where
  "parse_loop S [] od = ((fix_allow_utime (fst od), snd od), 0)"
| "parse_loop S (p # ps) od =
     (if p = [] then parse_loop S ps od
      else case parse_option S p od of
             Go_on od \<Rightarrow> parse_loop S ps od
           | Return_now od err \<Rightarrow> (od, err))"

definition parse_options :: "mount_services \<Rightarrow> string option \<Rightarrow> (exfat_mount_options \<times> bool) \<times> int" where
  "parse_options S options = parse_loop S (case options of None \<Rightarrow> [] | Some text \<Rightarrow> strsep text) (default_options S, False)"

text \<open>The numbers of \<open>exfat_show_options\<close>: \<open>%u\<close>, and \<open>%04o\<close> for 16 bits.\<close>

fun show_base :: "nat \<Rightarrow> nat \<Rightarrow> string" where
  "show_base b n = (if b < 2 \<or> n < b then [char_of (48 + n)] else show_base b (n div b) @ [char_of (48 + n mod b)])"

declare show_base.simps [simp del]

definition show_octal :: "u16 \<Rightarrow> string" where
  "show_octal w = (let ds = show_base 8 (unat w) in replicate (4 - length ds) CHR ''0'' @ ds)"

definition exfat_show_options :: "mount_services \<Rightarrow> vfs \<Rightarrow> string" where
  "exfat_show_options S v =
     (let opt = opts v
      in (if fs_uid opt \<noteq> 0 then '',uid='' @ show_base 10 (unat (fs_uid opt)) else []) @
         (if fs_gid opt \<noteq> 0 then '',gid='' @ show_base 10 (unat (fs_gid opt)) else []) @
         '',fmask='' @ show_octal (fs_fmask opt) @ '',dmask='' @ show_octal (fs_dmask opt) @
         (if allow_utime opt \<noteq> 0 then '',allow_utime='' @ show_octal (allow_utime opt) else []) @
         (if nls_disk_loaded v then '',codepage='' @ charset_name S (nls_disk (conf v)) else []) @
         (case nls_io (conf v) of None \<Rightarrow> [] | Some t \<Rightarrow> '',iocharset='' @ charset_name S t) @
         '',namecase='' @ show_base 10 (unat (opt_casesensitive opt)) @
         (case opt_on_error opt of ERRORS_CONT \<Rightarrow> '',errors=continue'' | ERRORS_PANIC \<Rightarrow> '',errors=panic''
          | ERRORS_RO \<Rightarrow> '',errors=remount-ro'') @
         (if opt_discard opt then '',discard'' else []))"

section \<open>Inodes that go away\<close>

definition exfat_destroy_inode :: "nat \<Rightarrow> vfs \<Rightarrow> vfs" where
  "exfat_destroy_inode i = upd_node i (\<lambda>n. n\<lparr>i_target := None\<rparr>)"

definition exfat_evict_inode :: "kernel \<Rightarrow> mount_services \<Rightarrow> nat \<Rightarrow> vfs \<Rightarrow> vfs" where
  "exfat_evict_inode K S i v =
     (let v = truncate_inode_pages S v i; v = upd_node i (\<lambda>n. if i_nlink n = 0 then n\<lparr>i_size := 0\<rparr> else n) v
      in remove_inode_hash K (exfat_detach i (clear_inode S v i)) i)"

section \<open>Writing back and unmounting\<close>

definition exfat_write_super :: "vfs \<Rightarrow> vfs option" where
  "exfat_write_super v =
     do {
       v \<leftarrow> lock_super v;
       (let v = set_sb_clean v
        in if s_rdonly (ksb v) then Some (unlock_super v)
           else do { (f, _) \<leftarrow> FsSyncVol (kfs v) True; Some (unlock_super (v\<lparr>kfs := f\<rparr>)) })
     }"

definition exfat_sync_fs :: "vfs \<Rightarrow> (vfs \<times> ffs) option" where
  "exfat_sync_fs v =
     (if is_sb_dirty v
      then do {
        v \<leftarrow> lock_super v;
        (f, err) \<leftarrow> FsSyncVol (kfs (set_sb_clean v)) True;
        Some (unlock_super (v\<lparr>kfs := f\<rparr>), err)
      }
      else Some (v, FFS_SUCCESS))"

text \<open>Freeing a name that is freed already is an error of the kernel's memory.\<close>

definition exfat_free_super :: "vfs \<Rightarrow> vfs" where
  "exfat_free_super v =
     (let v = v\<lparr>nls_disk_loaded := False, conf := (conf v)\<lparr>nls_io := None\<rparr>\<rparr>
      in case iocharset (opts v) of
           Default_charset \<Rightarrow> v
         | Own_charset _ \<Rightarrow> v\<lparr>opts := (opts v)\<lparr>iocharset := Freed_charset\<rparr>\<rparr>
         | Freed_charset \<Rightarrow> v\<lparr>kfs := (kfs v)\<lparr>vol := kernel_oops (ksb v)\<rparr>\<rparr>)"

definition exfat_put_super :: "vfs \<Rightarrow> vfs option" where
  "exfat_put_super v =
     do {
       v \<leftarrow> (if is_sb_dirty v then exfat_write_super v else Some v);
       (f, _) \<leftarrow> FsUmountVol (kfs v);
       Some (exfat_free_super (v\<lparr>kfs := f, s_fs_info := False\<rparr>))
     }"

section \<open>Statistics\<close>

record kstatfs =
  f_type :: u32
  f_bsize :: u32
  f_blocks :: u32
  f_bfree :: u32
  f_bavail :: u32
  f_fsid :: "u32 \<times> u32"
  f_namelen :: nat

definition blank_info :: VOL_INFO_T where
  "blank_info = \<lparr>FatType = FAT12, ClusterSize = 0, NumClusters = 0, FreeClusters = 0, UsedClusters = 0\<rparr>"

definition fill_statfs :: "mount_services \<Rightarrow> vfs \<Rightarrow> VOL_INFO_T \<Rightarrow> kstatfs" where
  "fill_statfs S v info =
     \<lparr>f_type = s_magic v, f_bsize = ClusterSize info, f_blocks = NumClusters info, f_bfree = FreeClusters info,
      f_bavail = FreeClusters info, f_fsid = (ucast (bd_dev S), ucast (drop_bit 32 (bd_dev S))), f_namelen = 260\<rparr>"

definition exfat_statfs :: "mount_services \<Rightarrow> vfs \<Rightarrow> (vfs \<times> (int + kstatfs)) option" where
  "exfat_statfs S v =
     (let s = ksb v
      in if used_clusters s = -1
         then do {
           (f, info, err) \<leftarrow> FsGetVolInfo (kfs v) (Some blank_info);
           (let v = v\<lparr>kfs := f\<rparr> in Some (v, if err = FFS_MEDIAERR then Inl (- EIO) else Inr (fill_statfs S v (the info))))
         }
         else Some (v, Inr (fill_statfs S v
                \<lparr>FatType = vol_type s, ClusterSize = cluster_size s, NumClusters = num_clusters s - 2,
                 FreeClusters = num_clusters s - 2 - used_clusters s, UsedClusters = used_clusters s\<rparr>)))"

definition exfat_remount :: "vfs \<Rightarrow> vfs \<times> int" where
  "exfat_remount v = (v\<lparr>s_nodiratime := True\<rparr>, 0)"

section \<open>Mounting\<close>

definition setup_dops :: "vfs \<Rightarrow> vfs" where
  "setup_dops v = v\<lparr>s_ci_names := (opt_casesensitive (opts v) = 0)\<rparr>"

text \<open>The options that the operations below read are those of the same \<open>exfat_sb_info\<close>.\<close>

definition set_options :: "exfat_mount_options \<Rightarrow> vfs \<Rightarrow> vfs" where
  "set_options opt v =
     v\<lparr>opts := opt,
       kfs := (kfs v)\<lparr>vol := (ksb v)\<lparr>casesensitive := (opt_casesensitive opt \<noteq> 0), opt_errors := opt_on_error opt\<rparr>\<rparr>\<rparr>"

text \<open>The exits \<open>out_fail\<close> and \<open>out_fail2\<close>; the root inode is put if there is one.\<close>

definition out_fail :: "kernel \<Rightarrow> nat option \<Rightarrow> vfs \<Rightarrow> int \<Rightarrow> (vfs \<times> int) option" where
  "out_fail K root v error =
     (let v = (case root of None \<Rightarrow> v | Some i \<Rightarrow> iput K v i)
      in Some (exfat_free_super (v\<lparr>s_fs_info := False\<rparr>), error))"

definition out_fail2 :: "kernel \<Rightarrow> nat option \<Rightarrow> vfs \<Rightarrow> int \<Rightarrow> (vfs \<times> int) option" where
  "out_fail2 K root v error = do { (f, _) \<leftarrow> FsUmountVol (kfs v); out_fail K root (v\<lparr>kfs := f\<rparr>) error }"

definition charset_of :: "mount_services \<Rightarrow> exfat_mount_options \<Rightarrow> string" where
  "charset_of S opt = (case iocharset opt of Own_charset name \<Rightarrow> name | _ \<Rightarrow> exfat_default_iocharset S)"

text \<open>The character set of the short names, by its number; an exFAT volume has none.\<close>

definition load_codepage :: "mount_services \<Rightarrow> vfs \<Rightarrow> vfs option" where
  "load_codepage S v =
     (if vol_type (ksb v) = EXFAT then Some v
      else map_option (\<lambda>t. v\<lparr>conf := (conf v)\<lparr>nls_disk := t\<rparr>, nls_disk_loaded := True\<rparr>)
             (load_nls S (''cp'' @ show_base 10 (unat (codepage (opts v))))))"

definition mount_root :: "kernel \<Rightarrow> mount_services \<Rightarrow> vfs \<Rightarrow> (vfs \<times> int) option" where
  "mount_root K S v =
     (case new_inode K v of
        (v, None) \<Rightarrow> out_fail2 K None v (- ENOMEM)
      | (v, Some i) \<Rightarrow> do {
          (v, error) \<leftarrow> exfat_read_root K (upd_node i (\<lambda>n. n\<lparr>i_ino := EXFAT_ROOT_INO, i_version := 1\<rparr>) v) i;
          if error < 0 then out_fail2 K (Some i) v error
          else (case d_make_root S (insert_inode_hash K (exfat_attach K i (i_pos (vnode_at v i)) v) i) i of
                  (v, ok) \<Rightarrow> if \<not> ok then out_fail2 K (Some i) v (- ENOMEM) else Some (v\<lparr>s_root := Some i\<rparr>, 0))
        })"

definition exfat_fill_super :: "kernel \<Rightarrow> mount_services \<Rightarrow> vfs \<Rightarrow> string option \<Rightarrow> (vfs \<times> int) option" where
  "exfat_fill_super K S v data =
     (if \<not> kzalloc_ok S then Some (v, - ENOMEM)
      else let v = v\<lparr>s_fs_info := True, s_lock := False, s_nodiratime := True, s_magic := 0x2011BAB0,
                     nls_disk_loaded := False, conf := (conf v)\<lparr>nls_io := None\<rparr>\<rparr>
           in case parse_options S data of
                ((opt, debug), error) \<Rightarrow>
                  let v = set_options opt v
                  in if error \<noteq> 0 then out_fail K None v error
                     else let v = setup_dops v;
                              v = v\<lparr>kfs := (kfs v)\<lparr>vol := sb_min_blocksize S (ksb v)\<rparr>, s_maxbytes := 0x7FFFFFFFFFFFFFFF\<rparr>
                          in do {
                            (f, ret) \<leftarrow> FsMountVol (sb_set_blocksize S) (kfs v);
                            (let v = v\<lparr>kfs := f\<rparr>
                             in if ret \<noteq> FFS_SUCCESS then out_fail K None v (- EIO)
                                else let v = exfat_hash_init v
                                     in case load_codepage S v of
                                          None \<Rightarrow> out_fail2 K None v (- EINVAL)
                                        | Some v \<Rightarrow>
                                            mount_root K S (v\<lparr>conf := (conf v)\<lparr>nls_io := load_nls S (charset_of S opt)\<rparr>\<rparr>))
                          })"

text \<open>With the debug flag set, unmounting first drops the caches, dirty buffers included.\<close>

abbreviation (input) EXFAT_DEBUGFLAGS_INVALID_UMOUNT :: u32 where "EXFAT_DEBUGFLAGS_INVALID_UMOUNT \<equiv> 1"

definition exfat_debug_kill_sb :: "mount_services \<Rightarrow> vfs \<Rightarrow> vfs option" where
  "exfat_debug_kill_sb S v =
     do {
       v \<leftarrow> (if s_fs_info v \<and> debug_flags (ksb v) AND EXFAT_DEBUGFLAGS_INVALID_UMOUNT \<noteq> 0
             then do { (f, _) \<leftarrow> FsReleaseCache (kfs v); Some (invalidate_bdev S (v\<lparr>kfs := f\<rparr>)) }
             else Some v);
       kill_block_super S v
     }"

section \<open>The module\<close>

text \<open>What the module has set up: the cache of inodes and the registration of the file system.\<close>

record module_state =
  inode_cachep :: bool
  registered :: bool

definition exfat_init_inodecache :: "bool \<Rightarrow> module_state \<Rightarrow> module_state \<times> int" where
  "exfat_init_inodecache cache_ok m = (if cache_ok then (m\<lparr>inode_cachep := True\<rparr>, 0) else (m, - ENOMEM))"

definition exfat_destroy_inodecache :: "module_state \<Rightarrow> module_state" where
  "exfat_destroy_inodecache m = m\<lparr>inode_cachep := False\<rparr>"

text \<open>\<open>register_err\<close> is what \<open>register_filesystem\<close> returns.\<close>

definition init_exfat :: "bool \<Rightarrow> int \<Rightarrow> module_state \<Rightarrow> module_state \<times> int" where
  "init_exfat cache_ok register_err m =
     (let err = FsInit
      in if err \<noteq> FFS_SUCCESS then (m, if err = FFS_MEMORYERR then - ENOMEM else - EIO)
         else case exfat_init_inodecache cache_ok m of
                (m, err) \<Rightarrow>
                  if err \<noteq> 0 then (m, err)
                  else if register_err \<noteq> 0 then (m, register_err)
                  else (m\<lparr>registered := True\<rparr>, 0))"

definition exit_exfat :: "module_state \<Rightarrow> module_state" where
  "exit_exfat m = (exfat_destroy_inodecache m)\<lparr>registered := False\<rparr>"

end
