(* ===== verification/VfsModes.thy ===== *)
theory VfsModes
  imports Vfs VfsFile
begin

text \<open>
  The mode of an inode and the attribute of its entry: a granted change of the mode survives the way to the volume and back.
\<close>

section \<open>Words bit by bit\<close>

text \<open>Equations between 16-bit words, bit by bit.\<close>

lemma u16_eq_iff: "a = b \<longleftrightarrow> (\<forall>n \<in> {..<16}. bit a n = bit b n)" for a b :: u16
  using bit_imp_le_length [of a] bit_imp_le_length [of b] by (auto simp: bit_eq_iff)

lemma bits_upto: "{..<16 :: nat} = {0, 1, 2, 3, 4, 5, 6, 7, 8, 9, 10, 11, 12, 13, 14, 15}"
  by (simp add: lessThan_nat_numeral lessThan_Suc insert_commute)

lemma bit_ucast_u16: "bit (ucast w :: u16) n \<longleftrightarrow> n < 16 \<and> bit w n" for w :: u32
  by (simp add: bit_ucast_iff)

lemma bit_ucast_u32: "bit (ucast w :: u32) n \<longleftrightarrow> bit w n" for w :: u16
  using bit_imp_le_length [of w n] by (auto simp: bit_ucast_iff)

lemmas word_bits = u16_eq_iff bits_upto bit_and_iff bit_or_iff bit_not_iff bit_ucast_u16 bit_ucast_u32

section \<open>The mode of a file\<close>

definition file_mode :: "exfat_mount_options \<Rightarrow> u32 \<Rightarrow> u16" where
  "file_mode opt attr = ucast (exfat_make_mode opt attr S_IRWXUGO)"

lemma file_mode_cases:
  "attr AND ATTR_SUBDIR \<noteq> 0 \<Longrightarrow> file_mode opt attr = (S_IRWXUGO AND NOT (fs_dmask opt)) OR S_IFDIR"
  "attr AND ATTR_SUBDIR = 0 \<Longrightarrow> attr AND ATTR_SYMLINK = 0 \<Longrightarrow> attr AND ATTR_READONLY = 0 \<Longrightarrow>
     file_mode opt attr = (S_IRWXUGO AND NOT (fs_fmask opt)) OR S_IFREG"
  "attr AND ATTR_SUBDIR = 0 \<Longrightarrow> attr AND ATTR_SYMLINK = 0 \<Longrightarrow> attr AND ATTR_READONLY \<noteq> 0 \<Longrightarrow>
     file_mode opt attr = (0x16D AND NOT (fs_fmask opt)) OR S_IFREG"
  by (simp_all add: file_mode_def exfat_make_mode_def word_bits)

lemma u32_eq_iff: "a = b \<longleftrightarrow> (\<forall>n \<in> {..<32}. bit a n = bit b n)" for a b :: u32
  using bit_imp_le_length [of a] bit_imp_le_length [of b] by (auto simp: bit_eq_iff)

lemma bits_upto_32: "{..<32 :: nat} = {0, 1, 2, 3, 4, 5, 6, 7, 8, 9, 10, 11, 12, 13, 14, 15, 16, 17, 18, 19, 20, 21, 22, 23, 24, 25, 26,
    27, 28, 29, 30, 31}"
  by (simp add: lessThan_nat_numeral lessThan_Suc insert_commute)

text \<open>An inode with the mode and the attribute that \<open>exfat_fill_inode\<close> gives it.\<close>

definition fresh_node :: "exfat_mount_options \<Rightarrow> u32 \<Rightarrow> vnode \<Rightarrow> bool" where
  "fresh_node opt attr n \<longleftrightarrow> i_mode n = file_mode opt attr \<and> fid_attr (i_fid n) = fid_attr (i_fid (exfat_save_attr opt attr n))"

definition no_symlink :: "u32 \<Rightarrow> bool" where
  "no_symlink attr \<longleftrightarrow> attr AND ATTR_SUBDIR \<noteq> 0 \<or> attr AND ATTR_SYMLINK = 0"

lemma fill_node_fresh: "fresh_node (opts v) (Attr info) (fill_node v info n)"
  by (simp add: fresh_node_def fill_node_def exfat_save_attr_def file_mode_def Let_def)

lemma file_mode_dir: "no_symlink attr \<Longrightarrow> S_ISDIR (file_mode opt attr) \<longleftrightarrow> attr AND ATTR_SUBDIR \<noteq> 0"
  by (cases "attr AND ATTR_SUBDIR = 0"; cases "attr AND ATTR_READONLY = 0")
    (simp_all add: no_symlink_def file_mode_cases S_ISDIR_def word_bits)

lemma file_mode_other: "no_symlink attr \<Longrightarrow> S_ISREG (file_mode opt attr) \<longleftrightarrow> attr AND ATTR_SUBDIR = 0" "no_symlink attr \<Longrightarrow> \<not> S_ISLNK (file_mode opt attr)"
  by (cases "attr AND ATTR_SUBDIR = 0"; cases "attr AND ATTR_READONLY = 0";
      simp add: no_symlink_def file_mode_cases S_ISREG_def S_ISLNK_def word_bits)+

lemma can_hold: "no_symlink attr \<Longrightarrow> exfat_mode_can_hold_ro opt (file_mode opt attr) \<longleftrightarrow>
    attr AND ATTR_SUBDIR = 0 \<and> NOT (fs_fmask opt) AND S_IWUGO \<noteq> 0"
  by (simp add: exfat_mode_can_hold_ro_def file_mode_dir)

lemma write_bits:
  assumes "no_symlink attr" "attr AND ATTR_SUBDIR = 0"
  shows "file_mode opt attr AND S_IWUGO = (if attr AND ATTR_READONLY = 0 then S_IWUGO AND NOT (fs_fmask opt) else 0)"
  using assms by (cases "attr AND ATTR_READONLY = 0") (simp_all add: no_symlink_def file_mode_cases word_bits)

lemma attr_masks:
  "attr AND 0x7E OR 1 = (attr AND 0x7F) OR 1" "attr AND 1 = 0 \<Longrightarrow> attr AND 0x7E = attr AND 0x7F"
  "attr AND 1 \<noteq> 0 \<Longrightarrow> (attr AND 0x7F) OR 1 = attr AND 0x7F" for attr :: u32
  by (simp_all add: u32_eq_iff bits_upto_32 bit_and_iff bit_or_iff)

lemma saved_attr:
  assumes "no_symlink attr" "fresh_node opt attr n"
  shows "fid_attr (i_fid n) = (if attr AND ATTR_SUBDIR = 0 \<and> NOT (fs_fmask opt) AND S_IWUGO \<noteq> 0 then attr AND 0x7E else attr AND 0x7F)"
  using assms can_hold [OF assms(1), of opt] by (auto simp: fresh_node_def exfat_save_attr_def)

lemma no_write_bits: "S_IWUGO AND NOT k = 0 \<longleftrightarrow> NOT k AND S_IWUGO = 0" for k :: u16
  by (simp add: and.commute)

lemma attr_kept:
  assumes "no_symlink attr" "fresh_node opt attr n"
  shows "exfat_make_attr opt n = attr AND 0x7F"
proof -
  have m: "i_mode n = file_mode opt attr" using assms(2) by (simp add: fresh_node_def)
  show ?thesis
    using saved_attr [OF assms] can_hold [OF assms(1), of opt] write_bits [OF assms(1), of opt] attr_masks [of attr] no_write_bits [of "fs_fmask opt"]
    by (auto simp: exfat_make_attr_def m)
qed

lemma fid_attr_masked:
  "(attr AND 0x7F) AND ATTR_SUBDIR = attr AND ATTR_SUBDIR" "(attr AND 0x7F) AND ATTR_SYMLINK = attr AND ATTR_SYMLINK"
  "(attr AND 0x7F) AND ATTR_READONLY = attr AND ATTR_READONLY" "(attr AND 0x7E) AND ATTR_READONLY = 0"
  "(attr AND 0x7E) AND ATTR_SUBDIR = attr AND ATTR_SUBDIR" "(attr AND 0x7E) AND ATTR_SYMLINK = attr AND ATTR_SYMLINK"
  "((attr AND 0x7E) OR 1) AND ATTR_SUBDIR = attr AND ATTR_SUBDIR" "((attr AND 0x7E) OR 1) AND ATTR_SYMLINK = attr AND ATTR_SYMLINK"
  "((attr AND 0x7E) OR 1) AND ATTR_READONLY = 1"
  for attr :: u32
  by (simp_all add: u32_eq_iff bits_upto_32 bit_and_iff bit_or_iff)

text \<open>The bits of a granted mode.\<close>

lemma granted_bits:
  fixes old mode m k :: u16
  assumes "(mode AND NOT (S_IFMT OR k)) AND (S_IRUGO OR S_IXUGO) = old AND (S_IRUGO OR S_IXUGO)"
    "(mode AND NOT (S_IFMT OR k)) AND S_IWUGO = w" "mode AND NOT (S_IFMT OR S_IRWXUGO) = 0" "mode AND S_IFMT = old AND S_IFMT"
    "m = mode AND (S_IFMT OR (mode AND NOT (S_IFMT OR k)))"
  shows "m = old AND (S_IFMT OR S_IRUGO OR S_IXUGO) OR w"
proof -
  define p where "p = mode AND NOT (S_IFMT OR k)"
  have "m = (mode AND S_IFMT) OR p" unfolding assms(5) p_def by (auto simp: word_bits)
  moreover have "p = (p AND (S_IRUGO OR S_IXUGO)) OR (p AND S_IWUGO)"
    using assms(3) unfolding p_def by (simp add: word_bits)
  ultimately have "m = (old AND S_IFMT) OR (old AND (S_IRUGO OR S_IXUGO)) OR w"
    using assms(1,2,4) unfolding p_def by (metis (no_types) or.assoc)
  then show ?thesis by (simp add: word_bits)
qed

lemma file_mode_cong:
  assumes "a AND ATTR_SUBDIR = b AND ATTR_SUBDIR" "a AND ATTR_SYMLINK = b AND ATTR_SYMLINK" "a AND ATTR_READONLY = b AND ATTR_READONLY"
  shows "file_mode opt a = file_mode opt b"
  using assms by (simp add: file_mode_def exfat_make_mode_def Let_def)

lemma granted_write_bits:
  assumes "exfat_sanitize_mode opt old mode = Some m" "k = (if S_ISREG old \<or> S_ISLNK old then fs_fmask opt else fs_dmask opt)"
    "mode AND S_IFMT = old AND S_IFMT" "mode AND NOT (S_IFMT OR S_IRWXUGO) = 0"
  obtains w where "m = old AND (S_IFMT OR S_IRUGO OR S_IXUGO) OR w" "w = S_IWUGO AND NOT k \<or> exfat_mode_can_hold_ro opt old \<and> w = 0"
proof -
  let ?perm = "mode AND NOT (S_IFMT OR k)"
  have a: "?perm AND (S_IRUGO OR S_IXUGO) = old AND (S_IRUGO OR S_IXUGO)" "m = mode AND (S_IFMT OR ?perm)"
    "?perm AND S_IWUGO = S_IWUGO AND NOT k \<or> exfat_mode_can_hold_ro opt old \<and> ?perm AND S_IWUGO = 0"
    using assms(1) unfolding exfat_sanitize_mode_def Let_def assms(2) [symmetric] by (auto split: if_splits)
  show thesis by (rule that [OF granted_bits [OF a(1) refl assms(4,3) a(2)] a(3)])
qed

text \<open>
  C17: A change of the mode that \<open>exfat_sanitize_mode\<close> grants lasts, although the volume stores a read-only bit only: for a
  regular file or a directory the mode that the attribute gives after it has been written back and read again is the mode
  that was granted, and the other bits of the attribute are the old ones.
\<close>

theorem granted_mode_persists:
  assumes "no_symlink attr" "fresh_node opt attr n" "exfat_sanitize_mode opt (i_mode n) mode = Some m"
    "mode AND S_IFMT = i_mode n AND S_IFMT" "mode AND NOT (S_IFMT OR S_IRWXUGO) = 0"
  shows "ucast (exfat_make_mode opt (exfat_make_attr opt (n\<lparr>i_mode := m\<rparr>)) S_IRWXUGO) = m \<and>
    exfat_make_attr opt (n\<lparr>i_mode := m\<rparr>) AND ATTR_RWMASK = attr AND ATTR_RWMASK"
proof -
  have old: "i_mode n = file_mode opt attr" using assms(2) by (simp add: fresh_node_def)
  note saved = saved_attr [OF assms(1,2)] and hold = can_hold [OF assms(1), of opt]
  have masks: "(attr AND 0x7E) AND 0x7E = attr AND 0x7E" "(attr AND 0x7F) AND 0x7E = attr AND 0x7E" "((attr AND 0x7E) OR 1) AND 0x7E = attr AND 0x7E"
    by (simp_all add: u32_eq_iff bits_upto_32 bit_and_iff bit_or_iff)
  have "file_mode opt (exfat_make_attr opt (n\<lparr>i_mode := m\<rparr>)) = m \<and> exfat_make_attr opt (n\<lparr>i_mode := m\<rparr>) AND ATTR_RWMASK = attr AND ATTR_RWMASK"
  proof (cases "attr AND ATTR_SUBDIR = 0")
    case False
    have md: "file_mode opt attr = (S_IRWXUGO AND NOT (fs_dmask opt)) OR S_IFDIR" using False by (rule file_mode_cases(1))
    obtain w where w: "m = i_mode n AND (S_IFMT OR S_IRUGO OR S_IXUGO) OR w" "w = S_IWUGO AND NOT (fs_dmask opt)"
      using granted_write_bits [OF assms(3) refl assms(4,5)] file_mode_other [OF assms(1), of opt] hold False old by auto
    then have "m = file_mode opt attr" unfolding old md by (simp add: word_bits)
    moreover have "exfat_make_attr opt (n\<lparr>i_mode := m\<rparr>) = attr AND 0x7F"
      using calculation hold saved False by (simp add: exfat_make_attr_def)
    ultimately show ?thesis using file_mode_cong [OF fid_attr_masked(1-3)] masks by simp
  next
    case True
    let ?f = "fs_fmask opt"
    have sl: "attr AND ATTR_SYMLINK = 0" using assms(1) True by (simp add: no_symlink_def)
    obtain w where w: "m = i_mode n AND (S_IFMT OR S_IRUGO OR S_IXUGO) OR w" "w = S_IWUGO AND NOT ?f \<or> exfat_mode_can_hold_ro opt (i_mode n) \<and> w = 0"
      using granted_write_bits [OF assms(3) refl assms(4,5)] file_mode_other [OF assms(1), of opt] True old by auto
    have rx: "file_mode opt attr AND (S_IFMT OR S_IRUGO OR S_IXUGO) = (0x16D AND NOT ?f) OR S_IFREG"
      by (cases "attr AND ATTR_READONLY = 0") (simp_all add: file_mode_cases True sl word_bits)
    have mw: "m = ((0x16D AND NOT ?f) OR S_IFREG) OR w" using w(1) rx old by simp
    have isdir: "\<not> S_ISDIR m" using w(2) unfolding mw by (auto simp: S_ISDIR_def word_bits)
    have m_w: "m AND S_IWUGO = w" using w(2) unfolding mw by (auto simp: word_bits)
    have full: "((0x16D AND NOT ?f) OR S_IFREG) OR (S_IWUGO AND NOT ?f) = (S_IRWXUGO AND NOT ?f) OR S_IFREG" by (simp add: word_bits)
    show ?thesis
    proof (cases "NOT ?f AND S_IWUGO = 0")
      case nohold: True
      then have w0: "w = 0" using w(2) no_write_bits by auto
      have "exfat_make_attr opt (n\<lparr>i_mode := m\<rparr>) = attr AND 0x7F" using saved nohold by (simp add: exfat_make_attr_def exfat_mode_can_hold_ro_def)
      moreover have "file_mode opt attr = m"
        using full nohold no_write_bits [of ?f] by (cases "attr AND ATTR_READONLY = 0") (simp_all add: file_mode_cases True sl mw w0)
      ultimately show ?thesis using file_mode_cong [OF fid_attr_masked(1-3)] masks by simp
    next
      case False
      then have hold: "exfat_mode_can_hold_ro opt m" using isdir by (simp add: exfat_mode_can_hold_ro_def)
      have sv: "fid_attr (i_fid n) = attr AND 0x7E" using saved True False by simp
      show ?thesis
      proof (cases "w = 0")
        case w0: True
        then have "exfat_make_attr opt (n\<lparr>i_mode := m\<rparr>) = (attr AND 0x7E) OR 1" using m_w hold sv by (simp add: exfat_make_attr_def)
        moreover have "file_mode opt ((attr AND 0x7E) OR 1) = m" unfolding mw w0
          by (subst file_mode_cases(3)) (simp_all only: fid_attr_masked True sl not_False_eq_True, simp_all)
        ultimately show ?thesis using masks by simp
      next
        case wn: False
        then have "exfat_make_attr opt (n\<lparr>i_mode := m\<rparr>) = attr AND 0x7E" using m_w hold sv by (simp add: exfat_make_attr_def)
        moreover have "file_mode opt (attr AND 0x7E) = m"
          using wn w(2) full unfolding mw by (subst file_mode_cases(2)) (simp_all only: fid_attr_masked True sl, auto)
        ultimately show ?thesis using masks by simp
      qed
    qed
  qed
  then show ?thesis by (simp only: file_mode_def)
qed

text \<open>\<open>chmod 0555\<close> on a file of mode \<open>0755\<close>.\<close>

theorem granted_mode_persists_witness:
  "exfat_sanitize_mode sample_options (i_mode sample_vnode) 0x816D = Some 0x816D \<and>
    ucast (exfat_make_mode sample_options (exfat_make_attr sample_options (sample_vnode\<lparr>i_mode := 0x816D\<rparr>)) S_IRWXUGO) = (0x816D :: u16)"
proof -
  have m: "i_mode sample_vnode = 0x81ED" by (simp add: sample_vnode_def)
  have f: "fresh_node sample_options 0x20 sample_vnode"
    by (simp add: fresh_node_def file_mode_def exfat_make_mode_def exfat_save_attr_def exfat_mode_can_hold_ro_def S_ISDIR_def sample_options_def
        sample_vnode_def)
  have g: "exfat_sanitize_mode sample_options (i_mode sample_vnode) 0x816D = Some 0x816D"
    by (simp add: exfat_sanitize_mode_def exfat_mode_can_hold_ro_def S_ISREG_def S_ISLNK_def S_ISDIR_def sample_options_def m Let_def)
  have "no_symlink 0x20" by (simp add: no_symlink_def)
  from granted_mode_persists [OF this f g] g m show ?thesis by simp
qed

end
