(* ===== verification/VfsBlocks.thy ===== *)
theory VfsBlocks
  imports VfsFile WriteProps
begin

text \<open>
  The blocks that \<open>exfat_get_block\<close> gives to the page cache are the blocks of the file.
\<close>

section \<open>The cluster of a block\<close>

lemma write_cluster_at:
  assumes "file_ok s fid cs" "k < length cs" "fid_flags fid = 0x03 \<Longrightarrow> int k \<noteq> clusters"
  obtains s' l where "write_cluster s fid (int k) clusters = (s', Some (cs ! k, l))" "dir_ok s'" "vol_eq s s'" "fat_get s' = fat_get s"
proof -
  have d: "dir_ok s" and ch: "file_chain s fid cs" and h: "hint_ok fid cs" using assms(1) by (simp_all add: file_ok_def)
  have ne: "cs \<noteq> []" using assms(2) by auto
  then have hd: "start_clu fid = hd cs" using ch by (simp add: file_chain_def)
  have cs: "\<forall>c \<in> set cs. 2 \<le> c \<and> c < num_clusters s" using ch by (simp add: file_chain_def)
  then have eof: "start_clu fid \<noteq> CLUSTER_EOF" using ne below_EOF hd by (metis hd_in_set)
  show thesis
  proof (cases "fid_flags fid = 0x03")
    case True
    then have "cs ! k = start_clu fid + of_nat k" using ch assms(2) by (simp add: file_chain_def)
    then show thesis
      using that [of s] d True eof assms(3) by (cases "k = 0") (simp_all add: write_cluster_def of_s32_def Let_def)
  next
    case False
    obtain j n where j: "chain_start fid (int k) = (int n, cs ! j)" "j + n = k"
      using chain_start_ok [OF h ne hd assms(2)] by blast
    obtain s' where "walk_last n s (cs ! j) (start_clu fid) =
        (s', Some (cs ! (j + n), if n = 0 then start_clu fid else cs ! (j + n - 1)))" "dir_ok s'" "vol_eq s s'" "fat_get s' = fat_get s"
      using walk_last_chain [OF d cs, of j n "start_clu fid"] ch False assms(2) j(2) by (auto simp: file_chain_def)
    then show thesis using that False j by (simp add: write_cluster_def)
  qed
qed

lemma block_pos:
  assumes "dir_ok s"
  shows "file_pos s cs (b * ssize s) = START_SECTOR s (cs ! (b div spc s)) + of_nat (b mod spc s)"
    "b * ssize s div csize s = b div spc s"
proof -
  note c = csize_spc [OF assms] and z = csize_bounds(4) [OF assms]
  have "b * ssize s mod csize s = b mod spc s * ssize s" using c(1) by (simp add: mult_mod_left)
  moreover show "b * ssize s div csize s = b div spc s" using z by (simp add: c(1))
  ultimately show "file_pos s cs (b * ssize s) = START_SECTOR s (cs ! (b div spc s)) + of_nat (b mod spc s)"
    using z by (simp add: file_pos_def)
qed

lemma block_pos_add:
  assumes "dir_ok s" "b mod spc s + k < spc s"
  shows "file_pos s cs ((b + k) * ssize s) = file_pos s cs (b * ssize s) + of_nat k"
proof -
  have m: "(b + k) mod spc s = b mod spc s + k"
    using assms(2) mod_add_left_eq [of b "spc s" k] by simp
  have "b + k = b mod spc s + k + spc s * (b div spc s)" by simp
  then have "(b + k) div spc s = b div spc s"
    using assms(2) csize_spc(2) [OF assms(1)] by (simp only: div_mult_self2) simp
  then show ?thesis using m unfolding block_pos(1) [OF assms(1)] by simp
qed

section \<open>Mapping\<close>

definition block_geom :: "sb \<Rightarrow> bool" where
  "block_geom s \<longleftrightarrow> s_blocksize s = sector_size s \<and>
     unat (sectors_per_clu_bits s) = unat (cluster_size_bits s) - sector_size_bits s \<and>
     sectors_per_clu s = 2 ^ (unat (cluster_size_bits s) - sector_size_bits s)"

text \<open>An inode with the clusters \<open>cs\<close>, on a volume at rest; sector 0 holds the boot record and is no file's.\<close>

definition block_file :: "vfs \<Rightarrow> nat \<Rightarrow> u32 list \<Rightarrow> bool" where
  "block_file v i cs \<longleftrightarrow> (let s = ksb v; n = vnode_at v i
     in 0 < v_sem (kfs v) \<and> file_ok s (i_fid n) cs \<and> block_geom s \<and> 0 \<le> i_size n \<and> i_size n \<le> mmu_private n \<and>
        mmu_private n \<le> int (length cs * csize s) \<and> (i_ino n = EXFAT_ROOT_INO \<longrightarrow> vol_type s \<noteq> FAT12 \<and> vol_type s \<noteq> FAT16) \<and>
        0 \<notin> file_area s cs)"

lemma ilog2_exp: "ilog2 (2 ^ n) = n"
proof (induction n)
  case (Suc n)
  have "ilog2 (2 ^ Suc n) = Suc (ilog2 (2 ^ Suc n div 2))" by (subst ilog2.simps) simp
  then show ?case using Suc by simp
qed (simp add: ilog2.simps)

lemma blocksize_bits_eq:
  assumes "dir_ok s" "block_geom s"
  shows "blocksize_bits s = sector_size_bits s" "s_blocksize s = int (ssize s)"
proof -
  have ss: "sector_size s = 2 ^ sector_size_bits s" using dir_ok_fields(4) [OF assms(1)] by (simp add: geom_def)
  then show "s_blocksize s = int (ssize s)" using assms(2) by (simp add: block_geom_def ssize_def)
  have "nat (2 ^ sector_size_bits s) = 2 ^ sector_size_bits s" by (simp add: nat_power_eq)
  then have "ilog2 (nat (2 ^ sector_size_bits s)) = sector_size_bits s" using ilog2_exp by (simp only:)
  then show "blocksize_bits s = sector_size_bits s" using assms(2) ss by (simp add: blocksize_bits_def block_geom_def)
qed

text \<open>The 64-bit arithmetic on blocks.\<close>

lemma block_words:
  fixes b :: u64
  assumes "dir_ok s" "block_geom s"
  shows "unat (drop_bit (unat (sectors_per_clu_bits s)) b) = unat b div spc s"
    "b AND ucast (sectors_per_clu s - 1) = of_nat (unat b mod spc s)"
    "unat (sectors_per_clu s) = spc s" "spc s \<le> 2 ^ 25"
proof -
  let ?k = "unat (cluster_size_bits s) - sector_size_bits s"
  have cb: "unat (cluster_size_bits s) \<le> 25" "sector_size_bits s \<le> unat (cluster_size_bits s)"
    using dir_ok_fields(7) [OF assms(1)] by (simp_all add: clu_geom_def Let_def)
  then have k: "?k \<le> 25" "sector_size_bits s \<le> unat (cluster_size_bits s)" by linarith+
  have sp: "spc s = 2 ^ ?k" using k(2) by (simp add: spc_def csize_def ssize_def power_diff)
  show "unat (drop_bit (unat (sectors_per_clu_bits s)) b) = unat b div spc s"
    using assms(2) by (simp add: block_geom_def sp unat_drop_bit)
  have le: "(2 :: nat) ^ ?k \<le> 2 ^ 25" by (rule power_increasing [OF k(1)]) simp
  then show "spc s \<le> 2 ^ 25" by (simp add: sp)
  have "(2 :: nat) ^ ?k < 2 ^ 32" using le by simp
  then have "unat (of_nat (2 ^ ?k) :: u32) = 2 ^ ?k" unfolding unat_of_nat by simp
  then have "unat (2 ^ ?k :: u32) = 2 ^ ?k" by simp
  then show spw: "unat (sectors_per_clu s) = spc s" using assms(2) by (simp add: block_geom_def sp)
  have "sectors_per_clu s - 1 = mask ?k" using assms(2) by (simp add: block_geom_def mask_eq_exp_minus_1)
  moreover have "ucast (mask ?k :: u32) = (mask ?k :: u64)" using k(1) by (simp add: ucast_mask_eq min_def)
  ultimately have "b AND ucast (sectors_per_clu s - 1) = take_bit ?k b" by (simp add: take_bit_eq_mask)
  moreover have "take_bit ?k b = of_nat (unat b mod spc s)"
    using unat_word [of "take_bit ?k b" "unat b mod spc s"] by (simp add: unat_take_bit sp)
  ultimately show "b AND ucast (sectors_per_clu s - 1) = of_nat (unat b mod spc s)" by simp
qed

lemma file_ok_seek: "file_ok s (fid\<lparr>rwoffset := r\<rparr>) cs = file_ok s fid cs" "file_ok s (fid\<lparr>fid_size := z\<rparr>) cs = file_ok s fid cs"
  by (simp_all add: file_ok_def file_chain_def hint_ok_def)

text \<open>The cluster with the index \<open>k\<close> of a file that reaches behind it.\<close>

lemma map_cluster_ok:
  assumes "file_ok s (i_fid n) cs" "int (k * csize s) < mmu_private n" "mmu_private n \<le> int (length cs * csize s)"
  obtains s' fid' where "ffsMapCluster s n (int k) = Some (s', n\<lparr>i_fid := fid'\<rparr>, cs ! k, FFS_SUCCESS)"
    "vol_eq s s'" "file_ok s' fid' cs"
proof -
  let ?b = "unat (cluster_size_bits s)"
  let ?fid = "(i_fid n)\<lparr>rwoffset := push_bit ?b (int k)\<rparr>"
  have d: "dir_ok s" using assms(1) by (simp add: file_ok_def)
  have cpos: "0 < csize s" by (rule csize_bounds(3) [OF d])
  have kl: "k < length cs"
  proof -
    have "int (k * csize s) < int (length cs * csize s)" using assms(2,3) by (rule order.strict_trans2)
    then show ?thesis by (simp only: of_nat_less_iff) (use cpos in simp)
  qed
  have l31: "length cs < 2 ^ 31" using assms(1) by (simp add: file_ok_def file_chain_def)
  have pos: "0 < mmu_private n" using assms(2) by (rule order.strict_trans1 [rotated]) simp
  obtain m where m: "mmu_private n = int (Suc m)" using pos by (metis Suc_pred' of_nat_0_less_iff zero_less_imp_eq_int)
  have "int (Suc m) \<le> int (length cs * csize s)" using assms(3) m by simp
  then have m': "m < length cs * csize s" by linarith
  then have md: "m div csize s < length cs" by (rule less_mult_imp_div_less)
  have dm: "drop_bit ?b (mmu_private n - 1) = int (m div csize s)"
    using drop_bit_int [of ?b m] by (simp add: m csize_def)
  have s32: "s32_of (int (m div csize s)) = int (m div csize s)" using md l31 by (intro s32_of_small) auto
  define clusters where "clusters = int (m div csize s) + 1"
  have cl: "(if mmu_private n = 0 then 0 else s32_of (drop_bit ?b (mmu_private n - 1)) + 1) = clusters"
    using pos by (simp add: dm s32 clusters_def)
  have "k * csize s \<le> m" using assms(2) unfolding m by linarith
  then have "k \<le> m div csize s" using cpos by (simp add: less_eq_div_iff_mult_less_eq)
  then have kc: "int k \<noteq> clusters" by (simp add: clusters_def)
  obtain s1 l where s1: "write_cluster s ?fid (int k) clusters = (s1, Some (cs ! k, l))" "dir_ok s1" "vol_eq s s1" "fat_get s1 = fat_get s"
    using write_cluster_at [of s ?fid cs k clusters] assms(1) kl kc file_ok_seek by auto
  have "cs ! k \<in> set cs" using kl by simp
  then have "cs ! k < num_clusters s" using assms(1) unfolding file_ok_def file_chain_def by blast
  then have ce: "cs ! k \<noteq> CLUSTER_EOF" by (rule below_EOF)
  have ej: "dev_ejected s1 = False" by (rule dir_ok_fields(9) [OF s1(2)])
  have run: "ffsMapCluster s n (int k) = Some (s1, n\<lparr>i_fid := set_hint s1 ?fid (cs ! k)\<rparr>, cs ! k, FFS_SUCCESS)"
    unfolding ffsMapCluster_def Let_def cl using s1(1) ce ej by (simp add: eject_ret_def)
  have cv: "cluster_size_bits s1 = cluster_size_bits s" using same_volume_fields(27) [OF vol_eq_same [OF s1(3)]] by simp
  have "drop_bit ?b (push_bit ?b (int k)) = int k" by (simp add: drop_bit_eq_div push_bit_eq_mult)
  then have ix: "clu_index s1 ?fid = int k" using kl l31 by (simp add: clu_index_def cv s32_of_small)
  have "file_ok s1 (set_hint s1 ?fid (cs ! k)) cs"
    using assms(1) s1 file_chain_cong [of s "i_fid n" cs s1 "set_hint s1 ?fid (cs ! k)"] same_volume_fields(13) [OF vol_eq_same [OF s1(3)]]
    by (simp add: file_ok_def hint_ok_def set_hint_def ix)
  then show thesis by (rule that [OF run s1(3)])
qed

lemma locked_op_ok: "0 < v_sem f \<Longrightarrow> locked_op f op = (case op (vol f) of None \<Rightarrow> None | Some (s, r) \<Rightarrow> Some (f\<lparr>vol := s\<rparr>, r))"
  by (cases f) (auto simp: locked_op_def sm_P_def sm_V_def split: option.splits)

lemma block_fileD:
  assumes "block_file v i cs"
  shows "0 < v_sem (kfs v)" "file_ok (ksb v) (i_fid (vnode_at v i)) cs" "dir_ok (ksb v)" "block_geom (ksb v)"
    "0 \<le> i_size (vnode_at v i)" "i_size (vnode_at v i) \<le> mmu_private (vnode_at v i)"
    "mmu_private (vnode_at v i) \<le> int (length cs * csize (ksb v))"
    "i_ino (vnode_at v i) = EXFAT_ROOT_INO \<longrightarrow> vol_type (ksb v) \<noteq> FAT12 \<and> vol_type (ksb v) \<noteq> FAT16"
    "0 \<notin> file_area (ksb v) cs"
  using assms by (simp_all add: block_file_def Let_def file_ok_def)

text \<open>The number of blocks of a file of \<open>n\<close> bytes.\<close>

lemma last_block_eq:
  assumes "dir_ok s" "block_geom s" "n < 2 ^ 56"
  shows "unat (drop_bit (blocksize_bits s) (of_s64 (int n) + (word_of_int (s_blocksize s) - 1))) = (n + (ssize s - 1)) div ssize s"
proof -
  note b = blocksize_bits_eq [OF assms(1,2)] and z = csize_bounds(4,6) [OF assms(1)]
  have "word_of_int (s_blocksize s) - 1 = (of_nat (ssize s - 1) :: u64)" using z(1) by (simp add: b(2) of_nat_diff)
  then have w: "of_s64 (int n) + (word_of_int (s_blocksize s) - 1) = (of_nat (n + (ssize s - 1)) :: u64)" by (simp add: of_s64_def)
  have "n + (ssize s - 1) < 2 ^ 64" using assms(3) z(2) by simp
  then have "unat (of_nat (n + (ssize s - 1)) :: u64) = n + (ssize s - 1)" unfolding unat_of_nat by simp
  then show ?thesis by (simp add: w b(1) unat_drop_bit ssize_def)
qed

text \<open>The file's clusters as the operation finds them: \<open>exfat_bmap\<close> of a block inside the file.\<close>

lemma bmap_inside:
  assumes "block_file v i cs" "int (unat b * ssize (ksb v)) < i_size (vnode_at v i)"
  obtains f fid' where
    "exfat_bmap v i b create = Some (upd_node i (\<lambda>n. n\<lparr>i_fid := fid'\<rparr>) (v\<lparr>kfs := f\<rparr>), 0,
       ucast (file_pos (ksb v) cs (unat b * ssize (ksb v))), of_nat (spc (ksb v) - unat b mod spc (ksb v)), False)"
    "vol_eq (ksb v) (vol f)" "v_sem f = v_sem (kfs v)" "file_ok (vol f) fid' cs"
proof -
  let ?s = "ksb v" and ?n = "vnode_at v i" and ?b = "unat b"
  note o = block_fileD [OF assms(1)] and w = block_words [OF o(3,4)] and z = csize_bounds [OF o(3)]
  obtain sz where sz: "i_size ?n = int sz" using o(5) zero_le_imp_eq_int by blast
  have lt: "?b * ssize ?s < sz" using assms(2) by (simp only: sz of_nat_less_iff)
  have "int sz \<le> int (length cs * csize ?s)" using o(6,7) sz by linarith
  then have cap: "sz \<le> length cs * csize ?s" by (simp only: of_nat_le_iff)
  have l31: "length cs < 2 ^ 31" using o(2) by (simp add: file_ok_def file_chain_def)
  have "length cs * csize ?s \<le> (2 ^ 31 - 1) * 2 ^ 25" using l31 z(1) by (intro mult_le_mono) auto
  then have s56: "sz < 2 ^ 56" using cap by simp
  have lb: "unat (drop_bit (blocksize_bits ?s) (of_s64 (i_size ?n) + (word_of_int (s_blocksize ?s) - 1))) = (sz + (ssize ?s - 1)) div ssize ?s"
    unfolding sz by (rule last_block_eq [OF o(3,4) s56])
  have "Suc ?b * ssize ?s \<le> sz + (ssize ?s - 1)" using lt z(4) by simp
  then have "?b < (sz + (ssize ?s - 1)) div ssize ?s" using z(4) by (simp add: less_eq_div_iff_mult_less_eq Suc_le_eq [symmetric])
  then have inside: "\<not> drop_bit (blocksize_bits ?s) (of_s64 (i_size ?n) + (word_of_int (s_blocksize ?s) - 1)) \<le> b"
    by (simp add: word_le_nat_alt lb)
  define k where "k = ?b div spc ?s"
  have kc: "k * csize ?s \<le> ?b * ssize ?s"
    using csize_spc(1) [OF o(3)] by (simp add: k_def div_times_less_eq_dividend flip: mult.assoc)
  have "k * csize ?s < length cs * csize ?s" using kc lt cap by linarith
  then have kl: "k < length cs" by simp
  have off: "s32_of (uint (drop_bit (unat (sectors_per_clu_bits ?s)) b)) = int k"
  proof -
    have "uint (drop_bit (unat (sectors_per_clu_bits ?s)) b) = int k" unfolding k_def w(1) [of b, symmetric] by (simp only: of_nat_unat)
    then show ?thesis using kl l31 by (simp add: s32_of_small)
  qed
  define v1 where "v1 = upd_node i (\<lambda>n. n\<lparr>i_fid := (i_fid n)\<lparr>fid_size := of_s64 (i_size n)\<rparr>\<rparr>) v"
  let ?m = "core (vnode_at v1 i)"
  have m: "file_ok ?s (i_fid ?m) cs" "int (k * csize ?s) < mmu_private ?m" "mmu_private ?m \<le> int (length cs * csize ?s)"
  proof -
    have "k * csize ?s < sz" using kc lt by linarith
    then have "int (k * csize ?s) < mmu_private ?n" using o(6) unfolding sz by linarith
    then show "int (k * csize ?s) < mmu_private ?m" by (simp add: v1_def)
  qed (use o(2,7) file_ok_seek(2) in \<open>simp_all add: v1_def\<close>)
  obtain s' fid' where r: "ffsMapCluster ?s ?m (int k) = Some (s', ?m\<lparr>i_fid := fid'\<rparr>, cs ! k, FFS_SUCCESS)" "vol_eq ?s s'" "file_ok s' fid' cs"
    by (rule map_cluster_ok [OF m])
  have f: "FsMapCluster (kfs v1) ?m (int k) (Some 0) = Some ((kfs v)\<lparr>vol := s'\<rparr>, ?m\<lparr>i_fid := fid'\<rparr>, Some (cs ! k), FFS_SUCCESS)"
    using o(1) r(1) by (simp add: FsMapCluster_def locked_op_ok v1_def)
  have put: "upd_node i (put_core (?m\<lparr>i_fid := fid'\<rparr>)) (v1\<lparr>kfs := (kfs v)\<lparr>vol := s'\<rparr>\<rparr>) =
      upd_node i (\<lambda>n. n\<lparr>i_fid := fid'\<rparr>) (v\<lparr>kfs := (kfs v)\<lparr>vol := s'\<rparr>\<rparr>)"
    by (cases "vnode_at v i") (simp add: upd_node_def v1_def put_core_def core_def inode.defs)
  have ce: "cs ! k \<noteq> CLUSTER_EOF"
  proof -
    have "cs ! k \<in> set cs" using kl by simp
    then have "cs ! k < num_clusters ?s" using o(2) unfolding file_ok_def file_chain_def by blast
    then show ?thesis by (rule below_EOF)
  qed
  have st: "START_SECTOR s' = START_SECTOR ?s" "sectors_per_clu s' = sectors_per_clu ?s"
    using same_volume_derived(4) [OF vol_eq_same [OF r(2)]] same_volume_fields(11) [OF vol_eq_same [OF r(2)]] by simp_all
  have sec: "START_SECTOR ?s (cs ! k) + ucast (of_nat (?b mod spc ?s) :: u64) = file_pos ?s cs (?b * ssize ?s)"
  proof -
    have "?b mod spc ?s < 2 ^ 32" using w(4) mod_less_divisor [OF csize_spc(2) [OF o(3)], of ?b] by simp
    then have "ucast (of_nat (?b mod spc ?s) :: u64) = (of_nat (?b mod spc ?s) :: u32)"
      by (simp add: word_unat_eq_iff unat_of_nat unsigned_ucast_eq unat_take_bit take_bit_nat_eq_self)
    then show ?thesis unfolding block_pos(1) [OF o(3)] k_def by simp
  qed
  have cnt: "ucast (sectors_per_clu ?s) - of_nat (?b mod spc ?s) = (of_nat (spc ?s - ?b mod spc ?s) :: u64)"
  proof -
    have "ucast (sectors_per_clu ?s) = (of_nat (spc ?s) :: u64)" unfolding w(3) [symmetric] by (simp only: of_nat_unat)
    then show ?thesis using csize_spc(2) [OF o(3)] mod_less_divisor [of "spc ?s" ?b] by (simp add: of_nat_diff)
  qed
  have root: "\<not> ((vol_type ?s = FAT12 \<or> vol_type ?s = FAT16) \<and> i_ino ?n = EXFAT_ROOT_INO)" using o(8) by blast
  have "exfat_bmap v i b create = Some (upd_node i (\<lambda>n. n\<lparr>i_fid := fid'\<rparr>) (v\<lparr>kfs := (kfs v)\<lparr>vol := s'\<rparr>\<rparr>), 0,
       ucast (file_pos ?s cs (?b * ssize ?s)), of_nat (spc ?s - ?b mod spc ?s), False)"
    unfolding exfat_bmap_def Let_def if_not_P [OF root] using inside ce f
    by (simp add: off w(2) put st sec cnt flip: v1_def)
  then show thesis by (rule that) (simp_all add: r)
qed


lemma same_blocksize: "same_volume s t \<Longrightarrow> s_blocksize t = s_blocksize s"
  unfolding same_volume_def by (cases s; cases t) simp

lemma same_block_geom:
  assumes "same_volume s t"
  shows "block_geom t = block_geom s" "blocksize_bits t = blocksize_bits s"
  by (simp_all add: block_geom_def blocksize_bits_def same_volume_fields [OF assms] same_blocksize [OF assms])

lemma block_file_vol_eq:
  assumes "block_file v i cs" "vol_eq (ksb v) (vol f)" "v_sem f = v_sem (kfs v)" "file_ok (vol f) fid cs"
  shows "block_file (upd_node i (\<lambda>n. n\<lparr>i_fid := fid\<rparr>) (v\<lparr>kfs := f\<rparr>)) i cs"
proof -
  note sv = vol_eq_same [OF assms(2)]
  have "file_area (vol f) cs = file_area (ksb v) cs"
    by (simp add: file_area_def clu_blocks_def spc_def csize_def ssize_def same_volume_fields [OF sv] same_volume_derived [OF sv])
  then show ?thesis
    using assms(1,3,4) by (simp add: block_file_def Let_def same_block_geom [OF sv] same_volume_fields [OF sv] csize_def)
qed


text \<open>The blocks that the answer of \<open>exfat_get_block\<close> stands for.\<close>

definition maps_blocks :: "sb \<Rightarrow> u32 list \<Rightarrow> nat \<Rightarrow> nat \<Rightarrow> bh_result \<Rightarrow> bool" where
  "maps_blocks s cs b m bh \<longleftrightarrow> b_size bh = of_nat (m * ssize s) \<and>
     bh_mapped bh = Some (ucast (file_pos s cs (b * ssize s))) \<and>
     (\<forall>k < m. blk s (file_pos s cs (b * ssize s) + of_nat k) = file_bytes s cs ((b + k) * ssize s) (ssize s))"

lemma block_contents:
  assumes "dir_ok s" "b mod spc s + k < spc s"
  shows "blk s (file_pos s cs (b * ssize s) + of_nat k) = file_bytes s cs ((b + k) * ssize s) (ssize s)"
proof -
  have "length (blk s (file_pos s cs ((b + k) * ssize s))) = ssize s"
    using dir_ok_fields(4) [OF assms(1)] by (simp add: geom_def ssize_def)
  then have "slice_at (blk s (file_pos s cs ((b + k) * ssize s))) 0 (ssize s) = blk s (file_pos s cs ((b + k) * ssize s))"
    by (simp add: slice_at_def)
  then show ?thesis
    using slice_file_bytes [OF assms(1), of "ssize s" "(b + k) * ssize s" cs] by (simp add: block_pos_add [OF assms])
qed

lemma block_count:
  fixes z :: u64
  assumes "dir_ok s" "block_geom s" "0 < r" "r \<le> spc s"
  defines "m \<equiv> min r (unat z div ssize s)"
  shows "push_bit (blocksize_bits s) (min (of_nat r) (drop_bit (blocksize_bits s) z)) = of_nat (m * ssize s)"
proof -
  have e: "unat (drop_bit (blocksize_bits s) z) = unat z div ssize s"
    by (simp add: blocksize_bits_eq(1) [OF assms(1,2)] unat_drop_bit ssize_def)
  have "r < 2 ^ 64" using assms(4) block_words(4) [OF assms(1,2)] by simp
  then have "unat (of_nat r :: u64) = r" unfolding unat_of_nat by simp
  then have "unat (min (of_nat r) (drop_bit (blocksize_bits s) z)) = m"
    using e by (simp add: m_def min_def word_le_nat_alt)
  then have "min (of_nat r) (drop_bit (blocksize_bits s) z) = of_nat m" by (metis of_nat_unat ucast_id)
  then show ?thesis by (simp add: blocksize_bits_eq(1) [OF assms(1,2)] push_bit_eq_mult ssize_def)
qed

text \<open>
  C5: inside the file \<open>exfat_get_block\<close> maps the block it is asked for, and as many behind it as the request and the
  cluster have, to the blocks of the device that hold the bytes of the file; it allocates nothing.
\<close>

theorem get_block_maps:
  fixes bh :: bh_result
  assumes "block_file v i cs" "\<not> s_lock v" "int (unat b * ssize (ksb v)) < i_size (vnode_at v i)"
  defines "m \<equiv> min (spc (ksb v) - unat b mod spc (ksb v)) (unat (b_size bh) div ssize (ksb v))"
  shows "\<exists>v' bh'. exfat_get_block v i b bh create = Some (v', bh', 0) \<and> bh_new bh' = bh_new bh \<and>
    maps_blocks (ksb v) cs (unat b) m bh' \<and> vol_eq (ksb v) (ksb v') \<and> block_file v' i cs \<and> \<not> s_lock v'"
proof -
  let ?s = "ksb v" and ?b = "unat b" and ?w = "v\<lparr>s_lock := True\<rparr>"
  note o = block_fileD [OF assms(1)]
  have w: "block_file ?w i cs" using assms(1) by (simp add: block_file_def Let_def)
  have lt: "int (?b * ssize (ksb ?w)) < i_size (vnode_at ?w i)" using assms(3) by simp
  obtain f fid where r: "exfat_bmap ?w i b create = Some (upd_node i (\<lambda>n. n\<lparr>i_fid := fid\<rparr>) (?w\<lparr>kfs := f\<rparr>), 0,
       ucast (file_pos ?s cs (?b * ssize ?s)), of_nat (spc ?s - ?b mod spc ?s), False)"
    and f: "vol_eq ?s (vol f)" "v_sem f = v_sem (kfs v)" "file_ok (vol f) fid cs"
    by (rule bmap_inside [OF w lt, of create]) (rule that, simp_all)
  let ?P = "file_pos ?s cs (?b * ssize ?s)" and ?v = "unlock_super (upd_node i (\<lambda>n. n\<lparr>i_fid := fid\<rparr>) (?w\<lparr>kfs := f\<rparr>))"
  have rest: "0 < spc ?s - ?b mod spc ?s" "spc ?s - ?b mod spc ?s \<le> spc ?s" using csize_spc(2) [OF o(3)] by simp_all
  have "int (?b * ssize ?s) < int (length cs * csize ?s)" using assms(3) o(6,7) by linarith
  then have "?P \<in> file_area ?s cs" by (intro file_pos_block(3) [OF o(3)]) (simp only: of_nat_less_iff)
  then have "?P \<noteq> 0" using o(9) by auto
  then have nz: "(ucast ?P :: u64) \<noteq> 0" by (simp add: word_unat_eq_iff unsigned_ucast_eq take_bit_nat_eq_self [OF order.strict_trans [OF unsigned_less]])
  have "maps_blocks ?s cs ?b m (bh\<lparr>bh_mapped := Some (ucast ?P), b_size := of_nat (m * ssize ?s)\<rparr>)"
    unfolding maps_blocks_def using block_contents [OF o(3), of ?b _ cs] rest by (simp add: m_def less_diff_conv2 less_diff_conv add.commute)
  moreover have "exfat_get_block v i b bh create = Some (?v, bh\<lparr>bh_mapped := Some (ucast ?P), b_size := of_nat (m * ssize ?s)\<rparr>, 0)"
    using assms(2) nz same_block_geom(2) [OF vol_eq_same [OF f(1)]]
    by (simp add: exfat_get_block_def lock_super_def r block_count [OF o(3,4) rest] m_def)
  moreover have "block_file ?v i cs"
    using block_file_vol_eq [OF w, of f fid] f by (simp add: unlock_super_def block_file_def Let_def)
  ultimately show ?thesis using f(1) by (intro exI conjI) (assumption | simp add: unlock_super_def)+
qed

text \<open>Of 1030 bytes in the clusters 3 and 4: four sectors asked for from sector 1 are the sector 11 alone, where the cluster ends.\<close>

lemma file_sb_block_file: "block_file (sample_vfs file_sb (sample_vnode\<lparr>i_fid := sample_fid, i_size := 1030, mmu_private := 1030\<rparr>)) i [3, 4]"
proof -
  have "s_blocksize (sample_sb FAT16) = 512" using same_blocksize [OF vol_eq_same [OF sample_frame]] by (simp add: blank_sb_def)
  then have g: "block_geom file_sb" by (simp add: block_geom_def file_sb_fields file_sb_def) (simp add: sample_fields blank_sb_def)
  have st: "START_SECTOR file_sb 3 = 10" "START_SECTOR file_sb 4 = 12" by (simp_all add: START_SECTOR_def file_sb_fields)
  have sz: "spc file_sb = 2" "csize file_sb = 1024" by (simp_all add: spc_def csize_def ssize_def file_sb_fields)
  have two: "{..<2 :: nat} = {0, 1}" by auto
  have "0 \<notin> file_area file_sb [3, 4]" by (simp add: file_area_def clu_blocks_def st sz two)
  then show ?thesis
    using g file_sb_ok by (simp add: block_file_def sz sample_vnode_def)
qed

theorem get_block_maps_witness:
  "\<exists>v' bh'. exfat_get_block (sample_vfs file_sb (sample_vnode\<lparr>i_fid := sample_fid, i_size := 1030, mmu_private := 1030\<rparr>)) 0 1
      \<lparr>bh_mapped = None, bh_new = False, b_size = 2048\<rparr> True = Some (v', bh', 0) \<and> bh_mapped bh' = Some 11 \<and> b_size bh' = 512"
proof -
  let ?v = "sample_vfs file_sb (sample_vnode\<lparr>i_fid := sample_fid, i_size := 1030, mmu_private := 1030\<rparr>)"
  let ?bh = "\<lparr>bh_mapped = None, bh_new = False, b_size = 2048\<rparr>"
  have sz: "spc file_sb = 2" "ssize file_sb = 512" by (simp_all add: spc_def csize_def ssize_def file_sb_fields)
  have "file_pos file_sb [3, 4] 512 = 11" by (simp add: file_pos_def csize_def ssize_def START_SECTOR_def file_sb_fields)
  then show ?thesis
    using get_block_maps [OF file_sb_block_file, of 1 0 ?bh True] by (auto simp: maps_blocks_def sz sample_vnode_def)
qed

end
