(* ===== verification/VfsIndex.thy ===== *)
theory VfsIndex
  imports VfsDir VfsSuper VfsBlocks
begin

text \<open>
  The hash table of inodes: at most one inode in use for each position of an entry, whatever the operations do.
\<close>

section \<open>The interface\<close>

text \<open>
  What the operations use of the table: a partial map from positions to inodes with an insertion and a removal.  An inode that is
  \<open>absent\<close> can be inserted; a removed one can if it is \<open>held\<close>.
\<close>

locale inode_index =
  fixes lookup :: "'v \<Rightarrow> 'p \<Rightarrow> 'i option"
    and attach :: "'i \<Rightarrow> 'p \<Rightarrow> 'v \<Rightarrow> 'v"
    and detach :: "'i \<Rightarrow> 'v \<Rightarrow> 'v"
    and inv :: "'v \<Rightarrow> bool"
    and absent :: "'i \<Rightarrow> 'v \<Rightarrow> bool"
    and held :: "'i \<Rightarrow> bool"
  assumes inv_attach: "inv v \<Longrightarrow> lookup v p = None \<Longrightarrow> absent i v \<Longrightarrow> inv (attach i p v)"
    and lookup_attach: "inv v \<Longrightarrow> lookup v p = None \<Longrightarrow> absent i v \<Longrightarrow> lookup (attach i p v) = (lookup v)(p \<mapsto> i)"
    and absent_ran: "inv v \<Longrightarrow> absent i v \<Longrightarrow> i \<notin> ran (lookup v)"
    and inv_detach: "inv v \<Longrightarrow> inv (detach i v)"
    and lookup_detach: "inv v \<Longrightarrow> lookup (detach i v) p = (if lookup v p = Some i then None else lookup v p)"
    and absent_detach: "inv v \<Longrightarrow> held i \<Longrightarrow> absent i (detach i v)"
begin

lemma gone: "inv v \<Longrightarrow> i \<notin> ran (lookup (detach i v))"
  by (auto simp: ran_def lookup_detach)

lemma ran_detach: "inv v \<Longrightarrow> ran (lookup (detach i v)) \<subseteq> ran (lookup v)"
  by (auto simp: ran_def lookup_detach split: if_splits)

text \<open>An inode moves to a position that is free or its own.\<close>

lemma move:
  assumes "inv v" "held i" "lookup v p \<in> {None, Some i}"
  shows "inv (attach i p (detach i v))" "lookup (attach i p (detach i v)) = (lookup (detach i v))(p \<mapsto> i)"
proof -
  have "lookup (detach i v) p = None" using assms by (auto simp: lookup_detach)
  note r = inv_detach [OF assms(1)] this absent_detach [OF assms(1,2)]
  show "inv (attach i p (detach i v))" by (rule inv_attach [OF r])
  show "lookup (attach i p (detach i v)) = (lookup (detach i v))(p \<mapsto> i)" by (rule lookup_attach [OF r])
qed

text \<open>An inode that has just been inserted goes away without a trace.\<close>

lemma attach_detach:
  assumes "inv v" "lookup v p = None" "absent i v"
  shows "lookup (detach i (attach i p v)) = lookup v"
proof
  fix q
  have "lookup v q \<noteq> Some i" using absent_ran [OF assms(1,3)] by (auto simp: ran_def)
  then show "lookup (detach i (attach i p v)) q = lookup v q"
    using assms(2) by (simp add: lookup_detach [OF inv_attach [OF assms]] lookup_attach [OF assms])
qed

end

section \<open>The table\<close>

definition hash_ok :: "kernel \<Rightarrow> bool" where
  "hash_ok K \<longleftrightarrow> (\<forall>pos. exfat_hash K pos < EXFAT_HASH_SIZE)"

text \<open>The inodes that \<open>igrab\<close> gives out: those that are not being freed.\<close>

definition in_use :: "kernel \<Rightarrow> nat \<Rightarrow> bool" where
  "in_use K i \<longleftrightarrow> (\<forall>v. snd (igrab K v i))"

definition inode_of :: "kernel \<Rightarrow> vfs \<Rightarrow> u64 \<Rightarrow> nat option" where
  "inode_of K v pos = List.find (\<lambda>i. i_pos (vnode_at v i) = pos \<and> in_use K i) (inode_hashtable v (exfat_hash K pos))"

text \<open>A list holds different inodes of its hash value, and no two in use of one position.\<close>

definition index_ok :: "kernel \<Rightarrow> vfs \<Rightarrow> bool" where
  "index_ok K v \<longleftrightarrow> (\<forall>h < EXFAT_HASH_SIZE. distinct (inode_hashtable v h) \<and>
     inj_on (\<lambda>i. i_pos (vnode_at v i)) {i \<in> set (inode_hashtable v h). in_use K i} \<and>
     (\<forall>i \<in> set (inode_hashtable v h). exfat_hash K (i_pos (vnode_at v i)) = h))"

definition unlisted :: "kernel \<Rightarrow> nat \<Rightarrow> vfs \<Rightarrow> bool" where
  "unlisted K i v \<longleftrightarrow> in_use K i \<and> (\<forall>h < EXFAT_HASH_SIZE. i \<notin> set (inode_hashtable v h))"

lemma find_inj: "inj_on f {x \<in> set xs. P x} \<Longrightarrow> List.find (\<lambda>x. f x = p \<and> P x) xs = Some y \<longleftrightarrow> y \<in> set xs \<and> f y = p \<and> P y"
proof (induction xs)
  case (Cons x xs)
  have "inj_on f {x \<in> set xs. P x}" using Cons.prems by (rule inj_on_subset) auto
  then show ?case using Cons by (auto simp: inj_on_def)
qed simp

lemma find_none: "List.find P xs = None \<longleftrightarrow> (\<forall>x \<in> set xs. \<not> P x)"
  by (induction xs) auto

lemma inode_of_iff:
  assumes "hash_ok K" "index_ok K v"
  shows "inode_of K v pos = Some i \<longleftrightarrow> i \<in> set (inode_hashtable v (exfat_hash K pos)) \<and> i_pos (vnode_at v i) = pos \<and> in_use K i"
  using assms by (auto simp: inode_of_def hash_ok_def index_ok_def find_inj)

lemma option_eqI: "(\<And>i. x = Some i \<longleftrightarrow> y = Some i) \<Longrightarrow> x = y"
  by (cases x; cases y) auto

lemma attach_fields:
  "inode_hashtable (exfat_attach K i p v) h = (if h = exfat_hash K p then i # inode_hashtable v h else inode_hashtable v h)"
  "i_pos (vnode_at (exfat_attach K i p v) j) = (if j = i then p else i_pos (vnode_at v j))"
  by (simp_all add: exfat_attach_def Let_def upd_node_def)

lemma detach_fields:
  "inode_hashtable (exfat_detach i v) h = remove1 i (inode_hashtable v h)"
  "i_pos (vnode_at (exfat_detach i v) j) = (if j = i then 0 else i_pos (vnode_at v j))"
  by (simp_all add: exfat_detach_def Let_def upd_node_def)

lemma unlisted_ran: "hash_ok K \<Longrightarrow> index_ok K v \<Longrightarrow> unlisted K i v \<Longrightarrow> i \<notin> ran (inode_of K v)"
  by (auto simp: ran_def inode_of_iff unlisted_def hash_ok_def)

lemma attach_ok:
  assumes h: "hash_ok K" and v: "index_ok K v" and none: "inode_of K v p = None" and "unlisted K i v"
  shows "index_ok K (exfat_attach K i p v)" "inode_of K (exfat_attach K i p v) = (inode_of K v)(p \<mapsto> i)"
proof -
  have n: "i \<notin> set (inode_hashtable v k)" if "k < EXFAT_HASH_SIZE" for k using assms(4) that by (simp add: unlisted_def)
  have g: "in_use K i" using assms(4) by (simp add: unlisted_def)
  have p: "j \<in> set (inode_hashtable v (exfat_hash K p)) \<Longrightarrow> in_use K j \<Longrightarrow> i_pos (vnode_at v j) \<noteq> p" for j
    using none by (auto simp: inode_of_def find_none)
  show ok: "index_ok K (exfat_attach K i p v)"
    unfolding index_ok_def
  proof (intro allI impI conjI ballI)
    fix k assume k: "k < EXFAT_HASH_SIZE"
    show "distinct (inode_hashtable (exfat_attach K i p v) k)" 
      using v k n [OF k] by (cases "k = exfat_hash K p") (simp_all add: index_ok_def attach_fields)
    have "inj_on (\<lambda>j. i_pos (vnode_at v j)) {j \<in> set (inode_hashtable v k). in_use K j}" using v k by (simp add: index_ok_def)
    then show "inj_on (\<lambda>j. i_pos (vnode_at (exfat_attach K i p v) j)) {j \<in> set (inode_hashtable (exfat_attach K i p v) k). in_use K j}"
      using n [OF k] p by (auto simp: inj_on_def attach_fields split: if_splits)
    fix j assume "j \<in> set (inode_hashtable (exfat_attach K i p v) k)"
    then show "exfat_hash K (i_pos (vnode_at (exfat_attach K i p v) j)) = k"
      using v k n [OF k] by (auto simp: index_ok_def attach_fields split: if_splits)
  qed
  show "inode_of K (exfat_attach K i p v) = (inode_of K v)(p \<mapsto> i)"
  proof (rule ext, rule option_eqI)
    fix q j
    have hq: "exfat_hash K q < EXFAT_HASH_SIZE" using h by (simp add: hash_ok_def)
    show "inode_of K (exfat_attach K i p v) q = Some j \<longleftrightarrow> ((inode_of K v)(p \<mapsto> i)) q = Some j"
      using n [OF hq] p g by (auto simp: inode_of_iff [OF h ok] inode_of_iff [OF h v] attach_fields)
  qed
qed

lemma detach_ok:
  assumes h: "hash_ok K" and v: "index_ok K v"
  shows "index_ok K (exfat_detach i v)" "inode_of K (exfat_detach i v) p = (if inode_of K v p = Some i then None else inode_of K v p)"
    "in_use K i \<Longrightarrow> unlisted K i (exfat_detach i v)"
proof -
  have d: "distinct (inode_hashtable v k)" if "k < EXFAT_HASH_SIZE" for k
    using v that by (simp add: index_ok_def)
  show ok: "index_ok K (exfat_detach i v)"
    unfolding index_ok_def
  proof (intro allI impI conjI ballI)
    fix k assume k: "k < EXFAT_HASH_SIZE"
    show "distinct (inode_hashtable (exfat_detach i v) k)" using d [OF k] by (simp add: detach_fields)
    have "inj_on (\<lambda>j. i_pos (vnode_at v j)) {j \<in> set (inode_hashtable v k). in_use K j}" using v k by (simp add: index_ok_def)
    then show "inj_on (\<lambda>j. i_pos (vnode_at (exfat_detach i v) j)) {j \<in> set (inode_hashtable (exfat_detach i v) k). in_use K j}"
      using d [OF k] by (auto simp: inj_on_def detach_fields)
    fix j assume "j \<in> set (inode_hashtable (exfat_detach i v) k)"
    then show "exfat_hash K (i_pos (vnode_at (exfat_detach i v) j)) = k"
      using v k d [OF k] by (auto simp: index_ok_def detach_fields)
  qed
  show "inode_of K (exfat_detach i v) p = (if inode_of K v p = Some i then None else inode_of K v p)"
  proof (rule option_eqI)
    fix j
    have hp: "exfat_hash K p < EXFAT_HASH_SIZE" using h by (simp add: hash_ok_def)
    have "inode_of K (exfat_detach i v) p = Some j \<longleftrightarrow> j \<noteq> i \<and> inode_of K v p = Some j"
      using d [OF hp] by (auto simp: inode_of_iff [OF h ok] inode_of_iff [OF h v] detach_fields)
    then show "inode_of K (exfat_detach i v) p = Some j \<longleftrightarrow> (if inode_of K v p = Some i then None else inode_of K v p) = Some j"
      by auto
  qed
  show "in_use K i \<Longrightarrow> unlisted K i (exfat_detach i v)" using d by (simp add: unlisted_def detach_fields)
qed

interpretation ix: inode_index "inode_of K" "exfat_attach K" exfat_detach "\<lambda>v. hash_ok K \<and> index_ok K v" "unlisted K" "in_use K" for K
  by unfold_locales (auto simp: attach_ok detach_ok unlisted_ran)

section \<open>What leaves the table alone\<close>

definition index_eq :: "kernel \<Rightarrow> vfs \<Rightarrow> vfs \<Rightarrow> bool" where
  "index_eq K v v' \<longleftrightarrow> inode_hashtable v' = inode_hashtable v \<and> (\<forall>i. i_pos (vnode_at v' i) = i_pos (vnode_at v i))"

lemma index_eq_refl [simp, intro]: "index_eq K v v"
  by (simp add: index_eq_def)

lemma index_eq_trans [trans]: "index_eq K u v \<Longrightarrow> index_eq K v w \<Longrightarrow> index_eq K u w"
  by (simp add: index_eq_def)

lemma index_eq_same:
  assumes "index_eq K v v'"
  shows "index_ok K v' = index_ok K v" "inode_of K v' = inode_of K v"
  using assms by (auto simp: index_eq_def index_ok_def inode_of_def fun_eq_iff inj_on_def)

lemma index_eq_upd: "(\<And>n. i_pos (f n) = i_pos n) \<Longrightarrow> index_eq K v (upd_node i f v)"
  by (simp add: index_eq_def upd_node_def)

lemma put_core_pos [simp]: "i_pos (put_core c n) = i_pos n"
  by (cases n) (simp add: put_core_def inode.defs)

lemma index_eq_fields [simp, intro]:
  "index_eq K v (v\<lparr>kfs := f\<rparr>)" "index_eq K v (v\<lparr>s_lock := b\<rparr>)" "index_eq K v (unlock_super v)" "index_eq K v (put_cores m v)"
  "index_eq K v (mark_inode_dirty i v)" "index_eq K v (size_to_fid i v)" "index_eq K v (put_fid_at i fid v)"
  "index_eq K v (drop_nlink i v)" "index_eq K v (upd_node i (touch_dir a b ts) v)" "index_eq K v (upd_node i (touch_new ts) v)"
  "index_eq K v (upd_node i (put_core c) v)"
  by (auto simp: index_eq_def unlock_super_def put_cores_def mark_inode_dirty_def size_to_fid_def put_fid_at_def drop_nlink_def touch_dir_def
      touch_new_def upd_node_def split: option.splits)

lemma index_eq_lock: "lock_super v = Some w \<Longrightarrow> index_eq K v w"
  by (auto simp: lock_super_def split: if_splits)

lemma index_eq_sync: "sync_or_mark K b i v = Some w \<Longrightarrow> index_eq K v w"
  by (auto simp: sync_or_mark_def exfat_sync_inode_def exfat_write_inode_def Let_def bind_eq_Some_conv split: if_splits)

text \<open>
  The services of the kernel while an operation runs: a new inode is not one that the table has and is in use, \<open>igrab\<close> fails exactly for the
  inodes that are being freed, and the last \<open>iput\<close> of an inode evicts it.
\<close>

definition kernel_ok :: "kernel \<Rightarrow> bool" where
  "kernel_ok K \<longleftrightarrow> hash_ok K \<and>
     (\<forall>v v' i. new_inode K v = (v', Some i) \<longrightarrow> inode_hashtable v' = inode_hashtable v \<and> unlisted K i v \<and>
        (\<forall>j. j \<noteq> i \<longrightarrow> i_pos (vnode_at v' j) = i_pos (vnode_at v j))) \<and>
     (\<forall>v. kfs (fst (new_inode K v)) = kfs v) \<and> (\<forall>v i. kfs (fst (igrab K v i)) = kfs v) \<and>
     (\<forall>v v'. new_inode K v = (v', None) \<longrightarrow> index_eq K v v') \<and>
     (\<forall>v i. snd (igrab K v i) = in_use K i \<and> index_eq K v (fst (igrab K v i))) \<and>
     (\<forall>v i. index_eq K v (iput K v i) \<or> index_eq K (exfat_detach i v) (iput K v i)) \<and>
     (\<forall>v i. index_eq K v (insert_inode_hash K v i) \<and> index_eq K v (remove_inode_hash K v i)) \<and>
     (\<forall>v i d. index_eq K v (fst (d_splice_alias K v i d)))"

lemma iget_exact:
  assumes "kernel_ok K"
  obtains w where "exfat_iget K v pos = (w, inode_of K v pos)" "index_eq K v w" "kfs w = kfs v"
proof -
  have g: "snd (igrab K v i) = in_use K i" "index_eq K v (fst (igrab K v i))" "kfs (fst (igrab K v i)) = kfs v" for v i
    using assms by (simp_all add: kernel_ok_def)
  have "\<exists>w. iget_walk K v pos xs = (w, List.find (\<lambda>i. i_pos (vnode_at v i) = pos \<and> in_use K i) xs) \<and> index_eq K v w \<and> kfs w = kfs v" for xs
  proof (induction xs arbitrary: v)
    case (Cons i xs)
    let ?u = "fst (igrab K v i)"
    have u: "index_eq K v ?u" "kfs ?u = kfs v" using g by blast+
    have same: "List.find (\<lambda>j. i_pos (vnode_at ?u j) = pos \<and> in_use K j) xs = List.find (\<lambda>j. i_pos (vnode_at v j) = pos \<and> in_use K j) xs"
      using u(1) by (simp add: index_eq_def)
    obtain w where w: "iget_walk K ?u pos xs = (w, List.find (\<lambda>j. i_pos (vnode_at v j) = pos \<and> in_use K j) xs)" "index_eq K ?u w" "kfs w = kfs ?u"
      using Cons.IH [of ?u] unfolding same by blast
    have "index_eq K v w" "kfs w = kfs v" using index_eq_trans [OF u(1) w(2)] w(3) u(2) by simp_all
    then show ?case using Cons.IH [of v] w(1) u g(1) [of v i] by (cases "igrab K v i") auto
  qed simp
  then show thesis using that by (auto simp: exfat_iget_def inode_of_def)
qed

lemma fill_inode_index:
  assumes "exfat_fill_inode K v i fid = Some (w, err)"
  shows "err = 0" "inode_hashtable w = inode_hashtable v" "j \<noteq> i \<Longrightarrow> i_pos (vnode_at w j) = i_pos (vnode_at v j)"
  using assms by (auto simp: exfat_fill_inode_def Let_def bind_eq_Some_conv upd_node_def)

text \<open>A table of which inodes of others have changed the position.\<close>

lemma index_other:
  assumes "inode_hashtable w = inode_hashtable v" "\<And>j. j \<noteq> i \<Longrightarrow> i_pos (vnode_at w j) = i_pos (vnode_at v j)"
    "unlisted K i v" "hash_ok K" "index_ok K v"
  shows "index_ok K w" "inode_of K w = inode_of K v" "unlisted K i w"
proof -
  have same: "\<forall>j \<in> set (inode_hashtable v h). i_pos (vnode_at w j) = i_pos (vnode_at v j)" if "h < EXFAT_HASH_SIZE" for h
    using assms(2,3) that unfolding unlisted_def by metis
  show ok: "index_ok K w" unfolding index_ok_def
  proof (intro allI impI)
    fix h assume h: "h < EXFAT_HASH_SIZE"
    show "distinct (inode_hashtable w h) \<and> inj_on (\<lambda>i. i_pos (vnode_at w i)) {i \<in> set (inode_hashtable w h). in_use K i} \<and>
        (\<forall>i\<in>set (inode_hashtable w h). exfat_hash K (i_pos (vnode_at w i)) = h)"
      unfolding assms(1) using assms(5) h same [OF h] by (auto simp: index_ok_def inj_on_def)
  qed
  show "inode_of K w = inode_of K v"
  proof (rule ext, rule option_eqI)
    fix p j
    have "exfat_hash K p < EXFAT_HASH_SIZE" using assms(4) by (simp add: hash_ok_def)
    then have "\<forall>j \<in> set (inode_hashtable v (exfat_hash K p)). i_pos (vnode_at w j) = i_pos (vnode_at v j)" by (rule same)
    then show "inode_of K w p = Some j \<longleftrightarrow> inode_of K v p = Some j"
      by (auto simp: inode_of_iff [OF assms(4) ok] inode_of_iff [OF assms(4,5)] assms(1))
  qed
  show "unlisted K i w" using assms(1,3) by (simp add: unlisted_def)
qed

lemma build_new_inode:
  assumes "kernel_ok K" "index_ok K v" "inode_of K v pos = None" "exfat_build_inode K v fid pos = Some (w, r)"
  shows "index_ok K w" "case r of Inl err \<Rightarrow> err = - ENOMEM \<and> inode_of K w = inode_of K v
    | Inr i \<Rightarrow> i \<notin> ran (inode_of K v) \<and> inode_of K w = (inode_of K v)(pos \<mapsto> i)"
proof -
  have h: "hash_ok K" using assms(1) by (simp add: kernel_ok_def)
  obtain v1 where v1: "exfat_iget K v pos = (v1, None)" "index_eq K v v1" using iget_exact [OF assms(1), of v pos] assms(3) by metis
  note e1 = index_eq_same [OF v1(2)]
  obtain v2 n where n: "new_inode K v1 = (v2, n)" by fastforce
  have "index_ok K w \<and> (case r of Inl err \<Rightarrow> err = - ENOMEM \<and> inode_of K w = inode_of K v
    | Inr i \<Rightarrow> i \<notin> ran (inode_of K v) \<and> inode_of K w = (inode_of K v)(pos \<mapsto> i))"
  proof (cases n)
    case None
    then have "index_eq K v1 v2" using assms(1) n unfolding kernel_ok_def by blast
    moreover have "w = v2" "r = Inl (- ENOMEM)" using assms(4) v1(1) n None by (simp_all add: exfat_build_inode_def)
    ultimately show ?thesis using e1 assms(2) by (simp add: index_eq_same)
  next
    case (Some i)
    have k: "inode_hashtable v2 = inode_hashtable v1" "unlisted K i v1"
      "\<forall>j. j \<noteq> i \<longrightarrow> i_pos (vnode_at v2 j) = i_pos (vnode_at v1 j)"
      using assms(1) n unfolding kernel_ok_def Some by metis+
    define v3 where "v3 = upd_node i (\<lambda>n. n\<lparr>i_ino := iunique K v2 EXFAT_ROOT_INO, i_version := 1\<rparr>) v2"
    obtain v4 err where v4: "exfat_fill_inode K v3 i fid = Some (v4, err)"
      using assms(4) v1(1) n Some by (auto simp: exfat_build_inode_def Let_def bind_eq_Some_conv v3_def)
    note f = fill_inode_index [OF v4]
    have w: "w = insert_inode_hash K (exfat_attach K i pos v4) i" "r = Inr i"
      using assms(4) v1(1) n Some v4 f(1) by (simp_all add: exfat_build_inode_def Let_def v3_def)
    have a: "inode_hashtable v4 = inode_hashtable v1" "\<And>j. j \<noteq> i \<Longrightarrow> i_pos (vnode_at v4 j) = i_pos (vnode_at v1 j)"
      using f(2,3) k(1,3) by (simp_all add: v3_def upd_node_def)
    have ok1: "index_ok K v1" using e1 assms(2) by simp
    note o = index_other [OF a k(2) h ok1]
    have at: "inode_of K v4 pos = None" "unlisted K i v4" "i \<notin> ran (inode_of K v)"
      using o e1 assms(3) unlisted_ran [OF h ok1 k(2)] by simp_all
    have "index_eq K (exfat_attach K i pos v4) w" using assms(1) w(1) by (simp add: kernel_ok_def)
    then show ?thesis
      using index_eq_same [of K "exfat_attach K i pos v4" w] attach_ok [OF h o(1) at(1,2)] at(3) o e1 w(2) by simp
  qed
  then show "index_ok K w" "case r of Inl err \<Rightarrow> err = - ENOMEM \<and> inode_of K w = inode_of K v
    | Inr i \<Rightarrow> i \<notin> ran (inode_of K v) \<and> inode_of K w = (inode_of K v)(pos \<mapsto> i)" by simp_all
qed


lemma index_keep: "index_eq K v w \<Longrightarrow> index_ok K v \<Longrightarrow> index_ok K w"
  by (simp add: index_eq_same)

lemma build_inode_index:
  assumes "kernel_ok K" "index_ok K v" "exfat_build_inode K v fid pos = Some (w, r)"
  shows "index_ok K w" "r = Inr i \<Longrightarrow> inode_of K w = (inode_of K v)(pos \<mapsto> i)" "r = Inr i \<Longrightarrow> inode_of K v pos \<in> {None, Some i}"
    "r = Inl err \<Longrightarrow> inode_of K w = inode_of K v"
proof -
  have "index_ok K w \<and> (case r of Inl err \<Rightarrow> inode_of K w = inode_of K v
      | Inr i \<Rightarrow> inode_of K w = (inode_of K v)(pos \<mapsto> i) \<and> inode_of K v pos \<in> {None, Some i})"
  proof (cases "inode_of K v pos")
    case None
    then show ?thesis using build_new_inode [OF assms(1,2) None assms(3)] by (auto split: sum.splits)
  next
    case (Some j)
    obtain v1 where v1: "exfat_iget K v pos = (v1, Some j)" "index_eq K v v1" using iget_exact [OF assms(1), of v pos] Some by metis
    then have "w = v1" "r = Inr j" using assms(3) by (simp_all add: exfat_build_inode_def)
    then show ?thesis using index_eq_same [OF v1(2)] assms(2) Some by (auto simp: fun_eq_iff)
  qed
  then show "index_ok K w" "r = Inr i \<Longrightarrow> inode_of K w = (inode_of K v)(pos \<mapsto> i)" "r = Inr i \<Longrightarrow> inode_of K v pos \<in> {None, Some i}"
    "r = Inl err \<Longrightarrow> inode_of K w = inode_of K v" by auto
qed

section \<open>The operations\<close>

text \<open>Steps under which the table is as good as before.\<close>

lemma index_ok_steps [simp]:
  "index_ok K (v\<lparr>kfs := f\<rparr>) = index_ok K v" "index_ok K (v\<lparr>s_lock := b\<rparr>) = index_ok K v" "index_ok K (unlock_super v) = index_ok K v"
  "index_ok K (put_cores m v) = index_ok K v" "index_ok K (mark_inode_dirty i v) = index_ok K v" "index_ok K (size_to_fid i v) = index_ok K v"
  "index_ok K (put_fid_at i fid v) = index_ok K v" "index_ok K (drop_nlink i v) = index_ok K v"
  "index_ok K (upd_node i (touch_dir a b' ts) v) = index_ok K v" "index_ok K (upd_node i (touch_new ts) v) = index_ok K v"
  "index_ok K (upd_node i (put_core c) v) = index_ok K v"
  by (rule index_eq_same, rule index_eq_fields)+

lemma index_ok_upd: "(\<And>n. i_pos (f n) = i_pos n) \<Longrightarrow> index_ok K (upd_node i f v) = index_ok K v"
  by (rule index_eq_same) (rule index_eq_upd)

lemma index_ok_node [simp]:
  "index_ok K (upd_node i (\<lambda>n. n\<lparr>i_nlink := l n\<rparr>) v) = index_ok K v" "index_ok K (upd_node i (\<lambda>n. n\<lparr>i_target := x\<rparr>) v) = index_ok K v"
  "index_ok K (upd_node i (\<lambda>n. n\<lparr>i_ctime := t\<rparr>) v) = index_ok K v"
  "index_ok K (upd_node i (\<lambda>n. n\<lparr>i_nlink := 0, i_mtime := t, i_atime := t\<rparr>) v) = index_ok K v"
  by (rule index_ok_upd, simp)+

lemma index_ok_lock: "lock_super v = Some w \<Longrightarrow> index_ok K w = index_ok K v"
  by (rule index_eq_same) (rule index_eq_lock)

lemma index_ok_sync: "sync_or_mark K b i v = Some w \<Longrightarrow> index_ok K w = index_ok K v"
  by (rule index_eq_same) (rule index_eq_sync)

lemma index_ok_kmalloc [simp]: "index_ok K (fst (kmalloc_in v)) = index_ok K v"
  by (simp add: kmalloc_in_def kmalloc_def)

lemma index_ok_kernel:
  assumes "kernel_ok K"
  shows "index_ok K (insert_inode_hash K v i) = index_ok K v" "index_ok K (remove_inode_hash K v i) = index_ok K v"
    "index_ok K (fst (d_splice_alias K v n d)) = index_ok K v" "index_ok K v \<Longrightarrow> index_ok K (iput K v i)"
    "index_ok K v \<Longrightarrow> index_ok K (exfat_detach i v)"
proof -
  have k: "hash_ok K" "index_eq K v (insert_inode_hash K v i)" "index_eq K v (remove_inode_hash K v i)"
    "index_eq K v (fst (d_splice_alias K v n d))" "index_eq K v (iput K v i) \<or> index_eq K (exfat_detach i v) (iput K v i)"
    using assms by (simp_all add: kernel_ok_def)
  show "index_ok K (insert_inode_hash K v i) = index_ok K v" "index_ok K (remove_inode_hash K v i) = index_ok K v"
    "index_ok K (fst (d_splice_alias K v n d)) = index_ok K v"
    by (rule index_eq_same, rule k)+
  show d: "index_ok K v \<Longrightarrow> index_ok K (exfat_detach i v)" using ix.inv_detach k(1) by blast
  show "index_ok K v \<Longrightarrow> index_ok K (iput K v i)" using d k(5) by (auto simp: index_eq_same)
qed

lemma instantiate_index:
  assumes "instantiate K v dir dentry ts b fid finish = Some (w, d, e)" "kernel_ok K" "index_ok K v"
    "\<And>v i w err. finish v i = (w, err) \<Longrightarrow> index_ok K w = index_ok K v"
  shows "index_ok K w"
proof -
  obtain v1 where v1: "sync_or_mark K (i_dirsync (vnode_at v dir)) dir (upd_node dir (touch_dir True True ts) v) = Some v1"
    using assms(1) by (auto simp: instantiate_def bind_eq_Some_conv)
  define v2 where "v2 = (if b then upd_node dir (\<lambda>n. n\<lparr>i_nlink := i_nlink n + 1\<rparr>) v1 else v1)"
  obtain v3 r where v3: "exfat_build_inode K v2 fid (file_pos_of fid) = Some (v3, r)"
    using assms(1) v1 by (auto simp: instantiate_def bind_eq_Some_conv v2_def Let_def)
  have "index_ok K v2" using index_ok_sync [OF v1] assms(3) by (simp add: v2_def)
  then have ok: "index_ok K v3" using build_inode_index(1) assms(2) v3 by blast
  show ?thesis
  proof (cases r)
    case (Inl err)
    then show ?thesis using assms(1) v1 v3 ok by (auto simp: instantiate_def Let_def simp flip: v2_def)
  next
    case (Inr i)
    obtain v4 err where v4: "finish (upd_node i (touch_new ts) v3) i = (v4, err)" by fastforce
    then have "index_ok K v4" using ok by (simp add: assms(4))
    then show ?thesis using assms(1) v1 v3 v4 Inr by (auto simp: instantiate_def Let_def split: if_splits simp flip: v2_def)
  qed
qed

lemmas op_split = bind_eq_Some_conv Let_def index_ok_lock

lemma create_index:
  assumes "exfat_create K v dir dentry = Some (w, d, e)" "kernel_ok K" "index_ok K v"
  shows "index_ok K w"
  using assms by (auto simp: exfat_create_def op_split split: if_splits elim!: instantiate_index)

lemma mkdir_index:
  assumes "exfat_mkdir K v dir dentry = Some (w, d, e)" "kernel_ok K" "index_ok K v"
  shows "index_ok K w"
  using assms by (auto simp: exfat_mkdir_def op_split split: if_splits elim!: instantiate_index)

definition keep_target :: "u8 list \<Rightarrow> vfs \<Rightarrow> nat \<Rightarrow> vfs \<times> int" where
  "keep_target path_to v i = (case kmalloc_in v of
     (v, ok) \<Rightarrow> if \<not> ok then (upd_node i (\<lambda>n. n\<lparr>i_target := None\<rparr>) v, - ENOMEM)
                else (upd_node i (\<lambda>n. n\<lparr>i_target := Some (path_to @ [0])\<rparr>) v, 0))"

lemma keep_target_index: "keep_target path_to v i = (w, err) \<Longrightarrow> index_ok K w = index_ok K v"
  using index_ok_kmalloc [of K v] by (auto simp: keep_target_def split_beta split: if_splits simp del: index_ok_kmalloc)

lemma symlink_index:
  assumes "exfat_symlink K v dir dentry path_to = Some (w, d, e)" "kernel_ok K" "index_ok K v"
  shows "index_ok K w"
proof -
  have "index_ok K w" if "instantiate K u dir dentry ts False fid (keep_target path_to) = Some (w, d, e)" "index_ok K u" for u ts fid
    by (rule instantiate_index [OF that(1) assms(2) that(2)]) (rule keep_target_index)
  note inst = this
  obtain v1 where v1: "lock_super v = Some v1" using assms(1) by (auto simp: exfat_symlink_def bind_eq_Some_conv)
  obtain f c fid err where r: "FsCreateFile (conf v1) (kfs v1) (core (vnode_at v1 dir)) (Some (d_name dentry)) 0x40 (Some (stack_fid K)) =
      Some (f, c, fid, err)"
    using assms(1) v1 by (auto simp: exfat_symlink_def bind_eq_Some_conv)
  let ?v = "upd_node dir (put_core c) (v1\<lparr>kfs := f\<rparr>)"
  have ok: "index_ok K ?v" using index_ok_lock [OF v1] assms(3) by simp
  show ?thesis
  proof (cases "err = FFS_SUCCESS")
    case False
    then show ?thesis using assms(1) v1 r ok by (auto simp: exfat_symlink_def)
  next
    case True
    obtain f1 fid1 n err1 where wr: "FsWriteFile f fid (Some path_to) (of_nat (length path_to)) = Some (f1, fid1, n, err1)"
      using assms(1) v1 r True by (auto simp: exfat_symlink_def bind_eq_Some_conv Let_def)
    show ?thesis
    proof (cases "err1 = FFS_SUCCESS")
      case False
      then obtain f2 where "w = unlock_super (?v\<lparr>kfs := f2\<rparr>)"
        using assms(1) v1 r wr True by (auto simp: exfat_symlink_def bind_eq_Some_conv Let_def)
      then show ?thesis using ok by simp
    next
      case success: True
      have "instantiate K (?v\<lparr>kfs := f1\<rparr>) dir dentry (CURRENT_TIME_SEC v1) False (the fid1) (keep_target path_to) = Some (w, d, e)"
        using assms(1) v1 r wr True success by (simp add: exfat_symlink_def flip: keep_target_def)
      then show ?thesis using ok by (simp add: inst)
    qed
  qed
qed

lemma splice_index: "splice K v i d = (w, r) \<Longrightarrow> kernel_ok K \<Longrightarrow> index_ok K w = index_ok K v"
  using index_ok_kernel(3) [of K "unlock_super v" i] by (auto simp: splice_def Let_def split_beta)

lemma find_index: "exfat_find K v dir q = Some (w, fid, e) \<Longrightarrow> index_ok K w = index_ok K v"
  by (auto simp: exfat_find_def bind_eq_Some_conv split: if_splits)

lemma load_target_index: "load_target K v i fid = Some (w, ok) \<Longrightarrow> index_ok K w = index_ok K v"
  using index_ok_kmalloc [of K v]
  by (auto simp: load_target_def Let_def split_beta bind_eq_Some_conv split: if_splits simp del: index_ok_kmalloc)

lemma forget_index: "kernel_ok K \<Longrightarrow> index_ok K v \<Longrightarrow> index_ok K (forget_inode K ts i v)"
  by (simp add: forget_inode_def index_ok_kernel)

lemma unlink_index:
  assumes "exfat_unlink K v dir i = Some (w, e)" "kernel_ok K" "index_ok K v"
  shows "index_ok K w"
proof -
  obtain v1 where v1: "lock_super v = Some v1" using assms(1) by (auto simp: exfat_unlink_def bind_eq_Some_conv)
  let ?v = "size_to_fid i v1"
  obtain f fid err where r: "FsRemoveFile (kfs ?v) (Some (i_fid (vnode_at ?v i))) = Some (f, fid, err)"
    using assms(1) v1 by (auto simp: exfat_unlink_def bind_eq_Some_conv Let_def)
  let ?w = "put_fid_at i fid (?v\<lparr>kfs := f\<rparr>)"
  have ok: "index_ok K ?w" using index_ok_lock [OF v1] assms(3) by simp
  show ?thesis
  proof (cases "err = FFS_SUCCESS")
    case False
    then show ?thesis using assms(1) v1 r ok by (auto simp: exfat_unlink_def Let_def)
  next
    case True
    obtain v2 where v2: "sync_or_mark K (i_dirsync (vnode_at ?w dir)) dir (upd_node dir (touch_dir False True (CURRENT_TIME_SEC v1)) ?w) = Some v2"
      "w = unlock_super (forget_inode K (CURRENT_TIME_SEC v1) i v2)"
      using assms(1) v1 r True by (auto simp: exfat_unlink_def bind_eq_Some_conv Let_def)
    then show ?thesis using ok index_ok_sync [OF v2(1)] by (simp add: forget_index assms(2))
  qed
qed

lemma rmdir_index:
  assumes "exfat_rmdir K v dir i = Some (w, e)" "kernel_ok K" "index_ok K v"
  shows "index_ok K w"
proof -
  obtain v1 where v1: "lock_super v = Some v1" using assms(1) by (auto simp: exfat_rmdir_def bind_eq_Some_conv)
  let ?v = "size_to_fid i v1"
  obtain f fid err where r: "FsRemoveDir (kfs ?v) (Some (i_fid (vnode_at ?v i))) = Some (f, fid, err)"
    using assms(1) v1 by (auto simp: exfat_rmdir_def bind_eq_Some_conv Let_def)
  let ?w = "put_fid_at i fid (?v\<lparr>kfs := f\<rparr>)"
  have ok: "index_ok K ?w" using index_ok_lock [OF v1] assms(3) by simp
  show ?thesis
  proof (cases "err = FFS_SUCCESS")
    case False
    then show ?thesis using assms(1) v1 r ok by (auto simp: exfat_rmdir_def Let_def)
  next
    case True
    obtain v2 where v2: "sync_or_mark K (i_dirsync (vnode_at ?w dir)) dir (upd_node dir (touch_dir False True (CURRENT_TIME_SEC v1)) ?w) = Some v2"
      "w = unlock_super (forget_inode K (CURRENT_TIME_SEC v1) i (drop_nlink dir v2))"
      using assms(1) v1 r True by (auto simp: exfat_rmdir_def bind_eq_Some_conv Let_def)
    then show ?thesis using ok index_ok_sync [OF v2(1)] by (simp add: forget_index assms(2))
  qed
qed

lemma lookup_index:
  assumes "exfat_lookup K v dir dentry = Some (w, r)" "kernel_ok K" "index_ok K v"
  shows "index_ok K w"
proof -
  obtain v1 where v1: "lock_super v = Some v1" using assms(1) by (auto simp: exfat_lookup_def bind_eq_Some_conv)
  obtain v2 fid err where v2: "exfat_find K v1 dir (d_name dentry) = Some (v2, fid, err)"
    using assms(1) v1 by (auto simp: exfat_lookup_def bind_eq_Some_conv)
  have ok2: "index_ok K v2" using find_index [OF v2] index_ok_lock [OF v1] assms(3) by simp
  have sp: "index_ok K w" if "splice K x i dentry = (w, r)" "index_ok K x" for x i
    using splice_index [OF that(1) assms(2)] that(2) by simp
  show ?thesis
  proof (cases "err = 0")
    case False
    then show ?thesis using assms(1) v1 v2 ok2 by (auto simp: exfat_lookup_def split: if_splits intro: sp)
  next
    case True
    obtain v3 b where v3: "exfat_build_inode K v2 fid (file_pos_of fid) = Some (v3, b)"
      using assms(1) v1 v2 True by (auto simp: exfat_lookup_def bind_eq_Some_conv)
    have ok3: "index_ok K v3" by (rule build_inode_index(1) [OF assms(2) ok2 v3])
    show ?thesis
    proof (cases b)
      case (Inl e)
      then show ?thesis using assms(1) v1 v2 v3 ok3 True by (auto simp: exfat_lookup_def)
    next
      case (Inr i)
      obtain v4 ok where v4: "(if S_ISLNK (i_mode (vnode_at v3 i)) then load_target K v3 i fid else Some (v3, True)) = Some (v4, ok)"
        using assms(1) v1 v2 v3 True Inr by (auto simp: exfat_lookup_def bind_eq_Some_conv Let_def)
      have ok4: "index_ok K v4" using v4 ok3 load_target_index by (auto split: if_splits)
      have it: "index_ok K (iput K x i)" if "index_ok K x" for x using index_ok_kernel(4) [OF assms(2) that] .
      have dent: "index_ok K (v4\<lparr>kfs := x\<rparr>)" for x using ok4 by simp
      show ?thesis
      proof (cases ok)
        case False
        then have "w = unlock_super v4" using assms(1) v1 v2 v3 v4 True Inr by (simp add: exfat_lookup_def Let_def)
        then show ?thesis using ok4 by simp
      next
        case loaded: True
        show ?thesis
        proof (cases "d_find_alias K v4 i")
          case None
          then have "splice K v4 (Some i) dentry = (w, r)"
            using assms(1) v1 v2 v3 v4 True Inr loaded by (simp add: exfat_lookup_def Let_def)
          then show ?thesis using ok4 by (rule sp)
        next
          case (Some al)
          then consider "splice K v4 (Some i) dentry = (w, r)" | x where "w = unlock_super (iput K (v4\<lparr>kfs := x\<rparr>) i)"
            | "w = unlock_super (iput K v4 i)"
            using assms(1) v1 v2 v3 v4 True Inr loaded Some by (auto simp: exfat_lookup_def Let_def split: if_splits)
          then show ?thesis
          proof cases
            case 1
            then show ?thesis using ok4 by (rule sp)
          qed (simp_all add: it dent ok4)
        qed
      qed
    qed
  qed
qed


text \<open>Renaming: the inode moves to the position of the new entry; the inode that was there leaves the table.\<close>

lemma i_fid_steps [simp]:
  "i_fid (vnode_at (exfat_attach K i p v) j) = i_fid (vnode_at v j)" "i_fid (vnode_at (exfat_detach i v) j) = i_fid (vnode_at v j)"
  "i_fid (vnode_at (unlock_super v) j) = i_fid (vnode_at v j)" "i_fid (vnode_at (mark_inode_dirty i v) j) = i_fid (vnode_at v j)"
  "i_fid (vnode_at (upd_node i (touch_dir a b ts) v) j) = i_fid (vnode_at v j)"
  "i_fid (vnode_at (rename_links d i e m v) j) = i_fid (vnode_at v j)" "i_fid (vnode_at (rename_target ts m v) j) = i_fid (vnode_at v j)"
  by (simp_all add: exfat_attach_def exfat_detach_def unlock_super_def mark_inode_dirty_def touch_dir_def rename_links_def rename_target_def
      drop_nlink_def upd_node_def Let_def split: option.split)

lemma i_fid_sync: "sync_or_mark K b i v = Some w \<Longrightarrow> i_fid (vnode_at w j) = i_fid (vnode_at v j)"
  by (auto simp: sync_or_mark_def exfat_sync_inode_def exfat_write_inode_def Let_def bind_eq_Some_conv split: if_splits)

lemma rename_links_index [simp]: "index_ok K (rename_links d i e m v) = index_ok K v" "inode_of K (rename_links d i e m v) = inode_of K v"
  by (rule index_eq_same; simp add: rename_links_def Let_def index_eq_def drop_nlink_def upd_node_def)+

lemma rename_target_index:
  assumes "kernel_ok K" "index_ok K v"
  shows "index_ok K (rename_target ts m v)"
    "inode_of K (rename_target ts m v) p = (if m \<noteq> None \<and> inode_of K v p = m then None else inode_of K v p)"
proof -
  have h: "hash_ok K" using assms(1) by (simp add: kernel_ok_def)
  have "index_ok K (rename_target ts m v) \<and>
    inode_of K (rename_target ts m v) p = (if m \<noteq> None \<and> inode_of K v p = m then None else inode_of K v p)"
  proof (cases m)
    case (Some j)
    have "index_eq K (exfat_detach j v) (rename_target ts (Some j) v)"
      by (simp add: rename_target_def Let_def index_eq_def drop_nlink_def upd_node_def)
    then show ?thesis
      using ix.inv_detach [of K v j] ix.lookup_detach [of K v j p] h assms(2) Some by (auto simp: index_eq_same)
  qed (simp add: rename_target_def assms(2))
  then show "index_ok K (rename_target ts m v)"
    "inode_of K (rename_target ts m v) p = (if m \<noteq> None \<and> inode_of K v p = m then None else inode_of K v p)" by simp_all
qed

lemma rename_index:
  assumes "exfat_rename K v old_dir i new_dir dentry = Some (w, e)" "kernel_ok K" "index_ok K v"
    "inode_of K v (file_pos_of (i_fid (vnode_at w i))) \<in> {None, Some i}" "in_use K i"
  shows "index_ok K w"
    "e = 0 \<Longrightarrow> d_inode dentry \<noteq> Some i \<Longrightarrow> inode_of K w = (\<lambda>p. if p = file_pos_of (i_fid (vnode_at w i)) then Some i
      else if inode_of K v p = Some i \<or> inode_of K v p = d_inode dentry then None else inode_of K v p)"
proof -
  have h: "hash_ok K" using assms(2) by (simp add: kernel_ok_def)
  obtain v1 where v1: "lock_super v = Some v1" using assms(1) by (auto simp: exfat_rename_def bind_eq_Some_conv)
  let ?u = "size_to_fid i v1" and ?ts = "CURRENT_TIME_SEC v1"
  obtain f m err where r: "FsMoveFile (conf ?u) (kfs ?u) (cores ?u) old_dir (Some i) new_dir (d_name dentry) (d_inode dentry) = Some (f, m, err)"
    using assms(1) v1 by (auto simp: exfat_rename_def bind_eq_Some_conv Let_def)
  let ?w = "put_cores m (?u\<lparr>kfs := f\<rparr>)"
  have eq: "index_eq K v ?w"
    by (rule index_eq_trans [OF index_eq_lock [OF v1]], rule index_eq_trans [of K _ ?u], simp, rule index_eq_trans [of K _ "?u\<lparr>kfs := f\<rparr>"]) simp_all
  have "index_ok K w \<and> (e = 0 \<longrightarrow> d_inode dentry \<noteq> Some i \<longrightarrow> inode_of K w = (\<lambda>p. if p = file_pos_of (i_fid (vnode_at w i)) then Some i
      else if inode_of K v p = Some i \<or> inode_of K v p = d_inode dentry then None else inode_of K v p))"
  proof (cases "err = FFS_SUCCESS")
    case False
    then have "w = unlock_super ?w" "e = rename_errno err" using assms(1) v1 r by (simp_all add: exfat_rename_def Let_def)
    moreover have "rename_errno err \<noteq> 0" by (simp add: rename_errno_def split: ffs.split)
    ultimately show ?thesis using index_eq_same [OF eq] assms(3) by simp
  next
    case True
    obtain v2 where v2: "sync_or_mark K (i_dirsync (vnode_at ?w new_dir)) new_dir (upd_node new_dir (touch_dir True True ?ts) ?w) = Some v2"
      using assms(1) v1 r True by (auto simp: exfat_rename_def bind_eq_Some_conv Let_def)
    let ?p = "file_pos_of (i_fid (vnode_at v2 i))"
    obtain v3 where v3: "sync_or_mark K (i_dirsync (vnode_at v2 new_dir)) i (exfat_attach K i ?p (exfat_detach i v2)) = Some v3"
      using assms(1) v1 r True v2 by (auto simp: exfat_rename_def bind_eq_Some_conv Let_def)
    let ?l = "upd_node old_dir (touch_dir True False ?ts) (rename_links old_dir i new_dir (d_inode dentry) v3)"
    obtain v4 where v4: "sync_or_mark K (i_dirsync (vnode_at ?l old_dir)) old_dir ?l = Some v4"
      and w: "w = unlock_super (rename_target ?ts (d_inode dentry) v4)" "e = 0"
      using assms(1) v1 r True v2 v3 by (auto simp: exfat_rename_def bind_eq_Some_conv Let_def)
    have p: "file_pos_of (i_fid (vnode_at w i)) = ?p"
      by (simp add: w i_fid_sync [OF v4] i_fid_sync [OF v3])
    have "index_eq K v v2"
      by (rule index_eq_trans [OF eq], rule index_eq_trans [OF _ index_eq_sync [OF v2]]) simp
    note e2 = index_eq_same [OF this]
    have a: "hash_ok K \<and> index_ok K v2" "inode_of K v2 ?p \<in> {None, Some i}" using h e2 assms(3,4) p by simp_all
    note mv = ix.move [OF a(1) assms(5) a(2)]
    have "index_eq K (exfat_attach K i ?p (exfat_detach i v2)) v3" by (rule index_eq_sync [OF v3])
    note e3 = index_eq_same [OF this]
    have "index_eq K (rename_links old_dir i new_dir (d_inode dentry) v3) v4"
      by (rule index_eq_trans [OF _ index_eq_sync [OF v4]]) simp
    note e4 = index_eq_same [OF this]
    have ok4: "index_ok K v4" using e4 e3 mv(1) by simp
    have w4: "index_eq K (rename_target ?ts (d_inode dentry) v4) w" by (simp add: w)
    have l4: "inode_of K v4 = (\<lambda>p. if p = ?p then Some i else if inode_of K v p = Some i then None else inode_of K v p)"
      using e4 e3 mv(2) e2 ix.lookup_detach [OF a(1), of i] by (auto simp: fun_eq_iff)
    have "inode_of K w = (\<lambda>p. if p = ?p then Some i else if inode_of K v p = Some i \<or> inode_of K v p = d_inode dentry then None else inode_of K v p)"
      if "d_inode dentry \<noteq> Some i"
      using that by (auto simp: fun_eq_iff index_eq_same [OF w4] rename_target_index(2) [OF assms(2) ok4] l4)
    then show ?thesis using index_eq_same [OF w4] rename_target_index(1) [OF assms(2) ok4] p by simp
  qed
  then show "index_ok K w"
    "e = 0 \<Longrightarrow> d_inode dentry \<noteq> Some i \<Longrightarrow> inode_of K w = (\<lambda>p. if p = file_pos_of (i_fid (vnode_at w i)) then Some i
      else if inode_of K v p = Some i \<or> inode_of K v p = d_inode dentry then None else inode_of K v p)" by simp_all
qed


text \<open>Listing a directory looks inodes up and puts them back.\<close>

lemma entry_ino_index:
  assumes "kernel_ok K" "index_ok K v" "entry_ino K v i parent de = (w, n)"
  shows "index_ok K w"
proof -
  let ?pos = "push_bit 32 (ucast (start_clu (i_fid (vnode_at v i)))) OR (of_s64 (rwoffset (i_fid (vnode_at v i)) - 1) AND 0xFFFFFFFF)"
  obtain u where u: "exfat_iget K v ?pos = (u, inode_of K v ?pos)" "index_eq K v u" by (rule iget_exact [OF assms(1)])
  have "index_ok K u" using index_eq_same(1) [OF u(2)] assms(2) by simp
  then show ?thesis
    using assms u(1) index_ok_kernel(4) [OF assms(1)] by (auto simp: entry_ino_def Let_def split: if_splits option.splits)
qed

lemma readdir_from_index:
  "readdir_from K v i parent ctx cpos de = Some r \<Longrightarrow> kernel_ok K \<Longrightarrow> index_ok K v \<Longrightarrow> index_ok K (fst r)"
proof (induction K v i parent ctx cpos de r rule: readdir_from.raw_induct [rotated, consumes 1, case_names round])
  case (round rec K v i parent ctx cpos de r)
  define v1 where "v1 = upd_node i (\<lambda>n. n\<lparr>i_fid := (i_fid n)\<lparr>fid_size := of_s64 (i_size n), rwoffset := drop_bit DENTRY_SIZE_BITS cpos\<rparr>\<rparr>) v"
  have ok1: "index_ok K v1" using round(4) by (simp add: v1_def index_ok_upd)
  obtain f c info err where f: "FsReadDir (conf v1) (kfs v1) (core (vnode_at v1 i)) (Some de) = Some (f, c, info, err)"
    using round(2) by (auto simp: Let_def bind_eq_Some_conv simp flip: v1_def)
  let ?w = "upd_node i (put_core c) (v1\<lparr>kfs := f\<rparr>)" and ?de = "case info of None \<Rightarrow> de | Some de \<Rightarrow> de"
  have ok: "index_ok K ?w" using ok1 by simp
  obtain u n where u: "entry_ino K ?w i parent ?de = (u, n)" by fastforce
  have ok3: "index_ok K u" by (rule entry_ino_index [OF round(3) ok u])
  let ?cpos = "push_bit DENTRY_SIZE_BITS (rwoffset (i_fid (vnode_at ?w i)))"
  obtain ctx2 ok4 where d: "dir_emit K ctx (takeWhile (\<lambda>b. b \<noteq> 0) (Name ?de)) n (if Attr ?de AND ATTR_SUBDIR \<noteq> 0 then DT_DIR else DT_REG) =
      (ctx2, ok4)" by fastforce
  consider (leave) "fst r = ?w" | (full) "fst r = u" | (more) "rec K u i parent (ctx2\<lparr>ctx_pos := ?cpos\<rparr>) ?cpos ?de = Some r"
    using round(2) f u d by (auto simp: Let_def simp flip: v1_def split: if_splits)
  then show ?case
  proof cases
    case more
    show ?thesis by (rule round(1) [OF more round(3) ok3])
  qed (use ok ok3 in simp_all)
qed

lemma readdir_index:
  assumes "exfat_readdir K v i parent ctx = Some (w, c, e)" "kernel_ok K" "index_ok K v"
  shows "index_ok K w"
proof -
  obtain v1 where v1: "lock_super v = Some v1" using assms(1) by (auto simp: exfat_readdir_def bind_eq_Some_conv)
  have "index_ok K v1" using index_ok_lock [OF v1] assms(3) by simp
  then show ?thesis
    using assms(1) v1 readdir_from_index [OF _ assms(2), of v1] by (fastforce simp: exfat_readdir_def bind_eq_Some_conv Let_def split: if_splits prod.splits)
qed

section \<open>All operations\<close>

definition services_ok :: "kernel \<Rightarrow> mount_services \<Rightarrow> bool" where
  "services_ok K S \<longleftrightarrow> (\<forall>v i. index_eq K v (truncate_inode_pages S v i) \<and> index_eq K v (clear_inode S v i))"

lemma evict_index:
  assumes "kernel_ok K" "services_ok K S" "index_ok K v"
  shows "index_ok K (exfat_evict_inode K S i v)"
proof -
  have s: "index_ok K (truncate_inode_pages S v i) = index_ok K v" "index_ok K (clear_inode S v i) = index_ok K v" for v
    using assms(2) by (simp_all add: services_ok_def index_eq_same)
  have "index_ok K (upd_node i (\<lambda>n. if i_nlink n = 0 then n\<lparr>i_size := 0\<rparr> else n) w) = index_ok K w" for w
    by (rule index_ok_upd) simp
  then show ?thesis
    using assms(1,3) by (simp add: exfat_evict_inode_def Let_def index_ok_kernel s)
qed

text \<open>
  The operations that work with the table, the construction of an inode on its own, and what happens between operations: some inodes
  begin to be freed, and those that are on no list any more can be used again.  A rename (\<open>rename_index\<close>) is not among them: it moves an
  inode to the position of an entry that was free on the volume, and that no inode has this position is not a fact of the table alone.
\<close>

inductive index_step :: "mount_services \<Rightarrow> kernel \<times> vfs \<Rightarrow> kernel \<times> vfs \<Rightarrow> bool" for S where
  create: "exfat_create K v dir d = Some (w, d', e) \<Longrightarrow> index_step S (K, v) (K, w)"
| mkdir: "exfat_mkdir K v dir d = Some (w, d', e) \<Longrightarrow> index_step S (K, v) (K, w)"
| symlink: "exfat_symlink K v dir d path_to = Some (w, d', e) \<Longrightarrow> index_step S (K, v) (K, w)"
| lookup: "exfat_lookup K v dir d = Some (w, r) \<Longrightarrow> index_step S (K, v) (K, w)"
| readdir: "exfat_readdir K v i parent ctx = Some (w, ctx', e) \<Longrightarrow> index_step S (K, v) (K, w)"
| unlink: "exfat_unlink K v dir i = Some (w, e) \<Longrightarrow> index_step S (K, v) (K, w)"
| rmdir: "exfat_rmdir K v dir i = Some (w, e) \<Longrightarrow> index_step S (K, v) (K, w)"
| build: "exfat_build_inode K v fid pos = Some (w, r) \<Longrightarrow> index_step S (K, v) (K, w)"
| evict: "index_step S (K, v) (K, exfat_evict_inode K S i v)"
| put: "index_step S (K, v) (K, iput K v i)"
| freeing: "kernel_ok K' \<Longrightarrow> hash_32 K' = hash_32 K \<Longrightarrow>
    \<forall>h < EXFAT_HASH_SIZE. \<forall>i \<in> set (inode_hashtable v h). in_use K' i \<longrightarrow> in_use K i \<Longrightarrow> index_step S (K, v) (K', v)"

lemma freeing_index:
  assumes "index_ok K v" "hash_32 K' = hash_32 K" "\<forall>h < EXFAT_HASH_SIZE. \<forall>i \<in> set (inode_hashtable v h). in_use K' i \<longrightarrow> in_use K i"
  shows "index_ok K' v"
proof -
  have "exfat_hash K' = exfat_hash K" using assms(2) by (simp add: exfat_hash_def fun_eq_iff)
  moreover have "{i \<in> set (inode_hashtable v h). in_use K' i} \<subseteq> {i \<in> set (inode_hashtable v h). in_use K i}" if "h < EXFAT_HASH_SIZE" for h
    using assms(3) that by auto
  ultimately show ?thesis using assms(1) inj_on_subset by (fastforce simp: index_ok_def)
qed

lemma services_any: "services_ok K S \<Longrightarrow> services_ok K' S"
  by (simp add: services_ok_def index_eq_def)

lemma index_step_ok:
  assumes "index_step S x y" "kernel_ok (fst x)" "services_ok (fst x) S" "index_ok (fst x) (snd x)"
  shows "kernel_ok (fst y) \<and> index_ok (fst y) (snd y)"
  using assms
proof (induction rule: index_step.induct)
  case (build K v fid pos w r)
  then show ?case using build_inode_index(1) by simp
next
  case (freeing K' K v)
  then show ?case using freeing_index by simp
qed (auto intro: create_index mkdir_index symlink_index lookup_index readdir_index unlink_index rmdir_index evict_index index_ok_kernel(4))

lemma hash_init_ok: "index_ok K (exfat_hash_init v)"
  by (simp add: index_ok_def exfat_hash_init_def)


section \<open>Properties\<close>

lemma ffsGetStat_file: "fid_type (i_fid n) \<noteq> TYPE_DIR \<Longrightarrow> ffsGetStat c s n info \<noteq> None"
  by (auto simp: ffsGetStat_def is_root_fid_def Let_def split: prod.splits option.splits)

lemma fill_inode_file:
  assumes "0 < v_sem (kfs v)" "fid_type fid \<noteq> TYPE_DIR"
  shows "\<exists>w. exfat_fill_inode K v i fid = Some (w, 0) \<and> 0 < v_sem (kfs w)"
proof -
  let ?v = "upd_node i (\<lambda>n. n\<lparr>i_fid := fid\<rparr>) v"
  have "ffsGetStat (conf ?v) (ksb ?v) (core (vnode_at ?v i)) (stack_info K) \<noteq> None" using assms(2) by (intro ffsGetStat_file) simp
  then show ?thesis using assms(1) by (auto simp: exfat_fill_inode_def FsReadStat_def locked_op_ok Let_def)
qed

lemma build_inode_file:
  assumes "kernel_ok K" "0 < v_sem (kfs v)" "fid_type fid \<noteq> TYPE_DIR"
  shows "\<exists>w r. exfat_build_inode K v fid pos = Some (w, r)"
proof (cases "inode_of K v pos")
  case None
  obtain v1 where v1: "exfat_iget K v pos = (v1, None)" "kfs v1 = kfs v" using iget_exact [OF assms(1), of v pos] None by metis
  obtain v2 n where n: "new_inode K v1 = (v2, n)" by fastforce
  have "kfs v2 = kfs v" using assms(1) n v1(2) by (metis fst_conv kernel_ok_def)
  then have "\<exists>w. exfat_fill_inode K (upd_node i (\<lambda>n. n\<lparr>i_ino := iunique K v2 EXFAT_ROOT_INO, i_version := 1\<rparr>) v2) i fid = Some (w, 0)" for i
    using fill_inode_file [of "upd_node i (\<lambda>n. n\<lparr>i_ino := iunique K v2 EXFAT_ROOT_INO, i_version := 1\<rparr>) v2" fid K i] assms(2,3)
    by (auto simp: upd_node_def)
  note fill = this
  show ?thesis
  proof (cases n)
    case None
    then show ?thesis using v1 n by (simp add: exfat_build_inode_def)
  next
    case (Some i)
    obtain w where "exfat_fill_inode K (upd_node i (\<lambda>n. n\<lparr>i_ino := iunique K v2 EXFAT_ROOT_INO, i_version := 1\<rparr>) v2) i fid = Some (w, 0)"
      using fill by blast
    then show ?thesis using v1 n Some by (simp add: exfat_build_inode_def)
  qed
next
  case (Some j)
  obtain v1 where v1: "exfat_iget K v pos = (v1, Some j)" using iget_exact [OF assms(1), of v pos] Some by metis
  then show ?thesis by (simp add: exfat_build_inode_def)
qed

text \<open>
  C7: \<open>exfat_build_inode\<close> of a file returns the inode in use that the table has for the position, or puts a new one there,
  which no other position has, and only a lack of memory keeps it from that; the other positions keep their inodes.  An inode
  that is being freed does not count: \<open>igrab\<close> refuses it, and the position gets a new inode beside it.
\<close>

theorem build_inode_attaches:
  assumes "kernel_ok K" "index_ok K v" "0 < v_sem (kfs v)" "fid_type fid \<noteq> TYPE_DIR"
  shows "\<exists>w r. exfat_build_inode K v fid pos = Some (w, r) \<and> index_ok K w \<and>
    (case inode_of K v pos of
       Some j \<Rightarrow> r = Inr j \<and> inode_of K w = inode_of K v
     | None \<Rightarrow> (case r of
                  Inl err \<Rightarrow> err = - ENOMEM \<and> inode_of K w = inode_of K v
                | Inr i \<Rightarrow> i \<notin> ran (inode_of K v) \<and> inode_of K w = (inode_of K v)(pos \<mapsto> i)))"
proof -
  obtain w r where b: "exfat_build_inode K v fid pos = Some (w, r)" using build_inode_file [OF assms(1,3,4)] by blast
  have ok: "index_ok K w" by (rule build_inode_index(1) [OF assms(1,2) b])
  show ?thesis
  proof (cases "inode_of K v pos")
    case None
    show ?thesis using build_new_inode(2) [OF assms(1,2) None b] b ok None by auto
  next
    case (Some j)
    obtain v1 where v1: "exfat_iget K v pos = (v1, Some j)" "index_eq K v v1" using iget_exact [OF assms(1), of v pos] Some by metis
    then have "w = v1" "r = Inr j" using b by (simp_all add: exfat_build_inode_def)
    then show ?thesis using b ok index_eq_same(2) [OF v1(2)] Some by simp
  qed
qed

text \<open>
  C6: whatever operations but renames run on an empty table of inodes, while inodes begin to be freed and are freed, two inodes of the table that
  are in use never have the same position, and \<open>exfat_iget\<close> finds an inode exactly when it is in the table with the position and in use.
\<close>

theorem inode_index_unique:
  assumes "kernel_ok K0" "services_ok K0 S" "(index_step S)\<^sup>*\<^sup>* (K0, exfat_hash_init v0) (K, v)"
  shows "(\<forall>h < EXFAT_HASH_SIZE. \<forall>k < EXFAT_HASH_SIZE. \<forall>i \<in> set (inode_hashtable v h). \<forall>j \<in> set (inode_hashtable v k).
      in_use K i \<longrightarrow> in_use K j \<longrightarrow> i_pos (vnode_at v i) = i_pos (vnode_at v j) \<longrightarrow> i = j) \<and>
    (\<forall>pos i. snd (exfat_iget K v pos) = Some i \<longleftrightarrow>
      (\<exists>h < EXFAT_HASH_SIZE. i \<in> set (inode_hashtable v h)) \<and> i_pos (vnode_at v i) = pos \<and> in_use K i)"
proof -
  have "kernel_ok (fst x) \<and> index_ok (fst x) (snd x)" if "(index_step S)\<^sup>*\<^sup>* (K0, exfat_hash_init v0) x" for x
    using that
  proof (induction rule: rtranclp_induct)
    case base
    then show ?case using assms(1) hash_init_ok by simp
  next
    case (step y z)
    then show ?case using index_step_ok [OF step(2)] services_any [OF assms(2)] by blast
  qed
  from this [OF assms(3)] have K: "kernel_ok K" and ok: "index_ok K v" by simp_all
  have h: "hash_ok K" using K by (simp add: kernel_ok_def)
  have l: "inode_of K v pos = Some i \<longleftrightarrow>
      (\<exists>h < EXFAT_HASH_SIZE. i \<in> set (inode_hashtable v h)) \<and> i_pos (vnode_at v i) = pos \<and> in_use K i" for pos i
    using ok h by (auto simp: inode_of_iff [OF h ok] index_ok_def hash_ok_def)
  have "snd (exfat_iget K v pos) = inode_of K v pos" for pos using iget_exact [OF K, of v pos] by (metis snd_conv)
  then have 2: "\<forall>pos i. snd (exfat_iget K v pos) = Some i \<longleftrightarrow>
      (\<exists>h < EXFAT_HASH_SIZE. i \<in> set (inode_hashtable v h)) \<and> i_pos (vnode_at v i) = pos \<and> in_use K i" by (simp only: l) simp
  have "i = j" if "h < 256" "k < 256" "i \<in> set (inode_hashtable v h)" "j \<in> set (inode_hashtable v k)" "in_use K i" "in_use K j"
    "i_pos (vnode_at v i) = i_pos (vnode_at v j)" for h k i j
    using that l by (metis option.inject)
  then show ?thesis using 2 by blast
qed

section \<open>An example\<close>

text \<open>Inodes are numbers that no list has; \<open>hash_32\<close> multiplies by the golden ratio.  The inodes of the list \<open>dying\<close> are being freed.\<close>

definition sample_info :: DIR_ENTRY_T where
  "sample_info = \<lparr>Name = [], ShortName = [], Attr = 0, Size = 0, NumSubdirs = 0, CreateTimestamp = zero_time,
     ModifyTimestamp = zero_time, AccessTimestamp = zero_time\<rparr>"

definition fresh_inode :: "nat list \<Rightarrow> vfs \<Rightarrow> nat" where
  "fresh_inode dying v = Suc (sum_list (dying @ concat (map (inode_hashtable v) [0..<256])))"

definition freeing_kernel :: "nat list \<Rightarrow> kernel" where
  "freeing_kernel dying = \<lparr>new_inode = (\<lambda>v. (v, Some (fresh_inode dying v))),
     igrab = (\<lambda>v i. (v, i \<notin> set dying)), iput = (\<lambda>v i. v), iunique = (\<lambda>v n. n + 1), insert_inode_hash = (\<lambda>v i. v),
     remove_inode_hash = (\<lambda>v i. v), hash_32 = (\<lambda>x n. drop_bit (32 - n) (x * 0x61C88647)), stack_info = sample_info,
     stack_fid = i_fid sample_vnode, heap_junk = (\<lambda>n. replicate n 0), d_instantiate = (\<lambda>d i. d\<lparr>d_inode := Some i\<rparr>),
     d_find_alias = (\<lambda>v i. None), d_move = (\<lambda>a d. a\<lparr>d_name := d_name d\<rparr>), d_splice_alias = (\<lambda>v i d. (v, None)),
     dir_emit = (\<lambda>c n i t. (c\<lparr>ctx_out := ctx_out c @ [(n, i, t)]\<rparr>, True)),
     dir_emit_dots = (\<lambda>v i c. (if ctx_pos c < 2 then c\<lparr>ctx_pos := 2, ctx_out := ctx_out c @ [([PERIOD], 1, 4), ([PERIOD, PERIOD], 1, 4)]\<rparr> else c,
       True))\<rparr>"

definition sample_kernel :: kernel where
  "sample_kernel = freeing_kernel []"

lemma below_sum: "n \<in> set xs \<Longrightarrow> n < Suc (sum_list xs)" for xs :: "nat list"
  using member_le_sum_list by fastforce

lemma freeing_fields:
  "new_inode (freeing_kernel dying) v = (v, Some (fresh_inode dying v))" "igrab (freeing_kernel dying) v i = (v, i \<notin> set dying)"
  "iput (freeing_kernel dying) v i = v" "insert_inode_hash (freeing_kernel dying) v i = v" "remove_inode_hash (freeing_kernel dying) v i = v"
  "d_splice_alias (freeing_kernel dying) v n d = (v, None)" "hash_32 (freeing_kernel dying) = (\<lambda>x n. drop_bit (32 - n) (x * 0x61C88647))"
  by (simp_all add: freeing_kernel_def)

lemma freeing_in_use: "in_use (freeing_kernel dying) i \<longleftrightarrow> i \<notin> set dying"
  by (simp add: in_use_def freeing_fields)

lemma fresh_unlisted: "unlisted (freeing_kernel dying) (fresh_inode dying v) v"
  unfolding unlisted_def freeing_in_use
proof (intro conjI allI impI notI)
  let ?xs = "dying @ concat (map (inode_hashtable v) [0..<256])"
  have fresh: "fresh_inode dying v \<notin> set ?xs" using below_sum [of "fresh_inode dying v" ?xs] by (auto simp: fresh_inode_def)
  show False if "fresh_inode dying v \<in> set dying" using fresh that by simp
  show False if "h < EXFAT_HASH_SIZE" "fresh_inode dying v \<in> set (inode_hashtable v h)" for h
    using fresh that by (auto simp: Bex_def)
qed

lemma freeing_hash_ok: "hash_ok (freeing_kernel dying)"
proof -
  have "unat (drop_bit 24 x) < 256" for x :: u32
  proof -
    have "unat x < 2 ^ LENGTH(32)" by (rule unsigned_less)
    then show ?thesis by (simp add: unat_drop_bit less_mult_imp_div_less)
  qed
  then show ?thesis by (simp add: hash_ok_def exfat_hash_def freeing_fields)
qed

lemma freeing_kernel_ok: "kernel_ok (freeing_kernel dying)"
  unfolding kernel_ok_def by (simp add: freeing_fields freeing_hash_ok fresh_unlisted freeing_in_use)

lemma sample_kernel_ok: "kernel_ok sample_kernel"
  unfolding sample_kernel_def by (rule freeing_kernel_ok)

text \<open>Inode 7 has the position but is being freed; the position gets another inode.\<close>

lemma dying_table:
  defines "v \<equiv> exfat_attach (freeing_kernel [7]) 7 0x200000000 (sample_vfs file_sb sample_vnode)"
  shows "index_ok (freeing_kernel [7]) v" "inode_of (freeing_kernel [7]) v = Map.empty" "\<exists>h < 256. 7 \<in> set (inode_hashtable v h)"
    "kfs v = kfs (sample_vfs file_sb sample_vnode)"
proof -
  let ?K = "freeing_kernel []" and ?F = "freeing_kernel [7]" and ?s = "sample_vfs file_sb sample_vnode"
  have hash: "hash_32 ?F = hash_32 ?K" by (simp add: freeing_fields)
  then have "exfat_hash ?F = exfat_hash ?K" by (simp add: exfat_hash_def fun_eq_iff)
  then have v: "v = exfat_attach ?K 7 0x200000000 ?s" by (simp add: v_def exfat_attach_def)
  have s: "index_ok ?K ?s" "inode_of ?K ?s 0x200000000 = None" "unlisted ?K 7 ?s"
    by (simp_all add: index_ok_def inode_of_def unlisted_def freeing_in_use)
  note a = attach_ok [OF freeing_hash_ok s, folded v]
  have l: "7 \<in> set (inode_hashtable v (exfat_hash ?K 0x200000000))" 
  proof -
    have "inode_of ?K v 0x200000000 = Some 7" using a(2) by simp
    then show ?thesis unfolding inode_of_iff [OF freeing_hash_ok a(1)] by blast
  qed
  then show "\<exists>h < 256. 7 \<in> set (inode_hashtable v h)" using freeing_hash_ok [of "[]"] unfolding hash_ok_def by blast
  show f: "index_ok ?F v" by (rule freeing_index [OF a(1) hash]) (simp add: freeing_in_use)
  have "inode_of ?K ?s pos = None" for pos by (simp add: inode_of_def)
  then have "inode_of ?F v pos \<noteq> Some k" for pos k
    using a(2) \<open>exfat_hash ?F = exfat_hash ?K\<close> inode_of_iff [OF freeing_hash_ok a(1), of pos k]
    by (auto simp: inode_of_iff [OF freeing_hash_ok f] freeing_in_use split: if_splits)
  then show "inode_of ?F v = Map.empty" by (intro ext) (metis not_None_eq)
  show "kfs v = kfs ?s" by (simp add: v_def exfat_attach_def upd_node_def Let_def)
qed

theorem build_inode_attaches_witness:
  "\<exists>v w i. (\<exists>h < 256. 7 \<in> set (inode_hashtable v h)) \<and> exfat_build_inode (freeing_kernel [7]) v sample_fid 0x200000000 = Some (w, Inr i) \<and>
     inode_of (freeing_kernel [7]) w = [0x200000000 \<mapsto> i]"
proof -
  let ?K = "freeing_kernel [7]" and ?v = "exfat_attach (freeing_kernel [7]) 7 0x200000000 (sample_vfs file_sb sample_vnode)"
  have sem: "0 < v_sem (kfs ?v)" by (simp add: dying_table(4))
  have fid_type: "fid_type sample_fid \<noteq> TYPE_DIR" by (simp add: sample_fid_def)
  obtain w r where b: "exfat_build_inode ?K ?v sample_fid 0x200000000 = Some (w, r)"
    and c: "case r of Inl err \<Rightarrow> err = - ENOMEM \<and> inode_of ?K w = Map.empty | Inr i \<Rightarrow> inode_of ?K w = [0x200000000 \<mapsto> i]"
    using build_inode_attaches [OF freeing_kernel_ok dying_table(1) sem fid_type, of "0x200000000"]
    unfolding dying_table(2) by simp (elim exE conjE, rule that, assumption, simp split: sum.splits)
  obtain v1 where v1: "exfat_iget ?K ?v 0x200000000 = (v1, None)"
    using iget_exact [OF freeing_kernel_ok, of "[7]" ?v "0x200000000"] dying_table(2) by metis
  have "r \<noteq> Inl (- ENOMEM)"
    using b v1 by (auto simp: exfat_build_inode_def freeing_fields bind_eq_Some_conv Let_def split: if_splits dest: fill_inode_index(1))
  then show ?thesis using b c dying_table(3) by (cases r) auto
qed

definition sample_services :: mount_services where
  "sample_services = \<lparr>match_token = (\<lambda>p ts. (Opt_err, [])), match_int = (\<lambda>_. None), match_octal = (\<lambda>_. None), match_strdup = Some,
     current_uid = 0, current_gid = 0, current_umask = 0x12, exfat_default_codepage = 437, exfat_default_iocharset = ''utf8'',
     load_nls = (\<lambda>_. None), charset_name = (\<lambda>_. ''cp437''), kzalloc_ok = True, sb_min_blocksize = id, sb_set_blocksize = (\<lambda>s n. s),
     d_make_root = (\<lambda>v i. (v, True)), truncate_inode_pages = (\<lambda>v i. v), clear_inode = (\<lambda>v i. v), invalidate_bdev = id,
     kill_block_super = Some, bd_dev = 0\<rparr>"

lemma freeing_build:
  assumes "index_ok (freeing_kernel ds) v" "0 < v_sem (kfs v)" "fid_type fid \<noteq> TYPE_DIR" "inode_of (freeing_kernel ds) v pos = None"
  obtains w i where "exfat_build_inode (freeing_kernel ds) v fid pos = Some (w, Inr i)" "index_ok (freeing_kernel ds) w"
    "inode_of (freeing_kernel ds) w = (inode_of (freeing_kernel ds) v)(pos \<mapsto> i)" "0 < v_sem (kfs w)"
proof -
  let ?K = "freeing_kernel ds"
  obtain v1 where v1: "exfat_iget ?K v pos = (v1, None)" "kfs v1 = kfs v" using iget_exact [OF freeing_kernel_ok, of ds v pos] assms(4) by metis
  obtain i where n: "new_inode ?K v1 = (v1, Some i)" by (simp add: freeing_fields)
  let ?u = "upd_node i (\<lambda>n. n\<lparr>i_ino := iunique ?K v1 EXFAT_ROOT_INO, i_version := 1\<rparr>) v1"
  obtain w where w: "exfat_fill_inode ?K ?u i fid = Some (w, 0)" "0 < v_sem (kfs w)"
    using fill_inode_file [of ?u fid ?K i] assms(2,3) v1(2) by (auto simp: upd_node_def)
  then have b: "exfat_build_inode ?K v fid pos = Some (insert_inode_hash ?K (exfat_attach ?K i pos w) i, Inr i)"
    using v1 n by (simp add: exfat_build_inode_def)
  have "0 < v_sem (kfs (insert_inode_hash ?K (exfat_attach ?K i pos w) i))"
    using w(2) by (simp add: freeing_fields exfat_attach_def upd_node_def Let_def)
  then show thesis using that [OF b] build_new_inode [OF freeing_kernel_ok assms(1,4) b] by simp
qed

text \<open>An inode for a position is found; it begins to be freed, and the position gets another one.\<close>

theorem inode_index_unique_witness:
  "\<exists>w v i j. (index_step sample_services)\<^sup>*\<^sup>* (sample_kernel, exfat_hash_init (sample_vfs file_sb sample_vnode)) (sample_kernel, w) \<and>
     snd (exfat_iget sample_kernel w 0x200000000) = Some i \<and>
     (index_step sample_services)\<^sup>*\<^sup>* (sample_kernel, exfat_hash_init (sample_vfs file_sb sample_vnode)) (freeing_kernel [i], v) \<and>
     snd (exfat_iget (freeing_kernel [i]) v 0x200000000) = Some j \<and> i \<noteq> j"
proof -
  let ?start = "exfat_hash_init (sample_vfs file_sb sample_vnode)" and ?S = sample_services and ?K = "freeing_kernel []"
  let ?pos = "0x200000000 :: u64" and ?run = "(index_step sample_services)\<^sup>*\<^sup>*"
  have S: "services_ok ?K ?S" by (simp add: services_ok_def sample_services_def)
  have t: "fid_type sample_fid \<noteq> TYPE_DIR" by (simp add: sample_fid_def)
  have sem: "0 < v_sem (kfs ?start)" by (simp add: exfat_hash_init_def)
  have none: "inode_of ?K ?start ?pos = None" by (simp add: inode_of_def exfat_hash_init_def)
  obtain w i where w: "exfat_build_inode ?K ?start sample_fid ?pos = Some (w, Inr i)" "index_ok ?K w"
      "inode_of ?K w = (inode_of ?K ?start)(?pos \<mapsto> i)" "0 < v_sem (kfs w)"
    by (rule freeing_build [OF hash_init_ok sem t none])
  let ?F = "freeing_kernel [i]"
  have one: "?run (?K, ?start) (?K, w)" using index_step.build [OF w(1)] by blast
  have hashes: "hash_32 ?F = hash_32 ?K" by (simp add: freeing_fields)
  have fewer: "\<forall>h < EXFAT_HASH_SIZE. \<forall>k \<in> set (inode_hashtable w h). in_use ?F k \<longrightarrow> in_use ?K k" by (simp add: freeing_in_use)
  have two: "?run (?K, ?start) (?F, w)"
    by (rule rtranclp.rtrancl_into_rtrancl [OF one index_step.freeing [OF freeing_kernel_ok hashes fewer]])
  have h: "hash_ok ?K" "hash_ok ?F" using freeing_kernel_ok by (simp_all add: kernel_ok_def)
  have ok: "index_ok ?F w" by (rule freeing_index [OF w(2) hashes fewer])
  have "exfat_hash ?F = exfat_hash ?K" using hashes by (simp add: exfat_hash_def fun_eq_iff)
  moreover have "k = i" if "inode_of ?K w ?pos = Some k" for k using that w(3) by simp
  ultimately have "inode_of ?F w ?pos \<noteq> Some k" for k
    by (auto simp: inode_of_iff [OF h(2) ok] inode_of_iff [OF h(1) w(2)] freeing_in_use)
  then have "inode_of ?F w ?pos = None" by auto
  then obtain v j where v: "exfat_build_inode ?F w sample_fid ?pos = Some (v, Inr j)" "index_ok ?F v"
      "inode_of ?F v = (inode_of ?F w)(?pos \<mapsto> j)"
    using freeing_build [OF ok w(4) t] by metis
  have three: "?run (?K, ?start) (?F, v)" by (rule rtranclp.rtrancl_into_rtrancl [OF two index_step.build [OF v(1)]])
  have j: "inode_of ?F v ?pos = Some j" using v(3) by simp
  have "i \<noteq> j" using j by (auto simp: inode_of_iff [OF h(2) v(2)] freeing_in_use)
  moreover have "snd (exfat_iget ?K w ?pos) = Some i"
  proof -
    have "inode_of ?K w ?pos = Some i" using w(3) by simp
    then have "(\<exists>h < EXFAT_HASH_SIZE. i \<in> set (inode_hashtable w h)) \<and> i_pos (vnode_at w i) = ?pos \<and> in_use ?K i"
      using h(1) unfolding inode_of_iff [OF h(1) w(2)] hash_ok_def by blast
    then show ?thesis using conjunct2 [OF inode_index_unique [OF freeing_kernel_ok S one]] by blast
  qed
  moreover have "snd (exfat_iget ?F v ?pos) = Some j"
  proof -
    have "(\<exists>h < EXFAT_HASH_SIZE. j \<in> set (inode_hashtable v h)) \<and> i_pos (vnode_at v j) = ?pos \<and> in_use ?F j"
      using j h(2) unfolding inode_of_iff [OF h(2) v(2)] hash_ok_def by blast
    then show ?thesis using conjunct2 [OF inode_index_unique [OF freeing_kernel_ok S three]] by blast
  qed
  ultimately show ?thesis using one three unfolding sample_kernel_def by blast
qed

end
