(* ===== verification/VfsOptions.thy ===== *)
theory VfsOptions
  imports VfsFile VfsIndex
begin

text \<open>
  The mount options: what \<open>exfat_show_options\<close> prints is what \<open>parse_options\<close> reads, and what a malformed number does.
\<close>

section \<open>Pieces of the text\<close>


lemma strsep_piece: "CHR '','' \<notin> set p \<Longrightarrow> strsep (p @ CHR '','' # t) = p # strsep t"
  by (induction p) auto





lemma parse_piece: "parse_option S p od = Go_on od' \<Longrightarrow> p \<noteq> [] \<Longrightarrow> parse_loop S (p # ps) od = parse_loop S ps od'"
  by simp

section \<open>A malformed number\<close>

text \<open>An option whose argument is to be a number, and is none that the kernel can read.\<close>

definition bad_number :: "mount_services \<Rightarrow> string \<Rightarrow> bool" where
  "bad_number S p \<longleftrightarrow> (case match_token S p exfat_tokens of (token, arg) \<Rightarrow>
     (token \<in> {Opt_uid, Opt_gid, Opt_codepage, Opt_namecase} \<and> match_int S arg = None) \<or>
     (token \<in> {Opt_umask, Opt_dmask, Opt_fmask, Opt_allow_utime} \<and> match_octal S arg = None))"

lemma parse_bad_number: "bad_number S p \<Longrightarrow> parse_option S p od = Return_now od 0"
  by (auto simp: bad_number_def parse_option_def number_def split: prod.splits)

text \<open>
  A first option whose number cannot be read ends the parsing with success: the options behind it are ignored, whatever they
  are, and \<open>allow_utime\<close> keeps its mark for \<open>not given\<close>, so that every user but the owner may set the times of
  every file.
\<close>

lemma bad_number_ends_parsing:
  assumes "bad_number S p" "CHR '','' \<notin> set p" "p \<noteq> []"
  shows "parse_options S (Some (p @ CHR '','' # rest)) = ((default_options S, False), 0) \<and>
    exfat_allow_set_time P (default_options S) n = (current_fsuid P \<noteq> i_uid n)"
proof -
  have "parse_options S (Some (p @ CHR '','' # rest)) = ((default_options S, False), 0)"
    using assms(3) by (simp add: parse_options_def strsep_piece [OF assms(2)] parse_bad_number [OF assms(1)])
  moreover have "drop_bit 3 (0xFFFF :: u16) AND MAY_WRITE \<noteq> 0" "(0xFFFF :: u16) AND MAY_WRITE \<noteq> 0" by simp_all
  ultimately show ?thesis by (simp add: exfat_allow_set_time_def default_options_def)
qed

section \<open>Printing and reading\<close>





















section \<open>A parser\<close>













end
