(* ===== verification/VfsDentries.thy ===== *)
theory VfsDentries
  imports VfsNames VfsIndex NamesProps
begin

text \<open>
  What the cache of dentries asks of a file system: names that compare equal have the same hash value.  And where a
  listing that is interrupted after the dots goes on.
\<close>

section \<open>The interface\<close>

text \<open>A comparison and a hash that see a name through one view of it.\<close>

locale hashed_names =
  fixes view :: "'n \<Rightarrow> 'v" and same :: "'n \<Rightarrow> 'n \<Rightarrow> bool" and hash :: "'n \<Rightarrow> 'h" and name :: "'n \<Rightarrow> bool"
  assumes same_view: "name a \<Longrightarrow> name b \<Longrightarrow> same a b \<longleftrightarrow> view a = view b"
    and hash_view: "name a \<Longrightarrow> name b \<Longrightarrow> view a = view b \<Longrightarrow> hash a = hash b"
begin

lemma equal_hash: "name a \<Longrightarrow> name b \<Longrightarrow> same a b \<Longrightarrow> hash a = hash b"
  using same_view hash_view by blast

lemma equivalence: "name a \<Longrightarrow> name b \<Longrightarrow> name c \<Longrightarrow> same a a \<and> (same a b \<longrightarrow> same b a) \<and> (same a b \<longrightarrow> same b c \<longrightarrow> same a c)"
  by (simp add: same_view)

end

section \<open>Names without the dots at their end\<close>

definition stripped :: "u8 list \<Rightarrow> u8 list" where
  "stripped name = rev (dropWhile (\<lambda>c. c = PERIOD) (rev name))"

lemma striptail_take: "n \<le> length name \<Longrightarrow> take (striptail_len n name) name = rev (dropWhile (\<lambda>c. c = PERIOD) (rev (take n name)))"
  by (induction n) (simp_all add: take_Suc_conv_app_nth)

lemma striptail_le: "striptail_len n name \<le> n"
  by (induction n) auto

lemma take_striptail: "take (exfat_striptail_len name) name = stripped name"
  by (simp add: exfat_striptail_len_def striptail_take stripped_def)

lemma striptail_length: "exfat_striptail_len name = length (stripped name)"
  using striptail_le [of "length name" name] by (simp add: exfat_striptail_len_def flip: take_striptail)

lemma stripped_prefix: "take (length (stripped name)) name = stripped name"
  using take_striptail [of name] by (simp add: striptail_length)

section \<open>Comparison\<close>

lemma strn_differ_iff:
  assumes "n \<le> length a" "n \<le> length b" "z \<Longrightarrow> 0 \<notin> set a"
  shows "strn_differ low z n a b \<longleftrightarrow> map low (take n a) \<noteq> map low (take n b)"
  using assms
proof (induction low z n a b rule: strn_differ.induct)
  case (2 low z n a b)
  then obtain x xs y ys where ab: "a = x # xs" "b = y # ys" by (cases a; cases b) auto
  then show ?case using 2 by (cases "low x = low y") auto
qed simp

text \<open>The case folding of a volume, by the character set of its names or by ASCII.\<close>

definition fold_case :: "name_services \<Rightarrow> nls_table option \<Rightarrow> u8 \<Rightarrow> u8" where
  "fold_case N t = (case t of None \<Rightarrow> ascii_tolower N | Some t \<Rightarrow> nls_tolower N t)"

lemma cmpi_eq:
  assumes "0 \<notin> set b"
  shows "exfat_cmpi N t a b = 0 \<longleftrightarrow> map (fold_case N t) (stripped a) = map (fold_case N t) (stripped b)"
proof (cases "length (stripped a) = length (stripped b)")
  case True
  have l: "length (stripped a) \<le> length a" "length (stripped b) \<le> length b" using stripped_prefix [of a] stripped_prefix [of b]
    by (metis length_take min.cobounded1)+
  have n: "length (stripped b) \<le> length b" "length (stripped b) \<le> length a" using l True by simp_all
  have d: "strn_differ low z (length (stripped b)) b a \<longleftrightarrow> map low (stripped b) \<noteq> map low (stripped a)" for low z
    unfolding strn_differ_iff [OF n assms] stripped_prefix [of b] using stripped_prefix [of a] True by simp
  show ?thesis using True d by (auto simp: exfat_cmpi_def Let_def striptail_length fold_case_def split: option.split)
next
  case False
  then have "map (fold_case N t) (stripped a) \<noteq> map (fold_case N t) (stripped b)" by (metis length_map)
  then show ?thesis using False by (simp add: exfat_cmpi_def Let_def striptail_length)
qed

lemma cmp_eq:
  assumes "0 \<notin> set b"
  shows "exfat_cmp a b = 0 \<longleftrightarrow> stripped a = stripped b"
proof -
  have "exfat_cmp a b = exfat_cmpi (N\<lparr>ascii_tolower := id\<rparr>) None a b" for N by (simp add: exfat_cmp_def exfat_cmpi_def Let_def)
  then show ?thesis using cmpi_eq [OF assms, of "N\<lparr>ascii_tolower := id\<rparr>" None a] by (simp add: fold_case_def)
qed

section \<open>Hashing\<close>

lemma hashi_loop_fold:
  "n \<le> length name \<Longrightarrow> hashi_loop N s n name h = fold (\<lambda>c. partial_name_hash N (ucast c)) (map (\<lambda>c. nls_upper s (ucast c)) (take n name)) h"
  by (induction N s n name h rule: hashi_loop.induct) (auto simp: take_Suc neq_Nil_conv Suc_le_length_iff)

lemma hashi_eq: "exfat_d_hashi N s a = end_name_hash N (fold (\<lambda>c. partial_name_hash N (ucast c)) (map (\<lambda>c. nls_upper s (ucast c)) (stripped a)) (init_name_hash N))"
proof -
  have "length (stripped a) \<le> length a" using stripped_prefix [of a] by (metis length_take min.cobounded1)
  then show ?thesis by (simp add: exfat_d_hashi_def striptail_length hashi_loop_fold stripped_prefix)
qed

text \<open>
  ASCII names: the kernel's character sets and \<open>tolower\<close> fold ASCII letters to small ones and leave other ASCII characters alone, and an
  up-case table maps the small letters of ASCII to capitals and the rest of ASCII to itself.
\<close>

definition ascii_lower :: "u8 \<Rightarrow> u8" where
  "ascii_lower x = (if 0x41 \<le> x \<and> x \<le> 0x5A then x + 0x20 else x)"

definition ascii_capital :: "u8 \<Rightarrow> u8" where
  "ascii_capital x = (if 0x61 \<le> x \<and> x \<le> 0x7A then x - 0x20 else x)"

definition ascii_folding :: "name_services \<Rightarrow> nls_table option \<Rightarrow> sb \<Rightarrow> bool" where
  "ascii_folding N t s \<longleftrightarrow> (\<forall>x < 0x80. fold_case N t x = ascii_lower x \<and> nls_upper s (ucast x) = ucast (ascii_capital x))"

lemma upper_lower: "ascii_capital (ascii_lower x) = ascii_capital x"
proof -
  have "unat (x + 0x20) = unat x + 32" if "unat x \<le> 0x5A" using that by (simp add: unat_word_ariths)
  moreover have "unat x < 2 ^ LENGTH(8)" by (rule unsigned_less)
  ultimately show ?thesis by (auto simp: ascii_capital_def ascii_lower_def word_le_nat_alt)
qed

text \<open>The hash that \<open>exfat_d_hashi\<close> forms over the characters that it takes a name for.\<close>

definition hash_of :: "name_services \<Rightarrow> u16 list \<Rightarrow> u32" where
  "hash_of N us = end_name_hash N (fold (\<lambda>u. partial_name_hash N (ucast u)) us (init_name_hash N))"

lemma hashi_of: "exfat_d_hashi N s a = hash_of N (map (\<lambda>c. nls_upper s (ucast c)) (stripped a))"
  by (simp add: hashi_eq hash_of_def)

lemma stripped_subset: "set (stripped a) \<subseteq> set a"
  by (metis set_take_subset stripped_prefix)

interpretation hn: hashed_names stripped "\<lambda>a b. exfat_cmp a b = 0" "exfat_d_hash N" "\<lambda>a. 0 \<notin> set a" for N
  by unfold_locales (simp add: cmp_eq, simp only: exfat_d_hash_def take_striptail)

interpretation hi: hashed_names "\<lambda>a. map (fold_case N t) (stripped a)" "\<lambda>a b. exfat_cmpi N t a b = 0" "exfat_d_hashi N s"
  "\<lambda>a. 0 \<notin> set a \<and> (\<forall>x \<in> set a. x < 0x80) \<and> ascii_folding N t s" for N t s
proof unfold_locales
  fix a b :: "u8 list"
  assume n: "0 \<notin> set a \<and> (\<forall>x \<in> set a. x < 0x80) \<and> ascii_folding N t s" "0 \<notin> set b \<and> (\<forall>x \<in> set b. x < 0x80) \<and> ascii_folding N t s"
  show "exfat_cmpi N t a b = 0 \<longleftrightarrow> map (fold_case N t) (stripped a) = map (fold_case N t) (stripped b)"
    using n by (simp add: cmpi_eq)
  assume e: "map (fold_case N t) (stripped a) = map (fold_case N t) (stripped b)"
  have up: "map (\<lambda>c. nls_upper s (ucast c)) (stripped d) = map (\<lambda>c. ucast (ascii_capital c)) (map (fold_case N t) (stripped d))"
    if "\<forall>x \<in> set d. x < 0x80" for d
    using that n(1) stripped_subset [of d] by (auto simp: ascii_folding_def upper_lower)
  have "map (\<lambda>c. nls_upper s (ucast c)) (stripped a) = map (\<lambda>c. nls_upper s (ucast c)) (stripped b)"
    using n e up [of a] up [of b] by simp
  then show "exfat_d_hashi N s a = exfat_d_hashi N s b" by (simp add: hashi_of)
qed


section \<open>Properties\<close>

text \<open>
  C26: two names compare equal, with regard to case, if and only if they are the same name but for the dots at the end, and then they have the
  same hash value.  Without regard to case they compare equal if and only if their characters, folded by the character set, are the
  same but for the dots at the end; ASCII names that compare equal have the same hash value when the volume has an up-case table
  that treats ASCII as usual.  On a volume without a table, which is every FAT volume, the hash is the one of the unfolded name.
\<close>

theorem dentry_hash_contract:
  assumes "0 \<notin> set a" "0 \<notin> set b"
  shows "(exfat_cmp a b = 0 \<longleftrightarrow> stripped a = stripped b) \<and> (exfat_cmp a b = 0 \<longrightarrow> exfat_d_hash N a = exfat_d_hash N b) \<and>
    (exfat_cmpi N t a b = 0 \<longleftrightarrow> map (fold_case N t) (stripped a) = map (fold_case N t) (stripped b)) \<and>
    ((\<forall>x \<in> set a \<union> set b. x < 0x80) \<and> ascii_folding N t s \<longrightarrow> exfat_cmpi N t a b = 0 \<longrightarrow> exfat_d_hashi N s a = exfat_d_hashi N s b) \<and>
    (vol_utbl s = [] \<longrightarrow> exfat_d_hashi N s a = hash_of N (map ucast (stripped a)))"
  using assms hn.equal_hash [of a b N] hi.equal_hash [of a N t s b] by (simp add: cmp_eq cmpi_eq hashi_of nls_upper_null)

definition ascii_services :: name_services where
  "ascii_services = \<lparr>full_name_hash = (\<lambda>cs. of_nat (length cs)), init_name_hash = 0, partial_name_hash = (\<lambda>c h. (h + push_bit 4 c + drop_bit 4 c) * 11),
     end_name_hash = ucast, nls_tolower = (\<lambda>t c. c), ascii_tolower = ascii_lower\<rparr>"

text \<open>A volume whose up-case table has the rows for ASCII.\<close>

definition ascii_sb :: sb where
  "ascii_sb = (blank_sb EXFAT)\<lparr>vol_utbl := [Some (map (\<lambda>k. ucast (ascii_capital (of_nat k))) [0..<256])]\<rparr>"

lemma ascii_sb_folding: "ascii_folding ascii_services None ascii_sb"
  unfolding ascii_folding_def
proof (intro allI impI conjI)
  fix x :: u8
  assume "x < 0x80"
  show "fold_case ascii_services None x = ascii_lower x" by (simp add: fold_case_def ascii_services_def)
  have "unat (ucast x :: u16) = unat x" by (rule unat_ucast_u8)
  have "(ucast x AND NOT 0xFF00 :: u16) = ucast x"
  proof (rule bit_word_eqI)
    fix n assume "n < LENGTH(16)"
    have "bit (0xFF00 :: u16) n \<longleftrightarrow> 8 \<le> n" if "n < 16"
      using that by (auto simp: less_Suc_eq numeral_eq_Suc bit_Suc)
    then show "bit (ucast x AND NOT 0xFF00 :: u16) n = bit (ucast x :: u16) n"
      using \<open>n < LENGTH(16)\<close> bit_imp_le_length [of x n] by (auto simp: bit_simps)
  qed
  then have "get_row_index (ucast x) = unat x" by (simp add: get_row_index_def unat_ucast_u8)
  moreover have "unat x < 256" using unsigned_less [of x] by simp
  moreover from this have "get_col_index (ucast x) = 0" by (simp add: get_col_index_def unat_drop_bit unat_ucast_u8)
  ultimately show "nls_upper ascii_sb (ucast x) = ucast (ascii_capital x)" by (simp add: nls_upper_def ascii_sb_def blank_sb_def)
qed

text \<open>\<open>Ab.\<close> and \<open>aB\<close>.\<close>

theorem dentry_hash_contract_witness:
  "exfat_cmpi ascii_services None [0x41, 0x62, PERIOD] [0x61, 0x42] = 0 \<and> exfat_cmp [0x41, 0x62, PERIOD] [0x61, 0x42] \<noteq> 0 \<and>
   exfat_d_hashi ascii_services ascii_sb [0x41, 0x62, PERIOD] = exfat_d_hashi ascii_services ascii_sb [0x61, 0x42]"
  using dentry_hash_contract [of "[0x41, 0x62, PERIOD]" "[0x61, 0x42]" ascii_services None ascii_sb] ascii_sb_folding
  by (simp add: stripped_def fold_case_def ascii_services_def ascii_lower_def)

text \<open>\<open>dir_emit_dots\<close> of the kernel, with room for the two entries: it moves the position to 2 and does nothing behind that.\<close>

definition dots_ok :: "kernel \<Rightarrow> bool" where
  "dots_ok K \<longleftrightarrow> (\<forall>v i c. (ctx_pos c < 2 \<longrightarrow> (\<exists>c'. dir_emit_dots K v i c = (c', True) \<and> ctx_pos c' = 2)) \<and>
     (2 \<le> ctx_pos c \<longrightarrow> dir_emit_dots K v i c = (c, True)))"

text \<open>
  C28: after the dots of an exFAT directory or of the root the position of the listing is 4 and not 2 or 0; a call that
  starts from there, as it does when the buffer of the caller was full, fails with \<open>ENOENT\<close>.
\<close>

theorem listing_stops_after_dots:
  assumes "dots_ok K" "\<not> s_lock v" "vol_type (ksb v) = EXFAT \<or> i_ino (vnode_at v i) = EXFAT_ROOT_INO" "ctx_pos ctx = 0"
  shows "\<exists>ctx'. emit_dots 2 K v i ctx 0 = (ctx', 2, True) \<and> ctx_pos ctx' = 4 \<and>
    exfat_readdir K v i parent ctx' = Some (v, ctx', - ENOENT)"
proof -
  obtain c1 where c1: "dir_emit_dots K v i ctx = (c1, True)" "ctx_pos c1 = 2" using assms(1,4) unfolding dots_ok_def by fastforce
  have c2: "dir_emit_dots K v i (c1\<lparr>ctx_pos := 3\<rparr>) = (c1\<lparr>ctx_pos := 3\<rparr>, True)" using assms(1) by (simp add: dots_ok_def)
  let ?c = "c1\<lparr>ctx_pos := 4\<rparr>"
  have "emit_dots 2 K v i ctx 0 = (?c, 2, True)" using c1 c2 by (simp add: numeral_2_eq_2)
  moreover have "unlock_super (v\<lparr>s_lock := True\<rparr>) = v" using assms(2) by (cases v) (simp add: unlock_super_def)
  then have "exfat_readdir K v i parent ?c = Some (v, ?c, - ENOENT)"
    using assms(2,3) by (auto simp: exfat_readdir_def lock_super_def numeral_2_eq_2)
  ultimately show ?thesis by (intro exI [of _ ?c]) simp
qed

theorem listing_stops_after_dots_witness:
  "\<exists>ctx'. exfat_readdir sample_kernel (sample_vfs file_sb (sample_vnode\<lparr>i_ino := EXFAT_ROOT_INO\<rparr>)) 0 1 ctx' =
     Some (sample_vfs file_sb (sample_vnode\<lparr>i_ino := EXFAT_ROOT_INO\<rparr>), ctx', - 2)"
proof -
  have "dots_ok sample_kernel" by (simp add: dots_ok_def sample_kernel_def freeing_kernel_def)
  from listing_stops_after_dots [OF this, of "sample_vfs file_sb (sample_vnode\<lparr>i_ino := EXFAT_ROOT_INO\<rparr>)" 0
      "\<lparr>ctx_pos = 0, ctx_out = []\<rparr>" 1] show ?thesis by auto
qed

end
