(* ===== verification/Nand.thy ===== *)
theory Nand
  imports Bitmap Bytes
begin

unbundle bit_operations_syntax

text \<open>
  The error correcting code of \<open>flashimg-0.1/nand_ecc.c\<close>, built with \<open>STANDALONE\<close> for a little-endian machine.  The code
  of a block is 3 bytes; \<open>eccsize\<close> is 256 or 512, for other sizes the function reads a variable that it has not set (\<open>None\<close>).
\<close>

section \<open>The tables\<close>

definition invparity :: "u8 list" where
  "invparity =
     [1, 0, 0, 1, 0, 1, 1, 0, 0, 1, 1, 0, 1, 0, 0, 1, 0, 1, 1, 0, 1, 0, 0, 1, 1, 0, 0, 1, 0, 1, 1, 0,
      0, 1, 1, 0, 1, 0, 0, 1, 1, 0, 0, 1, 0, 1, 1, 0, 1, 0, 0, 1, 0, 1, 1, 0, 0, 1, 1, 0, 1, 0, 0, 1,
      0, 1, 1, 0, 1, 0, 0, 1, 1, 0, 0, 1, 0, 1, 1, 0, 1, 0, 0, 1, 0, 1, 1, 0, 0, 1, 1, 0, 1, 0, 0, 1,
      1, 0, 0, 1, 0, 1, 1, 0, 0, 1, 1, 0, 1, 0, 0, 1, 0, 1, 1, 0, 1, 0, 0, 1, 1, 0, 0, 1, 0, 1, 1, 0,
      0, 1, 1, 0, 1, 0, 0, 1, 1, 0, 0, 1, 0, 1, 1, 0, 1, 0, 0, 1, 0, 1, 1, 0, 0, 1, 1, 0, 1, 0, 0, 1,
      1, 0, 0, 1, 0, 1, 1, 0, 0, 1, 1, 0, 1, 0, 0, 1, 0, 1, 1, 0, 1, 0, 0, 1, 1, 0, 0, 1, 0, 1, 1, 0,
      1, 0, 0, 1, 0, 1, 1, 0, 0, 1, 1, 0, 1, 0, 0, 1, 0, 1, 1, 0, 1, 0, 0, 1, 1, 0, 0, 1, 0, 1, 1, 0,
      0, 1, 1, 0, 1, 0, 0, 1, 1, 0, 0, 1, 0, 1, 1, 0, 1, 0, 0, 1, 0, 1, 1, 0, 0, 1, 1, 0, 1, 0, 0, 1]"

definition bitsperbyte :: "u8 list" where
  "bitsperbyte =
     [0, 1, 1, 2, 1, 2, 2, 3, 1, 2, 2, 3, 2, 3, 3, 4, 1, 2, 2, 3, 2, 3, 3, 4, 2, 3, 3, 4, 3, 4, 4, 5,
      1, 2, 2, 3, 2, 3, 3, 4, 2, 3, 3, 4, 3, 4, 4, 5, 2, 3, 3, 4, 3, 4, 4, 5, 3, 4, 4, 5, 4, 5, 5, 6,
      1, 2, 2, 3, 2, 3, 3, 4, 2, 3, 3, 4, 3, 4, 4, 5, 2, 3, 3, 4, 3, 4, 4, 5, 3, 4, 4, 5, 4, 5, 5, 6,
      2, 3, 3, 4, 3, 4, 4, 5, 3, 4, 4, 5, 4, 5, 5, 6, 3, 4, 4, 5, 4, 5, 5, 6, 4, 5, 5, 6, 5, 6, 6, 7,
      1, 2, 2, 3, 2, 3, 3, 4, 2, 3, 3, 4, 3, 4, 4, 5, 2, 3, 3, 4, 3, 4, 4, 5, 3, 4, 4, 5, 4, 5, 5, 6,
      2, 3, 3, 4, 3, 4, 4, 5, 3, 4, 4, 5, 4, 5, 5, 6, 3, 4, 4, 5, 4, 5, 5, 6, 4, 5, 5, 6, 5, 6, 6, 7,
      2, 3, 3, 4, 3, 4, 4, 5, 3, 4, 4, 5, 4, 5, 5, 6, 3, 4, 4, 5, 4, 5, 5, 6, 4, 5, 5, 6, 5, 6, 6, 7,
      3, 4, 4, 5, 4, 5, 5, 6, 4, 5, 5, 6, 5, 6, 6, 7, 4, 5, 5, 6, 5, 6, 6, 7, 5, 6, 6, 7, 6, 7, 7, 8]"

definition addressbits :: "u8 list" where
  "addressbits =
     [0, 0, 1, 1, 0, 0, 1, 1, 2, 2, 3, 3, 2, 2, 3, 3, 0, 0, 1, 1, 0, 0, 1, 1, 2, 2, 3, 3, 2, 2, 3, 3,
      4, 4, 5, 5, 4, 4, 5, 5, 6, 6, 7, 7, 6, 6, 7, 7, 4, 4, 5, 5, 4, 4, 5, 5, 6, 6, 7, 7, 6, 6, 7, 7,
      0, 0, 1, 1, 0, 0, 1, 1, 2, 2, 3, 3, 2, 2, 3, 3, 0, 0, 1, 1, 0, 0, 1, 1, 2, 2, 3, 3, 2, 2, 3, 3,
      4, 4, 5, 5, 4, 4, 5, 5, 6, 6, 7, 7, 6, 6, 7, 7, 4, 4, 5, 5, 4, 4, 5, 5, 6, 6, 7, 7, 6, 6, 7, 7,
      8, 8, 9, 9, 8, 8, 9, 9, 10, 10, 11, 11, 10, 10, 11, 11, 8, 8, 9, 9, 8, 8, 9, 9, 10, 10, 11, 11, 10, 10, 11, 11,
      12, 12, 13, 13, 12, 12, 13, 13, 14, 14, 15, 15, 14, 14, 15, 15, 12, 12, 13, 13, 12, 12, 13, 13, 14, 14, 15, 15, 14, 14, 15, 15,
      8, 8, 9, 9, 8, 8, 9, 9, 10, 10, 11, 11, 10, 10, 11, 11, 8, 8, 9, 9, 8, 8, 9, 9, 10, 10, 11, 11, 10, 10, 11, 11,
      12, 12, 13, 13, 12, 12, 13, 13, 14, 14, 15, 15, 14, 14, 15, 15, 12, 12, 13, 13, 12, 12, 13, 13, 14, 14, 15, 15, 14, 14, 15, 15]"

section \<open>The code\<close>

text \<open>The accumulated parities of the loop.\<close>

record ecc_sums =
  par :: u32
  rp4 :: u32
  rp6 :: u32
  rp8 :: u32
  rp10 :: u32
  rp12 :: u32
  rp14 :: u32
  rp16 :: u32

text \<open>One round takes 16 words; \<open>w n\<close> is the word that the round reads as its number \<open>n\<close>.\<close>

definition ecc_round :: "bool \<Rightarrow> nat \<Rightarrow> (nat \<Rightarrow> u32) \<Rightarrow> ecc_sums \<Rightarrow> ecc_sums" where
  "ecc_round two i w e =
     (let tmppar = w 0; rp4' = rp4 e XOR w 0;
          tmppar = tmppar XOR w 1; rp6' = rp6 e XOR tmppar;
          tmppar = tmppar XOR w 2; rp4' = rp4' XOR w 2;
          tmppar = tmppar XOR w 3; rp8' = rp8 e XOR tmppar;
          tmppar = tmppar XOR w 4; rp4' = rp4' XOR w 4; rp6' = rp6' XOR w 4;
          tmppar = tmppar XOR w 5; rp6' = rp6' XOR w 5;
          tmppar = tmppar XOR w 6; rp4' = rp4' XOR w 6;
          tmppar = tmppar XOR w 7; rp10' = rp10 e XOR tmppar;
          tmppar = tmppar XOR w 8; rp4' = rp4' XOR w 8; rp6' = rp6' XOR w 8; rp8' = rp8' XOR w 8;
          tmppar = tmppar XOR w 9; rp6' = rp6' XOR w 9; rp8' = rp8' XOR w 9;
          tmppar = tmppar XOR w 10; rp4' = rp4' XOR w 10; rp8' = rp8' XOR w 10;
          tmppar = tmppar XOR w 11; rp8' = rp8' XOR w 11;
          tmppar = tmppar XOR w 12; rp4' = rp4' XOR w 12; rp6' = rp6' XOR w 12;
          tmppar = tmppar XOR w 13; rp6' = rp6' XOR w 13;
          tmppar = tmppar XOR w 14; rp4' = rp4' XOR w 14;
          tmppar = tmppar XOR w 15;
          rp12' = (if i AND 0x1 = 0 then rp12 e XOR tmppar else rp12 e);
          rp14' = (if i AND 0x2 = 0 then rp14 e XOR tmppar else rp14 e);
          rp16' = (if two \<and> i AND 0x4 = 0 then rp16 e XOR tmppar else rp16 e)
      in \<lparr>par = par e XOR tmppar, rp4 = rp4', rp6 = rp6', rp8 = rp8', rp10 = rp10', rp12 = rp12', rp14 = rp14', rp16 = rp16'\<rparr>)"

text \<open>The rounds; a word of the buffer is loaded as the machine does it.\<close>

fun ecc_loop :: "bool \<Rightarrow> nat \<Rightarrow> u8 list \<Rightarrow> ecc_sums" where
  "ecc_loop two 0 buf = \<lparr>par = 0, rp4 = 0, rp6 = 0, rp8 = 0, rp10 = 0, rp12 = 0, rp14 = 0, rp16 = 0\<rparr>"
| "ecc_loop two (Suc i) buf = ecc_round two i (\<lambda>n. GET32 buf (4 * (16 * i + n))) (ecc_loop two i buf)"

text \<open>A longword back to a byte.\<close>

definition to_byte :: "u32 \<Rightarrow> u32" where
  "to_byte rp = (let rp = rp XOR drop_bit 16 rp; rp = rp XOR drop_bit 8 rp in rp AND 0xff)"

definition inv_at :: "nat \<Rightarrow> u32 \<Rightarrow> u8" where
  "inv_at k rp = push_bit k (invparity ! unat rp)"

definition nand_calculate_ecc :: "u8 list \<Rightarrow> u32 \<Rightarrow> u8 list option" where
  "nand_calculate_ecc buf eccsize =
     (let eccsize_mult = drop_bit 8 eccsize; two = eccsize_mult = 2; e = ecc_loop two (4 * unat eccsize_mult) buf;
          r4 = to_byte (rp4 e); r6 = to_byte (rp6 e); r8 = to_byte (rp8 e); r10 = to_byte (rp10 e);
          r12 = to_byte (rp12 e); r14 = to_byte (rp14 e); r16 = to_byte (rp16 e);
          r3 = drop_bit 16 (par e); r3 = (r3 XOR drop_bit 8 r3) AND 0xff;
          r2 = par e AND 0xffff; r2 = (r2 XOR drop_bit 8 r2) AND 0xff;
          p = par e XOR drop_bit 16 (par e);
          r1 = drop_bit 8 p AND 0xff; r0 = p AND 0xff;
          p = (p XOR drop_bit 8 p) AND 0xff;
          r5 = (p XOR r4) AND 0xff; r7 = (p XOR r6) AND 0xff; r9 = (p XOR r8) AND 0xff; r11 = (p XOR r10) AND 0xff;
          r13 = (p XOR r12) AND 0xff; r15 = (p XOR r14) AND 0xff; r17 = (p XOR r16) AND 0xff;
          code1 = inv_at 7 r7 OR inv_at 6 r6 OR inv_at 5 r5 OR inv_at 4 r4 OR inv_at 3 r3 OR inv_at 2 r2 OR inv_at 1 r1 OR inv_at 0 r0;
          code0 = inv_at 7 r15 OR inv_at 6 r14 OR inv_at 5 r13 OR inv_at 4 r12 OR inv_at 3 r11 OR inv_at 2 r10 OR inv_at 1 r9 OR inv_at 0 r8;
          columns = inv_at 7 (p AND 0xf0) OR inv_at 6 (p AND 0x0f) OR inv_at 5 (p AND 0xcc) OR inv_at 4 (p AND 0x33) OR
            inv_at 3 (p AND 0xaa) OR inv_at 2 (p AND 0x55)
      in if eccsize_mult = 1 then Some [code0, code1, columns OR 3]
         else if two then Some [code0, code1, columns OR inv_at 1 r17 OR inv_at 0 r16]
         else None)"

end
