(* ===== verification/NandProps.thy ===== *)
theory NandProps
  imports Nand
begin

text \<open>
  The code is a parity check: each of its bits is the parity of the data bits whose address has a certain bit set or clear.
  An error in one bit is therefore found where it is, and an error in two bits does not go unnoticed.
\<close>

section \<open>Parities\<close>

fun parity :: "nat \<Rightarrow> (nat \<Rightarrow> bool) \<Rightarrow> bool" where
  "parity 0 f = False"
| "parity (Suc n) f = (parity n f \<noteq> f n)"

lemma parity_cong: "(\<And>i. i < n \<Longrightarrow> f i = g i) \<Longrightarrow> parity n f = parity n g"
  by (induction n) auto

lemma parity_xor: "parity n (\<lambda>i. f i = (\<not> g i)) = (parity n f = (\<not> parity n g))"
  by (induction n) auto

lemma parity_False [simp]: "parity n (\<lambda>i. False) = False"
  by (induction n) auto

lemma parity_add: "parity (m + n) f = (parity m f \<noteq> parity n (\<lambda>i. f (m + i)))"
  by (induction n) auto

lemma parity_blocks: "parity (m * n) f = parity n (\<lambda>j. parity m (\<lambda>b. f (m * j + b)))"
  by (induction n) (simp_all add: parity_add add.commute [of m])

lemma parity_swap: "parity m (\<lambda>b. parity n (\<lambda>j. f j b)) = parity n (\<lambda>j. parity m (\<lambda>b. f j b))"
  by (induction n) (simp_all add: parity_xor)

lemma parity_and: "parity n (\<lambda>i. c \<and> f i) = (c \<and> parity n f)"
  by (cases c) simp_all

lemma parity_card: "parity n f = odd (card {i. i < n \<and> f i})"
proof (induction n)
  case (Suc n)
  have "{i. i < Suc n \<and> f i} = (if f n then insert n {i. i < n \<and> f i} else {i. i < n \<and> f i})" by (auto simp: less_Suc_eq)
  then show ?case using Suc by auto
qed simp

text \<open>The parity of a word under a mask, and the tables.\<close>

definition word_parity :: "'a::len word \<Rightarrow> bool" where
  "word_parity x = parity (LENGTH('a)) (bit x)"

lemma word_parity_xor [simp]: "word_parity (x XOR y) = (word_parity x = (\<not> word_parity y))"
proof -
  have "bit (x XOR y) = (\<lambda>i. bit x i = (\<not> bit y i))" by (auto simp: fun_eq_iff bit_xor_iff)
  then show ?thesis using parity_xor [of "LENGTH('a)" "bit x" "bit y"] by (simp add: word_parity_def)
qed

lemma word_parity_32: "word_parity x \<longleftrightarrow> parity 32 (bit x)" for x :: u32
  by (simp add: word_parity_def)

lemma invparity_used: "map (\<lambda>b. 1 - (b AND 1)) used_bit = invparity"
  unfolding used_bit_def invparity_def by simp

lemma pop_parity: "k < 2 ^ n \<Longrightarrow> odd (pop_count k) = parity n (bit k)"
  by (simp add: pop_count_card parity_card)

lemma invparity_at:
  assumes "r \<le> (0xff :: u32)"
  shows "invparity ! unat r = of_bool (\<not> word_parity r)"
proof -
  have bits: "bit (unat r) = bit r" by (rule ext) (rule bit_unat)
  have u: "unat r < 256" using assms by (simp add: word_le_nat_alt)
  let ?p = "used_bit ! unat r"
  have "unat ?p = pop_count (unat r)" using tabulates_nth [OF used_bit_table, of "unat r"] u by simp
  moreover have "unat r < 2 ^ 32" using u by simp
  then have "odd (pop_count (unat r)) = word_parity r" using pop_parity [of "unat r" 32] bits by (simp add: word_parity_32)
  ultimately have "bit ?p 0 = word_parity r" using bit_unat [of ?p 0] by (simp add: bit_0)
  then have "?p AND 1 = of_bool (word_parity r)" by (simp add: and_one_eq bit_0 mod_2_eq_odd)
  moreover have "invparity ! unat r = 1 - (?p AND 1)" using u unfolding invparity_used [symmetric] by simp
  ultimately show ?thesis by simp
qed


section \<open>The sums of the loop\<close>

fun xors :: "(nat \<Rightarrow> u32) \<Rightarrow> nat \<Rightarrow> (nat \<Rightarrow> bool) \<Rightarrow> u32" where
  "xors w 0 P = 0"
| "xors w (Suc n) P = (if P n then xors w n P XOR w n else xors w n P)"

lemma xors_add: "xors w (m + n) P = xors w m P XOR xors (\<lambda>j. w (m + j)) n (\<lambda>j. P (m + j))"
  by (induction n) (simp_all add: xor.assoc)

lemma xors_cong: "(\<And>j. j < n \<Longrightarrow> P j = Q j) \<Longrightarrow> xors w n P = xors w n Q"
  by (induction n) auto

lemma xors_none: "xors w n (\<lambda>j. False) = 0"
  by (induction n) auto

lemma xors_bit: "bit (xors w n P) b = parity n (\<lambda>j. P j \<and> bit (w j) b)"
  by (induction n) (auto simp: bit_xor_iff)

lemma xors_Suc: "xors w (Suc n) P = xors w n P XOR (if P n then w n else 0)"
  by simp

lemma xors_numeral:
  "xors w (numeral k) P = xors w (pred_numeral k) P XOR (if P (pred_numeral k) then w (pred_numeral k) else 0)"
  unfolding numeral_eq_Suc by (rule xors_Suc)

definition sum16 :: "(nat \<Rightarrow> u32) \<Rightarrow> (nat \<Rightarrow> bool) \<Rightarrow> u32" where
  "sum16 u P = xors u 16 P"

lemma sum16_eval:
  "sum16 u P = (if P 0 then u 0 else 0) XOR (if P 1 then u 1 else 0) XOR (if P 2 then u 2 else 0) XOR (if P 3 then u 3 else 0)
     XOR (if P 4 then u 4 else 0) XOR (if P 5 then u 5 else 0) XOR (if P 6 then u 6 else 0) XOR (if P 7 then u 7 else 0)
     XOR (if P 8 then u 8 else 0) XOR (if P 9 then u 9 else 0) XOR (if P 10 then u 10 else 0) XOR (if P 11 then u 11 else 0)
     XOR (if P 12 then u 12 else 0) XOR (if P 13 then u 13 else 0) XOR (if P 14 then u 14 else 0) XOR (if P 15 then u 15 else 0)"
  unfolding sum16_def by (simp del: xors.simps(2) split del: if_split cong: if_cong add: xors_numeral xors_Suc xor.assoc)

lemma ecc_round_sums:
  "ecc_round two i u e = \<lparr>par = par e XOR sum16 u (\<lambda>_. True), rp4 = rp4 e XOR sum16 u (\<lambda>k. \<not> bit k 0),
     rp6 = rp6 e XOR sum16 u (\<lambda>k. \<not> bit k 1), rp8 = rp8 e XOR sum16 u (\<lambda>k. \<not> bit k 2), rp10 = rp10 e XOR sum16 u (\<lambda>k. \<not> bit k 3),
     rp12 = rp12 e XOR (if bit i 0 then 0 else sum16 u (\<lambda>_. True)), rp14 = rp14 e XOR (if bit i 1 then 0 else sum16 u (\<lambda>_. True)),
     rp16 = rp16 e XOR (if two \<and> \<not> bit i 2 then sum16 u (\<lambda>_. True) else 0)\<rparr>"
proof -
  have b: "(i AND 0x1 = 0) = (\<not> bit i 0)" "(i AND 0x2 = 0) = (\<not> bit i 1)" "(i AND 0x4 = 0) = (\<not> bit i 2)"
    using and_exp_eq_0_iff_not_bit [of i 0] and_exp_eq_0_iff_not_bit [of i 1] and_exp_eq_0_iff_not_bit [of i 2] by simp_all
  have s: "sum16 u (\<lambda>_. True) = u 0 XOR u 1 XOR u 2 XOR u 3 XOR u 4 XOR u 5 XOR u 6 XOR u 7 XOR u 8 XOR u 9 XOR u 10 XOR u 11 XOR
      u 12 XOR u 13 XOR u 14 XOR u 15"
    "sum16 u (\<lambda>k. \<not> bit k 0) = u 0 XOR u 2 XOR u 4 XOR u 6 XOR u 8 XOR u 10 XOR u 12 XOR u 14"
    "sum16 u (\<lambda>k. \<not> bit k 1) = u 0 XOR u 1 XOR u 4 XOR u 5 XOR u 8 XOR u 9 XOR u 12 XOR u 13"
    "sum16 u (\<lambda>k. \<not> bit k 2) = u 0 XOR u 1 XOR u 2 XOR u 3 XOR u 8 XOR u 9 XOR u 10 XOR u 11"
    "sum16 u (\<lambda>k. \<not> bit k 3) = u 0 XOR u 1 XOR u 2 XOR u 3 XOR u 4 XOR u 5 XOR u 6 XOR u 7"
    by (simp_all add: sum16_eval bit_0)
  show ?thesis
    unfolding s ecc_round_def Let_def b by (simp add: xor.assoc)
qed


lemma low_index:
  fixes i k :: nat
  assumes "k < 16"
  shows "b < 4 \<Longrightarrow> bit (16 * i + k) b = bit k b" "bit (16 * i + k) (4 + c) = bit i c"
proof -
  have t: "take_bit 4 (16 * i + k) = k" "drop_bit 4 (16 * i + k) = i" using assms by (simp_all add: take_bit_eq_mod drop_bit_eq_div)
  show "bit (16 * i + k) b = bit k b" if "b < 4" using that bit_take_bit_iff [of 4 "16 * i + k" b] t(1) by simp
  show "bit (16 * i + k) (4 + c) = bit i c" using bit_drop_bit_eq [of 4 "16 * i + k"] t(2) by (simp add: fun_eq_iff)
qed

lemma xors_round: "xors w (16 * Suc i) P = xors w (16 * i) P XOR sum16 (\<lambda>k. w (16 * i + k)) (\<lambda>k. P (16 * i + k))"
  using xors_add [of w "16 * i" 16 P] by (simp add: sum16_def add.commute)

lemma sum16_cong: "(\<And>k. k < 16 \<Longrightarrow> P k = Q k) \<Longrightarrow> sum16 u P = sum16 u Q"
  unfolding sum16_def by (rule xors_cong)

lemma sum16_const: "sum16 u (\<lambda>_. b) = (if b then sum16 u (\<lambda>_. True) else 0)"
  by (simp add: sum16_def xors_none)

lemma xors_round_low: "b < 4 \<Longrightarrow> xors w (16 * Suc i) (\<lambda>j. \<not> bit j b) = xors w (16 * i) (\<lambda>j. \<not> bit j b) XOR
    sum16 (\<lambda>k. w (16 * i + k)) (\<lambda>k. \<not> bit k b)"
  unfolding xors_round using sum16_cong [of "\<lambda>k. \<not> bit (16 * i + k) b" "\<lambda>k. \<not> bit k b"] by (simp add: low_index(1))

lemma xors_round_high: "xors w (16 * Suc i) (\<lambda>j. \<not> bit j (4 + c)) = xors w (16 * i) (\<lambda>j. \<not> bit j (4 + c)) XOR
    (if bit i c then 0 else sum16 (\<lambda>k. w (16 * i + k)) (\<lambda>_. True))"
  unfolding xors_round using sum16_cong [of "\<lambda>k. \<not> bit (16 * i + k) (4 + c)" "\<lambda>k. \<not> bit i c"]
  by (simp add: low_index(2) sum16_const [of _ "\<not> bit i c"])

definition word_at :: "u8 list \<Rightarrow> nat \<Rightarrow> u32" where
  "word_at buf j = GET32 buf (4 * j)"

lemma ecc_loop_sums:
  "ecc_loop two i buf = (let x = xors (word_at buf) (16 * i)
     in \<lparr>par = x (\<lambda>_. True), rp4 = x (\<lambda>j. \<not> bit j 0), rp6 = x (\<lambda>j. \<not> bit j 1), rp8 = x (\<lambda>j. \<not> bit j 2), rp10 = x (\<lambda>j. \<not> bit j 3),
         rp12 = x (\<lambda>j. \<not> bit j 4), rp14 = x (\<lambda>j. \<not> bit j 5), rp16 = (if two then x (\<lambda>j. \<not> bit j 6) else 0)\<rparr>)"
proof (induction i)
  case (Suc i)
  have h: "4 + 0 = (4 :: nat)" "4 + 1 = (5 :: nat)" "4 + 2 = (6 :: nat)" by simp_all
  note high = xors_round_high [of _ i 0, unfolded h] xors_round_high [of _ i 1, unfolded h] xors_round_high [of _ i 2, unfolded h]
  have w: "(\<lambda>n. GET32 buf (4 * (16 * i + n))) = (\<lambda>k. word_at buf (16 * i + k))" by (simp add: word_at_def fun_eq_iff)
  show ?case
    unfolding ecc_loop.simps(2) Suc.IH w ecc_round_sums Let_def
    by (simp del: mult_Suc_right add: xors_round [of _ i "\<lambda>_. True"] xors_round_low high)
qed simp


section \<open>The bits of the code\<close>

text \<open>Bit \<open>n\<close> of the data, and the bit of the code for the addresses whose bit \<open>k\<close> is \<open>v\<close>.\<close>

definition data_bit :: "u8 list \<Rightarrow> nat \<Rightarrow> bool" where
  "data_bit buf n = bit (buf ! (n div 8)) (n mod 8)"

definition ecc_bit :: "u8 list \<Rightarrow> nat \<Rightarrow> bool \<Rightarrow> bool" where
  "ecc_bit code k v =
     (let o1 = (if v then 1 else 0)
      in if k < 3 then bit (code ! 2) (2 * k + 2 + o1)
         else if k < 7 then bit (code ! 1) (2 * (k - 3) + o1)
         else if k < 11 then bit (code ! 0) (2 * (k - 7) + o1)
         else bit (code ! 2) o1)"

lemma bit_GET32:
  assumes "b < 32"
  shows "bit (GET32 p i) b = bit (p ! (i + b div 8)) (b mod 8)"
proof -
  have u: "bit (ucast a :: u32) n = bit a n" for a :: u8 and n by (auto simp: bit_unsigned_iff dest: bit_imp_le_length)
  have h: "\<not> bit a n" if "8 \<le> n" for a :: u8 and n using that bit_imp_le_length [of a n] by auto
  have e: "bit (GET32 p i) b = (bit (p ! i) b \<or> (8 \<le> b \<and> bit (p ! (i + 1)) (b - 8)) \<or> (16 \<le> b \<and> bit (p ! (i + 2)) (b - 16)) \<or>
      (24 \<le> b \<and> bit (p ! (i + 3)) (b - 24)))"
    using assms by (simp add: GET32_def bit_or_iff bit_push_bit_iff u disj_ac)
  consider "b < 8" | "8 \<le> b" "b < 16" | "16 \<le> b" "b < 24" | "24 \<le> b" using assms by linarith
  then show ?thesis
  proof cases
    case 1
    then show ?thesis unfolding e by (simp add: h)
  next
    case 2
    then have "b div 8 = 1" "b mod 8 = b - 8" by (simp_all add: div_nat_eqI mod_if)
    then show ?thesis unfolding e using 2 by (simp add: h)
  next
    case 3
    then have "b div 8 = 2" "b mod 8 = b - 16" by presburger+
    then show ?thesis unfolding e using 3 by (simp add: h)
  next
    case 4
    then have "b div 8 = 3" "b mod 8 = b - 24" using assms by presburger+
    then show ?thesis unfolding e using 4 by (simp add: h)
  qed
qed

lemma bit_word_at:
  assumes "b < 32"
  shows "bit (word_at buf j) b = data_bit buf (32 * j + b)"
proof -
  have n: "(32 * j + b) div 8 = 4 * j + b div 8" "(32 * j + b) mod 8 = b mod 8"
    using div_mult_self1 [of 8 b "4 * j"] mod_mult_self1 [of b "4 * j" 8] by (simp_all add: ac_simps)
  show ?thesis by (simp add: word_at_def bit_GET32 [OF assms] data_bit_def n)
qed

text \<open>A word as four bytes.\<close>

lemma parity_bytes: "parity 32 f = (parity 8 f \<noteq> (parity 8 (\<lambda>i. f (8 + i)) \<noteq> (parity 8 (\<lambda>i. f (16 + i)) \<noteq> parity 8 (\<lambda>i. f (24 + i)))))"
proof -
  have "parity 32 f = (parity 8 f \<noteq> parity 24 (\<lambda>i. f (8 + i)))" using parity_add [of 8 24 f] by simp
  moreover have "parity 24 (\<lambda>i. f (8 + i)) = (parity 8 (\<lambda>i. f (8 + i)) \<noteq> parity 16 (\<lambda>i. f (16 + i)))"
    using parity_add [of 8 16 "\<lambda>i. f (8 + i)"] by (simp add: add.assoc [symmetric])
  moreover have "parity 16 (\<lambda>i. f (16 + i)) = (parity 8 (\<lambda>i. f (16 + i)) \<noteq> parity 8 (\<lambda>i. f (24 + i)))"
    using parity_add [of 8 8 "\<lambda>i. f (16 + i)"] by (simp add: add.assoc [symmetric])
  ultimately show ?thesis by simp
qed

lemma byte_high:
  assumes "r \<le> (0xff :: u32)"
  shows "\<not> bit r (8 + i)"
proof -
  have "unat r < 2 ^ 8" using assms by (simp add: word_le_nat_alt)
  then show ?thesis by (simp add: bit_unat [symmetric] bit_iff_odd div_less less_le_trans power_add)
qed

lemma parity_byte:
  assumes "r \<le> (0xff :: u32)"
  shows "word_parity r = parity 8 (bit r)"
proof -
  have "\<not> bit r (8 + i)" for i by (rule byte_high [OF assms])
  moreover have "parity 32 (bit r) = (parity 8 (bit r) \<noteq> parity 24 (\<lambda>i. bit r (8 + i)))" using parity_add [of 8 24 "bit r"] by simp
  ultimately show ?thesis by (simp add: word_parity_32)
qed

lemma parity_xor4:
  "parity n (\<lambda>i. a i \<noteq> (b i \<noteq> (c i \<noteq> d i))) = (parity n a \<noteq> (parity n b \<noteq> (parity n c \<noteq> parity n d)))"
  by (induction n) auto

lemma low_byte: "r AND 0xff \<le> (0xff :: u32)"
  by (simp add: word_and_le1)

lemma bit_low_byte: "bit (r AND 0xff :: u32) i \<longleftrightarrow> bit r i \<and> i < 8"
proof -
  have m: "(0xff :: u32) = mask 8" by (simp add: mask_eq_exp_minus_1)
  show ?thesis unfolding m by (auto simp: bit_and_iff bit_mask_iff dest: bit_imp_le_length)
qed

lemma to_byte_bit: "i < 8 \<Longrightarrow> bit (to_byte x) i = (bit x i \<noteq> (bit x (8 + i) \<noteq> (bit x (16 + i) \<noteq> bit x (24 + i))))"
  by (auto simp: to_byte_def Let_def bit_low_byte bit_xor_iff bit_drop_bit_eq add.assoc [symmetric])

lemma to_byte_parity: "to_byte x \<le> 0xff" "word_parity (to_byte x) = word_parity x"
proof -
  show b: "to_byte x \<le> 0xff" by (simp add: to_byte_def Let_def low_byte)
  have "parity 8 (bit (to_byte x)) = parity 8 (\<lambda>i. bit x i \<noteq> (bit x (8 + i) \<noteq> (bit x (16 + i) \<noteq> bit x (24 + i))))"
    by (rule parity_cong) (rule to_byte_bit)
  then show "word_parity (to_byte x) = word_parity x"
    by (simp only: parity_byte [OF b] word_parity_32 [of x] parity_bytes [of "bit x"] parity_xor4)
qed

text \<open>The addresses of the bits of a word: bits 0 to 2 in a byte, bits 3 and 4 the byte.\<close>

lemma byte_address:
  fixes i q :: nat
  assumes "i < 8"
  shows "k < 3 \<Longrightarrow> bit (8 * q + i) k = bit i k" "bit (8 * q + i) (3 + c) = bit q c"
proof -
  have t: "take_bit 3 (8 * q + i) = i" "drop_bit 3 (8 * q + i) = q" using assms by (simp_all add: take_bit_eq_mod drop_bit_eq_div)
  show "bit (8 * q + i) k = bit i k" if "k < 3" using that bit_take_bit_iff [of 3 "8 * q + i" k] t(1) by simp
  show "bit (8 * q + i) (3 + c) = bit q c" using bit_drop_bit_eq [of 3 "8 * q + i"] t(2) by (simp add: fun_eq_iff)
qed

definition bits_with :: "u32 \<Rightarrow> nat \<Rightarrow> bool \<Rightarrow> bool" where
  "bits_with x k v = parity 32 (\<lambda>b. bit x b \<and> (bit b k = v))"

lemma column_parity:
  assumes "k < 3" "m \<le> 0xff" "\<And>i. i < 8 \<Longrightarrow> bit m i = (bit i k = v)"
  shows "word_parity (to_byte x AND m) = bits_with x k v"
proof -
  have b: "to_byte x AND m \<le> 0xff" by (rule order.trans [OF word_and_le1 assms(2)])
  let ?c = "\<lambda>i. bit i k = v"
  have "parity 8 (bit (to_byte x AND m)) =
      parity 8 (\<lambda>i. (bit x i \<and> ?c i) \<noteq> ((bit x (8 + i) \<and> ?c i) \<noteq> ((bit x (16 + i) \<and> ?c i) \<noteq> (bit x (24 + i) \<and> ?c i))))"
  proof (rule parity_cong)
    fix i :: nat assume i: "i < 8"
    show "bit (to_byte x AND m) i = ((bit x i \<and> ?c i) \<noteq> ((bit x (8 + i) \<and> ?c i) \<noteq> ((bit x (16 + i) \<and> ?c i) \<noteq> (bit x (24 + i) \<and> ?c i))))"
      unfolding bit_and_iff to_byte_bit [OF i] assms(3) [OF i] by (cases "?c i") simp_all
  qed
  moreover have "parity 8 (\<lambda>i. bit x (8 * q + i) \<and> ?c (8 * q + i)) = parity 8 (\<lambda>i. bit x (8 * q + i) \<and> ?c i)" for q
    by (rule parity_cong) (simp add: byte_address(1) [OF _ assms(1)])
  from this [of 1] this [of 2] this [of 3] have
    "parity 8 (\<lambda>i. bit x (8 + i) \<and> ?c (8 + i)) = parity 8 (\<lambda>i. bit x (8 + i) \<and> ?c i)"
    "parity 8 (\<lambda>i. bit x (16 + i) \<and> ?c (16 + i)) = parity 8 (\<lambda>i. bit x (16 + i) \<and> ?c i)"
    "parity 8 (\<lambda>i. bit x (24 + i) \<and> ?c (24 + i)) = parity 8 (\<lambda>i. bit x (24 + i) \<and> ?c i)" by simp_all
  ultimately show ?thesis
    unfolding parity_byte [OF b] bits_with_def parity_bytes [of "\<lambda>b. bit x b \<and> (bit b k = v)"] parity_xor4 by simp
qed

lemma row_parity:
  "word_parity ((x XOR drop_bit 16 x) AND 0xff) = bits_with x 3 False"
  "word_parity (drop_bit 8 (x XOR drop_bit 16 x) AND 0xff) = bits_with x 3 True"
  "word_parity (((x AND 0xffff) XOR drop_bit 8 (x AND 0xffff)) AND 0xff) = bits_with x 4 False"
  "word_parity ((drop_bit 16 x XOR drop_bit 8 (drop_bit 16 x)) AND 0xff) = bits_with x 4 True"
proof -
  have q: "parity 8 (\<lambda>i. bit x (8 * q + i) \<and> bit (8 * q + i) (3 + c) = v) = (if bit q c = v then parity 8 (\<lambda>i. bit x (8 * q + i)) else False)" for q c v
  proof -
    have "parity 8 (\<lambda>i. bit x (8 * q + i) \<and> bit (8 * q + i) (3 + c) = v) = parity 8 (\<lambda>i. bit q c = v \<and> bit x (8 * q + i))"
      by (rule parity_cong) (auto simp: byte_address(2))
    then show ?thesis by (simp add: parity_and)
  qed
  have m: "bit (x AND 0xffff) i \<longleftrightarrow> bit x i \<and> i < 16" for i
  proof -
    have m: "(0xffff :: u32) = mask 16" by (simp add: mask_eq_exp_minus_1)
    show ?thesis unfolding m by (auto simp: bit_and_iff bit_mask_iff dest: bit_imp_le_length)
  qed
  let ?B = "\<lambda>q. parity 8 (\<lambda>i. bit x (8 * q + i))"
  have r: "bits_with x (3 + c) v = ((bit (0 :: nat) c = v \<and> ?B 0) \<noteq> ((bit (1 :: nat) c = v \<and> ?B 1) \<noteq> ((bit (2 :: nat) c = v \<and> ?B 2) \<noteq>
      (bit (3 :: nat) c = v \<and> ?B 3))))" for c v
    unfolding bits_with_def parity_bytes [of "\<lambda>b. bit x b \<and> (bit b (3 + c) = v)"]
    using q [of 0 c v] q [of 1 c v] q [of 2 c v] q [of 3 c v] by (simp split del: if_split) (simp split: if_splits)
  have w: "word_parity (y AND 0xff) = (parity 8 f \<noteq> parity 8 g)" if "\<And>i. i < 8 \<Longrightarrow> bit y i = (f i \<noteq> g i)" for y :: u32 and f g
  proof -
    have "parity 8 (bit (y AND 0xff)) = parity 8 (\<lambda>i. f i = (\<not> g i))" by (rule parity_cong) (simp add: bit_low_byte that)
    then show ?thesis unfolding parity_byte [OF low_byte] parity_xor by simp
  qed
  show "word_parity ((x XOR drop_bit 16 x) AND 0xff) = bits_with x 3 False"
    using r [of 0 False] by (subst w [of _ "bit x" "\<lambda>i. bit x (16 + i)"]) (auto simp: bit_xor_iff bit_drop_bit_eq bit_0 bit_Suc)
  show "word_parity (drop_bit 8 (x XOR drop_bit 16 x) AND 0xff) = bits_with x 3 True"
    using r [of 0 True]
    by (subst w [of _ "\<lambda>i. bit x (8 + i)" "\<lambda>i. bit x (24 + i)"]) (auto simp: bit_xor_iff bit_drop_bit_eq bit_0 bit_Suc add.assoc [symmetric])
  show "word_parity (((x AND 0xffff) XOR drop_bit 8 (x AND 0xffff)) AND 0xff) = bits_with x 4 False"
    using r [of 1 False] by (subst w [of _ "bit x" "\<lambda>i. bit x (8 + i)"]) (auto simp: bit_xor_iff bit_drop_bit_eq bit_low_byte m bit_0 bit_Suc)
  show "word_parity ((drop_bit 16 x XOR drop_bit 8 (drop_bit 16 x)) AND 0xff) = bits_with x 4 True"
    using r [of 1 True]
    by (subst w [of _ "\<lambda>i. bit x (16 + i)" "\<lambda>i. bit x (24 + i)"]) (auto simp: bit_xor_iff bit_drop_bit_eq bit_0 bit_Suc add.assoc [symmetric])
qed


text \<open>The bits as parities of sums.\<close>

lemma bits_with_sum: "bits_with (xors w n P) k v = parity n (\<lambda>j. P j \<and> bits_with (w j) k v)"
proof -
  have "bits_with (xors w n P) k v = parity 32 (\<lambda>b. parity n (\<lambda>j. (bit b k = v) \<and> P j \<and> bit (w j) b))"
    by (simp add: bits_with_def xors_bit conj_commute flip: parity_and)
  also have "\<dots> = parity n (\<lambda>j. parity 32 (\<lambda>b. P j \<and> bit (w j) b \<and> bit b k = v))"
    using parity_swap [of 32 n "\<lambda>j b. (bit b k = v) \<and> P j \<and> bit (w j) b"] by (simp add: conj_ac)
  finally show ?thesis by (simp add: bits_with_def parity_and)
qed

lemma word_parity_sum: "word_parity (xors w n P) = parity n (\<lambda>j. P j \<and> word_parity (w j))"
proof -
  have "word_parity (xors w n P) = parity 32 (\<lambda>b. parity n (\<lambda>j. P j \<and> bit (w j) b))" 
    unfolding word_parity_32 by (rule parity_cong) (rule xors_bit)
  then show ?thesis using parity_swap [of 32 n "\<lambda>j b. P j \<and> bit (w j) b"] by (simp add: parity_and word_parity_32)
qed

text \<open>The parity of the data bits whose address has \<open>v\<close> as its bit \<open>k\<close>.\<close>

definition address_parity :: "u8 list \<Rightarrow> nat \<Rightarrow> nat \<Rightarrow> bool \<Rightarrow> bool" where
  "address_parity buf n k v = parity (32 * n) (\<lambda>a. data_bit buf a \<and> bit a k = v)"

lemma word_address:
  fixes b j :: nat
  assumes "b < 32"
  shows "k < 5 \<Longrightarrow> bit (32 * j + b) k = bit b k" "bit (32 * j + b) (5 + c) = bit j c"
proof -
  have t: "take_bit 5 (32 * j + b) = b" "drop_bit 5 (32 * j + b) = j" using assms by (simp_all add: take_bit_eq_mod drop_bit_eq_div)
  show "bit (32 * j + b) k = bit b k" if "k < 5" using that bit_take_bit_iff [of 5 "32 * j + b" k] t(1) by simp
  show "bit (32 * j + b) (5 + c) = bit j c" using bit_drop_bit_eq [of 5 "32 * j + b"] t(2) by (simp add: fun_eq_iff)
qed

lemma address_low:
  assumes "k < 5"
  shows "bits_with (xors (word_at buf) n (\<lambda>_. True)) k v = address_parity buf n k v"
proof -
  have "address_parity buf n k v = parity n (\<lambda>j. parity 32 (\<lambda>b. data_bit buf (32 * j + b) \<and> bit (32 * j + b) k = v))"
    unfolding address_parity_def by (rule parity_blocks)
  also have "\<dots> = parity n (\<lambda>j. bits_with (word_at buf j) k v)"
    unfolding bits_with_def by (intro parity_cong) (simp add: bit_word_at word_address(1) [OF _ assms])
  finally show ?thesis by (simp add: bits_with_sum)
qed

lemma address_high: "word_parity (xors (word_at buf) n (\<lambda>j. bit j c = v)) = address_parity buf n (5 + c) v"
proof -
  have "address_parity buf n (5 + c) v = parity n (\<lambda>j. parity 32 (\<lambda>b. data_bit buf (32 * j + b) \<and> bit (32 * j + b) (5 + c) = v))"
    unfolding address_parity_def by (rule parity_blocks)
  also have "\<dots> = parity n (\<lambda>j. (bit j c = v) \<and> word_parity (word_at buf j))"
  proof (rule parity_cong)
    fix j
    have "parity 32 (\<lambda>b. data_bit buf (32 * j + b) \<and> bit (32 * j + b) (5 + c) = v) = parity 32 (\<lambda>b. (bit j c = v) \<and> bit (word_at buf j) b)"
      by (rule parity_cong) (auto simp: bit_word_at word_address(2))
    then show "parity 32 (\<lambda>b. data_bit buf (32 * j + b) \<and> bit (32 * j + b) (5 + c) = v) = (bit j c = v \<and> word_parity (word_at buf j))"
      by (simp add: parity_and word_parity_32)
  qed
  finally show ?thesis by (simp add: word_parity_sum)
qed

lemma address_all: "(word_parity (xors (word_at buf) n (\<lambda>_. True)) \<noteq> address_parity buf n (5 + c) False) = address_parity buf n (5 + c) True"
proof -
  let ?f = "\<lambda>v j. (bit j c = v) \<and> word_parity (word_at buf j)"
  have "parity n (\<lambda>j. word_parity (word_at buf j)) = parity n (\<lambda>j. ?f False j = (\<not> ?f True j))" by (rule parity_cong) auto
  also have "\<dots> = (parity n (?f False) = (\<not> parity n (?f True)))" by (rule parity_xor)
  finally have "parity n (\<lambda>j. word_parity (word_at buf j)) = (parity n (?f False) = (\<not> parity n (?f True)))" .
  moreover have "address_parity buf n (5 + c) v = parity n (?f v)" for v
    using address_high [of buf n c v] by (simp only: word_parity_sum)
  ultimately show ?thesis by (simp add: word_parity_sum) blast
qed

section \<open>The code as a parity check\<close>

lemma inv_at_bit: "r \<le> 0xff \<Longrightarrow> bit (inv_at k r) i = (i = k \<and> k < 8 \<and> \<not> word_parity r)"
  by (auto simp: inv_at_def invparity_at bit_push_bit_iff bit_0 bit_1_iff)

lemma and_byte: "p \<le> (0xff :: u32) \<Longrightarrow> p AND 0xff = p"
proof (rule bit_eqI)
  fix i assume "p \<le> (0xff :: u32)"
  then show "bit (p AND 0xff) i = bit p i" using byte_high [of p "i - 8"] by (cases "i < 8") (simp_all add: bit_low_byte)
qed

lemma xor_byte_parity:
  assumes "p \<le> (0xff :: u32)" "r \<le> 0xff"
  shows "(p XOR r) AND 0xff \<le> 0xff" "word_parity ((p XOR r) AND 0xff) = (word_parity p \<noteq> word_parity r)"
proof -
  show "(p XOR r) AND 0xff \<le> 0xff" by (rule low_byte)
  have "(p XOR r) AND 0xff = (p AND 0xff) XOR (r AND 0xff)" by (rule bit_eqI) (auto simp: bit_low_byte bit_xor_iff)
  then show "word_parity ((p XOR r) AND 0xff) = (word_parity p \<noteq> word_parity r)" by (simp add: and_byte assms)
qed

lemma column_masks:
  assumes "i < (8 :: nat)"
  shows "bit (0x55 :: u32) i = (bit i 0 = False)" "bit (0xaa :: u32) i = (bit i 0 = True)" "bit (0x33 :: u32) i = (bit i 1 = False)"
    "bit (0xcc :: u32) i = (bit i 1 = True)" "bit (0x0f :: u32) i = (bit i 2 = False)" "bit (0xf0 :: u32) i = (bit i 2 = True)"
proof -
  have "i = 0 \<or> i = 1 \<or> i = 2 \<or> i = 3 \<or> i = 4 \<or> i = 5 \<or> i = 6 \<or> i = 7" using assms by linarith
  then show "bit (0x55 :: u32) i = (bit i 0 = False)" "bit (0xaa :: u32) i = (bit i 0 = True)" "bit (0x33 :: u32) i = (bit i 1 = False)"
    "bit (0xcc :: u32) i = (bit i 1 = True)" "bit (0x0f :: u32) i = (bit i 2 = False)" "bit (0xf0 :: u32) i = (bit i 2 = True)"
    by (auto simp: bit_0 bit_Suc)
qed

text \<open>The parities of the bytes behind the bits of the code.\<close>

lemma code_parities:
  fixes buf :: "u8 list" and n c :: nat
  defines "x \<equiv> xors (word_at buf) n"
  defines "all \<equiv> x (\<lambda>_. True)"
  shows "word_parity (to_byte all AND 0x55) = address_parity buf n 0 False" "word_parity (to_byte all AND 0xaa) = address_parity buf n 0 True"
    "word_parity (to_byte all AND 0x33) = address_parity buf n 1 False" "word_parity (to_byte all AND 0xcc) = address_parity buf n 1 True"
    "word_parity (to_byte all AND 0x0f) = address_parity buf n 2 False" "word_parity (to_byte all AND 0xf0) = address_parity buf n 2 True"
    "word_parity ((all XOR drop_bit 16 all) AND 0xff) = address_parity buf n 3 False"
    "word_parity (drop_bit 8 (all XOR drop_bit 16 all) AND 0xff) = address_parity buf n 3 True"
    "word_parity (((all AND 0xffff) XOR drop_bit 8 (all AND 0xffff)) AND 0xff) = address_parity buf n 4 False"
    "word_parity ((drop_bit 16 all XOR drop_bit 8 (drop_bit 16 all)) AND 0xff) = address_parity buf n 4 True"
    "word_parity (to_byte (x (\<lambda>j. \<not> bit j c))) = address_parity buf n (5 + c) False"
    "word_parity ((to_byte all XOR to_byte (x (\<lambda>j. \<not> bit j c))) AND 0xff) = address_parity buf n (5 + c) True"
proof -
  have low: "bits_with all k v = address_parity buf n k v" if "k < 5" for k v unfolding all_def x_def by (rule address_low [OF that])
  have col: "word_parity (to_byte all AND m) = address_parity buf n k v" if "k < 3" "m \<le> 0xff" "\<And>i. i < 8 \<Longrightarrow> bit m i = (bit i k = v)" for m k v
    using column_parity [OF that] low [of k v] that(1) by simp
  show "word_parity (to_byte all AND 0x55) = address_parity buf n 0 False" "word_parity (to_byte all AND 0xaa) = address_parity buf n 0 True"
    "word_parity (to_byte all AND 0x33) = address_parity buf n 1 False" "word_parity (to_byte all AND 0xcc) = address_parity buf n 1 True"
    "word_parity (to_byte all AND 0x0f) = address_parity buf n 2 False" "word_parity (to_byte all AND 0xf0) = address_parity buf n 2 True"
    by (rule col, simp, simp, erule column_masks)+
  show "word_parity ((all XOR drop_bit 16 all) AND 0xff) = address_parity buf n 3 False"
    "word_parity (drop_bit 8 (all XOR drop_bit 16 all) AND 0xff) = address_parity buf n 3 True"
    "word_parity (((all AND 0xffff) XOR drop_bit 8 (all AND 0xffff)) AND 0xff) = address_parity buf n 4 False"
    "word_parity ((drop_bit 16 all XOR drop_bit 8 (drop_bit 16 all)) AND 0xff) = address_parity buf n 4 True"
    by (simp_all only: row_parity low [of 3, simplified] low [of 4, simplified])
  have ev: "word_parity (x (\<lambda>j. \<not> bit j c)) = address_parity buf n (5 + c) False" using address_high [of buf n c False] by (simp add: x_def)
  then show "word_parity (to_byte (x (\<lambda>j. \<not> bit j c))) = address_parity buf n (5 + c) False" by (simp add: to_byte_parity)
  show "word_parity ((to_byte all XOR to_byte (x (\<lambda>j. \<not> bit j c))) AND 0xff) = address_parity buf n (5 + c) True"
    unfolding xor_byte_parity(2) [OF to_byte_parity(1) to_byte_parity(1)] to_byte_parity(2) ev
    using address_all [of buf n c] by (simp only: all_def x_def)
qed


lemma ecc_code:
  assumes "m = 1 \<or> m = 2"
  obtains code0 code1 code2 where "nand_calculate_ecc buf (of_nat (256 * m)) = Some [code0, code1, code2]"
    "\<And>k v. k < 3 \<Longrightarrow> bit code2 (2 * k + 2 + (if v then 1 else 0)) = (\<not> address_parity buf (64 * m) k v)"
    "\<And>k v. k < 4 \<Longrightarrow> bit code1 (2 * k + (if v then 1 else 0)) = (\<not> address_parity buf (64 * m) (3 + k) v)"
    "\<And>k v. k < 4 \<Longrightarrow> bit code0 (2 * k + (if v then 1 else 0)) = (\<not> address_parity buf (64 * m) (7 + k) v)"
    "\<And>v. bit code2 (if v then 1 else 0) = (m = 2 \<longrightarrow> \<not> address_parity buf (64 * m) 11 v)"
proof -
  define e where "e = ecc_loop (m = 2) (4 * m) buf"
  define x where "x = xors (word_at buf) (64 * m)"
  have n: "16 * (4 * m) = 64 * m" by simp
  have s: "par e = x (\<lambda>_. True)" "rp4 e = x (\<lambda>j. \<not> bit j 0)" "rp6 e = x (\<lambda>j. \<not> bit j 1)" "rp8 e = x (\<lambda>j. \<not> bit j 2)"
    "rp10 e = x (\<lambda>j. \<not> bit j 3)" "rp12 e = x (\<lambda>j. \<not> bit j 4)" "rp14 e = x (\<lambda>j. \<not> bit j 5)" "m = 2 \<Longrightarrow> rp16 e = x (\<lambda>j. \<not> bit j 6)"
    by (simp_all add: e_def ecc_loop_sums Let_def n x_def)
  have mult: "drop_bit 8 (of_nat (256 * m) :: u32) = of_nat m" "(of_nat m = (2 :: u32)) = (m = 2)" "unat (of_nat m :: u32) = m" "(of_nat m = (1 :: u32)) = (m = 1)"
    using assms by auto
  note cp = code_parities [where buf = buf and n = "64 * m", folded x_def]
  have p: "((par e XOR drop_bit 16 (par e)) XOR drop_bit 8 (par e XOR drop_bit 16 (par e))) AND 0xff = to_byte (par e)"
    by (simp only: to_byte_def Let_def)
  have bnd: "to_byte y AND m' \<le> 0xff" "to_byte y \<le> 0xff" "z AND 0xff \<le> (0xff :: u32)" for y z m'
  proof -
    show "to_byte y \<le> 0xff" by (rule to_byte_parity)
    show "to_byte y AND m' \<le> 0xff" using to_byte_parity(1) [of y] word_and_le2 [of "to_byte y" m'] by simp
  qed (rule low_byte)
  let ?p = "to_byte (par e)"
  let ?h = "drop_bit 16 (par e)" and ?l = "par e AND 0xffff" and ?s = "par e XOR drop_bit 16 (par e)"
  let ?odd = "\<lambda>r. (?p XOR to_byte r) AND 0xff"
  define code1 where "code1 = inv_at 7 (?odd (rp6 e)) OR inv_at 6 (to_byte (rp6 e)) OR inv_at 5 (?odd (rp4 e)) OR inv_at 4 (to_byte (rp4 e)) OR
    inv_at 3 ((?h XOR drop_bit 8 ?h) AND 0xff) OR inv_at 2 ((?l XOR drop_bit 8 ?l) AND 0xff) OR inv_at 1 (drop_bit 8 ?s AND 0xff) OR inv_at 0 (?s AND 0xff)"
  define code0 where "code0 = inv_at 7 (?odd (rp14 e)) OR inv_at 6 (to_byte (rp14 e)) OR inv_at 5 (?odd (rp12 e)) OR inv_at 4 (to_byte (rp12 e)) OR
    inv_at 3 (?odd (rp10 e)) OR inv_at 2 (to_byte (rp10 e)) OR inv_at 1 (?odd (rp8 e)) OR inv_at 0 (to_byte (rp8 e))"
  define cols where "cols = inv_at 7 (?p AND 0xf0) OR inv_at 6 (?p AND 0x0f) OR inv_at 5 (?p AND 0xcc) OR inv_at 4 (?p AND 0x33) OR
    inv_at 3 (?p AND 0xaa) OR inv_at 2 (?p AND 0x55)"
  define code2 where "code2 = (if m = 1 then cols OR 3 else cols OR inv_at 1 (?odd (rp16 e)) OR inv_at 0 (to_byte (rp16 e)))"
  have c: "nand_calculate_ecc buf (of_nat (256 * m)) = Some [code0, code1, code2]"
    using assms unfolding nand_calculate_ecc_def Let_def mult e_def [symmetric] p code0_def code1_def code2_def cols_def by auto
  note bits = bit_or_iff inv_at_bit bnd
  have k3: "k < 3 \<Longrightarrow> k = 0 \<or> k = 1 \<or> k = 2" and k4: "k < 4 \<Longrightarrow> k = 0 \<or> k = 1 \<or> k = 2 \<or> k = 3" for k :: nat by auto
  have cols: "bit cols (2 * k + 2 + (if v then 1 else 0)) = (\<not> address_parity buf (64 * m) k v)" if "k < 3" for k v
    using k3 [OF that] cp(1-6) unfolding cols_def s by (elim disjE; cases v) (simp_all add: bits)
  have l2: "bit (3 :: u8) (Suc (Suc i)) = False" "bit (3 :: u8) (Suc 0)" "bit (3 :: u8) 0" for i by (simp_all add: bit_Suc bit_0)
  show thesis
  proof (rule that [OF c])
    fix k v
    show "bit code1 (2 * k + (if v then 1 else 0)) = (\<not> address_parity buf (64 * m) (3 + k) v)" if "k < 4"
      using k4 [OF that] cp(7-10) cp(11,12) [of 0] cp(11,12) [of 1] unfolding code1_def s by (elim disjE; cases v) (simp_all add: bits)
    show "bit code0 (2 * k + (if v then 1 else 0)) = (\<not> address_parity buf (64 * m) (7 + k) v)" if "k < 4"
      using k4 [OF that] cp(11,12) [of 2] cp(11,12) [of 3] cp(11,12) [of 4] cp(11,12) [of 5] unfolding code0_def s
      by (elim disjE; cases v) (simp_all add: bits)
    show "bit code2 (2 * k + 2 + (if v then 1 else 0)) = (\<not> address_parity buf (64 * m) k v)" if "k < 3"
      using cols [OF that, of v] k3 [OF that] unfolding code2_def by (elim disjE; cases v) (simp_all add: bits l2)
    show "bit code2 (if v then 1 else 0) = (m = 2 \<longrightarrow> \<not> address_parity buf (64 * m) 11 v)"
      using assms cp(11,12) [of 6] s(8) unfolding code2_def cols_def by (elim disjE; cases v) (simp_all add: bits s(1) l2)
  qed
qed

lemma code_is_parity_check:
  assumes "m = 1 \<or> m = 2"
  obtains code where "nand_calculate_ecc buf (of_nat (256 * m)) = Some code" "length code = 3"
    "\<And>k v. k < 10 + m \<Longrightarrow> ecc_bit code k v = (\<not> address_parity buf (64 * m) k v)"
proof (rule ecc_code [OF assms])
  fix code0 code1 code2
  assume c: "nand_calculate_ecc buf (of_nat (256 * m)) = Some [code0, code1, code2]"
    and b2: "\<And>k v. k < 3 \<Longrightarrow> bit code2 (2 * k + 2 + (if v then 1 else 0)) = (\<not> address_parity buf (64 * m) k v)"
    and b1: "\<And>k v. k < 4 \<Longrightarrow> bit code1 (2 * k + (if v then 1 else 0)) = (\<not> address_parity buf (64 * m) (3 + k) v)"
    and b0: "\<And>k v. k < 4 \<Longrightarrow> bit code0 (2 * k + (if v then 1 else 0)) = (\<not> address_parity buf (64 * m) (7 + k) v)"
    and b3: "\<And>v. bit code2 (if v then 1 else 0) = (m = 2 \<longrightarrow> \<not> address_parity buf (64 * m) 11 v)"
  have "ecc_bit [code0, code1, code2] k v = (\<not> address_parity buf (64 * m) k v)" if k: "k < 10 + m" for k v
  proof -
    consider "k < 3" | "3 \<le> k \<and> k < 7" | "7 \<le> k \<and> k < 11" | "k = 11 \<and> m = 2" using k assms by linarith
    then show ?thesis
    proof cases
      case 1 then show ?thesis using b2 [of k v] by (simp only: ecc_bit_def Let_def if_True) simp
    next
      case 2
      then have l: "k - 3 < 4" by linarith
      then show ?thesis using 2 b1 [OF l, of v] by (simp add: ecc_bit_def Let_def)
    next
      case 3
      then have l: "k - 7 < 4" by linarith
      then show ?thesis using 3 b0 [OF l, of v] by (simp add: ecc_bit_def Let_def)
    next
      case 4 then show ?thesis using b3 [of v] by (simp add: ecc_bit_def Let_def)
    qed
  qed
  with c show thesis by (intro that [of "[code0, code1, code2]"]) simp_all
qed

section \<open>Errors\<close>

text \<open>The block with the bit at address \<open>a\<close> turned over.\<close>

definition flip_data :: "u8 list \<Rightarrow> nat \<Rightarrow> u8 list" where
  "flip_data buf a = buf[a div 8 := (buf ! (a div 8)) XOR push_bit (a mod 8) 1]"

lemma length_flip [simp]: "length (flip_data buf a) = length buf"
  by (simp add: flip_data_def)

lemma data_bit_flip: "a < 8 * length buf \<Longrightarrow> data_bit (flip_data buf a) i = (data_bit buf i \<noteq> (i = a))"
proof -
  assume "a < 8 * length buf"
  then have l: "a div 8 < length buf" by (simp add: less_mult_imp_div_less mult.commute)
  have "(i = a) = (i div 8 = a div 8 \<and> i mod 8 = a mod 8)" by (metis div_mult_mod_eq)
  then show ?thesis using l by (auto simp: data_bit_def flip_data_def nth_list_update bit_xor_iff bit_exp_iff)
qed

lemma address_bits_differ:
  assumes "a < (2 :: nat) ^ n" "b < 2 ^ n" "a \<noteq> b"
  shows "\<exists>k < n. bit a k \<noteq> bit b k"
proof (rule ccontr)
  assume "\<not> ?thesis"
  then have "take_bit n a = take_bit n b" by (intro bit_eqI) (auto simp: bit_take_bit_iff)
  then show False using assms by (simp add: take_bit_nat_eq_self)
qed

lemma parity_single: "parity n (\<lambda>i. i = a \<and> c) = (a < n \<and> c)"
  by (induction n) (auto simp: less_Suc_eq)

lemma address_parity_flip:
  assumes "a < 32 * n" "a < 8 * length buf"
  shows "address_parity (flip_data buf a) n k v = (address_parity buf n k v \<noteq> (bit a k = v))"
proof -
  have "address_parity (flip_data buf a) n k v = parity (32 * n) (\<lambda>i. (data_bit buf i \<and> bit i k = v) = (\<not> (i = a \<and> bit a k = v)))"
    unfolding address_parity_def by (rule parity_cong) (auto simp: data_bit_flip [OF assms(2)])
  also have "\<dots> = (address_parity buf n k v = (\<not> parity (32 * n) (\<lambda>i. i = a \<and> bit a k = v)))"
    unfolding address_parity_def by (rule parity_xor)
  finally show ?thesis using assms(1) by (simp add: parity_single)
qed

text \<open>
  For a block of 256 or 512 bytes the code has 3 bytes, and it is the parity check that the comment of the table describes: for each
  bit \<open>k\<close> of a bit address and each value \<open>v\<close> of it, one bit of the code is set exactly when an even number of the data bits whose
  address has \<open>v\<close> as its bit \<open>k\<close> are set.
\<close>

lemma ecc_is_parity_check:
  assumes "m = 1 \<or> m = 2" "length buf = 256 * m"
  shows "\<exists>code. nand_calculate_ecc buf (of_nat (256 * m)) = Some code \<and> length code = 3 \<and>
    (\<forall>k v. k < 10 + m \<longrightarrow> ecc_bit code k v = even (card {a. a < 8 * length buf \<and> data_bit buf a \<and> bit a k = v}))"
proof (rule code_is_parity_check [OF assms(1), of buf])
  fix code
  assume c: "nand_calculate_ecc buf (of_nat (256 * m)) = Some code" "length code = 3"
    and b: "\<And>k v. k < 10 + m \<Longrightarrow> ecc_bit code k v = (\<not> address_parity buf (64 * m) k v)"
  have "32 * (64 * m) = 8 * length buf" using assms(2) by simp
  note b = b [unfolded address_parity_def parity_card this]
  have "ecc_bit code k v = even (card {a. a < 8 * length buf \<and> data_bit buf a \<and> bit a k = v})" if "k < 10 + m" for k v
    unfolding b [OF that] by simp
  with c show ?thesis by blast
qed

text \<open>
  C29: the code finds an error.  When one bit of the block is turned over, the bits of the code that change spell its address: of the
  two bits for bit \<open>k\<close> of the address exactly the one for the value that the address has there.  When two bits are turned over the code
  changes as well, and in another way: both bits of a pair change or none, so no error of one bit looks like it.
\<close>

theorem ecc_locates_error:
  assumes "m = 1 \<or> m = 2" "length buf = 256 * m" "a < 8 * length buf" "b < 8 * length buf" "a \<noteq> b"
  shows "\<exists>code code1 code2. nand_calculate_ecc buf (of_nat (256 * m)) = Some code \<and>
    nand_calculate_ecc (flip_data buf a) (of_nat (256 * m)) = Some code1 \<and>
    nand_calculate_ecc (flip_data (flip_data buf a) b) (of_nat (256 * m)) = Some code2 \<and>
    (\<forall>k v. k < 10 + m \<longrightarrow> (ecc_bit code1 k v \<noteq> ecc_bit code k v) = (bit a k = v)) \<and>
    (\<forall>k v. k < 10 + m \<longrightarrow> (ecc_bit code2 k v \<noteq> ecc_bit code k v) = (bit a k \<noteq> bit b k)) \<and> code2 \<noteq> code"
proof -
  obtain code where c: "nand_calculate_ecc buf (of_nat (256 * m)) = Some code"
    and e: "\<And>k v. k < 10 + m \<Longrightarrow> ecc_bit code k v = (\<not> address_parity buf (64 * m) k v)"
    by (rule code_is_parity_check [OF assms(1), of buf]) blast
  obtain code1 where c1: "nand_calculate_ecc (flip_data buf a) (of_nat (256 * m)) = Some code1"
    and e1: "\<And>k v. k < 10 + m \<Longrightarrow> ecc_bit code1 k v = (\<not> address_parity (flip_data buf a) (64 * m) k v)"
    by (rule code_is_parity_check [OF assms(1), of "flip_data buf a"]) blast
  obtain code2 where c2: "nand_calculate_ecc (flip_data (flip_data buf a) b) (of_nat (256 * m)) = Some code2"
    and e2: "\<And>k v. k < 10 + m \<Longrightarrow> ecc_bit code2 k v = (\<not> address_parity (flip_data (flip_data buf a) b) (64 * m) k v)"
    by (rule code_is_parity_check [OF assms(1), of "flip_data (flip_data buf a) b"]) blast
  have r: "a < 32 * (64 * m)" "b < 32 * (64 * m)" using assms(2-4) by simp_all
  have one: "(ecc_bit code1 k v \<noteq> ecc_bit code k v) = (bit a k = v)" if "k < 10 + m" for k v
    unfolding e [OF that] e1 [OF that] address_parity_flip [OF r(1) assms(3)] by blast
  have two: "(ecc_bit code2 k v \<noteq> ecc_bit code k v) = (bit a k \<noteq> bit b k)" if "k < 10 + m" for k v
    unfolding e [OF that] e2 [OF that] using assms(4) by (auto simp: address_parity_flip [OF r(2)] address_parity_flip [OF r(1) assms(3)])
  have "a < 2 ^ (10 + m)" "b < 2 ^ (10 + m)" using assms(1-4) by auto
  then obtain k where "k < 10 + m" "bit a k \<noteq> bit b k" using address_bits_differ assms(5) by blast
  then have "code2 \<noteq> code" using two by blast
  then show ?thesis using c c1 c2 one two by blast
qed

theorem ecc_locates_error_witness:
  "\<exists>code code1 code2. nand_calculate_ecc (replicate 256 0) 0x100 = Some code \<and>
    nand_calculate_ecc (flip_data (replicate 256 0) 100) 0x100 = Some code1 \<and>
    nand_calculate_ecc (flip_data (flip_data (replicate 256 0) 100) 2000) 0x100 = Some code2 \<and>
    (\<forall>k v. k < 11 \<longrightarrow> (ecc_bit code1 k v \<noteq> ecc_bit code k v) = (bit (100 :: nat) k = v)) \<and>
    (\<forall>k v. k < 11 \<longrightarrow> (ecc_bit code2 k v \<noteq> ecc_bit code k v) = (bit (100 :: nat) k \<noteq> bit (2000 :: nat) k)) \<and> code2 \<noteq> code"
  using ecc_locates_error [of 1 "replicate 256 0" 100 2000] by simp

end
