(* ===== verification/CText.thy ===== *)
theory CText
  imports Prelude
begin

text \<open>
  What the tools use of the C library to read text: \<open>fscanf\<close> with \<open>%s\<close> and \<open>%li\<close>, \<open>atoi\<close> and \<open>strtoul\<close>.  Text is a list
  of characters, without the zero that ends it; \<open>long\<close> has 64 bits.
\<close>

section \<open>Words and digits\<close>

text \<open>A number too large for a \<open>long\<close> becomes the nearest one.\<close>

definition white :: "char \<Rightarrow> bool" where
  "white c = (c = CHR '' '' \<or> (9 \<le> (of_char c :: nat) \<and> (of_char c :: nat) \<le> 13))"

definition scan_word :: "string \<Rightarrow> (string \<times> string) option" where
  "scan_word s =
     (let s = dropWhile white s; w = takeWhile (\<lambda>c. \<not> white c) s in if w = [] then None else Some (w, drop (length w) s))"

definition digit_of :: "char \<Rightarrow> int" where
  "digit_of c =
     (let n = int (of_char c) in
      if 48 \<le> n \<and> n \<le> 57 then n - 48 else if 97 \<le> n \<and> n \<le> 122 then n - 87 else if 65 \<le> n \<and> n \<le> 90 then n - 55 else 99)"

definition read_digits :: "int \<Rightarrow> string \<Rightarrow> (int \<times> string) option" where
  "read_digits b s =
     (let ds = takeWhile (\<lambda>c. digit_of c < b) s
      in if ds = [] then None else Some (foldl (\<lambda>n c. n * b + digit_of c) 0 ds, drop (length ds) s))"

definition clamp_long :: "int \<Rightarrow> int" where
  "clamp_long n = max (- (2 ^ 63)) (min n (2 ^ 63 - 1))"

definition scan_long :: "string \<Rightarrow> (int \<times> string) option" where
  "scan_long s =
     (let s = dropWhile white s; neg = s \<noteq> [] \<and> hd s = CHR ''-'';
          s = (if s \<noteq> [] \<and> (hd s = CHR ''-'' \<or> hd s = CHR ''+'') then tl s else s)
      in map_option (\<lambda>(n, r). (clamp_long (if neg then - n else n), r))
           (if s \<noteq> [] \<and> hd s = CHR ''0'' then
              (if tl s \<noteq> [] \<and> (hd (tl s) = CHR ''x'' \<or> hd (tl s) = CHR ''X'') then read_digits 16 (tl (tl s)) else read_digits 8 s)
            else read_digits 10 s))"

lemma scan_word_shorter: "scan_word s = Some (w, r) \<Longrightarrow> length r < length s"
  by (auto simp: scan_word_def Let_def split: if_splits) (metis add_lessD1 diff_less length_dropWhile_le length_greater_0_conv less_le_trans list.size(3) takeWhile.simps(1))

lemma read_digits_shorter: "read_digits b s = Some (n, r) \<Longrightarrow> length r \<le> length s"
  by (auto simp: read_digits_def Let_def split: if_splits)

lemma scan_long_shorter: "scan_long s = Some (n, r) \<Longrightarrow> length r \<le> length s"
proof -
  have l: "length (dropWhile white s) \<le> length s" "length (tl t) \<le> length t" for t :: string by (simp_all add: length_dropWhile_le)
  assume "scan_long s = Some (n, r)"
  then show ?thesis
    using order_trans [OF _ l(1)] l(2) order_trans [OF l(2) l(2)]
    by (auto simp: scan_long_def Let_def split: if_splits dest!: read_digits_shorter)
qed

section \<open>Numbers\<close>

definition int_of_long :: "int \<Rightarrow> int" where
  "int_of_long n = sint (word_of_int n :: u32)"

definition atoi :: "string \<Rightarrow> int" where
  "atoi s =
     (let s = dropWhile white s; neg = s \<noteq> [] \<and> hd s = CHR ''-'';
          s = (if s \<noteq> [] \<and> (hd s = CHR ''-'' \<or> hd s = CHR ''+'') then tl s else s);
          n = (case read_digits 10 s of None \<Rightarrow> 0 | Some (n, _) \<Rightarrow> n)
      in int_of_long (clamp_long (if neg then - n else n)))"

text \<open>\<open>strtoul\<close> with base 10, and where it stops; a sign is allowed, and without a digit it stops where it began.\<close>

definition strtoul :: "string \<Rightarrow> u64 \<times> string" where
  "strtoul text0 =
     (let s = dropWhile white text0; neg = s \<noteq> [] \<and> hd s = CHR ''-'';
          s = (if s \<noteq> [] \<and> (hd s = CHR ''-'' \<or> hd s = CHR ''+'') then tl s else s)
      in case read_digits 10 s of None \<Rightarrow> (0, text0)
         | Some (n, r) \<Rightarrow> (if 2 ^ 64 \<le> n then - 1 else if neg then - word_of_int n else word_of_int n, r))"

end
