(* ===== verification/FlashImg.thy ===== *)
theory FlashImg
  imports Nand CText "HOL-Library.Signed_Division"
begin

text \<open>
  The program \<open>flashimg-0.1/main.c\<close>: it puts files into the partitions of a flash image and takes them out again.  The files
  that it opens are a map from names to contents, and the image in memory is a list of bytes.  \<open>long\<close> has 64 bits.  The text that it
  prints is left out.
\<close>

section \<open>State\<close>

datatype flash_kind = FLASH_TYPE_NAND | FLASH_TYPE_NOR

record partion =
  part_name :: string
  part_off :: int
  part_len :: int

record action =
  act_part :: string
  act_file :: string
  act_action :: char

text \<open>The program stops with \<open>EXIT_FAILURE\<close>, or it does what C leaves undefined: an access outside an array, a null pointer.\<close>

datatype flash_stop = Exit_failure | Undefined

text \<open>The files, and the names under which a file can be created.\<close>

record flash_disk =
  file_of :: "string \<Rightarrow> u8 list option"
  can_create :: "string \<Rightarrow> bool"

abbreviation attempt :: "bool \<Rightarrow> flash_stop \<Rightarrow> flash_stop + unit" where
  "attempt c stop \<equiv> (if c then Inr () else Inl stop)"

definition andThen :: "flash_stop + 'a \<Rightarrow> ('a \<Rightarrow> flash_stop + 'b) \<Rightarrow> flash_stop + 'b" where
  "andThen m f = (case m of Inl stop \<Rightarrow> Inl stop | Inr a \<Rightarrow> f a)"

lemma andThen_simps [simp]: "andThen (Inl stop) f = Inl stop" "andThen (Inr a) f = f a"
  by (simp_all add: andThen_def)

lemma andThen_Inr: "(andThen m f = Inr b) = (\<exists>a. m = Inr a \<and> f a = Inr b)"
  by (cases m) simp_all

text \<open>\<open>memcpy\<close> and \<open>memset\<close> into the image, and a read of it, at an address relative to its start.\<close>

definition img_put :: "u8 list \<Rightarrow> int \<Rightarrow> u8 list \<Rightarrow> flash_stop + u8 list" where
  "img_put img off bs =
     (if 0 \<le> off \<and> off + int (length bs) \<le> int (length img) then Inr (splice_at img (nat off) bs) else Inl Undefined)"

definition img_set :: "u8 list \<Rightarrow> int \<Rightarrow> u8 \<Rightarrow> int \<Rightarrow> flash_stop + u8 list" where
  "img_set img off b n = (if 0 \<le> n \<and> n \<le> int (length img) then img_put img off (replicate (nat n) b) else Inl Undefined)"

definition img_get :: "u8 list \<Rightarrow> int \<Rightarrow> nat \<Rightarrow> flash_stop + u8 list" where
  "img_get img off n = (if 0 \<le> off \<and> off + int n \<le> int (length img) then Inr (slice_at img (nat off) n) else Inl Undefined)"

section \<open>The out-of-band bytes\<close>

definition oob :: "u8 list \<Rightarrow> u8 list option" where
  "oob buf =
     (let check = replicate 16 0xff in
      case nand_calculate_ecc buf 256 of None \<Rightarrow> None
      | Some code \<Rightarrow>
          (let check = check[0 := code ! 0, 1 := code ! 1, 2 := code ! 2] in
           case nand_calculate_ecc (drop 256 buf) 256 of None \<Rightarrow> None
           | Some code \<Rightarrow> Some (check[3 := code ! 0, 6 := code ! 1, 7 := code ! 2])))"

section \<open>The partition table\<close>

text \<open>The table has 32 places and a name 64 bytes; what does not fit is written outside of them.\<close>

function partition_lines :: "nat \<Rightarrow> string \<Rightarrow> flash_stop + partion list" where
  "partition_lines idx s =
     (case scan_word s of None \<Rightarrow> Inr []
      | Some (name, r1) \<Rightarrow>
          if 64 \<le> length name then Inl Undefined
          else (case scan_long r1 of None \<Rightarrow> Inr []
            | Some (len, r2) \<Rightarrow> (case scan_long r2 of None \<Rightarrow> Inr []
              | Some (off, r3) \<Rightarrow>
                  if 32 \<le> idx then Inl Undefined
                  else if r3 = [] then Inr [\<lparr>part_name = name, part_off = off, part_len = len\<rparr>]
                  else andThen (partition_lines (idx + 1) r3) (\<lambda>ps. Inr (\<lparr>part_name = name, part_off = off, part_len = len\<rparr> # ps)))))"
  by pat_completeness auto


termination
  by (relation "measure (length \<circ> snd)") (auto dest!: scan_word_shorter scan_long_shorter)

text \<open>A second table takes the place of the first; \<open>nb_part\<close> is its length.\<close>

definition partition_file :: "flash_disk \<Rightarrow> string \<Rightarrow> flash_stop + partion list" where
  "partition_file d filename =
     (case file_of d filename of None \<Rightarrow> Inl Exit_failure | Some bs \<Rightarrow> partition_lines 0 (map (\<lambda>b. char_of (unat b)) bs))"

section \<open>Reading and writing a partition\<close>

definition find_part :: "partion list \<Rightarrow> string \<Rightarrow> partion option" where
  "find_part tab name = find (\<lambda>p. part_name p = name) tab"

text \<open>The place of an offset of the data in the image: with NAND each 512 bytes are followed by 16 out-of-band bytes.\<close>

definition real_off :: "flash_kind \<Rightarrow> int \<Rightarrow> int" where
  "real_off t off = (if t = FLASH_TYPE_NAND then off + (off sdiv 512) * 16 else off)"

definition block_count :: "partion \<Rightarrow> int" where
  "block_count p = int_of_long ((part_len p + 511) sdiv 512)"

fun read_blocks :: "flash_kind \<Rightarrow> u8 list \<Rightarrow> int \<Rightarrow> nat \<Rightarrow> flash_stop + u8 list" where
  "read_blocks t img off 0 = Inr []"
| "read_blocks t img off (Suc nb) =
     andThen (img_get img off 512) (\<lambda>buf.
     andThen (read_blocks t img (off + 512 + (if t = FLASH_TYPE_NAND then 16 else 0)) nb) (\<lambda>bs. Inr (buf @ bs)))"

text \<open>A negative count does not end the loop before the image does.\<close>

definition partition_read :: "partion list \<Rightarrow> flash_kind \<Rightarrow> u8 list \<Rightarrow> string \<Rightarrow> string \<Rightarrow> flash_disk \<Rightarrow> flash_stop + flash_disk" where
  "partition_read tab t img name filename d =
     (case find_part tab name of None \<Rightarrow> Inr d
      | Some p \<Rightarrow>
          andThen (attempt (can_create d filename) Exit_failure) (\<lambda>_.
          andThen (if block_count p < 0 then Inl Undefined else read_blocks t img (real_off t (part_off p)) (nat (block_count p))) (\<lambda>bs.
          Inr (d\<lparr>file_of := (file_of d)(filename \<mapsto> bs)\<rparr>))))"

definition magic :: "u8 list" where
  "magic = [0x45, 0x4E, 0x56, 0x30]"

definition write_oob :: "flash_kind \<Rightarrow> u8 list \<Rightarrow> u8 list \<Rightarrow> int \<Rightarrow> flash_stop + (u8 list \<times> int)" where
  "write_oob t img buf off =
     (if t = FLASH_TYPE_NAND then
        (case oob buf of None \<Rightarrow> Inl Undefined
         | Some oob_buf \<Rightarrow>
             andThen (img_put img off oob_buf) (\<lambda>img.
             andThen (if off = 512 then img_put img (off + 12) magic else Inr img) (\<lambda>img.
             Inr (img, off + 16))))
      else Inr (img, off))"

function write_blocks :: "flash_kind \<Rightarrow> u8 list \<Rightarrow> int \<Rightarrow> int \<Rightarrow> u8 list \<Rightarrow> flash_stop + u8 list" where
  "write_blocks t img off nb data =
     (let ret = length (take 512 data); buf = take 512 data @ replicate (512 - ret) 0
      in if ret = 0 then Inr img
         else andThen (img_put img off buf) (\<lambda>img.
              andThen (write_oob t img buf (off + 512)) (\<lambda>(img, off).
              if ret \<noteq> 512 then Inr img
              else if nb = 0 then Inl Exit_failure
              else write_blocks t img off (nb - 1) (drop 512 data))))"
  by pat_completeness auto

termination
  by (relation "measure (\<lambda>(t, img, off, nb, data). length data)") auto

definition partition_write :: "partion list \<Rightarrow> flash_kind \<Rightarrow> u8 list \<Rightarrow> string \<Rightarrow> string \<Rightarrow> flash_disk \<Rightarrow> flash_stop + u8 list" where
  "partition_write tab t img name filename d =
     (case find_part tab name of None \<Rightarrow> Inr img
      | Some p \<Rightarrow>
          andThen (if t = FLASH_TYPE_NAND then img_set img (real_off t (part_off p)) 0xff (part_len p) else Inr img) (\<lambda>img.
          (case file_of d filename of None \<Rightarrow> Inl Exit_failure
           | Some data \<Rightarrow> write_blocks t img (real_off t (part_off p)) (block_count p) data)))"

section \<open>The options\<close>

record flash_args =
  img_size :: u64
  img_name :: "string option"
  act_tab :: "action list"
  part_tab :: "partion list"
  flash_type :: flash_kind

definition no_args :: flash_args where
  "no_args = \<lparr>img_size = 0, img_name = None, act_tab = [], part_tab = [], flash_type = FLASH_TYPE_NAND\<rparr>"

definition size_option :: "string \<Rightarrow> flash_stop + u64" where
  "size_option optarg =
     (if optarg = [] then Inl Undefined
      else let n = word_of_int (atoi optarg); suffix = last optarg
        in Inr (if suffix \<in> {CHR ''K'', CHR ''k''} then n * 1024
                else if suffix \<in> {CHR ''M'', CHR ''m''} then n * (1024 * 1024)
                else if suffix \<in> {CHR ''G'', CHR ''g''} then n * (1024 * 1024 * 1024) else n))"

definition add_action :: "char \<Rightarrow> string \<Rightarrow> action list \<Rightarrow> flash_stop + action list" where
  "add_action opt optarg acts =
     (if CHR '','' \<notin> set optarg \<or> 32 \<le> length acts then Inl Undefined
      else Inr (acts @ [\<lparr>act_part = takeWhile (\<lambda>c. c \<noteq> CHR '','') optarg,
        act_file = tl (dropWhile (\<lambda>c. c \<noteq> CHR '','') optarg), act_action = opt\<rparr>]))"

text \<open>One option that \<open>getopt\<close> returns, with its argument.\<close>

definition flash_option :: "flash_disk \<Rightarrow> char \<Rightarrow> string \<Rightarrow> flash_args \<Rightarrow> flash_stop + flash_args" where
  "flash_option d opt optarg a =
     (if opt = CHR ''s'' then
        andThen (size_option optarg) (\<lambda>n.
        andThen (attempt (\<not> (flash_type a = FLASH_TYPE_NAND \<and> n mod (512 + 16) \<noteq> 0)) Exit_failure) (\<lambda>_.
        Inr (a\<lparr>img_size := n\<rparr>)))
      else if opt = CHR ''f'' then Inr (a\<lparr>img_name := Some optarg\<rparr>)
      else if opt = CHR ''w'' \<or> opt = CHR ''r'' then
        andThen (add_action opt optarg (act_tab a)) (\<lambda>acts. Inr (a\<lparr>act_tab := acts\<rparr>))
      else if opt = CHR ''p'' then andThen (partition_file d optarg) (\<lambda>tab. Inr (a\<lparr>part_tab := tab\<rparr>))
      else if opt = CHR ''t'' then
        Inr (a\<lparr>flash_type := (if optarg = ''nand'' then FLASH_TYPE_NAND else if optarg = ''nor'' then FLASH_TYPE_NOR else flash_type a)\<rparr>)
      else Inl Exit_failure)"

fun flash_options :: "flash_disk \<Rightarrow> (char \<times> string) list \<Rightarrow> flash_args \<Rightarrow> flash_stop + flash_args" where
  "flash_options d [] a = Inr a"
| "flash_options d ((opt, optarg) # opts) a = andThen (flash_option d opt optarg a) (flash_options d opts)"

section \<open>The program\<close>

fun flash_actions :: "flash_args \<Rightarrow> action list \<Rightarrow> u8 list \<Rightarrow> flash_disk \<Rightarrow> flash_disk \<times> (flash_stop + u8 list)" where
  "flash_actions a [] img d = (d, Inr img)"
| "flash_actions a (act # acts) img d =
     (if act_action act = CHR ''w'' then
        (case partition_write (part_tab a) (flash_type a) img (act_part act) (act_file act) d of
           Inl stop \<Rightarrow> (d, Inl stop)
         | Inr img \<Rightarrow> flash_actions a acts img d)
      else
        (case partition_read (part_tab a) (flash_type a) img (act_part act) (act_file act) d of
           Inl stop \<Rightarrow> (d, Inl stop)
         | Inr d \<Rightarrow> flash_actions a acts img d))"

text \<open>
  The image file is created if it is missing, read, emptied, and written when the actions are done.  The result is the files
  and how the program ended.  That the image file can be opened and that \<open>malloc\<close> succeeds is assumed.
\<close>

definition flash_main :: "(char \<times> string) list \<Rightarrow> flash_disk \<Rightarrow> flash_disk \<times> (flash_stop + unit)" where
  "flash_main opts d =
     (case flash_options d opts no_args of Inl stop \<Rightarrow> (d, Inl stop)
      | Inr a \<Rightarrow>
          (case img_name a of None \<Rightarrow> (d, Inl Exit_failure)
           | Some filename \<Rightarrow>
               (let old = (case file_of d filename of None \<Rightarrow> [] | Some bs \<Rightarrow> bs);
                    d = d\<lparr>file_of := (file_of d)(filename \<mapsto> old)\<rparr>;
                    n = (if img_size a = 0 then length old else unat (img_size a))
                in if n = 0 then (d, Inl Exit_failure)
                   else let img = take n old @ replicate (n - length old) 0xff;
                            d = d\<lparr>file_of := (file_of d)(filename \<mapsto> [])\<rparr>
                     in case flash_actions a (act_tab a) img d of
                          (d, Inl stop) \<Rightarrow> (d, Inl stop)
                        | (d, Inr img) \<Rightarrow> (d\<lparr>file_of := (file_of d)(filename \<mapsto> img)\<rparr>, Inr ()))))"

end
