(* ===== verification/FlashProps.thy ===== *)
theory FlashProps
  imports FlashImg NandProps
begin

text \<open>
  What the actions of \<open>flashimg\<close> do to an image: a file is laid out in cells, a block of 512 bytes and with NAND its 16 out-of-band
  bytes, and is read back from them.
\<close>

section \<open>Cells\<close>

lemma oob_total:
  assumes "length buf = 512"
  obtains check where "oob buf = Some check" "length check = 16"
proof -
  have "\<exists>c. nand_calculate_ecc b 256 = Some c" for b
    using code_is_parity_check [of 1 b "\<exists>c. nand_calculate_ecc b 256 = Some c"] by simp
  then obtain c1 c2 where "nand_calculate_ecc buf 256 = Some c1" "nand_calculate_ecc (drop 256 buf) 256 = Some c2" by blast
  then show thesis by (intro that, simp add: oob_def Let_def) simp
qed

definition spare :: "nat \<Rightarrow> u8 list \<Rightarrow> u8 list" where
  "spare at buf = (if at = 0 then splice_at (the (oob buf)) 12 magic else the (oob buf))"

definition cell_size :: "flash_kind \<Rightarrow> nat" where
  "cell_size t = (if t = FLASH_TYPE_NAND then 528 else 512)"

definition cell :: "flash_kind \<Rightarrow> nat \<Rightarrow> u8 list \<Rightarrow> u8 list" where
  "cell t at buf = (if t = FLASH_TYPE_NAND then buf @ spare at buf else buf)"

lemma length_cell: "length buf = 512 \<Longrightarrow> length (cell t at buf) = cell_size t"
  by (rule oob_total [of buf]) (auto simp: cell_def cell_size_def spare_def magic_def)

text \<open>The block that is written for what \<open>fread\<close> delivers, and the cells of a file.\<close>

definition padded :: "u8 list \<Rightarrow> u8 list" where
  "padded data = take 512 data @ replicate (512 - length data) 0"

lemma length_padded [simp]: "length (padded data) = 512"
  by (simp add: padded_def)

definition file_blocks :: "u8 list \<Rightarrow> nat" where
  "file_blocks data = (length data + 511) div 512"

function cells :: "flash_kind \<Rightarrow> nat \<Rightarrow> u8 list \<Rightarrow> u8 list" where
  "cells t at data = (if data = [] then [] else cell t at (padded data) @ cells t (at + cell_size t) (drop 512 data))"
  by pat_completeness auto

termination
  by (relation "measure (\<lambda>(t, at, data). length data)") auto

declare cells.simps [simp del]
declare write_blocks.simps [simp del]

lemma file_blocks_drop: "data \<noteq> [] \<Longrightarrow> file_blocks data = Suc (file_blocks (drop 512 data))"
proof -
  assume "data \<noteq> []"
  then consider "length data + 511 = (length data - 512 + 511) + 512" "data \<noteq> []" | "length data < 512" "0 < length data" by (cases "length data < 512") auto
  then show ?thesis by cases (simp_all add: file_blocks_def div_if)
qed

lemma length_cells: "length (cells t at data) = cell_size t * file_blocks data"
proof (induction t at data rule: cells.induct)
  case (1 t at data)
  show ?case
  proof (cases "data = []")
    case True
    then show ?thesis by (simp add: cells.simps file_blocks_def)
  next
    case False
    then show ?thesis using 1 by (subst cells.simps) (simp add: length_cell file_blocks_drop [OF False])
  qed
qed

section \<open>Writing\<close>

lemma splice_nothing [simp]: "splice_at xs i [] = xs"
  by (simp add: splice_at_def)

lemma splice_splice_next:
  assumes "i + length ys + length zs \<le> length xs"
  shows "splice_at (splice_at xs i ys) (i + length ys) zs = splice_at xs i (ys @ zs)"
  using assms by (simp add: splice_at_def ac_simps)

lemma splice_splice_inside:
  assumes "i + length ys \<le> length xs" "k + length zs \<le> length ys"
  shows "splice_at (splice_at xs i ys) (i + k) zs = splice_at xs i (splice_at ys k zs)"
  using assms by (simp add: splice_at_def add.assoc)

lemma img_put_inside: "at + length bs \<le> length img \<Longrightarrow> img_put img (int at) bs = Inr (splice_at img at bs)"
  by (simp add: img_put_def)

lemma write_cell:
  assumes "length buf = 512" "at + cell_size t \<le> length img"
  shows "andThen (img_put img (int at) buf) (\<lambda>img. write_oob t img buf (int at + 512)) =
    Inr (splice_at img at (cell t at buf), int (at + cell_size t))"
proof (cases "t = FLASH_TYPE_NAND")
  case True
  obtain check where c: "oob buf = Some check" "length check = 16" by (rule oob_total [OF assms(1)])
  have l: "at + 528 \<le> length img" using assms(2) True by (simp add: cell_size_def)
  have p: "img_put img (int at) buf = Inr (splice_at img at buf)" using l assms(1) by (simp add: img_put_inside)
  have q: "img_put (splice_at img at buf) (int at + 512) check = Inr (splice_at img at (buf @ check))"
    using img_put_inside [of "at + 512" check "splice_at img at buf"] splice_splice_next [of at buf check img] l assms(1) c(2) by simp
  have m: "img_put (splice_at img at (buf @ check)) (int at + 524) magic = Inr (splice_at img at (buf @ splice_at check 12 magic))"
    using img_put_inside [of "at + 524" magic "splice_at img at (buf @ check)"] splice_splice_inside [of at "buf @ check" img 524 magic] l assms(1) c(2)
    by (simp add: magic_def splice_at_def)
  show ?thesis using True m by (auto simp: p write_oob_def c(1) q cell_def spare_def cell_size_def)
next
  case False
  then show ?thesis using assms by (simp add: img_put_inside write_oob_def cell_def cell_size_def)
qed

lemma write_blocks_step:
  assumes "data \<noteq> []" "at + cell_size t \<le> length img"
  shows "write_blocks t img (int at) nb data =
    (if length data < 512 then Inr (splice_at img at (cell t at (padded data))) else if nb = 0 then Inl Exit_failure
     else write_blocks t (splice_at img at (cell t at (padded data))) (int (at + cell_size t)) (nb - 1) (drop 512 data))"
proof -
  let ?img = "splice_at img at (cell t at (padded data))"
  have "andThen (img_put img (int at) (padded data)) (\<lambda>img. write_oob t img (padded data) (int at + 512)) = Inr (?img, int (at + cell_size t))"
    using assms(2) by (intro write_cell) simp_all
  then obtain i1 where i1: "img_put img (int at) (padded data) = Inr i1"
      "write_oob t i1 (padded data) (int at + 512) = Inr (?img, int (at + cell_size t))"
    by (auto simp: andThen_Inr)
  have pad: "take 512 data @ replicate (512 - length (take 512 data)) 0 = padded data" by (simp add: padded_def)
  have l512: "(length (take 512 data) = 512) = (\<not> length data < 512)" by (auto simp: min_def)
  show ?thesis using assms(1) by (subst write_blocks.simps) (simp add: Let_def pad i1 l512 del: length_take)
qed

lemma write_blocks_image:
  assumes "at + cell_size t * file_blocks data \<le> length img" "nb < 0 \<or> int (length data div 512) \<le> nb"
  shows "write_blocks t img (int at) nb data = Inr (splice_at img at (cells t at data))"
  using assms
proof (induction t at data arbitrary: img nb rule: cells.induct)
  case (1 t at data)
  show ?case
  proof (cases "data = []")
    case True
    then show ?thesis by (simp add: write_blocks.simps cells.simps splice_at_def)
  next
    case False
    let ?img = "splice_at img at (cell t at (padded data))"
    have fb: "file_blocks data = Suc (file_blocks (drop 512 data))" by (rule file_blocks_drop [OF False])
    have l: "at + cell_size t + cell_size t * file_blocks (drop 512 data) \<le> length img" using 1(2) by (simp add: fb)
    have len: "length ?img = length img" using l by (simp add: length_cell)
    have eq: "write_blocks t img (int at) nb data = (if length data < 512 then Inr ?img else if nb = 0 then Inl Exit_failure
        else write_blocks t ?img (int (at + cell_size t)) (nb - 1) (drop 512 data))"
      using l False by (intro write_blocks_step) simp_all
    have c: "splice_at ?img (at + cell_size t) (cells t (at + cell_size t) (drop 512 data)) = splice_at img at (cells t at data)"
      using splice_splice_next [of at "cell t at (padded data)" "cells t (at + cell_size t) (drop 512 data)" img] l False
      by (subst (2) cells.simps) (simp add: length_cell length_cells)
    show ?thesis
    proof (cases "length data < 512")
      case True
      then have d: "drop 512 data = []" by simp
      show ?thesis using c True unfolding eq by (simp add: cells.simps [of t _ "[]"] d)
    next
      case lng: False
      then have "length data div 512 = Suc ((length data - 512) div 512)" by (simp add: le_div_geq)
      then have "nb \<noteq> 0" "nb - 1 < 0 \<or> int (length (drop 512 data) div 512) \<le> nb - 1" using 1(3) by auto
      then have "write_blocks t ?img (int (at + cell_size t)) (nb - 1) (drop 512 data) =
          Inr (splice_at ?img (at + cell_size t) (cells t (at + cell_size t) (drop 512 data)))"
        using l False len by (intro 1(1)) simp_all
      then show ?thesis using c lng \<open>nb \<noteq> 0\<close> unfolding eq by simp
    qed
  qed
qed

section \<open>Reading\<close>

lemma img_get_middle: "length buf = n \<Longrightarrow> img_get (pre @ buf @ post) (int (length pre)) n = Inr buf"
  by (simp add: img_get_def slice_at_def)

lemma cell_data: "\<exists>s. cell t at buf = buf @ s"
  by (cases "t = FLASH_TYPE_NAND") (simp_all add: cell_def)

text \<open>The data of the blocks of a file.\<close>

definition block_data :: "u8 list \<Rightarrow> u8 list" where
  "block_data data = data @ replicate (512 * file_blocks data - length data) 0"

lemma block_data_Cons: "data \<noteq> [] \<Longrightarrow> block_data data = padded data @ block_data (drop 512 data)"
proof (cases "length data < 512")
  case True
  assume "data \<noteq> []"
  then show ?thesis using True file_blocks_drop [of data] by (simp add: block_data_def padded_def file_blocks_def)
next
  case False
  assume "data \<noteq> []"
  from file_blocks_drop [OF this] have "512 * file_blocks data - length data = 512 * file_blocks (drop 512 data) - (length data - 512)" using False by simp
  moreover have "data @ r = take 512 data @ drop 512 data @ r" for r by (metis append.assoc append_take_drop_id)
  ultimately show ?thesis using False by (simp add: block_data_def padded_def)
qed

lemma length_block_data: "length (block_data data) = 512 * file_blocks data"
  by (auto simp: block_data_def file_blocks_def)

lemma cell_step: "int at + 512 + (if t = FLASH_TYPE_NAND then 16 else 0) = int (at + cell_size t)"
  by (simp add: cell_size_def)

lemma read_cells:
  assumes "length pre = at"
  shows "read_blocks t (pre @ cells t at data @ post) (int at) (file_blocks data + n) =
    andThen (read_blocks t (pre @ cells t at data @ post) (int (at + cell_size t * file_blocks data)) n) (\<lambda>bs. Inr (block_data data @ bs))"
  using assms
proof (induction t at data arbitrary: pre rule: cells.induct)
  case (1 t at data)
  show ?case
  proof (cases "data = []")
    case True
    then show ?thesis
      by (cases "read_blocks t (pre @ post) (int at) n") (simp_all add: cells.simps block_data_def file_blocks_def)
  next
    case False
    let ?c = "cell t at (padded data)" and ?rest = "cells t (at + cell_size t) (drop 512 data)"
    obtain s where s: "?c = padded data @ s" using cell_data by blast
    have img: "pre @ cells t at data @ post = pre @ padded data @ s @ ?rest @ post"
      "pre @ cells t at data @ post = (pre @ ?c) @ ?rest @ post"
      using False s by (simp_all add: cells.simps [of t at data])
    have get: "img_get (pre @ cells t at data @ post) (int at) 512 = Inr (padded data)"
      using 1(2) img_get_middle [of "padded data" 512 pre "s @ ?rest @ post"] unfolding img(1) by simp
    have "length (pre @ ?c) = at + cell_size t" using 1(2) by (simp add: length_cell)
    note ih = 1(1) [OF False this, folded img(2)]
    have e: "at + cell_size t + cell_size t * file_blocks (drop 512 data) = at + cell_size t * file_blocks data"
      by (simp add: file_blocks_drop [OF False])
    have n: "file_blocks data + n = Suc (file_blocks (drop 512 data) + n)" by (simp add: file_blocks_drop [OF False])
    show ?thesis unfolding n read_blocks.simps get andThen_simps cell_step ih e block_data_Cons [OF False]
      by (cases "read_blocks t (pre @ cells t at data @ post) (int (at + cell_size t * file_blocks data)) n") simp_all
  qed
qed

lemma read_blocks_length: "at + cell_size t * n \<le> length img \<Longrightarrow> \<exists>bs. read_blocks t img (int at) n = Inr bs \<and> length bs = 512 * n"
proof (induction n arbitrary: at)
  case (Suc n)
  have "img_get img (int at) 512 = Inr (slice_at img at 512)" "length (slice_at img at 512) = 512"
    using Suc(2) by (auto simp: img_get_def cell_size_def split: if_splits)
  moreover obtain bs where "read_blocks t img (int (at + cell_size t)) n = Inr bs" "length bs = 512 * n"
    using Suc(1) [of "at + cell_size t"] Suc(2) by auto
  ultimately show ?case by (simp only: read_blocks.simps cell_step andThen_simps) simp
qed simp

section \<open>A partition\<close>

text \<open>A partition of whole blocks, and its place in the image.\<close>

definition in_blocks :: "partion \<Rightarrow> nat \<Rightarrow> nat \<Rightarrow> bool" where
  "in_blocks p k n \<longleftrightarrow> part_off p = int (512 * k) \<and> part_len p = int (512 * n) \<and> n < 2 ^ 31"

lemma partition_place:
  assumes "in_blocks p k n"
  shows "real_off t (part_off p) = int (cell_size t * k)" "block_count p = int n"
proof -
  show "real_off t (part_off p) = int (cell_size t * k)"
    using assms by (simp add: in_blocks_def real_off_def cell_size_def signed_divide_int_def sgn_if abs_if)
  have "(part_len p + 511) sdiv 512 = int n"
    using assms by (simp add: in_blocks_def signed_divide_int_def sgn_if abs_if)
  moreover have "sint (word_of_int (int n) :: u32) = int n"
    unfolding sint_sbintrunc' using assms by (intro signed_take_bit_int_eq_self) (simp_all add: in_blocks_def)
  ultimately show "block_count p = int n" by (simp add: block_count_def int_of_long_def)
qed

definition erased :: "flash_kind \<Rightarrow> u8 list \<Rightarrow> nat \<Rightarrow> nat \<Rightarrow> u8 list" where
  "erased t img at n = (if t = FLASH_TYPE_NAND then splice_at img at (replicate (512 * n) 0xff) else img)"

lemma length_erased: "at + cell_size t * n \<le> length img \<Longrightarrow> length (erased t img at n) = length img"
  by (cases "t = FLASH_TYPE_NAND") (simp_all add: erased_def cell_size_def)

lemma partition_write_erased:
  assumes "find_part tab name = Some p" "in_blocks p k n" "cell_size t * (k + n) \<le> length img" "file_of d filename = Some data"
  shows "partition_write tab t img name filename d =
    write_blocks t (erased t img (cell_size t * k) n) (int (cell_size t * k)) (int n) data"
proof -
  have "img_set img (int (cell_size t * k)) 0xff (part_len p) = Inr (splice_at img (cell_size t * k) (replicate (512 * n) 0xff))"
    if "t = FLASH_TYPE_NAND"
    using assms(2,3) that by (auto simp: img_set_def in_blocks_def cell_size_def img_put_inside simp del: of_nat_mult)
  then show ?thesis using assms(1,4) by (simp add: partition_write_def partition_place [OF assms(2)] erased_def)
qed

lemma partition_write_image:
  assumes "find_part tab name = Some p" "in_blocks p k n" "cell_size t * (k + n) \<le> length img" "file_of d filename = Some data"
    "length data \<le> 512 * n"
  shows "partition_write tab t img name filename d =
    Inr (splice_at (erased t img (cell_size t * k) n) (cell_size t * k) (cells t (cell_size t * k) data))"
proof -
  have "file_blocks data \<le> n" using assms(5) by (simp add: file_blocks_def)
  then have "cell_size t * file_blocks data \<le> cell_size t * n" by simp
  then have "cell_size t * k + cell_size t * file_blocks data \<le> length (erased t img (cell_size t * k) n)"
    using assms(3) by (simp only: length_erased distrib_left)
  moreover have "length data div 512 \<le> n" using assms(5) by simp
  ultimately show ?thesis unfolding partition_write_erased [OF assms(1-4)] by (intro write_blocks_image) simp_all
qed

lemma cells_nth:
  "j < file_blocks data \<Longrightarrow> slice_at (cells t at data) (cell_size t * j) (cell_size t) = cell t (at + cell_size t * j) (padded (drop (512 * j) data))"
proof (induction t at data arbitrary: j rule: cells.induct)
  case (1 t at data)
  then have ne: "data \<noteq> []" by (auto simp: file_blocks_def)
  let ?c = "cell t at (padded data)" and ?rest = "cells t (at + cell_size t) (drop 512 data)"
  have c: "cells t at data = ?c @ ?rest" "length ?c = cell_size t" using ne by (subst cells.simps) (simp_all add: length_cell)
  show ?case
  proof (cases j)
    case 0
    then show ?thesis using c(2) by (simp add: c(1) slice_at_def)
  next
    case (Suc i)
    then have "i < file_blocks (drop 512 data)" using 1(2) file_blocks_drop [OF ne] by simp
    note ih = 1(1) [OF ne this]
    have "slice_at (?c @ ?rest) (cell_size t * j) (cell_size t) = slice_at ?rest (cell_size t * i) (cell_size t)"
      using c(2) Suc by (simp add: slice_at_def)
    then show ?thesis using ih Suc by (simp add: c(1) add.assoc add.commute [of "512 * i" 512])
  qed
qed

lemma slice_slice: "i + n \<le> m \<Longrightarrow> slice_at (slice_at xs j m) i n = slice_at xs (j + i) n"
  by (simp add: slice_at_def take_drop add.commute min_def)

lemma slice_prefix: "slice_at xs i n = ys @ zs \<Longrightarrow> length ys \<le> n \<Longrightarrow> slice_at xs i (length ys) = ys"
  using slice_slice [of 0 "length ys" n xs i] by (simp add: slice_at_def)

lemma slice_spliced_part:
  assumes "i + length ys \<le> length xs" "j + n \<le> length ys"
  shows "slice_at (splice_at xs i ys) (i + j) n = slice_at ys j n"
  using slice_slice [of j n "length ys" "splice_at xs i ys" i] assms by simp

lemma written_cell:
  assumes "at + cell_size t * file_blocks data \<le> length img" "j < file_blocks data"
  shows "slice_at (splice_at img at (cells t at data)) (at + cell_size t * j) (cell_size t) =
    cell t (at + cell_size t * j) (padded (drop (512 * j) data))"
proof -
  have "cell_size t * (j + 1) \<le> cell_size t * file_blocks data" using assms(2) by (intro mult_le_mono2) simp
  then have "cell_size t * j + cell_size t \<le> length (cells t at data)" by (simp add: length_cells)
  then show ?thesis using assms(1) cells_nth [OF assms(2), of t at] by (simp add: slice_spliced_part length_cells)
qed

text \<open>
  C27: a file that fits into a partition is written and read back.  After \<open>-w\<close> the image has its old size and differs from the old one
  only inside the partition, and \<open>-r\<close> then makes a file that is as long as the partition, begins with the bytes of the file, and
  has zeros up to the end of its last block.
\<close>

theorem flash_write_then_read:
  assumes "find_part tab name = Some p" "in_blocks p k n" "cell_size t * (k + n) \<le> length img" "file_of d filename = Some data"
    "length data \<le> 512 * n" "can_create d out"
  shows "\<exists>img' bs. partition_write tab t img name filename d = Inr img' \<and>
    partition_read tab t img' name out d = Inr (d\<lparr>file_of := (file_of d)(out \<mapsto> bs)\<rparr>) \<and>
    length img' = length img \<and> (\<forall>i < length img. i < cell_size t * k \<or> cell_size t * (k + n) \<le> i \<longrightarrow> img' ! i = img ! i) \<and>
    length bs = 512 * n \<and> take (length data) bs = data \<and>
    (\<forall>i. length data \<le> i \<and> i < 512 * ((length data + 511) div 512) \<longrightarrow> bs ! i = 0)"
proof -
  define at where "at = cell_size t * k"
  define img1 where "img1 = erased t img at n"
  define img2 where "img2 = splice_at img1 at (cells t at data)"
  define m where "m = file_blocks data"
  have m: "m \<le> n" "at + cell_size t * n \<le> length img" using assms(3,5) by (simp_all add: m_def file_blocks_def at_def distrib_left)
  have "cell_size t * m \<le> cell_size t * n" using m(1) by simp
  then have fit: "at + cell_size t * m \<le> length img" using m(2) by linarith
  have l1: "length img1 = length img" using m(2) by (simp add: img1_def length_erased)
  have l2: "length img2 = length img" using fit by (simp add: img2_def length_cells l1 flip: m_def)
  have w: "partition_write tab t img name filename d = Inr img2"
    unfolding img2_def img1_def at_def by (rule partition_write_image [OF assms(1-5)])
  obtain rest where rest: "read_blocks t img2 (int (at + cell_size t * m)) (n - m) = Inr rest" "length rest = 512 * (n - m)"
    using read_blocks_length [of "at + cell_size t * m" t "n - m" img2] m by (auto simp: l2 diff_mult_distrib2)
  have at: "at \<le> length img1" using fit by (simp add: l1)
  have "read_blocks t img2 (int at) (m + (n - m)) = andThen (read_blocks t img2 (int (at + cell_size t * m)) (n - m)) (\<lambda>bs. Inr (block_data data @ bs))"
    unfolding m_def img2_def splice_at_def using at by (intro read_cells) simp
  then have r: "read_blocks t img2 (int at) n = Inr (block_data data @ rest)"
    by (simp only: le_add_diff_inverse [OF m(1)] rest(1) andThen_simps)
  have b: "block_count p = int n" "real_off t (part_off p) = int at" by (simp_all add: partition_place [OF assms(2)] at_def)
  have "partition_read tab t img2 name out d = Inr (d\<lparr>file_of := (file_of d)(out \<mapsto> block_data data @ rest)\<rparr>)"
    by (simp add: partition_read_def assms(1,6) b r)
  moreover have "img2 ! i = img ! i" if i: "i < length img" "i < at \<or> at + cell_size t * n \<le> i" for i
  proof -
    have "\<not> (at \<le> i \<and> i < at + cell_size t * m)" using i(2) \<open>cell_size t * m \<le> cell_size t * n\<close> by linarith
    then have "img2 ! i = img1 ! i" using i(1) fit by (auto simp: img2_def nth_splice_at l1 length_cells simp flip: m_def)
    also have "\<dots> = img ! i" using i m(2) by (cases "t = FLASH_TYPE_NAND") (auto simp: img1_def erased_def cell_size_def nth_splice_at)
    finally show ?thesis .
  qed
  moreover have "length (block_data data @ rest) = 512 * n" using m(1) by (simp add: length_block_data rest(2) flip: m_def distrib_left)
  ultimately show ?thesis using w l2
    by (intro exI [of _ img2] exI [of _ "block_data data @ rest"])
      (auto simp: distrib_left at_def block_data_def nth_append file_blocks_def)
qed

text \<open>
  A NAND block that is written carries its error correcting code.  The data of the file are in the blocks of the partition in order,
  the last one filled up with zeros, and the 16 bytes that follow each block are the out-of-band bytes of its contents; in the first
  block of the image they end with the letters \<open>ENV0\<close>.
\<close>

lemma nand_blocks_have_ecc:
  assumes "find_part tab name = Some p" "in_blocks p k n" "528 * (k + n) \<le> length img" "file_of d filename = Some data"
    "length data \<le> 512 * n"
  shows "\<exists>img'. partition_write tab FLASH_TYPE_NAND img name filename d = Inr img' \<and> (\<forall>j. 512 * j < length data \<longrightarrow>
    (\<exists>check. slice_at img' (528 * (k + j)) 512 = take 512 (drop (512 * j) data) @ replicate (512 * (j + 1) - length data) 0 \<and>
      oob (slice_at img' (528 * (k + j)) 512) = Some check \<and>
      slice_at img' (528 * (k + j) + 512) 16 = (if k + j = 0 then take 12 check @ magic else check)))"
proof -
  let ?t = "FLASH_TYPE_NAND"
  have s: "cell_size ?t = 528" by (simp add: cell_size_def)
  define img2 where "img2 = splice_at (erased ?t img (528 * k) n) (528 * k) (cells ?t (528 * k) data)"
  have w: "partition_write tab ?t img name filename d = Inr img2"
    using partition_write_image [OF assms(1,2), of ?t] assms(3-5) by (simp add: s img2_def)
  have fb: "528 * k + 528 * file_blocks data \<le> length (erased ?t img (528 * k) n)"
  proof -
    have "file_blocks data \<le> n" using assms(5) by (simp add: file_blocks_def)
    then show ?thesis using assms(3) length_erased [of "528 * k" ?t n img] by (simp add: s)
  qed
  have "\<exists>check. slice_at img2 (528 * (k + j)) 512 = take 512 (drop (512 * j) data) @ replicate (512 * (j + 1) - length data) 0 \<and>
      oob (slice_at img2 (528 * (k + j)) 512) = Some check \<and>
      slice_at img2 (528 * (k + j) + 512) 16 = (if k + j = 0 then take 12 check @ magic else check)" if j: "512 * j < length data" for j
  proof -
    let ?buf = "padded (drop (512 * j) data)"
    obtain check where c: "oob ?buf = Some check" "length check = 16" by (rule oob_total [of ?buf]) simp
    have "j < file_blocks data" using j by (simp add: file_blocks_def)
    then have cell: "slice_at img2 (528 * (k + j)) 528 = cell ?t (528 * (k + j)) ?buf"
      using written_cell [of "528 * k" ?t data "erased ?t img (528 * k) n" j] fb by (simp add: s img2_def distrib_left)
    have "slice_at img2 (528 * (k + j)) 512 = slice_at (cell ?t (528 * (k + j)) ?buf) 0 512"
      "slice_at img2 (528 * (k + j) + 512) 16 = slice_at (cell ?t (528 * (k + j)) ?buf) 512 16"
      unfolding cell [symmetric] by (simp_all add: slice_slice)
    moreover have "slice_at (cell ?t q ?buf) 0 512 = ?buf" "slice_at (cell ?t q ?buf) 512 16 = (if q = 0 then take 12 check @ magic else check)" for q
      using c by (simp_all add: cell_def spare_def slice_at_def splice_at_def magic_def)
    moreover have "?buf = take 512 (drop (512 * j) data) @ replicate (512 * (j + 1) - length data) 0"
      using j by (simp add: padded_def)
    ultimately show ?thesis using c(1) by (intro exI [of _ check]) simp
  qed
  then show ?thesis using w by blast
qed

lemma write_blocks_too_big:
  assumes "length data \<ge> 512 * (nb + 1)" "at + cell_size t * (nb + 1) \<le> length img"
  shows "write_blocks t img (int at) (int nb) data = Inl Exit_failure"
  using assms
proof (induction nb arbitrary: at img data)
  case 0
  then show ?case by (subst write_blocks_step) auto
next
  case (Suc nb)
  then have "write_blocks t (splice_at img at (cell t at (padded data))) (int (at + cell_size t)) (int nb) (drop 512 data) = Inl Exit_failure"
    by (intro Suc(1)) (simp_all add: length_cell)
  moreover have "data \<noteq> []" "\<not> length data < 512" "at + cell_size t \<le> length img" using Suc(2,3) by auto
  ultimately show ?case by (subst write_blocks_step) simp_all
qed

text \<open>
  A file that is too long for its partition is not always refused.  When it is longer by a whole block or more, the program stops
  with an error.  When it is longer by less than a block, the program goes on, and the rest of the file, filled up with zeros, is in the
  block behind the partition.
\<close>

lemma file_overruns_partition:
  assumes "find_part tab name = Some p" "in_blocks p k n" "cell_size t * (k + n + 1) \<le> length img" "file_of d filename = Some data"
    "512 * n < length data"
  shows "if 512 * (n + 1) \<le> length data then partition_write tab t img name filename d = Inl Exit_failure
    else \<exists>img'. partition_write tab t img name filename d = Inr img' \<and>
      slice_at img' (cell_size t * (k + n)) 512 = drop (512 * n) data @ replicate (512 * (n + 1) - length data) 0"
proof -
  let ?at = "cell_size t * k"
  let ?img = "erased t img ?at n"
  have l: "cell_size t * (k + n) \<le> length img" "?at + cell_size t * (n + 1) \<le> length ?img"
    using assms(3) by (simp_all add: distrib_left length_erased)
  note w = partition_write_erased [OF assms(1,2) l(1) assms(4)]
  show ?thesis
  proof (cases "512 * (n + 1) \<le> length data")
    case True
    then show ?thesis using w write_blocks_too_big [OF True l(2)] by simp
  next
    case False
    then have fb: "file_blocks data = n + 1" and "length data div 512 = n"
      using assms(5) by (auto simp: file_blocks_def intro!: div_nat_eqI)
    then have "write_blocks t ?img (int ?at) (int n) data = Inr (splice_at ?img ?at (cells t ?at data))"
      using l(2) by (intro write_blocks_image) simp_all
    moreover have "slice_at (splice_at ?img ?at (cells t ?at data)) (?at + cell_size t * n) (cell_size t) =
        cell t (?at + cell_size t * n) (padded (drop (512 * n) data))"
      using l(2) by (intro written_cell) (simp_all add: fb)
    moreover obtain s where "cell t (?at + cell_size t * n) (padded (drop (512 * n) data)) = padded (drop (512 * n) data) @ s" using cell_data by blast
    ultimately have "slice_at (splice_at ?img ?at (cells t ?at data)) (cell_size t * (k + n)) 512 = padded (drop (512 * n) data)"
      using slice_prefix [of _ _ _ "padded (drop (512 * n) data)" s] by (simp add: distrib_left cell_size_def split: if_splits)
    moreover have "512 - (length data - 512 * n) = 512 * (n + 1) - length data" "length data - 512 * n \<le> 512" using assms(5) False by simp_all
    moreover have "partition_write tab t img name filename d = Inr (splice_at ?img ?at (cells t ?at data))"
      unfolding w by (rule \<open>write_blocks t ?img (int ?at) (int n) data = _\<close>)
    ultimately show ?thesis unfolding if_not_P [OF False] by (intro exI [of _ "splice_at ?img ?at (cells t ?at data)"]) (simp add: padded_def)
  qed
qed

text \<open>
  The erasure before a NAND partition is written ends too early.  It clears as many bytes of the image as the partition has bytes of
  data, but the out-of-band bytes take place as well: of a partition of \<open>n\<close> blocks the last \<open>16 * n\<close> bytes of the image keep what
  was there, unless the file reaches them.
\<close>

lemma nand_erase_falls_short:
  assumes "find_part tab name = Some p" "in_blocks p k n" "528 * (k + n) \<le> length img" "file_of d filename = Some data"
    "528 * ((length data + 511) div 512) \<le> 512 * n"
  shows "\<exists>img'. partition_write tab FLASH_TYPE_NAND img name filename d = Inr img' \<and>
    slice_at img' (528 * k + 528 * ((length data + 511) div 512)) (512 * n - 528 * ((length data + 511) div 512)) =
      replicate (512 * n - 528 * ((length data + 511) div 512)) 0xff \<and>
    slice_at img' (528 * k + 512 * n) (16 * n) = slice_at img (528 * k + 512 * n) (16 * n)"
proof -
  let ?t = "FLASH_TYPE_NAND"
  let ?m = "528 * ((length data + 511) div 512)"
  have s: "cell_size ?t = 528" by (simp add: cell_size_def)
  have m: "length (cells ?t q data) = ?m" for q by (simp add: length_cells s file_blocks_def)
  have "length data \<le> 512 * n" using assms(5) by simp
  then have w: "partition_write tab ?t img name filename d =
      Inr (splice_at (splice_at img (528 * k) (replicate (512 * n) 0xff)) (528 * k) (cells ?t (528 * k) data))"
    using partition_write_image [OF assms(1,2), of ?t] assms(3,4) by (simp add: s erased_def)
  let ?img = "splice_at img (528 * k) (replicate (512 * n) 0xff)"
  have "slice_at (splice_at ?img (528 * k) (cells ?t (528 * k) data)) (528 * k + ?m) (512 * n - ?m) = slice_at ?img (528 * k + ?m) (512 * n - ?m)"
    using assms(3,5) by (intro slice_splice_disjoint) (simp_all add: m)
  also have "\<dots> = slice_at (replicate (512 * n) 0xff) ?m (512 * n - ?m)"
    using assms(3,5) by (intro slice_spliced_part) simp_all
  also have "\<dots> = replicate (512 * n - ?m) 0xff" by (simp add: slice_at_def)
  moreover have "slice_at (splice_at ?img (528 * k) (cells ?t (528 * k) data)) (528 * k + 512 * n) (16 * n) = slice_at ?img (528 * k + 512 * n) (16 * n)"
    using assms(3,5) by (intro slice_splice_disjoint) (simp_all add: m)
  moreover have "slice_at ?img (528 * k + 512 * n) (16 * n) = slice_at img (528 * k + 512 * n) (16 * n)"
    using assms(3) by (intro slice_splice_disjoint) simp_all
  ultimately show ?thesis using w by auto
qed

section \<open>The program\<close>

lemma size_2M: "size_option ''2M'' = Inr 0x200000"
  by code_simp

text \<open>
  The order of the options matters.  The type of the flash is NAND until \<open>-t\<close> is read, and \<open>-s\<close> checks the size against it, so the
  command of the \<open>README\<close>, a NOR image of 2 MB, stops with an error; with \<open>-t nor\<close> before the size it is accepted.
\<close>

lemma size_checked_against_earlier_type:
  "flash_main ((CHR ''s'', ''2M'') # (CHR ''t'', ''nor'') # opts) d = (d, Inl Exit_failure) \<and>
   flash_options d [(CHR ''t'', ''nor''), (CHR ''s'', ''2M'')] no_args =
     Inr (no_args\<lparr>flash_type := FLASH_TYPE_NOR, img_size := 0x200000\<rparr>)"
  by (simp add: flash_main_def flash_option_def size_2M no_args_def Let_def)

text \<open>
  An action that fails costs the image.  The program empties the image file before the actions and writes it after them, so when the
  file of the first \<open>-w\<close> cannot be opened the image file is left with nothing in it, whatever it held.
\<close>

lemma failed_action_loses_image:
  assumes "flash_options d opts no_args = Inr a" "img_name a = Some f" "file_of d f = Some old" "old \<noteq> []"
    "act_tab a = act # acts" "act_action act = CHR ''w''" "find_part (part_tab a) (act_part act) = Some p"
    "file_of d (act_file act) = None"
  shows "\<exists>stop. flash_main opts d = (d\<lparr>file_of := (file_of d)(f \<mapsto> [])\<rparr>, Inl stop)"
proof -
  let ?d = "d\<lparr>file_of := (file_of d)(f \<mapsto> [])\<rparr>"
  have "act_file act \<noteq> f" using assms(3,8) by auto
  then have none: "file_of ?d (act_file act) = None" using assms(8) by simp
  have w: "\<exists>stop. partition_write (part_tab a) (flash_type a) img (act_part act) (act_file act) ?d = Inl stop" for img
    using assms(7) none by (auto simp: partition_write_def andThen_def split: sum.splits)
  then have stops: "\<exists>stop. flash_actions a (act_tab a) img ?d = (?d, Inl stop)" for img
  proof -
    obtain stop where "partition_write (part_tab a) (flash_type a) img (act_part act) (act_file act) ?d = Inl stop"
      using w by blast
    then show ?thesis by (simp add: assms(5,6))
  qed
  define n where "n = (if img_size a = 0 then length old else unat (img_size a))"
  have "n \<noteq> 0" using assms(4) by (simp add: n_def unat_gt_0)
  moreover have "d\<lparr>file_of := (file_of d)(f \<mapsto> old)\<rparr> = d" using assms(3) by (cases d) (auto simp: fun_eq_iff)
  ultimately show ?thesis
    using stops [of "take n old @ replicate (n - length old) 0xff"]
    by (auto simp: flash_main_def assms(1-3) Let_def simp flip: n_def)
qed

section \<open>A concrete run\<close>

definition sample_disk :: flash_disk where
  "sample_disk =
     \<lparr>file_of = (\<lambda>f. if f = ''tab'' then Some [0x62, 0x6F, 0x6F, 0x74, 0x20, 0x31, 0x30, 0x32, 0x34, 0x09, 0x30, 0x78, 0x32, 0x30, 0x30, 0x0A]
        else if f = ''one'' then Some (replicate 300 0xA5) else if f = ''two'' then Some (replicate 1025 0x5A)
        else if f = ''img'' then Some [1, 2, 3] else None),
      can_create = (\<lambda>f. True)\<rparr>"

definition sample_boot :: partion where
  "sample_boot = \<lparr>part_name = ''boot'', part_off = 512, part_len = 1024\<rparr>"

lemma sample_table: "partition_file sample_disk ''tab'' = Inr [sample_boot]"
  by code_simp

lemma sample_boot_place: "find_part [sample_boot] ''boot'' = Some sample_boot" "in_blocks sample_boot (Suc 0) 2"
  by (simp_all add: find_part_def sample_boot_def in_blocks_def)

lemma sample_files: "file_of sample_disk ''one'' = Some (replicate 300 0xA5)" "file_of sample_disk ''two'' = Some (replicate 1025 0x5A)"
    "file_of sample_disk ''img'' = Some [1, 2, 3]" "file_of sample_disk ''none'' = None" "can_create sample_disk f"
  by (simp_all add: sample_disk_def)

theorem flash_write_then_read_witness:
  "\<exists>img' bs. partition_write [sample_boot] FLASH_TYPE_NAND (replicate 2112 0) ''boot'' ''one'' sample_disk = Inr img' \<and>
    partition_read [sample_boot] FLASH_TYPE_NAND img' ''boot'' ''out'' sample_disk =
      Inr (sample_disk\<lparr>file_of := (file_of sample_disk)(''out'' \<mapsto> bs)\<rparr>) \<and> take 300 bs = replicate 300 0xA5"
  using flash_write_then_read [of "[sample_boot]" "''boot''" sample_boot 1 2 FLASH_TYPE_NAND "replicate 2112 0" sample_disk "''one''"
      "replicate 300 0xA5" "''out''"]
  by (simp add: sample_boot_place sample_files cell_size_def) blast

end
