(* ===== verification/Versions.thy ===== *)
theory Versions
  imports CText "HOL-Library.Sublist"
begin

text \<open>
  The program \<open>opkg-compare-versions.c\<close>: the version numbers of packages, their comparison, and the program that prints nothing and
  answers with its exit status.  A string is a list of characters, without the zero that ends it; \<open>char\<close> is signed and the character
  classes are those of the C locale.
\<close>

section \<open>The order of characters\<close>

definition code_of :: "char \<Rightarrow> int" where
  "code_of c = (let n = int (of_char c) in if 128 \<le> n then n - 256 else n)"

text \<open>What a pointer into a string points at.\<close>

definition chr :: "string \<Rightarrow> int" where
  "chr s = (case s of [] \<Rightarrow> 0 | c # _ \<Rightarrow> code_of c)"

definition isdigit :: "int \<Rightarrow> bool" where
  "isdigit x \<longleftrightarrow> 48 \<le> x \<and> x \<le> 57"

definition isalpha :: "int \<Rightarrow> bool" where
  "isalpha x \<longleftrightarrow> 65 \<le> x \<and> x \<le> 90 \<or> 97 \<le> x \<and> x \<le> 122"

definition order :: "int \<Rightarrow> int" where
  "order x = (if x = 126 then - 1 else if isdigit x then 0 else if x = 0 then 0 else if isalpha x then x else x + 256)"

section \<open>Comparison\<close>

text \<open>
  The loop over what is not a digit ends with a difference (\<open>Inl\<close>) or with the rests of the strings.  A step beyond the end of a string
  would leave it: \<open>None\<close>.
\<close>

function nondigits :: "string \<Rightarrow> string \<Rightarrow> (int + string \<times> string) option" where
  "nondigits val ref =
     (if val \<noteq> [] \<and> \<not> isdigit (chr val) \<or> ref \<noteq> [] \<and> \<not> isdigit (chr ref) then
        (let vc = order (chr val); rc = order (chr ref)
         in if vc \<noteq> rc then Some (Inl (vc - rc)) else if val = [] \<or> ref = [] then None else nondigits (tl val) (tl ref))
      else Some (Inr (val, ref)))"
  by pat_completeness auto

termination
  by (relation "measure (\<lambda>(v, r). length v)") auto

lemma chr_simps [simp]: "chr [] = 0" "chr (c # cs) = code_of c"
  by (simp_all add: chr_def)

lemma not_isdigit_0 [simp]: "\<not> isdigit 0"
  by (simp add: isdigit_def)

function digits :: "string \<Rightarrow> string \<Rightarrow> int \<Rightarrow> string \<times> string \<times> int" where
  "digits val ref first_diff =
     (if isdigit (chr val) \<and> isdigit (chr ref) then digits (tl val) (tl ref) (if first_diff = 0 then chr val - chr ref else first_diff)
      else (val, ref, first_diff))"
  by pat_completeness auto

termination
  by (relation "measure (\<lambda>(v, r, d). length v)") (auto, case_tac val, simp_all)

declare nondigits.simps [simp del]
declare digits.simps [simp del]

lemma nondigits_step:
  "val \<noteq> [] \<and> \<not> isdigit (chr val) \<or> ref \<noteq> [] \<and> \<not> isdigit (chr ref) \<Longrightarrow>
   nondigits val ref = (if order (chr val) \<noteq> order (chr ref) then Some (Inl (order (chr val) - order (chr ref)))
     else if val = [] \<or> ref = [] then None else nondigits (tl val) (tl ref))"
  by (subst nondigits.simps) (simp add: Let_def)

lemma nondigits_stop:
  "\<not> (val \<noteq> [] \<and> \<not> isdigit (chr val) \<or> ref \<noteq> [] \<and> \<not> isdigit (chr ref)) \<Longrightarrow> nondigits val ref = Some (Inr (val, ref))"
  unfolding nondigits.simps [of val ref] by (rule if_not_P)

lemma nondigits_suffix:
  "nondigits val ref = Some (Inr (v, r)) \<Longrightarrow>
     suffix v val \<and> suffix r ref \<and> (v = [] \<or> isdigit (chr v)) \<and> (r = [] \<or> isdigit (chr r))"
proof (induction val ref rule: nondigits.induct)
  case (1 val ref)
  show ?case
  proof (cases "val \<noteq> [] \<and> \<not> isdigit (chr val) \<or> ref \<noteq> [] \<and> \<not> isdigit (chr ref)")
    case True
    then have "suffix v (tl val) \<and> suffix r (tl ref) \<and> (v = [] \<or> isdigit (chr v)) \<and> (r = [] \<or> isdigit (chr r))"
      using 1(2) by (intro 1(1) [OF _ refl refl]) (auto simp: nondigits_step split: if_splits)
    then show ?thesis by (meson suffix_order.trans suffix_tl)
  next
    case False
    then show ?thesis using 1(2) nondigits_stop [OF False] by auto
  qed
qed

lemma digits_step:
  "isdigit (chr val) \<Longrightarrow> isdigit (chr ref) \<Longrightarrow>
     digits val ref d = digits (tl val) (tl ref) (if d = 0 then chr val - chr ref else d)"
  "\<not> (isdigit (chr val) \<and> isdigit (chr ref)) \<Longrightarrow> digits val ref d = (val, ref, d)"
  unfolding digits.simps [of val ref d] by (simp, rule if_not_P)

lemma digits_suffix: "digits val ref d = (v, r, d') \<Longrightarrow> suffix v val \<and> suffix r ref"
proof (induction val ref d rule: digits.induct)
  case (1 val ref d)
  show ?case
  proof (cases "isdigit (chr val) \<and> isdigit (chr ref)")
    case True
    then have "suffix v (tl val) \<and> suffix r (tl ref)" using 1(2) by (intro 1(1)) (simp_all add: digits_step)
    then show ?thesis by (meson suffix_order.trans suffix_tl)
  next
    case False
    then show ?thesis using 1(2) by (simp add: digits_step(2) [OF False])
  qed
qed

text \<open>One round of the comparison.\<close>

definition skip_zeros :: "string \<Rightarrow> string" where
  "skip_zeros s = dropWhile (\<lambda>c. c = CHR ''0'') s"

lemma verrevcmp_round_shorter:
  assumes "nondigits val ref = Some (Inr (val1, ref1))" "digits (skip_zeros val1) (skip_zeros ref1) 0 = (val2, ref2, d)"
    "\<not> isdigit (chr val2)" "\<not> isdigit (chr ref2)" "\<not> (val = [] \<and> ref = [])"
  shows "length val2 + length ref2 < length val + length ref"
proof -
  have s: "suffix (skip_zeros t) t" for t by (simp add: skip_zeros_def suffix_dropWhile)
  have 1: "suffix val2 (skip_zeros val1)" "suffix ref2 (skip_zeros ref1)" using digits_suffix [OF assms(2)] by auto
  have 2: "suffix val1 val" "suffix ref1 ref" "val1 = [] \<or> isdigit (chr val1)" "ref1 = [] \<or> isdigit (chr ref1)"
    using nondigits_suffix [OF assms(1)] by auto
  have suf: "suffix val2 val1" "suffix ref2 ref1" using 1 s suffix_order.trans by blast+
  have "val2 \<noteq> val \<or> ref2 \<noteq> ref"
  proof (rule ccontr)
    assume same: "\<not> (val2 \<noteq> val \<or> ref2 \<noteq> ref)"
    then have "val1 = val" "ref1 = ref" using suf 2(1,2) suffix_order.antisym by blast+
    then show False using 2(3,4) assms(3-5) same by auto
  qed
  moreover have "suffix val2 val" "suffix ref2 ref" using suf 2(1,2) suffix_order.trans by blast+
  ultimately show ?thesis
    by (auto simp: suffix_def)
qed

function verrevcmp :: "string \<Rightarrow> string \<Rightarrow> int option" where
  "verrevcmp val ref =
     (if val = [] \<and> ref = [] then Some 0
      else (case nondigits val ref of None \<Rightarrow> None
        | Some (Inl d) \<Rightarrow> Some d
        | Some (Inr (val1, ref1)) \<Rightarrow>
            (case digits (skip_zeros val1) (skip_zeros ref1) 0 of (val2, ref2, first_diff) \<Rightarrow>
              if isdigit (chr val2) then Some 1
              else if isdigit (chr ref2) then Some (- 1)
              else if first_diff \<noteq> 0 then Some first_diff
              else verrevcmp val2 ref2)))"
  by pat_completeness auto

termination
  by (relation "measure (\<lambda>(v, r). length v + length r)") (auto intro!: verrevcmp_round_shorter [OF _ sym])

declare verrevcmp.simps [simp del]

section \<open>Versions\<close>

record versionrevision =
  epoch :: u64
  version :: string
  revision :: string

definition versioncompare :: "versionrevision \<Rightarrow> versionrevision \<Rightarrow> int option" where
  "versioncompare v refversion =
     (if epoch v > epoch refversion then Some 1
      else if epoch v < epoch refversion then Some (- 1)
      else do {
        r \<leftarrow> verrevcmp (version v) (version refversion);
        (if r \<noteq> 0 then Some r else verrevcmp (revision v) (revision refversion))
      })"

text \<open>\<open>Inl ()\<close> is the exit for an operator that is not known.\<close>

definition versionsatisfied3 :: "versionrevision \<Rightarrow> versionrevision \<Rightarrow> string \<Rightarrow> (unit + bool) option" where
  "versionsatisfied3 it ref rel =
     do {
       r \<leftarrow> versioncompare it ref;
       Some (if rel = ''<='' \<or> rel = ''<'' then Inr (r \<le> 0)
         else if rel = ''>='' \<or> rel = ''>'' then Inr (r \<ge> 0)
         else if rel = ''<<'' then Inr (r < 0)
         else if rel = ''>>'' then Inr (r > 0)
         else if rel = ''='' then Inr (r = 0)
         else Inl ())
     }"

definition parseversion :: "string \<Rightarrow> string + versionrevision" where
  "parseversion s =
     (if s = [] then Inl ''version string is empty''
      else if CHR '':'' \<in> set s then
        (let colon = dropWhile (\<lambda>c. c \<noteq> CHR '':'') s; (n, eepochcolon) = strtoul s
         in if length colon \<noteq> length eepochcolon then Inl ''epoch in version is not number''
            else if tl colon = [] then Inl ''nothing after colon in version number''
            else Inr \<lparr>epoch = n, version = tl colon, revision = []\<rparr>)
      else Inr \<lparr>epoch = 0, version = s, revision = []\<rparr>)"

text \<open>The exit status of the program for its arguments.\<close>

definition compare_main :: "string list \<Rightarrow> nat option" where
  "compare_main args =
     (case args of
        a1 # a2 # a3 # _ \<Rightarrow>
          (case parseversion a1 of Inl err \<Rightarrow> Some 2
           | Inr ver \<Rightarrow>
               (case parseversion a3 of Inl err \<Rightarrow> Some 2
                | Inr ref \<Rightarrow> map_option (\<lambda>r. case r of Inl _ \<Rightarrow> 1 | Inr b \<Rightarrow> if b then 0 else 1) (versionsatisfied3 ver ref a2)))
      | _ \<Rightarrow> Some 2)"

end
