(* ===== verification/VersionProps.thy ===== *)
theory VersionProps
  imports Versions
begin

text \<open>
  The comparison of versions against a reference: a version is a sequence of integers, and versions are compared as such sequences,
  continued with zeros.  It follows that the comparison is a total preorder.
\<close>

section \<open>Comparison functions\<close>

locale comparator =
  fixes cmp :: "'a \<Rightarrow> 'a \<Rightarrow> int"
  assumes self: "cmp a a = 0"
    and swap: "sgn (cmp b a) = - sgn (cmp a b)"
    and trans: "cmp a b \<le> 0 \<Longrightarrow> cmp b c \<le> 0 \<Longrightarrow> cmp a c \<le> 0"
begin

lemma sign_swap: "cmp b a < 0 \<longleftrightarrow> 0 < cmp a b" "cmp b a = 0 \<longleftrightarrow> cmp a b = 0" "cmp b a \<le> 0 \<longleftrightarrow> 0 \<le> cmp a b"
  using swap [of b a] by (auto simp: sgn_if split: if_splits)

lemma equal_left: "cmp a b = 0 \<Longrightarrow> cmp a c \<le> 0 \<longleftrightarrow> cmp b c \<le> 0"
  using trans [of a b c] trans [of b a c] sign_swap(2) [of a b] by auto

lemma less_trans: "cmp a b < 0 \<Longrightarrow> cmp b c \<le> 0 \<Longrightarrow> cmp a c < 0"
proof -
  assume 1: "cmp a b < 0" "cmp b c \<le> 0"
  then have "cmp a c \<le> 0" using trans [of a b c] by simp
  moreover have "cmp a c \<noteq> 0"
  proof
    assume "cmp a c = 0"
    then have "cmp c a \<le> 0" using sign_swap(2) [of c a] by simp
    then have "cmp b a \<le> 0" using trans [of b c a] 1(2) by simp
    then show False using 1(1) sign_swap(1) [of a b] by simp
  qed
  ultimately show ?thesis by simp
qed

lemma equal_both: "cmp a b \<le> 0 \<Longrightarrow> cmp b c \<le> 0 \<Longrightarrow> cmp a c = 0 \<Longrightarrow> cmp a b = 0 \<and> cmp b c = 0"
proof -
  assume 1: "cmp a b \<le> 0" "cmp b c \<le> 0" "cmp a c = 0"
  then have "cmp c a \<le> 0" using sign_swap(2) [of c a] by simp
  then have "\<not> cmp b c < 0" using 1(1) less_trans [of b c a] sign_swap(3) [of a b] sign_swap(1) [of b a] by auto
  moreover have "\<not> cmp a b < 0" using less_trans [of a b c] 1(2,3) by auto
  ultimately show ?thesis using 1 by simp
qed

lemma by_image: "comparator (\<lambda>x y. cmp (f x) (f y))"
  by unfold_locales (rule self, rule swap, rule trans)

text \<open>A comparison that a second one continues.\<close>

lemma continued:
  assumes "comparator cmp'"
  shows "comparator (\<lambda>x y. if cmp x y \<noteq> 0 then cmp x y else cmp' x y)"
proof -
  have s: "sgn (cmp' b a) = - sgn (cmp' a b)" "cmp' a a = 0" for a b
    using assms unfolding comparator_def by blast+
  have t: "cmp' a b \<le> 0 \<Longrightarrow> cmp' b c \<le> 0 \<Longrightarrow> cmp' a c \<le> 0" for a b c
    using assms unfolding comparator_def by blast
  show ?thesis
  proof
    fix a b c
    assume 1: "(if cmp a b \<noteq> 0 then cmp a b else cmp' a b) \<le> 0" "(if cmp b c \<noteq> 0 then cmp b c else cmp' b c) \<le> 0"
    then have "cmp a b \<le> 0" "cmp b c \<le> 0" by (auto split: if_splits)
    then have le: "cmp a c \<le> 0" by (rule trans)
    have "cmp a b = 0 \<and> cmp b c = 0" if "cmp a c = 0"
      using \<open>cmp a b \<le> 0\<close> \<open>cmp b c \<le> 0\<close> that by (rule equal_both)
    then show "(if cmp a c \<noteq> 0 then cmp a c else cmp' a c) \<le> 0" using 1 le t [of a b c] by auto
  next
    fix a b
    show "sgn (if cmp b a \<noteq> 0 then cmp b a else cmp' b a) = - sgn (if cmp a b \<noteq> 0 then cmp a b else cmp' a b)"
      using s(1) [of b a] swap [of b a] sign_swap(2) [of a b] by simp
  qed (simp add: self s(2))
qed

end

section \<open>Sequences continued with zeros\<close>

fun zcmp :: "int list \<Rightarrow> int list \<Rightarrow> int" where
  "zcmp [] [] = 0"
| "zcmp (a # as) [] = (if a = 0 then zcmp as [] else sgn a)"
| "zcmp [] (b # bs) = (if b = 0 then zcmp [] bs else - sgn b)"
| "zcmp (a # as) (b # bs) = (if a = b then zcmp as bs else sgn (a - b))"

definition hd0 :: "int list \<Rightarrow> int" where
  "hd0 as = (case as of [] \<Rightarrow> 0 | a # _ \<Rightarrow> a)"

lemma zcmp_unfold: "zcmp as bs = (if as = [] \<and> bs = [] then 0 else if hd0 as = hd0 bs then zcmp (tl as) (tl bs) else sgn (hd0 as - hd0 bs))"
  by (cases as; cases bs) (auto simp: hd0_def sgn_if)

lemma zcmp_self: "zcmp as as = 0"
  by (induction as) simp_all

lemma zcmp_swap: "zcmp bs as = - zcmp as bs"
  by (induction as bs rule: zcmp.induct) (auto simp: sgn_if)

lemma zcmp_trans: "zcmp as bs \<le> 0 \<Longrightarrow> zcmp bs cs \<le> 0 \<Longrightarrow> zcmp as cs \<le> 0"
proof (induction "length as + length bs + length cs" arbitrary: as bs cs rule: less_induct)
  case less
  show ?case
  proof (cases "as = [] \<and> cs = []")
    case False
    then have "length (tl as) + length (tl bs) + length (tl cs) < length as + length bs + length cs" by (cases as; cases cs) auto
    note ih = less(1) [OF this]
    show ?thesis using less(2,3) ih False zcmp_unfold [of as bs] zcmp_unfold [of bs cs] zcmp_unfold [of as cs]
      by (auto simp: sgn_if hd0_def split: if_splits)
  qed simp
qed

lemma zcmp_sgn: "sgn (zcmp as bs) = zcmp as bs"
  by (induction as bs rule: zcmp.induct) auto

lemma zcmp_zeros: "zcmp [0, 0] bs = zcmp [] bs" "zcmp as [0, 0] = zcmp as []"
  by (cases bs; cases "tl bs"; simp) (cases as; cases "tl as"; simp)

lemma zcmp_append: "zcmp (cs @ as) (cs @ bs) = zcmp as bs"
  by (induction cs) simp_all

interpretation zc: comparator zcmp
proof
  fix as bs cs
  show "zcmp as as = 0" by (rule zcmp_self)
  show "sgn (zcmp bs as) = - sgn (zcmp as bs)" by (simp add: zcmp_swap [of bs as])
  show "zcmp as bs \<le> 0 \<Longrightarrow> zcmp bs cs \<le> 0 \<Longrightarrow> zcmp as cs \<le> 0" by (rule zcmp_trans)
qed

section \<open>The sequence of a version\<close>

abbreviation digit :: "char \<Rightarrow> bool" where
  "digit c \<equiv> isdigit (code_of c)"

text \<open>The number that digits stand for.\<close>

fun digits_value :: "string \<Rightarrow> int" where
  "digits_value [] = 0"
| "digits_value (c # cs) = (code_of c - 48) * 10 ^ length cs + digits_value cs"

lemma rest_shorter: "s \<noteq> [] \<Longrightarrow> length (dropWhile digit (dropWhile (\<lambda>c. \<not> digit c) s)) < length s"
proof (cases s)
  case (Cons c cs)
  then show ?thesis
    using length_dropWhile_le [of digit cs] length_dropWhile_le [of digit "dropWhile (\<lambda>c. \<not> digit c) cs"] length_dropWhile_le [of "\<lambda>c. \<not> digit c" cs]
    by auto
qed simp

text \<open>The letters up to the first digit by their order, a zero, the number that follows, and so on.\<close>

function version_key :: "string \<Rightarrow> int list" where
  "version_key s =
     (if s = [] then []
      else let letters = takeWhile (\<lambda>c. \<not> digit c) s; s1 = dropWhile (\<lambda>c. \<not> digit c) s
        in map (\<lambda>c. order (code_of c)) letters @ 0 # digits_value (takeWhile digit s1) # version_key (dropWhile digit s1))"
  by pat_completeness auto

termination
  by (relation "measure length") (auto intro: rest_shorter)

declare version_key.simps [simp del]

lemma isdigit_chr: "isdigit (chr s) \<longleftrightarrow> (\<exists>c cs. s = c # cs \<and> digit c)"
  by (cases s) auto

text \<open>One round of the key, also at the end of the version.\<close>

lemma zcmp_key:
  defines "key s \<equiv> map (\<lambda>c. order (code_of c)) (takeWhile (\<lambda>c. \<not> digit c) s) @ 0 #
    digits_value (takeWhile digit (dropWhile (\<lambda>c. \<not> digit c) s)) # version_key (dropWhile digit (dropWhile (\<lambda>c. \<not> digit c) s))"
  shows "zcmp (version_key s) (version_key t) = zcmp (key s) (key t)"
proof -
  have e: "version_key [] = []" by (simp add: version_key.simps)
  have k: "version_key u = (if u = [] then [] else key u)" "u = [] \<Longrightarrow> key u = [0, 0]" for u
    by (subst version_key.simps) (simp_all add: key_def Let_def e)
  show ?thesis by (cases "s = []"; cases "t = []") (simp_all add: k zcmp_zeros)
qed

section \<open>The letters\<close>

text \<open>A string of C has no zero inside.\<close>

definition cstring :: "string \<Rightarrow> bool" where
  "cstring s \<longleftrightarrow> CHR 0x00 \<notin> set s"

lemma of_char_less: "(of_char c :: nat) < 256"
  by (metis of_char_mod_256 mod_less_divisor zero_less_numeral)

lemma code_inj: "code_of c = code_of d \<Longrightarrow> c = d"
proof -
  assume "code_of c = code_of d"
  then have "int (of_char c) = int (of_char d)"
    using of_nat_less_iff [of "of_char c" 256, where 'a = int] of_nat_less_iff [of "of_char d" 256, where 'a = int] of_char_less
    unfolding code_of_def Let_def by (cases "128 \<le> int (of_char c)"; cases "128 \<le> int (of_char d)"; simp only: if_True if_False of_nat_numeral; linarith)
  then show ?thesis by simp
qed

lemma code_not_0: "c \<noteq> CHR 0x00 \<Longrightarrow> code_of c \<noteq> 0 \<and> - 128 \<le> code_of c \<and> code_of c < 128"
proof -
  assume "c \<noteq> CHR 0x00"
  then have "(of_char c :: nat) \<noteq> 0" using of_char_eq_iff [of c "CHR 0x00", where 'a = nat] by simp
  moreover have "(of_char c :: nat) < 256" by (rule of_char_less)
  ultimately show ?thesis unfolding code_of_def Let_def by (cases "128 \<le> int (of_char c)") (simp_all only: if_True if_False, linarith+)
qed

lemma order_nondigit: "c \<noteq> CHR 0x00 \<Longrightarrow> \<not> digit c \<Longrightarrow> order (code_of c) \<noteq> 0"
  using code_not_0 [of c] by (auto simp: order_def isalpha_def)

abbreviation letters :: "string \<Rightarrow> int list" where
  "letters s \<equiv> map (\<lambda>c. order (code_of c)) (takeWhile (\<lambda>c. \<not> digit c) s)"

lemma order_digit: "s = [] \<or> isdigit (chr s) \<Longrightarrow> order (chr s) = 0"
  by (auto simp: order_def isdigit_def)

lemma order_0: "cstring s \<Longrightarrow> order (chr s) = 0 \<longleftrightarrow> s = [] \<or> isdigit (chr s)"
proof (cases "s = [] \<or> isdigit (chr s)")
  case False
  assume "cstring s"
  with False obtain c cs where "s = c # cs" "\<not> digit c" "c \<noteq> CHR 0x00" by (cases s) (auto simp: cstring_def)
  then show ?thesis using order_nondigit [of c] by simp
qed (simp add: order_digit)

lemma hd_letters: "hd0 (letters s @ 0 # as) = order (chr s)"
  using order_digit [of s] by (cases s) (auto simp: hd0_def)

lemma nondigits_key:
  assumes "cstring val" "cstring ref"
  shows "(\<exists>d. nondigits val ref = Some (Inl d) \<and> d \<noteq> 0 \<and> zcmp (letters val @ 0 # as) (letters ref @ 0 # bs) = sgn d) \<or>
    nondigits val ref = Some (Inr (dropWhile (\<lambda>c. \<not> digit c) val, dropWhile (\<lambda>c. \<not> digit c) ref)) \<and>
      zcmp (letters val @ 0 # as) (letters ref @ 0 # bs) = zcmp as bs"
  using assms
proof (induction val ref rule: nondigits.induct)
  case (1 val ref)
  show ?case
  proof (cases "val \<noteq> [] \<and> \<not> isdigit (chr val) \<or> ref \<noteq> [] \<and> \<not> isdigit (chr ref)")
    case True
    show ?thesis
    proof (cases "order (chr val) = order (chr ref)")
      case same: True
      have "(val = [] \<or> isdigit (chr val)) = (ref = [] \<or> isdigit (chr ref))" using order_0 [OF 1(2)] order_0 [OF 1(3)] same by simp
      then obtain c cs e es where v: "val = c # cs" "ref = e # es" "\<not> digit c" "\<not> digit e"
        using True by (cases val; cases ref; simp)
      then have "letters val = order (chr val) # letters cs" "letters ref = order (chr ref) # letters es" by simp_all
      moreover have "nondigits val ref = nondigits cs es" using nondigits_step [OF True] same v by simp
      moreover note 1(1) [OF True refl refl]
      ultimately show ?thesis using same v 1(2,3) by (simp add: cstring_def)
    next
      case False
      then show ?thesis
        using zcmp_unfold [of "letters val @ 0 # as" "letters ref @ 0 # bs"] by (simp add: nondigits_step [OF True] hd_letters)
    qed
  next
    case False
    then have "takeWhile (\<lambda>c. \<not> digit c) val = []" "dropWhile (\<lambda>c. \<not> digit c) val = val" "takeWhile (\<lambda>c. \<not> digit c) ref = []"
        "dropWhile (\<lambda>c. \<not> digit c) ref = ref"
      by (cases val; cases ref; simp)+
    then show ?thesis by (simp add: nondigits_stop [OF False])
  qed
qed

section \<open>The digits\<close>

lemma number_bounds: "list_all digit ds \<Longrightarrow> 0 \<le> digits_value ds \<and> digits_value ds < 10 ^ length ds"
proof (induction ds)
  case (Cons c cs)
  let ?d = "code_of c - 48" and ?p = "10 ^ length cs :: int"
  have "0 \<le> ?d" "?d \<le> 9" using Cons by (auto simp: isdigit_def)
  then have "0 \<le> ?d * ?p" "?d * ?p \<le> 9 * ?p" by (simp, intro mult_right_mono) simp_all
  moreover have "0 \<le> digits_value cs" "digits_value cs < ?p" using Cons by simp_all
  ultimately show ?case unfolding digits_value.simps length_Cons power_Suc by linarith
qed simp

text \<open>Numbers with as many digits compare like their first digits.\<close>

lemma number_first:
  assumes "length as = length bs" "list_all digit as" "list_all digit bs"
  shows "sgn (digits_value (c # as) - digits_value (e # bs)) = (if code_of c = code_of e then sgn (digits_value as - digits_value bs) else sgn (code_of c - code_of e))"
proof -
  let ?p = "10 ^ length bs :: int" and ?d = "code_of c - code_of e"
  have b: "0 \<le> digits_value as" "digits_value as < ?p" "0 \<le> digits_value bs" "digits_value bs < ?p"
    using number_bounds [OF assms(2)] number_bounds [OF assms(3)] assms(1) by simp_all
  have e: "digits_value (c # as) - digits_value (e # bs) = ?d * ?p + (digits_value as - digits_value bs)" by (simp add: assms(1) algebra_simps)
  consider "?d = 0" | "1 \<le> ?d" | "?d \<le> - 1" by linarith
  then show ?thesis
  proof cases
    case 2
    then have "1 * ?p \<le> ?d * ?p" by (intro mult_right_mono) simp_all
    then have "0 < ?d * ?p + (digits_value as - digits_value bs)" using b by linarith
    then show ?thesis unfolding e using 2 by simp
  next
    case 3
    then have "?d * ?p \<le> - 1 * ?p" by (intro mult_right_mono) simp_all
    then have "?d * ?p + (digits_value as - digits_value bs) < 0" using b by linarith
    then show ?thesis unfolding e using 3 by simp
  qed (simp add: assms(1))
qed

lemma number_zero: "digits_value (takeWhile digit (skip_zeros s)) = digits_value (takeWhile digit s)" "dropWhile digit (skip_zeros s) = dropWhile digit s"
  by (induction s) (auto simp: skip_zeros_def code_of_def isdigit_def)

lemma digits_key:
  "digits val ref d = (v, r, d') \<Longrightarrow> \<exists>as bs. val = as @ v \<and> ref = bs @ r \<and> length as = length bs \<and> list_all digit as \<and> list_all digit bs \<and>
     \<not> (isdigit (chr v) \<and> isdigit (chr r)) \<and> sgn d' = (if d = 0 then sgn (digits_value as - digits_value bs) else sgn d)"
proof (induction val ref d rule: digits.induct)
  case (1 val ref d)
  show ?case
  proof (cases "isdigit (chr val) \<and> isdigit (chr ref)")
    case True
    then obtain c cs e es where v: "val = c # cs" "ref = e # es" "digit c" "digit e" by (auto simp: isdigit_chr)
    define d1 where "d1 = (if d = 0 then code_of c - code_of e else d)"
    have "digits cs es d1 = (v, r, d')" using 1(2) v digits_step(1) [of val ref d] by (simp add: d1_def split: if_splits)
    moreover have "isdigit (chr val) \<and> isdigit (chr ref) \<Longrightarrow> digits cs es d1 = (v, r, d') \<Longrightarrow>
        \<exists>as bs. cs = as @ v \<and> es = bs @ r \<and> length as = length bs \<and> list_all digit as \<and> list_all digit bs \<and>
          \<not> (isdigit (chr v) \<and> isdigit (chr r)) \<and> sgn d' = (if d1 = 0 then sgn (digits_value as - digits_value bs) else sgn d1)"
      using 1(1) unfolding v(1,2) list.sel chr_simps d1_def .
    ultimately obtain as bs where ih: "cs = as @ v" "es = bs @ r" "length as = length bs" "list_all digit as" "list_all digit bs"
        "\<not> (isdigit (chr v) \<and> isdigit (chr r))" "sgn d' = (if d1 = 0 then sgn (digits_value as - digits_value bs) else sgn d1)"
      using True by blast
    have "sgn (digits_value (c # as) - digits_value (e # bs)) = (if code_of c = code_of e then sgn (digits_value as - digits_value bs) else sgn (code_of c - code_of e))"
      by (rule number_first [OF ih(3-5)])
    then have "sgn d' = (if d = 0 then sgn (digits_value (c # as) - digits_value (e # bs)) else sgn d)" using ih(7) by (auto simp: d1_def)
    then show ?thesis using ih v by (intro exI [of _ "c # as"] exI [of _ "e # bs"]) simp
  next
    case False
    then show ?thesis using 1(2) by (auto simp: digits_step(2) [OF False])
  qed
qed

text \<open>The numbers of a round, without their leading zeros, and what the round makes of them.\<close>

lemma takeWhile_all_append: "list_all P xs \<Longrightarrow> takeWhile P (xs @ ys) = xs @ takeWhile P ys" "list_all P xs \<Longrightarrow> dropWhile P (xs @ ys) = dropWhile P ys"
  by (induction xs) simp_all

lemma longer_number:
  assumes "list_all digit (as @ cs)" "cs \<noteq> []" "as @ cs = [] \<or> hd (as @ cs) \<noteq> CHR ''0''" "list_all digit bs" "length as = length bs"
  shows "digits_value bs < digits_value (as @ cs)"
proof -
  obtain c es where ce: "as @ cs = c # es" using assms(2) by (cases "as @ cs") auto
  have d: "digit c" "list_all digit es" "c \<noteq> CHR ''0''" using assms(1,3) unfolding ce by simp_all
  have "code_of c \<noteq> 48"
  proof
    assume "code_of c = 48"
    then have "code_of c = code_of (CHR ''0'')" by (simp add: code_of_def)
    then show False using d(3) code_inj by blast
  qed
  then have "1 \<le> code_of c - 48" using d(1) by (simp add: isdigit_def)
  then have "1 * 10 ^ length es \<le> (code_of c - 48) * 10 ^ length es" by (intro mult_right_mono) simp_all
  moreover have "0 \<le> digits_value es" using number_bounds [OF d(2)] by simp
  ultimately have "10 ^ length es \<le> digits_value (as @ cs)" unfolding ce digits_value.simps by linarith
  moreover have "length bs \<le> length es" using arg_cong [OF ce, of length] assms(2,5) by (cases cs) simp_all
  then have "(10 :: int) ^ length bs \<le> 10 ^ length es" by (intro power_increasing) simp_all
  ultimately show ?thesis using number_bounds [OF assms(4)] by linarith
qed

lemma digits_round:
  assumes "digits (skip_zeros val) (skip_zeros ref) 0 = (v, r, d)"
  defines "n s \<equiv> digits_value (takeWhile digit s)"
  shows "isdigit (chr v) \<Longrightarrow> n ref < n val" "isdigit (chr r) \<Longrightarrow> n val < n ref"
    "\<not> isdigit (chr v) \<Longrightarrow> \<not> isdigit (chr r) \<Longrightarrow> sgn d = sgn (n val - n ref) \<and> v = dropWhile digit val \<and> r = dropWhile digit ref"
proof -
  obtain as bs where s: "skip_zeros val = as @ v" "skip_zeros ref = bs @ r" "length as = length bs" "list_all digit as" "list_all digit bs"
      "\<not> (isdigit (chr v) \<and> isdigit (chr r))" "sgn d = sgn (digits_value as - digits_value bs)"
    using digits_key [OF assms(1)] by auto
  have first: "takeWhile digit (skip_zeros t) = [] \<or> hd (takeWhile digit (skip_zeros t)) \<noteq> CHR ''0''" for t
  proof (cases "skip_zeros t")
    case (Cons c cs)
    then have "c \<noteq> CHR ''0''" using hd_dropWhile [of "\<lambda>c. c = CHR ''0''" t] by (simp add: skip_zeros_def)
    then show ?thesis by (simp only: Cons takeWhile.simps) simp
  qed simp
  have n: "n val = digits_value (as @ takeWhile digit v)" "n ref = digits_value (bs @ takeWhile digit r)"
    using number_zero(1) [of val] number_zero(1) [of ref] by (simp_all add: n_def s(1,2) takeWhile_all_append(1) [OF s(4)] takeWhile_all_append(1) [OF s(5)])
  have e: "\<not> isdigit (chr t) \<Longrightarrow> takeWhile digit t = [] \<and> dropWhile digit t = t" for t by (cases t) simp_all
  have l: "list_all digit (takeWhile digit t)" for t by (auto simp: list_all_iff dest: set_takeWhileD)
  have f: "as @ takeWhile digit v = [] \<or> hd (as @ takeWhile digit v) \<noteq> CHR ''0''" "bs @ takeWhile digit r = [] \<or> hd (bs @ takeWhile digit r) \<noteq> CHR ''0''"
    using first [of val] first [of ref] by (simp_all only: s(1,2) takeWhile_all_append(1) [OF s(4)] takeWhile_all_append(1) [OF s(5)])
  show "n ref < n val" if "isdigit (chr v)"
  proof -
    have "takeWhile digit v \<noteq> []" using that by (cases v) simp_all
    then show ?thesis using longer_number [of as "takeWhile digit v" bs] f(1) s(3-6) l e [of r] that by (simp add: n)
  qed
  show "n val < n ref" if "isdigit (chr r)"
  proof -
    have "takeWhile digit r \<noteq> []" using that by (cases r) simp_all
    then show ?thesis using longer_number [of bs "takeWhile digit r" as] f(2) s(3-6) l e [of v] that by (simp add: n)
  qed
  show "sgn d = sgn (n val - n ref) \<and> v = dropWhile digit val \<and> r = dropWhile digit ref" if "\<not> isdigit (chr v)" "\<not> isdigit (chr r)"
    using e that s(7) number_zero(2) [of val] number_zero(2) [of ref] takeWhile_all_append(2) [OF s(4), of v] takeWhile_all_append(2) [OF s(5), of r]
    by (simp add: n s(1,2))
qed

section \<open>The comparison\<close>

lemma cstring_parts: "cstring s \<Longrightarrow> cstring (dropWhile P s)"
  by (auto simp: cstring_def dest: set_dropWhileD)

lemma verrevcmp_key:
  assumes "cstring val" "cstring ref"
  shows "\<exists>r. verrevcmp val ref = Some r \<and> sgn r = zcmp (version_key val) (version_key ref)"
  using assms
proof (induction val ref rule: verrevcmp.induct)
  case (1 val ref)
  show ?case
  proof (cases "val = [] \<and> ref = []")
    case True
    then show ?thesis by (subst verrevcmp.simps) (simp add: version_key.simps)
  next
    case ne: False
    let ?v = "dropWhile (\<lambda>c. \<not> digit c) val" and ?r = "dropWhile (\<lambda>c. \<not> digit c) ref"
    let ?n = "\<lambda>s. digits_value (takeWhile digit s)"
    let ?as = "?n ?v # version_key (dropWhile digit ?v)" and ?bs = "?n ?r # version_key (dropWhile digit ?r)"
    consider d where "nondigits val ref = Some (Inl d)" "zcmp (letters val @ 0 # ?as) (letters ref @ 0 # ?bs) = sgn d"
      | "nondigits val ref = Some (Inr (?v, ?r))" "zcmp (letters val @ 0 # ?as) (letters ref @ 0 # ?bs) = zcmp ?as ?bs"
      using nondigits_key [OF 1(2,3), of ?as ?bs] by blast
    then show ?thesis
    proof cases
      case 1
      then show ?thesis using ne by (subst verrevcmp.simps) (auto simp: zcmp_key)
    next
      case 2
      obtain v2 r2 d where d: "digits (skip_zeros ?v) (skip_zeros ?r) 0 = (v2, r2, d)" by (metis prod_cases3)
      have step: "verrevcmp val ref = (if isdigit (chr v2) then Some 1 else if isdigit (chr r2) then Some (- 1)
          else if d \<noteq> 0 then Some d else verrevcmp v2 r2)"
        by (subst verrevcmp.simps) (simp only: if_not_P [OF ne] 2(1) option.case sum.case prod.case d)
      have key: "zcmp (version_key val) (version_key ref) = zcmp ?as ?bs" using 2(2) by (simp add: zcmp_key)
      show ?thesis
      proof (cases "isdigit (chr v2) \<or> isdigit (chr r2) \<or> d \<noteq> 0")
        case True
        then show ?thesis using digits_round [OF d] by (auto simp: step key sgn_if split: if_splits)
      next
        case False
        then have s: "?n ?v = ?n ?r" "v2 = dropWhile digit ?v" "r2 = dropWhile digit ?r" using digits_round(3) [OF d] by (auto simp: sgn_if split: if_splits)
        have "\<exists>r. verrevcmp v2 r2 = Some r \<and> sgn r = zcmp (version_key v2) (version_key r2)"
          using 1(1) [OF ne 2(1) refl refl d [symmetric] refl] False 1(2,3) s(2,3) by (simp add: cstring_parts)
        then show ?thesis using False s by (simp add: step key)
      qed
    qed
  qed
qed

text \<open>
  C34: the comparison of two version strings ends, never reads behind the end of a string, and is the comparison of the sequences
  that stand for the versions: of the letters up to the first digit by their order, where the tilde is before the end of a part
  and the letters are before the other characters, then of the number that follows by its value, whatever its length and its
  leading zeros, and so on; the first difference decides, and a version that has ended counts as zeros.
\<close>

theorem verrevcmp_compares_keys:
  assumes "cstring val" "cstring ref"
  shows "\<exists>r. verrevcmp val ref = Some r \<and> sgn r = zcmp (version_key val) (version_key ref)"
  using assms by (rule verrevcmp_key)

text \<open>\<open>1.010~rc\<close> is before \<open>1.10\<close>, and \<open>1.9\<close> before both.\<close>

theorem verrevcmp_compares_keys_witness:
  "(\<exists>r. verrevcmp ''1.010~rc'' ''1.10'' = Some r \<and> r < 0) \<and> (\<exists>r. verrevcmp ''1.9'' ''1.010~rc'' = Some r \<and> r < 0)"
proof -
  have c: "cstring ''1.010~rc''" "cstring ''1.10''" "cstring ''1.9''" by (simp_all add: cstring_def)
  have k: "zcmp (version_key ''1.010~rc'') (version_key ''1.10'') = - 1" "zcmp (version_key ''1.9'') (version_key ''1.010~rc'') = - 1"
    by code_simp+
  show ?thesis
    using verrevcmp_compares_keys [OF c(1,2)] verrevcmp_compares_keys [OF c(3,1)] unfolding k by (auto simp: sgn_if split: if_splits)
qed

section \<open>Versions and the program\<close>

definition version_ok :: "versionrevision \<Rightarrow> bool" where
  "version_ok v \<longleftrightarrow> cstring (version v) \<and> cstring (revision v)"

definition version_cmp :: "versionrevision \<Rightarrow> versionrevision \<Rightarrow> int" where
  "version_cmp v w =
     (if zcmp [uint (epoch v)] [uint (epoch w)] \<noteq> 0 then zcmp [uint (epoch v)] [uint (epoch w)]
      else if zcmp (version_key (version v)) (version_key (version w)) \<noteq> 0 then zcmp (version_key (version v)) (version_key (version w))
      else zcmp (version_key (revision v)) (version_key (revision w)))"

interpretation vc: comparator version_cmp
proof -
  have "comparator (\<lambda>v w. if zcmp (version_key (version v)) (version_key (version w)) \<noteq> 0 then zcmp (version_key (version v)) (version_key (version w))
      else zcmp (version_key (revision v)) (version_key (revision w)))"
    by (rule comparator.continued [OF zc.by_image [of "\<lambda>v. version_key (version v)"] zc.by_image [of "\<lambda>v. version_key (revision v)"]])
  from comparator.continued [OF zc.by_image [of "\<lambda>v. [uint (epoch v)]"] this] show "comparator version_cmp"
    by (simp add: version_cmp_def [abs_def])
qed

lemma versioncompare_cmp:
  assumes "version_ok v" "version_ok w"
  shows "\<exists>r. versioncompare v w = Some r \<and> sgn r = version_cmp v w"
proof -
  obtain r r' where r: "verrevcmp (version v) (version w) = Some r" "sgn r = zcmp (version_key (version v)) (version_key (version w))"
      "verrevcmp (revision v) (revision w) = Some r'" "sgn r' = zcmp (version_key (revision v)) (version_key (revision w))"
    using verrevcmp_key assms unfolding version_ok_def by meson
  consider "epoch v > epoch w" | "epoch v < epoch w" | "epoch v = epoch w" by fastforce
  then show ?thesis
  proof cases
    case 1
    then show ?thesis by (simp add: versioncompare_def version_cmp_def word_less_def sgn_if)
  next
    case 2
    then show ?thesis by (simp add: versioncompare_def version_cmp_def word_less_def sgn_if not_less_iff_gr_or_eq)
  next
    case 3
    then show ?thesis using r by (auto simp: versioncompare_def version_cmp_def sgn_if split: if_splits)
  qed
qed

text \<open>Versions are totally preordered.\<close>

lemma versions_preordered:
  assumes "version_ok u" "version_ok v" "version_ok w"
  shows "\<exists>uv vw uw vu. versioncompare u v = Some uv \<and> versioncompare v w = Some vw \<and> versioncompare u w = Some uw \<and> versioncompare v u = Some vu \<and>
    sgn vu = - sgn uv \<and> (uv \<le> 0 \<and> vw \<le> 0 \<longrightarrow> uw \<le> 0) \<and> (uv = 0 \<longrightarrow> (uw \<le> 0 \<longleftrightarrow> vw \<le> 0))"
proof -
  have le: "r \<le> 0 \<longleftrightarrow> version_cmp a b \<le> 0" "r = 0 \<longleftrightarrow> version_cmp a b = 0" if "sgn r = version_cmp a b" for r a b
    using that [symmetric] by (simp_all add: sgn_if)
  obtain uv vw uw vu where c: "versioncompare u v = Some uv" "sgn uv = version_cmp u v" "versioncompare v w = Some vw" "sgn vw = version_cmp v w"
      "versioncompare u w = Some uw" "sgn uw = version_cmp u w" "versioncompare v u = Some vu" "sgn vu = version_cmp v u"
    using versioncompare_cmp assms by meson
  have "sgn (version_cmp v u) = - sgn (version_cmp u v)" by (rule vc.swap)
  then have "sgn vu = - sgn uv" using c(2,8) by (metis sgn_sgn)
  then show ?thesis using c vc.trans [of u v w] vc.equal_left [of u v w] le by blast
qed

text \<open>The exit status for versions without an epoch; \<open><\<close> and \<open>>\<close> are \<open><=\<close> and \<open>>=\<close>, and an unknown operator is an error.\<close>

lemma parse_plain: "s \<noteq> [] \<Longrightarrow> CHR '':'' \<notin> set s \<Longrightarrow> parseversion s = Inr \<lparr>epoch = 0, version = s, revision = []\<rparr>"
  by (simp add: parseversion_def)

lemma compare_main_status:
  assumes "a \<noteq> []" "b \<noteq> []" "CHR '':'' \<notin> set a" "CHR '':'' \<notin> set b" "cstring a" "cstring b"
  defines "z \<equiv> zcmp (version_key a) (version_key b)"
  shows "compare_main [a, rel, b] = Some (if
    rel \<in> {''<='', ''<''} \<and> z \<le> 0 \<or> rel \<in> {''>='', ''>''} \<and> 0 \<le> z \<or> rel = ''<<'' \<and> z < 0 \<or> rel = ''>>'' \<and> 0 < z \<or> rel = ''='' \<and> z = 0
    then 0 else 1)"
proof -
  let ?v = "\<lambda>s. \<lparr>epoch = 0, version = s, revision = []\<rparr>"
  obtain r where r: "versioncompare (?v a) (?v b) = Some r" "sgn r = version_cmp (?v a) (?v b)"
    using versioncompare_cmp [of "?v a" "?v b"] assms(5,6) by (auto simp: version_ok_def cstring_def)
  have "version_cmp (?v a) (?v b) = z" by (simp add: version_cmp_def z_def zcmp_self)
  then have s: "z = sgn r" using r(2) by simp
  show ?thesis
    by (simp add: compare_main_def parse_plain assms(1-4) versionsatisfied3_def r(1) s sgn_if)
qed

text \<open>An epoch may be missing in front of its colon, although the message for it says that it is not a number, and may be negative.\<close>

lemma odd_epochs: "parseversion '':1'' = Inr \<lparr>epoch = 0, version = ''1'', revision = []\<rparr>"
  "parseversion ''-1:2'' = Inr \<lparr>epoch = 0xFFFFFFFFFFFFFFFF, version = ''2'', revision = []\<rparr>"
  by code_simp+

end
