(* ===== verification/Spec2Isabelle.thy ===== *)
theory Spec2Isabelle
  imports Checksum Clock FatProps NameEntries NamesProps DirProps MountProps EntryProps ShortNames UpcaseTable WriteProps ApiProps VfsNames VfsSuper
    VfsModes VfsBlocks VfsIndex VfsOptions VfsDentries NandProps FlashProps VersionProps
begin

text \<open>
  The exFAT/FAT file system driver of the LinuxConsole tool chain, \<open>src/2.12/tools/src/exfat/\<close>: a Linux kernel module
  that mounts exFAT, FAT12, FAT16 and FAT32 volumes.  This development translates its C code, from the byte macros up
  to the interface that the VFS layer calls, and proves what makes it correct.  It also covers two small programs of the
  tool chain that have logic of their own: \<open>flashimg-0.1/\<close>, which builds images for flash memory, and
  \<open>opkg-utils/opkg-compare-versions.c\<close>, which compares the version numbers of packages.

  \<^bold>\<open>The program.\<close>  \<open>exfat_api.c\<close> is the interface: a function \<open>FsX\<close> checks its arguments, takes the semaphore of the
  volume and calls \<open>ffsX\<close> of \<open>exfat_core.c\<close>.  That file holds the operations on files and directories, and below them,
  in layers, the directories (entries, entry sets, names), the chains of clusters (allocation, deallocation), the
  allocation bitmap of exFAT, the up-case table, mounting, and the sector operations.  The table of functions \<open>fs_func\<close>
  selects the FAT or the exFAT version of an operation.  \<open>exfat_cache.c\<close> keeps two caches of sectors, one for the file
  allocation table and one for directories; \<open>exfat_nls.c\<close> converts and compares names; \<open>exfat_oal.c\<close> has the clock and
  the semaphores; \<open>exfat_bitmap.c\<close> and \<open>exfat_blkdev.c\<close> are the bit operations and the block device.
  \<open>exfat_super.c\<close> connects all this with the kernel: inodes and their index by the position of the entry, dentries,
  pages, the mount options and the module.

  \<^bold>\<open>The state.\<close>  \<open>struct super_block\<close>, with \<open>FS_INFO_T\<close> and \<open>BD_INFO_T\<close> behind it, is the record \<open>sb\<close> of \<open>State\<close>, which
  every operation takes and returns.  The buffers of the kernel are the store \<open>blk\<close> from block numbers to bytes, a
  \<open>buffer_head *\<close> is a block number, and \<open>NULL\<close> is \<open>None\<close>.  An oracle \<open>io_ok\<close> decides of each request to the device whether
  it succeeds, another one (\<open>mem_ok\<close>) of each \<open>kmalloc\<close>; a theorem about all states therefore covers all patterns of failure.
  Integers of the C code have their width (\<open>u8\<close> to \<open>u64\<close> are words); values of type \<open>s32\<close> and \<open>s64\<close> are \<open>int\<close>s, and a
  conversion that can wrap is written out.  Errors are the values of \<open>ffs\<close>, the C code's own constants.  The use of
  a pointer that is \<open>NULL\<close> sets the flag \<open>panicked\<close>.  A loop with a bound is a recursion on the number of rounds or on a
  measure; a loop that follows a chain of clusters, which need not end on a damaged volume, is a
  \<open>partial_function (option)\<close> whose value \<open>None\<close> says that it never returns.  Theorems on such loops prove \<open>Some\<close>,
  or prove \<open>None\<close>.

  \<^bold>\<open>The theories\<close>, in the order of the layers.
    \<^item> \<open>Prelude\<close>: the integer types, and facts on words and lists.  \<open>Bytes\<close>: \<open>GET16\<close> to \<open>SET64\<close>, each an instance of the
      locale \<open>byte_codec\<close>.  \<open>Checksum\<close>: the three rotating checksums; every change of a single covered byte changes the
      checksum.  \<open>Bitmap\<close>: bit operations and the tables \<open>free_bit\<close> and \<open>used_bit\<close> (locale \<open>mark_set\<close>: a map of marks is a
      set).  \<open>Clock\<close>: \<open>tm_current\<close> and the two time conversions against a calendar in days.
    \<^item> \<open>State\<close>, \<open>BlockDev\<close>: the record \<open>sb\<close>, \<open>bdev_open\<close> to \<open>bdev_sync\<close>, \<open>sector_read\<close>, \<open>sector_write\<close>, \<open>fs_error\<close>.
    \<^item> \<open>Ring\<close>, \<open>Cache\<close>, \<open>CacheInv\<close>, \<open>CacheApi\<close>, \<open>CacheOps\<close>: the two caches with their pointers as the code links them,
      their invariant (the LRU ring and the hash chains hold each entry once, an entry holds what it says), and the
      locale \<open>block_cache\<close>, interpreted for both: a lookup returns the right buffer or \<open>NULL\<close> and leaves the volume alone,
      whatever the device does.  Walks carry fuel, one more than the number of entries, and \<open>CacheInv\<close> proves that a walk
      of a well-formed cache is over before.
    \<^item> \<open>FatTable\<close>, \<open>FatImpl\<close>, \<open>FatApi\<close>: \<open>FAT_read\<close> and \<open>FAT_write\<close> (\<open>__FAT_read\<close>, \<open>__FAT_write\<close>) byte for byte, with the
      FAT12 entries that cross a sector.  An entry format is the locale \<open>entry_format\<close>, with an instance for each of the four
      formats; \<open>FatImpl\<close> proves that the code implements them.
    \<^item> \<open>AllocBitmap\<close>, \<open>AllocSearch\<close>: the allocation bitmap of exFAT; the search for a free cluster is the first free one in
      an explicit order, which misses some clusters.
    \<^item> \<open>Cluster\<close>, \<open>Chain\<close>, \<open>ClusterApi\<close>, \<open>FatAlloc\<close>, \<open>FatProps\<close>: allocation, deallocation and traversal of chains.
      \<open>Chain\<close> is the abstract view: a table is a function, \<open>is_chain t c cs\<close> a terminated chain.
    \<^item> \<open>Layout\<close>, \<open>Dentry\<close>, \<open>DentryProps\<close>, \<open>NameEntries\<close>: the structures on the disk, the accessors of the entries (locale
      \<open>entry_codec\<close>, for the FAT and for the exFAT entries), and the entries with the units of a long name.
    \<^item> \<open>Upcase\<close>, \<open>UpcaseProps\<close>, \<open>UpcaseTable\<close>: the up-case table, its compressed form, and the built-in table.
    \<^item> \<open>Names\<close>, \<open>NamesProps\<close>: \<open>exfat_nls.c\<close>; the character tables of the kernel are the fields of \<open>nls_table\<close>.
    \<^item> \<open>Dir\<close>, \<open>EntrySet\<close>, \<open>DirScan\<close>, \<open>DirApi\<close>, \<open>DirProps\<close>: the entries of a directory by position, entry sets, and the
      loops that search a directory, all instances of \<open>scan_clusters\<close>; on a working volume such a scan is a recursion on
      the list of the entries of the directory.
    \<^item> \<open>Mount\<close>, \<open>MountProps\<close>: \<open>ffsMountVol\<close> and what it calls, volume information and sync.
    \<^item> \<open>FsFunc\<close>, \<open>Files\<close>, \<open>FileIO\<close>, \<open>FileOps\<close>: the function table, short names and paths; creation, removal and moving of
      entries; reading, writing, truncation; and the operations \<open>ffsLookupFile\<close> to \<open>ffsReadDir\<close>.
    \<^item> \<open>FileModel\<close>, \<open>FileProps\<close>: a file as the sequence of its bytes, and reading.  \<open>FileWrite\<close>, \<open>FileGrow\<close>, \<open>WriteProps\<close>:
      writing inside the clusters of a file, the rounds that append clusters, and \<open>ffsWriteFile\<close> as a whole.
    \<^item> \<open>EntryProps\<close>: the entry sets that \<open>get_entry_set_in_dir\<close> accepts.  \<open>ShortNames\<close>: the numbers that
      \<open>fat_generate_dos_name\<close> attaches to short names.
    \<^item> \<open>Api\<close>, \<open>ApiProps\<close>: the functions of \<open>exfat_api.c\<close>; their calls with any arguments are the relation \<open>api_call\<close>, and any
      sequence of calls gives the semaphores back.
    \<^item> \<open>Vfs\<close>, \<open>VfsNames\<close>, \<open>VfsDir\<close>, \<open>VfsFile\<close>, \<open>VfsSuper\<close>: \<open>exfat_super.c\<close>, on a store of inodes (\<open>vnode\<close>) beside the
      volume, in the record \<open>vfs\<close>.  What the kernel supplies is a record of functions that each operation takes:
      \<open>kernel\<close> (the inode cache, the dentry cache, the clock), \<open>name_services\<close> (hashing and case folding), \<open>pagecache\<close> and
      \<open>mount_services\<close>.  \<open>__lock_super\<close> is a flag; taking it twice is \<open>None\<close>, the value of a call that never returns.
      \<open>VfsModes\<close>: permission bits and attributes.  \<open>VfsBlocks\<close>: the blocks that the page cache is given.  \<open>VfsIndex\<close>: the
      table of inodes, the locale \<open>inode_index\<close>, and the operations as the steps \<open>index_step\<close>.  \<open>VfsOptions\<close>: the mount options
      printed and read.  \<open>VfsDentries\<close>: the contract of comparison and hash, the locale \<open>hashed_names\<close>, and a listing.
    \<^item> \<open>CText\<close>: what the two programs use of the C library to read numbers.  \<open>Nand\<close>, \<open>NandProps\<close>: the error correcting code of
      \<open>nand_ecc.c\<close>, a parity check for each bit of a bit address.  \<open>FlashImg\<close>, \<open>FlashProps\<close>: \<open>main.c\<close> with its files as a map and the
      image as a list of bytes; a file in a partition is a sequence of cells, a block with its out-of-band bytes.
    \<^item> \<open>Versions\<close>, \<open>VersionProps\<close>: \<open>verrevcmp\<close> and what is built on it; a version is a sequence of integers, and comparing is a
      total preorder (locale \<open>comparator\<close>, interpreted on such sequences and on versions with epochs).

  \<^bold>\<open>What is shown.\<close>  Each property carries its number in the text before it.  The main ones: a read returns the bytes of
  the file; a write changes exactly the bytes it is given, takes only free clusters and leaves the directory entry in
  agreement, and a read after it returns what was written; a table entry that is written reads back and no other entry changes, in all four formats; the FAT allocator
  takes the first free clusters and links them, deallocation undoes it; the entry formats and the long names
  round-trip; mounting establishes the geometry and the bitmap that the rest relies on; the caches are transparent
  under device failures; the directory scans are exact; a short name that is made up is new if its base has no tilde; no sequence of calls leaves a semaphore
  taken; the flash tool reads back what it writes, and its code locates an error of one bit; versions compare as
  the sequences they stand for.  Some theorems and lemmas show where the code
  fails: loops that never end on damaged chains, a search that misses free clusters, a directory that counts as empty
  on a device that is gone, a made-up short name that the directory has already, and a volume that is mounted although its data area lies behind its end.

  \<^bold>\<open>Not modelled.\<close>  In \<open>exfat_super.c\<close>: the tables of function pointers, the constructors of the slab cache
  (\<open>exfat_alloc_inode\<close>, \<open>init_once\<close>), the wrappers that differ between kernel versions (\<open>exfat_get_sb\<close>,
  \<open>exfat_fs_mount\<close>, \<open>exfat_delete_inode\<close>, \<open>exfat_file_fsync\<close>), \<open>truncate_lock\<close> and the spin lock of the inode table: the
  file is read as it is compiled for kernel 4.7 on a 64-bit machine.  Reference counts of buffers.  The
  semaphores inside the caches, which only the holder of the volume's semaphore reaches.  The discard request behind the
  \<open>return\<close> of \<open>clr_alloc_bitmap\<close>, which cannot be reached.  Code under configuration options that \<open>exfat_config.h\<close> turns
  off, unless said otherwise.  Of \<open>flashimg\<close>: what it prints, a \<open>malloc\<close> that fails, big-endian machines.  The rest of the C code of
  the repository (boot loaders, compression, an audio kit, launchers, a demonstration of \<open>pivot_root\<close>) is vendored or glue.
\<close>

end
